(* ===== verification/Prelude.thy ===== *)
theory Prelude
  imports Main "HOL-Library.AList"
begin

text \<open>
  Shared notation, automation and lemmas: error values with the shape of Go's
  wrapped errors, effectful computations as explicit state passing, times as
  nanoseconds, and generic facts on lists and maps. The collections declared
  here carry the component proofs: \<open>effect_simps\<close> unfolds the effect
  combinators, \<open>wp_simps\<close> runs a handler symbolically, \<open>store_defs\<close> collects the store operations, \<open>valid_simps\<close> the validators of the runtime contract.
\<close>

named_theorems effect_simps \<open>unfolding rules of the effect combinators\<close>
named_theorems valid_simps \<open>the canonical validators, unfolded\<close>
named_theorems wp_simps \<open>weakest preconditions of the effect combinators and primitives\<close>
named_theorems store_defs \<open>the operations of the in-memory stores\<close>

subsection \<open>Errors\<close>

text \<open>
  A validation error names the rejected field and the constant part of the
  message (the format string of the source, without its interpolated values);
  \<open>FieldIn f e\<close> is an error wrapped with the field it was found under.
\<close>

datatype field_error =
    FieldError string string
  | FieldIn string field_error

text \<open>
  Go errors: a sentinel, a validation error, a bare message, or a join. An
  \<open>errors.Is\<close> test looks for the sentinel through every join.
\<close>

datatype 's go_error =
    Sentinel 's
  | Invalid field_error
  | Message string
  | Joined "'s go_error list"

fun errors_is :: "'s go_error \<Rightarrow> 's \<Rightarrow> bool" where
  "errors_is (Sentinel s) t \<longleftrightarrow> s = t"
| "errors_is (Invalid _) t \<longleftrightarrow> False"
| "errors_is (Message _) t \<longleftrightarrow> False"
| "errors_is (Joined es) t \<longleftrightarrow> (\<exists>e \<in> set es. errors_is e t)"

text \<open>The first failing check of a sequence of early returns; \<open>None\<close> is Go's nil error.\<close>

fun first_error :: "'e option list \<Rightarrow> 'e option" where
  "first_error [] = None"
| "first_error (None # cs) = first_error cs"
| "first_error (Some e # cs) = Some e"

definition fail_if :: "bool \<Rightarrow> 'e \<Rightarrow> 'e option" where
  "fail_if b e = (if b then Some e else None)"

definition within :: "string \<Rightarrow> field_error option \<Rightarrow> field_error option" where
  "within f r = map_option (FieldIn f) r"

lemma first_error_None: "first_error cs = None \<longleftrightarrow> (\<forall>c \<in> set cs. c = None)"
  by (induction cs rule: first_error.induct) auto

lemma first_error_Cons: "first_error (c # cs) = (case c of None \<Rightarrow> first_error cs | Some e \<Rightarrow> Some e)"
  by (cases c) auto

lemma first_error_append:
  "first_error (cs @ ds) = (case first_error cs of None \<Rightarrow> first_error ds | Some e \<Rightarrow> Some e)"
  by (induction cs rule: first_error.induct) auto

lemma first_error_in_set: "first_error cs = Some e \<Longrightarrow> Some e \<in> set cs"
  by (induction cs rule: first_error.induct) auto

lemma fail_if_None [simp]: "fail_if b e = None \<longleftrightarrow> \<not> b"
  by (simp add: fail_if_def)

lemma fail_if_Some [simp]: "fail_if b e = Some e' \<longleftrightarrow> b \<and> e = e'"
  by (auto simp: fail_if_def)

lemma within_None [simp]: "within f r = None \<longleftrightarrow> r = None"
  by (simp add: within_def)

subsection \<open>Effects\<close>

text \<open>
  A call that may fail and may change the state: it returns an error or a
  value, and the state it leaves behind in either case. Nothing is rolled back
  on an error, as in the source.
\<close>

type_synonym ('s, 'w, 'a) effect = "'w \<Rightarrow> ('s go_error + 'a) \<times> 'w"

definition ret :: "'a \<Rightarrow> ('s, 'w, 'a) effect" where
  "ret a w = (Inr a, w)"

definition fail :: "'s go_error \<Rightarrow> ('s, 'w, 'a) effect" where
  "fail e w = (Inl e, w)"

definition andthen :: "('s, 'w, 'a) effect \<Rightarrow> ('a \<Rightarrow> ('s, 'w, 'b) effect) \<Rightarrow> ('s, 'w, 'b) effect" where
  "andthen m k w = (case m w of (Inl e, w') \<Rightarrow> (Inl e, w') | (Inr a, w') \<Rightarrow> k a w')"

definition on_error :: "('s go_error \<Rightarrow> 't go_error) \<Rightarrow> ('w \<Rightarrow> ('s go_error + 'a) \<times> 'w) \<Rightarrow> ('t, 'w, 'a) effect" where
  "on_error f m w = (case m w of (Inl e, w') \<Rightarrow> (Inl (f e), w') | (Inr a, w') \<Rightarrow> (Inr a, w'))"

definition attempt :: "('s, 'w, 'a) effect \<Rightarrow> ('s, 'w, 's go_error + 'a) effect" where
  "attempt m w = (case m w of (r, w') \<Rightarrow> (Inr r, w'))"

definition require :: "bool \<Rightarrow> 's go_error \<Rightarrow> ('s, 'w, unit) effect" where
  "require b e = (if b then ret () else fail e)"

definition check :: "'s go_error option \<Rightarrow> ('s, 'w, unit) effect" where
  "check r = (case r of None \<Rightarrow> ret () | Some e \<Rightarrow> fail e)"

lemma ret_apply [simp, effect_simps]: "ret a w = (Inr a, w)"
  by (simp add: ret_def)

lemma fail_apply [simp, effect_simps]: "fail e w = (Inl e, w)"
  by (simp add: fail_def)

lemma require_True [simp]: "require True e = ret ()"
  and require_False [simp]: "require False e = fail e"
  by (simp_all add: require_def)

lemma check_None [simp]: "check None = ret ()"
  and check_Some [simp]: "check (Some e) = fail e"
  by (simp_all add: check_def)

lemma andthen_ret [simp]: "andthen (ret a) k = k a"
  by (simp add: andthen_def fun_eq_iff)

lemma andthen_fail [simp]: "andthen (fail e) k = fail e"
  by (simp add: andthen_def fun_eq_iff)

lemma andthen_Inr [simp]: "m w = (Inr a, w') \<Longrightarrow> andthen m k w = k a w'"
  by (simp add: andthen_def)

lemma andthen_Inl [simp]: "m w = (Inl e, w') \<Longrightarrow> andthen m k w = (Inl e, w')"
  by (simp add: andthen_def)

lemma andthen_Inr_iff:
  "andthen m k w = (Inr b, w'') \<longleftrightarrow> (\<exists>a w'. m w = (Inr a, w') \<and> k a w' = (Inr b, w''))"
  by (auto simp: andthen_def split: prod.splits sum.splits)

lemma andthenE:
  assumes "andthen m k w = (Inr b, w'')"
  obtains a w' where "m w = (Inr a, w')" and "k a w' = (Inr b, w'')"
  using assms by (auto simp: andthen_Inr_iff)

lemma require_Inr_iff [simp]: "require b e w = (Inr u, w') \<longleftrightarrow> b \<and> w' = w"
  by (auto simp: require_def)

lemma check_Inr_iff [simp]: "check r w = (Inr u, w') \<longleftrightarrow> r = None \<and> w' = w"
  by (cases r) auto

lemma on_error_Inr_iff [simp]: "on_error f m w = (Inr a, w') \<longleftrightarrow> m w = (Inr a, w')"
  by (auto simp: on_error_def split: prod.splits sum.splits)

lemma attempt_Inr_iff [simp]: "attempt m w = (Inr r, w') \<longleftrightarrow> m w = (r, w')"
  by (auto simp: attempt_def split: prod.splits)

text \<open>
  Weakest preconditions: what must hold of a state for a computation to end in
  \<open>Q\<close> when it returns and in \<open>E\<close> when it errs. The rules run a handler
  symbolically, in the order of its calls.
\<close>

definition wp :: "('s, 'w, 'a) effect \<Rightarrow> ('a \<Rightarrow> 'w \<Rightarrow> bool) \<Rightarrow> ('s go_error \<Rightarrow> 'w \<Rightarrow> bool) \<Rightarrow> 'w \<Rightarrow> bool" where
  "wp m Q E w \<longleftrightarrow> (case m w of (Inl e, w') \<Rightarrow> E e w' | (Inr a, w') \<Rightarrow> Q a w')"

lemma wp_ret [wp_simps]: "wp (ret a) Q E w \<longleftrightarrow> Q a w"
  and wp_fail [wp_simps]: "wp (fail e) Q E w \<longleftrightarrow> E e w"
  by (simp_all add: wp_def)

lemma wp_andthen [wp_simps]: "wp (andthen m k) Q E w \<longleftrightarrow> wp m (\<lambda>a. wp (k a) Q E) E w"
  by (auto simp: wp_def andthen_def split: prod.splits sum.splits)

lemma wp_require [wp_simps]: "wp (require b e) Q E w \<longleftrightarrow> (b \<longrightarrow> Q () w) \<and> (\<not> b \<longrightarrow> E e w)"
  by (simp add: wp_def require_def)

lemma wp_check [wp_simps]: "wp (check r) Q E w \<longleftrightarrow> (case r of None \<Rightarrow> Q () w | Some e \<Rightarrow> E e w)"
  by (cases r) (simp_all add: wp_def)

lemma wp_on_error [wp_simps]: "wp (on_error f m) Q E w \<longleftrightarrow> wp m Q (\<lambda>e. E (f e)) w"
  by (auto simp: wp_def on_error_def split: prod.splits sum.splits)

lemma wp_attempt [wp_simps]: "wp (attempt m) Q E w \<longleftrightarrow> wp m (\<lambda>a. Q (Inr a)) (\<lambda>e. Q (Inl e)) w"
  by (auto simp: wp_def attempt_def split: prod.splits sum.splits)

lemma wp_if [wp_simps]: "wp (if b then m else m') Q E w \<longleftrightarrow> (b \<longrightarrow> wp m Q E w) \<and> (\<not> b \<longrightarrow> wp m' Q E w)"
  by simp

lemma wp_case_option [wp_simps]:
  "wp (case x of None \<Rightarrow> m | Some a \<Rightarrow> k a) Q E w \<longleftrightarrow>
     (x = None \<longrightarrow> wp m Q E w) \<and> (\<forall>a. x = Some a \<longrightarrow> wp (k a) Q E w)"
  by (cases x) simp_all

lemma wp_case_sum [wp_simps]:
  "wp (case x of Inl e \<Rightarrow> m e | Inr a \<Rightarrow> k a) Q E w \<longleftrightarrow>
     (\<forall>e. x = Inl e \<longrightarrow> wp (m e) Q E w) \<and> (\<forall>a. x = Inr a \<longrightarrow> wp (k a) Q E w)"
  by (cases x) simp_all

lemma wp_case_prod [wp_simps]: "wp (case x of (a, b) \<Rightarrow> m a b) Q E w \<longleftrightarrow> wp (m (fst x) (snd x)) Q E w"
  by (simp add: case_prod_beta)

lemma wp_let [wp_simps]: "wp (let x = a in m x) Q E w \<longleftrightarrow> wp (m a) Q E w"
  by (simp add: Let_def)

lemma wpI:
  assumes "\<And>a w'. m w = (Inr a, w') \<Longrightarrow> Q a w'" and "\<And>e w'. m w = (Inl e, w') \<Longrightarrow> E e w'"
  shows "wp m Q E w"
  using assms by (auto simp: wp_def split: prod.splits sum.splits)

lemma wp_mono:
  assumes "wp m Q E w" and "\<And>a w'. Q a w' \<Longrightarrow> Q' a w'" and "\<And>e w'. E e w' \<Longrightarrow> E' e w'"
  shows "wp m Q' E' w"
  using assms by (auto simp: wp_def split: prod.splits sum.splits)

lemma wp_Inr: "wp m Q E w \<Longrightarrow> m w = (Inr a, w') \<Longrightarrow> Q a w'"
  and wp_Inl: "wp m Q E w \<Longrightarrow> m w = (Inl e, w') \<Longrightarrow> E e w'"
  by (simp_all add: wp_def)

lemma wp_state: "wp m (\<lambda>_. P) (\<lambda>_. P) w \<longleftrightarrow> P (snd (m w))"
  by (auto simp: wp_def split: prod.splits sum.splits)

subsection \<open>Time\<close>

text \<open>
  An instant is its number of nanoseconds since Go's zero time (January 1,
  year 1, UTC): the zero value is 0, \<open>Before\<close>, \<open>After\<close> and \<open>Equal\<close>
  compare instants, \<open>UTC\<close> changes the display location only.
\<close>

type_synonym time = int
type_synonym duration = int

definition is_zero_time :: "time \<Rightarrow> bool" where
  [simp]: "is_zero_time t \<longleftrightarrow> t = 0"

definition second :: duration where
  "second = 1000000000"

definition minute :: duration where
  "minute = 60 * second"

text \<open>\<open>Time.Truncate\<close> rounds towards the zero time's grid, downwards.\<close>

definition truncate_to :: "duration \<Rightarrow> time \<Rightarrow> time" where
  "truncate_to d t = t - t mod d"

lemma truncate_to_idem: "truncate_to d (truncate_to d t) = truncate_to d t"
  by (simp add: truncate_to_def mod_diff_left_eq)

subsection \<open>Lists and maps\<close>

lemma list_all_first_error:
  "first_error (map f xs) = None \<longleftrightarrow> (\<forall>x \<in> set xs. f x = None)"
  by (auto simp: first_error_None)

lemma map_of_update [simp]: "map_of (AList.update k v al) = (map_of al)(k \<mapsto> v)"
  by (rule update_conv')

lemma distinct_fst_inj:
  "distinct (map fst al) \<Longrightarrow> (k, v) \<in> set al \<Longrightarrow> (k, v') \<in> set al \<Longrightarrow> v = v'"
  by (auto simp: eq_key_imp_eq_value)

end
