(* ===== verification/GoStrings.thy ===== *)
theory GoStrings
  imports Prelude
begin

text \<open>
  The part of Go's \<open>strings\<close>, \<open>unicode\<close> and \<open>regexp\<close> packages the source
  relies on, over byte strings: a \<open>string\<close> is the list of its bytes (one
  \<open>char\<close> each), \<open>length\<close> is Go's \<open>len\<close>.
\<close>

definition byte :: "char \<Rightarrow> nat" where
  "byte c = of_char c"

lemma byte_less_256 [simp]: "byte c < 256"
  by (simp add: byte_def)

lemma byte_inj [simp]: "byte c = byte d \<longleftrightarrow> c = d"
  by (simp add: byte_def)

subsection \<open>Character classes\<close>

definition is_lower :: "char \<Rightarrow> bool" where
  "is_lower c \<longleftrightarrow> 97 \<le> byte c \<and> byte c \<le> 122"

definition is_upper :: "char \<Rightarrow> bool" where
  "is_upper c \<longleftrightarrow> 65 \<le> byte c \<and> byte c \<le> 90"

definition is_digit :: "char \<Rightarrow> bool" where
  "is_digit c \<longleftrightarrow> 48 \<le> byte c \<and> byte c \<le> 57"

definition is_lower_hex :: "char \<Rightarrow> bool" where
  "is_lower_hex c \<longleftrightarrow> is_digit c \<or> (97 \<le> byte c \<and> byte c \<le> 102)"

definition is_hex :: "char \<Rightarrow> bool" where
  "is_hex c \<longleftrightarrow> is_lower_hex c \<or> (65 \<le> byte c \<and> byte c \<le> 70)"

definition is_control :: "char \<Rightarrow> bool" where
  "is_control c \<longleftrightarrow> byte c < 32 \<or> byte c = 127"

lemmas char_class_defs = is_lower_def is_upper_def is_digit_def is_lower_hex_def is_hex_def is_control_def

subsection \<open>strings.HasPrefix, HasSuffix, TrimPrefix, Contains, Split\<close>

definition has_prefix :: "string \<Rightarrow> string \<Rightarrow> bool" where
  "has_prefix s p \<longleftrightarrow> take (length p) s = p"

definition has_suffix :: "string \<Rightarrow> string \<Rightarrow> bool" where
  "has_suffix s p \<longleftrightarrow> has_prefix (rev s) (rev p)"

definition trim_prefix :: "string \<Rightarrow> string \<Rightarrow> string" where
  "trim_prefix s p = (if has_prefix s p then drop (length p) s else s)"

fun contains :: "string \<Rightarrow> string \<Rightarrow> bool" where
  "contains [] p \<longleftrightarrow> p = []"
| "contains (c # cs) p \<longleftrightarrow> has_prefix (c # cs) p \<or> contains cs p"

fun split_on :: "char \<Rightarrow> string \<Rightarrow> string list" where
  "split_on d [] = [[]]"
| "split_on d (c # cs) =
     (if c = d then [] # split_on d cs
      else (case split_on d cs of [] \<Rightarrow> [[c]] | w # ws \<Rightarrow> (c # w) # ws))"

lemma has_prefix_append [simp]: "has_prefix (p @ s) p"
  by (simp add: has_prefix_def)

lemma has_prefix_iff: "has_prefix s p \<longleftrightarrow> (\<exists>t. s = p @ t)"
  by (metis append_take_drop_id has_prefix_append has_prefix_def)

lemma trim_prefix_append [simp]: "trim_prefix (p @ s) p = s"
  by (simp add: trim_prefix_def)

lemma contains_append: "contains (a @ p @ b) p"
proof (induction a)
  case Nil
  then show ?case
    by (metis append_Nil append_is_Nil_conv contains.elims(3) has_prefix_append)
qed simp

lemma contains_split: "contains s p \<Longrightarrow> \<exists>a b. s = a @ p @ b"
proof (induction s)
  case (Cons c cs)
  then consider t where "c # cs = p @ t" | a b where "cs = a @ p @ b"
    by (auto simp: has_prefix_iff)
  then show ?case
  proof cases
    case 1
    then show ?thesis by (metis append_Nil)
  next
    case 2
    then show ?thesis by (metis append_Cons)
  qed
qed simp

lemma contains_iff: "contains s p \<longleftrightarrow> (\<exists>a b. s = a @ p @ b)"
  using contains_append contains_split by blast

lemma split_on_nonempty [simp]: "split_on d s \<noteq> []"
  by (induction s) (auto split: list.splits)

subsection \<open>strings.TrimSpace\<close>

text \<open>The UTF-8 encodings of the runes \<open>unicode.IsSpace\<close> accepts.\<close>

definition space_runes :: "string list" where
  "space_runes =
     [[CHR 0x09], [CHR 0x0A], [CHR 0x0B], [CHR 0x0C], [CHR 0x0D], [CHR 0x20],
      [CHR 0xC2, CHR 0x85], [CHR 0xC2, CHR 0xA0], [CHR 0xE1, CHR 0x9A, CHR 0x80],
      [CHR 0xE2, CHR 0x80, CHR 0x80], [CHR 0xE2, CHR 0x80, CHR 0x81], [CHR 0xE2, CHR 0x80, CHR 0x82],
      [CHR 0xE2, CHR 0x80, CHR 0x83], [CHR 0xE2, CHR 0x80, CHR 0x84], [CHR 0xE2, CHR 0x80, CHR 0x85],
      [CHR 0xE2, CHR 0x80, CHR 0x86], [CHR 0xE2, CHR 0x80, CHR 0x87], [CHR 0xE2, CHR 0x80, CHR 0x88],
      [CHR 0xE2, CHR 0x80, CHR 0x89], [CHR 0xE2, CHR 0x80, CHR 0x8A], [CHR 0xE2, CHR 0x80, CHR 0xA8],
      [CHR 0xE2, CHR 0x80, CHR 0xA9], [CHR 0xE2, CHR 0x80, CHR 0xAF], [CHR 0xE2, CHR 0x81, CHR 0x9F],
      [CHR 0xE3, CHR 0x80, CHR 0x80]]"

lemma space_runes_nonempty: "r \<in> set space_runes \<Longrightarrow> r \<noteq> []"
  by (auto simp: space_runes_def)

definition strip_rune :: "string list \<Rightarrow> string \<Rightarrow> string option" where
  "strip_rune rs s = map_option (\<lambda>r. drop (length r) s) (find (has_prefix s) rs)"

lemma strip_rune_shorter:
  assumes "strip_rune rs s = Some t" and "\<forall>r \<in> set rs. r \<noteq> []"
  shows "length t < length s"
proof -
  from assms(1) obtain r where r: "find (has_prefix s) rs = Some r" "t = drop (length r) s"
    by (auto simp: strip_rune_def)
  then have "r \<in> set rs" "has_prefix s r"
    by (auto simp: find_Some_iff)
  with assms(2) r(2) show ?thesis
    by (cases r) (auto simp: has_prefix_iff)
qed

text \<open>
  Trimming on the left strips space runes from the front; on the right the
  same on the reversed bytes. The last rune of a string starts at its nearest
  byte that is not a continuation byte, so a string ends with the encoding of a
  rune exactly when that rune is its last one.
\<close>

fun trim_runes :: "nat \<Rightarrow> string list \<Rightarrow> string \<Rightarrow> string" where
  "trim_runes 0 rs s = s"
| "trim_runes (Suc n) rs s =
     (case strip_rune rs s of None \<Rightarrow> s | Some t \<Rightarrow> trim_runes n rs t)"

definition trim_space :: "string \<Rightarrow> string" where
  "trim_space s =
     (let l = trim_runes (length s) space_runes s
      in rev (trim_runes (length l) (map rev space_runes) (rev l)))"

text \<open>Every stripped rune is at least a byte long, so \<open>length s\<close> rounds are enough.\<close>

lemma trim_runes_enough:
  "\<forall>r \<in> set rs. r \<noteq> [] \<Longrightarrow> length s \<le> n \<Longrightarrow> strip_rune rs (trim_runes n rs s) = None"
proof (induction n arbitrary: s)
  case 0
  then show ?case
    by (cases "strip_rune rs s") (auto dest: strip_rune_shorter)
next
  case (Suc n)
  show ?case
  proof (cases "strip_rune rs s")
    case None
    then show ?thesis by simp
  next
    case (Some t)
    with Suc.prems have "length t \<le> n"
      using strip_rune_shorter by fastforce
    with Suc Some show ?thesis by simp
  qed
qed

lemma trim_runes_length: "length (trim_runes n rs s) \<le> length s"
proof (induction n arbitrary: s)
  case (Suc n)
  have "length t \<le> length s" if "strip_rune rs s = Some t" for t
    using that by (auto simp: strip_rune_def)
  with Suc.IH show ?case
    by (auto split: option.split intro: le_trans)
qed simp

lemma trim_space_length: "length (trim_space s) \<le> length s"
  by (metis trim_space_def length_rev trim_runes_length le_trans)

text \<open>The \<open>canonical\<close> helper several packages define: non-empty and free of surrounding space.\<close>

definition canonical :: "string \<Rightarrow> bool" where
  "canonical v \<longleftrightarrow> v \<noteq> [] \<and> trim_space v = v"

text \<open>Stores build composite keys by joining with a NUL byte; the first part is recovered where it holds none.\<close>

definition nul_free :: "string \<Rightarrow> bool" where
  "nul_free t \<longleftrightarrow> CHR 0x00 \<notin> set t"

lemma nul_separated:
  assumes "nul_free t" and "nul_free t'"
  shows "t @ [CHR 0x00] @ r = t' @ [CHR 0x00] @ r' \<longleftrightarrow> t = t' \<and> r = r'"
proof
  assume "t @ [CHR 0x00] @ r = t' @ [CHR 0x00] @ r'"
  then obtain us where "t = t' @ us \<and> us @ CHR 0x00 # r = CHR 0x00 # r' \<or> t @ us = t' \<and> CHR 0x00 # r = us @ CHR 0x00 # r'"
    by (auto simp: append_eq_append_conv2)
  with assms show "t = t' \<and> r = r'" by (cases us) (auto simp: nul_free_def)
qed simp

subsection \<open>strings.EqualFold with a lower-case ASCII constant\<close>

text \<open>
  Simple case folding: ASCII letters fold to lower case, and two runes outside
  ASCII fold into it: U+017F (long s) and U+212A (the Kelvin sign).
\<close>

fun fold_ascii :: "string \<Rightarrow> string" where
  "fold_ascii [] = []"
| "fold_ascii (c # cs) =
     (if byte c = 197 \<and> take 1 cs = [CHR 0xBF] then CHR ''s'' # fold_ascii (drop 1 cs)
      else if byte c = 226 \<and> take 2 cs = [CHR 0x84, CHR 0xAA] then CHR ''k'' # fold_ascii (drop 2 cs)
      else (if is_upper c then char_of (byte c + 32) else c) # fold_ascii cs)"

definition equal_fold :: "string \<Rightarrow> string \<Rightarrow> bool" where
  "equal_fold s lower = (fold_ascii s = lower)"

end
