(* ===== verification/GoCrypto.thy ===== *)
theory GoCrypto
  imports GoStrings "HOL-Library.Word"
begin

text \<open>
  The hash of \<open>crypto/sha256\<close> (FIPS 180-4) with \<open>encoding/hex\<close>, written out
  over 32-bit words, and the digest references \<open>sha256:<64 hex>\<close> built on
  them. Ed25519 is a parameter of the definitions that use it (a verification
  function of public key, message and signature): see \<open>ed25519\<close> below.
\<close>

unbundle bit_operations_syntax

type_synonym u32 = "32 word"

subsection \<open>SHA-256\<close>

definition rotr :: "nat \<Rightarrow> u32 \<Rightarrow> u32" where
  "rotr n x = drop_bit n x OR push_bit (32 - n) x"

text \<open>
  The constants are the first 32 bits of the fractional parts of square and cube roots of the
  first primes. \<open>root_bits\<close> finds the integer \<open>k\<close>-th root bit by bit.
\<close>

fun root_bits :: "nat \<Rightarrow> nat \<Rightarrow> nat \<Rightarrow> nat \<Rightarrow> nat" where
  "root_bits k 0 n r = r"
| "root_bits k (Suc b) n r = root_bits k b n (if (r + 2 ^ b) ^ k \<le> n then r + 2 ^ b else r)"

definition root_word :: "nat \<Rightarrow> nat \<Rightarrow> u32" where
  "root_word k p = word_of_nat (root_bits k 36 (p * 2 ^ (32 * k)) 0)"

definition first_primes :: "nat list" where
  "first_primes = [2, 3, 5, 7, 11, 13, 17, 19, 23, 29, 31, 37, 41, 43, 47, 53, 59, 61, 67, 71, 73, 79, 83, 89, 97,
     101, 103, 107, 109, 113, 127, 131, 137, 139, 149, 151, 157, 163, 167, 173, 179, 181, 191, 193, 197, 199,
     211, 223, 227, 229, 233, 239, 241, 251, 257, 263, 269, 271, 277, 281, 283, 293, 307, 311]"

definition sha_k :: "u32 list" where
  "sha_k = map (root_word 3) first_primes"

definition sha_init :: "u32 list" where
  "sha_init = map (root_word 2) (take 8 first_primes)"

definition sha_round :: "u32 \<Rightarrow> u32 \<Rightarrow> u32 list \<Rightarrow> u32 list" where
  "sha_round k w st = (case st of [a, b, c, d, e, f, g, h] \<Rightarrow>
     let s1 = rotr 6 e XOR rotr 11 e XOR rotr 25 e;
         ch = (e AND f) XOR (NOT e AND g);
         t1 = h + s1 + ch + k + w;
         s0 = rotr 2 a XOR rotr 13 a XOR rotr 22 a;
         maj = (a AND b) XOR (a AND c) XOR (b AND c);
         t2 = s0 + maj
     in [t1 + t2, a, b, c, d + t1, e, f, g] | _ \<Rightarrow> st)"

definition sigma0 :: "u32 \<Rightarrow> u32" where
  "sigma0 x = rotr 7 x XOR rotr 18 x XOR drop_bit 3 x"

definition sigma1 :: "u32 \<Rightarrow> u32" where
  "sigma1 x = rotr 17 x XOR rotr 19 x XOR drop_bit 10 x"

text \<open>The message schedule, newest word first.\<close>

fun sha_expand :: "nat \<Rightarrow> u32 list \<Rightarrow> u32 list" where
  "sha_expand 0 ws = ws"
| "sha_expand (Suc n) ws =
     sha_expand n ((sigma1 (ws ! 1) + ws ! 6 + sigma0 (ws ! 14) + ws ! 15) # ws)"

fun sha_rounds :: "(u32 \<times> u32) list \<Rightarrow> u32 list \<Rightarrow> u32 list" where
  "sha_rounds [] st = st"
| "sha_rounds ((k, w) # kws) st = sha_rounds kws (sha_round k w st)"

definition be32 :: "string \<Rightarrow> u32" where
  "be32 bs = word_of_nat (foldl (\<lambda>acc c. acc * 256 + byte c) 0 bs)"

fun chunks :: "nat \<Rightarrow> nat \<Rightarrow> 'a list \<Rightarrow> 'a list list" where
  "chunks 0 n xs = []"
| "chunks (Suc m) n xs = take n xs # chunks m n (drop n xs)"

definition sha_block :: "u32 list \<Rightarrow> string \<Rightarrow> u32 list" where
  "sha_block st blk =
     (let w0 = rev (map be32 (chunks 16 4 blk));
          ws = rev (sha_expand 48 w0)
      in map2 (+) st (sha_rounds (zip sha_k ws) st))"

fun be_bytes :: "nat \<Rightarrow> nat \<Rightarrow> string" where
  "be_bytes 0 n = []"
| "be_bytes (Suc k) n = be_bytes k (n div 256) @ [char_of (n mod 256)]"

definition sha_pad :: "string \<Rightarrow> string" where
  "sha_pad m = m @ [char_of (128::nat)] @ replicate ((119 - length m mod 64) mod 64) (char_of (0::nat))
               @ be_bytes 8 (8 * length m)"

definition sha256 :: "string \<Rightarrow> string" where
  "sha256 m =
     (let p = sha_pad m
      in concat (map (\<lambda>w. be_bytes 4 (unat w)) (foldl sha_block sha_init (chunks (length p div 64) 64 p))))"

lemma length_be_bytes [simp]: "length (be_bytes k n) = k"
  by (induction k arbitrary: n) auto

lemma length_sha_round: "length st = 8 \<Longrightarrow> length (sha_round k w st) = 8"
  by (auto simp: sha_round_def Let_def split: list.split)

lemma length_sha_rounds: "length st = 8 \<Longrightarrow> length (sha_rounds kws st) = 8"
  by (induction kws st rule: sha_rounds.induct) (auto simp: length_sha_round)

lemma length_sha_block: "length st = 8 \<Longrightarrow> length (sha_block st blk) = 8"
  by (simp add: sha_block_def Let_def length_sha_rounds)

lemma length_sha_blocks: "length st = 8 \<Longrightarrow> length (foldl sha_block st bs) = 8"
  by (induction bs arbitrary: st) (auto simp: length_sha_block)

lemma length_concat_const: "\<forall>x \<in> set xs. length (f x) = n \<Longrightarrow> length (concat (map f xs)) = n * length xs"
  by (induction xs) auto

lemma length_sha256 [simp]: "length (sha256 m) = 32"
proof -
  have "length sha_init = 8" by (simp add: sha_init_def first_primes_def)
  then show ?thesis
    by (simp add: sha256_def Let_def length_concat_const [where n = 4] length_sha_blocks)
qed

subsection \<open>encoding/hex and digest references\<close>

definition hex_digit :: "nat \<Rightarrow> char" where
  "hex_digit n = (if n < 10 then char_of (48 + n) else char_of (87 + n))"

definition hex_encode :: "string \<Rightarrow> string" where
  "hex_encode s = concat (map (\<lambda>c. [hex_digit (byte c div 16), hex_digit (byte c mod 16)]) s)"

definition sha256_hex :: "string \<Rightarrow> string" where
  "sha256_hex m = hex_encode (sha256 m)"

definition digest_prefix :: string where
  "digest_prefix = ''sha256:''"

text \<open>\<open>^sha256:[0-9a-f]{64}$\<close>\<close>

definition is_sha256_ref :: "string \<Rightarrow> bool" where
  "is_sha256_ref s \<longleftrightarrow> has_prefix s digest_prefix
     \<and> (let d = trim_prefix s digest_prefix in length d = 64 \<and> list_all is_lower_hex d)"

lemma length_hex_encode [simp]: "length (hex_encode s) = 2 * length s"
  by (induction s) (auto simp: hex_encode_def)

lemma is_lower_hex_digit: "n < 16 \<Longrightarrow> is_lower_hex (hex_digit n)"
  by (auto simp: hex_digit_def char_class_defs byte_def)

lemma hex_encode_lower_hex: "list_all is_lower_hex (hex_encode s)"
proof (induction s)
  case (Cons c cs)
  have "byte c div 16 < 16"
    using byte_less_256 [of c] by linarith
  with Cons show ?case
    by (simp add: hex_encode_def is_lower_hex_digit)
qed (simp add: hex_encode_def)

lemma digest_is_ref [simp]: "is_sha256_ref (digest_prefix @ sha256_hex m)"
  by (simp add: is_sha256_ref_def sha256_hex_def hex_encode_lower_hex)

lemma hex_digit_inj: "m < 16 \<Longrightarrow> n < 16 \<Longrightarrow> hex_digit m = hex_digit n \<Longrightarrow> m = n"
  by (auto simp: hex_digit_def split: if_splits
      dest!: arg_cong [where f = "of_char :: char \<Rightarrow> nat"])

lemma hex_encode_inj: "hex_encode s = hex_encode t \<Longrightarrow> s = t"
proof (induction s arbitrary: t)
  case Nil
  then show ?case by (cases t) (auto simp: hex_encode_def)
next
  case (Cons c s)
  then obtain d t' where t: "t = d # t'"
    by (cases t) (auto simp: hex_encode_def)
  have bounds: "byte c div 16 < 16" "byte d div 16 < 16"
    using byte_less_256 [of c] byte_less_256 [of d] by linarith+
  from Cons.prems t have "hex_digit (byte c div 16) = hex_digit (byte d div 16)"
    and "hex_digit (byte c mod 16) = hex_digit (byte d mod 16)"
    and rest: "hex_encode s = hex_encode t'"
    by (auto simp: hex_encode_def)
  with bounds have "byte c div 16 = byte d div 16" and "byte c mod 16 = byte d mod 16"
    by (auto intro: hex_digit_inj)
  then have "byte c = byte d"
    by (metis div_mult_mod_eq)
  with Cons.IH [OF rest] t show ?case by simp
qed

subsection \<open>Ed25519\<close>

text \<open>
  The signature scheme is a record of the operations of \<open>crypto/ed25519\<close> the
  source calls, \<open>Sign\<close> and \<open>Verify\<close>, together with \<open>NewKeyFromSeed\<close>, \<open>Public\<close> and
  the \<open>encoding/base64\<close> coding the signature travels in. What the code relies on
  is \<open>honest_ed25519\<close>: a signature by a private key that was generated from a seed
  verifies under its public key, the public half of a 64-byte key is 32 bytes, and
  decoding undoes encoding. Nothing is promised of a 64-byte string whose public half
  is not the one of its seed; the source checks only the length.
\<close>

record ed25519 =
  ed_seedKey :: "string \<Rightarrow> string"
  ed_public :: "string \<Rightarrow> string"
  ed_sign :: "string \<Rightarrow> string \<Rightarrow> string"
  ed_verify :: "string \<Rightarrow> string \<Rightarrow> string \<Rightarrow> bool"
  b64_encode :: "string \<Rightarrow> string"
  b64_decode :: "string \<Rightarrow> string option"

definition generated_key :: "ed25519 \<Rightarrow> string \<Rightarrow> bool" where
  "generated_key ed sk \<longleftrightarrow> (\<exists>seed. length seed = 32 \<and> sk = ed_seedKey ed seed)"

definition honest_ed25519 :: "ed25519 \<Rightarrow> bool" where
  "honest_ed25519 ed \<longleftrightarrow>
     (\<forall>sk m. generated_key ed sk \<longrightarrow> ed_verify ed (ed_public ed sk) m (ed_sign ed sk m))
     \<and> (\<forall>sk. length sk = 64 \<longrightarrow> length (ed_public ed sk) = 32)
     \<and> (\<forall>s. b64_decode ed (b64_encode ed s) = Some s)
     \<and> (\<forall>sk m. b64_encode ed (ed_sign ed sk m) \<noteq> [])"

text \<open>An honest scheme and a key generated by it.\<close>

definition honest_key :: "ed25519 \<Rightarrow> string \<Rightarrow> bool" where
  "honest_key ed sk \<longleftrightarrow> honest_ed25519 ed \<and> generated_key ed sk"

lemmas honest_defs = honest_key_def honest_ed25519_def

text \<open>A concrete scheme, for witnesses: the public half of a key is its last 32 bytes (as in Go).\<close>

definition toy_ed25519 :: ed25519 where
  "toy_ed25519 =
     \<lparr>ed_seedKey = (\<lambda>seed. seed @ seed),
      ed_public = (\<lambda>sk. drop 32 sk),
      ed_sign = (\<lambda>sk m. drop 32 sk @ m),
      ed_verify = (\<lambda>pk m s. s = pk @ m),
      b64_encode = (\<lambda>s. CHR ''A'' # s),
      b64_decode = (\<lambda>s. case s of [] \<Rightarrow> None | _ # t \<Rightarrow> Some t)\<rparr>"

lemma toy_ed25519_honest: "length seed = 32 \<Longrightarrow> honest_key toy_ed25519 (seed @ seed)"
  by (auto simp: honest_defs generated_key_def toy_ed25519_def)

end
