(* ===== verification/GoJson.thy ===== *)
theory GoJson
  imports GoStrings
begin

text \<open>
  What the source uses of \<open>encoding/json\<close>: \<open>json.Valid\<close> as a recogniser of
  the JSON grammar the scanner of the standard library accepts (strings may
  hold any byte from 0x20 on, nesting is bounded by 10000), and the tree that
  unmarshalling into \<open>any\<close> yields. The recogniser returns the unread rest of
  the input. It spends one unit of fuel per value or list item; an accepted
  value or list item is as long in bytes, so the length of the input is fuel
  enough (\<open>json_fuel_enough\<close>).
\<close>

datatype json =
    JNull
  | JBool bool
  | JNumber string
  | JString string
  | JArray "json list"
  | JObject "(string \<times> json) list"

subsection \<open>Tokens\<close>

definition is_json_space :: "char \<Rightarrow> bool" where
  "is_json_space c \<longleftrightarrow> byte c = 32 \<or> byte c = 9 \<or> byte c = 10 \<or> byte c = 13"

fun skip_space :: "string \<Rightarrow> string" where
  "skip_space [] = []"
| "skip_space (c # cs) = (if is_json_space c then skip_space cs else c # cs)"

fun skip_digits :: "string \<Rightarrow> string" where
  "skip_digits [] = []"
| "skip_digits (c # cs) = (if is_digit c then skip_digits cs else c # cs)"

definition expect :: "string \<Rightarrow> string \<Rightarrow> string option" where
  "expect w s = (if has_prefix s w then Some (drop (length w) s) else None)"

definition digits1 :: "string \<Rightarrow> string option" where
  "digits1 s = (case s of [] \<Rightarrow> None | c # cs \<Rightarrow> if is_digit c then Some (skip_digits cs) else None)"

definition json_escape_chars :: "char list" where
  "json_escape_chars = [CHR 0x22, CHR 0x5C, CHR ''/'', CHR ''b'', CHR ''f'', CHR ''n'', CHR ''r'', CHR ''t'']"

fun json_string_rest :: "string \<Rightarrow> string option" where
  "json_string_rest [] = None"
| "json_string_rest (c # cs) =
     (if c = CHR 0x22 then Some cs
      else if c = CHR 0x5C then
        (case cs of
           [] \<Rightarrow> None
         | e # es \<Rightarrow>
             if e \<in> set json_escape_chars then json_string_rest es
             else if e = CHR ''u'' \<and> 4 \<le> length es \<and> list_all is_hex (take 4 es) then json_string_rest (drop 4 es)
             else None)
      else if byte c < 32 then None
      else json_string_rest cs)"

definition json_integer :: "string \<Rightarrow> string option" where
  "json_integer s = (case s of [] \<Rightarrow> None
     | c # cs \<Rightarrow> if c = CHR ''0'' then Some cs else if is_digit c then Some (skip_digits cs) else None)"

definition json_fraction :: "string \<Rightarrow> string option" where
  "json_fraction s = (case s of [] \<Rightarrow> Some [] | c # cs \<Rightarrow> if c = CHR ''.'' then digits1 cs else Some s)"

definition json_exponent :: "string \<Rightarrow> string option" where
  "json_exponent s = (case s of [] \<Rightarrow> Some []
     | c # cs \<Rightarrow> if c = CHR ''e'' \<or> c = CHR ''E'' then
                  (case cs of [] \<Rightarrow> None
                   | d # ds \<Rightarrow> if d = CHR ''+'' \<or> d = CHR ''-'' then digits1 ds else digits1 cs)
                else Some s)"

definition json_number :: "string \<Rightarrow> string option" where
  "json_number s =
     (let t = (case s of [] \<Rightarrow> [] | c # cs \<Rightarrow> if c = CHR ''-'' then cs else s)
      in Option.bind (json_integer t) (\<lambda>r. Option.bind (json_fraction r) json_exponent))"

subsection \<open>Values\<close>

fun json_value :: "nat \<Rightarrow> nat \<Rightarrow> string \<Rightarrow> string option"
  and json_members :: "nat \<Rightarrow> nat \<Rightarrow> string \<Rightarrow> string option"
  and json_elements :: "nat \<Rightarrow> nat \<Rightarrow> string \<Rightarrow> string option" where
  "json_value 0 d s = None"
| "json_value (Suc f) d s =
     (case skip_space s of
        [] \<Rightarrow> None
      | c # cs \<Rightarrow>
          if c = CHR 0x22 then json_string_rest cs
          else if c = CHR ''{'' then
            (if d = 0 then None
             else case skip_space cs of
                    [] \<Rightarrow> None
                  | e # es \<Rightarrow> if e = CHR ''}'' then Some es else json_members f (d - 1) (e # es))
          else if c = CHR ''['' then
            (if d = 0 then None
             else case skip_space cs of
                    [] \<Rightarrow> None
                  | e # es \<Rightarrow> if e = CHR '']'' then Some es else json_elements f (d - 1) (e # es))
          else if c = CHR ''t'' then expect ''rue'' cs
          else if c = CHR ''f'' then expect ''alse'' cs
          else if c = CHR ''n'' then expect ''ull'' cs
          else json_number (c # cs))"
| "json_members 0 d s = None"
| "json_members (Suc f) d s =
     Option.bind (expect [CHR 0x22] (skip_space s)) (\<lambda>r1.
     Option.bind (json_string_rest r1) (\<lambda>r2.
     Option.bind (expect '':'' (skip_space r2)) (\<lambda>r3.
     Option.bind (json_value f d r3) (\<lambda>r4.
     case skip_space r4 of
       [] \<Rightarrow> None
     | c # cs \<Rightarrow> if c = CHR '','' then json_members f d cs else if c = CHR ''}'' then Some cs else None))))"
| "json_elements 0 d s = None"
| "json_elements (Suc f) d s =
     Option.bind (json_value f d s) (\<lambda>r.
     case skip_space r of
       [] \<Rightarrow> None
     | c # cs \<Rightarrow> if c = CHR '','' then json_elements f d cs else if c = CHR '']'' then Some cs else None)"

definition json_max_depth :: nat where
  "json_max_depth = 10000"

definition json_valid :: "string \<Rightarrow> bool" where
  "json_valid s = (case json_value (Suc (length s)) json_max_depth s of None \<Rightarrow> False | Some r \<Rightarrow> skip_space r = [])"

subsection \<open>The fuel is enough\<close>

lemma skip_space_length: "length (skip_space s) \<le> length s"
  by (induction s) auto

lemma skip_digits_length: "length (skip_digits s) \<le> length s"
  by (induction s) auto

lemma expect_length: "expect w s = Some r \<Longrightarrow> length s = length w + length r"
  by (auto simp: expect_def has_prefix_iff split: if_splits)

lemma string_rest_length: "json_string_rest s = Some r \<Longrightarrow> length r < length s"
  by (induction s rule: json_string_rest.induct) (fastforce split: if_splits list.splits)+

lemma digits1_length: "digits1 s = Some r \<Longrightarrow> length r < length s"
  by (auto simp: digits1_def le_imp_less_Suc skip_digits_length split: list.splits if_splits)

lemma json_integer_length: "json_integer s = Some r \<Longrightarrow> length r < length s"
  by (auto simp: json_integer_def le_imp_less_Suc skip_digits_length split: list.splits if_splits)

lemma json_fraction_length: "json_fraction s = Some r \<Longrightarrow> length r \<le> length s"
  by (auto simp: json_fraction_def dest!: digits1_length split: list.splits if_splits)

lemma json_exponent_length: "json_exponent s = Some r \<Longrightarrow> length r \<le> length s"
  by (auto simp: json_exponent_def dest!: digits1_length split: list.splits if_splits)

lemma json_number_length: "json_number s = Some r \<Longrightarrow> length r < length s"
  by (fastforce simp: json_number_def Let_def dest!: json_integer_length json_fraction_length json_exponent_length
      split: list.splits if_splits Option.bind_splits)

lemmas token_lengths = expect_length string_rest_length json_number_length

text \<open>A scan that succeeds with some fuel succeeds with as much as the bytes it read.\<close>

definition scans :: "(nat \<Rightarrow> string option) \<Rightarrow> string \<Rightarrow> string \<Rightarrow> bool" where
  "scans p s r \<longleftrightarrow> length r < length s \<and> (\<forall>f. length s - length r \<le> f \<longrightarrow> p f = Some r)"

lemma scansI: "length r < length s \<Longrightarrow> (\<And>f. length s - length r \<le> Suc f \<Longrightarrow> p (Suc f) = Some r) \<Longrightarrow> scans p s r"
  unfolding scans_def by (metis Suc_pred diff_is_0_eq leD neq0_conv le_zero_eq)

lemma scansD: "scans p s r \<Longrightarrow> length r < length s" "scans p s r \<Longrightarrow> length s - length r \<le> f \<Longrightarrow> p f = Some r"
  by (simp_all add: scans_def)

lemma value_of_items:
  assumes s: "skip_space s = c # cs" and c: "c = CHR ''{'' \<and> p = (\<lambda>f. json_members f (d - 1) t) \<or> c = CHR ''['' \<and> p = (\<lambda>f. json_elements f (d - 1) t)"
    and "d \<noteq> 0" and t: "skip_space cs = t" and e: "t = e # es" "e \<noteq> CHR ''}'' \<or> c = CHR ''[''" "e \<noteq> CHR '']'' \<or> c = CHR ''{''" and p: "scans p t r"
  shows "scans (\<lambda>f. json_value f d s) s r"
proof (rule scansI)
  have l: "length t < length s" using skip_space_length[of s] skip_space_length[of cs] s t by simp
  then show "length r < length s" using scansD(1)[OF p] by simp
  fix f assume "length s - length r \<le> Suc f"
  then have "p f = Some r" using l by (intro scansD(2)[OF p]) simp
  then show "json_value (Suc f) d s = Some r" using assms by auto
qed

lemma members_Suc:
  assumes "json_members (Suc f) d s = Some r"
  obtains r1 r2 r3 r4 c cs where "expect [CHR 0x22] (skip_space s) = Some r1" "json_string_rest r1 = Some r2"
    "expect '':'' (skip_space r2) = Some r3" "json_value f d r3 = Some r4" "skip_space r4 = c # cs"
    "c = CHR '','' \<and> json_members f d cs = Some r \<or> c = CHR ''}'' \<and> cs = r"
proof -
  from assms obtain r1 r2 r3 r4 where r: "expect [CHR 0x22] (skip_space s) = Some r1" "json_string_rest r1 = Some r2"
      "expect '':'' (skip_space r2) = Some r3" "json_value f d r3 = Some r4"
      and rest: "(case skip_space r4 of [] \<Rightarrow> None
        | c # cs \<Rightarrow> if c = CHR '','' then json_members f d cs else if c = CHR ''}'' then Some cs else None) = Some r"
    unfolding json_members.simps bind_eq_Some_conv by blast
  from rest obtain c cs where "skip_space r4 = c # cs" by (cases "skip_space r4") auto
  with rest that[OF r this] show thesis by (auto split: if_splits)
qed

lemma elements_Suc:
  assumes "json_elements (Suc f) d s = Some r"
  obtains r4 c cs where "json_value f d s = Some r4" "skip_space r4 = c # cs"
    "c = CHR '','' \<and> json_elements f d cs = Some r \<or> c = CHR '']'' \<and> cs = r"
proof -
  from assms obtain r4 where r: "json_value f d s = Some r4"
      and rest: "(case skip_space r4 of [] \<Rightarrow> None
        | c # cs \<Rightarrow> if c = CHR '','' then json_elements f d cs else if c = CHR '']'' then Some cs else None) = Some r"
    unfolding json_elements.simps bind_eq_Some_conv by blast
  from rest obtain c cs where "skip_space r4 = c # cs" by (cases "skip_space r4") auto
  with rest that[OF r this] show thesis by (auto split: if_splits)
qed

lemma fuel_of_bytes:
  "json_value f d s = Some r \<Longrightarrow> scans (\<lambda>f. json_value f d s) s r"
  "json_members f d s = Some r \<Longrightarrow> scans (\<lambda>f. json_members f d s) s r"
  "json_elements f d s = Some r \<Longrightarrow> scans (\<lambda>f. json_elements f d s) s r"
proof (induction f d s and f d s and f d s arbitrary: r and r and r rule: json_value_json_members_json_elements.induct)
  case (2 f d s)
  obtain c cs where s: "skip_space s = c # cs" using 2(3) by (cases "skip_space s") auto
  have l: "Suc (length cs) \<le> length s" using skip_space_length[of s] s by simp
  show ?case
  proof (cases "(c = CHR ''{'' \<or> c = CHR ''['') \<and> (\<exists>e es. skip_space cs = e # es \<and> (e \<noteq> CHR ''}'' \<or> c = CHR ''['') \<and> (e \<noteq> CHR '']'' \<or> c = CHR ''{''))")
    case True
    then obtain e es where e: "skip_space cs = e # es" "e \<noteq> CHR ''}'' \<or> c = CHR ''[''" "e \<noteq> CHR '']'' \<or> c = CHR ''{''" and c: "c = CHR ''{'' \<or> c = CHR ''[''" by blast
    from 2(3) s c e have d: "d \<noteq> 0" by (auto split: if_splits)
    from c show ?thesis
    proof
      assume c: "c = CHR ''{''"
      with 2(3) s e d have "json_members f (d - 1) (e # es) = Some r" by auto
      from 2(1)[OF s _ _ _ _ _ this] value_of_items[OF s _ d e(1) refl e(2,3)] c e d show ?thesis by auto
    next
      assume c: "c = CHR ''[''"
      with 2(3) s e d have "json_elements f (d - 1) (e # es) = Some r" by auto
      from 2(2)[OF s _ _ _ _ _ _ this] value_of_items[OF s _ d e(1) refl e(2,3)] c e d show ?thesis by auto
    qed
  next
    case False
    then have same: "json_value (Suc f') d s = json_value (Suc f) d s" for f'
      using s by (auto split: list.splits)
    have "length r < length s"
      using 2(3) s l False skip_space_length[of cs] by (auto dest!: token_lengths split: list.splits if_splits)
    with 2(3) same show ?thesis by (intro scansI) metis+
  qed
next
  case (4 f d s)
  from 4(3) obtain r1 r2 r3 r4 c cs where r: "expect [CHR 0x22] (skip_space s) = Some r1" "json_string_rest r1 = Some r2"
      "expect '':'' (skip_space r2) = Some r3" "json_value f d r3 = Some r4" "skip_space r4 = c # cs"
      "c = CHR '','' \<and> json_members f d cs = Some r \<or> c = CHR ''}'' \<and> cs = r"
    by (rule members_Suc)
  have v: "scans (\<lambda>f. json_value f d r3) r3 r4" by (rule 4(1)[OF r(1-4)])
  have m: "c = CHR '','' \<Longrightarrow> scans (\<lambda>f. json_members f d cs) cs r" using r(6) by (auto intro: 4(2)[OF r(1-5)])
  have l: "Suc (Suc (length r3)) < length s" "length cs < length r4"
    using token_lengths(1)[OF r(1)] token_lengths(2)[OF r(2)] token_lengths(1)[OF r(3)] skip_space_length[of s] skip_space_length[of r2]
      skip_space_length[of r4] r(5) by simp_all
  have n: "length r \<le> length cs" using r(6) scansD(1)[OF m] by auto
  show ?case
  proof (rule scansI)
    show "length r < length s" using l n scansD(1)[OF v] by simp
    fix f' assume f: "length s - length r \<le> Suc f'"
    have "json_value f' d r3 = Some r4" using f l n scansD(1)[OF v] by (intro scansD(2)[OF v]) simp
    moreover have "c = CHR '','' \<Longrightarrow> json_members f' d cs = Some r" using f l scansD(1)[OF v] by (intro scansD(2)[OF m]) simp_all
    ultimately show "json_members (Suc f') d s = Some r" using r by auto
  qed
next
  case (6 f d s)
  from 6(3) obtain r4 c cs where r: "json_value f d s = Some r4" "skip_space r4 = c # cs"
      "c = CHR '','' \<and> json_elements f d cs = Some r \<or> c = CHR '']'' \<and> cs = r"
    by (rule elements_Suc)
  have v: "scans (\<lambda>f. json_value f d s) s r4" by (rule 6(1)[OF r(1)])
  have m: "c = CHR '','' \<Longrightarrow> scans (\<lambda>f. json_elements f d cs) cs r" using r(3) by (auto intro: 6(2)[OF r(1,2)])
  have l: "length cs < length r4" using skip_space_length[of r4] r(2) by simp
  have n: "length r \<le> length cs" using r(3) scansD(1)[OF m] by auto
  show ?case
  proof (rule scansI)
    show "length r < length s" using l n scansD(1)[OF v] by simp
    fix f' assume f: "length s - length r \<le> Suc f'"
    have "json_value f' d s = Some r4" using f l n scansD(1)[OF v] by (intro scansD(2)[OF v]) simp
    moreover have "c = CHR '','' \<Longrightarrow> json_elements f' d cs = Some r" using f l scansD(1)[OF v] by (intro scansD(2)[OF m]) simp_all
    ultimately show "json_elements (Suc f') d s = Some r" using r by auto
  qed
qed simp_all

text \<open>So no fuel accepts a text that the fuel of \<open>json_valid\<close> rejects.\<close>

lemma json_fuel_enough: "json_valid s \<longleftrightarrow> (\<exists>f r. json_value f json_max_depth s = Some r \<and> skip_space r = [])"
proof
  assume "json_valid s"
  then obtain r where "json_value (Suc (length s)) json_max_depth s = Some r" "skip_space r = []"
    unfolding json_valid_def by (blast elim: case_optionE)
  then show "\<exists>f r. json_value f json_max_depth s = Some r \<and> skip_space r = []" by blast
next
  assume "\<exists>f r. json_value f json_max_depth s = Some r \<and> skip_space r = []"
  then obtain f r where r: "json_value f json_max_depth s = Some r" "skip_space r = []" by blast
  have "json_value (Suc (length s)) json_max_depth s = Some r"
    by (rule scansD(2)[OF fuel_of_bytes(1)[OF r(1)]]) simp
  with r(2) show "json_valid s" unfolding json_valid_def by (simp only: option.case)
qed

end
