(* ===== verification/RuntimeContract.thy ===== *)
theory RuntimeContract
  imports GoCrypto GoJson
begin

text \<open>
  The normative validation surface of the Agent runtime contract,
  \<^verbatim>\<open>sdk/go/runtime\<close>: opaque handles, digests, capabilities, the verified
  principal, risk decisions, approval plans and evidence, action requests,
  one-use grants and receipts, each with its \<open>Validate\<close> method as a function
  that returns the first rejected field. Go's string-typed vocabularies become
  datatypes with one constructor per frozen constant and one for every other
  string.
\<close>

subsection \<open>Handles, digests, capabilities (validate.go)\<close>

definition HandleWorkCase :: string where "HandleWorkCase = ''wc_''"
definition HandleEvidence :: string where "HandleEvidence = ''evd_''"
definition HandleApprovalPlan :: string where "HandleApprovalPlan = ''apl_''"
definition HandleApprovalEvidence :: string where "HandleApprovalEvidence = ''apv_''"
definition HandleGrant :: string where "HandleGrant = ''grant_''"
definition HandleAction :: string where "HandleAction = ''act_''"
definition HandleReceipt :: string where "HandleReceipt = ''rcp_''"
definition HandleObservation :: string where "HandleObservation = ''obs_''"

lemmas handle_defs = HandleWorkCase_def HandleEvidence_def HandleApprovalPlan_def
  HandleApprovalEvidence_def HandleGrant_def HandleAction_def HandleReceipt_def HandleObservation_def

text \<open>\<open>^[A-Za-z0-9_-]{16,128}$\<close>\<close>

definition is_handle_char :: "char \<Rightarrow> bool" where
  "is_handle_char c \<longleftrightarrow> is_lower c \<or> is_upper c \<or> is_digit c \<or> c = CHR ''_'' \<or> c = CHR ''-''"

definition is_handle_body :: "string \<Rightarrow> bool" where
  "is_handle_body s \<longleftrightarrow> 16 \<le> length s \<and> length s \<le> 128 \<and> list_all is_handle_char s"

text \<open>\<open>^[a-z][a-z0-9_]*(\.[a-z][a-z0-9_]*)+$\<close>: at least two dot-separated segments.\<close>

definition is_capability_segment :: "string \<Rightarrow> bool" where
  "is_capability_segment s = (case s of [] \<Rightarrow> False
     | c # cs \<Rightarrow> is_lower c \<and> list_all (\<lambda>d. is_lower d \<or> is_digit d \<or> d = CHR ''_'') cs)"

definition is_capability_name :: "string \<Rightarrow> bool" where
  "is_capability_name s \<longleftrightarrow> 2 \<le> length (split_on CHR ''.'' s) \<and> list_all is_capability_segment (split_on CHR ''.'' s)"

definition HashParameters :: "string \<Rightarrow> string" where
  "HashParameters raw = digest_prefix @ sha256_hex raw"

definition trim_left_json :: "string \<Rightarrow> string" where
  "trim_left_json = skip_space"

definition isJSONObject :: "string \<Rightarrow> bool" where
  "isJSONObject raw = (case trim_left_json raw of [] \<Rightarrow> False
     | c # _ \<Rightarrow> if c \<noteq> CHR ''{'' then False else json_valid raw)"

definition ValidateSHA256Ref :: "string \<Rightarrow> field_error option" where
  "ValidateSHA256Ref v = fail_if (\<not> is_sha256_ref v) (FieldError [] ''%q is not a sha256:<64 hex> digest'')"

definition ValidateHandle :: "string \<Rightarrow> string \<Rightarrow> field_error option" where
  "ValidateHandle handle prefix = first_error
     [fail_if (\<not> has_prefix handle prefix) (FieldError [] ''%q is not an opaque %s* handle''),
      fail_if (\<not> is_handle_body (trim_prefix handle prefix))
        (FieldError [] ''%q is not an opaque %s* handle (16..128 chars of [A-Za-z0-9_-] after the prefix)'')]"

definition requireNonEmpty :: "string \<Rightarrow> string \<Rightarrow> field_error option" where
  "requireNonEmpty field v = fail_if (v = []) (FieldError field ''is required'')"

definition validateRequestID :: "string \<Rightarrow> field_error option" where
  "validateRequestID r = first_error
     [fail_if (r = []) (FieldError ''request_id'' ''is required''),
      fail_if (128 < length r) (FieldError ''request_id'' ''must be at most 128 bytes'')]"

definition validateIdempotencyKey :: "string \<Rightarrow> field_error option" where
  "validateIdempotencyKey k = first_error
     [fail_if (k = []) (FieldError ''idempotency_key'' ''is required''),
      fail_if (length k < 16 \<or> 128 < length k) (FieldError ''idempotency_key'' ''must be 16..128 bytes'')]"

definition validateCapability :: "string \<Rightarrow> field_error option" where
  "validateCapability c = first_error
     [fail_if (c = []) (FieldError ''capability'' ''is required''),
      fail_if (256 < length c) (FieldError ''capability'' ''must be at most 256 bytes''),
      fail_if (\<not> is_capability_name c)
        (FieldError ''capability'' ''%q is not a namespaced business-semantic capability (for example erp.purchase_order.approve)'')]"

text \<open>Pointer-typed fields are options: a nil pointer skips the check.\<close>

definition opt_valid :: "('a \<Rightarrow> field_error option) \<Rightarrow> 'a option \<Rightarrow> field_error option" where
  "opt_valid f r = (case r of None \<Rightarrow> None | Some a \<Rightarrow> f a)"

lemma ValidateSHA256Ref_None [simp, valid_simps]: "ValidateSHA256Ref v = None \<longleftrightarrow> is_sha256_ref v"
  by (simp add: ValidateSHA256Ref_def)

lemma ValidateHandle_None [simp, valid_simps]:
  "ValidateHandle h p = None \<longleftrightarrow> has_prefix h p \<and> is_handle_body (trim_prefix h p)"
  by (simp add: ValidateHandle_def first_error_None)

lemma ValidateHandle_body: "ValidateHandle h p = None \<longleftrightarrow> (\<exists>b. h = p @ b \<and> is_handle_body b)"
  by (auto simp: has_prefix_iff)

lemma requireNonEmpty_None [simp, valid_simps]: "requireNonEmpty f v = None \<longleftrightarrow> v \<noteq> []"
  by (simp add: requireNonEmpty_def)

lemma validateRequestID_None [simp, valid_simps]:
  "validateRequestID r = None \<longleftrightarrow> r \<noteq> [] \<and> length r \<le> 128"
  by (auto simp: validateRequestID_def first_error_None)

lemma validateIdempotencyKey_None [simp, valid_simps]:
  "validateIdempotencyKey k = None \<longleftrightarrow> 16 \<le> length k \<and> length k \<le> 128"
  by (auto simp: validateIdempotencyKey_def first_error_None)

lemma validateCapability_None [simp, valid_simps]:
  "validateCapability c = None \<longleftrightarrow> length c \<le> 256 \<and> is_capability_name c"
  by (auto simp: validateCapability_def first_error_None is_capability_name_def)

lemma HashParameters_ref [simp]: "is_sha256_ref (HashParameters raw)"
  by (simp add: HashParameters_def)

lemma HashParameters_nonempty [simp]: "HashParameters raw \<noteq> []"
  by (simp add: HashParameters_def digest_prefix_def)

text \<open>Equal parameter hashes mean equal parameters, or a SHA-256 collision on exactly these two payloads.\<close>

lemma HashParameters_collision:
  "HashParameters a = HashParameters b \<Longrightarrow> a = b \<or> (a \<noteq> b \<and> sha256 a = sha256 b)"
  by (auto simp: HashParameters_def sha256_hex_def dest: hex_encode_inj)

text \<open>A handle names one kind only: the frozen prefixes are pairwise no prefix of one another.\<close>

definition handle_prefixes :: "string list" where
  "handle_prefixes = [HandleWorkCase, HandleEvidence, HandleApprovalPlan, HandleApprovalEvidence,
     HandleGrant, HandleAction, HandleReceipt, HandleObservation]"

lemma handle_prefix_take:
  "ValidateHandle h p = None \<Longrightarrow> p \<in> set handle_prefixes \<Longrightarrow> take 3 h = take 3 p"
  by (auto simp: has_prefix_iff handle_prefixes_def handle_defs)

lemma handle_kind_unique:
  assumes "ValidateHandle h p = None" and "ValidateHandle h q = None"
    and "p \<in> set handle_prefixes" and "q \<in> set handle_prefixes"
  shows "p = q"
proof -
  have "take 3 p = take 3 q"
    using assms handle_prefix_take by metis
  with assms(3,4) show ?thesis
    by (auto simp: handle_prefixes_def handle_defs)
qed

subsection \<open>Identity keys in request JSON (validate.go)\<close>

datatype decode_error = TrustedIdentityInRequest string | LegacyActionShape | DecodeError string

definition isForbiddenRequestKey :: "string \<Rightarrow> bool" where
  "isForbiddenRequestKey key \<longleftrightarrow>
     (if key \<in> {''enterprise_id'', ''actor_user_id'', ''connector_instance_id''} then True
      else contains key ''enterprise'' \<or> has_prefix key ''connector_'')"

definition opaquePayloadKeys :: "string list" where
  "opaquePayloadKeys = [''parameters'', ''result'']"

text \<open>Go ranges over an object's keys in no fixed order; the model takes the order of the list.\<close>

fun scanForbiddenIdentityKeys :: "json \<Rightarrow> decode_error option"
  and scan_members :: "(string \<times> json) list \<Rightarrow> decode_error option"
  and scan_elements :: "json list \<Rightarrow> decode_error option" where
  "scanForbiddenIdentityKeys (JObject kvs) = scan_members kvs"
| "scanForbiddenIdentityKeys (JArray vs) = scan_elements vs"
| "scanForbiddenIdentityKeys _ = None"
| "scan_members [] = None"
| "scan_members ((key, child) # kvs) =
     (if isForbiddenRequestKey key then Some (TrustedIdentityInRequest key)
      else if key \<in> set opaquePayloadKeys then scan_members kvs
      else case scanForbiddenIdentityKeys child of Some e \<Rightarrow> Some e | None \<Rightarrow> scan_members kvs)"
| "scan_elements [] = None"
| "scan_elements (child # vs) =
     (case scanForbiddenIdentityKeys child of Some e \<Rightarrow> Some e | None \<Rightarrow> scan_elements vs)"

text \<open>
  \<open>unmarshal\<close> is \<open>json.Unmarshal\<close> into \<open>any\<close>, \<open>decode\<close> the strict decoder of
  the target type (unknown fields refused).
\<close>

definition decodeStrictRequest ::
  "(string \<Rightarrow> json option) \<Rightarrow> (string \<Rightarrow> 'a option) \<Rightarrow> string \<Rightarrow> decode_error + 'a" where
  "decodeStrictRequest unmarshal decode data =
     (case unmarshal data of
        None \<Rightarrow> Inl (DecodeError ''parse request JSON: %w'')
      | Some (JObject root) \<Rightarrow>
          if map_of root ''action'' \<noteq> None \<and> map_of root ''input'' \<noteq> None then Inl LegacyActionShape
          else (case scanForbiddenIdentityKeys (JObject root) of
                  Some e \<Rightarrow> Inl e
                | None \<Rightarrow> (case decode data of None \<Rightarrow> Inl (DecodeError ''decode request: %w'') | Some a \<Rightarrow> Inr a))
      | Some _ \<Rightarrow> Inl (DecodeError ''request body must be a JSON object''))"

text \<open>The keys a scan visits: every object key outside the opaque payloads.\<close>

fun visible_keys :: "json \<Rightarrow> string list"
  and visible_member_keys :: "(string \<times> json) list \<Rightarrow> string list"
  and visible_element_keys :: "json list \<Rightarrow> string list" where
  "visible_keys (JObject kvs) = visible_member_keys kvs"
| "visible_keys (JArray vs) = visible_element_keys vs"
| "visible_keys _ = []"
| "visible_member_keys [] = []"
| "visible_member_keys ((k, v) # kvs) =
     k # (if k \<in> set opaquePayloadKeys then [] else visible_keys v) @ visible_member_keys kvs"
| "visible_element_keys [] = []"
| "visible_element_keys (v # vs) = visible_keys v @ visible_element_keys vs"

lemma forbidden_payload_keys:
  "\<not> isForbiddenRequestKey ''parameters''" "\<not> isForbiddenRequestKey ''result''"
  by (code_simp, code_simp)

lemma opaque_not_forbidden: "k \<in> set opaquePayloadKeys \<Longrightarrow> \<not> isForbiddenRequestKey k"
  using forbidden_payload_keys unfolding opaquePayloadKeys_def list.set insert_iff empty_iff by blast

lemma scan_complete:
  "scanForbiddenIdentityKeys j = None \<longleftrightarrow> (\<forall>k \<in> set (visible_keys j). \<not> isForbiddenRequestKey k)"
  "scan_members kvs = None \<longleftrightarrow> (\<forall>k \<in> set (visible_member_keys kvs). \<not> isForbiddenRequestKey k)"
  "scan_elements vs = None \<longleftrightarrow> (\<forall>k \<in> set (visible_element_keys vs). \<not> isForbiddenRequestKey k)"
  by (induction j and kvs and vs rule: scanForbiddenIdentityKeys_scan_members_scan_elements.induct)
    (auto split: option.splits dest: opaque_not_forbidden)

end
