(* ===== verification/RuntimeTypes.thy ===== *)
theory RuntimeTypes
  imports RuntimeContract
begin

text \<open>
  The public request, decision, grant and receipt types of
  \<^verbatim>\<open>sdk/go/runtime\<close> with their canonical \<open>Validate\<close> rules.
\<close>

subsection \<open>Verified principals (context.go)\<close>

datatype TrustClass = TrustFirstParty | TrustCertifiedThirdParty | TrustUntrusted | TrustOther string

definition TrustClass_Valid :: "TrustClass \<Rightarrow> bool" where
  "TrustClass_Valid c = (case c of TrustOther _ \<Rightarrow> False | _ \<Rightarrow> True)"

record PrincipalContext =
  pc_TenantRef :: string
  pc_PrincipalRef :: string
  pc_AgentClientRef :: string
  pc_AgentReleaseRef :: string
  pc_TrustClass :: TrustClass
  pc_OrgSnapshotRef :: string
  pc_VerifiedAt :: time
  pc_ExpiresAt :: time

definition PrincipalContext_Validate :: "PrincipalContext \<Rightarrow> field_error option" where
  "PrincipalContext_Validate p = first_error
     [requireNonEmpty ''tenant_ref'' (pc_TenantRef p),
      requireNonEmpty ''principal_ref'' (pc_PrincipalRef p),
      requireNonEmpty ''agent_client_ref'' (pc_AgentClientRef p),
      requireNonEmpty ''agent_release_ref'' (pc_AgentReleaseRef p),
      fail_if (\<not> TrustClass_Valid (pc_TrustClass p)) (FieldError ''trust_class'' ''%q is not a frozen trust class''),
      requireNonEmpty ''org_snapshot_ref'' (pc_OrgSnapshotRef p),
      fail_if (is_zero_time (pc_VerifiedAt p)) (FieldError ''verified_at'' ''is required''),
      fail_if (is_zero_time (pc_ExpiresAt p)) (FieldError ''expires_at'' ''is required''),
      fail_if (\<not> pc_ExpiresAt p > pc_VerifiedAt p) (FieldError ''expires_at'' ''must be after verified_at'')]"

subsection \<open>Signatures and risk decisions (approval.go)\<close>

definition SignatureAlgorithmEd25519 :: string where
  "SignatureAlgorithmEd25519 = ''ed25519''"

record Signature =
  sig_Algorithm :: string
  sig_KeyID :: string
  sig_Value :: string

definition zero_signature :: Signature where
  "zero_signature = \<lparr>sig_Algorithm = [], sig_KeyID = [], sig_Value = []\<rparr>"

definition Signature_Validate :: "Signature \<Rightarrow> field_error option" where
  "Signature_Validate s = first_error
     [fail_if (s = zero_signature) (FieldError ''signature'' ''is required; unsigned authority claims are rejected''),
      fail_if (sig_Algorithm s = []) (FieldError ''algorithm'' ''is required''),
      fail_if (sig_Algorithm s \<noteq> SignatureAlgorithmEd25519)
        (FieldError ''algorithm'' ''%q is not a frozen v1 signature algorithm''),
      fail_if (sig_KeyID s = []) (FieldError ''key_id'' ''is required''),
      fail_if (sig_Value s = []) (FieldError ''value'' ''is required'')]"

datatype RiskLevel = RiskLow | RiskMedium | RiskHigh | RiskOther string

definition RiskLevel_Valid :: "RiskLevel \<Rightarrow> bool" where
  "RiskLevel_Valid l = (case l of RiskOther _ \<Rightarrow> False | _ \<Rightarrow> True)"

record RiskDecision =
  rd_DecisionID :: string
  rd_Authority :: string
  rd_RiskLevel :: RiskLevel
  rd_Reasons :: "string list"
  rd_Capability :: string
  rd_ParameterHash :: string
  rd_BusinessContextRef :: string
  rd_IssuedAt :: time
  rd_ExpiresAt :: time
  rd_Signature :: Signature

definition RiskDecision_Validate :: "RiskDecision \<Rightarrow> field_error option" where
  "RiskDecision_Validate d = first_error
     [requireNonEmpty ''decision_id'' (rd_DecisionID d),
      requireNonEmpty ''authority'' (rd_Authority d),
      fail_if (\<not> RiskLevel_Valid (rd_RiskLevel d)) (FieldError ''risk_level'' ''%q is not a frozen risk level''),
      validateCapability (rd_Capability d),
      fail_if (rd_ParameterHash d = [])
        (FieldError ''parameter_hash'' ''is required; a risk decision binds the exact operation''),
      within ''parameter_hash'' (ValidateSHA256Ref (rd_ParameterHash d)),
      fail_if (rd_BusinessContextRef d = []) (FieldError ''business_context_ref'' ''is required''),
      within ''business_context_ref'' (ValidateHandle (rd_BusinessContextRef d) HandleWorkCase),
      fail_if (is_zero_time (rd_IssuedAt d)) (FieldError ''issued_at'' ''is required''),
      fail_if (is_zero_time (rd_ExpiresAt d)) (FieldError ''expires_at'' ''is required''),
      fail_if (\<not> rd_ExpiresAt d > rd_IssuedAt d) (FieldError ''expires_at'' ''must be after issued_at''),
      Signature_Validate (rd_Signature d)]"

subsection \<open>Approval plans and evidence (approval.go)\<close>

record ApprovalPlanRef =
  plan_PlanRef :: string
  plan_PlanHash :: string
  plan_Authority :: string

definition ApprovalPlanRef_Validate :: "ApprovalPlanRef \<Rightarrow> field_error option" where
  "ApprovalPlanRef_Validate p = first_error
     [within ''plan_ref'' (ValidateHandle (plan_PlanRef p) HandleApprovalPlan),
      fail_if (plan_PlanHash p = []) (FieldError ''plan_hash'' ''is required''),
      within ''plan_hash'' (ValidateSHA256Ref (plan_PlanHash p)),
      requireNonEmpty ''authority'' (plan_Authority p),
      fail_if (equal_fold (plan_Authority p) ''agentnexus'')
        (FieldError ''authority'' ''agentnexus never authors approval plans; the plan authority must be the calling approval authority'')]"

record ApprovalRequest =
  apr_RequestID :: string
  apr_TraceID :: string
  apr_BusinessContextRef :: string
  apr_Capability :: string
  apr_ParameterHash :: string
  apr_Purpose :: string
  apr_Plan :: ApprovalPlanRef
  apr_ExpiresAt :: time

definition ApprovalRequest_Validate :: "ApprovalRequest \<Rightarrow> field_error option" where
  "ApprovalRequest_Validate r = first_error
     [validateRequestID (apr_RequestID r),
      within ''business_context_ref'' (ValidateHandle (apr_BusinessContextRef r) HandleWorkCase),
      validateCapability (apr_Capability r),
      within ''parameter_hash'' (ValidateSHA256Ref (apr_ParameterHash r)),
      requireNonEmpty ''purpose'' (apr_Purpose r),
      within ''plan'' (ApprovalPlanRef_Validate (apr_Plan r)),
      fail_if (is_zero_time (apr_ExpiresAt r)) (FieldError ''expires_at'' ''is required'')]"

datatype ApprovalDecision = ApprovalApproved | ApprovalDenied | ApprovalNarrowed | ApprovalOther string

definition ApprovalDecision_Valid :: "ApprovalDecision \<Rightarrow> bool" where
  "ApprovalDecision_Valid d = (case d of ApprovalOther _ \<Rightarrow> False | _ \<Rightarrow> True)"

record ApprovalEvidence =
  ae_ApprovalRef :: string
  ae_PlanRef :: string
  ae_PlanHash :: string
  ae_Capability :: string
  ae_ParameterHash :: string
  ae_Decision :: ApprovalDecision
  ae_ApproverAuthority :: string
  ae_DecidedAt :: time
  ae_Attestation :: Signature

definition ApprovalEvidence_Validate :: "ApprovalEvidence \<Rightarrow> field_error option" where
  "ApprovalEvidence_Validate e = first_error
     [within ''approval_ref'' (ValidateHandle (ae_ApprovalRef e) HandleApprovalEvidence),
      within ''plan_ref'' (ValidateHandle (ae_PlanRef e) HandleApprovalPlan),
      within ''plan_hash'' (ValidateSHA256Ref (ae_PlanHash e)),
      validateCapability (ae_Capability e),
      within ''parameter_hash'' (ValidateSHA256Ref (ae_ParameterHash e)),
      fail_if (\<not> ApprovalDecision_Valid (ae_Decision e)) (FieldError ''decision'' ''%q is not a frozen approval decision''),
      requireNonEmpty ''approver_authority'' (ae_ApproverAuthority e),
      fail_if (is_zero_time (ae_DecidedAt e)) (FieldError ''decided_at'' ''is required''),
      within ''attestation'' (Signature_Validate (ae_Attestation e))]"

record StepGrant =
  sg_GrantRef :: string
  sg_BusinessContextRef :: string
  sg_Capability :: string
  sg_ParameterHash :: string
  sg_OneUse :: bool
  sg_IssuedAt :: time
  sg_ExpiresAt :: time

definition StepGrant_Validate :: "StepGrant \<Rightarrow> field_error option" where
  "StepGrant_Validate g = first_error
     [within ''grant_ref'' (ValidateHandle (sg_GrantRef g) HandleGrant),
      fail_if (sg_BusinessContextRef g = []) (FieldError ''business_context_ref'' ''is required''),
      within ''business_context_ref'' (ValidateHandle (sg_BusinessContextRef g) HandleWorkCase),
      validateCapability (sg_Capability g),
      fail_if (sg_ParameterHash g = [])
        (FieldError ''parameter_hash'' ''is required; a step grant binds the exact operation''),
      within ''parameter_hash'' (ValidateSHA256Ref (sg_ParameterHash g)),
      fail_if (\<not> sg_OneUse g) (FieldError ''one_use'' ''a step grant is one-use by contract''),
      fail_if (is_zero_time (sg_IssuedAt g)) (FieldError ''issued_at'' ''is required''),
      fail_if (is_zero_time (sg_ExpiresAt g)) (FieldError ''expires_at'' ''is required''),
      fail_if (\<not> sg_ExpiresAt g > sg_IssuedAt g) (FieldError ''expires_at'' ''must be after issued_at'')]"

subsection \<open>Action requests (action.go, evidence.go)\<close>

datatype ActionStatus =
    StatusRequested | StatusAwaitingApproval | StatusGranted | StatusDispatched
  | StatusExecuting | StatusSucceeded | StatusFailed | StatusResultUnknown
  | StatusReconciling | StatusCompensating | StatusHumanTakeover | StatusOther string

definition ActionStatuses :: "ActionStatus list" where
  "ActionStatuses =
     [StatusRequested, StatusAwaitingApproval, StatusGranted, StatusDispatched,
      StatusExecuting, StatusSucceeded, StatusFailed, StatusResultUnknown,
      StatusReconciling, StatusCompensating, StatusHumanTakeover]"

definition ActionStatus_Valid :: "ActionStatus \<Rightarrow> bool" where
  "ActionStatus_Valid s = (case s of StatusOther _ \<Rightarrow> False | _ \<Rightarrow> True)"

record Constraints =
  con_MaxResults :: int
  con_AllowedFields :: "string list option"
  con_ProhibitedUses :: "string list"

definition Constraints_Validate :: "Constraints \<Rightarrow> field_error option" where
  "Constraints_Validate c = fail_if (con_MaxResults c < 0) (FieldError ''max_results'' ''must be >= 1 when present'')"

record Precondition =
  pre_Kind :: string
  pre_Reference :: string
  pre_Expected :: string

definition Precondition_Validate :: "Precondition \<Rightarrow> field_error option" where
  "Precondition_Validate p = fail_if (pre_Kind p = [] \<or> pre_Reference p = [])
     (FieldError ''precondition'' ''kind and reference are required'')"

record PostconditionSpec =
  post_PostconditionID :: string
  post_Kind :: string
  post_Reference :: string
  post_Expected :: string

definition PostconditionSpec_Validate :: "PostconditionSpec \<Rightarrow> field_error option" where
  "PostconditionSpec_Validate p = first_error
     [requireNonEmpty ''postcondition_id'' (post_PostconditionID p),
      requireNonEmpty ''kind'' (post_Kind p),
      requireNonEmpty ''reference'' (post_Reference p)]"

record VerificationNeed =
  need_NeedID :: string
  need_PostconditionID :: string
  need_DataClass :: string

definition VerificationNeed_Validate :: "VerificationNeed \<Rightarrow> field_error option" where
  "VerificationNeed_Validate n = first_error
     [requireNonEmpty ''need_id'' (need_NeedID n),
      requireNonEmpty ''postcondition_id'' (need_PostconditionID n),
      requireNonEmpty ''data_class'' (need_DataClass n)]"

record ActionRequest =
  ar_RequestID :: string
  ar_TraceID :: string
  ar_BusinessContextRef :: string
  ar_Capability :: string
  ar_Parameters :: string
  ar_ParameterHash :: string
  ar_Purpose :: string
  ar_Constraints :: "Constraints option"
  ar_RiskDecision :: RiskDecision
  ar_ApprovalPlanRef :: "ApprovalPlanRef option"
  ar_IdempotencyKey :: string
  ar_Preconditions :: "Precondition list"
  ar_Postconditions :: "PostconditionSpec list"
  ar_VerificationNeeds :: "VerificationNeed list"
  ar_ExpiresAt :: time
  ar_ExpectedReceiptSchema :: string
  ar_CompensationRef :: string

text \<open>The two loops of \<open>ActionRequest.Validate\<close> that carry the ids already seen.\<close>

fun validate_postconditions :: "string list \<Rightarrow> PostconditionSpec list \<Rightarrow> field_error option" where
  "validate_postconditions seen [] = None"
| "validate_postconditions seen (p # ps) =
     (case PostconditionSpec_Validate p of
        Some e \<Rightarrow> Some (FieldIn ''postconditions'' e)
      | None \<Rightarrow>
          if post_PostconditionID p \<in> set seen
          then Some (FieldError ''postconditions'' ''[%d]: duplicate postcondition_id %q makes verification bindings ambiguous'')
          else validate_postconditions (post_PostconditionID p # seen) ps)"

fun validate_needs :: "string list \<Rightarrow> string list \<Rightarrow> VerificationNeed list \<Rightarrow> field_error option" where
  "validate_needs postIDs seen [] = None"
| "validate_needs postIDs seen (n # ns) =
     (case VerificationNeed_Validate n of
        Some e \<Rightarrow> Some (FieldIn ''verification_needs'' e)
      | None \<Rightarrow>
          if need_NeedID n \<in> set seen
          then Some (FieldError ''verification_needs'' ''[%d]: duplicate need_id %q makes observation bindings ambiguous'')
          else if need_PostconditionID n \<notin> set postIDs
          then Some (FieldError ''verification_needs'' ''[%d]: postcondition_id %q does not reference a declared postcondition'')
          else validate_needs postIDs (need_NeedID n # seen) ns)"

definition ActionRequest_Validate :: "ActionRequest \<Rightarrow> field_error option" where
  "ActionRequest_Validate r = first_error
     [validateRequestID (ar_RequestID r),
      fail_if (ar_BusinessContextRef r = []) (FieldError ''business_context_ref'' ''is required''),
      within ''business_context_ref'' (ValidateHandle (ar_BusinessContextRef r) HandleWorkCase),
      validateCapability (ar_Capability r),
      fail_if (ar_Parameters r = []) (FieldError ''parameters'' ''typed capability parameters are required''),
      fail_if (\<not> isJSONObject (ar_Parameters r))
        (FieldError ''parameters'' ''must be a single JSON object of capability-typed parameters''),
      fail_if (ar_ParameterHash r = []) (FieldError ''parameter_hash'' ''is required''),
      within ''parameter_hash'' (ValidateSHA256Ref (ar_ParameterHash r)),
      fail_if (HashParameters (ar_Parameters r) \<noteq> ar_ParameterHash r)
        (FieldError ''parameter_hash'' ''parameter_hash does not match the exact parameter bytes''),
      requireNonEmpty ''purpose'' (ar_Purpose r),
      within ''constraints'' (opt_valid Constraints_Validate (ar_Constraints r)),
      within ''risk_decision'' (RiskDecision_Validate (ar_RiskDecision r)),
      fail_if (rd_Capability (ar_RiskDecision r) \<noteq> ar_Capability r)
        (FieldError ''risk_decision'' ''capability binding %q does not match request capability %q''),
      fail_if (rd_ParameterHash (ar_RiskDecision r) \<noteq> ar_ParameterHash r)
        (FieldError ''risk_decision'' ''parameter hash binding does not match the request''),
      fail_if (rd_BusinessContextRef (ar_RiskDecision r) \<noteq> ar_BusinessContextRef r)
        (FieldError ''risk_decision'' ''business context binding does not match the request''),
      within ''approval_plan_ref'' (opt_valid ApprovalPlanRef_Validate (ar_ApprovalPlanRef r)),
      validateIdempotencyKey (ar_IdempotencyKey r),
      first_error (map (\<lambda>p. within ''preconditions'' (Precondition_Validate p)) (ar_Preconditions r)),
      validate_postconditions [] (ar_Postconditions r),
      validate_needs (map post_PostconditionID (ar_Postconditions r)) [] (ar_VerificationNeeds r),
      fail_if (is_zero_time (ar_ExpiresAt r)) (FieldError ''expires_at'' ''is required''),
      requireNonEmpty ''expected_receipt_schema'' (ar_ExpectedReceiptSchema r)]"

record RuntimeAction =
  ra_ActionRef :: string
  ra_Status :: ActionStatus
  ra_BusinessContextRef :: string
  ra_Capability :: string
  ra_ParameterHash :: string
  ra_GrantRef :: string
  ra_ApprovalEvidenceRef :: string
  ra_ReceiptRef :: string
  ra_UpdatedAt :: time

definition optional_handle :: "string \<Rightarrow> string \<Rightarrow> string \<Rightarrow> field_error option" where
  "optional_handle field h prefix = (if h = [] then None else within field (ValidateHandle h prefix))"

definition RuntimeAction_Validate :: "RuntimeAction \<Rightarrow> field_error option" where
  "RuntimeAction_Validate a = first_error
     [within ''action_ref'' (ValidateHandle (ra_ActionRef a) HandleAction),
      fail_if (\<not> ActionStatus_Valid (ra_Status a)) (FieldError ''status'' ''%q is not a frozen action status''),
      within ''business_context_ref'' (ValidateHandle (ra_BusinessContextRef a) HandleWorkCase),
      validateCapability (ra_Capability a),
      within ''parameter_hash'' (ValidateSHA256Ref (ra_ParameterHash a)),
      optional_handle ''grant_ref'' (ra_GrantRef a) HandleGrant,
      optional_handle ''approval_evidence_ref'' (ra_ApprovalEvidenceRef a) HandleApprovalEvidence,
      optional_handle ''receipt_ref'' (ra_ReceiptRef a) HandleReceipt]"

subsection \<open>Receipts (receipt.go)\<close>

record ActionReceipt =
  rc_ReceiptRef :: string
  rc_ActionRef :: string
  rc_Status :: ActionStatus
  rc_Capability :: string
  rc_ParameterHash :: string
  rc_ReceiptSchema :: string
  rc_Result :: string
  rc_ResultHash :: string
  rc_IssuedAt :: time
  rc_Signature :: "Signature option"

definition validate_result :: "string \<Rightarrow> string \<Rightarrow> field_error option" where
  "validate_result res h =
     (if 0 < length res then first_error
        [fail_if (\<not> isJSONObject res) (FieldError ''result'' ''must be a single JSON object typed by receipt_schema''),
         fail_if (h = []) (FieldError ''result_hash'' ''is required when a result is present''),
         fail_if (HashParameters res \<noteq> h) (FieldError ''result_hash'' ''result_hash does not match the exact result bytes'')]
      else if h \<noteq> [] then within ''result_hash'' (ValidateSHA256Ref h)
      else None)"

definition ActionReceipt_Validate :: "ActionReceipt \<Rightarrow> field_error option" where
  "ActionReceipt_Validate r = first_error
     [within ''receipt_ref'' (ValidateHandle (rc_ReceiptRef r) HandleReceipt),
      within ''action_ref'' (ValidateHandle (rc_ActionRef r) HandleAction),
      fail_if (\<not> ActionStatus_Valid (rc_Status r)) (FieldError ''status'' ''%q is not a frozen action status''),
      validateCapability (rc_Capability r),
      within ''parameter_hash'' (ValidateSHA256Ref (rc_ParameterHash r)),
      requireNonEmpty ''receipt_schema'' (rc_ReceiptSchema r),
      validate_result (rc_Result r) (rc_ResultHash r),
      fail_if (is_zero_time (rc_IssuedAt r)) (FieldError ''issued_at'' ''is required''),
      within ''signature'' (opt_valid Signature_Validate (rc_Signature r))]"

record ObservationReceipt =
  or_ObservationRef :: string
  or_ActionRef :: string
  or_ParameterHash :: string
  or_PostconditionID :: string
  or_VerificationNeedID :: string
  or_Source :: string
  or_SourceVersion :: int
  or_Authority :: string
  or_ObservedAt :: time
  or_FreshUntil :: time
  or_ObservationHash :: string
  or_EvidenceRef :: string
  or_AuditRefID :: string
  or_Signature :: Signature

definition ObservationReceipt_Validate :: "ObservationReceipt \<Rightarrow> field_error option" where
  "ObservationReceipt_Validate r = first_error
     [within ''observation_ref'' (ValidateHandle (or_ObservationRef r) HandleObservation),
      within ''action_ref'' (ValidateHandle (or_ActionRef r) HandleAction),
      within ''parameter_hash'' (ValidateSHA256Ref (or_ParameterHash r)),
      requireNonEmpty ''postcondition_id'' (or_PostconditionID r),
      requireNonEmpty ''verification_need_id'' (or_VerificationNeedID r),
      requireNonEmpty ''source'' (or_Source r),
      fail_if (or_SourceVersion r < 1) (FieldError ''source_version'' ''is required; source versions start at 1''),
      requireNonEmpty ''authority'' (or_Authority r),
      fail_if (is_zero_time (or_ObservedAt r)) (FieldError ''observed_at'' ''is required''),
      fail_if (is_zero_time (or_FreshUntil r)) (FieldError ''fresh_until'' ''is required''),
      fail_if (\<not> or_FreshUntil r > or_ObservedAt r)
        (FieldError ''fresh_until'' ''must be after observed_at; an observation proves a bounded time window''),
      within ''observation_hash'' (ValidateSHA256Ref (or_ObservationHash r)),
      within ''evidence_ref'' (ValidateHandle (or_EvidenceRef r) HandleEvidence),
      requireNonEmpty ''audit_ref_id'' (or_AuditRefID r),
      within ''signature'' (Signature_Validate (or_Signature r))]"

subsection \<open>What validity means\<close>

lemmas validate_unfold = PrincipalContext_Validate_def Signature_Validate_def RiskDecision_Validate_def
  ApprovalPlanRef_Validate_def ApprovalRequest_Validate_def ApprovalEvidence_Validate_def
  StepGrant_Validate_def Constraints_Validate_def Precondition_Validate_def PostconditionSpec_Validate_def
  VerificationNeed_Validate_def ActionRequest_Validate_def RuntimeAction_Validate_def
  ActionReceipt_Validate_def ObservationReceipt_Validate_def

lemma opt_valid_None [simp]: "opt_valid f r = None \<longleftrightarrow> (\<forall>a. r = Some a \<longrightarrow> f a = None)"
  by (auto simp: opt_valid_def split: option.splits)

lemma validate_postconditions_None:
  "validate_postconditions seen ps = None \<longleftrightarrow>
     (\<forall>p \<in> set ps. PostconditionSpec_Validate p = None)
     \<and> distinct (map post_PostconditionID ps)
     \<and> set (map post_PostconditionID ps) \<inter> set seen = {}"
  by (induction seen ps rule: validate_postconditions.induct) (auto split: option.splits)

lemma validate_needs_None:
  "validate_needs ids seen ns = None \<longleftrightarrow>
     (\<forall>n \<in> set ns. VerificationNeed_Validate n = None \<and> need_PostconditionID n \<in> set ids)
     \<and> distinct (map need_NeedID ns)
     \<and> set (map need_NeedID ns) \<inter> set seen = {}"
  by (induction ids seen ns rule: validate_needs.induct) (auto split: option.splits)

lemma PrincipalContext_valid_refs:
  "PrincipalContext_Validate p = None \<Longrightarrow> pc_TenantRef p \<noteq> [] \<and> pc_VerifiedAt p < pc_ExpiresAt p
     \<and> TrustClass_Valid (pc_TrustClass p)"
  by (simp add: PrincipalContext_Validate_def first_error_None)

lemma ActionRequest_valid_bindings:
  assumes "ActionRequest_Validate r = None"
  shows "ar_ParameterHash r = HashParameters (ar_Parameters r)"
    and "isJSONObject (ar_Parameters r)"
    and "rd_Capability (ar_RiskDecision r) = ar_Capability r"
    and "rd_ParameterHash (ar_RiskDecision r) = ar_ParameterHash r"
    and "rd_BusinessContextRef (ar_RiskDecision r) = ar_BusinessContextRef r"
    and "RiskDecision_Validate (ar_RiskDecision r) = None"
    and "distinct (map need_NeedID (ar_VerificationNeeds r))"
    and "distinct (map post_PostconditionID (ar_Postconditions r))"
    and "\<forall>n \<in> set (ar_VerificationNeeds r). need_PostconditionID n \<in> set (map post_PostconditionID (ar_Postconditions r))"
  using assms
  by (simp_all add: ActionRequest_Validate_def first_error_None validate_postconditions_None
      validate_needs_None del: set_map)

lemma ActionStatus_Valid_iff: "ActionStatus_Valid s \<longleftrightarrow> s \<in> set ActionStatuses"
  by (cases s) (simp_all add: ActionStatus_Valid_def ActionStatuses_def)

end
