(* ===== verification/ActionLifecycle.thy ===== *)
theory ActionLifecycle
  imports RuntimeTypes "HOL-Library.Transitive_Closure_Table"
begin

text \<open>
  \<^verbatim>\<open>internal/actions/state_machine.go\<close>: the transition table of an Action,
  with the facts the rest of the development reads off it: which statuses a
  side effect can have happened in, which can be left, and that no status is
  entered twice on one path but through the table's own edges.
\<close>

definition allowedEdges :: "ActionStatus \<Rightarrow> ActionStatus list" where
  "allowedEdges st = (case st of
      StatusRequested \<Rightarrow> [StatusAwaitingApproval, StatusGranted, StatusFailed, StatusHumanTakeover]
    | StatusAwaitingApproval \<Rightarrow> [StatusGranted, StatusFailed, StatusHumanTakeover]
    | StatusGranted \<Rightarrow> [StatusDispatched, StatusFailed, StatusHumanTakeover]
    | StatusDispatched \<Rightarrow> [StatusExecuting, StatusSucceeded, StatusFailed, StatusResultUnknown,
                          StatusCompensating, StatusHumanTakeover]
    | StatusExecuting \<Rightarrow> [StatusSucceeded, StatusFailed, StatusResultUnknown, StatusCompensating, StatusHumanTakeover]
    | StatusResultUnknown \<Rightarrow> [StatusReconciling, StatusCompensating, StatusHumanTakeover]
    | StatusReconciling \<Rightarrow> [StatusSucceeded, StatusFailed, StatusHumanTakeover]
    | StatusSucceeded \<Rightarrow> [StatusCompensating, StatusHumanTakeover]
    | StatusFailed \<Rightarrow> [StatusCompensating, StatusHumanTakeover]
    | StatusCompensating \<Rightarrow> [StatusHumanTakeover]
    | StatusHumanTakeover \<Rightarrow> []
    | StatusOther _ \<Rightarrow> [])"

definition canTransition :: "ActionStatus \<Rightarrow> ActionStatus \<Rightarrow> bool" where
  "canTransition from to \<longleftrightarrow> to \<in> set (allowedEdges from)"

definition compensable :: "ActionStatus \<Rightarrow> bool" where
  "compensable st \<longleftrightarrow> st \<in> {StatusDispatched, StatusExecuting, StatusSucceeded, StatusFailed,
                            StatusResultUnknown, StatusReconciling}"

definition terminalReceiptStatus :: "ActionStatus \<Rightarrow> ActionStatus option" where
  "terminalReceiptStatus st = (case st of StatusSucceeded \<Rightarrow> Some st | StatusFailed \<Rightarrow> Some st | _ \<Rightarrow> None)"

definition AwaitingReconciliation :: "ActionStatus \<Rightarrow> bool" where
  "AwaitingReconciliation st \<longleftrightarrow> st = StatusResultUnknown \<or> st = StatusReconciling"

lemma terminalReceiptStatus_Some:
  "terminalReceiptStatus st = Some to \<longleftrightarrow> to = st \<and> (st = StatusSucceeded \<or> st = StatusFailed)"
  by (cases st) (auto simp: terminalReceiptStatus_def)

lemma canTransition_simps [simp]:
  "\<not> canTransition StatusHumanTakeover to"
  "\<not> canTransition (StatusOther x) to"
  "canTransition StatusGranted StatusDispatched"
  "canTransition StatusDispatched to \<longleftrightarrow> to \<in> {StatusExecuting, StatusSucceeded, StatusFailed,
     StatusResultUnknown, StatusCompensating, StatusHumanTakeover}"
  "canTransition from StatusDispatched \<longleftrightarrow> from = StatusGranted"
  "canTransition from StatusGranted \<longleftrightarrow> from = StatusRequested \<or> from = StatusAwaitingApproval"
  "\<not> canTransition from StatusRequested"
  "canTransition from StatusAwaitingApproval \<longleftrightarrow> from = StatusRequested"
  by (auto simp: canTransition_def allowedEdges_def split: ActionStatus.splits)

lemma canTransition_valid:
  "canTransition from to \<Longrightarrow> ActionStatus_Valid from \<and> ActionStatus_Valid to"
  by (cases "from") (auto simp: canTransition_def allowedEdges_def ActionStatus_Valid_def)

subsection \<open>Progress\<close>

text \<open>
  Every edge moves up this rank, so no status is ever entered twice and a
  lifecycle has at most eight transitions.
\<close>

fun status_rank :: "ActionStatus \<Rightarrow> nat" where
  "status_rank StatusRequested = 0"
| "status_rank StatusAwaitingApproval = 1"
| "status_rank StatusGranted = 2"
| "status_rank StatusDispatched = 3"
| "status_rank StatusExecuting = 4"
| "status_rank StatusResultUnknown = 5"
| "status_rank StatusReconciling = 6"
| "status_rank StatusSucceeded = 7"
| "status_rank StatusFailed = 7"
| "status_rank StatusCompensating = 8"
| "status_rank StatusHumanTakeover = 9"
| "status_rank (StatusOther _) = 10"

lemma canTransition_rank: "canTransition from to \<Longrightarrow> status_rank from < status_rank to"
  by (cases "from") (auto simp: canTransition_def allowedEdges_def)

lemma canTransition_not_back: "canTransition\<^sup>+\<^sup>+ from to \<Longrightarrow> status_rank from < status_rank to"
  by (induction rule: tranclp_induct) (auto dest: canTransition_rank)

lemma path_rank: "canTransition\<^sup>*\<^sup>* from to \<Longrightarrow> status_rank from \<le> status_rank to"
  by (induction rule: rtranclp_induct) (auto dest: canTransition_rank)

text \<open>
  The statuses reached once the one-use grant is consumed. They are never left,
  but for the two cancellation statuses a side effect has possibly happened.
\<close>

definition after_dispatch :: "ActionStatus \<Rightarrow> bool" where
  "after_dispatch st \<longleftrightarrow> st \<in> {StatusDispatched, StatusExecuting, StatusResultUnknown, StatusReconciling,
                                StatusSucceeded}"

definition before_dispatch :: "ActionStatus \<Rightarrow> bool" where
  "before_dispatch st \<longleftrightarrow> st \<in> {StatusRequested, StatusAwaitingApproval, StatusGranted}"

lemma enter_after_dispatch:
  "canTransition from to \<Longrightarrow> after_dispatch to \<Longrightarrow> to \<noteq> StatusDispatched \<Longrightarrow> after_dispatch from"
  by (cases "from") (auto simp: canTransition_def allowedEdges_def after_dispatch_def)

lemma no_return_before_dispatch:
  "canTransition from to \<Longrightarrow> before_dispatch to \<Longrightarrow> before_dispatch from"
  by (cases "from") (auto simp: canTransition_def allowedEdges_def before_dispatch_def)

lemma never_back_before_dispatch:
  "canTransition\<^sup>*\<^sup>* from to \<Longrightarrow> before_dispatch to \<Longrightarrow> before_dispatch from"
  by (induction rule: rtranclp_induct) (auto dest: no_return_before_dispatch)

end
