(* ===== verification/Tickets.thy ===== *)
theory Tickets
  imports RuntimeTypes
begin

text \<open>
  \<^verbatim>\<open>internal/tickets\<close>: case tickets, resource-scoped step grants and the
  one-use grant of an action. The in-memory store keeps its Go maps as
  association lists, because verification ranges over the grants. The clock,
  the identifier generator and the token generator are streams indexed by how
  often they were read.
\<close>

datatype ticket_error =
    ErrGrantDenied | ErrGrantUnavailable | ErrInvalidGrant
  | ErrInvalidActionGrant | ErrActionGrantConsumed

type_synonym ticket_go_error = "ticket_error go_error"

definition MaxStepGrantTTL :: duration where "MaxStepGrantTTL = 5 * minute"
definition MaxActionGrantTTL :: duration where "MaxActionGrantTTL = 5 * minute"

subsection \<open>The one-use grant of an action\<close>

record ActionGrantInput =
  agi_GrantRef :: string
  agi_BusinessContextRef :: string
  agi_Capability :: string
  agi_ParameterHash :: string
  agi_TTL :: duration

definition MintActionGrant :: "ActionGrantInput \<Rightarrow> time \<Rightarrow> ticket_go_error + StepGrant" where
  "MintActionGrant input issuedAt =
     (let ttl = (if agi_TTL input \<le> 0 \<or> agi_TTL input > MaxActionGrantTTL then MaxActionGrantTTL else agi_TTL input);
          grant = \<lparr>sg_GrantRef = agi_GrantRef input, sg_BusinessContextRef = agi_BusinessContextRef input,
                   sg_Capability = agi_Capability input, sg_ParameterHash = agi_ParameterHash input,
                   sg_OneUse = True, sg_IssuedAt = issuedAt, sg_ExpiresAt = issuedAt + ttl\<rparr>
      in case StepGrant_Validate grant of
           Some e \<Rightarrow> Inl (Joined [Sentinel ErrInvalidActionGrant, Invalid e])
         | None \<Rightarrow> Inr grant)"

definition ConsumeActionGrant :: "StepGrant \<Rightarrow> time \<Rightarrow> bool \<Rightarrow> ticket_go_error option" where
  "ConsumeActionGrant grant consumedAt alreadyConsumed = first_error
     [fail_if (\<not> sg_OneUse grant) (Sentinel ErrInvalidActionGrant),
      fail_if alreadyConsumed (Sentinel ErrActionGrantConsumed),
      fail_if (\<not> consumedAt < sg_ExpiresAt grant)
        (Joined [Sentinel ErrInvalidActionGrant, Message ''action grant expired''])]"

lemma MintActionGrant_Inr:
  assumes "MintActionGrant input t = Inr g"
  shows "StepGrant_Validate g = None" and "sg_OneUse g" and "sg_IssuedAt g = t"
    and "sg_GrantRef g = agi_GrantRef input" and "sg_Capability g = agi_Capability input"
    and "sg_ParameterHash g = agi_ParameterHash input"
    and "sg_BusinessContextRef g = agi_BusinessContextRef input"
    and "t < sg_ExpiresAt g" and "sg_ExpiresAt g \<le> t + MaxActionGrantTTL"
  using assms
  by (auto simp: MintActionGrant_def Let_def MaxActionGrantTTL_def minute_def second_def
      split: option.splits if_splits)

lemma ConsumeActionGrant_None:
  "ConsumeActionGrant g at used = None \<longleftrightarrow> sg_OneUse g \<and> \<not> used \<and> at < sg_ExpiresAt g"
  by (auto simp: ConsumeActionGrant_def first_error_None)

subsection \<open>Tickets, grants and actors\<close>

record CaseTicket =
  ct_ID :: string
  ct_Token :: string
  ct_TokenHash :: string
  ct_EnterpriseID :: string
  ct_ActorUserID :: string
  ct_RequestID :: string
  ct_TraceID :: string
  ct_Status :: string
  ct_ExpiresAt :: time
  ct_CreatedAt :: time

record TicketGrant =
  tg_ID :: string
  tg_Token :: string
  tg_TokenHash :: string
  tg_EnterpriseID :: string
  tg_ActorUserID :: string
  tg_CaseTicketID :: string
  tg_OrgUnitID :: string
  tg_OrgVersion :: int
  tg_ResourceType :: string
  tg_ResourceID :: string
  tg_Action :: string
  tg_Scopes :: "string list"
  tg_ExpiresAt :: time
  tg_CreatedAt :: time

record VerifyStepGrantInput =
  vi_Token :: string
  vi_ResourceType :: string
  vi_ResourceID :: string
  vi_Action :: string
  vi_Scope :: string

record IssueCaseTicketInput =
  ii_RequestID :: string
  ii_TraceID :: string
  ii_TTL :: duration

record CreateStepGrantInput =
  ci_CaseTicketID :: string
  ci_ResourceType :: string
  ci_ResourceID :: string
  ci_Action :: string
  ci_TTL :: duration

record Actor =
  actor_EnterpriseID :: string
  actor_UserID :: string
  actor_CaseTicketID :: string
  actor_OrgVersion :: int

record GrantAuthorization =
  ga_Allowed :: bool
  ga_EnterpriseID :: string
  ga_OrgVersion :: int
  ga_OrgUnitID :: string

definition credentialHash :: "string \<Rightarrow> string \<Rightarrow> string" where
  "credentialHash domain token = sha256_hex (domain @ token)"

definition HashCaseTicketToken :: "string \<Rightarrow> string" where
  "HashCaseTicketToken token = credentialHash ''agentnexus:case-ticket:v1:'' token"

definition HashStepGrantToken :: "string \<Rightarrow> string" where
  "HashStepGrantToken token = credentialHash ''agentnexus:step-grant:v1:'' token"

definition exactGrantScope :: "string \<Rightarrow> string \<Rightarrow> string option" where
  "exactGrantScope resourceType action =
     (if resourceType = ''dream_evidence'' \<and> action = ''read'' then Some ''dream:evidence:read'' else None)"

definition IsGrantExpired :: "TicketGrant \<Rightarrow> time \<Rightarrow> bool" where
  "IsGrantExpired grant at \<longleftrightarrow> \<not> at < tg_ExpiresAt grant"

lemma HashStepGrantToken_collision:
  "HashStepGrantToken a = HashStepGrantToken b \<Longrightarrow>
     a = b \<or> sha256 (''agentnexus:step-grant:v1:'' @ a) = sha256 (''agentnexus:step-grant:v1:'' @ b) \<and> a \<noteq> b"
  by (auto simp: HashStepGrantToken_def credentialHash_def sha256_hex_def dest: hex_encode_inj)

lemma length_HashStepGrantToken [simp]: "length (HashStepGrantToken t) = 64"
  by (simp add: HashStepGrantToken_def credentialHash_def sha256_hex_def)

subsection \<open>The in-memory store\<close>

record MemoryTicketStore =
  ms_tickets :: "(string \<times> CaseTicket) list"
  ms_grants :: "(string \<times> TicketGrant) list"
  ms_audits :: "string list"
  ms_failAudit :: bool

definition ticketKey :: "string \<Rightarrow> string \<Rightarrow> string" where
  "ticketKey enterpriseID ident = enterpriseID @ '':'' @ ident"

definition ms_CreateCaseTicket :: "CaseTicket \<Rightarrow> (ticket_error, MemoryTicketStore, CaseTicket) effect" where
  "ms_CreateCaseTicket ticket s =
     (Inr ticket, s\<lparr>ms_tickets := AList.update (ticketKey (ct_EnterpriseID ticket) (ct_ID ticket)) ticket (ms_tickets s)\<rparr>)"

definition ms_CreateStepGrant :: "TicketGrant \<Rightarrow> (ticket_error, MemoryTicketStore, TicketGrant) effect" where
  "ms_CreateStepGrant grant s =
     (Inr grant, s\<lparr>ms_grants := AList.update (ticketKey (tg_EnterpriseID grant) (tg_ID grant)) grant (ms_grants s)\<rparr>)"

definition ms_CreateStepGrantAndAudit ::
  "TicketGrant \<Rightarrow> string \<Rightarrow> (ticket_error, MemoryTicketStore, TicketGrant) effect" where
  "ms_CreateStepGrantAndAudit grant auditID s =
     (let key = ticketKey (tg_EnterpriseID grant) (tg_ID grant) in
      if ms_failAudit s then (Inl (Sentinel ErrGrantUnavailable), s)
      else if map_of (ms_grants s) key \<noteq> None then (Inl (Sentinel ErrGrantUnavailable), s)
      else if \<exists>(k, g) \<in> set (ms_grants s). tg_TokenHash g = tg_TokenHash grant
      then (Inl (Sentinel ErrGrantUnavailable), s)
      else (Inr grant, s\<lparr>ms_grants := AList.update key grant (ms_grants s), ms_audits := ms_audits s @ [auditID]\<rparr>))"

definition grant_matches :: "Actor \<Rightarrow> VerifyStepGrantInput \<Rightarrow> time \<Rightarrow> TicketGrant \<Rightarrow> bool" where
  "grant_matches actor input now g \<longleftrightarrow>
     tg_ActorUserID g = actor_UserID actor \<and> tg_ResourceType g = vi_ResourceType input
     \<and> tg_ResourceID g = vi_ResourceID input \<and> tg_Action g = vi_Action input
     \<and> tg_Scopes g = [vi_Scope input] \<and> now < tg_ExpiresAt g"

definition ms_VerifyStepGrantAndAudit ::
  "Actor \<Rightarrow> VerifyStepGrantInput \<Rightarrow> string \<Rightarrow> string \<Rightarrow> time \<Rightarrow> (ticket_error, MemoryTicketStore, TicketGrant) effect" where
  "ms_VerifyStepGrantAndAudit actor input tokenHash auditID now s =
     (case find (\<lambda>(k, g). tg_EnterpriseID g = actor_EnterpriseID actor \<and> tg_TokenHash g = tokenHash) (ms_grants s) of
        None \<Rightarrow> (Inl (Sentinel ErrGrantDenied), s)
      | Some (k, g) \<Rightarrow>
          if \<not> grant_matches actor input now g then (Inl (Sentinel ErrGrantDenied), s)
          else if ms_failAudit s then (Inl (Sentinel ErrGrantUnavailable), s)
          else (Inr g, s\<lparr>ms_audits := ms_audits s @ [auditID]\<rparr>))"

definition RawCaseTicketTokenStored :: "MemoryTicketStore \<Rightarrow> string \<Rightarrow> bool" where
  "RawCaseTicketTokenStored s token \<longleftrightarrow>
     (\<exists>(k, t) \<in> set (ms_tickets s). ct_Token t = token \<or> ct_TokenHash t = token)"

definition RawGrantTokenStored :: "MemoryTicketStore \<Rightarrow> string \<Rightarrow> bool" where
  "RawGrantTokenStored s token \<longleftrightarrow>
     (\<exists>(k, g) \<in> set (ms_grants s). tg_Token g = token \<or> tg_TokenHash g = token)"

definition NewTicketStore :: MemoryTicketStore where
  "NewTicketStore = \<lparr>ms_tickets = [], ms_grants = [], ms_audits = [], ms_failAudit = False\<rparr>"

lemmas ticket_store_defs = ms_CreateCaseTicket_def ms_CreateStepGrant_def
  ms_CreateStepGrantAndAudit_def ms_VerifyStepGrantAndAudit_def

subsection \<open>The store interface\<close>

text \<open>
  A Go interface value is the table of its methods. The service calls the
  ticket method always, and the governed methods only when the store's dynamic
  type has them (\<open>None\<close> is a failed type assertion).
\<close>

record 'st GovernedGrantStore =
  gv_Create :: "TicketGrant \<Rightarrow> string \<Rightarrow> (ticket_error, 'st, TicketGrant) effect"
  gv_Verify :: "Actor \<Rightarrow> VerifyStepGrantInput \<Rightarrow> string \<Rightarrow> string \<Rightarrow> time \<Rightarrow> (ticket_error, 'st, TicketGrant) effect"

record 'st TicketStore =
  st_CreateCaseTicket :: "CaseTicket \<Rightarrow> (ticket_error, 'st, CaseTicket) effect"
  st_Governed :: "'st GovernedGrantStore option"

definition memory_governed :: "MemoryTicketStore GovernedGrantStore" where
  "memory_governed = \<lparr>gv_Create = ms_CreateStepGrantAndAudit, gv_Verify = ms_VerifyStepGrantAndAudit\<rparr>"

definition memory_ticket_store :: "MemoryTicketStore TicketStore" where
  "memory_ticket_store = \<lparr>st_CreateCaseTicket = ms_CreateCaseTicket, st_Governed = Some memory_governed\<rparr>"

subsection \<open>The service\<close>

record 'st TicketService =
  ts_store :: "'st TicketStore"
  ts_now :: "nat \<Rightarrow> time"
  ts_newID :: "nat \<Rightarrow> string"
  ts_newToken :: "nat \<Rightarrow> string option"
  ts_authorizer :: "(Actor \<Rightarrow> CreateStepGrantInput \<Rightarrow> ticket_go_error + GrantAuthorization) option"

record 'st TicketWorld =
  tw_store :: 'st
  tw_ticks :: nat
  tw_ids :: nat
  tw_tokens :: nat

definition read_clock :: "'st TicketService \<Rightarrow> (ticket_error, 'st TicketWorld, time) effect" where
  "read_clock svc w = (Inr (ts_now svc (tw_ticks w)), w\<lparr>tw_ticks := Suc (tw_ticks w)\<rparr>)"

definition new_id :: "'st TicketService \<Rightarrow> (ticket_error, 'st TicketWorld, string) effect" where
  "new_id svc w = (Inr (ts_newID svc (tw_ids w)), w\<lparr>tw_ids := Suc (tw_ids w)\<rparr>)"

definition new_token :: "'st TicketService \<Rightarrow> (ticket_error, 'st TicketWorld, string) effect" where
  "new_token svc w =
     (case ts_newToken svc (tw_tokens w) of
        None \<Rightarrow> (Inl (Sentinel ErrGrantUnavailable), w\<lparr>tw_tokens := Suc (tw_tokens w)\<rparr>)
      | Some t \<Rightarrow> (Inr t, w\<lparr>tw_tokens := Suc (tw_tokens w)\<rparr>))"

definition on_store :: "(ticket_error, 'st, 'a) effect \<Rightarrow> (ticket_error, 'st TicketWorld, 'a) effect" where
  "on_store m w = (case m (tw_store w) of (r, s) \<Rightarrow> (r, w\<lparr>tw_store := s\<rparr>))"

text \<open>\<open>ctx_done\<close> is \<open>ctx.Err() \<noteq> nil\<close>.\<close>

definition IssueCaseTicket ::
  "'st TicketService \<Rightarrow> bool \<Rightarrow> Actor \<Rightarrow> IssueCaseTicketInput \<Rightarrow> (ticket_error, 'st TicketWorld, CaseTicket) effect" where
  "IssueCaseTicket svc ctx_done actor input =
     andthen (require (canonical (actor_EnterpriseID actor) \<and> canonical (actor_UserID actor)
                       \<and> canonical (ii_RequestID input)
                       \<and> (ii_TraceID input = [] \<or> canonical (ii_TraceID input)) \<and> 0 < ii_TTL input)
                (Sentinel ErrInvalidGrant)) (\<lambda>_.
     andthen (require (\<not> ctx_done) (Joined [Sentinel ErrGrantUnavailable, Message ''context''])) (\<lambda>_.
     andthen (read_clock svc) (\<lambda>now.
     andthen (new_token svc) (\<lambda>token.
     andthen (require (canonical token) (Sentinel ErrGrantUnavailable)) (\<lambda>_.
     andthen (new_id svc) (\<lambda>ident.
     andthen (on_store (st_CreateCaseTicket (ts_store svc)
        \<lparr>ct_ID = ident, ct_Token = [], ct_TokenHash = HashCaseTicketToken token,
         ct_EnterpriseID = actor_EnterpriseID actor, ct_ActorUserID = actor_UserID actor,
         ct_RequestID = ii_RequestID input, ct_TraceID = ii_TraceID input, ct_Status = ''active'',
         ct_ExpiresAt = now + ii_TTL input, ct_CreatedAt = now\<rparr>)) (\<lambda>stored.
     ret (stored\<lparr>ct_Token := token\<rparr>))))))))"

definition grant_error :: "ticket_error \<Rightarrow> ticket_error \<Rightarrow> ticket_go_error \<Rightarrow> ticket_go_error" where
  "grant_error seen other e = (if errors_is e seen then Sentinel seen else Sentinel other)"

definition create_grant_input_ok :: "Actor \<Rightarrow> CreateStepGrantInput \<Rightarrow> bool" where
  "create_grant_input_ok actor input \<longleftrightarrow>
     canonical (actor_EnterpriseID actor) \<and> canonical (actor_UserID actor) \<and> 1 \<le> actor_OrgVersion actor
     \<and> canonical (ci_CaseTicketID input) \<and> canonical (ci_ResourceType input)
     \<and> canonical (ci_ResourceID input) \<and> canonical (ci_Action input) \<and> 0 < ci_TTL input"

definition AuthorizeAndCreateGrant ::
  "'st TicketService \<Rightarrow> Actor \<Rightarrow> CreateStepGrantInput \<Rightarrow> (ticket_error, 'st TicketWorld, TicketGrant) effect" where
  "AuthorizeAndCreateGrant svc actor input =
     (case ts_authorizer svc of None \<Rightarrow> fail (Sentinel ErrInvalidGrant) | Some authorize \<Rightarrow>
     andthen (require (create_grant_input_ok actor input) (Sentinel ErrInvalidGrant)) (\<lambda>_.
     andthen (require (actor_CaseTicketID actor = [] \<or> actor_CaseTicketID actor = ci_CaseTicketID input)
                (Sentinel ErrGrantDenied)) (\<lambda>_.
     case authorize actor input of
       Inl e \<Rightarrow> fail (grant_error ErrGrantDenied ErrGrantUnavailable e)
     | Inr auth \<Rightarrow>
     andthen (require (ga_Allowed auth \<and> ga_EnterpriseID auth = actor_EnterpriseID actor
                       \<and> ga_OrgVersion auth = actor_OrgVersion actor \<and> canonical (ga_OrgUnitID auth))
                (Sentinel ErrGrantDenied)) (\<lambda>_.
     case exactGrantScope (ci_ResourceType input) (ci_Action input) of
       None \<Rightarrow> fail (Sentinel ErrGrantDenied)
     | Some scope \<Rightarrow>
     (let ttl = (if ci_TTL input > MaxStepGrantTTL then MaxStepGrantTTL else ci_TTL input) in
     andthen (new_token svc) (\<lambda>token.
     andthen (require (canonical token) (Sentinel ErrGrantUnavailable)) (\<lambda>_.
     andthen (read_clock svc) (\<lambda>now.
     andthen (new_id svc) (\<lambda>grantID.
     andthen (new_id svc) (\<lambda>auditID.
     andthen (require (canonical grantID \<and> canonical auditID) (Sentinel ErrGrantUnavailable)) (\<lambda>_.
     case st_Governed (ts_store svc) of
       None \<Rightarrow> fail (Sentinel ErrGrantUnavailable)
     | Some governed \<Rightarrow>
     andthen (on_error (grant_error ErrGrantDenied ErrGrantUnavailable) (on_store (gv_Create governed
        \<lparr>tg_ID = grantID, tg_Token = [], tg_TokenHash = HashStepGrantToken token,
         tg_EnterpriseID = actor_EnterpriseID actor, tg_ActorUserID = actor_UserID actor,
         tg_CaseTicketID = ci_CaseTicketID input, tg_OrgUnitID = ga_OrgUnitID auth,
         tg_OrgVersion = actor_OrgVersion actor, tg_ResourceType = ci_ResourceType input,
         tg_ResourceID = ci_ResourceID input, tg_Action = ci_Action input, tg_Scopes = [scope],
         tg_ExpiresAt = now + ttl, tg_CreatedAt = now\<rparr> auditID))) (\<lambda>stored.
     ret (stored\<lparr>tg_Token := token\<rparr>)))))))))))))"

definition VerifyGrant ::
  "'st TicketService \<Rightarrow> Actor \<Rightarrow> VerifyStepGrantInput \<Rightarrow> (ticket_error, 'st TicketWorld, TicketGrant) effect" where
  "VerifyGrant svc actor input =
     andthen (require (canonical (actor_EnterpriseID actor) \<and> canonical (actor_UserID actor)
                       \<and> canonical (vi_Token input) \<and> canonical (vi_ResourceType input)
                       \<and> canonical (vi_ResourceID input) \<and> canonical (vi_Action input)
                       \<and> canonical (vi_Scope input)) (Sentinel ErrInvalidGrant)) (\<lambda>_.
     case st_Governed (ts_store svc) of
       None \<Rightarrow> fail (Sentinel ErrGrantUnavailable)
     | Some governed \<Rightarrow>
     andthen (new_id svc) (\<lambda>auditID.
     andthen (require (canonical auditID) (Sentinel ErrGrantUnavailable)) (\<lambda>_.
     andthen (read_clock svc) (\<lambda>now.
     andthen (on_error (grant_error ErrGrantUnavailable ErrGrantDenied)
               (on_store (gv_Verify governed actor input (HashStepGrantToken (vi_Token input)) auditID now))) (\<lambda>grant.
     andthen (require (tg_EnterpriseID grant = actor_EnterpriseID actor \<and> tg_ActorUserID grant = actor_UserID actor
                       \<and> tg_ResourceType grant = vi_ResourceType input \<and> tg_ResourceID grant = vi_ResourceID input
                       \<and> tg_Action grant = vi_Action input \<and> tg_Scopes grant = [vi_Scope input])
                (Sentinel ErrGrantDenied)) (\<lambda>_.
     ret (grant\<lparr>tg_Token := []\<rparr>)))))))"

end
