(* ===== verification/ActionStore.thy ===== *)
theory ActionStore
  imports ActionLifecycle Tickets
begin

text \<open>
  \<^verbatim>\<open>internal/actions/model.go\<close>: the durable records of the action plane, the
  \<open>Store\<close> interface as the table of its methods, and the in-memory store with
  every one of its operations. Each operation runs under the store's mutex, so
  it is one atomic step. The Go maps are partial functions on the joined key;
  the outbox is an association list, since the drain ranges over it.
\<close>

datatype action_error =
    ErrInvalidInput | ErrUnavailable | ErrNotFound | ErrIdempotencyConflict
  | ErrForbiddenTransition | ErrCallerUntrusted | ErrApprovalRequired | ErrEvidenceRejected
  | ErrEvidenceConsumed | ErrReceiptRejected | ErrBlindRetryForbidden | ErrCompensationUndeclared
  | ErrBindingMismatch | ErrTickets ticket_go_error

type_synonym action_go_error = "action_error go_error"

subsection \<open>Records\<close>

record Action =
  ac_TenantRef :: string
  ac_ActionRef :: string
  ac_Status :: ActionStatus
  ac_BusinessContextRef :: string
  ac_Capability :: string
  ac_ParameterHash :: string
  ac_IdempotencyKey :: string
  ac_RiskAuthority :: string
  ac_RiskLevel :: RiskLevel
  ac_ApprovalPlanRef :: string
  ac_GrantRef :: string
  ac_ApprovalEvidenceRef :: string
  ac_ReceiptRef :: string
  ac_CompensationRef :: string
  ac_CompensationOf :: string
  ac_ExpectedReceiptSchema :: string
  ac_Postconditions :: "PostconditionSpec list"
  ac_VerificationNeeds :: "VerificationNeed list"
  ac_ExpiresAt :: time
  ac_AuditRefID :: string
  ac_FailureReason :: string
  ac_CreatedAt :: time
  ac_UpdatedAt :: time

definition zero_action :: Action where
  "zero_action = \<lparr>ac_TenantRef = [], ac_ActionRef = [], ac_Status = StatusOther [], ac_BusinessContextRef = [],
     ac_Capability = [], ac_ParameterHash = [], ac_IdempotencyKey = [], ac_RiskAuthority = [],
     ac_RiskLevel = RiskOther [], ac_ApprovalPlanRef = [], ac_GrantRef = [], ac_ApprovalEvidenceRef = [],
     ac_ReceiptRef = [], ac_CompensationRef = [], ac_CompensationOf = [], ac_ExpectedReceiptSchema = [],
     ac_Postconditions = [], ac_VerificationNeeds = [], ac_ExpiresAt = 0, ac_AuditRefID = [],
     ac_FailureReason = [], ac_CreatedAt = 0, ac_UpdatedAt = 0\<rparr>"

definition Action_Runtime :: "Action \<Rightarrow> RuntimeAction" where
  "Action_Runtime a = \<lparr>ra_ActionRef = ac_ActionRef a, ra_Status = ac_Status a,
     ra_BusinessContextRef = ac_BusinessContextRef a, ra_Capability = ac_Capability a,
     ra_ParameterHash = ac_ParameterHash a, ra_GrantRef = ac_GrantRef a,
     ra_ApprovalEvidenceRef = ac_ApprovalEvidenceRef a, ra_ReceiptRef = ac_ReceiptRef a,
     ra_UpdatedAt = ac_UpdatedAt a\<rparr>"

definition hasPostcondition :: "Action \<Rightarrow> string \<Rightarrow> bool" where
  "hasPostcondition a ident \<longleftrightarrow> list_ex (\<lambda>p. post_PostconditionID p = ident) (ac_Postconditions a)"

definition verificationNeed :: "Action \<Rightarrow> string \<Rightarrow> VerificationNeed option" where
  "verificationNeed a needID = find (\<lambda>n. need_NeedID n = needID) (ac_VerificationNeeds a)"

record Grant =
  gr_TenantRef :: string
  gr_GrantRef :: string
  gr_ActionRef :: string
  gr_BusinessContextRef :: string
  gr_Capability :: string
  gr_ParameterHash :: string
  gr_OneUse :: bool
  gr_IssuedAt :: time
  gr_ExpiresAt :: time
  gr_ConsumedAt :: time

datatype DispatchKind = DispatchExecute | DispatchCompensate

record Dispatch =
  dp_TenantRef :: string
  dp_DispatchRef :: string
  dp_ActionRef :: string
  dp_Capability :: string
  dp_ParameterHash :: string
  dp_GrantRef :: string
  dp_Kind :: DispatchKind
  dp_Published :: bool
  dp_Attempts :: int
  dp_CreatedAt :: time
  dp_PublishedAt :: time
  dp_NextAttemptAt :: time
  dp_LastError :: string
  dp_DeadLetteredAt :: time

record DispatchOutcome =
  do_Published :: bool
  do_NextAttemptAt :: time
  do_LastError :: string
  do_DeadLetter :: bool

record Result =
  rs_TenantRef :: string
  rs_ResultID :: string
  rs_ActionRef :: string
  rs_Receipt :: ActionReceipt

record ConsumedEvidence =
  ce_ApprovalRef :: string
  ce_PlanRef :: string
  ce_Capability :: string
  ce_ParameterHash :: string
  ce_Decision :: ApprovalDecision

record AuditEvent =
  au_TenantRef :: string
  au_PrincipalRef :: string
  au_Action :: string
  au_ActionRef :: string
  au_StatusFrom :: ActionStatus
  au_StatusTo :: ActionStatus
  au_Details :: "(string \<times> string) list"
  au_Capability :: string
  au_ParameterHash :: string
  au_GrantRef :: string
  au_ApprovalEvidenceRef :: string
  au_ReceiptRef :: string
  au_RiskAuthority :: string
  au_AgentClientRef :: string
  au_AgentReleaseRef :: string
  au_OrgSnapshotRef :: string

record DispatchMessage =
  dm_TenantRef :: string
  dm_ActionRef :: string
  dm_DispatchRef :: string
  dm_Capability :: string
  dm_ParameterHash :: string
  dm_GrantRef :: string
  dm_Kind :: DispatchKind

text \<open>
  What a service call touches outside the store: how often the clock, the id
  generator, the audit sink and the transport were called, the audit events
  accepted so far and the messages the transport accepted, in order.
\<close>

record Env =
  en_ticks :: nat
  en_ids :: nat
  en_auditCalls :: nat
  en_audit :: "AuditEvent list"
  en_publishCalls :: nat
  en_published :: "DispatchMessage list"

type_synonym deliverer = "Dispatch \<Rightarrow> Env \<Rightarrow> DispatchOutcome \<times> Env"

subsection \<open>The store interface\<close>

record 'st ActionStoreOps =
  op_PutRequested :: "Action \<Rightarrow> (action_error, 'st, Action \<times> bool) effect"
  op_GetByIdempotencyKey :: "string \<Rightarrow> string \<Rightarrow> (action_error, 'st, Action) effect"
  op_GetAction :: "string \<Rightarrow> string \<Rightarrow> (action_error, 'st, Action) effect"
  op_Grant :: "Action \<Rightarrow> Grant \<Rightarrow> (action_error, 'st, Action) effect"
  op_Dispatch :: "string \<Rightarrow> string \<Rightarrow> Dispatch \<Rightarrow> time \<Rightarrow> (action_error, 'st, Action) effect"
  op_Transition :: "string \<Rightarrow> string \<Rightarrow> ActionStatus \<Rightarrow> ActionStatus \<Rightarrow> string \<Rightarrow> time \<Rightarrow> (action_error, 'st, Action) effect"
  op_IngestResult :: "Result \<Rightarrow> ActionStatus \<Rightarrow> time \<Rightarrow> (action_error, 'st, Action \<times> bool) effect"
  op_GetReceipt :: "string \<Rightarrow> string \<Rightarrow> (action_error, 'st, ActionReceipt) effect"
  op_ResultApplied :: "string \<Rightarrow> string \<Rightarrow> (action_error, 'st, bool) effect"
  op_ClaimDispatch :: "string \<Rightarrow> string \<Rightarrow> time \<Rightarrow> deliverer \<Rightarrow> (action_error, 'st \<times> Env, bool) effect"
  op_ClaimPendingDispatches :: "string \<Rightarrow> int \<Rightarrow> time \<Rightarrow> deliverer \<Rightarrow> (action_error, 'st \<times> Env, int) effect"

subsection \<open>The in-memory store\<close>

record MemoryStore =
  mm_actions :: "string \<Rightarrow> Action option"
  mm_byIdem :: "string \<Rightarrow> string option"
  mm_grants :: "string \<Rightarrow> Grant option"
  mm_dispatches :: "(string \<times> Dispatch) list"
  mm_claimed :: "string \<Rightarrow> bool"
  mm_inbox :: "string \<Rightarrow> bool"
  mm_receipts :: "string \<Rightarrow> ActionReceipt option"

definition NewMemoryStore :: MemoryStore where
  "NewMemoryStore = \<lparr>mm_actions = Map.empty, mm_byIdem = Map.empty, mm_grants = Map.empty, mm_dispatches = [],
     mm_claimed = (\<lambda>_. False), mm_inbox = (\<lambda>_. False), mm_receipts = Map.empty\<rparr>"

definition storeKey :: "string \<Rightarrow> string \<Rightarrow> string" where
  "storeKey tenantRef ref = tenantRef @ [CHR 0x00] @ ref"

definition action_at :: "MemoryStore \<Rightarrow> string \<Rightarrow> Action" where
  "action_at s key = (case mm_actions s key of None \<Rightarrow> zero_action | Some a \<Rightarrow> a)"

definition mm_PutRequested :: "Action \<Rightarrow> (action_error, MemoryStore, Action \<times> bool) effect" where
  "mm_PutRequested action s =
     (let idemKey = storeKey (ac_TenantRef action) (ac_IdempotencyKey action) in
      case mm_byIdem s idemKey of
        Some existingRef \<Rightarrow>
          (let existing = action_at s (storeKey (ac_TenantRef action) existingRef) in
           if ac_Capability existing \<noteq> ac_Capability action \<or> ac_ParameterHash existing \<noteq> ac_ParameterHash action
              \<or> ac_BusinessContextRef existing \<noteq> ac_BusinessContextRef action
           then (Inl (Sentinel ErrIdempotencyConflict), s)
           else (Inr (existing, False), s))
      | None \<Rightarrow>
          (Inr (action, True),
           s\<lparr>mm_actions := (mm_actions s)(storeKey (ac_TenantRef action) (ac_ActionRef action) \<mapsto> action),
             mm_byIdem := (mm_byIdem s)(idemKey \<mapsto> ac_ActionRef action)\<rparr>))"

definition mm_GetByIdempotencyKey :: "string \<Rightarrow> string \<Rightarrow> (action_error, MemoryStore, Action) effect" where
  "mm_GetByIdempotencyKey tenantRef key s =
     (case mm_byIdem s (storeKey tenantRef key) of
        None \<Rightarrow> (Inl (Sentinel ErrNotFound), s)
      | Some actionRef \<Rightarrow> (Inr (action_at s (storeKey tenantRef actionRef)), s))"

definition mm_GetAction :: "string \<Rightarrow> string \<Rightarrow> (action_error, MemoryStore, Action) effect" where
  "mm_GetAction tenantRef actionRef s =
     (case mm_actions s (storeKey tenantRef actionRef) of
        None \<Rightarrow> (Inl (Sentinel ErrNotFound), s)
      | Some a \<Rightarrow> (Inr a, s))"

definition mm_Grant :: "Action \<Rightarrow> Grant \<Rightarrow> (action_error, MemoryStore, Action) effect" where
  "mm_Grant action grant s =
     (let key = storeKey (ac_TenantRef action) (ac_ActionRef action) in
      case mm_actions s key of
        None \<Rightarrow> (Inl (Sentinel ErrNotFound), s)
      | Some stored \<Rightarrow>
          if \<not> canTransition (ac_Status stored) StatusGranted then (Inl (Sentinel ErrForbiddenTransition), s)
          else if mm_grants s key \<noteq> None then (Inl (Sentinel ErrEvidenceConsumed), s)
          else
            (let stored' = stored\<lparr>ac_Status := StatusGranted, ac_GrantRef := gr_GrantRef grant,
                   ac_ApprovalEvidenceRef := ac_ApprovalEvidenceRef action, ac_UpdatedAt := gr_IssuedAt grant\<rparr>
             in (Inr stored',
                 s\<lparr>mm_grants := (mm_grants s)(key \<mapsto> grant), mm_actions := (mm_actions s)(key \<mapsto> stored')\<rparr>)))"

definition step_grant_of :: "Grant \<Rightarrow> StepGrant" where
  "step_grant_of g = \<lparr>sg_GrantRef = gr_GrantRef g, sg_BusinessContextRef = gr_BusinessContextRef g,
     sg_Capability = gr_Capability g, sg_ParameterHash = gr_ParameterHash g, sg_OneUse = gr_OneUse g,
     sg_IssuedAt = gr_IssuedAt g, sg_ExpiresAt = gr_ExpiresAt g\<rparr>"

definition mm_Dispatch :: "string \<Rightarrow> string \<Rightarrow> Dispatch \<Rightarrow> time \<Rightarrow> (action_error, MemoryStore, Action) effect" where
  "mm_Dispatch tenantRef actionRef dispatch at s =
     (let key = storeKey tenantRef actionRef in
      case mm_actions s key of
        None \<Rightarrow> (Inl (Sentinel ErrNotFound), s)
      | Some stored \<Rightarrow>
          if \<not> canTransition (ac_Status stored) StatusDispatched then (Inl (Sentinel ErrForbiddenTransition), s)
          else (case mm_grants s key of
            None \<Rightarrow> (Inl (Sentinel ErrNotFound), s)
          | Some grant \<Rightarrow>
              (case ConsumeActionGrant (step_grant_of grant) at (\<not> is_zero_time (gr_ConsumedAt grant)) of
                 Some err \<Rightarrow>
                   if errors_is err ErrActionGrantConsumed then (Inl (Sentinel ErrEvidenceConsumed), s)
                   else (Inl (Joined [Sentinel ErrForbiddenTransition, Sentinel (ErrTickets err)]), s)
               | None \<Rightarrow>
                   (let stored' = stored\<lparr>ac_Status := StatusDispatched, ac_UpdatedAt := at\<rparr> in
                    (Inr stored',
                     s\<lparr>mm_grants := (mm_grants s)(key \<mapsto> grant\<lparr>gr_ConsumedAt := at\<rparr>),
                       mm_dispatches := AList.update (storeKey tenantRef (dp_DispatchRef dispatch)) dispatch (mm_dispatches s),
                       mm_actions := (mm_actions s)(key \<mapsto> stored')\<rparr>)))))"

definition mm_Transition ::
  "string \<Rightarrow> string \<Rightarrow> ActionStatus \<Rightarrow> ActionStatus \<Rightarrow> string \<Rightarrow> time \<Rightarrow> (action_error, MemoryStore, Action) effect" where
  "mm_Transition tenantRef actionRef from to reason at s =
     (let key = storeKey tenantRef actionRef in
      case mm_actions s key of
        None \<Rightarrow> (Inl (Sentinel ErrNotFound), s)
      | Some stored \<Rightarrow>
          if ac_Status stored \<noteq> from then (Inl (Sentinel ErrForbiddenTransition), s)
          else if \<not> canTransition from to then (Inl (Sentinel ErrForbiddenTransition), s)
          else
            (let stored' = stored\<lparr>ac_Status := to,
                   ac_FailureReason := (if reason \<noteq> [] then reason else ac_FailureReason stored),
                   ac_UpdatedAt := at\<rparr>
             in (Inr stored', s\<lparr>mm_actions := (mm_actions s)(key \<mapsto> stored')\<rparr>)))"

definition mm_IngestResult :: "Result \<Rightarrow> ActionStatus \<Rightarrow> time \<Rightarrow> (action_error, MemoryStore, Action \<times> bool) effect" where
  "mm_IngestResult result to at s =
     (let inboxKey = storeKey (rs_TenantRef result) (rs_ResultID result);
          key = storeKey (rs_TenantRef result) (rs_ActionRef result) in
      if mm_inbox s inboxKey then (Inr (action_at s key, False), s)
      else (case mm_actions s key of
        None \<Rightarrow> (Inl (Sentinel ErrNotFound), s)
      | Some stored \<Rightarrow>
          if \<not> canTransition (ac_Status stored) to then (Inl (Sentinel ErrForbiddenTransition), s)
          else
            (let ref = rc_ReceiptRef (rs_Receipt result);
                 stored' = stored\<lparr>ac_Status := to, ac_ReceiptRef := ref, ac_UpdatedAt := at\<rparr>
             in (Inr (stored', True),
                 s\<lparr>mm_inbox := (mm_inbox s)(inboxKey := True),
                   mm_receipts := (mm_receipts s)(storeKey (rs_TenantRef result) ref \<mapsto> rs_Receipt result),
                   mm_actions := (mm_actions s)(key \<mapsto> stored')\<rparr>))))"

definition mm_ResultApplied :: "string \<Rightarrow> string \<Rightarrow> (action_error, MemoryStore, bool) effect" where
  "mm_ResultApplied tenantRef resultID s = (Inr (mm_inbox s (storeKey tenantRef resultID)), s)"

definition mm_GetReceipt :: "string \<Rightarrow> string \<Rightarrow> (action_error, MemoryStore, ActionReceipt) effect" where
  "mm_GetReceipt tenantRef receiptRef s =
     (case mm_receipts s (storeKey tenantRef receiptRef) of
        None \<Rightarrow> (Inl (Sentinel ErrNotFound), s)
      | Some r \<Rightarrow> (Inr r, s))"

subsection \<open>The outbox\<close>

definition claimable :: "Dispatch \<Rightarrow> time \<Rightarrow> bool \<Rightarrow> bool" where
  "claimable d at eligibleOnly \<longleftrightarrow>
     (if dp_Published d \<or> \<not> is_zero_time (dp_DeadLetteredAt d) then False
      else if eligibleOnly \<and> \<not> is_zero_time (dp_NextAttemptAt d) \<and> dp_NextAttemptAt d > at then False
      else True)"

text \<open>Sorting is by the time key; among equal times the model keeps the list's order.\<close>

definition mm_snapshot ::
  "string \<Rightarrow> int \<Rightarrow> (Dispatch \<Rightarrow> bool) \<Rightarrow> (Dispatch \<Rightarrow> time) \<Rightarrow> MemoryStore \<Rightarrow> Dispatch list" where
  "mm_snapshot tenantRef limit keep key s =
     (let out = sort_key key (filter (\<lambda>d. dp_TenantRef d = tenantRef \<and> keep d) (map snd (mm_dispatches s)))
      in if limit > 0 \<and> int (length out) > limit then take (nat limit) out else out)"

definition mm_PendingDispatches :: "string \<Rightarrow> int \<Rightarrow> MemoryStore \<Rightarrow> Dispatch list" where
  "mm_PendingDispatches tenantRef limit s =
     mm_snapshot tenantRef limit (\<lambda>d. \<not> dp_Published d \<and> is_zero_time (dp_DeadLetteredAt d)) dp_CreatedAt s"

definition mm_DeadLetteredDispatches :: "string \<Rightarrow> int \<Rightarrow> MemoryStore \<Rightarrow> Dispatch list" where
  "mm_DeadLetteredDispatches tenantRef limit s =
     mm_snapshot tenantRef limit (\<lambda>d. \<not> is_zero_time (dp_DeadLetteredAt d)) dp_DeadLetteredAt s"

definition acquireDispatch :: "string \<Rightarrow> string \<Rightarrow> time \<Rightarrow> bool \<Rightarrow> MemoryStore \<Rightarrow> Dispatch option \<times> MemoryStore" where
  "acquireDispatch tenantRef dispatchRef at eligibleOnly s =
     (let key = storeKey tenantRef dispatchRef in
      case map_of (mm_dispatches s) key of
        None \<Rightarrow> (None, s)
      | Some d \<Rightarrow>
          if \<not> claimable d at eligibleOnly \<or> mm_claimed s key then (None, s)
          else (Some d, s\<lparr>mm_claimed := (mm_claimed s)(key := True)\<rparr>))"

fun pick_oldest ::
  "string \<Rightarrow> time \<Rightarrow> string list \<Rightarrow> (string \<Rightarrow> bool) \<Rightarrow> Dispatch option \<Rightarrow> (string \<times> Dispatch) list \<Rightarrow> Dispatch option" where
  "pick_oldest tenantRef at visited claimed next [] = next"
| "pick_oldest tenantRef at visited claimed next ((key, d) # kds) =
     (if dp_TenantRef d \<noteq> tenantRef \<or> dp_DispatchRef d \<in> set visited \<or> claimed key
      then pick_oldest tenantRef at visited claimed next kds
      else if \<not> claimable d at True then pick_oldest tenantRef at visited claimed next kds
      else (case next of
              Some n \<Rightarrow> if \<not> dp_CreatedAt d < dp_CreatedAt n then pick_oldest tenantRef at visited claimed next kds
                        else pick_oldest tenantRef at visited claimed (Some d) kds
            | None \<Rightarrow> pick_oldest tenantRef at visited claimed (Some d) kds))"

definition acquireNextDispatch :: "string \<Rightarrow> time \<Rightarrow> string list \<Rightarrow> MemoryStore \<Rightarrow> Dispatch option \<times> MemoryStore" where
  "acquireNextDispatch tenantRef at visited s =
     (case pick_oldest tenantRef at visited (mm_claimed s) None (mm_dispatches s) of
        None \<Rightarrow> (None, s)
      | Some d \<Rightarrow> (Some d, s\<lparr>mm_claimed := (mm_claimed s)(storeKey tenantRef (dp_DispatchRef d) := True)\<rparr>))"

definition releaseDispatch :: "string \<Rightarrow> string \<Rightarrow> MemoryStore \<Rightarrow> MemoryStore" where
  "releaseDispatch tenantRef dispatchRef s =
     s\<lparr>mm_claimed := (mm_claimed s)(storeKey tenantRef dispatchRef := False)\<rparr>"

definition apply_outcome :: "DispatchOutcome \<Rightarrow> time \<Rightarrow> Dispatch \<Rightarrow> Dispatch" where
  "apply_outcome outcome at d =
     (let d1 = d\<lparr>dp_Attempts := dp_Attempts d + 1\<rparr> in
      if do_Published outcome then d1\<lparr>dp_Published := True, dp_PublishedAt := at\<rparr>
      else
        (let d2 = d1\<lparr>dp_LastError := do_LastError outcome, dp_NextAttemptAt := do_NextAttemptAt outcome\<rparr> in
         if do_DeadLetter outcome then d2\<lparr>dp_DeadLetteredAt := at, dp_NextAttemptAt := 0\<rparr> else d2))"

definition applyDispatchOutcome :: "string \<Rightarrow> string \<Rightarrow> DispatchOutcome \<Rightarrow> time \<Rightarrow> MemoryStore \<Rightarrow> MemoryStore" where
  "applyDispatchOutcome tenantRef dispatchRef outcome at s =
     (let key = storeKey tenantRef dispatchRef in
      case map_of (mm_dispatches s) key of
        None \<Rightarrow> s
      | Some d \<Rightarrow> s\<lparr>mm_dispatches := AList.update key (apply_outcome outcome at d) (mm_dispatches s)\<rparr>)"

text \<open>
  The claim, the caller's publish and the stamp of its outcome, without a crash between them: the store is locked around
  the claim and around the stamp, and the claim keeps other replicas off the row in between. A process that dies between
  publish and stamp is an event of the runs in \<open>ActionCrashes\<close>.
\<close>

definition mm_ClaimDispatch ::
  "string \<Rightarrow> string \<Rightarrow> time \<Rightarrow> deliverer \<Rightarrow> (action_error, MemoryStore \<times> Env, bool) effect" where
  "mm_ClaimDispatch tenantRef dispatchRef at deliver w =
     (case w of (s, env) \<Rightarrow>
      (case acquireDispatch tenantRef dispatchRef at False s of
         (None, s1) \<Rightarrow> (Inr False, s1, env)
       | (Some d, s1) \<Rightarrow>
           (case deliver d env of (outcome, env1) \<Rightarrow>
             (Inr True, releaseDispatch tenantRef dispatchRef (applyDispatchOutcome tenantRef dispatchRef outcome at s1), env1))))"

definition defaultDispatchClaimBatch :: nat where
  "defaultDispatchClaimBatch = 1000"

fun claim_loop ::
  "nat \<Rightarrow> string \<Rightarrow> time \<Rightarrow> deliverer \<Rightarrow> string list \<Rightarrow> int \<Rightarrow> MemoryStore \<times> Env \<Rightarrow> int \<times> MemoryStore \<times> Env" where
  "claim_loop 0 tenantRef at deliver visited claimed (s, env) = (claimed, s, env)"
| "claim_loop (Suc n) tenantRef at deliver visited claimed (s, env) =
     (case acquireNextDispatch tenantRef at visited s of
        (None, s1) \<Rightarrow> (claimed, s1, env)
      | (Some d, s1) \<Rightarrow>
          (case deliver d env of (outcome, env1) \<Rightarrow>
            claim_loop n tenantRef at deliver (dp_DispatchRef d # visited) (claimed + 1)
              (releaseDispatch tenantRef (dp_DispatchRef d)
                 (applyDispatchOutcome tenantRef (dp_DispatchRef d) outcome at s1), env1)))"

definition mm_ClaimPendingDispatches ::
  "string \<Rightarrow> int \<Rightarrow> time \<Rightarrow> deliverer \<Rightarrow> (action_error, MemoryStore \<times> Env, int) effect" where
  "mm_ClaimPendingDispatches tenantRef limit at deliver w =
     (let bound = (if limit \<le> 0 then defaultDispatchClaimBatch else nat limit) in
      case claim_loop bound tenantRef at deliver [] 0 w of (claimed, w') \<Rightarrow> (Inr claimed, w'))"

definition memory_store :: "MemoryStore ActionStoreOps" where
  "memory_store = \<lparr>op_PutRequested = mm_PutRequested, op_GetByIdempotencyKey = mm_GetByIdempotencyKey,
     op_GetAction = mm_GetAction, op_Grant = mm_Grant, op_Dispatch = mm_Dispatch, op_Transition = mm_Transition,
     op_IngestResult = mm_IngestResult, op_GetReceipt = mm_GetReceipt, op_ResultApplied = mm_ResultApplied,
     op_ClaimDispatch = mm_ClaimDispatch, op_ClaimPendingDispatches = mm_ClaimPendingDispatches\<rparr>"

end
