(* ===== verification/RuntimeEvidence.thy ===== *)
theory RuntimeEvidence
  imports RuntimeTypes
begin

text \<open>
  \<^verbatim>\<open>sdk/go/runtime/evidence.go\<close>: the requests of the evidence plane, the verification block of a read, and the opaque
  handle, with their canonical \<open>Validate\<close> rules. A list that may be nil is an option: nil and empty field lists select
  different projections.
\<close>

record DataNeed =
  dn_NeedID :: string
  dn_DataClass :: string
  dn_Purpose :: string
  dn_Fields :: "string list option"
  dn_Constraints :: "Constraints option"

definition DataNeed_Validate :: "DataNeed \<Rightarrow> field_error option" where
  "DataNeed_Validate n = first_error
     [requireNonEmpty ''need_id'' (dn_NeedID n),
      requireNonEmpty ''data_class'' (dn_DataClass n),
      requireNonEmpty ''purpose'' (dn_Purpose n),
      within ''constraints'' (opt_valid Constraints_Validate (dn_Constraints n))]"

record EvidenceRequest =
  eq_RequestID :: string
  eq_TraceID :: string
  eq_BusinessContextRef :: string
  eq_DataNeeds :: "DataNeed list"
  eq_Purpose :: string
  eq_Constraints :: "Constraints option"
  eq_ExpiresAt :: time

definition EvidenceRequest_Validate :: "EvidenceRequest \<Rightarrow> field_error option" where
  "EvidenceRequest_Validate r = first_error
     ([validateRequestID (eq_RequestID r),
       (if eq_BusinessContextRef r \<noteq> []
        then within ''business_context_ref'' (ValidateHandle (eq_BusinessContextRef r) HandleWorkCase) else None),
       fail_if (eq_DataNeeds r = []) (FieldError ''data_needs'' ''at least one data need is required'')]
      @ map (\<lambda>need. within ''data_needs'' (DataNeed_Validate need)) (eq_DataNeeds r)
      @ [requireNonEmpty ''purpose'' (eq_Purpose r),
         within ''constraints'' (opt_valid Constraints_Validate (eq_Constraints r)),
         fail_if (is_zero_time (eq_ExpiresAt r)) (FieldError ''expires_at'' ''is required'')])"

definition PurposeVerification :: string where
  "PurposeVerification = ''postcondition_verification''"

record VerificationBinding =
  vb_ActionRef :: string
  vb_ParameterHash :: string
  vb_PostconditionID :: string
  vb_VerificationNeedID :: string
  vb_DataClass :: string

definition VerificationBinding_Validate :: "VerificationBinding \<Rightarrow> field_error option" where
  "VerificationBinding_Validate b = first_error
     [within ''action_ref'' (ValidateHandle (vb_ActionRef b) HandleAction),
      within ''parameter_hash'' (ValidateSHA256Ref (vb_ParameterHash b)),
      requireNonEmpty ''postcondition_id'' (vb_PostconditionID b),
      requireNonEmpty ''verification_need_id'' (vb_VerificationNeedID b),
      requireNonEmpty ''data_class'' (vb_DataClass b)]"

record EvidenceReadRequest =
  er_RequestID :: string
  er_TraceID :: string
  er_BusinessContextRef :: string
  er_EvidenceRef :: string
  er_Fields :: "string list option"
  er_Purpose :: string
  er_Constraints :: "Constraints option"
  er_VerificationBinding :: "VerificationBinding option"
  er_ExpiresAt :: time

definition EvidenceReadRequest_Validate :: "EvidenceReadRequest \<Rightarrow> field_error option" where
  "EvidenceReadRequest_Validate r = first_error
     [validateRequestID (er_RequestID r),
      fail_if (er_BusinessContextRef r = []) (FieldError ''business_context_ref'' ''is required''),
      within ''business_context_ref'' (ValidateHandle (er_BusinessContextRef r) HandleWorkCase),
      within ''evidence_ref'' (ValidateHandle (er_EvidenceRef r) HandleEvidence),
      requireNonEmpty ''purpose'' (er_Purpose r),
      within ''constraints'' (opt_valid Constraints_Validate (er_Constraints r)),
      (case er_VerificationBinding r of
         Some b \<Rightarrow> first_error
           [within ''verification_binding'' (VerificationBinding_Validate b),
            fail_if (er_Purpose r \<noteq> PurposeVerification)
              (FieldError ''purpose'' ''a verification binding requires the frozen verification purpose %q; a detached verification binding is rejected'')]
       | None \<Rightarrow> fail_if (er_Purpose r = PurposeVerification)
           (FieldError ''verification_binding'' ''the verification purpose %q requires a verification binding; a detached verification purpose is rejected'')),
      fail_if (is_zero_time (er_ExpiresAt r)) (FieldError ''expires_at'' ''is required'')]"

record EvidenceHandle =
  eh_EvidenceRef :: string
  eh_DataClass :: string
  eh_Summary :: string
  eh_ExpiresAt :: time

definition EvidenceHandle_Validate :: "EvidenceHandle \<Rightarrow> field_error option" where
  "EvidenceHandle_Validate h = first_error
     [within ''evidence_ref'' (ValidateHandle (eh_EvidenceRef h) HandleEvidence),
      requireNonEmpty ''data_class'' (eh_DataClass h)]"

text \<open>A verification block and the verification purpose come together or not at all.\<close>

lemma EvidenceReadRequest_coupling:
  "EvidenceReadRequest_Validate r = None \<Longrightarrow> er_VerificationBinding r \<noteq> None \<longleftrightarrow> er_Purpose r = PurposeVerification"
  by (auto simp: EvidenceReadRequest_Validate_def first_error_None split: option.splits)

lemma EvidenceReadRequest_refs:
  "EvidenceReadRequest_Validate r = None \<Longrightarrow> ValidateHandle (er_EvidenceRef r) HandleEvidence = None"
  by (simp add: EvidenceReadRequest_Validate_def first_error_None)

end
