(* ===== verification/ActionService.thy ===== *)
theory ActionService
  imports ActionStore RuntimeEvidence
begin

text \<open>
  \<^verbatim>\<open>internal/actions\<close>: service.go, outbox.go, compensate.go, reconcile.go and
  binding.go. A handler is an effect on the world: the store's state, the
  evidence consumer's state and the environment. The order of its reads,
  audits and writes is the source's, and nothing is undone when a later step
  fails. The context is live for the whole call (\<open>ctx_done\<close> is its state at
  entry), loggers are left out.
\<close>

subsection \<open>Configuration and world\<close>

text \<open>
  The ports of the service. Clock and id generator are streams; the audit sink
  answers its n-th append with a reference or an error, the transport its n-th
  publish with success or an error text: any such answers, so any pattern of
  outages. A nil port is \<open>None\<close>.
\<close>

record ('st, 'ev) Service =
  sv_store :: "'st ActionStoreOps"
  sv_audit :: "nat \<Rightarrow> AuditEvent \<Rightarrow> action_go_error + string"
  sv_evidence :: "(string \<Rightarrow> string \<Rightarrow> time \<Rightarrow> (action_error, 'ev, ConsumedEvidence) effect) option"
  sv_providers :: "(string \<Rightarrow> PrincipalContext \<Rightarrow> string \<Rightarrow> string \<Rightarrow> action_go_error option) option"
  sv_receipts :: "(string \<Rightarrow> ActionReceipt \<Rightarrow> action_go_error option) option"
  sv_publisher :: "(nat \<Rightarrow> DispatchMessage \<Rightarrow> string option) option"
  sv_now :: "nat \<Rightarrow> time"
  sv_newID :: "nat \<Rightarrow> string \<Rightarrow> string"

record ('st, 'ev) World =
  wd_store :: 'st
  wd_evidence :: 'ev
  wd_env :: Env

definition new_env :: Env where
  "new_env = \<lparr>en_ticks = 0, en_ids = 0, en_auditCalls = 0, en_audit = [], en_publishCalls = 0, en_published = []\<rparr>"

definition on_action_store :: "(action_error, 'st, 'a) effect \<Rightarrow> (action_error, ('st, 'ev) World, 'a) effect" where
  "on_action_store m w = (case m (wd_store w) of (r, s) \<Rightarrow> (r, w\<lparr>wd_store := s\<rparr>))"

definition on_evidence :: "(action_error, 'ev, 'a) effect \<Rightarrow> (action_error, ('st, 'ev) World, 'a) effect" where
  "on_evidence m w = (case m (wd_evidence w) of (r, s) \<Rightarrow> (r, w\<lparr>wd_evidence := s\<rparr>))"

definition on_claim :: "(action_error, 'st \<times> Env, 'a) effect \<Rightarrow> (action_error, ('st, 'ev) World, 'a) effect" where
  "on_claim m w = (case m (wd_store w, wd_env w) of (r, s, env) \<Rightarrow> (r, w\<lparr>wd_store := s, wd_env := env\<rparr>))"

definition env_now :: "('st, 'ev) Service \<Rightarrow> Env \<Rightarrow> time \<times> Env" where
  "env_now sv env = (sv_now sv (en_ticks env), env\<lparr>en_ticks := Suc (en_ticks env)\<rparr>)"

definition now :: "('st, 'ev) Service \<Rightarrow> (action_error, ('st, 'ev) World, time) effect" where
  "now sv w = (case env_now sv (wd_env w) of (t, env) \<Rightarrow> (Inr t, w\<lparr>wd_env := env\<rparr>))"

definition newID :: "('st, 'ev) Service \<Rightarrow> string \<Rightarrow> (action_error, ('st, 'ev) World, string) effect" where
  "newID sv prefix w =
     (Inr (sv_newID sv (en_ids (wd_env w)) prefix), w\<lparr>wd_env := (wd_env w)\<lparr>en_ids := Suc (en_ids (wd_env w))\<rparr>\<rparr>)"

definition guard :: "bool \<Rightarrow> (action_error, ('st, 'ev) World, unit) effect" where
  "guard ctx_done = require (\<not> ctx_done) (Joined [Sentinel ErrUnavailable, Message ''context''])"

definition invalid :: "field_error option \<Rightarrow> (action_error, ('st, 'ev) World, unit) effect" where
  "invalid r = check (map_option (\<lambda>e. Joined [Sentinel ErrInvalidInput, Invalid e]) r)"

definition mapGetErr :: "action_go_error \<Rightarrow> action_go_error" where
  "mapGetErr e = (if errors_is e ErrNotFound then Sentinel ErrNotFound else Joined [Sentinel ErrUnavailable, e])"

definition mapTransitionErr :: "action_go_error \<Rightarrow> action_go_error" where
  "mapTransitionErr e =
     (if errors_is e ErrForbiddenTransition then Sentinel ErrForbiddenTransition
      else if errors_is e ErrEvidenceConsumed then Sentinel ErrEvidenceConsumed
      else if errors_is e ErrIdempotencyConflict then Sentinel ErrIdempotencyConflict
      else if errors_is e ErrNotFound then Sentinel ErrNotFound
      else Joined [Sentinel ErrUnavailable, e])"

definition unavailable :: "action_go_error \<Rightarrow> action_go_error" where
  "unavailable e = Joined [Sentinel ErrUnavailable, e]"

subsection \<open>Audit lineage\<close>

record auditBinding =
  ab_Capability :: string
  ab_ParameterHash :: string
  ab_GrantRef :: string
  ab_ApprovalEvidenceRef :: string
  ab_ReceiptRef :: string
  ab_RiskAuthority :: string

definition bindingOf :: "Action \<Rightarrow> auditBinding" where
  "bindingOf a = \<lparr>ab_Capability = ac_Capability a, ab_ParameterHash = ac_ParameterHash a,
     ab_GrantRef = ac_GrantRef a, ab_ApprovalEvidenceRef = ac_ApprovalEvidenceRef a,
     ab_ReceiptRef = ac_ReceiptRef a, ab_RiskAuthority = ac_RiskAuthority a\<rparr>"

definition audit_event ::
  "PrincipalContext \<Rightarrow> auditBinding \<Rightarrow> string \<Rightarrow> string \<Rightarrow> ActionStatus \<Rightarrow> ActionStatus
     \<Rightarrow> (string \<times> string) list \<Rightarrow> AuditEvent" where
  "audit_event prin binding action actionRef from to details =
     \<lparr>au_TenantRef = pc_TenantRef prin, au_PrincipalRef = pc_PrincipalRef prin,
      au_Action = action, au_ActionRef = actionRef, au_StatusFrom = from, au_StatusTo = to, au_Details = details,
      au_Capability = ab_Capability binding, au_ParameterHash = ab_ParameterHash binding,
      au_GrantRef = ab_GrantRef binding, au_ApprovalEvidenceRef = ab_ApprovalEvidenceRef binding,
      au_ReceiptRef = ab_ReceiptRef binding, au_RiskAuthority = ab_RiskAuthority binding,
      au_AgentClientRef = pc_AgentClientRef prin, au_AgentReleaseRef = pc_AgentReleaseRef prin,
      au_OrgSnapshotRef = pc_OrgSnapshotRef prin\<rparr>"

text \<open>An append that errs, or answers the empty reference, fails the transition closed.\<close>

definition appendAudit ::
  "('st, 'ev) Service \<Rightarrow> AuditEvent \<Rightarrow> (action_error, ('st, 'ev) World, string) effect" where
  "appendAudit sv event w =
     (let env = wd_env w; env1 = env\<lparr>en_auditCalls := Suc (en_auditCalls env)\<rparr> in
      case sv_audit sv (en_auditCalls env) event of
        Inl e \<Rightarrow> (Inl (Joined [Sentinel ErrUnavailable, Message ''action audit append failed'', e]), w\<lparr>wd_env := env1\<rparr>)
      | Inr ref \<Rightarrow>
          (if ref = [] then Inl (Joined [Sentinel ErrUnavailable, Message ''action audit append failed'']) else Inr ref,
           w\<lparr>wd_env := env1\<lparr>en_audit := en_audit env1 @ [event]\<rparr>\<rparr>))"

definition verifyDecisionProvider ::
  "('st, 'ev) Service \<Rightarrow> PrincipalContext \<Rightarrow> string \<Rightarrow> string \<Rightarrow> action_go_error option" where
  "verifyDecisionProvider sv prin capability parameterHash =
     (case pc_TrustClass prin of
        TrustFirstParty \<Rightarrow> None
      | TrustCertifiedThirdParty \<Rightarrow>
          (case sv_providers sv of
             None \<Rightarrow> Some (Joined [Sentinel ErrCallerUntrusted,
               Message ''certified third-party action requires the wired decision-provider verification (Task 0F seam); nil wiring fails closed''])
           | Some verify \<Rightarrow>
               map_option (\<lambda>e. Joined [Sentinel ErrCallerUntrusted, e])
                 (verify (pc_TenantRef prin) prin capability parameterHash))
      | _ \<Rightarrow> Some (Sentinel ErrCallerUntrusted))"

subsection \<open>Requesting an action\<close>

definition requested_action ::
  "PrincipalContext \<Rightarrow> ActionRequest \<Rightarrow> string \<Rightarrow> ActionStatus \<Rightarrow> string \<Rightarrow> string \<Rightarrow> time \<Rightarrow> Action" where
  "requested_action prin req actionRef st planRef auditRef t =
     zero_action\<lparr>ac_TenantRef := pc_TenantRef prin, ac_ActionRef := actionRef, ac_Status := st,
       ac_BusinessContextRef := ar_BusinessContextRef req, ac_Capability := ar_Capability req,
       ac_ParameterHash := ar_ParameterHash req, ac_IdempotencyKey := ar_IdempotencyKey req,
       ac_RiskAuthority := rd_Authority (ar_RiskDecision req), ac_RiskLevel := rd_RiskLevel (ar_RiskDecision req),
       ac_ApprovalPlanRef := planRef, ac_CompensationRef := ar_CompensationRef req,
       ac_ExpectedReceiptSchema := ar_ExpectedReceiptSchema req, ac_Postconditions := ar_Postconditions req,
       ac_VerificationNeeds := ar_VerificationNeeds req, ac_ExpiresAt := ar_ExpiresAt req,
       ac_AuditRefID := auditRef, ac_CreatedAt := t, ac_UpdatedAt := t\<rparr>"

definition no_status :: ActionStatus where "no_status = StatusOther []"

definition plain_binding :: "string \<Rightarrow> string \<Rightarrow> string \<Rightarrow> auditBinding" where
  "plain_binding capability parameterHash riskAuthority = \<lparr>ab_Capability = capability, ab_ParameterHash = parameterHash,
     ab_GrantRef = [], ab_ApprovalEvidenceRef = [], ab_ReceiptRef = [], ab_RiskAuthority = riskAuthority\<rparr>"

definition create_requested ::
  "('st, 'ev) Service \<Rightarrow> PrincipalContext \<Rightarrow> ActionRequest \<Rightarrow> (action_error, ('st, 'ev) World, Action) effect" where
  "create_requested sv prin req =
     andthen (now sv) (\<lambda>t.
     andthen (newID sv ''act_'') (\<lambda>actionRef.
     andthen (require (ValidateHandle actionRef HandleAction = None) (Sentinel ErrUnavailable)) (\<lambda>_.
     (let st = (case ar_ApprovalPlanRef req of None \<Rightarrow> StatusRequested | Some _ \<Rightarrow> StatusAwaitingApproval);
          planRef = (case ar_ApprovalPlanRef req of None \<Rightarrow> [] | Some p \<Rightarrow> plan_PlanRef p) in
     andthen (appendAudit sv (audit_event prin
        (plain_binding (ar_Capability req) (ar_ParameterHash req) (rd_Authority (ar_RiskDecision req)))
        ''action.requested'' actionRef no_status st
        [(''capability'', ar_Capability req), (''parameter_hash'', ar_ParameterHash req)])) (\<lambda>auditRef.
     andthen (on_error (\<lambda>e. if errors_is e ErrIdempotencyConflict then Sentinel ErrIdempotencyConflict else unavailable e)
        (on_action_store (op_PutRequested (sv_store sv)
           (requested_action prin req actionRef st planRef auditRef t)))) (\<lambda>(stored, _).
     ret stored))))))"

definition RequestAction ::
  "('st, 'ev) Service \<Rightarrow> bool \<Rightarrow> PrincipalContext \<Rightarrow> ActionRequest \<Rightarrow> (action_error, ('st, 'ev) World, Action) effect" where
  "RequestAction sv ctx_done prin req =
     andthen (guard ctx_done) (\<lambda>_.
     andthen (invalid (PrincipalContext_Validate prin)) (\<lambda>_.
     andthen (invalid (ActionRequest_Validate req)) (\<lambda>_.
     andthen (require (pc_TrustClass prin \<noteq> TrustUntrusted) (Sentinel ErrCallerUntrusted)) (\<lambda>_.
     andthen (attempt (on_action_store
        (op_GetByIdempotencyKey (sv_store sv) (pc_TenantRef prin) (ar_IdempotencyKey req)))) (\<lambda>r.
     case r of
       Inr existing \<Rightarrow>
         if ac_Capability existing \<noteq> ar_Capability req \<or> ac_ParameterHash existing \<noteq> ar_ParameterHash req
            \<or> ac_BusinessContextRef existing \<noteq> ar_BusinessContextRef req
         then fail (Sentinel ErrIdempotencyConflict) else ret existing
     | Inl e \<Rightarrow> if \<not> errors_is e ErrNotFound then fail (unavailable e) else create_requested sv prin req)))))"

subsection \<open>Reading an action\<close>

definition ServiceGetAction ::
  "('st, 'ev) Service \<Rightarrow> bool \<Rightarrow> PrincipalContext \<Rightarrow> string \<Rightarrow> (action_error, ('st, 'ev) World, Action) effect" where
  "ServiceGetAction sv ctx_done prin actionRef =
     andthen (guard ctx_done) (\<lambda>_.
     andthen (invalid (PrincipalContext_Validate prin)) (\<lambda>_.
     on_error mapGetErr (on_action_store (op_GetAction (sv_store sv) (pc_TenantRef prin) actionRef))))"

definition ServiceGetReceipt ::
  "('st, 'ev) Service \<Rightarrow> bool \<Rightarrow> PrincipalContext \<Rightarrow> string \<Rightarrow> (action_error, ('st, 'ev) World, ActionReceipt) effect" where
  "ServiceGetReceipt sv ctx_done prin receiptRef =
     andthen (guard ctx_done) (\<lambda>_.
     andthen (invalid (PrincipalContext_Validate prin)) (\<lambda>_.
     on_error mapGetErr (on_action_store (op_GetReceipt (sv_store sv) (pc_TenantRef prin) receiptRef))))"

subsection \<open>Granting\<close>

definition map_consume_err :: "action_go_error \<Rightarrow> action_go_error" where
  "map_consume_err e =
     (if errors_is e ErrEvidenceConsumed then Sentinel ErrEvidenceConsumed
      else if errors_is e ErrEvidenceRejected \<or> errors_is e ErrNotFound then Sentinel ErrEvidenceRejected
      else unavailable e)"

text \<open>The one-shot consumption of the approval evidence of an action that awaits approval.\<close>

definition consume_evidence ::
  "('st, 'ev) Service \<Rightarrow> PrincipalContext \<Rightarrow> Action \<Rightarrow> time \<Rightarrow> (action_error, ('st, 'ev) World, string) effect" where
  "consume_evidence sv prin action t =
     (if ac_Status action \<noteq> StatusAwaitingApproval then ret []
      else (case sv_evidence sv of
        None \<Rightarrow> fail (Sentinel ErrApprovalRequired)
      | Some consume \<Rightarrow>
          andthen (on_error map_consume_err
             (on_evidence (consume (pc_TenantRef prin) (ac_ApprovalPlanRef action) t))) (\<lambda>ev.
          if ce_Capability ev \<noteq> ac_Capability action \<or> ce_ParameterHash ev \<noteq> ac_ParameterHash action
             \<or> ce_Decision ev \<noteq> ApprovalApproved
          then fail (Sentinel ErrEvidenceRejected) else ret (ce_ApprovalRef ev))))"

definition mint :: "Action \<Rightarrow> string \<Rightarrow> time \<Rightarrow> (action_error, ('st, 'ev) World, StepGrant) effect" where
  "mint action grantRef t =
     (case MintActionGrant \<lparr>agi_GrantRef = grantRef, agi_BusinessContextRef = ac_BusinessContextRef action,
             agi_Capability = ac_Capability action, agi_ParameterHash = ac_ParameterHash action,
             agi_TTL = MaxActionGrantTTL\<rparr> t of
        Inl e \<Rightarrow> fail (Joined [Sentinel ErrUnavailable, Sentinel (ErrTickets e)])
      | Inr g \<Rightarrow> ret g)"

definition ServiceGrant ::
  "('st, 'ev) Service \<Rightarrow> bool \<Rightarrow> PrincipalContext \<Rightarrow> string \<Rightarrow> (action_error, ('st, 'ev) World, Action) effect" where
  "ServiceGrant sv ctx_done prin actionRef =
     andthen (ServiceGetAction sv ctx_done prin actionRef) (\<lambda>action.
     andthen (require (ac_Status action = StatusRequested \<or> ac_Status action = StatusAwaitingApproval)
        (Sentinel ErrForbiddenTransition)) (\<lambda>_.
     andthen (check (verifyDecisionProvider sv prin (ac_Capability action) (ac_ParameterHash action))) (\<lambda>_.
     andthen (now sv) (\<lambda>t.
     andthen (consume_evidence sv prin action t) (\<lambda>approvalEvidenceRef.
     andthen (newID sv ''grant_'') (\<lambda>grantRef.
     andthen (mint action grantRef t) (\<lambda>stepGrant.
     andthen (appendAudit sv (audit_event prin
        ((bindingOf action)\<lparr>ab_GrantRef := grantRef, ab_ApprovalEvidenceRef := approvalEvidenceRef\<rparr>)
        ''action.granted'' actionRef (ac_Status action) StatusGranted [(''grant_ref'', grantRef)])) (\<lambda>_.
     on_error mapTransitionErr (on_action_store (op_Grant (sv_store sv)
        (action\<lparr>ac_ApprovalEvidenceRef := approvalEvidenceRef\<rparr>)
        \<lparr>gr_TenantRef = pc_TenantRef prin, gr_GrantRef = grantRef, gr_ActionRef = actionRef,
         gr_BusinessContextRef = ac_BusinessContextRef action, gr_Capability = ac_Capability action,
         gr_ParameterHash = ac_ParameterHash action, gr_OneUse = True, gr_IssuedAt = sg_IssuedAt stepGrant,
         gr_ExpiresAt = sg_ExpiresAt stepGrant, gr_ConsumedAt = 0\<rparr>))))))))))"

subsection \<open>The outbox\<close>

definition dispatchRetryBaseDelay :: duration where "dispatchRetryBaseDelay = 5 * second"
definition dispatchRetryMaxDelay :: duration where "dispatchRetryMaxDelay = 5 * minute"
definition maxDispatchAttempts :: int where "maxDispatchAttempts = 8"

fun retry_loop :: "nat \<Rightarrow> duration \<Rightarrow> duration" where
  "retry_loop 0 delay = delay"
| "retry_loop (Suc n) delay =
     (let d = delay * 2 in if d \<ge> dispatchRetryMaxDelay then dispatchRetryMaxDelay else retry_loop n d)"

definition dispatchRetryDelay :: "int \<Rightarrow> duration" where
  "dispatchRetryDelay attempts =
     (let n = (if attempts < 1 then 1 else attempts) in retry_loop (nat (n - 1)) dispatchRetryBaseDelay)"

definition message_of :: "Dispatch \<Rightarrow> DispatchMessage" where
  "message_of d = \<lparr>dm_TenantRef = dp_TenantRef d, dm_ActionRef = dp_ActionRef d, dm_DispatchRef = dp_DispatchRef d,
     dm_Capability = dp_Capability d, dm_ParameterHash = dp_ParameterHash d, dm_GrantRef = dp_GrantRef d,
     dm_Kind = dp_Kind d\<rparr>"

text \<open>One delivery attempt: publish, and decide what the store records about it.\<close>

definition service_deliver ::
  "('st, 'ev) Service \<Rightarrow> (nat \<Rightarrow> DispatchMessage \<Rightarrow> string option) \<Rightarrow> deliverer" where
  "service_deliver sv publish d env =
     (let env1 = env\<lparr>en_publishCalls := Suc (en_publishCalls env)\<rparr> in
      case publish (en_publishCalls env) (message_of d) of
        None \<Rightarrow> (\<lparr>do_Published = True, do_NextAttemptAt = 0, do_LastError = [], do_DeadLetter = False\<rparr>,
                 env1\<lparr>en_published := en_published env1 @ [message_of d]\<rparr>)
      | Some err \<Rightarrow>
          (let attempts = dp_Attempts d + 1 in
           if attempts \<ge> maxDispatchAttempts
           then (\<lparr>do_Published = False, do_NextAttemptAt = 0, do_LastError = err, do_DeadLetter = True\<rparr>, env1)
           else (case env_now sv env1 of (t, env2) \<Rightarrow>
                  (\<lparr>do_Published = False, do_NextAttemptAt = t + dispatchRetryDelay attempts,
                    do_LastError = err, do_DeadLetter = False\<rparr>, env2))))"

text \<open>A failed publish is logged, never returned.\<close>

definition publishDispatched ::
  "('st, 'ev) Service \<Rightarrow> string \<Rightarrow> string \<Rightarrow> (action_error, ('st, 'ev) World, unit) effect" where
  "publishDispatched sv tenantRef dispatchRef =
     (case sv_publisher sv of
        None \<Rightarrow> ret ()
      | Some publish \<Rightarrow>
          andthen (now sv) (\<lambda>t.
          andthen (attempt (on_claim (op_ClaimDispatch (sv_store sv) tenantRef dispatchRef t
             (service_deliver sv publish)))) (\<lambda>_.
          ret ())))"

definition RepublishPending ::
  "('st, 'ev) Service \<Rightarrow> bool \<Rightarrow> string \<Rightarrow> (action_error, ('st, 'ev) World, int) effect" where
  "RepublishPending sv ctx_done tenantRef =
     andthen (guard ctx_done) (\<lambda>_.
     case sv_publisher sv of
       None \<Rightarrow> fail (Joined [Sentinel ErrUnavailable, Message ''no dispatch publisher wired''])
     | Some publish \<Rightarrow>
         andthen (now sv) (\<lambda>t. \<lambda>w.
         (case on_error unavailable (on_claim (op_ClaimPendingDispatches (sv_store sv) tenantRef 0 t
                 (service_deliver sv publish))) w of
            (Inl e, w') \<Rightarrow> (Inl e, w')
          | (Inr _, w') \<Rightarrow>
              (Inr (int (length (en_published (wd_env w'))) - int (length (en_published (wd_env w)))), w'))))"

subsection \<open>Dispatching\<close>

definition dispatch_row :: "PrincipalContext \<Rightarrow> Action \<Rightarrow> string \<Rightarrow> string \<Rightarrow> time \<Rightarrow> Dispatch" where
  "dispatch_row prin action actionRef dispatchRef t =
     \<lparr>dp_TenantRef = pc_TenantRef prin, dp_DispatchRef = dispatchRef, dp_ActionRef = actionRef,
      dp_Capability = ac_Capability action, dp_ParameterHash = ac_ParameterHash action,
      dp_GrantRef = ac_GrantRef action, dp_Kind = DispatchExecute, dp_Published = False, dp_Attempts = 0,
      dp_CreatedAt = t, dp_PublishedAt = 0, dp_NextAttemptAt = 0, dp_LastError = [], dp_DeadLetteredAt = 0\<rparr>"

definition ServiceDispatch ::
  "('st, 'ev) Service \<Rightarrow> bool \<Rightarrow> PrincipalContext \<Rightarrow> string \<Rightarrow> (action_error, ('st, 'ev) World, Action) effect" where
  "ServiceDispatch sv ctx_done prin actionRef =
     andthen (ServiceGetAction sv ctx_done prin actionRef) (\<lambda>action.
     if ac_Status action \<noteq> StatusGranted then
       fail (if ac_Status action \<in> {StatusDispatched, StatusExecuting, StatusResultUnknown, StatusReconciling}
             then Sentinel ErrBlindRetryForbidden else Sentinel ErrForbiddenTransition)
     else
     andthen (now sv) (\<lambda>t.
     andthen (newID sv ''dsp_'') (\<lambda>dispatchRef.
     andthen (appendAudit sv (audit_event prin (bindingOf action) ''action.dispatched'' actionRef
        StatusGranted StatusDispatched [(''grant_ref'', ac_GrantRef action), (''dispatch_ref'', dispatchRef)])) (\<lambda>_.
     andthen (on_error mapTransitionErr (on_action_store (op_Dispatch (sv_store sv) (pc_TenantRef prin) actionRef
        (dispatch_row prin action actionRef dispatchRef t) t))) (\<lambda>dispatched.
     andthen (publishDispatched sv (pc_TenantRef prin) dispatchRef) (\<lambda>_.
     ret dispatched))))))"

subsection \<open>Plain transitions\<close>

definition transition ::
  "('st, 'ev) Service \<Rightarrow> PrincipalContext \<Rightarrow> auditBinding \<Rightarrow> string \<Rightarrow> ActionStatus \<Rightarrow> ActionStatus
     \<Rightarrow> string \<Rightarrow> string \<Rightarrow> (action_error, ('st, 'ev) World, Action) effect" where
  "transition sv prin binding actionRef from to auditAction reason =
     andthen (require (canTransition from to) (Sentinel ErrForbiddenTransition)) (\<lambda>_.
     andthen (appendAudit sv (audit_event prin binding auditAction actionRef from to [(''reason'', reason)])) (\<lambda>_.
     andthen (now sv) (\<lambda>t.
     on_error mapTransitionErr (on_action_store
       (op_Transition (sv_store sv) (pc_TenantRef prin) actionRef from to reason t)))))"

definition simpleTransition ::
  "('st, 'ev) Service \<Rightarrow> bool \<Rightarrow> PrincipalContext \<Rightarrow> string \<Rightarrow> ActionStatus \<Rightarrow> ActionStatus
     \<Rightarrow> string \<Rightarrow> string \<Rightarrow> (action_error, ('st, 'ev) World, Action) effect" where
  "simpleTransition sv ctx_done prin actionRef from to auditAction reason =
     andthen (ServiceGetAction sv ctx_done prin actionRef) (\<lambda>action.
     andthen (require (ac_Status action = from) (Sentinel ErrForbiddenTransition)) (\<lambda>_.
     transition sv prin (bindingOf action) actionRef from to auditAction reason))"

definition MarkExecuting ::
  "('st, 'ev) Service \<Rightarrow> bool \<Rightarrow> PrincipalContext \<Rightarrow> string \<Rightarrow> (action_error, ('st, 'ev) World, Action) effect" where
  "MarkExecuting sv ctx_done prin actionRef =
     simpleTransition sv ctx_done prin actionRef StatusDispatched StatusExecuting ''action.executing'' []"

definition MarkResultUnknown ::
  "('st, 'ev) Service \<Rightarrow> bool \<Rightarrow> PrincipalContext \<Rightarrow> string \<Rightarrow> (action_error, ('st, 'ev) World, Action) effect" where
  "MarkResultUnknown sv ctx_done prin actionRef =
     andthen (ServiceGetAction sv ctx_done prin actionRef) (\<lambda>action.
     andthen (require (ac_Status action = StatusExecuting \<or> ac_Status action = StatusDispatched)
       (Sentinel ErrForbiddenTransition)) (\<lambda>_.
     transition sv prin (bindingOf action) (ac_ActionRef action) (ac_Status action) StatusResultUnknown
       ''action.result_unknown'' ''connector timeout after possible execution''))"

definition HumanTakeover ::
  "('st, 'ev) Service \<Rightarrow> bool \<Rightarrow> PrincipalContext \<Rightarrow> string \<Rightarrow> string \<Rightarrow> (action_error, ('st, 'ev) World, Action) effect" where
  "HumanTakeover sv ctx_done prin actionRef reason =
     andthen (ServiceGetAction sv ctx_done prin actionRef) (\<lambda>action.
     andthen (require (canTransition (ac_Status action) StatusHumanTakeover) (Sentinel ErrForbiddenTransition)) (\<lambda>_.
     transition sv prin (bindingOf action) (ac_ActionRef action) (ac_Status action) StatusHumanTakeover
       ''action.human_takeover'' reason))"

definition Cancel ::
  "('st, 'ev) Service \<Rightarrow> bool \<Rightarrow> PrincipalContext \<Rightarrow> string \<Rightarrow> (action_error, ('st, 'ev) World, Action) effect" where
  "Cancel sv ctx_done prin actionRef =
     andthen (ServiceGetAction sv ctx_done prin actionRef) (\<lambda>action.
     if ac_Status action \<in> {StatusRequested, StatusAwaitingApproval, StatusGranted} then
       transition sv prin (bindingOf action) (ac_ActionRef action) (ac_Status action) StatusFailed
         ''action.cancelled'' ''cancelled before dispatch''
     else if ac_Status action \<in> {StatusDispatched, StatusExecuting, StatusResultUnknown, StatusReconciling} then
       transition sv prin (bindingOf action) (ac_ActionRef action) (ac_Status action) StatusHumanTakeover
         ''action.cancelled'' ''cancelled after dispatch; escalated to human takeover''
     else fail (Sentinel ErrForbiddenTransition))"

subsection \<open>Receipts\<close>

definition rejected :: "string \<Rightarrow> action_go_error" where
  "rejected m = Joined [Sentinel ErrReceiptRejected, Message m]"

definition verifyReceipt ::
  "('st, 'ev) Service \<Rightarrow> string \<Rightarrow> Action \<Rightarrow> ActionReceipt \<Rightarrow> action_go_error + ActionStatus" where
  "verifyReceipt sv tenantRef action receipt =
     (case ActionReceipt_Validate receipt of
        Some e \<Rightarrow> Inl (Joined [Sentinel ErrReceiptRejected, Invalid e])
      | None \<Rightarrow>
      if rc_ActionRef receipt \<noteq> ac_ActionRef action \<or> rc_ParameterHash receipt \<noteq> ac_ParameterHash action
         \<or> rc_Capability receipt \<noteq> ac_Capability action
      then Inl (rejected ''receipt does not bind the exact action operation'')
      else if rc_ReceiptSchema receipt \<noteq> ac_ExpectedReceiptSchema action
      then Inl (rejected ''receipt schema does not match the declared expected receipt schema'')
      else (case terminalReceiptStatus (rc_Status receipt) of
        None \<Rightarrow> Inl (rejected ''only a technical succeeded/failed receipt completes an action; the runtime never asserts a business outcome'')
      | Some to \<Rightarrow>
          (case sv_receipts sv of
             None \<Rightarrow> Inl (rejected ''no receipt verifier wired; an unverifiable receipt cannot complete an action'')
           | Some verify \<Rightarrow>
               (case verify tenantRef receipt of
                  Some e \<Rightarrow> Inl (Joined [Sentinel ErrReceiptRejected, e])
                | None \<Rightarrow> Inr to))))"

definition lift_result :: "'s go_error + 'a \<Rightarrow> ('s, 'w, 'a) effect" where
  "lift_result r w = (r, w)"

definition completeFromReceipt ::
  "('st, 'ev) Service \<Rightarrow> PrincipalContext \<Rightarrow> string \<Rightarrow> ActionReceipt \<Rightarrow> ActionStatus \<Rightarrow> Action
     \<Rightarrow> (action_error, ('st, 'ev) World, Action) effect" where
  "completeFromReceipt sv prin resultID receipt to action =
     andthen (appendAudit sv (audit_event prin ((bindingOf action)\<lparr>ab_ReceiptRef := rc_ReceiptRef receipt\<rparr>)
        ''action.completed'' (ac_ActionRef action) (ac_Status action) to
        [(''receipt_ref'', rc_ReceiptRef receipt), (''result_id'', resultID)])) (\<lambda>_.
     andthen (now sv) (\<lambda>t.
     andthen (on_error mapTransitionErr (on_action_store (op_IngestResult (sv_store sv)
        \<lparr>rs_TenantRef = pc_TenantRef prin, rs_ResultID = resultID, rs_ActionRef = rc_ActionRef receipt,
         rs_Receipt = receipt\<rparr> to t))) (\<lambda>(applied, _).
     ret applied)))"

definition IngestReceipt ::
  "('st, 'ev) Service \<Rightarrow> bool \<Rightarrow> PrincipalContext \<Rightarrow> string \<Rightarrow> ActionReceipt \<Rightarrow> (action_error, ('st, 'ev) World, Action) effect" where
  "IngestReceipt sv ctx_done prin resultID receipt =
     andthen (guard ctx_done) (\<lambda>_.
     andthen (invalid (PrincipalContext_Validate prin)) (\<lambda>_.
     andthen (require (resultID \<noteq> []) (Joined [Sentinel ErrInvalidInput,
        Message ''connector result id is required for inbox dedup''])) (\<lambda>_.
     andthen (on_error mapGetErr (on_action_store
        (op_GetAction (sv_store sv) (pc_TenantRef prin) (rc_ActionRef receipt)))) (\<lambda>action.
     andthen (lift_result (verifyReceipt sv (pc_TenantRef prin) action receipt)) (\<lambda>to.
     if ac_Status action \<in> {StatusExecuting, StatusDispatched} then
       completeFromReceipt sv prin resultID receipt to action
     else if ac_Status action \<in> {StatusSucceeded, StatusFailed} then
       andthen (on_error unavailable (on_action_store
          (op_ResultApplied (sv_store sv) (pc_TenantRef prin) resultID))) (\<lambda>applied.
       if applied then ret action else fail (Sentinel ErrForbiddenTransition))
     else fail (Sentinel ErrForbiddenTransition))))))"

subsection \<open>Reconciliation (reconcile.go)\<close>

definition BeginReconciliation ::
  "('st, 'ev) Service \<Rightarrow> bool \<Rightarrow> PrincipalContext \<Rightarrow> string \<Rightarrow> (action_error, ('st, 'ev) World, Action) effect" where
  "BeginReconciliation sv ctx_done prin actionRef =
     simpleTransition sv ctx_done prin actionRef StatusResultUnknown StatusReconciling
       ''action.reconciling'' ''reconciliation started''"

definition ResolveReconciliation ::
  "('st, 'ev) Service \<Rightarrow> bool \<Rightarrow> PrincipalContext \<Rightarrow> string \<Rightarrow> ActionStatus \<Rightarrow> ActionReceipt option
     \<Rightarrow> (action_error, ('st, 'ev) World, Action) effect" where
  "ResolveReconciliation sv ctx_done prin actionRef outcome receipt_opt =
     andthen (guard ctx_done) (\<lambda>_.
     andthen (invalid (PrincipalContext_Validate prin)) (\<lambda>_.
     andthen (require (terminalReceiptStatus outcome \<noteq> None) (Joined [Sentinel ErrInvalidInput,
        Message ''reconciliation resolves only to a technical succeeded/failed outcome''])) (\<lambda>_.
     andthen (on_error mapGetErr (on_action_store
        (op_GetAction (sv_store sv) (pc_TenantRef prin) actionRef))) (\<lambda>action.
     andthen (require (ac_Status action = StatusReconciling) (Sentinel ErrForbiddenTransition)) (\<lambda>_.
     if outcome = StatusSucceeded then
       (case receipt_opt of
          None \<Rightarrow> fail (rejected ''a succeeded reconciliation requires the recovered execution receipt'')
        | Some receipt \<Rightarrow>
            andthen (lift_result (verifyReceipt sv (pc_TenantRef prin) action receipt)) (\<lambda>to.
            andthen (require (to = StatusSucceeded)
               (rejected ''recovered receipt does not attest a succeeded execution'')) (\<lambda>_.
            andthen (appendAudit sv (audit_event prin
               ((bindingOf action)\<lparr>ab_ReceiptRef := rc_ReceiptRef receipt\<rparr>) ''action.reconciled'' actionRef
               StatusReconciling StatusSucceeded [(''receipt_ref'', rc_ReceiptRef receipt)])) (\<lambda>_.
            andthen (now sv) (\<lambda>t.
            andthen (on_error mapTransitionErr (on_action_store (op_IngestResult (sv_store sv)
               \<lparr>rs_TenantRef = pc_TenantRef prin, rs_ResultID = ''reconcile:'' @ actionRef,
                rs_ActionRef = actionRef, rs_Receipt = receipt\<rparr> StatusSucceeded t))) (\<lambda>(resolved, _).
            ret resolved))))))
     else transition sv prin (bindingOf action) actionRef StatusReconciling StatusFailed
            ''action.reconciled'' ''reconciliation determined a failed technical result'')))))"

subsection \<open>Compensation (compensate.go)\<close>

definition compensation_action :: "Action \<Rightarrow> PrincipalContext \<Rightarrow> string \<Rightarrow> string \<Rightarrow> string \<Rightarrow> time \<Rightarrow> Action" where
  "compensation_action original prin compRef compIdem auditRef t =
     zero_action\<lparr>ac_TenantRef := pc_TenantRef prin, ac_ActionRef := compRef, ac_Status := StatusRequested,
       ac_BusinessContextRef := ac_BusinessContextRef original, ac_Capability := ac_CompensationRef original,
       ac_ParameterHash := ac_ParameterHash original, ac_IdempotencyKey := compIdem,
       ac_RiskAuthority := ac_RiskAuthority original, ac_RiskLevel := ac_RiskLevel original,
       ac_CompensationOf := ac_ActionRef original, ac_ExpectedReceiptSchema := ac_ExpectedReceiptSchema original,
       ac_ExpiresAt := ac_ExpiresAt original, ac_AuditRefID := auditRef, ac_CreatedAt := t, ac_UpdatedAt := t\<rparr>"

definition compensation_key :: "string \<Rightarrow> string" where
  "compensation_key actionRef = ''cmp:'' @ actionRef"

definition start_compensation ::
  "('st, 'ev) Service \<Rightarrow> PrincipalContext \<Rightarrow> Action \<Rightarrow> (action_error, ('st, 'ev) World, Action) effect" where
  "start_compensation sv prin original =
     andthen (now sv) (\<lambda>t.
     andthen (newID sv ''act_'') (\<lambda>compRef.
     andthen (require (ValidateHandle compRef HandleAction = None) (Sentinel ErrUnavailable)) (\<lambda>_.
     andthen (appendAudit sv (audit_event prin
        (plain_binding (ac_CompensationRef original) [] (ac_RiskAuthority original)) ''action.requested'' compRef
        no_status StatusRequested
        [(''capability'', ac_CompensationRef original), (''compensation_of'', ac_ActionRef original)])) (\<lambda>auditRef.
     andthen (on_error mapTransitionErr (on_action_store (op_PutRequested (sv_store sv)
        (compensation_action original prin compRef (compensation_key (ac_ActionRef original)) auditRef t)))) (\<lambda>(stored, created).
     if created \<and> ac_Status original \<noteq> StatusCompensating then
       andthen (appendAudit sv (audit_event prin (bindingOf original) ''action.compensating''
          (ac_ActionRef original) (ac_Status original) StatusCompensating [(''compensation_ref'', compRef)])) (\<lambda>_.
       andthen (on_error mapTransitionErr (on_action_store (op_Transition (sv_store sv) (pc_TenantRef prin)
          (ac_ActionRef original) (ac_Status original) StatusCompensating ''compensation initiated'' t))) (\<lambda>_.
       ret stored))
     else ret stored)))))"

definition Compensate ::
  "('st, 'ev) Service \<Rightarrow> bool \<Rightarrow> PrincipalContext \<Rightarrow> string \<Rightarrow> (action_error, ('st, 'ev) World, Action) effect" where
  "Compensate sv ctx_done prin actionRef =
     andthen (ServiceGetAction sv ctx_done prin actionRef) (\<lambda>original.
     andthen (require (ac_CompensationRef original \<noteq> []) (Sentinel ErrCompensationUndeclared)) (\<lambda>_.
     andthen (require (compensable (ac_Status original) \<or> ac_Status original = StatusCompensating)
        (Sentinel ErrForbiddenTransition)) (\<lambda>_.
     andthen (attempt (on_action_store (op_GetByIdempotencyKey (sv_store sv) (pc_TenantRef prin)
        (compensation_key (ac_ActionRef original))))) (\<lambda>r.
     case r of
       Inr existing \<Rightarrow> ret existing
     | Inl e \<Rightarrow> if \<not> errors_is e ErrNotFound then fail (unavailable e) else start_compensation sv prin original))))"

subsection \<open>Verification bindings (binding.go)\<close>

definition mismatch :: "string \<Rightarrow> action_go_error" where
  "mismatch m = Joined [Sentinel ErrBindingMismatch, Message m]"

definition VerifyActionBinding ::
  "'st ActionStoreOps \<Rightarrow> string \<Rightarrow> VerificationBinding \<Rightarrow> (action_error, 'st, unit) effect" where
  "VerifyActionBinding ops tenantRef binding =
     andthen (on_error (\<lambda>e. if errors_is e ErrNotFound then mismatch ''no such action for the verified tenant''
                             else unavailable e)
               (op_GetAction ops tenantRef (vb_ActionRef binding))) (\<lambda>action.
     andthen (require (ac_ParameterHash action = vb_ParameterHash binding)
       (mismatch ''parameter hash does not match the stored action'')) (\<lambda>_.
     andthen (require (hasPostcondition action (vb_PostconditionID binding))
       (mismatch ''postcondition_id is not a declared postcondition of the action'')) (\<lambda>_.
     case verificationNeed action (vb_VerificationNeedID binding) of
       None \<Rightarrow> fail (mismatch ''verification_need_id is not a declared need of the action'')
     | Some need \<Rightarrow>
         andthen (require (need_PostconditionID need = vb_PostconditionID binding)
           (mismatch ''verification need does not bind the declared postcondition'')) (\<lambda>_.
         require (need_DataClass need = vb_DataClass binding)
           (mismatch ''verification need data class does not match the declared binding'')))))"

end
