(* ===== verification/ActionStoreLaws.thy ===== *)
theory ActionStoreLaws
  imports ActionStore
begin

text \<open>
  What the action store promises. A step relation has one rule for each
  operation of the in-memory store, with what the service owes it as the
  rule's side conditions; the invariant \<open>store_inv\<close> is kept by every step, and
  the lifecycle facts (one action per idempotency key, one consumed grant and
  one outbox row per action, an immutable binding, a status that only follows
  the transition table) are read off it for every reachable store.
\<close>

subsection \<open>Keys\<close>

lemma storeKey_inject [simp]:
  assumes "nul_free t" and "nul_free t'"
  shows "storeKey t r = storeKey t' r' \<longleftrightarrow> t = t' \<and> r = r'"
  by (simp add: storeKey_def nul_separated[OF assms, simplified])

lemma storeKey_same [simp]: "storeKey t r = storeKey t r' \<longleftrightarrow> r = r'"
  by (simp add: storeKey_def)

subsection \<open>The effect of each operation\<close>

text \<open>An operation leaves the store alone, or makes exactly its one update.\<close>

lemma mm_PutRequested_cases:
  assumes "mm_PutRequested a s = (r, s')"
  obtains (same) "s' = s" "r \<noteq> Inr (a, True) \<or> (\<exists>ref. mm_byIdem s (storeKey (ac_TenantRef a) (ac_IdempotencyKey a)) = Some ref)"
  | (created) "mm_byIdem s (storeKey (ac_TenantRef a) (ac_IdempotencyKey a)) = None" "r = Inr (a, True)"
      "s' = s\<lparr>mm_actions := (mm_actions s)(storeKey (ac_TenantRef a) (ac_ActionRef a) \<mapsto> a),
              mm_byIdem := (mm_byIdem s)(storeKey (ac_TenantRef a) (ac_IdempotencyKey a) \<mapsto> ac_ActionRef a)\<rparr>"
  using assms by (auto simp: mm_PutRequested_def Let_def split: option.splits if_splits)

lemma mm_Grant_cases:
  assumes "mm_Grant a g s = (r, s')"
  obtains (same) e where "s' = s" "r = Inl e"
  | (granted) stored where "mm_actions s (storeKey (ac_TenantRef a) (ac_ActionRef a)) = Some stored"
      "canTransition (ac_Status stored) StatusGranted"
      "mm_grants s (storeKey (ac_TenantRef a) (ac_ActionRef a)) = None"
      "s' = s\<lparr>mm_grants := (mm_grants s)(storeKey (ac_TenantRef a) (ac_ActionRef a) \<mapsto> g),
              mm_actions := (mm_actions s)(storeKey (ac_TenantRef a) (ac_ActionRef a) \<mapsto>
                stored\<lparr>ac_Status := StatusGranted, ac_GrantRef := gr_GrantRef g,
                  ac_ApprovalEvidenceRef := ac_ApprovalEvidenceRef a, ac_UpdatedAt := gr_IssuedAt g\<rparr>)\<rparr>"
  using assms by (auto simp: mm_Grant_def Let_def split: option.splits if_splits)

lemma mm_Dispatch_cases:
  assumes "mm_Dispatch t ref d at s = (r, s')"
  obtains (same) e where "s' = s" "r = Inl e"
  | (dispatched) stored g where "mm_actions s (storeKey t ref) = Some stored"
      "ac_Status stored = StatusGranted" "mm_grants s (storeKey t ref) = Some g"
      "gr_OneUse g" "gr_ConsumedAt g = 0" "at < gr_ExpiresAt g"
      "r = Inr (stored\<lparr>ac_Status := StatusDispatched, ac_UpdatedAt := at\<rparr>)"
      "s' = s\<lparr>mm_grants := (mm_grants s)(storeKey t ref \<mapsto> g\<lparr>gr_ConsumedAt := at\<rparr>),
              mm_dispatches := AList.update (storeKey t (dp_DispatchRef d)) d (mm_dispatches s),
              mm_actions := (mm_actions s)(storeKey t ref \<mapsto> stored\<lparr>ac_Status := StatusDispatched, ac_UpdatedAt := at\<rparr>)\<rparr>"
  using assms
  by (auto simp: mm_Dispatch_def Let_def ConsumeActionGrant_None step_grant_of_def split: option.splits if_splits)

lemma mm_Transition_cases:
  assumes "mm_Transition t ref from to reason at s = (r, s')"
  obtains (same) e where "s' = s" "r = Inl e"
  | (moved) stored where "mm_actions s (storeKey t ref) = Some stored"
      "ac_Status stored = from" "canTransition from to"
      "s' = s\<lparr>mm_actions := (mm_actions s)(storeKey t ref \<mapsto>
         stored\<lparr>ac_Status := to, ac_FailureReason := (if reason \<noteq> [] then reason else ac_FailureReason stored),
                ac_UpdatedAt := at\<rparr>)\<rparr>"
  using assms by (auto simp: mm_Transition_def Let_def split: option.splits if_splits)

lemma mm_IngestResult_cases:
  assumes "mm_IngestResult res to at s = (r, s')"
  obtains (same) "s' = s" "r = Inr (action_at s (storeKey (rs_TenantRef res) (rs_ActionRef res)), False) \<or> (\<exists>e. r = Inl e)"
  | (applied) stored where "\<not> mm_inbox s (storeKey (rs_TenantRef res) (rs_ResultID res))"
      "mm_actions s (storeKey (rs_TenantRef res) (rs_ActionRef res)) = Some stored"
      "canTransition (ac_Status stored) to"
      "s' = s\<lparr>mm_inbox := (mm_inbox s)(storeKey (rs_TenantRef res) (rs_ResultID res) := True),
              mm_receipts := (mm_receipts s)(storeKey (rs_TenantRef res) (rc_ReceiptRef (rs_Receipt res)) \<mapsto> rs_Receipt res),
              mm_actions := (mm_actions s)(storeKey (rs_TenantRef res) (rs_ActionRef res) \<mapsto>
                stored\<lparr>ac_Status := to, ac_ReceiptRef := rc_ReceiptRef (rs_Receipt res), ac_UpdatedAt := at\<rparr>)\<rparr>"
  using assms by (auto simp: mm_IngestResult_def Let_def split: option.splits if_splits)

lemma acquireDispatch_cases:
  assumes "acquireDispatch t ref at eligible s = (r, s')"
  obtains (none) "r = None" "s' = s"
  | (some) d where "r = Some d" "map_of (mm_dispatches s) (storeKey t ref) = Some d" "claimable d at eligible"
      "\<not> mm_claimed s (storeKey t ref)" "s' = s\<lparr>mm_claimed := (mm_claimed s)(storeKey t ref := True)\<rparr>"
proof (cases "map_of (mm_dispatches s) (storeKey t ref)")
  case None
  with assms none show ?thesis by (simp add: acquireDispatch_def)
next
  case (Some d)
  with assms have step: "(if \<not> claimable d at eligible \<or> mm_claimed s (storeKey t ref) then (None, s)
       else (Some d, s\<lparr>mm_claimed := (mm_claimed s)(storeKey t ref := True)\<rparr>)) = (r, s')"
    by (simp add: acquireDispatch_def Let_def)
  show ?thesis
  proof (cases "\<not> claimable d at eligible \<or> mm_claimed s (storeKey t ref)")
    case True
    with step none show ?thesis by simp
  next
    case False
    from False step have "r = Some d" "s' = s\<lparr>mm_claimed := (mm_claimed s)(storeKey t ref := True)\<rparr>" by simp_all
    with False some[OF _ Some] show ?thesis by blast
  qed
qed

lemma applyDispatchOutcome_cases:
  obtains (none) "map_of (mm_dispatches s) (storeKey t ref) = None" "applyDispatchOutcome t ref out at s = s"
  | (some) d where "map_of (mm_dispatches s) (storeKey t ref) = Some d"
      "applyDispatchOutcome t ref out at s =
         s\<lparr>mm_dispatches := AList.update (storeKey t ref) (apply_outcome out at d) (mm_dispatches s)\<rparr>"
  by (cases "map_of (mm_dispatches s) (storeKey t ref)") (auto simp: applyDispatchOutcome_def Let_def)

lemma pick_oldest_Some:
  "pick_oldest t at visited claimed next kds = Some d \<Longrightarrow>
     next = Some d \<or> (\<exists>k. (k, d) \<in> set kds \<and> dp_TenantRef d = t \<and> dp_DispatchRef d \<notin> set visited
                         \<and> \<not> claimed k \<and> claimable d at True)"
  by (induction t at visited claimed "next" kds rule: pick_oldest.induct)
    (auto split: if_splits option.splits)

lemma pick_oldest_None:
  "pick_oldest t at visited claimed next kds = None \<Longrightarrow>
     next = None \<and> (\<forall>(k, d) \<in> set kds. dp_TenantRef d = t \<and> dp_DispatchRef d \<notin> set visited \<and> \<not> claimed k
                         \<longrightarrow> \<not> claimable d at True)"
  by (induction t at visited claimed "next" kds rule: pick_oldest.induct)
    (auto split: if_splits option.splits)

subsection \<open>Steps\<close>

text \<open>
  The side conditions are the service's part: references are NUL-free and
  fresh, clocks are past the zero time, a request starts in one of the two
  requested statuses without a grant, \<open>granted\<close>, \<open>dispatched\<close> and \<open>succeeded\<close>
  are only entered through their own operations. A claim is three steps, so
  every interleaving of a delivery with other operations is a run.
\<close>

definition fresh_request :: "Action \<Rightarrow> MemoryStore \<Rightarrow> bool" where
  "fresh_request a s \<longleftrightarrow> nul_free (ac_TenantRef a) \<and> ac_Status a \<in> {StatusRequested, StatusAwaitingApproval}
     \<and> ac_GrantRef a = [] \<and> ac_ReceiptRef a = []
     \<and> mm_actions s (storeKey (ac_TenantRef a) (ac_ActionRef a)) = None"

definition fresh_grant :: "Action \<Rightarrow> Grant \<Rightarrow> bool" where
  "fresh_grant a g \<longleftrightarrow> nul_free (ac_TenantRef a) \<and> gr_OneUse g \<and> gr_ConsumedAt g = 0 \<and> gr_Capability g = ac_Capability a
     \<and> gr_ParameterHash g = ac_ParameterHash a \<and> gr_ActionRef g = ac_ActionRef a \<and> gr_TenantRef g = ac_TenantRef a"

definition fresh_row :: "string \<Rightarrow> string \<Rightarrow> Dispatch \<Rightarrow> MemoryStore \<Rightarrow> bool" where
  "fresh_row t ref d s \<longleftrightarrow> nul_free t \<and> dp_TenantRef d = t \<and> dp_ActionRef d = ref
     \<and> map_of (mm_dispatches s) (storeKey t (dp_DispatchRef d)) = None \<and> \<not> dp_Published d \<and> dp_DeadLetteredAt d = 0
     \<and> dp_Attempts d = 0"

inductive store_step :: "MemoryStore \<Rightarrow> MemoryStore \<Rightarrow> bool" where
  put: "fresh_request a s \<Longrightarrow> mm_PutRequested a s = (r, s') \<Longrightarrow> store_step s s'"
| grant: "fresh_grant a g \<Longrightarrow> mm_actions s (storeKey (ac_TenantRef a) (ac_ActionRef a)) = Some b
     \<Longrightarrow> ac_Capability b = ac_Capability a \<Longrightarrow> ac_ParameterHash b = ac_ParameterHash a
     \<Longrightarrow> mm_Grant a g s = (r, s') \<Longrightarrow> store_step s s'"
| dispatch: "fresh_row t ref d s \<Longrightarrow> at \<noteq> 0 \<Longrightarrow> mm_Dispatch t ref d at s = (r, s') \<Longrightarrow> store_step s s'"
| transition: "nul_free t \<Longrightarrow> to \<notin> {StatusGranted, StatusDispatched, StatusSucceeded}
     \<Longrightarrow> mm_Transition t ref from to reason at s = (r, s') \<Longrightarrow> store_step s s'"
| ingest: "nul_free (rs_TenantRef res) \<Longrightarrow> to \<in> {StatusSucceeded, StatusFailed}
     \<Longrightarrow> mm_IngestResult res to at s = (r, s') \<Longrightarrow> store_step s s'"
| acquire: "acquireDispatch t ref at eligible s = (r, s') \<Longrightarrow> store_step s s'"
| acquire_next: "acquireNextDispatch t at visited s = (r, s') \<Longrightarrow> store_step s s'"
| outcome: "store_step s (applyDispatchOutcome t ref out at s)"
| release: "store_step s (releaseDispatch t ref s)"

subsection \<open>The invariant\<close>

definition actions_keyed :: "MemoryStore \<Rightarrow> bool" where
  "actions_keyed s \<longleftrightarrow> (\<forall>k a. mm_actions s k = Some a \<longrightarrow>
     nul_free (ac_TenantRef a) \<and> k = storeKey (ac_TenantRef a) (ac_ActionRef a))"

definition idem_index :: "MemoryStore \<Rightarrow> bool" where
  "idem_index s \<longleftrightarrow>
     (\<forall>k a. mm_actions s k = Some a \<longrightarrow>
        mm_byIdem s (storeKey (ac_TenantRef a) (ac_IdempotencyKey a)) = Some (ac_ActionRef a))
   \<and> (\<forall>k ref. mm_byIdem s k = Some ref \<longrightarrow>
        (\<exists>a. mm_actions s (storeKey (ac_TenantRef a) ref) = Some a \<and> k = storeKey (ac_TenantRef a) (ac_IdempotencyKey a)))"

text \<open>How the status of an action and its one-use grant go together.\<close>

definition grant_state :: "Action \<Rightarrow> Grant option \<Rightarrow> bool" where
  "grant_state a og \<longleftrightarrow>
     (ac_Status a \<in> {StatusRequested, StatusAwaitingApproval} \<longrightarrow> og = None)
   \<and> (ac_Status a = StatusGranted \<longrightarrow> (\<exists>g. og = Some g \<and> gr_ConsumedAt g = 0))
   \<and> (after_dispatch (ac_Status a) \<longrightarrow> (\<exists>g. og = Some g \<and> gr_ConsumedAt g \<noteq> 0))
   \<and> (\<forall>g. og = Some g \<longrightarrow> gr_OneUse g \<and> gr_GrantRef g = ac_GrantRef a \<and> gr_Capability g = ac_Capability a
        \<and> gr_ParameterHash g = ac_ParameterHash a
        \<and> (gr_ConsumedAt g \<noteq> 0 \<longrightarrow> gr_ConsumedAt g < gr_ExpiresAt g \<and> \<not> before_dispatch (ac_Status a)))"

definition grants_kept :: "MemoryStore \<Rightarrow> bool" where
  "grants_kept s \<longleftrightarrow> (\<forall>k a. mm_actions s k = Some a \<longrightarrow> grant_state a (mm_grants s k))
     \<and> (\<forall>k. mm_actions s k = None \<longrightarrow> mm_grants s k = None)"

definition outbox_keyed :: "MemoryStore \<Rightarrow> bool" where
  "outbox_keyed s \<longleftrightarrow> distinct (map fst (mm_dispatches s))
     \<and> (\<forall>(k, d) \<in> set (mm_dispatches s). nul_free (dp_TenantRef d) \<and> k = storeKey (dp_TenantRef d) (dp_DispatchRef d))"

definition outbox_granted :: "MemoryStore \<Rightarrow> bool" where
  "outbox_granted s \<longleftrightarrow> (\<forall>(k, d) \<in> set (mm_dispatches s).
     \<exists>g. mm_grants s (storeKey (dp_TenantRef d) (dp_ActionRef d)) = Some g \<and> gr_ConsumedAt g \<noteq> 0)"

definition outbox_once :: "MemoryStore \<Rightarrow> bool" where
  "outbox_once s \<longleftrightarrow> (\<forall>(k, d) \<in> set (mm_dispatches s). \<forall>(k', d') \<in> set (mm_dispatches s).
     dp_TenantRef d = dp_TenantRef d' \<and> dp_ActionRef d = dp_ActionRef d' \<longrightarrow> k = k')"

definition receipts_kept :: "MemoryStore \<Rightarrow> bool" where
  "receipts_kept s \<longleftrightarrow> (\<forall>k a. mm_actions s k = Some a \<and> ac_ReceiptRef a \<noteq> [] \<longrightarrow>
     mm_receipts s (storeKey (ac_TenantRef a) (ac_ReceiptRef a)) \<noteq> None)"

definition store_inv :: "MemoryStore \<Rightarrow> bool" where
  "store_inv s \<longleftrightarrow> actions_keyed s \<and> idem_index s \<and> grants_kept s \<and> outbox_keyed s \<and> outbox_granted s
     \<and> outbox_once s \<and> receipts_kept s"

lemmas store_inv_parts = actions_keyed_def idem_index_def grants_kept_def outbox_keyed_def outbox_granted_def
  outbox_once_def receipts_kept_def

lemma actions_keyedD:
  "store_inv s \<Longrightarrow> mm_actions s k = Some a \<Longrightarrow> nul_free (ac_TenantRef a) \<and> k = storeKey (ac_TenantRef a) (ac_ActionRef a)"
  by (simp add: store_inv_def actions_keyed_def)

lemma action_key:
  "store_inv s \<Longrightarrow> nul_free t \<Longrightarrow> mm_actions s (storeKey t ref) = Some a \<Longrightarrow> ac_TenantRef a = t \<and> ac_ActionRef a = ref"
  using actions_keyedD[of s "storeKey t ref" a] by auto

lemma idem_indexE:
  assumes "idem_index s" and "mm_byIdem s k = Some ref"
  obtains a where "mm_actions s (storeKey (ac_TenantRef a) ref) = Some a"
    and "k = storeKey (ac_TenantRef a) (ac_IdempotencyKey a)"
  using assms unfolding idem_index_def by blast

lemma grant_stateD: "store_inv s \<Longrightarrow> mm_actions s k = Some a \<Longrightarrow> grant_state a (mm_grants s k)"
  by (simp add: store_inv_def grants_kept_def)

text \<open>Each part reads some of the fields only.\<close>

lemma inv_part_cong:
  "mm_actions s' = mm_actions s \<Longrightarrow> actions_keyed s' \<longleftrightarrow> actions_keyed s"
  "mm_actions s' = mm_actions s \<Longrightarrow> mm_byIdem s' = mm_byIdem s \<Longrightarrow> idem_index s' \<longleftrightarrow> idem_index s"
  "mm_actions s' = mm_actions s \<Longrightarrow> mm_grants s' = mm_grants s \<Longrightarrow> grants_kept s' \<longleftrightarrow> grants_kept s"
  "mm_dispatches s' = mm_dispatches s \<Longrightarrow> outbox_keyed s' \<longleftrightarrow> outbox_keyed s"
  "mm_dispatches s' = mm_dispatches s \<Longrightarrow> mm_grants s' = mm_grants s \<Longrightarrow> outbox_granted s' \<longleftrightarrow> outbox_granted s"
  "mm_dispatches s' = mm_dispatches s \<Longrightarrow> outbox_once s' \<longleftrightarrow> outbox_once s"
  "mm_actions s' = mm_actions s \<Longrightarrow> mm_receipts s' = mm_receipts s \<Longrightarrow> receipts_kept s' \<longleftrightarrow> receipts_kept s"
  unfolding store_inv_parts by simp_all

lemma store_inv_cong:
  assumes "mm_actions s' = mm_actions s" "mm_byIdem s' = mm_byIdem s" "mm_grants s' = mm_grants s"
    "mm_receipts s' = mm_receipts s"
    and "outbox_keyed s \<Longrightarrow> outbox_granted s \<Longrightarrow> outbox_once s \<Longrightarrow> outbox_keyed s' \<and> outbox_granted s' \<and> outbox_once s'"
  shows "store_inv s \<Longrightarrow> store_inv s'"
  using assms(5) inv_part_cong(1)[OF assms(1)] inv_part_cong(2)[OF assms(1,2)] inv_part_cong(3)[OF assms(1,3)]
    inv_part_cong(7)[OF assms(1,4)]
  unfolding store_inv_def by blast

lemma store_inv_New: "store_inv NewMemoryStore"
  by (simp add: store_inv_def store_inv_parts NewMemoryStore_def)

subsection \<open>Preservation\<close>

definition same_identity :: "Action \<Rightarrow> Action \<Rightarrow> bool" where
  "same_identity a b \<longleftrightarrow> ac_TenantRef b = ac_TenantRef a \<and> ac_ActionRef b = ac_ActionRef a
     \<and> ac_IdempotencyKey b = ac_IdempotencyKey a"

lemma keyed_update:
  assumes "actions_keyed s" and "mm_actions s k = Some a" and "same_identity a b"
    and "mm_actions s' = (mm_actions s)(k \<mapsto> b)"
  shows "actions_keyed s'"
  using assms by (auto simp: actions_keyed_def same_identity_def split: if_splits)

lemma idem_update:
  assumes "idem_index s" and "mm_actions s k = Some a" and "same_identity a b"
    and "mm_actions s' = (mm_actions s)(k \<mapsto> b)" and "mm_byIdem s' = mm_byIdem s"
  shows "idem_index s'"
proof -
  have A: "\<forall>k' a'. mm_actions s' k' = Some a' \<longrightarrow>
      mm_byIdem s' (storeKey (ac_TenantRef a') (ac_IdempotencyKey a')) = Some (ac_ActionRef a')"
    using assms by (auto simp: idem_index_def same_identity_def split: if_splits)
  have B: "\<exists>a'. mm_actions s' (storeKey (ac_TenantRef a') ref) = Some a' \<and> k' = storeKey (ac_TenantRef a') (ac_IdempotencyKey a')"
    if idx: "mm_byIdem s' k' = Some ref" for k' ref
  proof -
    obtain c where c: "mm_actions s (storeKey (ac_TenantRef c) ref) = Some c" "k' = storeKey (ac_TenantRef c) (ac_IdempotencyKey c)"
      using idem_indexE[OF assms(1)] idx assms(5) by metis
    show ?thesis
    proof (cases "storeKey (ac_TenantRef c) ref = k")
      case True
      with c assms show ?thesis by (intro exI[of _ b]) (auto simp: same_identity_def)
    next
      case False
      with c assms show ?thesis by (intro exI[of _ c]) auto
    qed
  qed
  from A B show ?thesis by (simp add: idem_index_def)
qed

lemma grants_update:
  assumes "grants_kept s" and "mm_actions s k = Some a"
    and "mm_actions s' = (mm_actions s)(k \<mapsto> b)" and "mm_grants s' = (mm_grants s)(k := og)"
    and "grant_state b og"
  shows "grants_kept s'"
  using assms by (auto simp: grants_kept_def)

lemma receipts_update:
  assumes "receipts_kept s" and "mm_actions s k = Some a" and "same_identity a b"
    and "ac_ReceiptRef b = ac_ReceiptRef a \<or> mm_receipts s' (storeKey (ac_TenantRef b) (ac_ReceiptRef b)) \<noteq> None"
    and "mm_actions s' = (mm_actions s)(k \<mapsto> b)" and "\<And>k'. mm_receipts s k' \<noteq> None \<Longrightarrow> mm_receipts s' k' \<noteq> None"
  shows "receipts_kept s'"
  using assms by (fastforce simp: receipts_kept_def same_identity_def split: if_splits)

lemma outbox_same:
  assumes "mm_dispatches s' = mm_dispatches s"
    and "\<And>k g. mm_grants s k = Some g \<Longrightarrow> gr_ConsumedAt g \<noteq> 0 \<Longrightarrow> \<exists>g'. mm_grants s' k = Some g' \<and> gr_ConsumedAt g' \<noteq> 0"
  shows "outbox_keyed s \<Longrightarrow> outbox_keyed s'" and "outbox_granted s \<Longrightarrow> outbox_granted s'"
    and "outbox_once s \<Longrightarrow> outbox_once s'"
  using assms by (fastforce simp: outbox_keyed_def outbox_granted_def outbox_once_def)+

lemma put_preserves:
  assumes inv: "store_inv s" and fresh: "fresh_request a s" and put: "mm_PutRequested a s = (r, s')"
  shows "store_inv s'"
  using put
proof (cases rule: mm_PutRequested_cases)
  case same
  with inv show ?thesis by simp
next
  case created
  let ?k = "storeKey (ac_TenantRef a) (ac_ActionRef a)"
  from fresh have new: "mm_actions s ?k = None" "nul_free (ac_TenantRef a)" by (auto simp: fresh_request_def)
  have upd: "mm_actions s' = (mm_actions s)(?k \<mapsto> a)" "mm_grants s' = mm_grants s"
    "mm_dispatches s' = mm_dispatches s" "mm_receipts s' = mm_receipts s"
    "mm_byIdem s' = (mm_byIdem s)(storeKey (ac_TenantRef a) (ac_IdempotencyKey a) \<mapsto> ac_ActionRef a)"
    using created(3) by simp_all
  have keyed: "actions_keyed s" using inv by (simp add: store_inv_def)
  have "actions_keyed s'" using keyed new by (auto simp: actions_keyed_def upd)
  moreover have "idem_index s'"
  proof -
    have "mm_byIdem s' (storeKey (ac_TenantRef b) (ac_IdempotencyKey b)) = Some (ac_ActionRef b)"
      if b: "mm_actions s' k = Some b" for k b
    proof (cases "k = storeKey (ac_TenantRef a) (ac_ActionRef a)")
      case True
      with b show ?thesis by (simp add: upd)
    next
      case False
      with b have "mm_actions s k = Some b" by (simp add: upd)
      with inv have old: "mm_byIdem s (storeKey (ac_TenantRef b) (ac_IdempotencyKey b)) = Some (ac_ActionRef b)"
        by (simp add: store_inv_def idem_index_def)
      with created(1) have "storeKey (ac_TenantRef b) (ac_IdempotencyKey b) \<noteq> storeKey (ac_TenantRef a) (ac_IdempotencyKey a)"
        by auto
      with old show ?thesis by (simp add: upd)
    qed
    moreover have "\<exists>b. mm_actions s' (storeKey (ac_TenantRef b) ref) = Some b \<and> k = storeKey (ac_TenantRef b) (ac_IdempotencyKey b)"
      if idx: "mm_byIdem s' k = Some ref" for k ref
    proof (cases "k = storeKey (ac_TenantRef a) (ac_IdempotencyKey a)")
      case True
      with idx show ?thesis by (intro exI[of _ a]) (auto simp: upd)
    next
      case False
      with idx have "mm_byIdem s k = Some ref" by (simp add: upd)
      then obtain b where "mm_actions s (storeKey (ac_TenantRef b) ref) = Some b"
          "k = storeKey (ac_TenantRef b) (ac_IdempotencyKey b)"
        using idem_indexE inv unfolding store_inv_def by metis
      with new show ?thesis by (intro exI[of _ b]) (auto simp: upd)
    qed
    ultimately show ?thesis by (simp add: idem_index_def)
  qed
  moreover have "grants_kept s'"
    using inv fresh new by (auto simp: upd store_inv_def grants_kept_def grant_state_def fresh_request_def
      after_dispatch_def)
  moreover have "receipts_kept s'"
    using inv fresh by (auto simp: upd store_inv_def receipts_kept_def fresh_request_def)
  ultimately show ?thesis using inv outbox_same[OF upd(3)] upd(2) by (simp add: store_inv_def)
qed

text \<open>The updates of a stored action share one rule.\<close>

lemma action_update_preserves:
  assumes inv: "store_inv s" and a: "mm_actions s k = Some a" and same: "same_identity a b"
    and acts: "mm_actions s' = (mm_actions s)(k \<mapsto> b)" and idx: "mm_byIdem s' = mm_byIdem s"
    and grants: "mm_grants s' = (mm_grants s)(k := og)" and state: "grant_state b og"
    and kept: "\<And>g. mm_grants s k = Some g \<Longrightarrow> gr_ConsumedAt g \<noteq> 0 \<Longrightarrow> og = Some g"
    and rows: "mm_dispatches s' = mm_dispatches s"
    and rcpt: "\<And>k'. mm_receipts s k' \<noteq> None \<Longrightarrow> mm_receipts s' k' \<noteq> None"
    and ref: "ac_ReceiptRef b = ac_ReceiptRef a \<or> mm_receipts s' (storeKey (ac_TenantRef b) (ac_ReceiptRef b)) \<noteq> None"
  shows "store_inv s'"
proof -
  have "\<exists>g'. mm_grants s' k' = Some g' \<and> gr_ConsumedAt g' \<noteq> 0" if "mm_grants s k' = Some g" "gr_ConsumedAt g \<noteq> 0" for k' g
    using that kept by (cases "k' = k") (auto simp: grants)
  note outbox = outbox_same[OF rows this]
  show ?thesis
    using inv keyed_update[OF _ a same acts] idem_update[OF _ a same acts idx]
      grants_update[OF _ a acts grants state] receipts_update[OF _ a same ref acts rcpt] outbox
    by (simp add: store_inv_def)
qed

lemma grant_preserves:
  assumes inv: "store_inv s" and fresh: "fresh_grant a g"
    and b: "mm_actions s (storeKey (ac_TenantRef a) (ac_ActionRef a)) = Some b"
    and cap: "ac_Capability b = ac_Capability a" "ac_ParameterHash b = ac_ParameterHash a"
    and step: "mm_Grant a g s = (r, s')"
  shows "store_inv s'"
  using step
proof (cases rule: mm_Grant_cases)
  case same
  with inv show ?thesis by simp
next
  case (granted stored)
  show ?thesis
    by (rule action_update_preserves[OF inv granted(1), where og = "Some g"
          and b = "stored\<lparr>ac_Status := StatusGranted, ac_GrantRef := gr_GrantRef g,
                  ac_ApprovalEvidenceRef := ac_ApprovalEvidenceRef a, ac_UpdatedAt := gr_IssuedAt g\<rparr>"])
      (use granted fresh b cap in \<open>auto simp: same_identity_def grant_state_def fresh_grant_def after_dispatch_def\<close>)
qed

lemma grant_state_move:
  assumes "grant_state a og" and "canTransition (ac_Status a) to"
    and "to \<notin> {StatusGranted, StatusDispatched}"
    and "ac_Status b = to" "ac_GrantRef b = ac_GrantRef a" "ac_Capability b = ac_Capability a"
        "ac_ParameterHash b = ac_ParameterHash a"
  shows "grant_state b og"
proof -
  from assms(2) have "to \<noteq> StatusRequested" by auto
  moreover have "to = StatusAwaitingApproval \<Longrightarrow> og = None"
    using assms(1,2) by (simp add: grant_state_def)
  moreover have "after_dispatch to \<Longrightarrow> \<exists>g. og = Some g \<and> gr_ConsumedAt g \<noteq> 0"
    using assms(1,3) enter_after_dispatch[OF assms(2)] by (simp add: grant_state_def)
  moreover have "before_dispatch to \<Longrightarrow> before_dispatch (ac_Status a)"
    using no_return_before_dispatch[OF assms(2)] .
  moreover have "gr_OneUse g \<and> gr_GrantRef g = ac_GrantRef a \<and> gr_Capability g = ac_Capability a
      \<and> gr_ParameterHash g = ac_ParameterHash a
      \<and> (gr_ConsumedAt g \<noteq> 0 \<longrightarrow> gr_ConsumedAt g < gr_ExpiresAt g \<and> \<not> before_dispatch (ac_Status a))"
    if "og = Some g" for g using assms(1) that by (simp add: grant_state_def)
  ultimately show ?thesis using assms(3-7) unfolding grant_state_def by auto
qed

lemma transition_preserves:
  assumes inv: "store_inv s" and to: "to \<notin> {StatusGranted, StatusDispatched, StatusSucceeded}"
    and step: "mm_Transition t ref from to reason at s = (r, s')"
  shows "store_inv s'"
  using step
proof (cases rule: mm_Transition_cases)
  case same
  with inv show ?thesis by simp
next
  case (moved stored)
  let ?k = "storeKey t ref"
  let ?b = "stored\<lparr>ac_Status := to, ac_FailureReason := (if reason \<noteq> [] then reason else ac_FailureReason stored),
                ac_UpdatedAt := at\<rparr>"
  have state: "grant_state ?b (mm_grants s ?k)"
    using grant_stateD[OF inv moved(1)] moved(2,3) to
    by - (rule grant_state_move[where a = stored and to = to], auto)
  have upd: "mm_actions s' = (mm_actions s)(?k \<mapsto> ?b)" "mm_byIdem s' = mm_byIdem s"
    "mm_grants s' = (mm_grants s)(?k := mm_grants s ?k)" "mm_dispatches s' = mm_dispatches s"
    "mm_receipts s' = mm_receipts s" "same_identity stored ?b"
    by (simp_all add: moved(4) same_identity_def)
  show ?thesis
    by (rule action_update_preserves[OF inv moved(1) upd(6) upd(1-3) state _ upd(4)]) (simp_all add: upd(5))
qed

lemma ingest_preserves:
  assumes inv: "store_inv s" and nul: "nul_free (rs_TenantRef res)" and to: "to \<in> {StatusSucceeded, StatusFailed}"
    and step: "mm_IngestResult res to at s = (r, s')"
  shows "store_inv s'"
  using step
proof (cases rule: mm_IngestResult_cases)
  case same
  with inv show ?thesis by simp
next
  case (applied stored)
  let ?k = "storeKey (rs_TenantRef res) (rs_ActionRef res)"
  let ?b = "stored\<lparr>ac_Status := to, ac_ReceiptRef := rc_ReceiptRef (rs_Receipt res), ac_UpdatedAt := at\<rparr>"
  have tenant: "ac_TenantRef stored = rs_TenantRef res"
    using action_key[OF inv nul applied(2)] by simp
  have state: "grant_state ?b (mm_grants s ?k)"
    using grant_stateD[OF inv applied(2)] applied(3) to
    by - (rule grant_state_move[where a = stored and to = to], auto)
  have upd: "mm_actions s' = (mm_actions s)(?k \<mapsto> ?b)" "mm_byIdem s' = mm_byIdem s"
    "mm_grants s' = (mm_grants s)(?k := mm_grants s ?k)" "mm_dispatches s' = mm_dispatches s"
    "mm_receipts s' = (mm_receipts s)(storeKey (rs_TenantRef res) (rc_ReceiptRef (rs_Receipt res)) \<mapsto> rs_Receipt res)"
    "same_identity stored ?b"
    by (simp_all add: applied(4) same_identity_def)
  show ?thesis
    by (rule action_update_preserves[OF inv applied(2) upd(6) upd(1-3) state _ upd(4)]) (simp_all add: upd(5) tenant)
qed

lemma update_set:
  "distinct (map fst al) \<Longrightarrow> set (AList.update k v al) = {(k', v') \<in> set al. k' \<noteq> k} \<union> {(k, v)}"
proof (induction al)
  case (Cons p al)
  obtain k' v' where "p = (k', v')" by (cases p)
  with Cons show ?case by (auto simp: image_iff)
qed simp

lemma dispatch_preserves:
  assumes inv: "store_inv s" and fresh: "fresh_row t ref d s" and at: "at \<noteq> 0"
    and step: "mm_Dispatch t ref d at s = (r, s')"
  shows "store_inv s'"
  using step
proof (cases rule: mm_Dispatch_cases)
  case same
  with inv show ?thesis by simp
next
  case (dispatched stored g)
  let ?k = "storeKey t ref"
  let ?s1 = "s'\<lparr>mm_dispatches := mm_dispatches s\<rparr>"
  from inv have parts: "outbox_keyed s" "outbox_granted s" "outbox_once s" "grants_kept s"
    by (simp_all add: store_inv_def)
  have state: "grant_state stored (Some g)"
    using parts(4) dispatched(1,3) unfolding grants_kept_def by metis
  then have state': "grant_state (stored\<lparr>ac_Status := StatusDispatched, ac_UpdatedAt := at\<rparr>) (Some (g\<lparr>gr_ConsumedAt := at\<rparr>))"
    using at dispatched(6) by (auto simp: grant_state_def before_dispatch_def)
  have inv1: "store_inv ?s1"
    by (rule action_update_preserves[OF inv dispatched(1), where og = "Some (g\<lparr>gr_ConsumedAt := at\<rparr>)"
          and b = "stored\<lparr>ac_Status := StatusDispatched, ac_UpdatedAt := at\<rparr>"])
      (use dispatched state' in \<open>auto simp: same_identity_def\<close>)
  have rows: "set (mm_dispatches s') = set (mm_dispatches s) \<union> {(storeKey t (dp_DispatchRef d), d)}"
    and dist: "distinct (map fst (mm_dispatches s'))"
    using fresh parts(1) dispatched(8)
    by (auto simp: update_set fresh_row_def outbox_keyed_def map_of_eq_None_iff distinct_update image_iff)
  have unconsumed: "\<not> (dp_TenantRef e = t \<and> dp_ActionRef e = ref)" if "(k, e) \<in> set (mm_dispatches s)" for k e
    using parts(2) that dispatched(3,5) by (auto simp: outbox_granted_def)
  have "outbox_keyed s'"
    using parts(1) dist fresh by (auto simp: outbox_keyed_def rows fresh_row_def)
  moreover have "outbox_once s'"
    using parts(3) unconsumed fresh by (fastforce simp: outbox_once_def rows fresh_row_def)
  moreover have "outbox_granted s'"
  proof -
    have grants: "mm_grants s' = (mm_grants s)(?k \<mapsto> g\<lparr>gr_ConsumedAt := at\<rparr>)" by (simp add: dispatched(8))
    have old: "\<exists>g. mm_grants s' (storeKey (dp_TenantRef e) (dp_ActionRef e)) = Some g \<and> gr_ConsumedAt g \<noteq> 0"
      if "(k, e) \<in> set (mm_dispatches s)" for k e
      using parts(2) that at grants by (fastforce simp: outbox_granted_def)
    have new: "mm_grants s' (storeKey (dp_TenantRef d) (dp_ActionRef d)) = Some (g\<lparr>gr_ConsumedAt := at\<rparr>)"
      using fresh grants by (auto simp: fresh_row_def)
    show ?thesis unfolding outbox_granted_def rows using old new at by auto
  qed
  ultimately show ?thesis
    by (intro store_inv_cong[where s = ?s1 and s' = s', OF _ _ _ _ _ inv1]) simp_all
qed

lemma apply_outcome_identity [simp]:
  "dp_TenantRef (apply_outcome out at d) = dp_TenantRef d"
  "dp_DispatchRef (apply_outcome out at d) = dp_DispatchRef d"
  "dp_ActionRef (apply_outcome out at d) = dp_ActionRef d"
  "dp_Capability (apply_outcome out at d) = dp_Capability d"
  "dp_ParameterHash (apply_outcome out at d) = dp_ParameterHash d"
  "dp_GrantRef (apply_outcome out at d) = dp_GrantRef d"
  "dp_Kind (apply_outcome out at d) = dp_Kind d"
  "dp_Attempts (apply_outcome out at d) = dp_Attempts d + 1"
  by (simp_all add: apply_outcome_def Let_def)

lemma outcome_preserves:
  assumes inv: "store_inv s"
  shows "store_inv (applyDispatchOutcome t ref out at s)"
proof (cases rule: applyDispatchOutcome_cases[of s t ref out at])
  case none
  with inv show ?thesis by simp
next
  case (some d)
  let ?k = "storeKey t ref"
  let ?s' = "applyDispatchOutcome t ref out at s"
  from inv have parts: "outbox_keyed s" "outbox_granted s" "outbox_once s" by (simp_all add: store_inv_def)
  then have dist: "distinct (map fst (mm_dispatches s))" by (simp add: outbox_keyed_def)
  from some(1) have d: "(?k, d) \<in> set (mm_dispatches s)" by (rule map_of_SomeD)
  have rows: "(k, e) \<in> set (mm_dispatches ?s') \<Longrightarrow>
      \<exists>e'. (k, e') \<in> set (mm_dispatches s) \<and> dp_TenantRef e' = dp_TenantRef e \<and> dp_ActionRef e' = dp_ActionRef e
           \<and> dp_DispatchRef e' = dp_DispatchRef e" for k e
    using d some(2) by (auto simp: update_set[OF dist])
  have others: "mm_actions ?s' = mm_actions s" "mm_byIdem ?s' = mm_byIdem s" "mm_grants ?s' = mm_grants s"
    "mm_receipts ?s' = mm_receipts s" "mm_dispatches ?s' = AList.update ?k (apply_outcome out at d) (mm_dispatches s)"
    by (simp_all add: some(2))
  have "outbox_keyed ?s'"
  proof -
    have "nul_free (dp_TenantRef e) \<and> k = storeKey (dp_TenantRef e) (dp_DispatchRef e)"
      if "(k, e) \<in> set (mm_dispatches ?s')" for k e
      using rows[OF that] parts(1) by (fastforce simp: outbox_keyed_def)
    moreover have "distinct (map fst (mm_dispatches ?s'))" using dist others(5) by (simp add: distinct_update)
    ultimately show ?thesis by (auto simp: outbox_keyed_def)
  qed
  moreover have "outbox_granted ?s'"
    unfolding outbox_granted_def using rows parts(2) others(3) by (fastforce simp: outbox_granted_def)
  moreover have "outbox_once ?s'"
  proof -
    have "k = k'" if "(k, e) \<in> set (mm_dispatches ?s')" "(k', e') \<in> set (mm_dispatches ?s')"
        "dp_TenantRef e = dp_TenantRef e'" "dp_ActionRef e = dp_ActionRef e'" for k k' e e'
      using rows[OF that(1)] rows[OF that(2)] parts(3) that(3,4) unfolding outbox_once_def by fastforce
    then show ?thesis by (auto simp: outbox_once_def)
  qed
  ultimately show ?thesis using store_inv_cong[OF others(1-4) _ inv] by blast
qed

lemma claimed_preserves: "store_inv s \<Longrightarrow> store_inv (s\<lparr>mm_claimed := c\<rparr>)"
  by (rule store_inv_cong[of _ s]) (simp_all add: outbox_keyed_def outbox_granted_def outbox_once_def)

theorem store_step_preserves:
  assumes "store_step s s'" and "store_inv s"
  shows "store_inv s'"
  using assms
proof (cases rule: store_step.cases)
  case (put a r)
  with assms(2) show ?thesis by (blast intro: put_preserves)
next
  case (grant a g b r)
  with assms(2) show ?thesis by (blast intro: grant_preserves)
next
  case (dispatch t ref d at r)
  with assms(2) show ?thesis by (blast intro: dispatch_preserves)
next
  case (transition t to ref fr reason at r)
  with assms(2) show ?thesis by (blast intro: transition_preserves)
next
  case (ingest res to at r)
  with assms(2) show ?thesis by (blast intro: ingest_preserves)
next
  case (acquire t ref at eligible r)
  with assms(2) show ?thesis by (auto elim: acquireDispatch_cases simp: claimed_preserves)
next
  case (acquire_next t at visited r)
  with assms(2) show ?thesis by (auto simp: acquireNextDispatch_def claimed_preserves split: option.splits)
next
  case (outcome t ref out at)
  with assms(2) show ?thesis by (simp add: outcome_preserves)
next
  case (release t ref)
  with assms(2) show ?thesis by (simp add: releaseDispatch_def claimed_preserves)
qed

subsection \<open>Reachable stores\<close>

lemma store_steps_preserve: "store_step\<^sup>*\<^sup>* s s' \<Longrightarrow> store_inv s \<Longrightarrow> store_inv s'"
  by (induction rule: rtranclp_induct) (auto intro: store_step_preserves)

definition same_binding :: "Action \<Rightarrow> Action \<Rightarrow> bool" where
  "same_binding a b \<longleftrightarrow> ac_TenantRef b = ac_TenantRef a \<and> ac_ActionRef b = ac_ActionRef a
     \<and> ac_Capability b = ac_Capability a \<and> ac_ParameterHash b = ac_ParameterHash a
     \<and> ac_BusinessContextRef b = ac_BusinessContextRef a \<and> ac_IdempotencyKey b = ac_IdempotencyKey a
     \<and> ac_CreatedAt b = ac_CreatedAt a \<and> ac_ApprovalPlanRef b = ac_ApprovalPlanRef a"

lemma same_binding_refl [simp]: "same_binding a a"
  by (simp add: same_binding_def)

lemma same_binding_trans: "same_binding a b \<Longrightarrow> same_binding b c \<Longrightarrow> same_binding a c"
  by (simp add: same_binding_def)

text \<open>What one operation does to one stored action.\<close>

definition advances :: "Action \<Rightarrow> Action \<Rightarrow> bool" where
  "advances a b \<longleftrightarrow> same_binding a b \<and> (b = a \<or> canTransition (ac_Status a) (ac_Status b))"

lemma advances_refl [simp]: "advances a a"
  by (simp add: advances_def)

lemma applyDispatchOutcome_actions [simp]: "mm_actions (applyDispatchOutcome t ref out at s) = mm_actions s"
  by (cases rule: applyDispatchOutcome_cases[of s t ref out at]) simp_all

lemma releaseDispatch_actions [simp]: "mm_actions (releaseDispatch t ref s) = mm_actions s"
  by (simp add: releaseDispatch_def)

lemma acquireDispatch_actions: "acquireDispatch t ref at eligible s = (r, s') \<Longrightarrow> mm_actions s' = mm_actions s"
  by (auto elim: acquireDispatch_cases)

lemma acquireNextDispatch_actions: "acquireNextDispatch t at visited s = (r, s') \<Longrightarrow> mm_actions s' = mm_actions s"
  by (auto simp: acquireNextDispatch_def split: option.splits)

lemma store_step_advances:
  assumes "store_step s s'" and a: "mm_actions s k = Some a"
  shows "\<exists>b. mm_actions s' k = Some b \<and> advances a b"
  using assms(1)
proof (cases rule: store_step.cases)
  case (put c r)
  from put(2) show ?thesis
    using a put(1) by (cases rule: mm_PutRequested_cases) (auto simp: fresh_request_def)
next
  case (grant c g b r)
  from grant(5) show ?thesis
    using a by (cases rule: mm_Grant_cases) (auto simp: advances_def same_binding_def)
next
  case (dispatch t ref d at r)
  from dispatch(3) show ?thesis
    using a by (cases rule: mm_Dispatch_cases) (auto simp: advances_def same_binding_def)
next
  case (transition t to ref fr reason at r)
  from transition(3) show ?thesis
    using a by (cases rule: mm_Transition_cases) (auto simp: advances_def same_binding_def)
next
  case (ingest res to at r)
  from ingest(3) show ?thesis
    using a by (cases rule: mm_IngestResult_cases) (auto simp: advances_def same_binding_def)
qed (use a in \<open>auto dest!: acquireDispatch_actions acquireNextDispatch_actions\<close>)

lemma store_steps_advance:
  assumes "store_step\<^sup>*\<^sup>* s s'" and "mm_actions s k = Some a"
  shows "\<exists>b. mm_actions s' k = Some b \<and> same_binding a b \<and> canTransition\<^sup>*\<^sup>* (ac_Status a) (ac_Status b)"
  using assms
proof (induction rule: rtranclp_induct)
  case (step s1 s2)
  then obtain b where b: "mm_actions s1 k = Some b" "same_binding a b" "canTransition\<^sup>*\<^sup>* (ac_Status a) (ac_Status b)"
    by blast
  obtain c where "mm_actions s2 k = Some c" "advances b c" using store_step_advances[OF step(2) b(1)] by blast
  with b show ?case
    by (auto simp: advances_def intro: same_binding_trans rtranclp.rtrancl_into_rtrancl)
qed auto

lemma store_step_inbox:
  assumes "store_step s s'" and "mm_inbox s k"
  shows "mm_inbox s' k"
  using assms(1)
proof (cases rule: store_step.cases)
  case (put c r)
  from put(2) show ?thesis using assms(2) by (cases rule: mm_PutRequested_cases) auto
next
  case (grant c g b r)
  from grant(5) show ?thesis using assms(2) by (cases rule: mm_Grant_cases) auto
next
  case (dispatch t ref d at r)
  from dispatch(3) show ?thesis using assms(2) by (cases rule: mm_Dispatch_cases) auto
next
  case (transition t to ref fr reason at r)
  from transition(3) show ?thesis using assms(2) by (cases rule: mm_Transition_cases) auto
next
  case (ingest res to at r)
  from ingest(3) show ?thesis using assms(2) by (cases rule: mm_IngestResult_cases) auto
next
  case (acquire t ref at eligible r)
  then show ?thesis using assms(2) by (auto elim: acquireDispatch_cases)
next
  case (acquire_next t at visited r)
  then show ?thesis using assms(2) by (auto simp: acquireNextDispatch_def split: option.splits)
next
  case (outcome t ref out at)
  then show ?thesis using assms(2) by (cases rule: applyDispatchOutcome_cases[of s t ref out at]) auto
next
  case (release t ref)
  then show ?thesis using assms(2) by (simp add: releaseDispatch_def)
qed

lemma store_steps_inbox: "store_step\<^sup>*\<^sup>* s s' \<Longrightarrow> mm_inbox s k \<Longrightarrow> mm_inbox s' k"
  by (induction rule: rtranclp_induct) (auto intro: store_step_inbox)

subsection \<open>A run\<close>

text \<open>One action, requested, granted and dispatched: the run the examples below start from.\<close>

definition ex_action :: Action where
  "ex_action = zero_action\<lparr>ac_TenantRef := ''acme'', ac_ActionRef := ''act_1'', ac_Status := StatusRequested,
     ac_Capability := ''crm.note'', ac_ParameterHash := ''h'', ac_IdempotencyKey := ''k''\<rparr>"

definition ex_grant :: Grant where
  "ex_grant = \<lparr>gr_TenantRef = ''acme'', gr_GrantRef = ''grant_1'', gr_ActionRef = ''act_1'',
     gr_BusinessContextRef = [], gr_Capability = ''crm.note'', gr_ParameterHash = ''h'', gr_OneUse = True,
     gr_IssuedAt = 1, gr_ExpiresAt = 10, gr_ConsumedAt = 0\<rparr>"

definition ex_row :: Dispatch where
  "ex_row = \<lparr>dp_TenantRef = ''acme'', dp_DispatchRef = ''dsp_1'', dp_ActionRef = ''act_1'',
     dp_Capability = ''crm.note'', dp_ParameterHash = ''h'', dp_GrantRef = ''grant_1'', dp_Kind = DispatchExecute,
     dp_Published = False, dp_Attempts = 0, dp_CreatedAt = 5, dp_PublishedAt = 0, dp_NextAttemptAt = 0,
     dp_LastError = [], dp_DeadLetteredAt = 0\<rparr>"

definition ex_requested :: MemoryStore where
  "ex_requested = snd (mm_PutRequested ex_action NewMemoryStore)"

definition ex_granted :: MemoryStore where
  "ex_granted = snd (mm_Grant ex_action ex_grant ex_requested)"

definition ex_dispatched :: MemoryStore where
  "ex_dispatched = snd (mm_Dispatch ''acme'' ''act_1'' ex_row 5 ex_granted)"

lemmas ex_defs = Let_def ex_action_def ex_grant_def ex_row_def zero_action_def NewMemoryStore_def storeKey_def

lemma ex_requested_eq:
  "mm_PutRequested ex_action NewMemoryStore = (Inr (ex_action, True), ex_requested)"
  "mm_actions ex_requested = [''acme'' @ CHR 0x00 # ''act_1'' \<mapsto> ex_action]"
  "mm_grants ex_requested = Map.empty" "mm_dispatches ex_requested = []"
  by (simp_all add: ex_requested_def mm_PutRequested_def ex_defs)

lemma ex_granted_eq:
  "mm_Grant ex_action ex_grant ex_requested = (Inr (ex_action\<lparr>ac_Status := StatusGranted, ac_GrantRef := ''grant_1'',
      ac_UpdatedAt := 1\<rparr>), ex_granted)"
  "mm_actions ex_granted = [''acme'' @ CHR 0x00 # ''act_1'' \<mapsto> ex_action\<lparr>ac_Status := StatusGranted,
      ac_GrantRef := ''grant_1'', ac_UpdatedAt := 1\<rparr>]"
  "mm_grants ex_granted = [''acme'' @ CHR 0x00 # ''act_1'' \<mapsto> ex_grant]" "mm_dispatches ex_granted = []"
  by (simp_all add: ex_granted_def mm_Grant_def ex_requested_eq ex_defs)

lemma ex_dispatched_eq:
  "mm_Dispatch ''acme'' ''act_1'' ex_row 5 ex_granted = (Inr (ex_action\<lparr>ac_Status := StatusDispatched,
      ac_GrantRef := ''grant_1'', ac_UpdatedAt := 5\<rparr>), ex_dispatched)"
  "mm_actions ex_dispatched = [''acme'' @ CHR 0x00 # ''act_1'' \<mapsto> ex_action\<lparr>ac_Status := StatusDispatched,
      ac_GrantRef := ''grant_1'', ac_UpdatedAt := 5\<rparr>]"
  "mm_dispatches ex_dispatched = [(''acme'' @ CHR 0x00 # ''dsp_1'', ex_row)]"
  by (simp_all add: ex_dispatched_def mm_Dispatch_def ex_granted_eq step_grant_of_def ConsumeActionGrant_def
      fail_if_def ex_defs)

lemma ex_run:
  "store_step NewMemoryStore ex_requested" "store_step ex_requested ex_granted" "store_step ex_granted ex_dispatched"
proof -
  show "store_step NewMemoryStore ex_requested"
    by (rule store_step.put[OF _ ex_requested_eq(1)]) (simp add: fresh_request_def nul_free_def ex_defs)
  show "store_step ex_requested ex_granted"
    by (rule store_step.grant[OF _ _ _ _ ex_granted_eq(1), where b = ex_action])
      (simp_all add: fresh_grant_def nul_free_def ex_requested_eq, simp_all add: ex_defs)
  show "store_step ex_granted ex_dispatched"
    by (rule store_step.dispatch[OF _ _ ex_dispatched_eq(1)])
      (simp_all add: fresh_row_def nul_free_def ex_granted_eq, simp_all add: ex_defs)
qed

lemma ex_dispatched_reachable: "store_step\<^sup>*\<^sup>* NewMemoryStore ex_dispatched"
  using ex_run by (meson rtranclp.rtrancl_refl rtranclp.rtrancl_into_rtrancl)

subsection \<open>Properties\<close>

text \<open>One logical action per tenant and idempotency key: in every reachable store, two stored
  actions of one tenant with the same idempotency key are the same record, so a key never has a
  second side effect.\<close>

theorem one_action_per_idempotency_key:
  assumes "store_step\<^sup>*\<^sup>* NewMemoryStore s"
    and "mm_actions s k = Some a" and "mm_actions s k' = Some b"
    and "ac_TenantRef a = ac_TenantRef b" and "ac_IdempotencyKey a = ac_IdempotencyKey b"
  shows "k = k' \<and> a = b"
proof -
  have inv: "store_inv s" using assms(1) store_steps_preserve store_inv_New by blast
  have "ac_ActionRef a = ac_ActionRef b"
    using inv assms(2-5) unfolding store_inv_def idem_index_def by (metis option.inject)
  then have "k = k'" using actions_keyedD[OF inv assms(2)] actions_keyedD[OF inv assms(3)] assms(4) by simp
  with assms(2,3) show ?thesis by simp
qed

theorem one_action_per_idempotency_key_witness:
  "''acme'' @ CHR 0x00 # ''act_1'' = ''acme'' @ CHR 0x00 # ''act_1'' \<and>
   ex_action\<lparr>ac_Status := StatusDispatched, ac_GrantRef := ''grant_1'', ac_UpdatedAt := 5\<rparr>
     = ex_action\<lparr>ac_Status := StatusDispatched, ac_GrantRef := ''grant_1'', ac_UpdatedAt := 5\<rparr>"
  by (rule one_action_per_idempotency_key[OF ex_dispatched_reachable]) (simp_all add: ex_dispatched_eq)

text \<open>C6: no side effect without its one-use grant: whenever a reachable store shows an action in a
  status a dispatch leads to, the grant of that very operation (reference, capability, parameter
  hash) was consumed, before it expired.\<close>

theorem side_effect_needs_consumed_grant:
  assumes "store_step\<^sup>*\<^sup>* NewMemoryStore s" and "mm_actions s k = Some a" and "after_dispatch (ac_Status a)"
  shows "\<exists>g. mm_grants s k = Some g \<and> gr_OneUse g \<and> gr_GrantRef g = ac_GrantRef a
     \<and> gr_Capability g = ac_Capability a \<and> gr_ParameterHash g = ac_ParameterHash a
     \<and> gr_ConsumedAt g \<noteq> 0 \<and> gr_ConsumedAt g < gr_ExpiresAt g"
proof -
  have "store_inv s" using assms(1) store_steps_preserve store_inv_New by blast
  then have "grant_state a (mm_grants s k)" using grant_stateD assms(2) by blast
  with assms(3) show ?thesis unfolding grant_state_def by blast
qed

theorem side_effect_needs_consumed_grant_witness:
  "\<exists>g. mm_grants ex_dispatched (''acme'' @ CHR 0x00 # ''act_1'') = Some g \<and> gr_OneUse g \<and> gr_GrantRef g = ''grant_1''
     \<and> gr_Capability g = ''crm.note'' \<and> gr_ParameterHash g = ''h'' \<and> gr_ConsumedAt g \<noteq> 0 \<and> gr_ConsumedAt g < gr_ExpiresAt g"
  using side_effect_needs_consumed_grant[OF ex_dispatched_reachable, of "''acme'' @ CHR 0x00 # ''act_1''"
      "ex_action\<lparr>ac_Status := StatusDispatched, ac_GrantRef := ''grant_1'', ac_UpdatedAt := 5\<rparr>"]
  by (simp add: ex_dispatched_eq after_dispatch_def ex_action_def zero_action_def)

text \<open>C15: at most one outbox row per action: a reachable store never holds two dispatch records of
  the same action, and each one it holds belongs to an action whose grant is consumed.\<close>

theorem one_outbox_row_per_action:
  assumes "store_step\<^sup>*\<^sup>* NewMemoryStore s"
    and "(k, d) \<in> set (mm_dispatches s)" and "(k', d') \<in> set (mm_dispatches s)"
    and "dp_TenantRef d = dp_TenantRef d'" and "dp_ActionRef d = dp_ActionRef d'"
  shows "k = k' \<and> d = d' \<and> (\<exists>g. mm_grants s (storeKey (dp_TenantRef d) (dp_ActionRef d)) = Some g \<and> gr_ConsumedAt g \<noteq> 0)"
proof -
  have inv: "store_inv s" using assms(1) store_steps_preserve store_inv_New by blast
  then have "k = k'" using assms(2-5) unfolding store_inv_def outbox_once_def by fastforce
  moreover have "distinct (map fst (mm_dispatches s))" using inv by (simp add: store_inv_def outbox_keyed_def)
  ultimately show ?thesis using inv assms(2,3) distinct_fst_inj
    unfolding store_inv_def outbox_granted_def by fastforce
qed

theorem one_outbox_row_per_action_witness:
  "''dsp_1'' = ''dsp_1'' \<and> ex_row = ex_row \<and>
   (\<exists>g. mm_grants ex_dispatched (storeKey ''acme'' ''act_1'') = Some g \<and> gr_ConsumedAt g \<noteq> 0)"
  using one_outbox_row_per_action[OF ex_dispatched_reachable, of "''acme'' @ CHR 0x00 # ''dsp_1''" ex_row
      "''acme'' @ CHR 0x00 # ''dsp_1''" ex_row]
  by (simp add: ex_dispatched_eq) (simp add: ex_row_def)

text \<open>The binding of an action is immutable and its status only follows the transition table:
  whatever operations run, a stored action keeps its tenant, reference, capability, parameter hash,
  business context, idempotency key and creation time, and its status moves along allowed edges.\<close>

theorem binding_immutable_status_monotone:
  assumes "store_step\<^sup>*\<^sup>* s s'" and "mm_actions s k = Some a"
  shows "\<exists>b. mm_actions s' k = Some b \<and> same_binding a b \<and> canTransition\<^sup>*\<^sup>* (ac_Status a) (ac_Status b)"
  using assms by (rule store_steps_advance)

theorem binding_immutable_status_monotone_witness:
  "\<exists>b. mm_actions ex_dispatched (''acme'' @ CHR 0x00 # ''act_1'') = Some b \<and> same_binding ex_action b
     \<and> canTransition\<^sup>*\<^sup>* StatusRequested (ac_Status b)"
proof -
  have "store_step\<^sup>*\<^sup>* ex_requested ex_dispatched" using ex_run(2,3) by simp
  from binding_immutable_status_monotone[OF this, of "''acme'' @ CHR 0x00 # ''act_1''" ex_action]
  show ?thesis by (simp add: ex_requested_eq) (simp add: ex_action_def zero_action_def)
qed

text \<open>C16: no second dispatch: once an action has left the statuses before its dispatch, every later
  dispatch of it is refused with a forbidden transition and changes nothing, whatever happened in
  between.\<close>

theorem no_second_dispatch:
  assumes "store_step\<^sup>*\<^sup>* s s'" and "mm_actions s (storeKey t ref) = Some a" and "\<not> before_dispatch (ac_Status a)"
  shows "mm_Dispatch t ref d at s' = (Inl (Sentinel ErrForbiddenTransition), s')"
proof -
  obtain b where b: "mm_actions s' (storeKey t ref) = Some b" "canTransition\<^sup>*\<^sup>* (ac_Status a) (ac_Status b)"
    using store_steps_advance[OF assms(1,2)] by blast
  then have "ac_Status b \<noteq> StatusGranted"
    using never_back_before_dispatch[OF b(2)] assms(3) by (auto simp: before_dispatch_def)
  with b(1) show ?thesis by (simp add: mm_Dispatch_def)
qed

theorem no_second_dispatch_witness:
  "mm_Dispatch ''acme'' ''act_1'' ex_row 7 ex_dispatched = (Inl (Sentinel ErrForbiddenTransition), ex_dispatched)"
  by (rule no_second_dispatch[of ex_dispatched, where a = "ex_action\<lparr>ac_Status := StatusDispatched,
        ac_GrantRef := ''grant_1'', ac_UpdatedAt := 5\<rparr>"])
    (simp_all add: ex_dispatched_eq storeKey_def before_dispatch_def)

text \<open>The result inbox: a connector result that was applied once is never applied again, for any
  action of the tenant, at any later time: redelivering it changes nothing.\<close>

theorem result_applied_once:
  assumes "mm_IngestResult res to at s = (Inr (a, True), s1)" and "store_step\<^sup>*\<^sup>* s1 s2"
    and "rs_TenantRef res' = rs_TenantRef res" and "rs_ResultID res' = rs_ResultID res"
  shows "mm_IngestResult res' to' at' s2
     = (Inr (action_at s2 (storeKey (rs_TenantRef res) (rs_ActionRef res')), False), s2)"
proof -
  have "mm_inbox s1 (storeKey (rs_TenantRef res) (rs_ResultID res))"
    using assms(1) by (cases rule: mm_IngestResult_cases) auto
  from store_steps_inbox[OF assms(2) this] show ?thesis by (simp add: mm_IngestResult_def assms(3,4))
qed

definition ex_receipt :: ActionReceipt where
  "ex_receipt = \<lparr>rc_ReceiptRef = ''rcp_1'', rc_ActionRef = ''act_1'', rc_Status = StatusSucceeded,
     rc_Capability = ''crm.note'', rc_ParameterHash = ''h'', rc_ReceiptSchema = [], rc_Result = [], rc_ResultHash = [],
     rc_IssuedAt = 6, rc_Signature = None\<rparr>"

definition ex_result :: Result where
  "ex_result = \<lparr>rs_TenantRef = ''acme'', rs_ResultID = ''r'', rs_ActionRef = ''act_1'', rs_Receipt = ex_receipt\<rparr>"

definition ex_completed :: MemoryStore where
  "ex_completed = snd (mm_IngestResult ex_result StatusSucceeded 6 ex_dispatched)"

theorem result_applied_once_witness:
  "mm_IngestResult ex_result StatusFailed 8 ex_completed
     = (Inr (action_at ex_completed (storeKey ''acme'' ''act_1''), False), ex_completed)"
proof -
  have "mm_IngestResult ex_result StatusSucceeded 6 ex_dispatched
      = (Inr (action_at ex_completed (storeKey ''acme'' ''act_1''), True), ex_completed)"
    by (simp add: ex_completed_def mm_IngestResult_def ex_dispatched_eq action_at_def ex_result_def ex_receipt_def ex_defs
        ex_dispatched_def ex_granted_def ex_requested_def mm_Dispatch_def mm_Grant_def mm_PutRequested_def
        step_grant_of_def ConsumeActionGrant_def fail_if_def)
  from result_applied_once[OF this rtranclp.rtrancl_refl refl refl, of StatusFailed 8]
  show ?thesis by (simp add: ex_result_def)
qed

end
