(* ===== verification/ActionContract.thy ===== *)
theory ActionContract
  imports ActionStoreLaws
begin

text \<open>
  The contract between the action service and its store, as a locale over the
  interface's operations and an abstract view: \<open>look s t r\<close> is the action of
  tenant \<open>t\<close> with reference \<open>r\<close>, \<open>look_idem s t i\<close> the action an idempotency key
  is bound to, \<open>wf\<close> says that the store files actions under their own reference. A store that may also fail for its own reasons (an outage)
  meets \<open>action_store\<close>; \<open>reliable_action_store\<close> adds that the look-ups answer.
  The in-memory store is an interpretation of both.
\<close>

definition view_update ::
  "('st \<Rightarrow> string \<Rightarrow> string \<Rightarrow> Action option) \<Rightarrow> 'st \<Rightarrow> 'st \<Rightarrow> string \<Rightarrow> string \<Rightarrow> Action \<Rightarrow> bool" where
  "view_update look s s' t r b \<longleftrightarrow> (\<forall>t' r'. look s' t' r' = (if t' = t \<and> r' = r then Some b else look s t' r'))"

lemma view_update_same: "view_update look s s' t r b \<Longrightarrow> look s' t r = Some b"
  by (simp add: view_update_def)

lemma view_update_other: "view_update look s s' t r b \<Longrightarrow> t' \<noteq> t \<or> r' \<noteq> r \<Longrightarrow> look s' t' r' = look s t' r'"
  by (auto simp: view_update_def)

locale action_store =
  fixes ops :: "'st ActionStoreOps"
    and look :: "'st \<Rightarrow> string \<Rightarrow> string \<Rightarrow> Action option"
    and look_idem :: "'st \<Rightarrow> string \<Rightarrow> string \<Rightarrow> Action option"
    and wf :: "'st \<Rightarrow> bool"
  assumes keyed: "wf s \<Longrightarrow> look s t r = Some a \<Longrightarrow> ac_TenantRef a = t \<and> ac_ActionRef a = r"
    and get_action: "nul_free t \<Longrightarrow> op_GetAction ops t r s = (ga, s') \<Longrightarrow>
      s' = s \<and> (\<forall>a. ga = Inr a \<longrightarrow> look s t r = Some a)"
    and get_idem: "nul_free t \<Longrightarrow> op_GetByIdempotencyKey ops t i s = (ga, s') \<Longrightarrow>
      s' = s \<and> (\<forall>a. ga = Inr a \<longrightarrow> look_idem s t i = Some a)
      \<and> (\<forall>e. ga = Inl e \<and> errors_is e ErrNotFound \<longrightarrow> look_idem s t i = None)"
    and put_created: "nul_free (ac_TenantRef a) \<Longrightarrow> op_PutRequested ops a s = (Inr (b, True), s') \<Longrightarrow>
      b = a \<and> look_idem s (ac_TenantRef a) (ac_IdempotencyKey a) = None
      \<and> view_update look s s' (ac_TenantRef a) (ac_ActionRef a) a
      \<and> look_idem s' (ac_TenantRef a) (ac_IdempotencyKey a) = Some a"
    and put_existing: "nul_free (ac_TenantRef a) \<Longrightarrow> op_PutRequested ops a s = (Inr (b, False), s') \<Longrightarrow>
      s' = s \<and> look_idem s (ac_TenantRef a) (ac_IdempotencyKey a) = Some b \<and> ac_Capability b = ac_Capability a
      \<and> ac_ParameterHash b = ac_ParameterHash a \<and> ac_BusinessContextRef b = ac_BusinessContextRef a"
    and put_fail: "nul_free (ac_TenantRef a) \<Longrightarrow> op_PutRequested ops a s = (Inl e, s') \<Longrightarrow> look s' = look s"
    and grant_ok: "nul_free (ac_TenantRef a) \<Longrightarrow> op_Grant ops a g s = (Inr b, s') \<Longrightarrow>
      (\<exists>c. look s (ac_TenantRef a) (ac_ActionRef a) = Some c \<and> canTransition (ac_Status c) StatusGranted \<and> same_binding c b)
      \<and> ac_Status b = StatusGranted \<and> ac_GrantRef b = gr_GrantRef g
      \<and> ac_ApprovalEvidenceRef b = ac_ApprovalEvidenceRef a
      \<and> view_update look s s' (ac_TenantRef a) (ac_ActionRef a) b"
    and grant_fail: "nul_free (ac_TenantRef a) \<Longrightarrow> op_Grant ops a g s = (Inl e, s') \<Longrightarrow> look s' = look s"
    and dispatch_ok: "nul_free t \<Longrightarrow> op_Dispatch ops t r d at s = (Inr b, s') \<Longrightarrow>
      (\<exists>c. look s t r = Some c \<and> ac_Status c = StatusGranted \<and> same_binding c b \<and> ac_GrantRef b = ac_GrantRef c)
      \<and> ac_Status b = StatusDispatched \<and> view_update look s s' t r b"
    and dispatch_fail: "nul_free t \<Longrightarrow> op_Dispatch ops t r d at s = (Inl e, s') \<Longrightarrow> look s' = look s"
    and transition_ok: "nul_free t \<Longrightarrow> op_Transition ops t r fr to reason at s = (Inr b, s') \<Longrightarrow>
      (\<exists>c. look s t r = Some c \<and> ac_Status c = fr \<and> same_binding c b) \<and> canTransition fr to
      \<and> ac_Status b = to \<and> view_update look s s' t r b"
    and transition_fail: "nul_free t \<Longrightarrow> op_Transition ops t r fr to reason at s = (Inl e, s') \<Longrightarrow> look s' = look s"
    and ingest_applied: "nul_free (rs_TenantRef res) \<Longrightarrow> op_IngestResult ops res to at s = (Inr (b, True), s') \<Longrightarrow>
      (\<exists>c. look s (rs_TenantRef res) (rs_ActionRef res) = Some c \<and> canTransition (ac_Status c) to \<and> same_binding c b)
      \<and> ac_Status b = to \<and> ac_ReceiptRef b = rc_ReceiptRef (rs_Receipt res)
      \<and> view_update look s s' (rs_TenantRef res) (rs_ActionRef res) b"
    and ingest_other: "nul_free (rs_TenantRef res) \<Longrightarrow> op_IngestResult ops res to at s = (ri, s') \<Longrightarrow>
      (\<forall>b. ri \<noteq> Inr (b, True)) \<Longrightarrow> look s' = look s"
    and applied_pure: "nul_free t \<Longrightarrow> op_ResultApplied ops t i s = (r', s') \<Longrightarrow> s' = s"
    and receipt_pure: "nul_free t \<Longrightarrow> op_GetReceipt ops t i s = (r'', s') \<Longrightarrow> s' = s"
    and claim_view: "op_ClaimDispatch ops t i at dlv (s, env) = (rc, s', env') \<Longrightarrow> look s' = look s"
    and claim_pending_view: "op_ClaimPendingDispatches ops t n at dlv (s, env) = (rn, s', env') \<Longrightarrow> look s' = look s"
    and claim_env: "(\<And>d e. P e \<Longrightarrow> P (snd (dlv d e))) \<Longrightarrow> P env \<Longrightarrow>
      op_ClaimDispatch ops t i at dlv (s, env) = (rc, s', env') \<Longrightarrow> P env'"
    and claim_pending_env: "(\<And>d e. P e \<Longrightarrow> P (snd (dlv d e))) \<Longrightarrow> P env \<Longrightarrow>
      op_ClaimPendingDispatches ops t n at dlv (s, env) = (rn, s', env') \<Longrightarrow> P env'"

locale reliable_action_store = action_store +
  assumes get_answers: "nul_free t \<Longrightarrow> fst (op_GetAction ops t r s) =
      (case look s t r of None \<Rightarrow> Inl (Sentinel ErrNotFound) | Some a \<Rightarrow> Inr a)"
    and idem_answers: "nul_free t \<Longrightarrow> fst (op_GetByIdempotencyKey ops t i s) =
      (case look_idem s t i of None \<Rightarrow> Inl (Sentinel ErrNotFound) | Some a \<Rightarrow> Inr a)"

subsection \<open>The in-memory store meets the contract\<close>

definition mm_look :: "MemoryStore \<Rightarrow> string \<Rightarrow> string \<Rightarrow> Action option" where
  "mm_look s t r = (if nul_free t then mm_actions s (storeKey t r) else None)"

definition mm_look_idem :: "MemoryStore \<Rightarrow> string \<Rightarrow> string \<Rightarrow> Action option" where
  "mm_look_idem s t i = map_option (\<lambda>ref. action_at s (storeKey t ref)) (mm_byIdem s (storeKey t i))"

lemma mm_view_update:
  assumes "nul_free t" and "mm_actions s' = (mm_actions s)(storeKey t r \<mapsto> b)"
  shows "view_update mm_look s s' t r b"
  using assms by (auto simp: view_update_def mm_look_def)

lemma mm_look_cong: "mm_actions s' = mm_actions s \<Longrightarrow> mm_look s' = mm_look s"
  by (simp add: mm_look_def fun_eq_iff)

lemma claim_loop_actions:
  "claim_loop n t at dlv visited m (s, env) = (m', s', env') \<Longrightarrow> mm_actions s' = mm_actions s"
proof (induction n arbitrary: visited m s env)
  case (Suc n)
  obtain od s1 where acq: "acquireNextDispatch t at visited s = (od, s1)" by fastforce
  then have s1: "mm_actions s1 = mm_actions s" by (rule acquireNextDispatch_actions)
  show ?case
  proof (cases od)
    case None
    with Suc.prems acq s1 show ?thesis by simp
  next
    case (Some d)
    obtain out env1 where "dlv d env = (out, env1)" by fastforce
    with Suc.prems acq Some have "claim_loop n t at dlv (dp_DispatchRef d # visited) (m + 1)
        (releaseDispatch t (dp_DispatchRef d) (applyDispatchOutcome t (dp_DispatchRef d) out at s1), env1) = (m', s', env')"
      by simp
    from Suc.IH[OF this] s1 show ?thesis by simp
  qed
qed simp

lemma mm_Transition_Inr:
  "mm_Transition t r fr to reason at s = (Inr b, s') \<Longrightarrow>
     (\<exists>c. mm_actions s (storeKey t r) = Some c \<and> ac_Status c = fr \<and> same_binding c b) \<and> canTransition fr to
     \<and> ac_Status b = to \<and> mm_actions s' = (mm_actions s)(storeKey t r \<mapsto> b)"
  by (auto simp: mm_Transition_def Let_def same_binding_def split: option.splits if_splits)

lemma mm_Dispatch_Inr:
  "mm_Dispatch t r d at s = (Inr b, s') \<Longrightarrow>
     (\<exists>c. mm_actions s (storeKey t r) = Some c \<and> ac_Status c = StatusGranted \<and> same_binding c b
          \<and> ac_GrantRef b = ac_GrantRef c)
     \<and> ac_Status b = StatusDispatched \<and> mm_actions s' = (mm_actions s)(storeKey t r \<mapsto> b)"
  by (erule mm_Dispatch_cases) (auto simp: same_binding_def)

lemma mm_Grant_Inr:
  "mm_Grant a g s = (Inr b, s') \<Longrightarrow>
     (\<exists>c. mm_actions s (storeKey (ac_TenantRef a) (ac_ActionRef a)) = Some c
          \<and> canTransition (ac_Status c) StatusGranted \<and> same_binding c b)
     \<and> ac_Status b = StatusGranted \<and> ac_GrantRef b = gr_GrantRef g \<and> ac_ApprovalEvidenceRef b = ac_ApprovalEvidenceRef a
     \<and> mm_actions s' = (mm_actions s)(storeKey (ac_TenantRef a) (ac_ActionRef a) \<mapsto> b)"
  by (auto simp: mm_Grant_def Let_def same_binding_def split: option.splits if_splits)

lemma mm_Ingest_Inr:
  "mm_IngestResult res to at s = (Inr (b, True), s') \<Longrightarrow>
     (\<exists>c. mm_actions s (storeKey (rs_TenantRef res) (rs_ActionRef res)) = Some c
          \<and> canTransition (ac_Status c) to \<and> same_binding c b)
     \<and> ac_Status b = to \<and> ac_ReceiptRef b = rc_ReceiptRef (rs_Receipt res)
     \<and> mm_actions s' = (mm_actions s)(storeKey (rs_TenantRef res) (rs_ActionRef res) \<mapsto> b)"
  by (auto simp: mm_IngestResult_def Let_def same_binding_def split: option.splits if_splits)

lemma mm_error_unchanged:
  "mm_PutRequested a s = (Inl e, s') \<Longrightarrow> s' = s" "mm_Grant a g s = (Inl e, s') \<Longrightarrow> s' = s"
  "mm_Dispatch t r d at s = (Inl e, s') \<Longrightarrow> s' = s" "mm_Transition t r fr to reason at s = (Inl e, s') \<Longrightarrow> s' = s"
  by (auto simp: mm_PutRequested_def mm_Grant_def mm_Dispatch_def mm_Transition_def Let_def
      split: option.splits if_splits)

lemma mm_Ingest_unchanged:
  "mm_IngestResult res to at s = (r, s') \<Longrightarrow> \<forall>b. r \<noteq> Inr (b, True) \<Longrightarrow> s' = s"
  by (auto simp: mm_IngestResult_def Let_def split: option.splits if_splits)

lemma mm_Put_created:
  assumes "mm_PutRequested a s = (Inr (b, True), s')"
  shows "b = a \<and> mm_byIdem s (storeKey (ac_TenantRef a) (ac_IdempotencyKey a)) = None
    \<and> mm_actions s' = (mm_actions s)(storeKey (ac_TenantRef a) (ac_ActionRef a) \<mapsto> a)
    \<and> mm_byIdem s' = (mm_byIdem s)(storeKey (ac_TenantRef a) (ac_IdempotencyKey a) \<mapsto> ac_ActionRef a)"
  using assms by (auto simp: mm_PutRequested_def Let_def split: option.splits if_splits)

lemma mm_Put_existing:
  assumes "mm_PutRequested a s = (Inr (b, False), s')"
  shows "s' = s \<and> mm_look_idem s (ac_TenantRef a) (ac_IdempotencyKey a) = Some b \<and> ac_Capability b = ac_Capability a
    \<and> ac_ParameterHash b = ac_ParameterHash a \<and> ac_BusinessContextRef b = ac_BusinessContextRef a"
  using assms by (auto simp: mm_PutRequested_def mm_look_idem_def Let_def split: option.splits if_splits)

lemma mm_claim_view:
  "mm_ClaimDispatch t i at dlv (s, env) = (r, s', env') \<Longrightarrow> mm_look s' = mm_look s"
  by (rule mm_look_cong)
    (auto simp: mm_ClaimDispatch_def dest!: acquireDispatch_actions split: prod.splits option.splits)

lemma mm_claim_pending_view:
  "mm_ClaimPendingDispatches t n at dlv (s, env) = (r, s', env') \<Longrightarrow> mm_look s' = mm_look s"
  by (rule mm_look_cong)
    (auto simp: mm_ClaimPendingDispatches_def Let_def dest!: claim_loop_actions split: prod.splits)

lemma mm_claim_env:
  assumes "\<And>d e. P e \<Longrightarrow> P (snd (dlv d e))" and "P env"
    and "mm_ClaimDispatch t i at dlv (s, env) = (r, s', env')"
  shows "P env'"
proof -
  obtain od s1 where acq: "acquireDispatch t i at False s = (od, s1)" by fastforce
  show ?thesis
  proof (cases od)
    case None
    with acq assms(2,3) show ?thesis by (simp add: mm_ClaimDispatch_def)
  next
    case (Some d)
    with acq assms(3) have "env' = snd (dlv d env)" by (auto simp: mm_ClaimDispatch_def split: prod.splits)
    with assms(1,2) show ?thesis by simp
  qed
qed

lemma claim_loop_env:
  assumes "\<And>d e. P e \<Longrightarrow> P (snd (dlv d e))"
  shows "P env \<Longrightarrow> claim_loop n t at dlv visited m (s, env) = (m', s', env') \<Longrightarrow> P env'"
proof (induction n arbitrary: visited m s env)
  case (Suc n)
  obtain od s1 where acq: "acquireNextDispatch t at visited s = (od, s1)" by fastforce
  show ?case
  proof (cases od)
    case None
    with Suc.prems acq show ?thesis by simp
  next
    case (Some d)
    obtain out env1 where dlv: "dlv d env = (out, env1)" by fastforce
    then have "P env1" using assms[OF Suc.prems(1), of d] by simp
    moreover from Suc.prems(2) acq Some dlv have "claim_loop n t at dlv (dp_DispatchRef d # visited) (m + 1)
        (releaseDispatch t (dp_DispatchRef d) (applyDispatchOutcome t (dp_DispatchRef d) out at s1), env1) = (m', s', env')"
      by simp
    ultimately show ?thesis by (rule Suc.IH)
  qed
qed simp

lemma mm_claim_pending_env:
  assumes "\<And>d e. P e \<Longrightarrow> P (snd (dlv d e))" and "P env"
    and "mm_ClaimPendingDispatches t n at dlv (s, env) = (r, s', env')"
  shows "P env'"
  using assms(3) claim_loop_env[OF assms(1,2)] by (auto simp: mm_ClaimPendingDispatches_def Let_def split: prod.splits)

lemma memory_store_ops:
  "op_PutRequested memory_store = mm_PutRequested" "op_GetByIdempotencyKey memory_store = mm_GetByIdempotencyKey"
  "op_GetAction memory_store = mm_GetAction" "op_Grant memory_store = mm_Grant"
  "op_Dispatch memory_store = mm_Dispatch" "op_Transition memory_store = mm_Transition"
  "op_IngestResult memory_store = mm_IngestResult" "op_GetReceipt memory_store = mm_GetReceipt"
  "op_ResultApplied memory_store = mm_ResultApplied" "op_ClaimDispatch memory_store = mm_ClaimDispatch"
  "op_ClaimPendingDispatches memory_store = mm_ClaimPendingDispatches"
  by (simp_all add: memory_store_def)

interpretation mem: reliable_action_store memory_store mm_look mm_look_idem actions_keyed
proof (unfold_locales, unfold memory_store_ops, goal_cases)
  case (1 s t r a)
  then have "nul_free t" "mm_actions s (storeKey t r) = Some a" by (auto simp: mm_look_def split: if_splits)
  moreover from this 1(1) have "nul_free (ac_TenantRef a)" "storeKey t r = storeKey (ac_TenantRef a) (ac_ActionRef a)"
    unfolding actions_keyed_def by blast+
  ultimately show ?case by simp
next
  case 2 then show ?case by (auto simp: mm_GetAction_def mm_look_def split: option.splits)
next
  case 3 then show ?case by (auto simp: mm_GetByIdempotencyKey_def mm_look_idem_def split: option.splits)
next
  case (4 a s b s')
  from mm_Put_created[OF 4(2)] 4(1) show ?case by (auto simp: mm_look_idem_def action_at_def intro: mm_view_update)
next
  case 5 then show ?case by (blast dest: mm_Put_existing)
next
  case 6 then show ?case by (blast dest: mm_error_unchanged)
next
  case (7 a g s b s')
  from mm_Grant_Inr[OF 7(2)] 7(1) show ?case by (auto simp: mm_look_def intro: mm_view_update)
next
  case 8 then show ?case by (blast dest: mm_error_unchanged)
next
  case (9 t r d at s b s')
  from mm_Dispatch_Inr[OF 9(2)] 9(1) show ?case by (auto simp: mm_look_def intro: mm_view_update)
next
  case 10 then show ?case by (blast dest: mm_error_unchanged)
next
  case (11 t r fr to reason at s b s')
  from mm_Transition_Inr[OF 11(2)] 11(1) show ?case by (auto simp: mm_look_def intro: mm_view_update)
next
  case 12 then show ?case by (blast dest: mm_error_unchanged)
next
  case (13 res to at s b s')
  from mm_Ingest_Inr[OF 13(2)] 13(1) show ?case by (auto simp: mm_look_def intro: mm_view_update)
next
  case 14 then show ?case by (blast dest: mm_Ingest_unchanged)
next
  case 15 then show ?case by (simp add: mm_ResultApplied_def)
next
  case 16 then show ?case by (auto simp: mm_GetReceipt_def split: option.splits)
next
  case 17 then show ?case by (rule mm_claim_view)
next
  case 18 then show ?case by (rule mm_claim_pending_view)
next
  case 19 then show ?case by (rule mm_claim_env)
next
  case 20 then show ?case by (rule mm_claim_pending_env)
next
  case 21 then show ?case by (simp add: mm_GetAction_def mm_look_def split: option.splits)
next
  case 22 then show ?case by (simp add: mm_GetByIdempotencyKey_def mm_look_idem_def split: option.splits)
qed

end
