(* ===== verification/ActionServiceLaws.thy ===== *)
theory ActionServiceLaws
  imports ActionService ActionContract
begin

text \<open>
  What the action service promises of any store that meets the contract of
  \<open>ActionContract\<close>: the handlers run symbolically by their weakest
  preconditions, once for every store, and the results are read off for the
  in-memory store.
\<close>

subsection \<open>Primitives\<close>

lemma wp_now [wp_simps]:
  "wp (now sv) Q E w \<longleftrightarrow> Q (sv_now sv (en_ticks (wd_env w))) (w\<lparr>wd_env := (wd_env w)\<lparr>en_ticks := Suc (en_ticks (wd_env w))\<rparr>\<rparr>)"
  by (simp add: wp_def now_def env_now_def)

lemma wp_newID [wp_simps]:
  "wp (newID sv p) Q E w \<longleftrightarrow>
     Q (sv_newID sv (en_ids (wd_env w)) p) (w\<lparr>wd_env := (wd_env w)\<lparr>en_ids := Suc (en_ids (wd_env w))\<rparr>\<rparr>)"
  by (simp add: wp_def newID_def)

lemma wp_guard [wp_simps]:
  "wp (guard d) Q E w \<longleftrightarrow> (\<not> d \<longrightarrow> Q () w) \<and> (d \<longrightarrow> E (Joined [Sentinel ErrUnavailable, Message ''context'']) w)"
  by (simp add: guard_def wp_require)

lemma wp_invalid [wp_simps]:
  "wp (invalid r) Q E w \<longleftrightarrow>
     (r = None \<longrightarrow> Q () w) \<and> (\<forall>e. r = Some e \<longrightarrow> E (Joined [Sentinel ErrInvalidInput, Invalid e]) w)"
  by (cases r) (simp_all add: invalid_def wp_def)

lemma wp_lift_result [wp_simps]:
  "wp (lift_result r) Q E w \<longleftrightarrow> (\<forall>a. r = Inr a \<longrightarrow> Q a w) \<and> (\<forall>e. r = Inl e \<longrightarrow> E e w)"
  by (cases r) (simp_all add: lift_result_def wp_def)

lemma wp_on_action_store [wp_simps]:
  "wp (on_action_store m) Q E w \<longleftrightarrow>
     wp m (\<lambda>a s. Q a (w\<lparr>wd_store := s\<rparr>)) (\<lambda>e s. E e (w\<lparr>wd_store := s\<rparr>)) (wd_store w)"
  by (auto simp: wp_def on_action_store_def split: prod.splits sum.splits)

lemma wp_on_evidence [wp_simps]:
  "wp (on_evidence m) Q E w \<longleftrightarrow>
     wp m (\<lambda>a s. Q a (w\<lparr>wd_evidence := s\<rparr>)) (\<lambda>e s. E e (w\<lparr>wd_evidence := s\<rparr>)) (wd_evidence w)"
  by (auto simp: wp_def on_evidence_def split: prod.splits sum.splits)

definition audit_called :: "('st, 'ev) World \<Rightarrow> ('st, 'ev) World" where
  "audit_called w = w\<lparr>wd_env := (wd_env w)\<lparr>en_auditCalls := Suc (en_auditCalls (wd_env w))\<rparr>\<rparr>"

definition audit_accepted :: "AuditEvent \<Rightarrow> ('st, 'ev) World \<Rightarrow> ('st, 'ev) World" where
  "audit_accepted ev w = (audit_called w)\<lparr>wd_env := (wd_env (audit_called w))\<lparr>en_audit := en_audit (wd_env w) @ [ev]\<rparr>\<rparr>"

lemma audit_world [simp]:
  "wd_store (audit_called w) = wd_store w" "wd_store (audit_accepted ev w) = wd_store w"
  "wd_evidence (audit_called w) = wd_evidence w" "wd_evidence (audit_accepted ev w) = wd_evidence w"
  "en_audit (wd_env (audit_called w)) = en_audit (wd_env w)"
  "en_audit (wd_env (audit_accepted ev w)) = en_audit (wd_env w) @ [ev]"
  "en_ids (wd_env (audit_called w)) = en_ids (wd_env w)" "en_ids (wd_env (audit_accepted ev w)) = en_ids (wd_env w)"
  "en_ticks (wd_env (audit_called w)) = en_ticks (wd_env w)" "en_ticks (wd_env (audit_accepted ev w)) = en_ticks (wd_env w)"
  "en_published (wd_env (audit_called w)) = en_published (wd_env w)"
  "en_published (wd_env (audit_accepted ev w)) = en_published (wd_env w)"
  by (simp_all add: audit_called_def audit_accepted_def)

text \<open>An event the audit sink takes: some append of it answers a reference.\<close>

definition accepted_by :: "('st, 'ev) Service \<Rightarrow> AuditEvent \<Rightarrow> bool" where
  "accepted_by sv e \<longleftrightarrow> (\<exists>n ref. sv_audit sv n e = Inr ref \<and> ref \<noteq> [])"

lemma wp_appendAudit:
  "wp (appendAudit sv ev) Q E w \<longleftrightarrow>
     (case sv_audit sv (en_auditCalls (wd_env w)) ev of
        Inl e \<Rightarrow> E (Joined [Sentinel ErrUnavailable, Message ''action audit append failed'', e]) (audit_called w)
      | Inr ref \<Rightarrow> if ref = [] then E (Joined [Sentinel ErrUnavailable, Message ''action audit append failed'']) (audit_accepted ev w)
                  else Q ref (audit_accepted ev w))"
  by (simp add: wp_def appendAudit_def Let_def audit_called_def audit_accepted_def split: sum.splits)

lemma wp_appendAuditI:
  assumes "\<And>ref. accepted_by sv ev \<Longrightarrow> Q ref (audit_accepted ev w)"
    and "\<And>e. E e (audit_called w)" and "\<And>e. E e (audit_accepted ev w)"
  shows "wp (appendAudit sv ev) Q E w"
  using assms by (auto simp: wp_appendAudit accepted_by_def split: sum.splits)

subsection \<open>Audited changes\<close>

text \<open>What stands behind the approval reference of a grant.\<close>

definition evidence_backed ::
  "('st, 'ev) Service \<Rightarrow> PrincipalContext \<Rightarrow> Action \<Rightarrow> time \<Rightarrow> 'ev \<Rightarrow> 'ev \<Rightarrow> string \<Rightarrow> bool" where
  "evidence_backed sv prin action t evs evs' ref \<longleftrightarrow>
     (if ac_Status action \<noteq> StatusAwaitingApproval then ref = []
      else (\<exists>consume ev. sv_evidence sv = Some consume
        \<and> consume (pc_TenantRef prin) (ac_ApprovalPlanRef action) t evs = (Inr ev, evs')
        \<and> ce_Capability ev = ac_Capability action \<and> ce_ParameterHash ev = ac_ParameterHash action
        \<and> ce_Decision ev = ApprovalApproved \<and> ref = ce_ApprovalRef ev))"

text \<open>
  What entitles an action to a new status: an edge of the table under the same
  binding; for \<open>granted\<close> the trust gate and, after an approval request, consumed
  evidence that approves the exact operation; for \<open>succeeded\<close> a receipt that
  verifies for this action.
\<close>

definition entitled ::
  "('st, 'ev) Service \<Rightarrow> PrincipalContext \<Rightarrow> 'ev \<Rightarrow> 'ev \<Rightarrow> Action \<Rightarrow> Action \<Rightarrow> bool" where
  "entitled sv prin evs evs' a b \<longleftrightarrow> same_binding a b \<and> canTransition (ac_Status a) (ac_Status b)
     \<and> (ac_Status b = StatusGranted \<longrightarrow>
          verifyDecisionProvider sv prin (ac_Capability a) (ac_ParameterHash a) = None
          \<and> (\<exists>n. evidence_backed sv prin a (sv_now sv n) evs evs' (ac_ApprovalEvidenceRef b)))
     \<and> (ac_Status b = StatusSucceeded \<longrightarrow>
          (\<exists>rc. verifyReceipt sv (pc_TenantRef prin) a rc = Inr StatusSucceeded \<and> ac_ReceiptRef b = rc_ReceiptRef rc))"

text \<open>
  A world is an audited successor of another when the audit trail only grew,
  and every action whose record changed is named by an event of the new part
  that the audit sink accepted, as a new request or as a change of status the
  action was entitled to, with the status it left and the one it entered.
\<close>

definition explains ::
  "('st, 'ev) Service \<Rightarrow> PrincipalContext \<Rightarrow> 'ev \<Rightarrow> 'ev \<Rightarrow> AuditEvent \<Rightarrow> string \<Rightarrow> string \<Rightarrow> Action option \<Rightarrow> Action \<Rightarrow> bool" where
  "explains sv prin evs evs' e t r old new \<longleftrightarrow> accepted_by sv e \<and> au_TenantRef e = t \<and> au_ActionRef e = r
     \<and> au_StatusTo e = ac_Status new
     \<and> (au_Action e = ''action.requested'' \<and> ac_Status new \<in> {StatusRequested, StatusAwaitingApproval}
          \<and> (ac_ApprovalPlanRef new \<noteq> [] \<longrightarrow> ac_Status new = StatusAwaitingApproval)
        \<or> (\<exists>a. old = Some a \<and> au_StatusFrom e = ac_Status a \<and> entitled sv prin evs evs' a new))"

definition audited ::
  "('st, 'ev) Service \<Rightarrow> PrincipalContext \<Rightarrow> ('st \<Rightarrow> string \<Rightarrow> string \<Rightarrow> Action option)
     \<Rightarrow> ('st, 'ev) World \<Rightarrow> ('st, 'ev) World \<Rightarrow> bool" where
  "audited sv prin look w w' \<longleftrightarrow> (\<exists>evs. en_audit (wd_env w') = en_audit (wd_env w) @ evs
     \<and> (\<forall>t r. look (wd_store w') t r \<noteq> look (wd_store w) t r \<longrightarrow>
          (\<exists>new. look (wd_store w') t r = Some new
             \<and> (\<exists>e \<in> set evs. explains sv prin (wd_evidence w) (wd_evidence w') e t r (look (wd_store w) t r) new))))"

lemma audited_none:
  "look (wd_store w') = look (wd_store w) \<Longrightarrow> en_audit (wd_env w') = en_audit (wd_env w) \<Longrightarrow> audited sv prin look w w'"
  by (auto simp: audited_def)

lemma audited_idle:
  "look (wd_store w') = look (wd_store w) \<Longrightarrow> en_audit (wd_env w') = en_audit (wd_env w) @ [e] \<Longrightarrow> audited sv prin look w w'"
  by (auto simp: audited_def)

lemma audited_one:
  assumes "view_update look (wd_store w) (wd_store w') t r b"
    and "en_audit (wd_env w') = en_audit (wd_env w) @ [e]" and "explains sv prin (wd_evidence w) (wd_evidence w') e t r (look (wd_store w) t r) b"
  shows "audited sv prin look w w'"
  using assms by (auto simp: audited_def view_update_def split: if_splits)

lemma audited_one_then:
  assumes "view_update look (wd_store w) s' t r b" and "look (wd_store w') = look s'"
    and "en_audit (wd_env w') = en_audit (wd_env w) @ [e]" and "explains sv prin (wd_evidence w) (wd_evidence w') e t r (look (wd_store w) t r) b"
  shows "audited sv prin look w w'"
  using assms by (auto simp: audited_def view_update_def split: if_splits)

lemma audited_first:
  assumes "view_update look (wd_store w) s1 t r b" and "look (wd_store w') = look s1"
    and "en_audit (wd_env w') = en_audit (wd_env w) @ [e, e']" and "explains sv prin (wd_evidence w) (wd_evidence w') e t r (look (wd_store w) t r) b"
  shows "audited sv prin look w w'"
  using assms by (auto simp: audited_def view_update_def split: if_splits)

lemma audited_two:
  assumes "view_update look (wd_store w) s1 t r1 b1" and "view_update look s1 (wd_store w') t r2 b2"
    and "en_audit (wd_env w') = en_audit (wd_env w) @ [e1, e2]"
    and "explains sv prin (wd_evidence w) (wd_evidence w') e1 t r1 (look (wd_store w) t r1) b1" and "explains sv prin (wd_evidence w) (wd_evidence w') e2 t r2 (look (wd_store w) t r2) b2"
  shows "audited sv prin look w w'"
  using assms by (auto simp: audited_def view_update_def split: if_splits)

lemma audit_event_simps [simp]:
  "au_TenantRef (audit_event prin bnd aud r fr to ds) = pc_TenantRef prin"
  "au_ActionRef (audit_event prin bnd aud r fr to ds) = r"
  "au_StatusFrom (audit_event prin bnd aud r fr to ds) = fr"
  "au_StatusTo (audit_event prin bnd aud r fr to ds) = to"
  "au_Action (audit_event prin bnd aud r fr to ds) = aud"
  by (simp_all add: audit_event_def)

lemma zero_action_plan [simp]: "ac_ApprovalPlanRef zero_action = []"
  by (simp add: zero_action_def)

lemma wp_consume_evidence:
  assumes "\<And>ref evs. evidence_backed sv prin action t (wd_evidence w) evs ref \<Longrightarrow> Q ref (w\<lparr>wd_evidence := evs\<rparr>)"
    and "\<And>e evs. E e (w\<lparr>wd_evidence := evs\<rparr>)"
  shows "wp (consume_evidence sv prin action t) Q E w"
proof (cases "ac_Status action \<noteq> StatusAwaitingApproval")
  case True
  with assms(1)[of "wd_evidence w" "[]"] show ?thesis by (simp add: consume_evidence_def evidence_backed_def wp_simps)
next
  case False
  show ?thesis
  proof (cases "sv_evidence sv")
    case None
    with False assms(2)[of _ "wd_evidence w"] show ?thesis by (simp add: consume_evidence_def wp_simps)
  next
    case (Some consume)
    obtain r evs where step: "consume (pc_TenantRef prin) (ac_ApprovalPlanRef action) t (wd_evidence w) = (r, evs)"
      by fastforce
    with Some False assms show ?thesis
      by (cases r) (auto simp: consume_evidence_def evidence_backed_def wp_simps, auto simp: wp_def wp_if)
  qed
qed

lemma wp_then_pure:
  fixes m :: "('s, 'w, 'a) effect"
  assumes "wp m (\<lambda>_. P) (\<lambda>_. P) w"
  shows "wp (\<lambda>w1. case m w1 of (Inl e, w') \<Rightarrow> (Inl e, w') | (Inr a, w') \<Rightarrow> (Inr (f w1 a w'), w')) (\<lambda>_. P) (\<lambda>_. P) w"
  using assms by (auto simp: wp_def split: prod.splits sum.splits)

lemma wp_on_claim:
  assumes "\<And>r s' env'. m (wd_store w, wd_env w) = (r, s', env') \<Longrightarrow>
      (case r of Inl e \<Rightarrow> E e | Inr a \<Rightarrow> Q a) (w\<lparr>wd_store := s', wd_env := env'\<rparr>)"
  shows "wp (on_claim m) Q E w"
  using assms by (auto simp: wp_def on_claim_def split: prod.splits sum.splits)

lemma verifyReceipt_terminal:
  "verifyReceipt sv t a rc = Inr to \<Longrightarrow> to \<in> {StatusSucceeded, StatusFailed}"
  by (auto simp: verifyReceipt_def terminalReceiptStatus_Some split: option.splits if_splits)

lemma world_same_store [simp]: "w\<lparr>wd_store := wd_store w\<rparr> = w"
  and world_same_evidence [simp]: "w\<lparr>wd_evidence := wd_evidence w\<rparr> = w"
  by simp_all

subsection \<open>Calls\<close>

text \<open>The handlers of the service, as one type of calls.\<close>

datatype call =
    CallRequest PrincipalContext ActionRequest
  | CallGrant PrincipalContext string
  | CallDispatch PrincipalContext string
  | CallMarkExecuting PrincipalContext string
  | CallMarkResultUnknown PrincipalContext string
  | CallHumanTakeover PrincipalContext string string
  | CallCancel PrincipalContext string
  | CallIngest PrincipalContext string ActionReceipt
  | CallBeginReconciliation PrincipalContext string
  | CallResolve PrincipalContext string ActionStatus "ActionReceipt option"
  | CallCompensate PrincipalContext string
  | CallRepublish string

fun call_tenant :: "call \<Rightarrow> string" where
  "call_tenant (CallRequest prin _) = pc_TenantRef prin"
| "call_tenant (CallGrant prin _) = pc_TenantRef prin"
| "call_tenant (CallDispatch prin _) = pc_TenantRef prin"
| "call_tenant (CallMarkExecuting prin _) = pc_TenantRef prin"
| "call_tenant (CallMarkResultUnknown prin _) = pc_TenantRef prin"
| "call_tenant (CallHumanTakeover prin _ _) = pc_TenantRef prin"
| "call_tenant (CallCancel prin _) = pc_TenantRef prin"
| "call_tenant (CallIngest prin _ _) = pc_TenantRef prin"
| "call_tenant (CallBeginReconciliation prin _) = pc_TenantRef prin"
| "call_tenant (CallResolve prin _ _ _) = pc_TenantRef prin"
| "call_tenant (CallCompensate prin _) = pc_TenantRef prin"
| "call_tenant (CallRepublish t) = t"

fun issued_by :: "call \<Rightarrow> PrincipalContext \<Rightarrow> bool" where
  "issued_by (CallRequest p _) prin \<longleftrightarrow> p = prin"
| "issued_by (CallGrant p _) prin \<longleftrightarrow> p = prin"
| "issued_by (CallDispatch p _) prin \<longleftrightarrow> p = prin"
| "issued_by (CallMarkExecuting p _) prin \<longleftrightarrow> p = prin"
| "issued_by (CallMarkResultUnknown p _) prin \<longleftrightarrow> p = prin"
| "issued_by (CallHumanTakeover p _ _) prin \<longleftrightarrow> p = prin"
| "issued_by (CallCancel p _) prin \<longleftrightarrow> p = prin"
| "issued_by (CallIngest p _ _) prin \<longleftrightarrow> p = prin"
| "issued_by (CallBeginReconciliation p _) prin \<longleftrightarrow> p = prin"
| "issued_by (CallResolve p _ _ _) prin \<longleftrightarrow> p = prin"
| "issued_by (CallCompensate p _) prin \<longleftrightarrow> p = prin"
| "issued_by (CallRepublish _) prin \<longleftrightarrow> True"

text \<open>The world a call leaves behind, whether it returns or errs.\<close>

fun serve :: "('st, 'ev) Service \<Rightarrow> bool \<Rightarrow> call \<Rightarrow> ('st, 'ev) World \<Rightarrow> ('st, 'ev) World" where
  "serve sv d (CallRequest prin req) w = snd (RequestAction sv d prin req w)"
| "serve sv d (CallGrant prin r) w = snd (ServiceGrant sv d prin r w)"
| "serve sv d (CallDispatch prin r) w = snd (ServiceDispatch sv d prin r w)"
| "serve sv d (CallMarkExecuting prin r) w = snd (MarkExecuting sv d prin r w)"
| "serve sv d (CallMarkResultUnknown prin r) w = snd (MarkResultUnknown sv d prin r w)"
| "serve sv d (CallHumanTakeover prin r reason) w = snd (HumanTakeover sv d prin r reason w)"
| "serve sv d (CallCancel prin r) w = snd (Cancel sv d prin r w)"
| "serve sv d (CallIngest prin ident rc) w = snd (IngestReceipt sv d prin ident rc w)"
| "serve sv d (CallBeginReconciliation prin r) w = snd (BeginReconciliation sv d prin r w)"
| "serve sv d (CallResolve prin r out rc) w = snd (ResolveReconciliation sv d prin r out rc w)"
| "serve sv d (CallCompensate prin r) w = snd (Compensate sv d prin r w)"
| "serve sv d (CallRepublish t) w = snd (RepublishPending sv d t w)"

subsection \<open>Handlers over any store\<close>

context action_store
begin

lemma wp_get:
  assumes "nul_free t" and "\<And>a. look s t r = Some a \<Longrightarrow> Q a s" and "\<And>e. E e s"
  shows "wp (op_GetAction ops t r) Q E s"
  using assms get_action[OF assms(1)] by (fastforce simp: wp_def split: prod.splits sum.splits)

lemma wp_idem:
  assumes "nul_free t" and "\<And>a. look_idem s t i = Some a \<Longrightarrow> Q a s"
    and "\<And>e. (errors_is e ErrNotFound \<Longrightarrow> look_idem s t i = None) \<Longrightarrow> E e s"
  shows "wp (op_GetByIdempotencyKey ops t i) Q E s"
  using assms get_idem[OF assms(1)] by (fastforce simp: wp_def split: prod.splits sum.splits)

lemma wp_put:
  assumes "nul_free (ac_TenantRef a)"
    and "\<And>s'. view_update look s s' (ac_TenantRef a) (ac_ActionRef a) a \<Longrightarrow> Q (a, True) s'"
    and "\<And>b. look_idem s (ac_TenantRef a) (ac_IdempotencyKey a) = Some b \<Longrightarrow> Q (b, False) s"
    and "\<And>e s'. look s' = look s \<Longrightarrow> E e s'"
  shows "wp (op_PutRequested ops a) Q E s"
proof -
  obtain r s' where step: "op_PutRequested ops a s = (r, s')" by fastforce
  show ?thesis
  proof (cases r)
    case (Inl e)
    with step put_fail[OF assms(1)] assms(4) show ?thesis by (simp add: wp_def)
  next
    case (Inr p)
    obtain b c where p: "p = (b, c)" by (cases p)
    with Inr step put_created[OF assms(1)] put_existing[OF assms(1)] assms(2,3)
    show ?thesis by (cases c) (fastforce simp: wp_def)+
  qed
qed

lemma wp_grant:
  assumes "nul_free (ac_TenantRef a)"
    and "\<And>b c s'. look s (ac_TenantRef a) (ac_ActionRef a) = Some c \<Longrightarrow> canTransition (ac_Status c) StatusGranted \<Longrightarrow>
        same_binding c b \<Longrightarrow> ac_Status b = StatusGranted \<Longrightarrow> ac_GrantRef b = gr_GrantRef g \<Longrightarrow>
        ac_ApprovalEvidenceRef b = ac_ApprovalEvidenceRef a \<Longrightarrow>
        view_update look s s' (ac_TenantRef a) (ac_ActionRef a) b \<Longrightarrow> Q b s'"
    and "\<And>e s'. look s' = look s \<Longrightarrow> E e s'"
  shows "wp (op_Grant ops a g) Q E s"
proof (rule wpI)
  fix b s' assume "op_Grant ops a g s = (Inr b, s')"
  from grant_ok[OF assms(1) this] show "Q b s'" using assms(2) by blast
next
  fix e s' assume "op_Grant ops a g s = (Inl e, s')"
  from grant_fail[OF assms(1) this] show "E e s'" by (rule assms(3))
qed

lemma wp_dispatch:
  assumes "nul_free t"
    and "\<And>b c s'. look s t r = Some c \<Longrightarrow> ac_Status c = StatusGranted \<Longrightarrow> same_binding c b \<Longrightarrow>
        ac_GrantRef b = ac_GrantRef c \<Longrightarrow> ac_Status b = StatusDispatched \<Longrightarrow> view_update look s s' t r b \<Longrightarrow> Q b s'"
    and "\<And>e s'. look s' = look s \<Longrightarrow> E e s'"
  shows "wp (op_Dispatch ops t r d at) Q E s"
proof (rule wpI)
  fix b s' assume "op_Dispatch ops t r d at s = (Inr b, s')"
  from dispatch_ok[OF assms(1) this] show "Q b s'" using assms(2) by blast
next
  fix e s' assume "op_Dispatch ops t r d at s = (Inl e, s')"
  from dispatch_fail[OF assms(1) this] show "E e s'" by (rule assms(3))
qed

lemma wp_transition:
  assumes "nul_free t"
    and "\<And>b c s'. look s t r = Some c \<Longrightarrow> ac_Status c = fr \<Longrightarrow> same_binding c b \<Longrightarrow> canTransition fr to \<Longrightarrow>
        ac_Status b = to \<Longrightarrow> view_update look s s' t r b \<Longrightarrow> Q b s'"
    and "\<And>e s'. look s' = look s \<Longrightarrow> E e s'"
  shows "wp (op_Transition ops t r fr to reason at) Q E s"
proof (rule wpI)
  fix b s' assume "op_Transition ops t r fr to reason at s = (Inr b, s')"
  from transition_ok[OF assms(1) this] show "Q b s'" using assms(2) by blast
next
  fix e s' assume "op_Transition ops t r fr to reason at s = (Inl e, s')"
  from transition_fail[OF assms(1) this] show "E e s'" by (rule assms(3))
qed

lemma wp_ingest:
  assumes "nul_free (rs_TenantRef res)"
    and "\<And>b c s'. look s (rs_TenantRef res) (rs_ActionRef res) = Some c \<Longrightarrow> canTransition (ac_Status c) to \<Longrightarrow>
        same_binding c b \<Longrightarrow> ac_Status b = to \<Longrightarrow> ac_ReceiptRef b = rc_ReceiptRef (rs_Receipt res) \<Longrightarrow>
        view_update look s s' (rs_TenantRef res) (rs_ActionRef res) b \<Longrightarrow> Q (b, True) s'"
    and "\<And>b s'. look s' = look s \<Longrightarrow> Q (b, False) s'"
    and "\<And>e s'. look s' = look s \<Longrightarrow> E e s'"
  shows "wp (op_IngestResult ops res to at) Q E s"
proof -
  obtain r s' where step: "op_IngestResult ops res to at s = (r, s')" by fastforce
  show ?thesis
  proof (cases "\<exists>b. r = Inr (b, True)")
    case True
    with step ingest_applied[OF assms(1)] assms(2) show ?thesis by (fastforce simp: wp_def)
  next
    case False
    with step ingest_other[OF assms(1) step] have "look s' = look s" by blast
    with False step assms(3,4) show ?thesis by (auto simp: wp_def split: sum.splits)
  qed
qed

lemma wp_applied: "nul_free t \<Longrightarrow> (\<And>b. Q b s) \<Longrightarrow> (\<And>e. E e s) \<Longrightarrow> wp (op_ResultApplied ops t i) Q E s"
  using applied_pure[of t i s] by (auto simp: wp_def split: prod.splits sum.splits)

lemma wp_receipt: "nul_free t \<Longrightarrow> (\<And>b. Q b s) \<Longrightarrow> (\<And>e. E e s) \<Longrightarrow> wp (op_GetReceipt ops t i) Q E s"
  using receipt_pure[of t i s] by (auto simp: wp_def split: prod.splits sum.splits)

lemmas wp_store = wp_get wp_idem wp_put wp_grant wp_dispatch wp_transition wp_ingest wp_applied wp_receipt

lemma wp_ServiceGetAction:
  assumes "sv_store sv = ops" and "nul_free (pc_TenantRef prin)"
    and "\<And>a. \<not> d \<Longrightarrow> PrincipalContext_Validate prin = None \<Longrightarrow> look (wd_store w) (pc_TenantRef prin) r = Some a \<Longrightarrow> Q a w"
    and "\<And>e. E e w"
  shows "wp (ServiceGetAction sv d prin r) Q E w"
  unfolding ServiceGetAction_def wp_simps assms(1)
  by (intro conjI impI allI assms(4) wp_get assms(2)) (simp_all add: assms(3,4))

lemma transition_audited:
  assumes sv: "sv_store sv = ops" and t: "nul_free (pc_TenantRef prin)" and to: "to \<notin> {StatusGranted, StatusSucceeded}"
  shows "wp (transition sv prin bnd r fr to aud reason) (\<lambda>_. audited sv prin look w) (\<lambda>_. audited sv prin look w) w"
  unfolding transition_def wp_simps sv
  by (intro conjI impI wp_appendAuditI wp_transition t)
    (use to in \<open>auto simp: explains_def entitled_def intro: audited_none audited_idle audited_one\<close>)

lemma simpleTransition_audited:
  assumes sv: "sv_store sv = ops" and t: "nul_free (pc_TenantRef prin)" and to: "to \<notin> {StatusGranted, StatusSucceeded}"
  shows "wp (simpleTransition sv d prin r fr to aud reason) (\<lambda>_. audited sv prin look w) (\<lambda>_. audited sv prin look w) w"
  unfolding simpleTransition_def wp_simps
  by (intro wp_ServiceGetAction conjI impI transition_audited sv t to) (simp_all add: audited_none)

lemma MarkResultUnknown_audited:
  assumes sv: "sv_store sv = ops" and t: "nul_free (pc_TenantRef prin)"
  shows "wp (MarkResultUnknown sv d prin r) (\<lambda>_. audited sv prin look w) (\<lambda>_. audited sv prin look w) w"
  unfolding MarkResultUnknown_def wp_simps
  by (intro wp_ServiceGetAction conjI impI transition_audited sv t) (simp_all add: audited_none)

lemma HumanTakeover_audited:
  assumes sv: "sv_store sv = ops" and t: "nul_free (pc_TenantRef prin)"
  shows "wp (HumanTakeover sv d prin r reason) (\<lambda>_. audited sv prin look w) (\<lambda>_. audited sv prin look w) w"
  unfolding HumanTakeover_def wp_simps
  by (intro wp_ServiceGetAction conjI impI transition_audited sv t) (simp_all add: audited_none)

lemma Cancel_audited:
  assumes sv: "sv_store sv = ops" and t: "nul_free (pc_TenantRef prin)"
  shows "wp (Cancel sv d prin r) (\<lambda>_. audited sv prin look w) (\<lambda>_. audited sv prin look w) w"
  unfolding Cancel_def wp_simps
  by (intro wp_ServiceGetAction conjI impI transition_audited sv t) (simp_all add: audited_none)

lemma Resolve_audited:
  assumes sv: "sv_store sv = ops" and t: "nul_free (pc_TenantRef prin)" and wf: "wf (wd_store w)"
  shows "wp (ResolveReconciliation sv d prin r out rc) (\<lambda>_. audited sv prin look w) (\<lambda>_. audited sv prin look w) w"
  unfolding ResolveReconciliation_def wp_simps sv
  by (intro conjI impI allI wp_get wp_appendAuditI wp_ingest t)
    (auto simp: explains_def entitled_def t transition_audited[OF sv t] intro: audited_none audited_idle,
      auto simp: explains_def entitled_def intro!: audited_one)

lemma completeFromReceipt_audited:
  assumes sv: "sv_store sv = ops" and t: "nul_free (pc_TenantRef prin)"
    and a: "look (wd_store w) (pc_TenantRef prin) (rc_ActionRef rc) = Some a" "ac_ActionRef a = rc_ActionRef rc"
    and rc: "verifyReceipt sv (pc_TenantRef prin) a rc = Inr to"
  shows "wp (completeFromReceipt sv prin ident rc to a) (\<lambda>_. audited sv prin look w) (\<lambda>_. audited sv prin look w) w"
  unfolding completeFromReceipt_def wp_simps sv
  by (intro conjI impI allI wp_appendAuditI wp_ingest)
    (use rc verifyReceipt_terminal[OF rc] in \<open>auto simp: t a intro: audited_none audited_idle,
      auto simp: explains_def entitled_def a intro!: audited_one\<close>)

lemma deliver_audit: "en_audit (snd (service_deliver sv p d e)) = en_audit e"
  by (auto simp: service_deliver_def env_now_def Let_def split: option.splits prod.splits)

lemma wp_claim:
  assumes "\<And>r s' env'. look s' = look (wd_store w) \<Longrightarrow> en_audit env' = en_audit (wd_env w) \<Longrightarrow>
      (case r of Inl e \<Rightarrow> E e | Inr a \<Rightarrow> Q a) (w\<lparr>wd_store := s', wd_env := env'\<rparr>)"
  shows "wp (on_claim (op_ClaimDispatch ops t i at (service_deliver sv p))) Q E w"
proof (rule wp_on_claim)
  fix r s' env'
  assume step: "op_ClaimDispatch ops t i at (service_deliver sv p) (wd_store w, wd_env w) = (r, s', env')"
  have "en_audit env' = en_audit (wd_env w)"
    by (rule claim_env[where P = "\<lambda>e. en_audit e = en_audit (wd_env w)", OF _ _ step]) (simp_all add: deliver_audit)
  with claim_view[OF step] assms
  show "(case r of Inl e \<Rightarrow> E e | Inr a \<Rightarrow> Q a) (w\<lparr>wd_store := s', wd_env := env'\<rparr>)" by blast
qed

lemma wp_claim_pending:
  assumes "\<And>r s' env'. look s' = look (wd_store w) \<Longrightarrow> en_audit env' = en_audit (wd_env w) \<Longrightarrow>
      (case r of Inl e \<Rightarrow> E e | Inr a \<Rightarrow> Q a) (w\<lparr>wd_store := s', wd_env := env'\<rparr>)"
  shows "wp (on_claim (op_ClaimPendingDispatches ops t n at (service_deliver sv p))) Q E w"
proof (rule wp_on_claim)
  fix r s' env'
  assume step: "op_ClaimPendingDispatches ops t n at (service_deliver sv p) (wd_store w, wd_env w) = (r, s', env')"
  have "en_audit env' = en_audit (wd_env w)"
    by (rule claim_pending_env[where P = "\<lambda>e. en_audit e = en_audit (wd_env w)", OF _ _ step]) (simp_all add: deliver_audit)
  with claim_pending_view[OF step] assms
  show "(case r of Inl e \<Rightarrow> E e | Inr a \<Rightarrow> Q a) (w\<lparr>wd_store := s', wd_env := env'\<rparr>)" by blast
qed

lemma wp_publishDispatched:
  assumes sv: "sv_store sv = ops"
    and Q: "\<And>w'. look (wd_store w') = look (wd_store w) \<Longrightarrow> en_audit (wd_env w') = en_audit (wd_env w) \<Longrightarrow> Q () w'"
  shows "wp (publishDispatched sv t r) Q E w"
  unfolding publishDispatched_def wp_simps sv
  by (intro conjI impI allI wp_claim) (auto simp: wp_simps intro!: Q split: sum.splits)

lemma Dispatch_audited:
  assumes sv: "sv_store sv = ops" and t: "nul_free (pc_TenantRef prin)"
  shows "wp (ServiceDispatch sv d prin r) (\<lambda>_. audited sv prin look w) (\<lambda>_. audited sv prin look w) w"
  unfolding ServiceDispatch_def wp_simps sv
  by (intro wp_ServiceGetAction conjI impI allI wp_appendAuditI wp_dispatch wp_publishDispatched sv t)
    (auto simp: explains_def entitled_def intro: audited_none audited_idle audited_one_then)

lemma Grant_audited:
  assumes sv: "sv_store sv = ops" and t: "nul_free (pc_TenantRef prin)" and wf: "wf (wd_store w)"
  shows "wp (ServiceGrant sv d prin r) (\<lambda>_. audited sv prin look w) (\<lambda>_. audited sv prin look w) w"
  unfolding ServiceGrant_def mint_def wp_simps sv
proof (intro wp_ServiceGetAction sv t audited_none refl, goal_cases)
  case (1 a)
  then have a: "ac_TenantRef a = pc_TenantRef prin" "ac_ActionRef a = r" using keyed[OF wf] by blast+
  show ?case
    using 1 t
    by (auto simp: a explains_def audited_none split: option.splits
        intro!: wp_grant wp_appendAuditI wp_consume_evidence
        intro: audited_none audited_idle) (auto simp: explains_def entitled_def intro!: audited_one)
qed

lemma Republish_audited:
  assumes sv: "sv_store sv = ops"
  shows "wp (RepublishPending sv d t) (\<lambda>_. audited sv prin look w) (\<lambda>_. audited sv prin look w) w"
proof -
  have pend: "wp (on_error unavailable (on_claim (op_ClaimPendingDispatches ops t 0 at (service_deliver sv p))))
      (\<lambda>_. audited sv prin look w) (\<lambda>_. audited sv prin look w) w0"
    if "wd_store w0 = wd_store w" "en_audit (wd_env w0) = en_audit (wd_env w)" for at p w0
    unfolding wp_simps using that by (intro wp_claim_pending) (auto intro: audited_none split: sum.splits)
  show ?thesis
    unfolding RepublishPending_def wp_simps sv
    by (intro conjI impI allI wp_then_pure pend) (simp_all add: audited_none)
qed

lemma Request_audited:
  assumes sv: "sv_store sv = ops" and t: "nul_free (pc_TenantRef prin)"
  shows "wp (RequestAction sv d prin req) (\<lambda>_. audited sv prin look w) (\<lambda>_. audited sv prin look w) w"
  unfolding RequestAction_def create_requested_def wp_simps sv Let_def
  by (intro conjI impI allI wp_idem wp_put wp_appendAuditI t)
    (auto simp: explains_def entitled_def requested_action_def t intro: audited_none audited_idle,
      auto simp: explains_def split: option.splits intro!: audited_one)

lemma Ingest_audited:
  assumes sv: "sv_store sv = ops" and t: "nul_free (pc_TenantRef prin)" and wf: "wf (wd_store w)"
  shows "wp (IngestReceipt sv d prin ident rc) (\<lambda>_. audited sv prin look w) (\<lambda>_. audited sv prin look w) w"
  unfolding IngestReceipt_def wp_simps sv
  by (intro conjI impI allI wp_get wp_applied t)
    (auto intro: audited_none intro!: completeFromReceipt_audited sv t dest: keyed[OF wf])

lemma start_compensation_audited:
  assumes sv: "sv_store sv = ops" and t: "nul_free (pc_TenantRef prin)"
    and a: "look (wd_store w) (pc_TenantRef prin) (ac_ActionRef a) = Some a"
  shows "wp (start_compensation sv prin a) (\<lambda>_. audited sv prin look w) (\<lambda>_. audited sv prin look w) w"
  unfolding start_compensation_def wp_simps sv
proof (intro conjI impI wp_appendAuditI, goal_cases)
  case (1 ref)
  note accepted = 1
  show ?case
  proof (rule wp_put, goal_cases)
    case (2 s1)
    then have original: "c = a"
      if "look s1 (pc_TenantRef prin) (ac_ActionRef a) = Some c" "canTransition (ac_Status c) StatusCompensating" for c
      using that a by (auto simp: view_update_def compensation_action_def canTransition_def allowedEdges_def split: if_splits)
    from 2 show ?case
      using t accepted by (auto simp: wp_simps compensation_action_def dest!: original intro!: wp_appendAuditI wp_transition)
        (auto simp: explains_def a intro: audited_one audited_first,
          auto simp: explains_def entitled_def a dest: original intro!: audited_two)
  qed (use t in \<open>auto simp: wp_simps compensation_action_def intro: audited_idle\<close>)
qed (simp_all add: audited_none audited_idle)

lemma Compensate_audited:
  assumes sv: "sv_store sv = ops" and t: "nul_free (pc_TenantRef prin)" and wf: "wf (wd_store w)"
  shows "wp (Compensate sv d prin r) (\<lambda>_. audited sv prin look w) (\<lambda>_. audited sv prin look w) w"
  unfolding Compensate_def wp_simps sv
  by (intro conjI impI allI wp_ServiceGetAction sv t wp_idem)
    (auto intro: audited_none intro!: start_compensation_audited sv t dest: keyed[OF wf])

lemmas handlers_audited = Request_audited [unfolded wp_state] Grant_audited [unfolded wp_state]
  Dispatch_audited [unfolded wp_state] simpleTransition_audited [unfolded wp_state]
  MarkResultUnknown_audited [unfolded wp_state] HumanTakeover_audited [unfolded wp_state]
  Cancel_audited [unfolded wp_state] Ingest_audited [unfolded wp_state] Resolve_audited [unfolded wp_state]
  Compensate_audited [unfolded wp_state] Republish_audited [unfolded wp_state]

lemma serve_audited:
  assumes sv: "sv_store sv = ops" and t: "nul_free (call_tenant c)" and wf: "wf (wd_store w)"
    and prin: "issued_by c prin"
  shows "audited sv prin look w (serve sv d c w)"
  using t prin by (cases c) (simp_all add: MarkExecuting_def BeginReconciliation_def handlers_audited sv wf)

end

end
