(* ===== verification/ActionRuns.thy ===== *)
theory ActionRuns
  imports ActionServiceLaws
begin

text \<open>
  Runs of the action service on the in-memory store refine the store's step
  relation: every handler leaves a store that its steps reach, because the
  service meets the side conditions of those steps. So whatever holds of every
  reachable store holds after any sequence of calls, by any principals,
  interleaved in any order. The clock is past the zero time and the identifier
  generator never repeats (128 random bits in the source).
\<close>

definition well_formed_service :: "('st, 'ev) Service \<Rightarrow> bool" where
  "well_formed_service sv \<longleftrightarrow> (\<forall>n. sv_now sv n \<noteq> 0) \<and> (\<forall>m n p. sv_newID sv m p = sv_newID sv n p \<longrightarrow> m = n)"

definition ids_bound :: "('st, 'ev) Service \<Rightarrow> nat \<Rightarrow> MemoryStore \<Rightarrow> bool" where
  "ids_bound sv n s \<longleftrightarrow>
     (\<forall>k a. mm_actions s k = Some a \<longrightarrow> (\<exists>m<n. ac_ActionRef a = sv_newID sv m ''act_''))
   \<and> (\<forall>k d. (k, d) \<in> set (mm_dispatches s) \<longrightarrow> (\<exists>m<n. dp_DispatchRef d = sv_newID sv m ''dsp_''))"

text \<open>
  The messages the transport accepted, each that of an outbox row: once under a row marked published, and once more for every
  time a message was accepted and its stamp lost. \<open>X\<close> counts the lost stamps of a message.
\<close>

definition stamped :: "MemoryStore \<Rightarrow> DispatchMessage \<Rightarrow> bool" where
  "stamped s m \<longleftrightarrow> (\<exists>d. (storeKey (dm_TenantRef m) (dm_DispatchRef m), d) \<in> set (mm_dispatches s) \<and> dp_Published d \<and> message_of d = m)"

definition outbox_row :: "MemoryStore \<Rightarrow> DispatchMessage \<Rightarrow> Dispatch \<Rightarrow> bool" where
  "outbox_row s m d \<longleftrightarrow> (storeKey (dm_TenantRef m) (dm_DispatchRef m), d) \<in> set (mm_dispatches s) \<and> message_of d = m"

definition published_ok :: "(DispatchMessage \<Rightarrow> nat) \<Rightarrow> MemoryStore \<Rightarrow> Env \<Rightarrow> bool" where
  "published_ok X s env \<longleftrightarrow> (\<forall>m. count_list (en_published env) m \<le> X m + of_bool (stamped s m))
     \<and> (\<forall>m \<in> set (en_published env). \<exists>d. outbox_row s m d)"

lemma published_ok_cong:
  "published_ok X s env \<Longrightarrow> mm_dispatches s' = mm_dispatches s \<Longrightarrow> en_published env' = en_published env \<Longrightarrow> published_ok X s' env'"
  by (simp add: published_ok_def stamped_def outbox_row_def)

definition keeps_rows :: "MemoryStore \<Rightarrow> MemoryStore \<Rightarrow> bool" where
  "keeps_rows s s' \<longleftrightarrow> set (mm_dispatches s) \<subseteq> set (mm_dispatches s')"

lemma published_ok_more_rows:
  "published_ok X s env \<Longrightarrow> keeps_rows s s' \<Longrightarrow> en_published env' = en_published env
     \<Longrightarrow> published_ok X s' env'"
proof -
  assume ok: "published_ok X s env" and rows: "keeps_rows s s'" and env: "en_published env' = en_published env"
  from rows have "stamped s m \<Longrightarrow> stamped s' m" and r: "outbox_row s m d \<Longrightarrow> outbox_row s' m d" for m d
    unfolding stamped_def outbox_row_def keeps_rows_def by blast+
  then have "of_bool (stamped s m) \<le> (of_bool (stamped s' m) :: nat)" for m by simp
  with ok r show ?thesis unfolding published_ok_def env by (meson add_left_mono order_trans)
qed

definition evolves ::
  "(DispatchMessage \<Rightarrow> nat) \<Rightarrow> (MemoryStore, 'ev) Service \<Rightarrow> (MemoryStore, 'ev) World \<Rightarrow> (MemoryStore, 'ev) World \<Rightarrow> bool" where
  "evolves X sv w w' \<longleftrightarrow> store_step\<^sup>*\<^sup>* (wd_store w) (wd_store w') \<and> store_inv (wd_store w')
     \<and> ids_bound sv (en_ids (wd_env w')) (wd_store w') \<and> published_ok X (wd_store w') (wd_env w')"

text \<open>No new action and no new outbox row.\<close>

definition same_refs :: "MemoryStore \<Rightarrow> MemoryStore \<Rightarrow> bool" where
  "same_refs s s' \<longleftrightarrow>
     (\<forall>k a. mm_actions s' k = Some a \<longrightarrow> (\<exists>b. mm_actions s k = Some b \<and> ac_ActionRef b = ac_ActionRef a))
   \<and> (\<forall>k d. (k, d) \<in> set (mm_dispatches s') \<longrightarrow> (\<exists>e. (k, e) \<in> set (mm_dispatches s) \<and> dp_DispatchRef e = dp_DispatchRef d))"

lemma same_refs_refl [simp]: "same_refs s s"
  unfolding same_refs_def by blast

lemma same_refs_trans: "same_refs s s' \<Longrightarrow> same_refs s' s'' \<Longrightarrow> same_refs s s''"
  unfolding same_refs_def by metis

lemma ids_bound_same_refs: "ids_bound sv n s \<Longrightarrow> same_refs s s' \<Longrightarrow> ids_bound sv n s'"
  unfolding ids_bound_def same_refs_def by metis

lemma ids_bound_mono: "ids_bound sv n s \<Longrightarrow> n \<le> m \<Longrightarrow> ids_bound sv m s"
  unfolding ids_bound_def by (meson order_less_le_trans)

lemma evolves_refl:
  "store_inv (wd_store w) \<Longrightarrow> ids_bound sv (en_ids (wd_env w)) (wd_store w) \<Longrightarrow> published_ok X (wd_store w) (wd_env w)
     \<Longrightarrow> evolves X sv w w"
  by (simp add: evolves_def)

lemma evolves_env:
  "evolves X sv w w1 \<Longrightarrow> wd_store w' = wd_store w1 \<Longrightarrow> en_ids (wd_env w1) \<le> en_ids (wd_env w')
     \<Longrightarrow> en_published (wd_env w') = en_published (wd_env w1) \<Longrightarrow> evolves X sv w w'"
  by (auto simp: evolves_def intro: ids_bound_mono published_ok_cong)

lemma evolves_steps:
  assumes "evolves X sv w w1" and "store_step\<^sup>*\<^sup>* (wd_store w1) s'" and "ids_bound sv n s'"
    and "wd_store w' = s'" and "n \<le> en_ids (wd_env w')" and "published_ok X s' (wd_env w')"
  shows "evolves X sv w w'"
  using assms store_steps_preserve
  by (auto simp: evolves_def intro: ids_bound_mono)

subsection \<open>The operations as steps\<close>

text \<open>Steps that file nothing new; the second kind leaves the outbox alone.\<close>

definition stays :: "MemoryStore \<Rightarrow> MemoryStore \<Rightarrow> bool" where
  "stays s s' \<longleftrightarrow> store_step\<^sup>*\<^sup>* s s' \<and> same_refs s s'"

definition moves :: "MemoryStore \<Rightarrow> MemoryStore \<Rightarrow> bool" where
  "moves s s' \<longleftrightarrow> stays s s' \<and> mm_dispatches s' = mm_dispatches s"

lemma stays_refl [simp]: "stays s s"
  by (simp add: stays_def)

lemma stays_trans: "stays s s' \<Longrightarrow> stays s' s'' \<Longrightarrow> stays s s''"
  unfolding stays_def by (meson rtranclp_trans same_refs_trans)

lemma movesI: "store_step s s' \<Longrightarrow> same_refs s s' \<Longrightarrow> mm_dispatches s' = mm_dispatches s \<Longrightarrow> moves s s'"
  by (simp add: stays_def moves_def)

lemma evolves_stays:
  assumes "evolves X sv w w1" and "stays (wd_store w1) (wd_store w')" and "en_ids (wd_env w1) \<le> en_ids (wd_env w')"
    and "published_ok X (wd_store w') (wd_env w')"
  shows "evolves X sv w w'"
  using assms store_steps_preserve[of "wd_store w1" "wd_store w'"]
  by (auto simp: evolves_def stays_def intro: ids_bound_mono ids_bound_same_refs)

lemma evolves_moves:
  assumes "evolves X sv w w1" and "moves (wd_store w1) (wd_store w')" and "en_ids (wd_env w1) \<le> en_ids (wd_env w')"
    and "en_published (wd_env w') = en_published (wd_env w1)"
  shows "evolves X sv w w'"
  using assms by (intro evolves_stays[OF assms(1)])
    (auto simp: moves_def evolves_def intro: published_ok_cong)

lemma store_stepI: "store_step s s' \<Longrightarrow> store_step\<^sup>*\<^sup>* s s'"
  by simp

lemma wp_mm_get:
  assumes "\<And>a. mm_actions s (storeKey t r) = Some a \<Longrightarrow> Q a s" and "\<And>e. E e s"
  shows "wp (mm_GetAction t r) Q E s"
  using assms by (auto simp: wp_def mm_GetAction_def split: option.splits)

lemma wp_mm_idem:
  assumes "\<And>a. Q a s" and "\<And>e. E e s"
  shows "wp (mm_GetByIdempotencyKey t i) Q E s"
  using assms by (auto simp: wp_def mm_GetByIdempotencyKey_def split: option.splits)

lemma wp_mm_put:
  assumes fresh: "fresh_request a s" and ids: "ids_bound sv n s" and ref: "ac_ActionRef a = sv_newID sv m ''act_''" "m < n"
    and Q: "\<And>p s'. store_step s s' \<Longrightarrow> ids_bound sv n s' \<Longrightarrow> keeps_rows s s' \<Longrightarrow> Q p s'"
    and E: "\<And>e. E e s"
  shows "wp (mm_PutRequested a) Q E s"
proof (rule wpI)
  fix p s' assume step: "mm_PutRequested a s = (Inr p, s')"
  have "ids_bound sv n s'"
    using step
  proof (cases rule: mm_PutRequested_cases)
    case created
    with ids ref show ?thesis by (auto simp: ids_bound_def split: if_splits)
  qed (use ids in simp)
  moreover have "keeps_rows s s'" using step by (cases rule: mm_PutRequested_cases) (auto simp: keeps_rows_def)
  ultimately show "Q p s'" using store_step.put[OF fresh step] Q by blast
next
  fix e s' assume "mm_PutRequested a s = (Inl e, s')"
  with E show "E e s'" by (auto dest: mm_error_unchanged)
qed

lemma wp_mm_grant:
  assumes fresh: "fresh_grant a g" and b: "mm_actions s (storeKey (ac_TenantRef a) (ac_ActionRef a)) = Some b"
      "ac_Capability b = ac_Capability a" "ac_ParameterHash b = ac_ParameterHash a"
    and Q: "\<And>p s'. moves s s' \<Longrightarrow> Q p s'" and E: "\<And>e. E e s"
  shows "wp (mm_Grant a g) Q E s"
proof (rule wpI)
  fix p s' assume step: "mm_Grant a g s = (Inr p, s')"
  have "same_refs s s'" "mm_dispatches s' = mm_dispatches s"
    using step by (cases rule: mm_Grant_cases; auto simp: same_refs_def)+
  with store_step.grant[OF fresh b step] show "Q p s'" by (blast intro: Q movesI)
next
  fix e s' assume "mm_Grant a g s = (Inl e, s')"
  with E show "E e s'" by (auto dest: mm_error_unchanged)
qed

lemma wp_mm_dispatch:
  assumes fresh: "fresh_row t r d s" and at: "at \<noteq> 0" and inv: "store_inv s"
    and ids: "ids_bound sv n s" and ref: "dp_DispatchRef d = sv_newID sv m ''dsp_''" "m < n"
    and Q: "\<And>p s'. store_step s s' \<Longrightarrow> ids_bound sv n s' \<Longrightarrow> keeps_rows s s' \<Longrightarrow> Q p s'"
    and E: "\<And>e. E e s"
  shows "wp (mm_Dispatch t r d at) Q E s"
proof (rule wpI)
  fix p s' assume step: "mm_Dispatch t r d at s = (Inr p, s')"
  have dist: "distinct (map fst (mm_dispatches s))" using inv by (simp add: store_inv_def outbox_keyed_def)
  have "ids_bound sv n s'"
    using step
  proof (cases rule: mm_Dispatch_cases)
    case (dispatched stored g)
    with ids ref show ?thesis by (auto simp: ids_bound_def update_set[OF dist] split: if_splits)
  qed (use ids in simp)
  moreover have "keeps_rows s s'"
    using step
  proof (cases rule: mm_Dispatch_cases)
    case (dispatched stored g)
    with fresh show ?thesis
      by (auto simp: keeps_rows_def update_set[OF dist] fresh_row_def map_of_eq_None_iff image_iff)
  qed (simp add: keeps_rows_def)
  ultimately show "Q p s'" using store_step.dispatch[OF fresh at step] Q by blast
next
  fix e s' assume "mm_Dispatch t r d at s = (Inl e, s')"
  with E show "E e s'" by (auto dest: mm_error_unchanged)
qed

lemma wp_mm_transition:
  assumes t: "nul_free t" and to: "to \<notin> {StatusGranted, StatusDispatched, StatusSucceeded}"
    and Q: "\<And>p s'. moves s s' \<Longrightarrow> Q p s'" and E: "\<And>e. E e s"
  shows "wp (mm_Transition t r fr to reason at) Q E s"
proof (rule wpI)
  fix p s' assume step: "mm_Transition t r fr to reason at s = (Inr p, s')"
  have "same_refs s s'" "mm_dispatches s' = mm_dispatches s"
    using step by (cases rule: mm_Transition_cases; auto simp: same_refs_def)+
  with store_step.transition[OF t to step] show "Q p s'" by (blast intro: Q movesI)
next
  fix e s' assume "mm_Transition t r fr to reason at s = (Inl e, s')"
  with E show "E e s'" by (auto dest: mm_error_unchanged)
qed

lemma wp_mm_ingest:
  assumes t: "nul_free (rs_TenantRef res)" and to: "to \<in> {StatusSucceeded, StatusFailed}"
    and Q: "\<And>p s'. moves s s' \<Longrightarrow> Q p s'" and E: "\<And>e. E e s"
  shows "wp (mm_IngestResult res to at) Q E s"
proof (rule wpI)
  fix p s' assume step: "mm_IngestResult res to at s = (Inr p, s')"
  have "same_refs s s'" "mm_dispatches s' = mm_dispatches s"
    using step by (cases rule: mm_IngestResult_cases; auto simp: same_refs_def)+
  with store_step.ingest[OF t to step] show "Q p s'" by (blast intro: Q movesI)
next
  fix e s' assume "mm_IngestResult res to at s = (Inl e, s')"
  with E show "E e s'" by (auto dest: mm_Ingest_unchanged)
qed

subsection \<open>Deliveries as steps\<close>

lemma update_subset: "(k, d) \<in> set (AList.update k' v al) \<Longrightarrow> (k, d) = (k', v) \<or> (k, d) \<in> set al"
  by (induction al) (auto split: if_splits)

lemma acquire_stays: "acquireDispatch t r at eligible s = (od, s') \<Longrightarrow> stays s s'"
  using store_step.acquire[of t r at eligible s od s']
  by (auto simp: stays_def same_refs_def elim!: acquireDispatch_cases)

lemma acquire_next_stays: "acquireNextDispatch t at visited s = (od, s') \<Longrightarrow> stays s s'"
  using store_step.acquire_next[of t at visited s od s']
  by (auto simp: stays_def same_refs_def acquireNextDispatch_def split: option.splits)

lemma outcome_stays: "stays s (applyDispatchOutcome t r out at s)"
proof -
  have "\<exists>e. (k, e) \<in> set (mm_dispatches s) \<and> dp_DispatchRef e = dp_DispatchRef d"
    if "(k, d) \<in> set (mm_dispatches (applyDispatchOutcome t r out at s))" for k d
  proof (cases rule: applyDispatchOutcome_cases[of s t r out at])
    case none
    with that show ?thesis by auto
  next
    case (some d0)
    with that have "(k, d) = (storeKey t r, apply_outcome out at d0) \<or> (k, d) \<in> set (mm_dispatches s)"
      by (auto dest: update_subset)
    with map_of_SomeD[OF some(1)] show ?thesis by auto
  qed
  then show ?thesis by (simp add: stays_def same_refs_def store_step.outcome store_stepI)
qed

lemma release_stays: "stays s (releaseDispatch t r s)"
  using store_step.release[of s t r] by (auto simp: stays_def same_refs_def releaseDispatch_def)

lemma finish_stays: "stays s (releaseDispatch t r (applyDispatchOutcome t r out at s))"
  by (rule stays_trans[OF outcome_stays release_stays])

lemma claim_stays:
  assumes "mm_ClaimDispatch t r at dlv (s, env) = (res, s', env')"
  shows "stays s s'"
proof -
  obtain od s1 where acq: "acquireDispatch t r at False s = (od, s1)" by fastforce
  then have "stays s s1" by (rule acquire_stays)
  with assms acq show ?thesis
    by (cases od) (auto simp: mm_ClaimDispatch_def split: prod.splits intro: stays_trans finish_stays)
qed

lemma claim_loop_stays:
  "claim_loop n t at dlv visited m (s, env) = (m', s', env') \<Longrightarrow> stays s s'"
proof (induction n arbitrary: visited m s env)
  case (Suc n)
  obtain od s1 where acq: "acquireNextDispatch t at visited s = (od, s1)" by fastforce
  then have s1: "stays s s1" by (rule acquire_next_stays)
  show ?case
  proof (cases od)
    case None
    with Suc.prems acq s1 show ?thesis by simp
  next
    case (Some d)
    obtain out env1 where "dlv d env = (out, env1)" by fastforce
    with Suc.prems acq Some have "claim_loop n t at dlv (dp_DispatchRef d # visited) (m + 1)
        (releaseDispatch t (dp_DispatchRef d) (applyDispatchOutcome t (dp_DispatchRef d) out at s1), env1) = (m', s', env')"
      by simp
    from Suc.IH[OF this] show ?thesis using stays_trans[OF s1 stays_trans[OF finish_stays]] by blast
  qed
qed simp

lemma claim_pending_stays:
  assumes "mm_ClaimPendingDispatches t n at dlv (s, env) = (res, s', env')"
  shows "stays s s'"
  using assms by (auto simp: mm_ClaimPendingDispatches_def Let_def dest: claim_loop_stays split: prod.splits)

lemma claimable_pending: "claimable d at eligible \<Longrightarrow> \<not> dp_Published d"
  by (auto simp: claimable_def)

lemma acquire_next_row:
  assumes "acquireNextDispatch t at visited s = (Some d, s')" and "outbox_keyed s"
  shows "map_of (mm_dispatches s) (storeKey t (dp_DispatchRef d)) = Some d" and "dp_TenantRef d = t"
    and "claimable d at True" and "mm_dispatches s' = mm_dispatches s"
proof -
  from assms(1) have pick: "pick_oldest t at visited (mm_claimed s) None (mm_dispatches s) = Some d"
    and s': "mm_dispatches s' = mm_dispatches s" by (auto simp: acquireNextDispatch_def split: option.splits)
  from pick_oldest_Some[OF pick] obtain k where k: "(k, d) \<in> set (mm_dispatches s)" "dp_TenantRef d = t" "claimable d at True"
    by auto
  with assms(2) have "k = storeKey t (dp_DispatchRef d)" "distinct (map fst (mm_dispatches s))"
    by (auto simp: outbox_keyed_def)
  with k s' show "map_of (mm_dispatches s) (storeKey t (dp_DispatchRef d)) = Some d" "dp_TenantRef d = t"
    "claimable d at True" "mm_dispatches s' = mm_dispatches s" by simp_all
qed

lemma applyDispatchOutcome_rows:
  assumes "outbox_keyed s" and "map_of (mm_dispatches s) (storeKey t r) = Some d"
  shows "set (mm_dispatches (applyDispatchOutcome t r out at s))
     = {(k, e) \<in> set (mm_dispatches s). k \<noteq> storeKey t r} \<union> {(storeKey t r, apply_outcome out at d)}"
  using assms by (simp add: applyDispatchOutcome_def update_set outbox_keyed_def)

lemma releaseDispatch_rows [simp]: "mm_dispatches (releaseDispatch t r s) = mm_dispatches s"
  by (simp add: releaseDispatch_def)

lemma outbox_keyed_delivery:
  assumes "outbox_keyed s"
  shows "outbox_keyed (releaseDispatch t r (applyDispatchOutcome t r out at s))"
proof -
  have "outbox_keyed (applyDispatchOutcome t r out at s)"
  proof (cases rule: applyDispatchOutcome_cases[of s t r out at])
    case (some d)
    with assms have "nul_free (dp_TenantRef d)" "storeKey t r = storeKey (dp_TenantRef d) (dp_DispatchRef d)"
      using map_of_SomeD[OF some(1)] by (auto simp: outbox_keyed_def)
    moreover have "distinct (map fst (mm_dispatches (applyDispatchOutcome t r out at s)))"
      using assms some(2) by (simp add: outbox_keyed_def distinct_update)
    ultimately show ?thesis
      using assms unfolding outbox_keyed_def applyDispatchOutcome_rows[OF assms some(1)] by auto
  qed (use assms in simp)
  then show ?thesis by (simp add: outbox_keyed_def)
qed

lemma message_of_outcome [simp]: "message_of (apply_outcome out at d) = message_of d"
  by (simp add: message_of_def)

text \<open>One delivery keeps the published messages in step with the rows.\<close>

lemma delivery_published_ok:
  assumes keyed: "outbox_keyed s" and row: "map_of (mm_dispatches s) (storeKey t r) = Some d"
    and pending: "\<not> dp_Published d" and ok: "published_ok X s env"
    and deliver: "service_deliver sv p d env = (out, env')"
  shows "published_ok X (releaseDispatch t r (applyDispatchOutcome t r out at s)) env'"
proof -
  let ?s' = "releaseDispatch t r (applyDispatchOutcome t r out at s)"
  have rows: "set (mm_dispatches ?s') = {(k, e) \<in> set (mm_dispatches s). k \<noteq> storeKey t r}
      \<union> {(storeKey t r, apply_outcome out at d)}"
    using applyDispatchOutcome_rows[OF keyed row] by simp
  have inrow: "(storeKey t r, d) \<in> set (mm_dispatches s)" using row by (rule map_of_SomeD)
  with keyed have key: "storeKey t r = storeKey (dp_TenantRef d) (dp_DispatchRef d)" by (auto simp: outbox_keyed_def)
  have other: "k \<noteq> storeKey t r" if "(k, e) \<in> set (mm_dispatches s)" "dp_Published e" for k e
    using that inrow pending keyed distinct_fst_inj unfolding outbox_keyed_def by metis
  have old: "stamped ?s' m" if "stamped s m" for m
    using that other unfolding stamped_def rows by blast
  have rowed: "\<exists>e. outbox_row ?s' m e" if "outbox_row s m e" for m e
  proof (cases "storeKey (dm_TenantRef m) (dm_DispatchRef m) = storeKey t r")
    case True
    with that inrow keyed have "e = d" unfolding outbox_row_def outbox_keyed_def using distinct_fst_inj by metis
    with that True have "outbox_row ?s' m (apply_outcome out at d)" unfolding outbox_row_def rows by auto
    then show ?thesis ..
  next
    case False
    with that have "outbox_row ?s' m e" unfolding outbox_row_def rows by blast
    then show ?thesis ..
  qed
  have keeps: "published_ok X ?s' env"
  proof -
    have "of_bool (stamped s m) \<le> (of_bool (stamped ?s' m) :: nat)" for m using old by simp
    with ok rowed show ?thesis unfolding published_ok_def by (meson add_left_mono order_trans)
  qed
  show ?thesis
  proof (cases "p (en_publishCalls env) (message_of d)")
    case None
    with deliver have out: "do_Published out" and env': "en_published env' = en_published env @ [message_of d]"
      by (auto simp: service_deliver_def Let_def)
    have here: "(storeKey (dm_TenantRef (message_of d)) (dm_DispatchRef (message_of d)), apply_outcome out at d)
        \<in> set (mm_dispatches ?s')" unfolding rows by (simp add: key message_of_def)
    have "\<not> stamped s (message_of d)" using other key by (auto simp: stamped_def message_of_def)
    then have "count_list (en_published env) (message_of d) \<le> X (message_of d)" using ok unfolding published_ok_def by (metis add.right_neutral of_bool_eq(1))
    moreover have "dp_Published (apply_outcome out at d)" using out by (simp add: apply_outcome_def Let_def)
    with here have "stamped ?s' (message_of d)" unfolding stamped_def by (metis message_of_outcome)
    moreover have "outbox_row ?s' (message_of d) (apply_outcome out at d)" using here by (simp add: outbox_row_def)
    ultimately show ?thesis
      using keeps unfolding published_ok_def env' by auto
  next
    case (Some err)
    with deliver have "en_published env' = en_published env"
      by (auto simp: service_deliver_def env_now_def Let_def split: if_splits)
    with keeps show ?thesis by (simp add: published_ok_def)
  qed
qed

lemma claim_published_ok:
  assumes "mm_ClaimDispatch t r at (service_deliver sv p) (s, env) = (res, s', env')"
    and keyed: "outbox_keyed s" and ok: "published_ok X s env"
  shows "published_ok X s' env'"
proof -
  obtain od s1 where acq: "acquireDispatch t r at False s = (od, s1)" by fastforce
  show ?thesis
    using acq
  proof (cases rule: acquireDispatch_cases)
    case none
    with assms(1) acq ok show ?thesis by (simp add: mm_ClaimDispatch_def)
  next
    case (some d)
    obtain out env1 where dlv: "service_deliver sv p d env = (out, env1)" by fastforce
    have s1: "outbox_keyed s1" "published_ok X s1 env" "map_of (mm_dispatches s1) (storeKey t r) = Some d"
      using some keyed ok by (auto simp: outbox_keyed_def published_ok_def stamped_def outbox_row_def)
    have "s' = releaseDispatch t r (applyDispatchOutcome t r out at s1)" "env' = env1"
      using assms(1) acq some dlv by (auto simp: mm_ClaimDispatch_def)
    with delivery_published_ok[OF s1(1,3) claimable_pending[OF some(3)] s1(2) dlv] show ?thesis by simp
  qed
qed

lemma claim_loop_published_ok:
  "claim_loop n t at (service_deliver sv p) visited m (s, env) = (m', s', env') \<Longrightarrow> outbox_keyed s \<Longrightarrow> published_ok X s env
     \<Longrightarrow> published_ok X s' env'"
proof (induction n arbitrary: visited m s env)
  case (Suc n)
  obtain od s1 where acq: "acquireNextDispatch t at visited s = (od, s1)" by fastforce
  show ?case
  proof (cases od)
    case None
    with Suc.prems acq show ?thesis by (auto simp: acquireNextDispatch_def split: option.splits)
  next
    case (Some d)
    note row = acquire_next_row[OF acq[unfolded Some] Suc.prems(2)]
    obtain out env1 where dlv: "service_deliver sv p d env = (out, env1)" by fastforce
    let ?r = "dp_DispatchRef d"
    have s1: "outbox_keyed s1" "published_ok X s1 env" "map_of (mm_dispatches s1) (storeKey t ?r) = Some d"
      using Suc.prems(2,3) row by (auto simp: outbox_keyed_def published_ok_def stamped_def outbox_row_def)
    have "claim_loop n t at (service_deliver sv p) (?r # visited) (m + 1)
        (releaseDispatch t ?r (applyDispatchOutcome t ?r out at s1), env1) = (m', s', env')"
      using Suc.prems(1) acq Some dlv by simp
    from Suc.IH[OF this outbox_keyed_delivery[OF s1(1)]
        delivery_published_ok[OF s1(1,3) claimable_pending[OF row(3)] s1(2) dlv]]
    show ?thesis .
  qed
qed simp

lemma claim_pending_published_ok:
  assumes "mm_ClaimPendingDispatches t n at (service_deliver sv p) (s, env) = (res, s', env')"
    and "outbox_keyed s" and "published_ok X s env"
  shows "published_ok X s' env'"
  using assms by (auto simp: mm_ClaimPendingDispatches_def Let_def split: prod.splits dest: claim_loop_published_ok)

lemma deliver_ids: "en_ids (snd (service_deliver sv p d e)) = en_ids e"
  by (auto simp: service_deliver_def env_now_def Let_def split: option.splits prod.splits)

lemma wp_mm_claim:
  assumes inv: "store_inv (wd_store w)" "published_ok X (wd_store w) (wd_env w)"
    and "\<And>r s' env'. stays (wd_store w) s' \<Longrightarrow> en_ids env' = en_ids (wd_env w) \<Longrightarrow> published_ok X s' env' \<Longrightarrow>
      (case r of Inl e \<Rightarrow> E e | Inr a \<Rightarrow> Q a) (w\<lparr>wd_store := s', wd_env := env'\<rparr>)"
  shows "wp (on_claim (mm_ClaimDispatch t i at (service_deliver sv p))) Q E w"
proof (rule wp_on_claim)
  fix r s' env'
  assume step: "mm_ClaimDispatch t i at (service_deliver sv p) (wd_store w, wd_env w) = (r, s', env')"
  have "en_ids env' = en_ids (wd_env w)"
    by (rule mm_claim_env[where P = "\<lambda>e. en_ids e = en_ids (wd_env w)", OF _ _ step]) (simp_all add: deliver_ids)
  moreover have "published_ok X s' env'"
    using claim_published_ok[OF step] inv by (simp add: store_inv_def)
  ultimately
  show "(case r of Inl e \<Rightarrow> E e | Inr a \<Rightarrow> Q a) (w\<lparr>wd_store := s', wd_env := env'\<rparr>)"
    using assms(3)[OF claim_stays[OF step]] by blast
qed

lemma wp_mm_claim_pending:
  assumes inv: "store_inv (wd_store w)" "published_ok X (wd_store w) (wd_env w)"
    and "\<And>r s' env'. stays (wd_store w) s' \<Longrightarrow> en_ids env' = en_ids (wd_env w) \<Longrightarrow> published_ok X s' env' \<Longrightarrow>
      (case r of Inl e \<Rightarrow> E e | Inr a \<Rightarrow> Q a) (w\<lparr>wd_store := s', wd_env := env'\<rparr>)"
  shows "wp (on_claim (mm_ClaimPendingDispatches t n at (service_deliver sv p))) Q E w"
proof (rule wp_on_claim)
  fix r s' env'
  assume step: "mm_ClaimPendingDispatches t n at (service_deliver sv p) (wd_store w, wd_env w) = (r, s', env')"
  have "en_ids env' = en_ids (wd_env w)"
    by (rule mm_claim_pending_env[where P = "\<lambda>e. en_ids e = en_ids (wd_env w)", OF _ _ step]) (simp_all add: deliver_ids)
  moreover have "published_ok X s' env'"
    using claim_pending_published_ok[OF step] inv by (simp add: store_inv_def)
  ultimately
  show "(case r of Inl e \<Rightarrow> E e | Inr a \<Rightarrow> Q a) (w\<lparr>wd_store := s', wd_env := env'\<rparr>)"
    using assms(3)[OF claim_pending_stays[OF step]] by blast
qed

subsection \<open>Handlers as runs\<close>

lemma evolves_ids: "evolves X sv w0 w \<Longrightarrow> ids_bound sv (en_ids (wd_env w)) (wd_store w)"
  and evolves_inv: "evolves X sv w0 w \<Longrightarrow> store_inv (wd_store w)"
  and evolves_published: "evolves X sv w0 w \<Longrightarrow> published_ok X (wd_store w) (wd_env w)"
  by (simp_all add: evolves_def)

lemma wp_get_action:
  assumes "sv_store sv = memory_store"
    and "\<And>a. \<not> d \<Longrightarrow> PrincipalContext_Validate prin = None \<Longrightarrow>
        mm_actions (wd_store w) (storeKey (pc_TenantRef prin) r) = Some a \<Longrightarrow> Q a w"
    and "\<And>e. E e w"
  shows "wp (ServiceGetAction sv d prin r) Q E w"
  unfolding ServiceGetAction_def wp_simps assms(1) memory_store_ops
  by (intro conjI impI allI assms(3) wp_mm_get) (simp_all add: assms(2,3))

lemma transition_evolves:
  assumes sv: "sv_store sv = memory_store" and t: "nul_free (pc_TenantRef prin)"
    and to: "to \<notin> {StatusGranted, StatusDispatched, StatusSucceeded}" and ev: "evolves X sv w0 w"
  shows "wp (transition sv prin bnd r fr to aud reason) (\<lambda>_. evolves X sv w0) (\<lambda>_. evolves X sv w0) w"
  unfolding transition_def wp_simps sv memory_store_ops
  by (intro conjI impI wp_appendAuditI wp_mm_transition t to)
    (auto intro: evolves_env[OF ev] evolves_moves[OF ev])

lemma simpleTransition_evolves:
  assumes "sv_store sv = memory_store" and "nul_free (pc_TenantRef prin)"
    and "to \<notin> {StatusGranted, StatusDispatched, StatusSucceeded}" and ev: "evolves X sv w0 w"
  shows "wp (simpleTransition sv d prin r fr to aud reason) (\<lambda>_. evolves X sv w0) (\<lambda>_. evolves X sv w0) w"
  unfolding simpleTransition_def wp_simps
  by (intro wp_get_action conjI impI transition_evolves assms ev)

lemma MarkResultUnknown_evolves:
  assumes sv: "sv_store sv = memory_store" and t: "nul_free (pc_TenantRef prin)" and ev: "evolves X sv w0 w"
  shows "wp (MarkResultUnknown sv d prin r) (\<lambda>_. evolves X sv w0) (\<lambda>_. evolves X sv w0) w"
  unfolding MarkResultUnknown_def wp_simps
  by (intro wp_get_action conjI impI transition_evolves sv t ev) simp

lemma HumanTakeover_evolves:
  assumes sv: "sv_store sv = memory_store" and t: "nul_free (pc_TenantRef prin)" and ev: "evolves X sv w0 w"
  shows "wp (HumanTakeover sv d prin r reason) (\<lambda>_. evolves X sv w0) (\<lambda>_. evolves X sv w0) w"
  unfolding HumanTakeover_def wp_simps
  by (intro wp_get_action conjI impI transition_evolves sv t ev) simp

lemma Cancel_evolves:
  assumes sv: "sv_store sv = memory_store" and t: "nul_free (pc_TenantRef prin)" and ev: "evolves X sv w0 w"
  shows "wp (Cancel sv d prin r) (\<lambda>_. evolves X sv w0) (\<lambda>_. evolves X sv w0) w"
  unfolding Cancel_def wp_simps
  by (intro wp_get_action conjI impI transition_evolves sv t ev) simp_all

lemma completeFromReceipt_evolves:
  assumes sv: "sv_store sv = memory_store" and t: "nul_free (pc_TenantRef prin)"
    and to: "to \<in> {StatusSucceeded, StatusFailed}" and ev: "evolves X sv w0 w"
  shows "wp (completeFromReceipt sv prin ident rc to a) (\<lambda>_. evolves X sv w0) (\<lambda>_. evolves X sv w0) w"
  unfolding completeFromReceipt_def wp_simps sv memory_store_ops
  by (intro conjI impI allI wp_appendAuditI wp_mm_ingest to)
    (auto simp: t intro: evolves_env[OF ev] evolves_moves[OF ev])

lemma wp_mm_applied: "(\<And>b. Q b s) \<Longrightarrow> wp (mm_ResultApplied t i) Q E s"
  by (simp add: wp_def mm_ResultApplied_def)

lemma Ingest_evolves:
  assumes sv: "sv_store sv = memory_store" and t: "nul_free (pc_TenantRef prin)" and ev: "evolves X sv w0 w"
  shows "wp (IngestReceipt sv d prin ident rc) (\<lambda>_. evolves X sv w0) (\<lambda>_. evolves X sv w0) w"
  unfolding IngestReceipt_def wp_simps sv memory_store_ops
  by (intro conjI impI allI wp_mm_get wp_mm_applied)
    (auto intro: evolves_env[OF ev] intro!: completeFromReceipt_evolves sv t ev dest: verifyReceipt_terminal)

lemma Resolve_evolves:
  assumes sv: "sv_store sv = memory_store" and t: "nul_free (pc_TenantRef prin)" and ev: "evolves X sv w0 w"
  shows "wp (ResolveReconciliation sv d prin r out rc) (\<lambda>_. evolves X sv w0) (\<lambda>_. evolves X sv w0) w"
  unfolding ResolveReconciliation_def wp_simps sv memory_store_ops
  by (intro conjI impI allI wp_mm_get wp_appendAuditI wp_mm_ingest)
    (auto simp: t intro: evolves_env[OF ev] evolves_moves[OF ev] intro!: transition_evolves sv t ev)

lemma Republish_evolves:
  assumes sv: "sv_store sv = memory_store" and ev: "evolves X sv w0 w"
  shows "wp (RepublishPending sv d t) (\<lambda>_. evolves X sv w0) (\<lambda>_. evolves X sv w0) w"
proof -
  have pend: "wp (on_error unavailable (on_claim (mm_ClaimPendingDispatches t 0 at (service_deliver sv p))))
      (\<lambda>_. evolves X sv w0) (\<lambda>_. evolves X sv w0) w1"
    if "wd_store w1 = wd_store w" "en_ids (wd_env w1) = en_ids (wd_env w)"
      "en_published (wd_env w1) = en_published (wd_env w)" for at p w1
    unfolding wp_simps using that evolves_inv[OF ev] evolves_published[OF ev]
    by (intro wp_mm_claim_pending) (auto intro: evolves_stays[OF ev] published_ok_cong split: sum.splits)
  show ?thesis
    unfolding RepublishPending_def wp_simps sv memory_store_ops
    by (intro conjI impI allI wp_then_pure pend) (auto intro: evolves_env[OF ev])
qed

lemma fresh_action_ref:
  assumes "well_formed_service sv" and "store_inv s" and "ids_bound sv n s" and "nul_free t"
  shows "mm_actions s (storeKey t (sv_newID sv n ''act_'')) = None"
proof (rule ccontr)
  assume "mm_actions s (storeKey t (sv_newID sv n ''act_'')) \<noteq> None"
  then obtain a where a: "mm_actions s (storeKey t (sv_newID sv n ''act_'')) = Some a" by auto
  with assms(2,4) have "ac_ActionRef a = sv_newID sv n ''act_''" using action_key by blast
  moreover obtain m where "m < n" "ac_ActionRef a = sv_newID sv m ''act_''"
    using assms(3) a unfolding ids_bound_def by blast
  ultimately show False using assms(1) by (metis less_irrefl well_formed_service_def)
qed

lemma fresh_dispatch_ref:
  assumes "well_formed_service sv" and "store_inv s" and "ids_bound sv n s" and "nul_free t"
  shows "map_of (mm_dispatches s) (storeKey t (sv_newID sv n ''dsp_'')) = None"
proof (rule ccontr)
  assume "map_of (mm_dispatches s) (storeKey t (sv_newID sv n ''dsp_'')) \<noteq> None"
  then obtain d where d: "(storeKey t (sv_newID sv n ''dsp_''), d) \<in> set (mm_dispatches s)"
    by (auto dest: map_of_SomeD)
  with assms(2) have "nul_free (dp_TenantRef d)"
      "storeKey t (sv_newID sv n ''dsp_'') = storeKey (dp_TenantRef d) (dp_DispatchRef d)"
    by (auto simp: store_inv_def outbox_keyed_def)
  with assms(4) have "dp_DispatchRef d = sv_newID sv n ''dsp_''" by simp
  moreover obtain m where "m < n" "dp_DispatchRef d = sv_newID sv m ''dsp_''"
    using assms(3) d unfolding ids_bound_def by blast
  ultimately show False using assms(1) by (metis less_irrefl well_formed_service_def)
qed

text \<open>A reference just drawn from the generator names nothing yet.\<close>

lemma wp_put_fresh:
  assumes ok: "well_formed_service sv" and t: "nul_free (ac_TenantRef a)" and ev: "evolves X sv w0 w"
    and a: "ac_ActionRef a = sv_newID sv (en_ids (wd_env w)) ''act_''" "ac_GrantRef a = []" "ac_ReceiptRef a = []"
      "ac_Status a \<in> {StatusRequested, StatusAwaitingApproval}"
    and Q: "\<And>p s'. store_step (wd_store w) s' \<Longrightarrow> ids_bound sv (Suc (en_ids (wd_env w))) s' \<Longrightarrow>
        keeps_rows (wd_store w) s' \<Longrightarrow> Q p s'"
    and E: "\<And>e. E e (wd_store w)"
  shows "wp (mm_PutRequested a) Q E (wd_store w)"
proof (rule wp_mm_put[where n = "Suc (en_ids (wd_env w))" and m = "en_ids (wd_env w)" and Q = Q and E = E])
  show "ids_bound sv (Suc (en_ids (wd_env w))) (wd_store w)" using evolves_ids[OF ev] by (rule ids_bound_mono) simp
  show "fresh_request a (wd_store w)"
    using fresh_action_ref[OF ok evolves_inv[OF ev] evolves_ids[OF ev] t] t a by (simp add: fresh_request_def)
qed (use a Q E in simp_all)

lemma wp_dispatch_fresh:
  assumes ok: "well_formed_service sv" and t: "nul_free (pc_TenantRef prin)" and ev: "evolves X sv w0 w"
    and ref: "ref = sv_newID sv (en_ids (wd_env w)) ''dsp_''" and at: "at = sv_now sv i"
    and Q: "\<And>p s'. store_step (wd_store w) s' \<Longrightarrow> ids_bound sv (Suc (en_ids (wd_env w))) s' \<Longrightarrow>
        keeps_rows (wd_store w) s' \<Longrightarrow> Q p s'"
    and E: "\<And>e. E e (wd_store w)"
  shows "wp (mm_Dispatch (pc_TenantRef prin) r (dispatch_row prin a r ref at) at) Q E (wd_store w)"
proof (rule wp_mm_dispatch[where n = "Suc (en_ids (wd_env w))" and m = "en_ids (wd_env w)" and Q = Q and E = E])
  show "ids_bound sv (Suc (en_ids (wd_env w))) (wd_store w)" using evolves_ids[OF ev] by (rule ids_bound_mono) simp
  show "at \<noteq> 0" using ok at by (simp add: well_formed_service_def)
  show "fresh_row (pc_TenantRef prin) r (dispatch_row prin a r ref at) (wd_store w)"
    using fresh_dispatch_ref[OF ok evolves_inv[OF ev] evolves_ids[OF ev] t] t ref
    by (simp add: fresh_row_def dispatch_row_def)
qed (use ref Q E evolves_inv[OF ev] in \<open>simp_all add: dispatch_row_def\<close>)

lemma evolves_new:
  assumes "evolves X sv w0 w" and "store_step (wd_store w) (wd_store w')"
    and "ids_bound sv (Suc (en_ids (wd_env w))) (wd_store w')" and "en_ids (wd_env w') = Suc (en_ids (wd_env w))"
    and "keeps_rows (wd_store w) (wd_store w')"
    and "en_published (wd_env w') = en_published (wd_env w)"
  shows "evolves X sv w0 w'"
  using evolves_steps[OF assms(1), of "wd_store w'" "Suc (en_ids (wd_env w))" w'] assms
    published_ok_more_rows[of X "wd_store w" "wd_env w" "wd_store w'" "wd_env w'"]
  by (auto simp: evolves_def)

lemma evolves_new_moves:
  assumes "evolves X sv w0 w" and "store_step (wd_store w) s1"
    and "ids_bound sv (Suc (en_ids (wd_env w))) s1" and "moves s1 (wd_store w')"
    and "en_ids (wd_env w') = Suc (en_ids (wd_env w))"
    and "keeps_rows (wd_store w) s1"
    and "en_published (wd_env w') = en_published (wd_env w)"
  shows "evolves X sv w0 w'"
proof -
  have "evolves X sv w0 (w\<lparr>wd_store := s1, wd_env := wd_env w'\<rparr>)"
    by (rule evolves_new[OF assms(1)]) (simp_all add: assms)
  then show ?thesis by (rule evolves_moves) (simp_all add: assms)
qed

lemma publish_evolves:
  assumes sv: "sv_store sv = memory_store" and ev: "evolves X sv w0 w"
  shows "wp (publishDispatched sv t r) (\<lambda>_. evolves X sv w0) (\<lambda>_. evolves X sv w0) w"
  unfolding publishDispatched_def wp_simps sv memory_store_ops
  using evolves_inv[OF ev] evolves_published[OF ev]
  by (intro conjI impI allI wp_mm_claim)
    (auto simp: wp_simps intro: evolves_env[OF ev] evolves_stays[OF ev] published_ok_cong split: sum.splits)

lemma Dispatch_evolves:
  assumes ok: "well_formed_service sv" and sv: "sv_store sv = memory_store" and t: "nul_free (pc_TenantRef prin)"
    and ev: "evolves X sv w0 w"
  shows "wp (ServiceDispatch sv d prin r) (\<lambda>_. evolves X sv w0) (\<lambda>_. evolves X sv w0) w"
  unfolding ServiceDispatch_def wp_simps sv memory_store_ops
  by (intro wp_get_action sv conjI impI ev wp_appendAuditI)
    (auto intro!: wp_dispatch_fresh[OF ok t ev] publish_evolves[OF sv]
      intro: evolves_env[OF ev] evolves_new[OF ev])

lemma Grant_evolves:
  assumes sv: "sv_store sv = memory_store" and t: "nul_free (pc_TenantRef prin)" and ev: "evolves X sv w0 w"
  shows "wp (ServiceGrant sv d prin r) (\<lambda>_. evolves X sv w0) (\<lambda>_. evolves X sv w0) w"
  unfolding ServiceGrant_def mint_def wp_simps sv memory_store_ops
proof (intro wp_get_action sv ev, goal_cases)
  case (1 a)
  then have a: "ac_TenantRef a = pc_TenantRef prin" "ac_ActionRef a = r"
    using action_key[OF evolves_inv[OF ev] t] by blast+
  show ?case
    using 1 t
    by (auto simp: a fresh_grant_def intro!: wp_mm_grant wp_appendAuditI wp_consume_evidence
        intro: evolves_env[OF ev] evolves_moves[OF ev] ev split: option.splits)
qed

lemma Request_evolves:
  assumes ok: "well_formed_service sv" and sv: "sv_store sv = memory_store" and t: "nul_free (pc_TenantRef prin)"
    and ev: "evolves X sv w0 w"
  shows "wp (RequestAction sv d prin req) (\<lambda>_. evolves X sv w0) (\<lambda>_. evolves X sv w0) w"
  unfolding RequestAction_def create_requested_def wp_simps sv memory_store_ops Let_def
  by (intro conjI impI allI wp_mm_idem wp_appendAuditI)
    (auto simp: requested_action_def zero_action_def t intro!: wp_put_fresh[OF ok _ ev]
      intro: evolves_env[OF ev] evolves_new[OF ev] split: option.splits)

lemma start_compensation_evolves:
  assumes ok: "well_formed_service sv" and sv: "sv_store sv = memory_store" and t: "nul_free (pc_TenantRef prin)"
    and ev: "evolves X sv w0 w"
  shows "wp (start_compensation sv prin a) (\<lambda>_. evolves X sv w0) (\<lambda>_. evolves X sv w0) w"
  unfolding start_compensation_def wp_simps sv memory_store_ops
proof (intro conjI impI wp_appendAuditI, goal_cases)
  case (1 ref)
  show ?case
    unfolding audit_world
    by (simp, rule wp_put_fresh[OF ok _ ev])
      (auto simp: compensation_action_def zero_action_def t wp_simps
        intro!: wp_appendAuditI wp_mm_transition t
        intro: evolves_env[OF ev] evolves_new[OF ev] evolves_new_moves[OF ev])
qed (auto intro: evolves_env[OF ev])

lemma Compensate_evolves:
  assumes ok: "well_formed_service sv" and sv: "sv_store sv = memory_store" and t: "nul_free (pc_TenantRef prin)"
    and ev: "evolves X sv w0 w"
  shows "wp (Compensate sv d prin r) (\<lambda>_. evolves X sv w0) (\<lambda>_. evolves X sv w0) w"
  unfolding Compensate_def wp_simps sv memory_store_ops
  by (intro wp_get_action sv conjI impI allI ev wp_mm_idem)
    (auto intro: ev intro!: start_compensation_evolves[OF ok sv t ev])

lemmas handlers_evolve = Request_evolves [unfolded wp_state] Grant_evolves [unfolded wp_state]
  Dispatch_evolves [unfolded wp_state] simpleTransition_evolves [unfolded wp_state]
  MarkResultUnknown_evolves [unfolded wp_state] HumanTakeover_evolves [unfolded wp_state]
  Cancel_evolves [unfolded wp_state] Ingest_evolves [unfolded wp_state] Resolve_evolves [unfolded wp_state]
  Compensate_evolves [unfolded wp_state] Republish_evolves [unfolded wp_state]

lemma serve_evolves:
  assumes ok: "well_formed_service sv" and sv: "sv_store sv = memory_store" and t: "nul_free (call_tenant c)"
    and ev: "evolves X sv w0 w"
  shows "evolves X sv w0 (serve sv d c w)"
  using t ok ev sv by (cases c) (simp_all add: MarkExecuting_def BeginReconciliation_def handlers_evolve)

text \<open>A run: calls served one after the other, each by its own principal, with its own context state.\<close>

fun serve_all :: "('st, 'ev) Service \<Rightarrow> (bool \<times> call) list \<Rightarrow> ('st, 'ev) World \<Rightarrow> ('st, 'ev) World" where
  "serve_all sv [] w = w"
| "serve_all sv ((d, c) # cs) w = serve_all sv cs (serve sv d c w)"

lemma serve_all_evolves:
  assumes "well_formed_service sv" and "sv_store sv = memory_store"
  shows "evolves X sv w0 w \<Longrightarrow> \<forall>(d, c) \<in> set cs. nul_free (call_tenant c) \<Longrightarrow> evolves X sv w0 (serve_all sv cs w)"
  by (induction cs arbitrary: w) (auto simp: assms serve_evolves)

definition start_world :: "'ev \<Rightarrow> (MemoryStore, 'ev) World" where
  "start_world ev = \<lparr>wd_store = NewMemoryStore, wd_evidence = ev, wd_env = new_env\<rparr>"

lemma start_evolves: "evolves X sv (start_world ev) (start_world ev)"
  by (rule evolves_refl)
    (simp_all add: start_world_def store_inv_New, simp_all add: ids_bound_def published_ok_def NewMemoryStore_def new_env_def)

subsection \<open>Properties of runs\<close>

text \<open>A service and a principal the examples run with.\<close>

definition ex_service :: "(MemoryStore, unit) Service" where
  "ex_service = \<lparr>sv_store = memory_store, sv_audit = (\<lambda>_ _. Inr ''aud''), sv_evidence = None, sv_providers = None,
     sv_receipts = Some (\<lambda>_ _. None), sv_publisher = Some (\<lambda>_ _. None), sv_now = (\<lambda>n. int n + 1),
     sv_newID = (\<lambda>n p. p @ replicate (n + 16) CHR ''x'')\<rparr>"

definition ex_principal :: PrincipalContext where
  "ex_principal = \<lparr>pc_TenantRef = ''acme'', pc_PrincipalRef = ''alice'', pc_AgentClientRef = ''agent'',
     pc_AgentReleaseRef = ''r1'', pc_TrustClass = TrustFirstParty, pc_OrgSnapshotRef = ''org'',
     pc_VerifiedAt = 1, pc_ExpiresAt = 100\<rparr>"

definition ex_granted_world :: "(MemoryStore, unit) World" where
  "ex_granted_world = \<lparr>wd_store = ex_granted, wd_evidence = (), wd_env = new_env\<rparr>"

lemma ex_service_ok: "well_formed_service ex_service" "sv_store ex_service = memory_store"
  by (simp_all add: well_formed_service_def ex_service_def)

lemma ex_principal_ok: "PrincipalContext_Validate ex_principal = None" "nul_free (pc_TenantRef ex_principal)"
  by (simp_all add: PrincipalContext_Validate_def ex_principal_def requireNonEmpty_def fail_if_def TrustClass_Valid_def
      nul_free_def)

lemma ex_principal_tenant: "pc_TenantRef ex_principal = ''acme''"
  by (simp add: ex_principal_def)

text \<open>What the examples are evaluated with.\<close>

lemmas ex_run_eval = guard_def invalid_def ex_principal_ok ex_principal_tenant on_action_store_def memory_store_ops
  ex_service_ok mm_GetAction_def ex_granted_world_def ex_granted_eq transition_def mm_look_def nul_free_def
  andthen_def on_error_def attempt_def storeKey_def appendAudit_def now_def env_now_def newID_def mm_Transition_def
  new_env_def ex_service_def canTransition_def allowedEdges_def ex_action_def zero_action_def Let_def

text \<open>C5: the service keeps its store's contract: whatever calls are served, by whichever principals and
  in whichever order, returning or failing, the store the run leaves is reached from the empty one by
  the store's own steps, under the conditions those steps demand.\<close>

theorem service_run_refines_store_steps:
  assumes "well_formed_service sv" and "sv_store sv = memory_store"
    and "\<forall>(d, c) \<in> set cs. nul_free (call_tenant c)"
  shows "store_step\<^sup>*\<^sup>* NewMemoryStore (wd_store (serve_all sv cs (start_world ev)))"
  using serve_all_evolves[OF assms(1,2) start_evolves assms(3)] by (simp add: evolves_def start_world_def)

theorem service_run_refines_store_steps_witness:
  "store_step\<^sup>*\<^sup>* NewMemoryStore (wd_store (serve_all ex_service
     [(False, CallDispatch ex_principal ''act_1''), (True, CallCancel ex_principal ''act_1'')] (start_world ())))"
  by (rule service_run_refines_store_steps) (simp_all add: ex_service_ok ex_principal_ok)

text \<open>C1: audit lineage: if a call changes the record of any action, the audit trail grew by an event
  the sink accepted that names that action and the status it entered, and either announces a new request
  or records a change the action was entitled to: an edge of the table under an unchanged binding, into
  \<open>granted\<close> only through the trust gate and consumed approval evidence for that very operation, into
  \<open>succeeded\<close> only with a receipt that verifies for it.\<close>

theorem every_change_audited_and_entitled:
  assumes "sv_store sv = memory_store" and "actions_keyed (wd_store w)"
    and "nul_free (call_tenant c)" and "issued_by c prin"
    and "mm_look (wd_store (serve sv d c w)) t r \<noteq> mm_look (wd_store w) t r"
  shows "\<exists>evs new e. en_audit (wd_env (serve sv d c w)) = en_audit (wd_env w) @ evs \<and> e \<in> set evs
     \<and> mm_look (wd_store (serve sv d c w)) t r = Some new
     \<and> explains sv prin (wd_evidence w) (wd_evidence (serve sv d c w)) e t r (mm_look (wd_store w) t r) new"
  using mem.serve_audited[OF assms(1,3,2,4), of d] assms(5) unfolding audited_def by blast

lemma ex_granted_keyed: "actions_keyed ex_granted"
  using ex_run store_step_preserves store_inv_New by (metis store_inv_def)

lemma ex_cancelled:
  "mm_look (wd_store (serve ex_service False (CallCancel ex_principal ''act_1'') ex_granted_world)) ''acme'' ''act_1''
     \<noteq> mm_look (wd_store ex_granted_world) ''acme'' ''act_1''"
  by (simp add: Cancel_def ServiceGetAction_def ex_run_eval)

theorem every_change_audited_and_entitled_witness:
  "\<exists>evs new e. en_audit (wd_env (serve ex_service False (CallCancel ex_principal ''act_1'') ex_granted_world)) = [] @ evs
     \<and> e \<in> set evs
     \<and> mm_look (wd_store (serve ex_service False (CallCancel ex_principal ''act_1'') ex_granted_world)) ''acme'' ''act_1''
         = Some new
     \<and> explains ex_service ex_principal () () e ''acme'' ''act_1'' (mm_look ex_granted ''acme'' ''act_1'') new"
  using every_change_audited_and_entitled[OF ex_service_ok(2) _ _ _ ex_cancelled, of ex_principal] ex_granted_keyed
  by (simp add: ex_principal_ok ex_granted_world_def new_env_def)

text \<open>C21: audit outages fail closed: while the audit sink accepts nothing, no call of any kind changes any
  action, whichever error it reports.\<close>

theorem audit_outage_changes_nothing:
  assumes "sv_store sv = memory_store" and "actions_keyed (wd_store w)" and "nul_free (call_tenant c)"
    and "\<forall>n e ref. sv_audit sv n e = Inr ref \<longrightarrow> ref = []"
  shows "mm_look (wd_store (serve sv d c w)) t r = mm_look (wd_store w) t r"
proof (rule ccontr)
  assume changed: "mm_look (wd_store (serve sv d c w)) t r \<noteq> mm_look (wd_store w) t r"
  obtain prin where prin: "issued_by c prin" by (cases c) auto
  from mem.serve_audited[OF assms(1,3,2) prin, of d] changed obtain e new where
    "explains sv prin (wd_evidence w) (wd_evidence (serve sv d c w)) e t r (mm_look (wd_store w) t r) new" unfolding audited_def by blast
  with assms(4) show False by (auto simp: explains_def accepted_by_def)
qed

theorem audit_outage_changes_nothing_witness:
  "mm_look (wd_store (serve (ex_service\<lparr>sv_audit := \<lambda>_ _. Inl (Message ''down'')\<rparr>) False
      (CallDispatch ex_principal ''act_1'') ex_granted_world)) ''acme'' ''act_1''
   = mm_look ex_granted ''acme'' ''act_1''"
proof -
  show ?thesis
    using ex_granted_keyed audit_outage_changes_nothing[of "ex_service\<lparr>sv_audit := \<lambda>_ _. Inl (Message ''down'')\<rparr>" ex_granted_world
        "CallDispatch ex_principal ''act_1''" False "''acme''" "''act_1''"]
    by (simp add: ex_service_ok ex_principal_ok ex_granted_world_def)
qed

end
