(* ===== verification/ActionProperties.thy ===== *)
theory ActionProperties
  imports ActionRuns "HOL-Library.Multiset"
begin

text \<open>
  Properties of single operations of the action service. First the outbox: the retry delay, a recovery drain that
  empties a backlog, and eight refused attempts that end in a dead letter, both stated of whole calls of
  \<open>RepublishPending\<close>, where claim, publish and stamp run without a crash between them (crashes are events of the runs in
  \<open>ActionCrashes\<close>). Then replayed requests, dispatches that are never retried blindly, verification bindings,
  compensation, and the corners where the code departs from its own comments.
\<close>

subsection \<open>Backoff and dead letters\<close>

lemma delay_bounds: "0 < dispatchRetryBaseDelay" "dispatchRetryBaseDelay < dispatchRetryMaxDelay"
  by (simp_all add: dispatchRetryBaseDelay_def dispatchRetryMaxDelay_def minute_def second_def)

lemma retry_loop_closed:
  "0 < d \<Longrightarrow> d < dispatchRetryMaxDelay \<Longrightarrow> retry_loop n d = min (d * 2 ^ n) dispatchRetryMaxDelay"
proof (induction n arbitrary: d)
  case (Suc n)
  show ?case
  proof (cases "d * 2 \<ge> dispatchRetryMaxDelay")
    case True
    have "d * 2 * 1 \<le> d * 2 * 2 ^ n" using Suc.prems by (intro mult_left_mono) auto
    with True have "dispatchRetryMaxDelay \<le> d * 2 ^ Suc n" by (simp add: mult.assoc)
    with True show ?thesis by simp
  next
    case False
    with Suc.IH[of "d * 2"] Suc.prems show ?thesis by (simp add: mult.assoc)
  qed
qed simp

text \<open>The backoff of the outbox: after \<open>n\<close> failed attempts the next one waits five seconds doubled
  \<open>n - 1\<close> times, capped at five minutes; a count below one waits as after the first.\<close>

theorem retry_delay_is_capped_doubling:
  "dispatchRetryDelay n = min (5 * second * 2 ^ nat (max n 1 - 1)) (5 * minute)"
proof -
  have "nat ((if n < 1 then 1 else n) - 1) = nat (max n 1 - 1)" by simp
  then show ?thesis
    using retry_loop_closed[OF delay_bounds] by (simp add: dispatchRetryDelay_def Let_def dispatchRetryBaseDelay_def
        dispatchRetryMaxDelay_def)
qed

subsection \<open>Draining the outbox\<close>

definition due :: "string \<Rightarrow> time \<Rightarrow> MemoryStore \<Rightarrow> (string \<times> Dispatch) list" where
  "due t at s = filter (\<lambda>(k, d). dp_TenantRef d = t \<and> claimable d at True) (mm_dispatches s)"

lemma mset_filter_update:
  assumes "distinct (map fst al)" and "map_of al k = Some v" and "P (k, v)" and "\<not> P (k, v')"
  shows "mset (filter P al) = add_mset (k, v) (mset (filter P (AList.update k v' al)))"
  using assms
proof (induction al)
  case (Cons q al)
  obtain k1 v1 where q: "q = (k1, v1)" by (cases q)
  show ?case
  proof (cases "k1 = k")
    case True
    with Cons.prems q show ?thesis by simp
  next
    case False
    with Cons.prems q have "mset (filter P al) = add_mset (k, v) (mset (filter P (AList.update k v' al)))"
      by (intro Cons.IH) auto
    with False q show ?thesis by simp
  qed
qed simp

text \<open>A drain never meets a row it has delivered again: a delivered row is published.\<close>

lemma claim_loop_drains:
  assumes accepts: "\<And>i m. p i m = None"
  shows "outbox_keyed s \<Longrightarrow> \<forall>k. \<not> mm_claimed s k \<Longrightarrow> length (due t at s) \<le> n \<Longrightarrow>
     (\<And>k d. (k, d) \<in> set (due t at s) \<Longrightarrow> dp_DispatchRef d \<notin> set visited) \<Longrightarrow>
     claim_loop n t at (service_deliver sv p) visited m (s, env) = (m', s', env') \<Longrightarrow>
     due t at s' = [] \<and> m' = m + int (length (due t at s))
     \<and> (\<exists>ms. en_published env' = en_published env @ ms \<and> mset ms = image_mset (message_of \<circ> snd) (mset (due t at s)))"
proof (induction n arbitrary: visited m s env)
  case 0
  then show ?case by simp
next
  case (Suc n)
  obtain od s1 where acq: "acquireNextDispatch t at visited s = (od, s1)" by fastforce
  show ?case
  proof (cases od)
    case None
    with acq have pick: "pick_oldest t at visited (mm_claimed s) None (mm_dispatches s) = None" and "s1 = s"
      by (auto simp: acquireNextDispatch_def split: option.splits)
    have "due t at s = []"
    proof (rule ccontr)
      assume "due t at s \<noteq> []"
      then obtain k d where kd: "(k, d) \<in> set (due t at s)" by (cases "due t at s") auto
      with Suc.prems(4) have "dp_DispatchRef d \<notin> set visited" by blast
      with kd Suc.prems(2) pick_oldest_None[OF pick] show False by (auto simp: due_def)
    qed
    with Suc.prems(5) acq None \<open>s1 = s\<close> show ?thesis by simp
  next
    case (Some d)
    note row = acquire_next_row[OF acq[unfolded Some] Suc.prems(1)]
    let ?r = "dp_DispatchRef d" and ?k = "storeKey t (dp_DispatchRef d)"
    obtain out env1 where dlv: "service_deliver sv p d env = (out, env1)" by fastforce
    with accepts have pub: "do_Published out" "en_published env1 = en_published env @ [message_of d]"
      by (auto simp: service_deliver_def Let_def)
    let ?s2 = "releaseDispatch t ?r (applyDispatchOutcome t ?r out at s1)"
    have s1: "outbox_keyed s1" "map_of (mm_dispatches s1) ?k = Some d" "mm_dispatches s1 = mm_dispatches s"
      using Suc.prems(1) row by (auto simp: outbox_keyed_def)
    have claims: "\<not> mm_claimed ?s2 k" for k
      using Suc.prems(2) acq Some by (auto simp: acquireNextDispatch_def releaseDispatch_def applyDispatchOutcome_def
          Let_def row split: option.splits if_splits)
    have rows2: "mm_dispatches ?s2 = AList.update ?k (apply_outcome out at d) (mm_dispatches s)"
      using s1 by (simp add: applyDispatchOutcome_def)
    have gone: "\<not> claimable (apply_outcome out at d) at True" using pub(1) by (simp add: claimable_def apply_outcome_def Let_def)
    have due: "mset (due t at s) = add_mset (?k, d) (mset (due t at ?s2))"
      unfolding due_def rows2
      by (rule mset_filter_update) (use Suc.prems(1) row gone in \<open>auto simp: outbox_keyed_def\<close>)
    then have len: "Suc (length (due t at ?s2)) = length (due t at s)" by (metis size_add_mset size_mset)
    have visited2: "dp_DispatchRef e \<notin> set (?r # visited)" if e: "(k, e) \<in> set (due t at ?s2)" for k e
    proof -
      from e have e': "dp_TenantRef e = t" "claimable e at True" "(k, e) \<in> set (mm_dispatches ?s2)" by (auto simp: due_def)
      have key: "k = storeKey (dp_TenantRef e) (dp_DispatchRef e)"
        using outbox_keyed_delivery[OF s1(1)] e'(3) unfolding outbox_keyed_def by blast
      have "k \<noteq> ?k" using e' gone Suc.prems(1) update_set[of "mm_dispatches s" ?k "apply_outcome out at d"]
        unfolding rows2 by (auto simp: outbox_keyed_def)
      moreover have "(k, e) \<in> set (due t at s)"
        using e' calculation update_subset[of k e ?k "apply_outcome out at d" "mm_dispatches s"]
        unfolding rows2 by (auto simp: due_def)
      ultimately show ?thesis using Suc.prems(4) key e'(1) by auto
    qed
    have step: "claim_loop n t at (service_deliver sv p) (?r # visited) (m + 1) (?s2, env1) = (m', s', env')"
      using Suc.prems(5) acq Some dlv by simp
    have "due t at s' = [] \<and> m' = m + 1 + int (length (due t at ?s2))
       \<and> (\<exists>ms. en_published env' = en_published env1 @ ms \<and> mset ms = image_mset (message_of \<circ> snd) (mset (due t at ?s2)))"
      by (rule Suc.IH[OF outbox_keyed_delivery[OF s1(1)] _ _ visited2 step]) (use claims len Suc.prems(3) in auto)
    then obtain ms where "due t at s' = []" "m' = m + 1 + int (length (due t at ?s2))"
        "en_published env' = en_published env1 @ ms" "mset ms = image_mset (message_of \<circ> snd) (mset (due t at ?s2))" by blast
    moreover have "mset (message_of d # ms) = image_mset (message_of \<circ> snd) (mset (due t at s))"
      unfolding due using calculation(4) by (simp only: mset.simps image_mset_add_mset o_apply snd_conv)
    moreover have "en_published env' = en_published env @ (message_of d # ms)" using pub(2) calculation(3) by simp
    moreover have "m' = m + int (length (due t at s))" using len calculation(2) by linarith
    ultimately show ?thesis by blast
  qed
qed

lemma republish_drains:
  assumes "sv_store sv = memory_store" and "sv_publisher sv = Some p" and "\<And>i m. p i m = None"
    and "outbox_keyed (wd_store w)" and "\<forall>k. \<not> mm_claimed (wd_store w) k"
    and "at = sv_now sv (en_ticks (wd_env w))" and "length (due t at (wd_store w)) \<le> 1000"
    and "RepublishPending sv False t w = (res, w')"
  shows "res = Inr (int (length (due t at (wd_store w)))) \<and> due t at (wd_store w') = []
     \<and> (\<exists>ms. en_published (wd_env w') = en_published (wd_env w) @ ms
          \<and> mset ms = image_mset (message_of \<circ> snd) (mset (due t at (wd_store w))))"
proof -
  let ?env = "(wd_env w)\<lparr>en_ticks := Suc (en_ticks (wd_env w))\<rparr>"
  obtain m s1 env1 where loop: "claim_loop 1000 t at (service_deliver sv p) [] 0 (wd_store w, ?env) = (m, s1, env1)"
    by (metis prod.collapse)
  then have "mm_ClaimPendingDispatches t 0 at (service_deliver sv p) (wd_store w, ?env) = (Inr m, s1, env1)"
    by (simp add: mm_ClaimPendingDispatches_def defaultDispatchClaimBatch_def del: claim_loop.simps)
  then have run: "res = Inr (int (length (en_published env1)) - int (length (en_published (wd_env w))))" "wd_store w' = s1" "wd_env w' = env1"
    using assms(8) by (auto simp: RepublishPending_def guard_def assms(1,2,6) memory_store_ops andthen_def now_def env_now_def on_error_def on_claim_def)
  from claim_loop_drains[OF assms(3,4,5,7) _ loop]
  obtain ms where ms: "due t at s1 = []" "en_published env1 = en_published (wd_env w) @ ms"
      "mset ms = image_mset (message_of \<circ> snd) (mset (due t at (wd_store w)))" by auto
  then have "length ms = length (due t at (wd_store w))" by (metis size_image_mset size_mset)
  with ms run show ?thesis by auto
qed

text \<open>C18: a recovery drain empties a backlog of at most a thousand rows: when no replica holds a claim, the transport accepts
  and at most a thousand rows of the tenant are due, one call of \<open>RepublishPending\<close> publishes the message of every due row
  exactly once and nothing else, returns their number, and leaves no row due. (A longer backlog takes further drains, and a
  row another replica has claimed is left to that replica.)\<close>

theorem drain_delivers_every_due_row:
  assumes "sv_store sv = memory_store" and "sv_publisher sv = Some p" and "\<And>i m. p i m = None"
    and "store_inv (wd_store w)" and "\<forall>k. \<not> mm_claimed (wd_store w) k"
    and "at = sv_now sv (en_ticks (wd_env w))" and "length (due t at (wd_store w)) \<le> 1000"
    and "RepublishPending sv False t w = (res, w')"
  shows "res = Inr (int (length (due t at (wd_store w)))) \<and> due t at (wd_store w') = []
     \<and> (\<exists>ms. en_published (wd_env w') = en_published (wd_env w) @ ms
          \<and> mset ms = image_mset (message_of \<circ> snd) (mset (due t at (wd_store w))))"
  by (rule republish_drains[OF assms(1-3) _ assms(5-8)]) (use assms(4) in \<open>simp add: store_inv_def\<close>)

definition ex_backlog :: "(MemoryStore, unit) World" where
  "ex_backlog = \<lparr>wd_store = ex_dispatched, wd_evidence = (), wd_env = new_env\<rparr>"

lemma ex_backlog_row: "\<exists>k. mm_dispatches ex_dispatched = [(k, ex_row)]" "\<forall>k. \<not> mm_claimed ex_dispatched k" "store_inv ex_dispatched"
proof -
  show "\<exists>k. mm_dispatches ex_dispatched = [(k, ex_row)]" "\<forall>k. \<not> mm_claimed ex_dispatched k"
    by (simp_all add: ex_dispatched_eq ex_dispatched_def mm_Dispatch_def ex_granted_eq step_grant_of_def
        ConsumeActionGrant_def fail_if_def ex_granted_def mm_Grant_def ex_requested_eq ex_requested_def
        mm_PutRequested_def ex_defs)
  show "store_inv ex_dispatched" using ex_dispatched_reachable store_steps_preserve store_inv_New by blast
qed

theorem drain_delivers_every_due_row_witness:
  "\<exists>w'. RepublishPending ex_service False ''acme'' ex_backlog = (Inr 1, w') \<and> en_published (wd_env w') = [message_of ex_row]"
proof -
  obtain k where k: "mm_dispatches ex_dispatched = [(k, ex_row)]" using ex_backlog_row(1) by blast
  have d: "due ''acme'' 1 (wd_store ex_backlog) = [(k, ex_row)]"
    by (simp add: due_def ex_backlog_def k) (simp add: ex_row_def claimable_def)
  obtain res w' where run: "RepublishPending ex_service False ''acme'' ex_backlog = (res, w')" by fastforce
  have p: "sv_publisher ex_service = Some (\<lambda>_ _. None)" "1 = sv_now ex_service (en_ticks (wd_env ex_backlog))"
      "en_published (wd_env ex_backlog) = []" by (simp_all add: ex_service_def ex_backlog_def new_env_def)
  from drain_delivers_every_due_row[OF ex_service_ok(2) p(1) refl _ _ p(2) _ run] ex_backlog_row(2,3) d p(3) run
  show ?thesis by (auto simp: ex_backlog_def)
qed

subsection \<open>Dead letters\<close>

text \<open>What a failed attempt makes of a row.\<close>

definition failed_once :: "time \<Rightarrow> Dispatch \<Rightarrow> Dispatch \<Rightarrow> bool" where
  "failed_once at d d' \<longleftrightarrow> (\<exists>out. d' = apply_outcome out at d \<and> \<not> do_Published out \<and> (do_DeadLetter out \<longleftrightarrow> dp_Attempts d + 1 \<ge> maxDispatchAttempts))"

lemma failed_delivery:
  assumes "\<And>n m. p n m \<noteq> None" and "service_deliver sv p d env = (out, env')"
  shows "failed_once at d (apply_outcome out at d)" and "en_published env' = en_published env"
proof -
  obtain err where "p (en_publishCalls env) (message_of d) = Some err" using assms(1) by blast
  with assms(2) have "\<not> do_Published out \<and> (do_DeadLetter out \<longleftrightarrow> dp_Attempts d + 1 \<ge> maxDispatchAttempts)"
    and "en_published env' = en_published env"
    by (auto simp: service_deliver_def env_now_def Let_def split: if_splits)
  then show "failed_once at d (apply_outcome out at d)" "en_published env' = en_published env" by (auto simp: failed_once_def)
qed

text \<open>The keys of the rows a drain has still to try.\<close>

definition to_try :: "string \<Rightarrow> time \<Rightarrow> string list \<Rightarrow> MemoryStore \<Rightarrow> string set" where
  "to_try t at visited s = {k. \<exists>d. map_of (mm_dispatches s) k = Some d \<and> dp_TenantRef d = t \<and> claimable d at True
     \<and> dp_DispatchRef d \<notin> set visited}"

lemma finite_to_try: "finite (to_try t at visited s)"
  by (rule finite_subset[OF _ finite_dom_map_of[of "mm_dispatches s"]]) (auto simp: to_try_def)

lemma to_try_delivered:
  assumes "outbox_keyed s" and "map_of (mm_dispatches s) k = Some d" and "k = storeKey t (dp_DispatchRef d)" and "dp_TenantRef d = t"
    and "mm_dispatches s2 = AList.update k d' (mm_dispatches s)" and "dp_DispatchRef d' = dp_DispatchRef d"
  shows "to_try t at (dp_DispatchRef d # visited) s2 = to_try t at visited s - {k}"
proof -
  have other: "dp_DispatchRef e \<noteq> dp_DispatchRef d" if "k' \<noteq> k" "map_of (mm_dispatches s) k' = Some e" "dp_TenantRef e = t" for k' e
    using that assms(1,3) unfolding outbox_keyed_def by (auto dest!: map_of_SomeD)
  show ?thesis
    unfolding to_try_def assms(5) update_conv' using other assms(6) by auto
qed

lemma claim_loop_fails:
  assumes fails: "\<And>i m. p i m \<noteq> None"
  shows "outbox_keyed s \<Longrightarrow> \<forall>k. \<not> mm_claimed s k \<Longrightarrow>
     claim_loop n t at (service_deliver sv p) visited m (s, env) = (m', s', env') \<Longrightarrow>
     outbox_keyed s' \<and> (\<forall>k. \<not> mm_claimed s' k) \<and> en_published env' = en_published env
     \<and> (\<forall>k d. map_of (mm_dispatches s) k = Some d \<longrightarrow> (\<exists>d'. map_of (mm_dispatches s') k = Some d'
          \<and> (d' = d \<or> k \<in> to_try t at visited s \<and> failed_once at d d')
          \<and> (k \<in> to_try t at visited s \<and> card (to_try t at visited s) \<le> n \<longrightarrow> failed_once at d d')))"
proof (induction n arbitrary: visited m s env)
  case 0
  then show ?case using finite_to_try by fastforce
next
  case (Suc n)
  obtain od s1 where acq: "acquireNextDispatch t at visited s = (od, s1)" by fastforce
  show ?case
  proof (cases od)
    case None
    with acq have pick: "pick_oldest t at visited (mm_claimed s) None (mm_dispatches s) = None" and "s1 = s"
      by (auto simp: acquireNextDispatch_def split: option.splits)
    have "to_try t at visited s = {}"
      using pick_oldest_None[OF pick] Suc.prems(2) by (fastforce simp: to_try_def dest: map_of_SomeD)
    with Suc.prems acq None \<open>s1 = s\<close> show ?thesis by auto
  next
    case (Some d)
    note row = acquire_next_row[OF acq[unfolded Some] Suc.prems(1)]
    let ?r = "dp_DispatchRef d" and ?k = "storeKey t (dp_DispatchRef d)"
    obtain out env1 where dlv: "service_deliver sv p d env = (out, env1)" by fastforce
    note failed = failed_delivery(1)[OF fails dlv, of at] failed_delivery(2)[OF fails dlv]
    let ?s2 = "releaseDispatch t ?r (applyDispatchOutcome t ?r out at s1)"
    have s1: "outbox_keyed s1" "map_of (mm_dispatches s1) ?k = Some d"
      using Suc.prems(1) row by (auto simp: outbox_keyed_def)
    have claims: "\<forall>k. \<not> mm_claimed ?s2 k"
      using Suc.prems(2) acq Some by (auto simp: acquireNextDispatch_def releaseDispatch_def applyDispatchOutcome_def
          Let_def row split: option.splits if_splits)
    have rows2: "mm_dispatches ?s2 = AList.update ?k (apply_outcome out at d) (mm_dispatches s)"
      using s1 row(4) by (simp add: applyDispatchOutcome_def)
    have rest: "to_try t at (?r # visited) ?s2 = to_try t at visited s - {?k}"
      by (rule to_try_delivered[OF Suc.prems(1) row(1) refl row(2) rows2]) (simp add: apply_outcome_def Let_def)
    obtain k0 where "(k0, d) \<in> set (mm_dispatches s) \<and> dp_DispatchRef d \<notin> set visited"
      using acq Some pick_oldest_Some by (fastforce simp: acquireNextDispatch_def split: option.splits)
    then have here: "?k \<in> to_try t at visited s" using row by (simp add: to_try_def)
    then have card: "card (to_try t at visited s) = Suc (card (to_try t at (?r # visited) ?s2))"
      unfolding rest using finite_to_try by (metis card_Suc_Diff1)
    have step: "claim_loop n t at (service_deliver sv p) (?r # visited) (m + 1) (?s2, env1) = (m', s', env')"
      using Suc.prems(3) acq Some dlv by simp
    note IH = Suc.IH[OF outbox_keyed_delivery[OF s1(1)] claims step]
    have "\<exists>d'. map_of (mm_dispatches s') k = Some d' \<and> (d' = e \<or> k \<in> to_try t at visited s \<and> failed_once at e d')
        \<and> (k \<in> to_try t at visited s \<and> card (to_try t at visited s) \<le> Suc n \<longrightarrow> failed_once at e d')"
      if e: "map_of (mm_dispatches s) k = Some e" for k e
    proof (cases "k = ?k")
      case True
      with e row(1) have "e = d" by simp
      moreover have "map_of (mm_dispatches ?s2) ?k = Some (apply_outcome out at d)" unfolding rows2 by (simp add: update_conv')
      ultimately show ?thesis using IH True failed(1) here by (auto simp: rest)
    next
      case False
      then have "map_of (mm_dispatches ?s2) k = Some e" unfolding rows2 using e by (simp add: update_conv')
      with IH obtain d' where d': "map_of (mm_dispatches s') k = Some d'" "d' = e \<or> k \<in> to_try t at (?r # visited) ?s2 \<and> failed_once at e d'"
          "k \<in> to_try t at (?r # visited) ?s2 \<and> card (to_try t at (?r # visited) ?s2) \<le> n \<longrightarrow> failed_once at e d'" by blast
      have "k \<in> to_try t at (?r # visited) ?s2 \<longleftrightarrow> k \<in> to_try t at visited s" unfolding rest using False by simp
      with d' card show ?thesis by (intro exI[of _ d']) simp
    qed
    with IH failed(2) show ?thesis by simp
  qed
qed

text \<open>One drain of \<open>RepublishPending\<close> against a transport that refuses everything.\<close>

lemma drain_fails:
  assumes "sv_store sv = memory_store" and "sv_publisher sv = Some p" and "\<And>i m. p i m \<noteq> None"
    and "outbox_keyed (wd_store w)" and "\<forall>k. \<not> mm_claimed (wd_store w) k"
    and "at = sv_now sv (en_ticks (wd_env w))" and w': "w' = snd (RepublishPending sv False t w)"
    and "map_of (mm_dispatches (wd_store w)) k = Some d"
  shows "outbox_keyed (wd_store w')" and "\<forall>k. \<not> mm_claimed (wd_store w') k" and "en_published (wd_env w') = en_published (wd_env w)"
    and "\<exists>d'. map_of (mm_dispatches (wd_store w')) k = Some d' \<and> (d' = d \<or> claimable d at True \<and> failed_once at d d')
       \<and> (k \<in> fst ` set (due t at (wd_store w)) \<and> length (due t at (wd_store w)) \<le> 1000 \<longrightarrow> failed_once at d d')"
proof -
  let ?env = "(wd_env w)\<lparr>en_ticks := Suc (en_ticks (wd_env w))\<rparr>"
  obtain m s1 env1 where loop: "claim_loop 1000 t at (service_deliver sv p) [] 0 (wd_store w, ?env) = (m, s1, env1)"
    by (metis prod.collapse)
  then have "mm_ClaimPendingDispatches t 0 at (service_deliver sv p) (wd_store w, ?env) = (Inr m, s1, env1)"
    by (simp add: mm_ClaimPendingDispatches_def defaultDispatchClaimBatch_def del: claim_loop.simps)
  then have run: "wd_store w' = s1" "wd_env w' = env1"
    unfolding w' by (auto simp: RepublishPending_def guard_def assms(1,2,6) memory_store_ops andthen_def now_def env_now_def on_error_def on_claim_def)
  note after = claim_loop_fails[OF assms(3,4,5) loop]
  from after show "outbox_keyed (wd_store w')" "\<forall>k. \<not> mm_claimed (wd_store w') k" "en_published (wd_env w') = en_published (wd_env w)"
    by (simp_all add: run)
  have "map_of (mm_dispatches (wd_store w)) j = Some e \<longleftrightarrow> (j, e) \<in> set (mm_dispatches (wd_store w))" for j e
    using assms(4) by (simp add: outbox_keyed_def)
  then have tries: "to_try t at [] (wd_store w) = fst ` set (due t at (wd_store w))"
    by (auto simp: to_try_def due_def image_iff)
  have "card (to_try t at [] (wd_store w)) \<le> length (due t at (wd_store w))" unfolding tries by (metis card_length image_set length_map)
  moreover have "claimable d at True" if "k \<in> to_try t at [] (wd_store w)" using that assms(8) by (auto simp: to_try_def)
  moreover obtain d' where "map_of (mm_dispatches s1) k = Some d'" "d' = d \<or> k \<in> to_try t at [] (wd_store w) \<and> failed_once at d d'"
      "k \<in> to_try t at [] (wd_store w) \<and> card (to_try t at [] (wd_store w)) \<le> 1000 \<longrightarrow> failed_once at d d'"
    using after assms(8) by blast
  ultimately show "\<exists>d'. map_of (mm_dispatches (wd_store w')) k = Some d' \<and> (d' = d \<or> claimable d at True \<and> failed_once at d d')
       \<and> (k \<in> fst ` set (due t at (wd_store w)) \<and> length (due t at (wd_store w)) \<le> 1000 \<longrightarrow> failed_once at d d')"
    unfolding run tries by (intro exI[of _ d']) auto
qed

text \<open>C19: a dispatch that cannot be published is given up after exactly eight attempts: however often the pump drains while the
  transport refuses, nothing is published, a row is attempted at most once per drain and at most eight times in all, it is
  dead-lettered exactly when the eighth has failed, and no claim takes it after that. Every drain at which the row is due, among at
  most a thousand due rows, does attempt it.\<close>

theorem unpublishable_dead_letters_at_eight:
  assumes "sv_store sv = memory_store" and "sv_publisher sv = Some p" and "\<And>i m. p i m \<noteq> None" and "\<forall>i. sv_now sv i \<noteq> 0"
    and "store_inv (wd_store w)" and "\<forall>k. \<not> mm_claimed (wd_store w) k"
    and "map_of (mm_dispatches (wd_store w)) k = Some d" and "\<not> dp_Published d" and "dp_Attempts d = 0" and "dp_DeadLetteredAt d = 0"
    and W: "W = (\<lambda>i. ((\<lambda>w. snd (RepublishPending sv False t w)) ^^ i) w)"
  shows "en_published (wd_env (W n)) = en_published (wd_env w) \<and> (\<exists>d'. map_of (mm_dispatches (wd_store (W n))) k = Some d'
     \<and> message_of d' = message_of d \<and> \<not> dp_Published d' \<and> dp_Attempts d' \<le> min 8 (int n) \<and> (dp_DeadLetteredAt d' \<noteq> 0 \<longleftrightarrow> dp_Attempts d' = 8)
     \<and> (dp_DeadLetteredAt d' \<noteq> 0 \<longrightarrow> (\<forall>at e. \<not> claimable d' at e))
     \<and> ((\<forall>i < n. k \<in> fst ` set (due t (sv_now sv (en_ticks (wd_env (W i)))) (wd_store (W i)))
          \<and> length (due t (sv_now sv (en_ticks (wd_env (W i)))) (wd_store (W i))) \<le> 1000) \<longrightarrow> dp_Attempts d' = int n))"
proof -
  have "outbox_keyed (wd_store (W n)) \<and> (\<forall>k. \<not> mm_claimed (wd_store (W n)) k) \<and> en_published (wd_env (W n)) = en_published (wd_env w)
     \<and> (\<exists>d'. map_of (mm_dispatches (wd_store (W n))) k = Some d' \<and> message_of d' = message_of d \<and> \<not> dp_Published d'
     \<and> dp_Attempts d' \<le> min 8 (int n) \<and> (dp_DeadLetteredAt d' \<noteq> 0 \<longleftrightarrow> dp_Attempts d' = 8)
     \<and> ((\<forall>i < n. k \<in> fst ` set (due t (sv_now sv (en_ticks (wd_env (W i)))) (wd_store (W i)))
          \<and> length (due t (sv_now sv (en_ticks (wd_env (W i)))) (wd_store (W i))) \<le> 1000) \<longrightarrow> dp_Attempts d' = int n))"
  proof (induction n)
    case 0
    then show ?case using assms(5-10) by (simp add: W store_inv_def)
  next
    case (Suc n)
    then obtain d1 where d1: "map_of (mm_dispatches (wd_store (W n))) k = Some d1" "message_of d1 = message_of d" "\<not> dp_Published d1"
        "dp_Attempts d1 \<le> min 8 (int n)" "dp_DeadLetteredAt d1 \<noteq> 0 \<longleftrightarrow> dp_Attempts d1 = 8"
        "(\<forall>i < n. k \<in> fst ` set (due t (sv_now sv (en_ticks (wd_env (W i)))) (wd_store (W i)))
          \<and> length (due t (sv_now sv (en_ticks (wd_env (W i)))) (wd_store (W i))) \<le> 1000) \<longrightarrow> dp_Attempts d1 = int n"
      by blast
    let ?at = "sv_now sv (en_ticks (wd_env (W n)))"
    have step: "W (Suc n) = snd (RepublishPending sv False t (W n))" by (simp add: W)
    note drain = drain_fails[OF assms(1-3) _ _ refl step d1(1)]
    obtain d2 where d2: "map_of (mm_dispatches (wd_store (W (Suc n)))) k = Some d2" "d2 = d1 \<or> claimable d1 ?at True \<and> failed_once ?at d1 d2"
        "k \<in> fst ` set (due t ?at (wd_store (W n))) \<and> length (due t ?at (wd_store (W n))) \<le> 1000 \<longrightarrow> failed_once ?at d1 d2"
      using drain(4) Suc.IH by blast
    have tried: "message_of d2 = message_of d1 \<and> \<not> dp_Published d2 \<and> dp_Attempts d2 = dp_Attempts d1 + 1
        \<and> (dp_DeadLetteredAt d2 \<noteq> 0 \<longleftrightarrow> dp_Attempts d2 = 8) \<and> dp_Attempts d2 \<le> 8" if "failed_once ?at d1 d2" "dp_Attempts d1 \<noteq> 8"
      using that d1(3-5) assms(4) by (auto simp: failed_once_def apply_outcome_def Let_def maxDispatchAttempts_def message_of_def)
    have alive: "dp_Attempts d1 \<noteq> 8" if "claimable d1 ?at True" using that d1(5) by (auto simp: claimable_def)
    have "claimable d1 ?at True" if here: "k \<in> fst ` set (due t ?at (wd_store (W n)))"
    proof -
      obtain b where b: "(k, b) \<in> set (mm_dispatches (wd_store (W n)))" "claimable b ?at True" using here by (auto simp: due_def)
      with Suc.IH have "map_of (mm_dispatches (wd_store (W n))) k = Some b" by (simp add: outbox_keyed_def)
      with b d1(1) show ?thesis by simp
    qed
    with tried alive d2(3) have due: "k \<in> fst ` set (due t ?at (wd_store (W n))) \<and> length (due t ?at (wd_store (W n))) \<le> 1000
        \<Longrightarrow> dp_Attempts d2 = dp_Attempts d1 + 1" by blast
    have row: "message_of d2 = message_of d \<and> \<not> dp_Published d2 \<and> (dp_DeadLetteredAt d2 \<noteq> 0 \<longleftrightarrow> dp_Attempts d2 = 8)
        \<and> dp_Attempts d2 \<le> min 8 (int (Suc n))"
      using d2(2)
    proof
      assume "d2 = d1"
      with d1 show ?thesis by simp
    next
      assume "claimable d1 ?at True \<and> failed_once ?at d1 d2"
      with tried alive d1(2,4) show ?thesis by simp
    qed
    have count: "dp_Attempts d2 = int (Suc n)" if all: "\<forall>i < Suc n. k \<in> fst ` set (due t (sv_now sv (en_ticks (wd_env (W i)))) (wd_store (W i)))
          \<and> length (due t (sv_now sv (en_ticks (wd_env (W i)))) (wd_store (W i))) \<le> 1000"
    proof -
      have "dp_Attempts d1 = int n" using d1(6) all by (meson less_SucI)
      with due all show ?thesis by (metis lessI of_nat_Suc add.commute)
    qed
    have keyed: "outbox_keyed (wd_store (W (Suc n)))" "\<forall>k. \<not> mm_claimed (wd_store (W (Suc n))) k"
        "en_published (wd_env (W (Suc n))) = en_published (wd_env w)"
      using drain(1-3) Suc.IH by simp_all
    show ?case using keyed d2(1) row count by blast
  qed
  then show ?thesis by (auto simp: claimable_def)
qed


text \<open>A transport that is down, and a clock that passes every backoff between two drains.\<close>

definition ex_down :: "(MemoryStore, unit) Service" where
  "ex_down = ex_service\<lparr>sv_publisher := Some (\<lambda>_ _. Some ''down''), sv_now := (\<lambda>n. (int n + 1) * (10 * minute))\<rparr>"

definition ex_row_at :: "(MemoryStore, unit) World \<Rightarrow> string \<Rightarrow> nat \<Rightarrow> bool" where
  "ex_row_at w k n \<longleftrightarrow> (\<exists>d. mm_dispatches (wd_store w) = [(k, d)] \<and> k = storeKey ''acme'' (dp_DispatchRef d) \<and> dp_TenantRef d = ''acme''
     \<and> dp_Attempts d = int n \<and> \<not> dp_Published d \<and> dp_DeadLetteredAt d = 0
     \<and> dp_NextAttemptAt d \<le> (int (en_ticks (wd_env w)) + 1) * (10 * minute)) \<and> (\<forall>k. \<not> mm_claimed (wd_store w) k)"

lemma claim_loop_none: "acquireNextDispatch t at visited s = (None, s) \<Longrightarrow> claim_loop n t at dlv visited m (s, env) = (m, s, env)"
  by (cases n) simp_all

lemma ex_down_drain:
  assumes "ex_row_at w k n" and "n < 7"
  shows "ex_row_at (snd (RepublishPending ex_down False ''acme'' w)) k (Suc n)"
proof -
  obtain d where d: "mm_dispatches (wd_store w) = [(k, d)]" "k = storeKey ''acme'' (dp_DispatchRef d)" "dp_TenantRef d = ''acme''"
      "dp_Attempts d = int n" "\<not> dp_Published d" "dp_DeadLetteredAt d = 0" "dp_NextAttemptAt d \<le> (int (en_ticks (wd_env w)) + 1) * (10 * minute)"
      "\<forall>k. \<not> mm_claimed (wd_store w) k" using assms(1) by (auto simp: ex_row_at_def)
  have sv: "sv_store ex_down = memory_store" "sv_publisher ex_down = Some (\<lambda>_ _. Some ''down'')" "sv_now ex_down i = (int i + 1) * (10 * minute)" for i
    by (simp_all add: ex_down_def ex_service_ok)
  let ?at = "(int (en_ticks (wd_env w)) + 1) * (10 * minute)" and ?env = "(wd_env w)\<lparr>en_ticks := Suc (en_ticks (wd_env w))\<rparr>"
  let ?r = "dp_DispatchRef d"
  have pick: "acquireNextDispatch ''acme'' ?at [] (wd_store w) = (Some d, (wd_store w)\<lparr>mm_claimed := (mm_claimed (wd_store w))(k := True)\<rparr>)"
    using d by (simp add: acquireNextDispatch_def claimable_def)
  obtain out env1 where dlv: "service_deliver ex_down (\<lambda>_ _. Some ''down'') d ?env = (out, env1)" by fastforce
  have out: "\<not> do_Published out" "\<not> do_DeadLetter out" "do_NextAttemptAt out \<le> (int (en_ticks env1) + 1) * (10 * minute)"
    using dlv d(4) assms(2) delay_bounds
    by (auto simp: service_deliver_def env_now_def Let_def maxDispatchAttempts_def sv retry_delay_is_capped_doubling algebra_simps minute_def second_def)
  define s2 where "s2 = releaseDispatch ''acme'' ?r (applyDispatchOutcome ''acme'' ?r out ?at ((wd_store w)\<lparr>mm_claimed := (mm_claimed (wd_store w))(k := True)\<rparr>))"
  have s2: "mm_dispatches s2 = [(k, apply_outcome out ?at d)]" "\<forall>k. \<not> mm_claimed s2 k"
    using d by (simp_all add: s2_def applyDispatchOutcome_def releaseDispatch_def Let_def)
  have none: "acquireNextDispatch ''acme'' ?at [?r] s2 = (None, s2)"
    using s2 by (simp add: acquireNextDispatch_def apply_outcome_def Let_def)
  have "claim_loop (Suc 999) ''acme'' ?at (service_deliver ex_down (\<lambda>_ _. Some ''down'')) [] 0 (wd_store w, ?env) = (1, s2, env1)"
    unfolding claim_loop.simps pick prod.case option.case dlv s2_def[symmetric] using claim_loop_none[OF none] by simp
  then have "mm_ClaimPendingDispatches ''acme'' 0 ?at (service_deliver ex_down (\<lambda>_ _. Some ''down'')) (wd_store w, ?env) = (Inr 1, s2, env1)"
    by (simp add: mm_ClaimPendingDispatches_def defaultDispatchClaimBatch_def del: claim_loop.simps)
  then have "wd_store (snd (RepublishPending ex_down False ''acme'' w)) = s2" "wd_env (snd (RepublishPending ex_down False ''acme'' w)) = env1"
    by (simp_all add: RepublishPending_def guard_def sv memory_store_ops andthen_def now_def env_now_def on_error_def on_claim_def)
  with s2 d out show ?thesis by (simp add: ex_row_at_def apply_outcome_def Let_def)
qed

lemma ex_row_due:
  assumes "ex_row_at w k n"
  shows "k \<in> fst ` set (due ''acme'' ((int (en_ticks (wd_env w)) + 1) * (10 * minute)) (wd_store w))
     \<and> length (due ''acme'' ((int (en_ticks (wd_env w)) + 1) * (10 * minute)) (wd_store w)) \<le> 1000"
proof -
  obtain d where d: "mm_dispatches (wd_store w) = [(k, d)]" "dp_TenantRef d = ''acme''" "\<not> dp_Published d" "dp_DeadLetteredAt d = 0"
      "dp_NextAttemptAt d \<le> (int (en_ticks (wd_env w)) + 1) * (10 * minute)" using assms by (auto simp: ex_row_at_def)
  then have "due ''acme'' ((int (en_ticks (wd_env w)) + 1) * (10 * minute)) (wd_store w) = [(k, d)]" by (simp add: due_def claimable_def)
  then show ?thesis by simp
qed

theorem unpublishable_dead_letters_at_eight_witness:
  "\<exists>k d. map_of (mm_dispatches (wd_store (((\<lambda>w. snd (RepublishPending ex_down False ''acme'' w)) ^^ 8) ex_backlog))) k = Some d
     \<and> dp_Attempts d = 8 \<and> dp_DeadLetteredAt d \<noteq> 0 \<and> message_of d = message_of ex_row"
proof -
  obtain k where k: "mm_dispatches ex_dispatched = [(k, ex_row)]" using ex_backlog_row(1) by blast
  let ?W = "\<lambda>i. ((\<lambda>w. snd (RepublishPending ex_down False ''acme'' w)) ^^ i) ex_backlog"
  have "outbox_keyed ex_dispatched" using ex_backlog_row(3) by (simp add: store_inv_def)
  then have key: "k = storeKey ''acme'' (dp_DispatchRef ex_row)" using k by (simp add: outbox_keyed_def) (simp add: ex_row_def)
  have start: "ex_row_at ex_backlog k 0"
    using k key ex_backlog_row(2) by (simp add: ex_row_at_def ex_backlog_def) (simp add: ex_row_def minute_def second_def)
  have at: "i \<le> 7 \<Longrightarrow> ex_row_at (?W i) k i" for i
    by (induction i) (use start ex_down_drain in auto)
  have due: "k \<in> fst ` set (due ''acme'' (sv_now ex_down (en_ticks (wd_env (?W i)))) (wd_store (?W i)))
      \<and> length (due ''acme'' (sv_now ex_down (en_ticks (wd_env (?W i)))) (wd_store (?W i))) \<le> 1000" if "i < 8" for i
    using ex_row_due[OF at[of i]] that by (simp add: ex_down_def)
  have sv: "sv_store ex_down = memory_store" "sv_publisher ex_down = Some (\<lambda>_ _. Some ''down'')" "\<forall>i. sv_now ex_down i \<noteq> 0"
    by (simp_all add: ex_down_def ex_service_ok minute_def second_def)
  have row: "map_of (mm_dispatches (wd_store ex_backlog)) k = Some ex_row" "store_inv (wd_store ex_backlog)" "\<forall>k. \<not> mm_claimed (wd_store ex_backlog) k"
    using k ex_backlog_row(2,3) by (simp_all add: ex_backlog_def)
  have fresh: "\<not> dp_Published ex_row" "dp_Attempts ex_row = 0" "dp_DeadLetteredAt ex_row = 0" by (simp_all add: ex_row_def)
  from unpublishable_dead_letters_at_eight[OF sv(1,2) _ sv(3) row(2,3,1) fresh refl, of 8 "''acme''"] due
  show ?thesis by auto
qed

subsection \<open>Replayed requests\<close>

lemma store_step_idem:
  assumes "store_step s s'" and "mm_byIdem s k = Some ref"
  shows "mm_byIdem s' k = Some ref"
  using assms(1)
proof (cases rule: store_step.cases)
  case (put c r)
  from put(2) show ?thesis using assms(2) by (cases rule: mm_PutRequested_cases) auto
next
  case (grant c g b r)
  from grant(5) show ?thesis using assms(2) by (cases rule: mm_Grant_cases) auto
next
  case (dispatch t ref d at r)
  from dispatch(3) show ?thesis using assms(2) by (cases rule: mm_Dispatch_cases) auto
next
  case (transition t to ref fr reason at r)
  from transition(3) show ?thesis using assms(2) by (cases rule: mm_Transition_cases) auto
next
  case (ingest res to at r)
  from ingest(3) show ?thesis using assms(2) by (cases rule: mm_IngestResult_cases) auto
next
  case (acquire t ref at eligible r)
  then show ?thesis using assms(2) by (auto elim: acquireDispatch_cases)
next
  case (acquire_next t at visited r)
  then show ?thesis using assms(2) by (auto simp: acquireNextDispatch_def split: option.splits)
next
  case (outcome t ref out at)
  then show ?thesis using assms(2) by (cases rule: applyDispatchOutcome_cases[of s t ref out at]) auto
next
  case (release t ref)
  then show ?thesis using assms(2) by (simp add: releaseDispatch_def)
qed

lemma store_steps_idem: "store_step\<^sup>*\<^sup>* s s' \<Longrightarrow> mm_byIdem s k = Some ref \<Longrightarrow> mm_byIdem s' k = Some ref"
  by (induction rule: rtranclp_induct) (auto intro: store_step_idem)

text \<open>What a successful request leaves behind, whether it created the action or found it.\<close>

definition filed :: "PrincipalContext \<Rightarrow> ActionRequest \<Rightarrow> Action \<Rightarrow> MemoryStore \<Rightarrow> bool" where
  "filed prin req a s \<longleftrightarrow>
     mm_byIdem s (storeKey (pc_TenantRef prin) (ar_IdempotencyKey req)) = Some (ac_ActionRef a)
     \<and> mm_actions s (storeKey (pc_TenantRef prin) (ac_ActionRef a)) = Some a
     \<and> ac_Capability a = ar_Capability req \<and> ac_ParameterHash a = ar_ParameterHash req
     \<and> ac_BusinessContextRef a = ar_BusinessContextRef req"

definition admissible :: "PrincipalContext \<Rightarrow> ActionRequest \<Rightarrow> bool" where
  "admissible prin req \<longleftrightarrow> PrincipalContext_Validate prin = None \<and> ActionRequest_Validate req = None
     \<and> pc_TrustClass prin \<noteq> TrustUntrusted"

lemma idem_found:
  assumes "store_inv s" and "nul_free t" and "mm_byIdem s (storeKey t i) = Some ref"
  shows "mm_actions s (storeKey t ref) = Some (action_at s (storeKey t ref))"
    and "ac_ActionRef (action_at s (storeKey t ref)) = ref"
proof -
  obtain a where a: "mm_actions s (storeKey (ac_TenantRef a) ref) = Some a"
      "storeKey t i = storeKey (ac_TenantRef a) (ac_IdempotencyKey a)"
    using assms idem_indexE unfolding store_inv_def by metis
  moreover from a(1) have "nul_free (ac_TenantRef a)" "ac_ActionRef a = ref"
    using actions_keyedD[OF assms(1) a(1)] by (auto dest: storeKey_inject[THEN iffD1, rotated 2])
  ultimately show "mm_actions s (storeKey t ref) = Some (action_at s (storeKey t ref))"
    "ac_ActionRef (action_at s (storeKey t ref)) = ref"
    using assms(2) by (simp_all add: action_at_def)
qed

lemma request_files:
  assumes sv: "sv_store sv = memory_store" and inv: "store_inv (wd_store w)" and t: "nul_free (pc_TenantRef prin)"
  shows "wp (RequestAction sv d prin req) (\<lambda>a w'. filed prin req a (wd_store w') \<and> admissible prin req) (\<lambda>_ _. True) w"
proof -
  have get: "wp (mm_GetByIdempotencyKey (pc_TenantRef prin) i) Q E s" if "store_inv s"
    "\<And>a. mm_byIdem s (storeKey (pc_TenantRef prin) i) = Some (ac_ActionRef a) \<Longrightarrow>
        mm_actions s (storeKey (pc_TenantRef prin) (ac_ActionRef a)) = Some a \<Longrightarrow> Q a s"
    "mm_byIdem s (storeKey (pc_TenantRef prin) i) = None \<Longrightarrow> E (Sentinel ErrNotFound) s" for i Q E s
    using that(2,3) idem_found[OF that(1) t] by (auto simp: wp_def mm_GetByIdempotencyKey_def split: option.splits)
  have put: "wp (mm_PutRequested a) Q (\<lambda>_ _. True) s"
    if "mm_byIdem s (storeKey (ac_TenantRef a) (ac_IdempotencyKey a)) = None"
      "\<And>s'. mm_byIdem s' (storeKey (ac_TenantRef a) (ac_IdempotencyKey a)) = Some (ac_ActionRef a) \<Longrightarrow>
        mm_actions s' (storeKey (ac_TenantRef a) (ac_ActionRef a)) = Some a \<Longrightarrow> Q (a, True) s'" for a Q s
    using that by (auto simp: wp_def mm_PutRequested_def)
  show ?thesis
    unfolding RequestAction_def create_requested_def wp_simps sv memory_store_ops Let_def
    by (intro conjI impI allI wp_appendAuditI get inv)
      (auto simp: filed_def admissible_def requested_action_def intro!: put)
qed

lemma replay_returns:
  assumes "sv_store sv = memory_store" and "admissible prin req"
    and "mm_byIdem (wd_store w) (storeKey (pc_TenantRef prin) (ar_IdempotencyKey req)) = Some ref"
    and "mm_actions (wd_store w) (storeKey (pc_TenantRef prin) ref) = Some b"
    and "ac_Capability b = ar_Capability req" "ac_ParameterHash b = ar_ParameterHash req"
      "ac_BusinessContextRef b = ar_BusinessContextRef req"
  shows "RequestAction sv False prin req w = (Inr b, w)"
  using assms
  by (simp add: RequestAction_def guard_def invalid_def admissible_def andthen_def attempt_def on_action_store_def
      memory_store_ops mm_GetByIdempotencyKey_def action_at_def)

text \<open>C17: a request is idempotent for ever: once a request succeeded, sending the same request again, after
  any further run of calls, returns the very action it filed, in whatever status it is by then, and touches
  nothing: no second action, no audit event, no identifier drawn.\<close>

theorem replayed_request_returns_same_action:
  assumes "well_formed_service sv" and "sv_store sv = memory_store"
    and "\<forall>(d, c) \<in> set (cs @ cs'). nul_free (call_tenant c)" and "nul_free (pc_TenantRef prin)"
    and "RequestAction sv d prin req (serve_all sv cs (start_world ev)) = (Inr a, w1)"
    and "w2 = serve_all sv cs' w1"
  shows "\<exists>b. RequestAction sv False prin req w2 = (Inr b, w2) \<and> same_binding a b
     \<and> canTransition\<^sup>*\<^sup>* (ac_Status a) (ac_Status b)"
proof -
  let ?w = "serve_all sv cs (start_world ev)"
  have ev0: "evolves (\<lambda>_. 0) sv (start_world ev) ?w"
    using serve_all_evolves[OF assms(1,2) start_evolves] assms(3) by auto
  have files: "filed prin req a (wd_store w1)" "admissible prin req"
    using wp_Inr[OF request_files[OF assms(2) evolves_inv[OF ev0] assms(4)] assms(5)] by auto
  have "evolves (\<lambda>_. 0) sv (start_world ev) w1"
    using handlers_evolve(1)[OF assms(1,2,4) ev0, of d req] assms(5) by simp
  then have "evolves (\<lambda>_. 0) sv w1 w1" by (simp add: evolves_def)
  then have "evolves (\<lambda>_. 0) sv w1 w2"
    using serve_all_evolves[OF assms(1,2), of _ w1 w1 cs'] assms(3,6) by auto
  then have steps: "store_step\<^sup>*\<^sup>* (wd_store w1) (wd_store w2)" by (simp add: evolves_def)
  obtain b where b: "mm_actions (wd_store w2) (storeKey (pc_TenantRef prin) (ac_ActionRef a)) = Some b"
      "same_binding a b" "canTransition\<^sup>*\<^sup>* (ac_Status a) (ac_Status b)"
    using store_steps_advance[OF steps] files(1) unfolding filed_def by blast
  have "RequestAction sv False prin req w2 = (Inr b, w2)"
    using replay_returns[OF assms(2) files(2) store_steps_idem[OF steps] b(1)] files(1) b(2)
    by (auto simp: filed_def same_binding_def)
  with b show ?thesis by blast
qed

definition ex_risk :: RiskDecision where
  "ex_risk = \<lparr>rd_DecisionID = ''d1'', rd_Authority = ''risk'', rd_RiskLevel = RiskLow, rd_Reasons = [],
     rd_Capability = ''crm.note'', rd_ParameterHash = HashParameters ''{}'',
     rd_BusinessContextRef = ''wc_aaaaaaaaaaaaaaaa'', rd_IssuedAt = 1, rd_ExpiresAt = 50,
     rd_Signature = \<lparr>sig_Algorithm = ''ed25519'', sig_KeyID = ''k1'', sig_Value = ''s''\<rparr>\<rparr>"

definition ex_request :: ActionRequest where
  "ex_request = \<lparr>ar_RequestID = ''req'', ar_TraceID = [], ar_BusinessContextRef = ''wc_aaaaaaaaaaaaaaaa'',
     ar_Capability = ''crm.note'', ar_Parameters = ''{}'', ar_ParameterHash = HashParameters ''{}'',
     ar_Purpose = ''note'', ar_Constraints = None, ar_RiskDecision = ex_risk, ar_ApprovalPlanRef = None,
     ar_IdempotencyKey = ''idem-key-00000001'', ar_Preconditions = [], ar_Postconditions = [],
     ar_VerificationNeeds = [], ar_ExpiresAt = 40, ar_ExpectedReceiptSchema = ''note/v1'', ar_CompensationRef = []\<rparr>"

lemma ex_strings:
  "isJSONObject ''{}''" "is_capability_name ''crm.note''"
  "has_prefix ''wc_aaaaaaaaaaaaaaaa'' HandleWorkCase" "is_handle_body (trim_prefix ''wc_aaaaaaaaaaaaaaaa'' HandleWorkCase)"
  by code_simp+

lemma ex_request_valid: "ActionRequest_Validate ex_request = None"
  by (simp add: ActionRequest_Validate_def first_error_None ex_request_def ex_risk_def RiskDecision_Validate_def
      RiskLevel_Valid_def Signature_Validate_def zero_signature_def SignatureAlgorithmEd25519_def opt_valid_def ex_strings)

definition ex_first :: "(action_error go_error + Action) \<times> (MemoryStore, unit) World" where
  "ex_first = RequestAction ex_service False ex_principal ex_request (start_world ())"

lemma ex_first_ok: "\<exists>a w1. ex_first = (Inr a, w1)"
proof -
  have ids: "has_prefix (''act_'' @ replicate 16 CHR ''x'') HandleAction"
    "is_handle_body (trim_prefix (''act_'' @ replicate 16 CHR ''x'') HandleAction)" by code_simp+
  have trust: "pc_TrustClass ex_principal \<noteq> TrustUntrusted" by (simp add: ex_principal_def)
  show ?thesis
    unfolding ex_first_def RequestAction_def create_requested_def
    by (simp add: guard_def invalid_def ex_principal_ok ex_request_valid trust attempt_def on_action_store_def
        ex_service_ok memory_store_ops mm_GetByIdempotencyKey_def start_world_def NewMemoryStore_def andthen_def
        now_def env_now_def newID_def new_env_def, simp add: ex_service_def ids[simplified] appendAudit_def on_error_def
        mm_PutRequested_def Let_def on_action_store_def memory_store_ops)
qed

theorem replayed_request_returns_same_action_witness:
  "\<exists>b. RequestAction ex_service False ex_principal ex_request (snd ex_first) = (Inr b, snd ex_first)"
proof -
  obtain a w1 where "RequestAction ex_service False ex_principal ex_request (serve_all ex_service [] (start_world ())) = (Inr a, w1)"
    and w1: "ex_first = (Inr a, w1)"
    using ex_first_ok by (auto simp: ex_first_def)
  from replayed_request_returns_same_action[OF ex_service_ok, of "[]" "[]", OF _ ex_principal_ok(2) this(1), of w1]
  show ?thesis by (auto simp: w1)
qed

subsection \<open>Blind retries and verification bindings\<close>

lemma ServiceGetAction_found:
  assumes "sv_store sv = memory_store" and "PrincipalContext_Validate prin = None"
    and "mm_actions (wd_store w) (storeKey (pc_TenantRef prin) r) = Some a"
  shows "ServiceGetAction sv False prin r w = (Inr a, w)"
  using assms by (simp add: ServiceGetAction_def guard_def invalid_def on_error_def on_action_store_def memory_store_ops
      mm_GetAction_def)

text \<open>No blind retry: dispatching an action that is not granted is refused without touching anything, and
  where its side effect may already have happened (dispatched, executing, result unknown, reconciling) the error
  says so.\<close>

theorem dispatch_never_retries_blindly:
  assumes "sv_store sv = memory_store" and "PrincipalContext_Validate prin = None"
    and "mm_actions (wd_store w) (storeKey (pc_TenantRef prin) r) = Some a" and "ac_Status a \<noteq> StatusGranted"
  shows "ServiceDispatch sv False prin r w = (Inl (Sentinel
     (if ac_Status a \<in> {StatusDispatched, StatusExecuting, StatusResultUnknown, StatusReconciling}
      then ErrBlindRetryForbidden else ErrForbiddenTransition)), w)"
  using assms(4) ServiceGetAction_found[OF assms(1-3)] by (simp add: ServiceDispatch_def)

theorem dispatch_never_retries_blindly_witness:
  "ServiceDispatch ex_service False ex_principal ''act_1'' \<lparr>wd_store = ex_dispatched, wd_evidence = (), wd_env = new_env\<rparr>
     = (Inl (Sentinel ErrBlindRetryForbidden), \<lparr>wd_store = ex_dispatched, wd_evidence = (), wd_env = new_env\<rparr>)"
  by (subst dispatch_never_retries_blindly[OF ex_service_ok(2) ex_principal_ok(1), where a =
      "ex_action\<lparr>ac_Status := StatusDispatched, ac_GrantRef := ''grant_1'', ac_UpdatedAt := 5\<rparr>"])
    (simp_all add: ex_dispatched_eq ex_principal_tenant storeKey_def)

lemma find_distinct:
  "distinct (map f xs) \<Longrightarrow> (\<exists>x. find (\<lambda>y. f y = k) xs = Some x \<and> P x) \<longleftrightarrow> (\<exists>x \<in> set xs. f x = k \<and> P x)"
  by (induction xs) (auto simp: image_iff)

text \<open>A verification binding is accepted exactly when it is one the action declared: the action of that
  tenant and reference carries the same parameter hash, the postcondition, and the need with that id, which binds
  this postcondition and this data class. The check changes nothing.\<close>

theorem binding_accepted_iff_declared:
  assumes "mm_actions s (storeKey t (vb_ActionRef b)) = Some a" and "distinct (map need_NeedID (ac_VerificationNeeds a))"
  shows "VerifyActionBinding memory_store t b s = (Inr (), s) \<longleftrightarrow>
     ac_ParameterHash a = vb_ParameterHash b
     \<and> (\<exists>p \<in> set (ac_Postconditions a). post_PostconditionID p = vb_PostconditionID b)
     \<and> (\<exists>n \<in> set (ac_VerificationNeeds a). need_NeedID n = vb_VerificationNeedID b
          \<and> need_PostconditionID n = vb_PostconditionID b \<and> need_DataClass n = vb_DataClass b)"
  unfolding find_distinct[OF assms(2), where P = "\<lambda>n. need_PostconditionID n = vb_PostconditionID b
      \<and> need_DataClass n = vb_DataClass b", symmetric]
  using assms(1)
  by (auto simp: VerifyActionBinding_def memory_store_ops mm_GetAction_def andthen_Inr_iff hasPostcondition_def
      list_ex_iff verificationNeed_def split: option.splits)

definition ex_bound :: Action where
  "ex_bound = ex_action\<lparr>ac_Postconditions := [\<lparr>post_PostconditionID = ''p'', post_Kind = ''k'', post_Reference = ''r'',
       post_Expected = []\<rparr>],
     ac_VerificationNeeds := [\<lparr>need_NeedID = ''n'', need_PostconditionID = ''p'', need_DataClass = ''c''\<rparr>]\<rparr>"

theorem binding_accepted_iff_declared_witness:
  "VerifyActionBinding memory_store ''acme'' \<lparr>vb_ActionRef = ''act_1'', vb_ParameterHash = ''h'',
      vb_PostconditionID = ''p'', vb_VerificationNeedID = ''n'', vb_DataClass = ''c''\<rparr>
     (NewMemoryStore\<lparr>mm_actions := [storeKey ''acme'' ''act_1'' \<mapsto> ex_bound]\<rparr>)
   = (Inr (), NewMemoryStore\<lparr>mm_actions := [storeKey ''acme'' ''act_1'' \<mapsto> ex_bound]\<rparr>)"
  by (subst binding_accepted_iff_declared[where a = ex_bound]) (simp_all add: ex_bound_def ex_action_def)

subsection \<open>Where the code departs from its comments\<close>

text \<open>What the failure scenarios assume of the environment: the audit sink accepts, the generator yields handles.\<close>

definition healthy :: "('st, 'ev) Service \<Rightarrow> bool" where
  "healthy sv \<longleftrightarrow> (\<forall>n e. \<exists>ref. sv_audit sv n e = Inr ref \<and> ref \<noteq> [])
     \<and> (\<forall>n. ValidateHandle (sv_newID sv n ''act_'') HandleAction = None)"

lemma appendAudit_healthy:
  assumes "healthy sv" shows "\<exists>ref. appendAudit sv e w = (Inr ref, audit_accepted e w)"
proof -
  obtain ref where "sv_audit sv (en_auditCalls (wd_env w)) e = Inr ref" "ref \<noteq> []" using assms unfolding healthy_def by blast
  then show ?thesis by (simp add: appendAudit_def audit_accepted_def audit_called_def Let_def)
qed

text \<open>A result id that was already applied to one action completes no other one, yet the service says it
  did: ingesting a verified receipt for a dispatched action under such an id appends an \<open>action.completed\<close> event
  for it and returns without an error, while the store is left as it was and the action stays dispatched.\<close>

theorem reused_result_id_audits_no_completion:
  assumes "sv_store sv = memory_store" and "healthy sv" and "PrincipalContext_Validate prin = None"
    and "rid \<noteq> []" and "mm_actions (wd_store w) (storeKey (pc_TenantRef prin) (rc_ActionRef rc)) = Some a"
    and "ac_Status a \<in> {StatusDispatched, StatusExecuting}"
    and "verifyReceipt sv (pc_TenantRef prin) a rc = Inr to"
    and "mm_inbox (wd_store w) (storeKey (pc_TenantRef prin) rid)"
  shows "\<exists>w' e. IngestReceipt sv False prin rid rc w = (Inr a, w') \<and> wd_store w' = wd_store w
     \<and> en_audit (wd_env w') = en_audit (wd_env w) @ [e]
     \<and> au_Action e = ''action.completed'' \<and> au_ActionRef e = ac_ActionRef a \<and> au_StatusTo e = to"
proof -
  let ?e = "audit_event prin ((bindingOf a)\<lparr>ab_ReceiptRef := rc_ReceiptRef rc\<rparr>) ''action.completed'' (ac_ActionRef a)
     (ac_Status a) to [(''receipt_ref'', rc_ReceiptRef rc), (''result_id'', rid)]"
  obtain ref where aud: "appendAudit sv ?e w = (Inr ref, audit_accepted ?e w)" using appendAudit_healthy[OF assms(2)] by blast
  have status: "ac_Status a = StatusExecuting \<or> ac_Status a = StatusDispatched" using assms(6) by auto
  obtain w' where "IngestReceipt sv False prin rid rc w = (Inr a, w')" "wd_store w' = wd_store w"
      "en_audit (wd_env w') = en_audit (wd_env w) @ [?e]"
    using assms(1,3,4,5,7,8) status aud
    by (simp add: IngestReceipt_def guard_def invalid_def on_error_def on_action_store_def memory_store_ops mm_GetAction_def
        lift_result_def andthen_def completeFromReceipt_def now_def env_now_def mm_IngestResult_def action_at_def)
  then show ?thesis by auto
qed

text \<open>An action with a full binding, dispatched, and a receipt that verifies for it.\<close>

definition ex_done :: Action where
  "ex_done = ex_action\<lparr>ac_ActionRef := ''act_aaaaaaaaaaaaaaaa'', ac_Status := StatusDispatched, ac_ParameterHash := HashParameters ''{}'',
     ac_ExpectedReceiptSchema := ''note/v1'', ac_CompensationRef := ''crm.undo''\<rparr>"

definition ex_receipt :: ActionReceipt where
  "ex_receipt = \<lparr>rc_ReceiptRef = ''rcp_aaaaaaaaaaaaaaaa'', rc_ActionRef = ''act_aaaaaaaaaaaaaaaa'', rc_Status = StatusSucceeded,
     rc_Capability = ''crm.note'', rc_ParameterHash = HashParameters ''{}'', rc_ReceiptSchema = ''note/v1'', rc_Result = [],
     rc_ResultHash = [], rc_IssuedAt = 3, rc_Signature = None\<rparr>"

definition ex_world :: "ActionStatus \<Rightarrow> (MemoryStore, unit) World" where
  "ex_world st = \<lparr>wd_store = NewMemoryStore\<lparr>mm_actions := [storeKey ''acme'' ''act_aaaaaaaaaaaaaaaa'' \<mapsto> ex_done\<lparr>ac_Status := st\<rparr>],
       mm_inbox := (\<lambda>k. k = storeKey ''acme'' ''res_1'')\<rparr>, wd_evidence = (), wd_env = new_env\<rparr>"

definition ex_fixed_ids :: "(MemoryStore, unit) Service" where
  "ex_fixed_ids = ex_service\<lparr>sv_newID := \<lambda>_ p. p @ ''bbbbbbbbbbbbbbbb''\<rparr>"

lemma ex_receipt_valid: "ActionReceipt_Validate ex_receipt = None"
proof -
  have "has_prefix ''rcp_aaaaaaaaaaaaaaaa'' HandleReceipt" "is_handle_body (trim_prefix ''rcp_aaaaaaaaaaaaaaaa'' HandleReceipt)"
    "has_prefix ''act_aaaaaaaaaaaaaaaa'' HandleAction" "is_handle_body (trim_prefix ''act_aaaaaaaaaaaaaaaa'' HandleAction)"
    by code_simp+
  then show ?thesis
    by (simp add: ActionReceipt_Validate_def first_error_None ex_receipt_def ActionStatus_Valid_def opt_valid_def ex_strings
        validate_result_def)
qed

lemma ex_fixed_ids_ok: "sv_store ex_fixed_ids = memory_store" "healthy ex_fixed_ids"
proof -
  have "ValidateHandle (''act_'' @ ''bbbbbbbbbbbbbbbb'') HandleAction = None" by code_simp
  then show "sv_store ex_fixed_ids = memory_store" "healthy ex_fixed_ids"
    by (simp_all add: ex_fixed_ids_def ex_service_ok healthy_def, simp_all add: ex_service_def)
qed

theorem reused_result_id_audits_no_completion_witness:
  "\<exists>w' e. IngestReceipt ex_fixed_ids False ex_principal ''res_1'' ex_receipt (ex_world StatusDispatched)
       = (Inr (ex_done\<lparr>ac_Status := StatusDispatched\<rparr>), w')
     \<and> wd_store w' = wd_store (ex_world StatusDispatched) \<and> en_audit (wd_env w') = [e]
     \<and> au_Action e = ''action.completed'' \<and> au_StatusTo e = StatusSucceeded"
proof -
  have "verifyReceipt ex_fixed_ids ''acme'' (ex_done\<lparr>ac_Status := StatusDispatched\<rparr>) ex_receipt = Inr StatusSucceeded"
    unfolding verifyReceipt_def ex_receipt_valid
    by (simp add: ex_receipt_def ex_done_def ex_action_def terminalReceiptStatus_def ex_fixed_ids_def ex_service_def)
  then show ?thesis
    using reused_result_id_audits_no_completion[OF ex_fixed_ids_ok ex_principal_ok(1), of "''res_1''" "ex_world StatusDispatched"
        ex_receipt "ex_done\<lparr>ac_Status := StatusDispatched\<rparr>" StatusSucceeded]
    by (auto simp: ex_world_def ex_principal_tenant ex_receipt_def new_env_def)
qed

subsection \<open>Compensation\<close>

text \<open>The action \<open>Compensate\<close> files under the compensation key of an original.\<close>

definition free_for_compensation :: "(MemoryStore, 'ev) Service \<Rightarrow> string \<Rightarrow> Action \<Rightarrow> (MemoryStore, 'ev) World \<Rightarrow> bool" where
  "free_for_compensation sv t original w \<longleftrightarrow>
     mm_byIdem (wd_store w) (storeKey t (compensation_key (ac_ActionRef original))) = None
     \<and> mm_actions (wd_store w) (storeKey t (ac_ActionRef original)) = Some original
     \<and> sv_newID sv (en_ids (wd_env w)) ''act_'' \<noteq> ac_ActionRef original"

lemma start_compensation_run:
  fixes w :: "(MemoryStore, 'ev) World"
  assumes "sv_store sv = memory_store" and "healthy sv" and "free_for_compensation sv (pc_TenantRef prin) original w"
    and "compensable (ac_Status original)"
  obtains comp w' where
    "start_compensation sv prin original w
       = (if ac_Status original = StatusReconciling then Inl (Sentinel ErrForbiddenTransition) else Inr comp, w')"
    and "mm_actions (wd_store w') (storeKey (pc_TenantRef prin) (ac_ActionRef comp)) = Some comp"
    and "mm_byIdem (wd_store w') (storeKey (pc_TenantRef prin) (compensation_key (ac_ActionRef original))) = Some (ac_ActionRef comp)"
    and "ac_Status comp = StatusRequested" "ac_Capability comp = ac_CompensationRef original"
    and "ac_CompensationOf comp = ac_ActionRef original" "ac_GrantRef comp = []" "ac_ActionRef comp \<noteq> ac_ActionRef original"
    and "mm_actions (wd_store w') (storeKey (pc_TenantRef prin) (ac_ActionRef original))
       = Some (if ac_Status original = StatusReconciling then original
               else original\<lparr>ac_Status := StatusCompensating, ac_FailureReason := ''compensation initiated'',
                             ac_UpdatedAt := sv_now sv (en_ticks (wd_env w))\<rparr>)"
proof -
  let ?t = "pc_TenantRef prin" and ?comp = "sv_newID sv (en_ids (wd_env w)) ''act_''" and ?at = "sv_now sv (en_ticks (wd_env w))"
  let ?e1 = "audit_event prin (plain_binding (ac_CompensationRef original) [] (ac_RiskAuthority original)) ''action.requested''
      ?comp no_status StatusRequested [(''capability'', ac_CompensationRef original), (''compensation_of'', ac_ActionRef original)]"
  let ?e2 = "audit_event prin (bindingOf original) ''action.compensating'' (ac_ActionRef original) (ac_Status original)
      StatusCompensating [(''compensation_ref'', ?comp)]"
  have handle: "ValidateHandle ?comp HandleAction = None" using assms(2) by (simp add: healthy_def)
  have free: "mm_byIdem (wd_store w) (storeKey ?t (compensation_key (ac_ActionRef original))) = None"
    "mm_actions (wd_store w) (storeKey ?t (ac_ActionRef original)) = Some original" "?comp \<noteq> ac_ActionRef original"
    using assms(3) by (simp_all add: free_for_compensation_def)
  then have keys: "storeKey ?t ?comp \<noteq> storeKey ?t (ac_ActionRef original)" by (simp add: storeKey_def)
  have status: "ac_Status original \<noteq> StatusCompensating" using assms(4) by (auto simp: compensable_def)
  have edge: "canTransition (ac_Status original) StatusCompensating \<longleftrightarrow> ac_Status original \<noteq> StatusReconciling"
    using assms(4) by (auto simp: compensable_def canTransition_def allowedEdges_def)
  obtain r1 where a1: "\<And>w. appendAudit sv ?e1 w = (Inr (r1 w), audit_accepted ?e1 w)"
    using appendAudit_healthy[OF assms(2)] by metis
  obtain r2 where a2: "\<And>w. appendAudit sv ?e2 w = (Inr (r2 w), audit_accepted ?e2 w)"
    using appendAudit_healthy[OF assms(2)] by metis
  define w1 where "w1 = w\<lparr>wd_env := (wd_env w)\<lparr>en_ticks := Suc (en_ticks (wd_env w)), en_ids := Suc (en_ids (wd_env w))\<rparr>\<rparr>"
  define comp where "comp = compensation_action original prin ?comp (compensation_key (ac_ActionRef original)) (r1 w1) ?at"
  have fields: "ac_ActionRef comp = ?comp" "ac_TenantRef comp = ?t"
      "ac_IdempotencyKey comp = compensation_key (ac_ActionRef original)" "ac_Status comp = StatusRequested"
      "ac_Capability comp = ac_CompensationRef original" "ac_CompensationOf comp = ac_ActionRef original" "ac_GrantRef comp = []"
    by (simp_all add: comp_def compensation_action_def zero_action_def)
  have prefix: "start_compensation sv prin original w = andthen (on_error mapTransitionErr (on_action_store (mm_PutRequested comp)))
      (\<lambda>(stored, created). if created \<and> ac_Status original \<noteq> StatusCompensating then
         andthen (appendAudit sv ?e2) (\<lambda>_. andthen (on_error mapTransitionErr (on_action_store
           (mm_Transition ?t (ac_ActionRef original) (ac_Status original) StatusCompensating ''compensation initiated'' ?at)))
           (\<lambda>_. ret stored)) else ret stored) (audit_accepted ?e1 w1)"
    using handle a1 assms(1)
    by (simp add: start_compensation_def andthen_def now_def env_now_def newID_def w1_def comp_def memory_store_ops
        split: prod.splits sum.splits)
  define s1 where "s1 = snd (mm_PutRequested comp (wd_store w))"
  have put: "mm_PutRequested comp (wd_store w) = (Inr (comp, True), s1)"
    and s1: "mm_actions s1 = (mm_actions (wd_store w))(storeKey ?t ?comp \<mapsto> comp)"
      "mm_byIdem s1 = (mm_byIdem (wd_store w))(storeKey ?t (compensation_key (ac_ActionRef original)) \<mapsto> ?comp)"
    using free fields by (simp_all add: s1_def mm_PutRequested_def Let_def)
  have w1_store: "wd_store w1 = wd_store w" by (simp add: w1_def)
  show thesis
  proof (rule that)
    show "mm_actions (wd_store (snd (start_compensation sv prin original w))) (storeKey ?t (ac_ActionRef comp)) = Some comp"
      using keys free status edge
      by (simp add: prefix andthen_def on_error_def on_action_store_def put w1_store s1 fields a2 mm_Transition_def Let_def
          split: if_splits)
  qed (use keys free status edge in \<open>auto simp: prefix andthen_def on_error_def on_action_store_def put w1_store s1 fields a2
      mm_Transition_def Let_def mapTransitionErr_def prod_eq_iff\<close>)
qed

lemma Compensate_starts:
  fixes w :: "(MemoryStore, 'ev) World"
  assumes "sv_store sv = memory_store" and "PrincipalContext_Validate prin = None"
    and "mm_actions (wd_store w) (storeKey (pc_TenantRef prin) r) = Some a" and "ac_ActionRef a = r"
    and "ac_CompensationRef a \<noteq> []" and "compensable (ac_Status a)"
    and "mm_byIdem (wd_store w) (storeKey (pc_TenantRef prin) (compensation_key r)) = None"
  shows "Compensate sv False prin r w = start_compensation sv prin a w"
  using ServiceGetAction_found[OF assms(1-3)] assms
  by (simp add: Compensate_def attempt_def on_action_store_def memory_store_ops mm_GetByIdempotencyKey_def andthen_def)

lemma Compensate_returns_keyed:
  assumes "sv_store sv = memory_store" and "PrincipalContext_Validate prin = None"
    and "mm_actions (wd_store w) (storeKey (pc_TenantRef prin) r) = Some a" and "ac_ActionRef a = r"
    and "ac_CompensationRef a \<noteq> []" and "compensable (ac_Status a) \<or> ac_Status a = StatusCompensating"
    and "mm_byIdem (wd_store w) (storeKey (pc_TenantRef prin) (compensation_key r)) = Some r'"
    and "mm_actions (wd_store w) (storeKey (pc_TenantRef prin) r') = Some b"
  shows "Compensate sv False prin r w = (Inr b, w)"
  using ServiceGetAction_found[OF assms(1-3)] assms
  by (auto simp: Compensate_def attempt_def on_action_store_def memory_store_ops mm_GetByIdempotencyKey_def andthen_def
      action_at_def)


lemma ex_world_free: "free_for_compensation ex_fixed_ids (pc_TenantRef ex_principal) (ex_done\<lparr>ac_Status := st\<rparr>) (ex_world st)"
  by (simp add: free_for_compensation_def ex_world_def ex_done_def ex_principal_tenant NewMemoryStore_def ex_fixed_ids_def)

lemma ex_done_fields: "ac_ActionRef ex_done = ''act_aaaaaaaaaaaaaaaa''" "ac_CompensationRef ex_done = ''crm.undo''"
  by (simp_all add: ex_done_def)


text \<open>Compensating an action that is being reconciled fails half way: the state check lets it through but the
  table has no edge from \<open>reconciling\<close> to \<open>compensating\<close>, so the call reports a forbidden transition, after it
  audited and filed the compensation action. The original stays \<open>reconciling\<close>, and a second call reports success
  with the compensation the first one left behind.\<close>

theorem compensating_reconciling_leaves_orphan:
  fixes w :: "(MemoryStore, 'ev) World"
  assumes "sv_store sv = memory_store" and "healthy sv" and "PrincipalContext_Validate prin = None"
    and "free_for_compensation sv (pc_TenantRef prin) a w" and "ac_CompensationRef a \<noteq> []"
    and "ac_Status a = StatusReconciling"
  shows "\<exists>comp w'. Compensate sv False prin (ac_ActionRef a) w = (Inl (Sentinel ErrForbiddenTransition), w')
     \<and> ac_CompensationOf comp = ac_ActionRef a \<and> ac_Status comp = StatusRequested
     \<and> mm_actions (wd_store w') (storeKey (pc_TenantRef prin) (ac_ActionRef comp)) = Some comp
     \<and> mm_actions (wd_store w') (storeKey (pc_TenantRef prin) (ac_ActionRef a)) = Some a
     \<and> Compensate sv False prin (ac_ActionRef a) w' = (Inr comp, w')"
proof -
  have free: "mm_actions (wd_store w) (storeKey (pc_TenantRef prin) (ac_ActionRef a)) = Some a"
    "mm_byIdem (wd_store w) (storeKey (pc_TenantRef prin) (compensation_key (ac_ActionRef a))) = None"
    using assms(4) by (simp_all add: free_for_compensation_def)
  have able: "compensable (ac_Status a)" using assms(6) by (simp add: compensable_def)
  obtain comp w' where run: "start_compensation sv prin a w = (Inl (Sentinel ErrForbiddenTransition), w')"
    and stored: "mm_actions (wd_store w') (storeKey (pc_TenantRef prin) (ac_ActionRef comp)) = Some comp"
    and keyed: "mm_byIdem (wd_store w') (storeKey (pc_TenantRef prin) (compensation_key (ac_ActionRef a))) = Some (ac_ActionRef comp)"
    and comp: "ac_Status comp = StatusRequested" "ac_CompensationOf comp = ac_ActionRef a"
    and orig: "mm_actions (wd_store w') (storeKey (pc_TenantRef prin) (ac_ActionRef a)) = Some a"
    by (rule start_compensation_run[OF assms(1,2,4) able]) (simp add: assms(6))
  have "Compensate sv False prin (ac_ActionRef a) w' = (Inr comp, w')"
    using Compensate_returns_keyed[OF assms(1,3) orig refl assms(5) _ keyed stored] able by simp
  moreover have "Compensate sv False prin (ac_ActionRef a) w = (Inl (Sentinel ErrForbiddenTransition), w')"
    using Compensate_starts[OF assms(1,3) free(1) refl assms(5) able free(2)] run by simp
  ultimately show ?thesis using stored comp orig by (intro exI[of _ comp] exI[of _ w']) simp
qed

theorem compensating_reconciling_leaves_orphan_witness:
  "\<exists>comp w'. Compensate ex_fixed_ids False ex_principal ''act_aaaaaaaaaaaaaaaa'' (ex_world StatusReconciling)
       = (Inl (Sentinel ErrForbiddenTransition), w')
     \<and> mm_actions (wd_store w') (storeKey ''acme'' (ac_ActionRef comp)) = Some comp"
proof -
  obtain comp w' where "Compensate ex_fixed_ids False ex_principal ''act_aaaaaaaaaaaaaaaa'' (ex_world StatusReconciling)
       = (Inl (Sentinel ErrForbiddenTransition), w')"
     "mm_actions (wd_store w') (storeKey ''acme'' (ac_ActionRef comp)) = Some comp"
    using compensating_reconciling_leaves_orphan[OF ex_fixed_ids_ok ex_principal_ok(1) ex_world_free, of StatusReconciling]
    by (auto simp: ex_done_fields ex_principal_tenant)
  then show ?thesis by blast
qed

text \<open>An action cancelled before dispatch can be compensated although nothing was executed: \<open>Cancel\<close> fails it
  without a dispatch row and without consuming a grant, and \<open>Compensate\<close> then files the compensation all the same,
  since the compensable statuses include every failed one.\<close>

theorem cancelled_before_dispatch_is_compensable:
  fixes w :: "(MemoryStore, 'ev) World"
  assumes "sv_store sv = memory_store" and "healthy sv" and "PrincipalContext_Validate prin = None"
    and "free_for_compensation sv (pc_TenantRef prin) a w" and "ac_CompensationRef a \<noteq> []"
    and "before_dispatch (ac_Status a)"
  shows "\<exists>failed w1 comp w2. Cancel sv False prin (ac_ActionRef a) w = (Inr failed, w1)
     \<and> ac_Status failed = StatusFailed \<and> mm_grants (wd_store w1) = mm_grants (wd_store w)
     \<and> mm_dispatches (wd_store w1) = mm_dispatches (wd_store w)
     \<and> Compensate sv False prin (ac_ActionRef a) w1 = (Inr comp, w2) \<and> ac_CompensationOf comp = ac_ActionRef a"
proof -
  let ?r = "ac_ActionRef a" and ?t = "pc_TenantRef prin"
  let ?failed = "a\<lparr>ac_Status := StatusFailed, ac_FailureReason := ''cancelled before dispatch'',
      ac_UpdatedAt := sv_now sv (en_ticks (wd_env w))\<rparr>"
  let ?e = "audit_event prin (bindingOf a) ''action.cancelled'' ?r (ac_Status a) StatusFailed
      [(''reason'', ''cancelled before dispatch'')]"
  have found: "mm_actions (wd_store w) (storeKey ?t ?r) = Some a"
    "mm_byIdem (wd_store w) (storeKey ?t (compensation_key ?r)) = None"
    using assms(4) by (simp_all add: free_for_compensation_def)
  have edge: "canTransition (ac_Status a) StatusFailed" and early: "ac_Status a \<in> {StatusRequested, StatusAwaitingApproval, StatusGranted}"
    using assms(6) by (auto simp: before_dispatch_def canTransition_def allowedEdges_def)
  obtain ref where aud: "appendAudit sv ?e w = (Inr ref, audit_accepted ?e w)" using appendAudit_healthy[OF assms(2)] by blast
  obtain w1 where cancel: "Cancel sv False prin ?r w = (Inr ?failed, w1)"
    and w1: "wd_store w1 = (wd_store w)\<lparr>mm_actions := (mm_actions (wd_store w))(storeKey ?t ?r \<mapsto> ?failed)\<rparr>"
      "en_ids (wd_env w1) = en_ids (wd_env w)"
    using ServiceGetAction_found[OF assms(1,3) found(1)] edge early found aud assms(1)
    by (simp add: Cancel_def andthen_def transition_def now_def env_now_def on_error_def on_action_store_def
        memory_store_ops mm_Transition_def Let_def)
  have free: "free_for_compensation sv ?t ?failed w1" "mm_actions (wd_store w1) (storeKey ?t ?r) = Some ?failed"
    "mm_byIdem (wd_store w1) (storeKey ?t (compensation_key ?r)) = None"
    using assms(4) by (simp_all add: free_for_compensation_def w1)
  obtain comp w2 where "start_compensation sv prin ?failed w1 = (Inr comp, w2)" "ac_CompensationOf comp = ?r"
    by (rule start_compensation_run[OF assms(1,2) free(1)]) (simp_all add: compensable_def)
  moreover have "Compensate sv False prin ?r w1 = start_compensation sv prin ?failed w1"
    by (rule Compensate_starts[OF assms(1,3) free(2)]) (simp_all add: assms(5) compensable_def free)
  ultimately show ?thesis using cancel w1 by (intro exI[of _ ?failed] exI[of _ w1] exI[of _ comp] exI[of _ w2]) simp
qed

theorem cancelled_before_dispatch_is_compensable_witness:
  "\<exists>failed w1 comp w2. Cancel ex_fixed_ids False ex_principal ''act_aaaaaaaaaaaaaaaa'' (ex_world StatusGranted) = (Inr failed, w1)
     \<and> mm_dispatches (wd_store w1) = []
     \<and> Compensate ex_fixed_ids False ex_principal ''act_aaaaaaaaaaaaaaaa'' w1 = (Inr comp, w2)"
proof -
  obtain failed w1 comp w2 where
    "Cancel ex_fixed_ids False ex_principal ''act_aaaaaaaaaaaaaaaa'' (ex_world StatusGranted) = (Inr failed, w1)"
    "mm_dispatches (wd_store w1) = mm_dispatches (wd_store (ex_world StatusGranted))"
    "Compensate ex_fixed_ids False ex_principal ''act_aaaaaaaaaaaaaaaa'' w1 = (Inr comp, w2)"
    using cancelled_before_dispatch_is_compensable[OF ex_fixed_ids_ok ex_principal_ok(1) ex_world_free, of StatusGranted]
    by (auto simp: before_dispatch_def ex_done_fields)
  then show ?thesis by (auto simp: ex_world_def NewMemoryStore_def)
qed

text \<open>A client can occupy the compensation key of an action: a successful request under the idempotency key
  \<open>cmp:\<close> followed by its reference is what \<open>Compensate\<close> answers from then on, without an error, without a
  compensation being filed and with the original left as it was, whatever capability the request named.\<close>

theorem request_can_occupy_compensation_key:
  assumes "well_formed_service sv" and "sv_store sv = memory_store"
    and "\<forall>(d, c) \<in> set cs. nul_free (call_tenant c)" and "nul_free (pc_TenantRef prin)"
    and "RequestAction sv d prin req (serve_all sv cs (start_world ev)) = (Inr b, w)"
    and "ar_IdempotencyKey req = compensation_key (ac_ActionRef a)"
    and "mm_actions (wd_store w) (storeKey (pc_TenantRef prin) (ac_ActionRef a)) = Some a"
    and "ac_CompensationRef a \<noteq> []" and "compensable (ac_Status a)"
  shows "Compensate sv False prin (ac_ActionRef a) w = (Inr b, w) \<and> ac_Capability b = ar_Capability req"
proof -
  have "evolves (\<lambda>_. 0) sv (start_world ev) (serve_all sv cs (start_world ev))"
    using serve_all_evolves[OF assms(1,2) start_evolves] assms(3) by auto
  then have files: "filed prin req b (wd_store w)" "admissible prin req"
    using wp_Inr[OF request_files[OF assms(2) evolves_inv assms(4)] assms(5)] by auto
  then show ?thesis
    using Compensate_returns_keyed[OF assms(2) _ assms(7) refl assms(8), of "ac_ActionRef b" b] assms(6,9)
    by (simp add: filed_def admissible_def)
qed

text \<open>A client files an undoable note, cancels it, and then files a plain note under its compensation key.\<close>

definition ex_undoable :: ActionRequest where
  "ex_undoable = ex_request\<lparr>ar_CompensationRef := ''crm.undo''\<rparr>"

definition ex_ref :: string where
  "ex_ref = ''act_'' @ replicate 16 CHR ''x''"

definition ex_squat :: ActionRequest where
  "ex_squat = ex_request\<lparr>ar_IdempotencyKey := compensation_key ex_ref\<rparr>"

definition ex_filed :: Action where
  "ex_filed = requested_action ex_principal ex_undoable ex_ref StatusRequested [] ''aud'' 1"

definition ex_failed :: Action where
  "ex_failed = ex_filed\<lparr>ac_Status := StatusFailed, ac_FailureReason := ''cancelled before dispatch'', ac_UpdatedAt := 2\<rparr>"

lemma ex_squat_valid: "ActionRequest_Validate ex_undoable = None" "ActionRequest_Validate ex_squat = None"
proof -
  have "is_capability_name ''crm.undo''" by code_simp
  then show "ActionRequest_Validate ex_undoable = None" "ActionRequest_Validate ex_squat = None"
    using ex_request_valid
    by (simp_all add: ex_undoable_def ex_squat_def ActionRequest_Validate_def first_error_None ex_request_def compensation_key_def
        ex_ref_def)
qed

lemma ex_handles: "ValidateHandle (''act_'' @ replicate 16 CHR ''x'') HandleAction = None"
  "ValidateHandle (''act_'' @ replicate 17 CHR ''x'') HandleAction = None"
  by code_simp+

lemma ex_trust: "pc_TrustClass ex_principal \<noteq> TrustUntrusted"
  by (simp add: ex_principal_def)

lemma ex_create_requested:
  fixes w :: "(MemoryStore, unit) World"
  assumes req: "ActionRequest_Validate req = None" "ar_ApprovalPlanRef req = None"
      "mm_byIdem (wd_store w) (storeKey ''acme'' (ar_IdempotencyKey req)) = None"
    and n: "en_ids (wd_env w) = n" "ref = ''act_'' @ replicate (n + 16) CHR ''x''" "ValidateHandle ref HandleAction = None"
    and a: "a = requested_action ex_principal req ref StatusRequested [] ''aud'' (int (en_ticks (wd_env w)) + 1)"
  obtains w' where "RequestAction ex_service False ex_principal req w = (Inr a, w')"
    and "mm_actions (wd_store w') = (mm_actions (wd_store w))(storeKey ''acme'' ref \<mapsto> a)"
    and "mm_byIdem (wd_store w') = (mm_byIdem (wd_store w))(storeKey ''acme'' (ar_IdempotencyKey req) \<mapsto> ref)"
    and "en_ids (wd_env w') = Suc n" and "en_ticks (wd_env w') = Suc (en_ticks (wd_env w))"
proof -
  let ?w = "snd (RequestAction ex_service False ex_principal req w)"
  have ids: "sv_newID ex_service k p = p @ replicate (k + 16) CHR ''x''" "sv_now ex_service k = int k + 1"
    "sv_audit ex_service k e = Inr ''aud''" for k p e by (simp_all add: ex_service_def)
  have fields: "ac_TenantRef a = ''acme''" "ac_IdempotencyKey a = ar_IdempotencyKey req" "ac_ActionRef a = ref"
    by (simp_all add: a requested_action_def ex_principal_tenant)
  have "RequestAction ex_service False ex_principal req w = (Inr a, ?w) \<and> wd_store ?w = snd (mm_PutRequested a (wd_store w))
     \<and> en_ids (wd_env ?w) = Suc n \<and> en_ticks (wd_env ?w) = Suc (en_ticks (wd_env w))"
    using req n fields
    by (simp add: RequestAction_def guard_def invalid_def ex_principal_ok ex_principal_tenant ex_trust attempt_def on_action_store_def
        ex_service_ok memory_store_ops mm_GetByIdempotencyKey_def andthen_def create_requested_def now_def env_now_def newID_def
        ids appendAudit_def on_error_def mm_PutRequested_def Let_def a)
  then show thesis using req fields by (intro that[of ?w]) (simp_all add: mm_PutRequested_def)
qed

definition ex_squat_calls :: "(bool \<times> call) list" where
  "ex_squat_calls = [(False, CallRequest ex_principal ex_undoable), (False, CallCancel ex_principal ex_ref)]"

lemma ex_filed_fields: "ac_Status ex_filed = StatusRequested" "ac_ActionRef ex_filed = ex_ref" "ac_CompensationRef ex_filed = ''crm.undo''"
  by (simp_all add: ex_filed_def requested_action_def ex_undoable_def)

lemma ex_cancelled_world:
  obtains w where "serve_all ex_service ex_squat_calls (start_world ()) = w" and "en_ids (wd_env w) = 1"
    and "mm_actions (wd_store w) = [storeKey ''acme'' ex_ref \<mapsto> ex_failed]"
    and "mm_byIdem (wd_store w) = [storeKey ''acme'' (ar_IdempotencyKey ex_request) \<mapsto> ex_ref]"
proof -
  have key: "ar_IdempotencyKey ex_undoable = ar_IdempotencyKey ex_request" by (simp add: ex_undoable_def)
  obtain w1 where first: "RequestAction ex_service False ex_principal ex_undoable (start_world ()) = (Inr ex_filed, w1)"
    and w1: "mm_actions (wd_store w1) = [storeKey ''acme'' ex_ref \<mapsto> ex_filed]" "en_ids (wd_env w1) = 1" "en_ticks (wd_env w1) = 1"
      "mm_byIdem (wd_store w1) = [storeKey ''acme'' (ar_IdempotencyKey ex_request) \<mapsto> ex_ref]"
    by (rule ex_create_requested[of ex_undoable "start_world ()" 0 ex_ref ex_filed])
      (simp_all add: ex_squat_valid start_world_def new_env_def NewMemoryStore_def ex_ref_def ex_filed_def key ex_handles[simplified],
       simp_all add: ex_undoable_def ex_request_def)
  let ?e = "audit_event ex_principal (bindingOf ex_filed) ''action.cancelled'' ex_ref StatusRequested StatusFailed
      [(''reason'', ''cancelled before dispatch'')]"
  have aud: "appendAudit ex_service ?e w1 = (Inr ''aud'', audit_accepted ?e w1)"
    by (simp add: appendAudit_def audit_accepted_def audit_called_def Let_def ex_service_def)
  have now: "sv_now ex_service k = int k + 1" for k by (simp add: ex_service_def)
  have edge: "canTransition StatusRequested StatusFailed" by (simp add: canTransition_def allowedEdges_def)
  obtain w2 where second: "Cancel ex_service False ex_principal ex_ref w1 = (Inr ex_failed, w2)"
    and w2: "wd_store w2 = (wd_store w1)\<lparr>mm_actions := [storeKey ''acme'' ex_ref \<mapsto> ex_failed]\<rparr>" "en_ids (wd_env w2) = 1"
    using ServiceGetAction_found[OF ex_service_ok(2) ex_principal_ok(1), of w1 ex_ref ex_filed] w1 aud edge
    by (simp add: ex_principal_tenant Cancel_def andthen_def transition_def now_def env_now_def now on_error_def on_action_store_def
        memory_store_ops ex_service_ok mm_Transition_def Let_def ex_filed_fields ex_failed_def)
  show thesis
    by (rule that[of w2]) (simp_all add: ex_squat_calls_def first second w2 w1)
qed

theorem request_can_occupy_compensation_key_witness:
  "\<exists>b w. RequestAction ex_service False ex_principal ex_squat (serve_all ex_service ex_squat_calls (start_world ())) = (Inr b, w)
     \<and> Compensate ex_service False ex_principal ex_ref w = (Inr b, w) \<and> ac_Capability b = ''crm.note''"
proof -
  obtain w where w: "serve_all ex_service ex_squat_calls (start_world ()) = w" "en_ids (wd_env w) = 1"
    "mm_actions (wd_store w) = [storeKey ''acme'' ex_ref \<mapsto> ex_failed]"
    "mm_byIdem (wd_store w) = [storeKey ''acme'' (ar_IdempotencyKey ex_request) \<mapsto> ex_ref]"
    by (rule ex_cancelled_world)
  have other: "compensation_key ex_ref \<noteq> ar_IdempotencyKey ex_request" "ex_ref \<noteq> ''act_'' @ replicate (1 + 16) CHR ''x''"
    by (simp_all add: compensation_key_def ex_request_def ex_ref_def)
  have squat: "ar_ApprovalPlanRef ex_squat = None" "ar_IdempotencyKey ex_squat = compensation_key ex_ref"
    "mm_byIdem (wd_store w) (storeKey ''acme'' (ar_IdempotencyKey ex_squat)) = None"
    "ValidateHandle (''act_'' @ replicate (1 + 16) CHR ''x'') HandleAction = None"
    using other(1) ex_handles(2) by (simp_all add: ex_squat_def w(4) storeKey_def, simp_all add: ex_request_def)
  obtain b w' where run: "RequestAction ex_service False ex_principal ex_squat w = (Inr b, w')"
    and w': "mm_actions (wd_store w') = (mm_actions (wd_store w))(storeKey ''acme'' (''act_'' @ replicate (1 + 16) CHR ''x'') \<mapsto> b)"
    by (rule ex_create_requested[OF ex_squat_valid(2) squat(1,3) w(2) refl squat(4) refl])
  have failed: "ac_ActionRef ex_failed = ex_ref" "ac_CompensationRef ex_failed \<noteq> []" "compensable (ac_Status ex_failed)"
    by (simp_all add: ex_failed_def ex_filed_fields compensable_def)
  have calls: "\<forall>(d, c) \<in> set ex_squat_calls. nul_free (call_tenant c)" by (simp add: ex_squat_calls_def ex_principal_ok)
  have stored: "mm_actions (wd_store w') (storeKey (pc_TenantRef ex_principal) (ac_ActionRef ex_failed)) = Some ex_failed"
    using other(2) by (simp add: w' w(3) failed ex_principal_tenant storeKey_def)
  have key: "ar_IdempotencyKey ex_squat = compensation_key (ac_ActionRef ex_failed)" "ar_Capability ex_squat = ''crm.note''"
    by (simp_all add: failed) (simp_all add: ex_squat_def ex_request_def)
  show ?thesis
    using request_can_occupy_compensation_key[OF ex_service_ok calls ex_principal_ok(2) run[folded w(1)] key(1) stored failed(2,3)]
      run w(1) by (simp add: failed key(2))
qed

end
