(* ===== verification/ActionCrashes.thy ===== *)
theory ActionCrashes
  imports ActionProperties
begin

text \<open>
  Runs of the action service with crashes (outbox.go, the contract of its comments): the outbox delivers at least once, and
  what it delivers twice is the same message. The claim of a process that died is gone with the process, as the row lock of a
  database is, so the row is claimed and published again by whoever drains next.
\<close>

subsection \<open>Crashes around a publish\<close>

text \<open>
  What a run can suffer besides calls: a process dies after it committed a dispatch and before it published it; it dies
  after the transport accepted a message and before the outcome was stamped, its claim gone with it; a drain is cut short
  after some rows.
\<close>

datatype run_event =
    Served bool call
  | DiedUnpublished bool call
  | DiedUnstamped string string
  | DrainCut string nat

definition die_unstamped :: "(MemoryStore, 'ev) Service \<Rightarrow> string \<Rightarrow> string \<Rightarrow> (MemoryStore, 'ev) World \<Rightarrow> (MemoryStore, 'ev) World" where
  "die_unstamped sv t r w =
     (case sv_publisher sv of None \<Rightarrow> w
      | Some p \<Rightarrow>
          (case env_now sv (wd_env w) of (at, env) \<Rightarrow>
             (case fst (acquireDispatch t r at False (wd_store w)) of
                None \<Rightarrow> w\<lparr>wd_env := env\<rparr>
              | Some d \<Rightarrow> w\<lparr>wd_env := snd (service_deliver sv p d env)\<rparr>)))"

definition cut_drain :: "(MemoryStore, 'ev) Service \<Rightarrow> string \<Rightarrow> nat \<Rightarrow> (MemoryStore, 'ev) World \<Rightarrow> (MemoryStore, 'ev) World" where
  "cut_drain sv t n w =
     (case sv_publisher sv of None \<Rightarrow> w
      | Some p \<Rightarrow>
          (case env_now sv (wd_env w) of (at, env) \<Rightarrow>
             (case claim_loop n t at (service_deliver sv p) [] 0 (wd_store w, env) of
                (_, s', env') \<Rightarrow> w\<lparr>wd_store := s', wd_env := env'\<rparr>)))"

fun happen :: "(MemoryStore, 'ev) Service \<Rightarrow> run_event \<Rightarrow> (MemoryStore, 'ev) World \<Rightarrow> (MemoryStore, 'ev) World" where
  "happen sv (Served d c) w = serve sv d c w"
| "happen sv (DiedUnpublished d c) w = serve (sv\<lparr>sv_publisher := None\<rparr>) d c w"
| "happen sv (DiedUnstamped t r) w = die_unstamped sv t r w"
| "happen sv (DrainCut t n) w = cut_drain sv t n w"

fun event_tenant :: "run_event \<Rightarrow> string" where
  "event_tenant (Served d c) = call_tenant c"
| "event_tenant (DiedUnpublished d c) = call_tenant c"
| "event_tenant (DiedUnstamped t r) = t"
| "event_tenant (DrainCut t n) = t"

definition happen_all :: "(MemoryStore, 'ev) Service \<Rightarrow> run_event list \<Rightarrow> (MemoryStore, 'ev) World \<Rightarrow> (MemoryStore, 'ev) World" where
  "happen_all sv es w = fold (happen sv) es w"

text \<open>How often the stamp of a message was lost.\<close>

definition lost_stamps :: "run_event list \<Rightarrow> DispatchMessage \<Rightarrow> nat" where
  "lost_stamps es m = count_list es (DiedUnstamped (dm_TenantRef m) (dm_DispatchRef m))"

lemma evolves_unpublished: "evolves X (sv\<lparr>sv_publisher := p\<rparr>) w0 w = evolves X sv w0 w"
  by (simp add: evolves_def ids_bound_def)

lemma die_unstamped_evolves:
  assumes "nul_free t" and ev: "evolves X sv w0 w"
  shows "evolves (\<lambda>m. X m + lost_stamps [DiedUnstamped t r] m) sv w0 (die_unstamped sv t r w)"
proof -
  let ?X = "\<lambda>m. X m + lost_stamps [DiedUnstamped t r] m" and ?w = "die_unstamped sv t r w"
  have "published_ok ?X (wd_store w) (wd_env w)"
    using evolves_published[OF ev] unfolding published_ok_def by (metis add.commute add.left_commute trans_le_add2)
  moreover have "en_ids (wd_env ?w) = en_ids (wd_env w) \<and> wd_store ?w = wd_store w
      \<and> (en_published (wd_env ?w) = en_published (wd_env w)
        \<or> (\<exists>d. (storeKey t r, d) \<in> set (mm_dispatches (wd_store w)) \<and> en_published (wd_env ?w) = en_published (wd_env w) @ [message_of d]))"
    by (auto simp: die_unstamped_def env_now_def acquireDispatch_def service_deliver_def Let_def
        split: option.splits prod.splits if_splits dest!: map_of_SomeD)
  ultimately consider (same) "evolves ?X sv w0 ?w"
    | (again) d where "(storeKey t r, d) \<in> set (mm_dispatches (wd_store w))" "en_published (wd_env ?w) = en_published (wd_env w) @ [message_of d]"
        "en_ids (wd_env ?w) = en_ids (wd_env w)" "wd_store ?w = wd_store w"
    using ev by (auto simp: evolves_def dest: published_ok_cong)
  then show ?thesis
  proof cases
    case again
    have "storeKey t r = storeKey (dp_TenantRef d) (dp_DispatchRef d)" "nul_free (dp_TenantRef d)"
      using again(1) evolves_inv[OF ev] by (auto simp: store_inv_def outbox_keyed_def)
    with assms(1) have d: "dp_TenantRef d = t" "dp_DispatchRef d = r" by (metis storeKey_inject)+
    then have "lost_stamps [DiedUnstamped t r] (message_of d) = 1" "outbox_row (wd_store w) (message_of d) d"
      using again(1) by (simp_all add: lost_stamps_def message_of_def outbox_row_def)
    moreover have "count_list (en_published (wd_env w)) m \<le> X m + of_bool (stamped (wd_store w) m)" for m
      using evolves_published[OF ev] by (simp add: published_ok_def)
    then have "count_list (en_published (wd_env w) @ [message_of d]) m \<le> ?X m + of_bool (stamped (wd_store w) m)" for m
    proof (cases "m = message_of d")
      case False
      with \<open>\<And>m. count_list _ m \<le> X m + _\<close>[of m] show ?thesis by simp
    qed (use \<open>\<And>m. count_list _ m \<le> X m + _\<close>[of "message_of d"] calculation(1) in simp)
    ultimately have "published_ok ?X (wd_store w) (wd_env ?w)"
      using evolves_published[OF ev] unfolding published_ok_def again(2) by auto
    with ev again(3,4) show ?thesis by (simp add: evolves_def)
  qed
qed

lemma cut_drain_evolves:
  assumes ev: "evolves X sv w0 w"
  shows "evolves X sv w0 (cut_drain sv t n w)"
proof (cases "sv_publisher sv")
  case (Some p)
  obtain at env where now: "env_now sv (wd_env w) = (at, env)" by fastforce
  obtain m s' env' where loop: "claim_loop n t at (service_deliver sv p) [] 0 (wd_store w, env) = (m, s', env')" by (metis prod.collapse)
  have env: "en_ids env = en_ids (wd_env w)" "en_published env = en_published (wd_env w)" using now by (auto simp: env_now_def)
  show ?thesis
  proof (cases n)
    case 0
    with ev now loop Some env show ?thesis by (auto simp: cut_drain_def evolves_def intro: published_ok_cong)
  next
    case (Suc k)
    then have drain: "mm_ClaimPendingDispatches t (int n) at (service_deliver sv p) (wd_store w, env) = (Inr m, s', env')"
      using loop by (simp add: mm_ClaimPendingDispatches_def del: claim_loop.simps of_nat_Suc)
    have "wp (on_claim (mm_ClaimPendingDispatches t (int n) at (service_deliver sv p))) (\<lambda>_. evolves X sv w0) (\<lambda>_. evolves X sv w0) (w\<lparr>wd_env := env\<rparr>)"
      using evolves_inv[OF ev] published_ok_cong[OF evolves_published[OF ev] refl env(2)] env(1)
      by (intro wp_mm_claim_pending) (auto intro: evolves_stays[OF ev] split: sum.splits)
    then show ?thesis
      using drain now loop Some by (simp add: cut_drain_def wp_def on_claim_def)
  qed
qed (use ev in \<open>simp add: cut_drain_def\<close>)

lemma happen_evolves:
  assumes ok: "well_formed_service sv" "sv_store sv = memory_store" "nul_free (event_tenant e)" and ev: "evolves X sv w0 w"
  shows "evolves (\<lambda>m. X m + lost_stamps [e] m) sv w0 (happen sv e w)"
proof -
  have same: "(\<lambda>m. X m + lost_stamps [e] m) = X" if "\<And>t r. e \<noteq> DiedUnstamped t r" using that by (simp add: lost_stamps_def)
  show ?thesis
  proof (cases e)
    case (Served d c)
    with same serve_evolves[OF ok(1,2) _ ev, of c d] ok(3) show ?thesis by simp
  next
    case (DiedUnpublished d c)
    have "well_formed_service (sv\<lparr>sv_publisher := None\<rparr>)" "sv_store (sv\<lparr>sv_publisher := None\<rparr>) = memory_store"
      using ok by (simp_all add: well_formed_service_def)
    from serve_evolves[OF this, of c X w0 w d] DiedUnpublished same ok(3) ev show ?thesis by (simp add: evolves_unpublished)
  next
    case (DiedUnstamped t r)
    with die_unstamped_evolves[OF _ ev] ok(3) show ?thesis by simp
  next
    case (DrainCut t n)
    with same cut_drain_evolves[OF ev] show ?thesis by simp
  qed
qed

lemma happen_all_evolves:
  assumes "well_formed_service sv" and "sv_store sv = memory_store"
  shows "evolves X sv w0 w \<Longrightarrow> \<forall>e \<in> set es. nul_free (event_tenant e)
    \<Longrightarrow> evolves (\<lambda>m. X m + lost_stamps es m) sv w0 (happen_all sv es w)"
proof (induction es arbitrary: X w)
  case (Cons e es)
  have "(\<lambda>m. X m + lost_stamps (e # es) m) = (\<lambda>m. (X m + lost_stamps [e] m) + lost_stamps es m)" by (auto simp: lost_stamps_def)
  with Cons.IH[OF happen_evolves[OF assms _ Cons.prems(1)]] Cons.prems(2) show ?case by (simp add: happen_all_def)
qed (simp add: happen_all_def lost_stamps_def)

text \<open>C7: at least once, and harmlessly so: over any run of calls, cut-short drains and crashes before a publish or between
  a publish and its stamp, every message the transport accepted is that of a row of the outbox, all messages of one action
  are identical, their dedup reference included, and a message is accepted at most once more than its stamp was lost: a run
  without such a crash delivers no message twice.\<close>

theorem redelivery_is_identical_and_bounded:
  assumes "well_formed_service sv" and "sv_store sv = memory_store"
    and "\<forall>e \<in> set es. nul_free (event_tenant e)"
    and "w = happen_all sv es (start_world ev)"
  shows "(\<forall>m \<in> set (en_published (wd_env w)). count_list (en_published (wd_env w)) m \<le> 1 + lost_stamps es m
        \<and> (\<exists>d. map_of (mm_dispatches (wd_store w)) (storeKey (dm_TenantRef m) (dm_DispatchRef m)) = Some d \<and> message_of d = m))
     \<and> (\<forall>m \<in> set (en_published (wd_env w)). \<forall>m' \<in> set (en_published (wd_env w)).
          dm_TenantRef m = dm_TenantRef m' \<and> dm_ActionRef m = dm_ActionRef m' \<longrightarrow> m = m')"
proof -
  have ok: "published_ok (lost_stamps es) (wd_store w) (wd_env w)" and inv: "store_inv (wd_store w)"
    using happen_all_evolves[OF assms(1,2) start_evolves[where ev = ev and X = "\<lambda>_. 0"] assms(3)] by (simp_all add: evolves_def assms(4))
  have "m = m'" if m: "m \<in> set (en_published (wd_env w))" and m': "m' \<in> set (en_published (wd_env w))"
    and same: "dm_TenantRef m = dm_TenantRef m'" "dm_ActionRef m = dm_ActionRef m'" for m m'
  proof -
    obtain k d k' d' where rows: "(k, d) \<in> set (mm_dispatches (wd_store w))" "message_of d = m"
        "(k', d') \<in> set (mm_dispatches (wd_store w))" "message_of d' = m'"
      using ok m m' unfolding published_ok_def outbox_row_def by blast
    with same have "dp_TenantRef d = dp_TenantRef d'" "dp_ActionRef d = dp_ActionRef d'" by (auto simp: message_of_def)
    with inv rows have "k = k'" unfolding store_inv_def outbox_once_def by fastforce
    with inv rows have "d = d'" using distinct_fst_inj unfolding store_inv_def outbox_keyed_def by metis
    with rows show ?thesis by simp
  qed
  moreover have "count_list (en_published (wd_env w)) m \<le> 1 + lost_stamps es m" for m
  proof -
    have "count_list (en_published (wd_env w)) m \<le> lost_stamps es m + of_bool (stamped (wd_store w) m)" using ok by (simp add: published_ok_def)
    then show ?thesis by (cases "stamped (wd_store w) m") simp_all
  qed
  moreover have "\<exists>d. map_of (mm_dispatches (wd_store w)) (storeKey (dm_TenantRef m) (dm_DispatchRef m)) = Some d \<and> message_of d = m"
    if "m \<in> set (en_published (wd_env w))" for m
    using ok inv that by (auto simp: published_ok_def outbox_row_def store_inv_def outbox_keyed_def)
  ultimately show ?thesis by blast
qed

subsection \<open>A message delivered twice\<close>

definition ex_note :: Action where
  "ex_note = requested_action ex_principal ex_request ex_ref StatusRequested [] ''aud'' 1"

definition ex_dsp :: string where
  "ex_dsp = ''dsp_'' @ replicate 18 CHR ''x''"

definition ex_crashes :: "run_event list" where
  "ex_crashes = [Served False (CallRequest ex_principal ex_request), Served False (CallGrant ex_principal ex_ref),
     DiedUnpublished False (CallDispatch ex_principal ex_ref), DiedUnstamped ''acme'' ex_dsp, Served False (CallRepublish ''acme'')]"

lemma ex_gens: "sv_newID ex_service k p = p @ replicate (k + 16) CHR ''x''" "sv_now ex_service k = int k + 1"
    "sv_audit ex_service k e = Inr ''aud''" "sv_publisher ex_service = Some (\<lambda>_ _. None)" "sv_evidence ex_service = None"
  by (simp_all add: ex_service_def)

lemmas ex_steps = guard_def invalid_def ex_principal_ok ex_principal_tenant ex_trust attempt_def on_action_store_def
  ex_service_ok memory_store_ops andthen_def now_def env_now_def newID_def ex_gens appendAudit_def on_error_def Let_def

lemma ex_note_fields: "ac_Status ex_note = StatusRequested" "ac_ActionRef ex_note = ex_ref" "ac_TenantRef ex_note = ''acme''"
    "ac_RiskLevel ex_note = RiskLow" "ac_IdempotencyKey ex_note = ar_IdempotencyKey ex_request" "ac_Capability ex_note = ''crm.note''"
  by (simp_all add: ex_note_def requested_action_def zero_action_def ex_principal_tenant ex_request_def ex_risk_def)

lemma ex_requests:
  "\<exists>w. serve ex_service False (CallRequest ex_principal ex_request) (start_world ()) = w \<and> mm_actions (wd_store w) = [storeKey ''acme'' ex_ref \<mapsto> ex_note]
     \<and> mm_grants (wd_store w) = Map.empty \<and> mm_dispatches (wd_store w) = [] \<and> mm_claimed (wd_store w) = (\<lambda>_. False)
     \<and> en_ids (wd_env w) = 1 \<and> en_ticks (wd_env w) = 1 \<and> en_published (wd_env w) = []"
proof -
  have p: "ar_ApprovalPlanRef ex_request = None" by (simp add: ex_request_def)
  show ?thesis
    by (simp add: RequestAction_def ex_request_valid p create_requested_def ex_steps mm_GetByIdempotencyKey_def start_world_def
        NewMemoryStore_def new_env_def mm_PutRequested_def ex_handles[simplified])
      (simp add: ex_note_def requested_action_def ex_ref_def ex_principal_tenant)
qed

definition ex_token :: Grant where
  "ex_token = \<lparr>gr_TenantRef = ''acme'', gr_GrantRef = ''grant_'' @ replicate 17 CHR ''x'', gr_ActionRef = ex_ref,
     gr_BusinessContextRef = ac_BusinessContextRef ex_note, gr_Capability = ''crm.note'', gr_ParameterHash = ac_ParameterHash ex_note,
     gr_OneUse = True, gr_IssuedAt = 2, gr_ExpiresAt = 2 + MaxActionGrantTTL, gr_ConsumedAt = 0\<rparr>"

definition ex_unlocked :: Action where
  "ex_unlocked = ex_note\<lparr>ac_Status := StatusGranted, ac_GrantRef := ''grant_'' @ replicate 17 CHR ''x'', ac_ApprovalEvidenceRef := [], ac_UpdatedAt := 2\<rparr>"

definition ex_intent :: Dispatch where
  "ex_intent = dispatch_row ex_principal ex_unlocked ex_ref ex_dsp 3"

definition ex_sent :: Dispatch where
  "ex_sent = ex_intent\<lparr>dp_Attempts := 1, dp_Published := True, dp_PublishedAt := 5\<rparr>"

lemma ex_mints: "mint ex_note (''grant_'' @ replicate 17 CHR ''x'') 2 w = (Inr (step_grant_of ex_token), w)"
proof -
  have h: "ValidateHandle (''grant_'' @ replicate 17 CHR ''x'') HandleGrant = None" "ValidateHandle ''wc_aaaaaaaaaaaaaaaa'' HandleWorkCase = None" by code_simp+
  have n: "ac_BusinessContextRef ex_note = ''wc_aaaaaaaaaaaaaaaa''" "ac_ParameterHash ex_note = HashParameters ''{}''"
    by (simp_all add: ex_note_def requested_action_def ex_request_def)
  have "StepGrant_Validate (step_grant_of ex_token) = None"
    using h[simplified] ex_strings by (simp add: StepGrant_Validate_def first_error_None step_grant_of_def ex_token_def n MaxActionGrantTTL_def minute_def second_def)
  then show ?thesis
    by (simp add: mint_def MintActionGrant_def step_grant_of_def ex_token_def ex_note_fields Let_def MaxActionGrantTTL_def minute_def second_def)
qed

lemma ex_grants:
  assumes "mm_actions (wd_store w) = [storeKey ''acme'' ex_ref \<mapsto> ex_note]" and "mm_grants (wd_store w) = Map.empty"
    and "en_ids (wd_env w) = 1" and "en_ticks (wd_env w) = 1"
  shows "\<exists>w'. serve ex_service False (CallGrant ex_principal ex_ref) w = w' \<and> mm_actions (wd_store w') = [storeKey ''acme'' ex_ref \<mapsto> ex_unlocked]
     \<and> mm_grants (wd_store w') = [storeKey ''acme'' ex_ref \<mapsto> ex_token] \<and> mm_dispatches (wd_store w') = mm_dispatches (wd_store w)
     \<and> mm_claimed (wd_store w') = mm_claimed (wd_store w)
     \<and> en_ids (wd_env w') = 2 \<and> en_ticks (wd_env w') = 2 \<and> en_published (wd_env w') = en_published (wd_env w)"
proof -
  have g: "ServiceGetAction ex_service False ex_principal ex_ref w = (Inr ex_note, w)"
    by (rule ServiceGetAction_found) (simp_all add: ex_service_ok ex_principal_ok ex_principal_tenant assms(1))
  have edge: "canTransition StatusRequested StatusGranted" by (simp add: canTransition_def allowedEdges_def)
  have v: "verifyDecisionProvider ex_service ex_principal c h = None" for c h
    by (simp add: verifyDecisionProvider_def ex_principal_def ex_service_def)
  show ?thesis
    using assms
    by (simp add: ServiceGrant_def v check_def ex_mints[simplified] g ex_steps ex_note_fields consume_evidence_def edge mm_Grant_def ex_token_def ex_unlocked_def step_grant_of_def)
qed

lemma ex_dispatches:
  assumes "mm_actions (wd_store w) = [storeKey ''acme'' ex_ref \<mapsto> ex_unlocked]" and "mm_grants (wd_store w) = [storeKey ''acme'' ex_ref \<mapsto> ex_token]"
    and "mm_dispatches (wd_store w) = []" and "en_ids (wd_env w) = 2" and "en_ticks (wd_env w) = 2"
  shows "\<exists>w'. serve (ex_service\<lparr>sv_publisher := None\<rparr>) False (CallDispatch ex_principal ex_ref) w = w'
     \<and> mm_dispatches (wd_store w') = [(storeKey ''acme'' ex_dsp, ex_intent)] \<and> mm_claimed (wd_store w') = mm_claimed (wd_store w)
     \<and> en_ticks (wd_env w') = 3 \<and> en_published (wd_env w') = en_published (wd_env w)"
proof -
  let ?sv = "ex_service\<lparr>sv_publisher := None\<rparr>"
  have g: "ServiceGetAction ?sv False ex_principal ex_ref w = (Inr ex_unlocked, w)"
    by (rule ServiceGetAction_found) (simp_all add: ex_service_ok ex_principal_ok ex_principal_tenant assms(1))
  have edge: "canTransition StatusGranted StatusDispatched" by (simp add: canTransition_def allowedEdges_def)
  have u: "ac_Status ex_unlocked = StatusGranted" by (simp add: ex_unlocked_def)
  have c: "ConsumeActionGrant (step_grant_of ex_token) 3 (\<not> is_zero_time (gr_ConsumedAt ex_token)) = None"
    by (simp add: ConsumeActionGrant_def step_grant_of_def ex_token_def first_error_None fail_if_def MaxActionGrantTTL_def minute_def second_def)
  show ?thesis
    using assms c
    by (simp add: ServiceDispatch_def g ex_steps u edge mm_Dispatch_def publishDispatched_def ex_intent_def ex_dsp_def dispatch_row_def)
qed

lemma ex_redelivers:
  assumes "mm_dispatches (wd_store w) = [(storeKey ''acme'' ex_dsp, ex_intent)]" and "mm_claimed (wd_store w) = (\<lambda>_. False)"
    and "en_ticks (wd_env w) = 3" and "en_published (wd_env w) = []"
  shows "en_published (wd_env (serve ex_service False (CallRepublish ''acme'') (die_unstamped ex_service ''acme'' ex_dsp w))) = [message_of ex_intent, message_of ex_intent]"
proof -
  have row: "claimable ex_intent at e" "dp_TenantRef ex_intent = ''acme''" "dp_DispatchRef ex_intent = ex_dsp" for at e
    by (simp_all add: ex_intent_def dispatch_row_def claimable_def ex_principal_tenant)
  let ?w = "die_unstamped ex_service ''acme'' ex_dsp w"
  have died: "wd_store ?w = wd_store w" "en_published (wd_env ?w) = [message_of ex_intent]"
    using assms row by (simp_all add: die_unstamped_def ex_gens env_now_def acquireDispatch_def service_deliver_def Let_def)
  obtain res w' where run: "RepublishPending ex_service False ''acme'' ?w = (res, w')" by fastforce
  have keyed: "outbox_keyed (wd_store ?w)" by (simp add: died(1) assms(1) outbox_keyed_def row nul_free_def)
  have due: "due ''acme'' at (wd_store w) = [(storeKey ''acme'' ex_dsp, ex_intent)]" for at
    by (simp add: due_def assms(1) row)
  obtain ms where "en_published (wd_env w') = en_published (wd_env ?w) @ ms" "mset ms = image_mset (message_of \<circ> snd) (mset [(storeKey ''acme'' ex_dsp, ex_intent)])"
    using republish_drains[OF ex_service_ok(2) ex_gens(4) refl keyed _ refl _ run] assms(2) by (auto simp: died(1) due)
  then show ?thesis using died(2) run by simp
qed

text \<open>The run: requested, granted, dispatched by a process that died before it published; a second process publishes and dies
  before it stamps; a third drains. The transport has the message twice.\<close>

lemma ex_crash_run:
  "en_published (wd_env (happen_all ex_service ex_crashes (start_world ()))) = [message_of ex_intent, message_of ex_intent]"
proof -
  obtain w1 where w1: "serve ex_service False (CallRequest ex_principal ex_request) (start_world ()) = w1"
      "mm_actions (wd_store w1) = [storeKey ''acme'' ex_ref \<mapsto> ex_note]" "mm_grants (wd_store w1) = Map.empty"
      "mm_dispatches (wd_store w1) = []" "mm_claimed (wd_store w1) = (\<lambda>_. False)" "en_ids (wd_env w1) = 1" "en_ticks (wd_env w1) = 1"
      "en_published (wd_env w1) = []" using ex_requests by blast
  obtain w2 where w2: "serve ex_service False (CallGrant ex_principal ex_ref) w1 = w2"
      "mm_actions (wd_store w2) = [storeKey ''acme'' ex_ref \<mapsto> ex_unlocked]" "mm_grants (wd_store w2) = [storeKey ''acme'' ex_ref \<mapsto> ex_token]"
      "mm_dispatches (wd_store w2) = []" "mm_claimed (wd_store w2) = (\<lambda>_. False)" "en_ids (wd_env w2) = 2" "en_ticks (wd_env w2) = 2"
      "en_published (wd_env w2) = []" using ex_grants[OF w1(2,3,6,7)] w1(4,5,8) by auto
  obtain w3 where w3: "serve (ex_service\<lparr>sv_publisher := None\<rparr>) False (CallDispatch ex_principal ex_ref) w2 = w3"
      "mm_dispatches (wd_store w3) = [(storeKey ''acme'' ex_dsp, ex_intent)]" "mm_claimed (wd_store w3) = (\<lambda>_. False)"
      "en_ticks (wd_env w3) = 3" "en_published (wd_env w3) = []" using ex_dispatches[OF w2(2-4,6,7)] w2(5,8) by auto
  have "happen_all ex_service ex_crashes (start_world ()) = serve ex_service False (CallRepublish ''acme'') (die_unstamped ex_service ''acme'' ex_dsp w3)"
    unfolding happen_all_def ex_crashes_def fold.simps o_apply id_apply happen.simps w1(1) w2(1) w3(1) ..
  with ex_redelivers[OF w3(2-5)] show ?thesis by simp
qed

theorem redelivery_is_identical_and_bounded_witness:
  "en_published (wd_env (happen_all ex_service ex_crashes (start_world ()))) = [message_of ex_intent, message_of ex_intent]
     \<and> (\<exists>d. map_of (mm_dispatches (wd_store (happen_all ex_service ex_crashes (start_world ())))) (storeKey ''acme'' ex_dsp) = Some d
          \<and> message_of d = message_of ex_intent)"
proof -
  have "\<forall>e \<in> set ex_crashes. nul_free (event_tenant e)" by (simp add: ex_crashes_def ex_principal_ok) (simp add: nul_free_def)
  from redelivery_is_identical_and_bounded[OF ex_service_ok this refl, of "()"] ex_crash_run
  have "\<exists>d. map_of (mm_dispatches (wd_store (happen_all ex_service ex_crashes (start_world ()))))
      (storeKey (dm_TenantRef (message_of ex_intent)) (dm_DispatchRef (message_of ex_intent))) = Some d \<and> message_of d = message_of ex_intent" by simp
  then show ?thesis using ex_crash_run by (simp add: message_of_def ex_intent_def dispatch_row_def ex_principal_tenant)
qed

end
