(* ===== verification/TicketLaws.thy ===== *)
theory TicketLaws
  imports Tickets
begin

text \<open>
  What step grants promise. The store side is a locale, the governed grant store: creation appends a
  grant under a fresh token hash, verification finds it by hash and checks the exact operation. The service side is
  proved against it, and the locale is interpreted on the in-memory store. Runs of the service are lists of calls.
\<close>

subsection \<open>Runs of the service\<close>

datatype ticket_call =
    CallIssueTicket bool Actor IssueCaseTicketInput
  | CallAuthorize Actor CreateStepGrantInput
  | CallVerify Actor VerifyStepGrantInput

definition ticket_serve :: "'st TicketService \<Rightarrow> ticket_call \<Rightarrow> 'st TicketWorld \<Rightarrow> 'st TicketWorld" where
  "ticket_serve svc c w = (case c of
      CallIssueTicket d a i \<Rightarrow> snd (IssueCaseTicket svc d a i w)
    | CallAuthorize a i \<Rightarrow> snd (AuthorizeAndCreateGrant svc a i w)
    | CallVerify a i \<Rightarrow> snd (VerifyGrant svc a i w))"

definition ticket_run :: "'st TicketService \<Rightarrow> ticket_call list \<Rightarrow> 'st TicketWorld \<Rightarrow> 'st TicketWorld" where
  "ticket_run svc cs w = fold (ticket_serve svc) cs w"

text \<open>What a stored grant attests: an authorizer's answer for one actor and one exact operation.\<close>

definition attests ::
  "'st TicketService \<Rightarrow> Actor \<Rightarrow> CreateStepGrantInput \<Rightarrow> GrantAuthorization \<Rightarrow> string \<Rightarrow> TicketGrant \<Rightarrow> bool" where
  "attests svc a input auth tok g \<longleftrightarrow>
     (\<exists>authorize. ts_authorizer svc = Some authorize \<and> authorize a input = Inr auth)
     \<and> ga_Allowed auth \<and> ga_EnterpriseID auth = actor_EnterpriseID a \<and> ga_OrgVersion auth = actor_OrgVersion a
     \<and> (actor_CaseTicketID a = [] \<or> actor_CaseTicketID a = ci_CaseTicketID input)
     \<and> (\<exists>k. ts_newToken svc k = Some tok) \<and> tok \<noteq> [] \<and> tg_Token g = [] \<and> tg_TokenHash g = HashStepGrantToken tok
     \<and> tg_EnterpriseID g = actor_EnterpriseID a \<and> tg_ActorUserID g = actor_UserID a \<and> tg_OrgVersion g = actor_OrgVersion a
     \<and> tg_OrgUnitID g = ga_OrgUnitID auth \<and> tg_CaseTicketID g = ci_CaseTicketID input
     \<and> tg_ResourceType g = ci_ResourceType input \<and> tg_ResourceID g = ci_ResourceID input \<and> tg_Action g = ci_Action input
     \<and> (\<exists>scope. exactGrantScope (ci_ResourceType input) (ci_Action input) = Some scope \<and> tg_Scopes g = [scope])
     \<and> tg_CreatedAt g < tg_ExpiresAt g \<and> tg_ExpiresAt g \<le> tg_CreatedAt g + MaxStepGrantTTL"

definition one_per_hash :: "TicketGrant set \<Rightarrow> bool" where
  "one_per_hash G \<longleftrightarrow> (\<forall>g \<in> G. \<forall>g' \<in> G. tg_TokenHash g = tg_TokenHash g' \<longrightarrow> g = g')"

text \<open>The request that presents a grant for the operation it was minted for.\<close>

definition presents :: "TicketGrant \<Rightarrow> string \<Rightarrow> VerifyStepGrantInput" where
  "presents g tok = \<lparr>vi_Token = tok, vi_ResourceType = tg_ResourceType g, vi_ResourceID = tg_ResourceID g,
     vi_Action = tg_Action g, vi_Scope = hd (tg_Scopes g)\<rparr>"

subsection \<open>Symbolic execution\<close>

lemma wp_on_store [wp_simps]:
  "wp (on_store m) Q E w \<longleftrightarrow> wp m (\<lambda>a s. Q a (w\<lparr>tw_store := s\<rparr>)) (\<lambda>e s. E e (w\<lparr>tw_store := s\<rparr>)) (tw_store w)"
  by (auto simp: wp_def on_store_def split: prod.splits sum.splits)

lemma wp_read_clock [wp_simps]:
  "wp (read_clock svc) Q E w \<longleftrightarrow> Q (ts_now svc (tw_ticks w)) (w\<lparr>tw_ticks := Suc (tw_ticks w)\<rparr>)"
  by (simp add: wp_def read_clock_def)

lemma wp_new_id [wp_simps]:
  "wp (new_id svc) Q E w \<longleftrightarrow> Q (ts_newID svc (tw_ids w)) (w\<lparr>tw_ids := Suc (tw_ids w)\<rparr>)"
  by (simp add: wp_def new_id_def)

lemma wp_new_token [wp_simps]:
  "wp (new_token svc) Q E w \<longleftrightarrow> (\<forall>t. ts_newToken svc (tw_tokens w) = Some t \<longrightarrow> Q t (w\<lparr>tw_tokens := Suc (tw_tokens w)\<rparr>))
     \<and> (ts_newToken svc (tw_tokens w) = None \<longrightarrow> E (Sentinel ErrGrantUnavailable) (w\<lparr>tw_tokens := Suc (tw_tokens w)\<rparr>))"
  by (cases "ts_newToken svc (tw_tokens w)") (simp_all add: wp_def new_token_def)

subsection \<open>The governed store\<close>

locale governed_store =
  fixes ops :: "'st TicketStore" and gov :: "'st GovernedGrantStore"
    and grants :: "'st \<Rightarrow> TicketGrant set" and down :: "'st \<Rightarrow> bool"
  assumes governed: "st_Governed ops = Some gov"
    and ticket_keeps: "st_CreateCaseTicket ops ticket s = (rt, s') \<Longrightarrow> grants s' = grants s \<and> down s' = down s"
    and create_adds: "gv_Create gov g aid s = (Inr g', s') \<Longrightarrow> g' = g \<and> grants s' = insert g (grants s) \<and> down s' = down s
        \<and> (\<forall>g1 \<in> grants s. tg_TokenHash g1 \<noteq> tg_TokenHash g)"
    and create_refuses: "gv_Create gov g aid s = (Inl e, s') \<Longrightarrow> grants s' = grants s \<and> down s' = down s"
    and verify_keeps: "gv_Verify gov a input h aid t s = (r, s') \<Longrightarrow> grants s' = grants s \<and> down s' = down s"
    and verify_exact: "gv_Verify gov a input h aid t s = (Inr g, s') \<Longrightarrow> g \<in> grants s
        \<and> tg_EnterpriseID g = actor_EnterpriseID a \<and> tg_TokenHash g = h \<and> grant_matches a input t g"
    and verify_finds: "one_per_hash (grants s) \<Longrightarrow> \<not> down s \<Longrightarrow> g \<in> grants s \<Longrightarrow> tg_EnterpriseID g = actor_EnterpriseID a
        \<Longrightarrow> tg_TokenHash g = h \<Longrightarrow> grant_matches a input t g \<Longrightarrow> \<exists>s'. gv_Verify gov a input h aid t s = (Inr g, s')"
begin

text \<open>What every run keeps: grants only accumulate, each attested, one per token hash.\<close>

definition sound_from :: "'st TicketService \<Rightarrow> 'st TicketWorld \<Rightarrow> 'st TicketWorld \<Rightarrow> bool" where
  "sound_from svc w0 w \<longleftrightarrow> grants (tw_store w0) \<subseteq> grants (tw_store w) \<and> down (tw_store w) = down (tw_store w0)
     \<and> one_per_hash (grants (tw_store w)) \<and> (\<forall>g \<in> grants (tw_store w). \<exists>a input auth tok. attests svc a input auth tok g)"

lemma sound_from_cong:
  "sound_from svc w0 w \<Longrightarrow> grants (tw_store w') = grants (tw_store w) \<Longrightarrow> down (tw_store w') = down (tw_store w)
     \<Longrightarrow> sound_from svc w0 w'"
  by (simp add: sound_from_def)

lemma wp_ticket: "(\<And>r s'. grants s' = grants s \<Longrightarrow> down s' = down s \<Longrightarrow> Q r s' \<and> (\<forall>e. E e s')) \<Longrightarrow> wp (st_CreateCaseTicket ops ticket) Q E s"
  by (rule wpI) (auto dest: ticket_keeps)

lemma issue_sound:
  assumes "ts_store svc = ops" and "sound_from svc w0 w"
  shows "wp (IssueCaseTicket svc d a i) (\<lambda>_. sound_from svc w0) (\<lambda>_. sound_from svc w0) w"
  unfolding IssueCaseTicket_def wp_simps
  by (intro conjI impI allI) (auto simp: assms(1) intro: sound_from_cong[OF assms(2)] intro!: wp_ticket)

lemma wp_verify:
  assumes "\<And>g s'. g \<in> grants s \<Longrightarrow> tg_EnterpriseID g = actor_EnterpriseID a \<Longrightarrow> tg_TokenHash g = h \<Longrightarrow> grant_matches a input t g
      \<Longrightarrow> grants s' = grants s \<Longrightarrow> down s' = down s \<Longrightarrow> Q g s'"
    and "\<And>e s'. grants s' = grants s \<Longrightarrow> down s' = down s \<Longrightarrow> E e s'"
  shows "wp (gv_Verify gov a input h aid t) Q E s"
  by (rule wpI) (auto intro!: assms dest: verify_exact verify_keeps)

lemma verify_sound:
  assumes "ts_store svc = ops" and "sound_from svc w0 w"
  shows "wp (VerifyGrant svc a input)
     (\<lambda>g w'. sound_from svc w0 w' \<and> (\<exists>g0 \<in> grants (tw_store w). g = g0\<lparr>tg_Token := []\<rparr> \<and> tg_EnterpriseID g0 = actor_EnterpriseID a
        \<and> tg_TokenHash g0 = HashStepGrantToken (vi_Token input) \<and> grant_matches a input (ts_now svc (tw_ticks w)) g0))
     (\<lambda>_. sound_from svc w0) w"
  unfolding VerifyGrant_def wp_simps assms(1) governed
  by (auto intro!: wp_verify intro: sound_from_cong[OF assms(2)])

lemma sound_from_insert:
  assumes "sound_from svc w0 w" and "attests svc a input auth tok g" and "grants (tw_store w') = insert g (grants (tw_store w))"
    and "down (tw_store w') = down (tw_store w)" and "\<forall>g1 \<in> grants (tw_store w). tg_TokenHash g1 \<noteq> tg_TokenHash g"
  shows "sound_from svc w0 w'"
  using assms by (fastforce simp: sound_from_def one_per_hash_def)

lemma wp_create:
  assumes "\<And>s'. grants s' = insert g (grants s) \<Longrightarrow> down s' = down s \<Longrightarrow> \<forall>g1 \<in> grants s. tg_TokenHash g1 \<noteq> tg_TokenHash g \<Longrightarrow> Q g s'"
    and "\<And>e s'. grants s' = grants s \<Longrightarrow> down s' = down s \<Longrightarrow> E e s'"
  shows "wp (gv_Create gov g aid) Q E s"
  by (rule wpI) (use assms create_adds create_refuses in blast)+

lemma wp_create_attested:
  assumes "sound_from svc w0 w" and g: "attests svc a input auth tok g"
  shows "wp (gv_Create gov g aid)
     (\<lambda>g' s. sound_from svc w0 (w\<lparr>tw_tokens := i, tw_ticks := j, tw_ids := k, tw_store := s\<rparr>) \<and> g'\<lparr>tg_Token := []\<rparr> \<in> grants s
        \<and> (\<exists>auth. attests svc a input auth tok (g'\<lparr>tg_Token := []\<rparr>)))
     (\<lambda>e s. sound_from svc w0 (w\<lparr>tw_tokens := i, tw_ticks := j, tw_ids := k, tw_store := s\<rparr>)) (tw_store w)"
proof (rule wp_create)
  fix s' assume s': "grants s' = insert g (grants (tw_store w))" "down s' = down (tw_store w)"
    "\<forall>g1 \<in> grants (tw_store w). tg_TokenHash g1 \<noteq> tg_TokenHash g"
  have "g\<lparr>tg_Token := []\<rparr> = g" using g by (cases g) (simp add: attests_def)
  with g s' sound_from_insert[OF assms] show "sound_from svc w0 (w\<lparr>tw_tokens := i, tw_ticks := j, tw_ids := k, tw_store := s'\<rparr>)
      \<and> g\<lparr>tg_Token := []\<rparr> \<in> grants s' \<and> (\<exists>auth. attests svc a input auth tok (g\<lparr>tg_Token := []\<rparr>))" by auto
qed (auto intro: sound_from_cong[OF assms(1)])

lemma authorize_sound:
  assumes "ts_store svc = ops" and "sound_from svc w0 w"
  shows "wp (AuthorizeAndCreateGrant svc a input)
     (\<lambda>g w'. sound_from svc w0 w' \<and> g\<lparr>tg_Token := []\<rparr> \<in> grants (tw_store w')
        \<and> (\<exists>auth. attests svc a input auth (tg_Token g) (g\<lparr>tg_Token := []\<rparr>)))
     (\<lambda>_. sound_from svc w0) w"
  unfolding AuthorizeAndCreateGrant_def wp_simps assms(1) governed
  by (auto simp: create_grant_input_ok_def canonical_def attests_def MaxStepGrantTTL_def minute_def second_def
      intro: sound_from_cong[OF assms(2)] intro!: wp_create_attested[OF assms(2), THEN wp_mono])

lemma serve_sound:
  assumes "ts_store svc = ops" and "sound_from svc w0 w"
  shows "sound_from svc w0 (ticket_serve svc c w)"
proof (cases c)
  case (CallAuthorize a i)
  have "wp (AuthorizeAndCreateGrant svc a i) (\<lambda>_. sound_from svc w0) (\<lambda>_. sound_from svc w0) w"
    by (rule wp_mono[OF authorize_sound[OF assms]]) auto
  with CallAuthorize show ?thesis by (simp add: wp_state ticket_serve_def)
next
  case (CallVerify a i)
  have "wp (VerifyGrant svc a i) (\<lambda>_. sound_from svc w0) (\<lambda>_. sound_from svc w0) w"
    by (rule wp_mono[OF verify_sound[OF assms]]) auto
  with CallVerify show ?thesis by (simp add: wp_state ticket_serve_def)
qed (use issue_sound[OF assms] in \<open>simp add: wp_state ticket_serve_def\<close>)

lemma run_sound:
  assumes "ts_store svc = ops" and "sound_from svc w0 w"
  shows "sound_from svc w0 (ticket_run svc cs w)"
  using assms(2)
proof (induction cs arbitrary: w)
  case (Cons c cs)
  then show ?case using serve_sound[OF assms(1) Cons.prems, of c] by (simp add: ticket_run_def)
qed (simp add: ticket_run_def)

text \<open>A grant of the store, presented by its actor for its operation, is found as long as it has not expired.\<close>

lemma presented_verifies:
  assumes "ts_store svc = ops" and sound: "sound_from svc w0 w" and g: "g \<in> grants (tw_store w)" "tg_TokenHash g = HashStepGrantToken tok"
    and a: "actor_EnterpriseID a = tg_EnterpriseID g" "actor_UserID a = tg_ActorUserID g"
    and ok: "canonical (tg_EnterpriseID g)" "canonical (tg_ActorUserID g)" "canonical tok" "canonical (tg_ResourceID g)"
      "canonical (ts_newID svc (tw_ids w))"
    and live: "ts_now svc (tw_ticks w) < tg_ExpiresAt g" "\<not> down (tw_store w)"
  shows "fst (VerifyGrant svc a (presents g tok) w) = Inr g"
proof -
  have attested: "tg_Token g = []" "tg_ResourceType g = ''dream_evidence''" "tg_Action g = ''read''"
      "tg_Scopes g = [''dream:evidence:read'']" "one_per_hash (grants (tw_store w))"
    using sound g by (auto simp: sound_from_def attests_def exactGrantScope_def split: if_splits)
  have plain: "canonical ''dream_evidence''" "canonical ''read''" "canonical ''dream:evidence:read''" by code_simp+
  have "grant_matches a (presents g tok) (ts_now svc (tw_ticks w)) g"
    using a live attested by (simp add: grant_matches_def presents_def)
  then obtain s' where "gv_Verify gov a (presents g tok) (HashStepGrantToken tok) (ts_newID svc (tw_ids w))
      (ts_now svc (tw_ticks w)) (tw_store w) = (Inr g, s')"
    using verify_finds[OF attested(5) live(2) g(1)] g(2) a(1) by metis
  then show ?thesis
    using assms(1) governed a ok attested plain
    by (cases g) (simp add: VerifyGrant_def presents_def new_id_def read_clock_def on_store_def on_error_def andthen_def)
qed

end

subsection \<open>The in-memory store keeps the contract\<close>

definition ms_grant_set :: "MemoryTicketStore \<Rightarrow> TicketGrant set" where
  "ms_grant_set s = snd ` set (ms_grants s)"

lemma find_Some_in: "find P xs = Some x \<Longrightarrow> x \<in> set xs \<and> P x"
  by (induction xs) (auto split: if_splits)

lemma find_hash:
  fixes xs :: "(string \<times> TicketGrant) list"
  assumes "one_per_hash (snd ` set xs)" and "(k, g) \<in> set xs" and "tg_EnterpriseID g = e"
    and that: "tg_TokenHash g0 = tg_TokenHash g"
  shows "\<exists>k'. find (\<lambda>(k, g). tg_EnterpriseID g = e \<and> tg_TokenHash g = tg_TokenHash g0) xs = Some (k', g)"
proof -
  let ?P = "\<lambda>(k :: string, g' :: TicketGrant). tg_EnterpriseID g' = e \<and> tg_TokenHash g' = tg_TokenHash g0"
  have "find ?P xs \<noteq> None" using assms(2,3) that by (auto simp: find_None_iff)
  then obtain k' g' where f: "find ?P xs = Some (k', g')" by (cases "find ?P xs") auto
  with find_Some_in[OF f] that have "g' \<in> snd ` set xs" "tg_TokenHash g' = tg_TokenHash g" by force+
  moreover have "g \<in> snd ` set xs" using assms(2) by force
  ultimately have "g' = g" using assms(1) unfolding one_per_hash_def by blast
  with f show ?thesis by blast
qed

lemma set_update_new: "k \<notin> fst ` set al \<Longrightarrow> set (AList.update k v al) = insert (k, v) (set al)"
  by (induction al) auto

interpretation mem_grants: governed_store memory_ticket_store memory_governed ms_grant_set ms_failAudit
proof unfold_locales
  fix g :: TicketGrant and aid g' s s'
  assume "gv_Create memory_governed g aid s = (Inr g', s')"
  then show "g' = g \<and> ms_grant_set s' = insert g (ms_grant_set s) \<and> ms_failAudit s' = ms_failAudit s
      \<and> (\<forall>g1 \<in> ms_grant_set s. tg_TokenHash g1 \<noteq> tg_TokenHash g)"
    by (auto simp: memory_governed_def ms_CreateStepGrantAndAudit_def Let_def ms_grant_set_def set_update_new
        map_of_eq_None_iff split: if_splits)
next
  fix s :: MemoryTicketStore and g a h input t aid
  assume "one_per_hash (ms_grant_set s)" "\<not> ms_failAudit s" "g \<in> ms_grant_set s" "tg_EnterpriseID g = actor_EnterpriseID a"
    "tg_TokenHash g = h" "grant_matches a input t g"
  then show "\<exists>s'. gv_Verify memory_governed a input h aid t s = (Inr g, s')"
    using find_hash[of "ms_grants s" _ g "actor_EnterpriseID a" g]
    by (fastforce simp: memory_governed_def ms_VerifyStepGrantAndAudit_def ms_grant_set_def)
qed (auto simp: memory_ticket_store_def memory_governed_def ms_CreateCaseTicket_def ms_CreateStepGrantAndAudit_def Let_def
    ms_grant_set_def ms_VerifyStepGrantAndAudit_def split: if_splits option.splits
    dest!: find_Some_in intro: rev_image_eqI)

subsection \<open>Properties\<close>

definition ticket_start :: "MemoryTicketStore TicketWorld" where
  "ticket_start = \<lparr>tw_store = NewTicketStore, tw_ticks = 0, tw_ids = 0, tw_tokens = 0\<rparr>"

lemma ticket_start_sound: "mem_grants.sound_from svc ticket_start ticket_start"
  by (simp add: mem_grants.sound_from_def ticket_start_def NewTicketStore_def ms_grant_set_def one_per_hash_def)

lemma authorize_checked:
  assumes "AuthorizeAndCreateGrant svc a i w = (Inr g, w')"
  shows "create_grant_input_ok a i \<and> canonical (tg_Token g)"
proof -
  have "wp (AuthorizeAndCreateGrant svc a i) (\<lambda>g _. create_grant_input_ok a i \<and> canonical (tg_Token g)) (\<lambda>_ _. True) w"
    by (auto simp: AuthorizeAndCreateGrant_def wp_simps intro: wpI)
  from wp_Inr[OF this assms] show ?thesis .
qed

text \<open>A worked example: one authorized grant, verified by its holder.\<close>

definition ex_tickets :: "MemoryTicketStore TicketService" where
  "ex_tickets = \<lparr>ts_store = memory_ticket_store, ts_now = (\<lambda>n. int n + 1), ts_newID = (\<lambda>n. ''id_1''),
     ts_newToken = (\<lambda>n. Some ''tok_1''), ts_authorizer = Some (\<lambda>a i. Inr \<lparr>ga_Allowed = True,
       ga_EnterpriseID = actor_EnterpriseID a, ga_OrgVersion = actor_OrgVersion a, ga_OrgUnitID = ''unit''\<rparr>)\<rparr>"

definition ex_actor :: Actor where
  "ex_actor = \<lparr>actor_EnterpriseID = ''acme'', actor_UserID = ''alice'', actor_CaseTicketID = [], actor_OrgVersion = 1\<rparr>"

definition ex_grant_input :: CreateStepGrantInput where
  "ex_grant_input = \<lparr>ci_CaseTicketID = ''case'', ci_ResourceType = ''dream_evidence'', ci_ResourceID = ''res'',
     ci_Action = ''read'', ci_TTL = minute\<rparr>"

definition ex_step_grant :: TicketGrant where
  "ex_step_grant = \<lparr>tg_ID = ''id_1'', tg_Token = [], tg_TokenHash = HashStepGrantToken ''tok_1'', tg_EnterpriseID = ''acme'',
     tg_ActorUserID = ''alice'', tg_CaseTicketID = ''case'', tg_OrgUnitID = ''unit'', tg_OrgVersion = 1,
     tg_ResourceType = ''dream_evidence'', tg_ResourceID = ''res'', tg_Action = ''read'', tg_Scopes = [''dream:evidence:read''],
     tg_ExpiresAt = 1 + minute, tg_CreatedAt = 1\<rparr>"

lemma ex_canonical: "canonical ''acme''" "canonical ''alice''" "canonical ''case''" "canonical ''dream_evidence''"
  "canonical ''res''" "canonical ''read''" "canonical ''unit''" "canonical ''tok_1''" "canonical ''id_1''"
  "canonical ''dream:evidence:read''"
  by code_simp+

definition ex_minted :: "MemoryTicketStore TicketWorld" where
  "ex_minted = \<lparr>tw_store = NewTicketStore\<lparr>ms_grants := [(''acme:id_1'', ex_step_grant)], ms_audits := [''id_1'']\<rparr>,
     tw_ticks = 1, tw_ids = 2, tw_tokens = 1\<rparr>"

lemma ex_authorized: "AuthorizeAndCreateGrant ex_tickets ex_actor ex_grant_input ticket_start
    = (Inr (ex_step_grant\<lparr>tg_Token := ''tok_1''\<rparr>), ex_minted)"
  by (simp add: AuthorizeAndCreateGrant_def ex_tickets_def ex_actor_def ex_grant_input_def create_grant_input_ok_def ex_canonical
      exactGrantScope_def new_token_def read_clock_def new_id_def on_store_def andthen_def on_error_def memory_ticket_store_def
      memory_governed_def ms_CreateStepGrantAndAudit_def ticket_start_def NewTicketStore_def ticketKey_def ex_step_grant_def
      ex_minted_def MaxStepGrantTTL_def minute_def second_def Let_def)

lemma ex_verified: "\<exists>w'. VerifyGrant ex_tickets ex_actor (presents ex_step_grant ''tok_1'')
    (ticket_run ex_tickets [CallAuthorize ex_actor ex_grant_input] ticket_start) = (Inr ex_step_grant, w')"
  by (simp add: ticket_run_def ticket_serve_def ex_authorized)
    (simp add: VerifyGrant_def ex_tickets_def ex_actor_def presents_def ex_canonical ex_minted_def ex_step_grant_def
      new_id_def read_clock_def on_store_def on_error_def andthen_def memory_ticket_store_def memory_governed_def
      ms_VerifyStepGrantAndAudit_def grant_matches_def NewTicketStore_def minute_def second_def)

text \<open>C20: a step grant verifies only for what was authorized: if, after any run of the ticket service, verification
  accepts a token, then the authorizer allowed that very tenant and user that resource and action, at the organization
  version and unit the grant carries; the presented token is the one minted for it (or a SHA-256 collision with it),
  the grant has not expired, and it lives at most five minutes.\<close>

theorem verified_grant_was_authorized:
  assumes "ts_store svc = memory_ticket_store" and "w = ticket_run svc cs ticket_start"
    and "VerifyGrant svc a input w = (Inr g, w')"
  shows "\<exists>b i auth tok. attests svc b i auth tok g
     \<and> actor_EnterpriseID b = actor_EnterpriseID a \<and> actor_UserID b = actor_UserID a
     \<and> ci_ResourceType i = vi_ResourceType input \<and> ci_ResourceID i = vi_ResourceID input \<and> ci_Action i = vi_Action input
     \<and> (vi_Token input = tok \<or> sha256 (''agentnexus:step-grant:v1:'' @ vi_Token input) = sha256 (''agentnexus:step-grant:v1:'' @ tok))
     \<and> ts_now svc (tw_ticks w) < tg_ExpiresAt g \<and> tg_ExpiresAt g \<le> tg_CreatedAt g + 5 * minute"
proof -
  have sound: "mem_grants.sound_from svc ticket_start w"
    using mem_grants.run_sound[OF assms(1) ticket_start_sound] assms(2) by simp
  obtain g0 where g0: "g0 \<in> ms_grant_set (tw_store w)" "g = g0\<lparr>tg_Token := []\<rparr>" "tg_EnterpriseID g0 = actor_EnterpriseID a"
      "tg_TokenHash g0 = HashStepGrantToken (vi_Token input)" "grant_matches a input (ts_now svc (tw_ticks w)) g0"
    using wp_Inr[OF mem_grants.verify_sound[OF assms(1) sound] assms(3)] by blast
  obtain b i auth tok where att: "attests svc b i auth tok g0" using sound g0(1) unfolding mem_grants.sound_from_def by blast
  then have "g = g0" using g0(2) by (cases g0) (simp add: attests_def)
  moreover have "vi_Token input = tok \<or> sha256 (''agentnexus:step-grant:v1:'' @ vi_Token input) = sha256 (''agentnexus:step-grant:v1:'' @ tok)"
    using HashStepGrantToken_collision[of "vi_Token input" tok] g0(4) att by (auto simp: attests_def)
  ultimately show ?thesis
    using att g0 by (intro exI[of _ b] exI[of _ i] exI[of _ auth] exI[of _ tok])
      (auto simp: attests_def grant_matches_def MaxStepGrantTTL_def)
qed

theorem verified_grant_was_authorized_witness:
  "\<exists>b i auth tok. attests ex_tickets b i auth tok ex_step_grant \<and> actor_UserID b = ''alice'' \<and> ci_ResourceID i = ''res''"
proof -
  obtain w' where "VerifyGrant ex_tickets ex_actor (presents ex_step_grant ''tok_1'')
      (ticket_run ex_tickets [CallAuthorize ex_actor ex_grant_input] ticket_start) = (Inr ex_step_grant, w')"
    using ex_verified by blast
  from verified_grant_was_authorized[OF _ refl this] show ?thesis
    by (auto simp: ex_tickets_def ex_actor_def presents_def ex_step_grant_def)
qed

text \<open>Round trip of a step grant: the token \<open>AuthorizeAndCreateGrant\<close> returned, presented by the same actor for
  the resource and action it was asked for, verifies to the stored grant after any further run of the ticket service,
  as long as it has not expired and the audit record can be written.\<close>

theorem minted_grant_verifies_until_expiry:
  assumes "ts_store svc = memory_ticket_store"
    and "AuthorizeAndCreateGrant svc a i (ticket_run svc cs ticket_start) = (Inr g, w1)"
    and "w2 = ticket_run svc cs' w1"
    and "ts_now svc (tw_ticks w2) < tg_ExpiresAt g" and "canonical (ts_newID svc (tw_ids w2))"
  shows "fst (VerifyGrant svc a (presents g (tg_Token g)) w2) = Inr (g\<lparr>tg_Token := []\<rparr>)"
proof -
  let ?w = "ticket_run svc cs ticket_start" and ?g = "g\<lparr>tg_Token := []\<rparr>"
  have "mem_grants.sound_from svc ticket_start ?w" using mem_grants.run_sound[OF assms(1) ticket_start_sound] .
  from wp_Inr[OF mem_grants.authorize_sound[OF assms(1) this] assms(2)]
  obtain auth where 1: "mem_grants.sound_from svc ticket_start w1" "?g \<in> ms_grant_set (tw_store w1)"
      "attests svc a i auth (tg_Token g) ?g" by blast
  then have "mem_grants.sound_from svc w1 w1" by (simp add: mem_grants.sound_from_def)
  then have sound: "mem_grants.sound_from svc w1 w2" using mem_grants.run_sound[OF assms(1)] assms(3) by blast
  have live: "\<not> ms_failAudit (tw_store w2)"
    using sound 1(1) by (simp add: mem_grants.sound_from_def ticket_start_def NewTicketStore_def)
  have checked: "create_grant_input_ok a i" "canonical (tg_Token g)" using authorize_checked[OF assms(2)] by auto
  have "fst (VerifyGrant svc a (presents ?g (tg_Token g)) w2) = Inr ?g"
    using mem_grants.presented_verifies[OF assms(1) sound, of ?g "tg_Token g" a] 1 sound checked live assms(4,5)
    by (auto simp: attests_def create_grant_input_ok_def mem_grants.sound_from_def)
  then show ?thesis by (simp add: presents_def)
qed

theorem minted_grant_verifies_until_expiry_witness:
  "fst (VerifyGrant ex_tickets ex_actor (presents (ex_step_grant\<lparr>tg_Token := ''tok_1''\<rparr>) ''tok_1'') ex_minted) = Inr ex_step_grant"
proof -
  have "fst (VerifyGrant ex_tickets ex_actor (presents (ex_step_grant\<lparr>tg_Token := ''tok_1''\<rparr>) (tg_Token (ex_step_grant\<lparr>tg_Token := ''tok_1''\<rparr>)))
      (ticket_run ex_tickets [] ex_minted)) = Inr ((ex_step_grant\<lparr>tg_Token := ''tok_1''\<rparr>)\<lparr>tg_Token := []\<rparr>)"
    by (rule minted_grant_verifies_until_expiry[where cs = "[]" and cs' = "[]" and i = ex_grant_input])
      (simp_all add: ticket_run_def ex_authorized, simp_all add: ex_tickets_def ex_minted_def ex_step_grant_def ex_canonical
        minute_def second_def)
  then show ?thesis by (simp add: ticket_run_def ex_step_grant_def)
qed

text \<open>Only digests at rest.\<close>

definition digests_only :: "MemoryTicketStore \<Rightarrow> bool" where
  "digests_only s \<longleftrightarrow> (\<forall>(k, t) \<in> set (ms_tickets s). ct_Token t = [] \<and> (\<exists>x. ct_TokenHash t = HashCaseTicketToken x))
     \<and> (\<forall>(k, g) \<in> set (ms_grants s). tg_Token g = [] \<and> (\<exists>x. tg_TokenHash g = HashStepGrantToken x))"

lemma set_update_subset: "set (AList.update k v al) \<subseteq> insert (k, v) (set al)"
  by (induction al) auto

lemma digests_ticket: "digests_only s \<Longrightarrow> ct_Token t = [] \<Longrightarrow> (\<exists>x. ct_TokenHash t = HashCaseTicketToken x)
    \<Longrightarrow> digests_only (s\<lparr>ms_tickets := AList.update k t (ms_tickets s)\<rparr>)"
  and digests_grant: "digests_only s \<Longrightarrow> tg_Token g = [] \<Longrightarrow> (\<exists>x. tg_TokenHash g = HashStepGrantToken x)
    \<Longrightarrow> digests_only (s\<lparr>ms_grants := AList.update k g (ms_grants s), ms_audits := as\<rparr>)"
  and digests_audit: "digests_only s \<Longrightarrow> digests_only (s\<lparr>ms_audits := as\<rparr>)"
  using set_update_subset[of k t "ms_tickets s"] set_update_subset[of k g "ms_grants s"] by (auto simp: digests_only_def)

lemma digests_kept:
  assumes "ts_store svc = memory_ticket_store" and "digests_only (tw_store w)"
  shows "digests_only (tw_store (ticket_serve svc c w))"
proof -
  have create: "wp (ms_CreateStepGrantAndAudit g aid) (\<lambda>_. digests_only) (\<lambda>_. digests_only) (tw_store w)"
    if "tg_Token g = []" "(\<exists>x. tg_TokenHash g = HashStepGrantToken x)" for g aid
    using that assms(2) by (auto simp: wp_def ms_CreateStepGrantAndAudit_def Let_def intro: digests_grant)
  have verify: "wp (ms_VerifyStepGrantAndAudit a vi h aid t) Q (\<lambda>_. digests_only) (tw_store w)"
    if "\<And>g s. digests_only s \<Longrightarrow> Q g s" for a vi h aid t Q
    using that assms(2) by (auto simp: wp_def ms_VerifyStepGrantAndAudit_def digests_audit split: option.splits)
  have ticket: "wp (ms_CreateCaseTicket t) (\<lambda>_. digests_only) (\<lambda>_. digests_only) (tw_store w)"
    if "ct_Token t = []" "(\<exists>x. ct_TokenHash t = HashCaseTicketToken x)" for t
    using that assms(2) by (auto simp: wp_def ms_CreateCaseTicket_def intro: digests_ticket)
  have "wp (IssueCaseTicket svc d a i) (\<lambda>_ w. digests_only (tw_store w)) (\<lambda>_ w. digests_only (tw_store w)) w"
    "wp (AuthorizeAndCreateGrant svc a j) (\<lambda>_ w. digests_only (tw_store w)) (\<lambda>_ w. digests_only (tw_store w)) w"
    "wp (VerifyGrant svc a v) (\<lambda>_ w. digests_only (tw_store w)) (\<lambda>_ w. digests_only (tw_store w)) w" for d a i j v
    using assms(2)
    by (auto simp: IssueCaseTicket_def AuthorizeAndCreateGrant_def VerifyGrant_def wp_simps assms(1) memory_ticket_store_def
        memory_governed_def intro!: create verify ticket)
  then show ?thesis by (cases c) (simp_all add: ticket_serve_def wp_state)
qed

text \<open>Raw tokens are never at rest: after any run of the ticket service every stored ticket and grant has an empty token field,
  and its token hash is the digest of a token.\<close>

theorem only_digests_at_rest:
  assumes "ts_store svc = memory_ticket_store"
  shows "digests_only (tw_store (ticket_run svc cs ticket_start))"
proof -
  have "digests_only (tw_store (ticket_run svc cs w))" if "digests_only (tw_store w)" for w
    using that
  proof (induction cs arbitrary: w)
    case (Cons c cs)
    then show ?case using digests_kept[OF assms Cons.prems, of c] by (simp add: ticket_run_def)
  qed (simp add: ticket_run_def)
  moreover have "digests_only (tw_store ticket_start)"
    by (simp add: digests_only_def ticket_start_def NewTicketStore_def)
  ultimately show ?thesis by blast
qed

end
