(* ===== verification/GoEncoding.thy ===== *)
theory GoEncoding
  imports GoCrypto
begin

text \<open>
  The bytes \<open>json.Marshal\<close> writes for what the audit chain signs: strings (with Go's UTF-8 decoding, HTML-safe
  escapes and the replacement of invalid bytes), unsigned integers in decimal, and instants in RFC 3339 with up to nine
  fractional digits. Each encoder is shown to be unambiguous, strings under the proviso that they are valid UTF-8.
\<close>

subsection \<open>UTF-8\<close>

text \<open>The ranges of the bytes that continue a rune, by its first byte; \<open>None\<close> when no rune starts with it.\<close>

definition lead_ranges :: "nat \<Rightarrow> (nat \<times> nat) list option" where
  "lead_ranges b =
     (let tail = (128, 191) in
      if b < 128 then Some []
      else if 194 \<le> b \<and> b \<le> 223 then Some [tail]
      else if b = 224 then Some [(160, 191), tail]
      else if b = 237 then Some [(128, 159), tail]
      else if 224 \<le> b \<and> b \<le> 239 then Some [tail, tail]
      else if b = 240 then Some [(144, 191), tail, tail]
      else if b = 244 then Some [(128, 143), tail, tail]
      else if 240 \<le> b \<and> b \<le> 244 then Some [tail, tail, tail]
      else None)"

fun match_ranges :: "(nat \<times> nat) list \<Rightarrow> string \<Rightarrow> bool" where
  "match_ranges [] s \<longleftrightarrow> True"
| "match_ranges (r # rs) [] \<longleftrightarrow> False"
| "match_ranges ((lo, hi) # rs) (c # cs) \<longleftrightarrow> lo \<le> byte c \<and> byte c \<le> hi \<and> match_ranges rs cs"

text \<open>\<open>utf8.DecodeRune\<close>: how many bytes the rune at the front takes, 0 when the first byte starts no valid encoding.\<close>

fun rune_size :: "string \<Rightarrow> nat" where
  "rune_size [] = 0"
| "rune_size (c # cs) = (case lead_ranges (byte c) of None \<Rightarrow> 0
     | Some rs \<Rightarrow> if match_ranges rs cs then Suc (length rs) else 0)"

lemma match_ranges_length: "match_ranges rs s \<Longrightarrow> length rs \<le> length s"
  by (induction rs s rule: match_ranges.induct) auto

lemma match_ranges_append: "match_ranges rs s \<Longrightarrow> match_ranges rs (s @ x)"
  by (induction rs s rule: match_ranges.induct) auto

lemma match_ranges_take: "match_ranges rs s \<Longrightarrow> match_ranges rs (take (length rs) s)"
  by (induction rs s rule: match_ranges.induct) auto

lemma rune_size_le: "rune_size s \<le> length s"
  by (cases s) (auto dest: match_ranges_length split: option.splits)

lemma rune_size_append: "0 < rune_size r \<Longrightarrow> rune_size (r @ x) = rune_size r"
  by (cases r) (auto dest: match_ranges_append split: option.splits if_splits)

lemma rune_size_take: "0 < rune_size s \<Longrightarrow> rune_size (take (rune_size s) s) = rune_size s"
  by (cases s) (auto dest: match_ranges_take split: option.splits if_splits)

function valid_utf8 :: "string \<Rightarrow> bool" where
  "valid_utf8 s = (if s = [] then True else if rune_size s = 0 then False else valid_utf8 (drop (rune_size s) s))"
  by auto
termination by (relation "measure length") (auto intro: diff_less)

declare valid_utf8.simps [simp del]

subsection \<open>JSON strings\<close>

definition short_escapes :: "(nat \<times> char) list" where
  "short_escapes = [(34, CHR 0x22), (92, CHR 0x5C), (8, CHR ''b''), (12, CHR ''f''), (10, CHR ''n''), (13, CHR ''r''), (9, CHR ''t'')]"

definition escape_ascii :: "char \<Rightarrow> string" where
  "escape_ascii c =
     (case map_of short_escapes (byte c) of
        Some k \<Rightarrow> [CHR 0x5C, k]
      | None \<Rightarrow>
          if byte c < 32 \<or> c \<in> {CHR ''<'', CHR ''>'', CHR ''&''}
          then [CHR 0x5C, CHR ''u'', CHR ''0'', CHR ''0'', hex_digit (byte c div 16), hex_digit (byte c mod 16)]
          else [c])"

definition line_separator :: string where "line_separator = [CHR 0xE2, CHR 0x80, CHR 0xA8]"
definition paragraph_separator :: string where "paragraph_separator = [CHR 0xE2, CHR 0x80, CHR 0xA9]"

definition quote_rune :: "string \<Rightarrow> string" where
  "quote_rune r =
     (case r of [c] \<Rightarrow> escape_ascii c
      | _ \<Rightarrow> if r = line_separator then CHR 0x5C # ''u2028''
             else if r = paragraph_separator then CHR 0x5C # ''u2029'' else r)"

definition replacement_escape :: string where "replacement_escape = CHR 0x5C # ''ufffd''"

function quote_body :: "string \<Rightarrow> string" where
  "quote_body s =
     (if s = [] then []
      else if rune_size s = 0 then replacement_escape @ quote_body (tl s)
      else quote_rune (take (rune_size s) s) @ quote_body (drop (rune_size s) s))"
  by auto
termination by (relation "measure length") (auto intro: diff_less)

declare quote_body.simps [simp del]

definition quote :: "string \<Rightarrow> string" where
  "quote s = CHR 0x22 # quote_body s @ [CHR 0x22]"

text \<open>A rune of a valid string: its encoding starts with no quote and determines it, whatever follows.\<close>

definition is_rune :: "string \<Rightarrow> bool" where
  "is_rune r \<longleftrightarrow> r \<noteq> [] \<and> rune_size r = length r"

lemma same_rune:
  assumes "is_rune r" and "is_rune r'" and "r @ x = r' @ y"
  shows "r = r' \<and> x = y"
proof -
  have "rune_size (r @ x) = length r" "rune_size (r' @ y) = length r'"
    using assms(1,2) rune_size_append[of r x] rune_size_append[of r' y] by (auto simp: is_rune_def)
  with assms(3) show ?thesis by (metis append_eq_append_conv)
qed

lemma rune_lead: "is_rune (c # c' # cs) \<Longrightarrow> 194 \<le> byte c"
  by (auto simp: is_rune_def lead_ranges_def Let_def split: if_splits)

lemma rune_ascii: "is_rune [c] \<Longrightarrow> byte c < 128"
  by (auto simp: is_rune_def lead_ranges_def Let_def split: if_splits)

lemma short_escape_inject: "map_of short_escapes m = Some k \<Longrightarrow> map_of short_escapes n = Some k \<Longrightarrow> m = n"
  by (auto simp: short_escapes_def split: if_splits)

lemma short_escape_not_u: "map_of short_escapes m \<noteq> Some (CHR ''u'')"
  by (auto simp: short_escapes_def split: if_splits)

lemma hex_pair_inject:
  assumes "hex_digit (byte c div 16) = hex_digit (byte d div 16)" and "hex_digit (byte c mod 16) = hex_digit (byte d mod 16)"
  shows "c = d"
proof -
  have "byte c div 16 < 16" "byte d div 16 < 16" using byte_less_256[of c] byte_less_256[of d] by linarith+
  then have "byte c div 16 = byte d div 16" "byte c mod 16 = byte d mod 16" using assms hex_digit_inj by auto
  then have "byte c = byte d" by (metis div_mult_mod_eq)
  then show ?thesis by simp
qed

lemma escape_ascii_forms:
  obtains "escape_ascii c = [c]" "c \<noteq> CHR 0x5C" "c \<noteq> CHR 0x22"
  | k where "escape_ascii c = [CHR 0x5C, k]" "k \<noteq> CHR ''u''" "map_of short_escapes (byte c) = Some k"
  | "escape_ascii c = [CHR 0x5C, CHR ''u'', CHR ''0'', CHR ''0'', hex_digit (byte c div 16), hex_digit (byte c mod 16)]"
proof (cases "map_of short_escapes (byte c)")
  case None
  then have "c \<noteq> CHR 0x5C" "c \<noteq> CHR 0x22" by (auto simp: short_escapes_def byte_def)
  with None that(1,3) show ?thesis
    by (cases "byte c < 32 \<or> c \<in> {CHR ''<'', CHR ''>'', CHR ''&''}") (simp_all add: escape_ascii_def)
next
  case (Some k)
  with short_escape_not_u[of "byte c"] that(2) show ?thesis by (auto simp: escape_ascii_def)
qed

lemma escape_ascii_inject: "escape_ascii c @ x = escape_ascii d @ y \<Longrightarrow> c = d \<and> x = y"
  by (cases c rule: escape_ascii_forms; cases d rule: escape_ascii_forms)
    (auto dest: hex_pair_inject short_escape_inject)

lemma quote_rune_forms:
  assumes "is_rune r"
  obtains c where "r = [c]" "quote_rune r = escape_ascii c"
  | "r = line_separator" "quote_rune r = CHR 0x5C # ''u2028''"
  | "r = paragraph_separator" "quote_rune r = CHR 0x5C # ''u2029''"
  | c c' cs where "r = c # c' # cs" "quote_rune r = r" "194 \<le> byte c"
proof (cases r rule: remdups_adj.cases)
  case (3 c c' cs)
  have sep: "quote_rune line_separator = CHR 0x5C # ''u2028''" "quote_rune paragraph_separator = CHR 0x5C # ''u2029''"
    by (simp_all add: quote_rune_def line_separator_def paragraph_separator_def)
  show ?thesis
  proof (cases "r = line_separator \<or> r = paragraph_separator")
    case True
    with sep that(2,3) show ?thesis by auto
  next
    case False
    with 3 have "quote_rune r = r" by (simp add: quote_rune_def)
    with 3 rune_lead[of c c' cs] assms that(4) show ?thesis by simp
  qed
qed (use assms that in \<open>auto simp: is_rune_def quote_rune_def\<close>)

text \<open>The first byte of an encoded rune, and the encoding as a whole, are unambiguous.\<close>

lemma quote_rune_head:
  assumes "is_rune r" obtains b bs where "quote_rune r = b # bs" "b \<noteq> CHR 0x22"
proof (cases rule: quote_rune_forms[OF assms])
  case (1 c)
  with that show ?thesis by (cases c rule: escape_ascii_forms) auto
next
  case (4 c c' cs)
  then have "c \<noteq> CHR 0x22" by (auto simp: byte_def)
  with 4 that show ?thesis by simp
qed (use that in auto)

lemma high_not_ascii: "194 \<le> byte c \<Longrightarrow> c \<noteq> CHR 0x5C"
  by (auto simp: byte_def)

lemma escape_not_u2: "escape_ascii c @ x \<noteq> CHR 0x5C # CHR ''u'' # CHR ''2'' # y"
  by (cases c rule: escape_ascii_forms) auto

lemma quote_rune_inject:
  assumes "is_rune r" and "is_rune r'" and eq: "quote_rune r @ x = quote_rune r' @ y"
  shows "r = r' \<and> x = y"
proof -
  have ascii: "escape_ascii c @ x' \<noteq> d # z" if "is_rune [c]" "194 \<le> byte d" for c d x' z
    using that rune_ascii[of c] high_not_ascii[of d] by (cases c rule: escape_ascii_forms) auto
  show ?thesis
  proof (cases rule: quote_rune_forms[OF assms(1)]; cases rule: quote_rune_forms[OF assms(2)])
    fix c d assume "r = [c]" "quote_rune r = escape_ascii c" "r' = [d]" "quote_rune r' = escape_ascii d"
    with eq escape_ascii_inject[of c x d y] show ?thesis by simp
  next
    fix c d cs d' ds' assume "r = c # d # cs" "quote_rune r = r" "quote_rune r' = r'"
    with eq same_rune[OF assms(1,2)] show ?thesis by simp
  qed (use eq assms ascii ascii[THEN not_sym] escape_not_u2 escape_not_u2[THEN not_sym] in \<open>auto dest: high_not_ascii simp: line_separator_def paragraph_separator_def\<close>)
qed

lemma quote_body_rune: "is_rune r \<Longrightarrow> quote_body (r @ s) = quote_rune r @ quote_body s"
  using rune_size_append[of r s] by (subst quote_body.simps) (simp add: is_rune_def)

lemma quote_body_Nil [simp]: "quote_body [] = []"
  by (simp add: quote_body.simps)

lemma valid_utf8_induct [consumes 1, case_names Nil rune]:
  assumes "valid_utf8 s" and "P []" and "\<And>r s. is_rune r \<Longrightarrow> valid_utf8 s \<Longrightarrow> P s \<Longrightarrow> P (r @ s)"
  shows "P s"
  using assms(1)
proof (induction s rule: valid_utf8.induct)
  case (1 s)
  show ?case
  proof (cases "s = []")
    case False
    with 1(2) have size: "rune_size s \<noteq> 0" and rest: "valid_utf8 (drop (rune_size s) s)"
      by (auto simp: valid_utf8.simps[of s] split: if_splits)
    have "is_rune (take (rune_size s) s)"
      using size False rune_size_le[of s] by (simp add: is_rune_def rune_size_take min_absorb2)
    from assms(3)[OF this rest 1(1)[OF False size rest]] show ?thesis by simp
  qed (simp add: assms(2))
qed

lemma valid_utf8_cases:
  assumes "valid_utf8 s" obtains "s = []" | r t where "s = r @ t" "is_rune r" "valid_utf8 t"
  using assms by (induction s rule: valid_utf8_induct) auto

lemma quote_body_head: "is_rune r \<Longrightarrow> quote_body (r @ s) @ x \<noteq> CHR 0x22 # z"
  using quote_rune_head[of r] by (metis append_Cons append_assoc list.sel(1) quote_body_rune)

text \<open>A quoted valid string ends where it says it does.\<close>

lemma quote_body_inject:
  assumes "valid_utf8 s" and "valid_utf8 t" and "quote_body s @ CHR 0x22 # x = quote_body t @ CHR 0x22 # y"
  shows "s = t \<and> x = y"
  using assms
proof (induction s arbitrary: t rule: valid_utf8_induct)
  case Nil
  from Nil(1) show ?case
  proof (cases rule: valid_utf8_cases)
    case (2 r t')
    with Nil(2) quote_body_head[of r t'] show ?thesis by (metis append_Nil quote_body_Nil)
  qed (use Nil(2) in simp)
next
  case (rune r s)
  from rune(4) show ?case
  proof (cases rule: valid_utf8_cases)
    case 1
    with rune(5) quote_body_head[OF rune(1)] show ?thesis by simp
  next
    case (2 r' t')
    with rune(1,5) have "quote_rune r @ quote_body s @ CHR 0x22 # x = quote_rune r' @ quote_body t' @ CHR 0x22 # y"
      by (simp add: quote_body_rune)
    from quote_rune_inject[OF rune(1) 2(2) this] rune(3)[OF 2(3)] 2(1) show ?thesis by simp
  qed
qed

lemma quote_inject: "valid_utf8 s \<Longrightarrow> valid_utf8 t \<Longrightarrow> quote s @ x = quote t @ y \<Longrightarrow> s = t \<and> x = y"
  using quote_body_inject[of s t x y] by (simp add: quote_def)

subsection \<open>Unsigned integers in decimal\<close>

definition digit :: "nat \<Rightarrow> char" where
  "digit n = char_of (48 + n)"

fun decimal :: "nat \<Rightarrow> string" where
  "decimal n = (if n < 10 then [digit n] else decimal (n div 10) @ [digit (n mod 10)])"

declare decimal.simps [simp del]

text \<open>Signed numbers.\<close>

definition decimal_int :: "int \<Rightarrow> string" where
  "decimal_int n = (if n < 0 then CHR ''-'' # decimal (nat (- n)) else decimal (nat n))"

definition digits_value :: "string \<Rightarrow> nat" where
  "digits_value s = foldl (\<lambda>v c. v * 10 + (byte c - 48)) 0 s"

lemma byte_digit [simp]: "n < 10 \<Longrightarrow> byte (digit n) = 48 + n"
  by (simp add: byte_def digit_def)

lemma is_digit_digit [simp]: "n < 10 \<Longrightarrow> is_digit (digit n)"
  by (simp add: is_digit_def)

lemma digits_value_snoc: "digits_value (s @ [c]) = digits_value s * 10 + (byte c - 48)"
  by (simp add: digits_value_def)

lemma digits_value_decimal [simp]: "digits_value (decimal n) = n"
proof (induction n rule: decimal.induct)
  case (1 n)
  then show ?case
    by (cases "n < 10") (simp_all add: decimal.simps[of n] digits_value_snoc, simp_all add: digits_value_def)
qed

lemma decimal_digits: "list_all is_digit (decimal n)"
  by (induction n rule: decimal.induct) (simp add: decimal.simps)

lemma span_inject:
  assumes "list_all P s" and "list_all P t" and "\<not> P c" and "s @ c # x = t @ c # y"
  shows "s = t \<and> x = y"
proof -
  have "takeWhile P (s @ c # x) = s" "takeWhile P (t @ c # y) = t"
    using assms(1-3) by (simp_all add: takeWhile_append2 list_all_iff)
  with assms(4) show ?thesis by (metis append_same_eq list.inject same_append_eq)
qed

lemma decimal_inject:
  assumes "decimal m @ CHR '','' # x = decimal n @ CHR '','' # y"
  shows "m = n \<and> x = y"
proof -
  have "\<not> is_digit (CHR '','')" by (simp add: is_digit_def byte_def)
  with span_inject[OF decimal_digits decimal_digits _ assms] have "decimal m = decimal n \<and> x = y" by blast
  then show ?thesis using digits_value_decimal by metis
qed

subsection \<open>The calendar\<close>

text \<open>
  Go's \<open>Time.Date\<close> on the day count since January 1 of year 1: cut off 400-year, 100-year, 4-year and 1-year
  cycles, the last 100-year and 1-year cycle of their block taking the extra day.
\<close>

definition year_parts :: "int \<Rightarrow> int \<times> int \<times> int \<times> int \<times> int" where
  "year_parts d =
     (let n400 = d div 146097; r400 = d mod 146097;
          n100 = min 3 (r400 div 36524); r100 = r400 - 36524 * n100;
          n4 = r100 div 1461; r4 = r100 mod 1461;
          n1 = min 3 (r4 div 365)
      in (n400, n100, n4, n1, r4 - 365 * n1))"

definition year_of :: "int \<Rightarrow> int" where
  "year_of d = (case year_parts d of (n400, n100, n4, n1, _) \<Rightarrow> 1 + 400 * n400 + 100 * n100 + 4 * n4 + n1)"

definition year_day :: "int \<Rightarrow> int" where
  "year_day d = (case year_parts d of (_, _, _, _, yd) \<Rightarrow> yd)"

definition is_leap :: "int \<Rightarrow> bool" where
  "is_leap y \<longleftrightarrow> y mod 4 = 0 \<and> (y mod 100 \<noteq> 0 \<or> y mod 400 = 0)"

definition month_lengths :: "bool \<Rightarrow> int list" where
  "month_lengths leap = [31, if leap then 29 else 28, 31, 30, 31, 30, 31, 31, 30, 31, 30, 31]"

fun month_day :: "int \<Rightarrow> int list \<Rightarrow> int \<Rightarrow> int \<times> int" where
  "month_day m [] d = (m, d + 1)"
| "month_day m (l # ls) d = (if d < l then (m, d + 1) else month_day (m + 1) ls (d - l))"

text \<open>The day is determined by its year and its day of the year: the cycles are digits of a mixed radix.\<close>

lemma capped_div:
  fixes r k :: int
  assumes "0 < k" and "0 \<le> r" and "r \<le> 4 * k" and "q = min 3 (r div k)"
  shows "0 \<le> q \<and> q \<le> 3 \<and> k * q \<le> r \<and> r \<le> k * q + k"
proof -
  have split: "r = k * (r div k) + r mod k" "0 \<le> r mod k" "r mod k < k" "0 \<le> r div k"
    using assms(1,2) by (simp_all add: pos_imp_zdiv_nonneg_iff)
  show ?thesis
  proof (cases "r div k \<le> 3")
    case True
    with assms(4) have q: "q = r div k" by simp
    show ?thesis unfolding q using split True by linarith
  next
    case False
    then have q: "q = 3" and "k * 4 \<le> k * (r div k)" using assms(1,4) by simp_all
    then show ?thesis unfolding q using assms(3) split by linarith
  qed
qed

lemma year_parts_bounds:
  assumes "year_parts d = (a, b, c, e, f)"
  shows "d = 146097 * a + 36524 * b + 1461 * c + 365 * e + f"
    and "0 \<le> b" "b \<le> 3" "0 \<le> c" "c \<le> 24" "0 \<le> e" "e \<le> 3" "0 \<le> f" "f \<le> 365"
proof -
  define r where "r = d mod 146097"
  define q where "q = min 3 (r div 36524)"
  define r100 where "r100 = r - 36524 * q"
  define r4 where "r4 = r100 mod 1461"
  define y where "y = min 3 (r4 div 365)"
  have "year_parts d = (d div 146097, q, r100 div 1461, y, r4 - 365 * y)"
    by (simp only: year_parts_def Let_def r_def q_def r100_def r4_def y_def)
  with assms have parts: "a = d div 146097" "b = q" "c = r100 div 1461" "e = y" "f = r4 - 365 * y" by simp_all
  have r: "0 \<le> r" "r < 146097" "d = 146097 * a + r" unfolding parts r_def by auto
  then have q: "0 \<le> q \<and> q \<le> 3 \<and> 36524 * q \<le> r \<and> r \<le> 36524 * q + 36524"
    by (intro capped_div[OF _ _ _ q_def]) auto
  then have r100: "0 \<le> r100" "r100 \<le> 36524" unfolding r100_def by auto
  have r4: "0 \<le> r4" "r4 < 1461" "r100 = 1461 * c + r4" unfolding parts r4_def by auto
  then have y: "0 \<le> y \<and> y \<le> 3 \<and> 365 * y \<le> r4 \<and> r4 \<le> 365 * y + 365"
    by (intro capped_div[OF _ _ _ y_def]) auto
  have "r100 div 1461 \<le> 36524 div 1461" using r100 by (intro zdiv_mono1) auto
  then show "c \<le> 24" "0 \<le> c" using r100 unfolding parts by (simp_all add: pos_imp_zdiv_nonneg_iff)
  show "0 \<le> b" "b \<le> 3" "0 \<le> e" "e \<le> 3" "0 \<le> f" "f \<le> 365" using q y unfolding parts by auto
  show "d = 146097 * a + 36524 * b + 1461 * c + 365 * e + f"
    using r(3) r4(3) unfolding r100_def parts(2,4,5) by linarith
qed

lemma radix_inject:
  fixes x y :: int
  assumes "k * x + u = k * y + v" and "0 \<le> u" "u < k" and "0 \<le> v" "v < k"
  shows "x = y \<and> u = v"
proof -
  have "(k * x + u) div k = x" "(k * y + v) div k = y"
    using assms(2-5) by (simp_all add: div_pos_pos_trivial)
  with assms(1) show ?thesis by auto
qed

lemma day_inject:
  assumes "year_of d = year_of d'" and "year_day d = year_day d'"
  shows "d = d'"
proof -
  obtain a b c e f a' b' c' e' f' where p: "year_parts d = (a, b, c, e, f)" "year_parts d' = (a', b', c', e', f')"
    by (metis prod_cases5)
  note bounds = year_parts_bounds[OF p(1)] year_parts_bounds[OF p(2)]
  have "400 * a + (100 * b + (4 * c + e)) = 400 * a' + (100 * b' + (4 * c' + e'))" and f: "f = f'"
    using assms p by (simp_all add: year_of_def year_day_def)
  then have "a = a'" and 1: "100 * b + (4 * c + e) = 100 * b' + (4 * c' + e')"
    using radix_inject[of 400 a "100 * b + (4 * c + e)" a' "100 * b' + (4 * c' + e')"] bounds by auto
  moreover have "b = b'" and 2: "4 * c + e = 4 * c' + e'"
    using radix_inject[OF 1] bounds by auto
  moreover have "c = c' \<and> e = e'" using radix_inject[OF 2] bounds by auto
  ultimately show ?thesis using bounds(1) bounds(10) f by simp
qed

lemma month_day_bounds:
  "0 \<le> d \<Longrightarrow> \<forall>l \<in> set ls. 0 \<le> l \<and> l \<le> 31 \<Longrightarrow>
     m \<le> fst (month_day m ls d) \<and> fst (month_day m ls d) \<le> m + int (length ls)
     \<and> 1 \<le> snd (month_day m ls d) \<and> snd (month_day m ls d) \<le> max 31 (d + 1 - sum_list ls)"
proof (induction ls arbitrary: m d)
  case (Cons l ls)
  show ?case
  proof (cases "d < l")
    case False
    with Cons.prems Cons.IH[of "d - l" "m + 1"] show ?thesis by auto
  qed (use Cons.prems in auto)
qed simp

lemma month_day_fst: "m \<le> fst (month_day m ls d)"
proof (induction ls arbitrary: m d)
  case (Cons l ls)
  from this[of "m + 1" "d - l"] show ?case by simp
qed simp

lemma month_day_later: "month_day (m + 1) ls d \<noteq> (m, d')" "(m, d') \<noteq> month_day (m + 1) ls d"
  using month_day_fst[of "m + 1" ls d] by (auto dest: sym)

lemma month_day_inject: "month_day m ls d = month_day m ls d' \<Longrightarrow> d = d'"
proof (induction ls arbitrary: m d d')
  case (Cons l ls)
  show ?case
    using Cons.prems Cons.IH[of "m + 1" "d - l" "d' - l"] by (auto simp: month_day_later split: if_splits)
qed simp

subsection \<open>RFC 3339\<close>

fun pad :: "nat \<Rightarrow> int \<Rightarrow> string" where
  "pad 0 n = []"
| "pad (Suc k) n = pad k (n div 10) @ [digit (nat (n mod 10))]"

definition nanosecond_part :: "time \<Rightarrow> int" where
  "nanosecond_part t = t mod second"

definition fraction :: "int \<Rightarrow> string" where
  "fraction ns = (if ns = 0 then [] else CHR ''.'' # rev (dropWhile (\<lambda>c. c = CHR ''0'') (rev (pad 9 ns))))"

definition rfc3339 :: "int \<Rightarrow> int \<Rightarrow> int \<Rightarrow> int \<Rightarrow> int \<Rightarrow> string" where
  "rfc3339 y m d s ns = pad 4 y @ ''-'' @ pad 2 m @ ''-'' @ pad 2 d @ ''T'' @ pad 2 (s div 3600) @ '':'' @ pad 2 (s div 60 mod 60)
     @ '':'' @ pad 2 (s mod 60) @ fraction ns @ ''Z''"

text \<open>\<open>Time.MarshalJSON\<close> in UTC: an error outside the years 0 to 9999.\<close>

definition marshal_time :: "time \<Rightarrow> string option" where
  "marshal_time t =
     (let secs = t div second; days = secs div 86400; y = year_of days in
      case month_day 1 (month_lengths (is_leap y)) (year_day days) of (m, d) \<Rightarrow>
      if y < 0 \<or> y \<ge> 10000 then None else Some (rfc3339 y m d (secs mod 86400) (nanosecond_part t)))"

lemma length_pad [simp]: "length (pad k n) = k"
  by (induction k arbitrary: n) auto

lemma digit_inject: "m < 10 \<Longrightarrow> n < 10 \<Longrightarrow> digit m = digit n \<Longrightarrow> m = n"
  by (metis add_left_cancel byte_digit)

lemma pad_inject: "pad k m = pad k n \<Longrightarrow> 0 \<le> m \<Longrightarrow> m < 10 ^ k \<Longrightarrow> 0 \<le> n \<Longrightarrow> n < 10 ^ k \<Longrightarrow> m = n"
proof (induction k arbitrary: m n)
  case (Suc k)
  have "m div 10 < 10 ^ k" "n div 10 < 10 ^ k" using Suc.prems by (auto simp: div_less_iff_less_mult mult.commute)
  with Suc.prems Suc.IH[of "m div 10" "n div 10"] have "m div 10 = n div 10" by (simp add: pos_imp_zdiv_nonneg_iff)
  moreover have "nat (m mod 10) = nat (n mod 10)" using Suc.prems by (intro digit_inject) (auto simp: nat_less_iff)
  then have "m mod 10 = n mod 10" by (simp add: eq_nat_nat_iff)
  ultimately show ?case by (metis mult_div_mod_eq)
qed simp

text \<open>Trailing zeros are dropped, but there were nine digits.\<close>

lemma strip_inject:
  assumes "length s = length t" and "dropWhile (\<lambda>c. c = z) s = dropWhile (\<lambda>c. c = z) t"
  shows "s = t"
proof -
  have eq: "xs = replicate (length xs - length (dropWhile (\<lambda>c. c = z) xs)) z @ dropWhile (\<lambda>c. c = z) xs" for xs
    by (induction xs) (auto simp: Suc_diff_le length_dropWhile_le)
  show ?thesis by (metis assms eq)
qed

lemma fraction_inject:
  assumes "fraction m = fraction n" and "0 \<le> m" "m < second" and "0 \<le> n" "n < second"
  shows "m = n"
proof (cases "m = 0 \<or> n = 0")
  case False
  with assms(1) have "dropWhile (\<lambda>c. c = CHR ''0'') (rev (pad 9 m)) = dropWhile (\<lambda>c. c = CHR ''0'') (rev (pad 9 n))"
    by (simp add: fraction_def)
  from strip_inject[OF _ this] have "rev (pad 9 m) = rev (pad 9 n)" by simp
  then show ?thesis using pad_inject[of 9 m n] assms(2-5) by (simp add: second_def)
qed (use assms(1) in \<open>auto simp: fraction_def split: if_splits\<close>)

lemma month_lengths_pos: "\<forall>l \<in> set (month_lengths leap). 0 \<le> l \<and> l \<le> 31" "length (month_lengths leap) = 12"
  "365 \<le> sum_list (month_lengths leap)"
  by (simp_all add: month_lengths_def)

lemma clock_split:
  fixes v :: int
  shows "v = 3600 * (v div 3600) + 60 * (v div 60 mod 60) + v mod 60"
proof -
  define x y z where "x = v div 60 div 60" and "y = v div 60 mod 60" and "z = v mod 60"
  have "60 * (60 * x + y) + z = v" unfolding x_def y_def z_def by (simp only: mult_div_mod_eq)
  moreover have "v div 3600 = x" unfolding x_def using zdiv_zmult2_eq[of 60 v 60] by simp
  ultimately show ?thesis unfolding y_def[symmetric] z_def[symmetric] by simp
qed

lemma marshal_time_inject:
  assumes "marshal_time t = Some x" and "marshal_time u = Some x"
  shows "t = u"
proof -
  define date where "date = (\<lambda>v :: time. let days = v div second div 86400; y = year_of days
      in (y, month_day 1 (month_lengths (is_leap y)) (year_day days)))"
  have shape: "\<exists>y m d. date v = (y, m, d) \<and> x = rfc3339 y m d (v div second mod 86400) (v mod second) \<and> 0 \<le> y \<and> y < 10000
      \<and> 0 \<le> m \<and> m < 100 \<and> 0 \<le> d \<and> d < 100" if "marshal_time v = Some x" for v
  proof -
    let ?days = "v div second div 86400"
    obtain a b c e f where p: "year_parts ?days = (a, b, c, e, f)" by (metis prod_cases5)
    have "0 \<le> year_day ?days \<and> year_day ?days \<le> 365" using year_parts_bounds[OF p] p by (simp add: year_day_def)
    then show ?thesis
      using that month_day_bounds[OF _ month_lengths_pos(1), of "year_day ?days" 1 "is_leap (year_of ?days)"]
        month_lengths_pos(2,3)[of "is_leap (year_of ?days)"]
      by (auto simp: marshal_time_def Let_def date_def nanosecond_part_def split: prod.splits if_splits)
  qed
  obtain y m d where t: "date t = (y, m, d)" "x = rfc3339 y m d (t div second mod 86400) (t mod second)"
      "0 \<le> y" "y < 10000" "0 \<le> m" "m < 100" "0 \<le> d" "d < 100" using shape[OF assms(1)] by blast
  obtain y' m' d' where u: "date u = (y', m', d')" "x = rfc3339 y' m' d' (u div second mod 86400) (u mod second)"
      "0 \<le> y'" "y' < 10000" "0 \<le> m'" "m' < 100" "0 \<le> d'" "d' < 100" using shape[OF assms(2)] by blast
  define s s' where "s = t div second mod 86400" and "s' = u div second mod 86400"
  have s: "0 \<le> s" "s < 86400" "0 \<le> s'" "s' < 86400" by (simp_all add: s_def s'_def)
  have eqs: "pad 4 y = pad 4 y'" "pad 2 m = pad 2 m'" "pad 2 d = pad 2 d'" "pad 2 (s div 3600) = pad 2 (s' div 3600)"
    "pad 2 (s div 60 mod 60) = pad 2 (s' div 60 mod 60)" "pad 2 (s mod 60) = pad 2 (s' mod 60)"
    "fraction (t mod second) = fraction (u mod second)"
    using t(2) u(2) by (auto simp: rfc3339_def s_def s'_def append_eq_append_conv)
  have date: "y = y'" "m = m'" "d = d'" using pad_inject[OF eqs(1)] pad_inject[OF eqs(2)] pad_inject[OF eqs(3)] t u by auto
  have parts: "s div 3600 = s' div 3600" "s div 60 mod 60 = s' div 60 mod 60" "s mod 60 = s' mod 60"
    using pad_inject[OF eqs(4)] pad_inject[OF eqs(5)] pad_inject[OF eqs(6)] s
    by (auto simp: pos_imp_zdiv_nonneg_iff div_less_iff_less_mult)
  have "s = 3600 * (s' div 3600) + 60 * (s' div 60 mod 60) + s' mod 60" unfolding parts[symmetric] by (rule clock_split)
  then have clock: "s = s'" by (rule trans) (rule clock_split[symmetric])
  have days: "t div second div 86400 = u div second div 86400"
  proof (rule day_inject)
    show same: "year_of (t div second div 86400) = year_of (u div second div 86400)"
      using t(1) u(1) date by (simp add: date_def Let_def)
    show "year_day (t div second div 86400) = year_day (u div second div 86400)"
      using t(1) u(1) date same by (intro month_day_inject[of 1 "month_lengths (is_leap (year_of (u div second div 86400)))"])
        (auto simp: date_def Let_def)
  qed
  have nanos: "t mod second = u mod second" using fraction_inject[OF eqs(7)] by (simp add: second_def)
  have "t div second = u div second"
    using clock days mult_div_mod_eq[of 86400 "t div second"] mult_div_mod_eq[of 86400 "u div second"] unfolding s_def s'_def by metis
  with nanos show ?thesis by (metis mult_div_mod_eq)
qed

subsection \<open>Members of objects\<close>

text \<open>A member of an object, the comma after it included, and a run of string members.\<close>

definition member :: "string \<Rightarrow> string \<Rightarrow> string" where
  "member name v = quote name @ '':'' @ v @ '',''"

fun string_members :: "(string \<times> string) list \<Rightarrow> string" where
  "string_members [] = []"
| "string_members ((name, v) # ms) = member name (quote v) @ string_members ms"

lemma member_inject: "valid_utf8 v \<Longrightarrow> valid_utf8 w \<Longrightarrow> member n (quote v) @ x = member n (quote w) @ y \<Longrightarrow> v = w \<and> x = y"
  using quote_inject[of v w "CHR '','' # x" "CHR '','' # y"] by (auto simp: member_def)

lemma string_members_inject:
  assumes "map fst ms = map fst ns" and "list_all (valid_utf8 \<circ> snd) ms" and "list_all (valid_utf8 \<circ> snd) ns"
    and "string_members ms @ x = string_members ns @ y"
  shows "ms = ns \<and> x = y"
  using assms
proof (induction ms arbitrary: ns)
  case (Cons p ms)
  then obtain q ns' where ns: "ns = q # ns'" by (cases ns) auto
  obtain n v w where pq: "p = (n, v)" "q = (n, w)" using Cons.prems(1) ns by (cases p; cases q) auto
  have "v = w \<and> string_members ms @ x = string_members ns' @ y"
    using Cons.prems ns pq by (intro member_inject[where n = n]) auto
  with Cons.IH[of ns'] Cons.prems ns pq show ?case by simp
qed simp

lemma member_decimal_inject: "member n (decimal i) @ x = member n (decimal j) @ y \<Longrightarrow> i = j \<and> x = y"
  using decimal_inject[of i x j y] by (simp add: member_def)

lemma pad_no_quote: "CHR 0x22 \<notin> set (pad k n)"
proof (induction k arbitrary: n)
  case (Suc k)
  have "digit m \<noteq> CHR 0x22" if "m < 10" for m using byte_digit[OF that] by (auto simp: byte_def)
  moreover have "nat (n mod 10) < 10" by (simp add: nat_less_iff)
  ultimately show ?case using Suc by (metis Un_iff empty_iff empty_set insert_iff list.simps(15) pad.simps(2) set_append)
qed simp

lemma fraction_no_quote: "CHR 0x22 \<notin> set (fraction ns)"
  using pad_no_quote by (auto simp: fraction_def dest!: set_dropWhileD)

lemma marshal_time_no_quote:
  assumes "marshal_time t = Some at" shows "list_all (\<lambda>c. c \<noteq> CHR 0x22) at"
proof -
  obtain y m d s ns where "at = rfc3339 y m d s ns"
    using assms unfolding marshal_time_def Let_def by (auto split: prod.splits if_splits)
  then have "CHR 0x22 \<notin> set at"
    using pad_no_quote fraction_no_quote by (simp add: rfc3339_def del: pad.simps)
  then show ?thesis by (auto simp: list_all_iff)
qed

lemma member_time_inject:
  assumes "marshal_time t = Some at" and "marshal_time u = Some bt"
    and "member n (CHR 0x22 # at @ [CHR 0x22]) @ x = member n (CHR 0x22 # bt @ [CHR 0x22]) @ y"
  shows "t = u"
proof -
  have "at @ CHR 0x22 # '','' @ x = bt @ CHR 0x22 # '','' @ y" using assms(3) by (simp add: member_def)
  from span_inject[OF marshal_time_no_quote[OF assms(1)] marshal_time_no_quote[OF assms(2)] _ this]
  show ?thesis using marshal_time_inject assms(1,2) by simp
qed

end
