(* ===== verification/AuditMerkle.thy ===== *)
theory AuditMerkle
  imports GoCrypto
begin

text \<open>
  \<^verbatim>\<open>sdk/go/audit/merkle.go\<close>: batch Merkle roots with domain-separated leaves and nodes, an odd tail promoted
  unchanged, and inclusion witnesses. The loop over levels is recursion on the level's length. The laws relate the
  levels to binary trees: a witness of an honest batch verifies, and a root commits to its batch, up to a SHA-256
  collision among the strings that were actually hashed.
\<close>

text \<open>The sentinels of the audit plane; the last two belong to \<^verbatim>\<open>internal/audit\<close>.\<close>

datatype audit_error =
    ErrUnsigned | ErrBadAlgorithm | ErrUnknownKey | ErrUntrustedKey | ErrRevokedKey | ErrBadSignature | ErrHashMismatch
  | ErrChainBroken | ErrSequence | ErrTenantSplice | ErrRawPayload | ErrOutcomeAssertion | ErrMalformed
  | ErrUnavailable | ErrTruncated

type_synonym audit_go_error = "audit_error go_error"

subsection \<open>Definitions\<close>

record MerkleSibling =
  msib_Hash :: string
  msib_Right :: bool

record MerkleWitness =
  mw_LeafIndex :: int
  mw_Siblings :: "MerkleSibling list"

definition leafDigest :: "string \<Rightarrow> string" where
  "leafDigest v = digest_prefix @ sha256_hex (CHR 0x00 # v)"

definition nodeDigest :: "string \<Rightarrow> string \<Rightarrow> string" where
  "nodeDigest left right = digest_prefix @ sha256_hex (CHR 0x01 # left @ right)"

fun next_level :: "string list \<Rightarrow> string list" where
  "next_level [] = []"
| "next_level [x] = [x]"
| "next_level (x # y # zs) = nodeDigest x y # next_level zs"

lemma length_next_level [simp]: "length (next_level xs) = (length xs + 1) div 2"
  by (induction xs rule: next_level.induct) auto

function root_loop :: "string list \<Rightarrow> string list" where
  "root_loop level = (if length level > 1 then root_loop (next_level level) else level)"
  by auto
termination by (relation "measure length") auto

declare root_loop.simps [simp del]

definition MerkleRoot :: "string list \<Rightarrow> audit_go_error + string" where
  "MerkleRoot eventHashes =
     (if eventHashes = [] then Inl (Message ''merkle root over an empty batch'')
      else Inr (hd (root_loop (map leafDigest eventHashes))))"

text \<open>The sibling recorded at one level: none for a promoted tail.\<close>

definition level_sibling :: "string list \<Rightarrow> nat \<Rightarrow> MerkleSibling list" where
  "level_sibling level pos =
     (if pos mod 2 = 0
      then (if pos + 1 < length level then [\<lparr>msib_Hash = level ! (pos + 1), msib_Right = True\<rparr>] else [])
      else [\<lparr>msib_Hash = level ! (pos - 1), msib_Right = False\<rparr>])"

function proof_loop :: "string list \<Rightarrow> nat \<Rightarrow> MerkleSibling list" where
  "proof_loop level pos =
     (if length level > 1 then level_sibling level pos @ proof_loop (next_level level) (pos div 2) else [])"
  by auto
termination by (relation "measure (length \<circ> fst)") auto

declare proof_loop.simps [simp del]

definition MerkleProof :: "string list \<Rightarrow> int \<Rightarrow> audit_go_error + MerkleWitness" where
  "MerkleProof eventHashes index =
     (if index < 0 \<or> index \<ge> int (length eventHashes) then Inl (Message ''merkle proof index out of range'')
      else Inr \<lparr>mw_LeafIndex = index, mw_Siblings = proof_loop (map leafDigest eventHashes) (nat index)\<rparr>)"

definition climb :: "MerkleSibling \<Rightarrow> string \<Rightarrow> string" where
  "climb sibling running =
     (if msib_Right sibling then nodeDigest running (msib_Hash sibling) else nodeDigest (msib_Hash sibling) running)"

definition VerifyMerkleProof :: "string \<Rightarrow> string \<Rightarrow> MerkleWitness \<Rightarrow> bool" where
  "VerifyMerkleProof leafValue root witness \<longleftrightarrow> fold climb (mw_Siblings witness) (leafDigest leafValue) = root"

subsection \<open>Honest witnesses verify\<close>

lemma next_level_nth:
  "pos < length level \<Longrightarrow> fold climb (level_sibling level pos) (level ! pos) = next_level level ! (pos div 2)"
proof (induction level arbitrary: pos rule: next_level.induct)
  case (3 x y zs)
  show ?case
  proof (cases "pos < 2")
    case True
    then have "pos = 0 \<or> pos = 1" by auto
    then show ?thesis by (auto simp: level_sibling_def climb_def)
  next
    case False
    then obtain p where p: "pos = Suc (Suc p)" by (metis add_2_eq_Suc le_add_diff_inverse not_less)
    then have "level_sibling (x # y # zs) pos = level_sibling zs p"
      by (cases p) (auto simp: level_sibling_def)
    with 3 p show ?thesis by simp
  qed
qed (auto simp: level_sibling_def)

lemma proof_loop_root:
  "pos < length level \<Longrightarrow> fold climb (proof_loop level pos) (level ! pos) = hd (root_loop level)"
proof (induction level arbitrary: pos rule: root_loop.induct)
  case (1 level)
  show ?case
  proof (cases "length level > 1")
    case True
    then have "pos div 2 < length (next_level level)" using 1(2) by simp
    from 1(1)[OF True this] True show ?thesis
      by (subst proof_loop.simps, subst root_loop.simps) (simp add: next_level_nth[OF 1(2)])
  next
    case False
    with 1(2) have "level = [level ! 0]" "pos = 0" by (cases level; simp)+
    with False show ?thesis by (subst proof_loop.simps, subst root_loop.simps) (metis fold_simps(1) list.sel(1))
  qed
qed

text \<open>Completeness of inclusion proofs: for every index of a batch, the witness \<open>MerkleProof\<close> builds verifies
  that event hash against the root \<open>MerkleRoot\<close> computes for the batch.\<close>

theorem merkle_witness_verifies:
  assumes "0 \<le> i" and "i < int (length hs)"
  shows "\<exists>w root. MerkleProof hs i = Inr w \<and> MerkleRoot hs = Inr root \<and> mw_LeafIndex w = i \<and> VerifyMerkleProof (hs ! nat i) root w"
proof -
  have "nat i < length hs" using assms by auto
  then show ?thesis
    using assms proof_loop_root[of "nat i" "map leafDigest hs"]
    by (auto simp: MerkleProof_def MerkleRoot_def VerifyMerkleProof_def)
qed

theorem merkle_witness_verifies_witness:
  "\<exists>w root. MerkleProof [''a'', ''b'', ''c''] 2 = Inr w \<and> MerkleRoot [''a'', ''b'', ''c''] = Inr root \<and> mw_LeafIndex w = 2
     \<and> VerifyMerkleProof ([''a'', ''b'', ''c''] ! nat 2) root w"
  by (rule merkle_witness_verifies) simp_all

subsection \<open>Levels as trees\<close>

datatype htree = HLeaf string | HNode htree htree

fun digest_of :: "htree \<Rightarrow> string" where
  "digest_of (HLeaf v) = leafDigest v"
| "digest_of (HNode l r) = nodeDigest (digest_of l) (digest_of r)"

fun leaves :: "htree \<Rightarrow> string list" where
  "leaves (HLeaf v) = [v]"
| "leaves (HNode l r) = leaves l @ leaves r"

text \<open>The strings hashed to compute a tree's digest.\<close>

fun hashed :: "htree \<Rightarrow> string set" where
  "hashed (HLeaf v) = {CHR 0x00 # v}"
| "hashed (HNode l r) = insert (CHR 0x01 # digest_of l @ digest_of r) (hashed l \<union> hashed r)"

fun pair_up :: "htree list \<Rightarrow> htree list" where
  "pair_up [] = []"
| "pair_up [t] = [t]"
| "pair_up (t # u # ts) = HNode t u # pair_up ts"

lemma length_pair_up [simp]: "length (pair_up ts) = (length ts + 1) div 2"
  by (induction ts rule: pair_up.induct) auto

function tree_loop :: "htree list \<Rightarrow> htree list" where
  "tree_loop ts = (if length ts > 1 then tree_loop (pair_up ts) else ts)"
  by auto
termination by (relation "measure length") auto

declare tree_loop.simps [simp del]

definition tree_of :: "string list \<Rightarrow> htree" where
  "tree_of hs = hd (tree_loop (map HLeaf hs))"

lemma pair_up_digest: "map digest_of (pair_up ts) = next_level (map digest_of ts)"
  by (induction ts rule: pair_up.induct) auto

lemma pair_up_leaves: "concat (map leaves (pair_up ts)) = concat (map leaves ts)"
  by (induction ts rule: pair_up.induct) auto

lemma tree_loop_digest: "map digest_of (tree_loop ts) = root_loop (map digest_of ts)"
  by (induction ts rule: tree_loop.induct) (metis tree_loop.simps root_loop.simps pair_up_digest length_map)

lemma tree_loop_leaves: "concat (map leaves (tree_loop ts)) = concat (map leaves ts)"
  by (induction ts rule: tree_loop.induct) (metis tree_loop.simps pair_up_leaves)

lemma tree_loop_single: "ts \<noteq> [] \<Longrightarrow> \<exists>t. tree_loop ts = [t]"
proof (induction ts rule: tree_loop.induct)
  case (1 ts)
  show ?case
  proof (cases "length ts > 1")
    case True
    have "pair_up ts \<noteq> []" using 1(2) by (cases ts rule: pair_up.cases) auto
    with 1 True show ?thesis by (subst tree_loop.simps) simp
  next
    case False
    with 1(2) show ?thesis by (subst tree_loop.simps) (cases ts; simp)
  qed
qed

lemma leaves_tree_of: "hs \<noteq> [] \<Longrightarrow> leaves (tree_of hs) = hs"
  and digest_tree_of: "hs \<noteq> [] \<Longrightarrow> MerkleRoot hs = Inr (digest_of (tree_of hs))"
proof -
  assume "hs \<noteq> []"
  then obtain t where t: "tree_loop (map HLeaf hs) = [t]" using tree_loop_single by blast
  then show "leaves (tree_of hs) = hs"
    using tree_loop_leaves[of "map HLeaf hs"] by (simp add: tree_of_def comp_def)
  have "root_loop (map leafDigest hs) = [digest_of t]"
    using tree_loop_digest[of "map HLeaf hs"] t by (simp add: comp_def)
  with t \<open>hs \<noteq> []\<close> show "MerkleRoot hs = Inr (digest_of (tree_of hs))" by (simp add: MerkleRoot_def tree_of_def)
qed

subsection \<open>Roots commit\<close>

text \<open>Two different strings of a set with one SHA-256 digest.\<close>

definition collides :: "string set \<Rightarrow> bool" where
  "collides S \<longleftrightarrow> (\<exists>a \<in> S. \<exists>b \<in> S. a \<noteq> b \<and> sha256 a = sha256 b)"

lemma collides_mono: "collides S \<Longrightarrow> S \<subseteq> T \<Longrightarrow> collides T"
  unfolding collides_def by blast

lemma same_digest:
  "sha256_hex a = sha256_hex b \<Longrightarrow> a \<in> S \<Longrightarrow> b \<in> S \<Longrightarrow> a = b \<or> collides S"
  unfolding collides_def sha256_hex_def by (auto dest: hex_encode_inj)

lemma length_digest: "length (digest_prefix @ sha256_hex a) = 71"
  by (simp add: digest_prefix_def sha256_hex_def)

lemma length_digest_of [simp]: "length (digest_of t) = 71"
  by (cases t) (simp_all only: digest_of.simps leafDigest_def nodeDigest_def length_digest)

lemma hashed_root: "\<exists>x \<in> hashed t. digest_of t = digest_prefix @ sha256_hex x"
  by (cases t) (auto simp: leafDigest_def nodeDigest_def)

lemma digest_of_inject: "digest_of t = digest_of u \<Longrightarrow> t = u \<or> collides (hashed t \<union> hashed u)"
proof (induction t arbitrary: u)
  case (HLeaf v)
  then show ?case
    using same_digest[of "CHR 0x00 # v" _ "hashed (HLeaf v) \<union> hashed u"]
    by (cases u) (auto simp: leafDigest_def nodeDigest_def)
next
  case (HNode l r)
  show ?case
  proof (cases u)
    case (HLeaf v)
    with HNode.prems have "sha256_hex (CHR 0x01 # digest_of l @ digest_of r) = sha256_hex (CHR 0x00 # v)"
      by (simp add: leafDigest_def nodeDigest_def)
    from same_digest[OF this, of "hashed (htree.HNode l r) \<union> hashed u"] HLeaf show ?thesis by auto
  next
    case u: (HNode l' r')
    with HNode.prems have "sha256_hex (CHR 0x01 # digest_of l @ digest_of r) = sha256_hex (CHR 0x01 # digest_of l' @ digest_of r')"
      by (simp add: nodeDigest_def)
    from same_digest[OF this, of "hashed (htree.HNode l r) \<union> hashed u"] u
    consider "collides (hashed (htree.HNode l r) \<union> hashed u)" | "digest_of l = digest_of l'" "digest_of r = digest_of r'" by auto
    then show ?thesis
    proof cases
      case 2
      let ?S = "hashed (htree.HNode l r) \<union> hashed u"
      have "collides (hashed l \<union> hashed l') \<Longrightarrow> collides ?S" "collides (hashed r \<union> hashed r') \<Longrightarrow> collides ?S"
        using u by (auto elim!: collides_mono)
      with 2 HNode.IH(1)[of l'] HNode.IH(2)[of r'] u show ?thesis by blast
    qed simp
  qed
qed

text \<open>A root commits to its batch: two batches with one Merkle root are the same list of event hashes, in the
  same order and of the same length, unless two different strings hashed for the two roots collide under SHA-256.\<close>

theorem merkle_root_commits:
  assumes "MerkleRoot hs = Inr root" and "MerkleRoot hs' = Inr root"
  shows "hs = hs' \<or> collides (hashed (tree_of hs) \<union> hashed (tree_of hs'))"
proof -
  have ne: "hs \<noteq> []" "hs' \<noteq> []" using assms by (auto simp: MerkleRoot_def)
  then have "digest_of (tree_of hs) = digest_of (tree_of hs')" using assms digest_tree_of by fastforce
  then show ?thesis using digest_of_inject leaves_tree_of ne by metis
qed

theorem merkle_root_commits_witness:
  "[''a'', ''b''] = [''a'', ''b''] \<or> collides (hashed (tree_of [''a'', ''b'']) \<union> hashed (tree_of [''a'', ''b'']))"
  by (rule merkle_root_commits[of "[''a'', ''b'']" "hd (root_loop (map leafDigest [''a'', ''b'']))"]) (simp_all add: MerkleRoot_def)

subsection \<open>Inclusion proofs are sound\<close>

text \<open>The strings hashed to check a witness.\<close>

definition climb_input :: "MerkleSibling \<Rightarrow> string \<Rightarrow> string" where
  "climb_input sib running = CHR 0x01 # (if msib_Right sib then running @ msib_Hash sib else msib_Hash sib @ running)"

fun climbed :: "string \<Rightarrow> MerkleSibling list \<Rightarrow> string list" where
  "climbed running [] = []"
| "climbed running (sib # sibs) = climb_input sib running # climbed (climb sib running) sibs"

definition checked :: "string \<Rightarrow> MerkleWitness \<Rightarrow> string set" where
  "checked v w = insert (CHR 0x00 # v) (set (climbed (leafDigest v) (mw_Siblings w)))"

lemma climb_digest: "climb sib running = digest_prefix @ sha256_hex (climb_input sib running)"
  by (simp add: climb_def climb_input_def nodeDigest_def)

lemma climbed_append: "climbed r (xs @ ys) = climbed r xs @ climbed (fold climb xs r) ys"
  by (induction xs arbitrary: r) auto

lemma length_fold_climb: "length (fold climb sibs (leafDigest v)) = 71"
  by (cases sibs rule: rev_cases) (simp_all only: leafDigest_def fold_append fold_simps comp_def climb_digest length_digest)

lemma climb_sound:
  assumes "fold climb sibs (leafDigest v) = digest_of t"
  shows "v \<in> set (leaves t) \<or> collides (hashed t \<union> insert (CHR 0x00 # v) (set (climbed (leafDigest v) sibs)))"
  using assms
proof (induction t arbitrary: sibs)
  case (HLeaf x)
  show ?case
  proof (cases sibs rule: rev_cases)
    case Nil
    with HLeaf have "sha256_hex (CHR 0x00 # v) = sha256_hex (CHR 0x00 # x)" by (simp add: leafDigest_def)
    from same_digest[OF this, of "hashed (HLeaf x) \<union> insert (CHR 0x00 # v) (set (climbed (leafDigest v) sibs))"] Nil
    show ?thesis by auto
  next
    case (snoc s sib)
    with HLeaf have "sha256_hex (climb_input sib (fold climb s (leafDigest v))) = sha256_hex (CHR 0x00 # x)"
      by (simp add: climb_digest[of sib] leafDigest_def[of x])
    from same_digest[OF this, of "hashed (HLeaf x) \<union> insert (CHR 0x00 # v) (set (climbed (leafDigest v) sibs))"] snoc
    show ?thesis by (auto simp: climb_input_def climbed_append)
  qed
next
  case (HNode l r)
  show ?case
  proof (cases sibs rule: rev_cases)
    case Nil
    with HNode.prems have "sha256_hex (CHR 0x00 # v) = sha256_hex (CHR 0x01 # digest_of l @ digest_of r)"
      by (simp add: leafDigest_def nodeDigest_def)
    from same_digest[OF this, of "hashed (htree.HNode l r) \<union> insert (CHR 0x00 # v) (set (climbed (leafDigest v) sibs))"]
    show ?thesis by auto
  next
    case (snoc s sib)
    let ?run = "fold climb s (leafDigest v)"
    let ?S = "hashed (htree.HNode l r) \<union> insert (CHR 0x00 # v) (set (climbed (leafDigest v) sibs))"
    from snoc HNode.prems have "sha256_hex (climb_input sib ?run) = sha256_hex (CHR 0x01 # digest_of l @ digest_of r)"
      by (simp add: climb_digest[of sib] nodeDigest_def)
    from same_digest[OF this, of ?S] snoc
    consider "collides ?S" | "climb_input sib ?run = CHR 0x01 # digest_of l @ digest_of r" by (auto simp: climbed_append)
    then show ?thesis
    proof cases
      case 2
      then have "?run = digest_of l \<or> ?run = digest_of r"
        using length_fold_climb[of s v] by (auto simp: climb_input_def append_eq_append_conv split: if_splits)
      moreover have "collides (hashed l \<union> insert (CHR 0x00 # v) (set (climbed (leafDigest v) s))) \<Longrightarrow> collides ?S"
        "collides (hashed r \<union> insert (CHR 0x00 # v) (set (climbed (leafDigest v) s))) \<Longrightarrow> collides ?S"
        using snoc by (auto simp: climbed_append elim!: collides_mono)
      ultimately show ?thesis using HNode.IH[of s] by auto
    qed simp
  qed
qed

text \<open>C40: soundness of inclusion proofs: an event hash for which some witness, of any shape and length, verifies
  against the root of a batch is one of that batch's event hashes, unless two different strings hashed for the root or
  for the check collide under SHA-256.\<close>

theorem merkle_proof_sound:
  assumes "MerkleRoot hs = Inr root" and "VerifyMerkleProof v root w"
  shows "v \<in> set hs \<or> collides (hashed (tree_of hs) \<union> checked v w)"
proof -
  have ne: "hs \<noteq> []" using assms(1) by (auto simp: MerkleRoot_def)
  with assms have "fold climb (mw_Siblings w) (leafDigest v) = digest_of (tree_of hs)"
    by (simp add: digest_tree_of VerifyMerkleProof_def)
  from climb_sound[OF this] show ?thesis by (simp add: leaves_tree_of[OF ne] checked_def)
qed

theorem merkle_proof_sound_witness:
  "''a'' \<in> set [''a''] \<or> collides (hashed (tree_of [''a'']) \<union> checked ''a'' \<lparr>mw_LeafIndex = 0, mw_Siblings = []\<rparr>)"
  by (rule merkle_proof_sound[of "[''a'']" "leafDigest ''a''"])
    (simp_all add: MerkleRoot_def VerifyMerkleProof_def root_loop.simps)

end
