(* ===== verification/AuditChain.thy ===== *)
theory AuditChain
  imports GoEncoding AuditMerkle "HOL-Library.Word"
begin

text \<open>
  \<^verbatim>\<open>sdk/go/audit\<close>: event.go, canonical.go, sign.go and verify.go: the signed, hash-linked audit chain of one
  tenant. An event is canonicalized by \<open>json.Marshal\<close> over its fields with the signature and hash slots zeroed and the
  instant cut to microseconds; hash and signature are taken over those bytes. A key resolver is a partial function, a
  nil interface \<open>None\<close>; the per-tenant sequence is a 64-bit word.
\<close>

definition SignatureAlgorithmEd25519 :: string where "SignatureAlgorithmEd25519 = ''ed25519''"

record AuditSignature =
  as_Algorithm :: string
  as_KeyID :: string
  as_Value :: string

definition no_signature :: AuditSignature where
  "no_signature = \<lparr>as_Algorithm = [], as_KeyID = [], as_Value = []\<rparr>"

definition signature_zero :: "AuditSignature \<Rightarrow> bool" where
  "signature_zero s \<longleftrightarrow> s = no_signature"

record Event =
  ae_ID :: string
  ae_TenantRef :: string
  ae_TenantSeq :: "64 word"
  ae_CaseTicketID :: string
  ae_StepGrantID :: string
  ae_ActorUserID :: string
  ae_ConnectorInstanceID :: string
  ae_ResourceType :: string
  ae_ResourceID :: string
  ae_Action :: string
  ae_Decision :: string
  ae_InputHash :: string
  ae_OutputHash :: string
  ae_EvidencePointer :: string
  ae_StatusFrom :: string
  ae_Capability :: string
  ae_ParameterHash :: string
  ae_GrantRef :: string
  ae_ApprovalEvidenceRef :: string
  ae_ReceiptRef :: string
  ae_RiskAuthority :: string
  ae_AgentClientRef :: string
  ae_AgentReleaseRef :: string
  ae_OrgSnapshotRef :: string
  ae_PrevHash :: string
  ae_SignedAt :: time
  ae_Signature :: AuditSignature
  ae_EventHash :: string

datatype KeyStatus = KeyActive | KeyRevoked | KeyOther string

record SigningKey =
  ak_KeyID :: string
  ak_Algorithm :: string
  ak_PublicKey :: string
  ak_Status :: KeyStatus
  ak_CreatedAt :: time
  ak_RevokedAt :: time

type_synonym KeyResolver = "string \<Rightarrow> SigningKey option"

definition NewKeySet :: "SigningKey list \<Rightarrow> KeyResolver" where
  "NewKeySet ks = fold (\<lambda>key m. m(ak_KeyID key \<mapsto> key)) ks Map.empty"

subsection \<open>Canonical bytes\<close>

definition canonicalTimePrecision :: duration where "canonicalTimePrecision = 1000"

definition head_fields :: "Event \<Rightarrow> (string \<times> string) list" where
  "head_fields e = [(''id'', ae_ID e), (''tenant_ref'', ae_TenantRef e)]"

definition body_fields :: "Event \<Rightarrow> (string \<times> string) list" where
  "body_fields e =
     [(''case_ticket_id'', ae_CaseTicketID e), (''step_grant_id'', ae_StepGrantID e), (''actor_user_id'', ae_ActorUserID e),
      (''connector_instance_id'', ae_ConnectorInstanceID e), (''resource_type'', ae_ResourceType e),
      (''resource_id'', ae_ResourceID e), (''action'', ae_Action e), (''decision'', ae_Decision e),
      (''input_hash'', ae_InputHash e), (''output_hash'', ae_OutputHash e), (''evidence_pointer'', ae_EvidencePointer e),
      (''status_from'', ae_StatusFrom e), (''capability'', ae_Capability e), (''parameter_hash'', ae_ParameterHash e),
      (''grant_ref'', ae_GrantRef e), (''approval_evidence_ref'', ae_ApprovalEvidenceRef e), (''receipt_ref'', ae_ReceiptRef e),
      (''risk_authority'', ae_RiskAuthority e), (''agent_client_ref'', ae_AgentClientRef e),
      (''agent_release_ref'', ae_AgentReleaseRef e), (''org_snapshot_ref'', ae_OrgSnapshotRef e), (''prev_hash'', ae_PrevHash e)]"

definition marshal_signature :: "AuditSignature \<Rightarrow> string" where
  "marshal_signature s = ''{'' @ member ''algorithm'' (quote (as_Algorithm s)) @ member ''key_id'' (quote (as_KeyID s))
     @ quote ''value'' @ '':'' @ quote (as_Value s) @ ''}''"

definition marshal_event :: "Event \<Rightarrow> string option" where
  "marshal_event e =
     (case marshal_time (ae_SignedAt e) of None \<Rightarrow> None | Some at \<Rightarrow>
      Some (''{'' @ string_members (head_fields e) @ member ''tenant_seq'' (decimal (unat (ae_TenantSeq e)))
        @ string_members (body_fields e) @ member ''signed_at'' (CHR 0x22 # at @ [CHR 0x22])
        @ member ''signature'' (marshal_signature (ae_Signature e)) @ quote ''event_hash'' @ '':'' @ quote (ae_EventHash e) @ ''}''))"

definition normalize :: "Event \<Rightarrow> Event" where
  "normalize e = e\<lparr>ae_Signature := no_signature, ae_EventHash := [],
     ae_SignedAt := truncate_to canonicalTimePrecision (ae_SignedAt e)\<rparr>"

definition Canonical :: "Event \<Rightarrow> audit_go_error + string" where
  "Canonical e = (case marshal_event (normalize e) of
      None \<Rightarrow> Inl (Message ''Time.MarshalJSON: year outside of range [0,9999]'') | Some bytes \<Rightarrow> Inr bytes)"

definition EventHash :: "Event \<Rightarrow> audit_go_error + string" where
  "EventHash e = (case Canonical e of Inl err \<Rightarrow> Inl err | Inr bytes \<Rightarrow> Inr (digest_prefix @ sha256_hex bytes))"

definition SignEd25519 :: "ed25519 \<Rightarrow> Event \<Rightarrow> string \<Rightarrow> string \<Rightarrow> audit_go_error + Event" where
  "SignEd25519 ed e keyID key =
     (if keyID = [] then Inl (Message ''audit signer requires a key id'')
      else if length key \<noteq> 64 then Inl (Message ''audit signer requires exactly ed25519.PrivateKeySize bytes of key material'')
      else case Canonical e of Inl err \<Rightarrow> Inl err | Inr bytes \<Rightarrow>
      case EventHash e of Inl err \<Rightarrow> Inl err | Inr hash \<Rightarrow>
      Inr (e\<lparr>ae_EventHash := hash, ae_Signature := \<lparr>as_Algorithm = SignatureAlgorithmEd25519, as_KeyID = keyID,
        as_Value = b64_encode ed (ed_sign ed key bytes)\<rparr>\<rparr>))"

subsection \<open>What an event may carry\<close>

definition maxReferenceBytes :: nat where "maxReferenceBytes = 512"

text \<open>The loop runs over runes; only single-byte runes satisfy its conditions.\<close>

definition hasControlBytes :: "string \<Rightarrow> bool" where
  "hasControlBytes s \<longleftrightarrow> list_ex (\<lambda>c. (byte c < 32 \<and> byte c \<notin> {9, 10, 13}) \<or> byte c = 127) s"

definition reference_fields :: "Event \<Rightarrow> string list" where
  "reference_fields e =
     [ae_ID e, ae_TenantRef e, ae_CaseTicketID e, ae_StepGrantID e, ae_ActorUserID e, ae_ConnectorInstanceID e,
      ae_ResourceType e, ae_ResourceID e, ae_Action e, ae_Decision e, ae_EvidencePointer e, ae_StatusFrom e, ae_Capability e,
      ae_GrantRef e, ae_ApprovalEvidenceRef e, ae_ReceiptRef e, ae_RiskAuthority e, ae_AgentClientRef e, ae_AgentReleaseRef e,
      ae_OrgSnapshotRef e, ae_PrevHash e]"

definition checkNoRawPayload :: "Event \<Rightarrow> audit_go_error option" where
  "checkNoRawPayload e =
     (if list_ex (\<lambda>h. h \<noteq> [] \<and> \<not> is_sha256_ref h) [ae_InputHash e, ae_OutputHash e, ae_ParameterHash e]
      then Some (Sentinel ErrRawPayload)
      else if list_ex (\<lambda>r. length r > maxReferenceBytes \<or> hasControlBytes r) (reference_fields e)
      then Some (Sentinel ErrRawPayload) else None)"

definition outcomeTokens :: "string list" where
  "outcomeTokens = [''outcome'', ''goal_achieved'', ''goal_reached'', ''goal_met'', ''goal_complete'',
     ''objective_met'', ''objective_achieved'', ''business_result'', ''result_graph'']"

text \<open>
  \<open>strings.ToLower\<close> as far as ASCII tokens can tell: the two runes outside ASCII whose lower case is ASCII are
  U+0130 and U+212A, all other bytes outside ASCII stay outside.
\<close>

fun lower_for_tokens :: "string \<Rightarrow> string" where
  "lower_for_tokens [] = []"
| "lower_for_tokens (c # cs) =
     (if byte c = 196 \<and> take 1 cs = [CHR 0xB0] then CHR ''i'' # lower_for_tokens (drop 1 cs)
      else if byte c = 226 \<and> take 2 cs = [CHR 0x84, CHR 0xAA] then CHR ''k'' # lower_for_tokens (drop 2 cs)
      else (if is_upper c then char_of (byte c + 32) else c) # lower_for_tokens cs)"

definition is_word_char :: "char \<Rightarrow> bool" where
  "is_word_char c \<longleftrightarrow> is_lower c \<or> is_digit c \<or> c = CHR ''_''"

fun fields_of :: "string \<Rightarrow> string \<Rightarrow> string list" where
  "fields_of word [] = (if word = [] then [] else [rev word])"
| "fields_of word (c # cs) =
     (if is_word_char c then fields_of (c # word) cs
      else (if word = [] then fields_of [] cs else rev word # fields_of [] cs))"

definition graphToken :: "string \<Rightarrow> bool" where
  "graphToken lower \<longleftrightarrow>
     list_ex (\<lambda>part. part = ''graph'' \<or> has_prefix part ''graph_'' \<or> has_suffix part ''_graph'') (fields_of [] lower)"

definition assertsOutcome :: "Event \<Rightarrow> bool" where
  "assertsOutcome e \<longleftrightarrow>
     list_ex (\<lambda>field. let lower = lower_for_tokens field in list_ex (contains lower) outcomeTokens \<or> graphToken lower)
       [ae_Action e, ae_Decision e, ae_ResourceType e, ae_ResourceID e, ae_EvidencePointer e, ae_Capability e, ae_StatusFrom e,
        ae_RiskAuthority e, ae_CaseTicketID e, ae_StepGrantID e, ae_GrantRef e, ae_ApprovalEvidenceRef e, ae_ReceiptRef e,
        ae_AgentClientRef e, ae_AgentReleaseRef e, ae_OrgSnapshotRef e, ae_ID e]"

definition verifyKeyMaterial :: "SigningKey \<Rightarrow> audit_go_error option" where
  "verifyKeyMaterial key = first_error
     [fail_if (ak_Algorithm key \<noteq> SignatureAlgorithmEd25519) (Sentinel ErrBadAlgorithm),
      fail_if (length (ak_PublicKey key) \<noteq> 32) (Sentinel ErrMalformed)]"

subsection \<open>Verification\<close>

definition verifySignature :: "ed25519 \<Rightarrow> SigningKey \<Rightarrow> string \<Rightarrow> string \<Rightarrow> audit_go_error option" where
  "verifySignature ed key bytes value =
     (case b64_decode ed value of
        None \<Rightarrow> Some (Joined [Sentinel ErrBadSignature, Message ''signature is not base64''])
      | Some sig \<Rightarrow> fail_if (\<not> ed_verify ed (ak_PublicKey key) bytes sig) (Sentinel ErrBadSignature))"

definition verifyEvent ::
  "ed25519 \<Rightarrow> Event \<Rightarrow> 64 word \<Rightarrow> string \<Rightarrow> string \<Rightarrow> KeyResolver \<Rightarrow> audit_go_error option" where
  "verifyEvent ed e wantSeq tenant prevHash keys =
     (if signature_zero (ae_Signature e) then Some (Sentinel ErrUnsigned)
      else if as_Algorithm (ae_Signature e) \<noteq> SignatureAlgorithmEd25519 then Some (Sentinel ErrBadAlgorithm)
      else if ae_TenantRef e \<noteq> tenant then Some (Sentinel ErrTenantSplice)
      else if ae_TenantSeq e \<noteq> wantSeq then Some (Sentinel ErrSequence)
      else case checkNoRawPayload e of Some err \<Rightarrow> Some err | None \<Rightarrow>
      if assertsOutcome e then Some (Sentinel ErrOutcomeAssertion)
      else if ae_PrevHash e \<noteq> prevHash then Some (Sentinel ErrChainBroken)
      else case EventHash e of Inl err \<Rightarrow> Some (Joined [Sentinel ErrMalformed, err]) | Inr recomputed \<Rightarrow>
      if recomputed \<noteq> ae_EventHash e then Some (Sentinel ErrHashMismatch)
      else case keys (as_KeyID (ae_Signature e)) of None \<Rightarrow> Some (Sentinel ErrUnknownKey) | Some key \<Rightarrow>
      if ak_Status key = KeyRevoked then Some (Sentinel ErrRevokedKey)
      else case verifyKeyMaterial key of Some err \<Rightarrow> Some err | None \<Rightarrow>
      case Canonical e of Inl err \<Rightarrow> Some (Joined [Sentinel ErrMalformed, err]) | Inr bytes \<Rightarrow>
      verifySignature ed key bytes (as_Value (ae_Signature e)))"

fun verify_from :: "ed25519 \<Rightarrow> KeyResolver \<Rightarrow> string \<Rightarrow> nat \<Rightarrow> string \<Rightarrow> Event list \<Rightarrow> audit_go_error option" where
  "verify_from ed keys tenant i prevHash [] = None"
| "verify_from ed keys tenant i prevHash (e # es) =
     (case verifyEvent ed e (word_of_nat (i + 1)) tenant prevHash keys of
        Some err \<Rightarrow> Some (Joined [Message ''audit event'', err])
      | None \<Rightarrow> verify_from ed keys tenant (i + 1) (ae_EventHash e) es)"

definition VerifyChain :: "ed25519 \<Rightarrow> Event list \<Rightarrow> KeyResolver option \<Rightarrow> audit_go_error option" where
  "VerifyChain ed events resolver =
     (case resolver of None \<Rightarrow> Some (Joined [Sentinel ErrMalformed, Message ''no key resolver'']) | Some keys \<Rightarrow>
      case events of [] \<Rightarrow> None
      | e # _ \<Rightarrow> if ae_TenantRef e = [] then Some (Joined [Sentinel ErrMalformed, Message ''empty tenant ref''])
                 else verify_from ed keys (ae_TenantRef e) 0 [] events)"

end
