(* ===== verification/AuditLaws.thy ===== *)
theory AuditLaws
  imports AuditChain
begin

text \<open>
  What the signed chain proves: the canonical bytes determine the event, a chain is accepted exactly when every link
  is, its head commits to the whole history, deletions and reorderings other than cutting the tail are rejected, and
  signing the next event extends a verified chain to a verified one.
\<close>

subsection \<open>The canonical bytes determine the event\<close>

definition utf8_event :: "Event \<Rightarrow> bool" where
  "utf8_event e \<longleftrightarrow> list_all (valid_utf8 \<circ> snd) (head_fields e @ body_fields e)"

lemma fields_names: "map fst (head_fields e) = map fst (head_fields e')" "map fst (body_fields e) = map fst (body_fields e')"
  by (simp_all add: head_fields_def body_fields_def)

lemma normalize_fields [simp]: "head_fields (normalize e) = head_fields e" "body_fields (normalize e) = body_fields e"
  "ae_TenantSeq (normalize e) = ae_TenantSeq e" "ae_PrevHash (normalize e) = ae_PrevHash e"
  by (simp_all add: normalize_def head_fields_def body_fields_def)

lemma normalize_eqI:
  assumes "head_fields e = head_fields e'" and "body_fields e = body_fields e'" and "ae_TenantSeq e = ae_TenantSeq e'"
    and "ae_SignedAt (normalize e) = ae_SignedAt (normalize e')"
  shows "normalize e = normalize e'"
  using assms by (cases e; cases e') (simp add: normalize_def head_fields_def body_fields_def)

lemma canonical_inject:
  assumes "Canonical e = Inr bytes" and "Canonical e' = Inr bytes" and "utf8_event e" and "utf8_event e'"
  shows "normalize e = normalize e'"
proof -
  obtain at bt where t: "marshal_time (ae_SignedAt (normalize e)) = Some at" "marshal_time (ae_SignedAt (normalize e')) = Some bt"
    and bytes: "marshal_event (normalize e) = Some bytes" "marshal_event (normalize e') = Some bytes"
    using assms(1,2) by (auto simp: Canonical_def marshal_event_def split: option.splits)
  define tail where "tail = member ''signature'' (marshal_signature no_signature) @ quote ''event_hash'' @ '':'' @ quote [] @ ''}''"
  have "CHR ''{'' # string_members (head_fields e) @ member ''tenant_seq'' (decimal (unat (ae_TenantSeq e))) @ string_members (body_fields e)
        @ member ''signed_at'' (CHR 0x22 # at @ [CHR 0x22]) @ tail = bytes"
    "CHR ''{'' # string_members (head_fields e') @ member ''tenant_seq'' (decimal (unat (ae_TenantSeq e'))) @ string_members (body_fields e')
        @ member ''signed_at'' (CHR 0x22 # bt @ [CHR 0x22]) @ tail = bytes"
    using bytes t by (simp_all add: marshal_event_def tail_def) (simp_all add: normalize_def)
  then have eq: "string_members (head_fields e) @ member ''tenant_seq'' (decimal (unat (ae_TenantSeq e))) @ string_members (body_fields e)
        @ member ''signed_at'' (CHR 0x22 # at @ [CHR 0x22]) @ tail
      = string_members (head_fields e') @ member ''tenant_seq'' (decimal (unat (ae_TenantSeq e'))) @ string_members (body_fields e')
        @ member ''signed_at'' (CHR 0x22 # bt @ [CHR 0x22]) @ tail" by (metis list.sel(3))
  have utf8: "list_all (valid_utf8 \<circ> snd) (head_fields e)" "list_all (valid_utf8 \<circ> snd) (head_fields e')"
    "list_all (valid_utf8 \<circ> snd) (body_fields e)" "list_all (valid_utf8 \<circ> snd) (body_fields e')"
    using assms(3,4) by (simp_all add: utf8_event_def)
  note h = string_members_inject[OF fields_names(1) utf8(1,2) eq]
  note s = member_decimal_inject[OF conjunct2[OF h]]
  note b = string_members_inject[OF fields_names(2) utf8(3,4) conjunct2[OF s]]
  note at = member_time_inject[OF t conjunct2[OF b]]
  show ?thesis using h s b at by (intro normalize_eqI) (auto simp: word_unat_eq_iff)
qed

text \<open>The signed bytes determine the event: two events whose fields are valid UTF-8 and whose canonical forms are
  the same bytes agree in every field but the two zeroed slots, and in their instant up to the microsecond.\<close>

theorem canonical_bytes_determine_event:
  assumes "Canonical e = Inr bytes" and "Canonical e' = Inr bytes" and "utf8_event e" and "utf8_event e'"
  shows "e' = e\<lparr>ae_Signature := ae_Signature e', ae_EventHash := ae_EventHash e', ae_SignedAt := ae_SignedAt e'\<rparr>
     \<and> ae_SignedAt e div 1000 = ae_SignedAt e' div 1000"
proof -
  have eq: "normalize e = normalize e'" using canonical_inject[OF assms] .
  then have "ae_SignedAt (normalize e) = ae_SignedAt (normalize e')" by simp
  then have "ae_SignedAt e - ae_SignedAt e mod 1000 = ae_SignedAt e' - ae_SignedAt e' mod 1000"
    by (simp add: normalize_def truncate_to_def canonicalTimePrecision_def)
  then have "ae_SignedAt e div 1000 = ae_SignedAt e' div 1000" by (simp add: minus_mod_eq_mult_div)
  with eq show ?thesis by (cases e; cases e') (simp add: normalize_def)
qed

definition ex_event :: Event where
  "ex_event = \<lparr>ae_ID = ''a1'', ae_TenantRef = ''acme'', ae_TenantSeq = 1, ae_CaseTicketID = [], ae_StepGrantID = [], ae_ActorUserID = ''alice'',
     ae_ConnectorInstanceID = [], ae_ResourceType = ''action'', ae_ResourceID = ''act_1'', ae_Action = ''action.granted'', ae_Decision = ''allow'',
     ae_InputHash = [], ae_OutputHash = [], ae_EvidencePointer = [], ae_StatusFrom = [], ae_Capability = [], ae_ParameterHash = [],
     ae_GrantRef = [], ae_ApprovalEvidenceRef = [], ae_ReceiptRef = [], ae_RiskAuthority = [], ae_AgentClientRef = [],
     ae_AgentReleaseRef = [], ae_OrgSnapshotRef = [], ae_PrevHash = [], ae_SignedAt = 63871200000 * second,
     ae_Signature = no_signature, ae_EventHash = []\<rparr>"

lemma ex_event_canonical: "\<exists>bytes. Canonical ex_event = Inr bytes" and ex_event_utf8: "utf8_event ex_event"
proof -
  have "marshal_time (63871200000 * second) \<noteq> None" by code_simp
  moreover have "truncate_to canonicalTimePrecision (63871200000 * second) = 63871200000 * second" by code_simp
  ultimately show "\<exists>bytes. Canonical ex_event = Inr bytes"
    by (simp add: Canonical_def marshal_event_def normalize_def ex_event_def split: option.splits)
  show "utf8_event ex_event" by code_simp
qed

theorem canonical_bytes_determine_event_witness:
  "ex_event\<lparr>ae_EventHash := ''h''\<rparr> = ex_event\<lparr>ae_Signature := ae_Signature ex_event, ae_EventHash := ''h'', ae_SignedAt := ae_SignedAt ex_event\<rparr>"
proof -
  obtain bytes where bytes: "Canonical ex_event = Inr bytes" using ex_event_canonical by blast
  then have "Canonical (ex_event\<lparr>ae_EventHash := ''h''\<rparr>) = Inr bytes" by (simp add: Canonical_def normalize_def)
  moreover have "utf8_event (ex_event\<lparr>ae_EventHash := ''h''\<rparr>)"
    using ex_event_utf8 by (simp add: utf8_event_def head_fields_def body_fields_def)
  ultimately show ?thesis using canonical_bytes_determine_event[OF bytes _ ex_event_utf8] by simp
qed

subsection \<open>Acceptance, link by link\<close>

text \<open>One accepted link: at its place in the sequence and after its predecessor, harmless, hashed over its own
  canonical bytes, and signed over them by a registered key that is not revoked.\<close>

definition accepted_link :: "ed25519 \<Rightarrow> KeyResolver \<Rightarrow> string \<Rightarrow> 64 word \<Rightarrow> string \<Rightarrow> Event \<Rightarrow> bool" where
  "accepted_link ed keys tenant n prevHash e \<longleftrightarrow>
     ae_TenantRef e = tenant \<and> ae_TenantSeq e = n \<and> ae_PrevHash e = prevHash
     \<and> checkNoRawPayload e = None \<and> \<not> assertsOutcome e
     \<and> as_Algorithm (ae_Signature e) = SignatureAlgorithmEd25519
     \<and> (\<exists>key bytes sig. keys (as_KeyID (ae_Signature e)) = Some key \<and> ak_Status key \<noteq> KeyRevoked
          \<and> ak_Algorithm key = SignatureAlgorithmEd25519 \<and> length (ak_PublicKey key) = 32
          \<and> Canonical e = Inr bytes \<and> ae_EventHash e = digest_prefix @ sha256_hex bytes
          \<and> b64_decode ed (as_Value (ae_Signature e)) = Some sig \<and> ed_verify ed (ak_PublicKey key) bytes sig)"

lemma verifyKeyMaterial_if:
  "verifyKeyMaterial key = (if ak_Algorithm key \<noteq> SignatureAlgorithmEd25519 then Some (Sentinel ErrBadAlgorithm)
     else if length (ak_PublicKey key) \<noteq> 32 then Some (Sentinel ErrMalformed) else None)"
  by (simp add: verifyKeyMaterial_def fail_if_def)

lemma verifySignature_None: "verifySignature ed key bytes v = None \<longleftrightarrow> (\<exists>sig. b64_decode ed v = Some sig \<and> ed_verify ed (ak_PublicKey key) bytes sig)"
  by (auto simp: verifySignature_def split: option.splits)

lemma verifyEvent_None: "verifyEvent ed e n tenant prev keys = None \<longleftrightarrow> accepted_link ed keys tenant n prev e"
proof -
  have alg: "as_Algorithm (ae_Signature e) = SignatureAlgorithmEd25519 \<Longrightarrow> \<not> signature_zero (ae_Signature e)"
    by (auto simp: signature_zero_def no_signature_def SignatureAlgorithmEd25519_def)
  show ?thesis
  proof (cases "Canonical e")
    case (Inl err)
    then show ?thesis by (auto simp: verifyEvent_def accepted_link_def EventHash_def split: option.splits)
  next
    case (Inr bytes)
    then show ?thesis
      using alg by (cases "keys (as_KeyID (ae_Signature e))"; cases "checkNoRawPayload e")
        (auto simp: verifyEvent_def accepted_link_def EventHash_def verifySignature_None verifyKeyMaterial_if)
  qed
qed

definition prev_hash_at :: "string \<Rightarrow> Event list \<Rightarrow> nat \<Rightarrow> string" where
  "prev_hash_at h es i = (if i = 0 then h else ae_EventHash (es ! (i - 1)))"

lemma verify_from_None:
  "verify_from ed keys tenant k h es = None \<longleftrightarrow>
     (\<forall>i < length es. accepted_link ed keys tenant (word_of_nat (k + i + 1)) (prev_hash_at h es i) (es ! i))"
proof (induction es arbitrary: k h)
  case (Cons e es)
  have "(\<forall>i < length (e # es). accepted_link ed keys tenant (word_of_nat (k + i + 1)) (prev_hash_at h (e # es) i) ((e # es) ! i))
    \<longleftrightarrow> accepted_link ed keys tenant (word_of_nat (k + 1)) h e
      \<and> (\<forall>i < length es. accepted_link ed keys tenant (word_of_nat (k + 1 + i + 1)) (prev_hash_at (ae_EventHash e) es i) (es ! i))"
    unfolding length_Cons All_less_Suc2 by (auto simp: prev_hash_at_def nth_Cons' algebra_simps)
  with Cons.IH[of "k + 1" "ae_EventHash e"] verifyEvent_None[of ed e "word_of_nat (k + 1)" tenant h keys] show ?case
    by (cases "verifyEvent ed e (word_of_nat (k + 1)) tenant h keys") (simp_all del: of_nat_Suc of_nat_add)
qed simp

text \<open>C38: A chain is accepted exactly when it is empty, or its tenant is named and every event is an accepted link:
  of that tenant, numbered by its position, naming its predecessor's hash, free of raw payloads and outcome claims,
  carrying the hash of its own canonical bytes and a signature over them by a registered, unrevoked Ed25519 key.\<close>

theorem chain_accepted_iff_every_link:
  "VerifyChain ed es (Some keys) = None \<longleftrightarrow>
     es = [] \<or> ae_TenantRef (hd es) \<noteq> []
       \<and> (\<forall>i < length es. accepted_link ed keys (ae_TenantRef (hd es)) (word_of_nat (i + 1))
            (if i = 0 then [] else ae_EventHash (es ! (i - 1))) (es ! i))"
  by (cases es) (simp_all add: VerifyChain_def verify_from_None[unfolded prev_hash_at_def] del: verify_from.simps of_nat_Suc)

text \<open>A key, its registration, and the example event signed with it.\<close>

definition ex_sk :: string where "ex_sk = replicate 64 CHR ''s''"

lemma ex_sk_honest: "honest_key toy_ed25519 ex_sk"
  using toy_ed25519_honest[of "replicate 32 CHR ''s''"] by (simp add: ex_sk_def flip: replicate_add)

definition ex_key :: SigningKey where
  "ex_key = \<lparr>ak_KeyID = ''k1'', ak_Algorithm = ''ed25519'', ak_PublicKey = replicate 32 CHR ''s'', ak_Status = KeyActive,
     ak_CreatedAt = 1, ak_RevokedAt = 0\<rparr>"

definition ex_keys :: KeyResolver where "ex_keys = NewKeySet [ex_key]"

definition ex_signed :: Event where
  "ex_signed = (case SignEd25519 toy_ed25519 ex_event ''k1'' ex_sk of Inr e \<Rightarrow> e | Inl _ \<Rightarrow> ex_event)"

lemma Canonical_slots [simp]: "Canonical (e\<lparr>ae_EventHash := h, ae_Signature := s\<rparr>) = Canonical e"
  by (simp add: Canonical_def normalize_def)

lemma checks_slots [simp]:
  "checkNoRawPayload (e\<lparr>ae_EventHash := h, ae_Signature := s\<rparr>) = checkNoRawPayload e"
  "assertsOutcome (e\<lparr>ae_EventHash := h, ae_Signature := s\<rparr>) = assertsOutcome e"
  by (simp_all add: checkNoRawPayload_def reference_fields_def assertsOutcome_def)

lemma SignEd25519_Inr:
  assumes "SignEd25519 ed e kid sk = Inr e'"
  obtains bytes where "Canonical e = Inr bytes" and "length sk = 64" and
    "e' = e\<lparr>ae_EventHash := digest_prefix @ sha256_hex bytes, ae_Signature := \<lparr>as_Algorithm = SignatureAlgorithmEd25519,
       as_KeyID = kid, as_Value = b64_encode ed (ed_sign ed sk bytes)\<rparr>\<rparr>"
  using assms by (auto simp: SignEd25519_def EventHash_def split: if_splits sum.splits)

lemma ex_signed: "SignEd25519 toy_ed25519 ex_event ''k1'' ex_sk = Inr ex_signed"
proof -
  obtain bytes where "Canonical ex_event = Inr bytes" using ex_event_canonical by blast
  then show ?thesis by (simp add: ex_signed_def SignEd25519_def EventHash_def ex_sk_def)
qed

lemma signed_link_accepted:
  assumes "honest_key ed sk" and "SignEd25519 ed e kid sk = Inr e'" and "keys kid = Some key"
    and "ak_PublicKey key = ed_public ed sk" and "ak_Algorithm key = SignatureAlgorithmEd25519" and "ak_Status key \<noteq> KeyRevoked"
    and "checkNoRawPayload e = None" and "\<not> assertsOutcome e"
  shows "accepted_link ed keys (ae_TenantRef e) (ae_TenantSeq e) (ae_PrevHash e) e'"
proof -
  obtain bytes where e': "Canonical e = Inr bytes" "length sk = 64"
    "e' = e\<lparr>ae_EventHash := digest_prefix @ sha256_hex bytes, ae_Signature := \<lparr>as_Algorithm = SignatureAlgorithmEd25519,
       as_KeyID = kid, as_Value = b64_encode ed (ed_sign ed sk bytes)\<rparr>\<rparr>"
    using SignEd25519_Inr[OF assms(2)] by blast
  have "checkNoRawPayload e' = None" "\<not> assertsOutcome e'"
    using assms(7,8) by (simp_all add: e'(3))
  with e' assms show ?thesis by (auto simp: accepted_link_def honest_defs)
qed

lemma ex_link: "accepted_link toy_ed25519 ex_keys ''acme'' 1 [] ex_signed" and ex_signed_tenant: "ae_TenantRef ex_signed = ''acme''"
proof -
  have "checkNoRawPayload ex_event = None" "\<not> assertsOutcome ex_event" by code_simp+
  from signed_link_accepted[OF ex_sk_honest ex_signed _ _ _ _ this, of ex_keys ex_key]
  show "accepted_link toy_ed25519 ex_keys ''acme'' 1 [] ex_signed"
    by (simp add: ex_keys_def NewKeySet_def ex_key_def toy_ed25519_def ex_sk_def SignatureAlgorithmEd25519_def ex_event_def)
  then show "ae_TenantRef ex_signed = ''acme''" by (simp add: accepted_link_def)
qed

theorem chain_accepted_iff_every_link_witness:
  "VerifyChain toy_ed25519 [ex_signed] (Some ex_keys) = None"
  unfolding chain_accepted_iff_every_link using ex_link by (simp add: ex_signed_tenant)

lemma chain_links: "VerifyChain ed es (Some keys) = None \<Longrightarrow> i < length es \<Longrightarrow>
    accepted_link ed keys (ae_TenantRef (hd es)) (word_of_nat (i + 1)) (prev_hash_at [] es i) (es ! i)"
  by (cases es) (auto simp: VerifyChain_def verify_from_None simp del: verify_from.simps of_nat_Suc split: if_splits)

lemma chain_linksI: "ae_TenantRef (hd es) \<noteq> [] \<Longrightarrow>
    (\<And>i. i < length es \<Longrightarrow> accepted_link ed keys (ae_TenantRef (hd es)) (word_of_nat (i + 1)) (prev_hash_at [] es i) (es ! i))
    \<Longrightarrow> VerifyChain ed es (Some keys) = None"
  by (cases es) (auto simp: VerifyChain_def verify_from_None simp del: verify_from.simps of_nat_Suc)

lemma ex_chain: "VerifyChain toy_ed25519 [ex_signed] (Some ex_keys) = None"
  by (rule chain_linksI) (use ex_link in \<open>simp_all add: ex_signed_tenant prev_hash_at_def\<close>)

subsection \<open>Appending\<close>

text \<open>Signing extends a verified chain: an event that names the chain's tenant, the next sequence number and the
  head's hash, carries no raw payload and no outcome claim, and is signed with a registered active key, is verified
  as the new head of the chain.\<close>

theorem signed_append_verifies:
  assumes "honest_key ed sk" and "VerifyChain ed es (Some keys) = None" and "es \<noteq> []"
    and "SignEd25519 ed e kid sk = Inr e'" and "keys kid = Some key"
    and "ak_PublicKey key = ed_public ed sk" and "ak_Algorithm key = SignatureAlgorithmEd25519" and "ak_Status key \<noteq> KeyRevoked"
    and "ae_TenantRef e = ae_TenantRef (hd es)" and "ae_TenantSeq e = word_of_nat (length es + 1)"
    and "ae_PrevHash e = ae_EventHash (last es)" and "checkNoRawPayload e = None" and "\<not> assertsOutcome e"
  shows "VerifyChain ed (es @ [e']) (Some keys) = None"
proof (rule chain_linksI)
  show "ae_TenantRef (hd (es @ [e'])) \<noteq> []" using assms(2,3) by (cases es) (auto simp: VerifyChain_def split: if_splits)
  fix i assume i: "i < length (es @ [e'])"
  have hd: "hd (es @ [e']) = hd es" using assms(3) by simp
  show "accepted_link ed keys (ae_TenantRef (hd (es @ [e']))) (word_of_nat (i + 1)) (prev_hash_at [] (es @ [e']) i) ((es @ [e']) ! i)"
  proof (cases "i < length es")
    case True
    then have "prev_hash_at [] (es @ [e']) i = prev_hash_at [] es i" by (auto simp: prev_hash_at_def nth_append)
    with chain_links[OF assms(2) True] True show ?thesis unfolding hd by (simp add: nth_append)
  next
    case False
    with i have "i = length es" by simp
    moreover have "prev_hash_at [] (es @ [e']) (length es) = ae_EventHash (last es)"
      using assms(3) by (simp add: prev_hash_at_def nth_append last_conv_nth)
    ultimately show ?thesis
      using signed_link_accepted[where keys = keys, OF assms(1,4,5,6,7,8,12,13)] assms(9-11) unfolding hd by simp
  qed
qed

lemma digest_harmless: "length (digest_prefix @ sha256_hex b) \<le> maxReferenceBytes" "\<not> hasControlBytes (digest_prefix @ sha256_hex b)"
proof -
  show "length (digest_prefix @ sha256_hex b) \<le> maxReferenceBytes" by (simp only: length_digest maxReferenceBytes_def)
  have "\<not> hasControlBytes (sha256_hex b)"
    using hex_encode_lower_hex[of "sha256 b"] by (auto simp: hasControlBytes_def sha256_hex_def list_ex_iff list_all_iff is_lower_hex_def is_digit_def)
  moreover have "\<not> hasControlBytes digest_prefix" by code_simp
  ultimately show "\<not> hasControlBytes (digest_prefix @ sha256_hex b)" by (simp add: hasControlBytes_def)
qed

definition ex_next :: Event where
  "ex_next = ex_event\<lparr>ae_TenantSeq := 2, ae_PrevHash := ae_EventHash ex_signed\<rparr>"

lemma ex_next_harmless: "checkNoRawPayload ex_next = None" "\<not> assertsOutcome ex_next"
proof -
  obtain b where "ae_EventHash ex_signed = digest_prefix @ sha256_hex b"
    using SignEd25519_Inr[OF ex_signed] by (metis Event.select_convs(28) Event.surjective Event.update_convs(28) Event.update_convs(27) Event.select_convs(28))
  moreover have "checkNoRawPayload (ex_event\<lparr>ae_TenantSeq := 2\<rparr>) = None" "\<not> assertsOutcome (ex_event\<lparr>ae_TenantSeq := 2\<rparr>)" by code_simp+
  ultimately show "checkNoRawPayload ex_next = None" "\<not> assertsOutcome ex_next"
    using digest_harmless[of b]
    by (simp_all add: ex_next_def checkNoRawPayload_def reference_fields_def assertsOutcome_def not_less del: length_append split: if_splits)
qed

theorem signed_append_verifies_witness:
  "\<exists>e'. SignEd25519 toy_ed25519 ex_next ''k1'' ex_sk = Inr e' \<and> VerifyChain toy_ed25519 ([ex_signed] @ [e']) (Some ex_keys) = None"
proof -
  have "marshal_time (63871200000 * second) \<noteq> None" by code_simp
  moreover have "truncate_to canonicalTimePrecision (63871200000 * second) = 63871200000 * second" by code_simp
  ultimately obtain bytes where "Canonical ex_next = Inr bytes"
    by (auto simp: Canonical_def marshal_event_def normalize_def ex_next_def ex_event_def split: option.splits)
  then obtain e' where e': "SignEd25519 toy_ed25519 ex_next ''k1'' ex_sk = Inr e'" by (simp add: SignEd25519_def EventHash_def ex_sk_def)
  have "VerifyChain toy_ed25519 ([ex_signed] @ [e']) (Some ex_keys) = None"
    by (rule signed_append_verifies[OF ex_sk_honest ex_chain _ e', of ex_key])
      (use ex_next_harmless in \<open>simp_all add: ex_keys_def NewKeySet_def ex_key_def toy_ed25519_def ex_sk_def SignatureAlgorithmEd25519_def
        ex_signed_tenant\<close>, simp_all add: ex_next_def, simp_all add: ex_event_def)
  with e' show ?thesis by blast
qed

subsection \<open>The head commits to the history\<close>

lemma utf8_slots [simp]: "utf8_event (e\<lparr>ae_EventHash := h, ae_Signature := s\<rparr>) = utf8_event e"
  by (simp add: utf8_event_def head_fields_def body_fields_def)

definition canonical_bytes :: "Event list \<Rightarrow> string set" where
  "canonical_bytes es = {b. \<exists>e \<in> set es. Canonical e = Inr b}"

lemma same_hash_same_content:
  assumes "accepted_link ed keys t n h e" and "accepted_link ed' keys' t' n' h' e'" and "ae_EventHash e = ae_EventHash e'"
    and "utf8_event e" "utf8_event e'" and "e \<in> set es" "e' \<in> set es'"
  shows "normalize e = normalize e' \<or> collides (canonical_bytes es \<union> canonical_bytes es')"
proof -
  obtain b b' where b: "Canonical e = Inr b" "ae_EventHash e = digest_prefix @ sha256_hex b"
    "Canonical e' = Inr b'" "ae_EventHash e' = digest_prefix @ sha256_hex b'"
    using assms(1,2) by (auto simp: accepted_link_def)
  then have "sha256_hex b = sha256_hex b'" using assms(3) by simp
  moreover have "b \<in> canonical_bytes es \<union> canonical_bytes es'" "b' \<in> canonical_bytes es \<union> canonical_bytes es'"
    using b(1,3) assms(6,7) by (auto simp: canonical_bytes_def)
  ultimately have "b = b' \<or> collides (canonical_bytes es \<union> canonical_bytes es')" by (rule same_digest)
  then show ?thesis using canonical_inject[OF b(1) _ assms(4,5)] b(3) by auto
qed

lemma seq_inject: "word_of_nat (i + 1) = (word_of_nat (j + 1) :: 64 word) \<Longrightarrow> i < 2 ^ 64 - 1 \<Longrightarrow> j < 2 ^ 64 - 1 \<Longrightarrow> i = j"
  by (simp add: word_of_nat_eq_iff take_bit_nat_eq_self del: of_nat_Suc of_nat_add)

lemma less_pred: "i < n \<Longrightarrow> n < k \<Longrightarrow> i < k - (1::nat)"
  by arith

text \<open>C36: the head's hash commits to the whole history: two accepted chains with one head hash have the same length and
  the same content event by event, unless two different canonical forms among theirs collide under SHA-256, provided every
  string field of their events is valid UTF-8 (Go's encoder replaces invalid bytes, so that \<open>invalid_utf8_mutation_undetected\<close>
  holds without the proviso) and the chains are shorter than 2 to the 64. Content is an event without its own hash and signature
  slots and with its time cut to microseconds. So no event below a trusted head can be altered, removed, inserted or moved.\<close>

theorem head_hash_commits_to_history:
  assumes "VerifyChain ed es (Some keys) = None" and "VerifyChain ed' es' (Some keys') = None"
    and "es \<noteq> []" "es' \<noteq> []" and "ae_EventHash (last es) = ae_EventHash (last es')"
    and "\<forall>e \<in> set es \<union> set es'. utf8_event e" and "length es < 2 ^ 64" "length es' < 2 ^ 64"
  shows "map normalize es = map normalize es' \<or> collides (canonical_bytes es \<union> canonical_bytes es')"
proof (rule disjCI)
  assume nocol: "\<not> collides (canonical_bytes es \<union> canonical_bytes es')"
  have same: "normalize (es ! i) = normalize (es' ! j)" if "i < length es" "j < length es'" "ae_EventHash (es ! i) = ae_EventHash (es' ! j)" for i j
    using same_hash_same_content[OF chain_links[OF assms(1) that(1)] chain_links[OF assms(2) that(2)] that(3), of es es'] nocol assms(6) that
    by auto
  have seqs: "ae_TenantSeq (es ! i) = word_of_nat (i + 1)" if "i < length es" for i
    using chain_links[OF assms(1) that] by (simp add: accepted_link_def)
  have seqs': "ae_TenantSeq (es' ! i) = word_of_nat (i + 1)" if "i < length es'" for i
    using chain_links[OF assms(2) that] by (simp add: accepted_link_def)
  let ?n = "length es - 1" and ?m = "length es' - 1"
  have nm: "?n < length es" "?m < length es'" using assms(3,4) by auto
  have "normalize (es ! ?n) = normalize (es' ! ?m)" using same[OF nm] assms(3-5) by (simp add: last_conv_nth)
  then have "ae_TenantSeq (es ! ?n) = ae_TenantSeq (es' ! ?m)" by (metis normalize_fields(3))
  then have "?n = ?m" using seqs[OF nm(1)] seqs'[OF nm(2)] assms(7,8) nm by (intro seq_inject) auto
  then have len: "length es = length es'" using nm by linarith
  have "normalize (es ! (?n - d)) = normalize (es' ! (?n - d))" if "d \<le> ?n" for d
    using that
  proof (induction d)
    case 0
    show ?case using \<open>normalize (es ! ?n) = normalize (es' ! ?m)\<close> len by simp
  next
    case (Suc d)
    let ?i = "?n - d"
    have i: "0 < ?i" "?i < length es" "?i < length es'" using Suc.prems len nm by auto
    have "ae_PrevHash (es ! ?i) = ae_PrevHash (es' ! ?i)" using Suc by (metis Suc_leD normalize_fields(4))
    then have "ae_EventHash (es ! (?i - 1)) = ae_EventHash (es' ! (?i - 1))"
      using chain_links[OF assms(1) i(2)] chain_links[OF assms(2) i(3)] i(1) by (simp add: accepted_link_def prev_hash_at_def)
    with same[of "?i - 1" "?i - 1"] i show ?case by (simp add: less_imp_diff_less)
  qed
  note down = this
  have "normalize (es ! i) = normalize (es' ! i)" if "i < length es" for i
  proof -
    have "?n - (?n - i) = i" using that by linarith
    with down[of "?n - i"] show ?thesis by (metis diff_le_self)
  qed
  with len show "map normalize es = map normalize es'" by (auto intro: nth_equalityI)
qed

lemma ex_signed_utf8: "utf8_event ex_signed"
proof -
  obtain b where "ex_signed = ex_event\<lparr>ae_EventHash := digest_prefix @ sha256_hex b, ae_Signature :=
      \<lparr>as_Algorithm = SignatureAlgorithmEd25519, as_KeyID = ''k1'', as_Value = b64_encode toy_ed25519 (ed_sign toy_ed25519 ex_sk b)\<rparr>\<rparr>"
    using SignEd25519_Inr[OF ex_signed] by blast
  then show ?thesis using ex_event_utf8 utf8_slots by metis
qed

theorem head_hash_commits_to_history_witness:
  "map normalize [ex_signed] = map normalize [ex_signed] \<or> collides (canonical_bytes [ex_signed] \<union> canonical_bytes [ex_signed])"
  by (rule head_hash_commits_to_history[OF ex_chain ex_chain]) (use ex_signed_utf8 in simp_all)

subsection \<open>Deletion, insertion, reordering\<close>

text \<open>Of the events of an accepted chain, the only selections and rearrangements that are accepted again are its
  prefixes: dropping an inner event, repeating one or moving one is rejected. Cutting the tail is not, which is what
  signed checkpoints are for.\<close>

theorem only_prefixes_of_a_chain_verify:
  assumes "VerifyChain ed es (Some keys) = None" and "VerifyChain ed ys (Some keys) = None" and "set ys \<subseteq> set es"
    and "length es < 2 ^ 64" and "length ys < 2 ^ 64"
  shows "ys = take (length ys) es"
proof -
  have at: "i < length es \<and> ys ! i = es ! i" if "i < length ys" for i
  proof -
    have "ys ! i \<in> set es" using assms(3) nth_mem[OF that] by blast
    then obtain j where j: "j < length es" "ys ! i = es ! j" by (metis in_set_conv_nth)
    have "ae_TenantSeq (es ! j) = word_of_nat (j + 1)" using chain_links[OF assms(1) j(1)] unfolding accepted_link_def by blast
    moreover have "ae_TenantSeq (ys ! i) = word_of_nat (i + 1)" using chain_links[OF assms(2) that] unfolding accepted_link_def by blast
    ultimately have "word_of_nat (i + 1) = (word_of_nat (j + 1) :: 64 word)" unfolding j(2) by (rule trans[OF sym, rotated])
    moreover have "i < 2 ^ 64 - 1" by (rule less_pred[OF that assms(5)])
    moreover have "j < 2 ^ 64 - 1" by (rule less_pred[OF j(1) assms(4)])
    ultimately have "i = j" by (rule seq_inject)
    show ?thesis using j unfolding \<open>i = j\<close> by (rule conjI)
  qed
  have le: "length ys \<le> length es"
  proof (rule ccontr)
    assume "\<not> length ys \<le> length es"
    then have "length es < length ys" by simp
    from at[OF this] show False by simp
  qed
  show ?thesis
  proof (rule nth_equalityI)
    show "length ys = length (take (length ys) es)" using le by simp
    fix i assume i: "i < length ys"
    then show "ys ! i = take (length ys) es ! i" using at[OF i] by simp
  qed
qed

theorem only_prefixes_of_a_chain_verify_witness: "[ex_signed] = take (length [ex_signed]) [ex_signed]"
  by (rule only_prefixes_of_a_chain_verify[OF ex_chain ex_chain]) simp_all

lemma truncated_chain_accepted:
  assumes "VerifyChain ed es (Some keys) = None"
  shows "VerifyChain ed (take n es) (Some keys) = None"
proof (cases "take n es")
  case (Cons e rest)
  then have hd: "hd (take n es) = hd es" "es \<noteq> []" by (cases es; cases n; simp)+
  show ?thesis
  proof (rule chain_linksI)
    show "ae_TenantRef (hd (take n es)) \<noteq> []" using assms hd by (cases es) (auto simp: VerifyChain_def split: if_splits)
    fix i assume i: "i < length (take n es)"
    then have "prev_hash_at [] (take n es) i = prev_hash_at [] es i" by (cases i) (simp_all add: prev_hash_at_def)
    with chain_links[OF assms, of i] i hd(1)
    show "accepted_link ed keys (ae_TenantRef (hd (take n es))) (word_of_nat (i + 1)) (prev_hash_at [] (take n es) i) (take n es ! i)"
      by simp
  qed
next
  case Nil
  show ?thesis unfolding VerifyChain_def Nil by simp
qed

text \<open>Every prefix of an accepted chain is accepted: the chain alone cannot show that its tail was cut.\<close>

theorem truncated_chain_verifies:
  assumes "VerifyChain ed es (Some keys) = None"
  shows "VerifyChain ed (take n es) (Some keys) = None"
  by (rule truncated_chain_accepted[OF assms])

theorem truncated_chain_verifies_witness: "VerifyChain toy_ed25519 (take 1 [ex_signed]) (Some ex_keys) = None"
  by (rule truncated_chain_verifies[OF ex_chain])

subsection \<open>Bytes outside UTF-8\<close>

text \<open>A change inside invalid UTF-8 goes unnoticed: \<open>json.Marshal\<close> writes the same replacement for every invalid byte,
  so replacing a resource id consisting of the byte \<open>0xFF\<close> by \<open>0xFE\<close> changes neither the canonical bytes nor the
  verdict on any chain around the event.\<close>

theorem invalid_utf8_mutation_undetected:
  "Canonical (e\<lparr>ae_ResourceID := [CHR 0xFF]\<rparr>) = Canonical (e\<lparr>ae_ResourceID := [CHR 0xFE]\<rparr>)
   \<and> VerifyChain ed (xs @ e\<lparr>ae_ResourceID := [CHR 0xFF]\<rparr> # ys) resolver
     = VerifyChain ed (xs @ e\<lparr>ae_ResourceID := [CHR 0xFE]\<rparr> # ys) resolver"
proof -
  let ?a = "e\<lparr>ae_ResourceID := [CHR 0xFF]\<rparr>" and ?b = "e\<lparr>ae_ResourceID := [CHR 0xFE]\<rparr>"
  have same: "quote [CHR 0xFF] = quote [CHR 0xFE]" by code_simp
  have head: "string_members (head_fields (normalize ?a)) = string_members (head_fields (normalize ?b))"
    by (simp add: head_fields_def normalize_def)
  have body: "string_members (body_fields (normalize ?a)) = string_members (body_fields (normalize ?b))"
    by (simp add: body_fields_def normalize_def same member_def del: quote_def)
  have rest: "ae_TenantSeq (normalize ?a) = ae_TenantSeq (normalize ?b)" "ae_SignedAt (normalize ?a) = ae_SignedAt (normalize ?b)"
    "ae_EventHash (normalize ?a) = ae_EventHash (normalize ?b)"
    "ae_Signature (normalize ?a) = ae_Signature (normalize ?b)"
    by (simp_all add: normalize_def)
  have can: "Canonical ?a = Canonical ?b"
    unfolding Canonical_def marshal_event_def head body rest ..
  have ctl: "hasControlBytes [CHR 0xFF] = False" "hasControlBytes [CHR 0xFE] = False" by code_simp+
  have tok: "list_ex (contains (lower_for_tokens [CHR 0xFF])) outcomeTokens = False"
    "list_ex (contains (lower_for_tokens [CHR 0xFE])) outcomeTokens = False"
    "graphToken (lower_for_tokens [CHR 0xFF]) = False" "graphToken (lower_for_tokens [CHR 0xFE]) = False" by code_simp+
  have "checkNoRawPayload ?a = checkNoRawPayload ?b"
    by (simp add: checkNoRawPayload_def reference_fields_def ctl)
  moreover have "assertsOutcome ?a = assertsOutcome ?b"
    by (simp add: assertsOutcome_def Let_def tok del: lower_for_tokens.simps)
  ultimately have ev: "verifyEvent ed ?a n t h keys = verifyEvent ed ?b n t h keys" for n t h keys
    using can unfolding verifyEvent_def EventHash_def by (simp cong: option.case_cong sum.case_cong if_cong)
  have "verify_from ed keys t i h (xs @ ?a # ys) = verify_from ed keys t i h (xs @ ?b # ys)" for keys t i h
    using ev by (induction xs arbitrary: i h) (auto split: option.split)
  with can show ?thesis by (cases xs) (auto simp: VerifyChain_def simp del: verify_from.simps split: option.split)
qed

end
