(* ===== verification/AuditBundle.thy ===== *)
theory AuditBundle
  imports AuditLaws
begin

text \<open>
  \<^verbatim>\<open>sdk/go/audit/bundle.go\<close>: the offline verification package of a chain: batch root, package, the local batch
  signer, assembly and verification against a caller's trust anchor. A nil interface or function is \<open>None\<close>. The JSON
  transport of a package (\<open>MarshalBundle\<close>, \<open>UnmarshalBundle\<close>) is left out. The laws: an honest package verifies, an
  accepted one is anchored, and its signed root commits to the content of its events.
\<close>

definition BundleVersion :: string where "BundleVersion = ''agentnexus-audit-bundle/v1''"

record BatchRoot =
  ab_TenantRef :: string
  ab_FirstSeq :: "64 word"
  ab_LastSeq :: "64 word"
  ab_EventCount :: int
  ab_RootHash :: string
  ab_SignedAt :: time
  ab_Signature :: AuditSignature

text \<open>The members \<open>tenant_ref\<close>, \<open>first_seq\<close>, \<open>last_seq\<close>, \<open>event_count\<close>, \<open>root_hash\<close>, \<open>signed_at\<close>, \<open>signature\<close>, in
  declaration order.\<close>

definition marshal_batch :: "BatchRoot \<Rightarrow> string option" where
  "marshal_batch b =
     (case marshal_time (ab_SignedAt b) of None \<Rightarrow> None | Some at \<Rightarrow>
      Some (''{'' @ member ''tenant_ref'' (quote (ab_TenantRef b)) @ member ''first_seq'' (decimal (unat (ab_FirstSeq b)))
        @ member ''last_seq'' (decimal (unat (ab_LastSeq b))) @ member ''event_count'' (decimal_int (ab_EventCount b))
        @ member ''root_hash'' (quote (ab_RootHash b)) @ member ''signed_at'' (CHR 0x22 # at @ [CHR 0x22])
        @ quote ''signature'' @ '':'' @ marshal_signature (ab_Signature b) @ ''}''))"

definition canonicalBatch :: "BatchRoot \<Rightarrow> audit_go_error + string" where
  "canonicalBatch b =
     (case marshal_batch (b\<lparr>ab_Signature := no_signature, ab_SignedAt := truncate_to canonicalTimePrecision (ab_SignedAt b)\<rparr>) of
        None \<Rightarrow> Inl (Message ''Time.MarshalJSON: year outside of range [0,9999]'') | Some bytes \<Rightarrow> Inr bytes)"

definition CanonicalBatchRoot :: "BatchRoot \<Rightarrow> audit_go_error + string" where
  "CanonicalBatchRoot b = canonicalBatch b"

record Bundle =
  bd_Version :: string
  bd_TenantRef :: string
  bd_Events :: "Event list"
  bd_Keys :: "SigningKey list"
  bd_Batch :: BatchRoot
  bd_Witnesses :: "MerkleWitness list"

definition eventHashes :: "Event list \<Rightarrow> string list" where
  "eventHashes events = map ae_EventHash events"

type_synonym BatchSigner = "string \<Rightarrow> audit_go_error + AuditSignature"

definition Ed25519Signer :: "ed25519 \<Rightarrow> string \<Rightarrow> string \<Rightarrow> BatchSigner" where
  "Ed25519Signer ed keyID key = (\<lambda>bytes.
     if keyID = [] \<or> length key \<noteq> 64
     then Inl (Joined [Sentinel ErrMalformed, Message ''ed25519 batch signer needs a key id and key''])
     else Inr \<lparr>as_Algorithm = SignatureAlgorithmEd25519, as_KeyID = keyID, as_Value = b64_encode ed (ed_sign ed key bytes)\<rparr>)"

subsection \<open>Assembly\<close>

text \<open>The loop that builds the witnesses from index \<open>i\<close> on, the first failure aborting it.\<close>

fun witnesses_from :: "string list \<Rightarrow> nat \<Rightarrow> Event list \<Rightarrow> audit_go_error + MerkleWitness list" where
  "witnesses_from hashes i [] = Inr []"
| "witnesses_from hashes i (e # es) =
     (case MerkleProof hashes (int i) of Inl err \<Rightarrow> Inl err | Inr w \<Rightarrow>
      case witnesses_from hashes (i + 1) es of Inl err \<Rightarrow> Inl err | Inr ws \<Rightarrow> Inr (w # ws))"

definition batch_of :: "string \<Rightarrow> Event list \<Rightarrow> string \<Rightarrow> BatchRoot" where
  "batch_of tenant events root =
     \<lparr>ab_TenantRef = tenant, ab_FirstSeq = ae_TenantSeq (hd events), ab_LastSeq = ae_TenantSeq (last events),
      ab_EventCount = int (length events), ab_RootHash = root, ab_SignedAt = ae_SignedAt (last events),
      ab_Signature = no_signature\<rparr>"

definition BuildBundle ::
  "string \<Rightarrow> Event list \<Rightarrow> SigningKey list \<Rightarrow> BatchSigner option \<Rightarrow> audit_go_error + Bundle" where
  "BuildBundle tenant events keys signer =
     (if tenant = [] \<or> events = [] then Inl (Joined [Sentinel ErrMalformed, Message ''bundle needs a tenant and at least one event''])
      else case signer of None \<Rightarrow> Inl (Joined [Sentinel ErrMalformed, Message ''bundle needs a batch signer'']) | Some sign \<Rightarrow>
      let hashes = eventHashes events in
      case MerkleRoot hashes of Inl err \<Rightarrow> Inl err | Inr root \<Rightarrow>
      case witnesses_from hashes 0 events of Inl err \<Rightarrow> Inl err | Inr witnesses \<Rightarrow>
      let batch = batch_of tenant events root in
      case canonicalBatch batch of Inl err \<Rightarrow> Inl err | Inr bytes \<Rightarrow>
      case sign bytes of Inl err \<Rightarrow> Inl err | Inr signature \<Rightarrow>
      if signature_zero signature \<or> as_Algorithm signature \<noteq> SignatureAlgorithmEd25519
      then Inl (Joined [Sentinel ErrMalformed, Message ''batch signer returned an invalid signature''])
      else Inr \<lparr>bd_Version = BundleVersion, bd_TenantRef = tenant, bd_Events = events, bd_Keys = keys,
                bd_Batch = batch\<lparr>ab_Signature := signature\<rparr>, bd_Witnesses = witnesses\<rparr>)"

subsection \<open>Verification\<close>

definition anchoredResolver :: "KeyResolver \<Rightarrow> string set \<Rightarrow> KeyResolver" where
  "anchoredResolver trusted revoked keyID =
     (case trusted keyID of None \<Rightarrow> None
      | Some key \<Rightarrow> Some (if keyID \<in> revoked then key\<lparr>ak_Status := KeyRevoked\<rparr> else key))"

definition VerifyBatchRoot :: "ed25519 \<Rightarrow> BatchRoot \<Rightarrow> KeyResolver option \<Rightarrow> audit_go_error option" where
  "VerifyBatchRoot ed b resolver =
     (case resolver of None \<Rightarrow> Some (Joined [Sentinel ErrMalformed, Message ''batch root needs a trust anchor'']) | Some trusted \<Rightarrow>
      if signature_zero (ab_Signature b) then Some (Sentinel ErrUnsigned)
      else if as_Algorithm (ab_Signature b) \<noteq> SignatureAlgorithmEd25519 then Some (Sentinel ErrBadAlgorithm)
      else case trusted (as_KeyID (ab_Signature b)) of None \<Rightarrow> Some (Sentinel ErrUnknownKey) | Some key \<Rightarrow>
      if ak_Status key = KeyRevoked then Some (Sentinel ErrRevokedKey)
      else case verifyKeyMaterial key of Some err \<Rightarrow> Some err | None \<Rightarrow>
      case canonicalBatch b of Inl err \<Rightarrow> Some err | Inr bytes \<Rightarrow>
      case b64_decode ed (as_Value (ab_Signature b)) of None \<Rightarrow> Some (Sentinel ErrBadSignature) | Some sig \<Rightarrow>
      fail_if (\<not> ed_verify ed (ak_PublicKey key) bytes sig) (Sentinel ErrBadSignature))"

text \<open>The loop over the package's own keys: the revoked key ids, or the first key that is malformed or differs from
  the anchor.\<close>

fun bundle_revocations :: "KeyResolver \<Rightarrow> SigningKey list \<Rightarrow> string set \<Rightarrow> audit_go_error + string set" where
  "bundle_revocations trusted [] revoked = Inr revoked"
| "bundle_revocations trusted (key # keys) revoked =
     (case verifyKeyMaterial key of Some err \<Rightarrow> Inl (Joined [err, Message (ak_KeyID key)]) | None \<Rightarrow>
      if (case trusted (ak_KeyID key) of Some anchor \<Rightarrow> ak_PublicKey anchor \<noteq> ak_PublicKey key | None \<Rightarrow> False)
      then Inl (Sentinel ErrUntrustedKey)
      else bundle_revocations trusted keys (if ak_Status key = KeyRevoked then insert (ak_KeyID key) revoked else revoked))"

definition VerifyBundle :: "ed25519 \<Rightarrow> Bundle \<Rightarrow> KeyResolver option \<Rightarrow> audit_go_error option" where
  "VerifyBundle ed b anchor =
     (case anchor of None \<Rightarrow> Some (Sentinel ErrMalformed) | Some trusted \<Rightarrow>
      if bd_Version b \<noteq> BundleVersion then Some (Sentinel ErrMalformed)
      else if bd_Events b = [] then Some (Sentinel ErrMalformed)
      else case bundle_revocations trusted (bd_Keys b) {} of Inl err \<Rightarrow> Some err | Inr revoked \<Rightarrow>
      let effective = anchoredResolver trusted revoked in
      case VerifyChain ed (bd_Events b) (Some effective) of Some err \<Rightarrow> Some err | None \<Rightarrow>
      if bd_TenantRef b \<noteq> ae_TenantRef (hd (bd_Events b)) then Some (Sentinel ErrTenantSplice)
      else let hashes = eventHashes (bd_Events b) in
      case MerkleRoot hashes of Inl err \<Rightarrow> Some err | Inr root \<Rightarrow>
      if root \<noteq> ab_RootHash (bd_Batch b) then Some (Sentinel ErrHashMismatch)
      else if length (bd_Witnesses b) \<noteq> length (bd_Events b) then Some (Sentinel ErrMalformed)
      else if \<not> list_all (\<lambda>(h, w). VerifyMerkleProof h root w) (zip hashes (bd_Witnesses b)) then Some (Sentinel ErrChainBroken)
      else if ab_TenantRef (bd_Batch b) \<noteq> bd_TenantRef b \<or> ab_FirstSeq (bd_Batch b) \<noteq> ae_TenantSeq (hd (bd_Events b))
          \<or> ab_LastSeq (bd_Batch b) \<noteq> ae_TenantSeq (last (bd_Events b)) \<or> ab_EventCount (bd_Batch b) \<noteq> int (length (bd_Events b))
      then Some (Sentinel ErrSequence)
      else VerifyBatchRoot ed (bd_Batch b) (Some effective))"

subsection \<open>Honest packages verify\<close>

lemma witnesses_from_verify:
  assumes "MerkleRoot hashes = Inr root"
  shows "i + length es = length hashes \<Longrightarrow> \<exists>ws. witnesses_from hashes i es = Inr ws \<and> length ws = length es
    \<and> list_all (\<lambda>(h, w). VerifyMerkleProof h root w) (zip (drop i hashes) ws)"
proof (induction es arbitrary: i)
  case (Cons e es)
  obtain ws where ws: "witnesses_from hashes (i + 1) es = Inr ws" "length ws = length es"
    "list_all (\<lambda>(h, w). VerifyMerkleProof h root w) (zip (drop (i + 1) hashes) ws)"
    using Cons.IH[of "i + 1"] Cons.prems by auto
  have i: "0 \<le> int i" "int i < int (length hashes)" using Cons.prems by auto
  obtain w where w: "MerkleProof hashes (int i) = Inr w" "VerifyMerkleProof (hashes ! i) root w"
    using i proof_loop_root[of i "map leafDigest hashes"] assms by (auto simp: MerkleProof_def MerkleRoot_def VerifyMerkleProof_def split: if_splits)
  have "drop i hashes = hashes ! i # drop (i + 1) hashes" using i by (simp add: Cons_nth_drop_Suc)
  with ws w show ?case by simp
qed simp

lemma bundle_revocations_none:
  "(\<forall>key \<in> set keys. verifyKeyMaterial key = None \<and> ak_Status key \<noteq> KeyRevoked
      \<and> (\<forall>anchor. trusted (ak_KeyID key) = Some anchor \<longrightarrow> ak_PublicKey anchor = ak_PublicKey key))
    \<Longrightarrow> bundle_revocations trusted keys r = Inr r"
proof (induction keys)
  case (Cons key keys)
  have IH: "bundle_revocations trusted keys r = Inr r" by (rule Cons.IH) (meson Cons.prems list.set_intros(2))
  have key: "verifyKeyMaterial key = None" "ak_Status key \<noteq> KeyRevoked"
    and anchor: "\<And>anchor. trusted (ak_KeyID key) = Some anchor \<Longrightarrow> ak_PublicKey anchor = ak_PublicKey key"
    using Cons.prems by (meson list.set_intros(1))+
  have "\<not> (case trusted (ak_KeyID key) of Some anchor \<Rightarrow> ak_PublicKey anchor \<noteq> ak_PublicKey key | None \<Rightarrow> False)"
    using anchor by (cases "trusted (ak_KeyID key)") simp_all
  with IH key show ?case by simp
qed simp

lemma anchoredResolver_nothing [simp]: "anchoredResolver trusted {} = trusted"
  by (auto simp: anchoredResolver_def fun_eq_iff split: option.split)

text \<open>What the assembly of a package relies on: a signer answers with an Ed25519 signature under its key id that the
  public half of its key verifies. The contract is stated once; the local signer is an instance.\<close>

locale batch_signer =
  fixes sign_with :: "ed25519 \<Rightarrow> string \<Rightarrow> string \<Rightarrow> BatchSigner"
  assumes signature_verifies: "honest_key ed sk \<Longrightarrow> sign_with ed kid sk bytes = Inr s \<Longrightarrow>
    as_Algorithm s = SignatureAlgorithmEd25519 \<and> as_KeyID s = kid \<and> length sk = 64
    \<and> (\<exists>sig. b64_decode ed (as_Value s) = Some sig \<and> ed_verify ed (ed_public ed sk) bytes sig)"
begin

lemma signed_root_verifies:
  assumes "honest_key ed sk" and "canonicalBatch b = Inr bytes" and "sign_with ed kid sk bytes = Inr s"
    and "keys kid = Some key" and "ak_PublicKey key = ed_public ed sk"
    and "ak_Algorithm key = SignatureAlgorithmEd25519" and "ak_Status key \<noteq> KeyRevoked"
  shows "VerifyBatchRoot ed (b\<lparr>ab_Signature := s\<rparr>) (Some keys) = None"
proof -
  have "canonicalBatch (b\<lparr>ab_Signature := s\<rparr>) = Inr bytes" using assms(2) by (simp add: canonicalBatch_def)
  moreover have "length (ak_PublicKey key) = 32" using assms(1,5) signature_verifies[OF assms(1,3)] by (simp add: honest_defs)
  moreover have "\<not> signature_zero s"
    using signature_verifies[OF assms(1,3)] by (auto simp: signature_zero_def no_signature_def SignatureAlgorithmEd25519_def)
  ultimately show ?thesis
    using signature_verifies[OF assms(1,3)] assms(4-7) by (auto simp: VerifyBatchRoot_def verifyKeyMaterial_if fail_if_def)
qed

lemma built_bundle_accepted:
  assumes "honest_key ed sk" and "VerifyChain ed es (Some trusted) = None"
    and "BuildBundle (ae_TenantRef (hd es)) es keys (Some (sign_with ed kid sk)) = Inr b"
    and "\<forall>key \<in> set keys. verifyKeyMaterial key = None \<and> ak_Status key \<noteq> KeyRevoked
      \<and> (\<forall>anchor. trusted (ak_KeyID key) = Some anchor \<longrightarrow> ak_PublicKey anchor = ak_PublicKey key)"
    and "trusted kid = Some key" and "ak_PublicKey key = ed_public ed sk"
    and "ak_Algorithm key = SignatureAlgorithmEd25519" and "ak_Status key \<noteq> KeyRevoked"
  shows "VerifyBundle ed b (Some trusted) = None"
proof -
  let ?t = "ae_TenantRef (hd es)"
  obtain root ws bytes s where r: "es \<noteq> []" "MerkleRoot (eventHashes es) = Inr root" "witnesses_from (eventHashes es) 0 es = Inr ws"
    and c: "canonicalBatch (batch_of ?t es root) = Inr bytes" and s: "sign_with ed kid sk bytes = Inr s"
    and b: "b = \<lparr>bd_Version = BundleVersion, bd_TenantRef = ?t, bd_Events = es, bd_Keys = keys,
                bd_Batch = batch_of ?t es root\<lparr>ab_Signature := s\<rparr>, bd_Witnesses = ws\<rparr>"
    using assms(3) by (auto simp: BuildBundle_def Let_def split: if_splits sum.splits)
  have ws: "length ws = length es" "list_all (\<lambda>(h, w). VerifyMerkleProof h root w) (zip (eventHashes es) ws)"
    using witnesses_from_verify[OF r(2), of 0 es] r(3) by (auto simp: eventHashes_def)
  have "VerifyBatchRoot ed (batch_of ?t es root\<lparr>ab_Signature := s\<rparr>) (Some trusted) = None"
    by (rule signed_root_verifies[where keys = trusted, OF assms(1) c s assms(5-8)])
  then show ?thesis
    using r ws assms(2) bundle_revocations_none[OF assms(4), of "{}"]
    by (simp add: b VerifyBundle_def Let_def batch_of_def)
qed

end

interpretation local_signer: batch_signer Ed25519Signer
proof
  fix ed kid sk bytes s
  assume "honest_key ed sk" and "Ed25519Signer ed kid sk bytes = Inr s"
  then show "as_Algorithm s = SignatureAlgorithmEd25519 \<and> as_KeyID s = kid \<and> length sk = 64
    \<and> (\<exists>sig. b64_decode ed (as_Value s) = Some sig \<and> ed_verify ed (ed_public ed sk) bytes sig)"
    by (auto simp: Ed25519Signer_def honest_defs split: if_splits)
qed

definition ex_bundle :: Bundle where
  "ex_bundle = (case BuildBundle ''acme'' [ex_signed] [ex_key] (Some (Ed25519Signer toy_ed25519 ''k1'' ex_sk)) of Inr b \<Rightarrow> b)"

lemma ex_bundle_built: "BuildBundle ''acme'' [ex_signed] [ex_key] (Some (Ed25519Signer toy_ed25519 ''k1'' ex_sk)) = Inr ex_bundle"
proof -
  have time: "ae_SignedAt ex_signed = 63871200000 * second"
  proof -
    obtain bytes where "ex_signed = ex_event\<lparr>ae_EventHash := digest_prefix @ sha256_hex bytes, ae_Signature :=
        \<lparr>as_Algorithm = SignatureAlgorithmEd25519, as_KeyID = ''k1'', as_Value = b64_encode toy_ed25519 (ed_sign toy_ed25519 ex_sk bytes)\<rparr>\<rparr>"
      using SignEd25519_Inr[OF ex_signed] by blast
    then have "ae_SignedAt ex_signed = ae_SignedAt ex_event" by (elim ssubst) simp
    then show ?thesis by (simp add: ex_event_def)
  qed
  have "marshal_time (63871200000 * second) \<noteq> None" by code_simp
  moreover have "truncate_to canonicalTimePrecision (63871200000 * second) = 63871200000 * second" by code_simp
  ultimately obtain bytes where bytes: "canonicalBatch (batch_of ''acme'' [ex_signed] (leafDigest (ae_EventHash ex_signed))) = Inr bytes"
    by (auto simp: canonicalBatch_def marshal_batch_def batch_of_def time)
  have root: "MerkleRoot [ae_EventHash ex_signed] = Inr (leafDigest (ae_EventHash ex_signed))"
    by (simp add: MerkleRoot_def root_loop.simps)
  have proof0: "MerkleProof [ae_EventHash ex_signed] 0 = Inr \<lparr>mw_LeafIndex = 0, mw_Siblings = []\<rparr>"
    by (simp add: MerkleProof_def proof_loop.simps)
  have "\<exists>b. BuildBundle ''acme'' [ex_signed] [ex_key] (Some (Ed25519Signer toy_ed25519 ''k1'' ex_sk)) = Inr b"
    using bytes by (simp add: BuildBundle_def eventHashes_def root proof0 Let_def Ed25519Signer_def ex_sk_def signature_zero_def no_signature_def)
  then show ?thesis unfolding ex_bundle_def by auto
qed

lemma ex_key_material: "verifyKeyMaterial ex_key = None" "ak_Status ex_key \<noteq> KeyRevoked" "ak_KeyID ex_key = ''k1''"
  "ak_PublicKey ex_key = ed_public toy_ed25519 ex_sk" "ak_Algorithm ex_key = SignatureAlgorithmEd25519" "ex_keys ''k1'' = Some ex_key"
  by (simp_all add: verifyKeyMaterial_if ex_key_def SignatureAlgorithmEd25519_def toy_ed25519_def ex_sk_def ex_keys_def NewKeySet_def)

lemma ex_bundle_hyps:
  "BuildBundle (ae_TenantRef (hd [ex_signed])) [ex_signed] [ex_key] (Some (Ed25519Signer toy_ed25519 ''k1'' ex_sk)) = Inr ex_bundle"
  "\<forall>key \<in> set [ex_key]. verifyKeyMaterial key = None \<and> ak_Status key \<noteq> KeyRevoked
      \<and> (\<forall>anchor. ex_keys (ak_KeyID key) = Some anchor \<longrightarrow> ak_PublicKey anchor = ak_PublicKey key)"
  using ex_bundle_built ex_key_material by (simp_all add: ex_signed_tenant)

lemma ex_bundle_verifies: "VerifyBundle toy_ed25519 ex_bundle (Some ex_keys) = None"
  by (rule local_signer.built_bundle_accepted[OF ex_sk_honest ex_chain ex_bundle_hyps ex_key_material(6,4,5,2)])

text \<open>Packages built from a verified chain verify: if the chain verifies against the anchor, the listed keys are
  well-formed, unrevoked and agree with the anchor, and the batch is signed by the local signer with an anchored active
  key, then whatever \<open>BuildBundle\<close> returns passes \<open>VerifyBundle\<close> against that anchor.\<close>

theorem built_bundle_verifies:
  assumes "honest_key ed sk" and "VerifyChain ed es (Some trusted) = None"
    and "BuildBundle (ae_TenantRef (hd es)) es keys (Some (Ed25519Signer ed kid sk)) = Inr b"
    and "\<forall>key \<in> set keys. verifyKeyMaterial key = None \<and> ak_Status key \<noteq> KeyRevoked
      \<and> (\<forall>anchor. trusted (ak_KeyID key) = Some anchor \<longrightarrow> ak_PublicKey anchor = ak_PublicKey key)"
    and "trusted kid = Some key" and "ak_PublicKey key = ed_public ed sk"
    and "ak_Algorithm key = SignatureAlgorithmEd25519" and "ak_Status key \<noteq> KeyRevoked"
  shows "VerifyBundle ed b (Some trusted) = None"
  by (rule local_signer.built_bundle_accepted[OF assms])

theorem built_bundle_verifies_witness: "VerifyBundle toy_ed25519 ex_bundle (Some ex_keys) = None"
  by (rule built_bundle_verifies[OF ex_sk_honest ex_chain ex_bundle_hyps ex_key_material(6,4,5,2)])

subsection \<open>Accepted packages are anchored\<close>

lemma accepted_link_anchored:
  "accepted_link ed (anchoredResolver trusted revoked) t n h e \<longleftrightarrow>
     accepted_link ed trusted t n h e \<and> as_KeyID (ae_Signature e) \<notin> revoked"
  by (auto simp: accepted_link_def anchoredResolver_def split: option.splits if_splits)

lemma chain_links_iff: "es \<noteq> [] \<Longrightarrow> VerifyChain ed es (Some keys) = None \<longleftrightarrow> ae_TenantRef (hd es) \<noteq> []
    \<and> (\<forall>i < length es. accepted_link ed keys (ae_TenantRef (hd es)) (word_of_nat (i + 1)) (prev_hash_at [] es i) (es ! i))"
  by (cases es) (auto simp: VerifyChain_def verify_from_None simp del: verify_from.simps of_nat_Suc)

lemma chain_anchored:
  assumes "VerifyChain ed es (Some (anchoredResolver trusted revoked)) = None"
  shows "VerifyChain ed es (Some trusted) = None" and "\<forall>e \<in> set es. as_KeyID (ae_Signature e) \<notin> revoked"
proof -
  show "VerifyChain ed es (Some trusted) = None"
  proof (cases "es = []")
    case False
    with assms show ?thesis by (simp add: chain_links_iff accepted_link_anchored)
  qed (simp add: VerifyChain_def)
  show "\<forall>e \<in> set es. as_KeyID (ae_Signature e) \<notin> revoked"
    using assms by (cases "es = []") (auto simp: chain_links_iff accepted_link_anchored in_set_conv_nth)
qed

lemma batch_root_anchored:
  "VerifyBatchRoot ed b (Some (anchoredResolver trusted revoked)) = None \<longleftrightarrow>
     VerifyBatchRoot ed b (Some trusted) = None \<and> as_KeyID (ab_Signature b) \<notin> revoked"
  by (auto simp: VerifyBatchRoot_def anchoredResolver_def verifyKeyMaterial_if split: option.splits sum.splits)

lemma bundle_revocations_covers:
  "bundle_revocations trusted keys r = Inr revoked \<Longrightarrow> r \<subseteq> revoked \<and> (\<forall>key \<in> set keys. ak_Status key = KeyRevoked \<longrightarrow> ak_KeyID key \<in> revoked)"
  by (induction keys arbitrary: r) (fastforce split: option.splits if_splits)+

lemma VerifyBundle_None:
  assumes "VerifyBundle ed b (Some trusted) = None"
  obtains revoked root where "bd_Events b \<noteq> []" and "bundle_revocations trusted (bd_Keys b) {} = Inr revoked"
    and "VerifyChain ed (bd_Events b) (Some (anchoredResolver trusted revoked)) = None"
    and "bd_TenantRef b = ae_TenantRef (hd (bd_Events b))" and "ab_TenantRef (bd_Batch b) = bd_TenantRef b"
    and "MerkleRoot (eventHashes (bd_Events b)) = Inr (ab_RootHash (bd_Batch b))"
    and "ab_EventCount (bd_Batch b) = int (length (bd_Events b))"
    and "VerifyBatchRoot ed (bd_Batch b) (Some (anchoredResolver trusted revoked)) = None"
  using assms by (auto simp: VerifyBundle_def Let_def split: if_splits sum.splits option.splits)

text \<open>C39: the anchor is the only root of trust: a package accepted against an anchor has a chain and a signed batch root
  that verify against the anchor alone, covers exactly its events, and uses no key that its own key list reports
  revoked. So the embedded keys can withdraw trust and never add any.\<close>

theorem accepted_bundle_is_anchored:
  assumes "VerifyBundle ed b (Some trusted) = None"
  shows "bd_Events b \<noteq> [] \<and> VerifyChain ed (bd_Events b) (Some trusted) = None
    \<and> bd_TenantRef b = ae_TenantRef (hd (bd_Events b)) \<and> ab_TenantRef (bd_Batch b) = bd_TenantRef b
    \<and> VerifyBatchRoot ed (bd_Batch b) (Some trusted) = None
    \<and> MerkleRoot (eventHashes (bd_Events b)) = Inr (ab_RootHash (bd_Batch b))
    \<and> ab_EventCount (bd_Batch b) = int (length (bd_Events b))
    \<and> (\<forall>key \<in> set (bd_Keys b). ak_Status key = KeyRevoked \<longrightarrow>
         as_KeyID (ab_Signature (bd_Batch b)) \<noteq> ak_KeyID key \<and> (\<forall>e \<in> set (bd_Events b). as_KeyID (ae_Signature e) \<noteq> ak_KeyID key))"
proof -
  obtain revoked where r: "bd_Events b \<noteq> []" "bundle_revocations trusted (bd_Keys b) {} = Inr revoked"
    and c: "VerifyChain ed (bd_Events b) (Some (anchoredResolver trusted revoked)) = None"
    and t: "bd_TenantRef b = ae_TenantRef (hd (bd_Events b))" "ab_TenantRef (bd_Batch b) = bd_TenantRef b"
      "MerkleRoot (eventHashes (bd_Events b)) = Inr (ab_RootHash (bd_Batch b))" "ab_EventCount (bd_Batch b) = int (length (bd_Events b))"
    and v: "VerifyBatchRoot ed (bd_Batch b) (Some (anchoredResolver trusted revoked)) = None"
    using VerifyBundle_None[OF assms] by blast
  have "\<forall>key \<in> set (bd_Keys b). ak_Status key = KeyRevoked \<longrightarrow> ak_KeyID key \<in> revoked"
    using bundle_revocations_covers[OF r(2)] by blast
  with r t chain_anchored[OF c] v[unfolded batch_root_anchored] show ?thesis by metis
qed

theorem accepted_bundle_is_anchored_witness:
  "VerifyBatchRoot toy_ed25519 (bd_Batch ex_bundle) (Some ex_keys) = None"
  using accepted_bundle_is_anchored[OF ex_bundle_verifies] by blast

lemma bundle_anchored:
  assumes "VerifyBundle ed b (Some trusted) = None"
  shows "VerifyChain ed (bd_Events b) (Some trusted) = None"
    and "MerkleRoot (eventHashes (bd_Events b)) = Inr (ab_RootHash (bd_Batch b))"
  using VerifyBundle_None[OF assms] chain_anchored(1) by metis+

text \<open>A signed root pins the content: two accepted packages with the same root hash, all of whose string fields are valid
  UTF-8, carry the same events, an event being taken without its own hash and signature slots and with its time cut to
  microseconds, whatever anchors accepted them, or two of the strings hashed for them collide under SHA-256.\<close>

theorem signed_root_pins_events:
  assumes "VerifyBundle ed b (Some trusted) = None" and "VerifyBundle ed' b' (Some trusted') = None"
    and "ab_RootHash (bd_Batch b) = ab_RootHash (bd_Batch b')"
    and "\<forall>e \<in> set (bd_Events b) \<union> set (bd_Events b'). utf8_event e"
  shows "map normalize (bd_Events b) = map normalize (bd_Events b')
    \<or> collides (hashed (tree_of (eventHashes (bd_Events b))) \<union> hashed (tree_of (eventHashes (bd_Events b'))))
    \<or> collides (canonical_bytes (bd_Events b) \<union> canonical_bytes (bd_Events b'))"
proof -
  let ?es = "bd_Events b" and ?es' = "bd_Events b'"
  have chain: "VerifyChain ed ?es (Some trusted) = None" "VerifyChain ed' ?es' (Some trusted') = None"
    and root: "MerkleRoot (eventHashes ?es) = Inr (ab_RootHash (bd_Batch b))" "MerkleRoot (eventHashes ?es') = Inr (ab_RootHash (bd_Batch b))"
    using bundle_anchored[OF assms(1)] bundle_anchored[OF assms(2)] assms(3) by simp_all
  have "eventHashes ?es = eventHashes ?es' \<or> collides (hashed (tree_of (eventHashes ?es)) \<union> hashed (tree_of (eventHashes ?es')))"
  proof -
    have ne: "eventHashes ?es \<noteq> []" "eventHashes ?es' \<noteq> []" using root by (auto simp: MerkleRoot_def)
    then have "digest_of (tree_of (eventHashes ?es)) = digest_of (tree_of (eventHashes ?es'))" using root digest_tree_of by fastforce
    then show ?thesis using digest_of_inject leaves_tree_of ne by metis
  qed
  then show ?thesis
  proof
    assume "eventHashes ?es = eventHashes ?es'"
    then have len: "length ?es = length ?es'" and hash: "\<And>i. i < length ?es \<Longrightarrow> ae_EventHash (?es ! i) = ae_EventHash (?es' ! i)"
      by (metis eventHashes_def length_map) (metis eventHashes_def nth_map length_map \<open>eventHashes ?es = eventHashes ?es'\<close>)
    have "normalize (?es ! i) = normalize (?es' ! i) \<or> collides (canonical_bytes ?es \<union> canonical_bytes ?es')" if "i < length ?es" for i
    proof (rule same_hash_same_content[OF chain_links[OF chain(1) that] chain_links[OF chain(2)] hash[OF that]])
      show "i < length ?es'" using that len by simp
      show "utf8_event (?es ! i)" "utf8_event (?es' ! i)" using assms(4) that len by auto
      show "?es ! i \<in> set ?es" "?es' ! i \<in> set ?es'" using that len by auto
    qed
    then have "map normalize ?es = map normalize ?es' \<or> collides (canonical_bytes ?es \<union> canonical_bytes ?es')"
      using len by (auto simp: list_eq_iff_nth_eq)
    then show ?thesis by blast
  qed blast
qed

lemma BuildBundle_events: "BuildBundle tenant es keys signer = Inr b \<Longrightarrow> bd_Events b = es"
  by (auto simp: BuildBundle_def Let_def split: if_splits sum.splits option.splits)

theorem signed_root_pins_events_witness:
  "map normalize (bd_Events ex_bundle) = map normalize (bd_Events ex_bundle)
    \<or> collides (hashed (tree_of (eventHashes (bd_Events ex_bundle))) \<union> hashed (tree_of (eventHashes (bd_Events ex_bundle))))
    \<or> collides (canonical_bytes (bd_Events ex_bundle) \<union> canonical_bytes (bd_Events ex_bundle))"
proof (rule signed_root_pins_events[OF ex_bundle_verifies ex_bundle_verifies refl])
  have "bd_Events ex_bundle = [ex_signed]"
    using ex_bundle_built by (rule BuildBundle_events)
  then show "\<forall>e \<in> set (bd_Events ex_bundle) \<union> set (bd_Events ex_bundle). utf8_event e"
    using ex_signed_utf8 by simp
qed

subsection \<open>Two domains under one key\<close>

lemma member_id: "member ''id'' v = CHR 0x22 # ''id'' @ CHR 0x22 # '':'' @ v @ '',''"
  and member_tenant: "member ''tenant_ref'' v = CHR 0x22 # ''tenant_ref'' @ CHR 0x22 # '':'' @ v @ '',''"
proof -
  have "quote ''id'' = CHR 0x22 # ''id'' @ [CHR 0x22]" "quote ''tenant_ref'' = CHR 0x22 # ''tenant_ref'' @ [CHR 0x22]" by code_simp+
  then show "member ''id'' v = CHR 0x22 # ''id'' @ CHR 0x22 # '':'' @ v @ '',''" 
    and "member ''tenant_ref'' v = CHR 0x22 # ''tenant_ref'' @ CHR 0x22 # '':'' @ v @ '',''" by (simp_all add: member_def)
qed

text \<open>One key signs events and batch roots, but a signature of one never counts as the other: the two kinds of
  canonical bytes are disjoint.\<close>

theorem batch_and_event_bytes_disjoint:
  assumes "canonicalBatch b = Inr bytes" shows "Canonical e \<noteq> Inr bytes"
proof
  assume "Canonical e = Inr bytes"
  then have "take 4 bytes = ''{'' @ CHR 0x22 # ''id''"
    by (auto simp: Canonical_def marshal_event_def head_fields_def member_id split: option.splits)
  moreover have "take 4 bytes = ''{'' @ CHR 0x22 # ''te''"
    using assms by (auto simp: canonicalBatch_def marshal_batch_def member_tenant split: option.splits)
  ultimately show False by simp
qed

theorem batch_and_event_bytes_disjoint_witness: "\<forall>bytes. canonicalBatch (bd_Batch ex_bundle) = Inr bytes \<longrightarrow> Canonical ex_signed \<noteq> Inr bytes"
  using batch_and_event_bytes_disjoint by blast

end
