(* ===== verification/AuditLedger.thy ===== *)
theory AuditLedger
  imports AuditBundle RuntimeTypes
begin

text \<open>
  \<^verbatim>\<open>services/agentnexus/internal/audit\<close>: the durable audit row, its projection onto the shared event of
  \<^verbatim>\<open>sdk/go/audit\<close>, the hash layer, the signing port with its local signer, signed-chain verification, truncation
  detection and the verification package. \<open>ComputeHash\<close> panics where the canonical form does not exist, so what calls it
  either panics or returns. The signing port (a KMS behind it is not part of the repository) is a function of the bytes
  to sign; a nil port is \<open>None\<close>; the logger of \<open>SignEvent\<close> is left out.
\<close>

datatype 'a run = Panics | Returns 'a

subsection \<open>Rows\<close>

record EventInput =
  ai_ID :: string
  ai_EnterpriseID :: string
  ai_CaseTicketID :: string
  ai_StepGrantID :: string
  ai_ActorUserID :: string
  ai_ConnectorInstanceID :: string
  ai_ResourceType :: string
  ai_ResourceID :: string
  ai_Action :: string
  ai_Decision :: string
  ai_InputHash :: string
  ai_OutputHash :: string
  ai_EvidencePointer :: string
  ai_StatusFrom :: string
  ai_Capability :: string
  ai_ParameterHash :: string
  ai_GrantRef :: string
  ai_ApprovalEvidenceRef :: string
  ai_ReceiptRef :: string
  ai_RiskAuthority :: string
  ai_AgentClientRef :: string
  ai_AgentReleaseRef :: string
  ai_OrgSnapshotRef :: string

record EventRow =
  al_ID :: string
  al_EnterpriseID :: string
  al_CaseTicketID :: string
  al_StepGrantID :: string
  al_ActorUserID :: string
  al_ConnectorInstanceID :: string
  al_ResourceType :: string
  al_ResourceID :: string
  al_Action :: string
  al_Decision :: string
  al_InputHash :: string
  al_OutputHash :: string
  al_EvidencePointer :: string
  al_StatusFrom :: string
  al_Capability :: string
  al_ParameterHash :: string
  al_GrantRef :: string
  al_ApprovalEvidenceRef :: string
  al_ReceiptRef :: string
  al_RiskAuthority :: string
  al_AgentClientRef :: string
  al_AgentReleaseRef :: string
  al_OrgSnapshotRef :: string
  al_PrevHash :: string
  al_EventHash :: string
  al_CreatedAt :: time
  al_TenantSeq :: "64 word"
  al_SignedAt :: time
  al_Signature :: Signature

definition newEvent :: "EventInput \<Rightarrow> string \<Rightarrow> EventRow" where
  "newEvent i prevHash =
     \<lparr>al_ID = ai_ID i, al_EnterpriseID = ai_EnterpriseID i, al_CaseTicketID = ai_CaseTicketID i,
      al_StepGrantID = ai_StepGrantID i, al_ActorUserID = ai_ActorUserID i,
      al_ConnectorInstanceID = ai_ConnectorInstanceID i, al_ResourceType = ai_ResourceType i,
      al_ResourceID = ai_ResourceID i, al_Action = ai_Action i, al_Decision = ai_Decision i,
      al_InputHash = ai_InputHash i, al_OutputHash = ai_OutputHash i, al_EvidencePointer = ai_EvidencePointer i,
      al_StatusFrom = ai_StatusFrom i, al_Capability = ai_Capability i, al_ParameterHash = ai_ParameterHash i,
      al_GrantRef = ai_GrantRef i, al_ApprovalEvidenceRef = ai_ApprovalEvidenceRef i,
      al_ReceiptRef = ai_ReceiptRef i, al_RiskAuthority = ai_RiskAuthority i,
      al_AgentClientRef = ai_AgentClientRef i, al_AgentReleaseRef = ai_AgentReleaseRef i,
      al_OrgSnapshotRef = ai_OrgSnapshotRef i, al_PrevHash = prevHash, al_EventHash = [], al_CreatedAt = 0,
      al_TenantSeq = 0, al_SignedAt = 0, al_Signature = zero_signature\<rparr>"

definition toSDK :: "EventRow \<Rightarrow> Event" where
  "toSDK e =
     \<lparr>ae_ID = al_ID e, ae_TenantRef = al_EnterpriseID e, ae_TenantSeq = al_TenantSeq e,
      ae_CaseTicketID = al_CaseTicketID e, ae_StepGrantID = al_StepGrantID e, ae_ActorUserID = al_ActorUserID e,
      ae_ConnectorInstanceID = al_ConnectorInstanceID e, ae_ResourceType = al_ResourceType e,
      ae_ResourceID = al_ResourceID e, ae_Action = al_Action e, ae_Decision = al_Decision e,
      ae_InputHash = al_InputHash e, ae_OutputHash = al_OutputHash e, ae_EvidencePointer = al_EvidencePointer e,
      ae_StatusFrom = al_StatusFrom e, ae_Capability = al_Capability e, ae_ParameterHash = al_ParameterHash e,
      ae_GrantRef = al_GrantRef e, ae_ApprovalEvidenceRef = al_ApprovalEvidenceRef e,
      ae_ReceiptRef = al_ReceiptRef e, ae_RiskAuthority = al_RiskAuthority e,
      ae_AgentClientRef = al_AgentClientRef e, ae_AgentReleaseRef = al_AgentReleaseRef e,
      ae_OrgSnapshotRef = al_OrgSnapshotRef e, ae_PrevHash = al_PrevHash e, ae_SignedAt = al_SignedAt e,
      ae_Signature = \<lparr>as_Algorithm = sig_Algorithm (al_Signature e), as_KeyID = sig_KeyID (al_Signature e),
        as_Value = sig_Value (al_Signature e)\<rparr>,
      ae_EventHash = al_EventHash e\<rparr>"

definition CanonicalAuditEvent :: "EventRow \<Rightarrow> audit_go_error + string" where
  "CanonicalAuditEvent e = Canonical (toSDK e)"

definition ComputeHash :: "EventRow \<Rightarrow> string run" where
  "ComputeHash e = (case EventHash (toSDK e) of Inl _ \<Rightarrow> Panics | Inr hash \<Rightarrow> Returns hash)"

definition hashed_row :: "EventRow \<Rightarrow> EventRow run" where
  "hashed_row e = (case ComputeHash e of Panics \<Rightarrow> Panics | Returns hash \<Rightarrow> Returns (e\<lparr>al_EventHash := hash\<rparr>))"

definition NewEvent :: "EventInput \<Rightarrow> string \<Rightarrow> EventRow run" where
  "NewEvent i prevHash = hashed_row (newEvent i prevHash)"

definition NewSignedEvent :: "EventInput \<Rightarrow> string \<Rightarrow> 64 word \<Rightarrow> time \<Rightarrow> EventRow run" where
  "NewSignedEvent i prevHash tenantSeq signedAt =
     hashed_row ((newEvent i prevHash)\<lparr>al_TenantSeq := tenantSeq, al_SignedAt := signedAt\<rparr>)"

subsection \<open>The hash layer\<close>

fun verify_hashes :: "string \<Rightarrow> EventRow list \<Rightarrow> audit_go_error option run" where
  "verify_hashes prev [] = Returns None"
| "verify_hashes prev (e # es) =
     (if al_PrevHash e \<noteq> prev then Returns (Some (Message ''audit event prev_hash mismatch''))
      else case ComputeHash e of Panics \<Rightarrow> Panics | Returns hash \<Rightarrow>
      if hash \<noteq> al_EventHash e then Returns (Some (Message ''audit event hash mismatch''))
      else verify_hashes (al_EventHash e) es)"

definition VerifyHashChain :: "EventRow list \<Rightarrow> audit_go_error option run" where
  "VerifyHashChain events = verify_hashes [] events"

subsection \<open>Signing\<close>

type_synonym AuditSigner = "string \<Rightarrow> audit_go_error + Signature"

record Ed25519AuditSigner =
  eas_keyID :: string
  eas_key :: string

definition NewEd25519AuditSigner :: "string \<Rightarrow> string \<Rightarrow> audit_go_error + Ed25519AuditSigner" where
  "NewEd25519AuditSigner keyID key =
     (if keyID = [] then Inl (Message ''audit signer requires a key id'')
      else if length key \<noteq> 64 then Inl (Message ''audit signer requires exactly ed25519.PrivateKeySize bytes of key material'')
      else Inr \<lparr>eas_keyID = keyID, eas_key = key\<rparr>)"

definition eas_KeyID :: "Ed25519AuditSigner option \<Rightarrow> string" where
  "eas_KeyID s = (case s of None \<Rightarrow> [] | Some s \<Rightarrow> eas_keyID s)"

definition eas_PublicKey :: "ed25519 \<Rightarrow> Ed25519AuditSigner option \<Rightarrow> string" where
  "eas_PublicKey ed s = (case s of None \<Rightarrow> [] | Some s \<Rightarrow> if length (eas_key s) \<noteq> 64 then [] else ed_public ed (eas_key s))"

definition eas_Sign :: "ed25519 \<Rightarrow> Ed25519AuditSigner option \<Rightarrow> AuditSigner" where
  "eas_Sign ed signer = (\<lambda>bytes. case signer of None \<Rightarrow> Inl (Sentinel ErrUnavailable) | Some s \<Rightarrow>
     if eas_keyID s = [] \<or> length (eas_key s) \<noteq> 64 then Inl (Sentinel ErrUnavailable)
     else Inr \<lparr>sig_Algorithm = RuntimeTypes.SignatureAlgorithmEd25519, sig_KeyID = eas_keyID s,
               sig_Value = b64_encode ed (ed_sign ed (eas_key s) bytes)\<rparr>)"

definition SignEvent :: "AuditSigner option \<Rightarrow> EventRow \<Rightarrow> (audit_go_error + EventRow) run" where
  "SignEvent port e =
     (case port of
        None \<Rightarrow> Returns (Inl (Joined [Sentinel ErrUnavailable, Message ''audit signer is not wired; high-risk audit append fails closed'']))
      | Some sign \<Rightarrow>
      case CanonicalAuditEvent e of Inl err \<Rightarrow> Returns (Inl (Joined [Sentinel ErrUnavailable, err])) | Inr bytes \<Rightarrow>
      case sign bytes of Inl err \<Rightarrow> Returns (Inl (Joined [Sentinel ErrUnavailable, err])) | Inr signature \<Rightarrow>
      case Signature_Validate signature of Some err \<Rightarrow> Returns (Inl (Joined [Sentinel ErrUnavailable, Invalid err])) | None \<Rightarrow>
      case hashed_row (e\<lparr>al_Signature := signature\<rparr>) of Panics \<Rightarrow> Panics | Returns row \<Rightarrow> Returns (Inr row))"

subsection \<open>Verification, truncation, export\<close>

definition Verify :: "ed25519 \<Rightarrow> EventRow list \<Rightarrow> KeyResolver option \<Rightarrow> audit_go_error option" where
  "Verify ed events keys = VerifyChain ed (map toSDK events) keys"

definition DetectTruncation :: "int \<Rightarrow> int \<Rightarrow> audit_go_error option" where
  "DetectTruncation headSeq checkpointLastSeq = fail_if (headSeq < checkpointLastSeq) (Sentinel ErrTruncated)"

text \<open>The signer handed to the shared assembly: the port, its signature mapped field by field.\<close>

definition batch_port :: "AuditSigner \<Rightarrow> BatchSigner" where
  "batch_port sign bytes =
     (case sign bytes of Inl err \<Rightarrow> Inl err
      | Inr s \<Rightarrow> Inr \<lparr>as_Algorithm = sig_Algorithm s, as_KeyID = sig_KeyID s, as_Value = sig_Value s\<rparr>)"


definition BuildVerificationPackage ::
  "AuditSigner \<Rightarrow> string \<Rightarrow> EventRow list \<Rightarrow> SigningKey list \<Rightarrow> audit_go_error + Bundle" where
  "BuildVerificationPackage sign tenant events keys = BuildBundle tenant (map toSDK events) keys (Some (batch_port sign))"

definition VerifyPackage :: "ed25519 \<Rightarrow> Bundle \<Rightarrow> KeyResolver option \<Rightarrow> audit_go_error option" where
  "VerifyPackage ed package trusted = VerifyBundle ed package trusted"

definition ValidAction :: "string \<Rightarrow> bool" where
  "ValidAction action \<longleftrightarrow> action \<in> {''workflow_draft_created'', ''workflow_version_published'', ''dream_policy_created'',
     ''dream_policy_create_requested'', ''dream_job_run'', ''retrieval_plan_created'', ''evidence_located'', ''evidence_read'',
     ''answer_trace_created'', ''sensitive_artifact_parsed'', ''visibility_rule_changed''}"

subsection \<open>The port meets the signer contract\<close>

text \<open>The signer a deployment constructs from a key id and key material, as the port the package is signed through.\<close>

definition ledger_port :: "ed25519 \<Rightarrow> string \<Rightarrow> string \<Rightarrow> AuditSigner" where
  "ledger_port ed keyID key =
     (case NewEd25519AuditSigner keyID key of Inl err \<Rightarrow> (\<lambda>_. Inl err) | Inr s \<Rightarrow> eas_Sign ed (Some s))"

lemma ledger_port_Inr:
  assumes "ledger_port ed kid sk bytes = Inr s"
  shows "length sk = 64 \<and> s = \<lparr>sig_Algorithm = AuditChain.SignatureAlgorithmEd25519, sig_KeyID = kid, sig_Value = b64_encode ed (ed_sign ed sk bytes)\<rparr>"
  using assms by (auto simp: ledger_port_def NewEd25519AuditSigner_def eas_Sign_def RuntimeTypes.SignatureAlgorithmEd25519_def
      AuditChain.SignatureAlgorithmEd25519_def split: if_splits)

interpretation durable_signer: batch_signer "\<lambda>ed kid sk. batch_port (ledger_port ed kid sk)"
proof
  fix ed kid sk bytes s
  assume "honest_key ed sk" and "batch_port (ledger_port ed kid sk) bytes = Inr s"
  then show "as_Algorithm s = AuditChain.SignatureAlgorithmEd25519 \<and> as_KeyID s = kid \<and> length sk = 64
    \<and> (\<exists>sig. b64_decode ed (as_Value s) = Some sig \<and> ed_verify ed (ed_public ed sk) bytes sig)"
    by (auto simp: batch_port_def honest_defs split: sum.splits dest!: ledger_port_Inr)
qed

subsection \<open>Signed ledgers\<close>

lemma hashed_row_Returns: "hashed_row e = Returns r \<longleftrightarrow> (\<exists>bytes. Canonical (toSDK e) = Inr bytes \<and> r = e\<lparr>al_EventHash := digest_prefix @ sha256_hex bytes\<rparr>)"
  by (auto simp: hashed_row_def ComputeHash_def EventHash_def split: sum.splits)

lemma Canonical_row_slots [simp]: "Canonical (toSDK (e\<lparr>al_EventHash := h\<rparr>)) = Canonical (toSDK e)"
  "Canonical (toSDK (e\<lparr>al_Signature := s\<rparr>)) = Canonical (toSDK e)"
  by (simp_all add: Canonical_def normalize_def toSDK_def)

text \<open>One append, as the durable path does it: the row continues the chain of the tenant at the next sequence number,
  is hashed, and signed through the port.\<close>

definition signed_append :: "AuditSigner \<Rightarrow> EventRow list \<Rightarrow> EventInput \<Rightarrow> time \<Rightarrow> EventRow option" where
  "signed_append sign rows i at =
     (case NewSignedEvent i (if rows = [] then [] else al_EventHash (last rows)) (word_of_nat (length rows + 1)) at of
        Panics \<Rightarrow> None | Returns e \<Rightarrow>
      case SignEvent (Some sign) e of Returns (Inr row) \<Rightarrow> Some row | _ \<Rightarrow> None)"

inductive signed_ledger :: "AuditSigner \<Rightarrow> string \<Rightarrow> EventRow list \<Rightarrow> bool" for sign tenant where
  empty: "signed_ledger sign tenant []"
| append: "signed_ledger sign tenant rows \<Longrightarrow> signed_append sign rows i at = Some row \<Longrightarrow> ai_EnterpriseID i = tenant
    \<Longrightarrow> signed_ledger sign tenant (rows @ [row])"

text \<open>What the verifier checks of a row besides its link: the append path does not.\<close>

definition clean_row :: "EventRow \<Rightarrow> bool" where
  "clean_row row \<longleftrightarrow> checkNoRawPayload (toSDK row) = None \<and> \<not> assertsOutcome (toSDK row)"

lemma signed_append_Some:
  assumes "signed_append (ledger_port ed kid sk) rows i at = Some row"
  obtains bytes where "Canonical (toSDK row) = Inr bytes" and "length sk = 64" and "al_EnterpriseID row = ai_EnterpriseID i"
    and "al_TenantSeq row = word_of_nat (length rows + 1)" and "al_PrevHash row = (if rows = [] then [] else al_EventHash (last rows))"
    and "al_EventHash row = digest_prefix @ sha256_hex bytes"
    and "al_Signature row = \<lparr>sig_Algorithm = AuditChain.SignatureAlgorithmEd25519, sig_KeyID = kid, sig_Value = b64_encode ed (ed_sign ed sk bytes)\<rparr>"
proof -
  let ?e = "(newEvent i (if rows = [] then [] else al_EventHash (last rows)))\<lparr>al_TenantSeq := word_of_nat (length rows + 1), al_SignedAt := at\<rparr>"
  obtain e where e: "hashed_row ?e = Returns e" and row: "SignEvent (Some (ledger_port ed kid sk)) e = Returns (Inr row)"
    using assms by (auto simp: signed_append_def NewSignedEvent_def split: run.splits sum.splits)
  obtain bytes where b: "Canonical (toSDK ?e) = Inr bytes" "e = ?e\<lparr>al_EventHash := digest_prefix @ sha256_hex bytes\<rparr>"
    using e hashed_row_Returns by blast
  obtain s where s: "ledger_port ed kid sk bytes = Inr s" and h: "hashed_row (e\<lparr>al_Signature := s\<rparr>) = Returns row"
    using row b by (auto simp: SignEvent_def CanonicalAuditEvent_def split: sum.splits option.splits run.splits)
  have row: "row = e\<lparr>al_Signature := s, al_EventHash := digest_prefix @ sha256_hex bytes\<rparr>"
    using h b by (auto simp: hashed_row_Returns)
  have sig: "length sk = 64" "s = \<lparr>sig_Algorithm = AuditChain.SignatureAlgorithmEd25519, sig_KeyID = kid, sig_Value = b64_encode ed (ed_sign ed sk bytes)\<rparr>"
    using ledger_port_Inr[OF s] by blast+
  have new: "al_EnterpriseID (newEvent i h) = ai_EnterpriseID i" "al_PrevHash (newEvent i h) = h" for h
    by (simp_all add: newEvent_def)
  show ?thesis
  proof (rule that[of bytes])
    show "Canonical (toSDK row) = Inr bytes" unfolding row b(2) Canonical_row_slots by (rule b(1))
  qed (use sig in \<open>simp_all add: row b(2) new\<close>)
qed

lemma appended_link:
  assumes "honest_key ed sk" and "signed_append (ledger_port ed kid sk) rows i at = Some row"
    and "trusted kid = Some key" and "ak_PublicKey key = ed_public ed sk"
    and "ak_Algorithm key = AuditChain.SignatureAlgorithmEd25519" and "ak_Status key \<noteq> KeyRevoked"
  shows "accepted_link ed trusted (ai_EnterpriseID i) (word_of_nat (length rows + 1))
    (if rows = [] then [] else al_EventHash (last rows)) (toSDK row) \<longleftrightarrow> clean_row row"
    and "al_PrevHash row = (if rows = [] then [] else al_EventHash (last rows))" and "ComputeHash row = Returns (al_EventHash row)"
    and "al_EnterpriseID row = ai_EnterpriseID i"
proof -
  obtain bytes where row: "Canonical (toSDK row) = Inr bytes" "length sk = 64" "al_EnterpriseID row = ai_EnterpriseID i"
    "al_TenantSeq row = word_of_nat (length rows + 1)" "al_PrevHash row = (if rows = [] then [] else al_EventHash (last rows))"
    "al_EventHash row = digest_prefix @ sha256_hex bytes"
    "al_Signature row = \<lparr>sig_Algorithm = AuditChain.SignatureAlgorithmEd25519, sig_KeyID = kid, sig_Value = b64_encode ed (ed_sign ed sk bytes)\<rparr>"
    using signed_append_Some[OF assms(2)] by blast
  have proj: "ae_TenantRef (toSDK row) = al_EnterpriseID row" "ae_TenantSeq (toSDK row) = al_TenantSeq row"
    "ae_PrevHash (toSDK row) = al_PrevHash row" "ae_EventHash (toSDK row) = al_EventHash row"
    "ae_Signature (toSDK row) = \<lparr>as_Algorithm = sig_Algorithm (al_Signature row), as_KeyID = sig_KeyID (al_Signature row),
        as_Value = sig_Value (al_Signature row)\<rparr>" by (simp_all add: toSDK_def)
  show "accepted_link ed trusted (ai_EnterpriseID i) (word_of_nat (length rows + 1))
    (if rows = [] then [] else al_EventHash (last rows)) (toSDK row) \<longleftrightarrow> clean_row row"
    unfolding accepted_link_def clean_row_def proj using row assms by (auto simp: honest_defs simp del: of_nat_Suc of_nat_add)
  show "al_PrevHash row = (if rows = [] then [] else al_EventHash (last rows))" "al_EnterpriseID row = ai_EnterpriseID i" by (rule row)+
  show "ComputeHash row = Returns (al_EventHash row)" using row(1,6) by (simp add: ComputeHash_def EventHash_def)
qed

lemma signed_ledger_links:
  assumes "signed_ledger (ledger_port ed kid sk) tenant rows" and "honest_key ed sk"
    and "trusted kid = Some key" and "ak_PublicKey key = ed_public ed sk"
    and "ak_Algorithm key = AuditChain.SignatureAlgorithmEd25519" and "ak_Status key \<noteq> KeyRevoked"
  shows "\<forall>j < length rows. (accepted_link ed trusted tenant (word_of_nat (j + 1)) (prev_hash_at [] (map toSDK rows) j) (toSDK (rows ! j))
       \<longleftrightarrow> clean_row (rows ! j))
     \<and> al_PrevHash (rows ! j) = prev_hash_at [] (map toSDK rows) j \<and> ComputeHash (rows ! j) = Returns (al_EventHash (rows ! j))
     \<and> al_EnterpriseID (rows ! j) = tenant"
  using assms(1)
proof induction
  case (append rows i at row)
  have hash: "ae_EventHash (toSDK r) = al_EventHash r" for r by (simp add: toSDK_def)
  show ?case (is "\<forall>j < length (rows @ [row]). ?P j")
  proof (intro allI impI)
    fix j assume j: "j < length (rows @ [row])"
    show "?P j"
    proof (cases "j < length rows")
      case True
      then have "prev_hash_at [] (map toSDK (rows @ [row])) j = prev_hash_at [] (map toSDK rows) j"
        by (auto simp: prev_hash_at_def nth_append)
      with append.IH True show ?thesis by (simp add: nth_append)
    next
      case False
      with j have j: "j = length rows" by simp
      have "prev_hash_at [] (map toSDK (rows @ [row])) (length rows) = (if rows = [] then [] else al_EventHash (last rows))"
        by (simp add: prev_hash_at_def nth_append last_conv_nth hash)
      with appended_link[where trusted = trusted, OF assms(2) append.hyps(2) assms(3-6)] append.hyps(3) show ?thesis unfolding j by simp
    qed
  qed
qed simp

lemma hash_layer_of_links:
  "\<forall>j < length rows. al_PrevHash (rows ! j) = prev_hash_at h (map toSDK rows) j \<and> ComputeHash (rows ! j) = Returns (al_EventHash (rows ! j))
    \<Longrightarrow> verify_hashes h rows = Returns None"
proof (induction rows arbitrary: h)
  case (Cons r rows)
  have r: "al_PrevHash r = h" "ComputeHash r = Returns (al_EventHash r)"
    using Cons.prems[rule_format, of 0] by (simp_all add: prev_hash_at_def)
  have "al_PrevHash (rows ! j) = prev_hash_at (al_EventHash r) (map toSDK rows) j \<and> ComputeHash (rows ! j) = Returns (al_EventHash (rows ! j))"
    if "j < length rows" for j
  proof -
    have "prev_hash_at h (map toSDK (r # rows)) (Suc j) = prev_hash_at (al_EventHash r) (map toSDK rows) j"
      by (cases j) (simp_all add: prev_hash_at_def, simp add: toSDK_def)
    with Cons.prems that show ?thesis by (metis Suc_less_eq length_Cons nth_Cons_Suc)
  qed
  with Cons.IH[of "al_EventHash r"] r show ?case by simp
qed simp

lemma signed_ledger_chain:
  assumes "signed_ledger (ledger_port ed kid sk) tenant rows" and "tenant \<noteq> []" and "honest_key ed sk"
    and "trusted kid = Some key" and "ak_PublicKey key = ed_public ed sk"
    and "ak_Algorithm key = AuditChain.SignatureAlgorithmEd25519" and "ak_Status key \<noteq> KeyRevoked"
  shows "Verify ed rows (Some trusted) = None \<longleftrightarrow> (\<forall>row \<in> set rows. clean_row row)"
    and "rows \<noteq> [] \<Longrightarrow> ae_TenantRef (hd (map toSDK rows)) = tenant"
proof -
  note links = signed_ledger_links[where trusted = trusted, OF assms(1,3-7)]
  show t: "ae_TenantRef (hd (map toSDK rows)) = tenant" if "rows \<noteq> []"
    using links that by (cases rows) (auto simp: toSDK_def)
  show "Verify ed rows (Some trusted) = None \<longleftrightarrow> (\<forall>row \<in> set rows. clean_row row)"
  proof (cases "rows = []")
    case False
    then show ?thesis using links t assms(2) by (simp add: Verify_def chain_links_iff all_set_conv_all_nth)
  qed (simp add: Verify_def VerifyChain_def)
qed

text \<open>C37: the ledger's invariant: from the empty chain on, every row appended for a tenant through the signing port with a
  generated, registered and unrevoked key leaves a chain that the hash layer accepts, and that the signed verifier accepts exactly
  when no row carries a raw payload or asserts an outcome. The append path does not check that: such a row is signed, and the
  verifier rejects the chain from then on.\<close>

theorem signed_ledger_verifies:
  assumes "signed_ledger (ledger_port ed kid sk) tenant rows" and "tenant \<noteq> []" and "honest_key ed sk"
    and "trusted kid = Some key" and "ak_PublicKey key = ed_public ed sk"
    and "ak_Algorithm key = AuditChain.SignatureAlgorithmEd25519" and "ak_Status key \<noteq> KeyRevoked"
  shows "VerifyHashChain rows = Returns None \<and> (Verify ed rows (Some trusted) = None \<longleftrightarrow> (\<forall>row \<in> set rows. clean_row row))"
  using signed_ledger_chain(1)[where trusted = trusted, OF assms] hash_layer_of_links[of rows "[]"]
    signed_ledger_links[where trusted = trusted, OF assms(1,3-7)]
  by (simp add: VerifyHashChain_def)

text \<open>The example event as a durable row.\<close>

definition ex_input :: EventInput where
  "ex_input = \<lparr>ai_ID = ''a1'', ai_EnterpriseID = ''acme'', ai_CaseTicketID = [], ai_StepGrantID = [], ai_ActorUserID = ''alice'',
     ai_ConnectorInstanceID = [], ai_ResourceType = ''action'', ai_ResourceID = ''act_1'', ai_Action = ''action.granted'', ai_Decision = ''allow'',
     ai_InputHash = [], ai_OutputHash = [], ai_EvidencePointer = [], ai_StatusFrom = [], ai_Capability = [], ai_ParameterHash = [],
     ai_GrantRef = [], ai_ApprovalEvidenceRef = [], ai_ReceiptRef = [], ai_RiskAuthority = [], ai_AgentClientRef = [],
     ai_AgentReleaseRef = [], ai_OrgSnapshotRef = []\<rparr>"

lemma ex_ledger: "\<exists>row. signed_ledger (ledger_port toy_ed25519 ''k1'' ex_sk) ''acme'' [row] \<and> al_SignedAt row = 63871200000 * second
    \<and> clean_row row"
proof -
  let ?e = "(newEvent ex_input [])\<lparr>al_TenantSeq := 1, al_SignedAt := 63871200000 * second\<rparr>"
  let ?port = "ledger_port toy_ed25519 ''k1'' ex_sk"
  have sdk: "toSDK ?e = ex_event"
    by (simp add: toSDK_def newEvent_def ex_input_def ex_event_def zero_signature_def no_signature_def)
  obtain bytes where b: "Canonical ex_event = Inr bytes" using ex_event_canonical by blast
  define h where "h = digest_prefix @ sha256_hex bytes"
  define s where "s = \<lparr>sig_Algorithm = RuntimeTypes.SignatureAlgorithmEd25519, sig_KeyID = ''k1'', sig_Value = b64_encode toy_ed25519 (ed_sign toy_ed25519 ex_sk bytes)\<rparr>"
  define row where "row = ?e\<lparr>al_EventHash := h, al_Signature := s\<rparr>"
  have new: "hashed_row ?e = Returns (?e\<lparr>al_EventHash := h\<rparr>)" using b sdk by (simp only: hashed_row_Returns h_def) simp
  have port: "?port bytes = Inr s"
    by (simp add: ledger_port_def NewEd25519AuditSigner_def eas_Sign_def ex_sk_def s_def)
  have val: "Signature_Validate s = None"
    by (simp add: Signature_Validate_def s_def fail_if_def zero_signature_def RuntimeTypes.SignatureAlgorithmEd25519_def toy_ed25519_def)
  have rows: "hashed_row (?e\<lparr>al_EventHash := h\<rparr>\<lparr>al_Signature := s\<rparr>) = Returns row"
    using b sdk by (simp only: hashed_row_Returns Canonical_row_slots h_def row_def) simp
  have can: "CanonicalAuditEvent (?e\<lparr>al_EventHash := h\<rparr>) = Inr bytes"
    unfolding CanonicalAuditEvent_def Canonical_row_slots sdk by (rule b)
  have app: "signed_append ?port [] ex_input (63871200000 * second) = Some row"
    using new can port val rows by (simp add: signed_append_def NewSignedEvent_def SignEvent_def)
  have "toSDK row = ex_event\<lparr>ae_EventHash := h, ae_Signature := \<lparr>as_Algorithm = sig_Algorithm s, as_KeyID = sig_KeyID s, as_Value = sig_Value s\<rparr>\<rparr>"
    unfolding sdk[symmetric] by (simp add: row_def toSDK_def)
  moreover have "checkNoRawPayload ex_event = None" "\<not> assertsOutcome ex_event" by code_simp+
  ultimately have "clean_row row" by (simp add: clean_row_def)
  moreover from signed_ledger.append[OF signed_ledger.empty app] have "signed_ledger ?port ''acme'' [row]"
    by (simp add: ex_input_def)
  moreover have "al_SignedAt row = 63871200000 * second" by (simp add: row_def)
  ultimately show ?thesis by blast
qed

theorem signed_ledger_verifies_witness:
  "\<exists>row. Verify toy_ed25519 [row] (Some ex_keys) = None \<and> VerifyHashChain [row] = Returns None"
proof -
  obtain row where "signed_ledger (ledger_port toy_ed25519 ''k1'' ex_sk) ''acme'' [row]" and "clean_row row" using ex_ledger by blast
  from signed_ledger_verifies[where trusted = ex_keys, OF this(1) _ ex_sk_honest ex_key_material(6,4,5,2)] this(2) show ?thesis by auto
qed

text \<open>Packages of the ledger verify: what \<open>BuildVerificationPackage\<close> returns for a signed ledger of a tenant with
  no raw payload and no outcome claim, its batch signed through the same port, passes \<open>VerifyPackage\<close> against the anchor, whatever well-formed, unrevoked and
  agreeing keys it lists.\<close>

theorem ledger_package_verifies:
  assumes "signed_ledger (ledger_port ed kid sk) tenant rows" and "tenant \<noteq> []" and "honest_key ed sk"
    and "trusted kid = Some key" and "ak_PublicKey key = ed_public ed sk"
    and "ak_Algorithm key = AuditChain.SignatureAlgorithmEd25519" and "ak_Status key \<noteq> KeyRevoked"
    and "BuildVerificationPackage (ledger_port ed kid sk) tenant rows keys = Inr p" and "\<forall>row \<in> set rows. clean_row row"
    and "\<forall>key \<in> set keys. verifyKeyMaterial key = None \<and> ak_Status key \<noteq> KeyRevoked
      \<and> (\<forall>anchor. trusted (ak_KeyID key) = Some anchor \<longrightarrow> ak_PublicKey anchor = ak_PublicKey key)"
  shows "VerifyPackage ed p (Some trusted) = None"
proof -
  have ne: "rows \<noteq> []" using assms(8) by (auto simp: BuildVerificationPackage_def BuildBundle_def)
  have t: "ae_TenantRef (hd (map toSDK rows)) = tenant"
    by (rule signed_ledger_chain(2)[where trusted = trusted, OF assms(1-7) ne])
  have chain: "VerifyChain ed (map toSDK rows) (Some trusted) = None"
    using signed_ledger_chain(1)[where trusted = trusted, OF assms(1-7)] assms(9) by (simp add: Verify_def)
  have "BuildBundle (ae_TenantRef (hd (map toSDK rows))) (map toSDK rows) keys (Some (batch_port (ledger_port ed kid sk))) = Inr p"
    using assms(8) unfolding t BuildVerificationPackage_def .
  then show ?thesis unfolding VerifyPackage_def
    by (rule durable_signer.built_bundle_accepted[where trusted = trusted, OF assms(3) chain _ assms(10) assms(4-7)])
qed

theorem ledger_package_verifies_witness:
  "\<exists>row p. BuildVerificationPackage (ledger_port toy_ed25519 ''k1'' ex_sk) ''acme'' [row] [] = Inr p
     \<and> VerifyPackage toy_ed25519 p (Some ex_keys) = None"
proof -
  let ?port = "ledger_port toy_ed25519 ''k1'' ex_sk"
  obtain row where row: "signed_ledger ?port ''acme'' [row]" and at: "al_SignedAt row = 63871200000 * second" and clean: "clean_row row"
    using ex_ledger by blast
  have "marshal_time (63871200000 * second) \<noteq> None" by code_simp
  moreover have "truncate_to canonicalTimePrecision (63871200000 * second) = 63871200000 * second" by code_simp
  ultimately obtain bytes where bytes: "canonicalBatch (batch_of ''acme'' [toSDK row] (leafDigest (ae_EventHash (toSDK row)))) = Inr bytes"
    by (auto simp: canonicalBatch_def marshal_batch_def batch_of_def toSDK_def at)
  have root: "MerkleRoot [ae_EventHash (toSDK row)] = Inr (leafDigest (ae_EventHash (toSDK row)))"
    by (simp add: MerkleRoot_def root_loop.simps)
  have proof0: "MerkleProof [ae_EventHash (toSDK row)] 0 = Inr \<lparr>mw_LeafIndex = 0, mw_Siblings = []\<rparr>"
    by (simp add: MerkleProof_def proof_loop.simps)
  have port: "batch_port ?port bytes = Inr \<lparr>as_Algorithm = AuditChain.SignatureAlgorithmEd25519, as_KeyID = ''k1'',
      as_Value = b64_encode toy_ed25519 (ed_sign toy_ed25519 ex_sk bytes)\<rparr>"
    by (simp add: batch_port_def ledger_port_def NewEd25519AuditSigner_def eas_Sign_def ex_sk_def
        RuntimeTypes.SignatureAlgorithmEd25519_def AuditChain.SignatureAlgorithmEd25519_def)
  obtain p where p: "BuildVerificationPackage ?port ''acme'' [row] [] = Inr p"
    using bytes by (simp add: BuildVerificationPackage_def BuildBundle_def eventHashes_def root proof0 Let_def port signature_zero_def no_signature_def)
  from ledger_package_verifies[where trusted = ex_keys, OF row _ ex_sk_honest ex_key_material(6,4,5,2) p] clean
  have "VerifyPackage toy_ed25519 p (Some ex_keys) = None" by simp
  with p show ?thesis by blast
qed

subsection \<open>The hash layer alone\<close>

text \<open>The chain anyone can write: every row built by \<open>NewEvent\<close> on the hash of the one before.\<close>

fun unsigned_chain :: "string \<Rightarrow> EventInput list \<Rightarrow> EventRow list run" where
  "unsigned_chain prev [] = Returns []"
| "unsigned_chain prev (i # is) =
     (case NewEvent i prev of Panics \<Rightarrow> Panics | Returns e \<Rightarrow>
      case unsigned_chain (al_EventHash e) is of Panics \<Rightarrow> Panics | Returns es \<Rightarrow> Returns (e # es))"

lemma NewEvent_Returns: "\<exists>e. NewEvent i prev = Returns e \<and> al_PrevHash e = prev \<and> al_EnterpriseID e = ai_EnterpriseID i
    \<and> al_Signature e = zero_signature \<and> ComputeHash e = Returns (al_EventHash e)"
proof -
  have "marshal_time (truncate_to canonicalTimePrecision 0) \<noteq> None" by code_simp
  then obtain bytes where "Canonical (toSDK (newEvent i prev)) = Inr bytes"
    by (auto simp: Canonical_def marshal_event_def normalize_def toSDK_def newEvent_def split: option.splits)
  then have "NewEvent i prev = Returns ((newEvent i prev)\<lparr>al_EventHash := digest_prefix @ sha256_hex bytes\<rparr>)"
    and "ComputeHash ((newEvent i prev)\<lparr>al_EventHash := digest_prefix @ sha256_hex bytes\<rparr>) = Returns (digest_prefix @ sha256_hex bytes)"
    by (simp_all add: NewEvent_def hashed_row_Returns ComputeHash_def EventHash_def)
  then show ?thesis by (auto simp: newEvent_def)
qed

lemma unsigned_chain_hashes: "\<exists>rows. unsigned_chain prev is = Returns rows \<and> length rows = length is \<and> verify_hashes prev rows = Returns None
    \<and> (is \<noteq> [] \<longrightarrow> al_EnterpriseID (hd rows) = ai_EnterpriseID (hd is) \<and> al_Signature (hd rows) = zero_signature)"
proof (induction "is" arbitrary: prev)
  case (Cons i "is")
  obtain e where "NewEvent i prev = Returns e" "al_PrevHash e = prev" "al_EnterpriseID e = ai_EnterpriseID i"
    "al_Signature e = zero_signature" "ComputeHash e = Returns (al_EventHash e)" using NewEvent_Returns by blast
  moreover obtain rows where "unsigned_chain (al_EventHash e) is = Returns rows" "length rows = length is" "verify_hashes (al_EventHash e) rows = Returns None"
    using Cons by blast
  ultimately show ?case by simp
qed simp

text \<open>Hashes alone prove nothing about authorship: for any list of inputs whatever, the unsigned chain exists, never
  panics and passes \<open>VerifyHashChain\<close>, while the signed verifier rejects it as unsigned unless it is empty or names
  no tenant, whatever keys are registered.\<close>

theorem hash_layer_accepts_any_history:
  "\<exists>rows. unsigned_chain [] is = Returns rows \<and> length rows = length is \<and> VerifyHashChain rows = Returns None
     \<and> (is = [] \<or> ai_EnterpriseID (hd is) = [] \<or> (\<exists>err. Verify ed rows (Some keys) = Some err \<and> errors_is err ErrUnsigned))"
proof -
  obtain rows where rows: "unsigned_chain [] is = Returns rows" "length rows = length is" "verify_hashes [] rows = Returns None"
    "is \<noteq> [] \<longrightarrow> al_EnterpriseID (hd rows) = ai_EnterpriseID (hd is) \<and> al_Signature (hd rows) = zero_signature"
    using unsigned_chain_hashes by blast
  have "\<exists>err. Verify ed rows (Some keys) = Some err \<and> errors_is err ErrUnsigned" if ne: "is \<noteq> []" "ai_EnterpriseID (hd is) \<noteq> []"
  proof -
    obtain e es where e: "rows = e # es" using rows(2) ne by (cases rows) auto
    then have "ae_TenantRef (toSDK e) \<noteq> []" "signature_zero (ae_Signature (toSDK e))"
      using rows(4) ne by (simp_all add: toSDK_def zero_signature_def signature_zero_def no_signature_def)
    then show ?thesis by (simp add: e Verify_def VerifyChain_def verifyEvent_def)
  qed
  with rows show ?thesis unfolding VerifyHashChain_def by blast
qed

text \<open>Hashing panics on an instant that RFC 3339 cannot carry: for every input, a row signed in the year 10000 has no
  canonical form, so \<open>NewSignedEvent\<close> panics instead of returning it.\<close>

theorem new_signed_event_panics_after_9999:
  "NewSignedEvent i prevHash n (315537897600 * second) = Panics"
proof -
  have "marshal_time (truncate_to canonicalTimePrecision (315537897600 * second)) = None" by code_simp
  then show ?thesis
    by (simp add: NewSignedEvent_def hashed_row_def ComputeHash_def EventHash_def Canonical_def marshal_event_def normalize_def toSDK_def)
qed

subsection \<open>Truncation\<close>

lemma word_nat_sint: "n < 2 ^ 63 \<Longrightarrow> sint (word_of_nat n :: 64 word) = int n"
  by (simp add: sint_uint uint_nat unat_of_nat signed_take_bit_int_eq_self_iff)

text \<open>A checkpoint catches exactly the cuts below it: of a verified chain of fewer than \<open>2 ^ 63\<close> rows, every
  non-empty prefix still verifies, and comparing its head's sequence number with a checkpoint over the first \<open>k\<close> rows
  reports a truncation exactly when fewer than \<open>k\<close> rows are left.\<close>

theorem checkpoint_detects_cut_tail:
  assumes "Verify ed rows (Some trusted) = None" and "length rows < 2 ^ 63" and "0 < n" and "n \<le> length rows"
  shows "Verify ed (take n rows) (Some trusted) = None
    \<and> (DetectTruncation (sint (al_TenantSeq (last (take n rows)))) (int k) = (if n < k then Some (Sentinel ErrTruncated) else None))"
proof
  show "Verify ed (take n rows) (Some trusted) = None"
    using assms(1) unfolding Verify_def take_map[symmetric] by (rule truncated_chain_accepted)
  have "al_TenantSeq (last (take n rows)) = al_TenantSeq (rows ! (n - 1))"
  proof -
    have ne: "take n rows \<noteq> []" using assms(3,4) by auto
    show ?thesis unfolding last_conv_nth[OF ne] using assms(3,4) by (simp add: min_def)
  qed
  also have "\<dots> = word_of_nat n"
    using chain_links[OF assms(1)[unfolded Verify_def], of "n - 1"] assms(3,4)
    by (simp add: accepted_link_def) (simp add: toSDK_def)
  finally have "sint (al_TenantSeq (last (take n rows))) = int n"
    using assms(2,4) by (simp add: word_nat_sint)
  then show "DetectTruncation (sint (al_TenantSeq (last (take n rows)))) (int k) = (if n < k then Some (Sentinel ErrTruncated) else None)"
    by (simp add: DetectTruncation_def fail_if_def)
qed

theorem checkpoint_detects_cut_tail_witness:
  "\<exists>row. Verify toy_ed25519 (take 1 [row]) (Some ex_keys) = None
    \<and> DetectTruncation (sint (al_TenantSeq (last (take 1 [row])))) (int 2) = Some (Sentinel ErrTruncated)"
proof -
  obtain row where "signed_ledger (ledger_port toy_ed25519 ''k1'' ex_sk) ''acme'' [row]" and "clean_row row" using ex_ledger by blast
  from signed_ledger_chain(1)[where trusted = ex_keys, OF this(1) _ ex_sk_honest ex_key_material(6,4,5,2)] this(2)
  have "Verify toy_ed25519 [row] (Some ex_keys) = None" by simp
  from checkpoint_detects_cut_tail[OF this, of 1 2] show ?thesis by auto
qed

end
