(* ===== verification/ApprovalTransport.thy ===== *)
theory ApprovalTransport
  imports RuntimeTypes GoEncoding
begin

text \<open>
  \<^verbatim>\<open>internal/approvaltransport\<close>: model.go, service.go, channel.go and pending_channel.go. The plane transmits an approval
  plan unchanged, stores the one decision its authority returns, and lets it be consumed once. The store is an
  interface, a record of operations; the in-memory store implements it with the source's maps. Clock and id generator
  are streams, the channel and the audit sink answer their n-th call arbitrarily, a nil port is \<open>None\<close>. The context is
  live for the whole call (\<open>ctx_done\<close> is its state at entry); loggers are left out.
\<close>

datatype approval_error =
    ErrInvalidInput | ErrUnavailable | ErrNotFound | ErrPlanConflict | ErrCallerUntrusted | ErrEvidenceRejected
  | ErrEvidenceReplay | ErrEvidenceExpired | ErrTransmissionRevoked | ErrEvidenceConsumed | ErrNoDeliveryChannel

type_synonym approval_go_error = "approval_error go_error"

subsection \<open>Transmissions and evidence\<close>

datatype TransmissionStatus = StatusPending | StatusDelivered | StatusEvidenceRecorded | StatusRevoked | TransmissionOther string

definition statusRank :: "TransmissionStatus \<Rightarrow> nat" where
  "statusRank st = (case st of StatusPending \<Rightarrow> 1 | StatusDelivered \<Rightarrow> 2 | StatusEvidenceRecorded \<Rightarrow> 3 | StatusRevoked \<Rightarrow> 4
     | TransmissionOther _ \<Rightarrow> 0)"

datatype DeliveryOutcome = DeliveryDelivered | DeliveryFailed | DeliveryOther string

record Transmission =
  tm_TenantRef :: string
  tm_PlanRef :: string
  tm_PlanHash :: string
  tm_Authority :: string
  tm_BusinessContextRef :: string
  tm_Capability :: string
  tm_ParameterHash :: string
  tm_Purpose :: string
  tm_Status :: TransmissionStatus
  tm_ExpiresAt :: time
  tm_DeliveryAttempts :: int
  tm_LastDeliveryOutcome :: DeliveryOutcome
  tm_LastDeliveryReason :: string
  tm_Decision :: ApprovalDecision
  tm_DecidedAt :: time
  tm_RevokedAt :: time
  tm_RevocationReason :: string
  tm_AuditRefID :: string
  tm_CreatedAt :: time
  tm_UpdatedAt :: time

definition sameBinding :: "Transmission \<Rightarrow> Transmission \<Rightarrow> bool" where
  "sameBinding t other \<longleftrightarrow>
     tm_PlanHash t = tm_PlanHash other \<and> tm_Authority t = tm_Authority other
     \<and> tm_BusinessContextRef t = tm_BusinessContextRef other \<and> tm_Capability t = tm_Capability other
     \<and> tm_ParameterHash t = tm_ParameterHash other \<and> tm_Purpose t = tm_Purpose other
     \<and> tm_ExpiresAt t = tm_ExpiresAt other"

record EvidenceRecord =
  er_TenantRef :: string
  er_Evidence :: ApprovalEvidence
  er_EvidenceHash :: string
  er_AuditRefID :: string
  er_RecordedAt :: time
  er_ConsumedAt :: time

definition zero_evidence :: EvidenceRecord where
  "zero_evidence = \<lparr>er_TenantRef = [], er_Evidence = \<lparr>ae_ApprovalRef = [], ae_PlanRef = [], ae_PlanHash = [], ae_Capability = [],
     ae_ParameterHash = [], ae_Decision = ApprovalOther [], ae_ApproverAuthority = [], ae_DecidedAt = 0, ae_Attestation = zero_signature\<rparr>,
     er_EvidenceHash = [], er_AuditRefID = [], er_RecordedAt = 0, er_ConsumedAt = 0\<rparr>"

record ConsumedEvidence =
  cv_ApprovalRef :: string
  cv_PlanRef :: string
  cv_Capability :: string
  cv_ParameterHash :: string
  cv_Decision :: ApprovalDecision

definition decision_string :: "ApprovalDecision \<Rightarrow> string" where
  "decision_string d = (case d of ApprovalApproved \<Rightarrow> ''approved'' | ApprovalDenied \<Rightarrow> ''denied'' | ApprovalNarrowed \<Rightarrow> ''narrowed''
     | ApprovalOther s \<Rightarrow> s)"

text \<open>\<open>json.Marshal\<close> of the evidence; \<open>None\<close> where the instant has no RFC 3339 form.\<close>

definition evidence_members :: "ApprovalEvidence \<Rightarrow> (string \<times> string) list" where
  "evidence_members e =
     [(''approval_ref'', ae_ApprovalRef e), (''plan_ref'', ae_PlanRef e), (''plan_hash'', ae_PlanHash e),
      (''capability'', ae_Capability e), (''parameter_hash'', ae_ParameterHash e), (''decision'', decision_string (ae_Decision e)),
      (''approver_authority'', ae_ApproverAuthority e)]"

definition marshal_attestation :: "Signature \<Rightarrow> string" where
  "marshal_attestation s = ''{'' @ string_members [(''algorithm'', sig_Algorithm s), (''key_id'', sig_KeyID s)]
     @ quote ''value'' @ '':'' @ quote (sig_Value s) @ ''}''"

definition marshal_evidence :: "ApprovalEvidence \<Rightarrow> string option" where
  "marshal_evidence e =
     (case marshal_time (ae_DecidedAt e) of None \<Rightarrow> None | Some at \<Rightarrow>
      Some (''{'' @ string_members (evidence_members e) @ member ''decided_at'' (CHR 0x22 # at @ [CHR 0x22])
        @ quote ''attestation'' @ '':'' @ marshal_attestation (ae_Attestation e) @ ''}''))"

definition CanonicalEvidenceHash :: "ApprovalEvidence \<Rightarrow> string" where
  "CanonicalEvidenceHash e = (case marshal_evidence e of None \<Rightarrow> [] | Some payload \<Rightarrow> sha256_hex payload)"

record ApprovalAuditEvent =
  av_TenantRef :: string
  av_PrincipalRef :: string
  av_Action :: string
  av_PlanRef :: string
  av_Decision :: string
  av_Details :: "(string \<times> string) list"

record Delivery =
  dl_TenantRef :: string
  dl_PlanRef :: string
  dl_PlanHash :: string
  dl_Authority :: string
  dl_BusinessContextRef :: string
  dl_Capability :: string
  dl_ParameterHash :: string
  dl_Purpose :: string
  dl_ExpiresAt :: time
  dl_Attempt :: int

subsection \<open>The store interface and the in-memory store\<close>

record 'st ApprovalStoreOps =
  po_CreateTransmission :: "Transmission \<Rightarrow> (approval_error, 'st, Transmission \<times> bool) effect"
  po_GetTransmission :: "string \<Rightarrow> string \<Rightarrow> (approval_error, 'st, Transmission) effect"
  po_RecordDeliveryAttempt :: "string \<Rightarrow> string \<Rightarrow> DeliveryOutcome \<Rightarrow> string \<Rightarrow> time \<Rightarrow> (approval_error, 'st, Transmission) effect"
  po_RecordEvidence :: "EvidenceRecord \<Rightarrow> (approval_error, 'st, EvidenceRecord \<times> bool) effect"
  po_GetEvidence :: "string \<Rightarrow> string \<Rightarrow> (approval_error, 'st, EvidenceRecord) effect"
  po_ConsumeEvidence :: "string \<Rightarrow> string \<Rightarrow> time \<Rightarrow> (approval_error, 'st, ConsumedEvidence) effect"
  po_Revoke :: "string \<Rightarrow> string \<Rightarrow> string \<Rightarrow> string \<Rightarrow> time \<Rightarrow> (approval_error, 'st, Transmission) effect"

definition storeKey :: "string \<Rightarrow> string \<Rightarrow> string" where
  "storeKey tenantRef ref = tenantRef @ [CHR 0x00] @ ref"

record ApprovalStore =
  ps_transmissions :: "string \<rightharpoonup> Transmission"
  ps_attempts :: "string \<Rightarrow> DeliveryOutcome list"
  ps_evidence :: "string \<rightharpoonup> EvidenceRecord"
  ps_evidenceRefs :: "string \<rightharpoonup> string"
  ps_revocations :: "string \<rightharpoonup> string"

definition NewApprovalStore :: ApprovalStore where
  "NewApprovalStore = \<lparr>ps_transmissions = Map.empty, ps_attempts = (\<lambda>_. []), ps_evidence = Map.empty,
     ps_evidenceRefs = Map.empty, ps_revocations = Map.empty\<rparr>"

definition mp_CreateTransmission :: "Transmission \<Rightarrow> (approval_error, ApprovalStore, Transmission \<times> bool) effect" where
  "mp_CreateTransmission t s =
     (let key = storeKey (tm_TenantRef t) (tm_PlanRef t) in
      case ps_transmissions s key of
        Some existing \<Rightarrow> (Inr (existing, False), s)
      | None \<Rightarrow> (Inr (t, True), s\<lparr>ps_transmissions := (ps_transmissions s)(key \<mapsto> t)\<rparr>))"

definition mp_GetTransmission :: "string \<Rightarrow> string \<Rightarrow> (approval_error, ApprovalStore, Transmission) effect" where
  "mp_GetTransmission tenantRef planRef s =
     (case ps_transmissions s (storeKey tenantRef planRef) of None \<Rightarrow> (Inl (Sentinel ErrNotFound), s) | Some t \<Rightarrow> (Inr t, s))"

definition mp_RecordDeliveryAttempt ::
  "string \<Rightarrow> string \<Rightarrow> DeliveryOutcome \<Rightarrow> string \<Rightarrow> time \<Rightarrow> (approval_error, ApprovalStore, Transmission) effect" where
  "mp_RecordDeliveryAttempt tenantRef planRef outcome reason at s =
     (let key = storeKey tenantRef planRef in
      case ps_transmissions s key of None \<Rightarrow> (Inl (Sentinel ErrNotFound), s) | Some t \<Rightarrow>
      let attempts = ps_attempts s key @ [outcome];
          t1 = t\<lparr>tm_DeliveryAttempts := int (length attempts), tm_LastDeliveryOutcome := outcome, tm_LastDeliveryReason := reason\<rparr>;
          t2 = (if outcome = DeliveryDelivered \<and> statusRank StatusDelivered > statusRank (tm_Status t1)
                then t1\<lparr>tm_Status := StatusDelivered\<rparr> else t1);
          t3 = t2\<lparr>tm_UpdatedAt := at\<rparr>
      in (Inr t3, s\<lparr>ps_attempts := (ps_attempts s)(key := attempts), ps_transmissions := (ps_transmissions s)(key \<mapsto> t3)\<rparr>))"

definition mp_RecordEvidence :: "EvidenceRecord \<Rightarrow> (approval_error, ApprovalStore, EvidenceRecord \<times> bool) effect" where
  "mp_RecordEvidence r s =
     (let planKey = storeKey (er_TenantRef r) (ae_PlanRef (er_Evidence r)) in
      case ps_transmissions s planKey of None \<Rightarrow> (Inl (Sentinel ErrNotFound), s) | Some t \<Rightarrow>
      if tm_Status t = StatusRevoked then (Inl (Sentinel ErrTransmissionRevoked), s)
      else let refKey = storeKey (er_TenantRef r) (ae_ApprovalRef (er_Evidence r)) in
      case ps_evidenceRefs s refKey of
        Some boundPlan \<Rightarrow>
          (let existing = (case ps_evidence s boundPlan of Some existing \<Rightarrow> existing | None \<Rightarrow> zero_evidence) in
           if boundPlan = planKey \<and> er_EvidenceHash existing = er_EvidenceHash r then (Inr (existing, False), s)
           else (Inl (Sentinel ErrEvidenceReplay), s))
      | None \<Rightarrow>
          if ps_evidence s planKey \<noteq> None then (Inl (Sentinel ErrEvidenceReplay), s)
          else let t1 = (if statusRank StatusEvidenceRecorded > statusRank (tm_Status t)
                         then t\<lparr>tm_Status := StatusEvidenceRecorded\<rparr> else t);
                   t2 = t1\<lparr>tm_Decision := ae_Decision (er_Evidence r), tm_DecidedAt := ae_DecidedAt (er_Evidence r),
                           tm_UpdatedAt := er_RecordedAt r\<rparr>
               in (Inr (r, True), s\<lparr>ps_evidence := (ps_evidence s)(planKey \<mapsto> r),
                     ps_evidenceRefs := (ps_evidenceRefs s)(refKey \<mapsto> planKey),
                     ps_transmissions := (ps_transmissions s)(planKey \<mapsto> t2)\<rparr>))"

definition mp_GetEvidence :: "string \<Rightarrow> string \<Rightarrow> (approval_error, ApprovalStore, EvidenceRecord) effect" where
  "mp_GetEvidence tenantRef planRef s =
     (case ps_evidence s (storeKey tenantRef planRef) of None \<Rightarrow> (Inl (Sentinel ErrNotFound), s) | Some r \<Rightarrow> (Inr r, s))"

definition mp_ConsumeEvidence :: "string \<Rightarrow> string \<Rightarrow> time \<Rightarrow> (approval_error, ApprovalStore, ConsumedEvidence) effect" where
  "mp_ConsumeEvidence tenantRef planRef at s =
     (let planKey = storeKey tenantRef planRef in
      if map_option tm_Status (ps_transmissions s planKey) = Some StatusRevoked then (Inl (Sentinel ErrTransmissionRevoked), s)
      else case ps_evidence s planKey of None \<Rightarrow> (Inl (Sentinel ErrNotFound), s) | Some r \<Rightarrow>
      if \<not> is_zero_time (er_ConsumedAt r) then (Inl (Sentinel ErrEvidenceConsumed), s)
      else (Inr \<lparr>cv_ApprovalRef = ae_ApprovalRef (er_Evidence r), cv_PlanRef = ae_PlanRef (er_Evidence r),
              cv_Capability = ae_Capability (er_Evidence r), cv_ParameterHash = ae_ParameterHash (er_Evidence r),
              cv_Decision = ae_Decision (er_Evidence r)\<rparr>,
            s\<lparr>ps_evidence := (ps_evidence s)(planKey \<mapsto> r\<lparr>er_ConsumedAt := at\<rparr>)\<rparr>))"

definition mp_Revoke :: "string \<Rightarrow> string \<Rightarrow> string \<Rightarrow> string \<Rightarrow> time \<Rightarrow> (approval_error, ApprovalStore, Transmission) effect" where
  "mp_Revoke tenantRef planRef reason revocationID at s =
     (let key = storeKey tenantRef planRef in
      case ps_transmissions s key of None \<Rightarrow> (Inl (Sentinel ErrNotFound), s) | Some t \<Rightarrow>
      if tm_Status t = StatusRevoked then (Inr t, s)
      else let t1 = t\<lparr>tm_Status := StatusRevoked, tm_RevokedAt := at, tm_RevocationReason := reason, tm_UpdatedAt := at\<rparr>
      in (Inr t1, s\<lparr>ps_revocations := (ps_revocations s)(key \<mapsto> revocationID), ps_transmissions := (ps_transmissions s)(key \<mapsto> t1)\<rparr>))"

definition memory_approvals :: "ApprovalStore ApprovalStoreOps" where
  "memory_approvals =
     \<lparr>po_CreateTransmission = mp_CreateTransmission, po_GetTransmission = mp_GetTransmission,
      po_RecordDeliveryAttempt = mp_RecordDeliveryAttempt, po_RecordEvidence = mp_RecordEvidence,
      po_GetEvidence = mp_GetEvidence, po_ConsumeEvidence = mp_ConsumeEvidence, po_Revoke = mp_Revoke\<rparr>"

subsection \<open>Service, world and environment\<close>

definition evidenceDecisionSkew :: duration where "evidenceDecisionSkew = 30 * second"
definition maxRevocationReasonBytes :: nat where "maxRevocationReasonBytes = 1024"

definition auditActionTransmit :: string where "auditActionTransmit = ''approval.plan.transmit''"
definition auditActionEvidenceSubmitted :: string where "auditActionEvidenceSubmitted = ''approval.evidence.submitted''"
definition auditActionEvidenceRecorded :: string where "auditActionEvidenceRecorded = ''approval.evidence.recorded''"
definition auditActionRevoke :: string where "auditActionRevoke = ''approval.transmission.revoke''"

type_synonym Channel = "nat \<Rightarrow> Delivery \<Rightarrow> string option"
type_synonym ApprovalAuditSink = "nat \<Rightarrow> ApprovalAuditEvent \<Rightarrow> approval_go_error + string"

record 'st ApprovalService =
  asv_store :: "'st ApprovalStoreOps"
  asv_channel :: Channel
  asv_audit :: ApprovalAuditSink
  asv_providers :: "(string \<Rightarrow> PrincipalContext \<Rightarrow> ApprovalPlanRef \<Rightarrow> approval_go_error option) option"
  asv_attestations :: "(string \<Rightarrow> ApprovalEvidence \<Rightarrow> approval_go_error option) option"
  asv_now :: "nat \<Rightarrow> time"
  asv_newID :: "nat \<Rightarrow> string \<Rightarrow> string"

record ApprovalEnv =
  an_ticks :: nat
  an_ids :: nat
  an_auditCalls :: nat
  an_audit :: "ApprovalAuditEvent list"
  an_deliverCalls :: nat
  an_delivered :: "Delivery list"

record 'st ApprovalWorld =
  aw_store :: 'st
  aw_env :: ApprovalEnv

type_synonym ('st, 'a) approval = "(approval_error, 'st ApprovalWorld, 'a) effect"

text \<open>The port the deployment without an outbound integration wires: every delivery is a transport failure.\<close>

definition pending_channel :: Channel where
  "pending_channel n d = Some ''approvaltransport: no outbound delivery channel is configured for this deployment''"

text \<open>The local channel: it accepts every delivery, or fails every one with the configured outage.\<close>

definition memory_channel :: "string option \<Rightarrow> Channel" where
  "memory_channel outage n d = outage"

definition NewApprovalService ::
  "'st ApprovalStoreOps option \<Rightarrow> Channel option \<Rightarrow> ApprovalAuditSink option \<Rightarrow> (nat \<Rightarrow> time) \<Rightarrow> (nat \<Rightarrow> string \<Rightarrow> string)
     \<Rightarrow> approval_go_error + 'st ApprovalService" where
  "NewApprovalService store channel audit clock ids =
     (case store of None \<Rightarrow> Inl (Message ''approval transmission requires a store'') | Some st \<Rightarrow>
      case channel of None \<Rightarrow> Inl (Message ''approval transmission requires a configured channel; AgentNexus never resolves approvals itself'') | Some ch \<Rightarrow>
      case audit of None \<Rightarrow> Inl (Message ''approval transmission requires an audit sink'') | Some au \<Rightarrow>
      Inr \<lparr>asv_store = st, asv_channel = ch, asv_audit = au, asv_providers = None, asv_attestations = None,
           asv_now = clock, asv_newID = ids\<rparr>)"

definition on_approvals :: "(approval_error, 'st, 'a) effect \<Rightarrow> ('st, 'a) approval" where
  "on_approvals m w = (case m (aw_store w) of (r, s) \<Rightarrow> (r, w\<lparr>aw_store := s\<rparr>))"

definition approval_now :: "'st ApprovalService \<Rightarrow> ('st, time) approval" where
  "approval_now sv w = (Inr (asv_now sv (an_ticks (aw_env w))), w\<lparr>aw_env := (aw_env w)\<lparr>an_ticks := Suc (an_ticks (aw_env w))\<rparr>\<rparr>)"

definition approval_newID :: "'st ApprovalService \<Rightarrow> string \<Rightarrow> ('st, string) approval" where
  "approval_newID sv prefix w =
     (Inr (asv_newID sv (an_ids (aw_env w)) prefix), w\<lparr>aw_env := (aw_env w)\<lparr>an_ids := Suc (an_ids (aw_env w))\<rparr>\<rparr>)"

definition approval_guard :: "bool \<Rightarrow> ('st, unit) approval" where
  "approval_guard ctx_done = require (\<not> ctx_done) (Joined [Sentinel ErrUnavailable, Message ''context''])"

definition reject :: "approval_error \<Rightarrow> field_error option \<Rightarrow> ('st, unit) approval" where
  "reject err r = check (map_option (\<lambda>e. Joined [Sentinel err, Invalid e]) r)"

text \<open>An append that errs or answers the empty reference fails the operation closed, with the given message.\<close>

definition append_approval_audit :: "'st ApprovalService \<Rightarrow> ApprovalAuditEvent \<Rightarrow> ('st, approval_go_error + string) approval" where
  "append_approval_audit sv event w =
     (let env = aw_env w; env1 = env\<lparr>an_auditCalls := Suc (an_auditCalls env)\<rparr> in
      case asv_audit sv (an_auditCalls env) event of
        Inl e \<Rightarrow> (Inr (Inl e), w\<lparr>aw_env := env1\<rparr>)
      | Inr ref \<Rightarrow> (Inr (Inr ref), w\<lparr>aw_env := env1\<lparr>an_audit := an_audit env1 @ [event]\<rparr>\<rparr>))"

definition audited_as :: "'st ApprovalService \<Rightarrow> string \<Rightarrow> ApprovalAuditEvent \<Rightarrow> ('st, string) approval" where
  "audited_as sv msg event =
     andthen (append_approval_audit sv event) (\<lambda>r. case r of
       Inl e \<Rightarrow> fail (Joined [Sentinel ErrUnavailable, Message msg, e])
     | Inr ref \<Rightarrow> if ref = [] then fail (Joined [Sentinel ErrUnavailable, Message msg]) else ret ref)"

definition unavailable :: "approval_go_error \<Rightarrow> approval_go_error" where
  "unavailable e = Joined [Sentinel ErrUnavailable, e]"

definition mapNotFound :: "approval_go_error \<Rightarrow> approval_go_error" where
  "mapNotFound e = (if errors_is e ErrNotFound then Sentinel ErrNotFound else unavailable e)"

definition verifyApprovalProvider :: "'st ApprovalService \<Rightarrow> PrincipalContext \<Rightarrow> ApprovalPlanRef \<Rightarrow> approval_go_error option" where
  "verifyApprovalProvider sv prin plan =
     (case pc_TrustClass prin of
        TrustFirstParty \<Rightarrow> None
      | TrustCertifiedThirdParty \<Rightarrow>
          (case asv_providers sv of
             None \<Rightarrow> Some (Joined [Sentinel ErrCallerUntrusted,
               Message ''certified third-party transmission requires the wired decision-provider verification (Task 0F seam); nil wiring fails closed''])
           | Some verify \<Rightarrow> map_option (\<lambda>e. Joined [Sentinel ErrCallerUntrusted, e]) (verify (pc_TenantRef prin) prin plan))
      | _ \<Rightarrow> Some (Sentinel ErrCallerUntrusted))"

subsection \<open>Transmission\<close>

definition delivery_of :: "Transmission \<Rightarrow> Delivery" where
  "delivery_of t = \<lparr>dl_TenantRef = tm_TenantRef t, dl_PlanRef = tm_PlanRef t, dl_PlanHash = tm_PlanHash t, dl_Authority = tm_Authority t,
     dl_BusinessContextRef = tm_BusinessContextRef t, dl_Capability = tm_Capability t, dl_ParameterHash = tm_ParameterHash t,
     dl_Purpose = tm_Purpose t, dl_ExpiresAt = tm_ExpiresAt t, dl_Attempt = tm_DeliveryAttempts t + 1\<rparr>"

definition call_channel :: "'st ApprovalService \<Rightarrow> Delivery \<Rightarrow> ('st, DeliveryOutcome \<times> string) approval" where
  "call_channel sv d w =
     (let env = aw_env w; env1 = env\<lparr>an_deliverCalls := Suc (an_deliverCalls env)\<rparr> in
      case asv_channel sv (an_deliverCalls env) d of
        Some err \<Rightarrow> (Inr (DeliveryFailed, ''channel_unavailable''), w\<lparr>aw_env := env1\<rparr>)
      | None \<Rightarrow> (Inr (DeliveryDelivered, []), w\<lparr>aw_env := env1\<lparr>an_delivered := an_delivered env1 @ [d]\<rparr>\<rparr>))"

definition deliver :: "'st ApprovalService \<Rightarrow> Transmission \<Rightarrow> ('st, Transmission) approval" where
  "deliver sv t =
     andthen (call_channel sv (delivery_of t)) (\<lambda>(outcome, reason).
     andthen (approval_now sv) (\<lambda>at.
     on_error unavailable (on_approvals (po_RecordDeliveryAttempt (asv_store sv) (tm_TenantRef t) (tm_PlanRef t) outcome reason at))))"

definition continueExisting :: "'st ApprovalService \<Rightarrow> Transmission \<Rightarrow> Transmission \<Rightarrow> ('st, Transmission) approval" where
  "continueExisting sv existing candidate =
     (if \<not> sameBinding existing candidate then fail (Sentinel ErrPlanConflict)
      else if tm_Status existing \<noteq> StatusPending then ret existing
      else deliver sv existing)"

definition candidate_of :: "PrincipalContext \<Rightarrow> ApprovalRequest \<Rightarrow> time \<Rightarrow> Transmission" where
  "candidate_of prin req t =
     \<lparr>tm_TenantRef = pc_TenantRef prin, tm_PlanRef = plan_PlanRef (apr_Plan req), tm_PlanHash = plan_PlanHash (apr_Plan req),
      tm_Authority = plan_Authority (apr_Plan req), tm_BusinessContextRef = apr_BusinessContextRef req, tm_Capability = apr_Capability req,
      tm_ParameterHash = apr_ParameterHash req, tm_Purpose = apr_Purpose req, tm_Status = StatusPending, tm_ExpiresAt = apr_ExpiresAt req,
      tm_DeliveryAttempts = 0, tm_LastDeliveryOutcome = DeliveryOther [], tm_LastDeliveryReason = [], tm_Decision = ApprovalOther [],
      tm_DecidedAt = 0, tm_RevokedAt = 0, tm_RevocationReason = [], tm_AuditRefID = [], tm_CreatedAt = t, tm_UpdatedAt = t\<rparr>"

definition transmit_new :: "'st ApprovalService \<Rightarrow> PrincipalContext \<Rightarrow> Transmission \<Rightarrow> ('st, Transmission) approval" where
  "transmit_new sv prin candidate =
     andthen (audited_as sv ''approval transmit audit append failed''
       \<lparr>av_TenantRef = tm_TenantRef candidate, av_PrincipalRef = pc_PrincipalRef prin, av_Action = auditActionTransmit,
        av_PlanRef = tm_PlanRef candidate, av_Decision = ''accepted'',
        av_Details = [(''capability'', tm_Capability candidate), (''parameter_hash'', tm_ParameterHash candidate), (''authority'', tm_Authority candidate)]\<rparr>)
       (\<lambda>auditRef.
     andthen (on_error unavailable (on_approvals (po_CreateTransmission (asv_store sv) (candidate\<lparr>tm_AuditRefID := auditRef\<rparr>)))) (\<lambda>(stored, created).
     if \<not> created then continueExisting sv stored (candidate\<lparr>tm_AuditRefID := auditRef\<rparr>) else deliver sv stored))"

definition Transmit :: "'st ApprovalService \<Rightarrow> bool \<Rightarrow> PrincipalContext \<Rightarrow> ApprovalRequest \<Rightarrow> ('st, Transmission) approval" where
  "Transmit sv ctx_done prin req =
     andthen (approval_guard ctx_done) (\<lambda>_.
     andthen (reject ErrInvalidInput (PrincipalContext_Validate prin)) (\<lambda>_.
     andthen (check (verifyApprovalProvider sv prin (apr_Plan req))) (\<lambda>_.
     andthen (reject ErrInvalidInput (ApprovalRequest_Validate req)) (\<lambda>_.
     andthen (require (canonical (plan_Authority (apr_Plan req)))
        (Joined [Sentinel ErrInvalidInput, Message ''approval plan authority must be canonical (no surrounding whitespace)''])) (\<lambda>_.
     andthen (approval_now sv) (\<lambda>t.
     andthen (require (apr_ExpiresAt req > t)
        (Joined [Sentinel ErrInvalidInput, Message ''approval plan expiry must be in the future''])) (\<lambda>_.
     andthen (attempt (on_approvals (po_GetTransmission (asv_store sv) (pc_TenantRef prin) (plan_PlanRef (apr_Plan req))))) (\<lambda>got.
     case got of
       Inr existing \<Rightarrow> continueExisting sv existing (candidate_of prin req t)
     | Inl e \<Rightarrow> if \<not> errors_is e ErrNotFound then fail (unavailable e) else transmit_new sv prin (candidate_of prin req t)))))))))"

subsection \<open>Evidence\<close>

definition evidence_checks :: "'st ApprovalService \<Rightarrow> PrincipalContext \<Rightarrow> ApprovalEvidence \<Rightarrow> Transmission \<Rightarrow> time \<Rightarrow> approval_go_error option" where
  "evidence_checks sv prin ev t at = first_error
     [fail_if (at > tm_ExpiresAt t) (Sentinel ErrEvidenceExpired),
      fail_if (ae_DecidedAt ev > at + evidenceDecisionSkew) (Joined [Sentinel ErrEvidenceRejected, Message ''evidence decided_at is in the future'']),
      fail_if (ae_DecidedAt ev > tm_ExpiresAt t) (Sentinel ErrEvidenceExpired),
      (case asv_attestations sv of None \<Rightarrow> None | Some verify \<Rightarrow>
         map_option (\<lambda>e. Joined [Sentinel ErrEvidenceRejected, e]) (verify (pc_TenantRef prin) ev))]"

definition evidence_event :: "PrincipalContext \<Rightarrow> ApprovalEvidence \<Rightarrow> string \<Rightarrow> (string \<times> string) list \<Rightarrow> ApprovalAuditEvent" where
  "evidence_event prin ev action details =
     \<lparr>av_TenantRef = pc_TenantRef prin, av_PrincipalRef = pc_PrincipalRef prin, av_Action = action, av_PlanRef = ae_PlanRef ev,
      av_Decision = decision_string (ae_Decision ev), av_Details = details\<rparr>"

definition map_record_err :: "approval_go_error \<Rightarrow> approval_go_error" where
  "map_record_err e =
     (if errors_is e ErrEvidenceReplay \<or> errors_is e ErrTransmissionRevoked \<or> errors_is e ErrNotFound then e else unavailable e)"

definition store_evidence :: "'st ApprovalService \<Rightarrow> PrincipalContext \<Rightarrow> ApprovalEvidence \<Rightarrow> time \<Rightarrow> ('st, EvidenceRecord) approval" where
  "store_evidence sv prin ev at =
     andthen (require (CanonicalEvidenceHash ev \<noteq> []) (Sentinel ErrUnavailable)) (\<lambda>_.
     andthen (audited_as sv ''approval evidence audit append failed'' (evidence_event prin ev auditActionEvidenceSubmitted
        [(''approval_ref'', ae_ApprovalRef ev), (''approver_authority'', ae_ApproverAuthority ev)])) (\<lambda>auditRef.
     andthen (on_error map_record_err (on_approvals (po_RecordEvidence (asv_store sv)
        \<lparr>er_TenantRef = pc_TenantRef prin, er_Evidence = ev, er_EvidenceHash = CanonicalEvidenceHash ev, er_AuditRefID = auditRef,
         er_RecordedAt = at, er_ConsumedAt = 0\<rparr>))) (\<lambda>(stored, created).
     if \<not> created then ret stored
     else andthen (append_approval_audit sv (evidence_event prin ev auditActionEvidenceRecorded [(''approval_ref'', ae_ApprovalRef ev)])) (\<lambda>r.
       case r of Inl e \<Rightarrow> fail (Joined [Sentinel ErrUnavailable, Message ''approval evidence acceptance audit append failed'', e]) | Inr _ \<Rightarrow> ret stored))))"

definition RecordEvidence :: "'st ApprovalService \<Rightarrow> bool \<Rightarrow> PrincipalContext \<Rightarrow> ApprovalEvidence \<Rightarrow> ('st, EvidenceRecord) approval" where
  "RecordEvidence sv ctx_done prin ev =
     andthen (approval_guard ctx_done) (\<lambda>_.
     andthen (reject ErrInvalidInput (PrincipalContext_Validate prin)) (\<lambda>_.
     andthen (reject ErrEvidenceRejected (ApprovalEvidence_Validate ev)) (\<lambda>_.
     andthen (on_error mapNotFound (on_approvals (po_GetTransmission (asv_store sv) (pc_TenantRef prin) (ae_PlanRef ev)))) (\<lambda>t.
     andthen (require (tm_Status t \<noteq> StatusRevoked) (Sentinel ErrTransmissionRevoked)) (\<lambda>_.
     andthen (require (ae_PlanHash ev = tm_PlanHash t \<and> ae_Capability ev = tm_Capability t \<and> ae_ParameterHash ev = tm_ParameterHash t)
        (Joined [Sentinel ErrEvidenceRejected, Message ''evidence does not bind the transmitted operation''])) (\<lambda>_.
     andthen (require (ae_ApproverAuthority ev = tm_Authority t)
        (Joined [Sentinel ErrEvidenceRejected, Message ''evidence authority does not match the transmitted plan authority''])) (\<lambda>_.
     andthen (approval_now sv) (\<lambda>at.
     andthen (check (evidence_checks sv prin ev t at)) (\<lambda>_.
     store_evidence sv prin ev at)))))))))"

subsection \<open>Status and revocation\<close>

definition GetStatus :: "'st ApprovalService \<Rightarrow> bool \<Rightarrow> PrincipalContext \<Rightarrow> string \<Rightarrow> ('st, Transmission) approval" where
  "GetStatus sv ctx_done prin planRef =
     andthen (approval_guard ctx_done) (\<lambda>_.
     andthen (reject ErrInvalidInput (PrincipalContext_Validate prin)) (\<lambda>_.
     andthen (reject ErrInvalidInput (ValidateHandle planRef HandleApprovalPlan)) (\<lambda>_.
     on_error mapNotFound (on_approvals (po_GetTransmission (asv_store sv) (pc_TenantRef prin) planRef)))))"

definition Revoke :: "'st ApprovalService \<Rightarrow> bool \<Rightarrow> PrincipalContext \<Rightarrow> string \<Rightarrow> string \<Rightarrow> ('st, Transmission) approval" where
  "Revoke sv ctx_done prin planRef reason =
     andthen (approval_guard ctx_done) (\<lambda>_.
     andthen (reject ErrInvalidInput (PrincipalContext_Validate prin)) (\<lambda>_.
     andthen (reject ErrInvalidInput (ValidateHandle planRef HandleApprovalPlan)) (\<lambda>_.
     andthen (require (canonical reason \<and> length reason \<le> maxRevocationReasonBytes \<and> \<not> list_ex is_control reason)
        (Joined [Sentinel ErrInvalidInput, Message ''revocation reason must be canonical, control-free and at most 1024 bytes''])) (\<lambda>_.
     andthen (on_error mapNotFound (on_approvals (po_GetTransmission (asv_store sv) (pc_TenantRef prin) planRef))) (\<lambda>existing.
     if tm_Status existing = StatusRevoked then ret existing
     else andthen (audited_as sv ''approval revocation audit append failed''
        \<lparr>av_TenantRef = pc_TenantRef prin, av_PrincipalRef = pc_PrincipalRef prin, av_Action = auditActionRevoke, av_PlanRef = planRef,
         av_Decision = ''revoked'', av_Details = [(''reason'', reason)]\<rparr>) (\<lambda>_.
     andthen (approval_newID sv ''aprvk_'') (\<lambda>revocationID.
     andthen (require (revocationID \<noteq> []) (Sentinel ErrUnavailable)) (\<lambda>_.
     andthen (approval_now sv) (\<lambda>at.
     on_error mapNotFound (on_approvals (po_Revoke (asv_store sv) (pc_TenantRef prin) planRef reason revocationID at)))))))))))"

end
