(* ===== verification/ApprovalLaws.thy ===== *)
theory ApprovalLaws
  imports ApprovalTransport
begin

text \<open>
  What the transmission plane promises. The specification is a step relation on what a store shows: transmissions,
  evidence, the accepted audit events and the deliveries the channel took. The store's contract is a locale,
  interpreted on the in-memory store; every run of the service refines the specification, and the properties are
  invariants of the specification's steps.
\<close>

subsection \<open>The specification\<close>

record Approvals =
  vw_plans :: "string \<rightharpoonup> Transmission"
  vw_decided :: "string \<rightharpoonup> EvidenceRecord"
  vw_log :: "ApprovalAuditEvent list"
  vw_sent :: "Delivery list"

definition plan_key :: "Transmission \<Rightarrow> string" where
  "plan_key t = storeKey (tm_TenantRef t) (tm_PlanRef t)"

definition evidence_key :: "EvidenceRecord \<Rightarrow> string" where
  "evidence_key r = storeKey (er_TenantRef r) (ae_PlanRef (er_Evidence r))"

definition approval_key :: "EvidenceRecord \<Rightarrow> string" where
  "approval_key r = storeKey (er_TenantRef r) (ae_ApprovalRef (er_Evidence r))"

definition same_plan :: "Transmission \<Rightarrow> Transmission \<Rightarrow> bool" where
  "same_plan t t' \<longleftrightarrow> tm_TenantRef t' = tm_TenantRef t \<and> tm_PlanRef t' = tm_PlanRef t \<and> sameBinding t t'
     \<and> tm_AuditRefID t' = tm_AuditRefID t \<and> tm_CreatedAt t' = tm_CreatedAt t"

definition same_decision :: "Transmission \<Rightarrow> Transmission \<Rightarrow> bool" where
  "same_decision t t' \<longleftrightarrow> tm_Decision t' = tm_Decision t \<and> tm_DecidedAt t' = tm_DecidedAt t"

text \<open>Evidence the plane may store for a transmission: well-formed, naming the transmitted digest and operation, from
  the authority that authored the plan, decided and received within the expiry, and attested where a verifier is wired.\<close>

definition authentic :: "'st ApprovalService \<Rightarrow> Transmission \<Rightarrow> EvidenceRecord \<Rightarrow> bool" where
  "authentic sv t r \<longleftrightarrow> (let ev = er_Evidence r in
     ApprovalEvidence_Validate ev = None
     \<and> ae_PlanHash ev = tm_PlanHash t \<and> ae_Capability ev = tm_Capability t \<and> ae_ParameterHash ev = tm_ParameterHash t
     \<and> ae_ApproverAuthority ev = tm_Authority t
     \<and> er_RecordedAt r \<le> tm_ExpiresAt t \<and> ae_DecidedAt ev \<le> tm_ExpiresAt t \<and> ae_DecidedAt ev \<le> er_RecordedAt r + evidenceDecisionSkew
     \<and> (\<forall>verify. asv_attestations sv = Some verify \<longrightarrow> verify (er_TenantRef r) ev = None)
     \<and> er_EvidenceHash r = CanonicalEvidenceHash ev \<and> CanonicalEvidenceHash ev \<noteq> [])"

definition logged :: "ApprovalAuditEvent list \<Rightarrow> string \<Rightarrow> string \<Rightarrow> string \<Rightarrow> bool" where
  "logged log action tenant plan \<longleftrightarrow> (\<exists>ev \<in> set log. av_Action ev = action \<and> av_TenantRef ev = tenant \<and> av_PlanRef ev = plan)"

inductive lifecycle :: "'st ApprovalService \<Rightarrow> Approvals \<Rightarrow> Approvals \<Rightarrow> bool" for sv where
  appended: "lifecycle sv v (v\<lparr>vw_log := vw_log v @ [ev]\<rparr>)"
| filed: "vw_plans v (plan_key t) = None \<Longrightarrow> tm_Status t = StatusPending
    \<Longrightarrow> logged (vw_log v) auditActionTransmit (tm_TenantRef t) (tm_PlanRef t)
    \<Longrightarrow> lifecycle sv v (v\<lparr>vw_plans := (vw_plans v)(plan_key t \<mapsto> t)\<rparr>)"
| sent: "vw_plans v k = Some t \<Longrightarrow> asv_channel sv n (delivery_of t) = None
    \<Longrightarrow> lifecycle sv v (v\<lparr>vw_sent := vw_sent v @ [delivery_of t]\<rparr>)"
| attempted: "vw_plans v k = Some t \<Longrightarrow> same_plan t t' \<Longrightarrow> same_decision t t'
    \<Longrightarrow> tm_Status t' = tm_Status t \<or> tm_Status t' = StatusDelivered \<and> statusRank (tm_Status t) < statusRank StatusDelivered
         \<and> delivery_of t \<in> set (vw_sent v)
    \<Longrightarrow> lifecycle sv v (v\<lparr>vw_plans := (vw_plans v)(k \<mapsto> t')\<rparr>)"
| decided: "vw_plans v (evidence_key r) = Some t \<Longrightarrow> tm_Status t \<noteq> StatusRevoked \<Longrightarrow> vw_decided v (evidence_key r) = None
    \<Longrightarrow> (\<forall>k r'. vw_decided v k = Some r' \<longrightarrow> approval_key r' \<noteq> approval_key r) \<Longrightarrow> authentic sv t r \<Longrightarrow> er_ConsumedAt r = 0
    \<Longrightarrow> logged (vw_log v) auditActionEvidenceSubmitted (er_TenantRef r) (ae_PlanRef (er_Evidence r))
    \<Longrightarrow> same_plan t t' \<Longrightarrow> tm_Status t' = StatusEvidenceRecorded
    \<Longrightarrow> tm_Decision t' = ae_Decision (er_Evidence r) \<Longrightarrow> tm_DecidedAt t' = ae_DecidedAt (er_Evidence r)
    \<Longrightarrow> lifecycle sv v (v\<lparr>vw_plans := (vw_plans v)(evidence_key r \<mapsto> t'), vw_decided := (vw_decided v)(evidence_key r \<mapsto> r)\<rparr>)"
| consumed: "vw_decided v k = Some r \<Longrightarrow> er_ConsumedAt r = 0 \<Longrightarrow> (\<forall>t. vw_plans v k = Some t \<longrightarrow> tm_Status t \<noteq> StatusRevoked)
    \<Longrightarrow> lifecycle sv v (v\<lparr>vw_decided := (vw_decided v)(k \<mapsto> r\<lparr>er_ConsumedAt := at\<rparr>)\<rparr>)"
| revoked: "vw_plans v k = Some t \<Longrightarrow> tm_Status t \<noteq> StatusRevoked \<Longrightarrow> k = storeKey tenant plan \<Longrightarrow> logged (vw_log v) auditActionRevoke tenant plan
    \<Longrightarrow> same_plan t t' \<Longrightarrow> same_decision t t' \<Longrightarrow> tm_Status t' = StatusRevoked
    \<Longrightarrow> lifecycle sv v (v\<lparr>vw_plans := (vw_plans v)(k \<mapsto> t')\<rparr>)"

subsection \<open>Runs and symbolic execution\<close>

datatype approval_call =
    CallTransmit bool PrincipalContext ApprovalRequest
  | CallRecordEvidence bool PrincipalContext ApprovalEvidence
  | CallGetStatus bool PrincipalContext string
  | CallRevoke bool PrincipalContext string string
  | CallConsume string string time

definition approval_serve :: "'st ApprovalService \<Rightarrow> approval_call \<Rightarrow> 'st ApprovalWorld \<Rightarrow> 'st ApprovalWorld" where
  "approval_serve sv c w = (case c of
      CallTransmit d prin req \<Rightarrow> snd (Transmit sv d prin req w)
    | CallRecordEvidence d prin ev \<Rightarrow> snd (RecordEvidence sv d prin ev w)
    | CallGetStatus d prin plan \<Rightarrow> snd (GetStatus sv d prin plan w)
    | CallRevoke d prin plan reason \<Rightarrow> snd (Revoke sv d prin plan reason w)
    | CallConsume tenant plan at \<Rightarrow> snd (on_approvals (po_ConsumeEvidence (asv_store sv) tenant plan at) w))"

definition approval_run :: "'st ApprovalService \<Rightarrow> approval_call list \<Rightarrow> 'st ApprovalWorld \<Rightarrow> 'st ApprovalWorld" where
  "approval_run sv cs w = fold (approval_serve sv) cs w"

lemma wp_approval_now [wp_simps]:
  "wp (approval_now sv) Q E w \<longleftrightarrow> Q (asv_now sv (an_ticks (aw_env w))) (w\<lparr>aw_env := (aw_env w)\<lparr>an_ticks := Suc (an_ticks (aw_env w))\<rparr>\<rparr>)"
  by (simp add: wp_def approval_now_def)

lemma wp_approval_newID [wp_simps]:
  "wp (approval_newID sv prefix) Q E w \<longleftrightarrow>
     Q (asv_newID sv (an_ids (aw_env w)) prefix) (w\<lparr>aw_env := (aw_env w)\<lparr>an_ids := Suc (an_ids (aw_env w))\<rparr>\<rparr>)"
  by (simp add: wp_def approval_newID_def)

lemma wp_approval_guard [wp_simps]:
  "wp (approval_guard d) Q E w \<longleftrightarrow> (\<not> d \<longrightarrow> Q () w) \<and> (d \<longrightarrow> E (Joined [Sentinel ErrUnavailable, Message ''context'']) w)"
  by (simp add: approval_guard_def wp_simps)

lemma wp_reject [wp_simps]:
  "wp (reject err r) Q E w \<longleftrightarrow> (r = None \<longrightarrow> Q () w) \<and> (\<forall>e. r = Some e \<longrightarrow> E (Joined [Sentinel err, Invalid e]) w)"
  by (cases r) (simp_all add: reject_def wp_simps)

definition env_view :: "ApprovalEnv \<Rightarrow> ApprovalAuditEvent list \<times> Delivery list" where
  "env_view env = (an_audit env, an_delivered env)"

lemma wp_append_approval_audit:
  assumes "\<And>e env. env_view env = env_view (aw_env w) \<Longrightarrow> Q (Inl e) (w\<lparr>aw_env := env\<rparr>)"
    and "\<And>ref env. an_audit env = an_audit (aw_env w) @ [ev] \<Longrightarrow> an_delivered env = an_delivered (aw_env w) \<Longrightarrow> Q (Inr ref) (w\<lparr>aw_env := env\<rparr>)"
  shows "wp (append_approval_audit sv ev) Q E w"
  using assms by (auto simp: wp_def append_approval_audit_def Let_def env_view_def split: sum.splits)

lemma wp_audited_as:
  assumes "\<And>e env. env_view env = env_view (aw_env w) \<Longrightarrow> E e (w\<lparr>aw_env := env\<rparr>)"
    and "\<And>e env. an_audit env = an_audit (aw_env w) @ [ev] \<Longrightarrow> an_delivered env = an_delivered (aw_env w) \<Longrightarrow> E e (w\<lparr>aw_env := env\<rparr>)"
    and "\<And>ref env. an_audit env = an_audit (aw_env w) @ [ev] \<Longrightarrow> an_delivered env = an_delivered (aw_env w) \<Longrightarrow> ref \<noteq> [] \<Longrightarrow> Q ref (w\<lparr>aw_env := env\<rparr>)"
  shows "wp (audited_as sv msg ev) Q E w"
  unfolding audited_as_def wp_simps
  by (rule wp_append_approval_audit) (auto simp: wp_simps intro: assms)

lemma wp_call_channel:
  assumes "\<And>env. env_view env = env_view (aw_env w) \<Longrightarrow> Q (DeliveryFailed, ''channel_unavailable'') (w\<lparr>aw_env := env\<rparr>)"
    and "\<And>n env. asv_channel sv n d = None \<Longrightarrow> an_audit env = an_audit (aw_env w) \<Longrightarrow> an_delivered env = an_delivered (aw_env w) @ [d]
      \<Longrightarrow> Q (DeliveryDelivered, []) (w\<lparr>aw_env := env\<rparr>)"
  shows "wp (call_channel sv d) Q E w"
  using assms by (auto simp: wp_def call_channel_def Let_def env_view_def split: option.splits)

lemma wp_on_approvals:
  "wp (on_approvals m) Q E w \<longleftrightarrow> wp m (\<lambda>a s. Q a (w\<lparr>aw_store := s\<rparr>)) (\<lambda>e s. E e (w\<lparr>aw_store := s\<rparr>)) (aw_store w)"
  by (auto simp: wp_def on_approvals_def split: prod.splits sum.splits)

subsection \<open>The store's contract\<close>

definition shows_view :: "('st \<Rightarrow> string \<rightharpoonup> Transmission) \<Rightarrow> ('st \<Rightarrow> string \<rightharpoonup> EvidenceRecord) \<Rightarrow> 'st ApprovalWorld \<Rightarrow> Approvals" where
  "shows_view plans decided w =
     \<lparr>vw_plans = plans (aw_store w), vw_decided = decided (aw_store w), vw_log = an_audit (aw_env w), vw_sent = an_delivered (aw_env w)\<rparr>"

locale approval_store =
  fixes ops :: "'st ApprovalStoreOps"
    and plans :: "'st \<Rightarrow> string \<rightharpoonup> Transmission" and decided :: "'st \<Rightarrow> string \<rightharpoonup> EvidenceRecord" and wf :: "'st \<Rightarrow> bool"
  assumes get_keeps: "wf s \<Longrightarrow> po_GetTransmission ops tenant plan s = (res, s') \<Longrightarrow> wf s' \<and> plans s' = plans s \<and> decided s' = decided s"
    and get_found: "wf s \<Longrightarrow> po_GetTransmission ops tenant plan s = (Inr t, s') \<Longrightarrow> plans s (storeKey tenant plan) = Some t"
    and wf_key: "wf s \<Longrightarrow> plans s k = Some t \<Longrightarrow> k = plan_key t"
    and refused: "wf s \<Longrightarrow> po_CreateTransmission ops t s = (Inl e, s') \<Longrightarrow> wf s' \<and> plans s' = plans s \<and> decided s' = decided s"
    and created: "wf s \<Longrightarrow> po_CreateTransmission ops t s = (Inr (t', True), s') \<Longrightarrow>
        wf s' \<and> t' = t \<and> plans s (plan_key t) = None \<and> plans s' = (plans s)(plan_key t \<mapsto> t) \<and> decided s' = decided s"
    and existed: "wf s \<Longrightarrow> po_CreateTransmission ops t s = (Inr (t', False), s') \<Longrightarrow>
        wf s' \<and> plans s (plan_key t) = Some t' \<and> plans s' = plans s \<and> decided s' = decided s"
    and attempt_refused: "wf s \<Longrightarrow> po_RecordDeliveryAttempt ops tenant plan oc reason at s = (Inl e, s') \<Longrightarrow>
        wf s' \<and> plans s' = plans s \<and> decided s' = decided s"
    and attempt_kept: "wf s \<Longrightarrow> po_RecordDeliveryAttempt ops tenant plan oc reason at s = (Inr t', s') \<Longrightarrow>
        wf s' \<and> decided s' = decided s \<and> (\<exists>t. plans s (storeKey tenant plan) = Some t \<and> plans s' = (plans s)(storeKey tenant plan \<mapsto> t')
          \<and> same_plan t t' \<and> same_decision t t'
          \<and> tm_Status t' = (if oc = DeliveryDelivered \<and> statusRank (tm_Status t) < statusRank StatusDelivered then StatusDelivered else tm_Status t))"
    and record_refused: "wf s \<Longrightarrow> po_RecordEvidence ops r s = (Inl e, s') \<Longrightarrow> wf s' \<and> plans s' = plans s \<and> decided s' = decided s"
    and record_again: "wf s \<Longrightarrow> po_RecordEvidence ops r s = (Inr (r', False), s') \<Longrightarrow> wf s' \<and> plans s' = plans s \<and> decided s' = decided s"
    and recorded: "wf s \<Longrightarrow> po_RecordEvidence ops r s = (Inr (r', True), s') \<Longrightarrow> er_ConsumedAt r = 0 \<Longrightarrow>
        wf s' \<and> r' = r \<and> decided s (evidence_key r) = None \<and> decided s' = (decided s)(evidence_key r \<mapsto> r)
        \<and> (\<forall>k r'. decided s k = Some r' \<longrightarrow> approval_key r' \<noteq> approval_key r)
        \<and> (\<exists>t t'. plans s (evidence_key r) = Some t \<and> tm_Status t \<noteq> StatusRevoked \<and> plans s' = (plans s)(evidence_key r \<mapsto> t')
            \<and> same_plan t t' \<and> tm_Status t' = StatusEvidenceRecorded
            \<and> tm_Decision t' = ae_Decision (er_Evidence r) \<and> tm_DecidedAt t' = ae_DecidedAt (er_Evidence r))"
    and consume_refused: "wf s \<Longrightarrow> po_ConsumeEvidence ops tenant plan at s = (Inl e, s') \<Longrightarrow> wf s' \<and> plans s' = plans s \<and> decided s' = decided s"
    and consumed: "wf s \<Longrightarrow> po_ConsumeEvidence ops tenant plan at s = (Inr c, s') \<Longrightarrow>
        wf s' \<and> plans s' = plans s \<and> (\<exists>r. decided s (storeKey tenant plan) = Some r \<and> er_ConsumedAt r = 0
          \<and> decided s' = (decided s)(storeKey tenant plan \<mapsto> r\<lparr>er_ConsumedAt := at\<rparr>)
          \<and> (\<forall>t. plans s (storeKey tenant plan) = Some t \<longrightarrow> tm_Status t \<noteq> StatusRevoked)
          \<and> cv_ApprovalRef c = ae_ApprovalRef (er_Evidence r) \<and> cv_PlanRef c = ae_PlanRef (er_Evidence r)
          \<and> cv_Capability c = ae_Capability (er_Evidence r) \<and> cv_ParameterHash c = ae_ParameterHash (er_Evidence r)
          \<and> cv_Decision c = ae_Decision (er_Evidence r))"
    and revoke_refused: "wf s \<Longrightarrow> po_Revoke ops tenant plan reason rid at s = (Inl e, s') \<Longrightarrow> wf s' \<and> plans s' = plans s \<and> decided s' = decided s"
    and revoked: "wf s \<Longrightarrow> po_Revoke ops tenant plan reason rid at s = (Inr t', s') \<Longrightarrow>
        wf s' \<and> decided s' = decided s \<and> (\<exists>t. plans s (storeKey tenant plan) = Some t \<and> tm_Status t' = StatusRevoked
          \<and> plans s' = (plans s)(storeKey tenant plan \<mapsto> t') \<and> same_plan t t' \<and> same_decision t t' \<and> (tm_Status t = StatusRevoked \<longrightarrow> t' = t))"
begin

abbreviation shown :: "'st ApprovalWorld \<Rightarrow> Approvals" where
  "shown \<equiv> shows_view plans decided"

definition reaches :: "'st ApprovalService \<Rightarrow> 'st ApprovalWorld \<Rightarrow> 'st ApprovalWorld \<Rightarrow> bool" where
  "reaches sv w0 w \<longleftrightarrow> wf (aw_store w) \<and> (lifecycle sv)\<^sup>*\<^sup>* (shown w0) (shown w)"

lemma reaches_wf: "reaches sv w0 w \<Longrightarrow> wf (aw_store w)"
  by (simp add: reaches_def)

lemma reaches_env: "reaches sv w0 w \<Longrightarrow> env_view env = env_view (aw_env w) \<Longrightarrow> reaches sv w0 (w\<lparr>aw_env := env\<rparr>)"
  by (simp add: reaches_def shows_view_def env_view_def)

lemma reaches_step: "reaches sv w0 w \<Longrightarrow> lifecycle sv (shown w) (shown w') \<Longrightarrow> wf (aw_store w') \<Longrightarrow> reaches sv w0 w'"
  by (auto simp: reaches_def)

lemma reaches_log:
  assumes "reaches sv w0 w" and "an_audit env = an_audit (aw_env w) @ [ev]" and "an_delivered env = an_delivered (aw_env w)"
  shows "reaches sv w0 (w\<lparr>aw_env := env\<rparr>)"
  by (rule reaches_step[OF assms(1)]) (use lifecycle.appended[of sv "shown w" ev] assms in \<open>simp_all add: shows_view_def reaches_def\<close>)

lemma reaches_sent:
  assumes "reaches sv w0 w" and "plans (aw_store w) k = Some t" and "asv_channel sv n (delivery_of t) = None"
    and "an_audit env = an_audit (aw_env w)" and "an_delivered env = an_delivered (aw_env w) @ [delivery_of t]"
  shows "reaches sv w0 (w\<lparr>aw_env := env\<rparr>)"
  by (rule reaches_step[OF assms(1)])
    (use lifecycle.sent[of "shown w" k t sv n] assms in \<open>simp_all add: shows_view_def reaches_def\<close>)

lemma reaches_same:
  "reaches sv w0 w \<Longrightarrow> wf s' \<and> plans s' = plans (aw_store w) \<and> decided s' = decided (aw_store w) \<Longrightarrow> reaches sv w0 (w\<lparr>aw_store := s'\<rparr>)"
  by (simp add: reaches_def shows_view_def)

lemma wp_get:
  assumes "reaches sv w0 w"
    and "\<And>t w'. reaches sv w0 w' \<Longrightarrow> aw_env w' = aw_env w \<Longrightarrow> plans (aw_store w') (storeKey tenant plan) = Some t \<Longrightarrow> Q t w'"
    and "\<And>e w'. reaches sv w0 w' \<Longrightarrow> aw_env w' = aw_env w \<Longrightarrow> E e w'"
  shows "wp (on_approvals (po_GetTransmission ops tenant plan)) Q E w"
  unfolding wp_on_approvals
proof (rule wpI)
  fix t s' assume g: "po_GetTransmission ops tenant plan (aw_store w) = (Inr t, s')"
  have k: "wf s' \<and> plans s' = plans (aw_store w) \<and> decided s' = decided (aw_store w)" by (rule get_keeps[OF reaches_wf[OF assms(1)] g])
  show "Q t (w\<lparr>aw_store := s'\<rparr>)"
    by (rule assms(2)[OF reaches_same[OF assms(1) k]]) (use k get_found[OF reaches_wf[OF assms(1)] g] in simp_all)
next
  fix e s' assume g: "po_GetTransmission ops tenant plan (aw_store w) = (Inl e, s')"
  show "E e (w\<lparr>aw_store := s'\<rparr>)" by (rule assms(3)[OF reaches_same[OF assms(1) get_keeps[OF reaches_wf[OF assms(1)] g]]]) simp
qed

lemma wp_create:
  assumes "reaches sv w0 w" and "tm_Status t = StatusPending"
    and "logged (an_audit (aw_env w)) auditActionTransmit (tm_TenantRef t) (tm_PlanRef t)"
    and "\<And>t' c w'. reaches sv w0 w' \<Longrightarrow> plans (aw_store w') (plan_key t') = Some t' \<Longrightarrow> Q (t', c) w'"
    and "\<And>e w'. reaches sv w0 w' \<Longrightarrow> E e w'"
  shows "wp (on_approvals (po_CreateTransmission ops t)) Q E w"
  unfolding wp_on_approvals
proof (rule wpI)
  let ?s = "aw_store w"
  have wf: "wf ?s" by (rule reaches_wf[OF assms(1)])
  fix p s' assume c: "po_CreateTransmission ops t ?s = (Inr p, s')"
  obtain t' b where p: "p = (t', b)" by (cases p)
  show "Q p (w\<lparr>aw_store := s'\<rparr>)"
  proof (cases b)
    case True
    with c p have "po_CreateTransmission ops t ?s = (Inr (t', True), s')" by simp
    note n = created[OF wf this]
    have "reaches sv w0 (w\<lparr>aw_store := s'\<rparr>)"
      by (rule reaches_step[OF assms(1)])
        (use n lifecycle.filed[of "shown w" t sv] assms(2,3) in \<open>simp_all add: shows_view_def\<close>)
    with n show ?thesis unfolding p by (intro assms(4)) simp_all
  next
    case False
    with c p have "po_CreateTransmission ops t ?s = (Inr (t', False), s')" by simp
    note n = existed[OF wf this]
    have "plan_key t = plan_key t'" using n wf_key[OF wf] by blast
    with n show ?thesis unfolding p by (intro assms(4) reaches_same[OF assms(1)]) simp_all
  qed
next
  fix e s' assume "po_CreateTransmission ops t (aw_store w) = (Inl e, s')"
  from refused[OF reaches_wf[OF assms(1)] this] show "E e (w\<lparr>aw_store := s'\<rparr>)" by (intro assms(5) reaches_same[OF assms(1)])
qed

lemma wp_attempt_delivery:
  assumes "reaches sv w0 w" and "plans (aw_store w) (storeKey tenant plan) = Some t"
    and "oc = DeliveryDelivered \<longrightarrow> delivery_of t \<in> set (an_delivered (aw_env w))"
  shows "wp (on_approvals (po_RecordDeliveryAttempt ops tenant plan oc reason at)) (\<lambda>_. reaches sv w0) (\<lambda>_. reaches sv w0) w"
  unfolding wp_on_approvals
proof (rule wpI)
  fix t' s' assume a: "po_RecordDeliveryAttempt ops tenant plan oc reason at (aw_store w) = (Inr t', s')"
  have n: "wf s'" "decided s' = decided (aw_store w)" "plans s' = (plans (aw_store w))(storeKey tenant plan \<mapsto> t')"
    "same_plan t t'" "same_decision t t'"
    "tm_Status t' = (if oc = DeliveryDelivered \<and> statusRank (tm_Status t) < statusRank StatusDelivered then StatusDelivered else tm_Status t)"
    using attempt_kept[OF reaches_wf[OF assms(1)] a] assms(2) by auto
  show "reaches sv w0 (w\<lparr>aw_store := s'\<rparr>)"
    by (rule reaches_step[OF assms(1)])
      (use n lifecycle.attempted[of "shown w" "storeKey tenant plan" t t' sv] assms(2,3) in \<open>auto simp: shows_view_def split: if_splits\<close>)
next
  fix e s' assume "po_RecordDeliveryAttempt ops tenant plan oc reason at (aw_store w) = (Inl e, s')"
  from attempt_refused[OF reaches_wf[OF assms(1)] this] show "reaches sv w0 (w\<lparr>aw_store := s'\<rparr>)" by (rule reaches_same[OF assms(1)])
qed

lemma wp_record:
  assumes "reaches sv w0 w" and "plans (aw_store w) (evidence_key r) = Some t" and "authentic sv t r" and "er_ConsumedAt r = 0"
    and "logged (an_audit (aw_env w)) auditActionEvidenceSubmitted (er_TenantRef r) (ae_PlanRef (er_Evidence r))"
    and "\<And>p w'. reaches sv w0 w' \<Longrightarrow> Q p w'" and "\<And>e w'. reaches sv w0 w' \<Longrightarrow> E e w'"
  shows "wp (on_approvals (po_RecordEvidence ops r)) Q E w"
  unfolding wp_on_approvals
proof (rule wpI)
  have wf: "wf (aw_store w)" by (rule reaches_wf[OF assms(1)])
  fix p s' assume c: "po_RecordEvidence ops r (aw_store w) = (Inr p, s')"
  obtain r' b where p: "p = (r', b)" by (cases p)
  have "reaches sv w0 (w\<lparr>aw_store := s'\<rparr>)"
  proof (cases b)
    case True
    with c p have c': "po_RecordEvidence ops r (aw_store w) = (Inr (r', True), s')" by simp
    obtain t' where n: "wf s'" "decided (aw_store w) (evidence_key r) = None" "decided s' = (decided (aw_store w))(evidence_key r \<mapsto> r)"
      "\<forall>k r'. decided (aw_store w) k = Some r' \<longrightarrow> approval_key r' \<noteq> approval_key r"
      "tm_Status t \<noteq> StatusRevoked" "plans s' = (plans (aw_store w))(evidence_key r \<mapsto> t')" "same_plan t t'" "tm_Status t' = StatusEvidenceRecorded"
      "tm_Decision t' = ae_Decision (er_Evidence r)" "tm_DecidedAt t' = ae_DecidedAt (er_Evidence r)"
      using recorded[OF wf c' assms(4)] assms(2) by auto
    have "lifecycle sv (shown w) ((shown w)\<lparr>vw_plans := (vw_plans (shown w))(evidence_key r \<mapsto> t'), vw_decided := (vw_decided (shown w))(evidence_key r \<mapsto> r)\<rparr>)"
      by (rule lifecycle.decided[of _ r t]) (use n assms(2-5) in \<open>simp_all add: shows_view_def\<close>)
    with n show ?thesis by (intro reaches_step[OF assms(1)]) (simp_all add: shows_view_def)
  next
    case False
    with c p have "po_RecordEvidence ops r (aw_store w) = (Inr (r', False), s')" by simp
    from record_again[OF wf this] show ?thesis by (rule reaches_same[OF assms(1)])
  qed
  then show "Q p (w\<lparr>aw_store := s'\<rparr>)" by (rule assms(6))
next
  fix e s' assume "po_RecordEvidence ops r (aw_store w) = (Inl e, s')"
  from record_refused[OF reaches_wf[OF assms(1)] this] show "E e (w\<lparr>aw_store := s'\<rparr>)" by (intro assms(7) reaches_same[OF assms(1)])
qed

lemma wp_consume:
  assumes "reaches sv w0 w"
  shows "wp (on_approvals (po_ConsumeEvidence ops tenant plan at)) (\<lambda>_. reaches sv w0) (\<lambda>_. reaches sv w0) w"
  unfolding wp_on_approvals
proof (rule wpI)
  fix c s' assume "po_ConsumeEvidence ops tenant plan at (aw_store w) = (Inr c, s')"
  from consumed[OF reaches_wf[OF assms] this] obtain r where n: "wf s'" "plans s' = plans (aw_store w)" "decided (aw_store w) (storeKey tenant plan) = Some r"
    "er_ConsumedAt r = 0" "decided s' = (decided (aw_store w))(storeKey tenant plan \<mapsto> r\<lparr>er_ConsumedAt := at\<rparr>)"
    "\<forall>t. plans (aw_store w) (storeKey tenant plan) = Some t \<longrightarrow> tm_Status t \<noteq> StatusRevoked" by blast
  have "lifecycle sv (shown w) ((shown w)\<lparr>vw_decided := (vw_decided (shown w))(storeKey tenant plan \<mapsto> r\<lparr>er_ConsumedAt := at\<rparr>)\<rparr>)"
    by (rule lifecycle.consumed) (use n in \<open>simp_all add: shows_view_def\<close>)
  with n show "reaches sv w0 (w\<lparr>aw_store := s'\<rparr>)" by (intro reaches_step[OF assms]) (simp_all add: shows_view_def)
next
  fix e s' assume "po_ConsumeEvidence ops tenant plan at (aw_store w) = (Inl e, s')"
  from consume_refused[OF reaches_wf[OF assms] this] show "reaches sv w0 (w\<lparr>aw_store := s'\<rparr>)" by (rule reaches_same[OF assms])
qed

lemma wp_revoke:
  assumes "reaches sv w0 w" and "logged (an_audit (aw_env w)) auditActionRevoke tenant plan"
  shows "wp (on_approvals (po_Revoke ops tenant plan reason rid at)) (\<lambda>_. reaches sv w0) (\<lambda>_. reaches sv w0) w"
  unfolding wp_on_approvals
proof (rule wpI)
  fix t' s' assume "po_Revoke ops tenant plan reason rid at (aw_store w) = (Inr t', s')"
  from revoked[OF reaches_wf[OF assms(1)] this] obtain t where n: "wf s'" "decided s' = decided (aw_store w)"
    "plans (aw_store w) (storeKey tenant plan) = Some t" "tm_Status t' = StatusRevoked"
    "plans s' = (plans (aw_store w))(storeKey tenant plan \<mapsto> t')" "same_plan t t'" "same_decision t t'" "tm_Status t = StatusRevoked \<longrightarrow> t' = t" by blast
  show "reaches sv w0 (w\<lparr>aw_store := s'\<rparr>)"
  proof (cases "tm_Status t = StatusRevoked")
    case True
    with n show ?thesis by (intro reaches_same[OF assms(1)]) (simp add: map_upd_triv)
  next
    case False
    have "lifecycle sv (shown w) ((shown w)\<lparr>vw_plans := (vw_plans (shown w))(storeKey tenant plan \<mapsto> t')\<rparr>)"
      by (rule lifecycle.revoked[of _ _ t]) (use n False assms(2) in \<open>simp_all add: shows_view_def\<close>)
    with n show ?thesis by (intro reaches_step[OF assms(1)]) (simp_all add: shows_view_def)
  qed
next
  fix e s' assume "po_Revoke ops tenant plan reason rid at (aw_store w) = (Inl e, s')"
  from revoke_refused[OF reaches_wf[OF assms(1)] this] show "reaches sv w0 (w\<lparr>aw_store := s'\<rparr>)" by (rule reaches_same[OF assms(1)])
qed

lemma deliver_reaches:
  assumes "asv_store sv = ops" and "reaches sv w0 w" and "plans (aw_store w) (plan_key t) = Some t"
  shows "wp (deliver sv t) (\<lambda>_. reaches sv w0) (\<lambda>_. reaches sv w0) w"
  unfolding deliver_def wp_simps assms(1)
proof (rule wp_call_channel)
  fix env :: ApprovalEnv assume env: "env_view env = env_view (aw_env w)"
  show "wp (on_approvals (po_RecordDeliveryAttempt ops (tm_TenantRef t) (tm_PlanRef t) (fst (DeliveryFailed, ''channel_unavailable''))
      (snd (DeliveryFailed, ''channel_unavailable'')) (asv_now sv (an_ticks (aw_env (w\<lparr>aw_env := env\<rparr>)))))) (\<lambda>_. reaches sv w0) (\<lambda>_. reaches sv w0)
      (w\<lparr>aw_env := env, aw_env := (aw_env (w\<lparr>aw_env := env\<rparr>))\<lparr>an_ticks := Suc (an_ticks (aw_env (w\<lparr>aw_env := env\<rparr>)))\<rparr>\<rparr>)"
    by (rule wp_attempt_delivery[where t = t])
      (use assms env in \<open>simp_all add: plan_key_def reaches_env env_view_def\<close>)
next
  fix n and env :: ApprovalEnv assume c: "asv_channel sv n (delivery_of t) = None" and env: "an_audit env = an_audit (aw_env w)" "an_delivered env = an_delivered (aw_env w) @ [delivery_of t]"
  have "reaches sv w0 (w\<lparr>aw_env := env\<lparr>an_ticks := k\<rparr>\<rparr>)" for k
    by (rule reaches_sent[OF assms(2,3) c]) (simp_all add: env)
  then show "wp (on_approvals (po_RecordDeliveryAttempt ops (tm_TenantRef t) (tm_PlanRef t) (fst (DeliveryDelivered, []))
      (snd (DeliveryDelivered, [])) (asv_now sv (an_ticks (aw_env (w\<lparr>aw_env := env\<rparr>)))))) (\<lambda>_. reaches sv w0) (\<lambda>_. reaches sv w0)
      (w\<lparr>aw_env := env, aw_env := (aw_env (w\<lparr>aw_env := env\<rparr>))\<lparr>an_ticks := Suc (an_ticks (aw_env (w\<lparr>aw_env := env\<rparr>)))\<rparr>\<rparr>)"
    by (intro wp_attempt_delivery[where t = t]) (use assms(3) env in \<open>simp_all add: plan_key_def\<close>)
qed

lemma continue_reaches:
  assumes "asv_store sv = ops" and "reaches sv w0 w" and "plans (aw_store w) (plan_key t) = Some t"
  shows "wp (continueExisting sv t c) (\<lambda>_. reaches sv w0) (\<lambda>_. reaches sv w0) w"
  unfolding continueExisting_def wp_simps using deliver_reaches[OF assms] assms(2) by simp

lemma transmit_new_reaches:
  assumes "asv_store sv = ops" and "reaches sv w0 w" and "tm_Status c = StatusPending"
  shows "wp (transmit_new sv prin c) (\<lambda>_. reaches sv w0) (\<lambda>_. reaches sv w0) w"
  unfolding transmit_new_def wp_simps assms(1)
proof (rule wp_audited_as, goal_cases)
  case (3 ref env)
  show ?case
    by (rule wp_create[OF reaches_log[OF assms(2) 3(1,2)]])
      (use 3 assms(3) in \<open>auto simp: logged_def intro!: continue_reaches deliver_reaches assms(1)\<close>)
qed (auto intro: reaches_env[OF assms(2)] reaches_log[OF assms(2)])

lemma Transmit_reaches:
  assumes "asv_store sv = ops" and "reaches sv w0 w"
  shows "wp (Transmit sv d prin req) (\<lambda>_. reaches sv w0) (\<lambda>_. reaches sv w0) w"
proof -
  have tick: "reaches sv w0 (w\<lparr>aw_env := (aw_env w)\<lparr>an_ticks := n\<rparr>\<rparr>)" for n
    by (rule reaches_env[OF assms(2)]) (simp add: env_view_def)
  have found: "wp (on_approvals (po_GetTransmission ops tn pl)) Q E w'"
    if r: "reaches sv w0 w'" and Q: "\<And>x w1. reaches sv w0 w1 \<Longrightarrow> plans (aw_store w1) (plan_key x) = Some x \<Longrightarrow> Q x w1"
      and E: "\<And>e w1. reaches sv w0 w1 \<Longrightarrow> E e w1" for tn pl w' Q E
  proof (rule wp_get[OF r])
    fix x w1 assume w1: "reaches sv w0 w1" "plans (aw_store w1) (storeKey tn pl) = Some x"
    with wf_key[OF reaches_wf[OF w1(1)] w1(2)] show "Q x w1" by (intro Q) simp_all
  qed (rule E)
  show ?thesis
    unfolding Transmit_def wp_simps assms(1)
    by (auto simp: assms(2) tick candidate_of_def wp_simps split: option.split
        intro!: found[OF tick] continue_reaches transmit_new_reaches assms(1))
qed

lemma wp_get_plan:
  assumes "reaches sv w0 w" and "\<And>x w1. reaches sv w0 w1 \<Longrightarrow> plans (aw_store w1) (storeKey tn pl) = Some x \<Longrightarrow> Q x w1"
    and "\<And>e w1. reaches sv w0 w1 \<Longrightarrow> E e w1"
  shows "wp (on_approvals (po_GetTransmission ops tn pl)) Q E w"
  by (rule wp_get[OF assms(1)]) (use assms(2,3) in simp_all)

lemma reaches_tick: "reaches sv w0 w \<Longrightarrow> reaches sv w0 (w\<lparr>aw_env := (aw_env w)\<lparr>an_ticks := n\<rparr>\<rparr>)"
  by (rule reaches_env) (simp_all add: env_view_def)

lemma reaches_id: "reaches sv w0 w \<Longrightarrow> reaches sv w0 (w\<lparr>aw_env := (aw_env w)\<lparr>an_ids := n\<rparr>\<rparr>)"
  by (rule reaches_env) (simp_all add: env_view_def)

lemma store_evidence_reaches:
  assumes "asv_store sv = ops" and "reaches sv w0 w" and "plans (aw_store w) (storeKey (pc_TenantRef prin) (ae_PlanRef ev)) = Some t"
    and "ApprovalEvidence_Validate ev = None" and "ae_PlanHash ev = tm_PlanHash t" and "ae_Capability ev = tm_Capability t"
    and "ae_ParameterHash ev = tm_ParameterHash t" and "ae_ApproverAuthority ev = tm_Authority t" and "evidence_checks sv prin ev t at = None"
  shows "wp (store_evidence sv prin ev at) (\<lambda>_. reaches sv w0) (\<lambda>_. reaches sv w0) w"
proof -
  have auth: "CanonicalEvidenceHash ev \<noteq> [] \<Longrightarrow> authentic sv t \<lparr>er_TenantRef = pc_TenantRef prin, er_Evidence = ev, er_EvidenceHash = CanonicalEvidenceHash ev,
      er_AuditRefID = ref, er_RecordedAt = at, er_ConsumedAt = 0\<rparr>" for ref
    using assms(4-9) by (auto simp: authentic_def evidence_checks_def first_error_None split: option.splits)
  have marked: "wp (append_approval_audit sv event) (\<lambda>r. wp (case r of Inl e \<Rightarrow> fail (f e) | Inr _ \<Rightarrow> ret x) (\<lambda>_. reaches sv w0) (\<lambda>_. reaches sv w0)) E w'"
    if "reaches sv w0 w'" for w' event f x E
    by (rule wp_append_approval_audit) (use that in \<open>auto simp: wp_simps intro: reaches_env reaches_log\<close>)
  have recorded: "wp (on_approvals (po_RecordEvidence ops \<lparr>er_TenantRef = pc_TenantRef prin, er_Evidence = ev, er_EvidenceHash = CanonicalEvidenceHash ev,
        er_AuditRefID = ref, er_RecordedAt = at, er_ConsumedAt = 0\<rparr>)) Q E (w\<lparr>aw_env := env\<rparr>)"
    if "CanonicalEvidenceHash ev \<noteq> []" "reaches sv w0 (w\<lparr>aw_env := env\<rparr>)" "logged (an_audit env) auditActionEvidenceSubmitted (pc_TenantRef prin) (ae_PlanRef ev)"
      "\<And>p w'. reaches sv w0 w' \<Longrightarrow> Q p w'" "\<And>e w'. reaches sv w0 w' \<Longrightarrow> E e w'" for ref env Q E
    by (rule wp_record[OF that(2) _ auth[OF that(1)]]) (use that assms(3) in \<open>simp_all add: evidence_key_def\<close>)
  show ?thesis
    unfolding store_evidence_def wp_require wp_andthen assms(1)
  proof (intro conjI impI)
    assume h: "CanonicalEvidenceHash ev \<noteq> []"
    show "wp (audited_as sv ''approval evidence audit append failed'' (evidence_event prin ev auditActionEvidenceSubmitted
        [(''approval_ref'', ae_ApprovalRef ev), (''approver_authority'', ae_ApproverAuthority ev)]))
      (\<lambda>ref. wp (on_error map_record_err (on_approvals (po_RecordEvidence ops \<lparr>er_TenantRef = pc_TenantRef prin, er_Evidence = ev,
          er_EvidenceHash = CanonicalEvidenceHash ev, er_AuditRefID = ref, er_RecordedAt = at, er_ConsumedAt = 0\<rparr>)))
        (\<lambda>a. wp (case a of (stored, created) \<Rightarrow> if \<not> created then ret stored
            else andthen (append_approval_audit sv (evidence_event prin ev auditActionEvidenceRecorded [(''approval_ref'', ae_ApprovalRef ev)]))
              (\<lambda>r. case r of Inl e \<Rightarrow> fail (Joined [Sentinel ErrUnavailable, Message ''approval evidence acceptance audit append failed'', e]) | Inr _ \<Rightarrow> ret stored))
          (\<lambda>_. reaches sv w0) (\<lambda>_. reaches sv w0)) (\<lambda>_. reaches sv w0)) (\<lambda>_. reaches sv w0) w"
    proof (rule wp_audited_as, goal_cases)
      case (3 ref env)
      have log: "logged (an_audit env) auditActionEvidenceSubmitted (pc_TenantRef prin) (ae_PlanRef ev)"
        using 3(1) by (simp add: logged_def evidence_event_def)
      show ?case unfolding wp_on_error
        by (rule recorded[OF h reaches_log[OF assms(2) 3(1,2)] log]) (auto simp: wp_ret wp_andthen intro: marked)
    qed (auto intro: reaches_env[OF assms(2)] reaches_log[OF assms(2)])
  qed (rule assms(2))
qed

lemma RecordEvidence_reaches:
  assumes "asv_store sv = ops" and "reaches sv w0 w"
  shows "wp (RecordEvidence sv d prin ev) (\<lambda>_. reaches sv w0) (\<lambda>_. reaches sv w0) w"
  unfolding RecordEvidence_def wp_simps assms(1)
  by (auto simp: assms(2) reaches_tick split: option.split
      intro!: wp_get_plan[OF assms(2)] store_evidence_reaches[OF assms(1) reaches_tick])

lemma GetStatus_reaches:
  assumes "asv_store sv = ops" and "reaches sv w0 w"
  shows "wp (GetStatus sv d prin plan) (\<lambda>_. reaches sv w0) (\<lambda>_. reaches sv w0) w"
  unfolding GetStatus_def wp_simps assms(1) by (auto simp: assms(2) intro!: wp_get_plan[OF assms(2)])

lemma Revoke_reaches:
  assumes "asv_store sv = ops" and "reaches sv w0 w"
  shows "wp (Revoke sv d prin plan reason) (\<lambda>_. reaches sv w0) (\<lambda>_. reaches sv w0) w"
proof -
  have rev: "wp (audited_as sv msg \<lparr>av_TenantRef = pc_TenantRef prin, av_PrincipalRef = pc_PrincipalRef prin, av_Action = auditActionRevoke, av_PlanRef = plan,
        av_Decision = dec, av_Details = det\<rparr>) (\<lambda>_ w. (asv_newID sv (an_ids (aw_env w)) ''aprvk_'' \<noteq> [] \<longrightarrow>
          wp (on_approvals (po_Revoke ops (pc_TenantRef prin) plan reason (asv_newID sv (an_ids (aw_env w)) ''aprvk_'') (asv_now sv (an_ticks (aw_env w)))))
            (\<lambda>_. reaches sv w0) (\<lambda>_. reaches sv w0) (w\<lparr>aw_env := (aw_env w)\<lparr>an_ids := Suc (an_ids (aw_env w)), an_ticks := Suc (an_ticks (aw_env w))\<rparr>\<rparr>))
        \<and> (asv_newID sv (an_ids (aw_env w)) ''aprvk_'' = [] \<longrightarrow> reaches sv w0 (w\<lparr>aw_env := (aw_env w)\<lparr>an_ids := Suc (an_ids (aw_env w))\<rparr>\<rparr>)))
      (\<lambda>_. reaches sv w0) w'" if r: "reaches sv w0 w'" for w' msg dec det
  proof (rule wp_audited_as, goal_cases)
    case (3 ref env)
    have "logged (an_audit env) auditActionRevoke (pc_TenantRef prin) plan" using 3(1) by (simp add: logged_def)
    moreover have "reaches sv w0 (w'\<lparr>aw_env := env\<lparr>an_ids := n, an_ticks := m\<rparr>\<rparr>)" "reaches sv w0 (w'\<lparr>aw_env := env\<lparr>an_ids := n\<rparr>\<rparr>)" for m n
      by (rule reaches_log[OF r]; simp add: 3)+
    ultimately show ?case by (auto intro!: wp_revoke)
  qed (auto intro: reaches_env[OF r] reaches_log[OF r])
  show ?thesis
    unfolding Revoke_def wp_simps assms(1)
    by (auto simp: assms(2) intro!: wp_get_plan[OF assms(2)]) (rule wp_mono, rule rev, assumption, auto simp: reaches_tick)
qed

lemma serve_reaches:
  assumes "asv_store sv = ops" and "reaches sv w0 w"
  shows "reaches sv w0 (approval_serve sv c w)"
  using Transmit_reaches[OF assms] RecordEvidence_reaches[OF assms] GetStatus_reaches[OF assms] Revoke_reaches[OF assms] wp_consume[OF assms(2)]
  by (cases c) (simp_all add: approval_serve_def wp_state assms(1))

lemma run_reaches:
  "asv_store sv = ops \<Longrightarrow> reaches sv w0 w \<Longrightarrow> reaches sv w0 (approval_run sv cs w)"
  by (induction cs arbitrary: w) (simp_all add: approval_run_def serve_reaches)

lemma run_refines:
  assumes "asv_store sv = ops" and "wf (aw_store w)"
  shows "(lifecycle sv)\<^sup>*\<^sup>* (shown w) (shown (approval_run sv cs w)) \<and> wf (aw_store (approval_run sv cs w))"
  using run_reaches[OF assms(1), of w w cs] assms(2) by (simp add: reaches_def)

end

text \<open>The in-memory store: keys are those of what they lead to, and the index of approval references is exact.\<close>

definition wf_approvals :: "ApprovalStore \<Rightarrow> bool" where
  "wf_approvals s \<longleftrightarrow>
     (\<forall>k t. ps_transmissions s k = Some t \<longrightarrow> k = plan_key t)
     \<and> (\<forall>k r. ps_evidence s k = Some r \<longrightarrow> k = evidence_key r \<and> ps_evidenceRefs s (approval_key r) = Some k
          \<and> (\<exists>t. ps_transmissions s k = Some t \<and> tm_Status t \<in> {StatusEvidenceRecorded, StatusRevoked}))
     \<and> (\<forall>a k. ps_evidenceRefs s a = Some k \<longrightarrow> (\<exists>r. ps_evidence s k = Some r \<and> approval_key r = a))"

lemmas memory_defs = memory_approvals_def mp_CreateTransmission_def mp_GetTransmission_def mp_RecordDeliveryAttempt_def
  mp_RecordEvidence_def mp_ConsumeEvidence_def mp_Revoke_def Let_def

lemma same_plan_refl [simp]: "same_plan t t" and same_decision_refl [simp]: "same_decision t t"
  by (simp_all add: same_plan_def same_decision_def sameBinding_def)

lemma plan_key_same: "same_plan t t' \<Longrightarrow> plan_key t' = plan_key t"
  by (simp add: same_plan_def plan_key_def)

lemma wf_plan: "wf_approvals s \<Longrightarrow> ps_transmissions s k = Some t \<Longrightarrow> k = plan_key t"
  unfolding wf_approvals_def by blast

lemma wf_evidence:
  assumes "wf_approvals s" and "ps_evidence s k = Some r"
  shows "k = evidence_key r" and "ps_evidenceRefs s (approval_key r) = Some k"
    and "\<exists>t. ps_transmissions s k = Some t \<and> tm_Status t \<in> {StatusEvidenceRecorded, StatusRevoked}"
  using assms unfolding wf_approvals_def by blast+

lemma wf_ref:
  assumes "wf_approvals s" and "ps_evidenceRefs s a = Some k"
  obtains r where "ps_evidence s k = Some r" and "approval_key r = a"
  using assms unfolding wf_approvals_def by blast

lemma wf_update_plan:
  assumes "wf_approvals s" and "ps_transmissions s k = Some t" and "same_plan t t'"
    and "tm_Status t \<in> {StatusEvidenceRecorded, StatusRevoked} \<longrightarrow> tm_Status t' \<in> {StatusEvidenceRecorded, StatusRevoked}"
    and "ps_transmissions s' = (ps_transmissions s)(k \<mapsto> t')" and "ps_evidence s' = ps_evidence s" and "ps_evidenceRefs s' = ps_evidenceRefs s"
  shows "wf_approvals s'"
  unfolding wf_approvals_def assms(5-7)
proof (intro conjI allI impI)
  show "k' = plan_key t1" if "((ps_transmissions s)(k \<mapsto> t')) k' = Some t1" for k' t1
    using that wf_plan[OF assms(1)] wf_plan[OF assms(1,2)] plan_key_same[OF assms(3)] by (auto split: if_splits)
  show "\<exists>t1. ((ps_transmissions s)(k \<mapsto> t')) k' = Some t1 \<and> tm_Status t1 \<in> {StatusEvidenceRecorded, StatusRevoked}"
    if "ps_evidence s k' = Some r" for k' r
  proof (cases "k' = k")
    case True
    moreover from that assms(1,2) True have "tm_Status t \<in> {StatusEvidenceRecorded, StatusRevoked}" by (fastforce simp: wf_approvals_def)
    ultimately show ?thesis using assms(4) by simp
  next
    case False
    with that assms(1) show ?thesis by (fastforce simp: wf_approvals_def)
  qed
qed (use assms(1) in \<open>auto simp: wf_approvals_def\<close>)

lemma wf_decide:
  assumes "wf_approvals s" and "ps_transmissions s (evidence_key r) = Some t" and "same_plan t t'" and "tm_Status t' = StatusEvidenceRecorded"
    and "ps_evidence s (evidence_key r) = None" and "ps_evidenceRefs s (approval_key r) = None"
    and "ps_transmissions s' = (ps_transmissions s)(evidence_key r \<mapsto> t')" and "ps_evidence s' = (ps_evidence s)(evidence_key r \<mapsto> r)"
    and "ps_evidenceRefs s' = (ps_evidenceRefs s)(approval_key r \<mapsto> evidence_key r)"
  shows "wf_approvals s'"
  unfolding wf_approvals_def assms(7-9)
proof (intro conjI allI impI)
  let ?k = "evidence_key r"
  show "k' = plan_key t1" if "((ps_transmissions s)(?k \<mapsto> t')) k' = Some t1" for k' t1
    using that wf_plan[OF assms(1)] wf_plan[OF assms(1,2)] plan_key_same[OF assms(3)] by (auto split: if_splits)
  fix k' r' assume e: "((ps_evidence s)(?k \<mapsto> r)) k' = Some r'"
  then consider "k' = ?k" "r' = r" | "k' \<noteq> ?k" "ps_evidence s k' = Some r'" by (auto split: if_splits)
  note cases = this
  show "k' = evidence_key r'" using cases assms(1) by cases (auto simp: wf_approvals_def)
  show "((ps_evidenceRefs s)(approval_key r \<mapsto> ?k)) (approval_key r') = Some k'"
    using cases
  proof cases
    case 2
    then have "ps_evidenceRefs s (approval_key r') = Some k'" using assms(1) unfolding wf_approvals_def by blast
    with assms(6) show ?thesis by auto
  qed simp
  show "\<exists>t1. ((ps_transmissions s)(?k \<mapsto> t')) k' = Some t1 \<and> tm_Status t1 \<in> {StatusEvidenceRecorded, StatusRevoked}"
    using cases
  proof cases
    case 2
    then have "\<exists>t1. ps_transmissions s k' = Some t1 \<and> tm_Status t1 \<in> {StatusEvidenceRecorded, StatusRevoked}"
      using assms(1) unfolding wf_approvals_def by blast
    with 2 show ?thesis by simp
  qed (simp add: assms(4))
next
  fix a k' assume a: "((ps_evidenceRefs s)(approval_key r \<mapsto> evidence_key r)) a = Some k'"
  show "\<exists>r'. ((ps_evidence s)(evidence_key r \<mapsto> r)) k' = Some r' \<and> approval_key r' = a"
  proof (cases "a = approval_key r")
    case True
    with a show ?thesis by simp
  next
    case False
    with a have "ps_evidenceRefs s a = Some k'" by simp
    from wf_ref[OF assms(1) this] obtain r' where r': "ps_evidence s k' = Some r'" "approval_key r' = a" by blast
    then have "k' \<noteq> evidence_key r" using assms(5) by auto
    with r' show ?thesis by simp
  qed
qed

lemma wf_consume:
  assumes "wf_approvals s" and "ps_evidence s k = Some r" and "ps_evidence s' = (ps_evidence s)(k \<mapsto> r\<lparr>er_ConsumedAt := at\<rparr>)"
    and "ps_transmissions s' = ps_transmissions s" and "ps_evidenceRefs s' = ps_evidenceRefs s"
  shows "wf_approvals s'"
proof -
  have keys: "evidence_key (r\<lparr>er_ConsumedAt := at\<rparr>) = evidence_key r" "approval_key (r\<lparr>er_ConsumedAt := at\<rparr>) = approval_key r"
    by (simp_all add: evidence_key_def approval_key_def)
  show ?thesis
    unfolding wf_approvals_def assms(3-5)
  proof (intro conjI allI impI)
    fix k' r' assume "((ps_evidence s)(k \<mapsto> r\<lparr>er_ConsumedAt := at\<rparr>)) k' = Some r'"
    then obtain r0 where r0: "ps_evidence s k' = Some r0" "evidence_key r' = evidence_key r0" "approval_key r' = approval_key r0"
      using assms(2) keys by (auto split: if_splits)
    from wf_evidence[OF assms(1) r0(1)] r0(2,3) show "k' = evidence_key r'" "ps_evidenceRefs s (approval_key r') = Some k'"
      "\<exists>t. ps_transmissions s k' = Some t \<and> tm_Status t \<in> {StatusEvidenceRecorded, StatusRevoked}" by simp_all
  next
    fix a k' assume "ps_evidenceRefs s a = Some k'"
    from wf_ref[OF assms(1) this] obtain r0 where "ps_evidence s k' = Some r0" "approval_key r0 = a" by blast
    with assms(2) keys show "\<exists>r'. ((ps_evidence s)(k \<mapsto> r\<lparr>er_ConsumedAt := at\<rparr>)) k' = Some r' \<and> approval_key r' = a" by auto
  qed (rule wf_plan[OF assms(1)])
qed

lemma wf_create:
  assumes "wf_approvals s" and "ps_transmissions s (plan_key t) = None" and "ps_transmissions s' = (ps_transmissions s)(plan_key t \<mapsto> t)"
    and "ps_evidence s' = ps_evidence s" and "ps_evidenceRefs s' = ps_evidenceRefs s"
  shows "wf_approvals s'"
  unfolding wf_approvals_def assms(3-5)
proof (intro conjI allI impI)
  show "k = plan_key t1" if "((ps_transmissions s)(plan_key t \<mapsto> t)) k = Some t1" for k t1
    using that wf_plan[OF assms(1)] by (auto split: if_splits)
  fix k r assume r: "ps_evidence s k = Some r"
  from wf_evidence[OF assms(1) r] show "k = evidence_key r" "ps_evidenceRefs s (approval_key r) = Some k" by simp_all
  from wf_evidence(3)[OF assms(1) r] assms(2)
  show "\<exists>t1. ((ps_transmissions s)(plan_key t \<mapsto> t)) k = Some t1 \<and> tm_Status t1 \<in> {StatusEvidenceRecorded, StatusRevoked}" by auto
next
  fix a k assume "ps_evidenceRefs s a = Some k"
  from wf_ref[OF assms(1) this] show "\<exists>r. ps_evidence s k = Some r \<and> approval_key r = a" by blast
qed

lemma wf_New: "wf_approvals NewApprovalStore"
  by (simp add: wf_approvals_def NewApprovalStore_def)

definition decided_plan :: "EvidenceRecord \<Rightarrow> Transmission \<Rightarrow> Transmission" where
  "decided_plan r t = (if statusRank StatusEvidenceRecorded > statusRank (tm_Status t) then t\<lparr>tm_Status := StatusEvidenceRecorded\<rparr> else t)
      \<lparr>tm_Decision := ae_Decision (er_Evidence r), tm_DecidedAt := ae_DecidedAt (er_Evidence r), tm_UpdatedAt := er_RecordedAt r\<rparr>"

lemma decided_plan:
  assumes "tm_Status t \<noteq> StatusRevoked"
  shows "same_plan t (decided_plan r t)" and "tm_Status (decided_plan r t) = StatusEvidenceRecorded"
    and "tm_Decision (decided_plan r t) = ae_Decision (er_Evidence r)" and "tm_DecidedAt (decided_plan r t) = ae_DecidedAt (er_Evidence r)"
  using assms by (cases "tm_Status t"; simp add: decided_plan_def same_plan_def sameBinding_def statusRank_def)+

lemma mp_RecordEvidence_True:
  assumes "mp_RecordEvidence r s = (Inr (r', True), s')"
  obtains t where "ps_transmissions s (evidence_key r) = Some t" and "tm_Status t \<noteq> StatusRevoked"
    and "ps_evidenceRefs s (approval_key r) = None" and "ps_evidence s (evidence_key r) = None" and "r' = r"
    and "s' = s\<lparr>ps_evidence := (ps_evidence s)(evidence_key r \<mapsto> r), ps_evidenceRefs := (ps_evidenceRefs s)(approval_key r \<mapsto> evidence_key r),
           ps_transmissions := (ps_transmissions s)(evidence_key r \<mapsto> decided_plan r t)\<rparr>"
proof -
  note op = assms[unfolded mp_RecordEvidence_def Let_def evidence_key_def[symmetric] approval_key_def[symmetric]]
  obtain t where t: "ps_transmissions s (evidence_key r) = Some t" using op by (cases "ps_transmissions s (evidence_key r)") simp_all
  have st: "tm_Status t \<noteq> StatusRevoked" using op t by (cases "tm_Status t = StatusRevoked") simp_all
  have ref: "ps_evidenceRefs s (approval_key r) = None"
    using op t st by (cases "ps_evidenceRefs s (approval_key r)") (simp_all split: if_splits)
  have ev: "ps_evidence s (evidence_key r) = None"
    using op t st ref by (cases "ps_evidence s (evidence_key r)") simp_all
  have "(Inr (r, True) :: approval_go_error + EvidenceRecord \<times> bool,
      s\<lparr>ps_evidence := (ps_evidence s)(evidence_key r \<mapsto> r), ps_evidenceRefs := (ps_evidenceRefs s)(approval_key r \<mapsto> evidence_key r),
        ps_transmissions := (ps_transmissions s)(evidence_key r \<mapsto> decided_plan r t)\<rparr>) = (Inr (r', True), s')"
    unfolding op[symmetric] decided_plan_def using t st ref ev by simp
  then have "r' = r" and "s' = s\<lparr>ps_evidence := (ps_evidence s)(evidence_key r \<mapsto> r), ps_evidenceRefs := (ps_evidenceRefs s)(approval_key r \<mapsto> evidence_key r),
        ps_transmissions := (ps_transmissions s)(evidence_key r \<mapsto> decided_plan r t)\<rparr>"
    by (metis Inr_inject prod.inject)+
  then show ?thesis by (rule that[OF t st ref ev])
qed

interpretation mem: approval_store memory_approvals ps_transmissions ps_evidence wf_approvals
proof
  fix s s' :: ApprovalStore and res t t' tenant plan k e oc reason at r r' c rid
  show "wf_approvals s' \<and> ps_transmissions s' = ps_transmissions s \<and> ps_evidence s' = ps_evidence s"
    if wf: "wf_approvals s" and op: "po_GetTransmission memory_approvals tenant plan s = (res, s')"
    using wf op by (auto simp: memory_defs split: option.splits)
  show "ps_transmissions s (storeKey tenant plan) = Some t"
    if wf: "wf_approvals s" and op: "po_GetTransmission memory_approvals tenant plan s = (Inr t, s')"
    using wf op by (auto simp: memory_defs split: option.splits)
  show "k = plan_key t" if "wf_approvals s" "ps_transmissions s k = Some t" using wf_plan[OF that] .
  show "wf_approvals s' \<and> ps_transmissions s' = ps_transmissions s \<and> ps_evidence s' = ps_evidence s"
    if wf: "wf_approvals s" and op: "po_CreateTransmission memory_approvals t s = (Inl e, s')"
    using wf op by (auto simp: memory_defs split: option.splits)
  show "wf_approvals s' \<and> t' = t \<and> ps_transmissions s (plan_key t) = None
      \<and> ps_transmissions s' = (ps_transmissions s)(plan_key t \<mapsto> t) \<and> ps_evidence s' = ps_evidence s"
    if wf: "wf_approvals s" and op: "po_CreateTransmission memory_approvals t s = (Inr (t', True), s')"
  proof -
    have new: "t' = t" "ps_transmissions s (plan_key t) = None" "ps_transmissions s' = (ps_transmissions s)(plan_key t \<mapsto> t)"
      "ps_evidence s' = ps_evidence s" "ps_evidenceRefs s' = ps_evidenceRefs s"
      using op by (auto simp: memory_defs plan_key_def split: option.splits)
    with wf_create[OF wf new(2-5)] show ?thesis by blast
  qed
  show "wf_approvals s' \<and> ps_transmissions s (plan_key t) = Some t' \<and> ps_transmissions s' = ps_transmissions s \<and> ps_evidence s' = ps_evidence s"
    if wf: "wf_approvals s" and op: "po_CreateTransmission memory_approvals t s = (Inr (t', False), s')"
    using wf op by (auto simp: memory_defs plan_key_def split: option.splits)
  show "wf_approvals s' \<and> ps_transmissions s' = ps_transmissions s \<and> ps_evidence s' = ps_evidence s"
    if wf: "wf_approvals s" and op: "po_RecordDeliveryAttempt memory_approvals tenant plan oc reason at s = (Inl e, s')"
    using wf op by (auto simp: memory_defs split: option.splits)
  show "wf_approvals s' \<and> ps_evidence s' = ps_evidence s \<and> (\<exists>t. ps_transmissions s (storeKey tenant plan) = Some t
      \<and> ps_transmissions s' = (ps_transmissions s)(storeKey tenant plan \<mapsto> t') \<and> same_plan t t' \<and> same_decision t t'
      \<and> tm_Status t' = (if oc = DeliveryDelivered \<and> statusRank (tm_Status t) < statusRank StatusDelivered then StatusDelivered else tm_Status t))"
    if wf: "wf_approvals s" and op: "po_RecordDeliveryAttempt memory_approvals tenant plan oc reason at s = (Inr t', s')"
  proof -
    obtain t0 where t0: "ps_transmissions s (storeKey tenant plan) = Some t0" and s': "ps_evidence s' = ps_evidence s" "ps_evidenceRefs s' = ps_evidenceRefs s"
      "ps_transmissions s' = (ps_transmissions s)(storeKey tenant plan \<mapsto> t')"
      and t': "same_plan t0 t'" "same_decision t0 t'"
        "tm_Status t' = (if oc = DeliveryDelivered \<and> statusRank (tm_Status t0) < statusRank StatusDelivered then StatusDelivered else tm_Status t0)"
      using op by (auto simp: memory_defs same_plan_def same_decision_def sameBinding_def split: option.splits)
    have "wf_approvals s'"
      by (rule wf_update_plan[OF wf t0 t'(1) _ s'(3) s'(1,2)]) (use t'(3) in \<open>auto simp: statusRank_def\<close>)
    with t0 s' t' show ?thesis by blast
  qed
  show "wf_approvals s' \<and> ps_transmissions s' = ps_transmissions s \<and> ps_evidence s' = ps_evidence s"
    if wf: "wf_approvals s" and op: "po_RecordEvidence memory_approvals r s = (Inl e, s')"
    using wf op by (auto simp: memory_defs split: option.splits if_splits)
  show "wf_approvals s' \<and> ps_transmissions s' = ps_transmissions s \<and> ps_evidence s' = ps_evidence s"
    if wf: "wf_approvals s" and op: "po_RecordEvidence memory_approvals r s = (Inr (r', False), s')"
    using wf op by (auto simp: memory_defs split: option.splits if_splits)
  show "wf_approvals s' \<and> r' = r \<and> ps_evidence s (evidence_key r) = None \<and> ps_evidence s' = (ps_evidence s)(evidence_key r \<mapsto> r)
      \<and> (\<forall>k r'. ps_evidence s k = Some r' \<longrightarrow> approval_key r' \<noteq> approval_key r)
      \<and> (\<exists>t t'. ps_transmissions s (evidence_key r) = Some t \<and> tm_Status t \<noteq> StatusRevoked
          \<and> ps_transmissions s' = (ps_transmissions s)(evidence_key r \<mapsto> t') \<and> same_plan t t' \<and> tm_Status t' = StatusEvidenceRecorded
          \<and> tm_Decision t' = ae_Decision (er_Evidence r) \<and> tm_DecidedAt t' = ae_DecidedAt (er_Evidence r))"
    if wf: "wf_approvals s" and op: "po_RecordEvidence memory_approvals r s = (Inr (r', True), s')"
  proof -
    have "mp_RecordEvidence r s = (Inr (r', True), s')" using op by (simp add: memory_approvals_def)
    then obtain t where t: "ps_transmissions s (evidence_key r) = Some t" "tm_Status t \<noteq> StatusRevoked" "ps_evidenceRefs s (approval_key r) = None"
      "ps_evidence s (evidence_key r) = None" "r' = r"
      and s': "s' = s\<lparr>ps_evidence := (ps_evidence s)(evidence_key r \<mapsto> r), ps_evidenceRefs := (ps_evidenceRefs s)(approval_key r \<mapsto> evidence_key r),
           ps_transmissions := (ps_transmissions s)(evidence_key r \<mapsto> decided_plan r t)\<rparr>"
      by (rule mp_RecordEvidence_True)
    note t' = decided_plan[OF t(2), of r]
    have "wf_approvals s'" by (rule wf_decide[OF wf t(1) t'(1,2) t(4,3)]) (simp_all add: s')
    moreover have "approval_key r1 \<noteq> approval_key r" if "ps_evidence s k1 = Some r1" for k1 r1
      using wf_evidence(2)[OF wf that] t(3) by auto
    moreover have "ps_transmissions s' = (ps_transmissions s)(evidence_key r \<mapsto> decided_plan r t)" "ps_evidence s' = (ps_evidence s)(evidence_key r \<mapsto> r)"
      by (simp_all add: s')
    ultimately show ?thesis using t t' by blast
  qed
  show "wf_approvals s' \<and> ps_transmissions s' = ps_transmissions s \<and> ps_evidence s' = ps_evidence s"
    if wf: "wf_approvals s" and op: "po_ConsumeEvidence memory_approvals tenant plan at s = (Inl e, s')"
    using wf op by (auto simp: memory_defs split: option.splits if_splits)
  show "wf_approvals s' \<and> ps_transmissions s' = ps_transmissions s \<and> (\<exists>r. ps_evidence s (storeKey tenant plan) = Some r \<and> er_ConsumedAt r = 0
      \<and> ps_evidence s' = (ps_evidence s)(storeKey tenant plan \<mapsto> r\<lparr>er_ConsumedAt := at\<rparr>)
      \<and> (\<forall>t. ps_transmissions s (storeKey tenant plan) = Some t \<longrightarrow> tm_Status t \<noteq> StatusRevoked)
      \<and> cv_ApprovalRef c = ae_ApprovalRef (er_Evidence r) \<and> cv_PlanRef c = ae_PlanRef (er_Evidence r)
      \<and> cv_Capability c = ae_Capability (er_Evidence r) \<and> cv_ParameterHash c = ae_ParameterHash (er_Evidence r)
      \<and> cv_Decision c = ae_Decision (er_Evidence r))"
    if wf: "wf_approvals s" and op: "po_ConsumeEvidence memory_approvals tenant plan at s = (Inr c, s')"
  proof -
    obtain r where r: "ps_evidence s (storeKey tenant plan) = Some r" "er_ConsumedAt r = 0"
      and s': "ps_evidence s' = (ps_evidence s)(storeKey tenant plan \<mapsto> r\<lparr>er_ConsumedAt := at\<rparr>)" "ps_transmissions s' = ps_transmissions s"
        "ps_evidenceRefs s' = ps_evidenceRefs s"
      and c: "cv_ApprovalRef c = ae_ApprovalRef (er_Evidence r)" "cv_PlanRef c = ae_PlanRef (er_Evidence r)"
        "cv_Capability c = ae_Capability (er_Evidence r)" "cv_ParameterHash c = ae_ParameterHash (er_Evidence r)" "cv_Decision c = ae_Decision (er_Evidence r)"
        "\<forall>t. ps_transmissions s (storeKey tenant plan) = Some t \<longrightarrow> tm_Status t \<noteq> StatusRevoked"
      using op by (auto simp: memory_defs split: option.splits if_splits)
    from wf_consume[OF wf r(1) s'] r s' c show ?thesis by blast
  qed
  show "wf_approvals s' \<and> ps_transmissions s' = ps_transmissions s \<and> ps_evidence s' = ps_evidence s"
    if wf: "wf_approvals s" and op: "po_Revoke memory_approvals tenant plan reason rid at s = (Inl e, s')"
    using wf op by (auto simp: memory_defs split: option.splits if_splits)
  show "wf_approvals s' \<and> ps_evidence s' = ps_evidence s \<and> (\<exists>t. ps_transmissions s (storeKey tenant plan) = Some t \<and> tm_Status t' = StatusRevoked
      \<and> ps_transmissions s' = (ps_transmissions s)(storeKey tenant plan \<mapsto> t') \<and> same_plan t t' \<and> same_decision t t' \<and> (tm_Status t = StatusRevoked \<longrightarrow> t' = t))"
    if wf: "wf_approvals s" and op: "po_Revoke memory_approvals tenant plan reason rid at s = (Inr t', s')"
  proof -
    obtain t where t0: "ps_transmissions s (storeKey tenant plan) = Some t"
      using op by (cases "ps_transmissions s (storeKey tenant plan)") (simp_all add: memory_defs)
    have t: "tm_Status t' = StatusRevoked" "same_plan t t'" "same_decision t t'" "tm_Status t = StatusRevoked \<longrightarrow> t' = t"
      and s': "ps_transmissions s' = (ps_transmissions s)(storeKey tenant plan \<mapsto> t')" "ps_evidence s' = ps_evidence s" "ps_evidenceRefs s' = ps_evidenceRefs s"
      using op t0 by (cases "tm_Status t = StatusRevoked";
          force simp: memory_defs same_plan_def same_decision_def sameBinding_def map_upd_triv)+
    have "wf_approvals s'" by (rule wf_update_plan[OF wf t0 t(2) _ s']) (simp add: t(1))
    with t0 t s' show ?thesis by blast
  qed
qed

subsection \<open>Invariants of the specification\<close>

definition decision_ok :: "'st ApprovalService \<Rightarrow> Approvals \<Rightarrow> string \<Rightarrow> EvidenceRecord \<Rightarrow> bool" where
  "decision_ok sv v k r \<longleftrightarrow>
     k = evidence_key r \<and> logged (vw_log v) auditActionEvidenceSubmitted (er_TenantRef r) (ae_PlanRef (er_Evidence r))
     \<and> (\<exists>t. vw_plans v k = Some t \<and> authentic sv t r \<and> tm_Decision t = ae_Decision (er_Evidence r)
          \<and> tm_Status t \<in> {StatusEvidenceRecorded, StatusRevoked})"

definition decisions_ok :: "'st ApprovalService \<Rightarrow> Approvals \<Rightarrow> bool" where
  "decisions_ok sv v \<longleftrightarrow> (\<forall>k r. vw_decided v k = Some r \<longrightarrow> decision_ok sv v k r)"

definition unique_approvals :: "Approvals \<Rightarrow> bool" where
  "unique_approvals v \<longleftrightarrow> (\<forall>k k' r r'. vw_decided v k = Some r \<longrightarrow> vw_decided v k' = Some r' \<longrightarrow> approval_key r = approval_key r' \<longrightarrow> k = k')"

definition carries :: "Delivery \<Rightarrow> Transmission \<Rightarrow> bool" where
  "carries d t \<longleftrightarrow> dl_TenantRef d = tm_TenantRef t \<and> dl_PlanRef d = tm_PlanRef t \<and> dl_PlanHash d = tm_PlanHash t
     \<and> dl_Authority d = tm_Authority t \<and> dl_BusinessContextRef d = tm_BusinessContextRef t \<and> dl_Capability d = tm_Capability t
     \<and> dl_ParameterHash d = tm_ParameterHash t \<and> dl_Purpose d = tm_Purpose t \<and> dl_ExpiresAt d = tm_ExpiresAt t"

definition plans_ok :: "Approvals \<Rightarrow> bool" where
  "plans_ok v \<longleftrightarrow> (\<forall>k t. vw_plans v k = Some t \<longrightarrow> logged (vw_log v) auditActionTransmit (tm_TenantRef t) (tm_PlanRef t)
       \<and> (tm_Status t = StatusDelivered \<longrightarrow> (\<exists>d \<in> set (vw_sent v). carries d t)))
     \<and> (\<forall>d \<in> set (vw_sent v). \<exists>k t. vw_plans v k = Some t \<and> carries d t)"

text \<open>What a later state keeps of an earlier one.\<close>

definition keeps :: "Approvals \<Rightarrow> Approvals \<Rightarrow> bool" where
  "keeps v v' \<longleftrightarrow>
     (\<forall>k t. vw_plans v k = Some t \<longrightarrow> (\<exists>t'. vw_plans v' k = Some t' \<and> same_plan t t' \<and> statusRank (tm_Status t) \<le> statusRank (tm_Status t')))
     \<and> (\<forall>k r. vw_decided v k = Some r \<longrightarrow> (\<exists>c. vw_decided v' k = Some (r\<lparr>er_ConsumedAt := c\<rparr>) \<and> (er_ConsumedAt r \<noteq> 0 \<longrightarrow> c = er_ConsumedAt r)))"

lemma logged_append [simp]: "logged log a t p \<Longrightarrow> logged (log @ [ev]) a t p"
  by (auto simp: logged_def)

lemma authentic_same: "same_plan t t' \<Longrightarrow> authentic sv t r \<Longrightarrow> authentic sv t' r"
  by (simp add: authentic_def same_plan_def sameBinding_def Let_def)

lemma authentic_consumed [simp]: "authentic sv t (r\<lparr>er_ConsumedAt := c\<rparr>) = authentic sv t r"
  by (simp add: authentic_def Let_def)

lemma keys_consumed [simp]: "evidence_key (r\<lparr>er_ConsumedAt := c\<rparr>) = evidence_key r" "approval_key (r\<lparr>er_ConsumedAt := c\<rparr>) = approval_key r"
  by (simp_all add: evidence_key_def approval_key_def)

lemma carries_same: "same_plan t t' \<Longrightarrow> carries d t \<longleftrightarrow> carries d t'"
  by (auto simp: carries_def same_plan_def sameBinding_def)

lemma carries_delivery [simp]: "carries (delivery_of t) t"
  by (simp add: carries_def delivery_of_def)

lemma same_plan_trans: "same_plan t u \<Longrightarrow> same_plan u v \<Longrightarrow> same_plan t v"
  by (simp add: same_plan_def sameBinding_def)

lemma decision_ok_later:
  assumes "decision_ok sv v k r" and "set (vw_log v) \<subseteq> set (vw_log v')"
    and "\<And>t. vw_plans v k = Some t \<Longrightarrow> tm_Status t \<in> {StatusEvidenceRecorded, StatusRevoked} \<Longrightarrow>
      \<exists>t'. vw_plans v' k = Some t' \<and> same_plan t t' \<and> same_decision t t' \<and> tm_Status t' \<in> {StatusEvidenceRecorded, StatusRevoked}"
  shows "decision_ok sv v' k r"
proof -
  obtain t where t: "vw_plans v k = Some t" "authentic sv t r" "tm_Decision t = ae_Decision (er_Evidence r)" "tm_Status t \<in> {StatusEvidenceRecorded, StatusRevoked}"
    using assms(1) unfolding decision_ok_def by blast
  from assms(3)[OF t(1,4)] obtain t' where t': "vw_plans v' k = Some t'" "same_plan t t'" "same_decision t t'" "tm_Status t' \<in> {StatusEvidenceRecorded, StatusRevoked}"
    by blast
  have "authentic sv t' r" "tm_Decision t' = ae_Decision (er_Evidence r)"
    using t t' authentic_same by (auto simp: same_decision_def)
  moreover have "logged (vw_log v') auditActionEvidenceSubmitted (er_TenantRef r) (ae_PlanRef (er_Evidence r))"
    using assms(1,2) unfolding decision_ok_def logged_def by blast
  ultimately show ?thesis using assms(1) t' unfolding decision_ok_def by blast
qed

lemma decision_ok_consumed [simp]: "decision_ok sv v k (r\<lparr>er_ConsumedAt := c\<rparr>) = decision_ok sv v k r"
  by (simp add: decision_ok_def)

lemma decisions_okI:
  assumes "decisions_ok sv v" and "vw_decided v' = vw_decided v" and "set (vw_log v) \<subseteq> set (vw_log v')"
    and "\<And>k t. vw_plans v k = Some t \<Longrightarrow> tm_Status t \<in> {StatusEvidenceRecorded, StatusRevoked} \<Longrightarrow>
      \<exists>t'. vw_plans v' k = Some t' \<and> same_plan t t' \<and> same_decision t t' \<and> tm_Status t' \<in> {StatusEvidenceRecorded, StatusRevoked}"
  shows "decisions_ok sv v'"
  unfolding decisions_ok_def assms(2)
proof (intro allI impI)
  fix k r assume "vw_decided v k = Some r"
  then have "decision_ok sv v k r" using assms(1) unfolding decisions_ok_def by blast
  then show "decision_ok sv v' k r" by (rule decision_ok_later[OF _ assms(3,4)])
qed

lemma decisions_step: "lifecycle sv v v' \<Longrightarrow> decisions_ok sv v \<Longrightarrow> decisions_ok sv v'"
proof (induction rule: lifecycle.induct)
  case (attempted v k t t')
  show ?case by (rule decisions_okI[OF attempted(5)]) (use attempted(1-4) in \<open>auto simp: statusRank_def\<close>)
next
  case (decided v r t t')
  let ?v = "v\<lparr>vw_plans := (vw_plans v)(evidence_key r \<mapsto> t'), vw_decided := (vw_decided v)(evidence_key r \<mapsto> r)\<rparr>"
  show ?case unfolding decisions_ok_def
  proof (intro allI impI)
    fix k r' assume r': "vw_decided ?v k = Some r'"
    show "decision_ok sv ?v k r'"
    proof (cases "k = evidence_key r")
      case True
      with r' decided authentic_same[OF decided(8,5)] show ?thesis by (simp add: decision_ok_def)
    next
      case False
      with r' decided(12) have "decision_ok sv v k r'" by (simp add: decisions_ok_def)
      then show ?thesis by (rule decision_ok_later) (use False in auto)
    qed
  qed
next
  case (consumed v k r at)
  have "decision_ok sv v k' r'" if "((vw_decided v)(k \<mapsto> r\<lparr>er_ConsumedAt := at\<rparr>)) k' = Some r'" for k' r'
    using that consumed(1,4) by (auto simp: decisions_ok_def split: if_splits)
  then show ?case by (auto simp: decisions_ok_def decision_ok_def)
next
  case (revoked v k t tenant plan t')
  show ?case by (rule decisions_okI[OF revoked(8)]) (use revoked(1,5-7) in auto)
qed (erule decisions_okI; auto)+

lemma unique_step: "lifecycle sv v v' \<Longrightarrow> unique_approvals v \<Longrightarrow> unique_approvals v'"
proof (induction rule: lifecycle.induct)
  case (decided v r t t')
  have "approval_key r' \<noteq> approval_key r" if "vw_decided v k = Some r'" for k r' using decided(4) that by blast
  with decided(12) show ?case unfolding unique_approvals_def by (simp split: if_splits) metis
next
  case (consumed v k r at)
  then show ?case unfolding unique_approvals_def by (auto split: if_splits)
qed (simp_all add: unique_approvals_def)

lemma keepsI:
  assumes "\<And>k t. vw_plans v k = Some t \<Longrightarrow> \<exists>t'. vw_plans v' k = Some t' \<and> same_plan t t' \<and> statusRank (tm_Status t) \<le> statusRank (tm_Status t')"
    and "\<And>k r. vw_decided v k = Some r \<Longrightarrow> vw_decided v' k = Some r"
  shows "keeps v v'"
  unfolding keeps_def
proof (intro conjI allI impI)
  fix k r assume "vw_decided v k = Some r"
  then have "vw_decided v' k = Some (r\<lparr>er_ConsumedAt := er_ConsumedAt r\<rparr>)" using assms(2) by simp
  then show "\<exists>c. vw_decided v' k = Some (r\<lparr>er_ConsumedAt := c\<rparr>) \<and> (er_ConsumedAt r \<noteq> 0 \<longrightarrow> c = er_ConsumedAt r)" by blast
qed (rule assms(1))

lemma keeps_refl: "keeps v v"
  by (rule keepsI) auto

lemma keeps_trans:
  assumes "keeps u v" and "keeps v w"
  shows "keeps u w"
  unfolding keeps_def
proof (intro conjI allI impI)
  fix k t assume "vw_plans u k = Some t"
  then obtain t1 where t1: "vw_plans v k = Some t1" "same_plan t t1" "statusRank (tm_Status t) \<le> statusRank (tm_Status t1)"
    using assms(1) unfolding keeps_def by blast
  then obtain t2 where "vw_plans w k = Some t2" "same_plan t1 t2" "statusRank (tm_Status t1) \<le> statusRank (tm_Status t2)"
    using assms(2) unfolding keeps_def by blast
  with t1 show "\<exists>t'. vw_plans w k = Some t' \<and> same_plan t t' \<and> statusRank (tm_Status t) \<le> statusRank (tm_Status t')"
    by (meson le_trans same_plan_trans)
next
  fix k r assume "vw_decided u k = Some r"
  then obtain c where c: "vw_decided v k = Some (r\<lparr>er_ConsumedAt := c\<rparr>)" "er_ConsumedAt r \<noteq> 0 \<longrightarrow> c = er_ConsumedAt r"
    using assms(1) unfolding keeps_def by blast
  then obtain c' where "vw_decided w k = Some (r\<lparr>er_ConsumedAt := c, er_ConsumedAt := c'\<rparr>)" "c \<noteq> 0 \<longrightarrow> c' = c"
    using assms(2) unfolding keeps_def by fastforce
  with c(2) show "\<exists>c. vw_decided w k = Some (r\<lparr>er_ConsumedAt := c\<rparr>) \<and> (er_ConsumedAt r \<noteq> 0 \<longrightarrow> c = er_ConsumedAt r)" by auto
qed

lemma keeps_step: "lifecycle sv v v' \<Longrightarrow> keeps v v'"
proof (induction rule: lifecycle.induct)
  case (attempted v k t t')
  then have "statusRank (tm_Status t) \<le> statusRank (tm_Status t')" by auto
  with attempted show ?case by (intro keepsI) auto
next
  case (decided v r t t')
  then have "statusRank (tm_Status t) \<le> statusRank (tm_Status t')" by (cases "tm_Status t") (auto simp: statusRank_def)
  with decided show ?case by (intro keepsI) auto
next
  case (revoked v k t tenant plan t')
  then have "statusRank (tm_Status t) \<le> statusRank (tm_Status t')" by (cases "tm_Status t") (auto simp: statusRank_def)
  with revoked show ?case by (intro keepsI) auto
next
  case (consumed v k r at)
  show ?case unfolding keeps_def
  proof (intro conjI allI impI)
    fix k' r' assume r': "vw_decided v k' = Some r'"
    show "\<exists>c. vw_decided (v\<lparr>vw_decided := (vw_decided v)(k \<mapsto> r\<lparr>er_ConsumedAt := at\<rparr>)\<rparr>) k' = Some (r'\<lparr>er_ConsumedAt := c\<rparr>)
      \<and> (er_ConsumedAt r' \<noteq> 0 \<longrightarrow> c = er_ConsumedAt r')"
      using r' consumed(1,2) by (cases "k' = k") (auto intro: exI[of _ at] exI[of _ "er_ConsumedAt r'"])
  qed auto
qed (rule keepsI; auto)+

lemma lifecycle_keeps: "(lifecycle sv)\<^sup>*\<^sup>* v v' \<Longrightarrow> keeps v v'"
  by (induction rule: rtranclp_induct) (auto intro: keeps_refl keeps_trans keeps_step)

lemma lifecycle_decisions: "(lifecycle sv)\<^sup>*\<^sup>* v v' \<Longrightarrow> decisions_ok sv v \<Longrightarrow> unique_approvals v \<Longrightarrow> decisions_ok sv v' \<and> unique_approvals v'"
  by (induction rule: rtranclp_induct) (auto intro: decisions_step unique_step)

lemma plans_ok_update:
  assumes "plans_ok v" and "vw_plans v k = Some t" and "same_plan t t'"
    and "tm_Status t' = StatusDelivered \<Longrightarrow> \<exists>d \<in> set (vw_sent v). carries d t'"
    and "vw_plans v' = (vw_plans v)(k \<mapsto> t')" and "vw_log v' = vw_log v" and "vw_sent v' = vw_sent v"
  shows "plans_ok v'"
  unfolding plans_ok_def assms(5-7)
proof (intro conjI allI impI ballI)
  fix k1 t1 assume t1: "((vw_plans v)(k \<mapsto> t')) k1 = Some t1"
  show "logged (vw_log v) auditActionTransmit (tm_TenantRef t1) (tm_PlanRef t1)"
  proof (cases "k1 = k")
    case True
    have "logged (vw_log v) auditActionTransmit (tm_TenantRef t) (tm_PlanRef t)" using assms(1,2) unfolding plans_ok_def by blast
    moreover have "t1 = t'" using t1 True by simp
    ultimately show ?thesis using assms(3) by (simp add: same_plan_def)
  next
    case False
    with t1 have "vw_plans v k1 = Some t1" by simp
    then show ?thesis using assms(1) unfolding plans_ok_def by blast
  qed
  show "\<exists>d \<in> set (vw_sent v). carries d t1" if "tm_Status t1 = StatusDelivered"
  proof (cases "k1 = k")
    case True
    with t1 that assms(4) show ?thesis by simp
  next
    case False
    with t1 have "vw_plans v k1 = Some t1" by simp
    with that show ?thesis using assms(1) unfolding plans_ok_def by blast
  qed
next
  fix d assume "d \<in> set (vw_sent v)"
  then obtain k1 t1 where kt: "vw_plans v k1 = Some t1" "carries d t1" using assms(1) unfolding plans_ok_def by blast
  show "\<exists>k1 t1. ((vw_plans v)(k \<mapsto> t')) k1 = Some t1 \<and> carries d t1"
  proof (cases "k1 = k")
    case True
    with kt assms(2) have "carries d t'" using carries_same[OF assms(3)] by simp
    then show ?thesis by (intro exI[of _ k]) simp
  next
    case False
    with kt show ?thesis by (intro exI[of _ k1]) simp
  qed
qed

lemma plans_step: "lifecycle sv v v' \<Longrightarrow> plans_ok v \<Longrightarrow> plans_ok v'"
proof (induction rule: lifecycle.induct)
  case (filed v t)
  let ?P = "(vw_plans v)(plan_key t \<mapsto> t)"
  have "\<exists>k1 t1. ?P k1 = Some t1 \<and> carries d t1" if d: "d \<in> set (vw_sent v)" for d
  proof -
    obtain k1 t1 where kt: "vw_plans v k1 = Some t1" "carries d t1" using d filed(4) unfolding plans_ok_def by blast
    with filed(1) have "?P k1 = Some t1" by auto
    with kt show ?thesis by blast
  qed
  moreover have "logged (vw_log v) auditActionTransmit (tm_TenantRef t1) (tm_PlanRef t1) \<and> (tm_Status t1 = StatusDelivered \<longrightarrow> (\<exists>d \<in> set (vw_sent v). carries d t1))"
    if "?P k1 = Some t1" for k1 t1
  proof (cases "k1 = plan_key t")
    case False
    with that have "vw_plans v k1 = Some t1" by simp
    then show ?thesis using filed(4) unfolding plans_ok_def by blast
  qed (use that filed(2,3) in simp)
  ultimately show ?case unfolding plans_ok_def by (simp del: fun_upd_apply)
next
  case (sent v k t n)
  have "\<exists>k1 t1. vw_plans v k1 = Some t1 \<and> carries (delivery_of t) t1" using sent(1) carries_delivery by blast
  with sent(3) show ?case unfolding plans_ok_def by (simp; blast)
next
  case (attempted v k t t')
  have "\<exists>d \<in> set (vw_sent v). carries d t'" if d: "tm_Status t' = StatusDelivered"
  proof (cases "tm_Status t' = tm_Status t")
    case True
    with d attempted(1,5) obtain x where "x \<in> set (vw_sent v)" "carries x t" unfolding plans_ok_def by metis
    with carries_same[OF attempted(2)] show ?thesis by blast
  next
    case False
    with attempted(4) have "delivery_of t \<in> set (vw_sent v)" by blast
    with carries_same[OF attempted(2)] carries_delivery show ?thesis by blast
  qed
  then show ?case by (rule plans_ok_update[OF attempted(5,1,2)]) simp_all
next
  case (decided v r t t')
  show ?case by (rule plans_ok_update[OF decided(12,1,8)]) (simp_all add: decided(9))
next
  case (revoked v k t tenant plan t')
  show ?case by (rule plans_ok_update[OF revoked(8,1,5)]) (simp_all add: revoked(7))
next
  case (appended v ev)
  show ?case using appended logged_append unfolding plans_ok_def by (simp; blast)
qed (simp add: plans_ok_def)

lemma lifecycle_plans: "(lifecycle sv)\<^sup>*\<^sup>* v v' \<Longrightarrow> plans_ok v \<Longrightarrow> plans_ok v'"
  by (induction rule: rtranclp_induct) (auto intro: plans_step)

lemma silent_channel: "(lifecycle sv)\<^sup>*\<^sup>* v v' \<Longrightarrow> \<forall>n d. asv_channel sv n d \<noteq> None \<Longrightarrow> vw_sent v' = vw_sent v"
proof (induction rule: rtranclp_induct)
  case (step u w)
  have "vw_sent w = vw_sent u" using step(2,4) by cases (force simp del: not_None_eq)+
  with step show ?case by simp
qed simp

subsection \<open>The promises\<close>

definition new_world :: "ApprovalStore ApprovalWorld" where
  "new_world = \<lparr>aw_store = NewApprovalStore, aw_env = \<lparr>an_ticks = 0, an_ids = 0, an_auditCalls = 0, an_audit = [], an_deliverCalls = 0, an_delivered = []\<rparr>\<rparr>"

lemma run_from_new:
  assumes "asv_store sv = memory_approvals"
  shows "(lifecycle sv)\<^sup>*\<^sup>* (mem.shown new_world) (mem.shown (approval_run sv cs new_world))"
    and "wf_approvals (aw_store (approval_run sv cs new_world))"
  using mem.run_refines[OF assms, of new_world cs] wf_New by (simp_all add: new_world_def)

text \<open>An example service and caller: first-party transmission of one plan, then the authority's decision.\<close>

definition ex_sv :: "ApprovalStore ApprovalService" where
  "ex_sv = \<lparr>asv_store = memory_approvals, asv_channel = memory_channel None, asv_audit = (\<lambda>n ev. Inr ''audit''),
     asv_providers = None, asv_attestations = None, asv_now = (\<lambda>n. 1000), asv_newID = (\<lambda>n p. p @ ''1'')\<rparr>"

definition ex_prin :: PrincipalContext where
  "ex_prin = \<lparr>pc_TenantRef = ''acme'', pc_PrincipalRef = ''alice'', pc_AgentClientRef = ''atlas'', pc_AgentReleaseRef = ''r1'',
     pc_TrustClass = TrustFirstParty, pc_OrgSnapshotRef = ''org1'', pc_VerifiedAt = 1, pc_ExpiresAt = 2\<rparr>"

definition ex_digest :: string where "ex_digest = digest_prefix @ replicate 64 CHR ''a''"

definition ex_req :: ApprovalRequest where
  "ex_req = \<lparr>apr_RequestID = ''req-1'', apr_TraceID = ''t'', apr_BusinessContextRef = ''wc_0000000000000001'', apr_Capability = ''erp.payment.refund'',
     apr_ParameterHash = ex_digest, apr_Purpose = ''refund'', apr_Plan = \<lparr>plan_PlanRef = ''apl_0000000000000001'', plan_PlanHash = ex_digest, plan_Authority = ''oa''\<rparr>,
     apr_ExpiresAt = 5000\<rparr>"

definition ex_ev :: ApprovalEvidence where
  "ex_ev = \<lparr>ae_ApprovalRef = ''apv_0000000000000001'', ae_PlanRef = ''apl_0000000000000001'', ae_PlanHash = ex_digest, ae_Capability = ''erp.payment.refund'',
     ae_ParameterHash = ex_digest, ae_Decision = ApprovalApproved, ae_ApproverAuthority = ''oa'', ae_DecidedAt = 900,
     ae_Attestation = \<lparr>sig_Algorithm = ''ed25519'', sig_KeyID = ''k'', sig_Value = ''s''\<rparr>\<rparr>"

definition ex_calls :: "approval_call list" where
  "ex_calls = [CallTransmit False ex_prin ex_req, CallRecordEvidence False ex_prin ex_ev]"

definition ex_t1 :: Transmission where
  "ex_t1 = (candidate_of ex_prin ex_req 1000)\<lparr>tm_AuditRefID := ''audit'', tm_DeliveryAttempts := 1, tm_LastDeliveryOutcome := DeliveryDelivered,
     tm_Status := StatusDelivered\<rparr>"

lemma ex_valid: "PrincipalContext_Validate ex_prin = None" "ApprovalRequest_Validate ex_req = None" "ApprovalEvidence_Validate ex_ev = None"
  "canonical ''oa''" by code_simp+

lemma ex_hash: "CanonicalEvidenceHash ex_ev \<noteq> []"
proof -
  have "marshal_time (ae_DecidedAt ex_ev) \<noteq> None" by code_simp
  then obtain payload where "marshal_evidence ex_ev = Some payload" by (auto simp: marshal_evidence_def)
  then have "CanonicalEvidenceHash ex_ev = sha256_hex payload" by (simp add: CanonicalEvidenceHash_def)
  moreover have "length (sha256_hex payload) = 64" by (simp add: sha256_hex_def)
  ultimately show ?thesis by auto
qed

lemmas run_defs = approval_run_def approval_serve_def approval_guard_def reject_def check_def require_def on_approvals_def
  approval_now_def andthen_def attempt_def on_error_def audited_as_def append_approval_audit_def memory_defs

lemmas ex_defs = ex_sv_def ex_prin_def ex_req_def candidate_of_def

text \<open>The world after the plan was transmitted, and after the authority's decision arrived.\<close>

definition ex_w1 :: "ApprovalStore ApprovalWorld" where
  "ex_w1 = approval_run ex_sv [CallTransmit False ex_prin ex_req] new_world"

definition ex_w2 :: "ApprovalStore ApprovalWorld" where
  "ex_w2 = approval_run ex_sv ex_calls new_world"

abbreviation ex_key :: string where "ex_key \<equiv> storeKey ''acme'' ''apl_0000000000000001''"

lemma ex_w1: "ps_transmissions (aw_store ex_w1) ex_key = Some ex_t1" "ps_evidence (aw_store ex_w1) = Map.empty" "ps_evidenceRefs (aw_store ex_w1) = Map.empty"
proof -
  have gates: "ex_w1 = snd (Transmit ex_sv False ex_prin ex_req new_world)"
    by (simp add: ex_w1_def approval_run_def approval_serve_def)
  show "ps_transmissions (aw_store ex_w1) ex_key = Some ex_t1" "ps_evidence (aw_store ex_w1) = Map.empty" "ps_evidenceRefs (aw_store ex_w1) = Map.empty"
    unfolding gates
    by (simp_all add: Transmit_def ex_valid approval_guard_def reject_def, simp_all add: run_defs ex_defs verifyApprovalProvider_def new_world_def ex_valid
        NewApprovalStore_def transmit_new_def deliver_def call_channel_def memory_channel_def ex_t1_def delivery_of_def statusRank_def)
qed

lemma ex_w2: "\<exists>r. ps_evidence (aw_store ex_w2) ex_key = Some r \<and> er_Evidence r = ex_ev \<and> er_ConsumedAt r = 0"
  "\<exists>t. ps_transmissions (aw_store ex_w2) ex_key = Some t \<and> tm_Status t = StatusEvidenceRecorded"
proof -
  have run: "ex_w2 = snd (RecordEvidence ex_sv False ex_prin ex_ev ex_w1)"
    by (simp add: approval_run_def ex_calls_def ex_w1_def ex_w2_def approval_serve_def)
  show "\<exists>r. ps_evidence (aw_store ex_w2) ex_key = Some r \<and> er_Evidence r = ex_ev \<and> er_ConsumedAt r = 0"
    "\<exists>t. ps_transmissions (aw_store ex_w2) ex_key = Some t \<and> tm_Status t = StatusEvidenceRecorded"
    unfolding run using ex_w1 ex_hash
    by (simp_all add: RecordEvidence_def approval_guard_def reject_def ex_valid, simp_all add: ex_ev_def ex_t1_def ex_defs run_defs evidence_checks_def
        evidenceDecisionSkew_def second_def fail_if_def store_evidence_def statusRank_def)
qed

text \<open>C22: the service implements the lifecycle: every run of its calls, consumption by the action plane included, shows
  only steps of the specification, whatever channel, audit sink, verifiers and clock are wired.\<close>

theorem approval_run_refines_lifecycle:
  assumes "asv_store sv = memory_approvals" and "wf_approvals (aw_store w)"
  shows "(lifecycle sv)\<^sup>*\<^sup>* (shows_view ps_transmissions ps_evidence w) (shows_view ps_transmissions ps_evidence (approval_run sv cs w))
    \<and> wf_approvals (aw_store (approval_run sv cs w))"
  by (rule mem.run_refines[OF assms])

theorem approval_run_refines_lifecycle_witness:
  "(lifecycle ex_sv)\<^sup>*\<^sup>* (shows_view ps_transmissions ps_evidence new_world) (shows_view ps_transmissions ps_evidence ex_w2)"
  unfolding ex_w2_def using approval_run_refines_lifecycle[of ex_sv new_world ex_calls] wf_New by (simp add: ex_sv_def new_world_def)

lemma decisions_from_new:
  assumes "asv_store sv = memory_approvals" and "ps_evidence (aw_store (approval_run sv cs new_world)) k = Some r"
  shows "decision_ok sv (mem.shown (approval_run sv cs new_world)) k r"
proof -
  have "decisions_ok sv (mem.shown new_world)" "unique_approvals (mem.shown new_world)"
    by (simp_all add: decisions_ok_def unique_approvals_def shows_view_def new_world_def NewApprovalStore_def)
  then have "decisions_ok sv (mem.shown (approval_run sv cs new_world))"
    using lifecycle_decisions[OF run_from_new(1)[OF assms(1), of cs]] by blast
  moreover have "vw_decided (mem.shown (approval_run sv cs new_world)) k = Some r" using assms(2) by (simp add: shows_view_def)
  ultimately show ?thesis unfolding decisions_ok_def by blast
qed

text \<open>C23: only authentic decisions are ever stored: after any run from the empty store, a stored decision is well-formed,
  names the digest, capability and parameter hash of the plan transmitted under its key, comes from the authority that
  authored it, was decided and received within its expiry, passed the wired attestation verifier, and its submission
  is in the audit log.\<close>

theorem stored_evidence_is_authentic:
  assumes "asv_store sv = memory_approvals" and "ps_evidence (aw_store (approval_run sv cs new_world)) k = Some r"
  shows "k = storeKey (er_TenantRef r) (ae_PlanRef (er_Evidence r))
    \<and> (\<exists>t. ps_transmissions (aw_store (approval_run sv cs new_world)) k = Some t \<and> authentic sv t r
         \<and> tm_Decision t = ae_Decision (er_Evidence r) \<and> tm_Status t \<in> {StatusEvidenceRecorded, StatusRevoked})
    \<and> logged (an_audit (aw_env (approval_run sv cs new_world))) auditActionEvidenceSubmitted (er_TenantRef r) (ae_PlanRef (er_Evidence r))"
proof -
  have ok: "decision_ok sv (mem.shown (approval_run sv cs new_world)) k r" by (rule decisions_from_new[OF assms])
  then have k: "k = storeKey (er_TenantRef r) (ae_PlanRef (er_Evidence r))" by (simp add: decision_ok_def evidence_key_def)
  from ok[unfolded decision_ok_def shows_view_def, simplified] show ?thesis by (elim conjE) (simp add: k[symmetric])
qed

theorem stored_evidence_is_authentic_witness:
  "\<exists>r t. ps_evidence (aw_store (approval_run ex_sv ex_calls new_world)) ex_key = Some r \<and> er_Evidence r = ex_ev \<and> authentic ex_sv t r"
proof -
  obtain r where r: "ps_evidence (aw_store (approval_run ex_sv ex_calls new_world)) ex_key = Some r" "er_Evidence r = ex_ev"
    using ex_w2(1) unfolding ex_w2_def by blast
  with stored_evidence_is_authentic[OF _ r(1)] show ?thesis by (auto simp: ex_sv_def)
qed

lemma consume_after:
  assumes "ps_evidence s (storeKey tenant plan) = Some r" and "er_ConsumedAt r \<noteq> 0"
  shows "\<exists>e \<in> {ErrEvidenceConsumed, ErrTransmissionRevoked}. mp_ConsumeEvidence tenant plan at s = (Inl (Sentinel e), s)"
proof (cases "map_option tm_Status (ps_transmissions s (storeKey tenant plan)) = Some StatusRevoked")
  case True
  then show ?thesis by (intro bexI[of _ ErrTransmissionRevoked]) (auto simp: mp_ConsumeEvidence_def Let_def)
next
  case False
  then show ?thesis using assms by (intro bexI[of _ ErrEvidenceConsumed]) (auto simp: mp_ConsumeEvidence_def Let_def)
qed

text \<open>C24: a decision is consumed at most once: after one successful consumption at a non-zero instant, and any further
  run, consuming the plan's evidence again is refused as consumed or revoked and changes nothing.\<close>

theorem evidence_consumed_at_most_once:
  assumes "asv_store sv = memory_approvals" and "wf_approvals (aw_store w)"
    and "mp_ConsumeEvidence tenant plan at (aw_store w) = (Inr c, s1)" and "at \<noteq> 0"
  shows "\<exists>e \<in> {ErrEvidenceConsumed, ErrTransmissionRevoked}.
     mp_ConsumeEvidence tenant plan at2 (aw_store (approval_run sv cs (w\<lparr>aw_store := s1\<rparr>)))
       = (Inl (Sentinel e), aw_store (approval_run sv cs (w\<lparr>aw_store := s1\<rparr>)))"
proof -
  have op: "po_ConsumeEvidence memory_approvals tenant plan at (aw_store w) = (Inr c, s1)" using assms(3) by (simp add: memory_approvals_def)
  obtain r where r: "wf_approvals s1" "ps_evidence s1 (storeKey tenant plan) = Some (r\<lparr>er_ConsumedAt := at\<rparr>)"
    using mem.consumed[OF assms(2) op] by auto
  let ?w1 = "w\<lparr>aw_store := s1\<rparr>"
  have "keeps (mem.shown ?w1) (mem.shown (approval_run sv cs ?w1))"
    by (rule lifecycle_keeps[OF conjunct1[OF mem.run_refines[OF assms(1), of ?w1 cs]]]) (simp add: r(1))
  then have "ps_evidence (aw_store (approval_run sv cs ?w1)) (storeKey tenant plan) = Some (r\<lparr>er_ConsumedAt := at\<rparr>)"
    using r(2) assms(4) unfolding keeps_def shows_view_def by fastforce
  from consume_after[OF this] assms(4) show ?thesis by simp
qed

theorem evidence_consumed_at_most_once_witness:
  "\<exists>c s1. mp_ConsumeEvidence ''acme'' ''apl_0000000000000001'' 2000 (aw_store ex_w2) = (Inr c, s1)
    \<and> (\<exists>e \<in> {ErrEvidenceConsumed, ErrTransmissionRevoked}. fst (mp_ConsumeEvidence ''acme'' ''apl_0000000000000001'' 3000
         (aw_store (approval_run ex_sv [] (ex_w2\<lparr>aw_store := s1\<rparr>)))) = Inl (Sentinel e))"
proof -
  obtain c s1 where c: "mp_ConsumeEvidence ''acme'' ''apl_0000000000000001'' 2000 (aw_store ex_w2) = (Inr c, s1)"
    using ex_w2 by (auto simp: mp_ConsumeEvidence_def)
  have "wf_approvals (aw_store ex_w2)" unfolding ex_w2_def by (rule run_from_new(2)) (simp add: ex_sv_def)
  from evidence_consumed_at_most_once[OF _ this c, of ex_sv 3000 "[]"] c show ?thesis by (auto simp: ex_sv_def)
qed

text \<open>Transport facts stay true: after any run from the empty store, a plan is marked delivered only if the channel
  accepted a delivery of it, every accepted delivery carries a filed plan unchanged, and a channel that accepts nothing
  leaves no plan marked delivered.\<close>

theorem delivered_means_channel_accepted:
  assumes "asv_store sv = memory_approvals"
  shows "(\<forall>k t. ps_transmissions (aw_store (approval_run sv cs new_world)) k = Some t \<longrightarrow> tm_Status t = StatusDelivered \<longrightarrow>
        (\<exists>d \<in> set (an_delivered (aw_env (approval_run sv cs new_world))). carries d t))
    \<and> (\<forall>d \<in> set (an_delivered (aw_env (approval_run sv cs new_world))).
        \<exists>k t. ps_transmissions (aw_store (approval_run sv cs new_world)) k = Some t \<and> carries d t)
    \<and> ((\<forall>n d. asv_channel sv n d \<noteq> None) \<longrightarrow>
        (\<forall>k t. ps_transmissions (aw_store (approval_run sv cs new_world)) k = Some t \<longrightarrow> tm_Status t \<noteq> StatusDelivered))"
proof -
  let ?w = "approval_run sv cs new_world"
  have "plans_ok (mem.shown new_world)" by (simp add: plans_ok_def shows_view_def new_world_def NewApprovalStore_def)
  then have ok: "plans_ok (mem.shown ?w)" by (rule lifecycle_plans[OF run_from_new(1)[OF assms]])
  moreover have "an_delivered (aw_env ?w) = []" if "\<forall>n d. asv_channel sv n d \<noteq> None"
    using silent_channel[OF run_from_new(1)[OF assms, of cs] that] by (simp add: shows_view_def new_world_def)
  ultimately show ?thesis unfolding plans_ok_def shows_view_def by fastforce
qed

theorem delivered_means_channel_accepted_witness: "\<exists>d \<in> set (an_delivered (aw_env ex_w1)). carries d ex_t1"
  using delivered_means_channel_accepted[of ex_sv "[CallTransmit False ex_prin ex_req]"] ex_w1(1)
  by (fastforce simp: ex_w1_def ex_sv_def ex_t1_def)

end
