(* ===== verification/CapabilityPolicy.thy ===== *)
theory CapabilityPolicy
  imports GoStrings "HOL-Library.Char_ord" "HOL-Library.List_Lexorder"
begin

text \<open>
  \<^verbatim>\<open>internal/policy\<close>: capability.go, openfga.go, evaluator.go and dsl.go. A capability request is answered against a
  sealed organization snapshot: the snapshot's unit graph is validated, memberships and placements become tuples of an
  ephemeral relationship store, and the scope question is a check of that store.

  Go's wire vocabularies are strings here too. A Go map built by the code is an association list in insertion order,
  and the order in which the code ranges over it, which Go leaves open, is a parameter. The snapshot source is a port;
  the observer's notifications are a log. The context is live for the whole call or done from its start (\<open>ctx_done\<close>).
\<close>

datatype policy_error = ErrPolicyUnavailable

type_synonym policy_go_error = "policy_error go_error"

subsection \<open>Vocabulary\<close>

definition MaxSealedOrgUnits :: nat where "MaxSealedOrgUnits = 10000"
definition MaxSealedMemberships :: nat where "MaxSealedMemberships = 100000"
definition MaxSealedOrgDepth :: nat where "MaxSealedOrgDepth = 256"

type_synonym PrincipalPermission = string

definition PermissionSuggest :: PrincipalPermission where "PermissionSuggest = ''suggest''"
definition PermissionEdit :: PrincipalPermission where "PermissionEdit = ''edit''"
definition PermissionPublishLowRisk :: PrincipalPermission where "PermissionPublishLowRisk = ''publish_low_risk''"
definition PermissionApproveHighRisk :: PrincipalPermission where "PermissionApproveHighRisk = ''approve_high_risk''"
definition PermissionWorkflowEdit :: PrincipalPermission where "PermissionWorkflowEdit = ''workflow_edit''"
definition PermissionWorkflowAdvanced :: PrincipalPermission where "PermissionWorkflowAdvanced = ''workflow_advanced''"
definition PermissionServiceMode :: PrincipalPermission where "PermissionServiceMode = ''service_mode''"

lemmas permission_defs = PermissionSuggest_def PermissionEdit_def PermissionPublishLowRisk_def PermissionApproveHighRisk_def
  PermissionWorkflowEdit_def PermissionWorkflowAdvanced_def PermissionServiceMode_def

type_synonym ResourceType = string
type_synonym Capability = string

definition CapabilityKnowledgeSuggest :: Capability where "CapabilityKnowledgeSuggest = ''knowledge.suggest''"
definition CapabilityKnowledgeUpdate :: Capability where "CapabilityKnowledgeUpdate = ''knowledge.update''"

definition ConnectorCapabilityPrefix :: string where "ConnectorCapabilityPrefix = ''connector.''"

definition IsConnectorCapability :: "Capability \<Rightarrow> bool" where
  "IsConnectorCapability capability = has_prefix capability ConnectorCapabilityPrefix"

datatype CapabilityRisk = CapabilityRiskLow | CapabilityRiskMedium | CapabilityRiskHigh

record capabilityRequirement =
  rq_resourceType :: ResourceType
  rq_permission :: PrincipalPermission
  rq_baselineRisk :: CapabilityRisk

definition requirement :: "ResourceType \<Rightarrow> PrincipalPermission \<Rightarrow> CapabilityRisk \<Rightarrow> capabilityRequirement" where
  "requirement rt p risk = \<lparr>rq_resourceType = rt, rq_permission = p, rq_baselineRisk = risk\<rparr>"

definition capabilityRequirements :: "(Capability \<times> capabilityRequirement) list" where
  "capabilityRequirements =
     [(CapabilityKnowledgeSuggest, requirement ''knowledge'' PermissionSuggest CapabilityRiskLow),
      (''knowledge.create'', requirement ''knowledge'' PermissionEdit CapabilityRiskMedium),
      (CapabilityKnowledgeUpdate, requirement ''knowledge'' PermissionEdit CapabilityRiskMedium),
      (''knowledge.publish_low_risk'', requirement ''knowledge'' PermissionPublishLowRisk CapabilityRiskLow),
      (''knowledge.approve_high_risk'', requirement ''knowledge'' PermissionApproveHighRisk CapabilityRiskHigh),
      (''workflow.edit'', requirement ''workflow'' PermissionWorkflowEdit CapabilityRiskMedium),
      (''workflow.edit_advanced'', requirement ''workflow'' PermissionWorkflowAdvanced CapabilityRiskHigh),
      (''workflow.publish_low_risk'', requirement ''workflow'' PermissionPublishLowRisk CapabilityRiskLow),
      (''workflow.approve_high_risk'', requirement ''workflow'' PermissionApproveHighRisk CapabilityRiskHigh),
      (''service.mode'', requirement ''service'' PermissionServiceMode CapabilityRiskHigh),
      (''dream_evidence.read'', requirement ''dream_evidence'' PermissionApproveHighRisk CapabilityRiskHigh)]"

definition RequiredCapabilityPermission :: "ResourceType \<Rightarrow> Capability \<Rightarrow> (PrincipalPermission \<times> CapabilityRisk) option" where
  "RequiredCapabilityPermission resourceType capability =
     (case map_of capabilityRequirements capability of
        None \<Rightarrow> None
      | Some r \<Rightarrow> if rq_resourceType r \<noteq> resourceType then None else Some (rq_permission r, rq_baselineRisk r))"

definition sealedCanonical :: "string \<Rightarrow> bool" where
  "sealedCanonical v \<longleftrightarrow> v \<noteq> [] \<and> trim_space v = v"

text \<open>\<open>None\<close> is an unknown role; a manager or an admin is known and has the empty permission.\<close>

definition MembershipRolePermission :: "string \<Rightarrow> PrincipalPermission option" where
  "MembershipRolePermission role =
     (if \<not> sealedCanonical role then None
      else if role = ''member'' then Some PermissionSuggest
      else if role = ''manager'' \<or> role = ''admin'' then Some []
      else if role \<in> {PermissionSuggest, PermissionEdit, PermissionPublishLowRisk, PermissionApproveHighRisk, PermissionWorkflowEdit,
                     PermissionWorkflowAdvanced, PermissionServiceMode} then Some role
      else None)"

definition sealedKnownRole :: "string \<Rightarrow> bool" where
  "sealedKnownRole role \<longleftrightarrow> MembershipRolePermission role \<noteq> None"

record SealedMembership =
  sm_OrgUnitID :: string
  sm_Role :: string

record SealedOrgUnit =
  su_ID :: string
  su_ParentID :: string

record SealedAccessSnapshot =
  ss_TenantRef :: string
  ss_OrgVersion :: int
  ss_Memberships :: "SealedMembership list"
  ss_OrgUnits :: "SealedOrgUnit list"

record CapabilityRequest =
  cr_TenantRef :: string
  cr_PrincipalRef :: string
  cr_SealedOrgVersion :: int
  cr_ResourceType :: ResourceType
  cr_ResourceID :: string
  cr_Capability :: Capability
  cr_TargetOrgUnitID :: string

datatype Decision = DecisionAllow | DecisionDeny | DecisionNeedExternalReceipt | DecisionAllowWithMasking | DecisionOther string

record PermissionDecision =
  pd_Decision :: Decision
  pd_Permissions :: "PrincipalPermission list"
  pd_OrgUnitIDs :: "string list"
  pd_MaskFields :: "string list"
  pd_RiskLevel :: CapabilityRisk
  pd_FallbackCapability :: Capability
  pd_OrgVersion :: int

definition DeniedCapabilityDecision :: "int \<Rightarrow> CapabilityRisk \<Rightarrow> PermissionDecision" where
  "DeniedCapabilityDecision orgVersion risk =
     \<lparr>pd_Decision = DecisionDeny, pd_Permissions = [], pd_OrgUnitIDs = [], pd_MaskFields = [], pd_RiskLevel = risk,
      pd_FallbackCapability = [], pd_OrgVersion = orgVersion\<rparr>"

subsection \<open>The relationship store\<close>

record TupleKey =
  tk_User :: string
  tk_Relation :: string
  tk_Object :: string

type_synonym OpenFGA = "TupleKey set"

definition WriteRelation :: "TupleKey \<Rightarrow> OpenFGA \<Rightarrow> OpenFGA" where
  "WriteRelation tuple f = insert tuple f"

definition parentsOf :: "OpenFGA \<Rightarrow> string \<Rightarrow> string set" where
  "parentsOf f obj = tk_User ` {t \<in> f. tk_Relation t = ''parent'' \<and> tk_Object t = obj}"

definition objectType :: "string \<Rightarrow> string" where
  "objectType obj = (if CHR '':'' \<in> set obj then takeWhile (\<lambda>c. c \<noteq> CHR '':'') obj else [])"

definition CheckRelation :: "TupleKey \<Rightarrow> OpenFGA \<Rightarrow> bool" where
  "CheckRelation tuple f =
     (if tuple \<in> f then True
      else if tk_Relation tuple \<noteq> ''viewer'' then False
      else if objectType (tk_Object tuple) \<notin> {''knowledge_space'', ''connector_resource''} then False
      else \<exists>parent \<in> parentsOf f (tk_Object tuple).
             \<lparr>tk_User = tk_User tuple, tk_Relation = ''manager'', tk_Object = parent\<rparr> \<in> f
             \<or> \<lparr>tk_User = tk_User tuple, tk_Relation = ''member'', tk_Object = parent\<rparr> \<in> f)"

definition permissionScopedDepartment :: "string \<Rightarrow> PrincipalPermission \<Rightarrow> string" where
  "permissionScopedDepartment orgUnitID permission = ''department'' @ '':'' @ orgUnitID @ ''|'' @ permission"

definition permissionScopedResource :: "string \<Rightarrow> PrincipalPermission \<Rightarrow> string" where
  "permissionScopedResource resourceID permission = ''knowledge_space'' @ '':'' @ resourceID @ ''|'' @ permission"

subsection \<open>Sealing the unit graph\<close>

text \<open>The parents map of the snapshot, or \<open>None\<close> where a unit is malformed or repeated.\<close>

type_synonym parents = "(string \<times> string) list"

fun seal_units :: "SealedOrgUnit list \<Rightarrow> parents \<Rightarrow> parents option" where
  "seal_units [] ps = Some ps"
| "seal_units (u # us) ps =
     (if \<not> sealedCanonical (su_ID u) \<or> (su_ParentID u \<noteq> [] \<and> \<not> sealedCanonical (su_ParentID u)) then None
      else if map_of ps (su_ID u) \<noteq> None then None
      else seal_units us (ps @ [(su_ID u, su_ParentID u)]))"

text \<open>
  Colours are 0 (new), 1 (on the current path) and 2 (settled). \<open>walk_up\<close> is the inner loop: it follows parents from the
  cursor, marking the path, until the root, a settled unit, or a reason to reject. It also returns how often it looked
  a parent up, which the source reports to its observer.
\<close>

function walk_up :: "parents \<Rightarrow> (string \<Rightarrow> nat) \<Rightarrow> (string \<Rightarrow> nat) \<Rightarrow> string list \<Rightarrow> string \<Rightarrow> nat
    \<Rightarrow> ((string \<Rightarrow> nat) \<times> string list \<times> nat) option \<times> nat" where
  "walk_up ps colors depths path cursor work =
     (if cursor = [] then (Some (colors, path, 0), work)
      else case map_of ps cursor of
        None \<Rightarrow> (None, Suc work)
      | Some parentID \<Rightarrow>
          if colors cursor = 1 then (None, Suc work)
          else if colors cursor = 2 then (Some (colors, path, depths cursor), Suc work)
          else if Suc (length path) > MaxSealedOrgDepth then (None, Suc work)
          else walk_up ps (colors(cursor := 1)) depths (cursor # path) parentID (Suc work))"
  by pat_completeness auto
termination
  by (relation "measure (\<lambda>(ps, colors, depths, path, cursor, work). Suc MaxSealedOrgDepth - length path)") auto

declare walk_up.simps [simp del]

text \<open>Settling the path gives its units their depths, from the unit nearest the root on.\<close>

fun settle :: "string list \<Rightarrow> nat \<Rightarrow> (string \<Rightarrow> nat) \<Rightarrow> (string \<Rightarrow> nat) \<Rightarrow> ((string \<Rightarrow> nat) \<times> (string \<Rightarrow> nat)) option" where
  "settle [] baseDepth colors depths = Some (colors, depths)"
| "settle (x # path) baseDepth colors depths =
     (if Suc baseDepth > MaxSealedOrgDepth then None
      else settle path (Suc baseDepth) (colors(x := 2)) (depths(x := Suc baseDepth)))"

fun seal_graph :: "parents \<Rightarrow> string list \<Rightarrow> (string \<Rightarrow> nat) \<Rightarrow> (string \<Rightarrow> nat) \<Rightarrow> nat \<Rightarrow> bool \<times> nat" where
  "seal_graph ps [] colors depths work = (True, work)"
| "seal_graph ps (unitID # unitIDs) colors depths work =
     (if colors unitID = 2 then seal_graph ps unitIDs colors depths work
      else case walk_up ps colors depths [] unitID work of
        (None, work1) \<Rightarrow> (False, work1)
      | (Some (colors1, path, baseDepth), work1) \<Rightarrow>
          (case settle path baseDepth colors1 depths of
             None \<Rightarrow> (False, work1)
           | Some (colors2, depths2) \<Rightarrow> seal_graph ps unitIDs colors2 depths2 work1))"

text \<open>The loop over the target's ancestors has no bound of its own.\<close>

partial_function (option) ancestors_of :: "parents \<Rightarrow> string \<Rightarrow> string list \<Rightarrow> string list option" where
  "ancestors_of ps cursor acc =
     (if cursor = [] then Some acc
      else ancestors_of ps (case map_of ps cursor of None \<Rightarrow> [] | Some p \<Rightarrow> p) (List.insert cursor acc))"

subsection \<open>Sealing the memberships\<close>

record sealing =
  sl_relations :: OpenFGA
  sl_required :: "string list"
  sl_suggest :: "string list"

definition principal_user :: "CapabilityRequest \<Rightarrow> string" where
  "principal_user req = ''user'' @ '':'' @ cr_PrincipalRef req"

definition membershipKey :: "SealedMembership \<Rightarrow> string" where
  "membershipKey m = sm_OrgUnitID m @ [CHR 0x00] @ sm_Role m"

text \<open>What one admitted membership contributes: \<open>ancestors\<close> is \<open>None\<close> for an untargeted request.\<close>

definition admit_membership ::
  "CapabilityRequest \<Rightarrow> PrincipalPermission \<Rightarrow> string list option \<Rightarrow> SealedMembership \<Rightarrow> sealing \<Rightarrow> sealing" where
  "admit_membership req requiredPermission ancestors m s =
     (let unit = sm_OrgUnitID m; permission = (case MembershipRolePermission (sm_Role m) of None \<Rightarrow> [] | Some p \<Rightarrow> p) in
      if permission \<noteq> requiredPermission \<and> permission \<noteq> PermissionSuggest then s
      else if (case ancestors of None \<Rightarrow> False | Some as \<Rightarrow> unit \<notin> set as) then s
      else \<lparr>sl_relations = WriteRelation \<lparr>tk_User = principal_user req, tk_Relation = ''member'',
                tk_Object = permissionScopedDepartment unit permission\<rparr> (sl_relations s),
            sl_required = (if permission = requiredPermission then List.insert unit (sl_required s) else sl_required s),
            sl_suggest = (if permission = PermissionSuggest then List.insert unit (sl_suggest s) else sl_suggest s)\<rparr>)"

fun seal_memberships ::
  "CapabilityRequest \<Rightarrow> PrincipalPermission \<Rightarrow> string list option \<Rightarrow> parents \<Rightarrow> string list \<Rightarrow> SealedMembership list \<Rightarrow> sealing
     \<Rightarrow> sealing option" where
  "seal_memberships req requiredPermission ancestors ps seen [] s = Some s"
| "seal_memberships req requiredPermission ancestors ps seen (m # ms) s =
     (if \<not> sealedCanonical (sm_OrgUnitID m) \<or> \<not> sealedKnownRole (sm_Role m) then None
      else if map_of ps (sm_OrgUnitID m) = None then None
      else if membershipKey m \<in> set seen then None
      else seal_memberships req requiredPermission ancestors ps (membershipKey m # seen) ms
             (admit_membership req requiredPermission ancestors m s))"

definition sealedSortedScopes :: "string list \<Rightarrow> string list" where
  "sealedSortedScopes scopes = sort scopes"

record capabilityScopeAnalysis =
  ca_requiredScopes :: "string list"
  ca_suggestScopes :: "string list"
  ca_covered :: bool
  ca_suggestCovered :: bool

text \<open>The scope check; a targeted one first files the target's ancestors as parents of the resource.\<close>

definition confirm ::
  "CapabilityRequest \<Rightarrow> string list option \<Rightarrow> string list \<Rightarrow> PrincipalPermission \<Rightarrow> OpenFGA \<Rightarrow> bool \<times> OpenFGA" where
  "confirm req ancestors scopes permission f =
     (case ancestors of
        Some as \<Rightarrow>
          (let resource = permissionScopedResource (cr_ResourceID req) permission;
               f1 = fold (\<lambda>a. WriteRelation \<lparr>tk_User = permissionScopedDepartment a permission, tk_Relation = ''parent'',
                           tk_Object = resource\<rparr>) as f
           in (CheckRelation \<lparr>tk_User = principal_user req, tk_Relation = ''viewer'', tk_Object = resource\<rparr> f1, f1))
      | None \<Rightarrow>
          (list_ex (\<lambda>scope. CheckRelation \<lparr>tk_User = principal_user req, tk_Relation = ''member'',
              tk_Object = permissionScopedDepartment scope permission\<rparr> f) scopes, f))"

text \<open>
  The outer \<open>option\<close> is \<open>None\<close> where the code would not return, the inner one where the snapshot is invalid.
  \<open>order\<close> is the order in which the code ranges over the parents map.
\<close>

definition sealCapabilityRelations ::
  "(string list \<Rightarrow> string list) \<Rightarrow> SealedAccessSnapshot \<Rightarrow> CapabilityRequest \<Rightarrow> PrincipalPermission
     \<Rightarrow> capabilityScopeAnalysis option option" where
  "sealCapabilityRelations order snapshot req requiredPermission =
     (if length (ss_OrgUnits snapshot) > MaxSealedOrgUnits \<or> length (ss_Memberships snapshot) > MaxSealedMemberships
      then Some None
      else case seal_units (ss_OrgUnits snapshot) [] of None \<Rightarrow> Some None | Some ps \<Rightarrow>
      if \<not> fst (seal_graph ps (order (map fst ps)) (\<lambda>_. 0) (\<lambda>_. 0) 0) then Some None
      else if cr_TargetOrgUnitID req \<noteq> [] \<and> map_of ps (cr_TargetOrgUnitID req) = None then Some None
      else case (if cr_TargetOrgUnitID req = [] then Some None
                 else map_option Some (ancestors_of ps (cr_TargetOrgUnitID req) [])) of
        None \<Rightarrow> None
      | Some ancestors \<Rightarrow>
          (case seal_memberships req requiredPermission ancestors ps [] (ss_Memberships snapshot)
                  \<lparr>sl_relations = {}, sl_required = [], sl_suggest = []\<rparr> of
             None \<Rightarrow> Some None
           | Some s \<Rightarrow>
               (let required = sealedSortedScopes (sl_required s); suggest = sealedSortedScopes (sl_suggest s) in
                case confirm req ancestors required requiredPermission (sl_relations s) of (covered, f) \<Rightarrow>
                case confirm req ancestors suggest PermissionSuggest f of (suggestCovered, _) \<Rightarrow>
                Some (Some \<lparr>ca_requiredScopes = required, ca_suggestScopes = suggest, ca_covered = covered,
                            ca_suggestCovered = suggestCovered\<rparr>))))"

subsection \<open>The evaluator\<close>

type_synonym SnapshotSource = "bool \<Rightarrow> string \<Rightarrow> string \<Rightarrow> policy_go_error + SealedAccessSnapshot"

record CapabilityEvaluator =
  cx_source :: "SnapshotSource option"
  cx_observer :: bool
  cx_order :: "string list \<Rightarrow> string list"

type_synonym integrity_log = "(string \<times> string \<times> int) list"

definition request_sealed :: "CapabilityRequest \<Rightarrow> SealedAccessSnapshot \<Rightarrow> bool" where
  "request_sealed req snapshot \<longleftrightarrow>
     cr_SealedOrgVersion req = ss_OrgVersion snapshot \<and> sealedCanonical (cr_ResourceType req)
     \<and> sealedCanonical (cr_ResourceID req) \<and> sealedCanonical (cr_Capability req)
     \<and> (cr_TargetOrgUnitID req = [] \<or> sealedCanonical (cr_TargetOrgUnitID req))"

definition decide ::
  "CapabilityRequest \<Rightarrow> PrincipalPermission \<Rightarrow> PermissionDecision \<Rightarrow> capabilityScopeAnalysis \<Rightarrow> PermissionDecision" where
  "decide req requiredPermission decision analysis =
     (if ca_requiredScopes analysis \<noteq> [] \<and> ca_covered analysis
      then decision\<lparr>pd_Decision := DecisionAllow, pd_Permissions := [requiredPermission], pd_OrgUnitIDs := ca_requiredScopes analysis\<rparr>
      else if cr_Capability req = CapabilityKnowledgeUpdate \<and> ca_suggestScopes analysis \<noteq> [] \<and> ca_suggestCovered analysis
      then decision\<lparr>pd_Permissions := [PermissionSuggest], pd_OrgUnitIDs := ca_suggestScopes analysis,
             pd_FallbackCapability := CapabilityKnowledgeSuggest\<rparr>
      else decision)"

text \<open>\<open>None\<close>: the code does not return.\<close>

definition Evaluate ::
  "CapabilityEvaluator \<Rightarrow> bool \<Rightarrow> CapabilityRequest \<Rightarrow> integrity_log
     \<Rightarrow> ((policy_go_error + PermissionDecision) \<times> integrity_log) option" where
  "Evaluate e ctx_done req log =
     (case cx_source e of None \<Rightarrow> Some (Inl (Sentinel ErrPolicyUnavailable), log) | Some load \<Rightarrow>
      if \<not> sealedCanonical (cr_TenantRef req) \<or> \<not> sealedCanonical (cr_PrincipalRef req)
      then Some (Inl (Sentinel ErrPolicyUnavailable), log)
      else case load ctx_done (cr_TenantRef req) (cr_PrincipalRef req) of
        Inl err \<Rightarrow> Some (Inl (Joined [Sentinel ErrPolicyUnavailable, err]), log)
      | Inr snapshot \<Rightarrow>
      if ss_TenantRef snapshot \<noteq> cr_TenantRef req \<or> ss_OrgVersion snapshot < 1
      then Some (Inl (Sentinel ErrPolicyUnavailable), log)
      else case RequiredCapabilityPermission (cr_ResourceType req) (cr_Capability req) of
        None \<Rightarrow> Some (Inr (DeniedCapabilityDecision (ss_OrgVersion snapshot) CapabilityRiskHigh), log)
      | Some (requiredPermission, baselineRisk) \<Rightarrow>
      if \<not> request_sealed req snapshot
      then Some (Inr (DeniedCapabilityDecision (ss_OrgVersion snapshot) CapabilityRiskHigh), log)
      else if ctx_done \<and> length (ss_OrgUnits snapshot) \<le> MaxSealedOrgUnits \<and> length (ss_Memberships snapshot) \<le> MaxSealedMemberships
      then Some (Inl (Joined [Sentinel ErrPolicyUnavailable, Message ''context'']), log)
      else case sealCapabilityRelations (cx_order e) snapshot req requiredPermission of
        None \<Rightarrow> None
      | Some None \<Rightarrow>
          Some (Inr (DeniedCapabilityDecision (ss_OrgVersion snapshot) CapabilityRiskHigh),
                if cx_observer e then log @ [(cr_TenantRef req, cr_PrincipalRef req, ss_OrgVersion snapshot)] else log)
      | Some (Some analysis) \<Rightarrow>
          Some (Inr (decide req requiredPermission (DeniedCapabilityDecision (ss_OrgVersion snapshot) baselineRisk) analysis), log))"

subsection \<open>The in-memory snapshot source\<close>

definition sealedSnapshotKey :: "string \<Rightarrow> string \<Rightarrow> string" where
  "sealedSnapshotKey tenantRef principalRef = tenantRef @ [CHR 0x00] @ principalRef"

type_synonym MemorySnapshotSource = "string \<rightharpoonup> SealedAccessSnapshot"

definition StoreSnapshot :: "string \<Rightarrow> string \<Rightarrow> SealedAccessSnapshot \<Rightarrow> MemorySnapshotSource \<Rightarrow> MemorySnapshotSource" where
  "StoreSnapshot tenantRef principalRef snapshot s = s(sealedSnapshotKey tenantRef principalRef \<mapsto> snapshot)"

definition LoadAccessSnapshot :: "MemorySnapshotSource \<Rightarrow> SnapshotSource" where
  "LoadAccessSnapshot s ctx_done tenantRef principalRef =
     (if ctx_done then Inl (Message ''context'')
      else case s (sealedSnapshotKey tenantRef principalRef) of
        None \<Rightarrow> Inl (Sentinel ErrPolicyUnavailable)
      | Some snapshot \<Rightarrow> Inr snapshot)"

subsection \<open>The rule list (dsl.go, evaluator.go)\<close>

record Rule =
  ru_ResourceType :: string
  ru_Action :: string
  ru_Decision :: Decision
  ru_DataScope :: "string list"
  ru_MaskFields :: "string list"
  ru_RiskLevel :: int

record Policy =
  po_EnforceAdmins :: bool
  po_Rules :: "Rule list"

record PolicyRequest =
  rr_ActorRoles :: "string list"
  rr_ResourceType :: string
  rr_ResourceID :: string
  rr_Action :: string
  rr_Fields :: "string list"

record PolicyResult =
  re_Decision :: Decision
  re_DataScope :: "string list"
  re_MaskFields :: "string list"
  re_RiskLevel :: int

definition RiskLow :: int where "RiskLow = 1"
definition RiskMedium :: int where "RiskMedium = 2"
definition RiskHigh :: int where "RiskHigh = 3"

definition riskLevel :: "int \<Rightarrow> int" where
  "riskLevel value = (if value = 0 then RiskMedium else value)"

definition calculateMaskFields :: "string list \<Rightarrow> string list \<Rightarrow> string list" where
  "calculateMaskFields requestedFields maskFields = filter (\<lambda>field. field \<in> set maskFields) requestedFields"

definition EvaluateRules :: "Policy \<Rightarrow> PolicyRequest \<Rightarrow> PolicyResult" where
  "EvaluateRules policy req =
     (if \<not> po_EnforceAdmins policy \<and> ''admin'' \<in> set (rr_ActorRoles req)
      then \<lparr>re_Decision = DecisionAllow, re_DataScope = [], re_MaskFields = [], re_RiskLevel = RiskLow\<rparr>
      else case find (\<lambda>rule. ru_ResourceType rule = rr_ResourceType req \<and> ru_Action rule = rr_Action req) (po_Rules policy) of
        Some rule \<Rightarrow> \<lparr>re_Decision = ru_Decision rule, re_DataScope = ru_DataScope rule,
                      re_MaskFields = calculateMaskFields (rr_Fields req) (ru_MaskFields rule), re_RiskLevel = riskLevel (ru_RiskLevel rule)\<rparr>
      | None \<Rightarrow> \<lparr>re_Decision = DecisionDeny, re_DataScope = [], re_MaskFields = [], re_RiskLevel = RiskHigh\<rparr>)"

end
