(* ===== verification/CapabilityLaws.thy ===== *)
theory CapabilityLaws
  imports CapabilityPolicy "HOL-Library.Multiset"
begin

text \<open>
  What a capability decision means. The colour-marking walk over the parents map accepts exactly the forests of bounded
  depth, in whatever order it visits the units and with at most two lookups a unit; the relationship store then grants
  exactly what a membership with the required permission at or above the target grants; and every evaluation returns.
\<close>

subsection \<open>Depth in the unit graph\<close>

inductive depth :: "parents \<Rightarrow> string \<Rightarrow> nat \<Rightarrow> bool" where
  root: "depth ps [] 0"
| child: "x \<noteq> [] \<Longrightarrow> map_of ps x = Some p \<Longrightarrow> depth ps p d \<Longrightarrow> depth ps x (Suc d)"

inductive_cases depthE: "depth ps x d"

lemma depth_Nil [simp]: "depth ps [] d \<longleftrightarrow> d = 0"
  by (subst depth.simps) auto

lemma depth_child:
  assumes "x \<noteq> []"
  shows "depth ps x d \<longleftrightarrow> (\<exists>p d'. map_of ps x = Some p \<and> depth ps p d' \<and> d = Suc d')" (is "_ = ?r")
proof
  assume "depth ps x d"
  then show ?r using assms by cases auto
next
  assume ?r
  then show "depth ps x d" using assms by (auto intro: depth.child)
qed

lemma depth_unique: "depth ps x d \<Longrightarrow> depth ps x e \<Longrightarrow> d = e"
proof (induction arbitrary: e rule: depth.induct)
  case (child x ps p d)
  from child.prems child.hyps(1,2) obtain d' where "depth ps p d'" "e = Suc d'" by cases auto
  with child.IH show ?case by simp
qed simp

definition shallow :: "parents \<Rightarrow> string \<Rightarrow> bool" where
  "shallow ps x \<longleftrightarrow> (\<exists>d \<le> MaxSealedOrgDepth. depth ps x d)"

text \<open>The path of the walk: each unit's parent is the one before it, the cursor the parent of the first.\<close>

fun links :: "parents \<Rightarrow> string list \<Rightarrow> string \<Rightarrow> bool" where
  "links ps [] c \<longleftrightarrow> True"
| "links ps (x # xs) c \<longleftrightarrow> x \<noteq> [] \<and> map_of ps x = Some c \<and> links ps xs x"

lemma links_depth: "links ps path c \<Longrightarrow> depth ps c d \<Longrightarrow> i < length path \<Longrightarrow> depth ps (path ! i) (d + Suc i)"
proof (induction path arbitrary: c d i)
  case (Cons x xs)
  then have x: "depth ps x (Suc d)" "links ps xs x" by (auto intro: depth.child)
  with Cons.IH[OF x(2,1)] Cons.prems(3) show ?case by (cases i) auto
qed simp

lemma links_depth_back:
  "links ps path c \<Longrightarrow> path \<noteq> [] \<Longrightarrow> depth ps (last path) d \<Longrightarrow> \<exists>d'. d = d' + length path \<and> depth ps c d'"
proof (induction path arbitrary: c)
  case (Cons x xs)
  have "\<exists>d'. d = d' + length xs \<and> depth ps x d'" using Cons by (cases xs) auto
  then obtain d' where d': "d = d' + length xs" "depth ps x d'" by blast
  moreover have "x \<noteq> []" "map_of ps x = Some c" using Cons.prems(1) by simp_all
  ultimately show ?case by (auto simp: depth_child)
qed simp

subsection \<open>The walk\<close>

definition settled :: "parents \<Rightarrow> (string \<Rightarrow> nat) \<Rightarrow> (string \<Rightarrow> nat) \<Rightarrow> bool" where
  "settled ps colors depths \<longleftrightarrow>
     (\<forall>x. colors x = 2 \<longrightarrow> depth ps x (depths x) \<and> depths x \<le> MaxSealedOrgDepth)"

definition walking :: "parents \<Rightarrow> (string \<Rightarrow> nat) \<Rightarrow> string list \<Rightarrow> string \<Rightarrow> bool" where
  "walking ps colors path cursor \<longleftrightarrow>
     distinct path \<and> links ps path cursor \<and> (\<forall>x. colors x = 1 \<longleftrightarrow> x \<in> set path) \<and> length path \<le> MaxSealedOrgDepth"

definition start_of :: "string list \<Rightarrow> string \<Rightarrow> string" where
  "start_of path cursor = (if path = [] then cursor else last path)"

lemma start_of_Cons [simp]: "start_of (cursor # path) c = start_of path cursor"
  by (simp add: start_of_def)

lemma start_depth:
  assumes "walking ps colors path cursor" and "depth ps (start_of path cursor) d"
  shows "\<exists>d'. d = d' + length path \<and> depth ps cursor d'"
  using assms links_depth_back[of ps path cursor d] by (auto simp: start_of_def walking_def split: if_splits)

lemma walking_step:
  assumes "walking ps colors path cursor" and "cursor \<noteq> []" and "map_of ps cursor = Some p"
    and "colors cursor \<noteq> 1" and "Suc (length path) \<le> MaxSealedOrgDepth"
  shows "walking ps (colors(cursor := 1)) (cursor # path) p"
  using assms by (auto simp: walking_def)

lemma walk_up_Nil [simp]: "walk_up ps colors depths path [] w = (Some (colors, path, 0), w)"
  by (simp add: walk_up.simps)

lemma walk_up_rejects:
  "walk_up ps colors depths path cursor w = (None, w') \<Longrightarrow> settled ps colors depths \<Longrightarrow> walking ps colors path cursor
    \<Longrightarrow> \<not> shallow ps (start_of path cursor)"
proof (induction ps colors depths path cursor w rule: walk_up.induct)
  case (1 ps colors depths path cursor w)
  show ?case
  proof
    assume "shallow ps (start_of path cursor)"
    then obtain d where d: "d \<le> MaxSealedOrgDepth" "depth ps (start_of path cursor) d" by (auto simp: shallow_def)
    obtain d' where d': "d = d' + length path" "depth ps cursor d'" using start_depth[OF 1(4) d(2)] by blast
    have c: "cursor \<noteq> []" using 1(2) by auto
    from d'(2) c obtain p where p: "map_of ps cursor = Some p" and deep: "d' > 0" by (auto simp: depth_child)
    show False
    proof (cases "colors cursor = 1")
      case True
      then obtain i where "i < length path" "path ! i = cursor" using 1(4) by (auto simp: walking_def in_set_conv_nth)
      then have "depth ps cursor (d' + Suc i)" using links_depth[OF _ d'(2)] 1(4) by (auto simp: walking_def)
      then show False using depth_unique[OF d'(2)] by fastforce
    next
      case False
      have more: "Suc (length path) \<le> MaxSealedOrgDepth" using d(1) d'(1) deep by simp
      have not2: "colors cursor \<noteq> 2" using 1(2) c p False by (auto simp: walk_up.simps[of ps colors depths path cursor])
      have step: "walk_up ps (colors(cursor := 1)) depths (cursor # path) p (Suc w) = (None, w')"
        using 1(2) c p False not2 more by (simp add: walk_up.simps[of ps colors depths path cursor])
      have "settled ps (colors(cursor := 1)) depths" using 1(3) by (simp add: settled_def)
      then have "\<not> shallow ps (start_of (cursor # path) p)"
        using 1(1)[OF c p False not2 leD[OF more] step _ walking_step[OF 1(4) c p False more]] by blast
      then show False using d by (auto simp: shallow_def)
    qed
  qed
qed

lemma walk_up_arrives:
  "walk_up ps colors depths path cursor w = (Some (colors1, path1, b), w') \<Longrightarrow> settled ps colors depths
    \<Longrightarrow> walking ps colors path cursor
    \<Longrightarrow> \<exists>c. depth ps c b \<and> walking ps colors1 path1 c \<and> settled ps colors1 depths
         \<and> (\<forall>x. x \<notin> set path1 \<longrightarrow> colors1 x = colors x) \<and> start_of path1 c = start_of path cursor
         \<and> (cursor \<noteq> [] \<longrightarrow> colors cursor \<noteq> 2 \<longrightarrow> path1 \<noteq> [])"
proof (induction ps colors depths path cursor w rule: walk_up.induct)
  case (1 ps colors depths path cursor w)
  consider (root) "cursor = []" | (known) p where "cursor \<noteq> []" "map_of ps cursor = Some p" "colors cursor = 2"
    | (new) p where "cursor \<noteq> []" "map_of ps cursor = Some p" "colors cursor \<noteq> 1" "colors cursor \<noteq> 2"
        "Suc (length path) \<le> MaxSealedOrgDepth"
    using 1(2) by (auto simp: walk_up.simps[of ps colors depths path cursor] split: if_splits option.splits)
  then show ?case
  proof cases
    case root
    with 1(2) have "colors1 = colors" "path1 = path" "b = 0" by simp_all
    with root 1(3,4) show ?thesis by (intro exI[of _ "[]"]) simp
  next
    case known
    then have "depth ps cursor (depths cursor)" using 1(3) by (simp add: settled_def)
    moreover have "colors1 = colors" "path1 = path" "b = depths cursor"
      using 1(2) known by (auto simp: walk_up.simps[of ps colors depths path cursor])
    ultimately show ?thesis using 1(3,4) known(3) by blast
  next
    case new
    have step: "walk_up ps (colors(cursor := 1)) depths (cursor # path) p (Suc w) = (Some (colors1, path1, b), w')"
      using 1(2) new by (simp add: walk_up.simps[of ps colors depths path cursor])
    have "settled ps (colors(cursor := 1)) depths" using 1(3) by (simp add: settled_def)
    then obtain c where c: "depth ps c b" "walking ps colors1 path1 c" "settled ps colors1 depths"
      "\<forall>x. x \<notin> set path1 \<longrightarrow> colors1 x = (colors(cursor := 1)) x" "start_of path1 c = start_of (cursor # path) p"
      using 1(1)[OF new(1-4) leD[OF new(5)] step _ walking_step[OF 1(4) new(1-3,5)]] by blast
    have "cursor \<in> set path1"
    proof (rule ccontr)
      assume "cursor \<notin> set path1"
      with c(4) have "colors1 cursor = 1" by simp
      with c(2) \<open>cursor \<notin> set path1\<close> show False by (simp add: walking_def)
    qed
    with c show ?thesis by (intro exI[of _ c]) auto
  qed
qed

lemma settle_spec:
  "distinct path \<Longrightarrow> settle path b colors depths = Some (colors2, depths2) \<Longrightarrow>
     (\<forall>x. colors2 x = (if x \<in> set path then 2 else colors x)) \<and> (\<forall>x. x \<notin> set path \<longrightarrow> depths2 x = depths x)
     \<and> (\<forall>i < length path. depths2 (path ! i) = b + Suc i \<and> b + Suc i \<le> MaxSealedOrgDepth)"
proof (induction path arbitrary: b colors depths)
  case (Cons x path)
  have step: "settle path (Suc b) (colors(x := 2)) (depths(x := Suc b)) = Some (colors2, depths2)"
    "Suc b \<le> MaxSealedOrgDepth" "x \<notin> set path" "distinct path"
    using Cons.prems by (auto split: if_splits)
  note IH = Cons.IH[OF step(4,1)]
  have "depths2 ((x # path) ! i) = b + Suc i \<and> b + Suc i \<le> MaxSealedOrgDepth" if "i < length (x # path)" for i
    using that IH step(2,3) by (cases i) auto
  then show ?case using IH step(3) by auto
qed simp

lemma settle_rejects: "settle path b colors depths = None \<Longrightarrow> b + length path > MaxSealedOrgDepth"
  by (induction path b colors depths rule: settle.induct) (auto split: if_splits)

lemma seal_graph_iff:
  "settled ps colors depths \<Longrightarrow> (\<forall>x. colors x \<noteq> 1) \<Longrightarrow> (\<forall>x \<in> set ids. x \<noteq> []) \<Longrightarrow>
     fst (seal_graph ps ids colors depths w) \<longleftrightarrow> (\<forall>x \<in> set ids. shallow ps x)"
proof (induction ids arbitrary: colors depths w)
  case (Cons x ids)
  have walk: "walking ps colors [] x" using Cons.prems(2) by (simp add: walking_def)
  show ?case
  proof (cases "colors x = 2")
    case True
    then have "shallow ps x" using Cons.prems(1) by (auto simp: settled_def shallow_def)
    then show ?thesis using Cons True by simp
  next
    case False
    obtain r w1 where run: "walk_up ps colors depths [] x w = (r, w1)" by force
    show ?thesis
    proof (cases r)
      case None
      then have "\<not> shallow ps x" using walk_up_rejects[OF run[unfolded None] Cons.prems(1) walk] by (simp add: start_of_def)
      then show ?thesis using False run None by simp
    next
      case (Some t)
      obtain colors1 path b where t: "t = (colors1, path, b)" by (cases t)
      obtain c where c: "depth ps c b" "walking ps colors1 path c" "settled ps colors1 depths"
        "start_of path c = x" "path \<noteq> []"
        using walk_up_arrives[OF run[unfolded Some t] Cons.prems(1) walk] False Cons.prems(3) by (auto simp: start_of_def)
      have own: "path \<noteq> []" "last path = x" "distinct path" "links ps path c" "length path \<le> MaxSealedOrgDepth"
        using c False Cons.prems(3) by (auto simp: start_of_def walking_def)
      have deep: "depth ps (path ! i) (b + Suc i)" if "i < length path" for i
        by (rule links_depth[OF own(4) c(1) that])
      have x: "depth ps x (b + length path)" using deep[of "length path - 1"] own(1,2) by (simp add: last_conv_nth)
      show ?thesis
      proof (cases "settle path b colors1 depths")
        case None
        then have "\<not> shallow ps x" using settle_rejects[OF None] depth_unique[OF x] by (auto simp: shallow_def)
        then show ?thesis using False run Some t None by simp
      next
        case (Some u)
        obtain colors2 depths2 where u: "u = (colors2, depths2)" by (cases u)
        note spec = settle_spec[OF own(3) Some[unfolded u]]
        have grey: "\<forall>y. colors2 y \<noteq> 1" using spec c(2) by (auto simp: walking_def)
        have "settled ps colors2 depths2"
          unfolding settled_def
        proof (intro allI impI)
          fix y assume y: "colors2 y = 2"
          show "depth ps y (depths2 y) \<and> depths2 y \<le> MaxSealedOrgDepth"
          proof (cases "y \<in> set path")
            case True
            then obtain i where "i < length path" "y = path ! i" by (auto simp: in_set_conv_nth)
            then show ?thesis using spec deep by auto
          next
            case False
            then show ?thesis using spec y c(3) by (auto simp: settled_def)
          qed
        qed
        moreover have "shallow ps x"
          using spec own(1) x unfolding shallow_def by (intro exI[of _ "b + length path"]) (cases path; auto)
        ultimately show ?thesis using False run Some t u \<open>r = Some t\<close> grey Cons.IH[of colors2 depths2 w1] Cons.prems(3) by simp
      qed
    qed
  qed
qed simp

subsection \<open>Its work\<close>

text \<open>New units still to colour.\<close>

definition new_units :: "parents \<Rightarrow> (string \<Rightarrow> nat) \<Rightarrow> nat" where
  "new_units ps colors = length (filter (\<lambda>x. colors x = 0) (map fst ps))"

lemma new_units_colour:
  "map_of ps x = Some p \<Longrightarrow> colors x = 0 \<Longrightarrow> c \<noteq> 0 \<Longrightarrow> Suc (new_units ps (colors(x := c))) \<le> new_units ps colors"
proof (induction ps)
  case (Cons q ps)
  have mono: "new_units ps (colors(x := c)) \<le> new_units ps colors"
    using Cons.prems(3) by (induction ps) (auto simp: new_units_def)
  show ?case
  proof (cases "fst q = x")
    case True
    then show ?thesis using mono Cons.prems(2,3) by (simp add: new_units_def)
  next
    case False
    then show ?thesis using Cons by (auto simp: new_units_def split: if_splits)
  qed
qed simp

lemma walk_up_work:
  "walk_up ps colors depths path cursor w = (r, w') \<Longrightarrow> (\<forall>x. colors x \<le> 2)
    \<Longrightarrow> case r of None \<Rightarrow> w' \<le> Suc (w + new_units ps colors)
        | Some (colors1, _, _) \<Rightarrow> w' + new_units ps colors1 \<le> Suc (w + new_units ps colors) \<and> (\<forall>x. colors1 x \<le> 2)"
proof (induction ps colors depths path cursor w rule: walk_up.induct)
  case (1 ps colors depths path cursor w)
  consider (stop) "r = None" "w' \<le> Suc w" | (arrive) b where "r = Some (colors, path, b)" "w' \<le> Suc w"
    | (new) p where "cursor \<noteq> []" "map_of ps cursor = Some p" "colors cursor \<noteq> 1" "colors cursor \<noteq> 2"
        "\<not> Suc (length path) > MaxSealedOrgDepth"
        "walk_up ps (colors(cursor := 1)) depths (cursor # path) p (Suc w) = (r, w')"
    using 1(2) by (auto simp: walk_up.simps[of ps colors depths path cursor] split: if_splits option.splits)
  then show ?case
  proof cases
    case new
    have "colors cursor = 0" using 1(3) new(3,4) by (metis One_nat_def Suc_1 le_Suc_eq le_zero_eq)
    then have "Suc (new_units ps (colors(cursor := 1))) \<le> new_units ps colors" using new(2) by (intro new_units_colour) auto
    moreover have "\<forall>x. (colors(cursor := 1)) x \<le> 2" using 1(3) by simp
    ultimately show ?thesis using 1(1)[OF new] by (fastforce split: option.splits)
  qed (use 1(3) in auto)
qed

lemma settle_new:
  "settle path b colors depths = Some (colors2, depths2) \<Longrightarrow> (\<forall>x. colors x \<le> 2)
    \<Longrightarrow> new_units ps colors2 \<le> new_units ps colors \<and> (\<forall>x. colors2 x \<le> 2)"
proof (induction path arbitrary: b colors depths)
  case (Cons x path)
  have "settle path (Suc b) (colors(x := 2)) (depths(x := Suc b)) = Some (colors2, depths2)"
    using Cons.prems(1) by (simp split: if_splits)
  moreover have "\<forall>y. (colors(x := 2)) y \<le> 2" using Cons.prems(2) by simp
  moreover have "new_units ps (colors(x := 2)) \<le> new_units ps colors"
    by (induction ps) (auto simp: new_units_def)
  ultimately show ?case using Cons.IH by (meson le_trans)
qed simp

lemma seal_graph_work:
  "(\<forall>x. colors x \<le> 2) \<Longrightarrow> snd (seal_graph ps ids colors depths w) \<le> w + new_units ps colors + length ids"
proof (induction ids arbitrary: colors depths w)
  case (Cons x ids)
  obtain r w1 where run: "walk_up ps colors depths [] x w = (r, w1)" by force
  note cw = walk_up_work[OF run Cons.prems]
  show ?case
  proof (cases "colors x = 2")
    case True
    then show ?thesis using Cons.IH[OF Cons.prems, of depths w] by simp
  next
    case False
    show ?thesis
    proof (cases r)
      case None
      then show ?thesis using False run cw by simp
    next
      case (Some t)
      obtain colors1 path b where t: "t = (colors1, path, b)" by (cases t)
      have w1: "w1 + new_units ps colors1 \<le> Suc (w + new_units ps colors)" "\<forall>x. colors1 x \<le> 2" using cw Some t by simp_all
      show ?thesis
      proof (cases "settle path b colors1 depths")
        case None
        then show ?thesis using False run \<open>r = Some t\<close> t w1 by simp
      next
        case (Some u)
        obtain colors2 depths2 where u: "u = (colors2, depths2)" by (cases u)
        note new2 = settle_new[OF Some[unfolded u] w1(2), of ps]
        have "snd (seal_graph ps ids colors2 depths2 w1) \<le> w1 + new_units ps colors2 + length ids"
          using Cons.IH new2 by blast
        then show ?thesis using False run \<open>r = Some t\<close> t Some u w1 new2 by simp
      qed
    qed
  qed
qed simp

subsection \<open>The units above a unit\<close>

inductive under :: "parents \<Rightarrow> string \<Rightarrow> string \<Rightarrow> bool" where
  itself: "x \<noteq> [] \<Longrightarrow> under ps x x"
| above: "x \<noteq> [] \<Longrightarrow> map_of ps x = Some p \<Longrightarrow> under ps p a \<Longrightarrow> under ps x a"

lemma under_root [simp]: "\<not> under ps [] a"
  by (auto elim: under.cases)

lemma under_child:
  assumes "x \<noteq> []" and "map_of ps x = Some p"
  shows "under ps x a \<longleftrightarrow> a = x \<or> under ps p a"
proof
  assume "under ps x a"
  then show "a = x \<or> under ps p a" using assms by cases auto
next
  assume "a = x \<or> under ps p a"
  then show "under ps x a" using assms by (auto intro: under.intros)
qed

lemma ancestors_of_depth:
  "depth ps x d \<Longrightarrow> \<exists>as. ancestors_of ps x acc = Some as \<and> set as = set acc \<union> {a. under ps x a}"
proof (induction arbitrary: acc rule: depth.induct)
  case (root ps)
  then show ?case by (subst ancestors_of.simps) auto
next
  case (child x ps p d)
  obtain as where as: "ancestors_of ps p (List.insert x acc) = Some as" "set as = set (List.insert x acc) \<union> {a. under ps p a}"
    using child.IH by blast
  have "ancestors_of ps x acc = Some as" using child.hyps(1,2) as(1) by (subst ancestors_of.simps) simp
  then show ?case using as(2) under_child[OF child.hyps(1,2)] by auto
qed

subsection \<open>What the snapshot grants\<close>

definition org_of :: "SealedAccessSnapshot \<Rightarrow> parents" where
  "org_of snapshot = map (\<lambda>u. (su_ID u, su_ParentID u)) (ss_OrgUnits snapshot)"

definition units_ok :: "SealedOrgUnit list \<Rightarrow> bool" where
  "units_ok us \<longleftrightarrow> (\<forall>u \<in> set us. sealedCanonical (su_ID u) \<and> (su_ParentID u = [] \<or> sealedCanonical (su_ParentID u)))
     \<and> distinct (map su_ID us)"

definition memberships_ok :: "parents \<Rightarrow> SealedMembership list \<Rightarrow> bool" where
  "memberships_ok ps ms \<longleftrightarrow>
     (\<forall>m \<in> set ms. sealedCanonical (sm_OrgUnitID m) \<and> sealedKnownRole (sm_Role m) \<and> map_of ps (sm_OrgUnitID m) \<noteq> None)
     \<and> distinct (map (\<lambda>m. (sm_OrgUnitID m, sm_Role m)) ms)"

text \<open>A snapshot that is well-formed for a request on a target unit (\<open>[]\<close>: none).\<close>

definition sealed_valid :: "SealedAccessSnapshot \<Rightarrow> string \<Rightarrow> bool" where
  "sealed_valid snapshot target \<longleftrightarrow>
     length (ss_OrgUnits snapshot) \<le> MaxSealedOrgUnits \<and> length (ss_Memberships snapshot) \<le> MaxSealedMemberships
     \<and> units_ok (ss_OrgUnits snapshot) \<and> (\<forall>u \<in> set (ss_OrgUnits snapshot). shallow (org_of snapshot) (su_ID u))
     \<and> (target = [] \<or> map_of (org_of snapshot) target \<noteq> None)
     \<and> memberships_ok (org_of snapshot) (ss_Memberships snapshot)"

text \<open>The units in scope of the target at which the principal holds a role with the permission.\<close>

definition scopes_of :: "SealedAccessSnapshot \<Rightarrow> string \<Rightarrow> PrincipalPermission \<Rightarrow> string set" where
  "scopes_of snapshot target p =
     {sm_OrgUnitID m | m. m \<in> set (ss_Memberships snapshot) \<and> MembershipRolePermission (sm_Role m) = Some p
        \<and> (target = [] \<or> under (org_of snapshot) target (sm_OrgUnitID m))}"

lemma seal_units_eq:
  "seal_units us ps =
     (if units_ok us \<and> (\<forall>u \<in> set us. map_of ps (su_ID u) = None) then Some (ps @ map (\<lambda>u. (su_ID u, su_ParentID u)) us) else None)"
proof (induction us ps rule: seal_units.induct)
  case (2 u us ps)
  have keys: "map_of (ps @ [(su_ID u, su_ParentID u)]) x = None \<longleftrightarrow> x \<noteq> su_ID u \<and> map_of ps x = None" for x
    by (auto simp: map_add_def split: option.splits)
  show ?case
  proof (cases "sealedCanonical (su_ID u) \<and> (su_ParentID u = [] \<or> sealedCanonical (su_ParentID u)) \<and> map_of ps (su_ID u) = None")
    case True
    then show ?thesis using 2 keys by (auto simp: units_ok_def image_iff simp del: map_of_append) (metis+)
  next
    case False
    then show ?thesis by (auto simp: units_ok_def)
  qed
qed (simp add: units_ok_def)

lemma role_permission_plain:
  "MembershipRolePermission role = Some p \<Longrightarrow> CHR ''|'' \<notin> set p \<and> CHR 0x00 \<notin> set role"
proof -
  assume r: "MembershipRolePermission role = Some p"
  let ?roles = "[''member'', ''manager'', ''admin'', PermissionSuggest, PermissionEdit, PermissionPublishLowRisk, PermissionApproveHighRisk,
     PermissionWorkflowEdit, PermissionWorkflowAdvanced, PermissionServiceMode]"
  have "\<forall>x \<in> set ?roles. CHR ''|'' \<notin> set x \<and> CHR 0x00 \<notin> set x" by (simp add: permission_defs)
  moreover have "role \<in> set ?roles" "p \<in> set ([] # ?roles)"
    using r by (auto simp: MembershipRolePermission_def split: if_split_asm)
  ultimately show ?thesis by fastforce
qed

lemma required_permission_plain:
  "RequiredCapabilityPermission rt c = Some (p, risk) \<Longrightarrow> CHR ''|'' \<notin> set p \<and> p \<noteq> []"
proof -
  assume r: "RequiredCapabilityPermission rt c = Some (p, risk)"
  have all: "\<forall>(c, r) \<in> set capabilityRequirements. CHR ''|'' \<notin> set (rq_permission r) \<and> rq_permission r \<noteq> []"
    by (simp add: capabilityRequirements_def requirement_def permission_defs)
  from r obtain q where "map_of capabilityRequirements c = Some q" "rq_permission q = p"
    by (auto simp: RequiredCapabilityPermission_def split: option.splits if_splits)
  then show ?thesis using all by (auto dest: map_of_SomeD)
qed

lemma suggest_plain [simp]: "CHR ''|'' \<notin> set PermissionSuggest"
  by (simp add: PermissionSuggest_def)

lemma split_last:
  assumes "c \<notin> set p" and "c \<notin> set q"
  shows "a @ c # p = b @ c # q \<longleftrightarrow> a = b \<and> p = q"
proof
  assume "a @ c # p = b @ c # q"
  then have e: "rev p @ c # rev a = rev q @ c # rev b" by (metis append.assoc append_Cons append_Nil rev.simps(2) rev_append)
  have "takeWhile (\<lambda>x. x \<noteq> c) (rev r @ c # zs) = rev r" if "c \<notin> set r" for r zs
    using that by (subst takeWhile_append2) auto
  from this[OF assms(1), of "rev a"] this[OF assms(2), of "rev b"] e have "p = q" by (metis rev_rev_ident)
  with e show "a = b \<and> p = q" by simp
qed simp

lemma membershipKey_inject:
  assumes "sealedKnownRole (sm_Role m)" and "sealedKnownRole (sm_Role n)"
  shows "membershipKey m = membershipKey n \<longleftrightarrow> (sm_OrgUnitID m, sm_Role m) = (sm_OrgUnitID n, sm_Role n)"
proof -
  have "CHR 0x00 \<notin> set (sm_Role m)" "CHR 0x00 \<notin> set (sm_Role n)"
    using assms role_permission_plain by (auto simp: sealedKnownRole_def)
  then show ?thesis using split_last by (simp add: membershipKey_def)
qed

lemma seal_memberships_eq:
  "seal_memberships req rp anc ps seen ms s =
     (if (\<forall>m \<in> set ms. sealedCanonical (sm_OrgUnitID m) \<and> sealedKnownRole (sm_Role m) \<and> map_of ps (sm_OrgUnitID m) \<noteq> None
             \<and> membershipKey m \<notin> set seen) \<and> distinct (map membershipKey ms)
      then Some (fold (admit_membership req rp anc) ms s) else None)"
  by (induction req rp anc ps seen ms s rule: seal_memberships.induct) (auto simp: image_iff, metis+)

lemma distinct_keys:
  "\<forall>m \<in> set ms. sealedKnownRole (sm_Role m) \<Longrightarrow>
     distinct (map membershipKey ms) \<longleftrightarrow> distinct (map (\<lambda>m. (sm_OrgUnitID m, sm_Role m)) ms)"
  by (induction ms) (auto simp: membershipKey_inject image_iff)

subsection \<open>The relationship store\<close>

definition in_reach :: "string list option \<Rightarrow> string \<Rightarrow> bool" where
  "in_reach anc x \<longleftrightarrow> (case anc of None \<Rightarrow> True | Some as \<Rightarrow> x \<in> set as)"

definition member_tuple :: "CapabilityRequest \<Rightarrow> string \<times> PrincipalPermission \<Rightarrow> TupleKey" where
  "member_tuple req xp = \<lparr>tk_User = principal_user req, tk_Relation = ''member'', tk_Object = permissionScopedDepartment (fst xp) (snd xp)\<rparr>"

definition parent_tuple :: "CapabilityRequest \<Rightarrow> string \<times> PrincipalPermission \<Rightarrow> TupleKey" where
  "parent_tuple req xp = \<lparr>tk_User = permissionScopedDepartment (fst xp) (snd xp), tk_Relation = ''parent'',
     tk_Object = permissionScopedResource (cr_ResourceID req) (snd xp)\<rparr>"

definition relations :: "CapabilityRequest \<Rightarrow> (string \<times> PrincipalPermission) set \<Rightarrow> (string \<times> PrincipalPermission) set \<Rightarrow> OpenFGA" where
  "relations req M Q = member_tuple req ` M \<union> parent_tuple req ` Q"

definition plain :: "(string \<times> PrincipalPermission) set \<Rightarrow> bool" where
  "plain M \<longleftrightarrow> (\<forall>xp \<in> M. CHR ''|'' \<notin> set (snd xp))"

lemma department_inject:
  "CHR ''|'' \<notin> set p \<Longrightarrow> CHR ''|'' \<notin> set q \<Longrightarrow>
     permissionScopedDepartment a p = permissionScopedDepartment b q \<longleftrightarrow> a = b \<and> p = q"
  by (simp add: permissionScopedDepartment_def split_last)

lemma resource_inject:
  "CHR ''|'' \<notin> set p \<Longrightarrow> CHR ''|'' \<notin> set q \<Longrightarrow>
     permissionScopedResource a p = permissionScopedResource b q \<longleftrightarrow> a = b \<and> p = q"
  by (simp add: permissionScopedResource_def split_last)

lemma member_in_relations:
  assumes "plain M" and "CHR ''|'' \<notin> set p"
  shows "\<lparr>tk_User = principal_user req, tk_Relation = ''member'', tk_Object = permissionScopedDepartment x p\<rparr> \<in> relations req M Q
     \<longleftrightarrow> (x, p) \<in> M"
  using assms by (force simp: relations_def member_tuple_def parent_tuple_def plain_def department_inject)

lemma parents_in_relations:
  assumes "plain Q" and "CHR ''|'' \<notin> set p"
  shows "parentsOf (relations req M Q) (permissionScopedResource (cr_ResourceID req) p)
     = {permissionScopedDepartment a p | a. (a, p) \<in> Q}"
  using assms by (force simp: parentsOf_def relations_def member_tuple_def parent_tuple_def plain_def resource_inject image_iff)

lemma no_other_relation:
  "rel \<notin> {''member'', ''parent''} \<Longrightarrow> \<lparr>tk_User = u, tk_Relation = rel, tk_Object = obj\<rparr> \<notin> relations req M Q"
  by (auto simp: relations_def member_tuple_def parent_tuple_def)

lemma objectType_resource [simp]: "objectType (permissionScopedResource r p) = ''knowledge_space''"
  by (simp add: objectType_def permissionScopedResource_def)

lemma check_viewer:
  assumes "plain M" and "plain Q" and "CHR ''|'' \<notin> set p"
  shows "CheckRelation \<lparr>tk_User = principal_user req, tk_Relation = ''viewer'', tk_Object = permissionScopedResource (cr_ResourceID req) p\<rparr>
       (relations req M Q) \<longleftrightarrow> (\<exists>a. (a, p) \<in> Q \<and> (a, p) \<in> M)"
  using assms by (auto simp: CheckRelation_def no_other_relation parents_in_relations member_in_relations)

lemma check_member:
  assumes "plain M" and "CHR ''|'' \<notin> set p"
  shows "CheckRelation \<lparr>tk_User = principal_user req, tk_Relation = ''member'', tk_Object = permissionScopedDepartment x p\<rparr>
       (relations req M Q) \<longleftrightarrow> (x, p) \<in> M"
  using assms by (auto simp: CheckRelation_def member_in_relations)

lemma write_parent: "WriteRelation (parent_tuple req ap) (relations req M Q) = relations req M (insert ap Q)"
  by (auto simp: WriteRelation_def relations_def)

lemma fold_write:
  "fold (\<lambda>a. WriteRelation (parent_tuple req (a, p))) as (relations req M Q) = relations req M (Q \<union> {(a, p) | a. a \<in> set as})"
proof (induction as arbitrary: Q)
  case (Cons b as)
  have "insert (b, p) Q \<union> {(a, p) | a. a \<in> set as} = Q \<union> {(a, p) | a. a \<in> set (b # as)}" by auto
  then show ?case using Cons.IH[of "insert (b, p) Q"] by (simp add: write_parent)
qed simp

lemma confirm_targeted:
  assumes "plain M" and "plain Q" and "CHR ''|'' \<notin> set p" and "\<forall>xp \<in> M. fst xp \<in> set as"
  shows "confirm req (Some as) scopes p (relations req M Q) = (\<exists>a. (a, p) \<in> M, relations req M (Q \<union> {(a, p) | a. a \<in> set as}))"
proof -
  have "plain (Q \<union> {(a, p) | a. a \<in> set as})" using assms(2,3) by (auto simp: plain_def)
  then show ?thesis using assms fold_write[of req p as M Q]
    by (force simp: confirm_def Let_def check_viewer parent_tuple_def)
qed

lemma confirm_untargeted:
  assumes "plain M" and "CHR ''|'' \<notin> set p"
  shows "confirm req None scopes p (relations req M Q) = (\<exists>x \<in> set scopes. (x, p) \<in> M, relations req M Q)"
  using assms by (auto simp: confirm_def check_member list_ex_iff)

subsection \<open>The analysis, computed\<close>

definition granted ::
  "PrincipalPermission \<Rightarrow> string list option \<Rightarrow> SealedMembership list \<Rightarrow> (string \<times> PrincipalPermission) set" where
  "granted rp anc ms =
     {(sm_OrgUnitID m, q) | m q. m \<in> set ms \<and> MembershipRolePermission (sm_Role m) = Some q \<and> (q = rp \<or> q = PermissionSuggest)
        \<and> in_reach anc (sm_OrgUnitID m)}"

lemma granted_simps [simp]:
  "granted rp anc [] = {}"
  "granted rp anc (m # ms) =
     (case MembershipRolePermission (sm_Role m) of None \<Rightarrow> {}
      | Some q \<Rightarrow> if (q = rp \<or> q = PermissionSuggest) \<and> in_reach anc (sm_OrgUnitID m) then {(sm_OrgUnitID m, q)} else {})
     \<union> granted rp anc ms"
  by (auto simp: granted_def split: option.splits)

lemma plain_granted: "plain (granted rp anc ms)"
  using role_permission_plain by (fastforce simp: plain_def granted_def)

lemma granted_reach: "xp \<in> granted rp (Some as) ms \<Longrightarrow> fst xp \<in> set as"
  by (auto simp: granted_def in_reach_def)

lemma admit_membership_eq:
  assumes "MembershipRolePermission (sm_Role m) = Some q"
  shows "admit_membership req rp anc m s =
     (if (q = rp \<or> q = PermissionSuggest) \<and> in_reach anc (sm_OrgUnitID m)
      then \<lparr>sl_relations = insert (member_tuple req (sm_OrgUnitID m, q)) (sl_relations s),
            sl_required = (if q = rp then List.insert (sm_OrgUnitID m) (sl_required s) else sl_required s),
            sl_suggest = (if q = PermissionSuggest then List.insert (sm_OrgUnitID m) (sl_suggest s) else sl_suggest s)\<rparr>
      else s)"
  using assms by (auto simp: admit_membership_def Let_def in_reach_def member_tuple_def WriteRelation_def split: option.splits)

lemma fold_admit:
  "\<forall>m \<in> set ms. sealedKnownRole (sm_Role m) \<Longrightarrow> s' = fold (admit_membership req rp anc) ms s \<Longrightarrow>
     sl_relations s' = sl_relations s \<union> member_tuple req ` granted rp anc ms
     \<and> set (sl_required s') = set (sl_required s) \<union> {x. (x, rp) \<in> granted rp anc ms}
     \<and> set (sl_suggest s') = set (sl_suggest s) \<union> {x. (x, PermissionSuggest) \<in> granted rp anc ms}
     \<and> (distinct (sl_required s) \<longrightarrow> distinct (sl_required s')) \<and> (distinct (sl_suggest s) \<longrightarrow> distinct (sl_suggest s'))"
proof (induction ms arbitrary: s)
  case (Cons m ms)
  obtain q where q: "MembershipRolePermission (sm_Role m) = Some q" using Cons.prems(1) by (auto simp: sealedKnownRole_def)
  have "s' = fold (admit_membership req rp anc) ms (admit_membership req rp anc m s)" using Cons.prems(2) by simp
  note IH = Cons.IH[OF _ this]
  show ?case
    using IH Cons.prems(1) q by (auto simp: admit_membership_eq[OF q] split: if_splits)
qed auto

lemma sorted_scopes: "distinct xs \<Longrightarrow> sealedSortedScopes xs = sorted_list_of_set (set xs)"
  by (simp add: sealedSortedScopes_def sorted_list_of_set_sort_remdups distinct_remdups_id)

text \<open>The analysis of the admitted memberships: the checks of the store agree with the scopes collected.\<close>

definition analysis_of :: "string set \<Rightarrow> string set \<Rightarrow> capabilityScopeAnalysis" where
  "analysis_of required suggest =
     \<lparr>ca_requiredScopes = sorted_list_of_set required, ca_suggestScopes = sorted_list_of_set suggest,
      ca_covered = (required \<noteq> {}), ca_suggestCovered = (suggest \<noteq> {})\<rparr>"

lemma sealed_analysis:
  assumes "\<forall>m \<in> set ms. sealedKnownRole (sm_Role m)" and "CHR ''|'' \<notin> set rp"
    and "s = fold (admit_membership req rp anc) ms \<lparr>sl_relations = {}, sl_required = [], sl_suggest = []\<rparr>"
  shows "(case confirm req anc (sealedSortedScopes (sl_required s)) rp (sl_relations s) of (covered, f) \<Rightarrow>
          case confirm req anc (sealedSortedScopes (sl_suggest s)) PermissionSuggest f of (suggestCovered, _) \<Rightarrow>
          \<lparr>ca_requiredScopes = sealedSortedScopes (sl_required s), ca_suggestScopes = sealedSortedScopes (sl_suggest s),
           ca_covered = covered, ca_suggestCovered = suggestCovered\<rparr>)
      = analysis_of {x. (x, rp) \<in> granted rp anc ms} {x. (x, PermissionSuggest) \<in> granted rp anc ms}"
proof -
  let ?M = "granted rp anc ms"
  have rel: "sl_relations s = relations req ?M {}" using fold_admit[OF assms(1,3)] by (simp add: relations_def)
  have scopes: "sealedSortedScopes (sl_required s) = sorted_list_of_set {x. (x, rp) \<in> ?M}"
    "sealedSortedScopes (sl_suggest s) = sorted_list_of_set {x. (x, PermissionSuggest) \<in> ?M}"
    using fold_admit[OF assms(1,3)] by (simp_all add: sorted_scopes)
  have fin: "finite {x. (x, q) \<in> ?M}" for q
    by (rule finite_subset[of _ "sm_OrgUnitID ` set ms"]) (auto simp: granted_def)
  have p: "plain ?M" by (rule plain_granted)
  show ?thesis
  proof (cases anc)
    case None
    show ?thesis
      unfolding rel scopes unfolding None confirm_untargeted[OF p[unfolded None] assms(2)] prod.case
        confirm_untargeted[OF p[unfolded None] suggest_plain]
      using fin[unfolded None] by (auto simp: analysis_of_def)
  next
    case (Some as)
    let ?Q = "{} \<union> {(a, rp) | a. a \<in> set as}"
    have q: "plain {}" "plain ?Q" using assms(2) by (auto simp: plain_def)
    have r: "\<forall>xp \<in> granted rp (Some as) ms. fst xp \<in> set as" using granted_reach by blast
    show ?thesis
      unfolding rel scopes unfolding Some confirm_targeted[OF p[unfolded Some] q(1) assms(2) r] prod.case
        confirm_targeted[OF p[unfolded Some] q(2) suggest_plain r]
      by (auto simp: analysis_of_def)
  qed
qed

definition ranges_all :: "(string list \<Rightarrow> string list) \<Rightarrow> bool" where
  "ranges_all order \<longleftrightarrow> (\<forall>xs. mset (order xs) = mset xs)"

lemma granted_scopes:
  assumes "anc = (if target = [] then None else Some as)" and "target \<noteq> [] \<Longrightarrow> set as = {a. under (org_of snapshot) target a}"
    and "q = rp \<or> q = PermissionSuggest"
  shows "{x. (x, q) \<in> granted rp anc (ss_Memberships snapshot)} = scopes_of snapshot target q"
  using assms by (auto simp: granted_def scopes_of_def in_reach_def)

lemma seal_graph_units:
  assumes "ranges_all order" and "units_ok us" and "ps = map (\<lambda>u. (su_ID u, su_ParentID u)) us"
  shows "fst (seal_graph ps (order (map fst ps)) (\<lambda>_. 0) (\<lambda>_. 0) 0) \<longleftrightarrow> (\<forall>u \<in> set us. shallow ps (su_ID u))"
proof -
  have "set (order (map fst ps)) = set (map fst ps)" using assms(1) by (intro mset_eq_setD) (simp add: ranges_all_def)
  then have "set (order (map fst ps)) = su_ID ` set us" by (simp add: assms(3) image_image)
  moreover have "su_ID u \<noteq> []" if "u \<in> set us" for u using assms(2) that by (auto simp: units_ok_def sealedCanonical_def)
  ultimately show ?thesis by (subst seal_graph_iff) (auto simp: settled_def)
qed

lemma sealed_relations_decide:
  assumes "ranges_all order" and "CHR ''|'' \<notin> set rp"
  shows "sealCapabilityRelations order snapshot req rp =
     Some (if sealed_valid snapshot (cr_TargetOrgUnitID req)
           then Some (analysis_of (scopes_of snapshot (cr_TargetOrgUnitID req) rp) (scopes_of snapshot (cr_TargetOrgUnitID req) PermissionSuggest))
           else None)"
proof -
  let ?ps = "org_of snapshot" and ?t = "cr_TargetOrgUnitID req" and ?us = "ss_OrgUnits snapshot" and ?ms = "ss_Memberships snapshot"
  let ?small = "length ?us \<le> MaxSealedOrgUnits \<and> length ?ms \<le> MaxSealedMemberships"
  let ?graph = "fst (seal_graph ?ps (order (map fst ?ps)) (\<lambda>_. 0) (\<lambda>_. 0) 0)"
  have units: "seal_units ?us [] = (if units_ok ?us then Some ?ps else None)"
    by (simp add: seal_units_eq org_of_def)
  have graph: "?graph \<longleftrightarrow> (\<forall>u \<in> set ?us. shallow ?ps (su_ID u))" if "units_ok ?us"
    by (rule seal_graph_units[OF assms(1) that]) (simp add: org_of_def)
  show ?thesis
  proof (cases "?small \<and> units_ok ?us \<and> ?graph \<and> (?t = [] \<or> map_of ?ps ?t \<noteq> None)")
    case False
    then show ?thesis using units graph by (auto simp: sealCapabilityRelations_def sealed_valid_def)
  next
    case True
    have "\<exists>as. (?t \<noteq> [] \<longrightarrow> ancestors_of ?ps ?t [] = Some as \<and> set as = {a. under ?ps ?t a})"
    proof (cases "?t = []")
      case False
      then obtain u where "u \<in> set ?us" "su_ID u = ?t" using True by (auto simp: org_of_def map_of_eq_None_iff)
      then obtain d where "depth ?ps ?t d" using True graph by (auto simp: shallow_def)
      then show ?thesis using ancestors_of_depth[of ?ps ?t d "[]"] by auto
    qed simp
    then obtain as where as: "?t \<noteq> [] \<Longrightarrow> ancestors_of ?ps ?t [] = Some as" "?t \<noteq> [] \<Longrightarrow> set as = {a. under ?ps ?t a}" by blast
    define anc where "anc = (if ?t = [] then None else Some as)"
    have anc: "(if ?t = [] then Some None else map_option Some (ancestors_of ?ps ?t [])) = Some anc" using as(1) by (simp add: anc_def)
    let ?ok = "\<forall>m \<in> set ?ms. sealedCanonical (sm_OrgUnitID m) \<and> sealedKnownRole (sm_Role m) \<and> map_of ?ps (sm_OrgUnitID m) \<noteq> None"
    have ms: "seal_memberships req rp anc ?ps [] ?ms s =
        (if memberships_ok ?ps ?ms then Some (fold (admit_membership req rp anc) ?ms s) else None)" for s
      using distinct_keys[of ?ms] by (auto simp: seal_memberships_eq memberships_ok_def)
    have valid: "sealed_valid snapshot ?t \<longleftrightarrow> memberships_ok ?ps ?ms" using True graph by (auto simp: sealed_valid_def)
    have step: "sealCapabilityRelations order snapshot req rp =
      (case seal_memberships req rp anc ?ps [] ?ms \<lparr>sl_relations = {}, sl_required = [], sl_suggest = []\<rparr> of None \<Rightarrow> Some None
       | Some s \<Rightarrow> Some (Some (case confirm req anc (sealedSortedScopes (sl_required s)) rp (sl_relations s) of (covered, f) \<Rightarrow>
          case confirm req anc (sealedSortedScopes (sl_suggest s)) PermissionSuggest f of (suggestCovered, _) \<Rightarrow>
          \<lparr>ca_requiredScopes = sealedSortedScopes (sl_required s), ca_suggestScopes = sealedSortedScopes (sl_suggest s),
           ca_covered = covered, ca_suggestCovered = suggestCovered\<rparr>)))"
    proof -
      have small: "\<not> (length ?us > MaxSealedOrgUnits \<or> length ?ms > MaxSealedMemberships)"
        and units1: "seal_units ?us [] = Some ?ps" and graph1: "\<not> \<not> ?graph"
        and target: "\<not> (?t \<noteq> [] \<and> map_of ?ps ?t = None)"
        using True units by auto
      show ?thesis
        unfolding sealCapabilityRelations_def if_not_P[OF small] units1 option.case if_not_P[OF graph1] if_not_P[OF target] anc
        by (simp add: Let_def split_def cong: option.case_cong)
    qed
    show ?thesis
    proof (cases "memberships_ok ?ps ?ms")
      case False
      then show ?thesis using step ms valid by simp
    next
      case ok: True
      then have known: "\<forall>m \<in> set ?ms. sealedKnownRole (sm_Role m)" by (simp add: memberships_ok_def)
      show ?thesis
        unfolding step ms using ok valid
        by (simp add: sealed_analysis[OF known assms(2) refl] granted_scopes[OF anc_def as(2)])
    qed
  qed
qed

subsection \<open>Decisions\<close>

definition entitled :: "CapabilityRequest \<Rightarrow> SealedAccessSnapshot \<Rightarrow> bool" where
  "entitled req snapshot \<longleftrightarrow>
     (\<exists>p risk. RequiredCapabilityPermission (cr_ResourceType req) (cr_Capability req) = Some (p, risk)
        \<and> request_sealed req snapshot \<and> sealed_valid snapshot (cr_TargetOrgUnitID req)
        \<and> scopes_of snapshot (cr_TargetOrgUnitID req) p \<noteq> {})"

lemma finite_scopes [simp]: "finite (scopes_of snapshot target p)"
  by (rule finite_subset[of _ "sm_OrgUnitID ` set (ss_Memberships snapshot)"]) (auto simp: scopes_of_def)

lemma decide_cases:
  assumes "pd_Decision d0 = DecisionDeny" and "finite A" and "finite B"
  shows "pd_Decision (decide req p d0 (analysis_of A B)) = (if A \<noteq> {} then DecisionAllow else DecisionDeny)"
    and "A \<noteq> {} \<Longrightarrow> decide req p d0 (analysis_of A B)
       = d0\<lparr>pd_Decision := DecisionAllow, pd_Permissions := [p], pd_OrgUnitIDs := sorted_list_of_set A\<rparr>"
    and "pd_OrgVersion (decide req p d0 (analysis_of A B)) = pd_OrgVersion d0"
    and "pd_RiskLevel (decide req p d0 (analysis_of A B)) = pd_RiskLevel d0"
  using assms by (auto simp: decide_def analysis_of_def)

text \<open>How an evaluation that gets as far as a sealed snapshot of the caller's tenant ends.\<close>

inductive decided ::
  "CapabilityEvaluator \<Rightarrow> bool \<Rightarrow> CapabilityRequest \<Rightarrow> integrity_log \<Rightarrow> policy_go_error + PermissionDecision \<Rightarrow> integrity_log \<Rightarrow> bool"
  for e ctx_done req log where
  unavailable: "errors_is err ErrPolicyUnavailable \<Longrightarrow> decided e ctx_done req log (Inl err) log"
| refused: "\<not> entitled req snapshot \<Longrightarrow> cx_source e = Some load \<Longrightarrow> load ctx_done (cr_TenantRef req) (cr_PrincipalRef req) = Inr snapshot
     \<Longrightarrow> ss_TenantRef snapshot = cr_TenantRef req
     \<Longrightarrow> RequiredCapabilityPermission (cr_ResourceType req) (cr_Capability req) = None \<or> \<not> request_sealed req snapshot
     \<Longrightarrow> decided e ctx_done req log (Inr (DeniedCapabilityDecision (ss_OrgVersion snapshot) CapabilityRiskHigh)) log"
| broken: "cx_source e = Some load \<Longrightarrow> load ctx_done (cr_TenantRef req) (cr_PrincipalRef req) = Inr snapshot
     \<Longrightarrow> ss_TenantRef snapshot = cr_TenantRef req
     \<Longrightarrow> RequiredCapabilityPermission (cr_ResourceType req) (cr_Capability req) \<noteq> None \<Longrightarrow> request_sealed req snapshot
     \<Longrightarrow> \<not> sealed_valid snapshot (cr_TargetOrgUnitID req)
     \<Longrightarrow> log' = (if cx_observer e then log @ [(cr_TenantRef req, cr_PrincipalRef req, ss_OrgVersion snapshot)] else log)
     \<Longrightarrow> decided e ctx_done req log (Inr (DeniedCapabilityDecision (ss_OrgVersion snapshot) CapabilityRiskHigh)) log'"
| answered: "cx_source e = Some load \<Longrightarrow> load ctx_done (cr_TenantRef req) (cr_PrincipalRef req) = Inr snapshot
     \<Longrightarrow> ss_TenantRef snapshot = cr_TenantRef req
     \<Longrightarrow> RequiredCapabilityPermission (cr_ResourceType req) (cr_Capability req) = Some (p, risk) \<Longrightarrow> request_sealed req snapshot
     \<Longrightarrow> sealed_valid snapshot (cr_TargetOrgUnitID req)
     \<Longrightarrow> d = decide req p (DeniedCapabilityDecision (ss_OrgVersion snapshot) risk)
            (analysis_of (scopes_of snapshot (cr_TargetOrgUnitID req) p) (scopes_of snapshot (cr_TargetOrgUnitID req) PermissionSuggest))
     \<Longrightarrow> decided e ctx_done req log (Inr d) log"

lemma evaluation_decides:
  assumes "ranges_all (cx_order e)"
  shows "\<exists>r log'. Evaluate e ctx_done req log = Some (r, log') \<and> decided e ctx_done req log r log'"
proof (cases "cx_source e")
  case None
  then show ?thesis by (auto simp: Evaluate_def intro: decided.unavailable)
next
  case (Some load)
  show ?thesis
  proof (cases "sealedCanonical (cr_TenantRef req) \<and> sealedCanonical (cr_PrincipalRef req)")
    case False
    then show ?thesis using Some by (auto simp: Evaluate_def intro: decided.unavailable)
  next
    case canon: True
    show ?thesis
    proof (cases "load ctx_done (cr_TenantRef req) (cr_PrincipalRef req)")
      case (Inl err)
      then show ?thesis using Some canon by (auto simp: Evaluate_def intro: decided.unavailable)
    next
      case (Inr snapshot)
      show ?thesis
      proof (cases "ss_TenantRef snapshot \<noteq> cr_TenantRef req \<or> ss_OrgVersion snapshot < 1")
        case True
        then show ?thesis using Some canon Inr by (auto simp: Evaluate_def intro: decided.unavailable)
      next
        case own: False
        show ?thesis
        proof (cases "RequiredCapabilityPermission (cr_ResourceType req) (cr_Capability req)")
          case None
          then have "\<not> entitled req snapshot" by (simp add: entitled_def)
          then show ?thesis using Some canon Inr own None by (auto simp: Evaluate_def intro!: decided.refused)
        next
          case (Some pr)
          obtain p risk where pr: "pr = (p, risk)" by (cases pr)
          note plain_p = conjunct1[OF required_permission_plain[OF Some[unfolded pr]]]
          note sealed = sealed_relations_decide[OF assms plain_p, of snapshot req]
          show ?thesis
          proof (cases "request_sealed req snapshot")
            case False
            then have "\<not> entitled req snapshot" by (simp add: entitled_def)
            then show ?thesis using \<open>cx_source e = Some load\<close> canon Inr own Some pr False
              by (auto simp: Evaluate_def intro!: decided.refused)
          next
            case True
            show ?thesis
            proof (cases "ctx_done \<and> length (ss_OrgUnits snapshot) \<le> MaxSealedOrgUnits \<and> length (ss_Memberships snapshot) \<le> MaxSealedMemberships")
              case cut: True
              then show ?thesis using \<open>cx_source e = Some load\<close> canon Inr own Some pr True
                by (auto simp: Evaluate_def intro!: decided.unavailable)
            next
              case live: False
              show ?thesis
              proof (cases "sealed_valid snapshot (cr_TargetOrgUnitID req)")
                case ok: True
                show ?thesis
                  using \<open>cx_source e = Some load\<close> canon Inr own Some pr True live ok sealed
                  by (auto simp: Evaluate_def intro!: decided.answered)
              next
                case bad: False
                show ?thesis
                  using \<open>cx_source e = Some load\<close> canon Inr own Some pr True live bad sealed
                  by (auto simp: Evaluate_def intro!: decided.broken)
              qed
            qed
          qed
        qed
      qed
    qed
  qed
qed

text \<open>An example: a department under a root unit, and a principal who may edit at the root.\<close>

definition ex_snapshot :: SealedAccessSnapshot where
  "ex_snapshot = \<lparr>ss_TenantRef = ''acme'', ss_OrgVersion = 3, ss_Memberships = [\<lparr>sm_OrgUnitID = ''root'', sm_Role = ''edit''\<rparr>],
     ss_OrgUnits = [\<lparr>su_ID = ''dept'', su_ParentID = ''root''\<rparr>, \<lparr>su_ID = ''root'', su_ParentID = []\<rparr>]\<rparr>"

definition ex_loop :: SealedAccessSnapshot where
  "ex_loop = ex_snapshot\<lparr>ss_OrgUnits := [\<lparr>su_ID = ''dept'', su_ParentID = ''root''\<rparr>, \<lparr>su_ID = ''root'', su_ParentID = ''dept''\<rparr>]\<rparr>"

definition ex_capability :: CapabilityRequest where
  "ex_capability = \<lparr>cr_TenantRef = ''acme'', cr_PrincipalRef = ''p'', cr_SealedOrgVersion = 3, cr_ResourceType = ''knowledge'',
     cr_ResourceID = ''r'', cr_Capability = ''knowledge.update'', cr_TargetOrgUnitID = ''dept''\<rparr>"

definition ex_evaluator :: "SealedAccessSnapshot \<Rightarrow> CapabilityEvaluator" where
  "ex_evaluator snapshot = \<lparr>cx_source = Some (LoadAccessSnapshot (StoreSnapshot ''acme'' ''p'' snapshot Map.empty)),
     cx_observer = True, cx_order = rev\<rparr>"

lemma ex_load [simp]:
  "cx_source (ex_evaluator snapshot) = Some (LoadAccessSnapshot (StoreSnapshot ''acme'' ''p'' snapshot Map.empty))"
  "LoadAccessSnapshot (StoreSnapshot ''acme'' ''p'' snapshot Map.empty) False ''acme'' ''p'' = Inr snapshot"
  "ranges_all (cx_order (ex_evaluator snapshot))" "cx_observer (ex_evaluator snapshot)"
  by (simp_all add: ex_evaluator_def LoadAccessSnapshot_def StoreSnapshot_def ranges_all_def)

lemma ex_canonicals [simp]:
  "sealedCanonical ''acme''" "sealedCanonical ''p''" "sealedCanonical ''root''" "sealedCanonical ''dept''" "sealedCanonical ''edit''"
  "sealedCanonical ''knowledge''" "sealedCanonical ''knowledge.update''" "sealedCanonical ''r''"
  by code_simp+

lemma ex_required [simp]:
  "RequiredCapabilityPermission ''knowledge'' ''knowledge.update'' = Some (''edit'', CapabilityRiskMedium)"
  by code_simp

lemma ex_role [simp]: "MembershipRolePermission ''edit'' = Some ''edit''"
  by (simp add: MembershipRolePermission_def permission_defs)

lemma ex_request_fields [simp]:
  "cr_TenantRef ex_capability = ''acme''" "cr_PrincipalRef ex_capability = ''p''" "cr_ResourceType ex_capability = ''knowledge''"
  "cr_Capability ex_capability = ''knowledge.update''" "cr_TargetOrgUnitID ex_capability = ''dept''"
  by (simp_all add: ex_capability_def)

lemma ex_snapshot_fields [simp]:
  "ss_TenantRef ex_snapshot = ''acme''" "ss_OrgVersion ex_snapshot = 3" "ss_TenantRef ex_loop = ''acme''" "ss_OrgVersion ex_loop = 3"
  "request_sealed ex_capability ex_snapshot" "request_sealed ex_capability ex_loop"
  by (simp_all add: ex_snapshot_def ex_loop_def request_sealed_def ex_capability_def)

lemma ex_valid_snapshot: "sealed_valid ex_snapshot ''dept''" and ex_scopes: "scopes_of ex_snapshot ''dept'' ''edit'' = {''root''}"
proof -
  have org: "org_of ex_snapshot = [(''dept'', ''root''), (''root'', [])]" by (simp add: org_of_def ex_snapshot_def)
  have root: "depth (org_of ex_snapshot) ''root'' 1" unfolding org One_nat_def by (rule depth.child) (auto intro: depth.root)
  have dept: "depth (org_of ex_snapshot) ''dept'' 2"
    unfolding numeral_2_eq_2 by (rule depth.child) (use root in \<open>auto simp: org\<close>)
  have "shallow (org_of ex_snapshot) ''root''" "shallow (org_of ex_snapshot) ''dept''"
    unfolding shallow_def MaxSealedOrgDepth_def by (intro exI[of _ 1] conjI root, simp) (intro exI[of _ 2] conjI dept, simp)
  then show "sealed_valid ex_snapshot ''dept''"
    by (simp add: sealed_valid_def units_ok_def memberships_ok_def sealedKnownRole_def MaxSealedOrgUnits_def MaxSealedMemberships_def org_of_def
        ex_snapshot_def)
  have "under (org_of ex_snapshot) ''dept'' ''root''"
    unfolding org by (rule under.above[where p = "''root''"]) (auto intro: under.itself)
  then show "scopes_of ex_snapshot ''dept'' ''edit'' = {''root''}" by (auto simp: scopes_of_def ex_snapshot_def)
qed

lemma ex_loop_invalid: "\<not> sealed_valid ex_loop ''dept''"
proof
  have org: "org_of ex_loop = [(''dept'', ''root''), (''root'', ''dept'')]" by (simp add: org_of_def ex_loop_def)
  assume "sealed_valid ex_loop ''dept''"
  then obtain d where d: "depth (org_of ex_loop) ''dept'' d" by (auto simp: sealed_valid_def shallow_def ex_loop_def)
  then obtain d' where d': "depth (org_of ex_loop) ''root'' d'" "d = Suc d'" by cases (auto simp: org)
  from d'(1) obtain d'' where "depth (org_of ex_loop) ''dept'' d''" "d' = Suc d''" by cases (auto simp: org)
  with depth_unique[OF d] d'(2) show False by fastforce
qed

text \<open>C27: a capability is allowed exactly when the principal is entitled to it: the sealed snapshot loaded for that very
  principal is of its tenant, of the version pinned at ingress and well-formed (unique canonical units that form a forest
  of depth at most 256, known roles at known units), the capability is known for the resource type, and some membership
  with the required permission sits at the target unit or above it. The allowed scopes are exactly those units.\<close>

theorem capability_allowed_iff_entitled:
  assumes "ranges_all (cx_order e)" and "Evaluate e ctx_done req log = Some (Inr d, log')"
  shows "\<exists>load snapshot. cx_source e = Some load \<and> load ctx_done (cr_TenantRef req) (cr_PrincipalRef req) = Inr snapshot
    \<and> ss_TenantRef snapshot = cr_TenantRef req \<and> pd_OrgVersion d = ss_OrgVersion snapshot
    \<and> (pd_Decision d = DecisionAllow \<longleftrightarrow> entitled req snapshot)
    \<and> (pd_Decision d = DecisionAllow \<longrightarrow>
        (\<exists>p. pd_Permissions d = [p] \<and> set (pd_OrgUnitIDs d) = scopes_of snapshot (cr_TargetOrgUnitID req) p))"
proof -
  obtain r l where "Evaluate e ctx_done req log = Some (r, l)" "decided e ctx_done req log r l"
    using evaluation_decides[OF assms(1)] by blast
  with assms(2) have "decided e ctx_done req log (Inr d) log'" by simp
  then show ?thesis
  proof cases
    case (refused snapshot load)
    then show ?thesis by (intro exI[of _ load] exI[of _ snapshot]) (simp add: DeniedCapabilityDecision_def)
  next
    case (broken load snapshot)
    then show ?thesis by (intro exI[of _ load] exI[of _ snapshot]) (simp add: DeniedCapabilityDecision_def entitled_def)
  next
    case (answered load snapshot p risk)
    let ?d0 = "DeniedCapabilityDecision (ss_OrgVersion snapshot) risk"
    have deny: "pd_Decision ?d0 = DecisionDeny" by (simp add: DeniedCapabilityDecision_def)
    note cases = decide_cases[OF deny finite_scopes finite_scopes]
    have "pd_OrgVersion d = ss_OrgVersion snapshot" unfolding answered(8) cases(3) by (simp add: DeniedCapabilityDecision_def)
    moreover have allow: "pd_Decision d = DecisionAllow \<longleftrightarrow> entitled req snapshot"
      unfolding answered(8) cases(1) using answered(5-7) by (simp add: entitled_def)
    moreover have "\<exists>p. pd_Permissions d = [p] \<and> set (pd_OrgUnitIDs d) = scopes_of snapshot (cr_TargetOrgUnitID req) p"
      if a: "pd_Decision d = DecisionAllow"
      using a cases(1,2) unfolding answered(8) by (auto split: if_splits)
    ultimately show ?thesis using answered by blast
  qed
qed

lemma ex_evaluated:
  "\<exists>d. Evaluate (ex_evaluator ex_snapshot) False ex_capability [] = Some (Inr d, [])"
  using sealed_relations_decide[of "cx_order (ex_evaluator ex_snapshot)" "''edit''" ex_snapshot ex_capability]
  by (simp add: Evaluate_def ex_valid_snapshot)

theorem capability_allowed_iff_entitled_witness:
  "\<exists>d. Evaluate (ex_evaluator ex_snapshot) False ex_capability [] = Some (Inr d, []) \<and> pd_Decision d = DecisionAllow"
proof -
  obtain d where d: "Evaluate (ex_evaluator ex_snapshot) False ex_capability [] = Some (Inr d, [])" using ex_evaluated by blast
  have "entitled ex_capability ex_snapshot" by (simp add: entitled_def ex_valid_snapshot ex_scopes)
  with capability_allowed_iff_entitled[OF _ d] d show ?thesis by auto
qed

text \<open>C28: every evaluation returns: whatever snapshot the source answers, cyclic graphs included, and in whatever order the
  code ranges over its maps; the walk over a parents map looks up at most two parents for each unit.\<close>

theorem capability_evaluation_returns:
  assumes "ranges_all (cx_order e)"
  shows "(\<exists>r log'. Evaluate e ctx_done req log = Some (r, log'))
    \<and> (\<forall>ps. snd (seal_graph ps (cx_order e (map fst ps)) (\<lambda>_. 0) (\<lambda>_. 0) 0) \<le> 2 * length ps)"
proof (intro conjI allI)
  show "\<exists>r log'. Evaluate e ctx_done req log = Some (r, log')" using evaluation_decides[OF assms] by blast
  fix ps :: parents
  have "length (cx_order e (map fst ps)) = length ps" using assms by (metis ranges_all_def size_mset length_map)
  moreover have "new_units ps (\<lambda>_. 0) \<le> length ps" by (simp add: new_units_def)
  ultimately show "snd (seal_graph ps (cx_order e (map fst ps)) (\<lambda>_. 0) (\<lambda>_. 0) 0) \<le> 2 * length ps"
    using seal_graph_work[of "\<lambda>_. 0" ps "cx_order e (map fst ps)" "\<lambda>_. 0" 0] by simp
qed

theorem capability_evaluation_returns_witness: "\<exists>r log'. Evaluate (ex_evaluator ex_loop) False ex_capability [] = Some (r, log')"
  using capability_evaluation_returns[of "ex_evaluator ex_loop" False ex_capability "[]"] by simp

text \<open>C29: a broken snapshot is denied and never silent: a well-formed request against a snapshot that fails its structural
  checks is denied at high risk, and the fault is reported to the observer once, with the tenant, principal and version.\<close>

theorem broken_snapshot_denied_and_signalled:
  assumes "ranges_all (cx_order e)" and "cx_source e = Some load" and "cx_observer e"
    and "sealedCanonical (cr_TenantRef req)" and "sealedCanonical (cr_PrincipalRef req)"
    and "load False (cr_TenantRef req) (cr_PrincipalRef req) = Inr snapshot"
    and "ss_TenantRef snapshot = cr_TenantRef req" and "ss_OrgVersion snapshot \<ge> 1"
    and "RequiredCapabilityPermission (cr_ResourceType req) (cr_Capability req) \<noteq> None" and "request_sealed req snapshot"
    and "\<not> sealed_valid snapshot (cr_TargetOrgUnitID req)"
  shows "Evaluate e False req log = Some (Inr (DeniedCapabilityDecision (ss_OrgVersion snapshot) CapabilityRiskHigh),
     log @ [(cr_TenantRef req, cr_PrincipalRef req, ss_OrgVersion snapshot)])"
proof -
  obtain p risk where p: "RequiredCapabilityPermission (cr_ResourceType req) (cr_Capability req) = Some (p, risk)" using assms(9) by auto
  have "sealCapabilityRelations (cx_order e) snapshot req p = Some None"
    using sealed_relations_decide[OF assms(1) conjunct1[OF required_permission_plain[OF p]], of snapshot req] assms(11) by simp
  then show ?thesis using assms p by (simp add: Evaluate_def)
qed

theorem broken_snapshot_denied_and_signalled_witness:
  "Evaluate (ex_evaluator ex_loop) False ex_capability [] = Some (Inr (DeniedCapabilityDecision 3 CapabilityRiskHigh), [(''acme'', ''p'', 3)])"
  using broken_snapshot_denied_and_signalled[of "ex_evaluator ex_loop" _ ex_capability ex_loop "[]"] ex_loop_invalid by simp

text \<open>The connector plane and the administrative roles are outside this evaluator: no connector capability is known to it,
  and a manager or an admin membership carries no permission.\<close>

lemma connector_never_entitled: "IsConnectorCapability (cr_Capability req) \<Longrightarrow> \<not> entitled req snapshot"
proof
  assume c: "IsConnectorCapability (cr_Capability req)" "entitled req snapshot"
  have "\<forall>(k, r) \<in> set capabilityRequirements. \<not> IsConnectorCapability k"
    by (simp add: capabilityRequirements_def IsConnectorCapability_def has_prefix_def ConnectorCapabilityPrefix_def
        CapabilityKnowledgeSuggest_def CapabilityKnowledgeUpdate_def)
  moreover obtain r where "(cr_Capability req, r) \<in> set capabilityRequirements"
    using c(2) by (auto simp: entitled_def RequiredCapabilityPermission_def split: option.splits dest: map_of_SomeD)
  ultimately show False using c(1) by fastforce
qed

lemma administrators_never_entitled:
  assumes "\<forall>m \<in> set (ss_Memberships snapshot). sm_Role m \<in> {''manager'', ''admin''}"
  shows "\<not> entitled req snapshot"
proof
  assume "entitled req snapshot"
  then obtain p risk where p: "RequiredCapabilityPermission (cr_ResourceType req) (cr_Capability req) = Some (p, risk)"
    and s: "scopes_of snapshot (cr_TargetOrgUnitID req) p \<noteq> {}"
    by (auto simp: entitled_def)
  from s obtain m where "m \<in> set (ss_Memberships snapshot)" "MembershipRolePermission (sm_Role m) = Some p" by (auto simp: scopes_of_def)
  then show False using assms conjunct2[OF required_permission_plain[OF p]]
    by (fastforce simp: MembershipRolePermission_def split: if_splits)
qed

end
