(* ===== verification/ControlPlane.thy ===== *)
theory ControlPlane
  imports ActionProperties ApprovalLaws
begin

text \<open>
  The action plane over the approval plane. The gateway (\<^verbatim>\<open>internal/app/postgres_gateway.go\<close>) wires the approval store's
  one-shot consumption into the action service as its evidence port; this theory models that adapter, lets calls of both
  services interleave over one approval store, and shows what a grant of an action that was requested with an approval
  plan rests on.
\<close>

subsection \<open>The adapter\<close>

definition map_approval_err :: "approval_go_error \<Rightarrow> action_error" where
  "map_approval_err e =
     (if errors_is e approval_error.ErrEvidenceConsumed then action_error.ErrEvidenceConsumed
      else if errors_is e approval_error.ErrNotFound then action_error.ErrNotFound
      else if errors_is e approval_error.ErrTransmissionRevoked then action_error.ErrEvidenceRejected
      else action_error.ErrUnavailable)"

definition ConsumeApprovalEvidence ::
  "'st ApprovalStoreOps \<Rightarrow> string \<Rightarrow> string \<Rightarrow> time \<Rightarrow> (action_error, 'st, ActionStore.ConsumedEvidence) effect" where
  "ConsumeApprovalEvidence ops tenantRef planRef at s =
     (case po_ConsumeEvidence ops tenantRef planRef at s of
        (Inl e, s') \<Rightarrow> (Inl (Sentinel (map_approval_err e)), s')
      | (Inr c, s') \<Rightarrow>
          (Inr \<lparr>ce_ApprovalRef = cv_ApprovalRef c, ce_PlanRef = cv_PlanRef c, ce_Capability = cv_Capability c,
                ce_ParameterHash = cv_ParameterHash c, ce_Decision = cv_Decision c\<rparr>, s'))"

subsection \<open>Both services over one approval store\<close>

record Plane =
  pl_world :: "(MemoryStore, ApprovalStore) World"
  pl_approvals :: ApprovalEnv

datatype plane_call = ActionCall bool call | ApprovalCall approval_call

definition approvals_of :: "Plane \<Rightarrow> ApprovalStore ApprovalWorld" where
  "approvals_of p = \<lparr>aw_store = wd_evidence (pl_world p), aw_env = pl_approvals p\<rparr>"

definition plane_step ::
  "(MemoryStore, ApprovalStore) Service \<Rightarrow> ApprovalStore ApprovalService \<Rightarrow> plane_call \<Rightarrow> Plane \<Rightarrow> Plane" where
  "plane_step sv asv pc p = (case pc of
      ActionCall d c \<Rightarrow> p\<lparr>pl_world := serve sv d c (pl_world p)\<rparr>
    | ApprovalCall c \<Rightarrow>
        (let aw = approval_serve asv c (approvals_of p)
         in p\<lparr>pl_world := (pl_world p)\<lparr>wd_evidence := aw_store aw\<rparr>, pl_approvals := aw_env aw\<rparr>))"

definition plane_run ::
  "(MemoryStore, ApprovalStore) Service \<Rightarrow> ApprovalStore ApprovalService \<Rightarrow> plane_call list \<Rightarrow> Plane \<Rightarrow> Plane" where
  "plane_run sv asv pcs p = fold (plane_step sv asv) pcs p"

definition new_plane :: Plane where
  "new_plane = \<lparr>pl_world = start_world NewApprovalStore, pl_approvals = aw_env new_world\<rparr>"

definition wired :: "(MemoryStore, ApprovalStore) Service \<Rightarrow> ApprovalStore ApprovalService \<Rightarrow> bool" where
  "wired sv asv \<longleftrightarrow> well_formed_service sv \<and> sv_store sv = memory_store \<and> asv_store asv = memory_approvals
     \<and> sv_evidence sv = Some (ConsumeApprovalEvidence memory_approvals)"

fun plain_tenants :: "plane_call \<Rightarrow> bool" where
  "plain_tenants (ActionCall d c) \<longleftrightarrow> nul_free (call_tenant c)"
| "plain_tenants (ApprovalCall c) \<longleftrightarrow> True"

subsection \<open>What a call does to the evidence\<close>

definition keeps_evidence :: "('ev \<Rightarrow> bool) \<Rightarrow> (action_error, ('st, 'ev) World, 'a) effect \<Rightarrow> bool" where
  "keeps_evidence P m \<longleftrightarrow> (\<forall>w. P (wd_evidence w) \<longrightarrow> P (wd_evidence (snd (m w))))"

named_theorems keeps_intros \<open>operations that keep a predicate of the evidence\<close>

lemma keeps_basic [keeps_intros]:
  "keeps_evidence P (ret a)" "keeps_evidence P (fail e)" "keeps_evidence P (require b e)" "keeps_evidence P (check r)"
  "keeps_evidence P (on_action_store m')" "keeps_evidence P (on_claim m'')" "keeps_evidence P (now sv)"
  "keeps_evidence P (newID sv prefix)" "keeps_evidence P (ActionService.guard d)" "keeps_evidence P (invalid f)"
  "keeps_evidence P (lift_result res)" "keeps_evidence P (appendAudit sv ev)"
  by (auto simp: keeps_evidence_def require_def check_def on_action_store_def on_claim_def now_def env_now_def newID_def
      ActionService.guard_def invalid_def lift_result_def appendAudit_def Let_def split: prod.splits sum.splits option.splits)

lemma keeps_andthen [keeps_intros]:
  assumes "keeps_evidence P m" and "\<And>a. keeps_evidence P (k a)"
  shows "keeps_evidence P (andthen m k)"
  using assms unfolding keeps_evidence_def andthen_def by (fastforce split: prod.splits sum.splits)

lemma keeps_wrapped [keeps_intros]:
  "keeps_evidence P m \<Longrightarrow> keeps_evidence P (on_error f m)"
  "keeps_evidence P m \<Longrightarrow> keeps_evidence P (attempt m)"
  unfolding keeps_evidence_def on_error_def attempt_def by (fastforce split: prod.splits sum.splits)+

lemma keeps_cases [keeps_intros]:
  "(b \<Longrightarrow> keeps_evidence P m) \<Longrightarrow> (\<not> b \<Longrightarrow> keeps_evidence P m') \<Longrightarrow> keeps_evidence P (if b then m else m')"
  "keeps_evidence P n \<Longrightarrow> (\<And>x. keeps_evidence P (s x)) \<Longrightarrow> keeps_evidence P (case opt of None \<Rightarrow> n | Some x \<Rightarrow> s x)"
  "(\<And>e. keeps_evidence P (l e)) \<Longrightarrow> (\<And>x. keeps_evidence P (r x)) \<Longrightarrow> keeps_evidence P (case res of Inl e \<Rightarrow> l e | Inr x \<Rightarrow> r x)"
  "(\<And>a c. keeps_evidence P (f a c)) \<Longrightarrow> keeps_evidence P (case p of (a, c) \<Rightarrow> f a c)"
  by (auto split: option.splits sum.splits prod.splits)

lemma keeps_counted [keeps_intros]:
  assumes "keeps_evidence P m"
  shows "keeps_evidence P (\<lambda>w. case m w of (Inl e, w') \<Rightarrow> (Inl e, w') | (Inr _, w') \<Rightarrow> (Inr (f w w'), w'))"
  using assms unfolding keeps_evidence_def by (fastforce split: prod.splits sum.splits)

lemma keeps_transition [keeps_intros]: "keeps_evidence P (transition sv prin bnd r from to aud reason)"
  unfolding transition_def by (intro keeps_intros)

lemma keeps_GetAction [keeps_intros]: "keeps_evidence P (ServiceGetAction sv d prin r)"
  unfolding ServiceGetAction_def by (intro keeps_intros)

lemma keeps_start_compensation [keeps_intros]: "keeps_evidence P (start_compensation sv prin a)"
  unfolding start_compensation_def by (intro keeps_intros)

lemma keeps_publish [keeps_intros]: "keeps_evidence P (publishDispatched sv t r)"
  unfolding publishDispatched_def by (intro keeps_intros)

lemma keeps_create [keeps_intros]: "keeps_evidence P (create_requested sv prin req)"
  unfolding create_requested_def Let_def by (intro keeps_intros)

lemma keeps_complete [keeps_intros]: "keeps_evidence P (completeFromReceipt sv prin ident rc to a)"
  unfolding completeFromReceipt_def by (intro keeps_intros)

lemma keeps_simple [keeps_intros]: "keeps_evidence P (simpleTransition sv d prin r from to aud reason)"
  unfolding simpleTransition_def by (intro keeps_intros)

lemma handlers_keep_evidence:
  "keeps_evidence P (RequestAction sv d prin req)" "keeps_evidence P (ServiceDispatch sv d prin r)"
  "keeps_evidence P (MarkExecuting sv d prin r)" "keeps_evidence P (MarkResultUnknown sv d prin r)"
  "keeps_evidence P (HumanTakeover sv d prin r reason)" "keeps_evidence P (Cancel sv d prin r)"
  "keeps_evidence P (IngestReceipt sv d prin ident rc)" "keeps_evidence P (BeginReconciliation sv d prin r)"
  "keeps_evidence P (ResolveReconciliation sv d prin r out rcpt)" "keeps_evidence P (Compensate sv d prin r)"
  "keeps_evidence P (RepublishPending sv d t)"
  unfolding RequestAction_def ServiceDispatch_def MarkExecuting_def MarkResultUnknown_def HumanTakeover_def Cancel_def
    IngestReceipt_def BeginReconciliation_def ResolveReconciliation_def Compensate_def RepublishPending_def
  by (intro keeps_intros)+

lemma keeps_on_evidence:
  assumes "\<And>e. P e \<Longrightarrow> P (snd (m e))"
  shows "keeps_evidence P (on_evidence m)"
  unfolding keeps_evidence_def on_evidence_def using assms by (auto split: prod.splits) (metis snd_conv)

lemma grant_keeps_evidence:
  assumes "\<And>consume t plan at e. sv_evidence sv = Some consume \<Longrightarrow> P e \<Longrightarrow> P (snd (consume t plan at e))"
  shows "keeps_evidence P (ServiceGrant sv d prin r)"
proof -
  have "keeps_evidence P (consume_evidence sv prin a t)" for a t
  proof (cases "sv_evidence sv")
    case None
    then show ?thesis unfolding consume_evidence_def by (simp add: keeps_intros)
  next
    case (Some consume)
    have "keeps_evidence P (on_evidence (consume (pc_TenantRef prin) (ac_ApprovalPlanRef a) t))"
      by (rule keeps_on_evidence) (rule assms[OF Some])
    then show ?thesis unfolding consume_evidence_def Some by (auto intro!: keeps_intros)
  qed
  then show ?thesis unfolding ServiceGrant_def mint_def by (intro keeps_intros)
qed

lemma serve_keeps_evidence:
  assumes "\<And>consume t plan at e. sv_evidence sv = Some consume \<Longrightarrow> P e \<Longrightarrow> P (snd (consume t plan at e))" and "P (wd_evidence w)"
  shows "P (wd_evidence (serve sv d c w))"
  using handlers_keep_evidence[of P sv d] grant_keeps_evidence[of sv P d] assms
  by (cases c) (auto simp: keeps_evidence_def)

lemma serve_same_evidence:
  assumes "\<And>prin r. c \<noteq> CallGrant prin r"
  shows "wd_evidence (serve sv d c w) = wd_evidence w"
proof (cases c)
  case (CallGrant prin r)
  with assms show ?thesis by blast
qed (use handlers_keep_evidence[of "\<lambda>e. e = wd_evidence w" sv d] in \<open>auto simp: keeps_evidence_def\<close>)

subsection \<open>A grant touches one action\<close>

definition untouched ::
  "('st \<Rightarrow> string \<Rightarrow> string \<Rightarrow> Action option) \<Rightarrow> string \<Rightarrow> string \<Rightarrow> ('st, 'ev) World \<Rightarrow> ('st, 'ev) World \<Rightarrow> bool" where
  "untouched look t r w w' \<longleftrightarrow> (\<forall>t' r'. (t', r') \<noteq> (t, r) \<longrightarrow> look (wd_store w') t' r' = look (wd_store w) t' r')"

context action_store
begin

lemma Grant_touches_one:
  assumes sv: "sv_store sv = ops" and t: "nul_free (pc_TenantRef prin)" and wf: "wf (wd_store w)"
  shows "wp (ServiceGrant sv d prin r) (\<lambda>_. untouched look (pc_TenantRef prin) r w) (\<lambda>_. untouched look (pc_TenantRef prin) r w) w"
  unfolding ServiceGrant_def mint_def wp_simps sv
proof (intro wp_ServiceGetAction sv t, goal_cases)
  case (1 a)
  then have a: "ac_TenantRef a = pc_TenantRef prin" "ac_ActionRef a = r" using keyed[OF wf] by blast+
  show ?case
    using t
    by (auto simp: a untouched_def split: option.splits intro!: wp_grant wp_appendAuditI wp_consume_evidence)
      (auto simp: view_update_def)
qed (simp add: untouched_def)

end

subsection \<open>The approval side of the plane\<close>

lemma consume_as_call:
  "snd (ConsumeApprovalEvidence memory_approvals t plan at e) =
     aw_store (approval_serve asv (CallConsume t plan at) \<lparr>aw_store = e, aw_env = env\<rparr>)"
  "aw_env (approval_serve asv (CallConsume t plan at) \<lparr>aw_store = e, aw_env = env\<rparr>) = env"
  if "asv_store asv = memory_approvals"
  by (simp_all add: that ConsumeApprovalEvidence_def approval_serve_def on_approvals_def split: prod.splits sum.splits)

definition approvals_reached :: "ApprovalStore ApprovalService \<Rightarrow> ApprovalEnv \<Rightarrow> ApprovalStore \<Rightarrow> bool" where
  "approvals_reached asv env e \<longleftrightarrow>
     (lifecycle asv)\<^sup>*\<^sup>* (ApprovalLaws.mem.shown new_world) (ApprovalLaws.mem.shown \<lparr>aw_store = e, aw_env = env\<rparr>) \<and> wf_approvals e"

lemma approvals_reached_serve:
  assumes "asv_store asv = memory_approvals" and "approvals_reached asv env e"
    and aw: "aw = approval_serve asv c \<lparr>aw_store = e, aw_env = env\<rparr>"
  shows "approvals_reached asv (aw_env aw) (aw_store aw)"
    and "keeps (ApprovalLaws.mem.shown \<lparr>aw_store = e, aw_env = env\<rparr>) (ApprovalLaws.mem.shown aw)"
proof -
  have *: "(lifecycle asv)\<^sup>*\<^sup>* (ApprovalLaws.mem.shown \<lparr>aw_store = e, aw_env = env\<rparr>) (ApprovalLaws.mem.shown aw) \<and> wf_approvals (aw_store aw)"
    using ApprovalLaws.mem.run_refines[OF assms(1), of "\<lparr>aw_store = e, aw_env = env\<rparr>" "[c]"] assms(2)
    by (simp add: approvals_reached_def approval_run_def aw)
  have "\<lparr>aw_store = aw_store aw, aw_env = aw_env aw\<rparr> = aw" by simp
  with * assms(2) show "approvals_reached asv (aw_env aw) (aw_store aw)"
    unfolding approvals_reached_def by (metis rtranclp_trans)
  show "keeps (ApprovalLaws.mem.shown \<lparr>aw_store = e, aw_env = env\<rparr>) (ApprovalLaws.mem.shown aw)"
    using * by (blast intro: lifecycle_keeps)
qed

lemma approvals_reached_consume:
  assumes "asv_store asv = memory_approvals" and "approvals_reached asv env e"
  shows "approvals_reached asv env (snd (ConsumeApprovalEvidence memory_approvals t plan at e))"
    and "keeps (ApprovalLaws.mem.shown \<lparr>aw_store = e, aw_env = env\<rparr>)
           (ApprovalLaws.mem.shown \<lparr>aw_store = snd (ConsumeApprovalEvidence memory_approvals t plan at e), aw_env = env\<rparr>)"
proof -
  let ?aw = "approval_serve asv (CallConsume t plan at) \<lparr>aw_store = e, aw_env = env\<rparr>"
  have aw: "?aw = \<lparr>aw_store = snd (ConsumeApprovalEvidence memory_approvals t plan at e), aw_env = env\<rparr>"
    using consume_as_call[OF assms(1), of t plan at e env] by (intro ApprovalWorld.equality) simp_all
  show "approvals_reached asv env (snd (ConsumeApprovalEvidence memory_approvals t plan at e))"
    using approvals_reached_serve(1)[OF assms refl, of "CallConsume t plan at"] by (simp add: aw)
  show "keeps (ApprovalLaws.mem.shown \<lparr>aw_store = e, aw_env = env\<rparr>)
      (ApprovalLaws.mem.shown \<lparr>aw_store = snd (ConsumeApprovalEvidence memory_approvals t plan at e), aw_env = env\<rparr>)"
    using approvals_reached_serve(2)[OF assms refl, of "CallConsume t plan at"] by (simp add: aw)
qed

subsection \<open>What stands behind an unlocked action\<close>

text \<open>The statuses an action has only after a grant.\<close>

definition unlocked :: "Action \<Rightarrow> bool" where
  "unlocked a \<longleftrightarrow> ac_Status a \<in> {StatusGranted, StatusDispatched, StatusExecuting, StatusResultUnknown, StatusReconciling, StatusSucceeded}"

definition plan_record :: "ApprovalStore \<Rightarrow> Action \<Rightarrow> EvidenceRecord option" where
  "plan_record e a = ps_evidence e (ApprovalTransport.storeKey (ac_TenantRef a) (ac_ApprovalPlanRef a))"

definition approved_for :: "ApprovalStore \<Rightarrow> Action \<Rightarrow> bool" where
  "approved_for e a \<longleftrightarrow> (\<exists>r. plan_record e a = Some r \<and> er_ConsumedAt r \<noteq> 0 \<and> ae_Capability (er_Evidence r) = ac_Capability a
     \<and> ae_ParameterHash (er_Evidence r) = ac_ParameterHash a \<and> ae_Decision (er_Evidence r) = ApprovalApproved)"

lemma approved_for_keeps:
  assumes "keeps (ApprovalLaws.mem.shown \<lparr>aw_store = e, aw_env = env\<rparr>) (ApprovalLaws.mem.shown w')" and "approved_for e a"
  shows "approved_for (aw_store w') a"
proof -
  obtain r where r: "plan_record e a = Some r" "er_ConsumedAt r \<noteq> 0" "ae_Capability (er_Evidence r) = ac_Capability a"
    "ae_ParameterHash (er_Evidence r) = ac_ParameterHash a" "ae_Decision (er_Evidence r) = ApprovalApproved"
    using assms(2) by (auto simp: approved_for_def)
  then have "vw_decided (ApprovalLaws.mem.shown \<lparr>aw_store = e, aw_env = env\<rparr>)
      (ApprovalTransport.storeKey (ac_TenantRef a) (ac_ApprovalPlanRef a)) = Some r"
    by (simp add: shows_view_def plan_record_def)
  then obtain c where "vw_decided (ApprovalLaws.mem.shown w') (ApprovalTransport.storeKey (ac_TenantRef a) (ac_ApprovalPlanRef a))
      = Some (r\<lparr>er_ConsumedAt := c\<rparr>)" "c = er_ConsumedAt r"
    using assms(1) r(2) unfolding keeps_def by blast
  with r show ?thesis by (simp add: approved_for_def plan_record_def shows_view_def)
qed

lemma consumed_approves:
  assumes "wf_approvals e" and "ConsumeApprovalEvidence memory_approvals (ac_TenantRef a) (ac_ApprovalPlanRef a) at e = (Inr ev, e')"
    and "ce_Capability ev = ac_Capability a" and "ce_ParameterHash ev = ac_ParameterHash a" and "ce_Decision ev = ApprovalApproved"
    and "at \<noteq> 0"
  shows "approved_for e' a" and "\<exists>r. plan_record e a = Some r \<and> er_ConsumedAt r = 0"
proof -
  obtain c where c: "po_ConsumeEvidence memory_approvals (ac_TenantRef a) (ac_ApprovalPlanRef a) at e = (Inr c, e')"
    "ce_Capability ev = cv_Capability c" "ce_ParameterHash ev = cv_ParameterHash c" "ce_Decision ev = cv_Decision c"
    using assms(2) by (auto simp: ConsumeApprovalEvidence_def split: prod.splits sum.splits)
  from ApprovalLaws.mem.consumed[OF assms(1) c(1)] c assms(3-6)
  show "approved_for e' a" and "\<exists>r. plan_record e a = Some r \<and> er_ConsumedAt r = 0"
    by (auto simp: approved_for_def plan_record_def)
qed

lemma unlocked_from:
  assumes "canTransition (ac_Status a) (ac_Status b)" and "unlocked b"
  shows "ac_Status b = StatusGranted \<and> ac_Status a \<in> {StatusRequested, StatusAwaitingApproval} \<or> unlocked a"
  using assms by (cases "ac_Status a") (auto simp: unlocked_def canTransition_def allowedEdges_def)

lemma never_requested_again: "canTransition (ac_Status a) (ac_Status b) \<Longrightarrow> ac_Status b \<noteq> StatusRequested"
  by (cases "ac_Status a") (auto simp: canTransition_def allowedEdges_def)

definition plane_look :: "Plane \<Rightarrow> string \<Rightarrow> string \<Rightarrow> Action option" where
  "plane_look p = mm_look (wd_store (pl_world p))"

definition plane_evidence :: "Plane \<Rightarrow> ApprovalStore" where
  "plane_evidence p = wd_evidence (pl_world p)"

definition plane_ok ::
  "(MemoryStore, ApprovalStore) Service \<Rightarrow> ApprovalStore ApprovalService \<Rightarrow> Plane \<Rightarrow> bool" where
  "plane_ok sv asv p \<longleftrightarrow>
     evolves (\<lambda>_. 0) sv (start_world NewApprovalStore) (pl_world p) \<and> approvals_reached asv (pl_approvals p) (plane_evidence p)
     \<and> (\<forall>t r a. plane_look p t r = Some a \<longrightarrow> ac_ApprovalPlanRef a \<noteq> [] \<longrightarrow>
          ac_Status a \<noteq> StatusRequested \<and> (unlocked a \<longrightarrow> approved_for (plane_evidence p) a))
     \<and> (\<forall>t r r' a b. plane_look p t r = Some a \<longrightarrow> plane_look p t r' = Some b \<longrightarrow> unlocked a \<longrightarrow> unlocked b
          \<longrightarrow> ac_ApprovalPlanRef a \<noteq> [] \<longrightarrow> ac_ApprovalPlanRef b = ac_ApprovalPlanRef a \<longrightarrow> r = r')"

text \<open>How an action call leaves an unlocked action with an approval plan: it was unlocked before, or this call granted it
  by consuming a decision of its plan that had not been consumed.\<close>

definition freshly_granted :: "call \<Rightarrow> ApprovalStore \<Rightarrow> string \<Rightarrow> Action \<Rightarrow> bool" where
  "freshly_granted c e r a \<longleftrightarrow> (\<exists>prin. c = CallGrant prin r) \<and> (\<exists>rec. plan_record e a = Some rec \<and> er_ConsumedAt rec = 0)"

lemma keyed_look: "evolves X sv w0 w \<Longrightarrow> mm_look (wd_store w) t r = Some a \<Longrightarrow> ac_TenantRef a = t \<and> ac_ActionRef a = r \<and> nul_free t"
  using ActionContract.mem.keyed[of "wd_store w" t r a]
  by (auto simp: evolves_def store_inv_def mm_look_def split: if_splits)

lemma granted_by_consuming:
  assumes wired: "wired sv asv" and ok: "plane_ok sv asv p" and t: "nul_free (call_tenant c)"
    and changed: "mm_look (wd_store (serve sv d c (pl_world p))) t' r \<noteq> plane_look p t' r"
    and prin: "issued_by c prin"
    and ent: "entitled sv prin (plane_evidence p) (wd_evidence (serve sv d c (pl_world p))) a b" "plane_look p t' r = Some a"
    and g: "ac_Status b = StatusGranted" "ac_Status a = StatusAwaitingApproval"
    and own: "ac_TenantRef a = t'"
  shows "approved_for (wd_evidence (serve sv d c (pl_world p))) b" and "freshly_granted c (plane_evidence p) r b"
proof -
  let ?w = "pl_world p" and ?w' = "serve sv d c (pl_world p)"
  have sv: "sv_store sv = memory_store" "sv_evidence sv = Some (ConsumeApprovalEvidence memory_approvals)" "well_formed_service sv"
    using wired by (simp_all add: wired_def)
  have same: "same_binding a b" using ent(1) by (simp add: ActionServiceLaws.entitled_def)
  obtain n ev where ev: "ConsumeApprovalEvidence memory_approvals (pc_TenantRef prin) (ac_ApprovalPlanRef a) (sv_now sv n) (plane_evidence p)
      = (Inr ev, wd_evidence ?w')" "ce_Capability ev = ac_Capability a" "ce_ParameterHash ev = ac_ParameterHash a" "ce_Decision ev = ApprovalApproved"
    using ent(1) g sv(2) by (auto simp: ActionServiceLaws.entitled_def evidence_backed_def)
  have now: "sv_now sv n \<noteq> 0" using sv(3) by (simp add: well_formed_service_def)
  have wf: "wf_approvals (plane_evidence p)" using ok by (simp add: plane_ok_def approvals_reached_def)
  obtain r0 where c: "c = CallGrant prin r0"
  proof (cases "\<exists>prin' r0. c = CallGrant prin' r0")
    case True
    with prin that show ?thesis by auto
  next
    case False
    then have "wd_evidence ?w' = plane_evidence p" unfolding plane_evidence_def by (intro serve_same_evidence) blast
    with ev(1) obtain k where "po_ConsumeEvidence memory_approvals (pc_TenantRef prin) (ac_ApprovalPlanRef a) (sv_now sv n) (plane_evidence p)
        = (Inr k, plane_evidence p)"
      by (auto simp: ConsumeApprovalEvidence_def split: prod.splits sum.splits)
    from ApprovalLaws.mem.consumed[OF wf this] now show ?thesis by (metis fun_upd_same option.inject EvidenceRecord.select_convs(6)
      EvidenceRecord.surjective EvidenceRecord.update_convs(6))
  qed
  have keyed: "actions_keyed (wd_store ?w)" using ok by (simp add: plane_ok_def evolves_def store_inv_def)
  have "untouched mm_look (pc_TenantRef prin) r0 ?w ?w'"
    using ControlPlane.mem.Grant_touches_one[OF sv(1) _ keyed, of prin d r0] t c by (simp add: wp_state)
  with changed have tr: "t' = pc_TenantRef prin" "r = r0" by (auto simp: untouched_def plane_look_def)
  have b: "ac_TenantRef b = pc_TenantRef prin" "ac_ApprovalPlanRef b = ac_ApprovalPlanRef a" "ac_Capability b = ac_Capability a"
    "ac_ParameterHash b = ac_ParameterHash a"
    using same own tr by (simp_all add: same_binding_def)
  note approves = consumed_approves[where a = b, OF wf _ _ _ ev(4) now, unfolded b, OF ev(1-3)]
  show "approved_for (wd_evidence ?w') b" by (rule approves(1))
  show "freshly_granted c (plane_evidence p) r b" using approves(2) c tr by (auto simp: freshly_granted_def)
qed

subsection \<open>The invariant of the plane\<close>

definition stands_on :: "Plane \<Rightarrow> call \<Rightarrow> ApprovalStore \<Rightarrow> string \<Rightarrow> string \<Rightarrow> Action \<Rightarrow> bool" where
  "stands_on p c e t r a \<longleftrightarrow> (\<exists>a0. plane_look p t r = Some a0 \<and> unlocked a0 \<and> same_binding a0 a)
     \<or> approved_for e a \<and> freshly_granted c (plane_evidence p) r a"

lemma action_call_look:
  assumes wired: "wired sv asv" and ok: "plane_ok sv asv p" and t: "nul_free (call_tenant c)"
    and a: "mm_look (wd_store (serve sv d c (pl_world p))) t r = Some a" "ac_ApprovalPlanRef a \<noteq> []"
  shows "ac_Status a \<noteq> StatusRequested"
    and "unlocked a \<Longrightarrow> stands_on p c (wd_evidence (serve sv d c (pl_world p))) t r a"
proof -
  let ?w = "pl_world p" and ?w' = "serve sv d c (pl_world p)"
  have before: "ac_ApprovalPlanRef b \<noteq> [] \<Longrightarrow> ac_Status b \<noteq> StatusRequested" if "plane_look p t r = Some b" for b
    using ok that by (simp add: plane_ok_def)
  have "ac_Status a \<noteq> StatusRequested \<and> (unlocked a \<longrightarrow> stands_on p c (wd_evidence ?w') t r a)"
  proof (cases "mm_look (wd_store ?w') t r = plane_look p t r")
    case True
    with a before show ?thesis by (auto simp: stands_on_def same_binding_def)
  next
    case False
    have keyed: "actions_keyed (wd_store ?w)" and ev: "evolves (\<lambda>_. 0) sv (start_world NewApprovalStore) ?w"
      using ok by (simp_all add: plane_ok_def evolves_def store_inv_def)
    have sv: "sv_store sv = memory_store" using wired by (simp add: wired_def)
    obtain prin where prin: "issued_by c prin" by (cases c) auto
    from ActionServiceLaws.mem.serve_audited[OF sv t keyed prin, of d] False a obtain e where
      "explains sv prin (wd_evidence ?w) (wd_evidence ?w') e t r (plane_look p t r) a"
      unfolding audited_def plane_look_def by fastforce
    then consider "ac_Status a = StatusAwaitingApproval"
      | (entitled) a0 where "plane_look p t r = Some a0" "ActionServiceLaws.entitled sv prin (wd_evidence ?w) (wd_evidence ?w') a0 a"
      using a(2) unfolding explains_def by blast
    then show ?thesis
    proof cases
      case 1
      then show ?thesis by (simp add: unlocked_def)
    next
      case entitled
      then have edge: "canTransition (ac_Status a0) (ac_Status a)" and same: "same_binding a0 a"
        by (simp_all add: ActionServiceLaws.entitled_def)
      have "ac_Status a0 \<noteq> StatusRequested" using before[OF entitled(1)] same a(2) by (simp add: same_binding_def)
      moreover have "stands_on p c (wd_evidence ?w') t r a" if "ac_Status a = StatusGranted" "ac_Status a0 = StatusAwaitingApproval"
        using granted_by_consuming[OF wired ok t False prin entitled(2)[folded plane_evidence_def] entitled(1) that]
          keyed_look[OF ev entitled(1)[unfolded plane_look_def]] by (simp add: stands_on_def)
      ultimately show ?thesis using never_requested_again[OF edge] unlocked_from[OF edge] entitled(1) same by (auto simp: stands_on_def)
    qed
  qed
  then show "ac_Status a \<noteq> StatusRequested" and "unlocked a \<Longrightarrow> stands_on p c (wd_evidence ?w') t r a" by auto
qed

lemma approved_for_same: "same_binding a b \<Longrightarrow> approved_for e a = approved_for e b"
  by (simp add: approved_for_def plan_record_def same_binding_def)

lemma consumption_keeps:
  assumes "wired sv asv" and "approvals_reached asv env e0" and "sv_evidence sv = Some consume"
    and "approvals_reached asv env e \<and> (\<forall>a. approved_for e0 a \<longrightarrow> approved_for e a)"
  shows "approvals_reached asv env (snd (consume t plan at e)) \<and> (\<forall>a. approved_for e0 a \<longrightarrow> approved_for (snd (consume t plan at e)) a)"
proof -
  have asv: "asv_store asv = memory_approvals" and c: "consume = ConsumeApprovalEvidence memory_approvals"
    using assms(1,3) by (simp_all add: wired_def)
  have r: "approvals_reached asv env e" using assms(4) by blast
  from approved_for_keeps[OF approvals_reached_consume(2)[OF asv r, of t plan at]] approvals_reached_consume(1)[OF asv r, of t plan at] assms(4)
  show ?thesis by (simp add: c)
qed

lemma serve_keeps_approvals:
  assumes "wired sv asv" and "plane_ok sv asv p"
  shows "approvals_reached asv (pl_approvals p) (wd_evidence (serve sv d c (pl_world p)))"
    and "approved_for (plane_evidence p) a \<Longrightarrow> approved_for (wd_evidence (serve sv d c (pl_world p))) a"
proof -
  have r: "approvals_reached asv (pl_approvals p) (plane_evidence p)" using assms(2) by (simp add: plane_ok_def)
  have "approvals_reached asv (pl_approvals p) (wd_evidence (serve sv d c (pl_world p)))
     \<and> (\<forall>a. approved_for (plane_evidence p) a \<longrightarrow> approved_for (wd_evidence (serve sv d c (pl_world p))) a)"
    by (rule serve_keeps_evidence[where P = "\<lambda>e. approvals_reached asv (pl_approvals p) e \<and> (\<forall>a. approved_for (plane_evidence p) a \<longrightarrow> approved_for e a)"])
      (use r consumption_keeps[OF assms(1) r] in \<open>auto simp: plane_evidence_def\<close>)
  then show "approvals_reached asv (pl_approvals p) (wd_evidence (serve sv d c (pl_world p)))"
    and "approved_for (plane_evidence p) a \<Longrightarrow> approved_for (wd_evidence (serve sv d c (pl_world p))) a" by auto
qed

lemma old_approval_is_spent: "approved_for e a \<Longrightarrow> freshly_granted c e r b \<Longrightarrow> ac_TenantRef b = ac_TenantRef a \<Longrightarrow> ac_ApprovalPlanRef b \<noteq> ac_ApprovalPlanRef a"
  by (auto simp: approved_for_def freshly_granted_def plan_record_def)

lemma action_call_ok:
  assumes wired: "wired sv asv" and ok: "plane_ok sv asv p" and t: "nul_free (call_tenant c)"
  shows "plane_ok sv asv (plane_step sv asv (ActionCall d c) p)"
proof -
  let ?p = "plane_step sv asv (ActionCall d c) p" and ?w' = "serve sv d c (pl_world p)"
  have p': "pl_world ?p = ?w'" "pl_approvals ?p = pl_approvals p" by (simp_all add: plane_step_def)
  have sv: "sv_store sv = memory_store" "well_formed_service sv" using wired by (simp_all add: wired_def)
  have ev0: "evolves (\<lambda>_. 0) sv (start_world NewApprovalStore) (pl_world p)" using ok by (simp add: plane_ok_def)
  have ev: "evolves (\<lambda>_. 0) sv (start_world NewApprovalStore) ?w'" by (rule serve_evolves[OF sv(2,1) t ev0])
  note look = action_call_look[OF wired ok t, of d, folded p'(1), folded plane_look_def plane_evidence_def]
  have old: "unlocked a0 \<Longrightarrow> ac_ApprovalPlanRef a0 \<noteq> [] \<Longrightarrow> approved_for (plane_evidence p) a0" if "plane_look p t r = Some a0" for t r a0
    using ok that by (simp add: plane_ok_def)
  have keyed: "ac_TenantRef a = t" if "plane_look ?p t r = Some a" for t r a
    using keyed_look[OF ev, of t r a] that by (simp add: plane_look_def p')
  have spent: "\<exists>a0. plane_look p t r = Some a0 \<and> unlocked a0 \<and> same_binding a0 a \<and> approved_for (plane_evidence p) a"
    if x: "stands_on p c e t r a" "\<not> freshly_granted c (plane_evidence p) r a" "ac_ApprovalPlanRef a \<noteq> []" for e t r a
  proof -
    obtain a0 where a0: "plane_look p t r = Some a0" "unlocked a0" "same_binding a0 a" using x(1,2) unfolding stands_on_def by blast
    then have "ac_ApprovalPlanRef a0 \<noteq> []" using x(3) by (simp add: same_binding_def)
    from old[OF a0(1,2) this] a0 show ?thesis by (auto simp: approved_for_same[OF a0(3)])
  qed
  have approved: "approved_for (plane_evidence ?p) a" if x: "plane_look ?p t r = Some a" "ac_ApprovalPlanRef a \<noteq> []" "unlocked a" for t r a
  proof -
    have so: "stands_on p c (plane_evidence ?p) t r a" using look(2)[OF x] .
    show ?thesis
    proof (cases "\<exists>a0. plane_look p t r = Some a0 \<and> unlocked a0 \<and> same_binding a0 a")
      case True
      then obtain a0 where a0: "plane_look p t r = Some a0" "unlocked a0" "same_binding a0 a" by blast
      then have "ac_ApprovalPlanRef a0 \<noteq> []" using x(2) by (simp add: same_binding_def)
      from old[OF a0(1,2) this] serve_keeps_approvals(2)[OF wired ok, of a0 d c] show ?thesis
        by (simp add: plane_evidence_def p' approved_for_same[OF a0(3)])
    next
      case False
      with so show ?thesis unfolding stands_on_def by blast
    qed
  qed
  have "r = r'" if a: "plane_look ?p t r = Some a" "unlocked a" "ac_ApprovalPlanRef a \<noteq> []"
    and b: "plane_look ?p t r' = Some b" "unlocked b" "ac_ApprovalPlanRef b = ac_ApprovalPlanRef a" for t r r' a b
  proof -
    have sa: "stands_on p c (plane_evidence ?p) t r a" and sb: "stands_on p c (plane_evidence ?p) t r' b"
      using look(2)[OF a(1,3,2)] look(2)[OF b(1) _ b(2)] a(3) b(3) by simp_all
    have tt: "ac_TenantRef b = ac_TenantRef a" using keyed[OF a(1)] keyed[OF b(1)] by simp
    show ?thesis
    proof (cases "freshly_granted c (plane_evidence p) r a")
      case True
      then have "freshly_granted c (plane_evidence p) r' b"
        using spent[OF sb] old_approval_is_spent[of "plane_evidence p" b c r a] a(3) b(3) tt by metis
      with True show ?thesis by (auto simp: freshly_granted_def)
    next
      case False
      then obtain a0 where a0: "plane_look p t r = Some a0" "unlocked a0" "same_binding a0 a" "approved_for (plane_evidence p) a"
        using spent[OF sa] a(3) by blast
      then have "\<not> freshly_granted c (plane_evidence p) r' b" using old_approval_is_spent tt b(3) by metis
      then obtain b0 where b0: "plane_look p t r' = Some b0" "unlocked b0" "same_binding b0 b" using spent[OF sb] a(3) b(3) by metis
      have "ac_ApprovalPlanRef a0 \<noteq> []" "ac_ApprovalPlanRef b0 = ac_ApprovalPlanRef a0" using a0(3) b0(3) a(3) b(3) by (simp_all add: same_binding_def)
      with ok a0(1,2) b0(1,2) show ?thesis unfolding plane_ok_def by blast
    qed
  qed
  then show ?thesis
    using ev serve_keeps_approvals(1)[OF wired ok, of d c] look(1) approved unfolding plane_ok_def by (auto simp: p' plane_evidence_def)
qed

lemma approval_call_ok:
  assumes wired: "wired sv asv" and ok: "plane_ok sv asv p"
  shows "plane_ok sv asv (plane_step sv asv (ApprovalCall c) p)"
proof -
  define aw where "aw = approval_serve asv c (approvals_of p)"
  let ?p = "plane_step sv asv (ApprovalCall c) p"
  have p': "plane_evidence ?p = aw_store aw" "pl_approvals ?p = aw_env aw" "plane_look ?p = plane_look p"
    "wd_store (pl_world ?p) = wd_store (pl_world p)" "wd_env (pl_world ?p) = wd_env (pl_world p)"
    by (simp_all add: plane_step_def aw_def Let_def plane_evidence_def plane_look_def)
  have asv: "asv_store asv = memory_approvals" using wired by (simp add: wired_def)
  have r: "approvals_reached asv (pl_approvals p) (plane_evidence p)" using ok by (simp add: plane_ok_def)
  note reached = approvals_reached_serve[OF asv r, of aw c, OF aw_def[unfolded approvals_of_def, folded plane_evidence_def]]
  have kept: "approved_for (aw_store aw) a" if "approved_for (plane_evidence p) a" for a
    by (rule approved_for_keeps[OF reached(2) that])
  have "evolves (\<lambda>_. 0) sv (start_world NewApprovalStore) (pl_world ?p)"
    using ok p'(4,5) by (simp add: plane_ok_def evolves_def)
  with ok reached(1) kept show ?thesis unfolding plane_ok_def p' by blast
qed

lemma plane_step_ok: "wired sv asv \<Longrightarrow> plain_tenants pc \<Longrightarrow> plane_ok sv asv p \<Longrightarrow> plane_ok sv asv (plane_step sv asv pc p)"
  by (cases pc) (simp_all add: action_call_ok approval_call_ok)

lemma new_plane_ok: "plane_ok sv asv new_plane"
proof -
  have "approvals_reached asv (aw_env new_world) NewApprovalStore"
    using wf_New unfolding approvals_reached_def by (simp add: new_world_def)
  moreover have "plane_look new_plane t r = None" for t r
    by (simp add: plane_look_def new_plane_def start_world_def mm_look_def NewMemoryStore_def)
  ultimately show ?thesis
    using start_evolves[of "\<lambda>_. 0" sv NewApprovalStore] by (simp add: plane_ok_def new_plane_def plane_evidence_def start_world_def)
qed

lemma plane_run_ok:
  "wired sv asv \<Longrightarrow> \<forall>pc \<in> set pcs. plain_tenants pc \<Longrightarrow> plane_ok sv asv p \<Longrightarrow> plane_ok sv asv (plane_run sv asv pcs p)"
  unfolding plane_run_def by (induction pcs arbitrary: p) (auto simp: plane_step_ok)

lemma reached_decisions:
  assumes "approvals_reached asv env e" and "ps_evidence e k = Some r"
  shows "decision_ok asv (ApprovalLaws.mem.shown \<lparr>aw_store = e, aw_env = env\<rparr>) k r"
proof -
  have "decisions_ok asv (ApprovalLaws.mem.shown new_world)" "unique_approvals (ApprovalLaws.mem.shown new_world)"
    by (simp_all add: decisions_ok_def unique_approvals_def shows_view_def new_world_def NewApprovalStore_def)
  then have "decisions_ok asv (ApprovalLaws.mem.shown \<lparr>aw_store = e, aw_env = env\<rparr>)"
    using assms(1) lifecycle_decisions unfolding approvals_reached_def by blast
  with assms(2) show ?thesis by (simp add: decisions_ok_def shows_view_def)
qed

text \<open>What an unlocked action with an approval plan rests on: the record stored under its plan is a consumed approval of
  its exact capability and parameters, and an authentic decision of the transmission filed under that plan.\<close>

definition rests_on_approval :: "ApprovalStore ApprovalService \<Rightarrow> ApprovalStore \<Rightarrow> Action \<Rightarrow> bool" where
  "rests_on_approval asv e a \<longleftrightarrow> (\<exists>r t. plan_record e a = Some r
     \<and> ps_transmissions e (ApprovalTransport.storeKey (ac_TenantRef a) (ac_ApprovalPlanRef a)) = Some t
     \<and> authentic asv t r \<and> tm_Decision t = ApprovalApproved
     \<and> ae_Decision (er_Evidence r) = ApprovalApproved \<and> ae_Capability (er_Evidence r) = ac_Capability a
     \<and> ae_ParameterHash (er_Evidence r) = ac_ParameterHash a \<and> er_ConsumedAt r \<noteq> 0)"

text \<open>C2: No privileged execution without a one-shot decision, across both planes: however calls of the action service and of
  the approval service interleave over the shared evidence store, an action that was requested with an approval plan and has
  been unlocked (granted, or in a status only a grant leads to) rests on an authentic, consumed approval of exactly its
  capability and parameters under its own plan, and no second action of the tenant is unlocked by the same plan. The calls
  name tenants without NUL bytes, and the two services share the in-memory approval store as the gateway wires it.\<close>

theorem unlocked_actions_rest_on_one_approval:
  assumes "wired sv asv" and "\<forall>pc \<in> set pcs. plain_tenants pc"
    and "plane_look (plane_run sv asv pcs new_plane) t r = Some a" and "unlocked a" and "ac_ApprovalPlanRef a \<noteq> []"
  shows "rests_on_approval asv (plane_evidence (plane_run sv asv pcs new_plane)) a
    \<and> (\<forall>r' b. plane_look (plane_run sv asv pcs new_plane) t r' = Some b \<longrightarrow> unlocked b
         \<longrightarrow> ac_ApprovalPlanRef b = ac_ApprovalPlanRef a \<longrightarrow> r' = r)"
proof -
  let ?p = "plane_run sv asv pcs new_plane"
  have ok: "plane_ok sv asv ?p" by (rule plane_run_ok[OF assms(1,2) new_plane_ok])
  then have "approved_for (plane_evidence ?p) a" using assms(3-5) by (simp add: plane_ok_def)
  then obtain rec where rec: "plan_record (plane_evidence ?p) a = Some rec" "er_ConsumedAt rec \<noteq> 0"
    "ae_Capability (er_Evidence rec) = ac_Capability a" "ae_ParameterHash (er_Evidence rec) = ac_ParameterHash a"
    "ae_Decision (er_Evidence rec) = ApprovalApproved"
    by (auto simp: approved_for_def)
  have reached: "approvals_reached asv (pl_approvals ?p) (plane_evidence ?p)" using ok by (simp add: plane_ok_def)
  from reached_decisions[OF reached rec(1)[unfolded plan_record_def]] rec(5) obtain tm where
    "ps_transmissions (plane_evidence ?p) (ApprovalTransport.storeKey (ac_TenantRef a) (ac_ApprovalPlanRef a)) = Some tm"
    "authentic asv tm rec" "tm_Decision tm = ApprovalApproved"
    by (auto simp: decision_ok_def shows_view_def)
  with rec have "rests_on_approval asv (plane_evidence ?p) a" by (auto simp: rests_on_approval_def)
  moreover have "r' = r" if "plane_look ?p t r' = Some b" "unlocked b" "ac_ApprovalPlanRef b = ac_ApprovalPlanRef a" for r' b
    using ok assms(3-5) that unfolding plane_ok_def by blast
  ultimately show ?thesis by blast
qed

text \<open>An example: a plan is transmitted and approved, the action is requested under it and granted.\<close>

abbreviation "pl_hash \<equiv> HashParameters ''{}''"

definition pl_sv :: "(MemoryStore, ApprovalStore) Service" where
  "pl_sv = \<lparr>sv_store = memory_store, sv_audit = (\<lambda>_ _. Inr ''aud''), sv_evidence = Some (ConsumeApprovalEvidence memory_approvals),
     sv_providers = None, sv_receipts = None, sv_publisher = None, sv_now = (\<lambda>n. int n + 1),
     sv_newID = (\<lambda>n p. p @ replicate (n + 16) CHR ''x'')\<rparr>"

definition pl_plan :: ApprovalPlanRef where
  "pl_plan = \<lparr>plan_PlanRef = ''apl_0000000000000001'', plan_PlanHash = ex_digest, plan_Authority = ''oa''\<rparr>"

definition pl_approval :: ApprovalRequest where
  "pl_approval = ex_req\<lparr>apr_Capability := ''crm.note'', apr_ParameterHash := pl_hash\<rparr>"

definition pl_decision :: ApprovalEvidence where
  "pl_decision = ex_ev\<lparr>ae_Capability := ''crm.note'', ae_ParameterHash := pl_hash\<rparr>"

definition pl_request :: ActionRequest where
  "pl_request = ex_request\<lparr>ar_ApprovalPlanRef := Some pl_plan\<rparr>"

definition pl_ref :: string where "pl_ref = ''act_'' @ replicate 16 CHR ''x''"

definition pl_filed :: Action where
  "pl_filed = requested_action ex_prin pl_request pl_ref StatusAwaitingApproval ''apl_0000000000000001'' ''aud'' 1"

definition pl_approved :: "ApprovalStore ApprovalWorld" where
  "pl_approved = approval_run ex_sv [CallTransmit False ex_prin pl_approval, CallRecordEvidence False ex_prin pl_decision] new_world"

definition pl_calls :: "plane_call list" where
  "pl_calls = [ApprovalCall (CallTransmit False ex_prin pl_approval), ApprovalCall (CallRecordEvidence False ex_prin pl_decision),
     ActionCall False (CallRequest ex_prin pl_request), ActionCall False (CallGrant ex_prin pl_ref)]"

lemma pl_hash_valid: "ValidateSHA256Ref pl_hash = None"
  using ex_request_valid by (auto simp: ActionRequest_Validate_def first_error_None ex_request_def)

lemma pl_valid: "ApprovalRequest_Validate pl_approval = None" "ApprovalEvidence_Validate pl_decision = None" "ActionRequest_Validate pl_request = None"
proof -
  have caps: "validateCapability ''crm.note'' = None" by code_simp
  show "ApprovalRequest_Validate pl_approval = None" "ApprovalEvidence_Validate pl_decision = None"
    using ex_valid(2,3) pl_hash_valid caps
    by (simp_all add: ApprovalRequest_Validate_def ApprovalEvidence_Validate_def first_error_None pl_approval_def pl_decision_def)
  have "ApprovalPlanRef_Validate pl_plan = None" by code_simp
  then show "ActionRequest_Validate pl_request = None"
    using ex_request_valid by (simp add: ActionRequest_Validate_def first_error_None pl_request_def opt_valid_def)
qed

lemma evidence_hash_set:
  assumes "marshal_time (ae_DecidedAt ev) \<noteq> None"
  shows "CanonicalEvidenceHash ev \<noteq> []"
proof -
  obtain payload where "marshal_evidence ev = Some payload" using assms by (auto simp: marshal_evidence_def)
  then have "CanonicalEvidenceHash ev = sha256_hex payload" by (simp add: CanonicalEvidenceHash_def)
  moreover have "length (sha256_hex payload) = 64" by (simp add: sha256_hex_def)
  ultimately show ?thesis by auto
qed

lemma pl_approved:
  "\<exists>r. ps_evidence (aw_store pl_approved) ex_key = Some r \<and> er_Evidence r = pl_decision \<and> er_ConsumedAt r = 0"
  "\<exists>t. ps_transmissions (aw_store pl_approved) ex_key = Some t \<and> tm_Status t = StatusEvidenceRecorded"
proof -
  define w1 where "w1 = snd (Transmit ex_sv False ex_prin pl_approval new_world)"
  let ?t1 = "(candidate_of ex_prin pl_approval 1000)\<lparr>tm_AuditRefID := ''audit'', tm_DeliveryAttempts := 1,
    tm_LastDeliveryOutcome := DeliveryDelivered, tm_Status := StatusDelivered\<rparr>"
  have w1: "ps_transmissions (aw_store w1) ex_key = Some ?t1" "ps_evidence (aw_store w1) = Map.empty" "ps_evidenceRefs (aw_store w1) = Map.empty"
    unfolding w1_def
    by (simp_all add: Transmit_def ex_valid pl_valid approval_guard_def reject_def, simp_all add: run_defs ex_defs verifyApprovalProvider_def
        new_world_def ex_valid NewApprovalStore_def transmit_new_def deliver_def call_channel_def memory_channel_def delivery_of_def statusRank_def
        pl_approval_def)
  have hash: "CanonicalEvidenceHash pl_decision \<noteq> []"
  proof (rule evidence_hash_set)
    have "marshal_time 900 \<noteq> None" by code_simp
    then show "marshal_time (ae_DecidedAt pl_decision) \<noteq> None" by (simp add: pl_decision_def ex_ev_def)
  qed
  have run: "pl_approved = snd (RecordEvidence ex_sv False ex_prin pl_decision w1)"
    by (simp add: approval_run_def pl_approved_def w1_def approval_serve_def)
  show "\<exists>r. ps_evidence (aw_store pl_approved) ex_key = Some r \<and> er_Evidence r = pl_decision \<and> er_ConsumedAt r = 0"
    "\<exists>t. ps_transmissions (aw_store pl_approved) ex_key = Some t \<and> tm_Status t = StatusEvidenceRecorded"
    unfolding run using w1 hash
    by (simp_all add: RecordEvidence_def approval_guard_def reject_def ex_valid pl_valid,
        simp_all add: pl_decision_def pl_approval_def ex_ev_def ex_defs run_defs evidence_checks_def
        evidenceDecisionSkew_def second_def fail_if_def store_evidence_def statusRank_def)
qed

definition pl_world3 :: "(MemoryStore, ApprovalStore) World" where
  "pl_world3 = serve pl_sv False (CallRequest ex_prin pl_request) (start_world (aw_store pl_approved))"

lemma ex_prin_tenant: "pc_TenantRef ex_prin = ''acme''" "pc_TrustClass ex_prin = TrustFirstParty"
  by (simp_all add: ex_prin_def)

lemma pl_fields: "ar_IdempotencyKey pl_request = ''idem-key-00000001''" "ar_ApprovalPlanRef pl_request = Some pl_plan"
  "plan_PlanRef pl_plan = ''apl_0000000000000001''" "ar_Capability pl_request = ''crm.note''" "ar_ParameterHash pl_request = pl_hash"
  by (simp_all add: pl_request_def ex_request_def pl_plan_def)

lemma pl_world3: "mm_GetAction ''acme'' pl_ref (wd_store pl_world3) = (Inr pl_filed, wd_store pl_world3)"
  "mm_actions (wd_store pl_world3) (ActionStore.storeKey ''acme'' pl_ref) = Some pl_filed" "mm_grants (wd_store pl_world3) = Map.empty"
  "wd_evidence pl_world3 = aw_store pl_approved" "en_ids (wd_env pl_world3) = 1"
proof -
  have ids: "has_prefix (''act_'' @ replicate 16 CHR ''x'') HandleAction"
    "is_handle_body (trim_prefix (''act_'' @ replicate 16 CHR ''x'') HandleAction)" by code_simp+
  have sv: "sv_store pl_sv = memory_store" by (simp add: pl_sv_def)
  have run: "pl_world3 = snd (RequestAction pl_sv False ex_prin pl_request (start_world (aw_store pl_approved)))"
    by (simp add: pl_world3_def)
  show "mm_GetAction ''acme'' pl_ref (wd_store pl_world3) = (Inr pl_filed, wd_store pl_world3)"
    "mm_actions (wd_store pl_world3) (ActionStore.storeKey ''acme'' pl_ref) = Some pl_filed" "mm_grants (wd_store pl_world3) = Map.empty"
    "wd_evidence pl_world3 = aw_store pl_approved" "en_ids (wd_env pl_world3) = 1"
    unfolding run RequestAction_def create_requested_def
    by (simp_all add: ActionService.guard_def invalid_def ex_valid pl_valid ex_prin_tenant attempt_def on_action_store_def sv pl_fields
        memory_store_ops mm_GetByIdempotencyKey_def start_world_def NewMemoryStore_def andthen_def
        now_def env_now_def newID_def new_env_def, simp_all add: pl_sv_def ids[simplified] appendAudit_def on_error_def
        mm_PutRequested_def Let_def on_action_store_def memory_store_ops mm_GetAction_def pl_filed_def pl_ref_def
        requested_action_def ex_prin_tenant)
qed

lemma pl_filed_fields: "ac_Status pl_filed = StatusAwaitingApproval" "ac_ApprovalPlanRef pl_filed = ''apl_0000000000000001''"
  "ac_Capability pl_filed = ''crm.note''" "ac_ParameterHash pl_filed = pl_hash" "ac_TenantRef pl_filed = ''acme''" "ac_ActionRef pl_filed = pl_ref"
  "ac_BusinessContextRef pl_filed = ''wc_aaaaaaaaaaaaaaaa''"
  by (simp_all add: pl_filed_def requested_action_def pl_fields ex_prin_tenant) (simp add: pl_request_def ex_request_def)

lemma pl_minted:
  assumes "t > 0"
  obtains g where "MintActionGrant \<lparr>agi_GrantRef = ''grant_'' @ replicate 17 CHR ''x'', agi_BusinessContextRef = ''wc_aaaaaaaaaaaaaaaa'',
     agi_Capability = ''crm.note'', agi_ParameterHash = pl_hash, agi_TTL = MaxActionGrantTTL\<rparr> t = Inr g"
proof -
  let ?g = "\<lparr>sg_GrantRef = ''grant_'' @ replicate 17 CHR ''x'', sg_BusinessContextRef = ''wc_aaaaaaaaaaaaaaaa'', sg_Capability = ''crm.note'',
     sg_ParameterHash = pl_hash, sg_OneUse = True, sg_IssuedAt = t, sg_ExpiresAt = t + 300000000000\<rparr>"
  have "validateCapability ''crm.note'' = None" "ValidateHandle ''wc_aaaaaaaaaaaaaaaa'' HandleWorkCase = None"
    "ValidateHandle (''grant_'' @ replicate 17 CHR ''x'') HandleGrant = None" by code_simp+
  then have "StepGrant_Validate ?g = None"
    using assms by (simp add: StepGrant_Validate_def first_error_None pl_hash_valid)
  then show thesis by (intro that) (simp add: MintActionGrant_def Let_def MaxActionGrantTTL_def minute_def second_def)
qed

lemma pl_evidence:
  "\<exists>s'. ConsumeApprovalEvidence memory_approvals ''acme'' ''apl_0000000000000001'' t (aw_store pl_approved) =
     (Inr \<lparr>ce_ApprovalRef = ''apv_0000000000000001'', ce_PlanRef = ''apl_0000000000000001'', ce_Capability = ''crm.note'', ce_ParameterHash = pl_hash,
        ce_Decision = ApprovalApproved\<rparr>, s')"
proof -
  obtain r where r: "ps_evidence (aw_store pl_approved) ex_key = Some r" "er_Evidence r = pl_decision" "er_ConsumedAt r = 0" using pl_approved(1) by blast
  obtain tm where tm: "ps_transmissions (aw_store pl_approved) ex_key = Some tm" "tm_Status tm = StatusEvidenceRecorded" using pl_approved(2) by blast
  show ?thesis
    by (simp add: ConsumeApprovalEvidence_def memory_approvals_def mp_ConsumeEvidence_def r tm) (simp add: pl_decision_def ex_ev_def)
qed

lemma pl_world4:
  "\<exists>b. mm_actions (wd_store (serve pl_sv False (CallGrant ex_prin pl_ref) pl_world3)) (ActionStore.storeKey ''acme'' pl_ref) = Some b
     \<and> ac_Status b = StatusGranted \<and> ac_ApprovalPlanRef b = ''apl_0000000000000001''"
proof -
  have sv: "sv_store pl_sv = memory_store" "sv_evidence pl_sv = Some (ConsumeApprovalEvidence memory_approvals)" by (simp_all add: pl_sv_def)
  let ?t = "sv_now pl_sv (en_ticks (wd_env pl_world3))"
  obtain s' where s': "ConsumeApprovalEvidence memory_approvals ''acme'' ''apl_0000000000000001'' ?t (aw_store pl_approved) =
     (Inr \<lparr>ce_ApprovalRef = ''apv_0000000000000001'', ce_PlanRef = ''apl_0000000000000001'', ce_Capability = ''crm.note'', ce_ParameterHash = pl_hash,
        ce_Decision = ApprovalApproved\<rparr>, s')" using pl_evidence by blast
  have "?t > 0" by (simp add: pl_sv_def)
  moreover define G where "G = ''grant_'' @ replicate 17 CHR ''x''"
  ultimately obtain g where g: "MintActionGrant \<lparr>agi_GrantRef = G, agi_BusinessContextRef = ''wc_aaaaaaaaaaaaaaaa'',
     agi_Capability = ''crm.note'', agi_ParameterHash = pl_hash, agi_TTL = MaxActionGrantTTL\<rparr> ?t = Inr g" using pl_minted by metis
  have newid: "sv_newID pl_sv (Suc 0) ''grant_'' = G" by (simp add: pl_sv_def G_def)
  have audit: "sv_audit pl_sv n ev = Inr ''aud''" for n ev by (simp add: pl_sv_def)
  have edge: "canTransition StatusAwaitingApproval StatusGranted" by code_simp
  show ?thesis
    by (simp add: ServiceGrant_def ServiceGetAction_def andthen_def ActionService.guard_def invalid_def ex_valid on_error_def on_action_store_def
        sv memory_store_ops ex_prin_tenant pl_world3 require_def pl_filed_fields check_def verifyDecisionProvider_def now_def env_now_def Let_def
        consume_evidence_def on_evidence_def s' newID_def newid mint_def g appendAudit_def audit mm_Grant_def edge)
qed

lemma pl_run: "pl_world (plane_run pl_sv ex_sv pl_calls new_plane) = serve pl_sv False (CallGrant ex_prin pl_ref) pl_world3"
proof -
  have step2: "approval_serve ex_sv (CallRecordEvidence False ex_prin pl_decision)
      (approval_serve ex_sv (CallTransmit False ex_prin pl_approval) new_world) = pl_approved"
    by (simp add: pl_approved_def approval_run_def)
  define p2 where "p2 = plane_step pl_sv ex_sv (ApprovalCall (CallRecordEvidence False ex_prin pl_decision))
      (plane_step pl_sv ex_sv (ApprovalCall (CallTransmit False ex_prin pl_approval)) new_plane)"
  have new: "\<lparr>aw_store = NewApprovalStore, aw_env = aw_env new_world\<rparr> = new_world" by (simp add: new_world_def)
  have same: "\<lparr>aw_store = aw_store w, aw_env = aw_env w\<rparr> = w" for w :: "ApprovalStore ApprovalWorld" by simp
  have "pl_world p2 = start_world (aw_store pl_approved)"
    unfolding p2_def by (simp add: plane_step_def Let_def approvals_of_def new_plane_def start_world_def new same step2)
  then show ?thesis
    unfolding pl_calls_def plane_run_def by (simp add: p2_def[symmetric] del: serve.simps) (simp add: plane_step_def pl_world3_def del: serve.simps)
qed

theorem unlocked_actions_rest_on_one_approval_witness:
  "\<exists>a. plane_look (plane_run pl_sv ex_sv pl_calls new_plane) ''acme'' pl_ref = Some a \<and> unlocked a
     \<and> ac_ApprovalPlanRef a = ''apl_0000000000000001'' \<and> rests_on_approval ex_sv (plane_evidence (plane_run pl_sv ex_sv pl_calls new_plane)) a"
proof -
  obtain a where a: "plane_look (plane_run pl_sv ex_sv pl_calls new_plane) ''acme'' pl_ref = Some a" "unlocked a" "ac_ApprovalPlanRef a = ''apl_0000000000000001''"
    using pl_world4 by (auto simp: plane_look_def pl_run mm_look_def nul_free_def unlocked_def simp del: serve.simps)
  have "wired pl_sv ex_sv" by (simp add: wired_def pl_sv_def ex_sv_def well_formed_service_def)
  moreover have "\<forall>pc \<in> set pl_calls. plain_tenants pc" by (simp add: pl_calls_def ex_prin_tenant nul_free_def)
  ultimately show ?thesis using unlocked_actions_rest_on_one_approval[OF _ _ a(1,2)] a by simp
qed

end
