(* ===== verification/RuntimeTrust.thy ===== *)
theory RuntimeTrust
  imports RuntimeTypes GoEncoding "HOL-Library.List_Lexorder" "HOL-Library.Char_ord"
begin

text \<open>
  \<^verbatim>\<open>sdk/go/runtime/trust.go\<close>: version ranges, capability ceilings and certification bindings. A nil slice is \<open>None\<close>, so
  a nil customer ceiling (no narrowing) differs from an empty one (nothing allowed). Versions are compared segment by
  segment with the shorter one padded by zeros; the laws show that this is the lexicographic order of the segments without
  their trailing zeros, so a range is an interval of a linear order, and that narrowing is an intersection.
\<close>

subsection \<open>Versions\<close>

text \<open>\<open>strconv.Atoi\<close> on a 64-bit platform: one optional sign, then decimal digits, within the range of \<open>int64\<close>.\<close>

definition atoi :: "string \<Rightarrow> int option" where
  "atoi s =
     (let (negative, ds) = (case s of c # cs \<Rightarrow> if c = CHR ''-'' then (True, cs) else if c = CHR ''+'' then (False, cs) else (False, s)
                            | [] \<Rightarrow> (False, []));
          n = int (digits_value ds); v = (if negative then - n else n)
      in if ds \<noteq> [] \<and> list_all is_digit ds \<and> - (2 ^ 63) \<le> v \<and> v < 2 ^ 63 then Some v else None)"

fun parse_segments :: "string list \<Rightarrow> int list option" where
  "parse_segments [] = Some []"
| "parse_segments (part # parts) =
     (case atoi part of None \<Rightarrow> None
      | Some n \<Rightarrow> if n < 0 then None else map_option (Cons n) (parse_segments parts))"

definition parseVersion :: "string \<Rightarrow> int list option" where
  "parseVersion v = (if v = [] then None else parse_segments (split_on CHR ''.'' v))"

definition segment :: "int list \<Rightarrow> nat \<Rightarrow> int" where
  "segment v i = (if i < length v then v ! i else 0)"

fun compare_loop :: "int list \<Rightarrow> int list \<Rightarrow> nat \<Rightarrow> nat \<Rightarrow> int" where
  "compare_loop av bv i 0 = 0"
| "compare_loop av bv i (Suc k) =
     (if segment av i \<noteq> segment bv i then if segment av i < segment bv i then -1 else 1
      else compare_loop av bv (Suc i) k)"

definition compareVersions :: "string \<Rightarrow> string \<Rightarrow> int option" where
  "compareVersions a b =
     (case (parseVersion a, parseVersion b) of
        (Some av, Some bv) \<Rightarrow> Some (compare_loop av bv 0 (max (length av) (length bv)))
      | _ \<Rightarrow> None)"

record VersionRange =
  vr_MinInclusive :: string
  vr_MaxExclusive :: string

definition VersionRange_Validate :: "VersionRange \<Rightarrow> field_error option" where
  "VersionRange_Validate r = first_error
     [fail_if (vr_MinInclusive r = [] \<and> vr_MaxExclusive r = []) (FieldError ''version_range'' ''requires at least one bound''),
      fail_if (vr_MinInclusive r \<noteq> [] \<and> parseVersion (vr_MinInclusive r) = None)
        (FieldError ''version_range.min_inclusive'' ''%q is not a dotted numeric version''),
      fail_if (vr_MaxExclusive r \<noteq> [] \<and> parseVersion (vr_MaxExclusive r) = None)
        (FieldError ''version_range.max_exclusive'' ''%q is not a dotted numeric version''),
      fail_if (vr_MinInclusive r \<noteq> [] \<and> vr_MaxExclusive r \<noteq> []
          \<and> (case compareVersions (vr_MinInclusive r) (vr_MaxExclusive r) of None \<Rightarrow> True | Some cmp \<Rightarrow> cmp \<ge> 0))
        (FieldError ''version_range'' ''min_inclusive %q must precede max_exclusive %q'')]"

definition VersionRange_Contains :: "VersionRange \<Rightarrow> string \<Rightarrow> bool" where
  "VersionRange_Contains r version \<longleftrightarrow>
     parseVersion version \<noteq> None
     \<and> (vr_MinInclusive r \<noteq> [] \<longrightarrow> (case compareVersions version (vr_MinInclusive r) of None \<Rightarrow> False | Some cmp \<Rightarrow> \<not> cmp < 0))
     \<and> (vr_MaxExclusive r \<noteq> [] \<longrightarrow> (case compareVersions version (vr_MaxExclusive r) of None \<Rightarrow> False | Some cmp \<Rightarrow> \<not> cmp \<ge> 0))"

subsection \<open>Signing keys\<close>

record SigningKey =
  sk_KeyID :: string
  sk_Algorithm :: string
  sk_PublicKey :: string

definition SigningKey_Validate :: "SigningKey \<Rightarrow> field_error option" where
  "SigningKey_Validate k = first_error
     [requireNonEmpty ''signing_key.key_id'' (sk_KeyID k),
      fail_if (sk_Algorithm k \<noteq> ''ed25519'') (FieldError ''signing_key.algorithm'' ''%q is not a supported signing algorithm''),
      requireNonEmpty ''signing_key.public_key'' (sk_PublicKey k)]"

subsection \<open>Capability ceilings\<close>

type_synonym CapabilityCeiling = "string list option"

definition entries :: "CapabilityCeiling \<Rightarrow> string list" where
  "entries c = (case c of None \<Rightarrow> [] | Some xs \<Rightarrow> xs)"

definition Allows :: "CapabilityCeiling \<Rightarrow> string \<Rightarrow> bool" where
  "Allows c capability = list_ex (\<lambda>allowed. allowed = capability) (entries c)"

fun keep_first :: "string list \<Rightarrow> string list \<Rightarrow> string list" where
  "keep_first out [] = out"
| "keep_first out (c # cs) = keep_first (if c \<in> set out then out else out @ [c]) cs"

definition normalized :: "CapabilityCeiling \<Rightarrow> CapabilityCeiling" where
  "normalized c = Some (sort (keep_first [] (entries c)))"

text \<open>The keys of the set \<open>keep\<close> are collected in the iteration order of a Go map; sorting makes that order immaterial.\<close>

definition Narrow :: "CapabilityCeiling \<Rightarrow> CapabilityCeiling \<Rightarrow> CapabilityCeiling" where
  "Narrow c customer =
     (case customer of None \<Rightarrow> normalized c
      | Some _ \<Rightarrow> Some (sort (remdups (filter (Allows customer) (entries c)))))"

subsection \<open>Certification bindings\<close>

record CertificationBinding =
  cb_Publisher :: string
  cb_Product :: string
  cb_VersionRange :: VersionRange
  cb_SigningKey :: SigningKey
  cb_ReleaseManifestDigest :: string
  cb_TrustClass :: TrustClass
  cb_CapabilityCeiling :: CapabilityCeiling

definition CertificationBinding_Validate :: "CertificationBinding \<Rightarrow> field_error option" where
  "CertificationBinding_Validate b = first_error
     ([requireNonEmpty ''publisher'' (cb_Publisher b),
       requireNonEmpty ''product'' (cb_Product b),
       VersionRange_Validate (cb_VersionRange b),
       SigningKey_Validate (cb_SigningKey b),
       within ''release_manifest_digest'' (ValidateSHA256Ref (cb_ReleaseManifestDigest b)),
       fail_if (\<not> TrustClass_Valid (cb_TrustClass b)) (FieldError ''trust_class'' ''%q is not a frozen trust class''),
       fail_if (cb_TrustClass b = TrustUntrusted) (FieldError ''trust_class'' ''a certification binding cannot be untrusted'')]
      @ map (\<lambda>capability. within ''capability_ceiling'' (validateCapability capability)) (entries (cb_CapabilityCeiling b)))"

subsection \<open>Versions form a linear order up to trailing zeros\<close>

text \<open>The segments of a version without the zeros at its end.\<close>

definition stripped :: "int list \<Rightarrow> int list" where
  "stripped v = rev (dropWhile (\<lambda>n. n = 0) (rev v))"

lemma stripped_Nil [simp]: "stripped [] = []"
  by (simp add: stripped_def)

lemma stripped_Nil_iff: "stripped v = [] \<longleftrightarrow> (\<forall>n \<in> set v. n = 0)"
  by (simp add: stripped_def dropWhile_eq_Nil_conv)

lemma stripped_Cons: "stripped (n # v) = (if n = 0 \<and> stripped v = [] then [] else n # stripped v)"
proof -
  have "dropWhile (\<lambda>n. n = 0) (rev v @ [n]) = (if \<forall>x \<in> set v. x = 0 then dropWhile (\<lambda>n. n = 0) [n] else dropWhile (\<lambda>n. n = 0) (rev v) @ [n])"
    by (induction v rule: rev_induct) auto
  then show ?thesis using stripped_Nil_iff[of v] by (auto simp: stripped_def)
qed

fun compare_segments :: "int list \<Rightarrow> int list \<Rightarrow> int" where
  "compare_segments [] [] = 0"
| "compare_segments (x # xs) [] = (if x \<noteq> 0 then if x < 0 then -1 else 1 else compare_segments xs [])"
| "compare_segments [] (y # ys) = (if 0 \<noteq> y then if 0 < y then -1 else 1 else compare_segments [] ys)"
| "compare_segments (x # xs) (y # ys) = (if x \<noteq> y then if x < y then -1 else 1 else compare_segments xs ys)"

lemma segment_drop [simp]: "segment (drop i v) j = segment v (i + j)"
  by (auto simp: segment_def)

lemma compare_loop_drop: "compare_loop (drop i av) (drop i bv) j k = compare_loop av bv (i + j) k"
  by (induction k arbitrary: j) simp_all

lemma compare_loop_segments: "max (length av) (length bv) \<le> k \<Longrightarrow> compare_loop av bv 0 k = compare_segments av bv"
proof (induction av bv arbitrary: k rule: compare_segments.induct)
  case 1
  have "compare_loop [] [] i k = 0" for i by (induction k arbitrary: i) (auto simp: segment_def)
  then show ?case by simp
next
  case (2 x xs)
  then show ?case using compare_loop_drop[of 1 "x # xs" "[]" 0] by (cases k) (auto simp: segment_def)
next
  case (3 y ys)
  then show ?case using compare_loop_drop[of 1 "[]" "y # ys" 0] by (cases k) (auto simp: segment_def)
next
  case (4 x xs y ys)
  then show ?case using compare_loop_drop[of 1 "x # xs" "y # ys" 0] by (cases k) (auto simp: segment_def)
qed

lemma Nil_less: "[] < (xs :: int list) \<longleftrightarrow> xs \<noteq> []"
  by (cases xs) auto

lemma compare_segments_order:
  assumes "\<forall>n \<in> set av. 0 \<le> n" and "\<forall>n \<in> set bv. 0 \<le> n"
  shows "(compare_segments av bv < 0 \<longleftrightarrow> stripped av < stripped bv) \<and> (compare_segments av bv = 0 \<longleftrightarrow> stripped av = stripped bv)"
  using assms
proof (induction av bv rule: compare_segments.induct)
  case (2 x xs)
  then show ?case by (cases "x = 0") (auto simp: stripped_Cons)
next
  case (3 y ys)
  then show ?case by (cases "y = 0") (auto simp: stripped_Cons Nil_less)
next
  case (4 x xs y ys)
  then show ?case by (cases "x = y") (auto simp: stripped_Cons Nil_less)
qed simp_all

lemma parse_segments_nonneg: "parse_segments ps = Some v \<Longrightarrow> \<forall>n \<in> set v. 0 \<le> n"
  by (induction ps arbitrary: v) (auto split: option.splits if_splits)

lemma parseVersion_nonneg: "parseVersion s = Some v \<Longrightarrow> \<forall>n \<in> set v. 0 \<le> n"
  by (auto simp: parseVersion_def split: if_splits dest: parse_segments_nonneg)

lemma compareVersions_order:
  assumes "parseVersion a = Some av" and "parseVersion b = Some bv"
  obtains cmp where "compareVersions a b = Some cmp" and "cmp < 0 \<longleftrightarrow> stripped av < stripped bv" and "cmp = 0 \<longleftrightarrow> stripped av = stripped bv"
proof -
  have "compareVersions a b = Some (compare_segments av bv)"
    using assms by (simp add: compareVersions_def compare_loop_segments)
  with that compare_segments_order[OF parseVersion_nonneg parseVersion_nonneg] assms show thesis by blast
qed

text \<open>Whether a version lies in a range is decided by the order of the stripped versions alone.\<close>

definition bound_holds :: "(int list \<Rightarrow> int list \<Rightarrow> bool) \<Rightarrow> int list \<Rightarrow> string \<Rightarrow> bool" where
  "bound_holds rel v bound \<longleftrightarrow> bound = [] \<or> (\<exists>n. parseVersion bound = Some n \<and> rel (stripped v) (stripped n))"

lemma compare_decides:
  assumes a: "parseVersion a = Some av"
  shows "(case compareVersions a b of None \<Rightarrow> False | Some cmp \<Rightarrow> \<not> cmp < 0) \<longleftrightarrow> (\<exists>bv. parseVersion b = Some bv \<and> stripped bv \<le> stripped av)"
    and "(case compareVersions a b of None \<Rightarrow> False | Some cmp \<Rightarrow> \<not> cmp \<ge> 0) \<longleftrightarrow> (\<exists>bv. parseVersion b = Some bv \<and> stripped av < stripped bv)"
proof -
  have none: "compareVersions a b = None" if "parseVersion b = None" by (simp add: compareVersions_def a that)
  have some: "\<exists>cmp. compareVersions a b = Some cmp \<and> (cmp < 0 \<longleftrightarrow> stripped av < stripped bv) \<and> (cmp = 0 \<longleftrightarrow> stripped av = stripped bv)"
    if "parseVersion b = Some bv" for bv
    using compareVersions_order[OF a that] by blast
  show "(case compareVersions a b of None \<Rightarrow> False | Some cmp \<Rightarrow> \<not> cmp < 0) \<longleftrightarrow> (\<exists>bv. parseVersion b = Some bv \<and> stripped bv \<le> stripped av)"
    and "(case compareVersions a b of None \<Rightarrow> False | Some cmp \<Rightarrow> \<not> cmp \<ge> 0) \<longleftrightarrow> (\<exists>bv. parseVersion b = Some bv \<and> stripped av < stripped bv)"
    using none some by (cases "parseVersion b"; fastforce simp: not_less not_le)+
qed

lemma Contains_iff:
  "VersionRange_Contains r version \<longleftrightarrow> (\<exists>v. parseVersion version = Some v
     \<and> bound_holds (\<lambda>a b. b \<le> a) v (vr_MinInclusive r) \<and> bound_holds (<) v (vr_MaxExclusive r))"
  by (cases "parseVersion version") (auto simp: VersionRange_Contains_def bound_holds_def compare_decides)

text \<open>A version lies in a range exactly when it is numeric and lies between the bounds in the lexicographic order of the
  segments without trailing zeros, so a range is an interval of a linear order whatever the lengths of the versions.\<close>

theorem version_range_is_an_interval:
  "VersionRange_Contains r version \<longleftrightarrow> (\<exists>v. parseVersion version = Some v
     \<and> (vr_MinInclusive r = [] \<or> (\<exists>low. parseVersion (vr_MinInclusive r) = Some low \<and> stripped low \<le> stripped v))
     \<and> (vr_MaxExclusive r = [] \<or> (\<exists>high. parseVersion (vr_MaxExclusive r) = Some high \<and> stripped v < stripped high)))"
  by (simp add: Contains_iff bound_holds_def)

text \<open>The versions in a range form an interval: anything between two contained versions is contained.\<close>

lemma Contains_convex:
  assumes "VersionRange_Contains r a" and "VersionRange_Contains r c"
    and "parseVersion a = Some av" and "parseVersion b = Some bv" and "parseVersion c = Some cv"
    and "stripped av \<le> stripped bv" and "stripped bv \<le> stripped cv"
  shows "VersionRange_Contains r b"
  using assms by (auto simp: Contains_iff bound_holds_def intro: order_trans order_le_less_trans)

text \<open>A valid range with a lower bound contains that bound, so it is not empty.\<close>

lemma valid_range_contains_min:
  assumes "VersionRange_Validate r = None" and "vr_MinInclusive r \<noteq> []"
  shows "VersionRange_Contains r (vr_MinInclusive r)"
proof -
  obtain v where v: "parseVersion (vr_MinInclusive r) = Some v" using assms by (auto simp: VersionRange_Validate_def first_error_None)
  have "bound_holds (<) v (vr_MaxExclusive r)" if max: "vr_MaxExclusive r \<noteq> []"
  proof -
    obtain m where m: "parseVersion (vr_MaxExclusive r) = Some m" using assms(1) max by (auto simp: VersionRange_Validate_def first_error_None)
    have "case compareVersions (vr_MinInclusive r) (vr_MaxExclusive r) of None \<Rightarrow> False | Some cmp \<Rightarrow> \<not> cmp \<ge> 0"
      using assms max by (auto simp: VersionRange_Validate_def first_error_None split: option.splits)
    with compare_decides(2)[OF v, of "vr_MaxExclusive r"] show ?thesis by (auto simp: bound_holds_def)
  qed
  with v show ?thesis by (auto simp: Contains_iff bound_holds_def)
qed

text \<open>A sign is a digit's neighbour to \<open>strconv.Atoi\<close>: segments such as \<open>+4\<close> and \<open>-0\<close> are read as numbers.\<close>

lemma signed_segments_are_numeric: "parseVersion ''1.+4.-0'' = Some [1, 4, 0]"
  by code_simp

subsection \<open>Narrowing is an intersection\<close>

lemma Allows_iff [simp]: "Allows c capability \<longleftrightarrow> capability \<in> set (entries c)"
  by (auto simp: Allows_def list_ex_iff)

lemma entries_simps [simp]: "entries None = []" "entries (Some xs) = xs"
  by (simp_all add: entries_def)

lemma keep_first: "set (keep_first out cs) = set out \<union> set cs" "distinct out \<Longrightarrow> distinct (keep_first out cs)"
  by (induction out cs rule: keep_first.induct) auto

lemma sort_distinct: "distinct xs \<Longrightarrow> sort xs = sorted_list_of_set (set xs)"
  by (simp add: sorted_list_of_set_sort_remdups distinct_remdups_id)

lemma normalized_entries: "entries (normalized c) = sorted_list_of_set (set (entries c))"
  by (simp add: normalized_def sort_distinct keep_first)

lemma Narrow_entries:
  "entries (Narrow c customer) = sorted_list_of_set (case customer of None \<Rightarrow> set (entries c) | Some xs \<Rightarrow> set (entries c) \<inter> set xs)"
proof (cases customer)
  case (Some xs)
  have "{x \<in> set (entries c). x \<in> set xs} = set (entries c) \<inter> set xs" by blast
  then show ?thesis by (simp add: Some Narrow_def sort_distinct)
qed (simp add: Narrow_def normalized_entries)

lemma Narrow_never_raises: "set (entries (Narrow c customer)) \<subseteq> set (entries c)"
  by (auto simp: Narrow_entries split: option.splits)

end
