(* ===== verification/AgentTrust.thy ===== *)
theory AgentTrust
  imports RuntimeTrust CapabilityPolicy GoCrypto
begin

text \<open>
  \<^verbatim>\<open>internal/agenttrust\<close>: model.go, service.go and manifest.go, the Agent-client trust registry. Clients are registered,
  releases are certified by immutable revisions, and a certification's status is an append-only, hash-chained log; an
  assessment resolves what a presented release may do. The store is an interface, a record of operations; the in-memory
  store keeps its maps as association lists, in an order of the keys that stands for Go's iteration order. Clock and id
  generator are streams. Counters (revision, sequence) are unbounded: the source's are 64 bits wide.
\<close>

datatype trust_error =
    ErrUntrusted | ErrCertificationRejected | ErrInvalidInput | ErrNotFound | ErrRegistryUnavailable | ErrManifestSignatureRejected

type_synonym trust_go_error = "trust_error go_error"

subsection \<open>Clients, certifications and status changes\<close>

definition OriginAstraClaw :: string where "OriginAstraClaw = ''astraclaw''"
definition OriginXiaozhi :: string where "OriginXiaozhi = ''xiaozhi''"

definition certificationStatusHashDomain :: string where
  "certificationStatusHashDomain = ''agentnexus:agent-certification-status:v1:''"

record AgentClient =
  cl_ID :: string
  cl_TenantRef :: string
  cl_Publisher :: string
  cl_Product :: string
  cl_Origin :: string
  cl_EnterpriseRegistered :: bool
  cl_CreatedAt :: time

record Certification =
  cf_ID :: string
  cf_TenantRef :: string
  cf_AgentClientID :: string
  cf_Origin :: string
  cf_Revision :: int
  cf_Binding :: CertificationBinding
  cf_SignedBuildManifest :: bool
  cf_EnterpriseRegistered :: bool
  cf_CertifiedDecisionProvider :: bool
  cf_IssuedAt :: time
  cf_ExpiresAt :: time
  cf_CreatedAt :: time

datatype CertificationStatus = StatusActive | StatusRevoked | StatusExpired | StatusSuperseded | StatusUnknown string

definition status_valid :: "CertificationStatus \<Rightarrow> bool" where
  "status_valid s = (case s of StatusUnknown _ \<Rightarrow> False | _ \<Rightarrow> True)"

definition status_string :: "CertificationStatus \<Rightarrow> string" where
  "status_string s = (case s of StatusActive \<Rightarrow> ''active'' | StatusRevoked \<Rightarrow> ''revoked'' | StatusExpired \<Rightarrow> ''expired''
     | StatusSuperseded \<Rightarrow> ''superseded'' | StatusUnknown v \<Rightarrow> v)"

record StatusChange =
  sc_ID :: string
  sc_TenantRef :: string
  sc_CertificationID :: string
  sc_Status :: CertificationStatus
  sc_Reason :: string
  sc_PrevHash :: string
  sc_EventHash :: string
  sc_Seq :: int
  sc_CreatedAt :: time

text \<open>Every field is preceded by its length in eight bytes.\<close>

definition status_preimage :: "string list \<Rightarrow> string" where
  "status_preimage parts = certificationStatusHashDomain @ concat (map (\<lambda>f. be_bytes 8 (length f) @ f) parts)"

definition hashStatusChange :: "string \<Rightarrow> string \<Rightarrow> CertificationStatus \<Rightarrow> string \<Rightarrow> string \<Rightarrow> string" where
  "hashStatusChange tenantRef certificationID status reason prevHash =
     sha256_hex (status_preimage [tenantRef, certificationID, status_string status, reason, prevHash])"

definition hasControlBytes :: "string \<Rightarrow> bool" where
  "hasControlBytes s = list_ex (\<lambda>c. byte c < 0x20 \<or> byte c = 0x7f) s"

subsection \<open>The store interface\<close>

text \<open>\<open>CreateCertification\<close> receives a generator of status ids: it draws from the same counter as its caller.\<close>

record 'st RegistryOps =
  ro_CreateAgentClient :: "AgentClient \<Rightarrow> (trust_error, 'st, AgentClient) effect"
  ro_GetAgentClient :: "string \<Rightarrow> string \<Rightarrow> string \<Rightarrow> (trust_error, 'st, AgentClient) effect"
  ro_GetAgentClientByID :: "string \<Rightarrow> string \<Rightarrow> (trust_error, 'st, AgentClient) effect"
  ro_GetCertificationByID :: "string \<Rightarrow> string \<Rightarrow> (trust_error, 'st, Certification) effect"
  ro_CreateCertification :: "Certification \<Rightarrow> (nat \<Rightarrow> string) \<Rightarrow> time \<Rightarrow> (trust_error, 'st \<times> nat, Certification) effect"
  ro_ListCertifications :: "string \<Rightarrow> string \<Rightarrow> string \<Rightarrow> (trust_error, 'st, Certification list) effect"
  ro_LatestStatus :: "string \<Rightarrow> string \<Rightarrow> (trust_error, 'st, StatusChange) effect"
  ro_AppendStatus :: "string \<Rightarrow> string \<Rightarrow> CertificationStatus \<Rightarrow> string \<Rightarrow> string \<Rightarrow> time \<Rightarrow> (trust_error, 'st, StatusChange) effect"

subsection \<open>The in-memory store\<close>

record TrustStore =
  ts_clients :: "(string \<times> AgentClient) list"
  ts_certs :: "(string \<times> Certification) list"
  ts_statuses :: "string \<Rightarrow> StatusChange list"
  ts_seq :: int

definition NewTrustStore :: TrustStore where
  "NewTrustStore = \<lparr>ts_clients = [], ts_certs = [], ts_statuses = (\<lambda>_. []), ts_seq = 0\<rparr>"

definition clientKey :: "string \<Rightarrow> string \<Rightarrow> string \<Rightarrow> string" where
  "clientKey tenantRef publisher product = tenantRef @ [CHR 0x00] @ publisher @ [CHR 0x00] @ product"

definition certKey :: "string \<Rightarrow> string \<Rightarrow> string" where
  "certKey tenantRef certificationID = tenantRef @ [CHR 0x00] @ certificationID"

definition tm_CreateAgentClient :: "AgentClient \<Rightarrow> (trust_error, TrustStore, AgentClient) effect" where
  "tm_CreateAgentClient client s =
     (let key = clientKey (cl_TenantRef client) (cl_Publisher client) (cl_Product client);
          client' = (case map_of (ts_clients s) key of None \<Rightarrow> client
                     | Some existing \<Rightarrow> client\<lparr>cl_ID := cl_ID existing, cl_CreatedAt := cl_CreatedAt existing\<rparr>)
      in (Inr client', s\<lparr>ts_clients := AList.update key client' (ts_clients s)\<rparr>))"

definition tm_GetAgentClient :: "string \<Rightarrow> string \<Rightarrow> string \<Rightarrow> (trust_error, TrustStore, AgentClient) effect" where
  "tm_GetAgentClient tenantRef publisher product s =
     (case map_of (ts_clients s) (clientKey tenantRef publisher product) of
        None \<Rightarrow> (Inl (Sentinel ErrNotFound), s) | Some client \<Rightarrow> (Inr client, s))"

definition tm_GetAgentClientByID :: "string \<Rightarrow> string \<Rightarrow> (trust_error, TrustStore, AgentClient) effect" where
  "tm_GetAgentClientByID tenantRef agentClientID s =
     (case find (\<lambda>c. cl_TenantRef c = tenantRef \<and> cl_ID c = agentClientID) (map snd (ts_clients s)) of
        None \<Rightarrow> (Inl (Sentinel ErrNotFound), s) | Some client \<Rightarrow> (Inr client, s))"

definition chained ::
  "string \<Rightarrow> string \<Rightarrow> CertificationStatus \<Rightarrow> string \<Rightarrow> string \<Rightarrow> time \<Rightarrow> TrustStore \<Rightarrow> StatusChange \<times> TrustStore" where
  "chained tenantRef certificationID status reason statusID t s =
     (let log = ts_statuses s (certKey tenantRef certificationID);
          prev = (if log \<noteq> [] then sc_EventHash (last log) else []);
          n = ts_seq s + 1
      in (\<lparr>sc_ID = statusID, sc_TenantRef = tenantRef, sc_CertificationID = certificationID, sc_Status = status,
           sc_Reason = reason, sc_PrevHash = prev, sc_EventHash = hashStatusChange tenantRef certificationID status reason prev,
           sc_Seq = n, sc_CreatedAt = t\<rparr>, s\<lparr>ts_seq := n\<rparr>))"

definition same_product :: "Certification \<Rightarrow> Certification \<Rightarrow> bool" where
  "same_product a b \<longleftrightarrow> cf_TenantRef a = cf_TenantRef b \<and> cb_Publisher (cf_Binding a) = cb_Publisher (cf_Binding b)
     \<and> cb_Product (cf_Binding a) = cb_Product (cf_Binding b)"

definition log_active :: "StatusChange list \<Rightarrow> bool" where
  "log_active log \<longleftrightarrow> log \<noteq> [] \<and> sc_Status (last log) = StatusActive"

fun supersede :: "string list \<Rightarrow> string \<Rightarrow> (nat \<Rightarrow> string) \<Rightarrow> time \<Rightarrow> TrustStore \<times> nat \<Rightarrow> TrustStore \<times> nat" where
  "supersede [] newID statusID t (s, n) = (s, n)"
| "supersede (otherKey # ks) newID statusID t (s, n) =
     (let log = ts_statuses s otherKey; prev = last log;
          (change, s1) = chained (sc_TenantRef prev) (sc_CertificationID prev) StatusSuperseded (''superseded by '' @ newID) (statusID n) t s
      in supersede ks newID statusID t (s1\<lparr>ts_statuses := (ts_statuses s1)(otherKey := log @ [change])\<rparr>, Suc n))"

definition tm_CreateCertification ::
  "Certification \<Rightarrow> (nat \<Rightarrow> string) \<Rightarrow> time \<Rightarrow> (trust_error, TrustStore \<times> nat, Certification) effect" where
  "tm_CreateCertification cert statusID t w =
     (let (s, n) = w; key = certKey (cf_TenantRef cert) (cf_ID cert) in
      if map_of (ts_certs s) key \<noteq> None then (Inl (Sentinel ErrCertificationRejected), w)
      else
        (let others = filter (\<lambda>(k, other). same_product other cert) (ts_certs s);
             maxRevision = foldl (\<lambda>m (k, other). if cf_Revision other > m then cf_Revision other else m) 0 others;
             priorActive = map fst (filter (\<lambda>(k, other). log_active (ts_statuses s k)) others);
             cert' = cert\<lparr>cf_Revision := maxRevision + 1\<rparr>;
             (s1, n1) = supersede priorActive (cf_ID cert) statusID t (s, n);
             s2 = s1\<lparr>ts_certs := ts_certs s1 @ [(key, cert')]\<rparr>;
             (change, s3) = chained (cf_TenantRef cert) (cf_ID cert) StatusActive ''certified'' (statusID n1) t s2
         in (Inr cert', (s3\<lparr>ts_statuses := (ts_statuses s3)(key := [change])\<rparr>, Suc n1))))"

definition tm_GetCertificationByID :: "string \<Rightarrow> string \<Rightarrow> (trust_error, TrustStore, Certification) effect" where
  "tm_GetCertificationByID tenantRef certificationID s =
     (case map_of (ts_certs s) (certKey tenantRef certificationID) of
        None \<Rightarrow> (Inl (Sentinel ErrNotFound), s) | Some cert \<Rightarrow> (Inr cert, s))"

definition of_product :: "string \<Rightarrow> string \<Rightarrow> string \<Rightarrow> Certification \<Rightarrow> bool" where
  "of_product tenantRef publisher product cert \<longleftrightarrow> cf_TenantRef cert = tenantRef
     \<and> cb_Publisher (cf_Binding cert) = publisher \<and> cb_Product (cf_Binding cert) = product"

definition tm_ListCertifications :: "string \<Rightarrow> string \<Rightarrow> string \<Rightarrow> (trust_error, TrustStore, Certification list) effect" where
  "tm_ListCertifications tenantRef publisher product s =
     (Inr (sort_key (\<lambda>c. - cf_Revision c) (filter (of_product tenantRef publisher product) (map snd (ts_certs s)))), s)"

definition tm_LatestStatus :: "string \<Rightarrow> string \<Rightarrow> (trust_error, TrustStore, StatusChange) effect" where
  "tm_LatestStatus tenantRef certificationID s =
     (let log = ts_statuses s (certKey tenantRef certificationID) in
      if log = [] then (Inl (Sentinel ErrNotFound), s) else (Inr (last log), s))"

definition tm_AppendStatus ::
  "string \<Rightarrow> string \<Rightarrow> CertificationStatus \<Rightarrow> string \<Rightarrow> string \<Rightarrow> time \<Rightarrow> (trust_error, TrustStore, StatusChange) effect" where
  "tm_AppendStatus tenantRef certificationID status reason statusID t s =
     (let key = certKey tenantRef certificationID in
      if \<not> status_valid status then (Inl (Sentinel ErrInvalidInput), s)
      else if map_of (ts_certs s) key = None then (Inl (Sentinel ErrNotFound), s)
      else (let (change, s1) = chained tenantRef certificationID status reason statusID t s
            in (Inr change, s1\<lparr>ts_statuses := (ts_statuses s1)(key := ts_statuses s1 key @ [change])\<rparr>)))"

definition memory_registry :: "TrustStore RegistryOps" where
  "memory_registry =
     \<lparr>ro_CreateAgentClient = tm_CreateAgentClient, ro_GetAgentClient = tm_GetAgentClient,
      ro_GetAgentClientByID = tm_GetAgentClientByID, ro_GetCertificationByID = tm_GetCertificationByID,
      ro_CreateCertification = tm_CreateCertification, ro_ListCertifications = tm_ListCertifications,
      ro_LatestStatus = tm_LatestStatus, ro_AppendStatus = tm_AppendStatus\<rparr>"

subsection \<open>The service\<close>

record 'st TrustService =
  rs_store :: "'st RegistryOps option"
  rs_now :: "nat \<Rightarrow> time"
  rs_newID :: "nat \<Rightarrow> string \<Rightarrow> string"

record 'st TrustWorld =
  tw_store :: 'st
  tw_ticks :: nat
  tw_ids :: nat

type_synonym ('st, 'a) registry = "(trust_error, 'st TrustWorld, 'a) effect"

definition on_registry :: "(trust_error, 'st, 'a) effect \<Rightarrow> ('st, 'a) registry" where
  "on_registry m w = (case m (tw_store w) of (r, s) \<Rightarrow> (r, w\<lparr>tw_store := s\<rparr>))"

definition on_registry_ids :: "(trust_error, 'st \<times> nat, 'a) effect \<Rightarrow> ('st, 'a) registry" where
  "on_registry_ids m w = (case m (tw_store w, tw_ids w) of (r, s, n) \<Rightarrow> (r, w\<lparr>tw_store := s, tw_ids := n\<rparr>))"

definition trust_now :: "'st TrustService \<Rightarrow> ('st, time) registry" where
  "trust_now sv w = (Inr (rs_now sv (tw_ticks w)), w\<lparr>tw_ticks := Suc (tw_ticks w)\<rparr>)"

definition trust_newID :: "'st TrustService \<Rightarrow> string \<Rightarrow> ('st, string) registry" where
  "trust_newID sv prefix w = (Inr (rs_newID sv (tw_ids w) prefix), w\<lparr>tw_ids := Suc (tw_ids w)\<rparr>)"

definition with_store :: "'st TrustService \<Rightarrow> ('st RegistryOps \<Rightarrow> ('st, 'a) registry) \<Rightarrow> ('st, 'a) registry" where
  "with_store sv k = (case rs_store sv of None \<Rightarrow> fail (Sentinel ErrRegistryUnavailable) | Some ops \<Rightarrow> k ops)"

definition registry_outage :: "trust_go_error \<Rightarrow> trust_go_error" where
  "registry_outage e = Joined [Sentinel ErrRegistryUnavailable, e]"

definition missing_or_outage :: "trust_go_error \<Rightarrow> trust_go_error" where
  "missing_or_outage e = (if errors_is e ErrNotFound then Sentinel ErrNotFound else registry_outage e)"

definition validOrigin :: "string \<Rightarrow> bool" where
  "validOrigin origin \<longleftrightarrow> origin \<in> {[], OriginAstraClaw, OriginXiaozhi} \<or> canonical origin"

definition isAstraClawOrigin :: "string \<Rightarrow> bool" where
  "isAstraClawOrigin origin \<longleftrightarrow> origin \<in> {OriginAstraClaw, OriginXiaozhi}"

record RegisterInput =
  ri_Publisher :: string
  ri_Product :: string
  ri_Origin :: string
  ri_EnterpriseRegistered :: bool

definition Register :: "'st TrustService \<Rightarrow> string \<Rightarrow> RegisterInput \<Rightarrow> ('st, AgentClient) registry" where
  "Register sv tenantRef inp =
     with_store sv (\<lambda>ops.
     andthen (require (canonical tenantRef \<and> canonical (ri_Publisher inp) \<and> canonical (ri_Product inp) \<and> validOrigin (ri_Origin inp))
        (Sentinel ErrInvalidInput)) (\<lambda>_.
     andthen (trust_newID sv ''agc_'') (\<lambda>clientID.
     andthen (trust_now sv) (\<lambda>t.
     andthen (require (canonical clientID) (Sentinel ErrRegistryUnavailable)) (\<lambda>_.
     on_error registry_outage (on_registry (ro_CreateAgentClient ops
        \<lparr>cl_ID = clientID, cl_TenantRef = tenantRef, cl_Publisher = ri_Publisher inp, cl_Product = ri_Product inp,
         cl_Origin = ri_Origin inp, cl_EnterpriseRegistered = ri_EnterpriseRegistered inp, cl_CreatedAt = t\<rparr>)))))))"

definition ResolveClient :: "'st TrustService \<Rightarrow> string \<Rightarrow> string \<Rightarrow> ('st, AgentClient) registry" where
  "ResolveClient sv tenantRef agentClientID =
     with_store sv (\<lambda>ops.
     andthen (require (canonical tenantRef \<and> canonical agentClientID) (Sentinel ErrInvalidInput)) (\<lambda>_.
     on_error missing_or_outage (on_registry (ro_GetAgentClientByID ops tenantRef agentClientID))))"

definition ResolveCertification :: "'st TrustService \<Rightarrow> string \<Rightarrow> string \<Rightarrow> ('st, Certification) registry" where
  "ResolveCertification sv tenantRef certificationID =
     with_store sv (\<lambda>ops.
     andthen (require (canonical tenantRef \<and> canonical certificationID) (Sentinel ErrInvalidInput)) (\<lambda>_.
     on_error missing_or_outage (on_registry (ro_GetCertificationByID ops tenantRef certificationID))))"

record CertifyInput =
  ci_Publisher :: string
  ci_Product :: string
  ci_VersionRange :: VersionRange
  ci_SigningKey :: SigningKey
  ci_ReleaseManifestDigest :: string
  ci_TrustClass :: TrustClass
  ci_CapabilityCeiling :: CapabilityCeiling
  ci_SignedBuildManifest :: bool
  ci_CertifiedDecisionProvider :: bool
  ci_TTL :: duration

definition binding_of :: "CertifyInput \<Rightarrow> CertificationBinding" where
  "binding_of inp = \<lparr>cb_Publisher = ci_Publisher inp, cb_Product = ci_Product inp, cb_VersionRange = ci_VersionRange inp,
     cb_SigningKey = ci_SigningKey inp, cb_ReleaseManifestDigest = ci_ReleaseManifestDigest inp,
     cb_TrustClass = ci_TrustClass inp, cb_CapabilityCeiling = ci_CapabilityCeiling inp\<rparr>"

definition certification_of :: "string \<Rightarrow> string \<Rightarrow> AgentClient \<Rightarrow> CertifyInput \<Rightarrow> time \<Rightarrow> Certification" where
  "certification_of certID tenantRef client inp t =
     \<lparr>cf_ID = certID, cf_TenantRef = tenantRef, cf_AgentClientID = cl_ID client, cf_Origin = cl_Origin client, cf_Revision = 0,
      cf_Binding = binding_of inp, cf_SignedBuildManifest = ci_SignedBuildManifest inp,
      cf_EnterpriseRegistered = cl_EnterpriseRegistered client, cf_CertifiedDecisionProvider = ci_CertifiedDecisionProvider inp,
      cf_IssuedAt = t, cf_ExpiresAt = t + ci_TTL inp, cf_CreatedAt = t\<rparr>"

definition Certify :: "'st TrustService \<Rightarrow> string \<Rightarrow> CertifyInput \<Rightarrow> ('st, Certification) registry" where
  "Certify sv tenantRef inp =
     with_store sv (\<lambda>ops.
     andthen (require (canonical tenantRef \<and> ci_TTL inp > 0) (Sentinel ErrInvalidInput)) (\<lambda>_.
     andthen (check (map_option (\<lambda>e. Joined [Sentinel ErrCertificationRejected, Invalid e])
        (CertificationBinding_Validate (binding_of inp)))) (\<lambda>_.
     andthen (require (ci_SignedBuildManifest inp)
        (Joined [Sentinel ErrCertificationRejected, Message ''a signed build manifest is required''])) (\<lambda>_.
     andthen (on_error (\<lambda>e. if errors_is e ErrNotFound
                            then Joined [Sentinel ErrCertificationRejected, Message ''agent client is not registered'']
                            else registry_outage e)
        (on_registry (ro_GetAgentClient ops tenantRef (ci_Publisher inp) (ci_Product inp)))) (\<lambda>client.
     andthen (require (ci_TrustClass inp = TrustFirstParty \<longrightarrow> cl_EnterpriseRegistered client)
        (Joined [Sentinel ErrCertificationRejected, Message ''first-party status requires enterprise registration''])) (\<lambda>_.
     andthen (trust_now sv) (\<lambda>t.
     andthen (trust_newID sv ''cert_'') (\<lambda>certID.
     andthen (require (canonical certID) (Sentinel ErrRegistryUnavailable)) (\<lambda>_.
     on_error (\<lambda>e. if errors_is e ErrCertificationRejected then e else registry_outage e)
        (on_registry_ids (ro_CreateCertification ops (certification_of certID tenantRef client inp t)
           (\<lambda>n. rs_newID sv n ''cst_'') t)))))))))))"

definition Revoke :: "'st TrustService \<Rightarrow> string \<Rightarrow> string \<Rightarrow> string \<Rightarrow> ('st, StatusChange) registry" where
  "Revoke sv tenantRef certificationID reason =
     with_store sv (\<lambda>ops.
     andthen (require (canonical tenantRef \<and> canonical certificationID \<and> \<not> hasControlBytes reason) (Sentinel ErrInvalidInput)) (\<lambda>_.
     andthen (trust_newID sv ''cst_'') (\<lambda>statusID.
     andthen (trust_now sv) (\<lambda>t.
     on_error missing_or_outage
        (on_registry (ro_AppendStatus ops tenantRef certificationID StatusRevoked reason statusID t))))))"

subsection \<open>Assessing a release\<close>

record Release =
  rl_Publisher :: string
  rl_Product :: string
  rl_Version :: string
  rl_SigningKeyID :: string
  rl_ReleaseManifestDigest :: string
  rl_Origin :: string

record AssessRequest =
  rq_Release :: Release
  rq_Capability :: string
  rq_SideEffect :: bool
  rq_CustomerCeiling :: CapabilityCeiling

record Assessment =
  as_TrustClass :: TrustClass
  as_Granted :: bool
  as_SideEffectAllowed :: bool
  as_Reason :: string
  as_EffectiveCeiling :: CapabilityCeiling

text \<open>The certification's binding covers the release, and it has not expired.\<close>

definition covers :: "Certification \<Rightarrow> Release \<Rightarrow> time \<Rightarrow> bool" where
  "covers cert release t \<longleftrightarrow> VersionRange_Contains (cb_VersionRange (cf_Binding cert)) (rl_Version release)
     \<and> sk_KeyID (cb_SigningKey (cf_Binding cert)) = rl_SigningKeyID release
     \<and> cb_ReleaseManifestDigest (cf_Binding cert) = rl_ReleaseManifestDigest release
     \<and> t < cf_ExpiresAt cert"

fun first_active :: "'st RegistryOps \<Rightarrow> string \<Rightarrow> Release \<Rightarrow> time \<Rightarrow> Certification list \<Rightarrow> ('st, Certification option) registry" where
  "first_active ops tenantRef release t [] = ret None"
| "first_active ops tenantRef release t (cert # certs) =
     (if \<not> covers cert release t then first_active ops tenantRef release t certs
      else andthen (on_error registry_outage (on_registry (ro_LatestStatus ops tenantRef (cf_ID cert)))) (\<lambda>latest.
           if sc_Status latest \<noteq> StatusActive then first_active ops tenantRef release t certs else ret (Some cert)))"

definition activeCertification ::
  "'st TrustService \<Rightarrow> 'st RegistryOps \<Rightarrow> string \<Rightarrow> Release \<Rightarrow> ('st, Certification option) registry" where
  "activeCertification sv ops tenantRef release =
     (if \<not> canonical (rl_Publisher release) \<or> \<not> canonical (rl_Product release) then ret None
      else
        andthen (on_error registry_outage (on_registry (ro_ListCertifications ops tenantRef (rl_Publisher release) (rl_Product release))))
          (\<lambda>certs. andthen (trust_now sv) (\<lambda>t. first_active ops tenantRef release t certs)))"

definition stripConnectorCapabilities :: "CapabilityCeiling \<Rightarrow> CapabilityCeiling" where
  "stripConnectorCapabilities ceiling = Some (filter (\<lambda>c. \<not> IsConnectorCapability c) (entries ceiling))"

text \<open>\<open>append([]string(nil), xs...)\<close> is nil for an empty slice.\<close>

definition copied :: "CapabilityCeiling \<Rightarrow> CapabilityCeiling" where
  "copied c = (if entries c = [] then None else Some (entries c))"

definition untrusted_assessment :: "AssessRequest \<Rightarrow> Assessment" where
  "untrusted_assessment req = \<lparr>as_TrustClass = TrustUntrusted,
     as_Granted = (\<not> rq_SideEffect req \<and> Allows (rq_CustomerCeiling req) (rq_Capability req)),
     as_SideEffectAllowed = False, as_Reason = ''no active certification'', as_EffectiveCeiling = copied (rq_CustomerCeiling req)\<rparr>"

definition effective_ceiling :: "Certification \<Rightarrow> bool \<Rightarrow> CapabilityCeiling \<Rightarrow> CapabilityCeiling" where
  "effective_ceiling cert astraClaw customer =
     (let ceiling = cb_CapabilityCeiling (cf_Binding cert) in
      Narrow (if astraClaw then stripConnectorCapabilities ceiling else ceiling) customer)"

definition side_effect_permitted :: "Certification \<Rightarrow> bool" where
  "side_effect_permitted cert = (case cb_TrustClass (cf_Binding cert) of
      TrustFirstParty \<Rightarrow> True | TrustCertifiedThirdParty \<Rightarrow> cf_CertifiedDecisionProvider cert | _ \<Rightarrow> False)"

definition certified_assessment :: "Certification \<Rightarrow> bool \<Rightarrow> AssessRequest \<Rightarrow> Assessment" where
  "certified_assessment cert astraClaw req =
     (let effective = effective_ceiling cert astraClaw (rq_CustomerCeiling req);
          within = Allows effective (rq_Capability req);
          permitted = side_effect_permitted cert
      in if rq_SideEffect req
         then \<lparr>as_TrustClass = cb_TrustClass (cf_Binding cert), as_Granted = (within \<and> permitted), as_SideEffectAllowed = (within \<and> permitted),
               as_Reason = (if \<not> within then ''capability outside effective ceiling''
                            else if \<not> permitted then ''side effect requires a certified decision provider'' else ''granted''),
               as_EffectiveCeiling = effective\<rparr>
         else \<lparr>as_TrustClass = cb_TrustClass (cf_Binding cert), as_Granted = within, as_SideEffectAllowed = False,
               as_Reason = (if within then ''read granted'' else ''capability outside effective ceiling''),
               as_EffectiveCeiling = effective\<rparr>)"

definition Assess :: "'st TrustService \<Rightarrow> string \<Rightarrow> AssessRequest \<Rightarrow> ('st, Assessment) registry" where
  "Assess sv tenantRef req =
     with_store sv (\<lambda>ops.
     andthen (require (canonical tenantRef \<and> canonical (rq_Capability req)) (Sentinel ErrInvalidInput)) (\<lambda>_.
     andthen (activeCertification sv ops tenantRef (rq_Release req)) (\<lambda>found.
     case found of None \<Rightarrow> ret (untrusted_assessment req)
     | Some cert \<Rightarrow>
         andthen (attempt (on_registry (ro_GetAgentClient ops tenantRef (rl_Publisher (rq_Release req)) (rl_Product (rq_Release req))))) (\<lambda>looked.
         let astraClaw = isAstraClawOrigin (cf_Origin cert) \<or> isAstraClawOrigin (rl_Origin (rq_Release req))
               \<or> (case looked of Inl _ \<Rightarrow> False | Inr client \<Rightarrow> isAstraClawOrigin (cl_Origin client))
         in ret (certified_assessment cert astraClaw req)))))"

subsection \<open>Build manifests\<close>

definition ed25519_PublicKeySize :: nat where "ed25519_PublicKeySize = 32"
definition ed25519_SignatureSize :: nat where "ed25519_SignatureSize = 64"

definition decoded_length :: "string option \<Rightarrow> nat \<Rightarrow> bool" where
  "decoded_length d n = (case d of None \<Rightarrow> False | Some bs \<Rightarrow> length bs = n)"

definition VerifyBuildManifestSignature :: "ed25519 \<Rightarrow> SigningKey \<Rightarrow> string \<Rightarrow> Signature \<Rightarrow> trust_go_error option" where
  "VerifyBuildManifestSignature ed key releaseManifestDigest signature = first_error
     [map_option (\<lambda>e. Joined [Sentinel ErrManifestSignatureRejected, Invalid e]) (SigningKey_Validate key),
      map_option (\<lambda>e. Joined [Sentinel ErrManifestSignatureRejected, Invalid e]) (Signature_Validate signature),
      map_option (\<lambda>e. Joined [Sentinel ErrManifestSignatureRejected, Invalid e]) (ValidateSHA256Ref releaseManifestDigest),
      fail_if (sig_KeyID signature \<noteq> sk_KeyID key)
        (Joined [Sentinel ErrManifestSignatureRejected, Message ''signature key_id does not match the certified signing key'']),
      fail_if (sig_Algorithm signature \<noteq> SignatureAlgorithmEd25519 \<or> sk_Algorithm key \<noteq> SignatureAlgorithmEd25519)
        (Joined [Sentinel ErrManifestSignatureRejected, Message ''only ed25519 is a frozen v1 signature algorithm'']),
      fail_if (\<not> decoded_length (b64_decode ed (sk_PublicKey key)) ed25519_PublicKeySize)
        (Joined [Sentinel ErrManifestSignatureRejected, Message ''signing key is not a base64 ed25519 public key'']),
      fail_if (\<not> decoded_length (b64_decode ed (sig_Value signature)) ed25519_SignatureSize)
        (Joined [Sentinel ErrManifestSignatureRejected, Message ''signature is not a base64 ed25519 signature'']),
      fail_if (\<not> ed_verify ed (the (b64_decode ed (sk_PublicKey key))) releaseManifestDigest (the (b64_decode ed (sig_Value signature))))
        (Joined [Sentinel ErrManifestSignatureRejected, Message ''signature does not verify against the certified signing key''])]"

end
