(* ===== verification/AgentTrustLaws.thy ===== *)
theory AgentTrustLaws
  imports AgentTrust
begin

text \<open>
  What the trust registry promises. The store interface is a locale whose laws speak of three views of a state (the client
  registered under a name, the certifications, the status log of each); the service's invariants are proved once over those
  laws, and the in-memory store is an interpretation. Every status log is a chain that starts active, is superseded at most
  once and stays revoked once revoked; a product has at most one active certification, its newest; and an assessment grants
  only what an earned certification and the customer's narrowing allow.
\<close>

subsection \<open>Status logs\<close>

text \<open>The next change of a log: it points at the hash of the log's end and carries the hash of its own fields.\<close>

definition linked :: "StatusChange list \<Rightarrow> StatusChange \<Rightarrow> bool" where
  "linked lg ch \<longleftrightarrow> sc_PrevHash ch = (if lg = [] then [] else sc_EventHash (last lg))
     \<and> sc_EventHash ch = hashStatusChange (sc_TenantRef ch) (sc_CertificationID ch) (sc_Status ch) (sc_Reason ch) (sc_PrevHash ch)"

definition names :: "StatusChange \<Rightarrow> Certification \<Rightarrow> bool" where
  "names ch c \<longleftrightarrow> sc_TenantRef ch = cf_TenantRef c \<and> sc_CertificationID ch = cf_ID c"

inductive chain :: "Certification \<Rightarrow> StatusChange list \<Rightarrow> bool" for c where
  first: "linked [] ch \<Longrightarrow> names ch c \<Longrightarrow> sc_Status ch = StatusActive \<Longrightarrow> chain c [ch]"
| more: "chain c lg \<Longrightarrow> linked lg ch \<Longrightarrow> names ch c \<Longrightarrow> sc_Status ch \<noteq> StatusActive \<Longrightarrow> chain c (lg @ [ch])"

inductive_cases chain_snocE: "chain c (lg @ [ch])"

text \<open>The life of a certification: active, perhaps superseded, and revoked for good once revoked.\<close>

definition lifecycle_ok :: "CertificationStatus list \<Rightarrow> bool" where
  "lifecycle_ok ss = (case ss of StatusActive # StatusSuperseded # rest \<Rightarrow> list_all (\<lambda>s. s = StatusRevoked) rest
     | StatusActive # rest \<Rightarrow> list_all (\<lambda>s. s = StatusRevoked) rest | _ \<Rightarrow> False)"

lemma lifecycle_revoked: "lifecycle_ok ss \<Longrightarrow> lifecycle_ok (ss @ [StatusRevoked])"
  by (auto simp: lifecycle_ok_def split: list.splits CertificationStatus.splits)

lemma all_revoked_last: "list_all (\<lambda>s. s = StatusRevoked) rest \<Longrightarrow> rest \<noteq> [] \<Longrightarrow> last rest = StatusRevoked"
  by (induction rest) auto

lemma lifecycle_active:
  assumes "lifecycle_ok ss"
  shows "last ss = StatusActive \<longleftrightarrow> ss = [StatusActive]"
  using assms by (auto simp: lifecycle_ok_def dest: all_revoked_last split: list.splits CertificationStatus.splits if_splits)

lemma lifecycle_superseded: "lifecycle_ok ss \<Longrightarrow> last ss = StatusActive \<Longrightarrow> lifecycle_ok (ss @ [StatusSuperseded])"
  using lifecycle_active[of ss] by (simp add: lifecycle_ok_def)

lemma chain_nonempty: "chain c lg \<Longrightarrow> lg \<noteq> []"
  by (induction rule: chain.induct) auto

subsection \<open>Well-standing certifications\<close>

definition well_standing :: "Certification set \<Rightarrow> (Certification \<Rightarrow> StatusChange list) \<Rightarrow> bool" where
  "well_standing C L \<longleftrightarrow> (\<forall>c \<in> C. chain c (L c) \<and> lifecycle_ok (map sc_Status (L c))
     \<and> (\<forall>d \<in> C. same_product d c \<longrightarrow> (cf_Revision d = cf_Revision c \<longrightarrow> d = c) \<and> (log_active (L c) \<longrightarrow> cf_Revision d \<le> cf_Revision c)))"

text \<open>A certification \<open>c'\<close> joins: newest of its product, with a fresh log; the active ones of the product are superseded.\<close>

definition issues ::
  "Certification set \<Rightarrow> (Certification \<Rightarrow> StatusChange list) \<Rightarrow> Certification \<Rightarrow> (Certification \<Rightarrow> StatusChange list) \<Rightarrow> bool" where
  "issues C L c' L' \<longleftrightarrow> c' \<notin> C \<and> (\<forall>d \<in> C. same_product d c' \<longrightarrow> cf_Revision d < cf_Revision c')
     \<and> (\<exists>ch. linked [] ch \<and> names ch c' \<and> sc_Status ch = StatusActive \<and> L' c' = [ch])
     \<and> (\<forall>d \<in> C. if same_product d c' \<and> log_active (L d)
                then \<exists>ch. linked (L d) ch \<and> names ch d \<and> sc_Status ch = StatusSuperseded \<and> L' d = L d @ [ch]
                else L' d = L d)"

definition appends ::
  "Certification set \<Rightarrow> (Certification \<Rightarrow> StatusChange list) \<Rightarrow> Certification \<Rightarrow> StatusChange \<Rightarrow> (Certification \<Rightarrow> StatusChange list) \<Rightarrow> bool" where
  "appends C L c ch L' \<longleftrightarrow> c \<in> C \<and> linked (L c) ch \<and> names ch c \<and> L' c = L c @ [ch] \<and> (\<forall>d \<in> C. d \<noteq> c \<longrightarrow> L' d = L d)"

lemma same_product_sym: "same_product a b \<longleftrightarrow> same_product b a"
  and same_product_trans: "same_product a b \<Longrightarrow> same_product b c \<Longrightarrow> same_product a c"
  and same_product_refl [simp]: "same_product a a"
  by (auto simp: same_product_def)

lemma log_active_snoc [simp]: "log_active (lg @ [ch]) \<longleftrightarrow> sc_Status ch = StatusActive"
  by (simp add: log_active_def)

lemma standing_issue:
  assumes ws: "well_standing C L" and iss: "issues C L c' L'"
  shows "well_standing (insert c' C) L'"
proof -
  obtain ch where new: "linked [] ch" "names ch c'" "sc_Status ch = StatusActive" "L' c' = [ch]" using iss by (auto simp: issues_def)
  have rev: "cf_Revision d < cf_Revision c'" if "d \<in> C" "same_product d c'" for d using iss that by (auto simp: issues_def)
  have old: "chain d (L' d) \<and> lifecycle_ok (map sc_Status (L' d))
      \<and> (log_active (L' d) \<longrightarrow> \<not> same_product d c' \<and> log_active (L d))" if d: "d \<in> C" for d
  proof -
    have dd: "chain d (L d)" "lifecycle_ok (map sc_Status (L d))" using ws d by (auto simp: well_standing_def)
    show ?thesis
    proof (cases "same_product d c' \<and> log_active (L d)")
      case True
      then obtain x where x: "linked (L d) x" "names x d" "sc_Status x = StatusSuperseded" "L' d = L d @ [x]"
        using iss d unfolding issues_def by (metis (no_types, lifting))
      have "last (map sc_Status (L d)) = StatusActive" using True by (simp add: log_active_def last_map)
      from lifecycle_superseded[OF dd(2) this] x dd(1) show ?thesis by (auto intro: chain.more)
    next
      case False
      then have "L' d = L d" using iss d unfolding issues_def by (metis (no_types, lifting))
      with False dd show ?thesis by auto
    qed
  qed
  have fresh: "chain c' (L' c')" "lifecycle_ok (map sc_Status (L' c'))" using new by (auto intro: chain.first simp: lifecycle_ok_def)
  have pairs: "cf_Revision d = cf_Revision c \<Longrightarrow> d = c" "log_active (L' c) \<Longrightarrow> cf_Revision d \<le> cf_Revision c"
    if h: "c \<in> insert c' C" "d \<in> insert c' C" "same_product d c" for c d
  proof -
    consider "c = c'" "d = c'" | "c = c'" "d \<in> C" | "c \<in> C" "d = c'" | "c \<in> C" "d \<in> C" using h by blast
    then have "(cf_Revision d = cf_Revision c \<longrightarrow> d = c) \<and> (log_active (L' c) \<longrightarrow> cf_Revision d \<le> cf_Revision c)"
    proof cases
      case 2
      with rev[of d] h show ?thesis by auto
    next
      case 3
      with rev[of c] old[of c] h show ?thesis by (auto simp: same_product_sym)
    next
      case 4
      with ws old[of c] h show ?thesis unfolding well_standing_def by blast
    qed simp
    then show "cf_Revision d = cf_Revision c \<Longrightarrow> d = c" "log_active (L' c) \<Longrightarrow> cf_Revision d \<le> cf_Revision c" by auto
  qed
  show ?thesis unfolding well_standing_def using fresh old pairs by blast
qed

lemma standing_revoke:
  assumes ws: "well_standing C L" and ap: "appends C L c ch L'" and st: "sc_Status ch = StatusRevoked"
  shows "well_standing C L'"
proof -
  have logs: "chain d (L' d) \<and> lifecycle_ok (map sc_Status (L' d)) \<and> (log_active (L' d) \<longrightarrow> log_active (L d))" if d: "d \<in> C" for d
  proof (cases "d = c")
    case True
    with ws ap st d show ?thesis by (auto simp: appends_def well_standing_def intro: chain.more lifecycle_revoked)
  next
    case False
    with ap d have "L' d = L d" by (simp add: appends_def)
    with ws d show ?thesis by (simp add: well_standing_def)
  qed
  with ws show ?thesis unfolding well_standing_def by blast
qed

lemma standing_cong: "well_standing C L \<Longrightarrow> \<forall>c \<in> C. L' c = L c \<Longrightarrow> well_standing C L'"
  by (simp add: well_standing_def)

lemma one_active:
  assumes "well_standing C L" and "c \<in> C" and "d \<in> C" and "same_product c d" and "log_active (L c)" and "log_active (L d)"
  shows "c = d"
proof -
  have "cf_Revision d \<le> cf_Revision c" "cf_Revision c \<le> cf_Revision d"
    using assms unfolding well_standing_def by (metis same_product_sym)+
  then have "cf_Revision c = cf_Revision d" by simp
  with assms show ?thesis unfolding well_standing_def by metis
qed

subsection \<open>The store's contract\<close>

definition plain :: "string \<Rightarrow> string \<Rightarrow> string \<Rightarrow> bool" where
  "plain t p q \<longleftrightarrow> nul_free t \<and> nul_free p \<and> nul_free q"

definition kept_identity :: "AgentClient \<Rightarrow> AgentClient \<Rightarrow> bool" where
  "kept_identity c c' \<longleftrightarrow> c' = c\<lparr>cl_ID := cl_ID c', cl_CreatedAt := cl_CreatedAt c'\<rparr>"

locale trust_registry =
  fixes ops :: "'st RegistryOps"
    and client :: "'st \<Rightarrow> string \<Rightarrow> string \<Rightarrow> string \<Rightarrow> AgentClient option"
    and certs :: "'st \<Rightarrow> Certification set"
    and log :: "'st \<Rightarrow> Certification \<Rightarrow> StatusChange list"
    and wf :: "'st \<Rightarrow> bool"
  assumes create_client: "wf s \<Longrightarrow> plain (cl_TenantRef cl) (cl_Publisher cl) (cl_Product cl) \<Longrightarrow> ro_CreateAgentClient ops cl s = (r, s') \<Longrightarrow>
      wf s' \<and> certs s' = certs s \<and> log s' = log s \<and> (\<exists>cl'. r = Inr cl' \<and> kept_identity cl cl'
      \<and> (\<forall>t p q. client s' t p q = (if (t, p, q) = (cl_TenantRef cl, cl_Publisher cl, cl_Product cl) then Some cl' else client s t p q)))"
    and get_client: "plain t p q \<Longrightarrow> ro_GetAgentClient ops t p q s =
      (case client s t p q of None \<Rightarrow> (Inl (Sentinel ErrNotFound), s) | Some cl \<Rightarrow> (Inr cl, s))"
    and reads: "snd (ro_GetAgentClientByID ops t i s) = s" "snd (ro_GetCertificationByID ops t i s) = s"
      "snd (ro_GetAgentClient ops t p q s) = s"
    and lists: "wf s \<Longrightarrow> ro_ListCertifications ops t p q s = (rs, s') \<Longrightarrow> s' = s \<and> (\<exists>cs. rs = Inr cs \<and> set cs = {c \<in> certs s. of_product t p q c})"
    and latest: "wf s \<Longrightarrow> c \<in> certs s \<Longrightarrow> log s c \<noteq> [] \<and> ro_LatestStatus ops (cf_TenantRef c) (cf_ID c) s = (Inr (last (log s c)), s)"
    and keyed: "wf s \<Longrightarrow> c \<in> certs s \<Longrightarrow> d \<in> certs s \<Longrightarrow> cf_TenantRef c = cf_TenantRef d \<Longrightarrow> cf_ID c = cf_ID d \<Longrightarrow> c = d"
    and create_cert: "wf s \<Longrightarrow> nul_free (cf_TenantRef cert) \<Longrightarrow> ro_CreateCertification ops cert ids now (s, n) = (rc, s', n') \<Longrightarrow>
      wf s' \<and> client s' = client s
      \<and> (case rc of Inl e \<Rightarrow> s' = s
         | Inr c' \<Rightarrow> c' = cert\<lparr>cf_Revision := cf_Revision c'\<rparr> \<and> 0 < cf_Revision c' \<and> certs s' = insert c' (certs s) \<and> issues (certs s) (log s) c' (log s'))"
    and append_status: "wf s \<Longrightarrow> nul_free t \<Longrightarrow> ro_AppendStatus ops t i st reason sid at s = (ra, s') \<Longrightarrow>
      wf s' \<and> client s' = client s \<and> certs s' = certs s
      \<and> (case ra of Inl e \<Rightarrow> s' = s
         | Inr ch \<Rightarrow> sc_Status ch = st \<and> (\<exists>c. cf_TenantRef c = t \<and> cf_ID c = i \<and> appends (certs s) (log s) c ch (log s')))"

subsection \<open>Calls\<close>

datatype registry_call =
    CallRegister string RegisterInput
  | CallResolveClient string string
  | CallResolveCertification string string
  | CallCertify string CertifyInput
  | CallRevoke string string string
  | CallAssess string AssessRequest

fun registry_serve :: "'st TrustService \<Rightarrow> registry_call \<Rightarrow> 'st TrustWorld \<Rightarrow> 'st TrustWorld" where
  "registry_serve sv (CallRegister t inp) w = snd (Register sv t inp w)"
| "registry_serve sv (CallResolveClient t i) w = snd (ResolveClient sv t i w)"
| "registry_serve sv (CallResolveCertification t i) w = snd (ResolveCertification sv t i w)"
| "registry_serve sv (CallCertify t inp) w = snd (Certify sv t inp w)"
| "registry_serve sv (CallRevoke t i reason) w = snd (Revoke sv t i reason w)"
| "registry_serve sv (CallAssess t req) w = snd (Assess sv t req w)"

definition registry_run :: "'st TrustService \<Rightarrow> registry_call list \<Rightarrow> 'st TrustWorld \<Rightarrow> 'st TrustWorld" where
  "registry_run sv cs w = fold (registry_serve sv) cs w"

text \<open>Calls whose names hold no NUL byte, so that the composite keys of the store keep them apart.\<close>

fun plain_call :: "registry_call \<Rightarrow> bool" where
  "plain_call (CallRegister t inp) \<longleftrightarrow> plain t (ri_Publisher inp) (ri_Product inp)"
| "plain_call (CallResolveClient t i) \<longleftrightarrow> True"
| "plain_call (CallResolveCertification t i) \<longleftrightarrow> True"
| "plain_call (CallCertify t inp) \<longleftrightarrow> plain t (ci_Publisher inp) (ci_Product inp)"
| "plain_call (CallRevoke t i reason) \<longleftrightarrow> nul_free t"
| "plain_call (CallAssess t req) \<longleftrightarrow> plain t (rl_Publisher (rq_Release req)) (rl_Product (rq_Release req))"

text \<open>What a stored certification was issued for: a call that certified its binding with an attested build manifest, for a
  client some call had registered; first-party status only where that call registered the client with the enterprise.\<close>

definition registered_as :: "registry_call set \<Rightarrow> string \<Rightarrow> string \<Rightarrow> string \<Rightarrow> string \<Rightarrow> bool \<Rightarrow> bool" where
  "registered_as Cs t p q origin enterprise \<longleftrightarrow> (\<exists>inp. CallRegister t inp \<in> Cs \<and> ri_Publisher inp = p \<and> ri_Product inp = q
     \<and> ri_Origin inp = origin \<and> ri_EnterpriseRegistered inp = enterprise)"

definition earned :: "registry_call set \<Rightarrow> Certification \<Rightarrow> bool" where
  "earned Cs c \<longleftrightarrow> (\<exists>inp. CallCertify (cf_TenantRef c) inp \<in> Cs \<and> cf_Binding c = binding_of inp \<and> ci_SignedBuildManifest inp
       \<and> cf_CertifiedDecisionProvider c = ci_CertifiedDecisionProvider inp)
     \<and> (\<exists>enterprise. registered_as Cs (cf_TenantRef c) (cb_Publisher (cf_Binding c)) (cb_Product (cf_Binding c)) (cf_Origin c) enterprise
          \<and> (cb_TrustClass (cf_Binding c) = TrustFirstParty \<longrightarrow> enterprise))"

text \<open>The shape every stored certification has.\<close>

definition well_typed :: "Certification \<Rightarrow> bool" where
  "well_typed c \<longleftrightarrow> canonical (cf_ID c) \<and> canonical (cf_TenantRef c) \<and> CertificationBinding_Validate (cf_Binding c) = None
     \<and> validOrigin (cf_Origin c) \<and> cf_SignedBuildManifest c \<and> 0 < cf_Revision c \<and> cf_IssuedAt c < cf_ExpiresAt c
     \<and> (cb_TrustClass (cf_Binding c) = TrustFirstParty \<longrightarrow> cf_EnterpriseRegistered c)"

lemma wp_on_registry [wp_simps]:
  "wp (on_registry m) Q E w \<longleftrightarrow> wp m (\<lambda>a s. Q a (w\<lparr>tw_store := s\<rparr>)) (\<lambda>e s. E e (w\<lparr>tw_store := s\<rparr>)) (tw_store w)"
  by (auto simp: wp_def on_registry_def split: prod.splits sum.splits)

lemma wp_on_registry_ids [wp_simps]:
  "wp (on_registry_ids m) Q E w \<longleftrightarrow>
     wp m (\<lambda>a (s, n). Q a (w\<lparr>tw_store := s, tw_ids := n\<rparr>)) (\<lambda>e (s, n). E e (w\<lparr>tw_store := s, tw_ids := n\<rparr>)) (tw_store w, tw_ids w)"
  by (auto simp: wp_def on_registry_ids_def split: prod.splits sum.splits)

lemma wp_trust_now [wp_simps]: "wp (trust_now sv) Q E w \<longleftrightarrow> Q (rs_now sv (tw_ticks w)) (w\<lparr>tw_ticks := Suc (tw_ticks w)\<rparr>)"
  by (simp add: wp_def trust_now_def)

lemma wp_trust_newID [wp_simps]: "wp (trust_newID sv pre) Q E w \<longleftrightarrow> Q (rs_newID sv (tw_ids w) pre) (w\<lparr>tw_ids := Suc (tw_ids w)\<rparr>)"
  by (simp add: wp_def trust_newID_def)

lemma same_store [simp]: "(w\<lparr>tw_store := tw_store w\<rparr> :: 'st TrustWorld) = w"
  by simp

context trust_registry
begin

definition clients_registered :: "registry_call set \<Rightarrow> 'st \<Rightarrow> bool" where
  "clients_registered Cs s \<longleftrightarrow> (\<forall>t p q c. client s t p q = Some c
     \<longrightarrow> validOrigin (cl_Origin c) \<and> registered_as Cs t p q (cl_Origin c) (cl_EnterpriseRegistered c))"

definition registry_ok :: "registry_call set \<Rightarrow> 'st \<Rightarrow> bool" where
  "registry_ok Cs s \<longleftrightarrow> wf s \<and> clients_registered Cs s \<and> well_standing (certs s) (log s) \<and> (\<forall>c \<in> certs s. earned Cs c \<and> well_typed c)"

lemma first_active_reads:
  assumes "wf (tw_store w)" and "set cs \<subseteq> certs (tw_store w)" and "\<forall>c \<in> set cs. cf_TenantRef c = t"
  shows "first_active ops t rel at cs w = (Inr r, w') \<Longrightarrow> w' = w \<and> (case r of None \<Rightarrow> \<forall>c \<in> set cs. covers c rel at \<longrightarrow> \<not> log_active (log (tw_store w) c)
     | Some c \<Rightarrow> c \<in> set cs \<and> covers c rel at \<and> log_active (log (tw_store w) c))"
    and "\<exists>r. first_active ops t rel at cs w = (Inr r, w)"
proof -
  have "\<exists>r. first_active ops t rel at cs w = (Inr r, w) \<and> (case r of None \<Rightarrow> \<forall>c \<in> set cs. covers c rel at \<longrightarrow> \<not> log_active (log (tw_store w) c)
     | Some c \<Rightarrow> c \<in> set cs \<and> covers c rel at \<and> log_active (log (tw_store w) c))"
    using assms
  proof (induction cs)
    case (Cons c cs)
    then obtain r where r: "first_active ops t rel at cs w = (Inr r, w)" "case r of None \<Rightarrow> \<forall>c \<in> set cs. covers c rel at \<longrightarrow> \<not> log_active (log (tw_store w) c)
       | Some c \<Rightarrow> c \<in> set cs \<and> covers c rel at \<and> log_active (log (tw_store w) c)" by auto
    have l: "log (tw_store w) c \<noteq> []" "ro_LatestStatus ops t (cf_ID c) (tw_store w) = (Inr (last (log (tw_store w) c)), tw_store w)"
      using latest[of "tw_store w" c] Cons.prems by auto
    have st: "on_error registry_outage (on_registry (ro_LatestStatus ops t (cf_ID c))) w = (Inr (last (log (tw_store w) c)), w)"
      by (simp add: on_error_def on_registry_def l)
    show ?case using r l(1) by (cases r) (auto simp: st log_active_def)
  qed simp
  then show "first_active ops t rel at cs w = (Inr r, w') \<Longrightarrow> w' = w \<and> (case r of None \<Rightarrow> \<forall>c \<in> set cs. covers c rel at \<longrightarrow> \<not> log_active (log (tw_store w) c)
     | Some c \<Rightarrow> c \<in> set cs \<and> covers c rel at \<and> log_active (log (tw_store w) c))"
    and "\<exists>r. first_active ops t rel at cs w = (Inr r, w)" by auto
qed

lemma registry_ok_reads: "tw_store w' = tw_store w \<Longrightarrow> registry_ok Cs (tw_store w) \<Longrightarrow> registry_ok Cs (tw_store w')"
  by simp

lemma keeps_read: "snd (m s) = s \<Longrightarrow> wp m (\<lambda>_ s'. P s') (\<lambda>_ s'. P s') s \<longleftrightarrow> P s"
  by (auto simp: wp_def split: prod.splits sum.splits)

lemma wp_get_client:
  "plain t p q \<Longrightarrow> wp (ro_GetAgentClient ops t p q) Q E s \<longleftrightarrow> (case client s t p q of None \<Rightarrow> E (Sentinel ErrNotFound) s | Some c \<Rightarrow> Q c s)"
  by (simp add: wp_def get_client split: option.splits)

lemma Register_ok:
  assumes sv: "rs_store sv = Some ops" and ok: "registry_ok Cs (tw_store w)"
    and c: "CallRegister t inp \<in> Cs" "plain t (ri_Publisher inp) (ri_Product inp)"
  shows "wp (Register sv t inp) (\<lambda>_ w'. registry_ok Cs (tw_store w')) (\<lambda>_ w'. registry_ok Cs (tw_store w')) w"
proof -
  have "registry_ok Cs s'" if cr: "ro_CreateAgentClient ops cl (tw_store w) = (r, s')"
    and cl: "cl_TenantRef cl = t" "cl_Publisher cl = ri_Publisher inp" "cl_Product cl = ri_Product inp" "cl_Origin cl = ri_Origin inp"
      "cl_EnterpriseRegistered cl = ri_EnterpriseRegistered inp" "validOrigin (ri_Origin inp)" for cl r s'
  proof -
    have wf: "wf (tw_store w)" using ok by (simp add: registry_ok_def)
    obtain cl' where st: "wf s'" "certs s' = certs (tw_store w)" "log s' = log (tw_store w)" "kept_identity cl cl'"
      "\<forall>t p q. client s' t p q = (if (t, p, q) = (cl_TenantRef cl, cl_Publisher cl, cl_Product cl) then Some cl' else client (tw_store w) t p q)"
      using create_client[OF wf _ cr] c(2) cl by auto
    have "cl_Origin cl' = cl_Origin cl" "cl_EnterpriseRegistered cl' = cl_EnterpriseRegistered cl"
      using st(4) by (metis kept_identity_def AgentClient.simps(5,6) AgentClient.update_convs AgentClient.ext_inject AgentClient.surjective)+
    then have "clients_registered Cs s'"
      using ok c(1) cl st(5) unfolding registry_ok_def clients_registered_def registered_as_def by (auto split: if_splits)
    with ok st(1-3) show ?thesis by (simp add: registry_ok_def)
  qed
  then show ?thesis
    using ok by (auto simp: Register_def with_store_def sv wp_simps intro!: wpI)
qed

lemma Certify_ok:
  assumes sv: "rs_store sv = Some ops" and ok: "registry_ok Cs (tw_store w)"
    and c: "CallCertify t inp \<in> Cs" "plain t (ci_Publisher inp) (ci_Product inp)"
  shows "wp (Certify sv t inp) (\<lambda>_ w'. registry_ok Cs (tw_store w')) (\<lambda>_ w'. registry_ok Cs (tw_store w')) w"
proof -
  have wf: "wf (tw_store w)" using ok by (simp add: registry_ok_def)
  have step: "registry_ok Cs s'"
    if cr: "ro_CreateCertification ops (certification_of i t cl inp at) ids at (tw_store w, n) = (r, s', n')"
      and cl: "client (tw_store w) t (ci_Publisher inp) (ci_Product inp) = Some cl"
      and val: "CertificationBinding_Validate (binding_of inp) = None" "ci_SignedBuildManifest inp"
        "ci_TrustClass inp = TrustFirstParty \<longrightarrow> cl_EnterpriseRegistered cl" "canonical i" "canonical t" "0 < ci_TTL inp" for i cl at ids n r s' n'
  proof -
    have st: "wf s'" "client s' = client (tw_store w)" "case r of Inl e \<Rightarrow> s' = tw_store w | Inr c' \<Rightarrow>
        c' = (certification_of i t cl inp at)\<lparr>cf_Revision := cf_Revision c'\<rparr> \<and> 0 < cf_Revision c' \<and> certs s' = insert c' (certs (tw_store w))
        \<and> issues (certs (tw_store w)) (log (tw_store w)) c' (log s')"
      using create_cert[OF wf _ cr] c(2) by (simp_all add: plain_def certification_of_def)
    show ?thesis
    proof (cases r)
      case (Inl e)
      with st(3) ok show ?thesis by simp
    next
      case (Inr c')
      then have c': "c' = (certification_of i t cl inp at)\<lparr>cf_Revision := cf_Revision c'\<rparr>" "0 < cf_Revision c'" "certs s' = insert c' (certs (tw_store w))"
        "issues (certs (tw_store w)) (log (tw_store w)) c' (log s')" using st(3) by auto
      have fields: "cf_TenantRef c' = t" "cf_Binding c' = binding_of inp" "cf_Origin c' = cl_Origin cl"
        "cf_CertifiedDecisionProvider c' = ci_CertifiedDecisionProvider inp" "cf_ID c' = i" "cf_SignedBuildManifest c' = ci_SignedBuildManifest inp"
        "cf_EnterpriseRegistered c' = cl_EnterpriseRegistered cl" "cf_IssuedAt c' = at" "cf_ExpiresAt c' = at + ci_TTL inp"
        by (subst c'(1), simp add: certification_of_def)+
      have "registered_as Cs t (ci_Publisher inp) (ci_Product inp) (cl_Origin cl) (cl_EnterpriseRegistered cl)"
        using ok cl by (simp add: registry_ok_def clients_registered_def)
      then have "earned Cs c'"
        unfolding earned_def fields using c(1) val by (auto simp: binding_of_def)
      moreover have "validOrigin (cl_Origin cl)" using ok cl by (simp add: registry_ok_def clients_registered_def)
      then have "well_typed c'"
        unfolding well_typed_def fields using val c'(2) by (simp add: binding_of_def)
      moreover have "well_standing (certs s') (log s')"
        unfolding c'(3) using ok c'(4) by (auto simp: registry_ok_def intro: standing_issue)
      moreover have "clients_registered Cs s'" using ok st(2) by (simp add: registry_ok_def clients_registered_def)
      ultimately show ?thesis using ok st(1) by (simp add: registry_ok_def c'(3))
    qed
  qed
  have create: "wp (ro_CreateCertification ops (certification_of i t cl inp at) ids at)
      (\<lambda>_ (s', n'). registry_ok Cs s') (\<lambda>_ (s', n'). registry_ok Cs s') (tw_store w, n)"
    if "client (tw_store w) t (ci_Publisher inp) (ci_Product inp) = Some cl" "CertificationBinding_Validate (binding_of inp) = None"
      "ci_SignedBuildManifest inp" "ci_TrustClass inp = TrustFirstParty \<longrightarrow> cl_EnterpriseRegistered cl" "canonical i" "canonical t" "0 < ci_TTL inp" for i cl at ids n
    by (rule wpI; clarify; rule step[OF _ that])
  show ?thesis
    using ok create c(2)
    by (auto simp: Certify_def with_store_def sv wp_simps wp_get_client case_prod_beta split: option.splits)
qed

lemma Revoke_ok:
  assumes sv: "rs_store sv = Some ops" and ok: "registry_ok Cs (tw_store w)" and t: "nul_free t"
  shows "wp (Revoke sv t i reason) (\<lambda>_ w'. registry_ok Cs (tw_store w')) (\<lambda>_ w'. registry_ok Cs (tw_store w')) w"
proof -
  have wf: "wf (tw_store w)" using ok by (simp add: registry_ok_def)
  have "registry_ok Cs s'" if ap: "ro_AppendStatus ops t i StatusRevoked reason sid at (tw_store w) = (r, s')" for sid at r s'
  proof (cases r)
    case (Inl e)
    with append_status[OF wf t ap] ok show ?thesis by simp
  next
    case (Inr ch)
    from append_status[OF wf t ap] Inr obtain c where "wf s'" "client s' = client (tw_store w)" "certs s' = certs (tw_store w)"
      "sc_Status ch = StatusRevoked" "appends (certs (tw_store w)) (log (tw_store w)) c ch (log s')" by auto
    with ok show ?thesis by (auto simp: registry_ok_def clients_registered_def intro: standing_revoke)
  qed
  then have "wp (ro_AppendStatus ops t i StatusRevoked reason sid at) (\<lambda>_ s'. registry_ok Cs s') (\<lambda>_ s'. registry_ok Cs s') (tw_store w)" for sid at
    by (blast intro: wpI)
  with ok show ?thesis by (simp add: Revoke_def with_store_def sv wp_simps)
qed

lemma activeCertification_reads:
  assumes "wf (tw_store w)"
  obtains r w' where "activeCertification sv ops t rel w = (Inr r, w')" and "tw_store w' = tw_store w"
    and "case r of None \<Rightarrow> canonical (rl_Publisher rel) \<longrightarrow> canonical (rl_Product rel) \<longrightarrow>
           (\<forall>c \<in> certs (tw_store w). of_product t (rl_Publisher rel) (rl_Product rel) c \<longrightarrow> covers c rel (rs_now sv (tw_ticks w)) \<longrightarrow> \<not> log_active (log (tw_store w) c))
         | Some c \<Rightarrow> c \<in> certs (tw_store w) \<and> of_product t (rl_Publisher rel) (rl_Product rel) c \<and> covers c rel (rs_now sv (tw_ticks w))
           \<and> log_active (log (tw_store w) c)"
proof (cases "canonical (rl_Publisher rel) \<and> canonical (rl_Product rel)")
  case False
  then show thesis by (intro that[of None w]) (auto simp: activeCertification_def)
next
  case True
  obtain cs where cs: "ro_ListCertifications ops t (rl_Publisher rel) (rl_Product rel) (tw_store w) = (Inr cs, tw_store w)"
    "set cs = {c \<in> certs (tw_store w). of_product t (rl_Publisher rel) (rl_Product rel) c}"
    using lists[OF assms, of t "rl_Publisher rel" "rl_Product rel"]
    by (cases "ro_ListCertifications ops t (rl_Publisher rel) (rl_Product rel) (tw_store w)") auto
  let ?at = "rs_now sv (tw_ticks w)" and ?w = "w\<lparr>tw_ticks := Suc (tw_ticks w)\<rparr>"
  have pre: "wf (tw_store ?w)" "set cs \<subseteq> certs (tw_store ?w)" "\<forall>c \<in> set cs. cf_TenantRef c = t"
    using assms cs(2) by (simp_all add: of_product_def)
  from first_active_reads(2)[OF pre] obtain r where r: "first_active ops t rel ?at cs ?w = (Inr r, ?w)" by blast
  have run: "activeCertification sv ops t rel w = (Inr r, ?w)"
    using True cs(1) r by (simp add: activeCertification_def andthen_def on_error_def on_registry_def trust_now_def)
  have "case r of None \<Rightarrow> \<forall>c \<in> set cs. covers c rel ?at \<longrightarrow> \<not> log_active (log (tw_store w) c)
     | Some c \<Rightarrow> c \<in> set cs \<and> covers c rel ?at \<and> log_active (log (tw_store w) c)"
    using first_active_reads(1)[OF pre r] by (cases r) simp_all
  with cs(2) show thesis by (intro that[OF run]) (auto split: option.splits)
qed

definition live_astraclaw :: "'st \<Rightarrow> string \<Rightarrow> Release \<Rightarrow> bool" where
  "live_astraclaw s t rel = (case client s t (rl_Publisher rel) (rl_Product rel) of None \<Rightarrow> False | Some c \<Rightarrow> isAstraClawOrigin (cl_Origin c))"

lemma Assess_reads:
  assumes sv: "rs_store sv = Some ops" and wf: "wf (tw_store w)" and p: "plain t (rl_Publisher (rq_Release req)) (rl_Product (rq_Release req))"
  obtains (rejected) e where "Assess sv t req w = (Inl e, w)" and "\<not> (canonical t \<and> canonical (rq_Capability req))"
    | (untrusted) w' where "Assess sv t req w = (Inr (untrusted_assessment req), w')" and "tw_store w' = tw_store w"
        and "canonical (rl_Publisher (rq_Release req)) \<longrightarrow> canonical (rl_Product (rq_Release req)) \<longrightarrow>
           (\<forall>c \<in> certs (tw_store w). of_product t (rl_Publisher (rq_Release req)) (rl_Product (rq_Release req)) c
              \<longrightarrow> covers c (rq_Release req) (rs_now sv (tw_ticks w)) \<longrightarrow> \<not> log_active (log (tw_store w) c))"
    | (certified) c w' where "Assess sv t req w = (Inr (certified_assessment c
             (isAstraClawOrigin (cf_Origin c) \<or> isAstraClawOrigin (rl_Origin (rq_Release req)) \<or> live_astraclaw (tw_store w) t (rq_Release req)) req), w')"
        and "tw_store w' = tw_store w" and "c \<in> certs (tw_store w)" and "of_product t (rl_Publisher (rq_Release req)) (rl_Product (rq_Release req)) c"
        and "covers c (rq_Release req) (rs_now sv (tw_ticks w))" and "log_active (log (tw_store w) c)"
proof (cases "canonical t \<and> canonical (rq_Capability req)")
  case False
  then show thesis by (intro rejected[of "Sentinel ErrInvalidInput"]) (auto simp: Assess_def with_store_def sv require_def)
next
  case True
  from activeCertification_reads[OF wf, of sv t "rq_Release req"] obtain r w' where r:
    "activeCertification sv ops t (rq_Release req) w = (Inr r, w')" "tw_store w' = tw_store w"
    "case r of None \<Rightarrow> canonical (rl_Publisher (rq_Release req)) \<longrightarrow> canonical (rl_Product (rq_Release req)) \<longrightarrow>
           (\<forall>c \<in> certs (tw_store w). of_product t (rl_Publisher (rq_Release req)) (rl_Product (rq_Release req)) c
              \<longrightarrow> covers c (rq_Release req) (rs_now sv (tw_ticks w)) \<longrightarrow> \<not> log_active (log (tw_store w) c))
         | Some c \<Rightarrow> c \<in> certs (tw_store w) \<and> of_product t (rl_Publisher (rq_Release req)) (rl_Product (rq_Release req)) c
           \<and> covers c (rq_Release req) (rs_now sv (tw_ticks w)) \<and> log_active (log (tw_store w) c)" .
  have run: "Assess sv t req w = (case r of None \<Rightarrow> ret (untrusted_assessment req)
     | Some cert \<Rightarrow> andthen (attempt (on_registry (ro_GetAgentClient ops t (rl_Publisher (rq_Release req)) (rl_Product (rq_Release req))))) (\<lambda>looked.
         let astraClaw = isAstraClawOrigin (cf_Origin cert) \<or> isAstraClawOrigin (rl_Origin (rq_Release req))
               \<or> (case looked of Inl _ \<Rightarrow> False | Inr client \<Rightarrow> isAstraClawOrigin (cl_Origin client))
         in ret (certified_assessment cert astraClaw req))) w'"
    using True r(1) by (cases r) (simp_all add: Assess_def with_store_def sv Let_def)
  show thesis
  proof (cases r)
    case None
    with run r(2,3) show thesis by (intro untrusted[of w']) simp_all
  next
    case (Some c)
    have live: "attempt (on_registry (ro_GetAgentClient ops t (rl_Publisher (rq_Release req)) (rl_Product (rq_Release req)))) w'
       = (Inr (case client (tw_store w) t (rl_Publisher (rq_Release req)) (rl_Product (rq_Release req)) of None \<Rightarrow> Inl (Sentinel ErrNotFound) | Some c \<Rightarrow> Inr c), w')"
      using get_client[OF p, of "tw_store w"] r(2) by (simp add: attempt_def on_registry_def split: option.splits)
    have "Assess sv t req w = (Inr (certified_assessment c
             (isAstraClawOrigin (cf_Origin c) \<or> isAstraClawOrigin (rl_Origin (rq_Release req)) \<or> live_astraclaw (tw_store w) t (rq_Release req)) req), w')"
      unfolding run Some by (simp add: live live_astraclaw_def split: option.splits)
    with r(2,3) Some show thesis by (intro certified[of c w']) simp_all
  qed
qed

lemma Assess_store:
  assumes "rs_store sv = Some ops" and "wf (tw_store w)" and "plain t (rl_Publisher (rq_Release req)) (rl_Product (rq_Release req))"
  shows "tw_store (snd (Assess sv t req w)) = tw_store w"
  by (rule Assess_reads[OF assms]; simp)

lemma serve_ok:
  assumes sv: "rs_store sv = Some ops" and ok: "registry_ok Cs (tw_store w)" and c: "c \<in> Cs" "plain_call c"
  shows "registry_ok Cs (tw_store (registry_serve sv c w))"
proof (cases c)
  case (CallRegister t inp)
  with Register_ok[OF sv ok] c show ?thesis by (simp add: wp_state)
next
  case (CallCertify t inp)
  with Certify_ok[OF sv ok] c show ?thesis by (simp add: wp_state)
next
  case (CallRevoke t i reason)
  with Revoke_ok[OF sv ok] c show ?thesis by (simp add: wp_state)
next
  case (CallAssess t req)
  have "wf (tw_store w)" using ok by (simp add: registry_ok_def)
  from Assess_store[OF sv this, of t req] c CallAssess ok show ?thesis by simp
next
  case (CallResolveClient t i)
  have "wp (ResolveClient sv t i) (\<lambda>_ w'. registry_ok Cs (tw_store w')) (\<lambda>_ w'. registry_ok Cs (tw_store w')) w"
    using ok by (simp add: ResolveClient_def with_store_def sv wp_simps keeps_read[OF reads(1), where P = "\<lambda>s. registry_ok Cs s"])
  with CallResolveClient show ?thesis by (simp add: wp_state)
next
  case (CallResolveCertification t i)
  have "wp (ResolveCertification sv t i) (\<lambda>_ w'. registry_ok Cs (tw_store w')) (\<lambda>_ w'. registry_ok Cs (tw_store w')) w"
    using ok by (simp add: ResolveCertification_def with_store_def sv wp_simps keeps_read[OF reads(2), where P = "\<lambda>s. registry_ok Cs s"])
  with CallResolveCertification show ?thesis by (simp add: wp_state)
qed

lemma run_ok:
  assumes "rs_store sv = Some ops" and "registry_ok Cs (tw_store w)" and "set cs \<subseteq> Cs" and "\<forall>c \<in> set cs. plain_call c"
  shows "registry_ok Cs (tw_store (registry_run sv cs w))"
  using assms(2-) unfolding registry_run_def by (induction cs arbitrary: w) (auto simp: serve_ok[OF assms(1)])

end

subsection \<open>The in-memory store\<close>

definition tm_client :: "TrustStore \<Rightarrow> string \<Rightarrow> string \<Rightarrow> string \<Rightarrow> AgentClient option" where
  "tm_client s t p q = (if plain t p q then map_of (ts_clients s) (clientKey t p q) else None)"

definition tm_certs :: "TrustStore \<Rightarrow> Certification set" where
  "tm_certs s = snd ` set (ts_certs s)"

definition cert_key :: "Certification \<Rightarrow> string" where
  "cert_key c = certKey (cf_TenantRef c) (cf_ID c)"

definition tm_log :: "TrustStore \<Rightarrow> Certification \<Rightarrow> StatusChange list" where
  "tm_log s c = ts_statuses s (cert_key c)"

definition tm_wf :: "TrustStore \<Rightarrow> bool" where
  "tm_wf s \<longleftrightarrow> distinct (map fst (ts_certs s))
     \<and> (\<forall>(k, c) \<in> set (ts_certs s). k = cert_key c \<and> nul_free (cf_TenantRef c) \<and> ts_statuses s k \<noteq> [] \<and> names (last (ts_statuses s k)) c)
     \<and> (\<forall>k. k \<notin> fst ` set (ts_certs s) \<longrightarrow> ts_statuses s k = [])"

lemma clientKey_inject [simp]:
  assumes "plain t p q" and "plain t' p' q'"
  shows "clientKey t p q = clientKey t' p' q' \<longleftrightarrow> t = t' \<and> p = p' \<and> q = q'"
  using assms nul_separated[of t t'] nul_separated[of p p'] by (auto simp: clientKey_def plain_def)

lemma certKey_inject:
  assumes "nul_free t" and "nul_free t'"
  shows "certKey t i = certKey t' i' \<longleftrightarrow> t = t' \<and> i = i'"
  unfolding certKey_def by (rule nul_separated[OF assms])

lemma tm_wf_key: "tm_wf s \<Longrightarrow> (k, c) \<in> set (ts_certs s) \<Longrightarrow> k = cert_key c \<and> nul_free (cf_TenantRef c) \<and> ts_statuses s k \<noteq> [] \<and> names (last (ts_statuses s k)) c"
  by (auto simp: tm_wf_def)

lemma tm_certs_key: "tm_wf s \<Longrightarrow> c \<in> tm_certs s \<longleftrightarrow> (cert_key c, c) \<in> set (ts_certs s)"
  using tm_wf_key by (force simp: tm_certs_def)

lemma tm_certs_inj: "tm_wf s \<Longrightarrow> c \<in> tm_certs s \<Longrightarrow> d \<in> tm_certs s \<Longrightarrow> cert_key c = cert_key d \<Longrightarrow> c = d"
  using distinct_fst_inj[of "ts_certs s" "cert_key c" c d] by (simp add: tm_certs_key) (simp add: tm_wf_def)

lemma chained_linked:
  "chained t i st reason sid at s = (ch, s') \<Longrightarrow> linked (ts_statuses s (certKey t i)) ch \<and> sc_TenantRef ch = t \<and> sc_CertificationID ch = i \<and> sc_Status ch = st
     \<and> s' = s\<lparr>ts_seq := ts_seq s + 1\<rparr>"
  by (auto simp: chained_def Let_def linked_def split: if_splits)

lemma supersede_logs:
  assumes "distinct ks"
    and "\<forall>k \<in> set ks. ts_statuses s k \<noteq> [] \<and> certKey (sc_TenantRef (last (ts_statuses s k))) (sc_CertificationID (last (ts_statuses s k))) = k"
    and "supersede ks i ids at (s, n) = (s', n')"
  shows "ts_clients s' = ts_clients s" and "ts_certs s' = ts_certs s" and "k \<notin> set ks \<Longrightarrow> ts_statuses s' k = ts_statuses s k"
    and "k \<in> set ks \<Longrightarrow> \<exists>ch. linked (ts_statuses s k) ch \<and> sc_TenantRef ch = sc_TenantRef (last (ts_statuses s k))
        \<and> sc_CertificationID ch = sc_CertificationID (last (ts_statuses s k)) \<and> sc_Status ch = StatusSuperseded \<and> ts_statuses s' k = ts_statuses s k @ [ch]"
  using assms
proof (atomize(full), induction ks arbitrary: s n)
  case (Cons k0 ks)
  let ?prev = "last (ts_statuses s k0)"
  obtain ch s1 where ch: "chained (sc_TenantRef ?prev) (sc_CertificationID ?prev) StatusSuperseded (''superseded by '' @ i) (ids n) at s = (ch, s1)"
    by (cases "chained (sc_TenantRef ?prev) (sc_CertificationID ?prev) StatusSuperseded (''superseded by '' @ i) (ids n) at s")
  have l: "linked (ts_statuses s k0) ch" "sc_TenantRef ch = sc_TenantRef ?prev" "sc_CertificationID ch = sc_CertificationID ?prev"
    "sc_Status ch = StatusSuperseded" "s1 = s\<lparr>ts_seq := ts_seq s + 1\<rparr>"
    using chained_linked[OF ch] Cons.prems by auto
  define s2 where "s2 = s1\<lparr>ts_statuses := (ts_statuses s1)(k0 := ts_statuses s k0 @ [ch])\<rparr>"
  have run: "supersede ks i ids at (s2, Suc n) = (s', n')" using Cons.prems ch by (simp add: s2_def)
  have s2: "ts_clients s2 = ts_clients s" "ts_certs s2 = ts_certs s" "ts_statuses s2 = (ts_statuses s)(k0 := ts_statuses s k0 @ [ch])"
    by (simp_all add: s2_def l(5))
  have "\<forall>k \<in> set ks. ts_statuses s2 k \<noteq> [] \<and> certKey (sc_TenantRef (last (ts_statuses s2 k))) (sc_CertificationID (last (ts_statuses s2 k))) = k"
    using Cons.prems by (auto simp: s2)
  with Cons.IH[of s2 "Suc n"] run Cons.prems(1) l(1-4) show ?case by (auto simp: s2)
qed simp

lemma tm_create_client:
  assumes "tm_wf s" and "plain (cl_TenantRef cl) (cl_Publisher cl) (cl_Product cl)" and "tm_CreateAgentClient cl s = (r, s')"
  shows "tm_wf s' \<and> tm_certs s' = tm_certs s \<and> tm_log s' = tm_log s \<and> (\<exists>cl'. r = Inr cl' \<and> kept_identity cl cl'
      \<and> (\<forall>t p q. tm_client s' t p q = (if (t, p, q) = (cl_TenantRef cl, cl_Publisher cl, cl_Product cl) then Some cl' else tm_client s t p q)))"
proof -
  obtain cl' where r: "r = Inr cl'" "kept_identity cl cl'"
    "s' = s\<lparr>ts_clients := AList.update (clientKey (cl_TenantRef cl) (cl_Publisher cl) (cl_Product cl)) cl' (ts_clients s)\<rparr>"
    using assms(3) by (auto simp: tm_CreateAgentClient_def kept_identity_def Let_def split: option.splits)
  have "tm_client s' t p q = (if (t, p, q) = (cl_TenantRef cl, cl_Publisher cl, cl_Product cl) then Some cl' else tm_client s t p q)" for t p q
    using assms(2) by (auto simp: tm_client_def r(3))
  with r assms(1) show ?thesis by (auto simp: tm_wf_def tm_certs_def tm_log_def fun_eq_iff)
qed

lemma active_priors:
  assumes "tm_wf s"
    and ks_def: "ks = map fst (filter (\<lambda>(k, d). log_active (ts_statuses s k)) (filter (\<lambda>(k, d). same_product d cert) (ts_certs s)))"
  shows "distinct ks"
    and "\<forall>k \<in> set ks. ts_statuses s k \<noteq> [] \<and> certKey (sc_TenantRef (last (ts_statuses s k))) (sc_CertificationID (last (ts_statuses s k))) = k"
    and "d \<in> tm_certs s \<Longrightarrow> cert_key d \<in> set ks \<longleftrightarrow> same_product d cert \<and> log_active (tm_log s d)"
proof -
  have d: "distinct (map fst (ts_certs s))" using assms(1) by (simp add: tm_wf_def)
  show "distinct ks" unfolding ks_def by (intro distinct_map_filter d)
  show "\<forall>k \<in> set ks. ts_statuses s k \<noteq> [] \<and> certKey (sc_TenantRef (last (ts_statuses s k))) (sc_CertificationID (last (ts_statuses s k))) = k"
    using tm_wf_key[OF assms(1)] by (fastforce simp: ks_def cert_key_def names_def)
  show "cert_key d \<in> set ks \<longleftrightarrow> same_product d cert \<and> log_active (tm_log s d)" if dd: "d \<in> tm_certs s"
  proof -
    have in_s: "(cert_key d, d) \<in> set (ts_certs s)" using dd tm_certs_key[OF assms(1)] by blast
    have "c = d" if "(cert_key d, c) \<in> set (ts_certs s)" for c using distinct_fst_inj[OF d in_s that] by simp
    moreover have "cert_key d \<in> set ks \<longleftrightarrow> (\<exists>c. (cert_key d, c) \<in> set (ts_certs s) \<and> same_product c cert \<and> log_active (ts_statuses s (cert_key d)))"
      unfolding ks_def by (force simp: image_iff)
    ultimately show ?thesis using in_s unfolding tm_log_def by blast
  qed
qed

lemma newest: "cf_Revision d \<le> foldl (\<lambda>m (k, other). if cf_Revision other > m then cf_Revision other else m) m0 xs"
  if "d \<in> snd ` set xs \<or> cf_Revision d \<le> m0" for m0
  using that
proof (induction xs arbitrary: m0)
  case (Cons x xs)
  then show ?case by (cases x) (auto split: if_splits)
qed simp

lemma tm_create_cert:
  assumes wf: "tm_wf s" and nul: "nul_free (cf_TenantRef cert)" and run: "tm_CreateCertification cert ids at (s, n) = (r, s', n')"
  shows "tm_wf s' \<and> tm_client s' = tm_client s
      \<and> (case r of Inl e \<Rightarrow> s' = s
         | Inr c' \<Rightarrow> c' = cert\<lparr>cf_Revision := cf_Revision c'\<rparr> \<and> 0 < cf_Revision c' \<and> tm_certs s' = insert c' (tm_certs s) \<and> issues (tm_certs s) (tm_log s) c' (tm_log s'))"
proof (cases "map_of (ts_certs s) (cert_key cert) = None")
  case False
  with run wf show ?thesis by (auto simp: tm_CreateCertification_def cert_key_def Let_def)
next
  case True
  define others where "others = filter (\<lambda>(k, d). same_product d cert) (ts_certs s)"
  define top where "top = foldl (\<lambda>m (k, other). if cf_Revision other > m then cf_Revision other else m) 0 others"
  define ks where "ks = map fst (filter (\<lambda>(k, d). log_active (ts_statuses s k)) others)"
  define c' where "c' = cert\<lparr>cf_Revision := top + 1\<rparr>"
  obtain s1 n1 where s1: "supersede ks (cf_ID cert) ids at (s, n) = (s1, n1)" by (cases "supersede ks (cf_ID cert) ids at (s, n)")
  obtain ch s3 where ch: "chained (cf_TenantRef cert) (cf_ID cert) StatusActive ''certified'' (ids n1) at (s1\<lparr>ts_certs := ts_certs s1 @ [(cert_key cert, c')]\<rparr>) = (ch, s3)"
    by (cases "chained (cf_TenantRef cert) (cf_ID cert) StatusActive ''certified'' (ids n1) at (s1\<lparr>ts_certs := ts_certs s1 @ [(cert_key cert, c')]\<rparr>)")
  note priors = active_priors[OF wf ks_def[unfolded others_def]]
  note sup = supersede_logs[OF priors(1,2) s1]
  have r: "r = Inr c'" "s' = s3\<lparr>ts_statuses := (ts_statuses s3)(cert_key cert := [ch])\<rparr>"
    using run True s1 ch by (auto simp: tm_CreateCertification_def cert_key_def Let_def others_def[symmetric] top_def[symmetric] ks_def[symmetric] c'_def[symmetric])
  have key: "cert_key c' = cert_key cert" "cf_TenantRef c' = cf_TenantRef cert" by (simp_all add: c'_def cert_key_def)
  have fresh: "cert_key cert \<notin> fst ` set (ts_certs s)" using True by (simp add: map_of_eq_None_iff)
  then have new: "cert_key cert \<notin> set ks" "ts_statuses s (cert_key cert) = []" using wf by (auto simp: ks_def others_def tm_wf_def)
  have l: "linked [] ch" "names ch c'" "sc_Status ch = StatusActive" "s3 = s1\<lparr>ts_certs := ts_certs s @ [(cert_key cert, c')], ts_seq := ts_seq s1 + 1\<rparr>"
    using chained_linked[OF ch] sup(3)[OF new(1)] new(2) sup(2) by (simp_all add: names_def key c'_def cert_key_def[symmetric])
  have st: "ts_certs s' = ts_certs s @ [(cert_key cert, c')]" "ts_clients s' = ts_clients s" "ts_statuses s' = (ts_statuses s1)(cert_key cert := [ch])"
    by (simp_all add: r(2) l(4) sup(1))
  have logs: "if same_product d c' \<and> log_active (tm_log s d)
      then \<exists>x. linked (tm_log s d) x \<and> names x d \<and> sc_Status x = StatusSuperseded \<and> tm_log s' d = tm_log s d @ [x] else tm_log s' d = tm_log s d"
    if d: "d \<in> tm_certs s" for d
  proof -
    have in_s: "(cert_key d, d) \<in> set (ts_certs s)" using d tm_certs_key[OF wf] by blast
    then have ne: "cert_key d \<noteq> cert_key cert" using fresh by force
    have prod: "same_product d c' = same_product d cert" by (simp add: same_product_def c'_def)
    have nm: "names (last (ts_statuses s (cert_key d))) d" using tm_wf_key[OF wf in_s] by blast
    show ?thesis
    proof (cases "cert_key d \<in> set ks")
      case True
      with priors(3)[OF d] prod have "same_product d c' \<and> log_active (tm_log s d)" by simp
      moreover from sup(4)[OF True] nm ne
      have "\<exists>x. linked (tm_log s d) x \<and> names x d \<and> sc_Status x = StatusSuperseded \<and> tm_log s' d = tm_log s d @ [x]"
        by (auto simp: tm_log_def st names_def)
      ultimately show ?thesis by simp
    next
      case False
      with priors(3)[OF d] prod have "\<not> (same_product d c' \<and> log_active (tm_log s d))" by simp
      moreover have "tm_log s' d = tm_log s d" using sup(3)[OF False] ne by (simp add: tm_log_def st)
      ultimately show ?thesis by simp
    qed
  qed
  have top: "cf_Revision d < cf_Revision c'" if "d \<in> tm_certs s" "same_product d c'" for d
  proof -
    have "d \<in> snd ` set others" using that by (force simp: others_def tm_certs_def same_product_def c'_def)
    then have "cf_Revision d \<le> top" unfolding top_def by (intro newest) blast
    then show ?thesis by (simp add: c'_def)
  qed
  have "0 \<le> top" using newest[of "cert\<lparr>cf_Revision := 0\<rparr>" others 0] by (simp add: top_def)
  then have pos: "0 < cf_Revision c'" by (simp add: c'_def)
  have fresh': "c' \<notin> tm_certs s" using fresh tm_certs_key[OF wf, of c'] by (force simp: key)
  have "tm_wf s'"
    unfolding tm_wf_def
  proof (intro conjI)
    show "distinct (map fst (ts_certs s'))" using wf fresh by (simp add: st tm_wf_def)
    show "\<forall>(k, c) \<in> set (ts_certs s'). k = cert_key c \<and> nul_free (cf_TenantRef c) \<and> ts_statuses s' k \<noteq> [] \<and> names (last (ts_statuses s' k)) c"
    proof clarify
      fix k d assume kd: "(k, d) \<in> set (ts_certs s')"
      show "k = cert_key d \<and> nul_free (cf_TenantRef d) \<and> ts_statuses s' k \<noteq> [] \<and> names (last (ts_statuses s' k)) d"
      proof (cases "(k, d) \<in> set (ts_certs s)")
        case True
        note w = tm_wf_key[OF wf True]
        then have "d \<in> tm_certs s" using True tm_certs_key[OF wf] by auto
        from logs[OF this] w show ?thesis by (auto simp: tm_log_def split: if_splits)
      next
        case False
        with kd have "k = cert_key cert" "d = c'" by (auto simp: st)
        then show ?thesis using l(2) nul by (simp add: key st)
      qed
    qed
    have "ts_statuses s1 k = []" if "k \<notin> fst ` set (ts_certs s)" for k
    proof -
      have "k \<notin> set ks" using that by (auto simp: ks_def others_def)
      from sup(3)[OF this] that wf show ?thesis by (simp add: tm_wf_def)
    qed
    then show "\<forall>k. k \<notin> fst ` set (ts_certs s') \<longrightarrow> ts_statuses s' k = []" by (simp add: st)
  qed
  moreover have "tm_client s' = tm_client s" by (simp add: tm_client_def st fun_eq_iff)
  moreover have "tm_certs s' = insert c' (tm_certs s)" by (auto simp: tm_certs_def st)
  moreover have "tm_log s' c' = [ch]" by (simp add: tm_log_def st key)
  ultimately show ?thesis
    using r(1) logs top fresh' l(1-3) pos by (auto simp: issues_def c'_def)
qed

lemma tm_append_status:
  assumes wf: "tm_wf s" and t: "nul_free t" and run: "tm_AppendStatus t i st reason sid at s = (r, s')"
  shows "tm_wf s' \<and> tm_client s' = tm_client s \<and> tm_certs s' = tm_certs s
      \<and> (case r of Inl e \<Rightarrow> s' = s
         | Inr ch \<Rightarrow> sc_Status ch = st \<and> (\<exists>c. cf_TenantRef c = t \<and> cf_ID c = i \<and> appends (tm_certs s) (tm_log s) c ch (tm_log s')))"
proof (cases "status_valid st \<and> map_of (ts_certs s) (certKey t i) \<noteq> None")
  case False
  with run wf show ?thesis by (auto simp: tm_AppendStatus_def Let_def split: if_splits)
next
  case True
  then obtain c where in_s: "(certKey t i, c) \<in> set (ts_certs s)" by (auto dest: map_of_SomeD)
  note w = tm_wf_key[OF wf in_s]
  then have c: "cf_TenantRef c = t" "cf_ID c = i" "cert_key c = certKey t i" using certKey_inject[OF t] by (auto simp: cert_key_def)
  obtain ch s1 where ch: "chained t i st reason sid at s = (ch, s1)" by (cases "chained t i st reason sid at s")
  note l = chained_linked[OF ch]
  have s': "r = Inr ch" "ts_certs s' = ts_certs s" "ts_clients s' = ts_clients s"
    "ts_statuses s' = (ts_statuses s)(certKey t i := ts_statuses s (certKey t i) @ [ch])"
    using run True ch l by (auto simp: tm_AppendStatus_def Let_def)
  have cm: "c \<in> tm_certs s" using in_s tm_certs_key[OF wf] c(3) by simp
  have "appends (tm_certs s) (tm_log s) c ch (tm_log s')"
  proof -
    have "cert_key d \<noteq> certKey t i" if "d \<in> tm_certs s" "d \<noteq> c" for d using tm_certs_inj[OF wf that(1) cm] that(2) c(3) by metis
    then show ?thesis unfolding appends_def using cm l c by (simp add: tm_log_def s'(4) names_def)
  qed
  moreover have "tm_wf s'"
    unfolding tm_wf_def s'(2)
  proof (intro conjI)
    show "distinct (map fst (ts_certs s))" using wf by (simp add: tm_wf_def)
    show "\<forall>(k, d) \<in> set (ts_certs s). k = cert_key d \<and> nul_free (cf_TenantRef d) \<and> ts_statuses s' k \<noteq> [] \<and> names (last (ts_statuses s' k)) d"
    proof clarify
      fix k d assume kd: "(k, d) \<in> set (ts_certs s)"
      note wd = tm_wf_key[OF wf kd]
      have "names (last (ts_statuses s' k)) d"
      proof (cases "k = certKey t i")
        case True
        then have "d = c" using distinct_fst_inj[of "ts_certs s" k d c] kd in_s wf by (simp add: tm_wf_def)
        with True l c show ?thesis by (simp add: s'(4) names_def)
      next
        case False
        have "names (last (ts_statuses s k)) d" using wd by blast
        with False show ?thesis by (simp add: s'(4))
      qed
      moreover have "ts_statuses s k \<noteq> []" using wd by blast
      then have "ts_statuses s' k \<noteq> []" by (simp add: s'(4))
      ultimately show "k = cert_key d \<and> nul_free (cf_TenantRef d) \<and> ts_statuses s' k \<noteq> [] \<and> names (last (ts_statuses s' k)) d"
        using wd by blast
    qed
    have "certKey t i \<in> fst ` set (ts_certs s)" using in_s by (rule rev_image_eqI) simp
    then show "\<forall>k. k \<notin> fst ` set (ts_certs s) \<longrightarrow> ts_statuses s' k = []" using wf unfolding tm_wf_def s'(4) by (metis fun_upd_other)
  qed
  ultimately show ?thesis using s' l c by (auto simp: tm_client_def tm_certs_def fun_eq_iff)
qed

lemma tm_latest:
  assumes "tm_wf s" and "c \<in> tm_certs s"
  shows "tm_log s c \<noteq> [] \<and> tm_LatestStatus (cf_TenantRef c) (cf_ID c) s = (Inr (last (tm_log s c)), s)"
proof -
  have "(cert_key c, c) \<in> set (ts_certs s)" using assms tm_certs_key by blast
  from tm_wf_key[OF assms(1) this] show ?thesis by (simp add: tm_LatestStatus_def tm_log_def cert_key_def Let_def)
qed

interpretation registry: trust_registry memory_registry tm_client tm_certs tm_log tm_wf
proof unfold_locales
  fix s cl r s'
  assume "tm_wf s" "plain (cl_TenantRef cl) (cl_Publisher cl) (cl_Product cl)" "ro_CreateAgentClient memory_registry cl s = (r, s')"
  then show "tm_wf s' \<and> tm_certs s' = tm_certs s \<and> tm_log s' = tm_log s \<and> (\<exists>cl'. r = Inr cl' \<and> kept_identity cl cl'
      \<and> (\<forall>t p q. tm_client s' t p q = (if (t, p, q) = (cl_TenantRef cl, cl_Publisher cl, cl_Product cl) then Some cl' else tm_client s t p q)))"
    by (intro tm_create_client) (simp_all add: memory_registry_def)
next
  fix s cert ids now n rc s' n'
  assume "tm_wf s" "nul_free (cf_TenantRef cert)" "ro_CreateCertification memory_registry cert ids now (s, n) = (rc, s', n')"
  then show "tm_wf s' \<and> tm_client s' = tm_client s \<and> (case rc of Inl e \<Rightarrow> s' = s
         | Inr c' \<Rightarrow> c' = cert\<lparr>cf_Revision := cf_Revision c'\<rparr> \<and> 0 < cf_Revision c' \<and> tm_certs s' = insert c' (tm_certs s) \<and> issues (tm_certs s) (tm_log s) c' (tm_log s'))"
    by (intro tm_create_cert) (simp_all add: memory_registry_def)
next
  fix s t i st reason sid at ra s'
  assume "tm_wf s" "nul_free t" "ro_AppendStatus memory_registry t i st reason sid at s = (ra, s')"
  then show "tm_wf s' \<and> tm_client s' = tm_client s \<and> tm_certs s' = tm_certs s \<and> (case ra of Inl e \<Rightarrow> s' = s
         | Inr ch \<Rightarrow> sc_Status ch = st \<and> (\<exists>c. cf_TenantRef c = t \<and> cf_ID c = i \<and> appends (tm_certs s) (tm_log s) c ch (tm_log s')))"
    by (intro tm_append_status) (simp_all add: memory_registry_def)
next
  fix s c d
  assume "tm_wf s" "c \<in> tm_certs s" "d \<in> tm_certs s" "cf_TenantRef c = cf_TenantRef d" "cf_ID c = cf_ID d"
  then show "c = d" using tm_certs_inj by (simp add: cert_key_def)
next
  fix s c
  assume "tm_wf s" "c \<in> tm_certs s"
  then show "tm_log s c \<noteq> [] \<and> ro_LatestStatus memory_registry (cf_TenantRef c) (cf_ID c) s = (Inr (last (tm_log s c)), s)"
    using tm_latest by (simp add: memory_registry_def)
qed (auto simp: memory_registry_def tm_GetAgentClient_def tm_client_def tm_GetAgentClientByID_def tm_GetCertificationByID_def
    tm_ListCertifications_def tm_certs_def split: option.splits)

subsection \<open>Revocation\<close>

fun certifies :: "string \<Rightarrow> string \<Rightarrow> string \<Rightarrow> registry_call \<Rightarrow> bool" where
  "certifies t p q (CallCertify t' inp) \<longleftrightarrow> t' = t \<and> ci_Publisher inp = p \<and> ci_Product inp = q"
| "certifies t p q _ \<longleftrightarrow> False"

context trust_registry
begin

definition none_active :: "string \<Rightarrow> string \<Rightarrow> string \<Rightarrow> 'st \<Rightarrow> bool" where
  "none_active t p q s \<longleftrightarrow> wf s \<and> (\<forall>c \<in> certs s. of_product t p q c \<longrightarrow> \<not> log_active (log s c))"

lemma Register_none_active:
  assumes sv: "rs_store sv = Some ops" and ok: "none_active t p q (tw_store w)" and pl: "plain t' (ri_Publisher inp) (ri_Product inp)"
  shows "wp (Register sv t' inp) (\<lambda>_ w'. none_active t p q (tw_store w')) (\<lambda>_ w'. none_active t p q (tw_store w')) w"
proof -
  have "none_active t p q s'" if "ro_CreateAgentClient ops cl (tw_store w) = (r, s')"
    and "cl_TenantRef cl = t'" "cl_Publisher cl = ri_Publisher inp" "cl_Product cl = ri_Product inp" for cl r s'
    using create_client[OF _ _ that(1)] ok pl that(2-4) by (simp add: none_active_def)
  then show ?thesis using ok by (auto simp: Register_def with_store_def sv wp_simps intro!: wpI)
qed

lemma Certify_none_active:
  assumes sv: "rs_store sv = Some ops" and ok: "none_active t p q (tw_store w)" and pl: "plain t' (ci_Publisher inp) (ci_Product inp)"
    and other: "\<not> certifies t p q (CallCertify t' inp)"
  shows "wp (Certify sv t' inp) (\<lambda>_ w'. none_active t p q (tw_store w')) (\<lambda>_ w'. none_active t p q (tw_store w')) w"
proof -
  have wf: "wf (tw_store w)" using ok by (simp add: none_active_def)
  have step: "none_active t p q s'" if cr: "ro_CreateCertification ops (certification_of i t' cl inp at) ids at (tw_store w, n) = (r, s', n')" for i cl at ids n r s' n'
  proof -
    have st: "wf s'" "case r of Inl e \<Rightarrow> s' = tw_store w | Inr c' \<Rightarrow>
        c' = (certification_of i t' cl inp at)\<lparr>cf_Revision := cf_Revision c'\<rparr> \<and> 0 < cf_Revision c' \<and> certs s' = insert c' (certs (tw_store w))
        \<and> issues (certs (tw_store w)) (log (tw_store w)) c' (log s')"
      using create_cert[OF wf _ cr] pl by (simp_all add: plain_def certification_of_def)
    show ?thesis
    proof (cases r)
      case (Inl e)
      with st(2) ok show ?thesis by simp
    next
      case (Inr c')
      then have c': "c' = (certification_of i t' cl inp at)\<lparr>cf_Revision := cf_Revision c'\<rparr>" "certs s' = insert c' (certs (tw_store w))"
        "issues (certs (tw_store w)) (log (tw_store w)) c' (log s')" using st(2) by auto
      have prod: "\<not> of_product t p q c'" using other by (subst c'(1)) (simp add: of_product_def certification_of_def binding_of_def)
      have "\<not> log_active (log s' d)" if d: "d \<in> certs (tw_store w)" "of_product t p q d" for d
      proof -
        have "\<not> same_product d c'" using d(2) prod by (auto simp: same_product_def of_product_def)
        then have "log s' d = log (tw_store w) d" using c'(3) d(1) unfolding issues_def by (metis (no_types, lifting))
        with ok d show ?thesis by (simp add: none_active_def)
      qed
      with prod st(1) c'(2) show ?thesis by (auto simp: none_active_def)
    qed
  qed
  have create: "wp (ro_CreateCertification ops (certification_of i t' cl inp at) ids at)
      (\<lambda>_ (s', n'). none_active t p q s') (\<lambda>_ (s', n'). none_active t p q s') (tw_store w, n)" for i cl at ids n
    by (rule wpI; clarify; rule step)
  show ?thesis
    using ok create pl by (auto simp: Certify_def with_store_def sv wp_simps wp_get_client case_prod_beta split: option.splits)
qed

lemma Revoke_none_active:
  assumes sv: "rs_store sv = Some ops" and ok: "none_active t p q (tw_store w)" and t: "nul_free t'"
  shows "wp (Revoke sv t' i reason) (\<lambda>_ w'. none_active t p q (tw_store w')) (\<lambda>_ w'. none_active t p q (tw_store w')) w"
proof -
  have wf: "wf (tw_store w)" using ok by (simp add: none_active_def)
  have "none_active t p q s'" if ap: "ro_AppendStatus ops t' i StatusRevoked reason sid at (tw_store w) = (r, s')" for sid at r s'
  proof (cases r)
    case (Inl e)
    with append_status[OF wf t ap] ok show ?thesis by simp
  next
    case (Inr ch)
    from append_status[OF wf t ap] Inr obtain c where ap: "wf s'" "certs s' = certs (tw_store w)"
      "sc_Status ch = StatusRevoked" "appends (certs (tw_store w)) (log (tw_store w)) c ch (log s')" by auto
    have "\<not> log_active (log s' d)" if "d \<in> certs (tw_store w)" "of_product t p q d" for d
      using ap(3,4) ok that by (cases "d = c") (auto simp: appends_def none_active_def)
    with ap(1,2) show ?thesis by (simp add: none_active_def)
  qed
  then have "wp (ro_AppendStatus ops t' i StatusRevoked reason sid at) (\<lambda>_ s'. none_active t p q s') (\<lambda>_ s'. none_active t p q s') (tw_store w)" for sid at
    by (blast intro: wpI)
  with ok show ?thesis by (simp add: Revoke_def with_store_def sv wp_simps)
qed

lemma serve_none_active:
  assumes sv: "rs_store sv = Some ops" and ok: "none_active t p q (tw_store w)" and c: "plain_call c" "\<not> certifies t p q c"
  shows "none_active t p q (tw_store (registry_serve sv c w))"
proof (cases c)
  case (CallRegister t' inp)
  with Register_none_active[OF sv ok] c show ?thesis by (simp add: wp_state)
next
  case (CallCertify t' inp)
  with Certify_none_active[OF sv ok] c show ?thesis by (simp add: wp_state del: certifies.simps)
next
  case (CallRevoke t' i reason)
  with Revoke_none_active[OF sv ok] c show ?thesis by (simp add: wp_state)
next
  case (CallAssess t' req)
  have "wf (tw_store w)" using ok by (simp add: none_active_def)
  from Assess_store[OF sv this, of t' req] c CallAssess ok show ?thesis by simp
next
  case (CallResolveClient t' i)
  have "wp (ResolveClient sv t' i) (\<lambda>_ w'. none_active t p q (tw_store w')) (\<lambda>_ w'. none_active t p q (tw_store w')) w"
    using ok by (simp add: ResolveClient_def with_store_def sv wp_simps keeps_read[OF reads(1), where P = "\<lambda>s. none_active t p q s"])
  with CallResolveClient show ?thesis by (simp add: wp_state)
next
  case (CallResolveCertification t' i)
  have "wp (ResolveCertification sv t' i) (\<lambda>_ w'. none_active t p q (tw_store w')) (\<lambda>_ w'. none_active t p q (tw_store w')) w"
    using ok by (simp add: ResolveCertification_def with_store_def sv wp_simps keeps_read[OF reads(2), where P = "\<lambda>s. none_active t p q s"])
  with CallResolveCertification show ?thesis by (simp add: wp_state)
qed

lemma run_none_active:
  assumes "rs_store sv = Some ops" and "none_active t p q (tw_store w)" and "\<forall>c \<in> set cs. plain_call c \<and> \<not> certifies t p q c"
  shows "none_active t p q (tw_store (registry_run sv cs w))"
  using assms(2-) unfolding registry_run_def by (induction cs arbitrary: w) (auto simp: serve_none_active[OF assms(1)])

lemma Revoke_leaves_none:
  assumes sv: "rs_store sv = Some ops" and ok: "registry_ok Cs (tw_store w)" and c: "c \<in> certs (tw_store w)" "log_active (log (tw_store w) c)"
    and t: "nul_free (cf_TenantRef c)" and run: "Revoke sv (cf_TenantRef c) (cf_ID c) reason w = (Inr ch, w')"
  shows "none_active (cf_TenantRef c) (cb_Publisher (cf_Binding c)) (cb_Product (cf_Binding c)) (tw_store w')"
proof -
  have wf: "wf (tw_store w)" and ws: "well_standing (certs (tw_store w)) (log (tw_store w))" using ok by (simp_all add: registry_ok_def)
  obtain sid at where ap: "ro_AppendStatus ops (cf_TenantRef c) (cf_ID c) StatusRevoked reason sid at (tw_store w) = (Inr ch, tw_store w')"
    using run by (auto simp: Revoke_def with_store_def sv andthen_def on_registry_def trust_newID_def trust_now_def require_def on_error_def
        split: if_splits prod.splits sum.splits)
  from append_status[OF wf t ap] obtain d where d: "wf (tw_store w')" "certs (tw_store w') = certs (tw_store w)" "sc_Status ch = StatusRevoked"
    "cf_TenantRef d = cf_TenantRef c" "cf_ID d = cf_ID c" "appends (certs (tw_store w)) (log (tw_store w)) d ch (log (tw_store w'))" by auto
  have "d = c" using keyed[OF wf _ c(1) d(4,5)] d(6) by (simp add: appends_def)
  have "\<not> log_active (log (tw_store w') x)"
    if x: "x \<in> certs (tw_store w)" "of_product (cf_TenantRef c) (cb_Publisher (cf_Binding c)) (cb_Product (cf_Binding c)) x" for x
  proof (cases "x = c")
    case True
    with d(3,6) \<open>d = c\<close> show ?thesis by (simp add: appends_def)
  next
    case False
    have "same_product c x" using x(2) by (auto simp: same_product_def of_product_def)
    with one_active[OF ws c(1) x(1) _ c(2)] False have "\<not> log_active (log (tw_store w) x)" by blast
    with d(6) \<open>d = c\<close> False x(1) show ?thesis by (simp add: appends_def)
  qed
  with d(1,2) show ?thesis by (simp add: none_active_def)
qed

lemma Assess_none_active:
  assumes sv: "rs_store sv = Some ops" and ok: "none_active t (rl_Publisher (rq_Release req)) (rl_Product (rq_Release req)) (tw_store w)"
    and pl: "plain t (rl_Publisher (rq_Release req)) (rl_Product (rq_Release req))" and run: "Assess sv t req w = (Inr a, w')"
  shows "a = untrusted_assessment req"
proof -
  have "wf (tw_store w)" using ok by (simp add: none_active_def)
  from sv this pl show ?thesis
    by (cases rule: Assess_reads) (use ok run in \<open>auto simp: none_active_def\<close>)
qed

end

end
