(* ===== verification/AgentTrustProperties.thy ===== *)
theory AgentTrustProperties
  imports AgentTrustLaws
begin

text \<open>
  The promises of the trust registry over the in-memory store: well-formed and earned certifications, at most one active
  revision of a product, assessments that never exceed a certification, revocation that ends trust, and status hashes that
  commit to the whole log. The names of the calls hold no NUL byte, so that composite keys keep products apart.
\<close>

definition new_registry :: "TrustStore TrustWorld" where
  "new_registry = \<lparr>tw_store = NewTrustStore, tw_ticks = 0, tw_ids = 0\<rparr>"

definition stored_certs :: "TrustStore TrustWorld \<Rightarrow> Certification set" where
  "stored_certs w = tm_certs (tw_store w)"

definition status_log :: "TrustStore TrustWorld \<Rightarrow> Certification \<Rightarrow> StatusChange list" where
  "status_log w c = tm_log (tw_store w) c"

lemma new_registry_ok: "registry.registry_ok Cs (tw_store new_registry)"
  by (simp add: registry.registry_ok_def registry.clients_registered_def new_registry_def NewTrustStore_def tm_wf_def tm_client_def
      tm_certs_def well_standing_def)

lemma reached_ok:
  assumes "rs_store sv = Some memory_registry" and "\<forall>c \<in> set cs. plain_call c"
  shows "registry.registry_ok (set cs) (tw_store (registry_run sv cs new_registry))"
  by (rule registry.run_ok[OF assms(1) new_registry_ok]) (use assms(2) in auto)

subsection \<open>An example run\<close>

definition ex_trust :: "TrustStore TrustService" where
  "ex_trust = \<lparr>rs_store = Some memory_registry, rs_now = (\<lambda>n. 10), rs_newID = (\<lambda>n p. p @ replicate (Suc n) CHR ''a'')\<rparr>"

definition ex_registration :: RegisterInput where
  "ex_registration = \<lparr>ri_Publisher = ''pub'', ri_Product = ''bot'', ri_Origin = ''astraclaw'', ri_EnterpriseRegistered = True\<rparr>"

definition ex_manifest :: string where "ex_manifest = ''sha256:'' @ replicate 64 CHR ''a''"

definition ex_certify :: CertifyInput where
  "ex_certify = \<lparr>ci_Publisher = ''pub'', ci_Product = ''bot'', ci_VersionRange = \<lparr>vr_MinInclusive = ''1.0'', vr_MaxExclusive = ''2''\<rparr>,
     ci_SigningKey = \<lparr>sk_KeyID = ''k1'', sk_Algorithm = ''ed25519'', sk_PublicKey = ''pk''\<rparr>, ci_ReleaseManifestDigest = ex_manifest,
     ci_TrustClass = TrustFirstParty, ci_CapabilityCeiling = Some [''crm.note'', ''crm.read''], ci_SignedBuildManifest = True,
     ci_CertifiedDecisionProvider = False, ci_TTL = 100\<rparr>"

definition ex_assess :: AssessRequest where
  "ex_assess = \<lparr>rq_Release = \<lparr>rl_Publisher = ''pub'', rl_Product = ''bot'', rl_Version = ''1.4'', rl_SigningKeyID = ''k1'',
     rl_ReleaseManifestDigest = ex_manifest, rl_Origin = []\<rparr>, rq_Capability = ''crm.note'', rq_SideEffect = True,
     rq_CustomerCeiling = Some [''crm.note'']\<rparr>"

definition ex_client :: AgentClient where
  "ex_client = \<lparr>cl_ID = ''agc_a'', cl_TenantRef = ''acme'', cl_Publisher = ''pub'', cl_Product = ''bot'', cl_Origin = ''astraclaw'',
     cl_EnterpriseRegistered = True, cl_CreatedAt = 10\<rparr>"

definition ex_cert :: Certification where
  "ex_cert = (certification_of ''cert_aa'' ''acme'' ex_client ex_certify 10)\<lparr>cf_Revision := 1\<rparr>"

definition ex_trust_calls :: "registry_call list" where
  "ex_trust_calls = [CallRegister ''acme'' ex_registration, CallCertify ''acme'' ex_certify]"

lemma ex_trust_valid: "CertificationBinding_Validate (binding_of ex_certify) = None" "canonical ''acme''" "canonical ''pub''" "canonical ''bot''"
  "canonical ''agc_a''" "canonical ''cert_aa''" "canonical ''crm.note''" "VersionRange_Contains \<lparr>vr_MinInclusive = ''1.0'', vr_MaxExclusive = ''2''\<rparr> ''1.4''"
  by code_simp+

lemma ex_trust_plain: "\<forall>c \<in> set ex_trust_calls. plain_call c"
  by (simp add: ex_trust_calls_def ex_registration_def ex_certify_def plain_def nul_free_def)

lemma ex_trust_store: "rs_store ex_trust = Some memory_registry"
  by (simp add: ex_trust_def)

definition ex_registered :: "TrustStore TrustWorld" where
  "ex_registered = registry_serve ex_trust (CallRegister ''acme'' ex_registration) new_registry"

lemma ex_registered: "ts_clients (tw_store ex_registered) = [(clientKey ''acme'' ''pub'' ''bot'', ex_client)]"
  "ts_certs (tw_store ex_registered) = []" "ts_statuses (tw_store ex_registered) = (\<lambda>_. [])" "tw_ids ex_registered = 1"
  by (simp_all add: ex_registered_def Register_def with_store_def ex_trust_def ex_registration_def validOrigin_def OriginAstraClaw_def
      ex_trust_valid trust_newID_def trust_now_def andthen_def require_def on_error_def on_registry_def memory_registry_def
      tm_CreateAgentClient_def new_registry_def NewTrustStore_def Let_def ex_client_def)

definition ex_certified :: "TrustStore TrustWorld" where
  "ex_certified = registry_run ex_trust ex_trust_calls new_registry"

lemma ex_certified: "ts_certs (tw_store ex_certified) = [(certKey ''acme'' ''cert_aa'', ex_cert)]"
  "map sc_Status (ts_statuses (tw_store ex_certified) (certKey ''acme'' ''cert_aa'')) = [StatusActive]"
  "ts_clients (tw_store ex_certified) = [(clientKey ''acme'' ''pub'' ''bot'', ex_client)]"
  "map (\<lambda>ch. (sc_TenantRef ch, sc_CertificationID ch, sc_Status ch, sc_Reason ch)) (ts_statuses (tw_store ex_certified) (certKey ''acme'' ''cert_aa''))
     = [(''acme'', ''cert_aa'', StatusActive, ''certified'')]"
proof -
  have run: "ex_certified = snd (Certify ex_trust ''acme'' ex_certify ex_registered)"
    by (simp add: ex_certified_def registry_run_def ex_trust_calls_def ex_registered_def)
  have f: "ci_TTL ex_certify = 100" "ci_SignedBuildManifest ex_certify" "ci_Publisher ex_certify = ''pub''" "ci_Product ex_certify = ''bot''"
    "cl_EnterpriseRegistered ex_client" by (simp_all add: ex_certify_def ex_client_def)
  have c: "cf_TenantRef (certification_of ''cert_aa'' ''acme'' ex_client ex_certify 10) = ''acme''" "cf_ID (certification_of ''cert_aa'' ''acme'' ex_client ex_certify 10) = ''cert_aa''"
    by (simp_all add: certification_of_def)
  show "ts_certs (tw_store ex_certified) = [(certKey ''acme'' ''cert_aa'', ex_cert)]"
    "map sc_Status (ts_statuses (tw_store ex_certified) (certKey ''acme'' ''cert_aa'')) = [StatusActive]"
    "ts_clients (tw_store ex_certified) = [(clientKey ''acme'' ''pub'' ''bot'', ex_client)]"
    "map (\<lambda>ch. (sc_TenantRef ch, sc_CertificationID ch, sc_Status ch, sc_Reason ch)) (ts_statuses (tw_store ex_certified) (certKey ''acme'' ''cert_aa''))
       = [(''acme'', ''cert_aa'', StatusActive, ''certified'')]"
    unfolding run
    by (simp_all add: Certify_def with_store_def ex_trust_store ex_trust_valid f andthen_def require_def check_def on_error_def on_registry_def
        on_registry_ids_def memory_registry_def tm_GetAgentClient_def ex_registered trust_now_def trust_newID_def,
        simp_all add: ex_trust_def ex_trust_valid tm_CreateCertification_def ex_registered Let_def c chained_def ex_cert_def)
qed

lemma ex_stored: "ex_cert \<in> stored_certs ex_certified" "status_log ex_certified ex_cert = ts_statuses (tw_store ex_certified) (certKey ''acme'' ''cert_aa'')"
  by (simp_all add: stored_certs_def tm_certs_def ex_certified status_log_def tm_log_def cert_key_def ex_cert_def certification_of_def)

subsection \<open>The promises\<close>

text \<open>C33: Every stored certification is well-formed: after any run of calls it has a canonical identity, a binding that passes
  validation, an attested manifest, a positive revision and lifetime, and first-party class only with enterprise registration.\<close>

theorem stored_certifications_are_well_typed:
  assumes "rs_store sv = Some memory_registry" and "\<forall>c \<in> set cs. plain_call c"
    and "c \<in> stored_certs (registry_run sv cs new_registry)"
  shows "well_typed c"
  using reached_ok[OF assms(1,2)] assms(3) by (simp add: registry.registry_ok_def stored_certs_def)

theorem stored_certifications_are_well_typed_witness: "well_typed ex_cert"
  using stored_certifications_are_well_typed[OF ex_trust_store ex_trust_plain] ex_stored(1) by (simp add: ex_certified_def)

text \<open>C32: The status log of every certification is a hash chain that starts active, is superseded at most once and only ends in
  revocations, and of the certifications of a product at most one is active, the one with the highest revision.\<close>

theorem certification_status_is_a_lifecycle:
  assumes "rs_store sv = Some memory_registry" and "\<forall>c \<in> set cs. plain_call c"
    and "c \<in> stored_certs (registry_run sv cs new_registry)"
  shows "chain c (status_log (registry_run sv cs new_registry) c) \<and> lifecycle_ok (map sc_Status (status_log (registry_run sv cs new_registry) c))
    \<and> (\<forall>d \<in> stored_certs (registry_run sv cs new_registry). same_product d c \<longrightarrow>
         (log_active (status_log (registry_run sv cs new_registry) c) \<longrightarrow> cf_Revision d \<le> cf_Revision c
            \<and> (log_active (status_log (registry_run sv cs new_registry) d) \<longrightarrow> d = c))
         \<and> (cf_Revision d = cf_Revision c \<longrightarrow> d = c))"
proof -
  let ?s = "tw_store (registry_run sv cs new_registry)"
  have ws: "well_standing (tm_certs ?s) (tm_log ?s)" using reached_ok[OF assms(1,2)] by (simp add: registry.registry_ok_def)
  have c: "c \<in> tm_certs ?s" using assms(3) by (simp add: stored_certs_def)
  have "d = c" if "d \<in> tm_certs ?s" "same_product d c" "log_active (tm_log ?s c)" "log_active (tm_log ?s d)" for d
    using one_active[OF ws that(1) c that(2,4,3)] .
  with ws c show ?thesis unfolding well_standing_def stored_certs_def status_log_def by blast
qed

theorem certification_status_is_a_lifecycle_witness:
  "chain ex_cert (status_log ex_certified ex_cert) \<and> lifecycle_ok (map sc_Status (status_log ex_certified ex_cert))"
  using certification_status_is_a_lifecycle[OF ex_trust_store ex_trust_plain] ex_stored(1) by (simp add: ex_certified_def)

text \<open>What a certification allows a request, whose release it covers, to do.\<close>

definition within_certification :: "Certification \<Rightarrow> bool \<Rightarrow> AssessRequest \<Rightarrow> bool" where
  "within_certification c astraClaw req \<longleftrightarrow> rq_Capability req \<in> set (entries (cb_CapabilityCeiling (cf_Binding c)))
     \<and> (rq_CustomerCeiling req \<noteq> None \<longrightarrow> rq_Capability req \<in> set (entries (rq_CustomerCeiling req)))
     \<and> (astraClaw \<longrightarrow> \<not> IsConnectorCapability (rq_Capability req))
     \<and> (rq_SideEffect req \<longrightarrow> cb_TrustClass (cf_Binding c) = TrustFirstParty
          \<or> cb_TrustClass (cf_Binding c) = TrustCertifiedThirdParty \<and> cf_CertifiedDecisionProvider c)"

lemma certified_granted_iff: "as_Granted (certified_assessment c astra req) \<longleftrightarrow> within_certification c astra req"
  by (cases "rq_CustomerCeiling req"; cases "cb_TrustClass (cf_Binding c)")
    (auto simp: certified_assessment_def within_certification_def effective_ceiling_def Narrow_entries stripConnectorCapabilities_def
      side_effect_permitted_def Let_def)

text \<open>C30: Trust is never presumed: after any run, a granted assessment is either a read that the customer opened explicitly, with
  no side effect, or it rests on an active, unexpired certification whose binding covers the release, that some call earned
  for the registered product, and within its ceiling, the customer's narrowing, the decision-provider rule and the connector
  denial for AstraClaw origins (frozen, presented or live). The request names a plain product.\<close>

theorem granted_assessment_is_earned:
  assumes "rs_store sv = Some memory_registry" and "\<forall>c \<in> set cs. plain_call c" and "w = registry_run sv cs new_registry"
    and "plain_call (CallAssess t req)" and "Assess sv t req w = (Inr a, w')" and "as_Granted a"
  shows "(a = untrusted_assessment req \<and> \<not> rq_SideEffect req \<and> rq_Capability req \<in> set (entries (rq_CustomerCeiling req)))
    \<or> (\<exists>c \<in> stored_certs w. earned (set cs) c \<and> of_product t (rl_Publisher (rq_Release req)) (rl_Product (rq_Release req)) c
         \<and> covers c (rq_Release req) (rs_now sv (tw_ticks w)) \<and> log_active (status_log w c)
         \<and> as_TrustClass a = cb_TrustClass (cf_Binding c) \<and> as_SideEffectAllowed a = rq_SideEffect req
         \<and> within_certification c (isAstraClawOrigin (cf_Origin c) \<or> isAstraClawOrigin (rl_Origin (rq_Release req))
              \<or> registry.live_astraclaw (tw_store w) t (rq_Release req)) req)"
proof -
  have ok: "registry.registry_ok (set cs) (tw_store w)" unfolding assms(3) by (rule reached_ok[OF assms(1,2)])
  then have wf: "tm_wf (tw_store w)" and earned: "\<forall>c \<in> tm_certs (tw_store w). earned (set cs) c"
    by (simp_all add: registry.registry_ok_def)
  have pl: "plain t (rl_Publisher (rq_Release req)) (rl_Product (rq_Release req))" using assms(4) by simp
  from assms(1) wf pl show ?thesis
  proof (cases rule: registry.Assess_reads)
    case (rejected e)
    with assms(5) show ?thesis by simp
  next
    case (untrusted w'')
    with assms(5,6) have "a = untrusted_assessment req" by simp
    with assms(6) show ?thesis by (auto simp: untrusted_assessment_def)
  next
    case (certified c w'')
    define astra where "astra = (isAstraClawOrigin (cf_Origin c) \<or> isAstraClawOrigin (rl_Origin (rq_Release req))
        \<or> registry.live_astraclaw (tw_store w) t (rq_Release req))"
    have a: "a = certified_assessment c astra req" using certified(1) assms(5) by (simp add: astra_def)
    have "within_certification c astra req" using assms(6) by (simp add: a certified_granted_iff)
    moreover have "as_TrustClass a = cb_TrustClass (cf_Binding c)" "as_SideEffectAllowed a = rq_SideEffect req"
      using assms(6) by (auto simp: a certified_assessment_def Let_def split: if_splits)
    ultimately show ?thesis using certified(3-6) earned unfolding stored_certs_def status_log_def astra_def by blast
  qed
qed

lemma ex_assessed: "\<exists>a w'. Assess ex_trust ''acme'' ex_assess ex_certified = (Inr a, w') \<and> as_Granted a"
proof -
  have act: "sc_Status (last (ts_statuses (tw_store ex_certified) (certKey ''acme'' ''cert_aa''))) = StatusActive"
    "ts_statuses (tw_store ex_certified) (certKey ''acme'' ''cert_aa'') \<noteq> []"
    using ex_certified(2) by auto
  have cov: "covers ex_cert (rq_Release ex_assess) 10"
    by (simp add: covers_def ex_cert_def certification_of_def binding_of_def ex_certify_def ex_assess_def ex_trust_valid)
  have f: "rq_Capability ex_assess = ''crm.note''" "rl_Publisher (rq_Release ex_assess) = ''pub''" "rl_Product (rq_Release ex_assess) = ''bot''"
    by (simp_all add: ex_assess_def)
  have c: "cf_ID ex_cert = ''cert_aa''" "of_product ''acme'' ''pub'' ''bot'' ex_cert"
    by (simp_all add: ex_cert_def certification_of_def of_product_def binding_of_def ex_certify_def)
  have now: "rs_now ex_trust n = 10" for n by (simp add: ex_trust_def)
  have w: "within_certification ex_cert b ex_assess" for b
    by (simp add: within_certification_def ex_cert_def certification_of_def binding_of_def ex_certify_def ex_assess_def
        IsConnectorCapability_def has_prefix_def ConnectorCapabilityPrefix_def)
  show ?thesis
    by (simp add: Assess_def with_store_def ex_trust_store f ex_trust_valid activeCertification_def andthen_def on_error_def on_registry_def
        memory_registry_def tm_ListCertifications_def ex_certified(1) trust_now_def now cov c tm_LatestStatus_def act Let_def
        attempt_def certified_granted_iff w tm_GetAgentClient_def ex_certified(3))
qed

theorem granted_assessment_is_earned_witness:
  "\<exists>c \<in> stored_certs ex_certified. earned (set ex_trust_calls) c \<and> covers c (rq_Release ex_assess) 10 \<and> log_active (status_log ex_certified c)"
proof -
  obtain a w' where a: "Assess ex_trust ''acme'' ex_assess ex_certified = (Inr a, w')" "as_Granted a" using ex_assessed by blast
  have pl: "plain_call (CallAssess ''acme'' ex_assess)" by (simp add: ex_assess_def plain_def nul_free_def)
  have "rs_now ex_trust n = 10" "rq_SideEffect ex_assess" for n by (simp_all add: ex_trust_def ex_assess_def)
  with granted_assessment_is_earned[OF ex_trust_store ex_trust_plain ex_certified_def pl a] show ?thesis by auto
qed

text \<open>C31: Revocation ends trust: once the active certification of a product is revoked, every later assessment of that product is
  the untrusted one, until some call certifies the product again.\<close>

theorem revocation_ends_trust:
  assumes "rs_store sv = Some memory_registry" and "\<forall>c \<in> set cs. plain_call c" and "w = registry_run sv cs new_registry"
    and "c \<in> stored_certs w" and "log_active (status_log w c)" and "nul_free (cf_TenantRef c)"
    and "Revoke sv (cf_TenantRef c) (cf_ID c) reason w = (Inr ch, w1)"
    and "\<forall>c' \<in> set cs'. plain_call c' \<and> \<not> certifies (cf_TenantRef c) (cb_Publisher (cf_Binding c)) (cb_Product (cf_Binding c)) c'"
    and "rl_Publisher (rq_Release req) = cb_Publisher (cf_Binding c)" and "rl_Product (rq_Release req) = cb_Product (cf_Binding c)"
    and "plain_call (CallAssess (cf_TenantRef c) req)"
    and "Assess sv (cf_TenantRef c) req (registry_run sv cs' w1) = (Inr a, w2)"
  shows "a = untrusted_assessment req \<and> as_TrustClass a = TrustUntrusted \<and> \<not> as_SideEffectAllowed a"
proof -
  have ok: "registry.registry_ok (set cs) (tw_store w)" unfolding assms(3) by (rule reached_ok[OF assms(1,2)])
  have "registry.none_active (cf_TenantRef c) (cb_Publisher (cf_Binding c)) (cb_Product (cf_Binding c)) (tw_store w1)"
    using registry.Revoke_leaves_none[OF assms(1) ok _ _ assms(6,7)] assms(4,5) by (simp add: stored_certs_def status_log_def)
  from registry.run_none_active[OF assms(1) this assms(8)]
  have "a = untrusted_assessment req"
    using registry.Assess_none_active[OF assms(1) _ _ assms(12)] assms(9-11) by simp
  then show ?thesis by (simp add: untrusted_assessment_def)
qed

theorem revocation_ends_trust_witness:
  "\<exists>ch w1 a w2. Revoke ex_trust ''acme'' ''cert_aa'' ''leak'' ex_certified = (Inr ch, w1)
     \<and> Assess ex_trust ''acme'' ex_assess (registry_run ex_trust [] w1) = (Inr a, w2) \<and> as_TrustClass a = TrustUntrusted"
proof -
  have c: "cf_TenantRef ex_cert = ''acme''" "cf_ID ex_cert = ''cert_aa''" "cb_Publisher (cf_Binding ex_cert) = ''pub''" "cb_Product (cf_Binding ex_cert) = ''bot''"
    by (simp_all add: ex_cert_def certification_of_def binding_of_def ex_certify_def)
  have act: "log_active (status_log ex_certified ex_cert)" using ex_certified(2) by (auto simp: ex_stored(2) log_active_def)
  obtain ch w1 where r: "Revoke ex_trust ''acme'' ''cert_aa'' ''leak'' ex_certified = (Inr ch, w1)"
    by (simp add: Revoke_def with_store_def ex_trust_store ex_trust_valid hasControlBytes_def byte_def andthen_def trust_newID_def trust_now_def
        on_error_def on_registry_def memory_registry_def tm_AppendStatus_def ex_certified(1) status_valid_def Let_def case_prod_beta)
  have f: "rl_Publisher (rq_Release ex_assess) = ''pub''" "rl_Product (rq_Release ex_assess) = ''bot''" "plain_call (CallAssess ''acme'' ex_assess)"
    by (simp_all add: ex_assess_def plain_def nul_free_def)
  have "\<exists>a w2. Assess ex_trust ''acme'' ex_assess w1 = (Inr a, w2)"
  proof -
    have ok: "registry.registry_ok (set ex_trust_calls) (tw_store ex_certified)" unfolding ex_certified_def by (rule reached_ok[OF ex_trust_store ex_trust_plain])
    have "registry.none_active (cf_TenantRef ex_cert) (cb_Publisher (cf_Binding ex_cert)) (cb_Product (cf_Binding ex_cert)) (tw_store w1)"
      by (rule registry.Revoke_leaves_none[OF ex_trust_store ok]) (use r act ex_stored(1) c in \<open>simp_all add: stored_certs_def status_log_def nul_free_def\<close>)
    then have wf: "tm_wf (tw_store w1)" by (simp add: registry.none_active_def)
    have pl: "plain ''acme'' (rl_Publisher (rq_Release ex_assess)) (rl_Product (rq_Release ex_assess))" using f(3) by simp
    have can: "canonical ''acme'' \<and> canonical (rq_Capability ex_assess)" by (simp add: ex_trust_valid) (simp add: ex_assess_def ex_trust_valid)
    from ex_trust_store wf pl show ?thesis by (cases rule: registry.Assess_reads) (use can in auto)
  qed
  then obtain a w2 where a: "Assess ex_trust ''acme'' ex_assess (registry_run ex_trust [] w1) = (Inr a, w2)" by (auto simp: registry_run_def)
  from revocation_ends_trust[OF ex_trust_store ex_trust_plain ex_certified_def ex_stored(1) act, unfolded c, OF _ r _ _ _ f(3) a] r a f show ?thesis
    by (auto simp: nul_free_def)
qed

subsection \<open>Status hashes\<close>

lemma be_bytes_inj: "m < 256 ^ k \<Longrightarrow> n < 256 ^ k \<Longrightarrow> be_bytes k m = be_bytes k n \<Longrightarrow> m = n"
proof (induction k arbitrary: m n)
  case (Suc k)
  have "m div 256 < 256 ^ k" "n div 256 < 256 ^ k" using Suc.prems(1,2) by (simp_all add: less_mult_imp_div_less mult.commute)
  have "(char_of (m mod 256) :: char) = char_of (n mod 256)" using Suc.prems(3) by simp_all
  then have "m mod 256 = n mod 256" by (auto dest: arg_cong[where f = "of_char :: char \<Rightarrow> nat"] simp: take_bit_eq_mod)
  moreover have "m div 256 = n div 256" using Suc.IH \<open>m div 256 < 256 ^ k\<close> \<open>n div 256 < 256 ^ k\<close> Suc.prems(3) by simp
  ultimately show ?case by (metis div_mult_mod_eq)
qed simp

lemma length_prefixed_inj:
  assumes "length xs = length ys" and "\<forall>f \<in> set xs \<union> set ys. length f < 2 ^ 64"
    and "concat (map (\<lambda>f. be_bytes 8 (length f) @ f) xs) = concat (map (\<lambda>f. be_bytes 8 (length f) @ f) ys)"
  shows "xs = ys"
  using assms
proof (induction xs ys rule: list_induct2)
  case (Cons x xs y ys)
  have bytes: "be_bytes 8 (length x) = be_bytes 8 (length y)"
    and tl: "x @ concat (map (\<lambda>f. be_bytes 8 (length f) @ f) xs) = y @ concat (map (\<lambda>f. be_bytes 8 (length f) @ f) ys)"
    using Cons.prems(2) by (simp_all add: append_eq_append_conv)
  have "(256::nat) ^ 8 = 2 ^ 64" by simp
  with bytes Cons.prems(1) have "length x = length y" by (metis be_bytes_inj UnCI list.set_intros(1))
  with tl Cons show ?case by simp
qed simp

text \<open>What a status change says, with its status in the wire's spelling, and what is hashed for it.\<close>

definition says :: "StatusChange \<Rightarrow> string list" where
  "says ch = [sc_TenantRef ch, sc_CertificationID ch, status_string (sc_Status ch), sc_Reason ch]"

definition hashed :: "StatusChange \<Rightarrow> string" where
  "hashed ch = status_preimage (says ch @ [sc_PrevHash ch])"

definition addressable :: "StatusChange \<Rightarrow> bool" where
  "addressable ch \<longleftrightarrow> (\<forall>f \<in> set (says ch). length f < 2 ^ 64)"

lemma linked_hash: "linked lg ch \<Longrightarrow> sc_EventHash ch = sha256_hex (hashed ch)"
  by (simp add: linked_def hashStatusChange_def hashed_def says_def)

lemma hash_length: "length (sha256_hex m) = 64"
  by (simp add: sha256_hex_def)

lemma chain_linked: "chain c lg \<Longrightarrow> linked (butlast lg) (last lg) \<and> (butlast lg = [] \<or> chain c (butlast lg))"
  by (induction rule: chain.induct) auto

lemma same_head_same_log:
  assumes "chain c lg" and "chain d lg'" and "sc_EventHash (last lg) = sc_EventHash (last lg')"
    and "\<forall>ch \<in> set lg \<union> set lg'. addressable ch"
  shows "map says lg = map says lg' \<or> (\<exists>ch \<in> set lg. \<exists>ch' \<in> set lg'. hashed ch \<noteq> hashed ch' \<and> sha256 (hashed ch) = sha256 (hashed ch'))"
  using assms
proof (induction "length lg" arbitrary: lg lg' rule: less_induct)
  case less
  have ne: "lg \<noteq> []" "lg' \<noteq> []" using less.prems(1,2) chain_nonempty by auto
  let ?ch = "last lg" and ?ch' = "last lg'"
  have in_l: "?ch \<in> set lg" "?ch' \<in> set lg'" using ne by simp_all
  have l: "linked (butlast lg) ?ch" "linked (butlast lg') ?ch'" using chain_linked less.prems(1,2) by blast+
  have eq: "sha256 (hashed ?ch) = sha256 (hashed ?ch')"
    using less.prems(3) linked_hash[OF l(1)] linked_hash[OF l(2)] hex_encode_inj by (simp add: sha256_hex_def)
  show ?case
  proof (cases "hashed ?ch = hashed ?ch'")
    case False
    with eq in_l show ?thesis by blast
  next
    case True
    have b: "butlast lg = [] \<or> chain c (butlast lg)" "butlast lg' = [] \<or> chain d (butlast lg')" using chain_linked less.prems(1,2) by blast+
    have hl: "length (sc_EventHash (last x)) = 64" if "chain e x" for e x
      using chain_linked[OF that] linked_hash hash_length by metis
    have prev: "sc_PrevHash ?ch = (if butlast lg = [] then [] else sc_EventHash (last (butlast lg)))"
      "sc_PrevHash ?ch' = (if butlast lg' = [] then [] else sc_EventHash (last (butlast lg')))" using l by (auto simp: linked_def)
    have small: "length (sc_PrevHash ?ch) \<le> 64" "length (sc_PrevHash ?ch') \<le> 64" using prev b hl by (auto split: if_splits)
    then have "\<forall>f \<in> set (says ?ch @ [sc_PrevHash ?ch]) \<union> set (says ?ch' @ [sc_PrevHash ?ch']). length f < 2 ^ 64"
      using less.prems(4) in_l by (auto simp: addressable_def)
    then have "says ?ch @ [sc_PrevHash ?ch] = says ?ch' @ [sc_PrevHash ?ch']"
      using True by (intro length_prefixed_inj) (simp_all add: says_def hashed_def status_preimage_def)
    then have same: "says ?ch = says ?ch'" "sc_PrevHash ?ch = sc_PrevHash ?ch'" by (simp_all add: says_def)
    have ends: "map says lg = map says (butlast lg) @ [says ?ch]" "map says lg' = map says (butlast lg') @ [says ?ch']"
      using ne by (metis append_butlast_last_id list.simps(8,9) map_append)+
    show ?thesis
    proof (cases "butlast lg = []")
      case True
      with prev same(2) b(2) hl have "butlast lg' = []" by (metis length_0_conv zero_neq_numeral)
      with True ends same(1) show ?thesis by simp
    next
      case False
      with prev same(2) b(1) hl have f': "butlast lg' \<noteq> []" by (metis length_0_conv zero_neq_numeral)
      have heads: "sc_EventHash (last (butlast lg)) = sc_EventHash (last (butlast lg'))" using prev same(2) False f' by simp
      have sub: "set (butlast lg) \<subseteq> set lg" "set (butlast lg') \<subseteq> set lg'" by (auto dest: in_set_butlastD)
      have "length (butlast lg) < length lg" using ne by simp
      from less.hyps[OF this _ _ heads] b False f' sub less.prems(4)
      have "map says (butlast lg) = map says (butlast lg')
          \<or> (\<exists>ch \<in> set (butlast lg). \<exists>ch' \<in> set (butlast lg'). hashed ch \<noteq> hashed ch' \<and> sha256 (hashed ch) = sha256 (hashed ch'))" by blast
      with ends same(1) sub show ?thesis by auto
    qed
  qed
qed

text \<open>The newest event hash of a certification commits to its whole status history: two stored certifications, of one
  registry or of two, whose logs end in the same event hash have logs that say the same entry by entry, or two different
  hashed strings of the logs collide under SHA-256. Fields are shorter than 2^64 bytes, so their length prefixes are exact.\<close>

theorem status_hash_commits_to_history:
  assumes "rs_store sv = Some memory_registry" and "\<forall>x \<in> set cs. plain_call x" and "c \<in> stored_certs (registry_run sv cs new_registry)"
    and "rs_store sv' = Some memory_registry" and "\<forall>x \<in> set cs'. plain_call x" and "d \<in> stored_certs (registry_run sv' cs' new_registry)"
    and "lg = status_log (registry_run sv cs new_registry) c" and "lg' = status_log (registry_run sv' cs' new_registry) d"
    and "sc_EventHash (last lg) = sc_EventHash (last lg')" and "\<forall>ch \<in> set lg \<union> set lg'. addressable ch"
  shows "map says lg = map says lg' \<or> (\<exists>ch \<in> set lg. \<exists>ch' \<in> set lg'. hashed ch \<noteq> hashed ch' \<and> sha256 (hashed ch) = sha256 (hashed ch'))"
proof (rule same_head_same_log[OF _ _ assms(9,10)])
  show "chain c lg" using reached_ok[OF assms(1,2)] assms(3)
    by (simp add: registry.registry_ok_def well_standing_def stored_certs_def status_log_def assms(7))
  show "chain d lg'" using reached_ok[OF assms(4,5)] assms(6)
    by (simp add: registry.registry_ok_def well_standing_def stored_certs_def status_log_def assms(8))
qed

lemma ex_log_says: "map says (status_log ex_certified ex_cert) = [[''acme'', ''cert_aa'', ''active'', ''certified'']]"
  using ex_certified(4) by (auto simp: ex_stored(2) says_def status_string_def)

theorem status_hash_commits_to_history_witness:
  "map says (status_log ex_certified ex_cert)
     = map says (status_log (registry_run ex_trust (ex_trust_calls @ [CallResolveClient ''acme'' ''agc_a'']) new_registry) ex_cert)
   \<or> (\<exists>ch \<in> set (status_log ex_certified ex_cert). \<exists>ch' \<in> set (status_log ex_certified ex_cert). hashed ch \<noteq> hashed ch' \<and> sha256 (hashed ch) = sha256 (hashed ch'))"
proof -
  let ?cs = "ex_trust_calls @ [CallResolveClient ''acme'' ''agc_a'']"
  have "tw_store (registry_run ex_trust ?cs new_registry) = tw_store ex_certified"
    by (simp add: registry_run_def ex_certified_def[unfolded registry_run_def, symmetric] ResolveClient_def with_store_def ex_trust_store
        andthen_def require_def on_error_def on_registry_def memory_registry_def tm_GetAgentClientByID_def split: prod.splits option.splits)
  then have same: "stored_certs (registry_run ex_trust ?cs new_registry) = stored_certs ex_certified"
    "status_log (registry_run ex_trust ?cs new_registry) = status_log ex_certified" by (simp_all add: stored_certs_def status_log_def fun_eq_iff)
  have "addressable ch" if "ch \<in> set (status_log ex_certified ex_cert)" for ch
  proof -
    have "says ch \<in> set (map says (status_log ex_certified ex_cert))" using that by simp
    then show ?thesis by (simp add: ex_log_says addressable_def)
  qed
  moreover have "\<forall>c \<in> set ?cs. plain_call c" using ex_trust_plain by simp
  ultimately show ?thesis
    using status_hash_commits_to_history[OF ex_trust_store ex_trust_plain _ ex_trust_store _ _ refl refl, of ex_cert ?cs ex_cert] ex_stored(1)
    unfolding same ex_certified_def[symmetric] by simp
qed

subsection \<open>An outage of the live lookup\<close>

text \<open>The live origin only counts when it can be read: if looking up the registered client fails, an assessment goes on with
  the frozen and the presented origin, and grants what a registered AstraClaw origin would have denied.\<close>

lemma unreadable_live_origin_is_ignored:
  assumes "rs_store sv = Some ops" and "canonical t" and "canonical (rq_Capability req)"
    and "activeCertification sv ops t (rq_Release req) w = (Inr (Some c), w1)"
    and "ro_GetAgentClient ops t (rl_Publisher (rq_Release req)) (rl_Product (rq_Release req)) (tw_store w1) = (Inl e, s)"
    and "\<not> isAstraClawOrigin (cf_Origin c)" and "\<not> isAstraClawOrigin (rl_Origin (rq_Release req))"
  shows "Assess sv t req w = (Inr (certified_assessment c False req), w1\<lparr>tw_store := s\<rparr>)"
  using assms by (simp add: Assess_def with_store_def attempt_def on_registry_def)

end
