(* ===== verification/GoBase64.thy ===== *)
theory GoBase64
  imports GoStrings "HOL-Library.Char_ord"
begin

text \<open>
  \<open>encoding/base64\<close> with the standard alphabet and padding, not strict: line breaks are skipped and the unused bits of a
  padded quantum are ignored, as \<open>StdEncoding.DecodeString\<close> does. Encoding is undone by decoding.
\<close>

definition alphabet :: string where
  "alphabet = ''ABCDEFGHIJKLMNOPQRSTUVWXYZabcdefghijklmnopqrstuvwxyz0123456789+/''"

definition sextet_char :: "nat \<Rightarrow> char" where
  "sextet_char n = alphabet ! n"

definition sextet :: "char \<Rightarrow> nat option" where
  "sextet c = map_of (zip alphabet [0..<64]) c"

fun base64_encode :: "string \<Rightarrow> string" where
  "base64_encode [] = []"
| "base64_encode [a] = [sextet_char (byte a div 4), sextet_char (byte a mod 4 * 16), CHR ''='', CHR ''='']"
| "base64_encode [a, b] = [sextet_char (byte a div 4), sextet_char (byte a mod 4 * 16 + byte b div 16),
     sextet_char (byte b mod 16 * 4), CHR ''='']"
| "base64_encode (a # b # c # s) = sextet_char (byte a div 4) # sextet_char (byte a mod 4 * 16 + byte b div 16)
     # sextet_char (byte b mod 16 * 4 + byte c div 64) # sextet_char (byte c mod 64) # base64_encode s"

definition first_byte :: "nat \<Rightarrow> nat \<Rightarrow> char" where "first_byte x y = char_of (x * 4 + y div 16)"
definition second_byte :: "nat \<Rightarrow> nat \<Rightarrow> char" where "second_byte y z = char_of (y mod 16 * 16 + z div 4)"
definition third_byte :: "nat \<Rightarrow> nat \<Rightarrow> char" where "third_byte z u = char_of (z mod 4 * 64 + u)"

fun decode_quanta :: "string \<Rightarrow> string option" where
  "decode_quanta [] = Some []"
| "decode_quanta (a # b # c # d # s) =
     (case (sextet a, sextet b) of
        (Some x, Some y) \<Rightarrow>
          if c = CHR ''='' then if d = CHR ''='' \<and> s = [] then Some [first_byte x y] else None
          else (case sextet c of None \<Rightarrow> None
            | Some z \<Rightarrow>
                if d = CHR ''='' then if s = [] then Some [first_byte x y, second_byte y z] else None
                else (case sextet d of None \<Rightarrow> None
                  | Some u \<Rightarrow> map_option (\<lambda>rest. first_byte x y # second_byte y z # third_byte z u # rest) (decode_quanta s)))
      | _ \<Rightarrow> None)"
| "decode_quanta _ = None"

definition base64_decode :: "string \<Rightarrow> string option" where
  "base64_decode s = decode_quanta (filter (\<lambda>c. c \<noteq> CHR 0x0A \<and> c \<noteq> CHR 0x0D) s)"

lemma alphabet_facts: "length alphabet = 64" "distinct alphabet" "CHR ''='' \<notin> set alphabet" "CHR 0x0A \<notin> set alphabet" "CHR 0x0D \<notin> set alphabet"
  by (simp_all add: alphabet_def)

lemma sextet_sextet_char: "n < 64 \<Longrightarrow> sextet (sextet_char n) = Some n"
  using map_of_zip_nth[of alphabet "[0..<64]" n] by (simp add: alphabet_facts sextet_def sextet_char_def)

lemma sextet_char_plain:
  assumes "n < 64"
  shows "sextet_char n \<noteq> CHR ''='' \<and> sextet_char n \<noteq> CHR 0x0A \<and> sextet_char n \<noteq> CHR 0x0D"
proof -
  have "sextet_char n \<in> set alphabet" using assms nth_mem[of n alphabet] by (simp only: alphabet_facts sextet_char_def)
  with alphabet_facts(3-5) show ?thesis by metis
qed

lemma byte_bound: "byte c < 256"
  by (rule byte_less_256)

lemma sextet_bounds:
  "byte a div 4 < 64" "byte a mod 4 * 16 < 64" "byte a mod 4 * 16 + byte b div 16 < 64" "byte b mod 16 * 4 < 64"
  "byte b mod 16 * 4 + byte c div 64 < 64" "byte c mod 64 < 64"
  using byte_bound[of a] byte_bound[of b] byte_bound[of c] by linarith+

lemma char_of_byte: "char_of (byte c) = c"
  by (simp add: byte_def)

lemma joined_bytes:
  "first_byte (byte a div 4) (byte a mod 4 * 16) = a" "first_byte (byte a div 4) (byte a mod 4 * 16 + byte b div 16) = a"
  "second_byte (byte a mod 4 * 16 + byte b div 16) (byte b mod 16 * 4) = b"
  "second_byte (byte a mod 4 * 16 + byte b div 16) (byte b mod 16 * 4 + byte c div 64) = b"
  "third_byte (byte b mod 16 * 4 + byte c div 64) (byte c mod 64) = c"
proof -
  have b: "byte b div 16 < 16" "byte c div 64 < 4" using byte_bound[of b] byte_bound[of c] by linarith+
  have "byte a div 4 * 4 + byte a mod 4 * 16 div 16 = byte a" by simp
  moreover have "byte a div 4 * 4 + (byte a mod 4 * 16 + byte b div 16) div 16 = byte a" using b by simp
  moreover have "(byte a mod 4 * 16 + byte b div 16) mod 16 * 16 + byte b mod 16 * 4 div 4 = byte b" using b by simp
  moreover have "(byte a mod 4 * 16 + byte b div 16) mod 16 * 16 + (byte b mod 16 * 4 + byte c div 64) div 4 = byte b" using b by simp
  moreover have "(byte b mod 16 * 4 + byte c div 64) mod 4 * 64 + byte c mod 64 = byte c" using b by simp
  ultimately show "first_byte (byte a div 4) (byte a mod 4 * 16) = a" "first_byte (byte a div 4) (byte a mod 4 * 16 + byte b div 16) = a"
    "second_byte (byte a mod 4 * 16 + byte b div 16) (byte b mod 16 * 4) = b"
    "second_byte (byte a mod 4 * 16 + byte b div 16) (byte b mod 16 * 4 + byte c div 64) = b"
    "third_byte (byte b mod 16 * 4 + byte c div 64) (byte c mod 64) = c"
    by (simp_all only: first_byte_def second_byte_def third_byte_def char_of_byte)
qed

lemma decode_quanta_encode: "decode_quanta (base64_encode s) = Some s"
  by (induction s rule: base64_encode.induct)
    (simp_all add: sextet_sextet_char sextet_char_plain sextet_bounds joined_bytes)

lemma encode_no_breaks: "filter (\<lambda>c. c \<noteq> CHR 0x0A \<and> c \<noteq> CHR 0x0D) (base64_encode s) = base64_encode s"
  by (induction s rule: base64_encode.induct) (simp_all add: sextet_char_plain sextet_bounds)

lemma base64_roundtrip [simp]: "base64_decode (base64_encode s) = Some s"
  by (simp add: base64_decode_def encode_no_breaks decode_quanta_encode)

end
