(* ===== verification/GoHttp.thy ===== *)
theory GoHttp
  imports GoBase64
begin

text \<open>
  What the ingress uses of \<open>strings\<close> and \<open>net/http\<close>: \<open>strings.Cut\<close> and \<open>ContainsAny\<close>, header values, and the
  parsing of \<open>Cookie\<close> headers into name/value pairs (\<open>Request.Cookies\<close>). A header map is a function from the
  canonical header name to its values; its order and the casing of names on the wire are \<open>net/http\<close>'s concern.
\<close>

fun cut :: "char \<Rightarrow> string \<Rightarrow> (string \<times> string) option" where
  "cut d [] = None"
| "cut d (c # cs) = (if c = d then Some ([], cs) else map_option (\<lambda>(a, b). (c # a, b)) (cut d cs))"

lemma cut_append: "d \<notin> set a \<Longrightarrow> cut d (a @ d # b) = Some (a, b)"
  by (induction a) auto

lemma cut_Some: "cut d s = Some (a, b) \<Longrightarrow> s = a @ d # b \<and> d \<notin> set a"
  by (induction s arbitrary: a) (auto split: if_splits)

lemma cut_None: "cut d s = None \<longleftrightarrow> d \<notin> set s"
  by (induction s) auto

definition contains_any :: "string \<Rightarrow> string \<Rightarrow> bool" where
  "contains_any s cs \<longleftrightarrow> list_ex (\<lambda>c. c \<in> set cs) s"

subsection \<open>Cookies\<close>

definition is_ascii_space :: "char \<Rightarrow> bool" where
  "is_ascii_space c \<longleftrightarrow> c \<in> {CHR 0x20, CHR 0x09, CHR 0x0A, CHR 0x0D}"

definition trim_ascii :: "string \<Rightarrow> string" where
  "trim_ascii s = rev (dropWhile is_ascii_space (rev (dropWhile is_ascii_space s)))"

definition is_token_char :: "char \<Rightarrow> bool" where
  "is_token_char c \<longleftrightarrow> is_lower c \<or> is_upper c \<or> is_digit c \<or> c \<in> set ''!#$%&*+-.^_`|~'' \<or> byte c = 39"

definition is_token :: "string \<Rightarrow> bool" where
  "is_token s \<longleftrightarrow> s \<noteq> [] \<and> list_all is_token_char s"

definition valid_cookie_byte :: "char \<Rightarrow> bool" where
  "valid_cookie_byte c \<longleftrightarrow> 32 \<le> byte c \<and> byte c < 127 \<and> byte c \<notin> {34, 59, 92}"

text \<open>A pair of double quotes around the value is dropped; any byte outside the allowed ones drops the cookie.\<close>

definition unquoted :: "string \<Rightarrow> string" where
  "unquoted raw = (if 1 < length raw \<and> byte (hd raw) = 34 \<and> byte (last raw) = 34 then butlast (tl raw) else raw)"

definition parse_cookie :: "string \<Rightarrow> (string \<times> string) option" where
  "parse_cookie part =
     (let (name, val) = (case cut (CHR ''='') part of None \<Rightarrow> (part, []) | Some p \<Rightarrow> p); name = trim_ascii name; val = unquoted val
      in if is_token name \<and> list_all valid_cookie_byte val then Some (name, val) else None)"

definition read_cookies :: "string list \<Rightarrow> (string \<times> string) list" where
  "read_cookies lines =
     List.map_filter parse_cookie
       (filter (\<lambda>p. p \<noteq> []) (map trim_ascii (concat (map (split_on (CHR '';'') \<circ> trim_ascii) lines))))"

text \<open>A cookie that comes out of the parser holds no separator, so it cannot smuggle in a second one.\<close>

lemma parse_cookie_plain: "parse_cookie part = Some (n, v) \<Longrightarrow> is_token n \<and> list_all valid_cookie_byte v"
  unfolding parse_cookie_def Let_def by (auto simp only: split: prod.splits if_splits option.splits)

lemma cookie_values_plain:
  assumes "(n, v) \<in> set (read_cookies lines)"
  shows "is_token n \<and> list_all valid_cookie_byte v"
proof -
  obtain part where "parse_cookie part = Some (n, v)"
    using assms unfolding read_cookies_def map_filter_def by auto
  then show ?thesis by (rule parse_cookie_plain)
qed

end
