(* ===== verification/TrustContext.thy ===== *)
theory TrustContext
  imports AuditChain RuntimeTypes GoHttp
begin

text \<open>
  \<^verbatim>\<open>internal/trust/context.go\<close>: the one credential-verified principal context of a request, derived at HTTP ingress.
  The credential verifiers, the organisation snapshots and the audit sink are other packages behind interfaces: a
  verifier is what it answers for a token, the sink is the list of the rejections it was handed. A deployment's
  configuration is a record, a nil interface is \<open>None\<close>. The trail of a request is the durable list and the log lines.
\<close>

datatype context_error =
    ErrNoTrustedContext | ErrUnauthenticated | ErrInvalidCredential | ErrConflictingCredentials
  | ErrCredentialUnavailable | ErrForgedIdentity | ErrCredentialRejected | ErrSourceUnavailable

type_synonym context_go_error = "context_error go_error"

text \<open>\<open>SourceUnset\<close> is the empty string a rejection carries when no credential kind is known.\<close>

datatype Source =
    SourceUnset | SourceBrowserSession | SourceBrowserAccessToken | SourceServiceCredential | SourceAccessTicket | SourceStepGrant

fun source_name :: "Source \<Rightarrow> string" where
  "source_name SourceUnset = []"
| "source_name SourceBrowserSession = ''browser_session''"
| "source_name SourceBrowserAccessToken = ''browser_access_token''"
| "source_name SourceServiceCredential = ''service_credential''"
| "source_name SourceAccessTicket = ''access_ticket''"
| "source_name SourceStepGrant = ''step_grant''"

definition OriginHeader :: string where "OriginHeader = ''X-Agent-Origin''"
definition OriginAstraClaw :: string where "OriginAstraClaw = ''astraclaw''"
definition OriginXiaozhi :: string where "OriginXiaozhi = ''xiaozhi''"
definition UnregisteredReleaseRef :: string where "UnregisteredReleaseRef = ''unregistered''"
definition UnboundOrgSnapshotRef :: string where "UnboundOrgSnapshotRef = ''orgv_unbound''"
definition DefaultSessionCookieName :: string where "DefaultSessionCookieName = ''nexus_browser_session''"
definition DefaultBrowserClientRef :: string where "DefaultBrowserClientRef = ''console''"
definition maxOpaqueCredentialLength :: nat where "maxOpaqueCredentialLength = 4096"
definition maxOriginLength :: nat where "maxOriginLength = 128"
definition serviceContextTTL :: duration where "serviceContextTTL = 5 * minute"
definition maxLoggableClientIDLength :: nat where "maxLoggableClientIDLength = 128"

definition ReasonForgedIdentityHeader :: string where "ReasonForgedIdentityHeader = ''forged_identity_header''"
definition ReasonConflictingCredentials :: string where "ReasonConflictingCredentials = ''conflicting_credentials''"
definition ReasonConflictingOrigin :: string where "ReasonConflictingOrigin = ''conflicting_origin''"
definition ReasonMalformedOrigin :: string where "ReasonMalformedOrigin = ''malformed_origin''"
definition ReasonCredentialRejected :: string where "ReasonCredentialRejected = ''credential_rejected''"
definition ReasonCrossTenant :: string where "ReasonCrossTenant = ''cross_tenant_credential''"
definition ReasonUnsupportedScheme :: string where "ReasonUnsupportedScheme = ''unsupported_authorization_scheme''"
definition ReasonMalformedCredential :: string where "ReasonMalformedCredential = ''malformed_credential''"
definition ReasonSourceNotConfigured :: string where "ReasonSourceNotConfigured = ''credential_source_not_configured''"
definition FieldExpiresAt :: string where "FieldExpiresAt = ''expires_at''"

subsection \<open>Identities the verifiers return\<close>

record SessionIdentity =
  si_TenantRef :: string
  si_PrincipalRef :: string
  si_ClientRef :: string
  si_ExpiresAt :: time
  si_IdleExpiresAt :: time
  si_AbsoluteExpiresAt :: time

record TicketIdentity =
  ti_TenantRef :: string
  ti_PrincipalRef :: string
  ti_TicketRef :: string
  ti_ExpiresAt :: time

record GrantIdentity =
  gi_TenantRef :: string
  gi_PrincipalRef :: string
  gi_TicketRef :: string
  gi_GrantRef :: string
  gi_ExpiresAt :: time

record ServiceIdentity =
  vi_TenantRef :: string
  vi_ClientRef :: string
  vi_ReleaseRef :: string

subsection \<open>Rejections, contexts and requests\<close>

record Rejection =
  rj_TenantRef :: string
  rj_PrincipalRef :: string
  rj_Source :: Source
  rj_Reason :: string
  rj_Field :: string
  rj_Path :: string
  rj_Origin :: string
  rj_ClaimedClientID :: string

definition no_rejection :: Rejection where
  "no_rejection = \<lparr>rj_TenantRef = [], rj_PrincipalRef = [], rj_Source = SourceUnset, rj_Reason = [], rj_Field = [],
     rj_Path = [], rj_Origin = [], rj_ClaimedClientID = []\<rparr>"

record TrustedContext =
  tc_Principal :: PrincipalContext
  tc_Source :: Source
  tc_OrgVersion :: "64 word"
  tc_CaseTicketRef :: string
  tc_Origin :: string
  tc_ConnectorCapabilityAllowed :: bool
  tc_BrowserIdleExpiresAt :: time
  tc_BrowserAbsoluteExpiresAt :: time

record BrowserCredential =
  bc_Source :: Source
  bc_Token :: string

record resolution =
  rs_ctx :: TrustedContext
  rs_err :: "context_go_error option"

text \<open>A request: its path, its header values by canonical name, and what its context carries under the resolver's key.\<close>

record request =
  rq_Path :: string
  rq_Header :: "string \<Rightarrow> string list"
  rq_Bound :: "resolution option"

definition rq_Cookies :: "request \<Rightarrow> (string \<times> string) list" where
  "rq_Cookies req = read_cookies (rq_Header req ''Cookie'')"

definition forgedIdentityHeaders :: "string list" where
  "forgedIdentityHeaders =
     [''X-Enterprise-Id'', ''X-Actor-User-Id'', ''X-Tenant-Ref'', ''X-Principal-Ref'', ''X-Org-Version'', ''X-Org-Unit-Id'',
      ''X-Org-Snapshot-Ref'', ''X-Trust-Class'', ''X-Client-Version'', ''X-Client-Release'', ''X-Agent-Client-Ref'',
      ''X-Agent-Release-Ref'', ''X-Risk-Authority'', ''X-Approval-Authority'']"

definition forgedIdentityFields :: "string list" where
  "forgedIdentityFields =
     [''enterprise_id'', ''actor_user_id'', ''tenant_ref'', ''principal_ref'', ''org_version'', ''org_unit_id'',
      ''org_snapshot_ref'', ''trust_class'', ''client_version'', ''client_release'', ''agent_client_ref'',
      ''agent_release_ref'', ''risk_authority'', ''approval_authority'']"

definition ForgedIdentityField :: "string \<Rightarrow> bool" where
  "ForgedIdentityField name \<longleftrightarrow> name \<in> set forgedIdentityFields"

definition OrgSnapshotRef :: "64 word \<Rightarrow> string" where
  "OrgSnapshotRef version = ''orgv_'' @ decimal_int (sint version)"

definition HTTPStatus :: "context_go_error option \<Rightarrow> nat" where
  "HTTPStatus err =
     (case err of None \<Rightarrow> 200
      | Some e \<Rightarrow>
          if errors_is e ErrCredentialUnavailable then 503
          else if errors_is e ErrForgedIdentity then 400
          else 401)"

subsection \<open>Configuration\<close>

type_synonym 'i verifier = "(string \<Rightarrow> context_go_error + 'i) option"

record ResolverConfig =
  rc_TenantRef :: string
  rc_SessionCookieName :: string
  rc_BrowserClientRef :: string
  rc_Sessions :: "SessionIdentity verifier"
  rc_BrowserAccessTokens :: "SessionIdentity verifier"
  rc_AccessTickets :: "TicketIdentity verifier"
  rc_StepGrants :: "GrantIdentity verifier"
  rc_Services :: "(string \<Rightarrow> string \<Rightarrow> context_go_error + ServiceIdentity) option"
  rc_OrgSnapshots :: "(string \<Rightarrow> string \<Rightarrow> context_go_error + 64 word) option"
  rc_Audit :: bool
  rc_Logger :: bool
  rc_Protected :: "(request \<Rightarrow> bool) option"
  rc_Now :: time

text \<open>A nil clock is \<open>time.Now\<close>: \<open>rc_Now\<close> is the reading of whichever clock serves the request.\<close>

definition NewResolver :: "ResolverConfig \<Rightarrow> context_go_error + ResolverConfig" where
  "NewResolver cfg =
     (if \<not> canonical (rc_TenantRef cfg) then Inl (Message ''trust resolver requires a canonical tenant reference'')
      else Inr (cfg\<lparr>rc_SessionCookieName := (if rc_SessionCookieName cfg = [] then DefaultSessionCookieName else rc_SessionCookieName cfg),
                  rc_BrowserClientRef := (if rc_BrowserClientRef cfg = [] then DefaultBrowserClientRef else rc_BrowserClientRef cfg),
                  rc_Logger := True\<rparr>))"

subsection \<open>Parsing what the caller presents\<close>

definition opaqueCredential :: "string \<Rightarrow> bool" where
  "opaqueCredential value \<longleftrightarrow> canonical value \<and> length value \<le> maxOpaqueCredentialLength"

definition decodeBasicCredential :: "string \<Rightarrow> (string \<times> string) option" where
  "decodeBasicCredential value =
     (case base64_decode value of None \<Rightarrow> None
      | Some raw \<Rightarrow>
          if length raw = 0 \<or> length raw > 1024 then None
          else (case cut (CHR '':'') raw of None \<Rightarrow> None
            | Some (clientID, secret) \<Rightarrow>
                if \<not> canonical clientID \<or> secret = [] \<or> trim_space secret \<noteq> secret then None else Some (clientID, secret)))"

definition forgedIdentityHeader :: "(string \<Rightarrow> string list) \<Rightarrow> string option" where
  "forgedIdentityHeader header = find (\<lambda>name. length (header name) > 0) forgedIdentityHeaders"

definition declaredOrigin :: "(string \<Rightarrow> string list) \<Rightarrow> string option" where
  "declaredOrigin header =
     (case header OriginHeader of
        [] \<Rightarrow> Some []
      | [value] \<Rightarrow> if \<not> canonical value \<or> length value > maxOriginLength then None else Some value
      | _ \<Rightarrow> None)"

definition connectorCapabilityAllowed :: "Source \<Rightarrow> string \<Rightarrow> bool" where
  "connectorCapabilityAllowed source origin =
     (if source = SourceServiceCredential then False
      else if lower_for_tokens origin \<in> {OriginAstraClaw, OriginXiaozhi} then False
      else True)"

definition loggableClientID :: "string \<Rightarrow> string" where
  "loggableClientID clientID =
     (if length clientID > maxLoggableClientIDLength then ''<non-canonical>''
      else if list_ex (\<lambda>c. byte c < 0x21 \<or> byte c > 0x7e) clientID then ''<non-canonical>''
      else clientID)"

subsection \<open>The trail: durable rejections and log lines\<close>

record trail =
  tt_Durable :: "Rejection list"
  tt_Log :: "(string \<times> string) list list"

type_synonym 'a ingress = "(context_error, trail, 'a) effect"

definition log_line :: "Rejection \<Rightarrow> (string \<times> string) list" where
  "log_line rejection =
     [(''tenant_ref'', rj_TenantRef rejection), (''reason'', rj_Reason rejection), (''path'', rj_Path rejection),
      (''credential_source'', source_name (rj_Source rejection))]
     @ (if rj_Field rejection \<noteq> [] then [(''field'', rj_Field rejection)] else [])
     @ (if rj_Origin rejection \<noteq> [] then [(''declared_origin'', rj_Origin rejection)] else [])
     @ (if rj_ClaimedClientID rejection \<noteq> [] then [(''claimed_client_id'', loggableClientID (rj_ClaimedClientID rejection))] else [])"

definition resolver_audit :: "ResolverConfig \<Rightarrow> Rejection \<Rightarrow> unit ingress" where
  "resolver_audit r rejection w =
     (let rejection = (if rj_TenantRef rejection = [] then rejection\<lparr>rj_TenantRef := rc_TenantRef r\<rparr> else rejection);
          w = (if rc_Logger r then w\<lparr>tt_Log := tt_Log w @ [log_line rejection]\<rparr> else w)
      in if \<not> rc_Audit r then ret () w
         else ret () (w\<lparr>tt_Durable := tt_Durable w @ [rejection\<lparr>rj_ClaimedClientID := []\<rparr>]\<rparr>))"

text \<open>Most refusals audit a rejection and return the error.\<close>

definition refuse :: "ResolverConfig \<Rightarrow> Rejection \<Rightarrow> context_error \<Rightarrow> 'a ingress" where
  "refuse r rejection err = andthen (resolver_audit r rejection) (\<lambda>_. fail (Sentinel err))"

definition errJoinUnavailable :: "context_go_error option \<Rightarrow> context_go_error" where
  "errJoinUnavailable err =
     (case err of None \<Rightarrow> Sentinel ErrCredentialUnavailable | Some e \<Rightarrow> Joined [Sentinel ErrCredentialUnavailable, e])"

definition credentialFailure ::
  "ResolverConfig \<Rightarrow> request \<Rightarrow> Source \<Rightarrow> string \<Rightarrow> string \<Rightarrow> context_go_error \<Rightarrow> 'a ingress" where
  "credentialFailure r req source origin claimedClientID err =
     (if errors_is err ErrCredentialRejected
      then refuse r (no_rejection\<lparr>rj_Source := source, rj_Reason := ReasonCredentialRejected, rj_Path := rq_Path req,
             rj_Origin := origin, rj_ClaimedClientID := claimedClientID\<rparr>) ErrInvalidCredential
      else fail (errJoinUnavailable (Some err)))"

subsection \<open>From a verified identity to a context\<close>

record principalInput =
  pi_source :: Source
  pi_tenantRef :: string
  pi_principalRef :: string
  pi_clientRef :: string
  pi_releaseRef :: string
  pi_caseTicketRef :: string
  pi_expiresAt :: time
  pi_browserIdleExpiresAt :: time
  pi_browserAbsoluteExpiresAt :: time
  pi_expiring :: bool
  pi_origin :: string

definition input_rejection :: "request \<Rightarrow> principalInput \<Rightarrow> string \<Rightarrow> string \<Rightarrow> Rejection" where
  "input_rejection req inp reason field = no_rejection\<lparr>rj_TenantRef := pi_tenantRef inp, rj_PrincipalRef := pi_principalRef inp,
     rj_Source := pi_source inp, rj_Reason := reason, rj_Field := field, rj_Path := rq_Path req, rj_Origin := pi_origin inp\<rparr>"

definition resolve_org :: "ResolverConfig \<Rightarrow> principalInput \<Rightarrow> (64 word \<times> string) ingress" where
  "resolve_org r inp =
     (if pi_source inp = SourceServiceCredential then ret (0, UnboundOrgSnapshotRef)
      else (case rc_OrgSnapshots r of None \<Rightarrow> fail (Sentinel ErrCredentialUnavailable)
        | Some snapshots \<Rightarrow>
            (case snapshots (pi_tenantRef inp) (pi_principalRef inp) of
               Inl e \<Rightarrow> fail (errJoinUnavailable (Some e))
             | Inr version \<Rightarrow>
                 if sint version < 1 then fail (errJoinUnavailable None) else ret (version, OrgSnapshotRef version))))"

definition derived_principal :: "ResolverConfig \<Rightarrow> principalInput \<Rightarrow> string \<Rightarrow> time \<Rightarrow> PrincipalContext" where
  "derived_principal r inp orgSnapshotRef expires =
     \<lparr>pc_TenantRef = pi_tenantRef inp, pc_PrincipalRef = pi_principalRef inp, pc_AgentClientRef = pi_clientRef inp,
      pc_AgentReleaseRef = pi_releaseRef inp, pc_TrustClass = TrustFirstParty, pc_OrgSnapshotRef = orgSnapshotRef,
      pc_VerifiedAt = rc_Now r, pc_ExpiresAt = expires\<rparr>"

definition principalContext :: "ResolverConfig \<Rightarrow> request \<Rightarrow> principalInput \<Rightarrow> TrustedContext ingress" where
  "principalContext r req inp =
     (if pi_tenantRef inp \<noteq> rc_TenantRef r then refuse r (input_rejection req inp ReasonCrossTenant []) ErrInvalidCredential
      else if \<not> canonical (pi_principalRef inp) \<or> \<not> canonical (pi_clientRef inp) \<or> \<not> canonical (pi_releaseRef inp)
      then refuse r (input_rejection req inp ReasonMalformedCredential []) ErrInvalidCredential
      else andthen (resolve_org r inp) (\<lambda>(orgVersion, orgSnapshotRef).
        let now = rc_Now r; expires = pi_expiresAt inp in
        if pi_expiring inp \<and> (is_zero_time expires \<or> \<not> expires > now)
        then refuse r (input_rejection req inp ReasonCredentialRejected FieldExpiresAt) ErrInvalidCredential
        else
          let expires = (if pi_expiring inp then expires else now + serviceContextTTL);
              principal = derived_principal r inp orgSnapshotRef expires in
          case PrincipalContext_Validate principal of
            Some err \<Rightarrow> fail (Joined [Sentinel ErrCredentialUnavailable, Invalid err])
          | None \<Rightarrow> ret \<lparr>tc_Principal = principal, tc_Source = pi_source inp, tc_OrgVersion = orgVersion,
              tc_CaseTicketRef = pi_caseTicketRef inp, tc_Origin = pi_origin inp,
              tc_ConnectorCapabilityAllowed = connectorCapabilityAllowed (pi_source inp) (pi_origin inp),
              tc_BrowserIdleExpiresAt = pi_browserIdleExpiresAt inp,
              tc_BrowserAbsoluteExpiresAt = pi_browserAbsoluteExpiresAt inp\<rparr>))"

subsection \<open>Credential kinds\<close>

definition source_rejection :: "request \<Rightarrow> string \<Rightarrow> Source \<Rightarrow> string \<Rightarrow> Rejection" where
  "source_rejection req origin source reason =
     no_rejection\<lparr>rj_Reason := reason, rj_Source := source, rj_Path := rq_Path req, rj_Origin := origin\<rparr>"

definition session_input :: "ResolverConfig \<Rightarrow> Source \<Rightarrow> string \<Rightarrow> string \<Rightarrow> SessionIdentity \<Rightarrow> principalInput" where
  "session_input r source clientRef origin identity =
     \<lparr>pi_source = source, pi_tenantRef = si_TenantRef identity, pi_principalRef = si_PrincipalRef identity,
      pi_clientRef = clientRef, pi_releaseRef = UnregisteredReleaseRef, pi_caseTicketRef = [],
      pi_expiresAt = si_ExpiresAt identity, pi_browserIdleExpiresAt = si_IdleExpiresAt identity,
      pi_browserAbsoluteExpiresAt = si_AbsoluteExpiresAt identity, pi_expiring = True, pi_origin = origin\<rparr>"

definition case_input :: "ResolverConfig \<Rightarrow> Source \<Rightarrow> string \<Rightarrow> string \<Rightarrow> string \<Rightarrow> string \<Rightarrow> time \<Rightarrow> principalInput" where
  "case_input r source origin tenantRef principalRef ticketRef expiresAt =
     \<lparr>pi_source = source, pi_tenantRef = tenantRef, pi_principalRef = principalRef,
      pi_clientRef = rc_BrowserClientRef r, pi_releaseRef = UnregisteredReleaseRef, pi_caseTicketRef = ticketRef,
      pi_expiresAt = expiresAt, pi_browserIdleExpiresAt = 0, pi_browserAbsoluteExpiresAt = 0, pi_expiring = True,
      pi_origin = origin\<rparr>"

definition service_input :: "string \<Rightarrow> ServiceIdentity \<Rightarrow> principalInput" where
  "service_input origin identity =
     \<lparr>pi_source = SourceServiceCredential, pi_tenantRef = vi_TenantRef identity, pi_principalRef = vi_ClientRef identity,
      pi_clientRef = vi_ClientRef identity, pi_releaseRef = vi_ReleaseRef identity, pi_caseTicketRef = [],
      pi_expiresAt = 0, pi_browserIdleExpiresAt = 0, pi_browserAbsoluteExpiresAt = 0, pi_expiring = False, pi_origin = origin\<rparr>"

text \<open>The three checks the opaque credentials share: the kind is configured, the token is well-formed, the verifier accepts it.\<close>

definition verify_opaque ::
  "ResolverConfig \<Rightarrow> request \<Rightarrow> string \<Rightarrow> Source \<Rightarrow> 'i verifier \<Rightarrow> string \<Rightarrow> 'i ingress" where
  "verify_opaque r req origin source verifier token =
     (case verifier of None \<Rightarrow> refuse r (source_rejection req origin source ReasonSourceNotConfigured) ErrInvalidCredential
      | Some verify \<Rightarrow>
          if \<not> opaqueCredential token
          then refuse r (source_rejection req origin source ReasonMalformedCredential) ErrInvalidCredential
          else (case verify token of
            Inl err \<Rightarrow> credentialFailure r req source origin [] err
          | Inr identity \<Rightarrow> ret identity))"

definition resolveSession :: "ResolverConfig \<Rightarrow> request \<Rightarrow> string \<Rightarrow> string \<Rightarrow> TrustedContext ingress" where
  "resolveSession r req origin token =
     andthen (verify_opaque r req origin SourceBrowserSession (rc_Sessions r) token) (\<lambda>identity.
     principalContext r req (session_input r SourceBrowserSession (rc_BrowserClientRef r) origin identity))"

definition resolve_basic :: "ResolverConfig \<Rightarrow> request \<Rightarrow> string \<Rightarrow> string \<Rightarrow> TrustedContext ingress" where
  "resolve_basic r req origin value =
     (case rc_Services r of
        None \<Rightarrow> refuse r (source_rejection req origin SourceServiceCredential ReasonSourceNotConfigured) ErrInvalidCredential
      | Some verify \<Rightarrow>
          (case decodeBasicCredential value of
             None \<Rightarrow> refuse r (source_rejection req origin SourceServiceCredential ReasonMalformedCredential) ErrInvalidCredential
           | Some (clientID, secret) \<Rightarrow>
               (case verify clientID secret of
                  Inl err \<Rightarrow> credentialFailure r req SourceServiceCredential origin clientID err
                | Inr identity \<Rightarrow> principalContext r req (service_input origin identity))))"

text \<open>An \<open>Authorization\<close> value is a scheme and, after the first space, the trimmed credential.\<close>

definition split_authorization :: "string \<Rightarrow> string \<times> string \<times> bool" where
  "split_authorization header =
     (case cut (CHR '' '') header of None \<Rightarrow> (header, [], False) | Some (scheme, value) \<Rightarrow> (scheme, trim_space value, True))"

definition resolveAuthorization :: "ResolverConfig \<Rightarrow> request \<Rightarrow> string \<Rightarrow> string \<Rightarrow> TrustedContext ingress" where
  "resolveAuthorization r req origin header =
     (case split_authorization header of (scheme, value, found) \<Rightarrow>
      if \<not> found \<or> value = [] \<or> contains_any value [CHR '' '', CHR 0x09]
      then refuse r (source_rejection req origin SourceUnset ReasonMalformedCredential) ErrInvalidCredential
      else if equal_fold scheme ''caseticket'' then
        andthen (verify_opaque r req origin SourceAccessTicket (rc_AccessTickets r) value) (\<lambda>identity.
        principalContext r req (case_input r SourceAccessTicket origin (ti_TenantRef identity) (ti_PrincipalRef identity)
          (ti_TicketRef identity) (ti_ExpiresAt identity)))
      else if equal_fold scheme ''bearer'' then
        andthen (verify_opaque r req origin SourceBrowserAccessToken (rc_BrowserAccessTokens r) value) (\<lambda>identity.
        principalContext r req (session_input r SourceBrowserAccessToken
          (if si_ClientRef identity = [] then rc_BrowserClientRef r else si_ClientRef identity) origin identity))
      else if equal_fold scheme ''stepgrant'' then
        andthen (verify_opaque r req origin SourceStepGrant (rc_StepGrants r) value) (\<lambda>identity.
        principalContext r req (case_input r SourceStepGrant origin (gi_TenantRef identity) (gi_PrincipalRef identity)
          (gi_TicketRef identity) (gi_ExpiresAt identity)))
      else if equal_fold scheme ''basic'' then resolve_basic r req origin value
      else refuse r (source_rejection req origin SourceUnset ReasonUnsupportedScheme\<lparr>rj_Field := scheme\<rparr>) ErrInvalidCredential)"

definition session_cookies :: "string \<Rightarrow> request \<Rightarrow> string list" where
  "session_cookies name req = map snd (filter (\<lambda>cookie. fst cookie = name) (rq_Cookies req))"

definition resolve :: "ResolverConfig \<Rightarrow> request \<Rightarrow> string \<Rightarrow> TrustedContext ingress" where
  "resolve r req origin =
     (let sessionCookies = session_cookies (rc_SessionCookieName r) req;
          authorizations = rq_Header req ''Authorization'' in
      if length sessionCookies > 1 \<or> length authorizations > 1 \<or> (length sessionCookies = 1 \<and> length authorizations > 0)
      then refuse r (source_rejection req origin SourceUnset ReasonConflictingCredentials) ErrConflictingCredentials
      else (case (sessionCookies, authorizations) of
          (token # _, _) \<Rightarrow> resolveSession r req origin token
        | ([], header # _) \<Rightarrow> resolveAuthorization r req origin header
        | ([], []) \<Rightarrow> fail (Sentinel ErrUnauthenticated)))"

subsection \<open>Ingress\<close>

record response =
  rp_Status :: nat
  rp_Headers :: "(string \<times> string) list"
  rp_Body :: string

definition writeTrustRejection :: "nat \<Rightarrow> response" where
  "writeTrustRejection status =
     \<lparr>rp_Status = status,
      rp_Headers = [(''Cache-Control'', ''no-store''), (''Pragma'', ''no-cache''), (''Content-Type'', ''application/json'')],
      rp_Body = ''{'' @ [CHR 0x22] @ ''error'' @ [CHR 0x22] @ '':'' @ [CHR 0x22] @ ''request_failed'' @ [CHR 0x22] @ ''}'' @ [CHR 0x0A]\<rparr>"

text \<open>What the middleware does with a request: it answers it, or hands it to the wrapped handler.\<close>

datatype outcome = Answered response | Handed request

definition header_rejection :: "request \<Rightarrow> string \<Rightarrow> string \<Rightarrow> Rejection" where
  "header_rejection req reason field = no_rejection\<lparr>rj_Reason := reason, rj_Field := field, rj_Path := rq_Path req\<rparr>"

definition origin_reason :: "request \<Rightarrow> string" where
  "origin_reason req = (if length (rq_Header req OriginHeader) > 1 then ReasonConflictingOrigin else ReasonMalformedOrigin)"

definition Middleware :: "ResolverConfig \<Rightarrow> request \<Rightarrow> trail \<Rightarrow> outcome \<times> trail" where
  "Middleware r req w =
     (case forgedIdentityHeader (rq_Header req) of
        Some header \<Rightarrow> (Answered (writeTrustRejection 400), snd (resolver_audit r (header_rejection req ReasonForgedIdentityHeader header) w))
      | None \<Rightarrow>
          (case declaredOrigin (rq_Header req) of
             None \<Rightarrow> (Answered (writeTrustRejection 400), snd (resolver_audit r (header_rejection req (origin_reason req) OriginHeader) w))
           | Some origin \<Rightarrow>
               (case rc_Protected r of
                  Some protected \<Rightarrow>
                    if protected req then
                      (case resolve r req origin w of
                         (Inl err, w') \<Rightarrow> (Answered (writeTrustRejection (HTTPStatus (Some err))), w')
                       | (Inr resolved, w') \<Rightarrow> (Handed (req\<lparr>rq_Bound := Some \<lparr>rs_ctx = resolved, rs_err = None\<rparr>\<rparr>), w'))
                    else (Handed req, w)
                | None \<Rightarrow> (Handed req, w))))"

text \<open>A nil request is \<open>None\<close>.\<close>

definition FromRequest :: "request option \<Rightarrow> context_go_error + TrustedContext" where
  "FromRequest req =
     (case req of None \<Rightarrow> Inl (Sentinel ErrNoTrustedContext)
      | Some rq \<Rightarrow>
          (case rq_Bound rq of None \<Rightarrow> Inl (Sentinel ErrNoTrustedContext)
           | Some bound \<Rightarrow> (case rs_err bound of Some err \<Rightarrow> Inl err | None \<Rightarrow> Inr (rs_ctx bound))))"

definition ContextFromRequest :: "request option \<Rightarrow> context_go_error + PrincipalContext" where
  "ContextFromRequest req = (case FromRequest req of Inl err \<Rightarrow> Inl err | Inr bound \<Rightarrow> Inr (tc_Principal bound))"

definition browserCredentialValue :: "request \<Rightarrow> string \<Rightarrow> Source \<Rightarrow> BrowserCredential option" where
  "browserCredentialValue req cookieName source =
     (case source of
        SourceBrowserSession \<Rightarrow>
          (case session_cookies cookieName req of
             [token] \<Rightarrow> if opaqueCredential token then Some \<lparr>bc_Source = source, bc_Token = token\<rparr> else None
           | _ \<Rightarrow> None)
      | SourceBrowserAccessToken \<Rightarrow>
          (case rq_Header req ''Authorization'' of
             [header] \<Rightarrow>
               (case split_authorization header of (scheme, value, found) \<Rightarrow>
                if \<not> found \<or> \<not> equal_fold scheme ''bearer'' \<or> \<not> opaqueCredential value \<or> contains_any value [CHR '' '', CHR 0x09]
                then None else Some \<lparr>bc_Source = source, bc_Token = value\<rparr>)
           | _ \<Rightarrow> None)
      | _ \<Rightarrow> None)"

text \<open>
  The browser endpoints get the context and the presented credential; a refusal may still carry the bearer credential, so
  that a logout can be retried. A nil resolver or request is \<open>None\<close>.
\<close>

definition no_credential :: BrowserCredential where
  "no_credential = \<lparr>bc_Source = SourceUnset, bc_Token = []\<rparr>"

type_synonym browser_result = "(context_go_error + TrustedContext) \<times> BrowserCredential"

definition ResolveBrowserRequest :: "ResolverConfig option \<Rightarrow> request option \<Rightarrow> trail \<Rightarrow> browser_result \<times> trail" where
  "ResolveBrowserRequest resolver request w =
     (case (resolver, request) of
        (Some r, Some req) \<Rightarrow>
          (case forgedIdentityHeader (rq_Header req) of
             Some header \<Rightarrow> ((Inl (Sentinel ErrForgedIdentity), no_credential),
               snd (resolver_audit r (header_rejection req ReasonForgedIdentityHeader header) w))
           | None \<Rightarrow>
               (case declaredOrigin (rq_Header req) of
                  None \<Rightarrow> ((Inl (Sentinel ErrForgedIdentity), no_credential),
                    snd (resolver_audit r (header_rejection req (origin_reason req) OriginHeader) w))
                | Some origin \<Rightarrow>
                    (case resolve r req origin w of
                       (Inl err, w') \<Rightarrow>
                         ((Inl err, case browserCredentialValue req (rc_SessionCookieName r) SourceBrowserAccessToken of
                             Some credential \<Rightarrow> credential | None \<Rightarrow> no_credential), w')
                     | (Inr resolved, w') \<Rightarrow>
                         (case browserCredentialValue req (rc_SessionCookieName r) (tc_Source resolved) of
                            None \<Rightarrow> ((Inl (Sentinel ErrInvalidCredential), no_credential),
                              snd (resolver_audit r (source_rejection req origin (tc_Source resolved) ReasonCredentialRejected) w'))
                          | Some credential \<Rightarrow> ((Inr resolved, credential), w')))))
      | _ \<Rightarrow> ((Inl (Sentinel ErrUnauthenticated), no_credential), w))"

end
