(* ===== verification/TrustContextLaws.thy ===== *)
theory TrustContextLaws
  imports TrustContext
begin

text \<open>
  The laws of the ingress. \<open>vouches\<close> says, without any of the resolver's control flow, what it takes for a verifier to
  stand behind an identity: exactly one credential, of a configured kind, well-formed, accepted by its verifier.
  \<open>admissible\<close> says when such an identity becomes a context, \<open>context_of\<close> which one. The resolver is shown to bind
  exactly these contexts, and to leave one durable row for every credential it refuses.
\<close>

subsection \<open>The specification\<close>

definition presents :: "ResolverConfig \<Rightarrow> request \<Rightarrow> string \<Rightarrow> string \<Rightarrow> bool" where
  "presents r req scheme value \<longleftrightarrow>
     session_cookies (rc_SessionCookieName r) req = []
     \<and> (\<exists>header presented. rq_Header req ''Authorization'' = [header] \<and> split_authorization header = (presented, value, True)
          \<and> equal_fold presented scheme)
     \<and> value \<noteq> [] \<and> \<not> contains_any value [CHR '' '', CHR 0x09]"

definition accepts :: "'i verifier \<Rightarrow> string \<Rightarrow> 'i \<Rightarrow> bool" where
  "accepts verifier token identity \<longleftrightarrow>
     opaqueCredential token \<and> (case verifier of None \<Rightarrow> False | Some verify \<Rightarrow> verify token = Inr identity)"

inductive vouches :: "ResolverConfig \<Rightarrow> request \<Rightarrow> string \<Rightarrow> principalInput \<Rightarrow> bool"
  for r :: ResolverConfig and req :: request and origin :: string where
  session:
    "vouches r req origin (session_input r SourceBrowserSession (rc_BrowserClientRef r) origin identity)"
    if "session_cookies (rc_SessionCookieName r) req = [token]" and "rq_Header req ''Authorization'' = []"
      and "accepts (rc_Sessions r) token identity"
| ticket:
    "vouches r req origin (case_input r SourceAccessTicket origin (ti_TenantRef identity) (ti_PrincipalRef identity)
       (ti_TicketRef identity) (ti_ExpiresAt identity))"
    if "presents r req ''caseticket'' token" and "accepts (rc_AccessTickets r) token identity"
| bearer:
    "vouches r req origin (session_input r SourceBrowserAccessToken
       (if si_ClientRef identity = [] then rc_BrowserClientRef r else si_ClientRef identity) origin identity)"
    if "presents r req ''bearer'' token" and "accepts (rc_BrowserAccessTokens r) token identity"
| grant:
    "vouches r req origin (case_input r SourceStepGrant origin (gi_TenantRef identity) (gi_PrincipalRef identity)
       (gi_TicketRef identity) (gi_ExpiresAt identity))"
    if "presents r req ''stepgrant'' token" and "accepts (rc_StepGrants r) token identity"
| service:
    "vouches r req origin (service_input origin identity)"
    if "presents r req ''basic'' value" and "decodeBasicCredential value = Some (clientID, secret)"
      and "rc_Services r = Some verify" and "verify clientID secret = Inr identity"

definition admissible :: "ResolverConfig \<Rightarrow> principalInput \<Rightarrow> 64 word \<Rightarrow> bool" where
  "admissible r inp version \<longleftrightarrow>
     pi_tenantRef inp = rc_TenantRef r
     \<and> canonical (pi_principalRef inp) \<and> canonical (pi_clientRef inp) \<and> canonical (pi_releaseRef inp)
     \<and> (if pi_source inp = SourceServiceCredential then version = 0
        else 1 \<le> sint version
          \<and> (case rc_OrgSnapshots r of None \<Rightarrow> False
             | Some snapshots \<Rightarrow> snapshots (pi_tenantRef inp) (pi_principalRef inp) = Inr version))
     \<and> (pi_expiring inp \<longrightarrow> rc_Now r < pi_expiresAt inp)"

definition context_of :: "ResolverConfig \<Rightarrow> principalInput \<Rightarrow> 64 word \<Rightarrow> TrustedContext" where
  "context_of r inp version =
     \<lparr>tc_Principal = \<lparr>pc_TenantRef = rc_TenantRef r, pc_PrincipalRef = pi_principalRef inp, pc_AgentClientRef = pi_clientRef inp,
        pc_AgentReleaseRef = pi_releaseRef inp, pc_TrustClass = TrustFirstParty,
        pc_OrgSnapshotRef = (if pi_source inp = SourceServiceCredential then UnboundOrgSnapshotRef else OrgSnapshotRef version),
        pc_VerifiedAt = rc_Now r,
        pc_ExpiresAt = (if pi_expiring inp then pi_expiresAt inp else rc_Now r + serviceContextTTL)\<rparr>,
      tc_Source = pi_source inp, tc_OrgVersion = version, tc_CaseTicketRef = pi_caseTicketRef inp, tc_Origin = pi_origin inp,
      tc_ConnectorCapabilityAllowed =
        (pi_source inp \<noteq> SourceServiceCredential \<and> lower_for_tokens (pi_origin inp) \<notin> {OriginAstraClaw, OriginXiaozhi}),
      tc_BrowserIdleExpiresAt = pi_browserIdleExpiresAt inp, tc_BrowserAbsoluteExpiresAt = pi_browserAbsoluteExpiresAt inp\<rparr>"

subsection \<open>Refusals\<close>

definition recorded :: "ResolverConfig \<Rightarrow> Rejection \<Rightarrow> trail \<Rightarrow> trail" where
  "recorded r rejection w = snd (resolver_audit r rejection w)"

lemma resolver_audit_run: "resolver_audit r rejection w = (Inr (), recorded r rejection w)"
  by (simp add: recorded_def resolver_audit_def Let_def)

lemma wp_refuse [wp_simps]: "wp (refuse r rejection err) Q E w \<longleftrightarrow> E (Sentinel err) (recorded r rejection w)"
  by (simp add: wp_def refuse_def andthen_def resolver_audit_run)

text \<open>
  How an ingress call errs: an outage leaves no row, a bare request neither, and everything else exactly one row, whose
  principal is empty or verified.
\<close>

definition row_of :: "request \<Rightarrow> principalInput set \<Rightarrow> Rejection \<Rightarrow> bool" where
  "row_of req inps row \<longleftrightarrow> rj_Path row = rq_Path req \<and> (rj_PrincipalRef row = [] \<or> rj_PrincipalRef row \<in> pi_principalRef ` inps)"

definition refused_with_row :: "ResolverConfig \<Rightarrow> request \<Rightarrow> principalInput set \<Rightarrow> context_go_error \<Rightarrow> trail \<Rightarrow> trail \<Rightarrow> bool" where
  "refused_with_row r req inps e w w' \<longleftrightarrow>
     e \<in> {Sentinel ErrInvalidCredential, Sentinel ErrConflictingCredentials} \<and> (\<exists>row. row_of req inps row \<and> w' = recorded r row w)"

definition outage :: "context_go_error \<Rightarrow> trail \<Rightarrow> trail \<Rightarrow> bool" where
  "outage e w w' \<longleftrightarrow> errors_is e ErrCredentialUnavailable \<and> w' = w"

lemma refused_with_rowI:
  "rj_Path row = rq_Path req \<Longrightarrow> rj_PrincipalRef row = [] \<or> rj_PrincipalRef row \<in> pi_principalRef ` inps \<Longrightarrow>
   e = ErrInvalidCredential \<or> e = ErrConflictingCredentials \<Longrightarrow> refused_with_row r req inps (Sentinel e) w (recorded r row w)"
  unfolding refused_with_row_def row_of_def by auto

lemma refused_with_row_mono: "refused_with_row r req inps e w w' \<Longrightarrow> inps \<subseteq> inps' \<Longrightarrow> refused_with_row r req inps' e w w'"
  unfolding refused_with_row_def row_of_def by blast

lemmas rejection_shapes = no_rejection_def input_rejection_def source_rejection_def header_rejection_def

lemma outage_join: "outage (errJoinUnavailable err) w w"
  by (simp add: outage_def errJoinUnavailable_def split: option.split)

lemma outage_Joined: "outage (Joined [Sentinel ErrCredentialUnavailable, e]) w w" "outage (Sentinel ErrCredentialUnavailable) w w"
  by (simp_all add: outage_def)

lemma wp_credentialFailure:
  "wp (credentialFailure r req source origin client err) Q (\<lambda>e w'. refused_with_row r req inps e w w' \<or> outage e w w') w"
  unfolding credentialFailure_def
  by (simp add: wp_simps outage_join) (auto intro!: refused_with_rowI simp: rejection_shapes)

lemma wp_verify_opaque:
  assumes "\<And>identity. accepts verifier token identity \<Longrightarrow> Q identity w"
    and "\<And>e w'. refused_with_row r req inps e w w' \<or> outage e w w' \<Longrightarrow> E e w'"
  shows "wp (verify_opaque r req origin source verifier token) Q E w"
proof (cases verifier)
  case None
  have "refused_with_row r req inps (Sentinel ErrInvalidCredential) w (recorded r (source_rejection req origin source ReasonSourceNotConfigured) w)"
    by (rule refused_with_rowI) (simp_all add: rejection_shapes)
  then show ?thesis using None assms(2) by (simp add: verify_opaque_def wp_simps)
next
  case (Some verify)
  show ?thesis
  proof (cases "opaqueCredential token")
    case False
    have "refused_with_row r req inps (Sentinel ErrInvalidCredential) w (recorded r (source_rejection req origin source ReasonMalformedCredential) w)"
      by (rule refused_with_rowI) (simp_all add: rejection_shapes)
    then show ?thesis using Some False assms(2) by (simp add: verify_opaque_def wp_simps)
  next
    case True
    show ?thesis
    proof (cases "verify token")
      case (Inl err)
      have "wp (credentialFailure r req source origin [] err) Q E w"
        using wp_credentialFailure[of r req source origin "[]" err Q inps w] assms(2) by (auto simp: wp_def split: prod.splits sum.splits)
      then show ?thesis using Some True Inl by (simp add: verify_opaque_def)
    next
      case (Inr identity)
      then have "accepts verifier token identity" using Some True by (simp add: accepts_def)
      then show ?thesis using Some True Inr assms(1) by (simp add: verify_opaque_def wp_simps)
    qed
  qed
qed

subsection \<open>From an identity to a context\<close>

definition deployed :: "ResolverConfig \<Rightarrow> bool" where
  "deployed r \<longleftrightarrow> canonical (rc_TenantRef r) \<and> 0 < rc_Now r"

lemma canonical_nonempty: "canonical v \<Longrightarrow> v \<noteq> []"
  by (simp add: canonical_def)

lemma derived_principal_valid:
  assumes "deployed r" and "pi_tenantRef inp = rc_TenantRef r"
    and "canonical (pi_principalRef inp)" "canonical (pi_clientRef inp)" "canonical (pi_releaseRef inp)"
    and "ref \<noteq> []" and "rc_Now r < expires"
  shows "PrincipalContext_Validate (derived_principal r inp ref expires) = None"
proof -
  from assms(1) have "rc_TenantRef r \<noteq> []" "rc_Now r \<noteq> 0" "0 < rc_Now r" by (auto simp: deployed_def canonical_nonempty)
  with assms show ?thesis
    by (simp add: PrincipalContext_Validate_def first_error_None derived_principal_def requireNonEmpty_def canonical_nonempty
        TrustClass_Valid_def)
qed

lemma wp_resolve_org:
  assumes "\<And>version. (if pi_source inp = SourceServiceCredential then version = 0
        else 1 \<le> sint version \<and> (case rc_OrgSnapshots r of None \<Rightarrow> False
             | Some snapshots \<Rightarrow> snapshots (pi_tenantRef inp) (pi_principalRef inp) = Inr version)) \<Longrightarrow>
      Q (version, if pi_source inp = SourceServiceCredential then UnboundOrgSnapshotRef else OrgSnapshotRef version) w"
    and "\<And>e. outage e w w \<Longrightarrow> E e w"
  shows "wp (resolve_org r inp) Q E w"
  unfolding resolve_org_def wp_simps using assms by (auto simp: outage_join outage_Joined split: if_splits)

lemma now_before_ttl: "t < t + serviceContextTTL"
  by (simp add: serviceContextTTL_def minute_def second_def)

lemma wp_principalContext:
  assumes "deployed r" and "inp \<in> inps"
  shows "wp (principalContext r req inp) (\<lambda>ctx w'. w' = w \<and> (\<exists>version. admissible r inp version \<and> ctx = context_of r inp version))
     (\<lambda>e w'. refused_with_row r req inps e w w' \<or> outage e w w') w"
proof -
  have row: "refused_with_row r req inps (Sentinel ErrInvalidCredential) w (recorded r (input_rejection req inp reason field) w)" for reason field
    using assms(2) by (intro refused_with_rowI) (auto simp: rejection_shapes)
  show ?thesis
    unfolding principalContext_def wp_if wp_andthen
  proof (intro conjI impI, goal_cases)
    case 3
    then have h: "pi_tenantRef inp = rc_TenantRef r" "canonical (pi_principalRef inp)" "canonical (pi_clientRef inp)" "canonical (pi_releaseRef inp)"
      by simp_all
    show ?case
    proof (rule wp_resolve_org, goal_cases)
      case (1 version)
      define ref where "ref = (if pi_source inp = SourceServiceCredential then UnboundOrgSnapshotRef else OrgSnapshotRef version)"
      define expires where "expires = (if pi_expiring inp then pi_expiresAt inp else rc_Now r + serviceContextTTL)"
      have ref: "ref \<noteq> []" by (simp add: ref_def UnboundOrgSnapshotRef_def OrgSnapshotRef_def)
      show ?case
      proof (cases "pi_expiring inp \<and> (is_zero_time (pi_expiresAt inp) \<or> \<not> pi_expiresAt inp > rc_Now r)")
        case True
        then show ?thesis using row by (simp add: wp_simps Let_def)
      next
        case False
        then have later: "rc_Now r < expires" using now_before_ttl by (auto simp: expires_def)
        note valid = derived_principal_valid[OF assms(1) h ref later]
        have "admissible r inp version" using h 1 False by (auto simp: admissible_def)
        moreover have "derived_principal r inp ref expires = tc_Principal (context_of r inp version)"
          by (simp add: derived_principal_def context_of_def ref_def expires_def h(1))
        ultimately show ?thesis
          using False valid unfolding ref_def[symmetric] prod.case Let_def expires_def[symmetric]
          by (auto simp: wp_simps context_of_def connectorCapabilityAllowed_def)
      qed
    qed simp
  qed (use row in \<open>simp_all add: wp_simps\<close>)
qed

subsection \<open>Soundness: what the resolver returns is vouched for\<close>

definition resolved_as :: "ResolverConfig \<Rightarrow> request \<Rightarrow> string \<Rightarrow> TrustedContext \<Rightarrow> bool" where
  "resolved_as r req origin ctx \<longleftrightarrow>
     (\<exists>inp version. vouches r req origin inp \<and> admissible r inp version \<and> ctx = context_of r inp version)"

abbreviation resolve_post :: "ResolverConfig \<Rightarrow> request \<Rightarrow> string \<Rightarrow> trail \<Rightarrow> TrustedContext \<Rightarrow> trail \<Rightarrow> bool" where
  "resolve_post r req origin w ctx w' \<equiv> w' = w \<and> resolved_as r req origin ctx"

abbreviation resolve_fail :: "ResolverConfig \<Rightarrow> request \<Rightarrow> string \<Rightarrow> trail \<Rightarrow> context_go_error \<Rightarrow> trail \<Rightarrow> bool" where
  "resolve_fail r req origin w e w' \<equiv> refused_with_row r req {inp. vouches r req origin inp} e w w' \<or> outage e w w'"

lemma wp_vouched:
  assumes "deployed r" and "vouches r req origin inp"
  shows "wp (principalContext r req inp) (resolve_post r req origin w) (resolve_fail r req origin w) w"
proof (rule wp_mono)
  show "wp (principalContext r req inp) (\<lambda>ctx w'. w' = w \<and> (\<exists>version. admissible r inp version \<and> ctx = context_of r inp version))
     (resolve_fail r req origin w) w"
    by (rule wp_principalContext[OF assms(1)]) (simp add: assms(2))
qed (use assms(2) in \<open>auto simp: resolved_as_def\<close>)

lemma wp_opaque_kind:
  assumes "deployed r" and "\<And>identity. accepts verifier token identity \<Longrightarrow> vouches r req origin (inp identity)"
  shows "wp (andthen (verify_opaque r req origin source verifier token) (\<lambda>identity. principalContext r req (inp identity)))
     (resolve_post r req origin w) (resolve_fail r req origin w) w"
  unfolding wp_andthen by (rule wp_verify_opaque) (auto intro: wp_vouched assms)

lemma source_row:
  assumes "e = ErrInvalidCredential \<or> e = ErrConflictingCredentials"
  shows "refused_with_row r req inps (Sentinel e) w (recorded r (source_rejection req origin source reason) w)"
    and "refused_with_row r req inps (Sentinel e) w (recorded r (source_rejection req origin source reason\<lparr>rj_Field := f\<rparr>) w)"
  using assms by (auto intro!: refused_with_rowI simp: rejection_shapes)

lemma wp_resolve_basic:
  assumes "deployed r" and "presents r req ''basic'' value"
  shows "wp (resolve_basic r req origin value) (resolve_post r req origin w) (resolve_fail r req origin w) w"
  unfolding resolve_basic_def wp_case_option wp_case_sum wp_case_prod wp_refuse
  by (auto simp: source_row intro!: wp_vouched[OF assms(1)] wp_credentialFailure intro: vouches.service[OF assms(2)])

lemma wp_resolveAuthorization:
  assumes "deployed r" and "session_cookies (rc_SessionCookieName r) req = []" and "rq_Header req ''Authorization'' = [header]"
  shows "wp (resolveAuthorization r req origin header) (resolve_post r req origin w) (resolve_fail r req origin w) w"
proof -
  obtain scheme val found where split: "split_authorization header = (scheme, val, found)" by (cases "split_authorization header")
  have p: "presents r req name val" if "equal_fold scheme name" "\<not> (\<not> found \<or> val = [] \<or> contains_any val [CHR '' '', CHR 0x09])" for name
    using assms(2,3) split that by (auto simp: presents_def)
  show ?thesis
    unfolding resolveAuthorization_def split prod.case wp_if wp_refuse
    by (intro conjI impI; (rule wp_opaque_kind[OF assms(1)] wp_resolve_basic[OF assms(1)] disjI1[OF source_row(1)] disjI1[OF source_row(2)])?)
      (auto intro: vouches.intros p split del: if_split)
qed

lemma wp_resolve:
  assumes "deployed r"
  shows "wp (resolve r req origin) (resolve_post r req origin w)
     (\<lambda>e w'. resolve_fail r req origin w e w' \<or>
        e = Sentinel ErrUnauthenticated \<and> session_cookies (rc_SessionCookieName r) req = [] \<and> rq_Header req ''Authorization'' = [] \<and> w' = w) w"
    (is "wp _ _ ?E w")
proof -
  define cookies where "cookies = session_cookies (rc_SessionCookieName r) req"
  define auths where "auths = rq_Header req ''Authorization''"
  consider (conflict) "length cookies > 1 \<or> length auths > 1 \<or> (length cookies = 1 \<and> length auths > 0)"
    | (cookie) token where "cookies = [token]" "auths = []"
    | (auth) header where "cookies = []" "auths = [header]" | (none) "cookies = []" "auths = []"
    by (cases cookies; cases auths) (auto simp: Suc_le_eq)
  then show ?thesis
  proof cases
    case conflict
    have "refused_with_row r req {inp. vouches r req origin inp} (Sentinel ErrConflictingCredentials) w
        (recorded r (source_rejection req origin SourceUnset ReasonConflictingCredentials) w)"
      by (rule source_row) simp
    then show ?thesis using conflict by (simp add: resolve_def Let_def wp_refuse cookies_def auths_def)
  next
    case (cookie token)
    have "wp (resolveSession r req origin token) (resolve_post r req origin w) (resolve_fail r req origin w) w"
      unfolding resolveSession_def
      by (rule wp_opaque_kind[OF assms]) (use cookie in \<open>simp add: vouches.session cookies_def auths_def\<close>)
    then show ?thesis using cookie by (auto simp: resolve_def Let_def cookies_def auths_def elim!: wp_mono)
  next
    case (auth header)
    then have "wp (resolveAuthorization r req origin header) (resolve_post r req origin w) (resolve_fail r req origin w) w"
      by (intro wp_resolveAuthorization[OF assms]) (simp_all add: cookies_def auths_def)
    then show ?thesis using auth by (auto simp: resolve_def Let_def cookies_def auths_def elim!: wp_mono)
  next
    case none
    then show ?thesis by (simp add: resolve_def Let_def wp_fail cookies_def auths_def)
  qed
qed

subsection \<open>Completeness: what is vouched for is returned\<close>

lemma principalContext_complete:
  assumes "deployed r" and "admissible r inp version"
  shows "principalContext r req inp w = (Inr (context_of r inp version), w)"
proof -
  have h: "pi_tenantRef inp = rc_TenantRef r" "canonical (pi_principalRef inp)" "canonical (pi_clientRef inp)" "canonical (pi_releaseRef inp)"
    using assms(2) by (simp_all add: admissible_def)
  define ref where "ref = (if pi_source inp = SourceServiceCredential then UnboundOrgSnapshotRef else OrgSnapshotRef version)"
  define expires where "expires = (if pi_expiring inp then pi_expiresAt inp else rc_Now r + serviceContextTTL)"
  have org: "resolve_org r inp w = (Inr (version, ref), w)"
    using assms(2) by (auto simp: resolve_org_def admissible_def ref_def split: if_splits option.splits)
  have ref: "ref \<noteq> []" by (simp add: ref_def UnboundOrgSnapshotRef_def OrgSnapshotRef_def)
  have later: "rc_Now r < expires" using now_before_ttl assms(2) by (auto simp: expires_def admissible_def)
  have live: "\<not> (pi_expiring inp \<and> (is_zero_time (pi_expiresAt inp) \<or> \<not> pi_expiresAt inp > rc_Now r))"
    using assms by (auto simp: admissible_def deployed_def)
  show ?thesis
    using live derived_principal_valid[OF assms(1) h ref later, unfolded expires_def]
    by (simp add: principalContext_def h org Let_def) (simp add: derived_principal_def ref_def h(1) context_of_def connectorCapabilityAllowed_def)
qed

lemma verify_opaque_accepts:
  "accepts verifier token identity \<Longrightarrow> verify_opaque r req origin source verifier token w = (Inr identity, w)"
  by (auto simp: accepts_def verify_opaque_def split: option.splits)

lemma opaque_kind_complete:
  assumes "deployed r" and "accepts verifier token identity" and "admissible r (inp identity) version"
  shows "andthen (verify_opaque r req origin source verifier token) (\<lambda>identity. principalContext r req (inp identity)) w
     = (Inr (context_of r (inp identity) version), w)"
  using verify_opaque_accepts[OF assms(2)] principalContext_complete[OF assms(1,3)] by simp

lemma resolve_presented:
  assumes "presents r req scheme value"
  obtains header presented where "rq_Header req ''Authorization'' = [header]" and "split_authorization header = (presented, value, True)"
    and "fold_ascii presented = scheme" and "resolve r req origin = resolveAuthorization r req origin header"
  using assms by (auto simp: presents_def equal_fold_def resolve_def Let_def)

lemma resolve_complete:
  assumes "deployed r" and "vouches r req origin inp" and "admissible r inp version"
  shows "resolve r req origin w = (Inr (context_of r inp version), w)"
  using assms(2)
proof cases
  case (session token identity)
  then show ?thesis
    using opaque_kind_complete[OF assms(1), where inp = "session_input r SourceBrowserSession (rc_BrowserClientRef r) origin"] assms(3)
    by (simp add: resolve_def Let_def resolveSession_def)
next
  case (ticket token identity)
  from ticket(2) show ?thesis
    by (rule resolve_presented[where origin = origin]) (use ticket assms in \<open>simp add: resolveAuthorization_def equal_fold_def presents_def principalContext_complete verify_opaque_accepts\<close>)
next
  case (bearer token identity)
  from bearer(2) show ?thesis
    by (rule resolve_presented[where origin = origin]) (use bearer assms in \<open>simp add: resolveAuthorization_def equal_fold_def presents_def principalContext_complete verify_opaque_accepts\<close>)
next
  case (grant token identity)
  from grant(2) show ?thesis
    by (rule resolve_presented[where origin = origin]) (use grant assms in \<open>simp add: resolveAuthorization_def equal_fold_def presents_def principalContext_complete verify_opaque_accepts\<close>)
next
  case (service val clientID secret verify identity)
  from service(2) show ?thesis
    by (rule resolve_presented[where origin = origin])
      (use service assms in \<open>simp add: resolveAuthorization_def equal_fold_def resolve_basic_def principalContext_complete presents_def\<close>)
qed

lemma resolve_Inr_iff:
  assumes "deployed r"
  shows "resolve r req origin w = (Inr ctx, w') \<longleftrightarrow> w' = w \<and> resolved_as r req origin ctx"
proof
  assume "resolve r req origin w = (Inr ctx, w')"
  with wp_Inr[OF wp_resolve[OF assms]] show "w' = w \<and> resolved_as r req origin ctx" by blast
qed (auto simp: resolved_as_def resolve_complete[OF assms])

end
