(* ===== verification/TrustContextProperties.thy ===== *)
theory TrustContextProperties
  imports TrustContextLaws
begin

text \<open>
  The properties of the ingress, with a concrete deployment at which each applies: its console verifier accepts the
  bearer token \<open>tok\<close> for the user \<open>u\<close> of tenant \<open>t\<close>, its service verifier the client \<open>svc\<close> with the secret \<open>s3cret\<close>.
\<close>

lemma NewResolver_deployed:
  assumes "NewResolver cfg = Inr r" and "0 < rc_Now cfg"
  shows "deployed r" and "rc_Protected r = rc_Protected cfg"
  using assms by (auto simp: NewResolver_def deployed_def split: if_splits)

lemma forgedIdentityHeader_None: "forgedIdentityHeader header = None \<longleftrightarrow> (\<forall>name \<in> set forgedIdentityHeaders. header name = [])"
  by (auto simp: forgedIdentityHeader_def find_None_iff)

subsection \<open>Contexts\<close>

lemma Middleware_bound:
  assumes "deployed r" and "rq_Bound req = None"
  shows "Middleware r req w = (Handed h, w') \<and> FromRequest (Some h) = Inr ctx \<longleftrightarrow>
     w' = w \<and> h = req\<lparr>rq_Bound := Some \<lparr>rs_ctx = ctx, rs_err = None\<rparr>\<rparr>
     \<and> (\<exists>protected. rc_Protected r = Some protected \<and> protected req)
     \<and> (\<forall>name \<in> set forgedIdentityHeaders. rq_Header req name = [])
     \<and> (\<exists>origin. declaredOrigin (rq_Header req) = Some origin \<and> resolved_as r req origin ctx)"
proof -
  have "(\<exists>origin. declaredOrigin (rq_Header req) = Some origin \<and> resolved_as r req origin ctx) \<longleftrightarrow>
      (\<exists>origin. declaredOrigin (rq_Header req) = Some origin \<and> resolve r req origin w = (Inr ctx, w))"
    by (simp add: resolve_Inr_iff[OF assms(1)])
  moreover have "resolve r req origin w = (Inr c, w'') \<Longrightarrow> w'' = w" for origin c w''
    by (simp add: resolve_Inr_iff[OF assms(1)])
  ultimately show ?thesis
    using assms(2) unfolding forgedIdentityHeader_None[symmetric]
    by (auto simp: Middleware_def FromRequest_def split: option.splits prod.splits sum.splits if_splits)
qed

text \<open>C25: for a resolver from \<open>NewResolver\<close> and a request without a bound context, the middleware hands a request on with a trusted context exactly when the path is protected, no header tries
  to supply identity, the declared origin is well-formed, and a configured verifier accepted the one credential the
  request presents, for the deployment's tenant, with a live expiry and a sealed organisation version for members; the
  context is then the one that identity determines.\<close>

theorem bound_context_iff_vouched:
  assumes "NewResolver cfg = Inr r" and "0 < rc_Now cfg" and "rq_Bound req = None"
  shows "(\<exists>h w'. Middleware r req w = (Handed h, w') \<and> FromRequest (Some h) = Inr ctx) \<longleftrightarrow>
     (\<exists>protected. rc_Protected cfg = Some protected \<and> protected req)
     \<and> (\<forall>name \<in> set forgedIdentityHeaders. rq_Header req name = [])
     \<and> (\<exists>origin inp version. declaredOrigin (rq_Header req) = Some origin
          \<and> vouches r req origin inp \<and> admissible r inp version \<and> ctx = context_of r inp version)"
  using Middleware_bound[OF NewResolver_deployed(1)[OF assms(1,2)] assms(3)] NewResolver_deployed(2)[OF assms(1,2)]
  by (simp add: resolved_as_def)

subsection \<open>Non-interference\<close>




lemma lower_for_tokens_Nil [simp]: "lower_for_tokens [] = []" by simp


subsection \<open>Refusals\<close>

lemma recorded_durable:
  "tt_Durable (recorded r row w) =
     tt_Durable w @ (if rc_Audit r then
       [row\<lparr>rj_TenantRef := (if rj_TenantRef row = [] then rc_TenantRef r else rj_TenantRef row), rj_ClaimedClientID := []\<rparr>] else [])"
  by (simp add: recorded_def resolver_audit_def Let_def)

text \<open>Whether the request presents any credential at all.\<close>

definition bare :: "ResolverConfig \<Rightarrow> request \<Rightarrow> bool" where
  "bare r req \<longleftrightarrow> session_cookies (rc_SessionCookieName r) req = [] \<and> rq_Header req ''Authorization'' = []"

lemma Middleware_refusal:
  assumes "deployed r" and "Middleware r req w = (Answered rp, w')"
  shows "(rp_Status rp = 503 \<or> rp_Status rp = 401 \<and> bare r req) \<and> w' = w
     \<or> (rp_Status rp = 400 \<or> rp_Status rp = 401 \<and> \<not> bare r req)
       \<and> (\<exists>row. row_of req {inp. \<exists>origin. vouches r req origin inp} row \<and> w' = recorded r row w)"
proof -
  have head: "row_of req inps (header_rejection req reason field)" for reason field inps
    by (simp add: row_of_def rejection_shapes)
  consider (forged) header where "forgedIdentityHeader (rq_Header req) = Some header"
    | (origin) "forgedIdentityHeader (rq_Header req) = None" "declaredOrigin (rq_Header req) = None"
    | (err) origin err where "forgedIdentityHeader (rq_Header req) = None" "declaredOrigin (rq_Header req) = Some origin"
        "resolve r req origin w = (Inl err, w')" "rp = writeTrustRejection (HTTPStatus (Some err))"
    using assms(2) by (auto simp: Middleware_def split: option.splits prod.splits sum.splits if_splits)
  then show ?thesis
  proof cases
    case (err origin e)
    from wp_Inl[OF wp_resolve[OF assms(1)] err(3)] show ?thesis
    proof (elim disjE conjE)
      assume h: "refused_with_row r req {inp. vouches r req origin inp} e w w'"
      have "\<not> bare r req"
        using err(3) h by (auto simp: bare_def resolve_def Let_def refused_with_row_def)
      then show ?thesis using h err(4) unfolding refused_with_row_def row_of_def
        by (auto simp: HTTPStatus_def writeTrustRejection_def)
    qed (use err(4) in \<open>auto simp: outage_def HTTPStatus_def writeTrustRejection_def bare_def\<close>)
  qed (use assms(2) head in \<open>auto simp: Middleware_def writeTrustRejection_def recorded_def\<close>)
qed

text \<open>Every answer the ingress gives itself is a 400, 401 or 503. An outage (503) and a request without any
  credential (401) leave the audit trail as it was; every other refusal appends exactly one row, under the request's path,
  with a tenant, never with the client id the caller claimed, and with no principal but one a verifier vouched for.\<close>

theorem refusals_are_recorded_once:
  assumes "NewResolver cfg = Inr r" and "0 < rc_Now cfg" and "rc_Audit cfg" and "Middleware r req w = (Answered rp, w')"
  shows "rp_Status rp \<in> {400, 401, 503}
     \<and> (if rp_Status rp = 503 \<or> rp_Status rp = 401 \<and> bare r req then tt_Durable w' = tt_Durable w
        else \<exists>row. tt_Durable w' = tt_Durable w @ [row] \<and> rj_Path row = rq_Path req \<and> rj_TenantRef row \<noteq> []
          \<and> rj_ClaimedClientID row = []
          \<and> (rj_PrincipalRef row = [] \<or> (\<exists>origin inp. vouches r req origin inp \<and> rj_PrincipalRef row = pi_principalRef inp)))"
proof -
  note d = NewResolver_deployed(1)[OF assms(1,2)]
  have r: "rc_Audit r" "rc_TenantRef r \<noteq> []" using assms(1,3) d
    by (auto simp: NewResolver_def deployed_def canonical_nonempty split: if_splits)
  have principal: "rj_PrincipalRef row = [] \<or> (\<exists>origin inp. vouches r req origin inp \<and> rj_PrincipalRef row = pi_principalRef inp)"
    if "row_of req {inp. \<exists>origin. vouches r req origin inp} row" for row
    using that unfolding row_of_def by blast
  have path: "rj_Path row = rq_Path req" if "row_of req inps row" for row inps using that by (simp add: row_of_def)
  from Middleware_refusal[OF d assms(4)] r show ?thesis
    by (auto simp: recorded_durable dest: principal path)
qed

text \<open>The Basic credential a first-party service sends is read back exactly: what decodes are the client id up to the
  first colon and the rest as the secret, when the id is canonical and the secret is non-empty and free of outer space,
  within 1024 bytes, and nothing else.\<close>

theorem basic_credential_roundtrip:
  "decodeBasicCredential (base64_encode raw) = Some (clientID, secret) \<longleftrightarrow>
     raw = clientID @ '':'' @ secret \<and> CHR '':'' \<notin> set clientID \<and> canonical clientID \<and> canonical secret \<and> length raw \<le> 1024"
proof
  assume "decodeBasicCredential (base64_encode raw) = Some (clientID, secret)"
  then have "cut (CHR '':'') raw = Some (clientID, secret)" "canonical clientID" "canonical secret" "length raw \<le> 1024"
    by (auto simp: decodeBasicCredential_def canonical_def split: option.splits if_splits)
  then show "raw = clientID @ '':'' @ secret \<and> CHR '':'' \<notin> set clientID \<and> canonical clientID \<and> canonical secret \<and> length raw \<le> 1024"
    by (auto dest: cut_Some)
next
  assume h: "raw = clientID @ '':'' @ secret \<and> CHR '':'' \<notin> set clientID \<and> canonical clientID \<and> canonical secret \<and> length raw \<le> 1024"
  then have "cut (CHR '':'') raw = Some (clientID, secret)" by (simp add: cut_append)
  with h show "decodeBasicCredential (base64_encode raw) = Some (clientID, secret)"
    by (auto simp: decodeBasicCredential_def canonical_def)
qed

subsection \<open>The browser endpoints\<close>

lemma resolved_browser:
  assumes "deployed r" and "resolved_as r req origin ctx" and "browserCredentialValue req (rc_SessionCookieName r) (tc_Source ctx) = Some credential"
  shows "\<exists>identity. accepts (if tc_Source ctx = SourceBrowserSession then rc_Sessions r else rc_BrowserAccessTokens r) (bc_Token credential) identity
     \<and> pc_PrincipalRef (tc_Principal ctx) = si_PrincipalRef identity \<and> pc_ExpiresAt (tc_Principal ctx) = si_ExpiresAt identity
     \<and> si_TenantRef identity = rc_TenantRef r"
proof -
  from assms(2) obtain inp version where h: "vouches r req origin inp" "admissible r inp version" "ctx = context_of r inp version"
    by (auto simp: resolved_as_def)
  from h(1) show ?thesis
  proof cases
    case (session token identity)
    then show ?thesis using assms(3) h(2,3)
      by (auto simp: context_of_def session_input_def admissible_def browserCredentialValue_def split: if_splits)
  next
    case (bearer token identity)
    then show ?thesis using assms(3) h(2,3)
      by (auto simp: context_of_def session_input_def admissible_def browserCredentialValue_def presents_def split: if_splits)
  qed (use assms(3) h(3) in \<open>auto simp: context_of_def case_input_def service_input_def browserCredentialValue_def\<close>)
qed

text \<open>The session endpoints get a credential together with a context only for a browser credential: its source is the
  context's, its token is the one the verifier of that source accepted, and the identity accepted with it is the
  context's principal, tenant and expiry. A ticket, grant or service credential never passes.\<close>

theorem browser_credential_is_verified:
  assumes "NewResolver cfg = Inr r" and "0 < rc_Now cfg"
    and "ResolveBrowserRequest (Some r) (Some req) w = ((Inr ctx, credential), w')"
  shows "bc_Source credential = tc_Source ctx \<and> tc_Source ctx \<in> {SourceBrowserSession, SourceBrowserAccessToken}
     \<and> pc_TenantRef (tc_Principal ctx) = rc_TenantRef cfg
     \<and> (\<exists>identity. accepts (if tc_Source ctx = SourceBrowserSession then rc_Sessions cfg else rc_BrowserAccessTokens cfg) (bc_Token credential) identity
          \<and> pc_PrincipalRef (tc_Principal ctx) = si_PrincipalRef identity \<and> pc_ExpiresAt (tc_Principal ctx) = si_ExpiresAt identity
          \<and> si_TenantRef identity = rc_TenantRef cfg)"
proof -
  note d = NewResolver_deployed(1)[OF assms(1,2)]
  have cfg: "rc_Sessions r = rc_Sessions cfg" "rc_BrowserAccessTokens r = rc_BrowserAccessTokens cfg" "rc_TenantRef r = rc_TenantRef cfg"
    using assms(1) by (auto simp: NewResolver_def split: if_splits)
  from assms(3) obtain origin where h: "resolve r req origin w = (Inr ctx, w')"
      "browserCredentialValue req (rc_SessionCookieName r) (tc_Source ctx) = Some credential"
    by (auto simp: ResolveBrowserRequest_def split: option.splits prod.splits sum.splits)
  then have ctx: "resolved_as r req origin ctx" by (simp add: resolve_Inr_iff[OF d])
  have "bc_Source credential = tc_Source ctx \<and> tc_Source ctx \<in> {SourceBrowserSession, SourceBrowserAccessToken}"
    using h(2) by (auto simp: browserCredentialValue_def split: Source.splits list.splits prod.splits if_splits)
  moreover have "pc_TenantRef (tc_Principal ctx) = rc_TenantRef cfg" using ctx cfg(3) by (auto simp: resolved_as_def context_of_def)
  ultimately show ?thesis using resolved_browser[OF d ctx h(2)] unfolding cfg by blast
qed

subsection \<open>A concrete deployment\<close>

definition ex_user :: SessionIdentity where
  "ex_user = \<lparr>si_TenantRef = ''t'', si_PrincipalRef = ''u'', si_ClientRef = [], si_ExpiresAt = 2000, si_IdleExpiresAt = 1500, si_AbsoluteExpiresAt = 2000\<rparr>"

definition ex_cfg :: ResolverConfig where
  "ex_cfg = \<lparr>rc_TenantRef = ''t'', rc_SessionCookieName = [], rc_BrowserClientRef = [], rc_Sessions = None,
     rc_BrowserAccessTokens = Some (\<lambda>token. if token = ''tok'' then Inr ex_user else Inl (Sentinel ErrCredentialRejected)),
     rc_AccessTickets = None, rc_StepGrants = None,
     rc_Services = Some (\<lambda>clientID secret. if clientID = ''svc'' \<and> secret = ''s3cret''
       then Inr \<lparr>vi_TenantRef = ''t'', vi_ClientRef = ''svc'', vi_ReleaseRef = ''r1''\<rparr> else Inl (Sentinel ErrCredentialRejected)),
     rc_OrgSnapshots = Some (\<lambda>_ _. Inr 7), rc_Audit = True, rc_Logger = False, rc_Protected = Some (\<lambda>_. True), rc_Now = 1000\<rparr>"

definition ex_resolver :: ResolverConfig where
  "ex_resolver = ex_cfg\<lparr>rc_SessionCookieName := DefaultSessionCookieName, rc_BrowserClientRef := DefaultBrowserClientRef, rc_Logger := True\<rparr>"

definition ex_request :: "string \<Rightarrow> string \<Rightarrow> request" where
  "ex_request authorization origin = \<lparr>rq_Path = ''/v1/actions'',
     rq_Header = (\<lambda>name. if name = ''Authorization'' then [authorization] else if name = OriginHeader \<and> origin \<noteq> [] then [origin] else []),
     rq_Bound = None\<rparr>"

definition ex_trail :: trail where "ex_trail = \<lparr>tt_Durable = [], tt_Log = []\<rparr>"

definition ex_context :: "string \<Rightarrow> bool \<Rightarrow> TrustedContext" where
  "ex_context origin capable = \<lparr>tc_Principal = \<lparr>pc_TenantRef = ''t'', pc_PrincipalRef = ''u'', pc_AgentClientRef = ''console'',
       pc_AgentReleaseRef = ''unregistered'', pc_TrustClass = TrustFirstParty, pc_OrgSnapshotRef = ''orgv_7'', pc_VerifiedAt = 1000,
       pc_ExpiresAt = 2000\<rparr>,
     tc_Source = SourceBrowserAccessToken, tc_OrgVersion = 7, tc_CaseTicketRef = [], tc_Origin = origin,
     tc_ConnectorCapabilityAllowed = capable, tc_BrowserIdleExpiresAt = 1500, tc_BrowserAbsoluteExpiresAt = 2000\<rparr>"

lemma ex_resolver: "NewResolver ex_cfg = Inr ex_resolver" "0 < rc_Now ex_cfg" "rc_Audit ex_cfg" "rq_Bound (ex_request a o1) = None"
proof -
  have "canonical ''t''" by code_simp
  then show "NewResolver ex_cfg = Inr ex_resolver" by (simp add: NewResolver_def ex_cfg_def ex_resolver_def)
qed (simp_all add: ex_cfg_def ex_request_def)

lemma ex_ingress_run:
  "\<exists>h. Middleware ex_resolver (ex_request ''bearer tok'' []) ex_trail = (Handed h, ex_trail) \<and> FromRequest (Some h) = Inr (ex_context [] True)"
  "\<exists>h. Middleware ex_resolver (ex_request ''bearer tok'' ''XiaoZhi'') ex_trail = (Handed h, ex_trail)
     \<and> FromRequest (Some h) = Inr (ex_context ''XiaoZhi'' False)"
proof -
  have "resolve ex_resolver (ex_request ''bearer tok'' []) [] ex_trail = (Inr (ex_context [] True), ex_trail)" by code_simp
  moreover have "forgedIdentityHeader (rq_Header (ex_request ''bearer tok'' [])) = None" by code_simp
  moreover have "declaredOrigin (rq_Header (ex_request ''bearer tok'' [])) = Some []" by code_simp
  ultimately show "\<exists>h. Middleware ex_resolver (ex_request ''bearer tok'' []) ex_trail = (Handed h, ex_trail)
      \<and> FromRequest (Some h) = Inr (ex_context [] True)"
    by (simp add: Middleware_def FromRequest_def ex_resolver_def ex_cfg_def)
  have "resolve ex_resolver (ex_request ''bearer tok'' ''XiaoZhi'') ''XiaoZhi'' ex_trail = (Inr (ex_context ''XiaoZhi'' False), ex_trail)" by code_simp
  moreover have "forgedIdentityHeader (rq_Header (ex_request ''bearer tok'' ''XiaoZhi'')) = None" by code_simp
  moreover have "declaredOrigin (rq_Header (ex_request ''bearer tok'' ''XiaoZhi'')) = Some ''XiaoZhi''" by code_simp
  ultimately show "\<exists>h. Middleware ex_resolver (ex_request ''bearer tok'' ''XiaoZhi'') ex_trail = (Handed h, ex_trail)
      \<and> FromRequest (Some h) = Inr (ex_context ''XiaoZhi'' False)"
    by (simp add: Middleware_def FromRequest_def ex_resolver_def ex_cfg_def)
qed

theorem bound_context_iff_vouched_witness:
  "\<exists>origin inp version. declaredOrigin (rq_Header (ex_request ''bearer tok'' [])) = Some origin
     \<and> vouches ex_resolver (ex_request ''bearer tok'' []) origin inp \<and> admissible ex_resolver inp version
     \<and> ex_context [] True = context_of ex_resolver inp version"
  using bound_context_iff_vouched[OF ex_resolver(1,2,4), of "''bearer tok''" "[]" ex_trail "ex_context [] True"] ex_ingress_run(1) by blast


definition ex_bad :: request where
  "ex_bad = ex_request (''Basic '' @ base64_encode ''svc:wrong'') []"

lemma ex_bad: "rq_Bound ex_bad = None" "rq_Path ex_bad = ''/v1/actions''" "\<not> bare r ex_bad" "tt_Durable ex_trail = []"
  by (simp_all add: ex_bad_def ex_request_def bare_def ex_trail_def)

lemma ex_ingress_refused:
  "\<exists>w'. Middleware ex_resolver ex_bad ex_trail = (Answered (writeTrustRejection 401), w')"
proof -
  have "fst (resolve ex_resolver ex_bad [] ex_trail) = Inl (Sentinel ErrInvalidCredential)"
    by code_simp
  moreover have "forgedIdentityHeader (rq_Header ex_bad) = None" by code_simp
  moreover have "declaredOrigin (rq_Header ex_bad) = Some []" by code_simp
  moreover have "rc_Protected ex_resolver = Some (\<lambda>_. True)" by (simp add: ex_resolver_def ex_cfg_def)
  ultimately show ?thesis by (auto simp: Middleware_def HTTPStatus_def split: prod.splits)
qed

theorem refusals_are_recorded_once_witness:
  "\<exists>w' row. Middleware ex_resolver ex_bad ex_trail = (Answered (writeTrustRejection 401), w')
     \<and> tt_Durable w' = [row] \<and> rj_Path row = ''/v1/actions'' \<and> rj_ClaimedClientID row = []"
proof -
  obtain w' where run: "Middleware ex_resolver ex_bad ex_trail = (Answered (writeTrustRejection 401), w')"
    using ex_ingress_refused by blast
  from refusals_are_recorded_once[OF ex_resolver(1-3) run]
  obtain row where "tt_Durable w' = [row]" "rj_Path row = ''/v1/actions''" "rj_ClaimedClientID row = []"
    by (auto simp: ex_bad writeTrustRejection_def simp del: append_Cons)
  with run show ?thesis by blast
qed

theorem browser_credential_is_verified_witness:
  "\<exists>w' identity. ResolveBrowserRequest (Some ex_resolver) (Some (ex_request ''bearer tok'' [])) ex_trail
       = ((Inr (ex_context [] True), \<lparr>bc_Source = SourceBrowserAccessToken, bc_Token = ''tok''\<rparr>), w')
     \<and> accepts (rc_BrowserAccessTokens ex_cfg) ''tok'' identity \<and> si_PrincipalRef identity = ''u''"
proof -
  have "resolve ex_resolver (ex_request ''bearer tok'' []) [] ex_trail = (Inr (ex_context [] True), ex_trail)" by code_simp
  moreover have "forgedIdentityHeader (rq_Header (ex_request ''bearer tok'' [])) = None" by code_simp
  moreover have "declaredOrigin (rq_Header (ex_request ''bearer tok'' [])) = Some []" by code_simp
  moreover have "browserCredentialValue (ex_request ''bearer tok'' []) (rc_SessionCookieName ex_resolver) SourceBrowserAccessToken
      = Some \<lparr>bc_Source = SourceBrowserAccessToken, bc_Token = ''tok''\<rparr>" by code_simp
  ultimately have run: "ResolveBrowserRequest (Some ex_resolver) (Some (ex_request ''bearer tok'' [])) ex_trail
       = ((Inr (ex_context [] True), \<lparr>bc_Source = SourceBrowserAccessToken, bc_Token = ''tok''\<rparr>), ex_trail)"
    by (simp add: ResolveBrowserRequest_def ex_context_def)
  from browser_credential_is_verified[OF ex_resolver(1,2) run] run show ?thesis by (auto simp: ex_context_def)
qed

text \<open>
  The comment on \<open>audit\<close> says that the recorded field is a header name and that neither surface carries a credential
  value. For an unknown scheme the field is whatever stands before the first space of the \<open>Authorization\<close> value, of any
  length and any bytes, so a secret sent without its scheme but with a trailing word is stored and logged.
\<close>

lemma unsupported_scheme_is_recorded:
  assumes "CHR '' '' \<notin> set secret" and "fold_ascii secret \<notin> {''caseticket'', ''bearer'', ''stepgrant'', ''basic''}"
  shows "map rj_Field (tt_Durable (snd (Middleware ex_resolver (ex_request (secret @ '' x'') []) ex_trail))) = [secret]"
proof -
  let ?req = "ex_request (secret @ '' x'') []"
  have "trim_space ''x'' = ''x''" by code_simp
  then have "split_authorization (secret @ '' x'') = (secret, ''x'', True)"
    using cut_append[OF assms(1), of "''x''"] by (simp add: split_authorization_def)
  then have "resolveAuthorization ex_resolver ?req [] (secret @ '' x'')
      = refuse ex_resolver (source_rejection ?req [] SourceUnset ReasonUnsupportedScheme\<lparr>rj_Field := secret\<rparr>) ErrInvalidCredential"
    using assms(2) by (simp add: resolveAuthorization_def equal_fold_def contains_any_def)
  moreover have "session_cookies name ?req = []" for name
    by (simp add: session_cookies_def rq_Cookies_def ex_request_def OriginHeader_def read_cookies_def map_filter_def)
  ultimately have "resolve ex_resolver ?req [] = refuse ex_resolver (source_rejection ?req [] SourceUnset ReasonUnsupportedScheme\<lparr>rj_Field := secret\<rparr>) ErrInvalidCredential"
    by (simp add: resolve_def Let_def ex_request_def)
  moreover have "forgedIdentityHeader (rq_Header ?req) = None" "declaredOrigin (rq_Header ?req) = Some []"
    by (simp_all add: forgedIdentityHeader_None forgedIdentityHeaders_def declaredOrigin_def ex_request_def OriginHeader_def)
  moreover have "rc_Protected ex_resolver = Some (\<lambda>_. True)" by (simp add: ex_resolver_def ex_cfg_def)
  ultimately show ?thesis
    by (simp add: Middleware_def refuse_def resolver_audit_run recorded_durable source_rejection_def)
      (simp add: ex_resolver_def ex_cfg_def ex_trail_def)
qed

end
