(* ===== verification/Evidence.thy ===== *)
theory Evidence
  imports RuntimeEvidence CapabilityPolicy GoEncoding "HOL-Library.Product_Lexorder"
begin

text \<open>
  \<^verbatim>\<open>internal/evidence\<close>: model.go, object_store.go, content_key.go, observation.go, pending_source.go and service.go, the
  semantic evidence plane. Needs are resolved through a private registry, content is staged encrypted, and what the
  caller gets are opaque handles; every read re-checks the handle's binding. Loggers, the file-backed object store and
  the test observers are left out.

  The store and the object store are interfaces, records of operations over a state of their own, with the in-memory
  implementations of the source. The other ports belong to other systems: their n-th call is answered by an arbitrary
  function. \<open>crypto/aes\<close>/\<open>cipher\<close> and \<open>encoding/json\<close> on records of arbitrary values are the record \<open>codec\<close>. Counters
  (source version, sequence) are unbounded; the source's are 64 bits wide.
\<close>

datatype evidence_error =
    ErrInvalidRequest | ErrDenied | ErrNotFound | ErrContentTooLarge | ErrUnavailable | ErrObjectNotFound
  | ErrNoContentSource | ErrInvalidCatalog

type_synonym evidence_go_error = "evidence_error go_error"

definition outage :: "evidence_go_error \<Rightarrow> evidence_go_error" where
  "outage e = Joined [Sentinel ErrUnavailable, e]"

definition invalid :: "string \<Rightarrow> evidence_go_error" where
  "invalid m = Joined [Sentinel ErrInvalidRequest, Message m]"

definition hasControlBytes :: "string \<Rightarrow> bool" where
  "hasControlBytes s = list_ex (\<lambda>c. byte c < 0x20 \<or> byte c = 0x7f) s"

subsection \<open>Bindings, handles and their events (model.go)\<close>

record Authorization =
  az_OrgVersion :: int
  az_ConnectorCapabilityAllowed :: bool

record SourceBinding =
  sb_TenantRef :: string
  sb_ID :: string
  sb_DataClass :: string
  sb_SourceRef :: string
  sb_SourceVersion :: int
  sb_AccessCapability :: Capability
  sb_SourceCapability :: Capability
  sb_ResourceType :: ResourceType
  sb_ResourceID :: string
  sb_CachedReadAllowed :: bool
  sb_RetentionTTL :: duration
  sb_AuthorityTier :: string
  sb_FreshnessBound :: duration
  sb_Deleted :: bool
  sb_CreatedAt :: time
  sb_UpdatedAt :: time

definition connectorBacked :: "SourceBinding \<Rightarrow> bool" where
  "connectorBacked b \<longleftrightarrow> IsConnectorCapability (sb_SourceCapability b)"

record Handle =
  hd_TenantRef :: string
  hd_EvidenceRef :: string
  hd_PrincipalRef :: string
  hd_AgentClientRef :: string
  hd_AgentReleaseRef :: string
  hd_OrgVersion :: int
  hd_DataClass :: string
  hd_BindingID :: string
  hd_SourceVersion :: int
  hd_Purpose :: string
  hd_BusinessContextRef :: string
  hd_ContentHash :: string
  hd_ContentBytes :: int
  hd_RecordCount :: int
  hd_RecordOffset :: int
  hd_PageLimit :: int
  hd_ObjectKey :: string
  hd_KeyRef :: string
  hd_AuthorizationRef :: string
  hd_Lineage :: "string list"
  hd_CachedReadAllowed :: bool
  hd_StagedAt :: time
  hd_ExpiresAt :: time
  hd_RetentionExpiresAt :: time
  hd_CreatedAt :: time

datatype HandleEventKind = HandleEventRevoked | HandleEventContentExpired | HandleEventOther string

definition kind_valid :: "HandleEventKind \<Rightarrow> bool" where
  "kind_valid k = (case k of HandleEventOther _ \<Rightarrow> False | _ \<Rightarrow> True)"

record HandleEvent =
  ev_TenantRef :: string
  ev_ID :: string
  ev_EvidenceRef :: string
  ev_Kind :: HandleEventKind
  ev_Reason :: string
  ev_Seq :: int
  ev_CreatedAt :: time

record 'st EvidenceOps =
  eo_UpsertSourceBinding :: "SourceBinding \<Rightarrow> (evidence_error, 'st, SourceBinding) effect"
  eo_GetSourceBinding :: "string \<Rightarrow> string \<Rightarrow> (evidence_error, 'st, SourceBinding) effect"
  eo_BumpSourceVersion :: "string \<Rightarrow> string \<Rightarrow> time \<Rightarrow> (evidence_error, 'st, SourceBinding) effect"
  eo_MarkSourceDeleted :: "string \<Rightarrow> string \<Rightarrow> time \<Rightarrow> (evidence_error, 'st, SourceBinding) effect"
  eo_CreateHandle :: "Handle \<Rightarrow> (evidence_error, 'st, Handle) effect"
  eo_GetHandle :: "string \<Rightarrow> string \<Rightarrow> (evidence_error, 'st, Handle) effect"
  eo_AppendHandleEvent :: "HandleEvent \<Rightarrow> (evidence_error, 'st, HandleEvent) effect"
  eo_ListHandleEvents :: "string \<Rightarrow> string \<Rightarrow> (evidence_error, 'st, HandleEvent list) effect"
  eo_ListRetentionExpired :: "string \<Rightarrow> time \<Rightarrow> int \<Rightarrow> (evidence_error, 'st, Handle list) effect"

type_synonym 'v Record = "string \<rightharpoonup> 'v"

record ContentRequest =
  ct_TenantRef :: string
  ct_SourceRef :: string
  ct_DataClass :: string
  ct_Fields :: "string list option"
  ct_MaxBytes :: int

record KeyMaterial =
  km_Ref :: string
  km_Key :: string

datatype detail = DText string | DInt int | DBool bool

record EvidenceAuditEvent =
  xe_TenantRef :: string
  xe_PrincipalRef :: string
  xe_Action :: string
  xe_ResourceType :: string
  xe_ResourceID :: string
  xe_TraceID :: string
  xe_Details :: "(string \<times> detail) list"

subsection \<open>The in-memory store\<close>

text \<open>The order of the handle list stands for Go's iteration order of the map.\<close>

record EvidenceStore =
  em_bindings :: "string \<rightharpoonup> SourceBinding"
  em_handles :: "(string \<times> Handle) list"
  em_events :: "string \<Rightarrow> HandleEvent list"
  em_eventN :: int

definition NewEvidenceStore :: EvidenceStore where
  "NewEvidenceStore = \<lparr>em_bindings = Map.empty, em_handles = [], em_events = (\<lambda>_. []), em_eventN = 0\<rparr>"

definition bindingKey :: "string \<Rightarrow> string \<Rightarrow> string" where
  "bindingKey tenantRef dataClass = tenantRef @ [CHR 0x00] @ dataClass"

definition handleKey :: "string \<Rightarrow> string \<Rightarrow> string" where
  "handleKey tenantRef evidenceRef = tenantRef @ [CHR 0x00] @ evidenceRef"

definition upserted :: "SourceBinding option \<Rightarrow> SourceBinding \<Rightarrow> SourceBinding" where
  "upserted prior binding =
     (case prior of None \<Rightarrow> binding
      | Some existing \<Rightarrow>
          let floor = (if sb_Deleted existing then sb_SourceVersion existing + 1 else sb_SourceVersion existing) in
          binding\<lparr>sb_ID := sb_ID existing, sb_CreatedAt := sb_CreatedAt existing,
            sb_SourceVersion := (if sb_SourceVersion binding < floor then floor else sb_SourceVersion binding)\<rparr>)\<lparr>sb_Deleted := False\<rparr>"

definition em_UpsertSourceBinding :: "SourceBinding \<Rightarrow> (evidence_error, EvidenceStore, SourceBinding) effect" where
  "em_UpsertSourceBinding binding s =
     (let key = bindingKey (sb_TenantRef binding) (sb_DataClass binding);
          stored = upserted (em_bindings s key) binding
      in (Inr stored, s\<lparr>em_bindings := (em_bindings s)(key \<mapsto> stored)\<rparr>))"

definition em_GetSourceBinding :: "string \<Rightarrow> string \<Rightarrow> (evidence_error, EvidenceStore, SourceBinding) effect" where
  "em_GetSourceBinding tenantRef dataClass s =
     (case em_bindings s (bindingKey tenantRef dataClass) of
        None \<Rightarrow> (Inl (Sentinel ErrNotFound), s) | Some binding \<Rightarrow> (Inr binding, s))"

definition em_BumpSourceVersion :: "string \<Rightarrow> string \<Rightarrow> time \<Rightarrow> (evidence_error, EvidenceStore, SourceBinding) effect" where
  "em_BumpSourceVersion tenantRef dataClass t s =
     (let key = bindingKey tenantRef dataClass in
      case em_bindings s key of
        None \<Rightarrow> (Inl (Sentinel ErrNotFound), s)
      | Some binding \<Rightarrow>
          let binding' = binding\<lparr>sb_SourceVersion := sb_SourceVersion binding + 1, sb_UpdatedAt := t\<rparr>
          in (Inr binding', s\<lparr>em_bindings := (em_bindings s)(key \<mapsto> binding')\<rparr>))"

definition em_MarkSourceDeleted :: "string \<Rightarrow> string \<Rightarrow> time \<Rightarrow> (evidence_error, EvidenceStore, SourceBinding) effect" where
  "em_MarkSourceDeleted tenantRef dataClass t s =
     (let key = bindingKey tenantRef dataClass in
      case em_bindings s key of
        None \<Rightarrow> (Inl (Sentinel ErrNotFound), s)
      | Some binding \<Rightarrow>
          let binding' = binding\<lparr>sb_Deleted := True, sb_UpdatedAt := t\<rparr>
          in (Inr binding', s\<lparr>em_bindings := (em_bindings s)(key \<mapsto> binding')\<rparr>))"

definition em_CreateHandle :: "Handle \<Rightarrow> (evidence_error, EvidenceStore, Handle) effect" where
  "em_CreateHandle h s =
     (let key = handleKey (hd_TenantRef h) (hd_EvidenceRef h) in
      if map_of (em_handles s) key \<noteq> None then (Inl (Sentinel ErrUnavailable), s)
      else (Inr h, s\<lparr>em_handles := em_handles s @ [(key, h)]\<rparr>))"

definition em_GetHandle :: "string \<Rightarrow> string \<Rightarrow> (evidence_error, EvidenceStore, Handle) effect" where
  "em_GetHandle tenantRef evidenceRef s =
     (case map_of (em_handles s) (handleKey tenantRef evidenceRef) of
        None \<Rightarrow> (Inl (Sentinel ErrNotFound), s) | Some h \<Rightarrow> (Inr h, s))"

definition em_AppendHandleEvent :: "HandleEvent \<Rightarrow> (evidence_error, EvidenceStore, HandleEvent) effect" where
  "em_AppendHandleEvent event s =
     (let key = handleKey (ev_TenantRef event) (ev_EvidenceRef event) in
      if \<not> kind_valid (ev_Kind event) then (Inl (Sentinel ErrUnavailable), s)
      else if map_of (em_handles s) key = None then (Inl (Sentinel ErrNotFound), s)
      else let n = em_eventN s + 1; event' = event\<lparr>ev_Seq := n\<rparr>
           in (Inr event', s\<lparr>em_eventN := n, em_events := (em_events s)(key := em_events s key @ [event'])\<rparr>))"

definition em_ListHandleEvents :: "string \<Rightarrow> string \<Rightarrow> (evidence_error, EvidenceStore, HandleEvent list) effect" where
  "em_ListHandleEvents tenantRef evidenceRef s = (Inr (em_events s (handleKey tenantRef evidenceRef)), s)"

definition retention_due :: "string \<Rightarrow> time \<Rightarrow> EvidenceStore \<Rightarrow> string \<times> Handle \<Rightarrow> bool" where
  "retention_due tenantRef t s kh \<longleftrightarrow>
     (case kh of (key, h) \<Rightarrow>
        \<not> (hd_TenantRef h \<noteq> tenantRef \<or> is_zero_time (hd_RetentionExpiresAt h) \<or> hd_RetentionExpiresAt h > t)
        \<and> \<not> list_ex (\<lambda>event. ev_Kind event = HandleEventContentExpired) (em_events s key))"

definition em_ListRetentionExpired :: "string \<Rightarrow> time \<Rightarrow> int \<Rightarrow> (evidence_error, EvidenceStore, Handle list) effect" where
  "em_ListRetentionExpired tenantRef t limit s =
     (let out = sort_key (\<lambda>h. (hd_RetentionExpiresAt h, hd_EvidenceRef h)) (map snd (filter (retention_due tenantRef t s) (em_handles s)))
      in (Inr (if limit > 0 \<and> int (length out) > limit then take (nat limit) out else out), s))"

definition memory_evidence :: "EvidenceStore EvidenceOps" where
  "memory_evidence =
     \<lparr>eo_UpsertSourceBinding = em_UpsertSourceBinding, eo_GetSourceBinding = em_GetSourceBinding,
      eo_BumpSourceVersion = em_BumpSourceVersion, eo_MarkSourceDeleted = em_MarkSourceDeleted,
      eo_CreateHandle = em_CreateHandle, eo_GetHandle = em_GetHandle, eo_AppendHandleEvent = em_AppendHandleEvent,
      eo_ListHandleEvents = em_ListHandleEvents, eo_ListRetentionExpired = em_ListRetentionExpired\<rparr>"

subsection \<open>Object stores (object_store.go)\<close>

record 'ob ObjectOps =
  oo_Put :: "string \<Rightarrow> string \<Rightarrow> (evidence_error, 'ob, unit) effect"
  oo_Get :: "string \<Rightarrow> (evidence_error, 'ob, string) effect"
  oo_Delete :: "string \<Rightarrow> (evidence_error, 'ob, unit) effect"

text \<open>The pattern \<open>^[A-Za-z0-9_-]{1,200}$\<close>.\<close>

definition is_object_key :: "string \<Rightarrow> bool" where
  "is_object_key key \<longleftrightarrow> 1 \<le> length key \<and> length key \<le> 200
     \<and> list_all (\<lambda>c. is_upper c \<or> is_lower c \<or> is_digit c \<or> c = CHR ''_'' \<or> c = CHR ''-'') key"

definition validObjectKey :: "string \<Rightarrow> evidence_go_error option" where
  "validObjectKey key = fail_if (\<not> is_object_key key) (invalid ''object key is not an opaque store key'')"

type_synonym ObjectStore = "string \<rightharpoonup> string"

definition mo_Put :: "string \<Rightarrow> string \<Rightarrow> (evidence_error, ObjectStore, unit) effect" where
  "mo_Put key ciphertext = andthen (check (validObjectKey key)) (\<lambda>_ s. (Inr (), s(key \<mapsto> ciphertext)))"

definition mo_Get :: "string \<Rightarrow> (evidence_error, ObjectStore, string) effect" where
  "mo_Get key = andthen (check (validObjectKey key))
     (\<lambda>_ s. (case s key of None \<Rightarrow> (Inl (Sentinel ErrObjectNotFound), s) | Some blob \<Rightarrow> (Inr blob, s)))"

definition mo_Delete :: "string \<Rightarrow> (evidence_error, ObjectStore, unit) effect" where
  "mo_Delete key = andthen (check (validObjectKey key)) (\<lambda>_ s. (Inr (), s(key := None)))"

definition memory_objects :: "ObjectStore ObjectOps" where
  "memory_objects = \<lparr>oo_Put = mo_Put, oo_Get = mo_Get, oo_Delete = mo_Delete\<rparr>"

subsection \<open>Content keys (model.go, content_key.go)\<close>

record KeyProvider =
  kp_ContentKey :: "string \<Rightarrow> evidence_go_error + KeyMaterial"
  kp_KeyByRef :: "string \<Rightarrow> string \<Rightarrow> evidence_go_error + KeyMaterial"

definition ContentKeyBytes :: nat where "ContentKeyBytes = 32"

definition StaticKeyProvider :: "KeyMaterial \<Rightarrow> KeyProvider" where
  "StaticKeyProvider m =
     \<lparr>kp_ContentKey = (\<lambda>_. if km_Ref m = [] \<or> length (km_Key m) = 0 then Inl (Sentinel ErrUnavailable) else Inr m),
      kp_KeyByRef = (\<lambda>_ ref. if ref \<noteq> km_Ref m \<or> length (km_Key m) = 0 then Inl (Sentinel ErrUnavailable) else Inr m)\<rparr>"

text \<open>A provider is its reference and key; a nil one is \<open>None\<close>.\<close>

definition NewConfiguredKeyProvider :: "string \<Rightarrow> string \<Rightarrow> evidence_go_error + KeyMaterial" where
  "NewConfiguredKeyProvider ref key =
     (if \<not> canonical ref \<or> hasControlBytes ref then Inl (Message ''evidence content key requires a canonical key reference'')
      else if length key \<noteq> ContentKeyBytes then Inl (Message ''evidence content key must be exactly %d bytes (AES-256), got %d'')
      else Inr \<lparr>km_Ref = ref, km_Key = key\<rparr>)"

definition ConfiguredKeyProvider :: "KeyMaterial option \<Rightarrow> KeyProvider" where
  "ConfiguredKeyProvider p =
     \<lparr>kp_ContentKey = (\<lambda>_. case p of None \<Rightarrow> Inl (Sentinel ErrUnavailable)
        | Some m \<Rightarrow> if km_Ref m = [] \<or> length (km_Key m) \<noteq> ContentKeyBytes then Inl (Sentinel ErrUnavailable) else Inr m),
      kp_KeyByRef = (\<lambda>_ ref. case p of None \<Rightarrow> Inl (Sentinel ErrUnavailable)
        | Some m \<Rightarrow> if km_Ref m = [] \<or> length (km_Key m) \<noteq> ContentKeyBytes \<or> ref \<noteq> km_Ref m
                    then Inl (Sentinel ErrUnavailable) else Inr m)\<rparr>"

subsection \<open>What the standard library supplies\<close>

text \<open>
  \<open>cs_Seal\<close> and \<open>cs_Open\<close> are AES-256-GCM under key, nonce and additional data; \<open>cs_Marshal\<close> and \<open>cs_Unmarshal\<close> are
  \<open>encoding/json\<close> on record arrays, \<open>cs_MarshalReceipt\<close> on a receipt. \<open>honest_codec\<close> says what the plane relies on:
  opening undoes sealing under the same key, nonce and data, and parsing undoes printing up to the JSON form of a value
  (a number comes back as a float).
\<close>

record 'v codec =
  cs_Seal :: "string \<Rightarrow> string \<Rightarrow> string \<Rightarrow> string \<Rightarrow> string"
  cs_Open :: "string \<Rightarrow> string \<Rightarrow> string \<Rightarrow> string \<Rightarrow> string option"
  cs_Marshal :: "'v Record list \<Rightarrow> string option"
  cs_Unmarshal :: "string \<Rightarrow> 'v Record list option"
  cs_JSONForm :: "'v \<Rightarrow> 'v"
  cs_MarshalReceipt :: "ObservationReceipt \<Rightarrow> string option"

definition json_form :: "'v codec \<Rightarrow> 'v Record \<Rightarrow> 'v Record" where
  "json_form cs record = map_option (cs_JSONForm cs) \<circ> record"

definition honest_codec :: "'v codec \<Rightarrow> bool" where
  "honest_codec cs \<longleftrightarrow>
     (\<forall>key nonce plaintext data. cs_Open cs key nonce (cs_Seal cs key nonce plaintext data) data = Some plaintext)
     \<and> (\<forall>records bytes. cs_Marshal cs records = Some bytes \<longrightarrow> cs_Unmarshal cs bytes = Some (map (json_form cs) records))"

subsection \<open>The service and its world\<close>

definition auditActionLocated :: string where "auditActionLocated = ''evidence_located''"
definition auditActionRead :: string where "auditActionRead = ''evidence_read''"

definition denyNotResolvable :: string where "denyNotResolvable = ''not_resolvable''"
definition denyConnectorCapability :: string where "denyConnectorCapability = ''connector_capability_required''"
definition denyPolicy :: string where "denyPolicy = ''policy_denied''"
definition denyHandleUnknown :: string where "denyHandleUnknown = ''handle_unknown''"
definition denyCrossActor :: string where "denyCrossActor = ''cross_actor''"
definition denyCrossClient :: string where "denyCrossClient = ''cross_client''"
definition denyCrossRelease :: string where "denyCrossRelease = ''cross_release''"
definition denyCrossContext :: string where "denyCrossContext = ''cross_context''"
definition denyPurposeDrift :: string where "denyPurposeDrift = ''purpose_drift''"
definition denyHandleExpired :: string where "denyHandleExpired = ''handle_expired''"
definition denyRevoked :: string where "denyRevoked = ''revoked''"
definition denyContentExpired :: string where "denyContentExpired = ''content_expired''"
definition denySourceDeleted :: string where "denySourceDeleted = ''source_deleted''"
definition denySourceVersionStale :: string where "denySourceVersionStale = ''source_version_stale''"
definition denyBindingRebound :: string where "denyBindingRebound = ''binding_rebound''"
definition denyCachedRead :: string where "denyCachedRead = ''cached_read_not_permitted''"
definition denyNeedMismatch :: string where "denyNeedMismatch = ''verification_need_mismatch''"
definition denyObservationUnsupported :: string where "denyObservationUnsupported = ''observation_authority_undeclared''"
definition denyObservationStale :: string where "denyObservationStale = ''observation_freshness_expired''"
definition denyActionUnbound :: string where "denyActionUnbound = ''action_binding_mismatch''"

definition defaultMaxContentBytes :: int where "defaultMaxContentBytes = 1048576"
definition defaultMaxHandleTTL :: duration where "defaultMaxHandleTTL = 1440 * minute"
definition maxPurposeBytes :: nat where "maxPurposeBytes = 1024"
definition maxNeedIDBytes :: nat where "maxNeedIDBytes = 128"
definition maxDataClassBytes :: nat where "maxDataClassBytes = 256"
definition maxDataNeedsPerRequest :: nat where "maxDataNeedsPerRequest = 32"
definition retentionSweepBatch :: int where "retentionSweepBatch = 100"

record ('st, 'ob, 'v) EvidencePorts =
  po_store :: "'st EvidenceOps"
  po_objects :: "'ob ObjectOps"
  po_keys :: "nat \<Rightarrow> KeyProvider"
  po_source :: "nat \<Rightarrow> ContentRequest \<Rightarrow> evidence_go_error + 'v Record list"
  po_decider :: "nat \<Rightarrow> CapabilityRequest \<Rightarrow> evidence_go_error + PermissionDecision"
  po_audit :: "nat \<Rightarrow> EvidenceAuditEvent \<Rightarrow> evidence_go_error + string"

text \<open>The optional ports are \<open>None\<close> when nil; \<open>es_ports\<close> is \<open>None\<close> when the service or any required port is nil.\<close>

record ('st, 'ob, 'v) EvidenceService =
  es_ports :: "('st, 'ob, 'v) EvidencePorts option"
  es_signer :: "(nat \<Rightarrow> string \<Rightarrow> evidence_go_error + Signature) option"
  es_actionBinding :: "(nat \<Rightarrow> string \<Rightarrow> VerificationBinding \<Rightarrow> evidence_go_error option) option"
  es_codec :: "'v codec"
  es_nonce :: "nat \<Rightarrow> string option"
  es_now :: "nat \<Rightarrow> time"
  es_newID :: "nat \<Rightarrow> string \<Rightarrow> string"
  es_maxContentBytes :: int
  es_maxHandleTTL :: duration

record ('st, 'ob) EvidenceWorld =
  ew_store :: 'st
  ew_objects :: 'ob
  ew_ticks :: nat
  ew_ids :: nat
  ew_nonces :: nat
  ew_calls :: nat
  ew_lineage :: "(EvidenceAuditEvent \<times> (evidence_go_error + string)) list"

type_synonym ('st, 'ob, 'a) plane = "(evidence_error, ('st, 'ob) EvidenceWorld, 'a) effect"

definition on_store :: "(evidence_error, 'st, 'a) effect \<Rightarrow> ('st, 'ob, 'a) plane" where
  "on_store m w = (case m (ew_store w) of (r, s) \<Rightarrow> (r, w\<lparr>ew_store := s\<rparr>))"

definition on_objects :: "(evidence_error, 'ob, 'a) effect \<Rightarrow> ('st, 'ob, 'a) plane" where
  "on_objects m w = (case m (ew_objects w) of (r, s) \<Rightarrow> (r, w\<lparr>ew_objects := s\<rparr>))"

definition clock :: "('st, 'ob, 'v) EvidenceService \<Rightarrow> ('st, 'ob, time) plane" where
  "clock sv w = (Inr (es_now sv (ew_ticks w)), w\<lparr>ew_ticks := Suc (ew_ticks w)\<rparr>)"

definition newID :: "('st, 'ob, 'v) EvidenceService \<Rightarrow> string \<Rightarrow> ('st, 'ob, string) plane" where
  "newID sv prefix w = (Inr (es_newID sv (ew_ids w) prefix), w\<lparr>ew_ids := Suc (ew_ids w)\<rparr>)"

text \<open>A call of an external port.\<close>

definition ask :: "(nat \<Rightarrow> evidence_go_error + 'a) \<Rightarrow> ('st, 'ob, 'a) plane" where
  "ask answer w = (answer (ew_calls w), w\<lparr>ew_calls := Suc (ew_calls w)\<rparr>)"

definition append_lineage :: "('st, 'ob, 'v) EvidencePorts \<Rightarrow> EvidenceAuditEvent \<Rightarrow> ('st, 'ob, string) plane" where
  "append_lineage po event w =
     (let r = po_audit po (ew_calls w) event
      in (r, w\<lparr>ew_calls := Suc (ew_calls w), ew_lineage := ew_lineage w @ [(event, r)]\<rparr>))"

definition with_ports :: "('st, 'ob, 'v) EvidenceService \<Rightarrow> (('st, 'ob, 'v) EvidencePorts \<Rightarrow> ('st, 'ob, 'a) plane) \<Rightarrow> ('st, 'ob, 'a) plane" where
  "with_ports sv k = (case es_ports sv of None \<Rightarrow> fail (Sentinel ErrUnavailable) | Some po \<Rightarrow> k po)"

definition missing_or_outage :: "evidence_go_error \<Rightarrow> evidence_go_error" where
  "missing_or_outage e = (if errors_is e ErrNotFound then Sentinel ErrNotFound else outage e)"

subsection \<open>Sealing (service.go)\<close>

definition contentAAD :: "string \<Rightarrow> string \<Rightarrow> string" where
  "contentAAD tenantRef objectKey = tenantRef @ ''|'' @ objectKey"

definition NonceSize :: nat where "NonceSize = 12"

definition seal :: "('st, 'ob, 'v) EvidenceService \<Rightarrow> string \<Rightarrow> string \<Rightarrow> string \<Rightarrow> ('st, 'ob, string) plane" where
  "seal sv key plaintext data w =
     (if length key \<noteq> 32 then (Inl (Message ''content key must be exactly 32 bytes (AES-256)''), w)
      else (case es_nonce sv (ew_nonces w) of
          None \<Rightarrow> (Inl (Message ''rand''), w\<lparr>ew_nonces := Suc (ew_nonces w)\<rparr>)
        | Some nonce \<Rightarrow> (Inr (nonce @ cs_Seal (es_codec sv) key nonce plaintext data), w\<lparr>ew_nonces := Suc (ew_nonces w)\<rparr>)))"

definition unseal :: "'v codec \<Rightarrow> string \<Rightarrow> string \<Rightarrow> string \<Rightarrow> evidence_go_error + string" where
  "unseal cs key blob data =
     (if length key \<noteq> 32 then Inl (Message ''content key must be exactly 32 bytes (AES-256)'')
      else if length blob < NonceSize then Inl (Message ''sealed blob is truncated'')
      else (case cs_Open cs key (take NonceSize blob) (drop NonceSize blob) data of
          None \<Rightarrow> Inl (Message ''cipher: message authentication failed'') | Some plaintext \<Rightarrow> Inr plaintext))"

subsection \<open>Administration\<close>

definition AuthorityTierSystemOfRecord :: string where "AuthorityTierSystemOfRecord = ''system_of_record''"
definition AuthorityTierAuthoritativeReplica :: string where "AuthorityTierAuthoritativeReplica = ''authoritative_replica''"
definition AuthorityTierDerived :: string where "AuthorityTierDerived = ''derived''"

definition validAuthorityTier :: "string \<Rightarrow> bool" where
  "validAuthorityTier tier \<longleftrightarrow> tier \<in> {AuthorityTierSystemOfRecord, AuthorityTierAuthoritativeReplica, AuthorityTierDerived}"

definition RegisterSourceBinding :: "('st, 'ob, 'v) EvidenceService \<Rightarrow> SourceBinding \<Rightarrow> ('st, 'ob, SourceBinding) plane" where
  "RegisterSourceBinding sv binding = with_ports sv (\<lambda>po.
     andthen (require (canonical (sb_TenantRef binding) \<and> canonical (sb_DataClass binding) \<and> canonical (sb_SourceRef binding)
        \<and> canonical (sb_AccessCapability binding) \<and> canonical (sb_ResourceType binding) \<and> canonical (sb_ResourceID binding)
        \<and> \<not> hasControlBytes (sb_SourceRef binding) \<and> \<not> sb_RetentionTTL binding < 0 \<and> \<not> sb_SourceVersion binding < 0)
       (Sentinel ErrInvalidRequest)) (\<lambda>_.
     andthen (require (sb_AuthorityTier binding = [] \<and> sb_FreshnessBound binding = 0
          \<or> validAuthorityTier (sb_AuthorityTier binding) \<and> \<not> sb_FreshnessBound binding \<le> 0)
       (invalid ''observation authority declares a frozen tier together with a positive freshness bound'')) (\<lambda>_.
     andthen (clock sv) (\<lambda>now.
     andthen (if sb_ID binding = [] then newID sv ''esb_'' else ret (sb_ID binding)) (\<lambda>bindingID.
     andthen (require (canonical bindingID) (Sentinel ErrUnavailable)) (\<lambda>_.
     on_error outage (on_store (eo_UpsertSourceBinding (po_store po)
       (binding\<lparr>sb_ID := bindingID,
          sb_SourceVersion := (if sb_SourceVersion binding = 0 then 1 else sb_SourceVersion binding),
          sb_Deleted := False, sb_CreatedAt := now, sb_UpdatedAt := now\<rparr>)))))))))"

definition InvalidateSourceVersion :: "('st, 'ob, 'v) EvidenceService \<Rightarrow> string \<Rightarrow> string \<Rightarrow> ('st, 'ob, SourceBinding) plane" where
  "InvalidateSourceVersion sv tenantRef dataClass = with_ports sv (\<lambda>po.
     andthen (require (canonical tenantRef \<and> canonical dataClass) (Sentinel ErrInvalidRequest)) (\<lambda>_.
     andthen (clock sv) (\<lambda>now.
     on_error missing_or_outage (on_store (eo_BumpSourceVersion (po_store po) tenantRef dataClass now)))))"

definition DeleteSource :: "('st, 'ob, 'v) EvidenceService \<Rightarrow> string \<Rightarrow> string \<Rightarrow> ('st, 'ob, unit) plane" where
  "DeleteSource sv tenantRef dataClass = with_ports sv (\<lambda>po.
     andthen (require (canonical tenantRef \<and> canonical dataClass) (Sentinel ErrInvalidRequest)) (\<lambda>_.
     andthen (clock sv) (\<lambda>now.
     andthen (on_error missing_or_outage (on_store (eo_MarkSourceDeleted (po_store po) tenantRef dataClass now))) (\<lambda>_. ret ()))))"

definition handle_event :: "string \<Rightarrow> string \<Rightarrow> string \<Rightarrow> HandleEventKind \<Rightarrow> string \<Rightarrow> HandleEvent" where
  "handle_event tenantRef eventID evidenceRef kind reason =
     \<lparr>ev_TenantRef = tenantRef, ev_ID = eventID, ev_EvidenceRef = evidenceRef, ev_Kind = kind, ev_Reason = reason,
      ev_Seq = 0, ev_CreatedAt = 0\<rparr>"

definition RevokeAuthorization :: "('st, 'ob, 'v) EvidenceService \<Rightarrow> string \<Rightarrow> string \<Rightarrow> string \<Rightarrow> ('st, 'ob, unit) plane" where
  "RevokeAuthorization sv tenantRef evidenceRef reason = with_ports sv (\<lambda>po.
     andthen (require (canonical tenantRef \<and> canonical evidenceRef \<and> \<not> hasControlBytes reason) (Sentinel ErrInvalidRequest)) (\<lambda>_.
     andthen (on_error missing_or_outage (on_store (eo_GetHandle (po_store po) tenantRef evidenceRef))) (\<lambda>_.
     andthen (newID sv ''evt_'') (\<lambda>eventID.
     andthen (require (canonical eventID) (Sentinel ErrUnavailable)) (\<lambda>_.
     andthen (on_error missing_or_outage (on_store (eo_AppendHandleEvent (po_store po)
        (handle_event tenantRef eventID evidenceRef HandleEventRevoked reason)))) (\<lambda>_. ret ()))))))"

text \<open>
  The sweep: one batch, then, while a batch came back full, the next. The outer loop runs on fuel, \<open>None\<close> when it is
  spent; a failing sweep still reports how many handles it expired.
\<close>

definition sweep_one :: "('st, 'ob, 'v) EvidenceService \<Rightarrow> ('st, 'ob, 'v) EvidencePorts \<Rightarrow> string \<Rightarrow> Handle \<Rightarrow> ('st, 'ob, unit) plane" where
  "sweep_one sv po tenantRef h =
     andthen (attempt (on_objects (oo_Delete (po_objects po) (hd_ObjectKey h)))) (\<lambda>r.
     andthen (case r of Inl e \<Rightarrow> if \<not> errors_is e ErrObjectNotFound then fail (outage e) else ret () | Inr _ \<Rightarrow> ret ()) (\<lambda>_.
     andthen (newID sv ''evt_'') (\<lambda>eventID.
     andthen (require (canonical eventID) (Sentinel ErrUnavailable)) (\<lambda>_.
     andthen (on_error outage (on_store (eo_AppendHandleEvent (po_store po)
        (handle_event tenantRef eventID (hd_EvidenceRef h) HandleEventContentExpired ''raw-content retention expired'')))) (\<lambda>_.
     ret ())))))"

type_synonym ('st, 'ob) swept = "(evidence_go_error option \<times> int) \<times> ('st, 'ob) EvidenceWorld"

fun sweep_batch ::
  "('st, 'ob, 'v) EvidenceService \<Rightarrow> ('st, 'ob, 'v) EvidencePorts \<Rightarrow> string \<Rightarrow> Handle list \<Rightarrow> int \<Rightarrow> ('st, 'ob) EvidenceWorld \<Rightarrow> ('st, 'ob) swept" where
  "sweep_batch sv po tenantRef [] removed w = ((None, removed), w)"
| "sweep_batch sv po tenantRef (h # hs) removed w =
     (case sweep_one sv po tenantRef h w of
        (Inl e, w') \<Rightarrow> ((Some e, removed), w')
      | (Inr _, w') \<Rightarrow> sweep_batch sv po tenantRef hs (removed + 1) w')"

fun sweep_loop ::
  "nat \<Rightarrow> ('st, 'ob, 'v) EvidenceService \<Rightarrow> ('st, 'ob, 'v) EvidencePorts \<Rightarrow> string \<Rightarrow> int \<Rightarrow> ('st, 'ob) EvidenceWorld \<Rightarrow> ('st, 'ob) swept option" where
  "sweep_loop 0 sv po tenantRef removed w = None"
| "sweep_loop (Suc n) sv po tenantRef removed w =
     (case andthen (clock sv) (\<lambda>now. on_error outage (on_store (eo_ListRetentionExpired (po_store po) tenantRef now retentionSweepBatch))) w of
        (Inl e, w1) \<Rightarrow> Some ((Some e, removed), w1)
      | (Inr expired, w1) \<Rightarrow>
          (case sweep_batch sv po tenantRef expired removed w1 of
             ((Some e, r), w2) \<Rightarrow> Some ((Some e, r), w2)
           | ((None, r), w2) \<Rightarrow>
               if int (length expired) < retentionSweepBatch then Some ((None, r), w2) else sweep_loop n sv po tenantRef r w2))"

definition SweepRetention :: "nat \<Rightarrow> ('st, 'ob, 'v) EvidenceService \<Rightarrow> string \<Rightarrow> ('st, 'ob) EvidenceWorld \<Rightarrow> ('st, 'ob) swept option" where
  "SweepRetention fuel sv tenantRef w =
     (case es_ports sv of
        None \<Rightarrow> Some ((Some (Sentinel ErrUnavailable), 0), w)
      | Some po \<Rightarrow> if \<not> canonical tenantRef then Some ((Some (Sentinel ErrInvalidRequest), 0), w)
                   else sweep_loop fuel sv po tenantRef 0 w)"

subsection \<open>Projections and bounds\<close>

definition uses_of :: "Constraints option \<Rightarrow> string list" where
  "uses_of c = (case c of None \<Rightarrow> [] | Some c \<Rightarrow> con_ProhibitedUses c)"

definition prohibitedUses :: "EvidenceRequest \<Rightarrow> DataNeed \<Rightarrow> string list" where
  "prohibitedUses req need = uses_of (eq_Constraints req) @ uses_of (dn_Constraints need)"

definition max_results :: "Constraints option \<Rightarrow> int" where
  "max_results c = (case c of None \<Rightarrow> 0 | Some c \<Rightarrow> con_MaxResults c)"

definition pageLimit :: "EvidenceRequest \<Rightarrow> DataNeed \<Rightarrow> int" where
  "pageLimit req need =
     (if max_results (dn_Constraints need) > 0 then max_results (dn_Constraints need)
      else if max_results (eq_Constraints req) > 0 then max_results (eq_Constraints req)
      else 0)"

text \<open>The elements of a possibly nil list.\<close>

definition items :: "'a list option \<Rightarrow> 'a list" where
  "items xs = (case xs of None \<Rightarrow> [] | Some ys \<Rightarrow> ys)"

definition stagingFields :: "DataNeed \<Rightarrow> string list option" where
  "stagingFields need =
     (let allowed = (case dn_Constraints need of None \<Rightarrow> None | Some c \<Rightarrow> con_AllowedFields c);
          names = items (dn_Fields need) in
      if length names > 0 \<and> length (items allowed) > 0 then Some (filter (\<lambda>f. f \<in> set (items allowed)) names)
      else if length names > 0 then dn_Fields need
      else allowed)"

definition project :: "string list \<Rightarrow> 'v Record \<Rightarrow> 'v Record" where
  "project names record = (\<lambda>f. if f \<in> set names then record f else None)"

definition projectRecords :: "'v Record list \<Rightarrow> string list option \<Rightarrow> 'v Record list" where
  "projectRecords records names =
     (case names of None \<Rightarrow> records
      | Some [] \<Rightarrow> map (\<lambda>_. Map.empty) records
      | Some (f # fs) \<Rightarrow> map (project (f # fs)) records)"

subsection \<open>Locate\<close>

record LocateResult =
  lr_BusinessContextRef :: string
  lr_Evidence :: "EvidenceHandle list"

record stagedNeed =
  sn_need :: DataNeed
  sn_binding :: SourceBinding
  sn_plaintext :: string
  sn_hash :: string
  sn_count :: int
  sn_pageLimit :: int

definition denyLocate ::
  "('st, 'ob, 'v) EvidencePorts \<Rightarrow> PrincipalContext \<Rightarrow> EvidenceRequest \<Rightarrow> DataNeed \<Rightarrow> string \<Rightarrow> ('st, 'ob, 'a) plane" where
  "denyLocate po prin req need reason =
     andthen (attempt (append_lineage po
       \<lparr>xe_TenantRef = pc_TenantRef prin, xe_PrincipalRef = pc_PrincipalRef prin, xe_Action = auditActionLocated,
        xe_ResourceType = ''evidence_need'', xe_ResourceID = dn_DataClass need, xe_TraceID = eq_TraceID req,
        xe_Details = [(''decision'', DText ''deny''), (''reason'', DText reason)]\<rparr>)) (\<lambda>_.
     fail (Joined [Sentinel ErrDenied, Message reason]))"

definition capability_request :: "PrincipalContext \<Rightarrow> Authorization \<Rightarrow> SourceBinding \<Rightarrow> CapabilityRequest" where
  "capability_request prin authz binding =
     \<lparr>cr_TenantRef = pc_TenantRef prin, cr_PrincipalRef = pc_PrincipalRef prin, cr_SealedOrgVersion = az_OrgVersion authz,
      cr_ResourceType = sb_ResourceType binding, cr_ResourceID = sb_ResourceID binding,
      cr_Capability = sb_AccessCapability binding, cr_TargetOrgUnitID = []\<rparr>"

definition canonical_within :: "string \<Rightarrow> nat \<Rightarrow> bool" where
  "canonical_within v bound \<longleftrightarrow> canonical v \<and> \<not> hasControlBytes v \<and> \<not> length v > bound"

definition resolveNeed ::
  "('st, 'ob, 'v) EvidenceService \<Rightarrow> ('st, 'ob, 'v) EvidencePorts \<Rightarrow> PrincipalContext \<Rightarrow> Authorization \<Rightarrow> EvidenceRequest
     \<Rightarrow> DataNeed \<Rightarrow> ('st, 'ob, stagedNeed) plane" where
  "resolveNeed sv po prin authz req need =
     andthen (require (canonical_within (dn_NeedID need) maxNeedIDBytes) (invalid ''need_id is not canonical'')) (\<lambda>_.
     andthen (require (canonical_within (dn_Purpose need) maxPurposeBytes) (invalid ''purpose is not canonical'')) (\<lambda>_.
     andthen (require (dn_Purpose need = eq_Purpose req) (invalid ''need purpose conflicts with the request purpose'')) (\<lambda>_.
     andthen (require (dn_Purpose need \<notin> set (prohibitedUses req need)) (invalid ''purpose is prohibited for this need'')) (\<lambda>_.
     andthen (attempt (on_store (eo_GetSourceBinding (po_store po) (pc_TenantRef prin) (dn_DataClass need)))) (\<lambda>r.
     case r of
       Inl e \<Rightarrow> if errors_is e ErrNotFound then denyLocate po prin req need denyNotResolvable else fail (outage e)
     | Inr binding \<Rightarrow>
         if sb_Deleted binding then denyLocate po prin req need denyNotResolvable
         else if connectorBacked binding \<and> \<not> az_ConnectorCapabilityAllowed authz
         then denyLocate po prin req need denyConnectorCapability
         else
           andthen (on_error outage (ask (\<lambda>n. po_decider po n (capability_request prin authz binding)))) (\<lambda>decision.
           if pd_Decision decision \<noteq> DecisionAllow then denyLocate po prin req need denyPolicy
           else
             andthen (on_error
               (\<lambda>e. if errors_is e ErrContentTooLarge
                    then Joined [Sentinel ErrContentTooLarge, Message ''source stopped at the staging bound (%d bytes)'']
                    else outage (Message ''source fetch failed''))
               (ask (\<lambda>n. po_source po n \<lparr>ct_TenantRef = pc_TenantRef prin, ct_SourceRef = sb_SourceRef binding,
                 ct_DataClass = sb_DataClass binding, ct_Fields = dn_Fields need, ct_MaxBytes = es_maxContentBytes sv\<rparr>))) (\<lambda>fetched.
             let records = projectRecords fetched (stagingFields need) in
             case cs_Marshal (es_codec sv) records of
               None \<Rightarrow> fail (outage (Message ''json''))
             | Some plaintext \<Rightarrow>
                 if es_maxContentBytes sv > 0 \<and> int (length plaintext) > es_maxContentBytes sv
                 then fail (Joined [Sentinel ErrContentTooLarge, Message ''normalized content is %d bytes (bound %d)''])
                 else ret \<lparr>sn_need = need, sn_binding = binding, sn_plaintext = plaintext, sn_hash = sha256_hex plaintext,
                   sn_count = int (length records), sn_pageLimit = pageLimit req need\<rparr>)))))))"

fun resolve_needs ::
  "('st, 'ob, 'v) EvidenceService \<Rightarrow> ('st, 'ob, 'v) EvidencePorts \<Rightarrow> PrincipalContext \<Rightarrow> Authorization \<Rightarrow> EvidenceRequest
     \<Rightarrow> DataNeed list \<Rightarrow> ('st, 'ob, stagedNeed list) plane" where
  "resolve_needs sv po prin authz req [] = ret []"
| "resolve_needs sv po prin authz req (need # needs) =
     andthen (resolveNeed sv po prin authz req need) (\<lambda>one.
     andthen (resolve_needs sv po prin authz req needs) (\<lambda>rest. ret (one # rest)))"

text \<open>Compensation of an aborted locate: every staged object is deleted and every created handle revoked, best effort.\<close>

fun delete_staged :: "('st, 'ob, 'v) EvidencePorts \<Rightarrow> string list \<Rightarrow> ('st, 'ob, unit) plane" where
  "delete_staged po [] = ret ()"
| "delete_staged po (key # keys) =
     andthen (attempt (on_objects (oo_Delete (po_objects po) key))) (\<lambda>_. delete_staged po keys)"

fun revoke_created :: "('st, 'ob, 'v) EvidenceService \<Rightarrow> ('st, 'ob, 'v) EvidencePorts \<Rightarrow> string \<Rightarrow> string list \<Rightarrow> ('st, 'ob, unit) plane" where
  "revoke_created sv po tenantRef [] = ret ()"
| "revoke_created sv po tenantRef (ref # refs) =
     andthen (newID sv ''evt_'') (\<lambda>eventID.
     andthen (attempt (on_store (eo_AppendHandleEvent (po_store po)
       (handle_event tenantRef eventID ref HandleEventRevoked ''locate aborted'')))) (\<lambda>_.
     revoke_created sv po tenantRef refs))"

definition cleanup ::
  "('st, 'ob, 'v) EvidenceService \<Rightarrow> ('st, 'ob, 'v) EvidencePorts \<Rightarrow> string \<Rightarrow> string list \<Rightarrow> string list \<Rightarrow> ('st, 'ob, unit) plane" where
  "cleanup sv po tenantRef stagedKeys createdRefs =
     andthen (delete_staged po stagedKeys) (\<lambda>_. revoke_created sv po tenantRef createdRefs)"

definition or_cleanup :: "('st, 'ob, unit) plane \<Rightarrow> ('st, 'ob, 'a) plane \<Rightarrow> ('st, 'ob, 'a) plane" where
  "or_cleanup undo m w = (case m w of (Inl e, w') \<Rightarrow> andthen undo (\<lambda>_. fail e) w' | (Inr a, w') \<Rightarrow> (Inr a, w'))"

text \<open>An audit append that errs or returns no reference is no lineage.\<close>

definition require_lineage :: "('st, 'ob, 'v) EvidencePorts \<Rightarrow> EvidenceAuditEvent \<Rightarrow> string \<Rightarrow> ('st, 'ob, string) plane" where
  "require_lineage po event message =
     andthen (on_error (\<lambda>_. outage (Message message)) (append_lineage po event)) (\<lambda>auditRef.
     andthen (require (auditRef \<noteq> []) (outage (Message message))) (\<lambda>_. ret auditRef))"

definition located_event :: "PrincipalContext \<Rightarrow> Authorization \<Rightarrow> EvidenceRequest \<Rightarrow> string \<Rightarrow> string \<Rightarrow> stagedNeed \<Rightarrow> EvidenceAuditEvent" where
  "located_event prin authz req businessContextRef evidenceRef one =
     \<lparr>xe_TenantRef = pc_TenantRef prin, xe_PrincipalRef = pc_PrincipalRef prin, xe_Action = auditActionLocated,
      xe_ResourceType = ''evidence_handle'', xe_ResourceID = evidenceRef, xe_TraceID = eq_TraceID req,
      xe_Details =
        [(''decision'', DText ''allow''), (''data_class'', DText (sb_DataClass (sn_binding one))), (''need_id'', DText (dn_NeedID (sn_need one))),
         (''purpose'', DText (dn_Purpose (sn_need one))), (''source_version'', DInt (sb_SourceVersion (sn_binding one))),
         (''content_hash'', DText (sn_hash one)), (''org_version'', DInt (az_OrgVersion authz)),
         (''business_context_ref'', DText businessContextRef), (''agent_release_ref'', DText (pc_AgentReleaseRef prin))]\<rparr>"

definition located_handle ::
  "PrincipalContext \<Rightarrow> Authorization \<Rightarrow> string \<Rightarrow> time \<Rightarrow> time \<Rightarrow> string \<Rightarrow> string \<Rightarrow> string \<Rightarrow> string \<Rightarrow> stagedNeed \<Rightarrow> Handle" where
  "located_handle prin authz businessContextRef now expiresAt objectKey evidenceRef keyRef auditRef one =
     (let ttl = sb_RetentionTTL (sn_binding one);
          retention = (if ttl > 0 \<and> now + ttl < expiresAt then now + ttl else expiresAt) in
     \<lparr>hd_TenantRef = pc_TenantRef prin, hd_EvidenceRef = evidenceRef, hd_PrincipalRef = pc_PrincipalRef prin,
      hd_AgentClientRef = pc_AgentClientRef prin, hd_AgentReleaseRef = pc_AgentReleaseRef prin, hd_OrgVersion = az_OrgVersion authz,
      hd_DataClass = sb_DataClass (sn_binding one), hd_BindingID = sb_ID (sn_binding one),
      hd_SourceVersion = sb_SourceVersion (sn_binding one), hd_Purpose = dn_Purpose (sn_need one),
      hd_BusinessContextRef = businessContextRef, hd_ContentHash = sn_hash one, hd_ContentBytes = int (length (sn_plaintext one)),
      hd_RecordCount = sn_count one, hd_RecordOffset = 0, hd_PageLimit = sn_pageLimit one, hd_ObjectKey = objectKey,
      hd_KeyRef = keyRef, hd_AuthorizationRef = auditRef, hd_Lineage = [auditRef],
      hd_CachedReadAllowed = sb_CachedReadAllowed (sn_binding one), hd_StagedAt = now, hd_ExpiresAt = expiresAt,
      hd_RetentionExpiresAt = retention, hd_CreatedAt = 0\<rparr>)"

definition public_handle :: "string \<Rightarrow> time \<Rightarrow> stagedNeed \<Rightarrow> EvidenceHandle" where
  "public_handle evidenceRef expiresAt one =
     \<lparr>eh_EvidenceRef = evidenceRef, eh_DataClass = sb_DataClass (sn_binding one),
      eh_Summary = decimal_int (sn_count one) @ '' record(s) as of source version '' @ decimal_int (sb_SourceVersion (sn_binding one)),
      eh_ExpiresAt = expiresAt\<rparr>"

definition persist_need ::
  "('st, 'ob, 'v) EvidenceService \<Rightarrow> ('st, 'ob, 'v) EvidencePorts \<Rightarrow> PrincipalContext \<Rightarrow> Authorization \<Rightarrow> EvidenceRequest
     \<Rightarrow> string \<Rightarrow> time \<Rightarrow> time \<Rightarrow> KeyMaterial \<Rightarrow> string list \<Rightarrow> string list \<Rightarrow> stagedNeed \<Rightarrow> ('st, 'ob, string \<times> EvidenceHandle) plane" where
  "persist_need sv po prin authz req businessContextRef now expiresAt key stagedKeys createdRefs one =
     andthen (newID sv ''obj_'') (\<lambda>objectKey.
     andthen (newID sv HandleEvidence) (\<lambda>evidenceRef.
     let undo = (\<lambda>keys. cleanup sv po (pc_TenantRef prin) keys createdRefs) in
     andthen (or_cleanup (undo stagedKeys)
       (andthen (require (canonical objectKey \<and> canonical evidenceRef) (Sentinel ErrUnavailable)) (\<lambda>_.
        andthen (on_error outage (seal sv (km_Key key) (sn_plaintext one) (contentAAD (pc_TenantRef prin) objectKey))) (\<lambda>ciphertext.
        on_error outage (on_objects (oo_Put (po_objects po) objectKey ciphertext)))))) (\<lambda>_.
     andthen (or_cleanup (undo (stagedKeys @ [objectKey]))
       (andthen (require_lineage po (located_event prin authz req businessContextRef evidenceRef one) ''authorization lineage append failed'') (\<lambda>auditRef.
        on_error outage (on_store (eo_CreateHandle (po_store po)
          (located_handle prin authz businessContextRef now expiresAt objectKey evidenceRef (km_Ref key) auditRef one)))))) (\<lambda>_.
     ret (objectKey, public_handle evidenceRef expiresAt one)))))"

fun persist_needs ::
  "('st, 'ob, 'v) EvidenceService \<Rightarrow> ('st, 'ob, 'v) EvidencePorts \<Rightarrow> PrincipalContext \<Rightarrow> Authorization \<Rightarrow> EvidenceRequest
     \<Rightarrow> string \<Rightarrow> time \<Rightarrow> time \<Rightarrow> KeyMaterial \<Rightarrow> string list \<Rightarrow> string list \<Rightarrow> stagedNeed list \<Rightarrow> ('st, 'ob, EvidenceHandle list) plane" where
  "persist_needs sv po prin authz req bcr now expiresAt key stagedKeys createdRefs [] = ret []"
| "persist_needs sv po prin authz req bcr now expiresAt key stagedKeys createdRefs (one # rest) =
     andthen (persist_need sv po prin authz req bcr now expiresAt key stagedKeys createdRefs one) (\<lambda>(objectKey, handle).
     andthen (persist_needs sv po prin authz req bcr now expiresAt key (stagedKeys @ [objectKey]) (createdRefs @ [eh_EvidenceRef handle]) rest)
       (\<lambda>handles. ret (handle # handles)))"

definition validated :: "field_error option \<Rightarrow> ('st, 'ob, unit) plane" where
  "validated r = (case r of None \<Rightarrow> ret () | Some e \<Rightarrow> fail (Joined [Sentinel ErrInvalidRequest, Invalid e]))"

definition Locate ::
  "('st, 'ob, 'v) EvidenceService \<Rightarrow> PrincipalContext \<Rightarrow> Authorization \<Rightarrow> EvidenceRequest \<Rightarrow> ('st, 'ob, LocateResult) plane" where
  "Locate sv prin authz req = with_ports sv (\<lambda>po.
     andthen (validated (PrincipalContext_Validate prin)) (\<lambda>_.
     andthen (validated (EvidenceRequest_Validate req)) (\<lambda>_.
     andthen (clock sv) (\<lambda>now.
     andthen (require (eq_ExpiresAt req > now) (invalid ''request is expired'')) (\<lambda>_.
     andthen (require (\<not> length (eq_DataNeeds req) > maxDataNeedsPerRequest) (invalid ''too many data needs in one request'')) (\<lambda>_.
     let ceiling = now + es_maxHandleTTL sv; expiresAt = (if eq_ExpiresAt req > ceiling then ceiling else eq_ExpiresAt req) in
     andthen (if eq_BusinessContextRef req = [] then newID sv HandleWorkCase else ret (eq_BusinessContextRef req)) (\<lambda>businessContextRef.
     andthen (case ValidateHandle businessContextRef HandleWorkCase of None \<Rightarrow> ret () | Some e \<Rightarrow> fail (outage (Invalid e))) (\<lambda>_.
     andthen (resolve_needs sv po prin authz req (eq_DataNeeds req)) (\<lambda>staged.
     andthen (on_error outage (ask (\<lambda>n. kp_ContentKey (po_keys po n) (pc_TenantRef prin)))) (\<lambda>key.
     andthen (persist_needs sv po prin authz req businessContextRef now expiresAt key [] [] staged) (\<lambda>handles.
     ret \<lparr>lr_BusinessContextRef = businessContextRef, lr_Evidence = handles\<rparr>)))))))))))"

subsection \<open>Observations (observation.go)\<close>

definition Ed25519ObservationSigner :: "ed25519 \<Rightarrow> string \<Rightarrow> string \<Rightarrow> nat \<Rightarrow> string \<Rightarrow> evidence_go_error + Signature" where
  "Ed25519ObservationSigner ed keyID key n bytes =
     (if keyID = [] \<or> length key \<noteq> 64 then Inl (Sentinel ErrUnavailable)
      else Inr \<lparr>sig_Algorithm = SignatureAlgorithmEd25519, sig_KeyID = keyID, sig_Value = b64_encode ed (ed_sign ed key bytes)\<rparr>)"

definition NewEd25519ObservationSigner ::
  "ed25519 \<Rightarrow> string \<Rightarrow> string \<Rightarrow> evidence_go_error + (nat \<Rightarrow> string \<Rightarrow> evidence_go_error + Signature)" where
  "NewEd25519ObservationSigner ed keyID key =
     (if keyID = [] then Inl (Message ''observation signer requires a key id'')
      else if length key \<noteq> 64 then Inl (Message ''observation signer requires exactly ed25519.PrivateKeySize bytes of key material'')
      else Inr (Ed25519ObservationSigner ed keyID key))"

definition CanonicalObservationReceipt :: "'v codec \<Rightarrow> ObservationReceipt \<Rightarrow> string option" where
  "CanonicalObservationReceipt cs receipt = cs_MarshalReceipt cs (receipt\<lparr>or_Signature := zero_signature\<rparr>)"

definition unsigned_receipt :: "string \<Rightarrow> VerificationBinding \<Rightarrow> Handle \<Rightarrow> SourceBinding \<Rightarrow> string \<Rightarrow> ObservationReceipt" where
  "unsigned_receipt observationRef declared h binding auditRef =
     \<lparr>or_ObservationRef = observationRef, or_ActionRef = vb_ActionRef declared, or_ParameterHash = vb_ParameterHash declared,
      or_PostconditionID = vb_PostconditionID declared, or_VerificationNeedID = vb_VerificationNeedID declared,
      or_Source = hd_DataClass h, or_SourceVersion = hd_SourceVersion h, or_Authority = sb_AuthorityTier binding,
      or_ObservedAt = hd_StagedAt h, or_FreshUntil = hd_StagedAt h + sb_FreshnessBound binding,
      or_ObservationHash = ''sha256:'' @ hd_ContentHash h, or_EvidenceRef = hd_EvidenceRef h, or_AuditRefID = auditRef,
      or_Signature = zero_signature\<rparr>"

definition mintObservationReceipt ::
  "('st, 'ob, 'v) EvidenceService \<Rightarrow> (nat \<Rightarrow> string \<Rightarrow> evidence_go_error + Signature) \<Rightarrow> string \<Rightarrow> VerificationBinding \<Rightarrow> Handle
     \<Rightarrow> SourceBinding \<Rightarrow> string \<Rightarrow> ('st, 'ob, ObservationReceipt) plane" where
  "mintObservationReceipt sv sign observationRef declared h binding auditRef =
     (let receipt = unsigned_receipt observationRef declared h binding auditRef in
      case CanonicalObservationReceipt (es_codec sv) receipt of
        None \<Rightarrow> fail (outage (Message ''json''))
      | Some bytes \<Rightarrow>
          andthen (on_error (\<lambda>_. outage (Message ''observation signing failed'')) (ask (\<lambda>n. sign n bytes))) (\<lambda>signature.
          let receipt = receipt\<lparr>or_Signature := signature\<rparr> in
          case ObservationReceipt_Validate receipt of
            Some e \<Rightarrow> fail (outage (Invalid e))
          | None \<Rightarrow> ret receipt))"

definition not_canonical :: "string \<Rightarrow> string \<Rightarrow> nat \<Rightarrow> evidence_go_error option" where
  "not_canonical field v bound = fail_if (\<not> canonical_within v bound) (Message (field @ '' is not canonical''))"

definition validateVerificationBinding :: "VerificationBinding \<Rightarrow> evidence_go_error option" where
  "validateVerificationBinding binding = first_error
     [map_option Invalid (VerificationBinding_Validate binding),
      not_canonical ''postcondition_id'' (vb_PostconditionID binding) maxNeedIDBytes,
      not_canonical ''verification_need_id'' (vb_VerificationNeedID binding) maxNeedIDBytes,
      not_canonical ''data_class'' (vb_DataClass binding) maxDataClassBytes]"

subsection \<open>Read\<close>

record 'v ReadResult =
  rr_Decision :: string
  rr_Data :: "'v Record list option"
  rr_SourceVersion :: int
  rr_AsOf :: time
  rr_ServedFromCache :: bool
  rr_ContinuationRef :: string
  rr_ObservationReceipt :: "ObservationReceipt option"

definition denied :: "'v ReadResult" where
  "denied = \<lparr>rr_Decision = ''deny'', rr_Data = None, rr_SourceVersion = 0, rr_AsOf = 0, rr_ServedFromCache = False,
     rr_ContinuationRef = [], rr_ObservationReceipt = None\<rparr>"

definition binding_details :: "VerificationBinding option \<Rightarrow> (string \<times> detail) list" where
  "binding_details b = (case b of None \<Rightarrow> [] | Some b \<Rightarrow>
     [(''action_ref'', DText (vb_ActionRef b)), (''parameter_hash'', DText (vb_ParameterHash b)),
      (''postcondition_id'', DText (vb_PostconditionID b)), (''verification_need_id'', DText (vb_VerificationNeedID b)),
      (''binding_data_class'', DText (vb_DataClass b))])"

text \<open>An unknown handle is \<open>None\<close>; the source passes the zero handle, whose empty data class records nothing.\<close>

definition handle_details :: "Handle option \<Rightarrow> (string \<times> detail) list" where
  "handle_details h = (case h of None \<Rightarrow> [] | Some h \<Rightarrow>
     if hd_DataClass h = [] then []
     else [(''data_class'', DText (hd_DataClass h)), (''content_hash'', DText (hd_ContentHash h)), (''source_version'', DInt (hd_SourceVersion h))])"

definition read_event :: "PrincipalContext \<Rightarrow> EvidenceReadRequest \<Rightarrow> string \<Rightarrow> (string \<times> detail) list \<Rightarrow> EvidenceAuditEvent" where
  "read_event prin req resource details =
     \<lparr>xe_TenantRef = pc_TenantRef prin, xe_PrincipalRef = pc_PrincipalRef prin, xe_Action = auditActionRead,
      xe_ResourceType = ''evidence_handle'', xe_ResourceID = resource, xe_TraceID = er_TraceID req, xe_Details = details\<rparr>"

definition denyVerificationRead ::
  "('st, 'ob, 'v) EvidencePorts \<Rightarrow> PrincipalContext \<Rightarrow> EvidenceReadRequest \<Rightarrow> Handle option \<Rightarrow> string \<Rightarrow> VerificationBinding option
     \<Rightarrow> ('st, 'ob, 'v ReadResult) plane" where
  "denyVerificationRead po prin req h reason binding =
     andthen (attempt (append_lineage po (read_event prin req (er_EvidenceRef req)
       ([(''decision'', DText ''deny''), (''reason'', DText reason)] @ handle_details h @ binding_details binding)))) (\<lambda>_.
     ret denied)"

definition denyRead ::
  "('st, 'ob, 'v) EvidencePorts \<Rightarrow> PrincipalContext \<Rightarrow> EvidenceReadRequest \<Rightarrow> Handle option \<Rightarrow> string \<Rightarrow> ('st, 'ob, 'v ReadResult) plane" where
  "denyRead po prin req h reason = denyVerificationRead po prin req h reason None"

text \<open>The first reason to deny: a list of conditions and coded reasons, in the order of the source's switch.\<close>

fun first_reason :: "(bool \<times> string) list \<Rightarrow> string option" where
  "first_reason [] = None"
| "first_reason ((b, reason) # rs) = (if b then Some reason else first_reason rs)"

definition handle_reason :: "PrincipalContext \<Rightarrow> EvidenceReadRequest \<Rightarrow> time \<Rightarrow> Handle \<Rightarrow> string option" where
  "handle_reason prin req now h = first_reason
     [(hd_PrincipalRef h \<noteq> pc_PrincipalRef prin, denyCrossActor),
      (hd_AgentClientRef h \<noteq> pc_AgentClientRef prin, denyCrossClient),
      (hd_AgentReleaseRef h \<noteq> pc_AgentReleaseRef prin, denyCrossRelease),
      (hd_BusinessContextRef h \<noteq> er_BusinessContextRef req, denyCrossContext),
      (hd_Purpose h \<noteq> er_Purpose req, denyPurposeDrift),
      (\<not> now < hd_ExpiresAt h, denyHandleExpired),
      (\<not> is_zero_time (hd_RetentionExpiresAt h) \<and> \<not> now < hd_RetentionExpiresAt h, denyContentExpired)]"

fun event_reason :: "HandleEvent list \<Rightarrow> string option" where
  "event_reason [] = None"
| "event_reason (event # events) =
     (case ev_Kind event of
        HandleEventRevoked \<Rightarrow> Some denyRevoked
      | HandleEventContentExpired \<Rightarrow> Some denyContentExpired
      | HandleEventOther _ \<Rightarrow> event_reason events)"

definition binding_reason :: "Authorization \<Rightarrow> Handle \<Rightarrow> SourceBinding \<Rightarrow> string option" where
  "binding_reason authz h binding = first_reason
     [(sb_Deleted binding, denySourceDeleted),
      (sb_ID binding \<noteq> hd_BindingID h, denyBindingRebound),
      (sb_SourceVersion binding \<noteq> hd_SourceVersion h, denySourceVersionStale),
      (connectorBacked binding \<and> \<not> az_ConnectorCapabilityAllowed authz, denyConnectorCapability),
      (\<not> sb_CachedReadAllowed binding \<or> \<not> hd_CachedReadAllowed h, denyCachedRead)]"

definition verification_reason :: "time \<Rightarrow> Handle \<Rightarrow> SourceBinding \<Rightarrow> VerificationBinding \<Rightarrow> string option" where
  "verification_reason now h binding declared = first_reason
     [(hd_DataClass h \<noteq> vb_DataClass declared, denyNeedMismatch),
      (\<not> validAuthorityTier (sb_AuthorityTier binding) \<or> sb_FreshnessBound binding \<le> 0, denyObservationUnsupported),
      (\<not> now < hd_StagedAt h + sb_FreshnessBound binding, denyObservationStale)]"

text \<open>Continue when there is no reason, deny otherwise.\<close>

definition unless_denied ::
  "('st, 'ob, 'v) EvidencePorts \<Rightarrow> PrincipalContext \<Rightarrow> EvidenceReadRequest \<Rightarrow> Handle option \<Rightarrow> VerificationBinding option \<Rightarrow> string option
     \<Rightarrow> ('st, 'ob, 'v ReadResult) plane \<Rightarrow> ('st, 'ob, 'v ReadResult) plane" where
  "unless_denied po prin req h declared reason k =
     (case reason of None \<Rightarrow> k | Some m \<Rightarrow> denyVerificationRead po prin req h m declared)"

definition read_details :: "Authorization \<Rightarrow> Handle \<Rightarrow> int \<Rightarrow> string \<Rightarrow> (string \<times> detail) list" where
  "read_details authz h count continuationRef =
     [(''decision'', DText ''allow''), (''data_class'', DText (hd_DataClass h)), (''source_version'', DInt (hd_SourceVersion h)),
      (''content_hash'', DText (hd_ContentHash h)), (''org_version'', DInt (az_OrgVersion authz)),
      (''business_context_ref'', DText (hd_BusinessContextRef h)), (''record_count'', DInt count), (''served_from_cache'', DBool True)]
     @ (if continuationRef \<noteq> [] then [(''continuation_ref'', DText continuationRef)] else [])"

definition observation_details :: "VerificationBinding \<Rightarrow> string \<Rightarrow> string \<Rightarrow> (string \<times> detail) list" where
  "observation_details declared observationRef authority =
     [(''action_ref'', DText (vb_ActionRef declared)), (''postcondition_id'', DText (vb_PostconditionID declared)),
      (''verification_need_id'', DText (vb_VerificationNeedID declared)), (''observation_ref'', DText observationRef),
      (''observation_authority'', DText authority)]"

definition page_limit :: "Handle \<Rightarrow> EvidenceReadRequest \<Rightarrow> int" where
  "page_limit h req =
     (let m = max_results (er_Constraints req) in
      if m > 0 \<and> (hd_PageLimit h = 0 \<or> m < hd_PageLimit h) then m else hd_PageLimit h)"

definition continuation_of :: "Handle \<Rightarrow> string \<Rightarrow> int \<Rightarrow> Handle" where
  "continuation_of h ref offset =
     h\<lparr>hd_EvidenceRef := ref, hd_RecordOffset := offset, hd_Lineage := hd_Lineage h @ [hd_EvidenceRef h], hd_CreatedAt := 0\<rparr>"

text \<open>The page of an allowed read and, when records remain, the handle of the rest.\<close>

definition take_page ::
  "('st, 'ob, 'v) EvidenceService \<Rightarrow> ('st, 'ob, 'v) EvidencePorts \<Rightarrow> EvidenceReadRequest \<Rightarrow> Handle \<Rightarrow> 'v Record list
     \<Rightarrow> ('st, 'ob, 'v Record list \<times> string) plane" where
  "take_page sv po req h records =
     (let offset = (if hd_RecordOffset h > int (length records) then int (length records) else hd_RecordOffset h);
          window = drop (nat offset) records;
          limit = page_limit h req in
      if limit > 0 \<and> int (length window) > limit then
        andthen (newID sv HandleEvidence) (\<lambda>continuationRef.
        andthen (require (canonical continuationRef) (Sentinel ErrUnavailable)) (\<lambda>_.
        andthen (on_error outage (on_store (eo_CreateHandle (po_store po) (continuation_of h continuationRef (offset + limit))))) (\<lambda>_.
        ret (take (nat limit) window, continuationRef))))
      else ret (window, []))"

definition staged_records ::
  "('st, 'ob, 'v) EvidenceService \<Rightarrow> ('st, 'ob, 'v) EvidencePorts \<Rightarrow> PrincipalContext \<Rightarrow> Handle \<Rightarrow> ('st, 'ob, 'v Record list) plane" where
  "staged_records sv po prin h =
     andthen (on_error outage (on_objects (oo_Get (po_objects po) (hd_ObjectKey h)))) (\<lambda>ciphertext.
     andthen (on_error outage (ask (\<lambda>n. kp_KeyByRef (po_keys po n) (pc_TenantRef prin) (hd_KeyRef h)))) (\<lambda>key.
     case unseal (es_codec sv) (km_Key key) ciphertext (contentAAD (hd_TenantRef h) (hd_ObjectKey h)) of
       Inl _ \<Rightarrow> fail (outage (Message ''staged content failed authenticated decryption''))
     | Inr plaintext \<Rightarrow>
         if sha256_hex plaintext \<noteq> hd_ContentHash h then fail (outage (Message ''staged content hash mismatch''))
         else (case cs_Unmarshal (es_codec sv) plaintext of
             None \<Rightarrow> fail (outage (Message ''json'')) | Some records \<Rightarrow> ret records)))"

text \<open>What follows the checks: the content, the page, the mandatory lineage entry, the receipt of a verification read.\<close>

definition serve_read ::
  "('st, 'ob, 'v) EvidenceService \<Rightarrow> ('st, 'ob, 'v) EvidencePorts \<Rightarrow> PrincipalContext \<Rightarrow> Authorization \<Rightarrow> EvidenceReadRequest
     \<Rightarrow> Handle \<Rightarrow> SourceBinding \<Rightarrow> (VerificationBinding \<times> (nat \<Rightarrow> string \<Rightarrow> evidence_go_error + Signature)) option
     \<Rightarrow> ('st, 'ob, 'v ReadResult) plane" where
  "serve_read sv po prin authz req h binding declared =
     andthen (staged_records sv po prin h) (\<lambda>records.
     andthen (take_page sv po req h records) (\<lambda>(window, continuationRef).
     let page = projectRecords window (er_Fields req); details = read_details authz h (int (length page)) continuationRef in
     andthen (case declared of None \<Rightarrow> ret []
       | Some _ \<Rightarrow> andthen (newID sv HandleObservation) (\<lambda>ref. andthen (require (canonical ref) (Sentinel ErrUnavailable)) (\<lambda>_. ret ref))) (\<lambda>observationRef.
     andthen (require_lineage po (read_event prin req (hd_EvidenceRef h)
        (details @ (case declared of None \<Rightarrow> [] | Some (b, _) \<Rightarrow> observation_details b observationRef (sb_AuthorityTier binding))))
        ''read lineage append failed'') (\<lambda>auditRef.
     andthen (case declared of None \<Rightarrow> ret None
       | Some (b, sign) \<Rightarrow> andthen (mintObservationReceipt sv sign observationRef b h binding auditRef) (\<lambda>receipt. ret (Some receipt))) (\<lambda>receipt.
     ret \<lparr>rr_Decision = ''allow'', rr_Data = Some page, rr_SourceVersion = hd_SourceVersion h, rr_AsOf = hd_StagedAt h,
       rr_ServedFromCache = True, rr_ContinuationRef = continuationRef, rr_ObservationReceipt = receipt\<rparr>)))))"

text \<open>The verification block of a read, with the signer it needs.\<close>

definition verification_of ::
  "('st, 'ob, 'v) EvidenceService \<Rightarrow> EvidenceReadRequest
     \<Rightarrow> evidence_go_error + (VerificationBinding \<times> (nat \<Rightarrow> string \<Rightarrow> evidence_go_error + Signature)) option" where
  "verification_of sv req =
     (case er_VerificationBinding req of
        Some declared \<Rightarrow>
          if er_Purpose req \<noteq> PurposeVerification then Inl (invalid ''a verification binding requires the verification purpose'')
          else (case validateVerificationBinding declared of
              Some e \<Rightarrow> Inl (Joined [Sentinel ErrInvalidRequest, e])
            | None \<Rightarrow>
                (case es_signer sv of
                   None \<Rightarrow> Inl (outage (Message ''observation signer is not wired; verification-purpose reads fail closed''))
                 | Some sign \<Rightarrow> Inr (Some (declared, sign))))
      | None \<Rightarrow>
          if er_Purpose req = PurposeVerification then Inl (invalid ''the verification purpose requires a verification binding'')
          else Inr None)"

definition action_reason ::
  "('st, 'ob, 'v) EvidenceService \<Rightarrow> PrincipalContext \<Rightarrow> VerificationBinding \<Rightarrow> ('st, 'ob, string option) plane" where
  "action_reason sv prin declared =
     (case es_actionBinding sv of
        None \<Rightarrow> ret None
      | Some verify \<Rightarrow>
          ask (\<lambda>n. Inr (case verify n (pc_TenantRef prin) declared of None \<Rightarrow> None | Some _ \<Rightarrow> Some denyActionUnbound)))"

definition ReadEvidence ::
  "('st, 'ob, 'v) EvidenceService \<Rightarrow> PrincipalContext \<Rightarrow> Authorization \<Rightarrow> EvidenceReadRequest \<Rightarrow> ('st, 'ob, 'v ReadResult) plane" where
  "ReadEvidence sv prin authz req = with_ports sv (\<lambda>po.
     andthen (validated (PrincipalContext_Validate prin)) (\<lambda>_.
     andthen (validated (EvidenceReadRequest_Validate req)) (\<lambda>_.
     andthen (clock sv) (\<lambda>now.
     andthen (require (er_ExpiresAt req > now) (invalid ''request is expired'')) (\<lambda>_.
     andthen (require (canonical_within (er_Purpose req) maxPurposeBytes) (invalid ''purpose is not canonical'')) (\<lambda>_.
     case verification_of sv req of Inl e \<Rightarrow> fail e | Inr declared \<Rightarrow>
     andthen (attempt (on_store (eo_GetHandle (po_store po) (pc_TenantRef prin) (er_EvidenceRef req)))) (\<lambda>found.
     case found of
       Inl e \<Rightarrow> if errors_is e ErrNotFound then denyRead po prin req None denyHandleUnknown else fail (outage e)
     | Inr h \<Rightarrow>
         unless_denied po prin req (Some h) None (handle_reason prin req now h) (
         andthen (on_error outage (on_store (eo_ListHandleEvents (po_store po) (pc_TenantRef prin) (hd_EvidenceRef h)))) (\<lambda>events.
         unless_denied po prin req (Some h) None (event_reason events) (
         andthen (attempt (on_store (eo_GetSourceBinding (po_store po) (pc_TenantRef prin) (hd_DataClass h)))) (\<lambda>bound.
         case bound of
           Inl e \<Rightarrow> if errors_is e ErrNotFound then denyRead po prin req (Some h) denySourceDeleted else fail (outage e)
         | Inr binding \<Rightarrow>
             unless_denied po prin req (Some h) None (binding_reason authz h binding) (
             andthen (case declared of None \<Rightarrow> ret None
               | Some (b, _) \<Rightarrow>
                   (case verification_reason now h binding b of Some m \<Rightarrow> ret (Some m) | None \<Rightarrow> action_reason sv prin b)) (\<lambda>reason.
             unless_denied po prin req (Some h) (map_option fst declared) reason (
             andthen (on_error outage (ask (\<lambda>n. po_decider po n (capability_request prin authz binding)))) (\<lambda>decision.
             if pd_Decision decision \<noteq> DecisionAllow then denyRead po prin req (Some h) denyPolicy
             else serve_read sv po prin authz req h binding declared)))))))))))))))"

subsection \<open>Content sources (model.go, pending_source.go)\<close>

text \<open>The in-memory source holds the records of each private reference; \<open>json.Marshal\<close> of one record may fail.\<close>

fun bounded_fetch :: "('v Record \<Rightarrow> string option) \<Rightarrow> int \<Rightarrow> int \<Rightarrow> 'v Record list \<Rightarrow> evidence_go_error + 'v Record list" where
  "bounded_fetch marshal maxBytes sofar [] = Inr []"
| "bounded_fetch marshal maxBytes sofar (record # records) =
     (let cons_record = (\<lambda>r. case r of Inl e \<Rightarrow> Inl e | Inr out \<Rightarrow> Inr (record # out)) in
      if maxBytes > 0 then
        (case marshal record of
           None \<Rightarrow> Inl (Message ''json'')
         | Some encoded \<Rightarrow>
             let sofar = sofar + int (length encoded) + 1 in
             if sofar > maxBytes then Inl (Sentinel ErrContentTooLarge)
             else cons_record (bounded_fetch marshal maxBytes sofar records))
      else cons_record (bounded_fetch marshal maxBytes sofar records))"

definition MemoryContentSource ::
  "('v Record \<Rightarrow> string option) \<Rightarrow> (string \<rightharpoonup> 'v Record list) \<Rightarrow> nat \<Rightarrow> ContentRequest \<Rightarrow> evidence_go_error + 'v Record list" where
  "MemoryContentSource marshal records n req =
     (case records (ct_SourceRef req) of
        None \<Rightarrow> Inl (Sentinel ErrUnavailable)
      | Some rs \<Rightarrow> bounded_fetch marshal (ct_MaxBytes req) 0 rs)"

definition PendingContentSource :: "nat \<Rightarrow> ContentRequest \<Rightarrow> evidence_go_error + 'v Record list" where
  "PendingContentSource n req = Inl (Joined [Sentinel ErrUnavailable, Sentinel ErrNoContentSource])"

end
