(* ===== verification/EvidenceLaws.thy ===== *)
theory EvidenceLaws
  imports Evidence
begin

text \<open>
  The interfaces of the evidence plane as locales, what the clients prove over them, and the in-memory providers. A store
  is seen through three lookups (binding, handle, events of a handle); every operation says what it does to them. Handles
  never change, events only grow, and a binding's source version only rises, so a handle that lost its source, its
  authorization or its content stays unreadable whatever follows.
\<close>

subsection \<open>The store\<close>

text \<open>What a store operation does to the lookups of tenants whose names hold no NUL byte.\<close>

definition agrees :: "(string \<Rightarrow> string \<Rightarrow> 'a) \<Rightarrow> (string \<Rightarrow> string \<Rightarrow> 'a) \<Rightarrow> bool" where
  "agrees f g \<longleftrightarrow> (\<forall>t x. nul_free t \<longrightarrow> f t x = g t x)"

definition updated_at :: "string \<Rightarrow> string \<Rightarrow> 'a \<Rightarrow> (string \<Rightarrow> string \<Rightarrow> 'a) \<Rightarrow> (string \<Rightarrow> string \<Rightarrow> 'a) \<Rightarrow> bool" where
  "updated_at t x a f g \<longleftrightarrow> agrees g (\<lambda>t' x'. if t' = t \<and> x' = x then a else f t' x')"

lemma agrees_refl [simp]: "agrees f f" by (simp add: agrees_def)

lemma agreesD: "agrees f g \<Longrightarrow> nul_free t \<Longrightarrow> f t x = g t x" by (simp add: agrees_def)

lemma updated_atD: "updated_at t x a f g \<Longrightarrow> nul_free t' \<Longrightarrow> g t' x' = (if t' = t \<and> x' = x then a else f t' x')"
  by (simp add: updated_at_def agrees_def)

definition content_expired :: "HandleEvent list \<Rightarrow> bool" where
  "content_expired events \<longleftrightarrow> list_ex (\<lambda>event. ev_Kind event = HandleEventContentExpired) events"

definition due :: "time \<Rightarrow> Handle \<Rightarrow> HandleEvent list \<Rightarrow> bool" where
  "due t h events \<longleftrightarrow> hd_RetentionExpiresAt h \<noteq> 0 \<and> hd_RetentionExpiresAt h \<le> t \<and> \<not> content_expired events"

text \<open>What may happen to a binding: it keeps its id, its version rises, and a deleted one comes back at a later version only.\<close>

definition rises :: "SourceBinding \<Rightarrow> SourceBinding \<Rightarrow> bool" where
  "rises b b' \<longleftrightarrow> sb_ID b' = sb_ID b \<and> sb_SourceVersion b \<le> sb_SourceVersion b'
     \<and> (sb_Deleted b \<longrightarrow> sb_Deleted b' \<or> sb_SourceVersion b < sb_SourceVersion b')"

lemma rises_refl [simp]: "rises b b" by (simp add: rises_def)

lemma rises_trans: "rises b b' \<Longrightarrow> rises b' b'' \<Longrightarrow> rises b b''" by (auto simp: rises_def)

lemma rises_upserted: "rises b (upserted (Some b) c)" by (simp add: rises_def upserted_def Let_def)

lemma rises_changes: "rises b (b\<lparr>sb_SourceVersion := sb_SourceVersion b + 1, sb_UpdatedAt := n\<rparr>)" "rises b (b\<lparr>sb_Deleted := True, sb_UpdatedAt := n\<rparr>)"
  by (simp_all add: rises_def)

definition preserved :: "('a \<Rightarrow> 'a \<Rightarrow> bool) \<Rightarrow> (string \<Rightarrow> string \<Rightarrow> 'a option) \<Rightarrow> (string \<Rightarrow> string \<Rightarrow> 'a option) \<Rightarrow> bool" where
  "preserved R f g \<longleftrightarrow> (\<forall>t x a. nul_free t \<longrightarrow> f t x = Some a \<longrightarrow> (\<exists>a'. g t x = Some a' \<and> R a a'))"

definition extended :: "(string \<Rightarrow> string \<Rightarrow> 'a list) \<Rightarrow> (string \<Rightarrow> string \<Rightarrow> 'a list) \<Rightarrow> bool" where
  "extended f g \<longleftrightarrow> (\<forall>t x. nul_free t \<longrightarrow> (\<exists>new. g t x = f t x @ new))"

lemma preserved_trans:
  assumes "\<And>a b c. R a b \<Longrightarrow> R b c \<Longrightarrow> R a c" and "preserved R f g" and "preserved R g h"
  shows "preserved R f h"
  unfolding preserved_def using assms(2,3)[unfolded preserved_def] assms(1) by meson

lemma preserved_agrees: "(\<And>a. R a a) \<Longrightarrow> agrees g f \<Longrightarrow> preserved R f g"
  by (simp add: preserved_def agrees_def)

lemma preserved_updated:
  "updated_at t x (Some a) f g \<Longrightarrow> (\<And>b. R b b) \<Longrightarrow> (\<And>b. f t x = Some b \<Longrightarrow> R b a) \<Longrightarrow> preserved R f g"
  by (simp add: preserved_def updated_at_def agrees_def)

lemma extended_trans: "extended f g \<Longrightarrow> extended g h \<Longrightarrow> extended f h"
  unfolding extended_def by (metis append_assoc)

lemma extended_agrees: "agrees g f \<Longrightarrow> extended f g"
  by (simp add: extended_def agrees_def)

lemma extended_updated: "updated_at t x (f t x @ new) f g \<Longrightarrow> extended f g"
  by (simp add: extended_def updated_at_def agrees_def)

locale evidence_store =
  fixes ops :: "'st EvidenceOps"
    and binding_of :: "'st \<Rightarrow> string \<Rightarrow> string \<Rightarrow> SourceBinding option"
    and handle_of :: "'st \<Rightarrow> string \<Rightarrow> string \<Rightarrow> Handle option"
    and events_of :: "'st \<Rightarrow> string \<Rightarrow> string \<Rightarrow> HandleEvent list"
    and wf :: "'st \<Rightarrow> bool"
  assumes get_binding: "eo_GetSourceBinding ops t c s =
      (case binding_of s t c of None \<Rightarrow> (Inl (Sentinel ErrNotFound), s) | Some b \<Rightarrow> (Inr b, s))"
    and get_handle: "eo_GetHandle ops t e s =
      (case handle_of s t e of None \<Rightarrow> (Inl (Sentinel ErrNotFound), s) | Some h \<Rightarrow> (Inr h, s))"
    and list_events: "eo_ListHandleEvents ops t e s = (Inr (events_of s t e), s)"
    and upsert: "wf s \<Longrightarrow> nul_free (sb_TenantRef b) \<Longrightarrow> \<exists>s' b'. eo_UpsertSourceBinding ops b s = (Inr b', s') \<and> wf s'
      \<and> b' = upserted (binding_of s (sb_TenantRef b) (sb_DataClass b)) b
      \<and> updated_at (sb_TenantRef b) (sb_DataClass b) (Some b') (binding_of s) (binding_of s')
      \<and> agrees (handle_of s') (handle_of s) \<and> agrees (events_of s') (events_of s)"
    and bump: "wf s \<Longrightarrow> nul_free t \<Longrightarrow> binding_of s t c = Some b \<Longrightarrow>
      \<exists>s' b'. eo_BumpSourceVersion ops t c n s = (Inr b', s') \<and> wf s'
      \<and> b' = b\<lparr>sb_SourceVersion := sb_SourceVersion b + 1, sb_UpdatedAt := n\<rparr> \<and> updated_at t c (Some b') (binding_of s) (binding_of s')
      \<and> agrees (handle_of s') (handle_of s) \<and> agrees (events_of s') (events_of s)"
    and bump_missing: "binding_of s t c = None \<Longrightarrow> eo_BumpSourceVersion ops t c n s = (Inl (Sentinel ErrNotFound), s)"
    and mark: "wf s \<Longrightarrow> nul_free t \<Longrightarrow> binding_of s t c = Some b \<Longrightarrow>
      \<exists>s' b'. eo_MarkSourceDeleted ops t c n s = (Inr b', s') \<and> wf s'
      \<and> b' = b\<lparr>sb_Deleted := True, sb_UpdatedAt := n\<rparr> \<and> updated_at t c (Some b') (binding_of s) (binding_of s')
      \<and> agrees (handle_of s') (handle_of s) \<and> agrees (events_of s') (events_of s)"
    and mark_missing: "binding_of s t c = None \<Longrightarrow> eo_MarkSourceDeleted ops t c n s = (Inl (Sentinel ErrNotFound), s)"
    and create: "wf s \<Longrightarrow> nul_free (hd_TenantRef h) \<Longrightarrow> handle_of s (hd_TenantRef h) (hd_EvidenceRef h) = None \<Longrightarrow>
      \<exists>s'. eo_CreateHandle ops h s = (Inr h, s') \<and> wf s'
      \<and> updated_at (hd_TenantRef h) (hd_EvidenceRef h) (Some h) (handle_of s) (handle_of s')
      \<and> agrees (binding_of s') (binding_of s) \<and> agrees (events_of s') (events_of s)"
    and create_taken: "handle_of s (hd_TenantRef h) (hd_EvidenceRef h) = Some h' \<Longrightarrow> eo_CreateHandle ops h s = (Inl (Sentinel ErrUnavailable), s)"
    and append: "wf s \<Longrightarrow> nul_free (ev_TenantRef event) \<Longrightarrow> kind_valid (ev_Kind event) \<Longrightarrow>
      handle_of s (ev_TenantRef event) (ev_EvidenceRef event) \<noteq> None \<Longrightarrow>
      \<exists>s' event'. eo_AppendHandleEvent ops event s = (Inr event', s') \<and> wf s' \<and> ev_Kind event' = ev_Kind event
      \<and> updated_at (ev_TenantRef event) (ev_EvidenceRef event)
          (events_of s (ev_TenantRef event) (ev_EvidenceRef event) @ [event']) (events_of s) (events_of s')
      \<and> agrees (binding_of s') (binding_of s) \<and> agrees (handle_of s') (handle_of s)"
    and append_missing: "kind_valid (ev_Kind event) \<Longrightarrow> handle_of s (ev_TenantRef event) (ev_EvidenceRef event) = None \<Longrightarrow>
      eo_AppendHandleEvent ops event s = (Inl (Sentinel ErrNotFound), s)"
    and list_expired: "wf s \<Longrightarrow> nul_free t \<Longrightarrow> 0 < limit \<Longrightarrow> \<exists>hs. eo_ListRetentionExpired ops t n limit s = (Inr hs, s)
      \<and> distinct (map hd_EvidenceRef hs) \<and> int (length hs) \<le> limit
      \<and> (\<forall>h \<in> set hs. handle_of s t (hd_EvidenceRef h) = Some h \<and> due n h (events_of s t (hd_EvidenceRef h)))
      \<and> (int (length hs) < limit \<longrightarrow> (\<forall>e h. handle_of s t e = Some h \<longrightarrow> due n h (events_of s t e) \<longrightarrow> h \<in> set hs))"
    and stored: "wf s \<Longrightarrow> nul_free t \<Longrightarrow> handle_of s t e = Some h \<Longrightarrow> hd_TenantRef h = t \<and> hd_EvidenceRef h = e"
    and stored_binding: "wf s \<Longrightarrow> nul_free t \<Longrightarrow> binding_of s t c = Some b \<Longrightarrow> sb_DataClass b = c"
    and finitely_many: "wf s \<Longrightarrow> nul_free t \<Longrightarrow> finite {e. handle_of s t e \<noteq> None}"
begin

text \<open>What no operation undoes.\<close>

definition later :: "'st \<Rightarrow> 'st \<Rightarrow> bool" where
  "later s s' \<longleftrightarrow> (wf s \<longrightarrow> wf s') \<and> preserved rises (binding_of s) (binding_of s')
     \<and> preserved (=) (handle_of s) (handle_of s') \<and> extended (events_of s) (events_of s')"

lemma later_refl [simp]: "later s s"
  by (simp add: later_def preserved_agrees extended_agrees)

lemma later_trans: "later s s' \<Longrightarrow> later s' s'' \<Longrightarrow> later s s''"
  unfolding later_def by (blast intro: preserved_trans rises_trans extended_trans preserved_trans[where R = "(=)"])

text \<open>Each store operation, whatever it returns.\<close>

lemma later_binding:
  assumes "wf s'" and "updated_at t c (Some b') (binding_of s) (binding_of s')" and "agrees (handle_of s') (handle_of s)"
    and "agrees (events_of s') (events_of s)" and "\<And>b. binding_of s t c = Some b \<Longrightarrow> rises b b'"
  shows "later s s'"
  using assms preserved_updated[OF assms(2), of rises] by (simp add: later_def preserved_agrees extended_agrees)

lemma later_upsert: "wf s \<Longrightarrow> nul_free (sb_TenantRef b) \<Longrightarrow> later s (snd (eo_UpsertSourceBinding ops b s))"
  using upsert[of s b] by (auto intro!: later_binding rises_upserted)

lemma later_bump: "wf s \<Longrightarrow> nul_free t \<Longrightarrow> later s (snd (eo_BumpSourceVersion ops t c n s))"
  using bump[of s t c _ n] bump_missing[of s t c n]
  by (cases "binding_of s t c") (auto intro!: later_binding simp: rises_changes)

lemma later_mark: "wf s \<Longrightarrow> nul_free t \<Longrightarrow> later s (snd (eo_MarkSourceDeleted ops t c n s))"
  using mark[of s t c _ n] mark_missing[of s t c n]
  by (cases "binding_of s t c") (auto intro!: later_binding simp: rises_changes)

lemma later_create: "wf s \<Longrightarrow> nul_free (hd_TenantRef h) \<Longrightarrow> later s (snd (eo_CreateHandle ops h s))"
proof (cases "handle_of s (hd_TenantRef h) (hd_EvidenceRef h)")
  case None
  assume "wf s" "nul_free (hd_TenantRef h)"
  from create[OF this None] obtain s' where h: "eo_CreateHandle ops h s = (Inr h, s')" "wf s'"
      "updated_at (hd_TenantRef h) (hd_EvidenceRef h) (Some h) (handle_of s) (handle_of s')"
      "agrees (binding_of s') (binding_of s)" "agrees (events_of s') (events_of s)" by blast
  show ?thesis using h preserved_updated[OF h(3), of "(=)"] None by (simp add: later_def preserved_agrees extended_agrees)
qed (use create_taken[of s h] in simp)

lemma later_append: "wf s \<Longrightarrow> nul_free (ev_TenantRef event) \<Longrightarrow> kind_valid (ev_Kind event) \<Longrightarrow> later s (snd (eo_AppendHandleEvent ops event s))"
  using append[of s event] append_missing[of event s]
  by (cases "handle_of s (ev_TenantRef event) (ev_EvidenceRef event)")
    (auto simp: later_def preserved_agrees extended_agrees intro: extended_updated)

lemma later_reads: "later s (snd (eo_GetSourceBinding ops t c s))" "later s (snd (eo_GetHandle ops t e s))" "later s (snd (eo_ListHandleEvents ops t e s))"
  by (simp_all add: get_binding get_handle list_events split: option.split)

lemma later_list: "wf s \<Longrightarrow> nul_free t \<Longrightarrow> 0 < limit \<Longrightarrow> later s (snd (eo_ListRetentionExpired ops t n limit s))"
  using list_expired[of s t limit n] by auto

subsection \<open>Handlers only move the store forward\<close>

text \<open>No handle is ahead of its source.\<close>

definition behind :: "'st \<Rightarrow> string \<Rightarrow> string \<Rightarrow> int \<Rightarrow> bool" where
  "behind s t c v \<longleftrightarrow> (\<exists>b. binding_of s t c = Some b \<and> v \<le> sb_SourceVersion b)"

definition current :: "'st \<Rightarrow> bool" where
  "current s \<longleftrightarrow> (\<forall>t e h. nul_free t \<longrightarrow> handle_of s t e = Some h \<longrightarrow> behind s t (hd_DataClass h) (hd_SourceVersion h))"

definition moves :: "'st \<Rightarrow> 'st \<Rightarrow> bool" where
  "moves s s' \<longleftrightarrow> (wf s \<longrightarrow> current s \<longrightarrow> later s s' \<and> current s')"

lemma behind_later: "later s s' \<Longrightarrow> nul_free t \<Longrightarrow> behind s t c v \<Longrightarrow> behind s' t c v"
  unfolding behind_def later_def preserved_def rises_def by (meson order_trans)

lemma moves_refl [simp]: "moves s s"
  by (simp add: moves_def)

lemma moves_trans: "moves s s' \<Longrightarrow> moves s' s'' \<Longrightarrow> moves s s''"
  unfolding moves_def by (metis later_def later_trans)

lemma later_movesI:
  assumes "wf s \<Longrightarrow> later s s'" and "wf s \<Longrightarrow> agrees (handle_of s') (handle_of s)"
  shows "moves s s'"
  unfolding moves_def current_def
proof (intro impI conjI allI)
  fix t e h
  assume "wf s" "\<forall>t e h. nul_free t \<longrightarrow> handle_of s t e = Some h \<longrightarrow> behind s t (hd_DataClass h) (hd_SourceVersion h)"
    "nul_free t" "handle_of s' t e = Some h"
  then show "behind s' t (hd_DataClass h) (hd_SourceVersion h)"
    using behind_later[OF assms(1)] assms(2) by (metis agreesD)
qed (use assms(1) in blast)

lemma moves_upsert: "nul_free (sb_TenantRef b) \<Longrightarrow> moves s (snd (eo_UpsertSourceBinding ops b s))"
  by (rule later_movesI) (use upsert[of s b] in \<open>auto simp: later_upsert\<close>)

lemma moves_bump: "nul_free t \<Longrightarrow> moves s (snd (eo_BumpSourceVersion ops t c n s))"
  by (rule later_movesI) (use bump[of s t c _ n] bump_missing[of s t c n] in \<open>(cases "binding_of s t c"; auto simp: later_bump)+\<close>)

lemma moves_mark: "nul_free t \<Longrightarrow> moves s (snd (eo_MarkSourceDeleted ops t c n s))"
  by (rule later_movesI) (use mark[of s t c _ n] mark_missing[of s t c n] in \<open>(cases "binding_of s t c"; auto simp: later_mark)+\<close>)

lemma moves_append: "nul_free (ev_TenantRef event) \<Longrightarrow> kind_valid (ev_Kind event) \<Longrightarrow> moves s (snd (eo_AppendHandleEvent ops event s))"
  by (rule later_movesI)
    (use append[of s event] append_missing[of event s] in
      \<open>(cases "handle_of s (ev_TenantRef event) (ev_EvidenceRef event)"; auto simp: later_append)+\<close>)

lemma moves_reads [simp]: "moves s (snd (eo_GetSourceBinding ops t c s))" "moves s (snd (eo_GetHandle ops t e s))"
    "moves s (snd (eo_ListHandleEvents ops t e s))"
  by (simp_all add: get_binding get_handle list_events split: option.split)

lemma moves_list: "nul_free t \<Longrightarrow> 0 < limit \<Longrightarrow> moves s (snd (eo_ListRetentionExpired ops t n limit s))"
  by (rule later_movesI) (use list_expired[of s t limit n] in auto)

lemma moves_create:
  assumes "nul_free (hd_TenantRef h)" and "behind s (hd_TenantRef h) (hd_DataClass h) (hd_SourceVersion h)"
  shows "moves s (snd (eo_CreateHandle ops h s))"
  unfolding moves_def
proof (intro impI)
  assume w: "wf s" and c: "current s"
  have l: "later s (snd (eo_CreateHandle ops h s))" using later_create[OF w assms(1)] .
  have "current (snd (eo_CreateHandle ops h s))"
    unfolding current_def
  proof (intro allI impI)
    fix t e g
    assume t: "nul_free t" "handle_of (snd (eo_CreateHandle ops h s)) t e = Some g"
    have "g = h \<and> t = hd_TenantRef h \<or> handle_of s t e = Some g"
    proof (cases "handle_of s (hd_TenantRef h) (hd_EvidenceRef h)")
      case None
      from create[OF w assms(1) None] obtain s' where s': "eo_CreateHandle ops h s = (Inr h, s')"
          "updated_at (hd_TenantRef h) (hd_EvidenceRef h) (Some h) (handle_of s) (handle_of s')" by blast
      from updated_atD[OF s'(2) t(1), of e] t(2) s'(1) show ?thesis by (auto split: if_splits)
    qed (use create_taken[of s h] t in simp)
    then show "behind (snd (eo_CreateHandle ops h s)) t (hd_DataClass g) (hd_SourceVersion g)"
      using behind_later[OF l t(1)] assms c t(1) by (auto simp: current_def)
  qed
  with l show "later s (snd (eo_CreateHandle ops h s)) \<and> current (snd (eo_CreateHandle ops h s))" by simp
qed

text \<open>A computation of the plane that moves its store forward, from stores with a property that later stores keep.\<close>

definition stable :: "('st \<Rightarrow> bool) \<Rightarrow> bool" where
  "stable P \<longleftrightarrow> (\<forall>s s'. later s s' \<longrightarrow> P s \<longrightarrow> P s')"

definition stays :: "('st \<Rightarrow> bool) \<Rightarrow> ('st, 'ob, 'a) plane \<Rightarrow> bool" where
  "stays P m \<longleftrightarrow> stable P \<longrightarrow> (\<forall>w. P (ew_store w) \<longrightarrow> moves (ew_store w) (ew_store (snd (m w))))"

lemma staysI: "(\<And>w. moves (ew_store w) (ew_store (snd (m w)))) \<Longrightarrow> stays P m"
  by (simp add: stays_def)

lemma staysD: "stays (\<lambda>_. True) m \<Longrightarrow> moves (ew_store w) (ew_store (snd (m w)))"
  by (simp add: stays_def stable_def)

lemma stable_behind: "nul_free t \<Longrightarrow> stable (\<lambda>s. behind s t c v)"
  unfolding stable_def using behind_later by blast

lemma stays_basic: "stays P (ret a)" "stays P (fail e)" "stays P (require b e')" "stays P (clock sv)" "stays P (newID sv p)" "stays P (ask f)"
    "stays P (append_lineage po event)" "stays P (on_objects m)" "stays P (seal sv key plaintext data)" "stays P (validated r)"
  by (simp_all add: stays_def require_def clock_def newID_def ask_def append_lineage_def on_objects_def seal_def validated_def Let_def
      split: prod.split option.split)

lemma stays_on_store: "(\<And>s. P s \<Longrightarrow> moves s (snd (m s))) \<Longrightarrow> stays P (on_store m)"
  unfolding stays_def on_store_def by (auto split: prod.split) (metis snd_conv)

lemma stays_seq:
  fixes m :: "('st, 'ob, 'x) plane" and k :: "'x \<Rightarrow> ('st, 'ob, 'y) plane"
  assumes "stays P m" and "\<And>a w w'. m w = (Inr a, w') \<Longrightarrow> stays P (k a)"
  shows "stays P (andthen m k)"
  unfolding stays_def
proof (intro impI allI)
  fix w :: "('st, 'ob) EvidenceWorld"
  assume P: "stable P" "P (ew_store w)"
  show "moves (ew_store w) (ew_store (snd (andthen m k w)))"
  proof (cases "m w")
    case (Pair r w')
    have m: "moves (ew_store w) (ew_store w')" using assms(1) P Pair by (auto simp: stays_def)
    show ?thesis
    proof (cases r)
      case (Inr a)
      have "moves (ew_store w) (ew_store (snd (k a w')))"
      proof (cases "wf (ew_store w) \<and> current (ew_store w)")
        case True
        then have "P (ew_store w')" using m P by (auto simp: moves_def stable_def)
        then show ?thesis using m assms(2)[OF Pair[unfolded Inr]] P(1) by (auto simp: stays_def intro: moves_trans)
      qed (simp add: moves_def)
      with Pair Inr show ?thesis by simp
    qed (use m Pair in simp)
  qed
qed

lemma stays_andthen: "stays P m \<Longrightarrow> (\<And>a. stays P (k a)) \<Longrightarrow> stays P (andthen m k)"
  by (rule stays_seq)

lemma stays_wrapped: "stays P m \<Longrightarrow> stays P (attempt m)" "stays P m \<Longrightarrow> stays P (on_error f m)"
  by (simp_all add: stays_def attempt_def on_error_def split: prod.split sum.split) (metis snd_conv)+

lemma stays_cases: "(b \<Longrightarrow> stays P m) \<Longrightarrow> (\<not> b \<Longrightarrow> stays P m') \<Longrightarrow> stays P (if b then m else m')"
    "(x = None \<Longrightarrow> stays P n) \<Longrightarrow> (\<And>a. x = Some a \<Longrightarrow> stays P (k a)) \<Longrightarrow> stays P (case x of None \<Rightarrow> n | Some a \<Rightarrow> k a)"
    "(\<And>e. y = Inl e \<Longrightarrow> stays P (f e)) \<Longrightarrow> (\<And>a. y = Inr a \<Longrightarrow> stays P (g a)) \<Longrightarrow> stays P (case y of Inl e \<Rightarrow> f e | Inr a \<Rightarrow> g a)"
    "(\<And>a b. z = (a, b) \<Longrightarrow> stays P (l a b)) \<Longrightarrow> stays P (case z of (a, b) \<Rightarrow> l a b)"
  by (auto split: option.split sum.split prod.split)

lemma stays_let: "stays P (m a) \<Longrightarrow> stays P (let x = a in m x)"
  by simp

lemmas stays_intros = stays_basic stays_andthen stays_wrapped stays_cases stays_let stays_on_store

end

end
