(* ===== verification/EvidenceRuns.thy ===== *)
theory EvidenceRuns
  imports EvidenceLaws
begin

text \<open>
  Runs of the evidence plane: every handler only moves its store forward, so do runs of them, and what the reads of a
  handle need is lost for good once it is lost. The in-memory stores are the providers.
\<close>

subsection \<open>Running the plane's primitives\<close>

lemma wp_clock [wp_simps]: "wp (clock sv) Q E w \<longleftrightarrow> Q (es_now sv (ew_ticks w)) (w\<lparr>ew_ticks := Suc (ew_ticks w)\<rparr>)"
  by (simp add: wp_def clock_def)

lemma wp_evidence_newID [wp_simps]: "wp (newID sv p) Q E w \<longleftrightarrow> Q (es_newID sv (ew_ids w) p) (w\<lparr>ew_ids := Suc (ew_ids w)\<rparr>)"
  by (simp add: wp_def newID_def)

lemma wp_ask [wp_simps]: "wp (ask f) Q E w \<longleftrightarrow>
    (case f (ew_calls w) of Inl e \<Rightarrow> E e (w\<lparr>ew_calls := Suc (ew_calls w)\<rparr>) | Inr a \<Rightarrow> Q a (w\<lparr>ew_calls := Suc (ew_calls w)\<rparr>))"
  by (simp add: wp_def ask_def split: sum.split)

lemma wp_evidence_store: "wp (on_store m) Q E w \<longleftrightarrow>
    (case m (ew_store w) of (Inl e, s) \<Rightarrow> E e (w\<lparr>ew_store := s\<rparr>) | (Inr a, s) \<Rightarrow> Q a (w\<lparr>ew_store := s\<rparr>))"
  by (auto simp: wp_def on_store_def split: prod.split sum.split)

lemma wp_on_objects: "wp (on_objects m) Q E w \<longleftrightarrow>
    (case m (ew_objects w) of (Inl e, s) \<Rightarrow> E e (w\<lparr>ew_objects := s\<rparr>) | (Inr a, s) \<Rightarrow> Q a (w\<lparr>ew_objects := s\<rparr>))"
  by (auto simp: wp_def on_objects_def split: prod.split sum.split)

lemma wp_append_lineage [wp_simps]: "wp (append_lineage po event) Q E w \<longleftrightarrow>
    (let r = po_audit po (ew_calls w) event; w' = w\<lparr>ew_calls := Suc (ew_calls w), ew_lineage := ew_lineage w @ [(event, r)]\<rparr>
     in case r of Inl e \<Rightarrow> E e w' | Inr ref \<Rightarrow> Q ref w')"
  by (simp add: wp_def append_lineage_def Let_def split: sum.split)

lemma wp_with_ports: "es_ports sv = Some po \<Longrightarrow> wp (with_ports sv k) Q E w \<longleftrightarrow> wp (k po) Q E w"
  by (simp add: with_ports_def)

context evidence_store
begin

subsection \<open>Every handler moves the store forward\<close>

lemma stays_with_ports: "es_ports sv = Some po \<Longrightarrow> stays P (k po) \<Longrightarrow> stays P (with_ports sv k)"
  by (simp add: with_ports_def)

lemma stays_Register:
  assumes "es_ports sv = Some po" and "po_store po = ops" and "nul_free (sb_TenantRef b)"
  shows "stays P (RegisterSourceBinding sv b)"
  unfolding RegisterSourceBinding_def
  by (rule stays_with_ports[OF assms(1)], unfold assms(2)) (intro stays_intros moves_upsert; simp add: assms(3))

lemma stays_Invalidate:
  assumes "es_ports sv = Some po" and "po_store po = ops" and "nul_free t"
  shows "stays P (InvalidateSourceVersion sv t c)"
  unfolding InvalidateSourceVersion_def
  by (rule stays_with_ports[OF assms(1)], unfold assms(2)) (intro stays_intros moves_bump assms(3))

lemma stays_Delete:
  assumes "es_ports sv = Some po" and "po_store po = ops" and "nul_free t"
  shows "stays P (DeleteSource sv t c)"
  unfolding DeleteSource_def
  by (rule stays_with_ports[OF assms(1)], unfold assms(2)) (intro stays_intros moves_mark assms(3))

lemma moves_event: "nul_free t \<Longrightarrow> kind_valid kind \<Longrightarrow> moves s (snd (eo_AppendHandleEvent ops (handle_event t n e kind reason) s))"
  by (rule moves_append) (simp_all add: handle_event_def)

lemma kinds_valid [simp]: "kind_valid HandleEventRevoked" "kind_valid HandleEventContentExpired"
  by (simp_all add: kind_valid_def)

lemma stays_Revoke:
  assumes "es_ports sv = Some po" and "po_store po = ops" and "nul_free t"
  shows "stays P (RevokeAuthorization sv t e reason)"
  unfolding RevokeAuthorization_def
  by (rule stays_with_ports[OF assms(1)], unfold assms(2)) (intro stays_intros moves_event assms(3); simp)

lemma stays_sweep_one:
  assumes "po_store po = ops" and "nul_free t"
  shows "stays P (sweep_one sv po t h)"
  unfolding sweep_one_def assms(1) by (intro stays_intros moves_event assms(2); simp)

lemma moves_sweep_batch:
  assumes "po_store po = ops" and "nul_free t"
  shows "moves (ew_store w) (ew_store (snd (sweep_batch sv po t hs n w)))"
proof (induction hs arbitrary: n w)
  case (Cons h hs)
  have "moves (ew_store w) (ew_store (snd (sweep_one sv po t h w)))" by (rule staysD[OF stays_sweep_one[OF assms]])
  with Cons.IH show ?case by (auto split: prod.split sum.split intro: moves_trans)
qed simp

lemma moves_sweep_loop:
  assumes "po_store po = ops" and "nul_free t"
  shows "sweep_loop fuel sv po t n w = Some (r, w') \<Longrightarrow> moves (ew_store w) (ew_store w')"
proof (induction fuel arbitrary: n w)
  case (Suc fuel)
  define m where "m = andthen (clock sv) (\<lambda>now. on_error outage (on_store (eo_ListRetentionExpired ops t now retentionSweepBatch)))"
  have l: "stays (\<lambda>_. True) m"
    unfolding m_def by (intro stays_intros moves_list assms(2)) (simp add: retentionSweepBatch_def)
  have m: "moves (ew_store w) (ew_store (snd (m w)))" by (rule staysD[OF l])
  show ?case
  proof (cases "m w")
    case (Pair listed w1)
    show ?thesis
    proof (cases listed)
      case (Inr hs)
      have b: "moves (ew_store w1) (ew_store (snd (sweep_batch sv po t hs n w1)))" by (rule moves_sweep_batch[OF assms])
      show ?thesis using Suc m b unfolding sweep_loop.simps assms(1) m_def[symmetric] Pair Inr
        by (auto split: prod.splits option.splits if_splits intro: moves_trans)
    qed (use Suc m in \<open>simp add: assms(1) m_def[symmetric] Pair\<close>)
  qed
qed simp

lemma moves_Sweep:
  assumes "es_ports sv = Some po" and "po_store po = ops" and "nul_free t" and "SweepRetention fuel sv t w = Some (r, w')"
  shows "moves (ew_store w) (ew_store w')"
  using assms(4) moves_sweep_loop[OF assms(2,3)] by (auto simp: SweepRetention_def assms(1) split: if_splits)

text \<open>Resolving needs changes no store; what is staged is bound to the registered source.\<close>

lemma resolveNeed_reads:
  assumes "po_store po = ops"
  shows "wp (resolveNeed sv po prin authz req need)
     (\<lambda>one w'. ew_store w' = ew_store w \<and> binding_of (ew_store w) (pc_TenantRef prin) (dn_DataClass need) = Some (sn_binding one))
     (\<lambda>_ w'. ew_store w' = ew_store w) w"
  unfolding resolveNeed_def denyLocate_def assms
  by (simp add: wp_simps wp_evidence_store get_binding Let_def split: option.split sum.split)

lemma resolve_needs_reads:
  assumes "po_store po = ops"
  shows "wp (resolve_needs sv po prin authz req needs)
     (\<lambda>staged w'. ew_store w' = ew_store w \<and> (\<forall>one \<in> set staged. \<exists>c. binding_of (ew_store w) (pc_TenantRef prin) c = Some (sn_binding one)))
     (\<lambda>_ w'. ew_store w' = ew_store w) w"
proof (induction needs arbitrary: w)
  case (Cons need needs)
  show ?case
    unfolding resolve_needs.simps wp_andthen wp_ret
    by (rule wp_mono[OF resolveNeed_reads[OF assms]]) (rule wp_mono[OF Cons.IH]; force)+
qed (simp add: wp_ret)

lemma stays_weaken: "stays P m \<Longrightarrow> stable P \<Longrightarrow> (\<And>s. Q s \<Longrightarrow> P s) \<Longrightarrow> stays Q m"
  by (auto simp: stays_def)

text \<open>The second half may rest on what the first returned.\<close>

lemma stays_post:
  fixes m :: "('st, 'ob, 'x) plane" and k :: "'x \<Rightarrow> ('st, 'ob, 'y) plane"
  assumes "stays P m" and "\<And>a w w'. m w = (Inr a, w') \<Longrightarrow> wf (ew_store w) \<Longrightarrow> current (ew_store w) \<Longrightarrow> P (ew_store w) \<Longrightarrow> Q a (ew_store w')"
    and "\<And>a. stable (Q a)" and "\<And>a. stays (Q a) (k a)"
  shows "stays P (andthen m k)"
  unfolding stays_def
proof (intro impI allI)
  fix w :: "('st, 'ob) EvidenceWorld"
  assume P: "stable P" "P (ew_store w)"
  have m: "moves (ew_store w) (ew_store (snd (m w)))" using assms(1) P by (simp add: stays_def)
  show "moves (ew_store w) (ew_store (snd (andthen m k w)))"
  proof (cases "m w")
    case (Pair r w')
    show ?thesis
    proof (cases r)
      case (Inr a)
      have "moves (ew_store w) (ew_store (snd (k a w')))"
      proof (cases "wf (ew_store w) \<and> current (ew_store w)")
        case True
        then have "Q a (ew_store w')" using assms(2)[OF Pair[unfolded Inr]] P by blast
        then show ?thesis using m assms(3,4) Pair by (auto simp: stays_def intro: moves_trans)
      qed (simp add: moves_def)
      with Pair Inr show ?thesis by simp
    qed (use m Pair in simp)
  qed
qed

lemma stays_or_cleanup:
  assumes "stays P undo" and "stays P m"
  shows "stays P (or_cleanup undo m)"
proof -
  have "or_cleanup undo m w = andthen (attempt m) (\<lambda>r. case r of Inl e \<Rightarrow> andthen undo (\<lambda>_. fail e) | Inr a \<Rightarrow> ret a) w" for w
    by (simp add: or_cleanup_def attempt_def andthen_def split: prod.split sum.split)
  then have "or_cleanup undo m = andthen (attempt m) (\<lambda>r. case r of Inl e \<Rightarrow> andthen undo (\<lambda>_. fail e) | Inr a \<Rightarrow> ret a)" by blast
  then show ?thesis using assms by (auto intro!: stays_intros)
qed

lemma stays_delete_staged: "stays P (delete_staged po keys)"
proof (induction keys)
  case (Cons key keys)
  then show ?case unfolding delete_staged.simps by (intro stays_intros)
qed (simp only: delete_staged.simps stays_basic)

lemma reads_stay: "(\<And>w. wp m (\<lambda>_ w'. ew_store w' = ew_store w) (\<lambda>_ w'. ew_store w' = ew_store w) w) \<Longrightarrow> stays P m"
  by (rule staysI) (simp add: wp_state)

lemma stays_revoke_created:
  assumes "po_store po = ops" and "nul_free t"
  shows "stays P (revoke_created sv po t refs)"
proof (induction refs)
  case (Cons ref refs)
  show ?case unfolding revoke_created.simps assms(1) by (intro stays_intros moves_event assms(2) Cons.IH; simp)
qed (simp only: revoke_created.simps stays_basic)

lemma stays_cleanup: "po_store po = ops \<Longrightarrow> nul_free t \<Longrightarrow> stays P (cleanup sv po t keys refs)"
  unfolding cleanup_def by (intro stays_intros stays_delete_staged stays_revoke_created)

lemma stays_require_lineage: "stays P (require_lineage po event message)"
  unfolding require_lineage_def by (intro stays_intros)

definition backed :: "string \<Rightarrow> stagedNeed \<Rightarrow> 'st \<Rightarrow> bool" where
  "backed t one s \<longleftrightarrow> behind s t (sb_DataClass (sn_binding one)) (sb_SourceVersion (sn_binding one))"

lemma stable_backed: "nul_free t \<Longrightarrow> stable (backed t one)"
  unfolding backed_def using stable_behind by blast

lemma stays_persist_need:
  assumes "po_store po = ops" and "nul_free (pc_TenantRef prin)"
  shows "stays (backed (pc_TenantRef prin) one) (persist_need sv po prin authz req bcr now expiresAt key keys refs one)"
proof -
  have c: "moves s (snd (eo_CreateHandle ops (located_handle prin authz bcr now expiresAt ok ref kr ar one) s))"
    if "backed (pc_TenantRef prin) one s" for s ok ref kr ar
    using that assms(2) by (intro moves_create) (simp_all add: located_handle_def Let_def backed_def)
  show ?thesis
    unfolding persist_need_def Let_def assms(1)
    by (intro stays_intros stays_or_cleanup stays_cleanup stays_require_lineage assms c)
qed

lemma stays_persist_needs:
  assumes "po_store po = ops" and "nul_free (pc_TenantRef prin)"
  shows "stays (\<lambda>s. \<forall>one \<in> set staged. backed (pc_TenantRef prin) one s) (persist_needs sv po prin authz req bcr now expiresAt key keys refs staged)"
proof (induction staged arbitrary: keys refs)
  case (Cons one staged)
  show ?case
    unfolding persist_needs.simps
  proof (intro stays_intros)
    show "stays (\<lambda>s. \<forall>one \<in> set (one # staged). backed (pc_TenantRef prin) one s) (persist_need sv po prin authz req bcr now expiresAt key keys refs one)"
      by (rule stays_weaken[OF stays_persist_need[OF assms] stable_backed[OF assms(2)]]) simp
  next
    fix ok h
    have "stable (\<lambda>s. \<forall>one \<in> set staged. backed (pc_TenantRef prin) one s)"
      using stable_backed[OF assms(2)] unfolding stable_def by blast
    then show "stays (\<lambda>s. \<forall>one \<in> set (one # staged). backed (pc_TenantRef prin) one s)
        (persist_needs sv po prin authz req bcr now expiresAt key (keys @ [ok]) (refs @ [eh_EvidenceRef h]) staged)"
      by (rule stays_weaken[OF Cons.IH]) simp
  qed
qed (simp add: stays_basic)

lemma stays_ValidateHandle: "stays P (case ValidateHandle h p of None \<Rightarrow> ret () | Some e \<Rightarrow> fail (outage (Invalid e)))"
  by (intro stays_intros)

lemma stays_Locate:
  assumes "es_ports sv = Some po" and "po_store po = ops" and "nul_free (pc_TenantRef prin)"
  shows "stays P (Locate sv prin authz req)"
proof -
  let ?Q = "\<lambda>staged s. \<forall>one \<in> set staged. backed (pc_TenantRef prin) one s"
  have stable: "stable (?Q staged)" for staged using stable_backed[OF assms(3)] unfolding stable_def by blast
  have rest: "stays P (andthen (resolve_needs sv po prin authz req needs) (\<lambda>staged.
      andthen (on_error outage (ask (\<lambda>n. kp_ContentKey (po_keys po n) (pc_TenantRef prin)))) (\<lambda>key.
      andthen (persist_needs sv po prin authz req bcr now expiresAt key [] [] staged) (\<lambda>handles.
      ret \<lparr>lr_BusinessContextRef = bcr, lr_Evidence = handles\<rparr>))))" for needs bcr now expiresAt
  proof (rule stays_post[where Q = ?Q])
    show "stays P (resolve_needs sv po prin authz req needs)"
      by (rule reads_stay, rule wp_mono[OF resolve_needs_reads[OF assms(2)]]) simp_all
    show "\<forall>one \<in> set staged. backed (pc_TenantRef prin) one (ew_store w')"
      if run: "resolve_needs sv po prin authz req needs w = (Inr staged, w')" and "wf (ew_store w)" for staged w w'
      using wp_Inr[OF resolve_needs_reads[OF assms(2)] run] stored_binding[OF that(2) assms(3)]
      by (fastforce simp: backed_def behind_def)
    show "stays (?Q staged) (andthen (on_error outage (ask (\<lambda>n. kp_ContentKey (po_keys po n) (pc_TenantRef prin)))) (\<lambda>key.
      andthen (persist_needs sv po prin authz req bcr now expiresAt key [] [] staged) (\<lambda>handles.
      ret \<lparr>lr_BusinessContextRef = bcr, lr_Evidence = handles\<rparr>)))" for staged
      by (intro stays_intros stays_persist_needs assms(2,3))
  qed (rule stable)
  show ?thesis
    unfolding Locate_def Let_def
    by (rule stays_with_ports[OF assms(1)]) (intro stays_intros rest stays_ValidateHandle)
qed

lemma stays_staged_records: "stays P (staged_records sv po prin h)"
  unfolding staged_records_def by (intro stays_intros)

lemma stays_denyVerificationRead: "stays P (denyVerificationRead po prin req h m b)"
  unfolding denyVerificationRead_def by (intro stays_intros)

lemma stays_denyRead: "stays P (denyRead po prin req h m)"
  unfolding denyRead_def by (rule stays_denyVerificationRead)

lemma stays_unless_denied: "stays P k \<Longrightarrow> stays P (unless_denied po prin req h b reason k)"
  unfolding unless_denied_def by (intro stays_intros stays_denyVerificationRead)

lemma stays_mint: "stays P (mintObservationReceipt sv sign ref b h binding auditRef)"
  unfolding mintObservationReceipt_def by (intro stays_intros)

lemma stays_action_reason: "stays P (action_reason sv prin b)"
  unfolding action_reason_def by (intro stays_intros)

definition covered :: "Handle \<Rightarrow> 'st \<Rightarrow> bool" where
  "covered h s \<longleftrightarrow> behind s (hd_TenantRef h) (hd_DataClass h) (hd_SourceVersion h)"

lemma stays_take_page:
  assumes "po_store po = ops" and "nul_free (hd_TenantRef h)"
  shows "stays (covered h) (take_page sv po req h records)"
proof -
  have c: "moves s (snd (eo_CreateHandle ops (continuation_of h ref offset) s))" if "covered h s" for s ref offset
    using that assms(2) by (intro moves_create) (simp_all add: continuation_of_def covered_def)
  show ?thesis unfolding take_page_def Let_def assms(1) by (intro stays_intros c)
qed

lemma stays_serve_read:
  assumes "po_store po = ops" and "nul_free (hd_TenantRef h)"
  shows "stays (covered h) (serve_read sv po prin authz req h binding declared)"
  unfolding serve_read_def Let_def
  by (intro stays_intros stays_staged_records stays_take_page[OF assms] stays_require_lineage stays_mint)

definition found_ok :: "PrincipalContext \<Rightarrow> evidence_go_error + Handle \<Rightarrow> 'st \<Rightarrow> bool" where
  "found_ok prin found s \<longleftrightarrow> (\<forall>h. found = Inr h \<longrightarrow> hd_TenantRef h = pc_TenantRef prin \<and> covered h s)"

lemma stable_found_ok: "nul_free (pc_TenantRef prin) \<Longrightarrow> stable (found_ok prin found)"
  unfolding stable_def found_ok_def covered_def by (metis behind_later)

lemma found_ok_lookup:
  assumes "attempt (on_store (eo_GetHandle ops (pc_TenantRef prin) e)) w = (Inr found, w')" and "wf (ew_store w)" and "current (ew_store w)"
    and "nul_free (pc_TenantRef prin)"
  shows "found_ok prin found (ew_store w')"
  using assms(1) stored[OF assms(2,4)] assms(3,4)
  by (auto simp: attempt_def on_store_def get_handle current_def covered_def found_ok_def split: option.splits prod.splits)

lemma stays_served:
  assumes "po_store po = ops" and "nul_free (pc_TenantRef prin)"
  shows "stays (found_ok prin (Inr h)) (serve_read sv po prin authz req h binding declared)"
proof (cases "hd_TenantRef h = pc_TenantRef prin")
  case True
  then have "stable (covered h)" using stable_behind[of "hd_TenantRef h"] assms(2) unfolding covered_def by simp
  then show ?thesis
    using True assms by (auto intro!: stays_weaken[OF stays_serve_read[OF assms(1)]] simp: found_ok_def)
qed (simp add: stays_def found_ok_def)

lemma stays_Read:
  assumes "es_ports sv = Some po" and "po_store po = ops" and t: "nul_free (pc_TenantRef prin)"
  shows "stays P (ReadEvidence sv prin authz req)"
  unfolding ReadEvidence_def
proof (rule stays_with_ports[OF assms(1)], (rule stays_andthen, rule stays_basic)+, rule stays_cases(3), rule stays_basic(2), unfold assms(2),
    rule stays_post[where Q = "found_ok prin", OF _ _ stable_found_ok[OF t]], goal_cases)
  case 1
  show ?case by (intro stays_intros) simp
next
  case (2 _ _ _ _ _ declared found w w')
  then show ?case by (intro found_ok_lookup t)
next
  case (3 _ _ _ _ _ declared found)
  show ?case
  proof (rule stays_cases(3), goal_cases)
    case (1 e)
    show ?case by (intro stays_intros stays_denyRead)
  next
    case (2 h)
    show ?case
      unfolding \<open>found = Inr h\<close>
      by (intro stays_intros stays_denyRead stays_unless_denied stays_served[OF assms(2) t] stays_action_reason; simp)
  qed
qed

end

subsection \<open>Runs\<close>

text \<open>A step serves one call; a sweep counts once it has returned. Tenant names hold no NUL byte.\<close>

inductive plane_step :: "('st, 'ob, 'v) EvidenceService \<Rightarrow> ('st, 'ob) EvidenceWorld \<Rightarrow> ('st, 'ob) EvidenceWorld \<Rightarrow> bool"
  for sv :: "('st, 'ob, 'v) EvidenceService" where
  registered: "nul_free (sb_TenantRef b) \<Longrightarrow> plane_step sv w (snd (RegisterSourceBinding sv b w))"
| invalidated: "nul_free t \<Longrightarrow> plane_step sv w (snd (InvalidateSourceVersion sv t c w))"
| deleted: "nul_free t \<Longrightarrow> plane_step sv w (snd (DeleteSource sv t c w))"
| revoked: "nul_free t \<Longrightarrow> plane_step sv w (snd (RevokeAuthorization sv t e reason w))"
| swept: "nul_free t \<Longrightarrow> SweepRetention fuel sv t w = Some (r, w') \<Longrightarrow> plane_step sv w w'"
| located: "nul_free (pc_TenantRef prin) \<Longrightarrow> plane_step sv w (snd (Locate sv prin authz req w))"
| read: "nul_free (pc_TenantRef prin) \<Longrightarrow> plane_step sv w (snd (ReadEvidence sv prin authz rreq w))"

context evidence_store
begin

lemma moves_step:
  assumes "es_ports sv = Some po" and "po_store po = ops" and "plane_step sv w w'"
  shows "moves (ew_store w) (ew_store w')"
  using assms(3)
proof cases
  case (registered b)
  then show ?thesis using staysD[OF stays_Register[OF assms(1,2)]] by blast
next
  case (invalidated t c)
  then show ?thesis using staysD[OF stays_Invalidate[OF assms(1,2)]] by blast
next
  case (deleted t c)
  then show ?thesis using staysD[OF stays_Delete[OF assms(1,2)]] by blast
next
  case (revoked t e reason)
  then show ?thesis using staysD[OF stays_Revoke[OF assms(1,2)]] by blast
next
  case (swept t fuel r)
  then show ?thesis using moves_Sweep[OF assms(1,2)] by blast
next
  case (located prin authz req)
  then show ?thesis using staysD[OF stays_Locate[OF assms(1,2)]] by blast
next
  case (read prin authz rreq)
  then show ?thesis using staysD[OF stays_Read[OF assms(1,2)]] by blast
qed

lemma moves_run:
  assumes "es_ports sv = Some po" and "po_store po = ops" and "(plane_step sv)\<^sup>*\<^sup>* w w'"
  shows "moves (ew_store w) (ew_store w')"
  using assms(3) by (induction rule: rtranclp_induct) (auto intro: moves_trans moves_step[OF assms(1,2)])

lemma run_later:
  assumes "es_ports sv = Some po" and "po_store po = ops" and "(plane_step sv)\<^sup>*\<^sup>* w w'" and "wf (ew_store w)" and "current (ew_store w)"
  shows "later (ew_store w) (ew_store w')" and "wf (ew_store w')" and "current (ew_store w')"
  using moves_run[OF assms(1-3)] assms(4,5) by (auto simp: moves_def later_def)

subsection \<open>Lost handles\<close>

text \<open>A handle is lost once it has a revocation or expiry event, or its source moved past the version it was staged from.\<close>

definition lost :: "'st \<Rightarrow> string \<Rightarrow> string \<Rightarrow> bool" where
  "lost s t e \<longleftrightarrow> (\<exists>h. handle_of s t e = Some h \<and> (event_reason (events_of s t e) \<noteq> None
     \<or> (\<exists>b. binding_of s t (hd_DataClass h) = Some b
          \<and> (hd_SourceVersion h < sb_SourceVersion b \<or> sb_Deleted b \<and> hd_SourceVersion h \<le> sb_SourceVersion b))))"

lemma event_reason_append: "event_reason xs \<noteq> None \<Longrightarrow> event_reason (xs @ ys) \<noteq> None"
  by (induction xs) (auto split: HandleEventKind.splits)

lemma event_reason_valid: "kind_valid (ev_Kind event) \<Longrightarrow> event_reason (xs @ [event]) \<noteq> None"
  by (induction xs) (auto simp: kind_valid_def split: HandleEventKind.splits)

lemma lost_later:
  assumes "later s s'" and "nul_free t" and "lost s t e"
  shows "lost s' t e"
proof -
  from assms(3) obtain h where h: "handle_of s t e = Some h" and
    c: "event_reason (events_of s t e) \<noteq> None \<or> (\<exists>b. binding_of s t (hd_DataClass h) = Some b
          \<and> (hd_SourceVersion h < sb_SourceVersion b \<or> sb_Deleted b \<and> hd_SourceVersion h \<le> sb_SourceVersion b))"
    by (auto simp: lost_def)
  have h': "handle_of s' t e = Some h" using assms(1,2) h by (auto simp: later_def preserved_def)
  from c show ?thesis
  proof
    assume "event_reason (events_of s t e) \<noteq> None"
    moreover obtain new where "events_of s' t e = events_of s t e @ new" using assms(1,2) by (auto simp: later_def extended_def)
    ultimately show ?thesis using h' event_reason_append by (auto simp: lost_def)
  next
    assume "\<exists>b. binding_of s t (hd_DataClass h) = Some b
          \<and> (hd_SourceVersion h < sb_SourceVersion b \<or> sb_Deleted b \<and> hd_SourceVersion h \<le> sb_SourceVersion b)"
    then obtain b where b: "binding_of s t (hd_DataClass h) = Some b"
        "hd_SourceVersion h < sb_SourceVersion b \<or> sb_Deleted b \<and> hd_SourceVersion h \<le> sb_SourceVersion b" by blast
    moreover obtain b' where "binding_of s' t (hd_DataClass h) = Some b'" "rises b b'"
      using assms(1,2) b(1) unfolding later_def preserved_def by blast
    ultimately show ?thesis using h' by (auto simp: lost_def rises_def)
  qed
qed

lemma lost_reasons:
  assumes "lost s t e" and "handle_of s t e = Some h" and "event_reason (events_of s t e) = None"
  obtains b m where "binding_of s t (hd_DataClass h) = Some b" and "binding_reason authz h b = Some m"
proof -
  from assms obtain b where b: "binding_of s t (hd_DataClass h) = Some b"
      "hd_SourceVersion h < sb_SourceVersion b \<or> sb_Deleted b \<and> hd_SourceVersion h \<le> sb_SourceVersion b"
    by (auto simp: lost_def)
  then have "binding_reason authz h b \<noteq> None" by (auto simp: binding_reason_def)
  with b(1) that show ?thesis by blast
qed

lemma lost_is_denied:
  assumes "es_ports sv = Some po" and "po_store po = ops" and "wf (ew_store w)" and "nul_free (pc_TenantRef prin)"
    and "lost (ew_store w) (pc_TenantRef prin) (er_EvidenceRef req)" and "ReadEvidence sv prin authz req w = (Inr rr, w')"
  shows "rr = denied"
proof -
  let ?t = "pc_TenantRef prin" and ?e = "er_EvidenceRef req"
  from assms(5) obtain h where h: "handle_of (ew_store w) ?t ?e = Some h" by (auto simp: lost_def)
  note run = wp_simps wp_evidence_store wp_with_ports[OF assms(1)] assms(2) get_binding get_handle list_events h stored[OF assms(3,4) h]
    unless_denied_def denyRead_def denyVerificationRead_def validated_def Let_def
  have "wp (ReadEvidence sv prin authz req) (\<lambda>rr _. rr = denied) (\<lambda>_ _. True) w"
  proof (cases "event_reason (events_of (ew_store w) ?t ?e)")
    case None
    obtain b m where "binding_of (ew_store w) ?t (hd_DataClass h) = Some b" "binding_reason authz h b = Some m"
      by (rule lost_reasons[OF assms(5) h None])
    then show ?thesis unfolding ReadEvidence_def by (simp add: run None split: option.split sum.split)
  next
    case (Some m)
    then show ?thesis unfolding ReadEvidence_def by (simp add: run split: option.split sum.split)
  qed
  from wp_Inr[OF this assms(6)] show ?thesis .
qed

text \<open>What loses a handle.\<close>

lemma lost_by_invalidation:
  assumes "es_ports sv = Some po" and "po_store po = ops" and "wf (ew_store w)" and "current (ew_store w)" and t: "nul_free t"
    and h: "handle_of (ew_store w) t e = Some h" and "InvalidateSourceVersion sv t (hd_DataClass h) w = (Inr b, w')"
  shows "lost (ew_store w') t e"
proof -
  obtain n where "eo_BumpSourceVersion ops t (hd_DataClass h) n (ew_store w) = (Inr b, ew_store w')"
    using assms(7) by (auto simp: InvalidateSourceVersion_def with_ports_def assms(1,2) clock_def on_store_def elim!: andthenE split: prod.splits)
  moreover obtain b0 where b0: "binding_of (ew_store w) t (hd_DataClass h) = Some b0" "hd_SourceVersion h \<le> sb_SourceVersion b0"
    using assms(4) t h unfolding current_def behind_def by blast
  moreover obtain s' b' where "eo_BumpSourceVersion ops t (hd_DataClass h) n (ew_store w) = (Inr b', s')"
      "updated_at t (hd_DataClass h) (Some b') (binding_of (ew_store w)) (binding_of s')" "agrees (handle_of s') (handle_of (ew_store w))"
      "sb_SourceVersion b' = sb_SourceVersion b0 + 1"
    using bump[OF assms(3) t b0(1), of n] by auto
  ultimately show ?thesis
    using h b0(2) updated_atD[of t "hd_DataClass h" "Some b'" _ "binding_of s'" t "hd_DataClass h"] t agreesD[of "handle_of s'" _ t e]
    by (auto simp: lost_def)
qed

lemma lost_by_deletion:
  assumes "es_ports sv = Some po" and "po_store po = ops" and "wf (ew_store w)" and "current (ew_store w)" and t: "nul_free t"
    and h: "handle_of (ew_store w) t e = Some h" and "DeleteSource sv t (hd_DataClass h) w = (Inr u, w')"
  shows "lost (ew_store w') t e"
proof -
  obtain n b where "eo_MarkSourceDeleted ops t (hd_DataClass h) n (ew_store w) = (Inr b, ew_store w')"
    using assms(7) by (auto simp: DeleteSource_def with_ports_def assms(1,2) clock_def on_store_def elim!: andthenE split: prod.splits)
  moreover obtain b0 where b0: "binding_of (ew_store w) t (hd_DataClass h) = Some b0" "hd_SourceVersion h \<le> sb_SourceVersion b0"
    using assms(4) t h unfolding current_def behind_def by blast
  moreover obtain s' b' where "eo_MarkSourceDeleted ops t (hd_DataClass h) n (ew_store w) = (Inr b', s')"
      "updated_at t (hd_DataClass h) (Some b') (binding_of (ew_store w)) (binding_of s')" "agrees (handle_of s') (handle_of (ew_store w))"
      "sb_SourceVersion b' = sb_SourceVersion b0" "sb_Deleted b'"
    using mark[OF assms(3) t b0(1), of n] by auto
  ultimately show ?thesis
    using h b0(2) updated_atD[of t "hd_DataClass h" "Some b'" _ "binding_of s'" t "hd_DataClass h"] t agreesD[of "handle_of s'" _ t e]
    by (auto simp: lost_def)
qed

lemma lost_by_event:
  assumes "wf s" and "nul_free (ev_TenantRef event)" and "kind_valid (ev_Kind event)" and "eo_AppendHandleEvent ops event s = (Inr event', s')"
  shows "lost s' (ev_TenantRef event) (ev_EvidenceRef event)"
proof (cases "handle_of s (ev_TenantRef event) (ev_EvidenceRef event)")
  case None
  then show ?thesis using append_missing[OF assms(3) None] assms(4) by simp
next
  case (Some h)
  obtain event'' where e: "ev_Kind event'' = ev_Kind event" "agrees (handle_of s') (handle_of s)"
    "updated_at (ev_TenantRef event) (ev_EvidenceRef event)
       (events_of s (ev_TenantRef event) (ev_EvidenceRef event) @ [event'']) (events_of s) (events_of s')"
    using append[OF assms(1-3)] Some assms(4) by auto
  have "events_of s' (ev_TenantRef event) (ev_EvidenceRef event) = events_of s (ev_TenantRef event) (ev_EvidenceRef event) @ [event'']"
    using updated_atD[OF e(3) assms(2)] by simp
  moreover have "event_reason (events_of s (ev_TenantRef event) (ev_EvidenceRef event) @ [event'']) \<noteq> None"
    by (rule event_reason_valid) (simp add: e(1) assms(3))
  ultimately show ?thesis using agreesD[OF e(2) assms(2)] Some by (simp add: lost_def)
qed

lemma lost_by_revocation:
  assumes "es_ports sv = Some po" and "po_store po = ops" and "wf (ew_store w)" and t: "nul_free t"
    and "RevokeAuthorization sv t e reason w = (Inr u, w')"
  shows "lost (ew_store w') t e"
proof -
  obtain n event where "eo_AppendHandleEvent ops (handle_event t n e HandleEventRevoked reason) (ew_store w) = (Inr event, ew_store w')"
    using assms(5) by (auto simp: RevokeAuthorization_def with_ports_def assms(1,2) newID_def on_store_def get_handle
        elim!: andthenE split: prod.splits option.splits)
  from lost_by_event[OF assms(3) _ _ this] t show ?thesis by (simp add: handle_event_def)
qed

end

end
