(* ===== verification/EvidenceMemory.thy ===== *)
theory EvidenceMemory
  imports EvidenceRuns
begin

text \<open>The in-memory evidence store keeps the laws of the store interface.\<close>

definition em_binding :: "EvidenceStore \<Rightarrow> string \<Rightarrow> string \<Rightarrow> SourceBinding option" where
  "em_binding s t c = em_bindings s (bindingKey t c)"

definition em_handle :: "EvidenceStore \<Rightarrow> string \<Rightarrow> string \<Rightarrow> Handle option" where
  "em_handle s t e = map_of (em_handles s) (handleKey t e)"

definition em_event :: "EvidenceStore \<Rightarrow> string \<Rightarrow> string \<Rightarrow> HandleEvent list" where
  "em_event s t e = em_events s (handleKey t e)"

lemmas em_lookups = em_binding_def em_handle_def em_event_def

definition em_wf :: "EvidenceStore \<Rightarrow> bool" where
  "em_wf s \<longleftrightarrow> distinct (map fst (em_handles s))
     \<and> (\<forall>k h. (k, h) \<in> set (em_handles s) \<longrightarrow> k = handleKey (hd_TenantRef h) (hd_EvidenceRef h) \<and> nul_free (hd_TenantRef h))
     \<and> (\<forall>k b. em_bindings s k = Some b \<longrightarrow> k = bindingKey (sb_TenantRef b) (sb_DataClass b) \<and> nul_free (sb_TenantRef b))"

lemma keys_inject [simp]:
  "nul_free t \<Longrightarrow> nul_free t' \<Longrightarrow> handleKey t x = handleKey t' x' \<longleftrightarrow> t = t' \<and> x = x'"
  "nul_free t \<Longrightarrow> nul_free t' \<Longrightarrow> bindingKey t x = bindingKey t' x' \<longleftrightarrow> t = t' \<and> x = x'"
  unfolding handleKey_def bindingKey_def by (rule nul_separated; assumption)+

lemma updated_binding:
  assumes "nul_free t"
  shows "updated_at t c (Some b) (em_binding s) (em_binding (s\<lparr>em_bindings := (em_bindings s)(bindingKey t c \<mapsto> b)\<rparr>))"
  using assms by (auto simp: updated_at_def agrees_def em_lookups)

lemma others_agree [simp]:
  "agrees (em_handle (s\<lparr>em_bindings := m\<rparr>)) (em_handle s)" "agrees (em_event (s\<lparr>em_bindings := m\<rparr>)) (em_event s)"
  "agrees (em_binding (s\<lparr>em_handles := hs\<rparr>)) (em_binding s)" "agrees (em_event (s\<lparr>em_handles := hs\<rparr>)) (em_event s)"
  "agrees (em_binding (s\<lparr>em_eventN := n, em_events := es\<rparr>)) (em_binding s)"
  "agrees (em_handle (s\<lparr>em_eventN := n, em_events := es\<rparr>)) (em_handle s)"
  by (simp_all add: agrees_def em_lookups)

lemma wf_binding:
  assumes "em_wf s" and "nul_free (sb_TenantRef b)" and "k = bindingKey (sb_TenantRef b) (sb_DataClass b)"
  shows "em_wf (s\<lparr>em_bindings := (em_bindings s)(k \<mapsto> b)\<rparr>)"
  using assms unfolding em_wf_def by auto

lemma upserted_key: "sb_TenantRef (upserted p b) = sb_TenantRef b" "sb_DataClass (upserted p b) = sb_DataClass b"
  by (auto simp: upserted_def Let_def split: option.split)

lemma em_upsert_law:
  assumes "em_wf s" and "nul_free (sb_TenantRef b)"
  shows "\<exists>s' b'. em_UpsertSourceBinding b s = (Inr b', s') \<and> em_wf s'
      \<and> b' = upserted (em_binding s (sb_TenantRef b) (sb_DataClass b)) b
      \<and> updated_at (sb_TenantRef b) (sb_DataClass b) (Some b') (em_binding s) (em_binding s')
      \<and> agrees (em_handle s') (em_handle s) \<and> agrees (em_event s') (em_event s)"
proof -
  let ?b = "upserted (em_bindings s (bindingKey (sb_TenantRef b) (sb_DataClass b))) b"
  have "em_wf (s\<lparr>em_bindings := (em_bindings s)(bindingKey (sb_TenantRef b) (sb_DataClass b) \<mapsto> ?b)\<rparr>)"
    by (rule wf_binding[OF assms(1)]) (simp_all add: upserted_key assms(2))
  then show ?thesis using updated_binding[OF assms(2)] by (simp add: em_UpsertSourceBinding_def Let_def em_binding_def)
qed

lemma em_change_law:
  assumes "em_wf s" and "nul_free t" and "em_binding s t c = Some b" and "sb_TenantRef b' = sb_TenantRef b" and "sb_DataClass b' = sb_DataClass b"
  shows "em_wf (s\<lparr>em_bindings := (em_bindings s)(bindingKey t c \<mapsto> b')\<rparr>)"
proof (rule wf_binding[OF assms(1)])
  show "nul_free (sb_TenantRef b')" "bindingKey t c = bindingKey (sb_TenantRef b') (sb_DataClass b')"
    using assms unfolding em_wf_def em_binding_def by auto
qed

lemma em_bump_law:
  assumes "em_wf s" and "nul_free t" and "em_binding s t c = Some b"
  shows "\<exists>s' b'. em_BumpSourceVersion t c n s = (Inr b', s') \<and> em_wf s'
      \<and> b' = b\<lparr>sb_SourceVersion := sb_SourceVersion b + 1, sb_UpdatedAt := n\<rparr> \<and> updated_at t c (Some b') (em_binding s) (em_binding s')
      \<and> agrees (em_handle s') (em_handle s) \<and> agrees (em_event s') (em_event s)"
  using assms updated_binding[OF assms(2)] em_change_law[OF assms] by (simp add: em_BumpSourceVersion_def Let_def em_binding_def)

lemma em_mark_law:
  assumes "em_wf s" and "nul_free t" and "em_binding s t c = Some b"
  shows "\<exists>s' b'. em_MarkSourceDeleted t c n s = (Inr b', s') \<and> em_wf s'
      \<and> b' = b\<lparr>sb_Deleted := True, sb_UpdatedAt := n\<rparr> \<and> updated_at t c (Some b') (em_binding s) (em_binding s')
      \<and> agrees (em_handle s') (em_handle s) \<and> agrees (em_event s') (em_event s)"
  using assms updated_binding[OF assms(2)] em_change_law[OF assms] by (simp add: em_MarkSourceDeleted_def Let_def em_binding_def)

lemma em_create_law:
  assumes "em_wf s" and "nul_free (hd_TenantRef h)" and "em_handle s (hd_TenantRef h) (hd_EvidenceRef h) = None"
  shows "\<exists>s'. em_CreateHandle h s = (Inr h, s') \<and> em_wf s'
      \<and> updated_at (hd_TenantRef h) (hd_EvidenceRef h) (Some h) (em_handle s) (em_handle s')
      \<and> agrees (em_binding s') (em_binding s) \<and> agrees (em_event s') (em_event s)"
proof -
  let ?k = "handleKey (hd_TenantRef h) (hd_EvidenceRef h)"
  have new: "?k \<notin> fst ` set (em_handles s)" using assms(3) by (simp add: em_handle_def map_of_eq_None_iff)
  have "updated_at (hd_TenantRef h) (hd_EvidenceRef h) (Some h) (em_handle s) (em_handle (s\<lparr>em_handles := em_handles s @ [(?k, h)]\<rparr>))"
    using assms(2,3) by (auto simp: updated_at_def agrees_def em_handle_def map_add_def split: option.split)
  moreover have "em_wf (s\<lparr>em_handles := em_handles s @ [(?k, h)]\<rparr>)"
    using assms(1,2) new unfolding em_wf_def by auto
  ultimately show ?thesis using assms(3) by (simp add: em_CreateHandle_def em_handle_def Let_def)
qed

lemma em_created:
  assumes "em_CreateHandle h s = (Inr u, s')"
  shows "u = h" and "em_handles s' = em_handles s @ [(handleKey (hd_TenantRef h) (hd_EvidenceRef h), h)]"
    and "em_handle s (hd_TenantRef h) (hd_EvidenceRef h) = None" and "em_handle s' (hd_TenantRef h) (hd_EvidenceRef h) = Some h"
    and "em_events s' = em_events s" and "em_bindings s' = em_bindings s"
  using assms by (auto simp: em_CreateHandle_def em_handle_def Let_def map_add_def split: if_splits option.splits)

lemma em_append_law:
  assumes "em_wf s" and "nul_free (ev_TenantRef event)" and "kind_valid (ev_Kind event)"
    and "em_handle s (ev_TenantRef event) (ev_EvidenceRef event) \<noteq> None"
  shows "\<exists>s' event'. em_AppendHandleEvent event s = (Inr event', s') \<and> em_wf s' \<and> ev_Kind event' = ev_Kind event
      \<and> updated_at (ev_TenantRef event) (ev_EvidenceRef event)
          (em_event s (ev_TenantRef event) (ev_EvidenceRef event) @ [event']) (em_event s) (em_event s')
      \<and> agrees (em_binding s') (em_binding s) \<and> agrees (em_handle s') (em_handle s)"
proof -
  let ?k = "handleKey (ev_TenantRef event) (ev_EvidenceRef event)" and ?n = "em_eventN s + 1"
  let ?s = "s\<lparr>em_eventN := ?n, em_events := (em_events s)(?k := em_events s ?k @ [event\<lparr>ev_Seq := ?n\<rparr>])\<rparr>"
  have "updated_at (ev_TenantRef event) (ev_EvidenceRef event)
          (em_event s (ev_TenantRef event) (ev_EvidenceRef event) @ [event\<lparr>ev_Seq := ?n\<rparr>]) (em_event s) (em_event ?s)"
    using assms(2) by (auto simp: updated_at_def agrees_def em_event_def)
  moreover have "em_wf ?s" using assms(1) by (simp add: em_wf_def)
  moreover have "em_AppendHandleEvent event s = (Inr (event\<lparr>ev_Seq := ?n\<rparr>), ?s)"
    using assms(3,4) by (simp add: em_AppendHandleEvent_def em_handle_def Let_def)
  ultimately show ?thesis by auto
qed

lemma em_stored:
  assumes "em_wf s" and "nul_free t" and "em_handle s t e = Some h"
  shows "hd_TenantRef h = t \<and> hd_EvidenceRef h = e"
proof -
  have "(handleKey t e, h) \<in> set (em_handles s)" using assms(3) by (auto simp: em_handle_def dest: map_of_SomeD)
  then have "handleKey t e = handleKey (hd_TenantRef h) (hd_EvidenceRef h)" "nul_free (hd_TenantRef h)" using assms(1) by (auto simp: em_wf_def)
  with assms(2) show ?thesis by auto
qed

lemma retention_due_iff:
  "retention_due t n s (k, h) \<longleftrightarrow> hd_TenantRef h = t \<and> due n h (em_events s k)"
  by (auto simp: retention_due_def due_def content_expired_def)

text \<open>The handles a sweep sees are exactly the due ones of the tenant.\<close>

lemma em_due_handles:
  assumes "em_wf s" and "nul_free t"
  shows "set (map snd (filter (retention_due t n s) (em_handles s))) = {h. \<exists>e. em_handle s t e = Some h \<and> due n h (em_event s t e)}"
    and "distinct (map hd_EvidenceRef (map snd (filter (retention_due t n s) (em_handles s))))"
proof -
  have d: "distinct (map fst (em_handles s))" and k: "\<And>k h. (k, h) \<in> set (em_handles s) \<Longrightarrow> k = handleKey (hd_TenantRef h) (hd_EvidenceRef h)"
    using assms(1) by (auto simp: em_wf_def)
  show "set (map snd (filter (retention_due t n s) (em_handles s))) = {h. \<exists>e. em_handle s t e = Some h \<and> due n h (em_event s t e)}"
  proof (intro set_eqI iffI)
    fix h
    assume "h \<in> set (map snd (filter (retention_due t n s) (em_handles s)))"
    then obtain k' where m: "(k', h) \<in> set (em_handles s)" "retention_due t n s (k', h)" by auto
    then have "k' = handleKey t (hd_EvidenceRef h)" using k[OF m(1)] by (simp add: retention_due_iff)
    with m d show "h \<in> {h. \<exists>e. em_handle s t e = Some h \<and> due n h (em_event s t e)}"
      by (auto simp: em_handle_def em_event_def retention_due_iff)
  next
    fix h
    assume "h \<in> {h. \<exists>e. em_handle s t e = Some h \<and> due n h (em_event s t e)}"
    then obtain e where e: "em_handle s t e = Some h" "due n h (em_event s t e)" by blast
    then have "(handleKey t e, h) \<in> set (em_handles s)" by (auto simp: em_handle_def dest: map_of_SomeD)
    moreover have "retention_due t n s (handleKey t e, h)"
      using e em_stored[OF assms e(1)] by (simp add: retention_due_iff em_event_def)
    ultimately show "h \<in> set (map snd (filter (retention_due t n s) (em_handles s)))" by force
  qed
  have "map fst (filter (retention_due t n s) (em_handles s))
      = map (handleKey t) (map hd_EvidenceRef (map snd (filter (retention_due t n s) (em_handles s))))"
    using k by (auto simp: retention_due_iff)
  then show "distinct (map hd_EvidenceRef (map snd (filter (retention_due t n s) (em_handles s))))"
    using d distinct_map_filter distinct_map by metis
qed

lemma em_list_law:
  assumes "em_wf s" and "nul_free t" and "0 < limit"
  shows "\<exists>hs. em_ListRetentionExpired t n limit s = (Inr hs, s) \<and> distinct (map hd_EvidenceRef hs) \<and> int (length hs) \<le> limit
      \<and> (\<forall>h \<in> set hs. em_handle s t (hd_EvidenceRef h) = Some h \<and> due n h (em_event s t (hd_EvidenceRef h)))
      \<and> (int (length hs) < limit \<longrightarrow> (\<forall>e h. em_handle s t e = Some h \<longrightarrow> due n h (em_event s t e) \<longrightarrow> h \<in> set hs))"
proof -
  define out where "out = sort_key (\<lambda>h. (hd_RetentionExpiresAt h, hd_EvidenceRef h)) (map snd (filter (retention_due t n s) (em_handles s)))"
  define hs where "hs = (if int (length out) > limit then take (nat limit) out else out)"
  have run: "em_ListRetentionExpired t n limit s = (Inr hs, s)"
    using assms(3) by (simp add: em_ListRetentionExpired_def out_def hs_def Let_def)
  have set_out: "set out = {h. \<exists>e. em_handle s t e = Some h \<and> due n h (em_event s t e)}"
    using em_due_handles(1)[OF assms(1,2)] by (simp add: out_def)
  have "distinct (map hd_EvidenceRef out)"
    using em_due_handles(2)[OF assms(1,2)] unfolding out_def
    by (metis (no_types, lifting) distinct_map distinct_sort set_sort)
  then have "distinct (map hd_EvidenceRef hs)" by (simp add: hs_def take_map[symmetric])
  moreover have "set hs \<subseteq> set out" by (auto simp: hs_def dest: in_set_takeD)
  moreover have "h \<in> set out \<Longrightarrow> em_handle s t (hd_EvidenceRef h) = Some h \<and> due n h (em_event s t (hd_EvidenceRef h))" for h
    using em_stored[OF assms(1,2)] unfolding set_out by auto
  moreover have "int (length hs) \<le> limit \<and> (int (length hs) < limit \<longrightarrow> hs = out)"
  proof (cases "limit < int (length out)")
    case True
    then have "nat limit \<le> length out" by simp
    then have "int (length (take (nat limit) out)) = limit" using assms(3) by (simp add: min_def)
    with True show ?thesis by (simp add: hs_def)
  qed (simp add: hs_def)
  ultimately show ?thesis using run set_out by blast
qed

interpretation evidence: evidence_store memory_evidence em_binding em_handle em_event em_wf
proof (unfold_locales, goal_cases)
  case (4 s b) then show ?case using em_upsert_law by (simp add: memory_evidence_def)
next
  case (5 s t c b n) then show ?case using em_bump_law by (simp add: memory_evidence_def)
next
  case (7 s t c b n) then show ?case using em_mark_law by (simp add: memory_evidence_def)
next
  case (9 s h) then show ?case using em_create_law by (simp add: memory_evidence_def)
next
  case (11 s event) then show ?case using em_append_law by (simp add: memory_evidence_def)
next
  case (13 s t limit n) then show ?case using em_list_law by (simp add: memory_evidence_def)
next
  case (14 s t e h) then show ?case using em_stored by blast
next
  case (15 s t c b)
  then have "bindingKey t c = bindingKey (sb_TenantRef b) (sb_DataClass b)" "nul_free (sb_TenantRef b)" by (auto simp: em_wf_def em_binding_def)
  with 15 show ?case by auto
next
  case (16 s t)
  have "{e. em_handle s t e \<noteq> None} \<subseteq> hd_EvidenceRef ` set (map snd (em_handles s))"
    using em_stored[OF 16] by (force simp: em_handle_def dest: map_of_SomeD)
  then show ?case using finite_surj by blast
qed (simp_all add: memory_evidence_def em_lookups em_GetSourceBinding_def em_GetHandle_def em_ListHandleEvents_def em_BumpSourceVersion_def
    em_MarkSourceDeleted_def em_CreateHandle_def em_AppendHandleEvent_def)

lemma new_evidence_store: "em_wf NewEvidenceStore" "evidence.current NewEvidenceStore"
  by (simp_all add: em_wf_def evidence.current_def NewEvidenceStore_def em_lookups)

end
