(* ===== verification/EvidenceCleanup.thy ===== *)
theory EvidenceCleanup
  imports EvidenceMemory
begin

text \<open>
  Cleaning up: a sweep ends after as many batches as the tenant has contents left to expire and leaves none that is due,
  and a locate that fails takes back what it had staged.
\<close>

subsection \<open>Sweeps\<close>

lemma wp_or_cleanup: "wp (or_cleanup undo m) Q E w \<longleftrightarrow> wp m Q (\<lambda>e. wp undo (\<lambda>_. E e) E) w"
  by (auto simp: wp_def or_cleanup_def andthen_def split: prod.split sum.split)

lemma ends_at: "wp m Q E w \<Longrightarrow> (\<And>r w'. m w = (Inr r, w') \<Longrightarrow> Q r w' \<Longrightarrow> thesis) \<Longrightarrow> (\<And>e w'. m w = (Inl e, w') \<Longrightarrow> E e w' \<Longrightarrow> thesis) \<Longrightarrow> thesis"
  by (cases "m w"; cases "fst (m w)") (auto simp: wp_def)

lemma delete_object: "oo_Delete memory_objects key obs =
    (if is_object_key key then (Inr (), obs(key := None)) else (Inl (invalid ''object key is not an opaque store key''), obs))"
  by (simp add: memory_objects_def mo_Delete_def validObjectKey_def fail_if_def fail_def)

lemma object_key_error [simp]: "\<not> errors_is (invalid m) ErrObjectNotFound"
  by (simp add: invalid_def)

lemma dropped: "m(k := None) \<subseteq>\<^sub>m m"
  by (simp add: map_le_def)

context evidence_store
begin

definition unswept :: "'st \<Rightarrow> string \<Rightarrow> string set" where
  "unswept s t = {e. \<exists>h. handle_of s t e = Some h \<and> \<not> content_expired (events_of s t e)}"

text \<open>What sweeping does: contents expire, their objects go, and nothing else happens.\<close>

definition swept_to :: "string \<Rightarrow> ('st, ObjectStore) EvidenceWorld \<Rightarrow> ('st, ObjectStore) EvidenceWorld \<Rightarrow> bool" where
  "swept_to t w w' \<longleftrightarrow> wf (ew_store w') \<and> agrees (handle_of (ew_store w')) (handle_of (ew_store w))
     \<and> agrees (binding_of (ew_store w')) (binding_of (ew_store w)) \<and> extended (events_of (ew_store w)) (events_of (ew_store w'))
     \<and> ew_objects w' \<subseteq>\<^sub>m ew_objects w
     \<and> (\<forall>e h. handle_of (ew_store w) t e = Some h \<longrightarrow> e \<in> unswept (ew_store w) t - unswept (ew_store w') t
          \<longrightarrow> ew_objects w' (hd_ObjectKey h) = None)"

lemma content_expired_extended: "extended f g \<Longrightarrow> nul_free t \<Longrightarrow> content_expired (f t e) \<Longrightarrow> content_expired (g t e)"
  unfolding extended_def content_expired_def by (metis list_ex_append)

lemma swept_refl: "wf (ew_store w) \<Longrightarrow> swept_to t w w"
  by (simp add: swept_to_def extended_agrees)

lemma swept_handle: "nul_free t \<Longrightarrow> swept_to t w v \<Longrightarrow> handle_of (ew_store v) t e = handle_of (ew_store w) t e"
  by (auto simp: swept_to_def agrees_def)

lemma swept_trans:
  assumes "nul_free t" and "swept_to t w v" and "swept_to t v u"
  shows "swept_to t w u"
proof -
  have "ew_objects u (hd_ObjectKey h) = None"
    if h: "handle_of (ew_store w) t e = Some h" and e: "e \<in> unswept (ew_store w) t - unswept (ew_store u) t" for e h
  proof (cases "e \<in> unswept (ew_store v) t")
    case True
    moreover have "handle_of (ew_store v) t e = Some h" using h swept_handle[OF assms(1,2)] by simp
    ultimately show ?thesis using assms(3) e by (simp add: swept_to_def)
  next
    case False
    then have "ew_objects v (hd_ObjectKey h) = None" using assms h e by (simp add: swept_to_def)
    then show ?thesis using assms(3) by (metis swept_to_def map_le_def domIff)
  qed
  moreover have "agrees f h" if "agrees f g" "agrees g h" for f g h :: "string \<Rightarrow> string \<Rightarrow> 'z" using that by (simp add: agrees_def)
  ultimately show ?thesis
    using assms(2,3) by (auto simp: swept_to_def intro: extended_trans map_le_trans) (simp_all add: agrees_def)
qed

lemma unswept_sub: "nul_free t \<Longrightarrow> swept_to t w w' \<Longrightarrow> unswept (ew_store w') t \<subseteq> unswept (ew_store w) t"
  unfolding swept_to_def unswept_def using content_expired_extended by (fastforce simp: agreesD)

lemma sweep_one_run:
  assumes "po_store po = ops" and "po_objects po = memory_objects" and "wf (ew_store w)" and "nul_free t"
    and "handle_of (ew_store w) t (hd_EvidenceRef h) = Some h"
  shows "wp (sweep_one sv po t h)
     (\<lambda>_ w'. swept_to t w w' \<and> ew_ticks w' = ew_ticks w \<and> content_expired (events_of (ew_store w') t (hd_EvidenceRef h)))
     (\<lambda>_ w'. swept_to t w w') w"
proof -
  let ?event = "handle_event t (es_newID sv (ew_ids w) ''evt_'') (hd_EvidenceRef h) HandleEventContentExpired ''raw-content retention expired''"
  let ?w = "w\<lparr>ew_objects := (ew_objects w)(hd_ObjectKey h := None), ew_ids := Suc (ew_ids w)\<rparr>"
  obtain s event where marked: "eo_AppendHandleEvent ops ?event (ew_store w) = (Inr event, s)" "wf s" "ev_Kind event = HandleEventContentExpired"
      "updated_at t (hd_EvidenceRef h) (events_of (ew_store w) t (hd_EvidenceRef h) @ [event]) (events_of (ew_store w)) (events_of s)"
      "agrees (binding_of s) (binding_of (ew_store w))" "agrees (handle_of s) (handle_of (ew_store w))"
    using append[of "ew_store w" ?event] assms(3-5) by (auto simp: handle_event_def)
  have "events_of s t e = events_of (ew_store w) t e" if "e \<noteq> hd_EvidenceRef h" for e
    using updated_atD[OF marked(4) assms(4), of e] that by simp
  then have "e = hd_EvidenceRef h" if "e \<in> unswept (ew_store w) t - unswept s t" for e
    using that agreesD[OF marked(6) assms(4)] by (cases "e = hd_EvidenceRef h") (auto simp: unswept_def)
  then have "swept_to t w (?w\<lparr>ew_store := s\<rparr>)"
    using marked assms(5) extended_updated[OF marked(4)] dropped by (auto simp: swept_to_def)
  moreover have "content_expired (events_of s t (hd_EvidenceRef h))"
    using updated_atD[OF marked(4) assms(4)] marked(3) by (simp add: content_expired_def)
  moreover have "swept_to t w ?w" "swept_to t w (w\<lparr>ew_objects := (ew_objects w)(hd_ObjectKey h := None)\<rparr>)"
    using assms(3) dropped by (simp_all add: swept_to_def extended_agrees)
  ultimately show ?thesis
    unfolding sweep_one_def assms(1,2)
    using swept_refl[OF assms(3)] by (simp add: wp_simps wp_evidence_store wp_on_objects delete_object marked(1))
qed

lemma sweep_batch_run:
  assumes "po_store po = ops" and "po_objects po = memory_objects" and "nul_free t"
    and "wf (ew_store w)" and "\<forall>h \<in> set hs. handle_of (ew_store w) t (hd_EvidenceRef h) = Some h" and "sweep_batch sv po t hs n w = ((err, m), w')"
  shows "swept_to t w w' \<and> (err = None \<longrightarrow> ew_ticks w' = ew_ticks w \<and> (\<forall>h \<in> set hs. content_expired (events_of (ew_store w') t (hd_EvidenceRef h))))"
  using assms(4-6)
proof (induction hs arbitrary: n w)
  case (Cons h hs)
  have one: "wp (sweep_one sv po t h)
     (\<lambda>_ v. swept_to t w v \<and> ew_ticks v = ew_ticks w \<and> content_expired (events_of (ew_store v) t (hd_EvidenceRef h)))
     (\<lambda>_ v. swept_to t w v) w"
    using Cons.prems(2) by (intro sweep_one_run[OF assms(1,2) Cons.prems(1) assms(3)]) simp
  show ?case
  proof (rule ends_at[OF one])
    fix u v
    assume v: "sweep_one sv po t h w = (Inr u, v)"
      "swept_to t w v \<and> ew_ticks v = ew_ticks w \<and> content_expired (events_of (ew_store v) t (hd_EvidenceRef h))"
    have "handle_of (ew_store v) t e = handle_of (ew_store w) t e" for e using v(2) swept_handle[OF assms(3)] by blast
    then have rest: "swept_to t v w' \<and> (err = None \<longrightarrow> ew_ticks w' = ew_ticks v \<and> (\<forall>h \<in> set hs. content_expired (events_of (ew_store w') t (hd_EvidenceRef h))))"
      using Cons v by (intro Cons.IH) (auto simp: swept_to_def)
    then have "extended (events_of (ew_store v)) (events_of (ew_store w'))" by (simp add: swept_to_def)
    from content_expired_extended[OF this assms(3)] have "content_expired (events_of (ew_store w') t (hd_EvidenceRef h))" using v(2) by blast
    moreover have "swept_to t w w'" using swept_trans[OF assms(3)] v(2) rest by blast
    ultimately show ?thesis using v(2) rest by simp
  next
    fix e v
    assume "sweep_one sv po t h w = (Inl e, v)" "swept_to t w v"
    with Cons.prems(3) show ?thesis by auto
  qed
qed (auto intro: swept_refl)

text \<open>Enough fuel for one batch more than there are unexpired contents.\<close>

lemma sweep_loop_run:
  assumes "po_store po = ops" and "po_objects po = memory_objects" and t: "nul_free t"
    and "wf (ew_store w)" and "card (unswept (ew_store w) t) < fuel"
  shows "\<exists>err n w'. sweep_loop fuel sv po t m w = Some ((err, n), w') \<and> swept_to t w w'
     \<and> (err = None \<longrightarrow> (\<forall>e h. handle_of (ew_store w') t e = Some h \<longrightarrow> \<not> due (es_now sv (ew_ticks w' - 1)) h (events_of (ew_store w') t e)))"
  using assms(4,5)
proof (induction fuel arbitrary: m w)
  case (Suc fuel)
  let ?now = "es_now sv (ew_ticks w)" and ?w = "w\<lparr>ew_ticks := Suc (ew_ticks w)\<rparr>"
  obtain hs where hs: "eo_ListRetentionExpired ops t ?now retentionSweepBatch (ew_store w) = (Inr hs, ew_store w)"
      "distinct (map hd_EvidenceRef hs)" "int (length hs) \<le> retentionSweepBatch"
      "\<forall>h \<in> set hs. handle_of (ew_store w) t (hd_EvidenceRef h) = Some h \<and> due ?now h (events_of (ew_store w) t (hd_EvidenceRef h))"
      "int (length hs) < retentionSweepBatch \<longrightarrow> (\<forall>e h. handle_of (ew_store w) t e = Some h \<longrightarrow> due ?now h (events_of (ew_store w) t e) \<longrightarrow> h \<in> set hs)"
    using list_expired[OF Suc.prems(1) t, of retentionSweepBatch ?now] by (auto simp: retentionSweepBatch_def)
  have listed: "andthen (clock sv) (\<lambda>now. on_error outage (on_store (eo_ListRetentionExpired (po_store po) t now retentionSweepBatch))) w = (Inr hs, ?w)"
    using hs(1) by (simp add: clock_def andthen_def on_error_def on_store_def assms(1))
  obtain err n v where b: "sweep_batch sv po t hs m ?w = ((err, n), v)" by (metis prod.exhaust)
  have run: "swept_to t w v" "err = None \<Longrightarrow> ew_ticks v = Suc (ew_ticks w)"
      "err = None \<Longrightarrow> h \<in> set hs \<Longrightarrow> content_expired (events_of (ew_store v) t (hd_EvidenceRef h))" for h
    using sweep_batch_run[OF assms(1,2) t _ _ b] Suc.prems(1) hs(4) by (auto simp: swept_to_def)
  show ?case
  proof (cases "err = None \<and> \<not> int (length hs) < retentionSweepBatch")
    case True
    have "hd_EvidenceRef ` set hs \<subseteq> unswept (ew_store w) t - unswept (ew_store v) t"
      using hs(4) run(3) True by (auto simp: unswept_def due_def)
    moreover have "hs \<noteq> []" using True by (auto simp: retentionSweepBatch_def)
    ultimately have "unswept (ew_store v) t \<subset> unswept (ew_store w) t" using unswept_sub[OF t run(1)] by (cases hs) auto
    moreover have "finite (unswept (ew_store w) t)"
      by (rule finite_subset[OF _ finitely_many[OF Suc.prems(1) t]]) (auto simp: unswept_def)
    ultimately have "card (unswept (ew_store v) t) < card (unswept (ew_store w) t)" by (rule psubset_card_mono[rotated])
    then have fuel: "card (unswept (ew_store v) t) < fuel" using Suc.prems(2) by simp
    have "wf (ew_store v)" using run(1) by (simp add: swept_to_def)
    then obtain err' n' w' where s: "sweep_loop fuel sv po t n v = Some ((err', n'), w')" "swept_to t v w'"
      "err' = None \<longrightarrow> (\<forall>e h. handle_of (ew_store w') t e = Some h \<longrightarrow> \<not> due (es_now sv (ew_ticks w' - 1)) h (events_of (ew_store w') t e))"
      using Suc.IH[OF _ fuel, of n] by blast
    have "sweep_loop (Suc fuel) sv po t m w = Some ((err', n'), w')" using True s(1) by (simp add: listed b)
    then show ?thesis using swept_trans[OF t run(1) s(2)] s(3) by (intro exI[of _ err'] exI[of _ n'] exI[of _ w'] conjI)
  next
    case False
    have "\<not> due ?now h (events_of (ew_store v) t e)"
      if err: "err = None" and h: "handle_of (ew_store v) t e = Some h" for e h
    proof
      assume d: "due ?now h (events_of (ew_store v) t e)"
      have h': "handle_of (ew_store w) t e = Some h" using h swept_handle[OF t run(1)] by simp
      have "due ?now h (events_of (ew_store w) t e)"
        using d run(1) content_expired_extended[OF _ t] by (auto simp: due_def swept_to_def)
      then have "h \<in> set hs" using hs(5) False err h' by blast
      from run(3)[OF err this] show False using d stored[OF Suc.prems(1) t h'] by (simp add: due_def)
    qed
    moreover have "sweep_loop (Suc fuel) sv po t m w = Some ((err, n), v)" using False by (cases err) (simp_all add: listed b)
    moreover have "err = None \<Longrightarrow> ew_ticks v - 1 = ew_ticks w" using run(2) by simp
    ultimately show ?thesis using run(1) by (intro exI[of _ err] exI[of _ n] exI[of _ v]) simp
  qed
qed simp

end

subsection \<open>Failed locates\<close>

text \<open>Keys of the in-memory stores are compared as the store does, so no tenant name is excluded here.\<close>

definition revoked_at :: "EvidenceStore \<Rightarrow> string \<Rightarrow> bool" where
  "revoked_at s key \<longleftrightarrow> (\<exists>event \<in> set (em_events s key). ev_Kind event = HandleEventRevoked)"

definition traceless :: "(EvidenceStore, ObjectStore) EvidenceWorld \<Rightarrow> (EvidenceStore, ObjectStore) EvidenceWorld \<Rightarrow> bool" where
  "traceless w w' \<longleftrightarrow> ew_objects w' \<subseteq>\<^sub>m ew_objects w \<and> em_bindings (ew_store w') = em_bindings (ew_store w)
     \<and> (\<forall>key h. map_of (em_handles (ew_store w')) key = Some h \<longrightarrow>
          map_of (em_handles (ew_store w)) key = Some h \<or> revoked_at (ew_store w') key)"

text \<open>A locate under way: what it has put and created so far.\<close>

definition staging ::
  "string \<Rightarrow> (EvidenceStore, ObjectStore) EvidenceWorld \<Rightarrow> string list \<Rightarrow> string list \<Rightarrow> (EvidenceStore, ObjectStore) EvidenceWorld \<Rightarrow> bool" where
  "staging t w keys refs w' \<longleftrightarrow> em_bindings (ew_store w') = em_bindings (ew_store w)
     \<and> (\<forall>k. k \<notin> set keys \<longrightarrow> ew_objects w' k = ew_objects w k) \<and> (\<forall>k \<in> set keys. is_object_key k)
     \<and> (\<forall>key h. map_of (em_handles (ew_store w')) key = Some h \<longrightarrow>
          map_of (em_handles (ew_store w)) key = Some h \<or> key \<in> handleKey t ` set refs)
     \<and> (\<forall>ref \<in> set refs. map_of (em_handles (ew_store w')) (handleKey t ref) \<noteq> None)"

lemma staging_refl: "staging t w [] [] w'" if "ew_store w' = ew_store w" "ew_objects w' = ew_objects w"
  using that by (simp add: staging_def)

lemma delete_staged_run:
  assumes "po_objects po = memory_objects"
  shows "\<forall>k \<in> set keys. is_object_key k \<Longrightarrow> wp (delete_staged po keys)
     (\<lambda>_ w'. ew_store w' = ew_store w \<and> ew_objects w' = (\<lambda>k. if k \<in> set keys then None else ew_objects w k)) (\<lambda>_ _. False) w"
proof (induction keys arbitrary: w)
  case (Cons key keys)
  have "wp (delete_staged po keys) (\<lambda>_ w'. ew_store w' = ew_store w \<and> ew_objects w' = (\<lambda>k. if k \<in> set (key # keys) then None else ew_objects w k))
      (\<lambda>_ _. False) (w\<lparr>ew_objects := (ew_objects w)(key := None)\<rparr>)"
    by (rule wp_mono[OF Cons.IH]) (use Cons.prems in \<open>auto simp: fun_eq_iff\<close>)
  then show ?case using Cons.prems assms by (simp add: wp_simps wp_on_objects delete_object)
qed (simp add: wp_simps)

lemma revoke_created_run:
  assumes "po_store po = memory_evidence"
  shows "\<forall>ref \<in> set refs. map_of (em_handles (ew_store w)) (handleKey t ref) \<noteq> None \<Longrightarrow> wp (revoke_created sv po t refs)
     (\<lambda>_ w'. ew_objects w' = ew_objects w \<and> em_bindings (ew_store w') = em_bindings (ew_store w) \<and> em_handles (ew_store w') = em_handles (ew_store w)
        \<and> (\<forall>key. revoked_at (ew_store w) key \<or> key \<in> handleKey t ` set refs \<longrightarrow> revoked_at (ew_store w') key)) (\<lambda>_ _. False) w"
proof (induction refs arbitrary: w)
  case (Cons ref refs)
  let ?event = "handle_event t (es_newID sv (ew_ids w) ''evt_'') ref HandleEventRevoked ''locate aborted''"
  let ?s = "ew_store w"
  let ?n = "em_eventN ?s + 1"
  let ?s' = "?s\<lparr>em_eventN := ?n, em_events := (em_events ?s)(handleKey t ref := em_events ?s (handleKey t ref) @ [?event\<lparr>ev_Seq := ?n\<rparr>])\<rparr>"
  let ?w = "w\<lparr>ew_ids := Suc (ew_ids w), ew_store := ?s'\<rparr>"
  have run: "eo_AppendHandleEvent memory_evidence ?event ?s = (Inr (?event\<lparr>ev_Seq := ?n\<rparr>), ?s')"
    using Cons.prems by (simp add: memory_evidence_def em_AppendHandleEvent_def handle_event_def kind_valid_def Let_def)
  have r: "revoked_at ?s' key \<longleftrightarrow> revoked_at ?s key \<or> key = handleKey t ref" for key
    by (auto simp: revoked_at_def handle_event_def)
  have "wp (revoke_created sv po t refs)
     (\<lambda>_ w'. ew_objects w' = ew_objects ?w \<and> em_bindings (ew_store w') = em_bindings (ew_store ?w) \<and> em_handles (ew_store w') = em_handles (ew_store ?w)
        \<and> (\<forall>key. revoked_at (ew_store ?w) key \<or> key \<in> handleKey t ` set refs \<longrightarrow> revoked_at (ew_store w') key)) (\<lambda>_ _. False) ?w"
    by (rule Cons.IH) (use Cons.prems in simp)
  then have "wp (revoke_created sv po t refs)
     (\<lambda>_ w'. ew_objects w' = ew_objects w \<and> em_bindings (ew_store w') = em_bindings ?s \<and> em_handles (ew_store w') = em_handles ?s
        \<and> (\<forall>key. revoked_at ?s key \<or> key \<in> handleKey t ` set (ref # refs) \<longrightarrow> revoked_at (ew_store w') key)) (\<lambda>_ _. False) ?w"
    by (rule wp_mono) (simp_all add: r)
  then show ?case by (simp add: wp_simps wp_evidence_store assms run)
qed (simp add: wp_simps)

lemma cleanup_run:
  assumes "po_store po = memory_evidence" and "po_objects po = memory_objects" and "staging t w0 keys refs w"
  shows "wp (cleanup sv po t keys refs) (\<lambda>_. traceless w0) (\<lambda>_ _. False) w"
  unfolding cleanup_def wp_andthen
proof (rule wp_mono[OF delete_staged_run[OF assms(2)]])
  show "\<forall>k \<in> set keys. is_object_key k" using assms(3) by (simp add: staging_def)
  fix v :: "(EvidenceStore, ObjectStore) EvidenceWorld"
  assume v: "ew_store v = ew_store w \<and> ew_objects v = (\<lambda>k. if k \<in> set keys then None else ew_objects w k)"
  show "wp (revoke_created sv po t refs) (\<lambda>_. traceless w0) (\<lambda>_ _. False) v"
  proof (rule wp_mono[OF revoke_created_run[OF assms(1)]])
    show "\<forall>ref \<in> set refs. map_of (em_handles (ew_store v)) (handleKey t ref) \<noteq> None" using assms(3) v by (simp add: staging_def)
    fix u :: unit and w' :: "(EvidenceStore, ObjectStore) EvidenceWorld"
    assume w': "ew_objects w' = ew_objects v \<and> em_bindings (ew_store w') = em_bindings (ew_store v) \<and> em_handles (ew_store w') = em_handles (ew_store v)
        \<and> (\<forall>key. revoked_at (ew_store v) key \<or> key \<in> handleKey t ` set refs \<longrightarrow> revoked_at (ew_store w') key)"
    show "traceless w0 w'" unfolding traceless_def
    proof (intro conjI)
      show "ew_objects w' \<subseteq>\<^sub>m ew_objects w0" using w' v assms(3) by (auto simp: map_le_def staging_def split: if_splits)
      show "em_bindings (ew_store w') = em_bindings (ew_store w0)" using w' v assms(3) by (simp add: staging_def)
      show "\<forall>key h. map_of (em_handles (ew_store w')) key = Some h \<longrightarrow>
          map_of (em_handles (ew_store w0)) key = Some h \<or> revoked_at (ew_store w') key"
        using w' v assms(3) unfolding staging_def by metis
    qed
  qed simp
qed simp

lemma wp_seq: "wp m P E w \<Longrightarrow> (\<And>a v. P a v \<Longrightarrow> wp (k a) Q E v) \<Longrightarrow> wp (andthen m k) Q E w"
  unfolding wp_andthen by (rule wp_mono)

lemma wp_or_cleanupI: "wp m Q (\<lambda>_. S) w \<Longrightarrow> (\<And>e v. S v \<Longrightarrow> wp undo (\<lambda>_. E e) E v) \<Longrightarrow> wp (or_cleanup undo m) Q E w"
  unfolding wp_or_cleanup by (rule wp_mono)

text \<open>One need: either it is staged, or everything is undone.\<close>

lemma seal_run:
  assumes "\<And>c. Q c (w\<lparr>ew_nonces := Suc (ew_nonces w)\<rparr>)" and "\<And>e. E e w" and "\<And>e. E e (w\<lparr>ew_nonces := Suc (ew_nonces w)\<rparr>)"
  shows "wp (seal sv key plaintext data) Q E w"
  using assms by (auto simp: wp_def seal_def split: option.split)

lemma put_object: "oo_Put memory_objects key c obs =
    (if is_object_key key then (Inr (), obs(key \<mapsto> c)) else (Inl (invalid ''object key is not an opaque store key''), obs))"
  by (simp add: memory_objects_def mo_Put_def validObjectKey_def fail_if_def fail_def)

lemma put_run:
  assumes "po_objects po = memory_objects" and "staging t w0 keys refs w"
  shows "wp (andthen (require b (Sentinel ErrUnavailable)) (\<lambda>_.
        andthen (on_error outage (seal sv key plaintext data)) (\<lambda>ciphertext.
        on_error outage (on_objects (oo_Put (po_objects po) k ciphertext)))))
     (\<lambda>_. staging t w0 (keys @ [k]) refs) (\<lambda>_. staging t w0 keys refs) w"
  unfolding wp_andthen wp_require assms(1)
proof (intro conjI impI)
  show "wp (on_error outage (seal sv key plaintext data))
     (\<lambda>c. wp (on_error outage (on_objects (oo_Put memory_objects k c))) (\<lambda>_. staging t w0 (keys @ [k]) refs) (\<lambda>_. staging t w0 keys refs))
     (\<lambda>_. staging t w0 keys refs) w"
    unfolding wp_on_error
    by (rule seal_run) (use assms(2) in \<open>auto simp: wp_simps wp_on_objects put_object staging_def\<close>)
qed (rule assms(2))

lemma create_run:
  assumes "po_store po = memory_evidence" and "staging t w0 keys refs w" and "\<And>auditRef. hd_TenantRef (h auditRef) = t \<and> hd_EvidenceRef (h auditRef) = e"
  shows "wp (andthen (require_lineage po event message) (\<lambda>auditRef. on_error outage (on_store (eo_CreateHandle (po_store po) (h auditRef)))))
     (\<lambda>_. staging t w0 keys (refs @ [e])) (\<lambda>_. staging t w0 keys refs) w"
proof -
  have c: "staging t w0 keys refs v \<Longrightarrow> wp (on_store (em_CreateHandle (h auditRef))) (\<lambda>_. staging t w0 keys (refs @ [e])) (\<lambda>_. staging t w0 keys refs) v"
    for v auditRef
    using assms(3)[of auditRef]
    by (auto simp: wp_evidence_store em_CreateHandle_def Let_def staging_def map_add_def split: option.splits)
  show ?thesis
    using assms(2) unfolding require_lineage_def assms(1)
    by (simp add: wp_simps memory_evidence_def Let_def split: sum.split) (auto intro!: c simp: staging_def)
qed

lemma persist_need_run:
  assumes "po_store po = memory_evidence" and "po_objects po = memory_objects" and "staging (pc_TenantRef prin) w0 keys refs w"
  shows "wp (persist_need sv po prin authz req bcr now expiresAt key keys refs one)
     (\<lambda>r. staging (pc_TenantRef prin) w0 (keys @ [fst r]) (refs @ [eh_EvidenceRef (snd r)])) (\<lambda>_. traceless w0) w"
proof -
  let ?t = "pc_TenantRef prin"
  have ids: "wp (newID sv p) (\<lambda>_. staging ?t w0 keys refs) (\<lambda>_. traceless w0) v" if "staging ?t w0 keys refs v" for p v
    using that by (simp add: wp_evidence_newID staging_def)
  have undo: "wp (cleanup sv po ?t ks refs) (\<lambda>_. traceless w0) (\<lambda>_. traceless w0) v" if "staging ?t w0 ks refs v" for ks v
    by (rule wp_mono[OF cleanup_run[OF assms(1,2) that]]) simp_all
  show ?thesis
    unfolding persist_need_def Let_def
    by (rule wp_seq[OF ids[OF assms(3)]], rule wp_seq, erule ids, rule wp_seq, rule wp_or_cleanupI, erule put_run[OF assms(2)], erule undo,
        rule wp_seq, rule wp_or_cleanupI, erule create_run[OF assms(1)])
      (simp_all add: located_handle_def Let_def undo wp_ret public_handle_def)
qed

lemma persist_needs_run:
  assumes "po_store po = memory_evidence" and "po_objects po = memory_objects"
  shows "staging (pc_TenantRef prin) w0 keys refs w \<Longrightarrow>
     wp (persist_needs sv po prin authz req bcr now expiresAt key keys refs staged) (\<lambda>_ _. True) (\<lambda>_. traceless w0) w"
proof (induction staged arbitrary: keys refs w)
  case (Cons one staged)
  show ?case
    unfolding persist_needs.simps wp_andthen wp_case_prod wp_ret
    by (rule wp_mono[OF persist_need_run[OF assms Cons.prems]]) (auto intro: Cons.IH)
qed (simp add: wp_simps)

lemma resolveNeed_quiet:
  assumes "po_store po = memory_evidence"
  shows "wp (resolveNeed sv po prin authz req need) (\<lambda>_ w'. ew_store w' = ew_store w \<and> ew_objects w' = ew_objects w)
     (\<lambda>_ w'. ew_store w' = ew_store w \<and> ew_objects w' = ew_objects w) w"
  unfolding resolveNeed_def denyLocate_def assms
  by (simp add: wp_simps wp_evidence_store evidence.get_binding Let_def split: option.split sum.split)

lemma resolve_needs_quiet:
  assumes "po_store po = memory_evidence"
  shows "wp (resolve_needs sv po prin authz req needs) (\<lambda>_ w'. ew_store w' = ew_store w \<and> ew_objects w' = ew_objects w)
     (\<lambda>_ w'. ew_store w' = ew_store w \<and> ew_objects w' = ew_objects w) w"
proof (induction needs arbitrary: w)
  case (Cons need needs)
  show ?case
    unfolding resolve_needs.simps wp_andthen wp_ret
    by (rule wp_mono[OF resolveNeed_quiet[OF assms]]) (rule wp_mono[OF Cons.IH]; force)+
qed (simp add: wp_ret)

text \<open>Computations that leave the stores alone, and those that leave no trace when they fail.\<close>

abbreviation same :: "('st, 'ob) EvidenceWorld \<Rightarrow> ('st, 'ob) EvidenceWorld \<Rightarrow> bool" where
  "same w w' \<equiv> ew_store w' = ew_store w \<and> ew_objects w' = ew_objects w"

definition quiet :: "('st, 'ob, 'a) plane \<Rightarrow> bool" where
  "quiet m \<longleftrightarrow> (\<forall>w. wp m (\<lambda>_. same w) (\<lambda>_. same w) w)"

definition undoes :: "(EvidenceStore, ObjectStore, 'a) plane \<Rightarrow> bool" where
  "undoes m \<longleftrightarrow> (\<forall>w w'. same w w' \<longrightarrow> wp m (\<lambda>_ _. True) (\<lambda>_. traceless w) w')"

lemma quiet_basic: "quiet (ret a)" "quiet (fail e)" "quiet (require b e')" "quiet (clock sv)" "quiet (newID sv p)" "quiet (ask f)" "quiet (validated r)"
  by (simp_all add: quiet_def wp_simps validated_def split: sum.split option.split)

lemma quiet_cases: "(b \<Longrightarrow> quiet m) \<Longrightarrow> (\<not> b \<Longrightarrow> quiet m') \<Longrightarrow> quiet (if b then m else m')"
    "(x = None \<Longrightarrow> quiet n) \<Longrightarrow> (\<And>a. x = Some a \<Longrightarrow> quiet (k a)) \<Longrightarrow> quiet (case x of None \<Rightarrow> n | Some a \<Rightarrow> k a)"
    "quiet m \<Longrightarrow> quiet (on_error f m)"
  by (auto simp: quiet_def wp_on_error split: option.split)

lemma undoes_seq:
  assumes "quiet m" and "\<And>a. undoes (k a)"
  shows "undoes (andthen m k)"
  unfolding undoes_def
proof (intro allI impI)
  fix w w' :: "(EvidenceStore, ObjectStore) EvidenceWorld"
  assume w': "same w w'"
  have "wp m (\<lambda>_. same w') (\<lambda>_. same w') w'" using assms(1) by (simp add: quiet_def)
  then have "wp m (\<lambda>_. same w) (\<lambda>_. traceless w) w'" by (rule wp_mono) (auto simp: w' traceless_def)
  then show "wp (andthen m k) (\<lambda>_ _. True) (\<lambda>_. traceless w) w'"
    by (rule wp_seq) (use assms(2) in \<open>simp add: undoes_def\<close>)
qed

lemma failed_locate:
  assumes "es_ports sv = Some po" and "po_store po = memory_evidence" and "po_objects po = memory_objects"
  shows "undoes (Locate sv prin authz req)"
proof -
  have resolved: "quiet (resolve_needs sv po prin authz req needs)" for needs
    unfolding quiet_def using resolve_needs_quiet[OF assms(2)] by blast
  have persisted: "undoes (andthen (persist_needs sv po prin authz req bcr now expiresAt key [] [] staged) (\<lambda>handles. ret (f handles)))" for bcr now expiresAt key staged f
    unfolding undoes_def wp_andthen wp_ret using persist_needs_run[OF assms(2,3)] staging_refl by blast
  show ?thesis
    unfolding Locate_def with_ports_def assms(1) Let_def option.case
    by (intro undoes_seq quiet_basic quiet_cases resolved persisted)
qed

end
