(* ===== verification/EvidenceReads.thy ===== *)
theory EvidenceReads
  imports EvidenceCleanup
begin

text \<open>
  What the plane's handlers did when they returned: the checks an allowed read passed, the page it serves and the
  receipt it mints; what a locate leaves in the stores, whether it returned or failed; what a sweep removed.
\<close>

subsection \<open>What an allowed read rests on\<close>

lemma first_reason_None: "first_reason rs = None \<longleftrightarrow> (\<forall>(b, m) \<in> set rs. \<not> b)"
  by (induction rs rule: first_reason.induct) (auto split: if_splits)

lemma event_reason_None: "event_reason events = None \<longleftrightarrow> (\<forall>event \<in> set events. \<not> kind_valid (ev_Kind event))"
  by (induction events) (auto simp: kind_valid_def split: HandleEventKind.splits)

definition entitled ::
  "('st, 'ob, 'v) EvidencePorts \<Rightarrow> PrincipalContext \<Rightarrow> Authorization \<Rightarrow> EvidenceReadRequest \<Rightarrow> time \<Rightarrow> Handle \<Rightarrow> HandleEvent list
     \<Rightarrow> SourceBinding \<Rightarrow> bool" where
  "entitled po prin authz req now h events b \<longleftrightarrow>
     hd_PrincipalRef h = pc_PrincipalRef prin \<and> hd_AgentClientRef h = pc_AgentClientRef prin
     \<and> hd_AgentReleaseRef h = pc_AgentReleaseRef prin \<and> hd_BusinessContextRef h = er_BusinessContextRef req
     \<and> hd_Purpose h = er_Purpose req \<and> now < er_ExpiresAt req \<and> now < hd_ExpiresAt h
     \<and> (hd_RetentionExpiresAt h = 0 \<or> now < hd_RetentionExpiresAt h)
     \<and> (\<forall>event \<in> set events. ev_Kind event \<noteq> HandleEventRevoked \<and> ev_Kind event \<noteq> HandleEventContentExpired)
     \<and> \<not> sb_Deleted b \<and> sb_ID b = hd_BindingID h \<and> sb_SourceVersion b = hd_SourceVersion h
     \<and> (connectorBacked b \<longrightarrow> az_ConnectorCapabilityAllowed authz) \<and> sb_CachedReadAllowed b \<and> hd_CachedReadAllowed h
     \<and> (\<exists>n d. po_decider po n (capability_request prin authz b) = Inr d \<and> pd_Decision d = DecisionAllow)"

lemma entitledI:
  assumes "handle_reason prin req now h = None" and "event_reason events = None" and "binding_reason authz h b = None"
    and "now < er_ExpiresAt req" and "po_decider po n (capability_request prin authz b) = Inr d" and "pd_Decision d = DecisionAllow"
  shows "entitled po prin authz req now h events b"
  using assms unfolding entitled_def event_reason_None
  by (auto simp: handle_reason_def binding_reason_def is_zero_time_def kind_valid_def split: if_splits)

lemma wp_ok: "(\<And>a w'. m w = (Inr a, w') \<Longrightarrow> Q a w') \<Longrightarrow> wp m Q (\<lambda>_ _. True) w"
  by (cases "m w"; cases "fst (m w)") (auto simp: wp_def)

text \<open>The lineage entry an allowed read leaves.\<close>

definition read_lineage :: "PrincipalContext \<Rightarrow> Handle \<Rightarrow> EvidenceAuditEvent \<Rightarrow> bool" where
  "read_lineage prin h event \<longleftrightarrow> xe_Action event = auditActionRead \<and> xe_TenantRef event = pc_TenantRef prin
     \<and> xe_PrincipalRef event = pc_PrincipalRef prin \<and> xe_ResourceID event = hd_EvidenceRef h
     \<and> (''decision'', DText ''allow'') \<in> set (xe_Details event) \<and> (''content_hash'', DText (hd_ContentHash h)) \<in> set (xe_Details event)"

text \<open>What a served read consists of.\<close>

lemma mint_lineage: "mintObservationReceipt sv sign ref d h b auditRef w = (Inr receipt, w') \<Longrightarrow> ew_lineage w' = ew_lineage w"
  by (auto simp: mintObservationReceipt_def Let_def ask_def elim!: andthenE split: option.splits)

lemma serve_readD:
  assumes "serve_read sv po prin authz req h b declared w = (Inr rr, w')"
  obtains records window cref w1 w2 w3 observationRef auditRef event where "staged_records sv po prin h w = (Inr records, w1)"
    and "take_page sv po req h records w1 = (Inr (window, cref), w2)"
    and "(event, Inr auditRef) \<in> set (ew_lineage w')" and "auditRef \<noteq> []" and "read_lineage prin h event"
    and "rr_Decision rr = ''allow''" and "rr_Data rr = Some (projectRecords window (er_Fields req))" and "rr_ContinuationRef rr = cref"
    and "rr_SourceVersion rr = hd_SourceVersion h" and "rr_AsOf rr = hd_StagedAt h"
    and "case declared of None \<Rightarrow> rr_ObservationReceipt rr = None
         | Some (d, sign) \<Rightarrow> \<exists>receipt. rr_ObservationReceipt rr = Some receipt
             \<and> mintObservationReceipt sv sign observationRef d h b auditRef w3 = (Inr receipt, w')"
proof -
  from assms obtain records window cref w1 w2 w3 w4 obs auditRef receipt where r: "staged_records sv po prin h w = (Inr records, w1)"
      "take_page sv po req h records w1 = (Inr (window, cref), w2)"
      "require_lineage po (read_event prin req (hd_EvidenceRef h)
          (read_details authz h (int (length (projectRecords window (er_Fields req)))) cref
           @ (case declared of None \<Rightarrow> [] | Some (d, _) \<Rightarrow> observation_details d obs (sb_AuthorityTier b)))) ''read lineage append failed'' w3 = (Inr auditRef, w4)"
      "(case declared of None \<Rightarrow> ret None
        | Some (d, sign) \<Rightarrow> andthen (mintObservationReceipt sv sign obs d h b auditRef) (\<lambda>receipt. ret (Some receipt))) w4 = (Inr receipt, w')"
      "rr = \<lparr>rr_Decision = ''allow'', rr_Data = Some (projectRecords window (er_Fields req)), rr_SourceVersion = hd_SourceVersion h,
         rr_AsOf = hd_StagedAt h, rr_ServedFromCache = True, rr_ContinuationRef = cref, rr_ObservationReceipt = receipt\<rparr>"
    unfolding serve_read_def Let_def by (auto elim!: andthenE simp: ret_def)
  have "ew_lineage w' = ew_lineage w4" using r(4) by (auto elim!: andthenE split: option.splits dest: mint_lineage)
  then have e: "(read_event prin req (hd_EvidenceRef h)
          (read_details authz h (int (length (projectRecords window (er_Fields req)))) cref
           @ (case declared of None \<Rightarrow> [] | Some (d, _) \<Rightarrow> observation_details d obs (sb_AuthorityTier b))), Inr auditRef) \<in> set (ew_lineage w')"
      "auditRef \<noteq> []"
    using r(3) by (auto simp: require_lineage_def append_lineage_def Let_def elim!: andthenE)
  show ?thesis
  proof (rule that[OF r(1,2) e])
    show "case declared of None \<Rightarrow> rr_ObservationReceipt rr = None
         | Some (d, sign) \<Rightarrow> \<exists>receipt. rr_ObservationReceipt rr = Some receipt \<and> mintObservationReceipt sv sign obs d h b auditRef w4 = (Inr receipt, w')"
      using r(4,5) by (auto elim!: andthenE split: option.splits)
  qed (simp_all add: r(5) read_lineage_def read_event_def read_details_def)
qed

text \<open>The action plane, when wired, vouches for the declared action.\<close>

definition action_bound :: "('st, 'ob, 'v) EvidenceService \<Rightarrow> string \<Rightarrow> VerificationBinding \<Rightarrow> bool" where
  "action_bound sv t d \<longleftrightarrow> (\<forall>verify. es_actionBinding sv = Some verify \<longrightarrow> (\<exists>n. verify n t d = None))"

lemma action_boundI: "es_actionBinding sv = None \<Longrightarrow> action_bound sv t d" "es_actionBinding sv = Some verify \<Longrightarrow> verify n t d = None \<Longrightarrow> action_bound sv t d"
  by (auto simp: action_bound_def)

text \<open>Running a read up to what it serves.\<close>

lemma wp_deny:
  "wp (denyVerificationRead po prin req h m d) (\<lambda>r v. r = denied \<or> R r v) (\<lambda>_ _. True) w"
  "wp (unless_denied po prin req h d reason k) (\<lambda>r v. r = denied \<or> R r v) (\<lambda>_ _. True) w
     \<longleftrightarrow> (reason = None \<longrightarrow> wp k (\<lambda>r v. r = denied \<or> R r v) (\<lambda>_ _. True) w)"
  "wp (serve_read sv po prin authz req h' b declared) (\<lambda>r v. r = denied \<or> R r v) (\<lambda>_ _. True) w
     \<longleftrightarrow> (\<forall>r v. serve_read sv po prin authz req h' b declared w = (Inr r, v) \<longrightarrow> r = denied \<or> R r v)"
proof -
  have d: "wp (denyVerificationRead po prin req h m d) (\<lambda>r v. r = denied \<or> R r v) (\<lambda>_ _. True) w" for h m
    by (simp add: denyVerificationRead_def wp_simps Let_def split: sum.split)
  show "wp (denyVerificationRead po prin req h m d) (\<lambda>r v. r = denied \<or> R r v) (\<lambda>_ _. True) w" by (rule d)
  show "wp (unless_denied po prin req h d reason k) (\<lambda>r v. r = denied \<or> R r v) (\<lambda>_ _. True) w
     \<longleftrightarrow> (reason = None \<longrightarrow> wp k (\<lambda>r v. r = denied \<or> R r v) (\<lambda>_ _. True) w)"
    by (cases reason) (simp_all add: unless_denied_def d)
qed (auto simp: wp_def split: prod.split sum.split)

context evidence_store
begin

text \<open>An allowed read passed every check, on the store it found.\<close>

definition served :: "('st, 'ob, 'v) EvidenceService \<Rightarrow> ('st, 'ob, 'v) EvidencePorts \<Rightarrow> PrincipalContext \<Rightarrow> Authorization \<Rightarrow> EvidenceReadRequest
     \<Rightarrow> ('st, 'ob) EvidenceWorld \<Rightarrow> Handle \<Rightarrow> SourceBinding
     \<Rightarrow> (VerificationBinding \<times> (nat \<Rightarrow> string \<Rightarrow> evidence_go_error + Signature)) option \<Rightarrow> 'v ReadResult \<Rightarrow> ('st, 'ob) EvidenceWorld \<Rightarrow> bool" where
  "served sv po prin authz req w h b declared r v \<longleftrightarrow>
     handle_of (ew_store w) (pc_TenantRef prin) (er_EvidenceRef req) = Some h
     \<and> binding_of (ew_store w) (pc_TenantRef prin) (hd_DataClass h) = Some b
     \<and> entitled po prin authz req (es_now sv (ew_ticks w)) h (events_of (ew_store w) (pc_TenantRef prin) (hd_EvidenceRef h)) b
     \<and> verification_of sv req = Inr declared
     \<and> (\<forall>d sign. declared = Some (d, sign) \<longrightarrow> verification_reason (es_now sv (ew_ticks w)) h b d = None \<and> action_bound sv (pc_TenantRef prin) d)
     \<and> (\<exists>w''. serve_read sv po prin authz req h b declared w'' = (Inr r, v) \<and> ew_store w'' = ew_store w \<and> ew_objects w'' = ew_objects w)"

lemma allowed_readD:
  assumes "ReadEvidence sv prin authz req w = (Inr rr, w')" and "rr \<noteq> denied" and "es_ports sv = Some po" and "po_store po = ops"
  obtains h b declared where "served sv po prin authz req w h b declared rr w'"
proof -
  let ?t = "pc_TenantRef prin" and ?now = "es_now sv (ew_ticks w)"
  have ok: "\<exists>h b declared. served sv po prin authz req w h b declared r v"
    if "serve_read sv po prin authz req h b declared w'' = (Inr r, v)" and "handle_of (ew_store w) ?t (er_EvidenceRef req) = Some h"
      and "binding_of (ew_store w) ?t (hd_DataClass h) = Some b" and "verification_of sv req = Inr declared"
      and "handle_reason prin req ?now h = None" and "event_reason (events_of (ew_store w) ?t (hd_EvidenceRef h)) = None"
      and "binding_reason authz h b = None" and "?now < er_ExpiresAt req"
      and "po_decider po n (capability_request prin authz b) = Inr d" and "pd_Decision d = DecisionAllow"
      and "ew_store w'' = ew_store w" and "ew_objects w'' = ew_objects w"
      and "\<forall>d sign. declared = Some (d, sign) \<longrightarrow> verification_reason ?now h b d = None
        \<and> action_bound sv ?t d"
    for h b declared w'' r v n d
    unfolding served_def using that entitledI[OF that(5-10)] by blast
  have "wp (ReadEvidence sv prin authz req) (\<lambda>r v. r = denied \<or> (\<exists>h b declared. served sv po prin authz req w h b declared r v)) (\<lambda>_ _. True) w"
    unfolding ReadEvidence_def wp_with_ports[OF assms(3)] assms(4)
    by (simp add: wp_simps wp_evidence_store get_binding get_handle list_events denyRead_def validated_def wp_deny action_reason_def
       split: option.split sum.split) (auto intro!: disjI2 intro: ok action_boundI)
  from wp_Inr[OF this assms(1)] assms(2) show ?thesis using that by blast
qed

end


lemma serve_lineage:
  assumes "serve_read sv po prin authz req h b declared w = (Inr rr, w')"
  shows "\<exists>event ref. (event, Inr ref) \<in> set (ew_lineage w') \<and> ref \<noteq> [] \<and> read_lineage prin h event"
  by (rule serve_readD[OF assms]) (intro exI conjI)

lemma serve_receipt:
  assumes "serve_read sv po prin authz req h b declared w = (Inr rr, w')" and "rr_ObservationReceipt rr = Some receipt"
  shows "\<exists>d sign ref auditRef n bytes signature. declared = Some (d, sign)
     \<and> CanonicalObservationReceipt (es_codec sv) (unsigned_receipt ref d h b auditRef) = Some bytes \<and> sign n bytes = Inr signature
     \<and> receipt = (unsigned_receipt ref d h b auditRef)\<lparr>or_Signature := signature\<rparr> \<and> ObservationReceipt_Validate receipt = None"
proof (rule serve_readD[OF assms(1)])
  fix w3 ref auditRef
  assume "case declared of None \<Rightarrow> rr_ObservationReceipt rr = None
         | Some (d, sign) \<Rightarrow> \<exists>receipt. rr_ObservationReceipt rr = Some receipt \<and> mintObservationReceipt sv sign ref d h b auditRef w3 = (Inr receipt, w')"
  with assms(2) obtain d sign where "declared = Some (d, sign)" "mintObservationReceipt sv sign ref d h b auditRef w3 = (Inr receipt, w')"
    by (auto split: option.splits)
  moreover from this(2) obtain bytes signature where "CanonicalObservationReceipt (es_codec sv) (unsigned_receipt ref d h b auditRef) = Some bytes"
      "sign (ew_calls w3) bytes = Inr signature" "receipt = (unsigned_receipt ref d h b auditRef)\<lparr>or_Signature := signature\<rparr>"
      "ObservationReceipt_Validate receipt = None"
    by (auto simp: mintObservationReceipt_def Let_def ask_def ret_def elim!: andthenE split: option.splits)
  ultimately show ?thesis by blast
qed

subsection \<open>The page of a read\<close>

lemma staged_recordsD:
  assumes "staged_records sv po prin h w = (Inr records, w')"
  obtains key ciphertext plaintext where "oo_Get (po_objects po) (hd_ObjectKey h) (ew_objects w) = (Inr ciphertext, ew_objects w')"
    and "kp_KeyByRef (po_keys po (ew_calls w)) (pc_TenantRef prin) (hd_KeyRef h) = Inr key"
    and "unseal (es_codec sv) (km_Key key) ciphertext (contentAAD (hd_TenantRef h) (hd_ObjectKey h)) = Inr plaintext"
    and "sha256_hex plaintext = hd_ContentHash h" and "cs_Unmarshal (es_codec sv) plaintext = Some records" and "ew_store w' = ew_store w"
  using assms unfolding staged_records_def
  by (auto simp: on_objects_def ask_def elim!: andthenE split: prod.splits sum.splits if_splits option.splits)

definition page_offset :: "Handle \<Rightarrow> 'v Record list \<Rightarrow> int" where
  "page_offset h records = (if hd_RecordOffset h > int (length records) then int (length records) else hd_RecordOffset h)"

lemma take_pageD:
  assumes "take_page sv po req h records w = (Inr (window, cref), w')" and "po_store po = memory_evidence" and "0 \<le> hd_RecordOffset h"
  shows "cref = [] \<and> window = drop (nat (hd_RecordOffset h)) records \<and> ew_store w' = ew_store w
     \<or> cref \<noteq> [] \<and> window \<noteq> [] \<and> (\<exists>n. hd_RecordOffset h < n \<and> em_handle (ew_store w') (hd_TenantRef h) cref = Some (continuation_of h cref n)
          \<and> window @ drop (nat n) records = drop (nat (hd_RecordOffset h)) records)"
proof -
  define offset where "offset = page_offset h records"
  define rest where "rest = drop (nat offset) records"
  define limit where "limit = page_limit h req"
  have o: "0 \<le> offset" "rest = drop (nat (hd_RecordOffset h)) records"
    using assms(3) by (auto simp: offset_def page_offset_def rest_def)
  show ?thesis
  proof (cases "limit > 0 \<and> int (length rest) > limit")
    case True
    then have *: "offset = hd_RecordOffset h" by (auto simp: offset_def page_offset_def rest_def)
    from assms(1) True obtain u s where c: "window = take (nat limit) rest" "canonical cref"
        "em_CreateHandle (continuation_of h cref (offset + limit)) s = (Inr u, ew_store w')"
      unfolding take_page_def Let_def offset_def[unfolded page_offset_def, symmetric] rest_def[symmetric] limit_def[symmetric] assms(2) memory_evidence_def
      by (auto simp: on_store_def newID_def elim!: andthenE split: prod.splits)
    from em_created(4)[OF c(3)] have "em_handle (ew_store w') (hd_TenantRef h) cref = Some (continuation_of h cref (offset + limit))"
      by (simp add: continuation_of_def)
    moreover have "take (nat limit) rest @ drop (nat (offset + limit)) records = rest"
      using True o(1) by (simp add: rest_def nat_add_distrib add.commute drop_drop[symmetric] del: drop_drop)
    ultimately show ?thesis using True * o c(1,2) by (auto simp: canonical_def intro!: exI[of _ "offset + limit"])
  next
    case False
    with assms(1) show ?thesis
      unfolding take_page_def Let_def offset_def[unfolded page_offset_def, symmetric] rest_def[symmetric] limit_def[symmetric]
      using o by (auto simp: ret_def)
  qed
qed

lemma take_page_objects: "take_page sv po req h records w = (Inr r, w') \<Longrightarrow> ew_objects w' = ew_objects w"
  unfolding take_page_def Let_def by (auto simp: on_store_def newID_def ret_def elim!: andthenE split: prod.splits if_splits)

lemma serve_read_store:
  assumes "serve_read sv po prin authz req h b declared w = (Inr rr, w')"
  obtains records window w1 w2 where "staged_records sv po prin h w = (Inr records, w1)"
    and "take_page sv po req h records w1 = (Inr (window, rr_ContinuationRef rr), w2)" and "rr_Data rr = Some (projectRecords window (er_Fields req))"
    and "ew_store w' = ew_store w2"
proof -
  note flat = newID_def append_lineage_def require_lineage_def ret_def ask_def mintObservationReceipt_def Let_def
  show ?thesis
    using assms that unfolding serve_read_def Let_def
    by (auto simp: flat elim!: andthenE split: option.splits)
qed

subsection \<open>What a locate of one need leaves\<close>

definition source_request :: "('st, 'ob, 'v) EvidenceService \<Rightarrow> PrincipalContext \<Rightarrow> SourceBinding \<Rightarrow> DataNeed \<Rightarrow> ContentRequest" where
  "source_request sv prin b need = \<lparr>ct_TenantRef = pc_TenantRef prin, ct_SourceRef = sb_SourceRef b, ct_DataClass = sb_DataClass b,
     ct_Fields = dn_Fields need, ct_MaxBytes = es_maxContentBytes sv\<rparr>"

text \<open>A need staged from what its source answered.\<close>

definition staged_from :: "('st, 'ob, 'v) EvidenceService \<Rightarrow> ('st, 'ob, 'v) EvidencePorts \<Rightarrow> PrincipalContext \<Rightarrow> EvidenceRequest \<Rightarrow> DataNeed
     \<Rightarrow> 'v Record list \<Rightarrow> stagedNeed \<Rightarrow> bool" where
  "staged_from sv po prin req need fetched one \<longleftrightarrow> (\<exists>n. po_source po n (source_request sv prin (sn_binding one) need) = Inr fetched)
     \<and> cs_Marshal (es_codec sv) (projectRecords fetched (stagingFields need)) = Some (sn_plaintext one)
     \<and> sn_need one = need \<and> sn_hash one = sha256_hex (sn_plaintext one) \<and> sn_pageLimit one = pageLimit req need"

lemma resolveNeed_staged:
  assumes "po_store po = memory_evidence"
  shows "wp (resolveNeed sv po prin authz req need)
     (\<lambda>one w'. em_binding (ew_store w) (pc_TenantRef prin) (dn_DataClass need) = Some (sn_binding one) \<and> (\<exists>fetched. staged_from sv po prin req need fetched one))
     (\<lambda>_ _. True) w"
  unfolding resolveNeed_def denyLocate_def assms source_request_def[symmetric]
  by (simp add: wp_simps wp_evidence_store evidence.get_binding Let_def split: option.split sum.split)
    (auto simp: staged_from_def source_request_def)

definition sealed_as :: "('st, 'ob, 'v) EvidenceService \<Rightarrow> string \<Rightarrow> string \<Rightarrow> string \<Rightarrow> string \<Rightarrow> bool" where
  "sealed_as sv key data plaintext blob \<longleftrightarrow> length key = 32
     \<and> (\<exists>n nonce. es_nonce sv n = Some nonce \<and> blob = nonce @ cs_Seal (es_codec sv) key nonce plaintext data)"

lemma seal_result: "wp (seal sv key plaintext data) (\<lambda>c w'. sealed_as sv key data plaintext c \<and> ew_objects w' = ew_objects w) (\<lambda>_ _. True) w"
  by (auto simp: wp_def seal_def sealed_as_def split: option.split)

lemma wp_trivial: "wp m (\<lambda>_ _. True) (\<lambda>_ _. True) w"
  by (auto simp: wp_def split: prod.split sum.split)

lemma persist_need_staged:
  assumes "po_store po = memory_evidence" and "po_objects po = memory_objects"
  shows "wp (persist_need sv po prin authz req bcr now expiresAt key keys refs one)
     (\<lambda>(k, eh) w'. \<exists>blob auditRef. ew_objects w' k = Some blob \<and> is_object_key k
        \<and> sealed_as sv (km_Key key) (contentAAD (pc_TenantRef prin) k) (sn_plaintext one) blob
        \<and> em_handle (ew_store w') (pc_TenantRef prin) (eh_EvidenceRef eh)
            = Some (located_handle prin authz bcr now expiresAt k (eh_EvidenceRef eh) (km_Ref key) auditRef one))
     (\<lambda>_ _. True) w"
proof -
  let ?t = "pc_TenantRef prin"
  have put: "wp (andthen (require b (Sentinel ErrUnavailable)) (\<lambda>_.
        andthen (on_error outage (seal sv (km_Key key) (sn_plaintext one) data)) (\<lambda>ciphertext.
        on_error outage (on_objects (oo_Put (po_objects po) k ciphertext)))))
     (\<lambda>_ w'. is_object_key k \<and> (\<exists>blob. ew_objects w' k = Some blob \<and> sealed_as sv (km_Key key) data (sn_plaintext one) blob)) (\<lambda>_ _. True) v" for b k data v
    unfolding wp_andthen wp_require wp_on_error assms(2)
    by (intro conjI impI wp_mono[OF seal_result]) (auto simp: wp_on_objects put_object)
  have create: "wp (andthen (require_lineage po event message) (\<lambda>auditRef. on_error outage (on_store (eo_CreateHandle (po_store po) (h auditRef)))))
     (\<lambda>_ w'. ew_objects w' = ew_objects v \<and> (\<exists>auditRef. em_handle (ew_store w') ?t e = Some (h auditRef))) (\<lambda>_ _. True) v"
    if "\<And>auditRef. hd_TenantRef (h auditRef) = ?t \<and> hd_EvidenceRef (h auditRef) = e" for event message h e v
  proof -
    have c: "wp (on_store (em_CreateHandle (h auditRef))) (\<lambda>_ w'. ew_objects w' = ew_objects u \<and> (\<exists>auditRef. em_handle (ew_store w') ?t e = Some (h auditRef)))
        (\<lambda>_ _. True) u" for auditRef and u :: "(EvidenceStore, ObjectStore) EvidenceWorld"
      using that[of auditRef] em_created(4)[of "h auditRef"] by (auto simp: wp_evidence_store split: prod.split sum.split)
    show ?thesis
      unfolding require_lineage_def assms(1) memory_evidence_def
      by (simp add: wp_simps Let_def split: sum.split) (auto intro!: wp_mono[OF c])
  qed
  show ?thesis
    unfolding persist_need_def Let_def
    by (rule wp_seq[OF wp_trivial], rule wp_seq[OF wp_trivial], rule wp_seq, rule wp_or_cleanupI, rule put, rule wp_trivial,
        rule wp_seq, rule wp_or_cleanupI, rule create) (auto simp: located_handle_def Let_def wp_trivial wp_ret public_handle_def)
qed

text \<open>The content behind a located handle.\<close>

definition located_content :: "(EvidenceStore, ObjectStore, 'v) EvidenceService \<Rightarrow> (EvidenceStore, ObjectStore, 'v) EvidencePorts \<Rightarrow> PrincipalContext
     \<Rightarrow> EvidenceRequest \<Rightarrow> DataNeed \<Rightarrow> SourceBinding \<Rightarrow> 'v Record list \<Rightarrow> EvidenceHandle \<Rightarrow> (EvidenceStore, ObjectStore) EvidenceWorld \<Rightarrow> bool" where
  "located_content sv po prin req need b fetched eh w' \<longleftrightarrow>
     (\<exists>one n key k blob h. sn_binding one = b \<and> staged_from sv po prin req need fetched one
        \<and> kp_ContentKey (po_keys po n) (pc_TenantRef prin) = Inr key \<and> is_object_key k \<and> ew_objects w' k = Some blob
        \<and> sealed_as sv (km_Key key) (contentAAD (pc_TenantRef prin) k) (sn_plaintext one) blob
        \<and> em_handle (ew_store w') (pc_TenantRef prin) (eh_EvidenceRef eh) = Some h
        \<and> (\<exists>authz bcr now expiresAt auditRef. h = located_handle prin authz bcr now expiresAt k (eh_EvidenceRef eh) (km_Ref key) auditRef one))"

lemma located_contentI:
  assumes "staged_from sv po prin req need fetched one" and "kp_ContentKey (po_keys po n) (pc_TenantRef prin) = Inr key" and "is_object_key k"
    and "ew_objects w' k = Some blob" and "sealed_as sv (km_Key key) (contentAAD (pc_TenantRef prin) k) (sn_plaintext one) blob"
    and "em_handle (ew_store w') (pc_TenantRef prin) (eh_EvidenceRef eh)
      = Some (located_handle prin authz bcr now expiresAt k (eh_EvidenceRef eh) (km_Ref key) auditRef one)"
  shows "located_content sv po prin req need (sn_binding one) fetched eh w'"
  unfolding located_content_def using assms by blast

lemma quiet_step:
  assumes "quiet m" and "ew_store v = s" and "\<And>a u. ew_store u = s \<Longrightarrow> wp (k a) Q (\<lambda>_ _. True) u"
  shows "wp (andthen m k) Q (\<lambda>_ _. True) v"
proof (rule wp_seq)
  have "wp m (\<lambda>_. same v) (\<lambda>_. same v) v" using assms(1) by (simp add: quiet_def)
  then show "wp m (\<lambda>_ u. ew_store u = s) (\<lambda>_ _. True) v" by (rule wp_mono) (simp_all add: assms(2))
qed (rule assms(3))

lemma Locate_one:
  assumes "es_ports sv = Some po" and "po_store po = memory_evidence" and "po_objects po = memory_objects" and "eq_DataNeeds req = [need]"
  shows "wp (Locate sv prin authz req)
     (\<lambda>lr w'. \<exists>b fetched eh. em_binding (ew_store w) (pc_TenantRef prin) (dn_DataClass need) = Some b \<and> lr_Evidence lr = [eh]
        \<and> located_content sv po prin req need b fetched eh w') (\<lambda>_ _. True) w"
proof -
  have persisted: "wp (persist_needs sv po prin authz req bcr now expiresAt key [] [] [one])
     (\<lambda>handles w'. \<exists>eh. handles = [eh] \<and> located_content sv po prin req need (sn_binding one) fetched eh w') (\<lambda>_ _. True) v"
    if "staged_from sv po prin req need fetched one" "kp_ContentKey (po_keys po n) (pc_TenantRef prin) = Inr key" for bcr now expiresAt key one fetched n v
    unfolding persist_needs.simps wp_andthen wp_case_prod wp_ret
    by (rule wp_mono[OF persist_need_staged[OF assms(2,3)]]) (use that in \<open>auto intro: located_contentI\<close>)
  have rest: "wp (andthen (resolve_needs sv po prin authz req [need]) (\<lambda>staged.
      andthen (on_error outage (ask (\<lambda>n. kp_ContentKey (po_keys po n) (pc_TenantRef prin)))) (\<lambda>key.
      andthen (persist_needs sv po prin authz req bcr now expiresAt key [] [] staged) (\<lambda>handles.
      ret \<lparr>lr_BusinessContextRef = bcr, lr_Evidence = handles\<rparr>))))
     (\<lambda>lr w'. \<exists>b fetched eh. em_binding (ew_store w) (pc_TenantRef prin) (dn_DataClass need) = Some b \<and> lr_Evidence lr = [eh]
        \<and> located_content sv po prin req need b fetched eh w') (\<lambda>_ _. True) v"
    if v: "ew_store v = ew_store w" for bcr now expiresAt v
  proof (rule wp_seq)
    show "wp (resolve_needs sv po prin authz req [need]) (\<lambda>staged w'. \<exists>one fetched. staged = [one]
        \<and> em_binding (ew_store w) (pc_TenantRef prin) (dn_DataClass need) = Some (sn_binding one) \<and> staged_from sv po prin req need fetched one) (\<lambda>_ _. True) v"
      unfolding resolve_needs.simps wp_andthen wp_ret by (rule wp_mono[OF resolveNeed_staged[OF assms(2)]]) (auto simp: v)
    fix staged u
    assume "\<exists>one fetched. staged = [one] \<and> em_binding (ew_store w) (pc_TenantRef prin) (dn_DataClass need) = Some (sn_binding one)
        \<and> staged_from sv po prin req need fetched one"
    then obtain one fetched where o: "staged = [one]" "em_binding (ew_store w) (pc_TenantRef prin) (dn_DataClass need) = Some (sn_binding one)"
        "staged_from sv po prin req need fetched one" by blast
    show "wp (andthen (on_error outage (ask (\<lambda>n. kp_ContentKey (po_keys po n) (pc_TenantRef prin)))) (\<lambda>key.
      andthen (persist_needs sv po prin authz req bcr now expiresAt key [] [] staged) (\<lambda>handles.
      ret \<lparr>lr_BusinessContextRef = bcr, lr_Evidence = handles\<rparr>)))
     (\<lambda>lr w'. \<exists>b fetched eh. em_binding (ew_store w) (pc_TenantRef prin) (dn_DataClass need) = Some b \<and> lr_Evidence lr = [eh]
        \<and> located_content sv po prin req need b fetched eh w') (\<lambda>_ _. True) u"
      unfolding o(1)
    proof (rule wp_seq[where P = "\<lambda>key _. \<exists>n. kp_ContentKey (po_keys po n) (pc_TenantRef prin) = Inr key"])
      show "wp (on_error outage (ask (\<lambda>n. kp_ContentKey (po_keys po n) (pc_TenantRef prin))))
          (\<lambda>key _. \<exists>n. kp_ContentKey (po_keys po n) (pc_TenantRef prin) = Inr key) (\<lambda>_ _. True) u"
        by (auto simp: wp_on_error wp_ask split: sum.split)
    next
      fix key and x :: "(EvidenceStore, ObjectStore) EvidenceWorld"
      assume "\<exists>n. kp_ContentKey (po_keys po n) (pc_TenantRef prin) = Inr key"
      then obtain n where k: "kp_ContentKey (po_keys po n) (pc_TenantRef prin) = Inr key" by blast
      show "wp (andthen (persist_needs sv po prin authz req bcr now expiresAt key [] [] [one]) (\<lambda>handles.
          ret \<lparr>lr_BusinessContextRef = bcr, lr_Evidence = handles\<rparr>))
         (\<lambda>lr w'. \<exists>b fetched eh. em_binding (ew_store w) (pc_TenantRef prin) (dn_DataClass need) = Some b \<and> lr_Evidence lr = [eh]
            \<and> located_content sv po prin req need b fetched eh w') (\<lambda>_ _. True) x"
        by (rule wp_seq[OF persisted[OF o(3) k]]) (auto simp: wp_ret o(2))
    qed
  qed
  show ?thesis
    unfolding Locate_def with_ports_def assms(1,4) Let_def option.case
    by ((rule quiet_step[where s = "ew_store w"], (intro quiet_basic quiet_cases)[1], (assumption | rule refl))+) (rule rest)
qed

text \<open>The keys behind a provider do not change, and nonces are twelve bytes.\<close>

definition steady_keys :: "('st, 'ob, 'v) EvidencePorts \<Rightarrow> bool" where
  "steady_keys po \<longleftrightarrow> (\<forall>n m t key. kp_ContentKey (po_keys po n) t = Inr key \<longrightarrow> kp_KeyByRef (po_keys po m) t (km_Ref key) = Inr key)"

lemma configured_keys_steady: "po_keys po = (\<lambda>_. ConfiguredKeyProvider p) \<Longrightarrow> steady_keys po"
  by (auto simp: steady_keys_def ConfiguredKeyProvider_def split: option.splits if_splits)

lemma unseal_sealed:
  assumes "honest_codec (es_codec sv)" and "\<forall>n x. es_nonce sv n = Some x \<longrightarrow> length x = NonceSize" and "sealed_as sv key data plaintext blob"
  shows "unseal (es_codec sv) key blob data = Inr plaintext"
  using assms by (auto simp: sealed_as_def unseal_def honest_codec_def)

lemma located_read:
  assumes "located_content sv po prin req need b fetched eh w" and "po_store po = memory_evidence" and "po_objects po = memory_objects"
    and "honest_codec (es_codec sv)" and "\<forall>n x. es_nonce sv n = Some x \<longrightarrow> length x = NonceSize" and "steady_keys po"
    and "em_handle (ew_store w) (pc_TenantRef prin) (eh_EvidenceRef eh) = Some h" and "ew_objects v = ew_objects w"
    and "staged_records sv po prin h v = (Inr records, v')"
  shows "records = map (json_form (es_codec sv)) (projectRecords fetched (stagingFields need))"
    and "hd_PageLimit h = pageLimit req need" and "hd_RecordOffset h = 0" and "hd_SourceVersion h = sb_SourceVersion b"
proof -
  from assms(1,7) obtain one n key k blob authz bcr now expiresAt auditRef where o: "sn_binding one = b" "staged_from sv po prin req need fetched one"
      "kp_ContentKey (po_keys po n) (pc_TenantRef prin) = Inr key" "is_object_key k" "ew_objects w k = Some blob"
      "sealed_as sv (km_Key key) (contentAAD (pc_TenantRef prin) k) (sn_plaintext one) blob"
      "h = located_handle prin authz bcr now expiresAt k (eh_EvidenceRef eh) (km_Ref key) auditRef one"
    unfolding located_content_def by auto
  note h = o(7)[unfolded located_handle_def Let_def]
  have key: "kp_KeyByRef (po_keys po m) (pc_TenantRef prin) (km_Ref key) = Inr key" for m using assms(6) o(3) by (simp add: steady_keys_def)
  obtain key' ciphertext plaintext where g: "oo_Get (po_objects po) (hd_ObjectKey h) (ew_objects v) = (Inr ciphertext, ew_objects v')"
      "kp_KeyByRef (po_keys po (ew_calls v)) (pc_TenantRef prin) (hd_KeyRef h) = Inr key'"
      "unseal (es_codec sv) (km_Key key') ciphertext (contentAAD (hd_TenantRef h) (hd_ObjectKey h)) = Inr plaintext"
      "cs_Unmarshal (es_codec sv) plaintext = Some records"
    by (rule staged_recordsD[OF assms(9)])
  have "ciphertext = blob" using g(1) o(4,5) assms(8)
    by (simp add: assms(3) memory_objects_def mo_Get_def validObjectKey_def fail_if_def h)
  moreover have "key' = key" using g(2) key by (simp add: h)
  ultimately have "plaintext = sn_plaintext one" using g(3) unseal_sealed[OF assms(4,5) o(6)] by (simp add: h)
  then show "records = map (json_form (es_codec sv)) (projectRecords fetched (stagingFields need))"
    using g(4) o(2) assms(4) unfolding staged_from_def honest_codec_def by (metis option.inject)
  show "hd_PageLimit h = pageLimit req need" "hd_RecordOffset h = 0" "hd_SourceVersion h = sb_SourceVersion b"
    using o(1,2) by (simp_all add: h staged_from_def)
qed

lemma unpaged:
  assumes "take_page sv po req h records w = (Inr (window, cref), w')" and "page_limit h req \<le> 0" and "hd_RecordOffset h = 0"
  shows "window = records" and "cref = []"
  using assms by (auto simp: take_page_def Let_def ret_def)

end
