(* ===== verification/EvidenceExample.thy ===== *)
theory EvidenceExample
  imports EvidenceMemory
begin

text \<open>A codec that prints a record \<open>{"amount": n}\<close> as one byte.\<close>

definition amount :: "nat \<Rightarrow> nat Record" where
  "amount n = [''amount'' \<mapsto> n]"

definition acme_codec :: "nat codec" where
  "acme_codec = \<lparr>cs_Seal = (\<lambda>key nonce plaintext data. plaintext), cs_Open = (\<lambda>key nonce blob data. Some blob),
     cs_Marshal = (\<lambda>records. if \<forall>r \<in> set records. \<exists>n < 256. r = amount n then Some (map (\<lambda>r. char_of (the (r ''amount''))) records) else None),
     cs_Unmarshal = (\<lambda>bytes. Some (map (\<lambda>c. amount (of_char c)) bytes)), cs_JSONForm = id, cs_MarshalReceipt = (\<lambda>_. Some ''receipt'')\<rparr>"

lemma acme_codec: "honest_codec acme_codec" "cs_Marshal acme_codec [amount 5, amount 7] = Some [char_of (5 :: nat), char_of (7 :: nat)]"
proof -
  have "json_form acme_codec = id" by (auto simp: json_form_def acme_codec_def fun_eq_iff map_option.id)
  moreover have "map (\<lambda>c. amount (of_char c)) (map (\<lambda>r. char_of (the (r ''amount''))) records) = records"
    if "\<forall>r \<in> set records. \<exists>n < 256. r = amount n" for records
    using that by (induction records) (auto simp: amount_def)
  ultimately show "honest_codec acme_codec" by (auto simp: honest_codec_def acme_codec_def split: if_splits)
  have that: "\<exists>n < 256. amount 5 = amount n" "\<exists>n < 256. amount 7 = amount n" by (rule exI[of _ 5], simp) (rule exI[of _ 7], simp)
  show "cs_Marshal acme_codec [amount 5, amount 7] = Some [char_of (5 :: nat), char_of (7 :: nat)]"
    using that by (simp add: acme_codec_def amount_def[THEN fun_cong])
qed

definition acme_key :: KeyMaterial where
  "acme_key = \<lparr>km_Ref = ''key-1'', km_Key = replicate 32 CHR ''k''\<rparr>"

definition acme_allow :: PermissionDecision where
  "acme_allow = \<lparr>pd_Decision = DecisionAllow, pd_Permissions = [], pd_OrgUnitIDs = [], pd_MaskFields = [], pd_RiskLevel = CapabilityRiskLow,
     pd_FallbackCapability = [], pd_OrgVersion = 1\<rparr>"

definition acme_signature :: Signature where
  "acme_signature = \<lparr>sig_Algorithm = SignatureAlgorithmEd25519, sig_KeyID = ''obs'', sig_Value = ''s''\<rparr>"

definition acme_ports :: "(EvidenceStore, ObjectStore, nat) EvidencePorts" where
  "acme_ports = \<lparr>po_store = memory_evidence, po_objects = memory_objects, po_keys = (\<lambda>_. ConfiguredKeyProvider (Some acme_key)),
     po_source = (\<lambda>n req. Inr [amount 5, amount 7]), po_decider = (\<lambda>n req. Inr acme_allow), po_audit = (\<lambda>n event. Inr ''audit'')\<rparr>"

definition acme :: "(EvidenceStore, ObjectStore, nat) EvidenceService" where
  "acme = \<lparr>es_ports = Some acme_ports, es_signer = Some (\<lambda>n bytes. Inr acme_signature), es_actionBinding = None, es_codec = acme_codec,
     es_nonce = (\<lambda>n. Some (replicate 12 CHR ''n'')), es_now = (\<lambda>n. 1000), es_newID = (\<lambda>n p. p @ replicate (16 + n) CHR ''x''),
     es_maxContentBytes = defaultMaxContentBytes, es_maxHandleTTL = defaultMaxHandleTTL\<rparr>"

definition acme_prin :: PrincipalContext where
  "acme_prin = \<lparr>pc_TenantRef = ''acme'', pc_PrincipalRef = ''alice'', pc_AgentClientRef = ''atlas'', pc_AgentReleaseRef = ''r1'',
     pc_TrustClass = TrustFirstParty, pc_OrgSnapshotRef = ''org1'', pc_VerifiedAt = 1, pc_ExpiresAt = 2\<rparr>"

definition acme_authz :: Authorization where
  "acme_authz = \<lparr>az_OrgVersion = 1, az_ConnectorCapabilityAllowed = False\<rparr>"

definition acme_binding :: SourceBinding where
  "acme_binding = \<lparr>sb_TenantRef = ''acme'', sb_ID = ''esb_1'', sb_DataClass = ''purchases'', sb_SourceRef = ''erp.purchases'', sb_SourceVersion = 1,
     sb_AccessCapability = ''purchases.read'', sb_SourceCapability = ''erp.query'', sb_ResourceType = ''table'', sb_ResourceID = ''p'',
     sb_CachedReadAllowed = True, sb_RetentionTTL = 0, sb_AuthorityTier = AuthorityTierSystemOfRecord, sb_FreshnessBound = 500,
     sb_Deleted = False, sb_CreatedAt = 1000, sb_UpdatedAt = 1000\<rparr>"

definition acme_need :: DataNeed where
  "acme_need = \<lparr>dn_NeedID = ''n1'', dn_DataClass = ''purchases'', dn_Purpose = PurposeVerification, dn_Fields = None, dn_Constraints = None\<rparr>"

definition acme_request :: EvidenceRequest where
  "acme_request = \<lparr>eq_RequestID = ''q1'', eq_TraceID = ''t1'', eq_BusinessContextRef = HandleWorkCase @ replicate 16 CHR ''w'', eq_DataNeeds = [acme_need],
     eq_Purpose = PurposeVerification, eq_Constraints = None, eq_ExpiresAt = 5000\<rparr>"

definition acme_block :: VerificationBinding where
  "acme_block = \<lparr>vb_ActionRef = HandleAction @ replicate 16 CHR ''a'', vb_ParameterHash = digest_prefix @ replicate 64 CHR ''a'',
     vb_PostconditionID = ''p1'', vb_VerificationNeedID = ''v1'', vb_DataClass = ''purchases''\<rparr>"

abbreviation acme_ref :: "nat \<Rightarrow> string" where
  "acme_ref n \<equiv> HandleEvidence @ replicate n CHR ''x''"

definition acme_read :: "string \<Rightarrow> int \<Rightarrow> EvidenceReadRequest" where
  "acme_read ref limit = \<lparr>er_RequestID = ''q2'', er_TraceID = ''t2'', er_BusinessContextRef = HandleWorkCase @ replicate 16 CHR ''w'', er_EvidenceRef = ref,
     er_Fields = None, er_Purpose = PurposeVerification,
     er_Constraints = Some \<lparr>con_MaxResults = limit, con_AllowedFields = None, con_ProhibitedUses = []\<rparr>,
     er_VerificationBinding = Some acme_block, er_ExpiresAt = 5000\<rparr>"

definition acme_fresh :: "(EvidenceStore, ObjectStore) EvidenceWorld" where
  "acme_fresh = \<lparr>ew_store = NewEvidenceStore, ew_objects = Map.empty, ew_ticks = 0, ew_ids = 0, ew_nonces = 0, ew_calls = 0, ew_lineage = []\<rparr>"

definition acme_registered :: "(EvidenceStore, ObjectStore) EvidenceWorld" where
  "acme_registered = snd (RegisterSourceBinding acme acme_binding acme_fresh)"

definition acme_located :: "(EvidenceStore, ObjectStore) EvidenceWorld" where
  "acme_located = snd (Locate acme acme_prin acme_authz acme_request acme_registered)"

lemmas acme_defs = acme_def acme_ports_def acme_prin_def acme_authz_def acme_binding_def acme_need_def acme_request_def acme_block_def acme_read_def
  acme_fresh_def acme_key_def acme_allow_def acme_signature_def

lemmas plane_run = with_ports_def andthen_def ret_def fail_def require_def on_error_def attempt_def clock_def newID_def ask_def on_store_def on_objects_def
  append_lineage_def validated_def Let_def memory_evidence_def

lemma acme_valid: "PrincipalContext_Validate acme_prin = None" "EvidenceRequest_Validate acme_request = None"
  "EvidenceReadRequest_Validate (acme_read (acme_ref 17) 0) = None" "EvidenceReadRequest_Validate (acme_read (acme_ref 17) 1) = None"
  "validateVerificationBinding acme_block = None"
  by code_simp+

lemma acme_registered: "RegisterSourceBinding acme acme_binding acme_fresh = (Inr acme_binding, acme_registered)"
    "acme_registered = acme_fresh\<lparr>ew_store := NewEvidenceStore\<lparr>em_bindings := [bindingKey ''acme'' ''purchases'' \<mapsto> acme_binding]\<rparr>, ew_ticks := 1\<rparr>"
proof -
  have c: "canonical ''acme''" "canonical ''purchases''" "canonical ''erp.purchases''" "canonical ''purchases.read''" "canonical ''table''" "canonical ''p''"
      "canonical ''esb_1''" "\<not> hasControlBytes ''erp.purchases''" "validAuthorityTier AuthorityTierSystemOfRecord" "AuthorityTierSystemOfRecord \<noteq> []"
    by code_simp+
  show "RegisterSourceBinding acme acme_binding acme_fresh = (Inr acme_binding, acme_registered)"
    "acme_registered = acme_fresh\<lparr>ew_store := NewEvidenceStore\<lparr>em_bindings := [bindingKey ''acme'' ''purchases'' \<mapsto> acme_binding]\<rparr>, ew_ticks := 1\<rparr>"
    by (simp_all add: acme_registered_def RegisterSourceBinding_def plane_run acme_defs c em_UpsertSourceBinding_def upserted_def NewEvidenceStore_def)
qed

definition acme_object :: string where
  "acme_object = ''obj_'' @ replicate 16 CHR ''x''"

definition acme_bytes :: string where
  "acme_bytes = [char_of (5 :: nat), char_of (7 :: nat)]"

definition acme_staged :: stagedNeed where
  "acme_staged = \<lparr>sn_need = acme_need, sn_binding = acme_binding, sn_plaintext = acme_bytes, sn_hash = sha256_hex acme_bytes, sn_count = 2, sn_pageLimit = 0\<rparr>"

definition acme_handle :: Handle where
  "acme_handle = located_handle acme_prin acme_authz (HandleWorkCase @ replicate 16 CHR ''w'') 1000 5000 acme_object (acme_ref 17) ''key-1'' ''audit'' acme_staged"

lemma acme_resolves:
  assumes "es_codec sv = es_codec acme" and "es_maxContentBytes sv = defaultMaxContentBytes" and "po_store po = memory_evidence"
    and "po_source po = po_source acme_ports" and "po_decider po = po_decider acme_ports"
    and "em_bindings (ew_store w) (bindingKey ''acme'' ''purchases'') = Some acme_binding"
  shows "resolveNeed sv po acme_prin acme_authz acme_request acme_need w = (Inr acme_staged, w\<lparr>ew_calls := Suc (Suc (ew_calls w))\<rparr>)"
proof -
  have c: "canonical_within ''n1'' maxNeedIDBytes" "canonical_within PurposeVerification maxPurposeBytes" "IsConnectorCapability ''erp.query'' = False"
    by code_simp+
  have m: "cs_Marshal acme_codec [amount 5, amount 7] = Some acme_bytes" "length acme_bytes = 2" by (simp_all add: acme_codec acme_bytes_def)
  show ?thesis
    using assms c m
    by (simp add: resolveNeed_def plane_run acme_defs em_GetSourceBinding_def prohibitedUses_def uses_of_def connectorBacked_def stagingFields_def items_def
        projectRecords_def pageLimit_def max_results_def acme_staged_def defaultMaxContentBytes_def)
qed

lemma acme_located:
  "\<exists>lineage. Locate acme acme_prin acme_authz acme_request acme_registered
     = (Inr \<lparr>lr_BusinessContextRef = HandleWorkCase @ replicate 16 CHR ''w'', lr_Evidence = [public_handle (acme_ref 17) 5000 acme_staged]\<rparr>,
        acme_registered\<lparr>ew_store := (ew_store acme_registered)\<lparr>em_handles := [(handleKey ''acme'' (acme_ref 17), acme_handle)]\<rparr>,
          ew_objects := [acme_object \<mapsto> replicate 12 CHR ''n'' @ acme_bytes], ew_ticks := 2, ew_ids := 2, ew_nonces := 1, ew_calls := 4,
          ew_lineage := lineage\<rparr>)"
proof -
  have c: "canonical_within ''n1'' maxNeedIDBytes" "canonical_within PurposeVerification maxPurposeBytes" "canonical acme_object" "canonical (acme_ref 17)"
      "ValidateHandle (HandleWorkCase @ replicate 16 CHR ''w'') HandleWorkCase = None" "IsConnectorCapability ''erp.query'' = False"
      "is_object_key acme_object" "''obj_'' @ replicate 16 CHR ''x'' = acme_object" "\<not> maxDataNeedsPerRequest < length [acme_need]"
    by code_simp+
  have one: "resolveNeed acme acme_ports acme_prin acme_authz acme_request acme_need w = (Inr acme_staged, w\<lparr>ew_calls := Suc (Suc (ew_calls w))\<rparr>)"
    if "em_bindings (ew_store w) (bindingKey ''acme'' ''purchases'') = Some acme_binding" for w
    by (rule acme_resolves) (simp_all add: that acme_def acme_ports_def)
  have v: "PrincipalContext_Validate acme_prin = None" "EvidenceRequest_Validate acme_request = None" by (rule acme_valid)+
  have sel: "eq_DataNeeds acme_request = [acme_need]" "eq_ExpiresAt acme_request = 5000" "es_ports acme = Some acme_ports"
      "eq_BusinessContextRef acme_request = HandleWorkCase @ replicate 16 CHR ''w''" "es_now acme = (\<lambda>n. 1000)" "es_maxHandleTTL acme = defaultMaxHandleTTL"
      "po_keys acme_ports n = ConfiguredKeyProvider (Some acme_key)" "po_store acme_ports = memory_evidence" "po_objects acme_ports = memory_objects"
      "po_audit acme_ports n event = Inr ''audit''" "pc_TenantRef acme_prin = ''acme''" "es_newID acme n p = p @ replicate (16 + n) CHR ''x''"
      "length (km_Key acme_key) = 32" "km_Ref acme_key = ''key-1''" "es_nonce acme n = Some (replicate 12 CHR ''n'')"
      "cs_Seal (es_codec acme) k x b d = b" "sn_plaintext acme_staged = acme_bytes" for n event p k x b d
    by (simp_all add: acme_defs acme_codec_def acme_staged_def)
  have ttl: "\<not> 1000 + defaultMaxHandleTTL < (5000 :: int)" "HandleWorkCase @ replicate 16 CHR ''w'' \<noteq> []" by code_simp+
  have h: "hd_TenantRef acme_handle = ''acme''" "hd_EvidenceRef acme_handle = acme_ref 17"
    by (simp_all add: acme_handle_def located_handle_def Let_def acme_prin_def)
  have "ConfiguredKeyProvider (Some acme_key) = \<lparr>kp_ContentKey = (\<lambda>_. Inr acme_key),
      kp_KeyByRef = (\<lambda>_ ref. if ref \<noteq> ''key-1'' then Inl (Sentinel ErrUnavailable) else Inr acme_key)\<rparr>"
    unfolding acme_key_def by (simp add: ConfiguredKeyProvider_def ContentKeyBytes_def)
  note keys = this
  have put: "oo_Put memory_objects acme_object b m = (Inr (), m(acme_object \<mapsto> b))" for b m
    using c by (simp add: memory_objects_def mo_Put_def validObjectKey_def fail_if_def check_def ret_def andthen_def)
  show ?thesis
    unfolding Locate_def sel with_ports_def option.case Let_def
    by (simp add: v ttl c(5) c[unfolded acme_object_def, simplified] one keys sel seal_def persist_need_def or_cleanup_def require_lineage_def
        put[unfolded acme_object_def, simplified] plane_run em_CreateHandle_def h acme_handle_def[symmetric, unfolded acme_object_def, simplified]
        acme_registered(2) acme_fresh_def NewEvidenceStore_def acme_object_def)
qed

text \<open>The same deployment with its audit store down: the locate fails after the content was put.\<close>

definition acme_dark :: "(EvidenceStore, ObjectStore, nat) EvidenceService" where
  "acme_dark = acme\<lparr>es_ports := Some (acme_ports\<lparr>po_audit := \<lambda>n event. Inl (Message ''down'')\<rparr>)\<rparr>"

lemma acme_dark_fails: "\<exists>e w. Locate acme_dark acme_prin acme_authz acme_request acme_registered = (Inl e, w)"
proof -
  let ?po = "acme_ports\<lparr>po_audit := \<lambda>n event. Inl (Message ''down'')\<rparr>"
  have c: "ValidateHandle (HandleWorkCase @ replicate 16 CHR ''w'') HandleWorkCase = None" "HandleWorkCase @ replicate 16 CHR ''w'' \<noteq> []"
      "canonical (''obj_'' @ replicate 16 CHR ''x'')" "canonical (acme_ref 17)" "is_object_key (''obj_'' @ replicate 16 CHR ''x'')"
      "\<not> maxDataNeedsPerRequest < length [acme_need]"
    by code_simp+
  have one: "resolveNeed acme_dark ?po acme_prin acme_authz acme_request acme_need w = (Inr acme_staged, w\<lparr>ew_calls := Suc (Suc (ew_calls w))\<rparr>)"
    if "em_bindings (ew_store w) (bindingKey ''acme'' ''purchases'') = Some acme_binding" for w
    by (rule acme_resolves) (simp_all add: that acme_dark_def acme_def acme_ports_def)
  have sel: "eq_DataNeeds acme_request = [acme_need]" "eq_ExpiresAt acme_request = 5000" "es_ports acme_dark = Some ?po"
      "eq_BusinessContextRef acme_request = HandleWorkCase @ replicate 16 CHR ''w''" "es_now acme_dark = (\<lambda>n. 1000)"
      "po_keys acme_ports n = ConfiguredKeyProvider (Some acme_key)" "po_store acme_ports = memory_evidence" "po_objects acme_ports = memory_objects"
      "pc_TenantRef acme_prin = ''acme''" "es_newID acme_dark n p = p @ replicate (16 + n) CHR ''x''" "length (km_Key acme_key) = 32"
      "es_nonce acme_dark n = Some (replicate 12 CHR ''n'')" for n p
    by (simp_all add: acme_dark_def acme_defs)
  have keys: "kp_ContentKey (ConfiguredKeyProvider (Some acme_key)) t = Inr acme_key" for t
    by (simp add: ConfiguredKeyProvider_def acme_key_def ContentKeyBytes_def)
  have objects: "oo_Put memory_objects (''obj_'' @ replicate 16 CHR ''x'') b m = (Inr (), m(''obj_'' @ replicate 16 CHR ''x'' \<mapsto> b))"
      "oo_Delete memory_objects (''obj_'' @ replicate 16 CHR ''x'') m = (Inr (), m(''obj_'' @ replicate 16 CHR ''x'' := None))" for b m
    using c by (simp_all add: memory_objects_def mo_Put_def mo_Delete_def validObjectKey_def fail_if_def check_def ret_def andthen_def)
  show ?thesis
    unfolding Locate_def sel with_ports_def option.case Let_def
    by (simp add: acme_valid c(1,2) c[simplified] one keys sel seal_def persist_need_def or_cleanup_def cleanup_def require_lineage_def objects[simplified] plane_run
        acme_registered(2) acme_fresh_def)
qed

lemma acme_world: "ew_store acme_located = (ew_store acme_registered)\<lparr>em_handles := [(handleKey ''acme'' (acme_ref 17), acme_handle)]\<rparr>"
    "ew_objects acme_located = [acme_object \<mapsto> replicate 12 CHR ''n'' @ acme_bytes]" "ew_ids acme_located = 2"
  using acme_located by (auto simp: acme_located_def)

text \<open>A read of the handle, or of its continuation, in any world that still holds what it needs.\<close>

definition acme_served :: "Handle \<Rightarrow> string \<Rightarrow> nat Record list \<Rightarrow> string \<Rightarrow> nat ReadResult" where
  "acme_served h cref page observationRef = \<lparr>rr_Decision = ''allow'', rr_Data = Some page, rr_SourceVersion = 1, rr_AsOf = 1000, rr_ServedFromCache = True,
     rr_ContinuationRef = cref, rr_ObservationReceipt =
       Some ((unsigned_receipt observationRef acme_block h acme_binding ''audit'')\<lparr>or_Signature := acme_signature\<rparr>)\<rparr>"

definition acme_readable :: "Handle \<Rightarrow> (EvidenceStore, ObjectStore) EvidenceWorld \<Rightarrow> bool" where
  "acme_readable h w \<longleftrightarrow> (\<exists>ref n. h = acme_handle\<lparr>hd_EvidenceRef := ref, hd_RecordOffset := n, hd_Lineage := hd_Lineage h, hd_CreatedAt := hd_CreatedAt h\<rparr>)
     \<and> EvidenceReadRequest_Validate (acme_read (hd_EvidenceRef h) 0) = None \<and> EvidenceReadRequest_Validate (acme_read (hd_EvidenceRef h) 1) = None
     \<and> map_of (em_handles (ew_store w)) (handleKey ''acme'' (hd_EvidenceRef h)) = Some h \<and> em_events (ew_store w) (handleKey ''acme'' (hd_EvidenceRef h)) = []
     \<and> em_bindings (ew_store w) (bindingKey ''acme'' ''purchases'') = Some acme_binding
     \<and> ew_objects w acme_object = Some (replicate 12 CHR ''n'' @ acme_bytes)"

lemma acme_checks:
  assumes "acme_readable h w"
  shows "handle_reason acme_prin (acme_read (hd_EvidenceRef h) limit) 1000 h = None" "binding_reason acme_authz h acme_binding = None"
    "verification_reason 1000 h acme_binding acme_block = None" "hd_DataClass h = ''purchases''" "hd_ObjectKey h = acme_object" "hd_KeyRef h = ''key-1''"
    "hd_ContentHash h = sha256_hex acme_bytes" "hd_TenantRef h = ''acme''" "hd_PageLimit h = 0" "hd_SourceVersion h = 1" "hd_StagedAt h = 1000"
proof -
  have c: "\<not> IsConnectorCapability ''erp.query''" "validAuthorityTier AuthorityTierSystemOfRecord" by code_simp+
  obtain ref n where h: "h = acme_handle\<lparr>hd_EvidenceRef := ref, hd_RecordOffset := n, hd_Lineage := hd_Lineage h, hd_CreatedAt := hd_CreatedAt h\<rparr>"
    using assms by (auto simp: acme_readable_def)
  note sel = h[unfolded acme_handle_def located_handle_def Let_def]
  show "handle_reason acme_prin (acme_read (hd_EvidenceRef h) limit) 1000 h = None"
    by (subst (2) sel) (simp add: handle_reason_def acme_defs acme_staged_def is_zero_time_def)
  show "binding_reason acme_authz h acme_binding = None"
    by (subst sel) (simp add: binding_reason_def acme_staged_def acme_defs connectorBacked_def c)
  show "verification_reason 1000 h acme_binding acme_block = None"
    by (subst sel) (simp add: verification_reason_def acme_staged_def acme_defs c)
  show "hd_DataClass h = ''purchases''" "hd_ObjectKey h = acme_object" "hd_KeyRef h = ''key-1''"
    "hd_ContentHash h = sha256_hex acme_bytes" "hd_TenantRef h = ''acme''" "hd_PageLimit h = 0" "hd_SourceVersion h = 1" "hd_StagedAt h = 1000"
    by (subst sel, simp add: acme_staged_def acme_binding_def acme_prin_def)+
qed

lemma acme_receipt:
  assumes "acme_readable h w" and "ValidateHandle ref HandleObservation = None"
  shows "ObservationReceipt_Validate ((unsigned_receipt ref acme_block h acme_binding ''audit'')\<lparr>or_Signature := acme_signature\<rparr>) = None"
proof -
  have e: "ValidateHandle (hd_EvidenceRef h) HandleEvidence = None"
    using assms(1) EvidenceReadRequest_refs[of "acme_read (hd_EvidenceRef h) 0"] by (simp add: acme_readable_def acme_read_def)
  have a: "ValidateHandle (vb_ActionRef acme_block) HandleAction = None" "ValidateSHA256Ref (vb_ParameterHash acme_block) = None"
      "AuthorityTierSystemOfRecord \<noteq> []" "Signature_Validate acme_signature = None" "''sha256:'' = digest_prefix"
    by code_simp+
  have o: "ValidateSHA256Ref (''sha256:'' @ m) = None" if "m = sha256_hex acme_bytes" for m
    using that by (simp add: ValidateSHA256Ref_def a(5) fail_if_def del: append.simps)
  show ?thesis
    using assms(2) e a acme_checks[OF assms(1)] o[OF acme_checks(7)[OF assms(1)]]
    by (simp add: ObservationReceipt_Validate_def unsigned_receipt_def first_error_None acme_block_def acme_binding_def requireNonEmpty_def fail_if_def
        is_zero_time_def within_def del: append.simps append_Cons)
qed

lemma acme_selectors:
  "es_ports acme = Some acme_ports" "es_now acme = (\<lambda>n. 1000)" "es_codec acme = acme_codec" "es_signer acme = Some (\<lambda>n bytes. Inr acme_signature)"
  "es_actionBinding acme = None" "po_store acme_ports = memory_evidence" "po_objects acme_ports = memory_objects" "po_decider acme_ports k q = Inr acme_allow"
  "pd_Decision acme_allow = DecisionAllow" "po_audit acme_ports k event = Inr ''audit''" "pc_TenantRef acme_prin = ''acme''"
  "es_newID acme k p = p @ replicate (16 + k) CHR ''x''" "po_keys acme_ports k = ConfiguredKeyProvider (Some acme_key)"
  "er_ExpiresAt (acme_read e limit) = 5000" "er_Purpose (acme_read e limit) = PurposeVerification" "er_EvidenceRef (acme_read e limit) = e"
  "er_VerificationBinding (acme_read e limit) = Some acme_block" "er_Fields (acme_read e limit) = None" "max_results (er_Constraints (acme_read e limit)) = limit"
  by (simp_all add: acme_defs max_results_def)

lemma acme_content:
  "kp_KeyByRef (ConfiguredKeyProvider (Some acme_key)) t ''key-1'' = Inr acme_key"
  "unseal acme_codec (km_Key acme_key) (replicate 12 CHR ''n'' @ acme_bytes) d = Inr acme_bytes"
  "cs_Unmarshal acme_codec acme_bytes = Some [amount 5, amount 7]" "cs_MarshalReceipt acme_codec x = Some ''receipt''"
  "m acme_object = Some blob \<Longrightarrow> oo_Get memory_objects acme_object m = (Inr blob, m)" "canonical_within PurposeVerification maxPurposeBytes"
proof -
  have "is_object_key acme_object" by code_simp
  then show "m acme_object = Some blob \<Longrightarrow> oo_Get memory_objects acme_object m = (Inr blob, m)"
    by (simp add: memory_objects_def mo_Get_def validObjectKey_def fail_if_def check_def ret_def andthen_def)
  show "canonical_within PurposeVerification maxPurposeBytes" by code_simp
qed (simp_all add: ConfiguredKeyProvider_def acme_key_def ContentKeyBytes_def unseal_def NonceSize_def acme_codec_def acme_bytes_def)

lemmas read_run = plane_run unless_denied_def serve_read_def staged_records_def take_page_def page_limit_def require_lineage_def mintObservationReceipt_def
  CanonicalObservationReceipt_def em_GetHandle_def em_ListHandleEvents_def em_GetSourceBinding_def em_CreateHandle_def action_reason_def acme_served_def
  projectRecords_def verification_of_def

lemma acme_reads:
  assumes "acme_readable h w" and "HandleObservation @ replicate (16 + ew_ids w) CHR ''x'' = ref" and "ValidateHandle ref HandleObservation = None"
    and "canonical ref" and "hd_RecordOffset h = int n" and "n \<le> 2"
  shows "\<exists>w'. ReadEvidence acme acme_prin acme_authz (acme_read (hd_EvidenceRef h) 0) w = (Inr (acme_served h [] (drop n [amount 5, amount 7]) ref), w')
     \<and> ew_store w' = ew_store w \<and> ew_objects w' = ew_objects w"
  unfolding ReadEvidence_def acme_selectors with_ports_def option.case
  by (simp add: assms(1)[unfolded acme_readable_def] acme_valid acme_checks[OF assms(1)] acme_selectors acme_content read_run acme_receipt[OF assms(1,3)] assms(2-6))

text \<open>The first page, and the continuation it leaves.\<close>

definition acme_rest :: Handle where
  "acme_rest = continuation_of acme_handle (acme_ref 18) 1"

lemma acme_handle_sel: "hd_EvidenceRef acme_handle = acme_ref 17" "hd_TenantRef acme_handle = ''acme''" "hd_RecordOffset acme_handle = 0" "hd_PageLimit acme_handle = 0"
  by (simp_all add: acme_handle_def located_handle_def Let_def acme_prin_def acme_staged_def)

lemma acme_handle_readable: "acme_readable acme_handle acme_located"
  by (simp add: acme_readable_def acme_handle_sel acme_valid acme_world acme_registered(2) NewEvidenceStore_def)
    (rule exI[of _ "acme_ref 17"], rule exI[of _ 0], simp add: acme_handle_def located_handle_def Let_def)

lemma acme_first_page:
  "\<exists>w'. ReadEvidence acme acme_prin acme_authz (acme_read (acme_ref 17) 1) acme_located
     = (Inr (acme_served acme_handle (acme_ref 18) [amount 5] (HandleObservation @ replicate 19 CHR ''x'')), w')
     \<and> ew_store w' = (ew_store acme_located)\<lparr>em_handles := em_handles (ew_store acme_located) @ [(handleKey ''acme'' (acme_ref 18), acme_rest)]\<rparr>
     \<and> ew_objects w' = ew_objects acme_located \<and> ew_ids w' = 4"
proof -
  have c: "canonical (acme_ref 18)" "canonical (HandleObservation @ replicate 19 CHR ''x'')"
      "ValidateHandle (HandleObservation @ replicate 19 CHR ''x'') HandleObservation = None" "handleKey ''acme'' (acme_ref 18) \<noteq> handleKey ''acme'' (acme_ref 17)"
    by code_simp+
  note h = acme_handle_readable
  have rest: "hd_TenantRef acme_rest = ''acme''" "hd_EvidenceRef acme_rest = acme_ref 18" by (simp_all add: acme_rest_def continuation_of_def acme_handle_sel)
  show ?thesis
    unfolding ReadEvidence_def acme_selectors with_ports_def option.case
    using h[unfolded acme_readable_def] c rest acme_checks[OF h, unfolded acme_handle_sel] acme_receipt[OF h c(3)]
    by (simp add: acme_valid acme_selectors acme_content read_run acme_handle_sel acme_world acme_rest_def[symmetric])
qed

text \<open>The worlds after the first page, and after the first handle was revoked.\<close>

definition acme_paged :: "(EvidenceStore, ObjectStore) EvidenceWorld" where
  "acme_paged = snd (ReadEvidence acme acme_prin acme_authz (acme_read (acme_ref 17) 1) acme_located)"

definition acme_revoked :: "(EvidenceStore, ObjectStore) EvidenceWorld" where
  "acme_revoked = snd (RevokeAuthorization acme ''acme'' (acme_ref 17) ''left'' acme_paged)"

lemma acme_revocation:
  "RevokeAuthorization acme ''acme'' (acme_ref 17) ''left'' acme_paged = (Inr (), acme_revoked)"
  "em_handles (ew_store acme_revoked) = [(handleKey ''acme'' (acme_ref 17), acme_handle), (handleKey ''acme'' (acme_ref 18), acme_rest)]"
  "em_events (ew_store acme_revoked) (handleKey ''acme'' (acme_ref 18)) = []" "em_bindings (ew_store acme_revoked) = em_bindings (ew_store acme_registered)"
  "ew_objects acme_revoked = ew_objects acme_located" "ew_ids acme_revoked = 5"
proof -
  have c: "canonical ''acme''" "canonical (acme_ref 17)" "\<not> hasControlBytes ''left''" "canonical (''evt_'' @ replicate 20 CHR ''x'')"
      "handleKey ''acme'' (acme_ref 18) \<noteq> handleKey ''acme'' (acme_ref 17)" by code_simp+
  have p: "em_handles (ew_store acme_paged) = [(handleKey ''acme'' (acme_ref 17), acme_handle), (handleKey ''acme'' (acme_ref 18), acme_rest)]"
      "em_events (ew_store acme_paged) = (\<lambda>_. [])" "em_bindings (ew_store acme_paged) = em_bindings (ew_store acme_registered)"
      "ew_objects acme_paged = ew_objects acme_located" "ew_ids acme_paged = 4"
    using acme_first_page by (auto simp: acme_paged_def acme_world acme_registered(2) NewEvidenceStore_def)
  note run = RevokeAuthorization_def plane_run acme_selectors em_GetHandle_def em_AppendHandleEvent_def handle_event_def kind_valid_def p
    c(1-3) c(4)[simplified]
  show "RevokeAuthorization acme ''acme'' (acme_ref 17) ''left'' acme_paged = (Inr (), acme_revoked)" by (simp add: acme_revoked_def run)
  show "em_handles (ew_store acme_revoked) = [(handleKey ''acme'' (acme_ref 17), acme_handle), (handleKey ''acme'' (acme_ref 18), acme_rest)]"
    "em_events (ew_store acme_revoked) (handleKey ''acme'' (acme_ref 18)) = []" "em_bindings (ew_store acme_revoked) = em_bindings (ew_store acme_registered)"
    "ew_objects acme_revoked = ew_objects acme_located" "ew_ids acme_revoked = 5"
    using c(5) by (simp_all add: acme_revoked_def run)
qed

text \<open>Revoking a handle leaves the continuation a read of it issued readable: the revocation names one reference, and the
  continuation has its own.\<close>

lemma revocation_misses_continuations:
  "\<exists>ref w'. ReadEvidence acme acme_prin acme_authz (acme_read (acme_ref 18) 0) acme_revoked = (Inr (acme_served acme_rest [] [amount 7] ref), w')"
proof -
  have c: "EvidenceReadRequest_Validate (acme_read (acme_ref 18) 0) = None" "EvidenceReadRequest_Validate (acme_read (acme_ref 18) 1) = None"
      "canonical (HandleObservation @ replicate 21 CHR ''x'')" "ValidateHandle (HandleObservation @ replicate 21 CHR ''x'') HandleObservation = None"
      "handleKey ''acme'' (acme_ref 18) \<noteq> handleKey ''acme'' (acme_ref 17)"
    by code_simp+
  have r: "hd_EvidenceRef acme_rest = acme_ref 18" "hd_RecordOffset acme_rest = int 1" by (simp_all add: acme_rest_def continuation_of_def)
  have "acme_readable acme_rest acme_revoked"
    unfolding acme_readable_def r
    using c acme_revocation
    by (auto simp: acme_registered(2) acme_world acme_rest_def continuation_of_def intro!: exI[of _ "acme_ref 18"] exI[of _ "1 :: int"])
  from acme_reads[OF this _ c(4,3) r(2)] show ?thesis by (auto simp: acme_revocation r)
qed

end
