(* ===== verification/EvidenceProperties.thy ===== *)
theory EvidenceProperties
  imports EvidenceReads EvidenceExample
begin

text \<open>
  What the evidence plane promises over the in-memory stores, with one concrete deployment at which each property
  applies: tenant \<open>acme\<close>, whose purchase records the agent \<open>atlas\<close> locates and reads.
\<close>

subsection \<open>Runs from the empty plane\<close>

definition fresh_plane :: "(EvidenceStore, 'ob) EvidenceWorld \<Rightarrow> bool" where
  "fresh_plane w \<longleftrightarrow> ew_store w = NewEvidenceStore"

lemma reached:
  assumes "es_ports sv = Some po" and "po_store po = memory_evidence" and "fresh_plane w0" and "(plane_step sv)\<^sup>*\<^sup>* w0 w"
  shows "em_wf (ew_store w)" and "evidence.current (ew_store w)"
  using evidence.run_later[OF assms(1,2,4)] assms(3) by (simp_all add: fresh_plane_def new_evidence_store)

inductive withdraws :: "('st, 'ob, 'v) EvidenceService \<Rightarrow> Handle \<Rightarrow> ('st, 'ob) EvidenceWorld \<Rightarrow> ('st, 'ob) EvidenceWorld \<Rightarrow> bool"
  for sv :: "('st, 'ob, 'v) EvidenceService" and h :: Handle where
  "InvalidateSourceVersion sv (hd_TenantRef h) (hd_DataClass h) w = (Inr b, w') \<Longrightarrow> withdraws sv h w w'"
| "DeleteSource sv (hd_TenantRef h) (hd_DataClass h) w = (Inr (), w') \<Longrightarrow> withdraws sv h w w'"
| "RevokeAuthorization sv (hd_TenantRef h) (hd_EvidenceRef h) reason w = (Inr (), w') \<Longrightarrow> withdraws sv h w w'"



lemma acme_run: "(plane_step acme)\<^sup>*\<^sup>* acme_fresh acme_located" "fresh_plane acme_fresh" "nul_free (pc_TenantRef acme_prin)"
proof -
  have n: "nul_free (pc_TenantRef acme_prin)" "nul_free (sb_TenantRef acme_binding)" by code_simp+
  have "plane_step acme acme_fresh acme_registered" unfolding acme_registered_def by (rule plane_step.registered[OF n(2)])
  moreover have "plane_step acme acme_registered acme_located" unfolding acme_located_def by (rule plane_step.located[OF n(1)])
  ultimately show "(plane_step acme)\<^sup>*\<^sup>* acme_fresh acme_located" by auto
  show "nul_free (pc_TenantRef acme_prin)" by (rule n)
qed (simp add: fresh_plane_def acme_fresh_def)




subsection \<open>Allowed reads\<close>

text \<open>C9: a read that is allowed was entitled: the handle is stored and bound to the caller's principal, client, release,
  context and purpose, neither it nor the request has expired, no revocation or expiry was recorded, its source is live,
  the same and at the same version, a connector source has the connector capability, the policy decider allowed the very
  capability the source demands, and the read is in the audit lineage under the content's hash.\<close>

theorem allowed_read_is_entitled:
  assumes "es_ports sv = Some po" and "po_store po = memory_evidence" and "ReadEvidence sv prin authz req w = (Inr rr, w')"
    and "rr_Decision rr \<noteq> ''deny''"
  shows "\<exists>h b event ref. em_handle (ew_store w) (pc_TenantRef prin) (er_EvidenceRef req) = Some h
     \<and> em_binding (ew_store w) (pc_TenantRef prin) (hd_DataClass h) = Some b
     \<and> entitled po prin authz req (es_now sv (ew_ticks w)) h (em_event (ew_store w) (pc_TenantRef prin) (hd_EvidenceRef h)) b
     \<and> (event, Inr ref) \<in> set (ew_lineage w') \<and> ref \<noteq> [] \<and> read_lineage prin h event"
proof -
  from assms(4) have ok: "rr \<noteq> denied" by (auto simp: denied_def)
  obtain h b declared where served: "evidence.served sv po prin authz req w h b declared rr w'"
    by (rule evidence.allowed_readD[OF assms(3) ok assms(1,2)])
  then obtain w'' where run: "serve_read sv po prin authz req h b declared w'' = (Inr rr, w')" by (auto simp: evidence.served_def)
  from serve_lineage[OF run] served show ?thesis unfolding evidence.served_def by blast
qed

lemma acme_read_result:
  "\<exists>w'. ReadEvidence acme acme_prin acme_authz (acme_read (acme_ref 17) 0) acme_located
     = (Inr (acme_served acme_handle [] [amount 5, amount 7] (HandleObservation @ replicate 18 CHR ''x'')), w')"
proof -
  have c: "ValidateHandle (HandleObservation @ replicate 18 CHR ''x'') HandleObservation = None" "canonical (HandleObservation @ replicate 18 CHR ''x'')"
    by code_simp+
  from acme_reads[OF acme_handle_readable _ c, of 0] show ?thesis by (auto simp: acme_world acme_handle_sel)
qed

lemma allowed_read_is_entitled_witness:
  "\<exists>(w' :: (EvidenceStore, ObjectStore) EvidenceWorld) h b event ref. em_handle (ew_store acme_located) (pc_TenantRef acme_prin) (er_EvidenceRef (acme_read (acme_ref 17) 0)) = Some h
     \<and> em_binding (ew_store acme_located) (pc_TenantRef acme_prin) (hd_DataClass h) = Some b
     \<and> entitled acme_ports acme_prin acme_authz (acme_read (acme_ref 17) 0) (es_now acme (ew_ticks acme_located)) h
         (em_event (ew_store acme_located) (pc_TenantRef acme_prin) (hd_EvidenceRef h)) b
     \<and> (event, Inr ref) \<in> set (ew_lineage w') \<and> ref \<noteq> [] \<and> read_lineage acme_prin h event"
proof -
  obtain w' where r: "ReadEvidence acme acme_prin acme_authz (acme_read (acme_ref 17) 0) acme_located
     = (Inr (acme_served acme_handle [] [amount 5, amount 7] (HandleObservation @ replicate 18 CHR ''x'')), w')" using acme_read_result by blast
  show ?thesis by (rule exI[of _ w'], rule allowed_read_is_entitled[OF acme_selectors(1,6) r]) (simp add: acme_served_def)
qed


text \<open>C14: the data of an allowed read of a handle with a non-negative offset is the caller's projection of one page of the records whose serialized bytes have the
  handle's content hash, opened from the object store under the handle's key. When records remain, a continuation handle is
  stored that differs in reference, offset and lineage only, and the page followed by its records is all the handle had.\<close>

theorem read_page_and_continuation_cover_content:
  assumes "es_ports sv = Some po" and "po_store po = memory_evidence" and "ReadEvidence sv prin authz req w = (Inr rr, w')"
    and "rr_Decision rr \<noteq> ''deny''" and "em_handle (ew_store w) (pc_TenantRef prin) (er_EvidenceRef req) = Some h" and "0 \<le> hd_RecordOffset h"
  shows "\<exists>plaintext records window. sha256_hex plaintext = hd_ContentHash h \<and> cs_Unmarshal (es_codec sv) plaintext = Some records
     \<and> rr_Data rr = Some (projectRecords window (er_Fields req))
     \<and> (if rr_ContinuationRef rr = [] then window = drop (nat (hd_RecordOffset h)) records
        else \<exists>n. hd_RecordOffset h < n
          \<and> em_handle (ew_store w') (hd_TenantRef h) (rr_ContinuationRef rr) = Some (continuation_of h (rr_ContinuationRef rr) n)
          \<and> window \<noteq> [] \<and> window @ drop (nat n) records = drop (nat (hd_RecordOffset h)) records)"
proof -
  from assms(4) have ok: "rr \<noteq> denied" by (auto simp: denied_def)
  obtain h0 b declared where "evidence.served sv po prin authz req w h0 b declared rr w'"
    by (rule evidence.allowed_readD[OF assms(3) ok assms(1,2)])
  with assms(5) obtain w'' where run: "serve_read sv po prin authz req h b declared w'' = (Inr rr, w')" by (auto simp: evidence.served_def)
  from serve_read_store[OF run] obtain records window w1 w2 where r: "staged_records sv po prin h w'' = (Inr records, w1)"
      "take_page sv po req h records w1 = (Inr (window, rr_ContinuationRef rr), w2)"
      "rr_Data rr = Some (projectRecords window (er_Fields req))" "ew_store w' = ew_store w2" .
  obtain plaintext where "sha256_hex plaintext = hd_ContentHash h" "cs_Unmarshal (es_codec sv) plaintext = Some records"
    using staged_recordsD[OF r(1)] by metis
  with take_pageD[OF r(2) assms(2,6)] r(3,4) show ?thesis by (intro exI[of _ plaintext] exI[of _ records] exI[of _ window]) auto
qed

lemma read_page_and_continuation_cover_content_witness:
  "\<exists>w' rr records window n. ReadEvidence acme acme_prin acme_authz (acme_read (acme_ref 17) 1) acme_located = (Inr rr, w') \<and> rr_ContinuationRef rr = acme_ref 18
     \<and> rr_Data rr = Some (projectRecords window None) \<and> em_handle (ew_store w') ''acme'' (acme_ref 18) = Some (continuation_of acme_handle (acme_ref 18) n)
     \<and> window @ drop (nat n) records = records"
proof -
  obtain w' where r: "ReadEvidence acme acme_prin acme_authz (acme_read (acme_ref 17) 1) acme_located
     = (Inr (acme_served acme_handle (acme_ref 18) [amount 5] (HandleObservation @ replicate 19 CHR ''x'')), w')" using acme_first_page by blast
  have found: "em_handle (ew_store acme_located) (pc_TenantRef acme_prin) (er_EvidenceRef (acme_read (acme_ref 17) 1)) = Some acme_handle"
    by (simp add: em_handle_def acme_selectors acme_world)
  have "HandleEvidence \<noteq> []" by code_simp
  with read_page_and_continuation_cover_content[OF acme_selectors(1,6) r _ found] r show ?thesis
    by (auto simp: acme_served_def acme_handle_sel acme_selectors)
qed








subsection \<open>Failures and sweeps\<close>

text \<open>C10: over the in-memory stores, a locate that fails, at whatever step, leaves no evidence behind: no object is stored that was not stored
  before, no source binding changed, and every handle it created is revoked.\<close>

theorem failed_locate_leaves_no_evidence:
  assumes "es_ports sv = Some po" and "po_store po = memory_evidence" and "po_objects po = memory_objects"
    and "Locate sv prin authz req w = (Inl e, w')"
  shows "ew_objects w' \<subseteq>\<^sub>m ew_objects w \<and> em_bindings (ew_store w') = em_bindings (ew_store w)
     \<and> (\<forall>t ref h. em_handle (ew_store w') t ref = Some h \<longrightarrow> em_handle (ew_store w) t ref = Some h
          \<or> (\<exists>event \<in> set (em_event (ew_store w') t ref). ev_Kind event = HandleEventRevoked))"
proof -
  have "wp (Locate sv prin authz req) (\<lambda>_ _. True) (\<lambda>_. traceless w) w" using failed_locate[OF assms(1-3)] by (simp add: undoes_def)
  from wp_Inl[OF this assms(4)] show ?thesis by (auto simp: traceless_def em_handle_def em_event_def revoked_at_def)
qed

lemma failed_locate_leaves_no_evidence_witness:
  "\<exists>e w'. Locate acme_dark acme_prin acme_authz acme_request acme_registered = (Inl e, w') \<and> ew_objects w' \<subseteq>\<^sub>m ew_objects acme_registered"
proof -
  obtain e w' where r: "Locate acme_dark acme_prin acme_authz acme_request acme_registered = (Inl e, w')"
    using acme_dark_fails by blast
  have "es_ports acme_dark = Some (acme_ports\<lparr>po_audit := \<lambda>n event. Inl (Message ''down'')\<rparr>)" by (simp add: acme_dark_def)
  from failed_locate_leaves_no_evidence[OF this _ _ r] r show ?thesis by (auto simp: acme_selectors)
qed

text \<open>C13: a retention sweep returns, after at most as many batches as the tenant has contents that are not yet expired and
  one more; every content it marked expired is gone from the object store, no handle or binding changed, and if it
  reports no error then no content of the tenant is left whose retention has passed.\<close>

theorem retention_sweep_ends_and_drains:
  assumes "es_ports sv = Some po" and "po_store po = memory_evidence" and "po_objects po = memory_objects"
    and "fresh_plane w0" and "(plane_step sv)\<^sup>*\<^sup>* w0 w" and "nul_free t"
    and "card {e. \<exists>h. em_handle (ew_store w) t e = Some h \<and> \<not> content_expired (em_event (ew_store w) t e)} < fuel"
  shows "\<exists>err n w'. SweepRetention fuel sv t w = Some ((err, n), w')
     \<and> (\<forall>e. em_handle (ew_store w') t e = em_handle (ew_store w) t e) \<and> ew_objects w' \<subseteq>\<^sub>m ew_objects w
     \<and> (\<forall>e h. em_handle (ew_store w) t e = Some h \<longrightarrow> \<not> content_expired (em_event (ew_store w) t e)
          \<longrightarrow> content_expired (em_event (ew_store w') t e) \<longrightarrow> ew_objects w' (hd_ObjectKey h) = None)
     \<and> (err = None \<longrightarrow> (\<forall>e h. em_handle (ew_store w') t e = Some h
          \<longrightarrow> \<not> due (es_now sv (ew_ticks w' - 1)) h (em_event (ew_store w') t e)))"
proof -
  have wf: "em_wf (ew_store w)" by (rule reached[OF assms(1,2,4,5)])
  show ?thesis
  proof (cases "canonical t")
    case True
    obtain err n w' where s: "sweep_loop fuel sv po t 0 w = Some ((err, n), w')" "evidence.swept_to t w w'"
        "err = None \<longrightarrow> (\<forall>e h. em_handle (ew_store w') t e = Some h \<longrightarrow> \<not> due (es_now sv (ew_ticks w' - 1)) h (em_event (ew_store w') t e))"
      using evidence.sweep_loop_run[OF assms(2,3,6) wf] assms(7) unfolding evidence.unswept_def by blast
    have h: "em_handle (ew_store w') t e = em_handle (ew_store w) t e" for e by (rule evidence.swept_handle[OF assms(6) s(2)])
    have "SweepRetention fuel sv t w = Some ((err, n), w')" using True s(1) by (simp add: SweepRetention_def assms(1))
    moreover have "ew_objects w' (hd_ObjectKey g) = None" if "em_handle (ew_store w) t e = Some g"
        "\<not> content_expired (em_event (ew_store w) t e)" "content_expired (em_event (ew_store w') t e)" for e g
      using s(2) that unfolding evidence.swept_to_def evidence.unswept_def by auto
    moreover have "ew_objects w' \<subseteq>\<^sub>m ew_objects w" using s(2) by (simp add: evidence.swept_to_def)
    ultimately show ?thesis using s(3) h by (intro exI[of _ err] exI[of _ n] exI[of _ w']) simp
  qed (simp add: SweepRetention_def assms(1))
qed

lemma retention_sweep_ends_and_drains_witness:
  "\<exists>err n w'. SweepRetention 2 acme ''acme'' acme_located = Some ((err, n), w') \<and> ew_objects w' \<subseteq>\<^sub>m ew_objects acme_located"
proof -
  have "{e. \<exists>h. em_handle (ew_store acme_located) ''acme'' e = Some h \<and> \<not> content_expired (em_event (ew_store acme_located) ''acme'' e)} \<subseteq> {acme_ref 17}"
    by (auto simp: em_handle_def acme_world handleKey_def split: if_splits)
  from card_mono[OF _ this] have "card {e. \<exists>h. em_handle (ew_store acme_located) ''acme'' e = Some h
      \<and> \<not> content_expired (em_event (ew_store acme_located) ''acme'' e)} < 2" by simp
  from retention_sweep_ends_and_drains[OF acme_selectors(1,6,7) acme_run(2,1) _ this] acme_run(3) show ?thesis by (auto simp: acme_selectors)
qed


end
