(* ===== verification/GoBase64Url.thy ===== *)
theory GoBase64Url
  imports GoBase64
begin

text \<open>
  \<open>base64.RawURLEncoding\<close>: the URL alphabet without padding. Decoding is not strict: line breaks are skipped and the unused
  bits of the last quantum are ignored; a padding character is an error. It is the standard encoding under a renaming of two
  characters, with the padding dropped.
\<close>

definition to_url :: "char \<Rightarrow> char" where
  "to_url c = (if c = CHR ''+'' then CHR ''-'' else if c = CHR ''/'' then CHR ''_'' else c)"

definition from_url :: "char \<Rightarrow> char" where
  "from_url c = (if c = CHR ''-'' then CHR ''+'' else if c = CHR ''_'' then CHR ''/'' else c)"

definition padded :: "string \<Rightarrow> string" where
  "padded s = (if length s mod 4 = 2 then s @ ''=='' else if length s mod 4 = 3 then s @ ''='' else s)"

definition raw_url_encode :: "string \<Rightarrow> string" where
  "raw_url_encode s = map to_url (filter (\<lambda>c. c \<noteq> CHR ''='') (base64_encode s))"

definition raw_url_decode :: "string \<Rightarrow> string option" where
  "raw_url_decode s =
     (let t = filter (\<lambda>c. c \<noteq> CHR 0x0A \<and> c \<noteq> CHR 0x0D) s in
      if list_ex (\<lambda>c. c = CHR ''='' \<or> c = CHR ''+'' \<or> c = CHR ''/'') t then None else decode_quanta (padded (map from_url t)))"

lemma sextet_chars:
  assumes "n < 64"
  shows "sextet_char n \<noteq> CHR ''-'' \<and> sextet_char n \<noteq> CHR ''_'' \<and> sextet_char n \<noteq> CHR ''=''"
proof -
  have "sextet_char n \<in> set alphabet" using assms nth_mem[of n alphabet] by (simp only: alphabet_facts sextet_char_def)
  then show ?thesis by (auto simp: alphabet_def)
qed

lemma encoded_chars: "c \<in> set (base64_encode s) \<Longrightarrow> c \<noteq> CHR ''-'' \<and> c \<noteq> CHR ''_'' \<and> c \<noteq> CHR 0x0A \<and> c \<noteq> CHR 0x0D"
  by (induction s rule: base64_encode.induct)
    (auto simp: sextet_chars sextet_char_plain sextet_bounds)

lemma padded_encoding: "padded (filter (\<lambda>c. c \<noteq> CHR ''='') (base64_encode s)) = base64_encode s"
proof (induction s rule: base64_encode.induct)
  case (4 a b c s)
  have "padded (w # x # y # z # t) = w # x # y # z # padded t" for w x y z t
    by (simp add: padded_def mod_Suc)
  with 4 show ?case by (simp add: sextet_chars sextet_bounds)
qed (simp_all add: padded_def sextet_chars sextet_bounds)

lemma from_to_url: "c \<noteq> CHR ''-'' \<Longrightarrow> c \<noteq> CHR ''_'' \<Longrightarrow> from_url (to_url c) = c"
  by (simp add: from_url_def to_url_def)

lemma to_url_plain: "c \<noteq> CHR ''='' \<Longrightarrow> c \<noteq> CHR 0x0A \<Longrightarrow> c \<noteq> CHR 0x0D \<Longrightarrow>
    to_url c \<noteq> CHR ''='' \<and> to_url c \<noteq> CHR ''+'' \<and> to_url c \<noteq> CHR ''/'' \<and> to_url c \<noteq> CHR 0x0A \<and> to_url c \<noteq> CHR 0x0D"
  by (simp add: to_url_def)

lemma raw_url_roundtrip [simp]: "raw_url_decode (raw_url_encode s) = Some s"
proof -
  let ?e = "filter (\<lambda>c. c \<noteq> CHR ''='') (base64_encode s)"
  have plain: "\<forall>c \<in> set (raw_url_encode s). c \<noteq> CHR ''='' \<and> c \<noteq> CHR ''+'' \<and> c \<noteq> CHR ''/'' \<and> c \<noteq> CHR 0x0A \<and> c \<noteq> CHR 0x0D"
    by (auto simp: raw_url_encode_def dest: encoded_chars to_url_plain)
  then have f: "filter (\<lambda>c. c \<noteq> CHR 0x0A \<and> c \<noteq> CHR 0x0D) (raw_url_encode s) = raw_url_encode s" by (simp add: filter_id_conv)
  have "map from_url (raw_url_encode s) = ?e"
    by (auto simp: raw_url_encode_def intro!: map_idI from_to_url dest: encoded_chars)
  then show ?thesis
    using plain by (simp add: raw_url_decode_def f list_ex_iff padded_encoding decode_quanta_encode)
qed

end
