(* ===== verification/BrowserAuth.thy ===== *)
theory BrowserAuth
  imports GoBase64Url GoCrypto "HOL-Library.List_Lexorder" "HOL-Library.Product_Lexorder" "HOL-Library.Word"
begin

text \<open>
  \<^verbatim>\<open>internal/browserauth\<close>: browser sessions, PKCE authorization codes, access tokens and outstanding OIDC
  logins. The service keeps only digests of the secrets it hands out; the store is an interface, \<open>MemoryStore\<close> its
  in-memory implementation. A context is polled before and after the store's lock is taken: a poll is the two answers.
  \<open>container/heap\<close> is a list kept in the order of \<open>Less\<close>: its head is the least item.
\<close>

datatype browser_error =
    ErrInvalidSession | ErrInvalidGrant | ErrInvalidInput | ErrInvalidLoginAttempt | ErrSessionUnavailable | ErrGrantUnavailable
  | ErrLoginAttemptUnavailable | ErrLoginAttemptLimited | ErrInvalidAccessToken | ErrAccessTokenUnavailable
  | errNotFound | errInvalidBinding | errDuplicate | errStoreUnavailable | errStoreInvariant | errLoginAttemptLimited

type_synonym browser_go_error = "browser_error go_error"

definition hour :: duration where "hour = 60 * minute"
definition defaultIdleTimeout :: duration where "defaultIdleTimeout = 8 * hour"
definition defaultAbsoluteTimeout :: duration where "defaultAbsoluteTimeout = 24 * hour"
definition defaultCodeTimeout :: duration where "defaultCodeTimeout = 60 * second"
definition defaultLoginTimeout :: duration where "defaultLoginTimeout = 5 * minute"
definition defaultPerBrowserLoginAttemptLimit :: int where "defaultPerBrowserLoginAttemptLimit = 8"
definition defaultGlobalLoginAttemptLimit :: int where "defaultGlobalLoginAttemptLimit = 65536"
definition maxPerBrowserLoginAttemptLimit :: int where "maxPerBrowserLoginAttemptLimit = 64"
definition maxGlobalLoginAttemptLimit :: int where "maxGlobalLoginAttemptLimit = 1000000"
definition maxClientIDLength :: nat where "maxClientIDLength = 256"
definition maxRedirectURILength :: nat where "maxRedirectURILength = 2048"
definition maxConsoleStateLength :: nat where "maxConsoleStateLength = 1024"
definition maxNonceLength :: nat where "maxNonceLength = 512"

lemmas timeout_defs = hour_def minute_def second_def defaultIdleTimeout_def defaultAbsoluteTimeout_def defaultCodeTimeout_def defaultLoginTimeout_def

subsection \<open>Data (model.go)\<close>

record BrowserSession =
  bs_EnterpriseID :: string
  bs_UserID :: string
  bs_CreatedAt :: time
  bs_LastSeenAt :: time
  bs_IdleExpiresAt :: time
  bs_AbsoluteExpiresAt :: time

record CreateSessionInput =
  cs_EnterpriseID :: string
  cs_UserID :: string
  cs_UserAgent :: string

record IssueCodeInput =
  ic_EnterpriseID :: string
  ic_UserID :: string
  ic_ClientID :: string
  ic_RedirectURI :: string
  ic_Nonce :: string
  ic_CodeChallenge :: string
  ic_BrowserSessionToken :: string

record ExchangeCodeInput =
  xc_Code :: string
  xc_Verifier :: string
  xc_ClientID :: string
  xc_RedirectURI :: string

record ExchangeResult =
  xr_EnterpriseID :: string
  xr_UserID :: string
  xr_Nonce :: string
  xr_AccessToken :: string
  xr_AccessTokenExpiresAt :: time
  xr_AccessTokenExpiresIn :: duration

record CreateLoginAttemptInput =
  ca_EnterpriseID :: string
  ca_ClientID :: string
  ca_BrowserID :: string
  ca_RedirectURI :: string
  ca_ConsoleState :: string
  ca_ConsoleNonce :: string
  ca_CodeChallenge :: string

record LoginAttempt =
  la_EnterpriseID :: string
  la_ClientID :: string
  la_RedirectURI :: string
  la_ConsoleState :: string
  la_ConsoleNonce :: string
  la_CodeChallenge :: string
  la_UpstreamNonce :: string
  la_CreatedAt :: time
  la_ExpiresAt :: time

record storedLoginAttempt =
  sl_StateHash :: string
  sl_BindingHash :: string
  sl_BrowserIDHash :: string
  sl_LoginAttempt :: LoginAttempt

record storedSession =
  ss_IDHash :: string
  ss_EnterpriseID :: string
  ss_UserID :: string
  ss_CreatedAt :: time
  ss_LastSeenAt :: time
  ss_IdleExpiresAt :: time
  ss_AbsoluteExpiresAt :: time
  ss_RevokedAt :: "time option"
  ss_UserAgentHash :: string

record storedAuthorizationCode =
  sc_CodeHash :: string
  sc_EnterpriseID :: string
  sc_UserID :: string
  sc_ClientID :: string
  sc_RedirectURI :: string
  sc_Nonce :: string
  sc_CodeChallenge :: string
  sc_CreatedAt :: time
  sc_ExpiresAt :: time
  sc_ConsumedAt :: "time option"
  sc_BrowserSessionIDHash :: string
  sc_AccessTokenExpiresAt :: time

record storedAccessToken =
  st_TokenHash :: string
  st_BrowserSessionIDHash :: string
  st_EnterpriseID :: string
  st_UserID :: string
  st_ClientID :: string
  st_Audience :: string
  st_CreatedAt :: time
  st_ExpiresAt :: time
  st_RevokedAt :: "time option"
  st_SessionCreatedAt :: time
  st_SessionLastSeenAt :: time
  st_SessionIdleExpiresAt :: time
  st_SessionAbsoluteExpiresAt :: time

record exchangeRequest =
  xq_CodeHash :: string
  xq_VerifierDigest :: string
  xq_ClientID :: string
  xq_RedirectURI :: string
  xq_Now :: time
  xq_AccessTokenHash :: string
  xq_Audience :: string

definition publicSession :: "storedSession \<Rightarrow> BrowserSession" where
  "publicSession session = \<lparr>bs_EnterpriseID = ss_EnterpriseID session, bs_UserID = ss_UserID session, bs_CreatedAt = ss_CreatedAt session,
     bs_LastSeenAt = ss_LastSeenAt session, bs_IdleExpiresAt = ss_IdleExpiresAt session, bs_AbsoluteExpiresAt = ss_AbsoluteExpiresAt session\<rparr>"

record LoginAttemptLimits =
  ll_PerBrowser :: int
  ll_Global :: int

definition DefaultLoginAttemptLimits :: LoginAttemptLimits where
  "DefaultLoginAttemptLimits = \<lparr>ll_PerBrowser = defaultPerBrowserLoginAttemptLimit, ll_Global = defaultGlobalLoginAttemptLimit\<rparr>"

definition limits_valid :: "LoginAttemptLimits \<Rightarrow> bool" where
  "limits_valid l \<longleftrightarrow> ll_PerBrowser l \<ge> 1 \<and> ll_PerBrowser l \<le> maxPerBrowserLoginAttemptLimit \<and> ll_Global l \<ge> ll_PerBrowser l
     \<and> ll_Global l \<le> maxGlobalLoginAttemptLimit"

definition NewLoginAttemptLimits :: "int \<Rightarrow> int \<Rightarrow> browser_go_error + LoginAttemptLimits" where
  "NewLoginAttemptLimits perBrowser global =
     (let limits = \<lparr>ll_PerBrowser = perBrowser, ll_Global = global\<rparr> in
      if \<not> limits_valid limits then Inl (Sentinel ErrInvalidInput) else Inr limits)"

subsection \<open>The store interface\<close>

type_synonym poll = "browser_go_error option \<times> browser_go_error option"
type_synonym ('st, 'a) browser_op = "(browser_error, 'st, 'a) effect"

record 'st BrowserOps =
  bo_EnterpriseUserBindingExists :: "poll \<Rightarrow> string \<Rightarrow> string \<Rightarrow> ('st, bool) browser_op"
  bo_CreateSession :: "poll \<Rightarrow> storedSession \<Rightarrow> ('st, unit) browser_op"
  bo_UseSession :: "poll \<Rightarrow> string \<Rightarrow> time \<Rightarrow> duration \<Rightarrow> ('st, storedSession) browser_op"
  bo_RevokeSession :: "poll \<Rightarrow> string \<Rightarrow> time \<Rightarrow> ('st, unit) browser_op"
  bo_RevokeAndGetSession :: "poll \<Rightarrow> string \<Rightarrow> time \<Rightarrow> ('st, storedSession) browser_op"
  bo_CreateAuthorizationCode :: "poll \<Rightarrow> storedAuthorizationCode \<Rightarrow> ('st, unit) browser_op"
  bo_ExchangeAuthorizationCode :: "poll \<Rightarrow> exchangeRequest \<Rightarrow> ('st, storedAuthorizationCode) browser_op"
  bo_UseAccessToken :: "poll \<Rightarrow> string \<Rightarrow> string \<Rightarrow> string \<Rightarrow> string \<Rightarrow> time \<Rightarrow> ('st, storedAccessToken) browser_op"
  bo_RevokeSessionByAccessToken :: "poll \<Rightarrow> string \<Rightarrow> string \<Rightarrow> string \<Rightarrow> string \<Rightarrow> time \<Rightarrow> ('st, storedSession) browser_op"
  bo_CreateLoginAttempt :: "poll \<Rightarrow> storedLoginAttempt \<Rightarrow> LoginAttemptLimits \<Rightarrow> ('st, unit) browser_op"
  bo_ConsumeLoginAttempt :: "poll \<Rightarrow> string \<Rightarrow> string \<Rightarrow> time \<Rightarrow> ('st, storedLoginAttempt) browser_op"

subsection \<open>The in-memory store (memory\_store.go)\<close>

record loginAttemptScope =
  lc_EnterpriseID :: string
  lc_ClientID :: string

record loginAttemptBrowserScope =
  lb_scope :: loginAttemptScope
  lb_BrowserIDHash :: string

record loginAttemptExpiryItem =
  le_ExpiresAt :: time
  le_StateHash :: string
  le_Generation :: "64 word"

record BrowserStore =
  bm_users :: "string set"
  bm_sessions :: "string \<rightharpoonup> storedSession"
  bm_codes :: "string \<rightharpoonup> storedAuthorizationCode"
  bm_accessTokens :: "string \<rightharpoonup> storedAccessToken"
  bm_loginAttempts :: "string \<rightharpoonup> storedLoginAttempt"
  bm_loginAttemptGeneration :: "string \<rightharpoonup> 64 word"
  bm_nextAttemptGeneration :: "64 word"
  bm_scopeCounts :: "loginAttemptScope \<rightharpoonup> int"
  bm_browserCounts :: "loginAttemptBrowserScope \<rightharpoonup> int"
  bm_loginAttemptExpiry :: "loginAttemptExpiryItem list"
  bm_err :: "browser_go_error option"

definition NewBrowserStore :: BrowserStore where
  "NewBrowserStore = \<lparr>bm_users = {}, bm_sessions = Map.empty, bm_codes = Map.empty, bm_accessTokens = Map.empty,
     bm_loginAttempts = Map.empty, bm_loginAttemptGeneration = Map.empty, bm_nextAttemptGeneration = 0,
     bm_scopeCounts = Map.empty, bm_browserCounts = Map.empty, bm_loginAttemptExpiry = [], bm_err = None\<rparr>"

definition userKey :: "string \<Rightarrow> string \<Rightarrow> string" where
  "userKey enterpriseID userID = enterpriseID @ [CHR 0x00] @ userID"

text \<open>Reading an absent counter gives 0.\<close>

definition count_of :: "('k \<rightharpoonup> int) \<Rightarrow> 'k \<Rightarrow> int" where
  "count_of counts key = (case counts key of None \<Rightarrow> 0 | Some n \<Rightarrow> n)"

definition incrementLoginAttemptCount :: "('k \<rightharpoonup> int) \<Rightarrow> 'k \<Rightarrow> 'k \<rightharpoonup> int" where
  "incrementLoginAttemptCount counts key = counts(key \<mapsto> count_of counts key + 1)"

definition decrementLoginAttemptCount :: "('k \<rightharpoonup> int) \<Rightarrow> 'k \<Rightarrow> 'k \<rightharpoonup> int" where
  "decrementLoginAttemptCount counts key =
     (if count_of counts key \<le> 1 then counts(key := None) else counts(key \<mapsto> count_of counts key - 1))"

definition attempt_scope :: "storedLoginAttempt \<Rightarrow> loginAttemptScope" where
  "attempt_scope a = \<lparr>lc_EnterpriseID = la_EnterpriseID (sl_LoginAttempt a), lc_ClientID = la_ClientID (sl_LoginAttempt a)\<rparr>"

definition attempt_browser :: "storedLoginAttempt \<Rightarrow> loginAttemptBrowserScope" where
  "attempt_browser a = \<lparr>lb_scope = attempt_scope a, lb_BrowserIDHash = sl_BrowserIDHash a\<rparr>"

abbreviation sl_ExpiresAt :: "storedLoginAttempt \<Rightarrow> time" where
  "sl_ExpiresAt a \<equiv> la_ExpiresAt (sl_LoginAttempt a)"

definition heap_key :: "loginAttemptExpiryItem \<Rightarrow> time \<times> string" where
  "heap_key item = (le_ExpiresAt item, le_StateHash item)"

definition heap_push :: "loginAttemptExpiryItem \<Rightarrow> loginAttemptExpiryItem list \<Rightarrow> loginAttemptExpiryItem list" where
  "heap_push item h = insort_key heap_key item h"

definition deleteLoginAttempt :: "storedLoginAttempt \<Rightarrow> BrowserStore \<Rightarrow> BrowserStore" where
  "deleteLoginAttempt record s =
     s\<lparr>bm_loginAttempts := (bm_loginAttempts s)(sl_StateHash record := None),
       bm_loginAttemptGeneration := (bm_loginAttemptGeneration s)(sl_StateHash record := None),
       bm_scopeCounts := decrementLoginAttemptCount (bm_scopeCounts s) (attempt_scope record),
       bm_browserCounts := decrementLoginAttemptCount (bm_browserCounts s) (attempt_browser record)\<rparr>"

text \<open>One popped item: the attempt it stands for goes, unless the item is stale. An absent generation reads as 0.\<close>

definition expire_item :: "loginAttemptExpiryItem \<Rightarrow> BrowserStore \<Rightarrow> BrowserStore" where
  "expire_item item s =
     (case bm_loginAttempts s (le_StateHash item) of
        None \<Rightarrow> s
      | Some record \<Rightarrow>
          if (case bm_loginAttemptGeneration s (le_StateHash item) of None \<Rightarrow> 0 | Some g \<Rightarrow> g) \<noteq> le_Generation item
             \<or> sl_ExpiresAt record \<noteq> le_ExpiresAt item
          then s else deleteLoginAttempt record s)"

fun expire_items :: "time \<Rightarrow> loginAttemptExpiryItem list \<Rightarrow> BrowserStore \<Rightarrow> BrowserStore" where
  "expire_items now [] s = s\<lparr>bm_loginAttemptExpiry := []\<rparr>"
| "expire_items now (item # h) s =
     (if \<not> now < le_ExpiresAt item then expire_items now h (expire_item item s) else s\<lparr>bm_loginAttemptExpiry := item # h\<rparr>)"

definition expireLoginAttempts :: "time \<Rightarrow> BrowserStore \<Rightarrow> BrowserStore" where
  "expireLoginAttempts now s = expire_items now (bm_loginAttemptExpiry s) s"

text \<open>The prologue of every operation: the context is polled, the lock taken, the context polled again, an injected failure returned.\<close>

definition locked :: "poll \<Rightarrow> (BrowserStore, 'a) browser_op \<Rightarrow> (BrowserStore, 'a) browser_op" where
  "locked ctx body =
     andthen (check (fst ctx)) (\<lambda>_.
     andthen (check (snd ctx)) (\<lambda>_. \<lambda>s. andthen (check (bm_err s)) (\<lambda>_. body) s))"

definition bm_CreateLoginAttempt :: "poll \<Rightarrow> storedLoginAttempt \<Rightarrow> LoginAttemptLimits \<Rightarrow> (BrowserStore, unit) browser_op" where
  "bm_CreateLoginAttempt ctx login limits =
     andthen (check (fst ctx)) (\<lambda>_.
     andthen (require (sl_ExpiresAt login > la_CreatedAt (sl_LoginAttempt login)
         \<and> \<not> sl_ExpiresAt login - la_CreatedAt (sl_LoginAttempt login) > defaultLoginTimeout) (Sentinel ErrInvalidInput)) (\<lambda>_.
     locked (None, snd ctx) (\<lambda>s0.
       let s = expireLoginAttempts (la_CreatedAt (sl_LoginAttempt login)) s0;
           scope = attempt_scope login; browser = attempt_browser login;
           generation = bm_nextAttemptGeneration s + 1 in
       if bm_loginAttempts s (sl_StateHash login) \<noteq> None then (Inl (Sentinel errDuplicate), s)
       else if count_of (bm_scopeCounts s) scope \<ge> ll_Global limits \<or> count_of (bm_browserCounts s) browser \<ge> ll_PerBrowser limits
       then (Inl (Sentinel errLoginAttemptLimited), s)
       else (Inr (), s\<lparr>bm_loginAttempts := (bm_loginAttempts s)(sl_StateHash login \<mapsto> login),
         bm_nextAttemptGeneration := generation,
         bm_loginAttemptGeneration := (bm_loginAttemptGeneration s)(sl_StateHash login \<mapsto> generation),
         bm_scopeCounts := incrementLoginAttemptCount (bm_scopeCounts s) scope,
         bm_browserCounts := incrementLoginAttemptCount (bm_browserCounts s) browser,
         bm_loginAttemptExpiry := heap_push \<lparr>le_ExpiresAt = sl_ExpiresAt login, le_StateHash = sl_StateHash login, le_Generation = generation\<rparr>
           (bm_loginAttemptExpiry s)\<rparr>))))"

definition bm_ConsumeLoginAttempt :: "poll \<Rightarrow> string \<Rightarrow> string \<Rightarrow> time \<Rightarrow> (BrowserStore, storedLoginAttempt) browser_op" where
  "bm_ConsumeLoginAttempt ctx stateHash bindingHash now = locked ctx (\<lambda>s.
     case bm_loginAttempts s stateHash of
       None \<Rightarrow> (Inl (Sentinel errNotFound), s)
     | Some record \<Rightarrow>
         if \<not> now < sl_ExpiresAt record then (Inl (Sentinel errNotFound), deleteLoginAttempt record s)
         else if sl_BindingHash record \<noteq> bindingHash then (Inl (Sentinel errNotFound), s)
         else (Inr record, deleteLoginAttempt record s))"

definition AddEnterpriseUser :: "string \<Rightarrow> string \<Rightarrow> BrowserStore \<Rightarrow> BrowserStore" where
  "AddEnterpriseUser enterpriseID userID s = s\<lparr>bm_users := insert (userKey enterpriseID userID) (bm_users s)\<rparr>"

definition bm_EnterpriseUserBindingExists :: "poll \<Rightarrow> string \<Rightarrow> string \<Rightarrow> (BrowserStore, bool) browser_op" where
  "bm_EnterpriseUserBindingExists ctx enterpriseID userID = locked ctx (\<lambda>s. (Inr (userKey enterpriseID userID \<in> bm_users s), s))"

definition bm_CreateSession :: "poll \<Rightarrow> storedSession \<Rightarrow> (BrowserStore, unit) browser_op" where
  "bm_CreateSession ctx session = locked ctx (\<lambda>s.
     if userKey (ss_EnterpriseID session) (ss_UserID session) \<notin> bm_users s then (Inl (Sentinel errInvalidBinding), s)
     else if bm_sessions s (ss_IDHash session) \<noteq> None then (Inl (Sentinel errDuplicate), s)
     else (Inr (), s\<lparr>bm_sessions := (bm_sessions s)(ss_IDHash session \<mapsto> session)\<rparr>))"

definition session_live :: "storedSession \<Rightarrow> time \<Rightarrow> bool" where
  "session_live record now \<longleftrightarrow> ss_RevokedAt record = None \<and> now < ss_IdleExpiresAt record \<and> now < ss_AbsoluteExpiresAt record"

definition touched :: "storedSession \<Rightarrow> time \<Rightarrow> duration \<Rightarrow> storedSession" where
  "touched record now idleTimeout =
     record\<lparr>ss_LastSeenAt := now, ss_IdleExpiresAt := (if now + idleTimeout < ss_AbsoluteExpiresAt record then now + idleTimeout else ss_AbsoluteExpiresAt record)\<rparr>"

definition bm_UseSession :: "poll \<Rightarrow> string \<Rightarrow> time \<Rightarrow> duration \<Rightarrow> (BrowserStore, storedSession) browser_op" where
  "bm_UseSession ctx idHash now idleTimeout = locked ctx (\<lambda>s.
     case bm_sessions s idHash of
       None \<Rightarrow> (Inl (Sentinel errNotFound), s)
     | Some record \<Rightarrow>
         if \<not> session_live record now then (Inl (Sentinel errNotFound), s)
         else (Inr (touched record now idleTimeout), s\<lparr>bm_sessions := (bm_sessions s)(idHash \<mapsto> touched record now idleTimeout)\<rparr>))"

definition bm_RevokeSession :: "poll \<Rightarrow> string \<Rightarrow> time \<Rightarrow> (BrowserStore, unit) browser_op" where
  "bm_RevokeSession ctx idHash now = locked ctx (\<lambda>s.
     case bm_sessions s idHash of
       None \<Rightarrow> (Inl (Sentinel errNotFound), s)
     | Some record \<Rightarrow>
         if ss_RevokedAt record = None
         then (Inr (), s\<lparr>bm_sessions := (bm_sessions s)(idHash \<mapsto> record\<lparr>ss_RevokedAt := Some now\<rparr>)\<rparr>)
         else (Inr (), s))"

definition bm_RevokeAndGetSession :: "poll \<Rightarrow> string \<Rightarrow> time \<Rightarrow> (BrowserStore, storedSession) browser_op" where
  "bm_RevokeAndGetSession ctx idHash now = locked ctx (\<lambda>s.
     case bm_sessions s idHash of
       None \<Rightarrow> (Inl (Sentinel errNotFound), s)
     | Some record \<Rightarrow>
         if \<not> session_live record now then (Inl (Sentinel errNotFound), s)
         else (let record = record\<lparr>ss_RevokedAt := Some now\<rparr>
               in (Inr record, s\<lparr>bm_sessions := (bm_sessions s)(idHash \<mapsto> record)\<rparr>)))"

definition bm_CreateAuthorizationCode :: "poll \<Rightarrow> storedAuthorizationCode \<Rightarrow> (BrowserStore, unit) browser_op" where
  "bm_CreateAuthorizationCode ctx code = locked ctx (\<lambda>s.
     if userKey (sc_EnterpriseID code) (sc_UserID code) \<notin> bm_users s then (Inl (Sentinel errInvalidBinding), s)
     else (case bm_sessions s (sc_BrowserSessionIDHash code) of
         None \<Rightarrow> (Inl (Sentinel errInvalidBinding), s)
       | Some session \<Rightarrow>
           if ss_RevokedAt session \<noteq> None \<or> ss_EnterpriseID session \<noteq> sc_EnterpriseID code \<or> ss_UserID session \<noteq> sc_UserID code
           then (Inl (Sentinel errInvalidBinding), s)
           else if bm_codes s (sc_CodeHash code) \<noteq> None then (Inl (Sentinel errDuplicate), s)
           else (Inr (), s\<lparr>bm_codes := (bm_codes s)(sc_CodeHash code \<mapsto> code)\<rparr>)))"

text \<open>\<open>token_for\<close> is the access token an exchange stores.\<close>

definition token_for :: "storedAuthorizationCode \<Rightarrow> exchangeRequest \<Rightarrow> time \<Rightarrow> storedAccessToken" where
  "token_for record request expiresAt =
     \<lparr>st_TokenHash = xq_AccessTokenHash request, st_BrowserSessionIDHash = sc_BrowserSessionIDHash record, st_EnterpriseID = sc_EnterpriseID record,
      st_UserID = sc_UserID record, st_ClientID = sc_ClientID record, st_Audience = xq_Audience request, st_CreatedAt = xq_Now request,
      st_ExpiresAt = expiresAt, st_RevokedAt = None, st_SessionCreatedAt = 0, st_SessionLastSeenAt = 0, st_SessionIdleExpiresAt = 0,
      st_SessionAbsoluteExpiresAt = 0\<rparr>"

definition challenge_met :: "string \<Rightarrow> string \<Rightarrow> bool" where
  "challenge_met codeChallenge digest = (case raw_url_decode codeChallenge of None \<Rightarrow> False | Some challenge \<Rightarrow> challenge = digest)"

definition bm_ExchangeAuthorizationCode :: "poll \<Rightarrow> exchangeRequest \<Rightarrow> (BrowserStore, storedAuthorizationCode) browser_op" where
  "bm_ExchangeAuthorizationCode ctx request = locked ctx (\<lambda>s.
     case bm_codes s (xq_CodeHash request) of
       None \<Rightarrow> (Inl (Sentinel errNotFound), s)
     | Some record \<Rightarrow>
         if sc_ConsumedAt record \<noteq> None \<or> \<not> xq_Now request < sc_ExpiresAt record \<or> sc_ClientID record \<noteq> xq_ClientID request
            \<or> sc_RedirectURI record \<noteq> xq_RedirectURI request
         then (Inl (Sentinel errNotFound), s)
         else if bm_accessTokens s (xq_AccessTokenHash request) \<noteq> None then (Inl (Sentinel errDuplicate), s)
         else (case bm_sessions s (sc_BrowserSessionIDHash record) of
             None \<Rightarrow> (Inl (Sentinel errNotFound), s)
           | Some session \<Rightarrow>
               if \<not> session_live session (xq_Now request) then (Inl (Sentinel errNotFound), s)
               else
                 let expiresAt = ss_AbsoluteExpiresAt session;
                     consumed = record\<lparr>sc_ConsumedAt := Some (xq_Now request)\<rparr> in
                 if \<not> expiresAt > xq_Now request \<or> xq_AccessTokenHash request = [] \<or> xq_Audience request = []
                 then (Inl (Sentinel errNotFound), s)
                 else if \<not> challenge_met (sc_CodeChallenge record) (xq_VerifierDigest request) then (Inl (Sentinel errNotFound), s)
                 else (Inr (consumed\<lparr>sc_AccessTokenExpiresAt := expiresAt\<rparr>),
                       s\<lparr>bm_codes := (bm_codes s)(xq_CodeHash request \<mapsto> consumed),
                         bm_accessTokens := (bm_accessTokens s)(xq_AccessTokenHash request \<mapsto> token_for record request expiresAt)\<rparr>)))"

text \<open>The token and its session belong together and the caller's client, audience and enterprise are the token's.\<close>

definition token_matches :: "storedAccessToken \<Rightarrow> storedSession \<Rightarrow> string \<Rightarrow> string \<Rightarrow> string \<Rightarrow> time \<Rightarrow> bool" where
  "token_matches token session clientID audience enterpriseID now \<longleftrightarrow>
     st_RevokedAt token = None \<and> st_ClientID token = clientID \<and> st_Audience token = audience \<and> st_EnterpriseID token = enterpriseID
     \<and> st_EnterpriseID token = ss_EnterpriseID session \<and> st_UserID token = ss_UserID session \<and> now < st_ExpiresAt token"

definition bm_UseAccessToken ::
  "poll \<Rightarrow> string \<Rightarrow> string \<Rightarrow> string \<Rightarrow> string \<Rightarrow> time \<Rightarrow> (BrowserStore, storedAccessToken) browser_op" where
  "bm_UseAccessToken ctx tokenHash clientID audience enterpriseID now = locked (fst ctx, None) (\<lambda>s.
     case bm_accessTokens s tokenHash of
       None \<Rightarrow> (Inl (Sentinel errNotFound), s)
     | Some record \<Rightarrow>
         (case bm_sessions s (st_BrowserSessionIDHash record) of
            None \<Rightarrow> (Inl (Sentinel errNotFound), s)
          | Some session \<Rightarrow>
              if \<not> token_matches record session clientID audience enterpriseID now \<or> \<not> session_live session now
              then (Inl (Sentinel errNotFound), s)
              else let session = touched session now defaultIdleTimeout in
                (Inr (record\<lparr>st_SessionCreatedAt := ss_CreatedAt session, st_SessionLastSeenAt := ss_LastSeenAt session,
                        st_SessionIdleExpiresAt := ss_IdleExpiresAt session, st_SessionAbsoluteExpiresAt := ss_AbsoluteExpiresAt session\<rparr>),
                 s\<lparr>bm_sessions := (bm_sessions s)(ss_IDHash session \<mapsto> session)\<rparr>)))"

definition bm_RevokeSessionByAccessToken ::
  "poll \<Rightarrow> string \<Rightarrow> string \<Rightarrow> string \<Rightarrow> string \<Rightarrow> time \<Rightarrow> (BrowserStore, storedSession) browser_op" where
  "bm_RevokeSessionByAccessToken ctx tokenHash clientID audience enterpriseID now = locked (fst ctx, None) (\<lambda>s.
     case bm_accessTokens s tokenHash of
       None \<Rightarrow> (Inl (Sentinel errNotFound), s)
     | Some token \<Rightarrow>
         (case bm_sessions s (st_BrowserSessionIDHash token) of
            None \<Rightarrow> (Inl (Sentinel errNotFound), s)
          | Some session \<Rightarrow>
              if \<not> token_matches token session clientID audience enterpriseID now
                 \<or> ss_RevokedAt session = None \<and> (\<not> now < ss_IdleExpiresAt session \<or> \<not> now < ss_AbsoluteExpiresAt session)
              then (Inl (Sentinel errNotFound), s)
              else let session = (if ss_RevokedAt session = None then session\<lparr>ss_RevokedAt := Some now\<rparr> else session) in
                (Inr session, s\<lparr>bm_sessions := (bm_sessions s)(ss_IDHash session \<mapsto> session)\<rparr>)))"

definition memory_browser :: "BrowserStore BrowserOps" where
  "memory_browser = \<lparr>bo_EnterpriseUserBindingExists = bm_EnterpriseUserBindingExists, bo_CreateSession = bm_CreateSession,
     bo_UseSession = bm_UseSession, bo_RevokeSession = bm_RevokeSession, bo_RevokeAndGetSession = bm_RevokeAndGetSession,
     bo_CreateAuthorizationCode = bm_CreateAuthorizationCode, bo_ExchangeAuthorizationCode = bm_ExchangeAuthorizationCode,
     bo_UseAccessToken = bm_UseAccessToken, bo_RevokeSessionByAccessToken = bm_RevokeSessionByAccessToken,
     bo_CreateLoginAttempt = bm_CreateLoginAttempt, bo_ConsumeLoginAttempt = bm_ConsumeLoginAttempt\<rparr>"

end
