(* ===== verification/BrowserService.thy ===== *)
theory BrowserService
  imports BrowserAuth TrustContext
begin

text \<open>
  \<^verbatim>\<open>internal/browserauth/service.go\<close> over any store, and the adapters of \<^verbatim>\<open>internal/app/browser_auth.go\<close> through which the
  trust resolver sees it. The clock and the secret generator answer their n-th call, the context its polls of the n-th
  store call. A nil service or store is \<open>None\<close>.
\<close>

record 'st BrowserWorld =
  bw_store :: 'st
  bw_ticks :: nat
  bw_secrets :: nat
  bw_calls :: nat

record 'st BrowserService =
  sv_store :: "'st BrowserOps option"
  sv_now :: "nat \<Rightarrow> time"
  sv_generateSecret :: "nat \<Rightarrow> browser_go_error + string"
  sv_loginAttemptLimits :: LoginAttemptLimits

type_synonym ('st, 'a) browser = "(browser_error, 'st BrowserWorld, 'a) effect"
type_synonym ctx = "nat \<Rightarrow> poll"

definition NewBrowserService ::
  "'st BrowserOps option \<Rightarrow> (nat \<Rightarrow> time) \<Rightarrow> (nat \<Rightarrow> browser_go_error + string) \<Rightarrow> LoginAttemptLimits option \<Rightarrow> 'st BrowserService" where
  "NewBrowserService ops now generateSecret limits =
     \<lparr>sv_store = ops, sv_now = now, sv_generateSecret = generateSecret,
      sv_loginAttemptLimits = (case limits of None \<Rightarrow> DefaultLoginAttemptLimits | Some l \<Rightarrow> l)\<rparr>"

definition read_now :: "'st BrowserService \<Rightarrow> ('st, time) browser" where
  "read_now sv w = (Inr (sv_now sv (bw_ticks w)), w\<lparr>bw_ticks := Suc (bw_ticks w)\<rparr>)"

definition generateSecret :: "'st BrowserService \<Rightarrow> ('st, string) browser" where
  "generateSecret sv w = (sv_generateSecret sv (bw_secrets w), w\<lparr>bw_secrets := Suc (bw_secrets w)\<rparr>)"

definition store_call :: "ctx \<Rightarrow> (poll \<Rightarrow> ('st, 'a) browser_op) \<Rightarrow> ('st, 'a) browser" where
  "store_call ctx f w = (case f (ctx (bw_calls w)) (bw_store w) of (r, s) \<Rightarrow> (r, w\<lparr>bw_store := s, bw_calls := Suc (bw_calls w)\<rparr>))"

definition with_store :: "'st BrowserService \<Rightarrow> browser_error \<Rightarrow> bool \<Rightarrow> ('st BrowserOps \<Rightarrow> ('st, 'a) browser) \<Rightarrow> ('st, 'a) browser" where
  "with_store sv e ok k = (case sv_store sv of None \<Rightarrow> fail (Sentinel e) | Some ops \<Rightarrow> if ok then k ops else fail (Sentinel e))"

definition missing_or :: "browser_error \<Rightarrow> browser_error \<Rightarrow> browser_go_error \<Rightarrow> browser_go_error" where
  "missing_or missing unavailable e = Sentinel (if errors_is e errNotFound then missing else unavailable)"

subsection \<open>Shapes of secrets and inputs\<close>

definition validBounded :: "string \<Rightarrow> nat \<Rightarrow> bool" where
  "validBounded value limit \<longleftrightarrow> value \<noteq> [] \<and> length value \<le> limit"

definition validOpaqueSecret :: "string \<Rightarrow> bool" where
  "validOpaqueSecret value =
     (case raw_url_decode value of None \<Rightarrow> False
      | Some decoded \<Rightarrow> length decoded = 32 \<and> length value = 43 \<and> raw_url_encode decoded = value)"

definition validateGeneratedSecret :: "string \<Rightarrow> browser_go_error option" where
  "validateGeneratedSecret secret =
     (case raw_url_decode secret of
        Some decoded \<Rightarrow> fail_if (\<not> (length decoded \<ge> 32 \<and> raw_url_encode decoded = secret)) (Sentinel ErrInvalidInput)
      | None \<Rightarrow> Some (Sentinel ErrInvalidInput))"

definition pkce_char :: "char \<Rightarrow> bool" where
  "pkce_char c \<longleftrightarrow> is_lower c \<or> is_upper c \<or> is_digit c \<or> c = CHR ''-'' \<or> c = CHR ''.'' \<or> c = CHR ''_'' \<or> c = CHR ''~''"

definition validPKCEVerifier :: "string \<Rightarrow> bool" where
  "validPKCEVerifier verifier \<longleftrightarrow> \<not> (length verifier < 43 \<or> length verifier > 128) \<and> list_all pkce_char verifier"

definition validS256Challenge :: "string \<Rightarrow> bool" where
  "validS256Challenge challenge =
     (case raw_url_decode challenge of None \<Rightarrow> False | Some decoded \<Rightarrow> length decoded = 32 \<and> raw_url_encode decoded = challenge)"

definition hashHex :: "string \<Rightarrow> string" where
  "hashHex value = sha256_hex value"

definition HashBrowserSessionToken :: "string \<Rightarrow> string" where
  "HashBrowserSessionToken token = (if validateGeneratedSecret token \<noteq> None then [] else hashHex token)"

text \<open>\<open>randomOpaqueSecret\<close> over the bytes the random source gives, \<open>None\<close> when it fails.\<close>

definition randomOpaqueSecret :: "string option \<Rightarrow> browser_go_error + string" where
  "randomOpaqueSecret bytes = (case bytes of None \<Rightarrow> Inl (Message ''rand'') | Some secret \<Rightarrow> Inr (raw_url_encode secret))"

subsection \<open>Sessions\<close>

definition ServiceCreateSession :: "'st BrowserService \<Rightarrow> ctx \<Rightarrow> CreateSessionInput \<Rightarrow> ('st, string \<times> BrowserSession) browser" where
  "ServiceCreateSession sv ctx input = with_store sv ErrInvalidInput (cs_EnterpriseID input \<noteq> [] \<and> cs_UserID input \<noteq> []) (\<lambda>ops.
     andthen (on_error (\<lambda>_. Sentinel errInvalidBinding)
       (store_call ctx (\<lambda>p. bo_EnterpriseUserBindingExists ops p (cs_EnterpriseID input) (cs_UserID input)))) (\<lambda>ok.
     andthen (require ok (Sentinel errInvalidBinding)) (\<lambda>_.
     andthen (generateSecret sv) (\<lambda>token.
     andthen (check (validateGeneratedSecret token)) (\<lambda>_.
     andthen (read_now sv) (\<lambda>now.
     let record = \<lparr>ss_IDHash = hashHex token, ss_EnterpriseID = cs_EnterpriseID input, ss_UserID = cs_UserID input, ss_CreatedAt = now,
           ss_LastSeenAt = now, ss_IdleExpiresAt = now + defaultIdleTimeout, ss_AbsoluteExpiresAt = now + defaultAbsoluteTimeout,
           ss_RevokedAt = None, ss_UserAgentHash = hashHex (cs_UserAgent input)\<rparr> in
     andthen (store_call ctx (\<lambda>p. bo_CreateSession ops p record)) (\<lambda>_. ret (token, publicSession record))))))))"

definition GetSession :: "'st BrowserService \<Rightarrow> ctx \<Rightarrow> string \<Rightarrow> ('st, BrowserSession) browser" where
  "GetSession sv ctx token = with_store sv ErrInvalidSession (token \<noteq> []) (\<lambda>ops.
     andthen (read_now sv) (\<lambda>now.
     andthen (on_error (missing_or ErrInvalidSession ErrSessionUnavailable)
       (store_call ctx (\<lambda>p. bo_UseSession ops p (hashHex token) now defaultIdleTimeout))) (\<lambda>record.
     ret (publicSession record))))"

definition ServiceRevokeSession :: "'st BrowserService \<Rightarrow> ctx \<Rightarrow> string \<Rightarrow> ('st, unit) browser" where
  "ServiceRevokeSession sv ctx token = with_store sv ErrInvalidSession (token \<noteq> []) (\<lambda>ops.
     andthen (read_now sv) (\<lambda>now.
     on_error (missing_or ErrInvalidSession ErrSessionUnavailable) (store_call ctx (\<lambda>p. bo_RevokeSession ops p (hashHex token) now))))"

definition LogoutSession :: "'st BrowserService \<Rightarrow> ctx \<Rightarrow> string \<Rightarrow> ('st, BrowserSession) browser" where
  "LogoutSession sv ctx token = with_store sv ErrInvalidSession (validateGeneratedSecret token = None) (\<lambda>ops.
     andthen (read_now sv) (\<lambda>now.
     andthen (on_error (missing_or ErrInvalidSession ErrSessionUnavailable)
       (store_call ctx (\<lambda>p. bo_RevokeAndGetSession ops p (hashHex token) now))) (\<lambda>record.
     ret (publicSession record))))"

subsection \<open>Authorization codes and access tokens\<close>

definition IssueCode :: "'st BrowserService \<Rightarrow> ctx \<Rightarrow> IssueCodeInput \<Rightarrow> ('st, string) browser" where
  "IssueCode sv ctx input = with_store sv ErrInvalidInput
     (ic_EnterpriseID input \<noteq> [] \<and> ic_UserID input \<noteq> [] \<and> validateGeneratedSecret (ic_BrowserSessionToken input) = None
      \<and> validBounded (ic_ClientID input) maxClientIDLength \<and> validBounded (ic_RedirectURI input) maxRedirectURILength
      \<and> validBounded (ic_Nonce input) maxNonceLength \<and> validS256Challenge (ic_CodeChallenge input)) (\<lambda>ops.
     andthen (read_now sv) (\<lambda>used.
     andthen (on_error (\<lambda>_. Sentinel errInvalidBinding)
       (store_call ctx (\<lambda>p. bo_UseSession ops p (hashHex (ic_BrowserSessionToken input)) used defaultIdleTimeout))) (\<lambda>session.
     andthen (require (ss_EnterpriseID session = ic_EnterpriseID input \<and> ss_UserID session = ic_UserID input) (Sentinel errInvalidBinding)) (\<lambda>_.
     andthen (generateSecret sv) (\<lambda>code.
     andthen (require (validOpaqueSecret code) (Sentinel ErrInvalidInput)) (\<lambda>_.
     andthen (read_now sv) (\<lambda>now.
     let record = \<lparr>sc_CodeHash = hashHex code, sc_EnterpriseID = ic_EnterpriseID input, sc_UserID = ic_UserID input,
           sc_ClientID = ic_ClientID input, sc_RedirectURI = ic_RedirectURI input, sc_Nonce = ic_Nonce input,
           sc_CodeChallenge = ic_CodeChallenge input, sc_CreatedAt = now, sc_ExpiresAt = now + defaultCodeTimeout, sc_ConsumedAt = None,
           sc_BrowserSessionIDHash = hashHex (ic_BrowserSessionToken input), sc_AccessTokenExpiresAt = 0\<rparr> in
     andthen (store_call ctx (\<lambda>p. bo_CreateAuthorizationCode ops p record)) (\<lambda>_. ret code))))))))"

text \<open>The failure of the generator and a malformed secret give the same error; no store is touched before them.\<close>

definition ExchangeCode :: "'st BrowserService \<Rightarrow> ctx \<Rightarrow> ExchangeCodeInput \<Rightarrow> ('st, ExchangeResult) browser" where
  "ExchangeCode sv ctx input = with_store sv ErrInvalidGrant
     (validOpaqueSecret (xc_Code input) \<and> validPKCEVerifier (xc_Verifier input) \<and> validBounded (xc_ClientID input) maxClientIDLength
      \<and> validBounded (xc_RedirectURI input) maxRedirectURILength) (\<lambda>ops.
     andthen (on_error (\<lambda>_. Sentinel ErrGrantUnavailable) (generateSecret sv)) (\<lambda>accessToken.
     andthen (require (validateGeneratedSecret accessToken = None) (Sentinel ErrGrantUnavailable)) (\<lambda>_.
     andthen (read_now sv) (\<lambda>now.
     andthen (on_error (missing_or ErrInvalidGrant ErrGrantUnavailable)
       (store_call ctx (\<lambda>p. bo_ExchangeAuthorizationCode ops p
          \<lparr>xq_CodeHash = hashHex (xc_Code input), xq_VerifierDigest = sha256 (xc_Verifier input), xq_ClientID = xc_ClientID input,
           xq_RedirectURI = xc_RedirectURI input, xq_Now = now, xq_AccessTokenHash = hashHex accessToken, xq_Audience = xc_ClientID input\<rparr>))) (\<lambda>record.
     andthen (read_now sv) (\<lambda>later.
     ret \<lparr>xr_EnterpriseID = sc_EnterpriseID record, xr_UserID = sc_UserID record, xr_Nonce = sc_Nonce record, xr_AccessToken = accessToken,
          xr_AccessTokenExpiresAt = sc_AccessTokenExpiresAt record, xr_AccessTokenExpiresIn = sc_AccessTokenExpiresAt record - later\<rparr>))))))"

definition GetAccessTokenSession ::
  "'st BrowserService \<Rightarrow> ctx \<Rightarrow> string \<Rightarrow> string \<Rightarrow> string \<Rightarrow> string \<Rightarrow> ('st, BrowserSession) browser" where
  "GetAccessTokenSession sv ctx token clientID audience enterpriseID = with_store sv ErrInvalidAccessToken
     (validateGeneratedSecret token = None \<and> validBounded clientID maxClientIDLength \<and> validBounded audience maxClientIDLength \<and> enterpriseID \<noteq> []) (\<lambda>ops.
     andthen (read_now sv) (\<lambda>now.
     andthen (on_error (missing_or ErrInvalidAccessToken ErrAccessTokenUnavailable)
       (store_call ctx (\<lambda>p. bo_UseAccessToken ops p (hashHex token) clientID audience enterpriseID now))) (\<lambda>record.
     ret \<lparr>bs_EnterpriseID = st_EnterpriseID record, bs_UserID = st_UserID record, bs_CreatedAt = st_SessionCreatedAt record,
          bs_LastSeenAt = st_SessionLastSeenAt record, bs_IdleExpiresAt = st_SessionIdleExpiresAt record,
          bs_AbsoluteExpiresAt = st_SessionAbsoluteExpiresAt record\<rparr>)))"

definition LogoutAccessTokenSession ::
  "'st BrowserService \<Rightarrow> ctx \<Rightarrow> string \<Rightarrow> string \<Rightarrow> string \<Rightarrow> string \<Rightarrow> ('st, BrowserSession) browser" where
  "LogoutAccessTokenSession sv ctx token clientID audience enterpriseID =
     with_store sv ErrInvalidAccessToken (validateGeneratedSecret token = None) (\<lambda>ops.
     andthen (read_now sv) (\<lambda>now.
     andthen (on_error (missing_or ErrInvalidAccessToken ErrSessionUnavailable)
       (store_call ctx (\<lambda>p. bo_RevokeSessionByAccessToken ops p (hashHex token) clientID audience enterpriseID now))) (\<lambda>record.
     ret (publicSession record))))"

subsection \<open>Login attempts\<close>

definition CreateLoginAttempt :: "'st BrowserService \<Rightarrow> ctx \<Rightarrow> CreateLoginAttemptInput \<Rightarrow> ('st, string \<times> string \<times> LoginAttempt) browser" where
  "CreateLoginAttempt sv ctx input = with_store sv ErrInvalidInput
     (limits_valid (sv_loginAttemptLimits sv) \<and> ca_EnterpriseID input \<noteq> [] \<and> validOpaqueSecret (ca_BrowserID input)
      \<and> validBounded (ca_ClientID input) maxClientIDLength \<and> validBounded (ca_RedirectURI input) maxRedirectURILength
      \<and> validBounded (ca_ConsoleState input) maxConsoleStateLength \<and> validBounded (ca_ConsoleNonce input) maxNonceLength
      \<and> validS256Challenge (ca_CodeChallenge input)) (\<lambda>ops.
     andthen (generateSecret sv) (\<lambda>state.
     andthen (generateSecret sv) (\<lambda>nonce.
     andthen (generateSecret sv) (\<lambda>binding.
     andthen (require (validOpaqueSecret state \<and> validOpaqueSecret nonce \<and> validOpaqueSecret binding) (Sentinel ErrInvalidInput)) (\<lambda>_.
     andthen (read_now sv) (\<lambda>t.
     let now = truncate_to second t;
         login = \<lparr>la_EnterpriseID = ca_EnterpriseID input, la_ClientID = ca_ClientID input, la_RedirectURI = ca_RedirectURI input,
           la_ConsoleState = ca_ConsoleState input, la_ConsoleNonce = ca_ConsoleNonce input, la_CodeChallenge = ca_CodeChallenge input,
           la_UpstreamNonce = nonce, la_CreatedAt = now, la_ExpiresAt = now + defaultLoginTimeout\<rparr> in
     andthen (on_error (\<lambda>e. Sentinel (if errors_is e errLoginAttemptLimited then ErrLoginAttemptLimited else ErrLoginAttemptUnavailable))
       (store_call ctx (\<lambda>p. bo_CreateLoginAttempt ops p
          \<lparr>sl_StateHash = hashHex state, sl_BindingHash = hashHex binding, sl_BrowserIDHash = hashHex (ca_BrowserID input), sl_LoginAttempt = login\<rparr>
          (sv_loginAttemptLimits sv)))) (\<lambda>_.
     ret (state, binding, login))))))))"

definition ConsumeLoginAttempt :: "'st BrowserService \<Rightarrow> ctx \<Rightarrow> string \<Rightarrow> string \<Rightarrow> ('st, LoginAttempt) browser" where
  "ConsumeLoginAttempt sv ctx state binding =
     with_store sv ErrInvalidLoginAttempt (validOpaqueSecret state \<and> validOpaqueSecret binding) (\<lambda>ops.
     andthen (read_now sv) (\<lambda>now.
     andthen (on_error (missing_or ErrInvalidLoginAttempt ErrLoginAttemptUnavailable)
       (store_call ctx (\<lambda>p. bo_ConsumeLoginAttempt ops p (hashHex state) (hashHex binding) now))) (\<lambda>record.
     ret (sl_LoginAttempt record))))"

subsection \<open>The trust resolver's view (app/browser\_auth.go)\<close>

definition trust_expiry :: "BrowserSession \<Rightarrow> time" where
  "trust_expiry session =
     (if \<not> is_zero_time (bs_AbsoluteExpiresAt session)
         \<and> (is_zero_time (bs_IdleExpiresAt session) \<or> bs_AbsoluteExpiresAt session < bs_IdleExpiresAt session)
      then bs_AbsoluteExpiresAt session else bs_IdleExpiresAt session)"

definition session_identity :: "BrowserSession \<Rightarrow> string \<Rightarrow> SessionIdentity" where
  "session_identity session clientRef = \<lparr>si_TenantRef = bs_EnterpriseID session, si_PrincipalRef = bs_UserID session, si_ClientRef = clientRef,
     si_ExpiresAt = trust_expiry session, si_IdleExpiresAt = bs_IdleExpiresAt session, si_AbsoluteExpiresAt = bs_AbsoluteExpiresAt session\<rparr>"

text \<open>The errors of the browser package under the resolver's sentinels: what the resolver asks with \<open>errors.Is\<close>.\<close>

definition VerifyBrowserSession ::
  "'st BrowserService \<Rightarrow> ctx \<Rightarrow> string \<Rightarrow> 'st BrowserWorld \<Rightarrow> (context_go_error + SessionIdentity) \<times> 'st BrowserWorld" where
  "VerifyBrowserSession sv ctx token w =
     (case GetSession sv ctx token w of
        (Inl e, w') \<Rightarrow> (Inl (Joined [Sentinel (if errors_is e ErrSessionUnavailable then ErrSourceUnavailable else ErrCredentialRejected),
             Message ''browser session'']), w')
      | (Inr session, w') \<Rightarrow> (Inr (session_identity session []), w'))"

fun VerifyBrowserAccessToken ::
  "'st BrowserService \<Rightarrow> ctx \<Rightarrow> string \<Rightarrow> string list \<Rightarrow> string \<Rightarrow> 'st BrowserWorld \<Rightarrow> (context_go_error + SessionIdentity) \<times> 'st BrowserWorld" where
  "VerifyBrowserAccessToken sv ctx enterpriseID [] token w = (Inl (Joined [Sentinel ErrCredentialRejected, Message ''invalid browser access token'']), w)"
| "VerifyBrowserAccessToken sv ctx enterpriseID (clientID # clientIDs) token w =
     (case GetAccessTokenSession sv ctx token clientID clientID enterpriseID w of
        (Inr session, w') \<Rightarrow>
          if clientID = [] then (Inl (Joined [Sentinel ErrCredentialRejected, Message ''invalid browser access token'']), w')
          else (Inr (session_identity session clientID), w')
      | (Inl e, w') \<Rightarrow>
          if errors_is e ErrInvalidAccessToken then VerifyBrowserAccessToken sv ctx enterpriseID clientIDs token w'
          else if errors_is e ErrAccessTokenUnavailable then (Inl (Joined [Sentinel ErrSourceUnavailable, Message ''access token'']), w')
          else (Inl (Joined [Sentinel ErrCredentialRejected, Message ''access token'']), w'))"

definition configuredConsoleClientIDs :: "string set \<Rightarrow> string list" where
  "configuredConsoleClientIDs consoleClients = sorted_list_of_set consoleClients"

end
