(* ===== verification/BrowserLogins.thy ===== *)
theory BrowserLogins
  imports BrowserAuth
begin

text \<open>
  The bookkeeping of outstanding logins: the expiry heap and the two counters of the in-memory store against a reference
  that only filters and counts the attempts it holds.
\<close>

subsection \<open>Counters\<close>

text \<open>What a counter holds for a number: nothing for none.\<close>

definition counted :: "nat \<Rightarrow> int option" where
  "counted n = (if n = 0 then None else Some (int n))"

definition attempts_in :: "(string \<rightharpoonup> storedLoginAttempt) \<Rightarrow> (storedLoginAttempt \<Rightarrow> 'k) \<Rightarrow> 'k \<Rightarrow> string set" where
  "attempts_in m f key = {h. \<exists>a. m h = Some a \<and> f a = key}"

definition counts_right :: "(string \<rightharpoonup> storedLoginAttempt) \<Rightarrow> (storedLoginAttempt \<Rightarrow> 'k) \<Rightarrow> ('k \<rightharpoonup> int) \<Rightarrow> bool" where
  "counts_right m f counts \<longleftrightarrow> (\<forall>key. counts key = counted (card (attempts_in m f key)))"

lemma attempts_in_finite: "finite (dom m) \<Longrightarrow> finite (attempts_in m f key)"
  by (rule finite_subset[of _ "dom m"]) (auto simp: attempts_in_def)

lemma attempts_in_update:
  "m h = None \<Longrightarrow> attempts_in (m(h \<mapsto> a)) f key = (if f a = key then insert h (attempts_in m f key) else attempts_in m f key)"
  by (auto simp: attempts_in_def)

lemma attempts_in_delete:
  "m h = Some a \<Longrightarrow> attempts_in (m(h := None)) f key = (if f a = key then attempts_in m f key - {h} else attempts_in m f key)"
  by (auto simp: attempts_in_def)

lemma count_of_right: "counts_right m f counts \<Longrightarrow> count_of counts key = int (card (attempts_in m f key))"
  by (simp add: counts_right_def count_of_def counted_def)

lemma increment_right:
  assumes "counts_right m f counts" and "finite (dom m)" and "m h = None"
  shows "counts_right (m(h \<mapsto> a)) f (incrementLoginAttemptCount counts (f a))"
proof -
  have "h \<notin> attempts_in m f key" for key using assms(3) by (auto simp: attempts_in_def)
  with assms attempts_in_finite[OF assms(2), of f] show ?thesis
    unfolding counts_right_def incrementLoginAttemptCount_def
    by (auto simp: attempts_in_update counted_def count_of_def)
qed

lemma decrement_right:
  assumes "counts_right m f counts" and "finite (dom m)" and "m h = Some a"
  shows "counts_right (m(h := None)) f (decrementLoginAttemptCount counts (f a))"
proof -
  have h: "h \<in> attempts_in m f (f a)" using assms(3) by (auto simp: attempts_in_def)
  have c: "card (attempts_in m f (f a)) = Suc (card (attempts_in m f (f a) - {h}))"
    using h attempts_in_finite[OF assms(2), of f "f a"] by (rule card.remove[rotated])
  show ?thesis
    unfolding counts_right_def
  proof
    fix key
    show "decrementLoginAttemptCount counts (f a) key = counted (card (attempts_in (m(h := None)) f key))"
      using assms(1) c
      by (auto simp: decrementLoginAttemptCount_def counts_right_def attempts_in_delete[where m = m and h = h and a = a] assms(3) counted_def count_of_def)
  qed
qed

subsection \<open>The expiry heap\<close>

definition item_of :: "BrowserStore \<Rightarrow> string \<Rightarrow> storedLoginAttempt \<Rightarrow> loginAttemptExpiryItem \<Rightarrow> bool" where
  "item_of s h a item \<longleftrightarrow> le_StateHash item = h \<and> le_ExpiresAt item = sl_ExpiresAt a \<and> bm_loginAttemptGeneration s h = Some (le_Generation item)"

definition logins_inv :: "loginAttemptExpiryItem list \<Rightarrow> BrowserStore \<Rightarrow> bool" where
  "logins_inv heap s \<longleftrightarrow> finite (dom (bm_loginAttempts s)) \<and> sorted (map heap_key heap)
     \<and> (\<forall>h a. bm_loginAttempts s h = Some a \<longrightarrow> sl_StateHash a = h \<and> (\<exists>item \<in> set heap. item_of s h a item))
     \<and> counts_right (bm_loginAttempts s) attempt_scope (bm_scopeCounts s)
     \<and> counts_right (bm_loginAttempts s) attempt_browser (bm_browserCounts s)"

definition logins_wf :: "BrowserStore \<Rightarrow> bool" where
  "logins_wf s \<longleftrightarrow> logins_inv (bm_loginAttemptExpiry s) s"

lemma logins_item: "logins_inv heap s \<Longrightarrow> bm_loginAttempts s h = Some a \<Longrightarrow> \<exists>item \<in> set heap. item_of s h a item"
  by (simp add: logins_inv_def)

text \<open>The reference: the attempts that have not expired.\<close>

definition unexpired :: "time \<Rightarrow> (string \<rightharpoonup> storedLoginAttempt) \<Rightarrow> (string \<rightharpoonup> storedLoginAttempt)" where
  "unexpired now m h = (case m h of None \<Rightarrow> None | Some a \<Rightarrow> if now < sl_ExpiresAt a then Some a else None)"

lemma unexpired_empty [simp]: "unexpired now (\<lambda>_. None) = (\<lambda>_. None)"
  by (simp add: unexpired_def fun_eq_iff)

text \<open>Everything but the bookkeeping.\<close>

definition same_rest :: "BrowserStore \<Rightarrow> BrowserStore \<Rightarrow> bool" where
  "same_rest s s' \<longleftrightarrow> bm_users s' = bm_users s \<and> bm_sessions s' = bm_sessions s \<and> bm_codes s' = bm_codes s
     \<and> bm_accessTokens s' = bm_accessTokens s \<and> bm_err s' = bm_err s"

lemma same_rest_refl [simp]: "same_rest s s"
  by (simp add: same_rest_def)

lemma same_rest_trans: "same_rest s s' \<Longrightarrow> same_rest s' s'' \<Longrightarrow> same_rest s s''"
  by (simp add: same_rest_def)

lemma delete_rest [simp]: "same_rest s (deleteLoginAttempt a s)"
  by (simp add: same_rest_def deleteLoginAttempt_def)

lemma delete_inv:
  assumes "logins_inv heap s" and "bm_loginAttempts s h = Some a"
  shows "logins_inv heap (deleteLoginAttempt a s)" and "bm_loginAttempts (deleteLoginAttempt a s) = (bm_loginAttempts s)(h := None)"
    and "bm_loginAttemptExpiry (deleteLoginAttempt a s) = bm_loginAttemptExpiry s"
proof -
  have h: "sl_StateHash a = h" using assms by (simp add: logins_inv_def)
  then show "bm_loginAttempts (deleteLoginAttempt a s) = (bm_loginAttempts s)(h := None)" by (simp add: deleteLoginAttempt_def)
  show "bm_loginAttemptExpiry (deleteLoginAttempt a s) = bm_loginAttemptExpiry s" by (simp add: deleteLoginAttempt_def)
  have c: "counts_right ((bm_loginAttempts s)(h := None)) attempt_scope (decrementLoginAttemptCount (bm_scopeCounts s) (attempt_scope a))"
    "counts_right ((bm_loginAttempts s)(h := None)) attempt_browser (decrementLoginAttemptCount (bm_browserCounts s) (attempt_browser a))"
    using assms by (auto simp: logins_inv_def intro: decrement_right)
  show "logins_inv heap (deleteLoginAttempt a s)"
    using assms(1) c unfolding logins_inv_def deleteLoginAttempt_def h by (auto simp: item_of_def)
qed

lemma expire_item_inv:
  assumes "logins_inv (item # heap) s" and "\<not> now < le_ExpiresAt item"
  shows "logins_inv heap (expire_item item s) \<and> unexpired now (bm_loginAttempts (expire_item item s)) = unexpired now (bm_loginAttempts s)
     \<and> same_rest s (expire_item item s)"
proof (cases "\<exists>a. bm_loginAttempts s (le_StateHash item) = Some a \<and> item_of s (le_StateHash item) a item")
  case True
  then obtain a where a: "bm_loginAttempts s (le_StateHash item) = Some a" "item_of s (le_StateHash item) a item" by blast
  then have run: "expire_item item s = deleteLoginAttempt a s" by (simp add: expire_item_def item_of_def)
  note d = delete_inv[OF assms(1) a(1)]
  have "\<exists>i \<in> set heap. item_of (deleteLoginAttempt a s) h b i" if "bm_loginAttempts (deleteLoginAttempt a s) h = Some b" for h b
  proof -
    have "h \<noteq> le_StateHash item" using that by (auto simp: d(2))
    moreover from logins_item[OF d(1) that] obtain i where "i \<in> set (item # heap)" "item_of (deleteLoginAttempt a s) h b i" by blast
    ultimately show ?thesis by (auto simp: item_of_def)
  qed
  then have "logins_inv heap (deleteLoginAttempt a s)"
    using d(1) unfolding logins_inv_def by simp
  moreover have "unexpired now ((bm_loginAttempts s)(le_StateHash item := None)) = unexpired now (bm_loginAttempts s)"
    using a assms(2) by (auto simp: unexpired_def item_of_def fun_eq_iff)
  ultimately show ?thesis by (simp add: run d(2))
next
  case False
  have "expire_item item s = s"
  proof (cases "bm_loginAttempts s (le_StateHash item)")
    case (Some a)
    then obtain g where "bm_loginAttemptGeneration s (le_StateHash item) = Some g" using assms(1) by (fastforce simp: logins_inv_def item_of_def)
    with Some False show ?thesis by (auto simp: expire_item_def item_of_def)
  qed (simp add: expire_item_def)
  moreover have "\<exists>i \<in> set heap. item_of s h a i" if a: "bm_loginAttempts s h = Some a" for h a
  proof -
    from logins_item[OF assms(1) a] obtain i where i: "i \<in> set (item # heap)" "item_of s h a i" by blast
    with False a have "i \<noteq> item" by (auto simp: item_of_def)
    with i show ?thesis by auto
  qed
  then have "logins_inv heap s"
    using assms(1) unfolding logins_inv_def by simp
  ultimately show ?thesis by simp
qed

lemma expire_items_inv:
  assumes "logins_inv heap s"
  shows "logins_wf (expire_items now heap s) \<and> bm_loginAttempts (expire_items now heap s) = unexpired now (bm_loginAttempts s)
     \<and> same_rest s (expire_items now heap s)"
  using assms
proof (induction heap arbitrary: s)
  case Nil
  then have "bm_loginAttempts s = Map.empty" by (auto simp: logins_inv_def)
  with Nil show ?case by (simp add: logins_wf_def logins_inv_def same_rest_def)
next
  case (Cons item heap)
  show ?case
  proof (cases "now < le_ExpiresAt item")
    case True
    have "now < le_ExpiresAt i" if "i \<in> set (item # heap)" for i
      using that True Cons.prems by (auto simp: logins_inv_def heap_key_def less_eq_prod_def)
    then have "unexpired now (bm_loginAttempts s) = bm_loginAttempts s"
      using Cons.prems by (fastforce simp: unexpired_def fun_eq_iff logins_inv_def item_of_def split: option.split)
    with Cons.prems True show ?thesis by (simp add: logins_wf_def logins_inv_def same_rest_def item_of_def)
  next
    case False
    note one = expire_item_inv[OF Cons.prems False]
    note rest = Cons.IH[of "expire_item item s"]
    have same: "same_rest s (expire_items now heap (expire_item item s))"
      by (rule same_rest_trans[of _ "expire_item item s"]) (use one rest in auto)
    show ?thesis using one rest False same by simp
  qed
qed

lemma expire_inv:
  assumes "logins_wf s"
  shows "logins_wf (expireLoginAttempts now s)" and "bm_loginAttempts (expireLoginAttempts now s) = unexpired now (bm_loginAttempts s)"
    and "same_rest s (expireLoginAttempts now s)"
  using expire_items_inv[OF assms[unfolded logins_wf_def], of now] by (auto simp: expireLoginAttempts_def)

subsection \<open>Filing and consuming a login\<close>

text \<open>The reference store of outstanding logins: a map, filtered and counted.\<close>

definition ref_create :: "storedLoginAttempt \<Rightarrow> LoginAttemptLimits \<Rightarrow> (string \<rightharpoonup> storedLoginAttempt)
    \<Rightarrow> (browser_go_error + unit) \<times> (string \<rightharpoonup> storedLoginAttempt)" where
  "ref_create login limits m0 =
     (let m = unexpired (la_CreatedAt (sl_LoginAttempt login)) m0 in
      if m (sl_StateHash login) \<noteq> None then (Inl (Sentinel errDuplicate), m)
      else if int (card (attempts_in m attempt_scope (attempt_scope login))) \<ge> ll_Global limits
           \<or> int (card (attempts_in m attempt_browser (attempt_browser login))) \<ge> ll_PerBrowser limits
      then (Inl (Sentinel errLoginAttemptLimited), m)
      else (Inr (), m(sl_StateHash login \<mapsto> login)))"

definition ref_consume :: "string \<Rightarrow> string \<Rightarrow> time \<Rightarrow> (string \<rightharpoonup> storedLoginAttempt)
    \<Rightarrow> (browser_go_error + storedLoginAttempt) \<times> (string \<rightharpoonup> storedLoginAttempt)" where
  "ref_consume stateHash bindingHash now m =
     (case m stateHash of
        None \<Rightarrow> (Inl (Sentinel errNotFound), m)
      | Some a \<Rightarrow>
          if \<not> now < sl_ExpiresAt a then (Inl (Sentinel errNotFound), m(stateHash := None))
          else if sl_BindingHash a \<noteq> bindingHash then (Inl (Sentinel errNotFound), m)
          else (Inr a, m(stateHash := None)))"

definition proper :: "storedLoginAttempt \<Rightarrow> bool" where
  "proper login \<longleftrightarrow> sl_ExpiresAt login > la_CreatedAt (sl_LoginAttempt login)
     \<and> \<not> sl_ExpiresAt login - la_CreatedAt (sl_LoginAttempt login) > defaultLoginTimeout"

definition ready :: "poll \<Rightarrow> BrowserStore \<Rightarrow> bool" where
  "ready p s \<longleftrightarrow> p = (None, None) \<and> bm_err s = None"

lemma locked_ready: "ready p s \<Longrightarrow> locked p m s = m s"
  by (auto simp: locked_def ready_def)

lemma locked_cases: "(\<exists>e. locked p m s = (Inl e, s)) \<or> locked p m s = m s"
  by (auto simp: locked_def check_def fail_def andthen_def split: option.split)

lemma filed_inv:
  assumes "logins_wf s" and "bm_loginAttempts s (sl_StateHash a) = None"
  shows "logins_wf (s\<lparr>bm_loginAttempts := (bm_loginAttempts s)(sl_StateHash a \<mapsto> a), bm_nextAttemptGeneration := g,
         bm_loginAttemptGeneration := (bm_loginAttemptGeneration s)(sl_StateHash a \<mapsto> g),
         bm_scopeCounts := incrementLoginAttemptCount (bm_scopeCounts s) (attempt_scope a),
         bm_browserCounts := incrementLoginAttemptCount (bm_browserCounts s) (attempt_browser a),
         bm_loginAttemptExpiry := heap_push \<lparr>le_ExpiresAt = sl_ExpiresAt a, le_StateHash = sl_StateHash a, le_Generation = g\<rparr> (bm_loginAttemptExpiry s)\<rparr>)"
proof -
  have "counts_right ((bm_loginAttempts s)(sl_StateHash a \<mapsto> a)) attempt_scope (incrementLoginAttemptCount (bm_scopeCounts s) (attempt_scope a))"
    "counts_right ((bm_loginAttempts s)(sl_StateHash a \<mapsto> a)) attempt_browser (incrementLoginAttemptCount (bm_browserCounts s) (attempt_browser a))"
    using assms by (auto simp: logins_wf_def logins_inv_def intro: increment_right)
  moreover have "\<exists>item \<in> set (heap_push \<lparr>le_ExpiresAt = sl_ExpiresAt a, le_StateHash = sl_StateHash a, le_Generation = g\<rparr> (bm_loginAttemptExpiry s)).
      le_StateHash item = sl_StateHash a \<and> le_ExpiresAt item = sl_ExpiresAt a \<and> le_Generation item = g"
    by (simp add: heap_push_def set_insort_key)
  moreover have "\<exists>item \<in> set (heap_push i (bm_loginAttemptExpiry s)). item_of s h b item" if "bm_loginAttempts s h = Some b" for h b i
    using that assms(1) by (auto simp: logins_wf_def logins_inv_def heap_push_def set_insort_key)
  ultimately show ?thesis
    using assms unfolding logins_wf_def logins_inv_def
    by (auto simp: item_of_def heap_push_def sorted_insort_key)
qed

lemma create_refines:
  assumes "logins_wf s" and "ready p s" and "proper login" and "bm_CreateLoginAttempt p login limits s = (r, s')"
  shows "(r, bm_loginAttempts s') = ref_create login limits (bm_loginAttempts s) \<and> logins_wf s' \<and> same_rest s s'"
proof -
  define t where "t = expireLoginAttempts (la_CreatedAt (sl_LoginAttempt login)) s"
  note e = expire_inv[OF assms(1), of "la_CreatedAt (sl_LoginAttempt login)", folded t_def]
  have c: "count_of (bm_scopeCounts t) key = int (card (attempts_in (bm_loginAttempts t) attempt_scope key))"
      "count_of (bm_browserCounts t) key' = int (card (attempts_in (bm_loginAttempts t) attempt_browser key'))" for key key'
    using e(1) by (auto simp: logins_wf_def logins_inv_def count_of_right)
  have p: "p = (None, None)" using assms(2) by (simp add: ready_def)
  have l: "locked (None, None) m s = m s" for m :: "(BrowserStore, unit) browser_op" using assms(2) p locked_ready by blast
  let ?a = "(bm_loginAttempts t)(sl_StateHash login \<mapsto> login)" and ?g = "bm_nextAttemptGeneration t + 1"
  define new where "new = t\<lparr>bm_loginAttempts := ?a, bm_nextAttemptGeneration := ?g,
         bm_loginAttemptGeneration := (bm_loginAttemptGeneration t)(sl_StateHash login \<mapsto> ?g),
         bm_scopeCounts := incrementLoginAttemptCount (bm_scopeCounts t) (attempt_scope login),
         bm_browserCounts := incrementLoginAttemptCount (bm_browserCounts t) (attempt_browser login),
         bm_loginAttemptExpiry := heap_push \<lparr>le_ExpiresAt = sl_ExpiresAt login, le_StateHash = sl_StateHash login, le_Generation = ?g\<rparr> (bm_loginAttemptExpiry t)\<rparr>"
  have "bm_CreateLoginAttempt p login limits s = (if bm_loginAttempts t (sl_StateHash login) \<noteq> None then (Inl (Sentinel errDuplicate), t)
      else if int (card (attempts_in (bm_loginAttempts t) attempt_scope (attempt_scope login))) \<ge> ll_Global limits
           \<or> int (card (attempts_in (bm_loginAttempts t) attempt_browser (attempt_browser login))) \<ge> ll_PerBrowser limits
      then (Inl (Sentinel errLoginAttemptLimited), t) else (Inr (), new))"
    using assms(3) by (simp add: bm_CreateLoginAttempt_def p l proper_def t_def Let_def new_def c[unfolded t_def])
  note run = this[unfolded assms(4)]
  have new: "logins_wf new" if "bm_loginAttempts t (sl_StateHash login) = None" unfolding new_def by (rule filed_inv[OF e(1) that])
  have "same_rest s new" "bm_loginAttempts new = ?a" using e(3) by (simp_all add: new_def same_rest_def)
  note rest = this
  have spec: "ref_create login limits (bm_loginAttempts s) = (if bm_loginAttempts t (sl_StateHash login) \<noteq> None then (Inl (Sentinel errDuplicate), bm_loginAttempts t)
      else if int (card (attempts_in (bm_loginAttempts t) attempt_scope (attempt_scope login))) \<ge> ll_Global limits
           \<or> int (card (attempts_in (bm_loginAttempts t) attempt_browser (attempt_browser login))) \<ge> ll_PerBrowser limits
      then (Inl (Sentinel errLoginAttemptLimited), bm_loginAttempts t) else (Inr (), ?a))"
    by (simp add: ref_create_def Let_def e(2))
  show ?thesis
  proof (cases "r = Inr ()")
    case True
    then have "s' = new" "bm_loginAttempts t (sl_StateHash login) = None" using run by (simp_all split: if_splits)
    with True run spec new rest show ?thesis by (simp split: if_splits)
  next
    case False
    then have "s' = t" using run by (simp split: if_splits)
    with False run spec e(1,3) show ?thesis by (simp split: if_splits)
  qed
qed

lemma consume_refines:
  assumes "logins_wf s" and "ready p s" and "bm_ConsumeLoginAttempt p stateHash bindingHash now s = (r, s')"
  shows "(r, bm_loginAttempts s') = ref_consume stateHash bindingHash now (bm_loginAttempts s) \<and> logins_wf s' \<and> same_rest s s'"
  using assms delete_inv[OF assms(1)[unfolded logins_wf_def]]
  by (auto simp: bm_ConsumeLoginAttempt_def locked_ready ref_consume_def logins_wf_def split: option.splits if_splits)

end
