(* ===== verification/BrowserLaws.thy ===== *)
theory BrowserLaws
  imports BrowserService BrowserLogins
begin

text \<open>
  The browser store as an interface: what its operations do to a view of users, sessions, codes, access tokens and
  outstanding logins, the steps the service takes over such a view, and the in-memory store as its provider.
\<close>

record BrowserView =
  v_users :: "string set"
  v_sessions :: "string \<rightharpoonup> storedSession"
  v_codes :: "string \<rightharpoonup> storedAuthorizationCode"
  v_tokens :: "string \<rightharpoonup> storedAccessToken"
  v_logins :: "string \<rightharpoonup> storedLoginAttempt"

subsection \<open>The lifecycle of sessions, codes and tokens\<close>

definition fresh_session :: "storedSession \<Rightarrow> bool" where
  "fresh_session r \<longleftrightarrow> ss_RevokedAt r = None \<and> ss_LastSeenAt r = ss_CreatedAt r \<and> ss_IdleExpiresAt r = ss_CreatedAt r + defaultIdleTimeout
     \<and> ss_AbsoluteExpiresAt r = ss_CreatedAt r + defaultAbsoluteTimeout"

definition ended :: "storedSession \<Rightarrow> time \<Rightarrow> storedSession" where
  "ended r now = (if ss_RevokedAt r = None then r\<lparr>ss_RevokedAt := Some now\<rparr> else r)"

definition session_opened :: "storedSession \<Rightarrow> BrowserView \<Rightarrow> BrowserView \<Rightarrow> bool" where
  "session_opened r v v' \<longleftrightarrow> userKey (ss_EnterpriseID r) (ss_UserID r) \<in> v_users v \<and> v_sessions v (ss_IDHash r) = None
     \<and> v' = v\<lparr>v_sessions := (v_sessions v)(ss_IDHash r \<mapsto> r)\<rparr>"

definition session_used :: "string \<Rightarrow> time \<Rightarrow> duration \<Rightarrow> storedSession \<Rightarrow> BrowserView \<Rightarrow> BrowserView \<Rightarrow> bool" where
  "session_used i now idle old v v' \<longleftrightarrow> v_sessions v i = Some old \<and> session_live old now
     \<and> v' = v\<lparr>v_sessions := (v_sessions v)(i \<mapsto> touched old now idle)\<rparr>"

definition session_ended :: "string \<Rightarrow> time \<Rightarrow> storedSession \<Rightarrow> BrowserView \<Rightarrow> BrowserView \<Rightarrow> bool" where
  "session_ended i now old v v' \<longleftrightarrow> v_sessions v i = Some old \<and> v' = v\<lparr>v_sessions := (v_sessions v)(i \<mapsto> ended old now)\<rparr>"

definition code_issued :: "storedAuthorizationCode \<Rightarrow> BrowserView \<Rightarrow> BrowserView \<Rightarrow> bool" where
  "code_issued code v v' \<longleftrightarrow> (\<exists>session. v_sessions v (sc_BrowserSessionIDHash code) = Some session \<and> ss_RevokedAt session = None
        \<and> ss_EnterpriseID session = sc_EnterpriseID code \<and> ss_UserID session = sc_UserID code)
     \<and> v_codes v (sc_CodeHash code) = None \<and> v' = v\<lparr>v_codes := (v_codes v)(sc_CodeHash code \<mapsto> code)\<rparr>"

definition exchangeable :: "exchangeRequest \<Rightarrow> storedAuthorizationCode \<Rightarrow> storedSession \<Rightarrow> BrowserView \<Rightarrow> bool" where
  "exchangeable q code session v \<longleftrightarrow> v_codes v (xq_CodeHash q) = Some code \<and> sc_ConsumedAt code = None \<and> xq_Now q < sc_ExpiresAt code
     \<and> sc_ClientID code = xq_ClientID q \<and> sc_RedirectURI code = xq_RedirectURI q \<and> v_tokens v (xq_AccessTokenHash q) = None
     \<and> v_sessions v (sc_BrowserSessionIDHash code) = Some session \<and> session_live session (xq_Now q)
     \<and> challenge_met (sc_CodeChallenge code) (xq_VerifierDigest q)"

definition code_exchanged :: "exchangeRequest \<Rightarrow> storedAuthorizationCode \<Rightarrow> storedSession \<Rightarrow> BrowserView \<Rightarrow> BrowserView \<Rightarrow> bool" where
  "code_exchanged q code session v v' \<longleftrightarrow> exchangeable q code session v
     \<and> v' = v\<lparr>v_codes := (v_codes v)(xq_CodeHash q \<mapsto> code\<lparr>sc_ConsumedAt := Some (xq_Now q)\<rparr>),
              v_tokens := (v_tokens v)(xq_AccessTokenHash q \<mapsto> token_for code q (ss_AbsoluteExpiresAt session))\<rparr>"

definition logins_changed :: "BrowserView \<Rightarrow> BrowserView \<Rightarrow> bool" where
  "logins_changed v v' \<longleftrightarrow> v' = v\<lparr>v_logins := v_logins v'\<rparr>"

lemmas lifecycle_defs = session_opened_def session_used_def session_ended_def code_issued_def exchangeable_def code_exchanged_def logins_changed_def

inductive browser_step :: "BrowserView \<Rightarrow> BrowserView \<Rightarrow> bool" where
  opened: "session_opened r v v' \<Longrightarrow> fresh_session r \<Longrightarrow> browser_step v v'"
| used: "session_used i now defaultIdleTimeout old v v' \<Longrightarrow> browser_step v v'"
| ended: "session_ended i now old v v' \<Longrightarrow> browser_step v v'"
| issued: "code_issued code v v' \<Longrightarrow> sc_ConsumedAt code = None \<Longrightarrow> browser_step v v'"
| exchanged: "code_exchanged q code session v v' \<Longrightarrow> xq_Audience q = xq_ClientID q \<Longrightarrow> browser_step v v'"
| logins: "logins_changed v v' \<Longrightarrow> browser_step v v'"

subsection \<open>The store as an interface\<close>

text \<open>What an operation does to the view when it returns and when it errs, in every well-formed store.\<close>

definition law :: "('st \<Rightarrow> BrowserView) \<Rightarrow> ('st \<Rightarrow> bool) \<Rightarrow> ('st, 'a) browser_op \<Rightarrow> ('a \<Rightarrow> BrowserView \<Rightarrow> BrowserView \<Rightarrow> bool)
    \<Rightarrow> (BrowserView \<Rightarrow> BrowserView \<Rightarrow> bool) \<Rightarrow> bool" where
  "law view okay m Q E \<longleftrightarrow> (\<forall>s. okay s \<longrightarrow> wp m (\<lambda>a s'. okay s' \<and> Q a (view s) (view s')) (\<lambda>e s'. okay s' \<and> E (view s) (view s')) s)"

abbreviation (input) unmoved :: "BrowserView \<Rightarrow> BrowserView \<Rightarrow> bool" where
  "unmoved v v' \<equiv> v' = v"

definition token_used :: "string \<Rightarrow> string \<Rightarrow> string \<Rightarrow> string \<Rightarrow> time \<Rightarrow> storedAccessToken \<Rightarrow> storedSession \<Rightarrow> BrowserView \<Rightarrow> bool" where
  "token_used tokenHash clientID audience enterpriseID now token session v \<longleftrightarrow> v_tokens v tokenHash = Some token
     \<and> v_sessions v (st_BrowserSessionIDHash token) = Some session \<and> token_matches token session clientID audience enterpriseID now"

locale browser_store =
  fixes ops :: "'st BrowserOps"
    and view :: "'st \<Rightarrow> BrowserView"
    and okay :: "'st \<Rightarrow> bool"
  assumes user_exists: "law view okay (bo_EnterpriseUserBindingExists ops p e u) (\<lambda>ok v v'. v' = v) unmoved"
    and create_session: "law view okay (bo_CreateSession ops p r) (\<lambda>_. session_opened r) unmoved"
    and use_session: "law view okay (bo_UseSession ops p i now idle)
      (\<lambda>r v v'. \<exists>old. session_used i now idle old v v' \<and> r = touched old now idle) unmoved"
    and revoke_session: "law view okay (bo_RevokeSession ops p i now) (\<lambda>_ v v'. \<exists>old. session_ended i now old v v') unmoved"
    and revoke_and_get: "law view okay (bo_RevokeAndGetSession ops p i now)
      (\<lambda>r v v'. \<exists>old. session_ended i now old v v' \<and> session_live old now \<and> r = ended old now) unmoved"
    and create_code: "law view okay (bo_CreateAuthorizationCode ops p code) (\<lambda>_. code_issued code) unmoved"
    and exchange: "law view okay (bo_ExchangeAuthorizationCode ops p q)
      (\<lambda>r v v'. \<exists>code session. code_exchanged q code session v v'
         \<and> r = code\<lparr>sc_ConsumedAt := Some (xq_Now q), sc_AccessTokenExpiresAt := ss_AbsoluteExpiresAt session\<rparr>) unmoved"
    and use_token: "law view okay (bo_UseAccessToken ops p h c a e now)
      (\<lambda>r v v'. \<exists>token session. token_used h c a e now token session v
         \<and> session_used (st_BrowserSessionIDHash token) now defaultIdleTimeout session v v'
         \<and> r = (let t = touched session now defaultIdleTimeout in token\<lparr>st_SessionCreatedAt := ss_CreatedAt t, st_SessionLastSeenAt := ss_LastSeenAt t,
                 st_SessionIdleExpiresAt := ss_IdleExpiresAt t, st_SessionAbsoluteExpiresAt := ss_AbsoluteExpiresAt t\<rparr>)) unmoved"
    and revoke_by_token: "law view okay (bo_RevokeSessionByAccessToken ops p h c a e now)
      (\<lambda>r v v'. \<exists>token session. token_used h c a e now token session v
         \<and> session_ended (st_BrowserSessionIDHash token) now session v v' \<and> r = ended session now) unmoved"
    and create_login: "law view okay (bo_CreateLoginAttempt ops p login limits)
      (\<lambda>_ v v'. v' = v\<lparr>v_logins := (unexpired (la_CreatedAt (sl_LoginAttempt login)) (v_logins v))(sl_StateHash login \<mapsto> login)\<rparr>
         \<and> unexpired (la_CreatedAt (sl_LoginAttempt login)) (v_logins v) (sl_StateHash login) = None
         \<and> int (card (attempts_in (unexpired (la_CreatedAt (sl_LoginAttempt login)) (v_logins v)) attempt_scope (attempt_scope login))) < ll_Global limits
         \<and> int (card (attempts_in (unexpired (la_CreatedAt (sl_LoginAttempt login)) (v_logins v)) attempt_browser (attempt_browser login))) < ll_PerBrowser limits)
      logins_changed"
    and consume_login: "law view okay (bo_ConsumeLoginAttempt ops p st b now)
      (\<lambda>r v v'. v_logins v st = Some r \<and> now < sl_ExpiresAt r \<and> sl_BindingHash r = b \<and> v' = v\<lparr>v_logins := (v_logins v)(st := None)\<rparr>)
      logins_changed"
begin

end

subsection \<open>The in-memory store\<close>

definition bm_view :: "BrowserStore \<Rightarrow> BrowserView" where
  "bm_view s = \<lparr>v_users = bm_users s, v_sessions = bm_sessions s, v_codes = bm_codes s, v_tokens = bm_accessTokens s, v_logins = bm_loginAttempts s\<rparr>"

definition bm_wf :: "BrowserStore \<Rightarrow> bool" where
  "bm_wf s \<longleftrightarrow> logins_wf s \<and> (\<forall>i r. bm_sessions s i = Some r \<longrightarrow> ss_IDHash r = i)"

lemma logins_wf_cong:
  "bm_loginAttempts s' = bm_loginAttempts s \<Longrightarrow> bm_loginAttemptGeneration s' = bm_loginAttemptGeneration s \<Longrightarrow> bm_scopeCounts s' = bm_scopeCounts s
   \<Longrightarrow> bm_browserCounts s' = bm_browserCounts s \<Longrightarrow> bm_loginAttemptExpiry s' = bm_loginAttemptExpiry s \<Longrightarrow> logins_wf s' = logins_wf s"
  by (simp add: logins_wf_def logins_inv_def item_of_def)

lemma logins_wf_updates [simp]:
  "logins_wf (s\<lparr>bm_sessions := x\<rparr>) = logins_wf s" "logins_wf (s\<lparr>bm_codes := c\<rparr>) = logins_wf s" "logins_wf (s\<lparr>bm_codes := c, bm_accessTokens := t\<rparr>) = logins_wf s"
  by (rule logins_wf_cong; simp)+

lemma law_locked:
  assumes "\<And>s. okay s \<Longrightarrow> wp m (\<lambda>a s'. okay s' \<and> Q a (view s) (view s')) (\<lambda>e s'. okay s' \<and> E (view s) (view s')) s" and "\<And>v. E v v"
  shows "law view okay (locked p m) Q E"
  unfolding law_def
proof (intro allI impI)
  fix s
  assume w: "okay s"
  from locked_cases[of p m s] show "wp (locked p m) (\<lambda>a s'. okay s' \<and> Q a (view s) (view s')) (\<lambda>e s'. okay s' \<and> E (view s) (view s')) s"
  proof
    assume "\<exists>e. locked p m s = (Inl e, s)"
    with w assms(2) show ?thesis by (auto simp: wp_def)
  next
    assume "locked p m s = m s"
    with assms(1)[OF w] show ?thesis by (simp add: wp_def)
  qed
qed

lemma touched_id [simp]: "ss_IDHash (touched r now d) = ss_IDHash r" and ended_id [simp]: "ss_IDHash (ended r now) = ss_IDHash r"
  by (simp_all add: touched_def ended_def)

lemmas memory_runs = wp_def bm_wf_def bm_view_def lifecycle_defs Let_def

lemma ended_live: "session_live r now \<Longrightarrow> ended r now = r\<lparr>ss_RevokedAt := Some now\<rparr>"
  by (simp add: ended_def session_live_def)

lemma locked_refuses: "\<not> ready p s \<Longrightarrow> \<exists>e. locked p m s = (Inl e, s)"
  by (cases p) (auto simp: locked_def ready_def check_def split: option.split)

lemma create_refuses:
  assumes "\<not> (ready p s \<and> proper login)"
  shows "\<exists>e. bm_CreateLoginAttempt p login limits s = (Inl e, s)"
proof (cases "fst p = None \<and> proper login")
  case True
  with assms have "\<not> ready (None, snd p) s" by (cases p) (auto simp: ready_def)
  from locked_refuses[OF this] True show ?thesis by (simp add: bm_CreateLoginAttempt_def proper_def)
next
  case False
  then show ?thesis
    by (cases "fst p") (auto simp: bm_CreateLoginAttempt_def proper_def require_def)
qed

lemma create_login_law:
  "law bm_view bm_wf (bm_CreateLoginAttempt p login limits)
      (\<lambda>_ v v'. v' = v\<lparr>v_logins := (unexpired (la_CreatedAt (sl_LoginAttempt login)) (v_logins v))(sl_StateHash login \<mapsto> login)\<rparr>
         \<and> unexpired (la_CreatedAt (sl_LoginAttempt login)) (v_logins v) (sl_StateHash login) = None
         \<and> int (card (attempts_in (unexpired (la_CreatedAt (sl_LoginAttempt login)) (v_logins v)) attempt_scope (attempt_scope login))) < ll_Global limits
         \<and> int (card (attempts_in (unexpired (la_CreatedAt (sl_LoginAttempt login)) (v_logins v)) attempt_browser (attempt_browser login))) < ll_PerBrowser limits)
      logins_changed"
  unfolding law_def
proof (intro allI impI)
  fix s
  assume wf: "bm_wf s"
  obtain r s' where run: "bm_CreateLoginAttempt p login limits s = (r, s')" by (cases "bm_CreateLoginAttempt p login limits s")
  have same: "bm_wf s' \<and> bm_view s' = (bm_view s)\<lparr>v_logins := bm_loginAttempts s'\<rparr>" if "logins_wf s'" "same_rest s s'"
    using wf that by (auto simp: bm_wf_def bm_view_def same_rest_def)
  show "wp (bm_CreateLoginAttempt p login limits)
     (\<lambda>a s'. bm_wf s' \<and> bm_view s' = (bm_view s)\<lparr>v_logins := (unexpired (la_CreatedAt (sl_LoginAttempt login)) (v_logins (bm_view s)))(sl_StateHash login \<mapsto> login)\<rparr>
         \<and> unexpired (la_CreatedAt (sl_LoginAttempt login)) (v_logins (bm_view s)) (sl_StateHash login) = None
         \<and> int (card (attempts_in (unexpired (la_CreatedAt (sl_LoginAttempt login)) (v_logins (bm_view s))) attempt_scope (attempt_scope login))) < ll_Global limits
         \<and> int (card (attempts_in (unexpired (la_CreatedAt (sl_LoginAttempt login)) (v_logins (bm_view s))) attempt_browser (attempt_browser login))) < ll_PerBrowser limits)
     (\<lambda>e s'. bm_wf s' \<and> logins_changed (bm_view s) (bm_view s')) s"
  proof (cases "ready p s \<and> proper login")
    case True
    have c: "(r, bm_loginAttempts s') = ref_create login limits (bm_loginAttempts s)" "logins_wf s'" "same_rest s s'"
      using create_refines[OF _ conjunct1[OF True] conjunct2[OF True] run] wf by (auto simp: bm_wf_def)
    have v: "v_logins (bm_view s) = bm_loginAttempts s" by (simp add: bm_view_def)
    show ?thesis
      using same[OF c(2,3)] c(1) by (auto simp: wp_def run v ref_create_def Let_def logins_changed_def split: if_splits)
  next
    case False
    then obtain e where "r = Inl e" "s' = s" using create_refuses[of p s login limits] run by auto
    with wf run show ?thesis by (simp add: wp_def logins_changed_def)
  qed
qed

lemma consume_login_law:
  "law bm_view bm_wf (bm_ConsumeLoginAttempt p st b now)
      (\<lambda>r v v'. v_logins v st = Some r \<and> now < sl_ExpiresAt r \<and> sl_BindingHash r = b \<and> v' = v\<lparr>v_logins := (v_logins v)(st := None)\<rparr>)
      logins_changed"
  unfolding law_def
proof (intro allI impI)
  fix s
  assume wf: "bm_wf s"
  obtain r s' where run: "bm_ConsumeLoginAttempt p st b now s = (r, s')" by (cases "bm_ConsumeLoginAttempt p st b now s")
  have same: "bm_wf s' \<and> bm_view s' = (bm_view s)\<lparr>v_logins := bm_loginAttempts s'\<rparr>" if "logins_wf s'" "same_rest s s'"
    using wf that by (auto simp: bm_wf_def bm_view_def same_rest_def)
  have v: "v_logins (bm_view s) = bm_loginAttempts s" by (simp add: bm_view_def)
  show "wp (bm_ConsumeLoginAttempt p st b now) (\<lambda>r s'. bm_wf s' \<and> v_logins (bm_view s) st = Some r \<and> now < sl_ExpiresAt r \<and> sl_BindingHash r = b
        \<and> bm_view s' = (bm_view s)\<lparr>v_logins := (v_logins (bm_view s))(st := None)\<rparr>) (\<lambda>e s'. bm_wf s' \<and> logins_changed (bm_view s) (bm_view s')) s"
  proof (cases "ready p s")
    case True
    have c: "(r, bm_loginAttempts s') = ref_consume st b now (bm_loginAttempts s)" "logins_wf s'" "same_rest s s'"
      using consume_refines[OF _ True run] wf by (auto simp: bm_wf_def)
    show ?thesis
      using same[OF c(2,3)] c(1) by (auto simp: wp_def run v ref_consume_def logins_changed_def split: if_splits option.splits)
  next
    case False
    then obtain e where "bm_ConsumeLoginAttempt p st b now s = (Inl e, s)" unfolding bm_ConsumeLoginAttempt_def using locked_refuses by blast
    with run have "r = Inl e" "s' = s" by simp_all
    with wf run show ?thesis by (simp add: wp_def logins_changed_def)
  qed
qed

interpretation browser: browser_store memory_browser bm_view bm_wf
proof (unfold_locales, goal_cases)
  case (1 p e u)
  show ?case unfolding memory_browser_def BrowserOps.simps bm_EnterpriseUserBindingExists_def by (rule law_locked) (simp_all add: wp_def)
next
  case (2 p r)
  show ?case unfolding memory_browser_def BrowserOps.simps bm_CreateSession_def by (rule law_locked) (auto simp: memory_runs)
next
  case (3 p i now idle)
  show ?case unfolding memory_browser_def BrowserOps.simps bm_UseSession_def by (rule law_locked) (auto simp: memory_runs split: option.split)
next
  case (4 p i now)
  show ?case unfolding memory_browser_def BrowserOps.simps bm_RevokeSession_def
    by (rule law_locked) (auto simp: memory_runs ended_def fun_upd_idem split: option.split)
next
  case (5 p i now)
  show ?case unfolding memory_browser_def BrowserOps.simps bm_RevokeAndGetSession_def
    by (rule law_locked) (auto simp: memory_runs ended_live split: option.split)
next
  case (6 p code)
  show ?case unfolding memory_browser_def BrowserOps.simps bm_CreateAuthorizationCode_def by (rule law_locked) (auto simp: memory_runs split: option.split)
next
  case (7 p q)
  show ?case unfolding memory_browser_def BrowserOps.simps bm_ExchangeAuthorizationCode_def by (rule law_locked) (auto simp: memory_runs split: option.split)
next
  case (8 p h c a e now)
  show ?case unfolding memory_browser_def BrowserOps.simps bm_UseAccessToken_def
    by (rule law_locked) (auto simp: memory_runs token_used_def split: option.split)
next
  case (9 p h c a e now)
  show ?case unfolding memory_browser_def BrowserOps.simps bm_RevokeSessionByAccessToken_def
    by (rule law_locked) (auto simp: memory_runs token_used_def ended_def split: option.split)
next
  case 10
  show ?case unfolding memory_browser_def BrowserOps.simps by (rule create_login_law)
next
  case 11
  show ?case unfolding memory_browser_def BrowserOps.simps by (rule consume_login_law)
qed

end
