(* ===== verification/BrowserRuns.thy ===== *)
theory BrowserRuns
  imports BrowserLaws
begin

text \<open>
  Runs of the browser service: every handler takes lifecycle steps over the store's view, sessions, codes and tokens keep
  what they are bound to, and what is revoked or consumed stays so.
\<close>

subsection \<open>What no step undoes\<close>

lemma logins_changed_fields:
  assumes "logins_changed v v'"
  shows "v_users v' = v_users v" "v_sessions v' = v_sessions v" "v_codes v' = v_codes v" "v_tokens v' = v_tokens v"
  using arg_cong[OF assms[unfolded logins_changed_def], of v_users] arg_cong[OF assms[unfolded logins_changed_def], of v_sessions]
    arg_cong[OF assms[unfolded logins_changed_def], of v_codes] arg_cong[OF assms[unfolded logins_changed_def], of v_tokens] by simp_all

text \<open>A session keeps its identity and its absolute end; a revoked one stays revoked.\<close>

definition continues :: "storedSession \<Rightarrow> storedSession \<Rightarrow> bool" where
  "continues r r' \<longleftrightarrow> ss_IDHash r' = ss_IDHash r \<and> ss_EnterpriseID r' = ss_EnterpriseID r \<and> ss_UserID r' = ss_UserID r
     \<and> ss_CreatedAt r' = ss_CreatedAt r \<and> ss_AbsoluteExpiresAt r' = ss_AbsoluteExpiresAt r
     \<and> (ss_RevokedAt r \<noteq> None \<longrightarrow> ss_RevokedAt r' = ss_RevokedAt r)"

definition code_continues :: "storedAuthorizationCode \<Rightarrow> storedAuthorizationCode \<Rightarrow> bool" where
  "code_continues c c' \<longleftrightarrow> c' = c \<or> sc_ConsumedAt c = None \<and> (\<exists>now. c' = c\<lparr>sc_ConsumedAt := Some now\<rparr>)"

definition kept :: "('a \<Rightarrow> 'a \<Rightarrow> bool) \<Rightarrow> (string \<rightharpoonup> 'a) \<Rightarrow> (string \<rightharpoonup> 'a) \<Rightarrow> bool" where
  "kept R m m' \<longleftrightarrow> (\<forall>k a. m k = Some a \<longrightarrow> (\<exists>a'. m' k = Some a' \<and> R a a'))"

lemma keptD: "kept R m m' \<Longrightarrow> m k = Some a \<Longrightarrow> \<exists>a'. m' k = Some a' \<and> R a a'"
  by (simp add: kept_def)

lemma kept_refl: "(\<And>a. R a a) \<Longrightarrow> kept R m m"
  by (simp add: kept_def)

lemma kept_trans: "(\<And>a b c. R a b \<Longrightarrow> R b c \<Longrightarrow> R a c) \<Longrightarrow> kept R m m' \<Longrightarrow> kept R m' m'' \<Longrightarrow> kept R m m''"
  unfolding kept_def by meson

lemma kept_update: "(\<And>a. R a a) \<Longrightarrow> (\<And>a. m k = Some a \<Longrightarrow> R a b) \<Longrightarrow> kept R m (m(k \<mapsto> b))"
  by (simp add: kept_def)

lemma continues_refl [simp]: "continues r r" and code_continues_refl [simp]: "code_continues c c"
  by (simp_all add: continues_def code_continues_def)

lemma continues_trans: "continues r r' \<Longrightarrow> continues r' r'' \<Longrightarrow> continues r r''"
  by (auto simp: continues_def)

lemma code_continues_trans: "code_continues c c' \<Longrightarrow> code_continues c' c'' \<Longrightarrow> code_continues c c''"
  by (auto simp: code_continues_def)

definition later_view :: "BrowserView \<Rightarrow> BrowserView \<Rightarrow> bool" where
  "later_view v v' \<longleftrightarrow> v_users v' = v_users v \<and> kept continues (v_sessions v) (v_sessions v') \<and> kept code_continues (v_codes v) (v_codes v')
     \<and> kept (=) (v_tokens v) (v_tokens v')"

lemma later_session: "later_view v v' \<Longrightarrow> v_sessions v i = Some r \<Longrightarrow> \<exists>r'. v_sessions v' i = Some r' \<and> continues r r'"
  and later_code: "later_view v v' \<Longrightarrow> v_codes v c = Some code \<Longrightarrow> \<exists>code'. v_codes v' c = Some code' \<and> code_continues code code'"
  by (simp_all add: later_view_def kept_def)

lemma continues_touched: "session_live r now \<Longrightarrow> continues r (touched r now d)" and continues_ended: "continues r (ended r now)"
  by (auto simp: continues_def touched_def ended_def session_live_def)

lemma view_later_refl [simp]: "later_view v v"
  by (simp add: later_view_def kept_refl)

lemma view_later_trans: "later_view v v' \<Longrightarrow> later_view v' v'' \<Longrightarrow> later_view v v''"
  unfolding later_view_def by (auto intro: kept_trans continues_trans code_continues_trans)

lemma kept_sessions: "(\<And>old. m i = Some old \<Longrightarrow> continues old r) \<Longrightarrow> kept continues m (m(i \<mapsto> r))"
  by (simp add: kept_def)

lemma kept_codes: "(\<And>old. m c = Some old \<Longrightarrow> code_continues old code) \<Longrightarrow> kept code_continues m (m(c \<mapsto> code))"
  by (simp add: kept_def)

lemma kept_fresh: "m k = None \<Longrightarrow> kept (=) m (m(k \<mapsto> a))"
  by (auto simp: kept_def)

lemma kept_same [simp]: "kept continues m m" "kept code_continues m' m'" "kept (=) m'' m''"
  by (simp_all add: kept_refl)

lemma view_later_step: "browser_step v v' \<Longrightarrow> later_view v v'"
proof (induction rule: browser_step.induct)
  case (opened r v v')
  then show ?case by (auto simp: later_view_def session_opened_def intro!: kept_sessions)
next
  case (used i now old v v')
  then show ?case by (auto simp: later_view_def session_used_def intro!: kept_sessions continues_touched)
next
  case (ended i now old v v')
  then show ?case by (auto simp: later_view_def session_ended_def intro!: kept_sessions continues_ended)
next
  case (issued code v v')
  then show ?case by (auto simp: later_view_def code_issued_def intro!: kept_codes)
next
  case (exchanged q code session v v')
  have "code_continues code (code\<lparr>sc_ConsumedAt := Some (xq_Now q)\<rparr>)" if "sc_ConsumedAt code = None" using that by (auto simp: code_continues_def)
  with exchanged show ?case by (auto simp: later_view_def code_exchanged_def exchangeable_def intro!: kept_codes kept_fresh)
next
  case (logins v v')
  then have "v_users v' = v_users v" "v_sessions v' = v_sessions v" "v_codes v' = v_codes v" "v_tokens v' = v_tokens v"
    by (simp_all add: logins_changed_fields)
  then show ?case by (simp add: later_view_def)
qed

lemma later_steps: "browser_step\<^sup>*\<^sup>* v v' \<Longrightarrow> later_view v v'"
  by (induction rule: rtranclp_induct) (auto dest: view_later_step intro: view_later_trans)

subsection \<open>What every reachable view keeps\<close>

text \<open>Sessions live at most their absolute time and idle at most the idle time.\<close>

definition session_ok :: "string set \<Rightarrow> string \<Rightarrow> storedSession \<Rightarrow> bool" where
  "session_ok users i r \<longleftrightarrow> ss_IDHash r = i \<and> userKey (ss_EnterpriseID r) (ss_UserID r) \<in> users
     \<and> ss_AbsoluteExpiresAt r = ss_CreatedAt r + defaultAbsoluteTimeout \<and> ss_IdleExpiresAt r \<le> ss_AbsoluteExpiresAt r
     \<and> ss_IdleExpiresAt r \<le> ss_LastSeenAt r + defaultIdleTimeout"

definition session_sound :: "BrowserView \<Rightarrow> bool" where
  "session_sound v \<longleftrightarrow> (\<forall>i r. v_sessions v i = Some r \<longrightarrow> session_ok (v_users v) i r)"

definition code_sound :: "BrowserView \<Rightarrow> bool" where
  "code_sound v \<longleftrightarrow> (\<forall>c code. v_codes v c = Some code \<longrightarrow> (\<exists>r. v_sessions v (sc_BrowserSessionIDHash code) = Some r
     \<and> ss_EnterpriseID r = sc_EnterpriseID code \<and> ss_UserID r = sc_UserID code))"

text \<open>The code an access token was exchanged for.\<close>

definition rests_on :: "BrowserView \<Rightarrow> storedAccessToken \<Rightarrow> string \<Rightarrow> bool" where
  "rests_on v t c \<longleftrightarrow> (\<exists>code r. v_codes v c = Some code \<and> sc_ConsumedAt code = Some (st_CreatedAt t) \<and> st_CreatedAt t < sc_ExpiresAt code
     \<and> sc_ClientID code = st_ClientID t \<and> st_Audience t = st_ClientID t \<and> sc_EnterpriseID code = st_EnterpriseID t \<and> sc_UserID code = st_UserID t
     \<and> sc_BrowserSessionIDHash code = st_BrowserSessionIDHash t
     \<and> v_sessions v (st_BrowserSessionIDHash t) = Some r \<and> ss_EnterpriseID r = st_EnterpriseID t \<and> ss_UserID r = st_UserID t
     \<and> st_ExpiresAt t = ss_AbsoluteExpiresAt r)"

definition token_sound :: "BrowserView \<Rightarrow> bool" where
  "token_sound v \<longleftrightarrow> (\<exists>f. inj_on f (dom (v_tokens v)) \<and> (\<forall>h t. v_tokens v h = Some t \<longrightarrow> rests_on v t (f h)))"

definition sound :: "BrowserView \<Rightarrow> bool" where
  "sound v \<longleftrightarrow> session_sound v \<and> code_sound v \<and> token_sound v"

definition blank :: "BrowserView \<Rightarrow> bool" where
  "blank v \<longleftrightarrow> v_sessions v = Map.empty \<and> v_codes v = Map.empty \<and> v_tokens v = Map.empty"

lemma blank_sound: "blank v \<Longrightarrow> sound v"
  by (simp add: blank_def sound_def session_sound_def code_sound_def token_sound_def)

lemma rests_later:
  assumes "later_view v v'" and "rests_on v t c"
  shows "rests_on v' t c"
proof -
  obtain code r where a: "v_codes v c = Some code" "v_sessions v (st_BrowserSessionIDHash t) = Some r" and rest:
      "sc_ConsumedAt code = Some (st_CreatedAt t)" "st_CreatedAt t < sc_ExpiresAt code" "sc_ClientID code = st_ClientID t" "st_Audience t = st_ClientID t"
      "sc_EnterpriseID code = st_EnterpriseID t" "sc_UserID code = st_UserID t" "sc_BrowserSessionIDHash code = st_BrowserSessionIDHash t"
      "ss_EnterpriseID r = st_EnterpriseID t" "ss_UserID r = st_UserID t" "st_ExpiresAt t = ss_AbsoluteExpiresAt r"
    using assms(2) by (auto simp: rests_on_def)
  obtain code' where c: "v_codes v' c = Some code'" "code_continues code code'" using assms(1) a(1) by (metis later_view_def keptD)
  obtain r' where r: "v_sessions v' (st_BrowserSessionIDHash t) = Some r'" "continues r r'" using assms(1) a(2) by (metis later_view_def keptD)
  have "code' = code" using c(2) rest(1) by (simp add: code_continues_def)
  with c r rest show ?thesis by (auto simp: rests_on_def continues_def)
qed

lemma code_later:
  assumes "later_view v v'" and "code_sound v" and "\<And>c code. v_codes v' c = Some code \<Longrightarrow> (\<exists>old. v_codes v c = Some old \<and> code_continues old code)
      \<or> (\<exists>r. v_sessions v' (sc_BrowserSessionIDHash code) = Some r \<and> ss_EnterpriseID r = sc_EnterpriseID code \<and> ss_UserID r = sc_UserID code)"
  shows "code_sound v'"
  unfolding code_sound_def
proof (intro allI impI)
  fix c code
  assume "v_codes v' c = Some code"
  from assms(3)[OF this] show "\<exists>r. v_sessions v' (sc_BrowserSessionIDHash code) = Some r \<and> ss_EnterpriseID r = sc_EnterpriseID code \<and> ss_UserID r = sc_UserID code"
  proof
    assume "\<exists>old. v_codes v c = Some old \<and> code_continues old code"
    then obtain old where o: "v_codes v c = Some old" "code_continues old code" by blast
    obtain r where r: "v_sessions v (sc_BrowserSessionIDHash old) = Some r" "ss_EnterpriseID r = sc_EnterpriseID old" "ss_UserID r = sc_UserID old"
      using assms(2) o(1) by (auto simp: code_sound_def)
    obtain r' where "v_sessions v' (sc_BrowserSessionIDHash old) = Some r'" "continues r r'" using assms(1) r(1) by (metis later_view_def keptD)
    with o(2) r show ?thesis by (auto simp: code_continues_def continues_def)
  qed
qed

lemma token_later: "later_view v v' \<Longrightarrow> v_tokens v' = v_tokens v \<Longrightarrow> token_sound v \<Longrightarrow> token_sound v'"
  unfolding token_sound_def using rests_later by fastforce

lemma touched_sound:
  "ss_IdleExpiresAt (touched r now d) \<le> ss_AbsoluteExpiresAt (touched r now d) \<and> ss_IdleExpiresAt (touched r now d) \<le> ss_LastSeenAt (touched r now d) + d
   \<and> ss_AbsoluteExpiresAt (touched r now d) = ss_AbsoluteExpiresAt r \<and> ss_CreatedAt (touched r now d) = ss_CreatedAt r
   \<and> ss_EnterpriseID (touched r now d) = ss_EnterpriseID r \<and> ss_UserID (touched r now d) = ss_UserID r"
  by (simp add: touched_def)

lemma ended_sel:
  "ss_IdleExpiresAt (ended r now) = ss_IdleExpiresAt r \<and> ss_AbsoluteExpiresAt (ended r now) = ss_AbsoluteExpiresAt r
   \<and> ss_LastSeenAt (ended r now) = ss_LastSeenAt r \<and> ss_CreatedAt (ended r now) = ss_CreatedAt r
   \<and> ss_EnterpriseID (ended r now) = ss_EnterpriseID r \<and> ss_UserID (ended r now) = ss_UserID r"
  by (simp add: ended_def)

lemma exchanged_tokens:
  assumes "code_exchanged q code session v v'" and "xq_Audience q = xq_ClientID q" and "session_sound v" and "code_sound v" and "token_sound v"
  shows "token_sound v'"
proof -
  have x: "exchangeable q code session v" and v': "v' = v\<lparr>v_codes := (v_codes v)(xq_CodeHash q \<mapsto> code\<lparr>sc_ConsumedAt := Some (xq_Now q)\<rparr>),
              v_tokens := (v_tokens v)(xq_AccessTokenHash q \<mapsto> token_for code q (ss_AbsoluteExpiresAt session))\<rparr>"
    using assms(1) by (simp_all add: code_exchanged_def)
  obtain f where f: "inj_on f (dom (v_tokens v))" "\<And>h t. v_tokens v h = Some t \<Longrightarrow> rests_on v t (f h)"
    using assms(5) by (auto simp: token_sound_def)
  have "later_view v v'" by (rule view_later_step[OF browser_step.exchanged[OF assms(1,2)]])
  note keep = rests_later[OF this f(2)]
  let ?h = "xq_AccessTokenHash q" and ?c = "xq_CodeHash q"
  have own: "f h \<noteq> ?c" if "v_tokens v h = Some t" for h t
    using f(2)[OF that] x by (auto simp: rests_on_def exchangeable_def)
  have user: "ss_EnterpriseID session = sc_EnterpriseID code" "ss_UserID session = sc_UserID code"
    using assms(4) x unfolding code_sound_def exchangeable_def by (metis option.inject)+
  have new: "rests_on v' (token_for code q (ss_AbsoluteExpiresAt session)) ?c"
    using x user assms(2) by (simp add: rests_on_def v' token_for_def exchangeable_def)
  have fresh: "?h \<notin> dom (v_tokens v)" using x by (simp add: exchangeable_def domIff)
  have "inj_on (f(?h := ?c)) (dom (v_tokens v'))"
  proof -
    have "dom (v_tokens v') = insert ?h (dom (v_tokens v))" by (auto simp: v')
    moreover have "inj_on (f(?h := ?c)) (dom (v_tokens v))" using f(1) fresh by (simp add: inj_on_fun_updI inj_on_def)
    moreover have "?c \<notin> (f(?h := ?c)) ` (dom (v_tokens v) - {?h})"
    proof
      assume "?c \<in> (f(?h := ?c)) ` (dom (v_tokens v) - {?h})"
      then obtain x t where "v_tokens v x = Some t" "?c = f x" by (auto split: if_splits)
      with own[of x t] show False by simp
    qed
    ultimately show ?thesis using fresh by (simp add: inj_on_insert)
  qed
  moreover have "rests_on v' t ((f(?h := ?c)) h)" if "v_tokens v' h = Some t" for h t
    using that keep new by (auto simp: v' split: if_splits)
  ultimately show ?thesis unfolding token_sound_def by blast
qed

lemma sound_step:
  assumes "browser_step v v'" and "sound v"
  shows "sound v'"
proof -
  note late = view_later_step[OF assms(1)]
  have s: "session_sound v" "code_sound v" "token_sound v" using assms(2) by (simp_all add: sound_def)
  have fresh: "session_ok (v_users v) (ss_IDHash r) r" if "fresh_session r" "userKey (ss_EnterpriseID r) (ss_UserID r) \<in> v_users v" for r
    using that by (simp add: session_ok_def fresh_session_def timeout_defs)
  have touch: "session_ok (v_users v) i (touched r now defaultIdleTimeout)" if "v_sessions v i = Some r" for i r now
  proof -
    have "session_ok (v_users v) i r" using s(1) that by (simp add: session_sound_def)
    then show ?thesis using touched_sound[of r now defaultIdleTimeout] by (simp add: session_ok_def)
  qed
  have "end": "session_ok (v_users v) i (ended r now)" if "v_sessions v i = Some r" for i r now
  proof -
    have "session_ok (v_users v) i r" using s(1) that by (simp add: session_sound_def)
    then show ?thesis using ended_sel[of r now] by (simp add: session_ok_def)
  qed
  from assms(1) have "session_sound v'"
  proof (cases rule: browser_step.cases)
    case (opened r)
    then show ?thesis using s(1) fresh by (simp add: session_sound_def session_opened_def)
  next
    case (used i now old)
    then show ?thesis using s(1) touch by (simp add: session_sound_def session_used_def)
  next
    case (ended i now old)
    then show ?thesis using s(1) "end" by (simp add: session_sound_def session_ended_def)
  next
    case logins
    then show ?thesis using s(1) by (simp add: logins_changed_fields session_sound_def)
  qed (use s(1) in \<open>simp_all add: session_sound_def lifecycle_defs\<close>)
  moreover have "code_sound v'"
  proof (rule code_later[OF late s(2)])
    fix c code
    assume c: "v_codes v' c = Some code"
    show "(\<exists>old. v_codes v c = Some old \<and> code_continues old code)
      \<or> (\<exists>r. v_sessions v' (sc_BrowserSessionIDHash code) = Some r \<and> ss_EnterpriseID r = sc_EnterpriseID code \<and> ss_UserID r = sc_UserID code)"
      using assms(1)
    proof (cases rule: browser_step.cases)
      case (exchanged q code0 session)
      then show ?thesis using c by (auto simp: code_exchanged_def exchangeable_def code_continues_def split: if_splits)
    next
      case logins
      then have "v_codes v' = v_codes v" by (simp add: logins_changed_fields)
      with c show ?thesis by auto
    qed (use c in \<open>auto simp: lifecycle_defs split: if_splits\<close>)
  qed
  moreover have "token_sound v'"
    using assms(1)
  proof (cases rule: browser_step.cases)
    case (exchanged q code session)
    then show ?thesis using exchanged_tokens s by blast
  next
    case logins
    then have "v_tokens v' = v_tokens v" by (simp add: logins_changed_fields)
    then show ?thesis by (rule token_later[OF late _ s(3)])
  qed (rule token_later[OF late _ s(3)], simp add: lifecycle_defs)+
  ultimately show ?thesis by (simp add: sound_def)
qed

lemma sound_steps: "browser_step\<^sup>*\<^sup>* v v' \<Longrightarrow> sound v \<Longrightarrow> sound v'"
  by (induction rule: rtranclp_induct) (auto intro: sound_step)

subsection \<open>Running the service's primitives\<close>

lemma wp_read_now [wp_simps]: "wp (read_now sv) Q E w \<longleftrightarrow> Q (sv_now sv (bw_ticks w)) (w\<lparr>bw_ticks := Suc (bw_ticks w)\<rparr>)"
  by (simp add: wp_def read_now_def)

lemma wp_generateSecret [wp_simps]: "wp (generateSecret sv) Q E w \<longleftrightarrow>
    (case sv_generateSecret sv (bw_secrets w) of Inl e \<Rightarrow> E e (w\<lparr>bw_secrets := Suc (bw_secrets w)\<rparr>)
     | Inr x \<Rightarrow> Q x (w\<lparr>bw_secrets := Suc (bw_secrets w)\<rparr>))"
  by (simp add: wp_def generateSecret_def split: sum.split)

lemma wp_with_store: "sv_store sv = Some ops \<Longrightarrow> wp (with_store sv e ok k) Q E w \<longleftrightarrow> (ok \<longrightarrow> wp (k ops) Q E w) \<and> (\<not> ok \<longrightarrow> E (Sentinel e) w)"
  by (simp add: with_store_def wp_def)

lemma wp_store_call:
  assumes "\<And>p. law view okay (f p) R F" and "okay (bw_store w)"
    and "\<And>a s'. okay s' \<Longrightarrow> R a (view (bw_store w)) (view s') \<Longrightarrow> Q a (w\<lparr>bw_store := s', bw_calls := Suc (bw_calls w)\<rparr>)"
    and "\<And>e s'. okay s' \<Longrightarrow> F (view (bw_store w)) (view s') \<Longrightarrow> E e (w\<lparr>bw_store := s', bw_calls := Suc (bw_calls w)\<rparr>)"
  shows "wp (store_call ctx f) Q E w"
proof -
  obtain r s' where run: "f (ctx (bw_calls w)) (bw_store w) = (r, s')" by (cases "f (ctx (bw_calls w)) (bw_store w)")
  have "wp (f (ctx (bw_calls w))) (\<lambda>a s'. okay s' \<and> R a (view (bw_store w)) (view s')) (\<lambda>e s'. okay s' \<and> F (view (bw_store w)) (view s')) (bw_store w)"
    using assms(1,2) by (simp add: law_def)
  with run assms(3,4) show ?thesis by (cases r) (simp_all add: wp_def store_call_def)
qed

text \<open>A handler as a step of the world; a run is any sequence of them.\<close>

inductive service_step :: "'st BrowserService \<Rightarrow> 'st BrowserWorld \<Rightarrow> 'st BrowserWorld \<Rightarrow> bool" for sv where
  create_session: "service_step sv w (snd (ServiceCreateSession sv ctx csi w))"
| get_session: "service_step sv w (snd (GetSession sv ctx token w))"
| revoke_session: "service_step sv w (snd (ServiceRevokeSession sv ctx token w))"
| logout_session: "service_step sv w (snd (LogoutSession sv ctx token w))"
| issue_code: "service_step sv w (snd (IssueCode sv ctx ici w))"
| exchange_code: "service_step sv w (snd (ExchangeCode sv ctx eci w))"
| get_token_session: "service_step sv w (snd (GetAccessTokenSession sv ctx token clientID audience enterpriseID w))"
| logout_token: "service_step sv w (snd (LogoutAccessTokenSession sv ctx token clientID audience enterpriseID w))"
| create_login: "service_step sv w (snd (CreateLoginAttempt sv ctx cai w))"
| consume_login: "service_step sv w (snd (ConsumeLoginAttempt sv ctx state binding w))"

definition ends :: "string \<Rightarrow> BrowserView \<Rightarrow> BrowserView \<Rightarrow> bool" where
  "ends i v v' \<longleftrightarrow> (\<exists>now old. session_ended i now old v v')"

definition uses :: "string \<Rightarrow> BrowserView \<Rightarrow> BrowserView \<Rightarrow> bool" where
  "uses i v v' \<longleftrightarrow> (\<exists>now old. session_used i now defaultIdleTimeout old v v')"

definition token_ends :: "string \<Rightarrow> BrowserView \<Rightarrow> BrowserView \<Rightarrow> bool" where
  "token_ends h v v' \<longleftrightarrow> (\<exists>t. v_tokens v h = Some t \<and> ends (st_BrowserSessionIDHash t) v v')"

text \<open>A code is issued for the session whose token was presented.\<close>

definition gives_code :: "string \<Rightarrow> BrowserView \<Rightarrow> BrowserView \<Rightarrow> bool" where
  "gives_code i v v' \<longleftrightarrow> (\<exists>u c. uses i v u \<and> code_issued c u v' \<and> sc_ConsumedAt c = None)"

lemma endsI: "session_ended i now old v v' \<Longrightarrow> ends i v v'" and usesI: "session_used i now defaultIdleTimeout old v v' \<Longrightarrow> uses i v v'"
  by (auto simp: ends_def uses_def)

lemma token_endsI: "token_used h c a e now t old v \<Longrightarrow> session_ended (st_BrowserSessionIDHash t) now' old' v v' \<Longrightarrow> token_ends h v v'"
  by (auto simp: token_ends_def token_used_def intro: endsI)

lemma gives_codeI: "session_used i now defaultIdleTimeout old v u \<Longrightarrow> code_issued c u v' \<Longrightarrow> sc_ConsumedAt c = None \<Longrightarrow> gives_code i v v'"
  by (auto simp: gives_code_def intro: usesI)

context browser_store
begin

definition V :: "'st BrowserWorld \<Rightarrow> BrowserView" where "V w = view (bw_store w)"

definition moved :: "'st BrowserWorld \<Rightarrow> 'st BrowserWorld \<Rightarrow> bool" where
  "moved w w' \<longleftrightarrow> okay (bw_store w') \<and> browser_step\<^sup>*\<^sup>* (V w) (V w')"

lemma moved_same: "okay s \<Longrightarrow> view s = V w \<Longrightarrow> bw_store w' = s \<Longrightarrow> moved w w'"
  by (simp add: moved_def V_def)

lemma moved_one: "browser_step (V w) (view s) \<Longrightarrow> okay s \<Longrightarrow> bw_store w' = s \<Longrightarrow> moved w w'"
  by (auto simp: moved_def V_def)

lemma moved_used: "session_used i now defaultIdleTimeout old (V w) v \<Longrightarrow> view s = v \<Longrightarrow> okay s \<Longrightarrow> bw_store w' = s \<Longrightarrow> moved w w'"
  by (rule moved_one) (auto intro: browser_step.used)

subsection \<open>What each handler does\<close>

lemma GetSession_run:
  assumes "sv_store sv = Some ops" and "okay (bw_store w)"
  shows "wp (GetSession sv ctx token) (\<lambda>b w'. okay (bw_store w')
     \<and> (\<exists>old. session_used (hashHex token) (sv_now sv (bw_ticks w)) defaultIdleTimeout old (V w) (V w')
          \<and> b = publicSession (touched old (sv_now sv (bw_ticks w)) defaultIdleTimeout))) (\<lambda>_ w'. okay (bw_store w') \<and> V w' = V w) w"
  unfolding GetSession_def wp_with_store[OF assms(1)] wp_simps
  by (auto intro!: wp_store_call[OF use_session] simp: assms(2) V_def)

lemma RevokeSession_run:
  assumes "sv_store sv = Some ops" and "okay (bw_store w)"
  shows "wp (ServiceRevokeSession sv ctx token) (\<lambda>_ w'. okay (bw_store w') \<and> ends (hashHex token) (V w) (V w'))
     (\<lambda>_ w'. okay (bw_store w') \<and> V w' = V w) w"
  unfolding ServiceRevokeSession_def wp_with_store[OF assms(1)] wp_simps
  by (auto intro!: wp_store_call[OF revoke_session] intro: endsI simp: assms(2) V_def)

lemma LogoutSession_run:
  assumes "sv_store sv = Some ops" and "okay (bw_store w)"
  shows "wp (LogoutSession sv ctx token) (\<lambda>_ w'. okay (bw_store w') \<and> ends (hashHex token) (V w) (V w'))
     (\<lambda>_ w'. okay (bw_store w') \<and> V w' = V w) w"
  unfolding LogoutSession_def wp_with_store[OF assms(1)] wp_simps
  by (auto intro!: wp_store_call[OF revoke_and_get] intro: endsI simp: assms(2) V_def)

lemma LogoutToken_run:
  assumes "sv_store sv = Some ops" and "okay (bw_store w)"
  shows "wp (LogoutAccessTokenSession sv ctx token clientID audience enterpriseID)
     (\<lambda>_ w'. okay (bw_store w') \<and> token_ends (hashHex token) (V w) (V w')) (\<lambda>_ w'. okay (bw_store w') \<and> V w' = V w) w"
  unfolding LogoutAccessTokenSession_def wp_with_store[OF assms(1)] wp_simps
  by (auto intro!: wp_store_call[OF revoke_by_token] intro: token_endsI simp: assms(2) V_def)

lemma CreateSession_run:
  assumes "sv_store sv = Some ops" and "okay (bw_store w)"
  shows "wp (ServiceCreateSession sv ctx input) (\<lambda>x w'. okay (bw_store w') \<and> (\<exists>r. session_opened r (V w) (V w') \<and> fresh_session r
        \<and> ss_IDHash r = hashHex (fst x) \<and> snd x = publicSession r)) (\<lambda>_ w'. okay (bw_store w') \<and> V w' = V w) w"
  unfolding ServiceCreateSession_def wp_with_store[OF assms(1)] wp_simps Let_def
  by (auto intro!: wp_store_call[OF user_exists] wp_store_call[OF create_session] simp: assms(2) V_def wp_simps fresh_session_def split: option.split sum.split)

lemma IssueCode_run:
  assumes "sv_store sv = Some ops" and "okay (bw_store w)"
  shows "wp (IssueCode sv ctx input) (\<lambda>code w'. okay (bw_store w') \<and> gives_code (hashHex (ic_BrowserSessionToken input)) (V w) (V w'))
     (\<lambda>_ w'. okay (bw_store w') \<and> (V w' = V w \<or> uses (hashHex (ic_BrowserSessionToken input)) (V w) (V w'))) w"
  unfolding IssueCode_def wp_with_store[OF assms(1)] wp_simps Let_def
  by (auto intro!: wp_store_call[OF use_session] wp_store_call[OF create_code] intro: usesI gives_codeI simp: assms(2) V_def wp_simps split: option.split sum.split)

lemma ExchangeCode_run:
  assumes "sv_store sv = Some ops" and "okay (bw_store w)"
  shows "wp (ExchangeCode sv ctx input) (\<lambda>r w'. okay (bw_store w') \<and> (\<exists>q code session. code_exchanged q code session (V w) (V w')
        \<and> xq_CodeHash q = hashHex (xc_Code input) \<and> xq_VerifierDigest q = sha256 (xc_Verifier input) \<and> xq_ClientID q = xc_ClientID input
        \<and> xq_RedirectURI q = xc_RedirectURI input \<and> xq_Now q = sv_now sv (bw_ticks w) \<and> xq_AccessTokenHash q = hashHex (xr_AccessToken r)
        \<and> xq_Audience q = xc_ClientID input \<and> xr_EnterpriseID r = sc_EnterpriseID code \<and> xr_UserID r = sc_UserID code \<and> xr_Nonce r = sc_Nonce code
        \<and> xr_AccessTokenExpiresAt r = ss_AbsoluteExpiresAt session)) (\<lambda>_ w'. okay (bw_store w') \<and> V w' = V w) w"
proof -
  let ?q = "\<lambda>x. \<lparr>xq_CodeHash = hashHex (xc_Code input), xq_VerifierDigest = sha256 (xc_Verifier input), xq_ClientID = xc_ClientID input,
           xq_RedirectURI = xc_RedirectURI input, xq_Now = sv_now sv (bw_ticks w), xq_AccessTokenHash = hashHex x, xq_Audience = xc_ClientID input\<rparr>"
  have made: "\<exists>q code session. code_exchanged q code session v v' \<and> xq_CodeHash q = hashHex (xc_Code input) \<and> xq_VerifierDigest q = sha256 (xc_Verifier input)
        \<and> xq_ClientID q = xc_ClientID input \<and> xq_RedirectURI q = xc_RedirectURI input \<and> xq_Now q = sv_now sv (bw_ticks w) \<and> xq_AccessTokenHash q = hashHex x
        \<and> xq_Audience q = xc_ClientID input \<and> sc_EnterpriseID c = sc_EnterpriseID code \<and> sc_UserID c = sc_UserID code \<and> sc_Nonce c = sc_Nonce code
        \<and> ss_AbsoluteExpiresAt r = ss_AbsoluteExpiresAt session" if "code_exchanged (?q x) c r v v'" for x c r v v'
    using that by (intro exI[of _ "?q x"] exI[of _ c] exI[of _ r]) simp
  show ?thesis
    unfolding ExchangeCode_def wp_with_store[OF assms(1)] wp_simps
    by (auto intro!: wp_store_call[OF exchange] intro: made simp: assms(2) V_def wp_simps split: option.split sum.split)
qed

lemma GetToken_run:
  assumes "sv_store sv = Some ops" and "okay (bw_store w)"
  shows "wp (GetAccessTokenSession sv ctx token clientID audience enterpriseID)
     (\<lambda>b w'. okay (bw_store w') \<and> (\<exists>t old. token_used (hashHex token) clientID audience enterpriseID (sv_now sv (bw_ticks w)) t old (V w)
        \<and> session_used (st_BrowserSessionIDHash t) (sv_now sv (bw_ticks w)) defaultIdleTimeout old (V w) (V w')
        \<and> b = publicSession (touched old (sv_now sv (bw_ticks w)) defaultIdleTimeout))) (\<lambda>_ w'. okay (bw_store w') \<and> V w' = V w) w"
proof -
  have same: "\<lparr>bs_EnterpriseID = st_EnterpriseID t, bs_UserID = st_UserID t, bs_CreatedAt = ss_CreatedAt r, bs_LastSeenAt = ss_LastSeenAt r,
      bs_IdleExpiresAt = ss_IdleExpiresAt r, bs_AbsoluteExpiresAt = ss_AbsoluteExpiresAt r\<rparr> = publicSession r"
    if "token_used h clientID audience enterpriseID now t old v" and "r = touched old now defaultIdleTimeout" for t r h now old v
    using that by (auto simp: token_used_def token_matches_def publicSession_def touched_def)
  show ?thesis
    unfolding GetAccessTokenSession_def wp_with_store[OF assms(1)] wp_simps
    by (auto intro!: wp_store_call[OF use_token] simp: assms(2) V_def Let_def same wp_simps) blast
qed

lemma CreateLogin_run:
  assumes "sv_store sv = Some ops" and "okay (bw_store w)"
  shows "wp (CreateLoginAttempt sv ctx input) (\<lambda>_ w'. okay (bw_store w') \<and> logins_changed (V w) (V w')) (\<lambda>_ w'. okay (bw_store w') \<and> logins_changed (V w) (V w')) w"
  unfolding CreateLoginAttempt_def wp_with_store[OF assms(1)] wp_simps Let_def
  by (auto intro!: wp_store_call[OF create_login] simp: assms(2) V_def wp_simps logins_changed_def split: option.split sum.split)

lemma ConsumeLogin_run:
  assumes "sv_store sv = Some ops" and "okay (bw_store w)"
  shows "wp (ConsumeLoginAttempt sv ctx state binding) (\<lambda>_ w'. okay (bw_store w') \<and> logins_changed (V w) (V w')) (\<lambda>_ w'. okay (bw_store w') \<and> logins_changed (V w) (V w')) w"
  unfolding ConsumeLoginAttempt_def wp_with_store[OF assms(1)] wp_simps
  by (auto intro!: wp_store_call[OF consume_login] simp: assms(2) V_def wp_simps logins_changed_def)

subsection \<open>Runs\<close>

lemma wp_moved: "wp m Q E w \<Longrightarrow> (\<And>a w'. Q a w' \<Longrightarrow> P w') \<Longrightarrow> (\<And>e w'. E e w' \<Longrightarrow> P w') \<Longrightarrow> P (snd (m w))"
  by (auto simp: wp_def split: prod.splits sum.splits)

lemma moved_still: "okay (bw_store w') \<Longrightarrow> V w' = V w \<Longrightarrow> moved w w'"
  by (simp add: moved_def)

lemma moved_step: "okay (bw_store w') \<Longrightarrow> browser_step (V w) (V w') \<Longrightarrow> moved w w'"
  by (auto simp: moved_def)

lemma moved_uses: "okay (bw_store w') \<Longrightarrow> uses i (V w) (V w') \<Longrightarrow> moved w w'"
  by (auto simp: uses_def intro: moved_step browser_step.used)

lemma moved_ends: "okay (bw_store w') \<Longrightarrow> ends i (V w) (V w') \<Longrightarrow> moved w w'"
  by (auto simp: ends_def intro: moved_step browser_step.ended)

lemma moved_token_ends: "okay (bw_store w') \<Longrightarrow> token_ends h (V w) (V w') \<Longrightarrow> moved w w'"
  by (auto simp: token_ends_def intro: moved_ends)

lemma moved_gives_code: "okay (bw_store w') \<Longrightarrow> gives_code i (V w) (V w') \<Longrightarrow> moved w w'"
  by (auto simp: gives_code_def uses_def moved_def intro: rtranclp.rtrancl_into_rtrancl browser_step.used browser_step.issued)

lemma service_moves:
  assumes "service_step sv w w'" and "sv_store sv = Some ops" and "okay (bw_store w)"
  shows "moved w w'"
  using assms(1)
proof cases
  case (create_session ctx csi)
  show ?thesis unfolding create_session
    by (rule wp_moved[OF CreateSession_run[OF assms(2,3)]]) (auto intro: moved_still moved_step browser_step.opened)
next
  case (get_session ctx token)
  show ?thesis unfolding get_session by (rule wp_moved[OF GetSession_run[OF assms(2,3)]]) (auto intro: moved_still moved_uses usesI)
next
  case (revoke_session ctx token)
  show ?thesis unfolding revoke_session by (rule wp_moved[OF RevokeSession_run[OF assms(2,3)]]) (auto intro: moved_still moved_ends)
next
  case (logout_session ctx token)
  show ?thesis unfolding logout_session by (rule wp_moved[OF LogoutSession_run[OF assms(2,3)]]) (auto intro: moved_still moved_ends)
next
  case (issue_code ctx ici)
  show ?thesis unfolding issue_code by (rule wp_moved[OF IssueCode_run[OF assms(2,3)]]) (auto intro: moved_still moved_uses moved_gives_code)
next
  case (exchange_code ctx eci)
  show ?thesis unfolding exchange_code
    by (rule wp_moved[OF ExchangeCode_run[OF assms(2,3)]]) (elim exE conjE, rule moved_step, assumption, rule browser_step.exchanged, assumption, simp, auto intro: moved_still)
next
  case (get_token_session ctx token clientID audience enterpriseID)
  show ?thesis unfolding get_token_session by (rule wp_moved[OF GetToken_run[OF assms(2,3)]]) (auto intro: moved_still moved_uses usesI)
next
  case (logout_token ctx token clientID audience enterpriseID)
  show ?thesis unfolding logout_token by (rule wp_moved[OF LogoutToken_run[OF assms(2,3)]]) (auto intro: moved_still moved_token_ends)
next
  case (create_login ctx cai)
  show ?thesis unfolding create_login by (rule wp_moved[OF CreateLogin_run[OF assms(2,3)]]) (auto intro: moved_step browser_step.logins)
next
  case (consume_login ctx state binding)
  show ?thesis unfolding consume_login by (rule wp_moved[OF ConsumeLogin_run[OF assms(2,3)]]) (auto intro: moved_step browser_step.logins)
qed

lemma service_run:
  assumes "(service_step sv)\<^sup>*\<^sup>* w w'" and "sv_store sv = Some ops" and "okay (bw_store w)"
  shows "moved w w'"
  using assms(1)
proof (induction rule: rtranclp_induct)
  case base
  then show ?case by (simp add: moved_def assms(3))
next
  case (step y z)
  then have "moved y z" using service_moves[OF step.hyps(2) assms(2)] by (simp add: moved_def)
  with step.IH show ?case by (auto simp: moved_def)
qed

text \<open>What a run from a world keeps.\<close>

lemma browser_run_later: "moved w w' \<Longrightarrow> later_view (V w) (V w')" and run_sound: "moved w w' \<Longrightarrow> sound (V w) \<Longrightarrow> sound (V w')"
  by (auto simp: moved_def dest: later_steps sound_steps)

end

end
