(* ===== verification/BrowserExample.thy ===== *)
theory BrowserExample
  imports BrowserAuth BrowserService
begin

text \<open>
  A run of the browser service over the in-memory store with one user: a session is opened, a code issued under it and
  exchanged by the holder of the verifier. The clock stands still and every generated secret is the same.
\<close>

definition shop_secret :: string where
  "shop_secret = raw_url_encode (replicate 32 CHR ''s'')"

definition shop_verifier :: string where
  "shop_verifier = replicate 43 CHR ''v''"

definition shop :: "BrowserStore BrowserService" where
  "shop = NewBrowserService (Some memory_browser) (\<lambda>n. 1000) (\<lambda>n. Inr shop_secret) None"

definition shop_ctx :: ctx where
  "shop_ctx n = (None, None)"

definition shop_open :: CreateSessionInput where
  "shop_open = \<lparr>cs_EnterpriseID = ''acme'', cs_UserID = ''alice'', cs_UserAgent = ''ua''\<rparr>"

definition shop_issue :: IssueCodeInput where
  "shop_issue = \<lparr>ic_EnterpriseID = ''acme'', ic_UserID = ''alice'', ic_ClientID = ''console'', ic_RedirectURI = ''/cb'', ic_Nonce = ''n'',
     ic_CodeChallenge = raw_url_encode (sha256 shop_verifier), ic_BrowserSessionToken = shop_secret\<rparr>"

definition shop_exchange :: ExchangeCodeInput where
  "shop_exchange = \<lparr>xc_Code = shop_secret, xc_Verifier = shop_verifier, xc_ClientID = ''console'', xc_RedirectURI = ''/cb''\<rparr>"

definition shop_session :: storedSession where
  "shop_session = \<lparr>ss_IDHash = hashHex shop_secret, ss_EnterpriseID = ''acme'', ss_UserID = ''alice'', ss_CreatedAt = 1000, ss_LastSeenAt = 1000,
     ss_IdleExpiresAt = 1000 + defaultIdleTimeout, ss_AbsoluteExpiresAt = 1000 + defaultAbsoluteTimeout, ss_RevokedAt = None, ss_UserAgentHash = hashHex ''ua''\<rparr>"

definition shop_code :: storedAuthorizationCode where
  "shop_code = \<lparr>sc_CodeHash = hashHex shop_secret, sc_EnterpriseID = ''acme'', sc_UserID = ''alice'', sc_ClientID = ''console'',
     sc_RedirectURI = ''/cb'', sc_Nonce = ''n'', sc_CodeChallenge = raw_url_encode (sha256 shop_verifier), sc_CreatedAt = 1000,
     sc_ExpiresAt = 1000 + defaultCodeTimeout, sc_ConsumedAt = None, sc_BrowserSessionIDHash = hashHex shop_secret, sc_AccessTokenExpiresAt = 0\<rparr>"

definition shop_token :: storedAccessToken where
  "shop_token = \<lparr>st_TokenHash = hashHex shop_secret, st_BrowserSessionIDHash = hashHex shop_secret, st_EnterpriseID = ''acme'', st_UserID = ''alice'',
     st_ClientID = ''console'', st_Audience = ''console'', st_CreatedAt = 1000, st_ExpiresAt = 1000 + defaultAbsoluteTimeout, st_RevokedAt = None,
     st_SessionCreatedAt = 0, st_SessionLastSeenAt = 0, st_SessionIdleExpiresAt = 0, st_SessionAbsoluteExpiresAt = 0\<rparr>"

text \<open>The stores the run passes through.\<close>

definition shop_users :: BrowserStore where
  "shop_users = AddEnterpriseUser ''acme'' ''alice'' NewBrowserStore"
definition shop_opened :: BrowserStore where
  "shop_opened = shop_users\<lparr>bm_sessions := [hashHex shop_secret \<mapsto> shop_session]\<rparr>"
definition shop_issued :: BrowserStore where
  "shop_issued = shop_opened\<lparr>bm_codes := [hashHex shop_secret \<mapsto> shop_code]\<rparr>"
definition shop_sold :: BrowserStore where
  "shop_sold = shop_issued\<lparr>bm_codes := [hashHex shop_secret \<mapsto> shop_code\<lparr>sc_ConsumedAt := Some 1000\<rparr>],
     bm_accessTokens := [hashHex shop_secret \<mapsto> shop_token]\<rparr>"

lemmas shop_stores = shop_users_def shop_opened_def shop_issued_def shop_sold_def AddEnterpriseUser_def NewBrowserStore_def

definition at_counts :: "BrowserStore \<Rightarrow> nat \<Rightarrow> nat \<Rightarrow> nat \<Rightarrow> BrowserStore BrowserWorld" where
  "at_counts s ticks secrets calls = \<lparr>bw_store = s, bw_ticks = ticks, bw_secrets = secrets, bw_calls = calls\<rparr>"

lemma at_counts_sel [simp]: "bw_store (at_counts s t g c) = s" "bw_ticks (at_counts s t g c) = t" "bw_secrets (at_counts s t g c) = g" "bw_calls (at_counts s t g c) = c"
    "at_counts s t g c\<lparr>bw_store := s', bw_calls := c'\<rparr> = at_counts s' t g c'" "at_counts s t g c\<lparr>bw_ticks := t'\<rparr> = at_counts s t' g c"
    "at_counts s t g c\<lparr>bw_secrets := g'\<rparr> = at_counts s t g' c"
  by (simp_all add: at_counts_def)

lemma shop_selectors [simp]: "sv_store shop = Some memory_browser" "sv_now shop n = 1000" "sv_generateSecret shop n = Inr shop_secret"
  by (simp_all add: shop_def NewBrowserService_def)

lemma shop_shapes: "validOpaqueSecret shop_secret" "validateGeneratedSecret shop_secret = None" "shop_secret \<noteq> []" "validPKCEVerifier shop_verifier"
    "validS256Challenge (raw_url_encode (sha256 shop_verifier))" "hashHex shop_secret \<noteq> []"
    "challenge_met (raw_url_encode (sha256 shop_verifier)) (sha256 shop_verifier)"
proof -
  have l: "length shop_secret = 43" unfolding shop_secret_def by code_simp
  then show "shop_secret \<noteq> []" by auto
  from l show "validOpaqueSecret shop_secret" by (simp add: validOpaqueSecret_def shop_secret_def)
  show "validateGeneratedSecret shop_secret = None" by (simp add: validateGeneratedSecret_def shop_secret_def fail_if_def)
  show "validPKCEVerifier shop_verifier" by code_simp
  show "validS256Challenge (raw_url_encode (sha256 shop_verifier))" by (simp add: validS256Challenge_def)
  show "challenge_met (raw_url_encode (sha256 shop_verifier)) (sha256 shop_verifier)" by (simp add: challenge_met_def)
  have "length (hashHex shop_secret) = 64" by (simp add: hashHex_def sha256_hex_def)
  then show "hashHex shop_secret \<noteq> []" by auto
qed

lemma shop_bounds: "validBounded ''console'' maxClientIDLength" "validBounded ''/cb'' maxRedirectURILength" "validBounded ''n'' maxNonceLength"
  by code_simp+

lemma shop_selected [simp]: "bm_err shop_users = None" "bm_err shop_opened = None" "bm_err shop_issued = None" "bm_err shop_sold = None"
    "bm_sessions shop_opened = [hashHex shop_secret \<mapsto> shop_session]" "bm_sessions shop_issued = [hashHex shop_secret \<mapsto> shop_session]"
    "bm_sessions shop_sold = [hashHex shop_secret \<mapsto> shop_session]" "bm_codes shop_issued = [hashHex shop_secret \<mapsto> shop_code]"
    "bm_accessTokens shop_issued = Map.empty" "bm_accessTokens shop_sold = [hashHex shop_secret \<mapsto> shop_token]"
    "bm_codes shop_sold = [hashHex shop_secret \<mapsto> shop_code\<lparr>sc_ConsumedAt := Some 1000\<rparr>]"
  by (simp_all add: shop_stores)

lemma locked_open: "bm_err s = None \<Longrightarrow> locked (None, None) body s = body s"
  by (simp add: locked_def check_def andthen_def)

lemma shop_live: "session_live shop_session 1000" "touched shop_session 1000 defaultIdleTimeout = shop_session"
  by (simp_all add: session_live_def touched_def shop_session_def timeout_defs)

lemma shop_used: "bm_err s = None \<Longrightarrow> bm_sessions s = [hashHex shop_secret \<mapsto> shop_session] \<Longrightarrow>
    bm_UseSession (None, None) (hashHex shop_secret) 1000 defaultIdleTimeout s = (Inr shop_session, s)"
  by (simp add: bm_UseSession_def locked_open shop_live)

text \<open>The store calls of the run.\<close>

lemma shop_calls:
  "bm_EnterpriseUserBindingExists (None, None) ''acme'' ''alice'' shop_users = (Inr True, shop_users)"
  "bm_CreateSession (None, None) shop_session shop_users = (Inr (), shop_opened)"
  "bm_CreateAuthorizationCode (None, None) shop_code shop_opened = (Inr (), shop_issued)"
  by (simp_all add: bm_EnterpriseUserBindingExists_def bm_CreateSession_def bm_CreateAuthorizationCode_def locked_open)
    (simp_all add: shop_stores shop_session_def shop_code_def)

definition shop_request :: exchangeRequest where
  "shop_request = \<lparr>xq_CodeHash = hashHex shop_secret, xq_VerifierDigest = sha256 shop_verifier, xq_ClientID = ''console'', xq_RedirectURI = ''/cb'',
     xq_Now = 1000, xq_AccessTokenHash = hashHex shop_secret, xq_Audience = ''console''\<rparr>"

lemma shop_exchanged: "bm_ExchangeAuthorizationCode (None, None) shop_request shop_issued
   = (Inr (shop_code\<lparr>sc_ConsumedAt := Some 1000, sc_AccessTokenExpiresAt := 1000 + defaultAbsoluteTimeout\<rparr>), shop_sold)"
  using shop_live(1)
  by (simp add: bm_ExchangeAuthorizationCode_def locked_open shop_request_def shop_code_def shop_shapes Let_def)
    (simp add: shop_session_def token_for_def shop_token_def shop_stores shop_code_def timeout_defs)

lemmas shop_run = with_store_def store_call_def read_now_def generateSecret_def andthen_def on_error_def require_def check_def ret_def
  shop_ctx_def memory_browser_def shop_shapes shop_bounds Let_def

text \<open>The run: open, issue, exchange, look at the session, log out.\<close>

lemma shop_opens: "ServiceCreateSession shop shop_ctx shop_open (at_counts shop_users 0 0 0)
   = (Inr (shop_secret, publicSession shop_session), at_counts shop_opened 1 1 2)"
  by (simp add: ServiceCreateSession_def shop_run shop_open_def shop_calls shop_calls(2)[unfolded shop_session_def]) (simp add: shop_session_def)

lemma shop_issues: "IssueCode shop shop_ctx shop_issue (at_counts shop_opened 1 1 2) = (Inr shop_secret, at_counts shop_issued 3 2 4)"
proof -
  have "ss_EnterpriseID shop_session = ''acme''" "ss_UserID shop_session = ''alice''" by (simp_all add: shop_session_def)
  then show ?thesis by (simp add: IssueCode_def shop_run shop_issue_def shop_used shop_calls(3)[unfolded shop_code_def])
qed

lemma shop_exchanges: "\<exists>x. ExchangeCode shop shop_ctx shop_exchange (at_counts shop_issued 3 2 4) = (Inr x, at_counts shop_sold 5 3 5)
    \<and> xr_AccessToken x = shop_secret"
  by (simp add: ExchangeCode_def shop_run shop_exchange_def shop_exchanged[unfolded shop_request_def])

lemma shop_gets: "GetSession shop shop_ctx shop_secret (at_counts shop_opened 1 1 2) = (Inr (publicSession shop_session), at_counts shop_opened 2 1 3)"
  by (simp add: GetSession_def shop_run shop_used)

lemma shop_logs_out: "\<exists>b w. LogoutSession shop shop_ctx shop_secret (at_counts shop_sold 5 3 5) = (Inr b, w)"
  using shop_live(1) by (simp add: LogoutSession_def shop_run bm_RevokeAndGetSession_def locked_open)

end
