(* ===== verification/BrowserProperties.thy ===== *)
theory BrowserProperties
  imports BrowserRuns BrowserExample
begin

text \<open>
  What the browser service promises over the in-memory store, from a store that holds users only: sessions end for good, a
  code is worth one token to the one who knows its verifier, a token rests on its own code, and outstanding logins are bounded.
\<close>

definition new_world :: "BrowserStore BrowserWorld \<Rightarrow> bool" where
  "new_world w \<longleftrightarrow> (\<exists>users. bw_store w = NewBrowserStore\<lparr>bm_users := users\<rparr>)"

lemma logins_wf_new: "logins_wf (NewBrowserStore\<lparr>bm_users := users\<rparr>)"
  by (simp add: logins_wf_def logins_inv_def NewBrowserStore_def counts_right_def counted_def attempts_in_def)

lemma new_world_sound: "new_world w \<Longrightarrow> bm_wf (bw_store w) \<and> sound (browser.V w)"
  using logins_wf_new by (auto simp: new_world_def bm_wf_def browser.V_def bm_view_def NewBrowserStore_def intro!: blank_sound)
    (simp add: blank_def)

lemma browser_reached:
  assumes "sv_store sv = Some memory_browser" and "new_world w0" and "(service_step sv)\<^sup>*\<^sup>* w0 w"
  shows "bm_wf (bw_store w)" and "sound (browser.V w)"
proof -
  have "browser.moved w0 w" using browser.service_run[OF assms(3,1)] new_world_sound[OF assms(2)] by blast
  then show "bm_wf (bw_store w)" "sound (browser.V w)"
    using browser.run_sound new_world_sound[OF assms(2)] by (auto simp: browser.moved_def)
qed

lemma view_simps [simp]:
  "v_sessions (browser.V w) = bm_sessions (bw_store w)" "v_codes (browser.V w) = bm_codes (bw_store w)"
  "v_tokens (browser.V w) = bm_accessTokens (bw_store w)" "v_logins (browser.V w) = bm_loginAttempts (bw_store w)"
  "v_users (browser.V w) = bm_users (bw_store w)"
  by (simp_all add: browser.V_def bm_view_def)

text \<open>The example run as steps of the service.\<close>

lemma shop_steps: "new_world (at_counts shop_users 0 0 0)" "(service_step shop)\<^sup>*\<^sup>* (at_counts shop_users 0 0 0) (at_counts shop_opened 1 1 2)"
    "(service_step shop)\<^sup>*\<^sup>* (at_counts shop_users 0 0 0) (at_counts shop_issued 3 2 4)"
    "(service_step shop)\<^sup>*\<^sup>* (at_counts shop_users 0 0 0) (at_counts shop_sold 5 3 5)"
proof -
  show "new_world (at_counts shop_users 0 0 0)" by (auto simp: new_world_def shop_users_def AddEnterpriseUser_def NewBrowserStore_def)
  have a: "service_step shop (at_counts shop_users 0 0 0) (at_counts shop_opened 1 1 2)"
    using create_session[of shop "at_counts shop_users 0 0 0" shop_ctx shop_open] by (simp add: shop_opens)
  have b: "service_step shop (at_counts shop_opened 1 1 2) (at_counts shop_issued 3 2 4)"
    using issue_code[of shop "at_counts shop_opened 1 1 2" shop_ctx shop_issue] unfolding shop_issues by simp
  have c: "service_step shop (at_counts shop_issued 3 2 4) (at_counts shop_sold 5 3 5)"
    using exchange_code[of shop "at_counts shop_issued 3 2 4" shop_ctx shop_exchange] shop_exchanges by auto
  show opened: "(service_step shop)\<^sup>*\<^sup>* (at_counts shop_users 0 0 0) (at_counts shop_opened 1 1 2)" using a by blast
  then show issued: "(service_step shop)\<^sup>*\<^sup>* (at_counts shop_users 0 0 0) (at_counts shop_issued 3 2 4)" using b by (rule rtranclp.rtrancl_into_rtrancl)
  then show "(service_step shop)\<^sup>*\<^sup>* (at_counts shop_users 0 0 0) (at_counts shop_sold 5 3 5)" using c by (rule rtranclp.rtrancl_into_rtrancl)
qed

subsection \<open>Ended sessions\<close>

definition gone :: "BrowserStore \<Rightarrow> string \<Rightarrow> bool" where
  "gone s i \<longleftrightarrow> (\<forall>r. bm_sessions s i = Some r \<longrightarrow> ss_RevokedAt r \<noteq> None)"

definition refused :: "(browser_go_error + 'a) \<times> 'w \<Rightarrow> bool" where
  "refused r \<longleftrightarrow> (\<exists>e. fst r = Inl e)"

lemma wp_refused: "wp m Q E w \<Longrightarrow> (\<And>a w'. \<not> Q a w') \<Longrightarrow> refused (m w)"
  by (auto simp: wp_def refused_def split: prod.splits sum.splits)

text \<open>The ways to end the session of a browser token.\<close>

definition logs_out :: "BrowserStore BrowserService \<Rightarrow> ctx \<Rightarrow> string \<Rightarrow> BrowserStore BrowserWorld \<Rightarrow> BrowserStore BrowserWorld \<Rightarrow> bool" where
  "logs_out sv ctx token w w' \<longleftrightarrow> (\<exists>b. LogoutSession sv ctx token w = (Inr b, w')) \<or> ServiceRevokeSession sv ctx token w = (Inr (), w')
     \<or> (\<exists>access c a e b t. LogoutAccessTokenSession sv ctx access c a e w = (Inr b, w') \<and> bm_accessTokens (bw_store w) (hashHex access) = Some t
          \<and> st_BrowserSessionIDHash t = hashHex token)"

lemma ends_gone: "ends i v v' \<Longrightarrow> \<exists>r. v_sessions v' i = Some r \<and> ss_RevokedAt r \<noteq> None"
  by (auto simp: ends_def session_ended_def ended_def)

lemma logged_out:
  assumes "sv_store sv = Some memory_browser" and "bm_wf (bw_store w)" and "logs_out sv ctx token w w'"
  shows "bm_wf (bw_store w') \<and> (\<exists>r. bm_sessions (bw_store w') (hashHex token) = Some r \<and> ss_RevokedAt r \<noteq> None)"
proof -
  consider (session) b where "LogoutSession sv ctx token w = (Inr b, w')" | (revoke) "ServiceRevokeSession sv ctx token w = (Inr (), w')"
    | (access) access c a e b t where "LogoutAccessTokenSession sv ctx access c a e w = (Inr b, w')"
        "bm_accessTokens (bw_store w) (hashHex access) = Some t" "st_BrowserSessionIDHash t = hashHex token"
    using assms(3) by (auto simp: logs_out_def)
  then show ?thesis
  proof cases
    case session
    from wp_Inr[OF browser.LogoutSession_run[OF assms(1,2)] session] show ?thesis by (auto dest: ends_gone)
  next
    case revoke
    from wp_Inr[OF browser.RevokeSession_run[OF assms(1,2)] revoke] show ?thesis by (auto dest: ends_gone)
  next
    case access
    from wp_Inr[OF browser.LogoutToken_run[OF assms(1,2)] access(1)] access(2,3) show ?thesis by (auto simp: token_ends_def dest: ends_gone)
  qed
qed

text \<open>C4: after a logout or a revocation of a browser session, whatever the service does afterwards, the session is dead for
  good: its cookie resolves to no session and gets no authorization code, none of its access tokens resolves, and none of its
  codes can be exchanged.\<close>

theorem ended_session_is_dead:
  assumes "sv_store sv = Some memory_browser" and "new_world w0" and "(service_step sv)\<^sup>*\<^sup>* w0 w"
    and "logs_out sv ctx token w w1" and "(service_step sv)\<^sup>*\<^sup>* w1 w2"
  shows "refused (GetSession sv ctx' token w2)
    \<and> (ic_BrowserSessionToken ici = token \<longrightarrow> refused (IssueCode sv ctx' ici w2))
    \<and> (\<forall>t. bm_accessTokens (bw_store w2) (hashHex access) = Some t \<longrightarrow> st_BrowserSessionIDHash t = hashHex token
         \<longrightarrow> refused (GetAccessTokenSession sv ctx' access c a e w2))
    \<and> (\<forall>code. bm_codes (bw_store w2) (hashHex (xc_Code eci)) = Some code \<longrightarrow> sc_BrowserSessionIDHash code = hashHex token
         \<longrightarrow> refused (ExchangeCode sv ctx' eci w2))"
proof -
  note out = logged_out[OF assms(1) browser_reached(1)[OF assms(1-3)] assms(4)]
  have m: "browser.moved w1 w2" by (rule browser.service_run[OF assms(5,1)]) (use out in blast)
  then have wf: "bm_wf (bw_store w2)" by (simp add: browser.moved_def)
  obtain r0 where r0: "v_sessions (browser.V w1) (hashHex token) = Some r0" "ss_RevokedAt r0 \<noteq> None" using out by auto
  from later_session[OF browser.browser_run_later[OF m] r0(1)] obtain r where "bm_sessions (bw_store w2) (hashHex token) = Some r" "continues r0 r" by auto
  then have "bm_sessions (bw_store w2) (hashHex token) = Some r" "ss_RevokedAt r \<noteq> None" using r0(2) by (auto simp: continues_def)
  then have dead: "session_live s now \<Longrightarrow> bm_sessions (bw_store w2) (hashHex token) \<noteq> Some s" for s now by (auto simp: session_live_def)
  have "refused (GetSession sv ctx' token w2)"
    by (rule wp_refused[OF browser.GetSession_run[OF assms(1) wf]]) (auto simp: session_used_def dest: dead)
  moreover have "refused (IssueCode sv ctx' ici w2)" if "ic_BrowserSessionToken ici = token"
    by (rule wp_refused[OF browser.IssueCode_run[OF assms(1) wf]]) (auto simp: that gives_code_def uses_def session_used_def dest: dead)
  moreover have "refused (GetAccessTokenSession sv ctx' access c a e w2)"
    if "bm_accessTokens (bw_store w2) (hashHex access) = Some t" "st_BrowserSessionIDHash t = hashHex token" for t
    by (rule wp_refused[OF browser.GetToken_run[OF assms(1) wf]]) (use that in \<open>auto simp: token_used_def session_used_def dest: dead\<close>)
  moreover have "refused (ExchangeCode sv ctx' eci w2)"
    if "bm_codes (bw_store w2) (hashHex (xc_Code eci)) = Some code" "sc_BrowserSessionIDHash code = hashHex token" for code
    by (rule wp_refused[OF browser.ExchangeCode_run[OF assms(1) wf]]) (use that in \<open>auto simp: code_exchanged_def exchangeable_def dest: dead\<close>)
  ultimately show ?thesis by blast
qed

lemma ended_session_is_dead_witness:
  "\<exists>b w. LogoutSession shop shop_ctx shop_secret (at_counts shop_sold 5 3 5) = (Inr b, w)
     \<and> refused (GetSession shop shop_ctx shop_secret w) \<and> refused (IssueCode shop shop_ctx shop_issue w)"
proof -
  obtain b w where out: "LogoutSession shop shop_ctx shop_secret (at_counts shop_sold 5 3 5) = (Inr b, w)" using shop_logs_out by blast
  then have "logs_out shop shop_ctx shop_secret (at_counts shop_sold 5 3 5) w" by (auto simp: logs_out_def)
  note dead = ended_session_is_dead[OF shop_selectors(1) shop_steps(1,4) this rtranclp.rtrancl_refl]
  have "ic_BrowserSessionToken shop_issue = shop_secret" by (simp add: shop_issue_def)
  with dead out show ?thesis by blast
qed

subsection \<open>Codes and tokens\<close>

text \<open>C8: a code is exchanged at most once, and only by the client it was issued to, at its redirect URI, with the verifier
  whose SHA-256 is its challenge, before it expires and while the session it was issued under is live and is the
  session of the user the exchange names; the token ends with the session. Every later exchange of the code is refused.\<close>

theorem code_is_exchanged_once_by_its_verifier:
  assumes "sv_store sv = Some memory_browser" and "new_world w0" and "(service_step sv)\<^sup>*\<^sup>* w0 w" and "ExchangeCode sv ctx eci w = (Inr x, w1)"
  shows "(\<exists>code session. bm_codes (bw_store w) (hashHex (xc_Code eci)) = Some code \<and> sc_ConsumedAt code = None
      \<and> sc_ClientID code = xc_ClientID eci \<and> sc_RedirectURI code = xc_RedirectURI eci
      \<and> raw_url_decode (sc_CodeChallenge code) = Some (sha256 (xc_Verifier eci)) \<and> sv_now sv (bw_ticks w) < sc_ExpiresAt code
      \<and> bm_sessions (bw_store w) (sc_BrowserSessionIDHash code) = Some session \<and> session_live session (sv_now sv (bw_ticks w))
      \<and> xr_EnterpriseID x = ss_EnterpriseID session \<and> xr_UserID x = ss_UserID session \<and> xr_Nonce x = sc_Nonce code
      \<and> xr_AccessTokenExpiresAt x = ss_AbsoluteExpiresAt session)
    \<and> (\<forall>w2 ctx' eci'. (service_step sv)\<^sup>*\<^sup>* w1 w2 \<longrightarrow> xc_Code eci' = xc_Code eci \<longrightarrow> refused (ExchangeCode sv ctx' eci' w2))"
proof -
  note wf = browser_reached(1)[OF assms(1-3)] and so = browser_reached(2)[OF assms(1-3)]
  from wp_Inr[OF browser.ExchangeCode_run[OF assms(1) wf] assms(4)] obtain q code session where wf1: "bm_wf (bw_store w1)"
    and x: "code_exchanged q code session (browser.V w) (browser.V w1)" and q: "xq_CodeHash q = hashHex (xc_Code eci)"
      "xq_VerifierDigest q = sha256 (xc_Verifier eci)" "xq_ClientID q = xc_ClientID eci" "xq_RedirectURI q = xc_RedirectURI eci"
      "xq_Now q = sv_now sv (bw_ticks w)" "xr_EnterpriseID x = sc_EnterpriseID code" "xr_UserID x = sc_UserID code" "xr_Nonce x = sc_Nonce code"
      "xr_AccessTokenExpiresAt x = ss_AbsoluteExpiresAt session"
    by blast
  have e: "exchangeable q code session (browser.V w)" using x by (simp add: code_exchanged_def)
  have user: "ss_EnterpriseID session = sc_EnterpriseID code" "ss_UserID session = sc_UserID code"
    using so e unfolding sound_def code_sound_def exchangeable_def by (metis option.inject)+
  have spent: "refused (ExchangeCode sv ctx' eci' w2)" if run: "(service_step sv)\<^sup>*\<^sup>* w1 w2" and same: "xc_Code eci' = xc_Code eci" for w2 ctx' eci'
  proof -
    have m: "browser.moved w1 w2" by (rule browser.service_run[OF run assms(1) wf1])
    have "v_codes (browser.V w1) (hashHex (xc_Code eci)) = Some (code\<lparr>sc_ConsumedAt := Some (xq_Now q)\<rparr>)" using x q(1) by (simp add: code_exchanged_def)
    from later_code[OF browser.browser_run_later[OF m] this] obtain c where "bm_codes (bw_store w2) (hashHex (xc_Code eci)) = Some c" "sc_ConsumedAt c \<noteq> None"
      by (auto simp: code_continues_def)
    then show ?thesis
      using m by (intro wp_refused[OF browser.ExchangeCode_run[OF assms(1)]])
        (auto simp: same browser.moved_def code_exchanged_def exchangeable_def)
  qed
  have "raw_url_decode (sc_CodeChallenge code) = Some (sha256 (xc_Verifier eci))"
    using e q(2) by (auto simp: exchangeable_def challenge_met_def split: option.splits)
  then have "bm_codes (bw_store w) (hashHex (xc_Code eci)) = Some code \<and> sc_ConsumedAt code = None
      \<and> sc_ClientID code = xc_ClientID eci \<and> sc_RedirectURI code = xc_RedirectURI eci
      \<and> raw_url_decode (sc_CodeChallenge code) = Some (sha256 (xc_Verifier eci)) \<and> sv_now sv (bw_ticks w) < sc_ExpiresAt code
      \<and> bm_sessions (bw_store w) (sc_BrowserSessionIDHash code) = Some session \<and> session_live session (sv_now sv (bw_ticks w))
      \<and> xr_EnterpriseID x = ss_EnterpriseID session \<and> xr_UserID x = ss_UserID session \<and> xr_Nonce x = sc_Nonce code
      \<and> xr_AccessTokenExpiresAt x = ss_AbsoluteExpiresAt session"
    using e q user by (simp add: exchangeable_def)
  with spent show ?thesis by blast
qed

lemma code_is_exchanged_once_by_its_verifier_witness:
  "\<exists>x w. ExchangeCode shop shop_ctx shop_exchange (at_counts shop_issued 3 2 4) = (Inr x, w) \<and> xr_UserID x = ''alice''
     \<and> refused (ExchangeCode shop shop_ctx shop_exchange w)"
proof -
  obtain x where x: "ExchangeCode shop shop_ctx shop_exchange (at_counts shop_issued 3 2 4) = (Inr x, at_counts shop_sold 5 3 5)" using shop_exchanges by blast
  from code_is_exchanged_once_by_its_verifier[OF shop_selectors(1) shop_steps(1,3) x] x show ?thesis
    by (auto simp: shop_exchange_def shop_code_def shop_session_def)
qed

text \<open>In every reachable store each access token rests on a code of its own: distinct tokens on distinct codes, each
  consumed when its token was created and in time, issued to the token's client and audience for the user of the session the
  token names; the token expires with that session.\<close>

theorem access_token_rests_on_own_code:
  assumes "sv_store sv = Some memory_browser" and "new_world w0" and "(service_step sv)\<^sup>*\<^sup>* w0 w"
  shows "\<exists>f. inj_on f (dom (bm_accessTokens (bw_store w)))
    \<and> (\<forall>h t. bm_accessTokens (bw_store w) h = Some t \<longrightarrow> (\<exists>code session. bm_codes (bw_store w) (f h) = Some code
        \<and> sc_ConsumedAt code = Some (st_CreatedAt t) \<and> st_CreatedAt t < sc_ExpiresAt code \<and> sc_ClientID code = st_ClientID t
        \<and> st_Audience t = st_ClientID t \<and> sc_BrowserSessionIDHash code = st_BrowserSessionIDHash t
        \<and> bm_sessions (bw_store w) (st_BrowserSessionIDHash t) = Some session \<and> ss_EnterpriseID session = st_EnterpriseID t
        \<and> ss_UserID session = st_UserID t \<and> userKey (st_EnterpriseID t) (st_UserID t) \<in> bm_users (bw_store w)
        \<and> st_ExpiresAt t = ss_AbsoluteExpiresAt session))"
proof -
  have so: "session_sound (browser.V w)" "token_sound (browser.V w)" using browser_reached(2)[OF assms] by (simp_all add: sound_def)
  obtain f where f: "inj_on f (dom (bm_accessTokens (bw_store w)))" "\<And>h t. bm_accessTokens (bw_store w) h = Some t \<Longrightarrow> rests_on (browser.V w) t (f h)"
    using so(2) by (auto simp: token_sound_def)
  have users: "userKey (ss_EnterpriseID r) (ss_UserID r) \<in> bm_users (bw_store w)" if "bm_sessions (bw_store w) i = Some r" for i r
    using so(1) that by (auto simp: session_sound_def session_ok_def)
  have "\<exists>code session. bm_codes (bw_store w) (f h) = Some code
        \<and> sc_ConsumedAt code = Some (st_CreatedAt t) \<and> st_CreatedAt t < sc_ExpiresAt code \<and> sc_ClientID code = st_ClientID t
        \<and> st_Audience t = st_ClientID t \<and> sc_BrowserSessionIDHash code = st_BrowserSessionIDHash t
        \<and> bm_sessions (bw_store w) (st_BrowserSessionIDHash t) = Some session \<and> ss_EnterpriseID session = st_EnterpriseID t
        \<and> ss_UserID session = st_UserID t \<and> userKey (st_EnterpriseID t) (st_UserID t) \<in> bm_users (bw_store w)
        \<and> st_ExpiresAt t = ss_AbsoluteExpiresAt session" if "bm_accessTokens (bw_store w) h = Some t" for h t
    using f(2)[OF that] users by (fastforce simp: rests_on_def)
  with f(1) show ?thesis by blast
qed

lemma access_token_rests_on_own_code_witness:
  "\<exists>h code. bm_accessTokens (bw_store (at_counts shop_sold 5 3 5)) (hashHex shop_secret) = Some shop_token
     \<and> bm_codes (bw_store (at_counts shop_sold 5 3 5)) h = Some code \<and> sc_ConsumedAt code = Some 1000 \<and> sc_ClientID code = ''console''"
proof -
  have t: "bm_accessTokens (bw_store (at_counts shop_sold 5 3 5)) (hashHex shop_secret) = Some shop_token" by simp
  have "st_CreatedAt shop_token = 1000" "st_ClientID shop_token = ''console''" by (simp_all add: shop_token_def)
  with t access_token_rests_on_own_code[OF shop_selectors(1) shop_steps(1,4)] show ?thesis by metis
qed

subsection \<open>Lifetimes\<close>

text \<open>A session resolves only before its absolute end, twenty-four hours after it was opened, and within eight hours of
  its last use; resolving it prolongs it by at most eight hours and never past that end.\<close>

theorem session_lifetime_is_bounded:
  assumes "sv_store sv = Some memory_browser" and "new_world w0" and "(service_step sv)\<^sup>*\<^sup>* w0 w" and "GetSession sv ctx token w = (Inr b, w1)"
  shows "let now = sv_now sv (bw_ticks w) in \<exists>r. bm_sessions (bw_store w) (hashHex token) = Some r \<and> ss_RevokedAt r = None
    \<and> now < ss_CreatedAt r + 24 * hour \<and> now < ss_LastSeenAt r + 8 * hour \<and> bs_EnterpriseID b = ss_EnterpriseID r \<and> bs_UserID b = ss_UserID r
    \<and> userKey (bs_EnterpriseID b) (bs_UserID b) \<in> bm_users (bw_store w) \<and> now < bs_IdleExpiresAt b \<and> bs_IdleExpiresAt b \<le> now + 8 * hour
    \<and> bs_IdleExpiresAt b \<le> bs_AbsoluteExpiresAt b \<and> bs_AbsoluteExpiresAt b = ss_CreatedAt r + 24 * hour"
proof -
  note wf = browser_reached(1)[OF assms(1-3)] and so = browser_reached(2)[OF assms(1-3)]
  from wp_Inr[OF browser.GetSession_run[OF assms(1) wf] assms(4)] obtain r where
      r: "bm_sessions (bw_store w) (hashHex token) = Some r" "session_live r (sv_now sv (bw_ticks w))"
      and b: "b = publicSession (touched r (sv_now sv (bw_ticks w)) defaultIdleTimeout)"
    by (auto simp: session_used_def)
  have ok: "session_ok (bm_users (bw_store w)) (hashHex token) r" using so r(1) by (auto simp: sound_def session_sound_def)
  have "0 < hour" by (simp add: timeout_defs)
  with ok r show ?thesis
    by (auto simp: Let_def b session_ok_def session_live_def publicSession_def touched_def defaultIdleTimeout_def defaultAbsoluteTimeout_def)
qed

lemma session_lifetime_is_bounded_witness:
  "\<exists>b w. GetSession shop shop_ctx shop_secret (at_counts shop_opened 1 1 2) = (Inr b, w) \<and> bs_IdleExpiresAt b \<le> 1000 + 8 * hour
     \<and> bs_AbsoluteExpiresAt b = 1000 + 24 * hour"
  using session_lifetime_is_bounded[OF shop_selectors(1) shop_steps(1,2) shop_gets] shop_gets
  by (auto simp: Let_def shop_session_def)

subsection \<open>Outstanding logins\<close>

text \<open>C34: in every reachable store the bookkeeping of outstanding logins (expiry heap, generations, two tables of counters) is
  exact: creating and consuming an attempt answer and leave what a reference does that filters the expired attempts and
  counts the ones left of the tenant's client and of the browser against the two limits.\<close>

theorem login_bookkeeping_is_exact:
  assumes "sv_store sv = Some memory_browser" and "new_world w0" and "(service_step sv)\<^sup>*\<^sup>* w0 w" and "ready p (bw_store w)"
  shows "(case bm_ConsumeLoginAttempt p stateHash bindingHash now (bw_store w) of (r, s') \<Rightarrow>
        (r, bm_loginAttempts s') = ref_consume stateHash bindingHash now (bm_loginAttempts (bw_store w)) \<and> same_rest (bw_store w) s')
    \<and> (proper login \<longrightarrow> (case bm_CreateLoginAttempt p login limits (bw_store w) of (r, s') \<Rightarrow>
        (r, bm_loginAttempts s') = ref_create login limits (bm_loginAttempts (bw_store w)) \<and> same_rest (bw_store w) s'))"
proof -
  have wf: "logins_wf (bw_store w)" using browser_reached(1)[OF assms(1-3)] by (simp add: bm_wf_def)
  show ?thesis
    using consume_refines[OF wf assms(4)] create_refines[OF wf assms(4)] by (auto split: prod.split)
qed

definition shop_login :: storedLoginAttempt where
  "shop_login = \<lparr>sl_StateHash = ''state'', sl_BindingHash = ''binding'', sl_BrowserIDHash = ''browser'', sl_LoginAttempt =
     \<lparr>la_EnterpriseID = ''acme'', la_ClientID = ''console'', la_RedirectURI = ''/cb'', la_ConsoleState = ''s'', la_ConsoleNonce = ''n'',
      la_CodeChallenge = ''c'', la_UpstreamNonce = ''u'', la_CreatedAt = 1000, la_ExpiresAt = 1000 + defaultLoginTimeout\<rparr>\<rparr>"

lemma login_bookkeeping_is_exact_witness:
  "\<exists>s. bm_CreateLoginAttempt (None, None) shop_login DefaultLoginAttemptLimits (bw_store (at_counts shop_sold 5 3 5)) = (Inr (), s)
     \<and> bm_loginAttempts s = [''state'' \<mapsto> shop_login]"
proof -
  have r: "ready (None, None) (bw_store (at_counts shop_sold 5 3 5))" by (simp add: ready_def)
  have p: "proper shop_login" by (simp add: proper_def shop_login_def timeout_defs)
  have l: "bm_loginAttempts shop_sold = Map.empty" by (simp add: shop_stores)
  obtain r s where c: "bm_CreateLoginAttempt (None, None) shop_login DefaultLoginAttemptLimits (bw_store (at_counts shop_sold 5 3 5)) = (r, s)"
    by (metis surj_pair)
  from login_bookkeeping_is_exact[OF shop_selectors(1) shop_steps(1,4) r, of "[]" "[]" 0 shop_login DefaultLoginAttemptLimits] p
  have "(r, bm_loginAttempts s) = ref_create shop_login DefaultLoginAttemptLimits Map.empty"
    unfolding c by (simp add: l)
  moreover have "ref_create shop_login DefaultLoginAttemptLimits Map.empty = (Inr (), [''state'' \<mapsto> shop_login])"
    by (simp add: ref_create_def attempts_in_def DefaultLoginAttemptLimits_def defaultGlobalLoginAttemptLimit_def
        defaultPerBrowserLoginAttemptLimit_def shop_login_def)
  ultimately show ?thesis using c by auto
qed

end
