(* ===== verification/Spec2Isabelle.thy ===== *)
theory Spec2Isabelle
  imports ActionCrashes TicketLaws AuditLedger ApprovalLaws CapabilityLaws ControlPlane AgentTrustProperties TrustContextProperties EvidenceProperties BrowserProperties
begin

text \<open>
  AgentNexus lets agents act on enterprise systems under governance. A request enters through an HTTP ingress that
  derives one trusted principal context from one credential; an agent release is assessed against a certification
  registry; capabilities are decided on a sealed organisation snapshot; evidence is located, staged encrypted and read
  back through opaque handles; an action is requested, approved by the enterprise's own approval authority, granted,
  dispatched through an outbox and completed by a verified receipt; every step is appended to a signed, hash-linked
  audit chain that can be verified offline. This development models the Go code of these parts under
  \<^verbatim>\<open>src/sdk/go\<close> and \<^verbatim>\<open>src/services/agentnexus/internal\<close> and proves what each of them promises.

  \<^bold>\<open>What the source uses of Go.\<close>
  \<^item> \<open>Prelude\<close>: errors with the shape of wrapped Go errors (\<open>errors.Is\<close>, \<open>errors.Join\<close>), an \<open>effect\<close> (a function of the
    world to an error or a value, and the world it leaves), its weakest preconditions, instants and durations in nanoseconds.
  \<^item> \<open>GoStrings\<close>, \<open>GoCrypto\<close> (SHA-256 written out, the interface of Ed25519), \<open>GoJson\<close> (\<open>json.Valid\<close>), \<open>GoEncoding\<close>
    (\<open>json.Marshal\<close> of the audit event, byte for byte), \<open>GoBase64\<close>, \<open>GoBase64Url\<close>, \<open>GoHttp\<close>. Strings are lists of bytes.

  \<^bold>\<open>The runtime contract\<close> (\<^verbatim>\<open>sdk/go/runtime\<close>): \<open>RuntimeContract\<close>, \<open>RuntimeTypes\<close>, \<open>RuntimeEvidence\<close>, \<open>RuntimeTrust\<close> hold the
  wire types and their \<open>Validate\<close> methods, which the services call before anything else.

  \<^bold>\<open>The action plane\<close> (\<^verbatim>\<open>internal/actions\<close>).
  \<open>ActionLifecycle\<close> is the transition table of state\_machine.go. \<open>ActionStore\<close> has the \<open>Store\<close> interface as a record of
  operations (\<open>ActionStoreOps\<close>) and the in-memory store of model.go (operations \<open>mm_*\<close>), \<open>ActionService\<close> the handlers of
  service.go, outbox.go, compensate.go, reconcile.go and binding.go over any store. \<open>ActionStoreLaws\<close> gives the store a step
  relation and an invariant; \<open>ActionContract\<close> is the contract as a locale with the in-memory store as its interpretation;
  \<open>ActionServiceLaws\<close> proves the handlers over the locale; \<open>ActionRuns\<close> shows that runs of calls refine the steps, and that
  every change is audited; \<open>ActionProperties\<close> the drains, dead letters, replays and compensation. \<open>ActionCrashes\<close> lets a process
  die around a publish and cut a drain short: delivery is at least once, and what is delivered again is identical.

  \<^bold>\<open>Grants and approvals.\<close> \<open>Tickets\<close> and \<open>TicketLaws\<close>: \<^verbatim>\<open>internal/tickets\<close> (case tickets, step grants, one-use action grants).
  \<open>ApprovalTransport\<close> and \<open>ApprovalLaws\<close>: \<^verbatim>\<open>internal/approvaltransport\<close>, the transmission of a plan and the one decision that
  comes back; its lifecycle is a step relation that every run of the service refines. \<open>ControlPlane\<close>: the adapter of
  \<^verbatim>\<open>internal/app/postgres_gateway.go\<close> that makes the approval store the evidence port of the action service; calls of both
  services interleave over one approval store.

  \<^bold>\<open>Who may do what.\<close> \<open>CapabilityPolicy\<close>, \<open>CapabilityLaws\<close>: \<^verbatim>\<open>internal/policy\<close>, the sealing of an organisation snapshot and
  the decision on it. \<open>AgentTrust\<close>, \<open>AgentTrustLaws\<close>, \<open>AgentTrustProperties\<close>: \<^verbatim>\<open>internal/agenttrust\<close>, registration, certification,
  revocation, assessment. \<open>TrustContext\<close>, \<open>TrustContextLaws\<close>, \<open>TrustContextProperties\<close>: \<^verbatim>\<open>internal/trust/context.go\<close>, the ingress;
  \<open>vouches\<close>, \<open>admissible\<close> and \<open>context_of\<close> specify it without its control flow. \<open>BrowserAuth\<close> (in-memory store),
  \<open>BrowserService\<close> (service and the adapters through which the ingress sees it), \<open>BrowserLogins\<close>, \<open>BrowserLaws\<close>, \<open>BrowserRuns\<close>,
  \<open>BrowserProperties\<close>: \<^verbatim>\<open>internal/browserauth\<close>, browser sessions, PKCE codes, access tokens, outstanding logins.

  \<^bold>\<open>The evidence plane\<close> (\<^verbatim>\<open>internal/evidence\<close>). \<open>Evidence\<close> has the records, the in-memory store, object store and key
  providers, and the service: \<open>Locate\<close>, \<open>ReadEvidence\<close>, revocation, invalidation, the retention sweep. \<open>EvidenceLaws\<close> is the
  interface of the store as a locale over three look-ups, \<open>EvidenceRuns\<close> the service over it, \<open>EvidenceMemory\<close> its interpretation,
  \<open>EvidenceCleanup\<close> failed locates and sweeps, \<open>EvidenceReads\<close> what a read checked, \<open>EvidenceProperties\<close> the promises.

  \<^bold>\<open>The audit chain.\<close> \<open>AuditMerkle\<close>, \<open>AuditChain\<close>, \<open>AuditLaws\<close>, \<open>AuditBundle\<close>: \<^verbatim>\<open>sdk/go/audit\<close>, batch roots and witnesses, canonical
  form, hash, signature, chain verification, offline packages. \<open>AuditLedger\<close>: \<^verbatim>\<open>internal/audit\<close>, the durable rows, the
  signing port and the export.

  \<^bold>\<open>Shape.\<close> Every store is an interface: a record of operations over a state of its own. Its contract is a locale
  (\<open>action_store\<close>, \<open>governed_store\<close>, \<open>approval_store\<close>, \<open>trust_registry\<close>, \<open>evidence_store\<close>, \<open>browser_store\<close>, \<open>batch_signer\<close>) that speaks of
  views of the state; the services are verified over the locale and the in-memory store of the source is its interpretation.
  A handler is proved by its weakest precondition (\<open>wp_simps\<close>), a run by induction over the calls, an invariant once for
  the step relation. Each property is followed by a witness that applies it to a concrete run.

  \<^bold>\<open>Assumptions.\<close>
  \<^item> Clock, identifier, token and nonce generators are streams; sinks, channels, transports and other ports answer their n-th
    call by any function, so with any pattern of outages. Where a property needs more it says so: identifiers that do not
    repeat (128 random bits in the source), a clock past the zero instant, tenants without a NUL byte (the stores join their
    keys with it).
  \<^item> Calls run one after the other: the in-memory stores lock around each operation. Crashes are events of \<open>ActionCrashes\<close>.
    In the handlers of a service nothing is rolled back on an error.
  \<^item> The order in which Go ranges over a map is a parameter, or an association list whose order stands for it.
  \<^item> Ed25519 is a record of functions; \<open>honest_key\<close> is its documented behaviour for a generated key and is asked of that key
    alone. AES-GCM and the JSON codec of the evidence plane are parameters; \<open>honest_codec\<close> says that what was encoded is
    decoded. Statements on hashes hold up to a SHA-256 collision among named strings. \<open>container/heap\<close> is a list in the
    order of \<open>Less\<close>.
  \<^item> Counters (revisions, sequences of the trust registry) are unbounded; the sequence of the audit chain and the
    generations of logins are 64-bit words.

  \<^bold>\<open>Loops and fuel.\<close> Recursion is structural or on a measure (the Merkle levels, the colour-marking walk over an organisation
  graph), with four exceptions. The walk to a unit's ancestors may run forever in principle and is a partial function; it is
  shown to return on every sealed graph (theory \<open>CapabilityLaws\<close>). \<open>strings.TrimSpace\<close> and \<open>json.Valid\<close> have the length of
  their input as fuel, which is enough (\<open>trim_runes_enough\<close>, \<open>json_fuel_enough\<close>). The retention sweep lists again until nothing is due
  and has fuel for its batches; one more than the contents not yet expired is enough (theory \<open>EvidenceProperties\<close>). The claim
  loop of the outbox is bounded by the source, at 1000 rows a drain.

  \<^bold>\<open>Not modelled.\<close> The Postgres stores and gateways (SQL), HTTP handlers, NATS transports and connector processes,
  configuration, generated queries, the clients of language-model routers and secret services; the source catalog and the
  file-backed object store of the evidence plane; the upstream OIDC client and the rate limiters of browser authentication;
  the JSON transport of audit packages; loggers and test observers.
\<close>

end
